(* ===== verification/Prelude.thy ===== *)
theory Prelude
  imports Main
begin

text \<open>
  What the component theories share: the parts of the Go language and of its standard library the
  program uses (64-bit integers, instants and durations, byte strings, decimal formatting and
  parsing, splitting and joining), the lemma collections, and generic facts on lists and maps.

  \<^item> A Go \<^verbatim>\<open>string\<close> is a byte string, a \<^typ>\<open>string\<close>. \<^verbatim>\<open>strings.ToLower\<close> is modelled on its
    ASCII path: bytes outside \<open>A\<close> to \<open>Z\<close> are unchanged.
  \<^item> An instant (\<^verbatim>\<open>time.Time\<close>) is its number of nanoseconds since the Unix epoch, an unbounded
    \<^typ>\<open>int\<close> (Go keeps 64 bits of seconds beside the nanoseconds). A \<^verbatim>\<open>time.Duration\<close> is an
    \<^verbatim>\<open>int64\<close> of nanoseconds, so products of a count and a unit wrap around, and
    \<^verbatim>\<open>Time.Sub\<close> saturates.
\<close>

section \<open>Lemma collections\<close>

named_theorems go_defs \<open>definitions of the Go primitives, for evaluation\<close>

section \<open>Machine integers\<close>

definition int64 :: "int \<Rightarrow> int" where
  "int64 i = (i + 2 ^ 63) mod 2 ^ 64 - 2 ^ 63"

definition is_int64 :: "int \<Rightarrow> bool" where
  "is_int64 i \<longleftrightarrow> - (2 ^ 63) \<le> i \<and> i < 2 ^ 63"

lemma int64_id: "is_int64 i \<Longrightarrow> int64 i = i"
  by (simp add: int64_def is_int64_def)

lemma is_int64_int64: "is_int64 (int64 i)"
  by (simp add: int64_def is_int64_def)

lemma int64_idem [simp]: "int64 (int64 i) = int64 i"
  by (simp add: int64_id is_int64_int64)

section \<open>Time\<close>

type_synonym time = int
type_synonym duration = int

definition Millisecond :: duration where "Millisecond = 1000000"
definition Second :: duration where "Second = 1000000000"
definition Minute :: duration where "Minute = 60 * 1000000000"
definition Hour :: duration where "Hour = 3600 * 1000000000"

lemmas duration_units [go_defs] = Second_def Minute_def Hour_def

text \<open>The zero \<^verbatim>\<open>time.Time\<close>: January 1 of year 1, UTC.\<close>

definition zeroTime :: time where
  "zeroTime = - 62135596800 * 1000000000"

text \<open>\<^verbatim>\<open>time.Duration(n) * unit\<close>: both factors and the product are 64-bit integers.\<close>

definition dur_mul :: "int \<Rightarrow> duration \<Rightarrow> duration" where
  "dur_mul n unit = int64 (int64 n * unit)"

text \<open>\<^verbatim>\<open>t.Sub(u)\<close> saturates at the least and the greatest duration.\<close>

definition time_sub :: "time \<Rightarrow> time \<Rightarrow> duration" where
  "time_sub t u = max (- (2 ^ 63)) (min (2 ^ 63 - 1) (t - u))"

lemma dur_mul_Minute:
  assumes "0 \<le> n" and "n \<le> 153722867"
  shows "dur_mul n Minute = n * Minute"
proof -
  have "int64 n = n" using assms by (intro int64_id) (auto simp: is_int64_def)
  moreover have "int64 (n * Minute) = n * Minute"
    using assms by (intro int64_id) (auto simp: is_int64_def Minute_def)
  ultimately show ?thesis by (simp add: dur_mul_def)
qed

section \<open>Strings\<close>

definition lower_char :: "char \<Rightarrow> char" where
  "lower_char c = (if 65 \<le> (of_char c :: nat) \<and> (of_char c :: nat) \<le> 90
                   then char_of ((of_char c :: nat) + 32) else c)"

definition to_lower :: "string \<Rightarrow> string" where
  "to_lower s = map lower_char s"

fun has_prefix :: "string \<Rightarrow> string \<Rightarrow> bool" where
  "has_prefix s [] = True"
| "has_prefix [] (c # cs) = False"
| "has_prefix (d # ds) (c # cs) = (d = c \<and> has_prefix ds cs)"

fun str_contains :: "string \<Rightarrow> string \<Rightarrow> bool" where
  "str_contains [] sub = (sub = [])"
| "str_contains (c # cs) sub = (has_prefix (c # cs) sub \<or> str_contains cs sub)"

text \<open>\<^verbatim>\<open>strings.Join\<close>.\<close>

fun join :: "string \<Rightarrow> string list \<Rightarrow> string" where
  "join sep [] = []"
| "join sep [s] = s"
| "join sep (s # t # ts) = s @ sep @ join sep (t # ts)"

text \<open>\<^verbatim>\<open>strings.Split\<close> on a one-byte separator: always at least one part.\<close>

fun split_on :: "char \<Rightarrow> string \<Rightarrow> string list" where
  "split_on c [] = [[]]"
| "split_on c (d # ds) =
     (if d = c then [] # split_on c ds
      else (case split_on c ds of [] \<Rightarrow> [[d]] | p # ps \<Rightarrow> (d # p) # ps))"

text \<open>\<^verbatim>\<open>strings.SplitN(s, c, 2)\<close>: cut at the first separator, if there is one.\<close>

fun split2 :: "char \<Rightarrow> string \<Rightarrow> string list" where
  "split2 c [] = [[]]"
| "split2 c (d # ds) =
     (if d = c then [[], ds]
      else (case split2 c ds of [] \<Rightarrow> [[d]] | p # ps \<Rightarrow> (d # p) # ps))"

text \<open>\<^verbatim>\<open>strings.TrimSpace\<close> on ASCII white space.\<close>

definition is_space :: "char \<Rightarrow> bool" where
  "is_space c \<longleftrightarrow> c = CHR '' '' \<or> (9 \<le> (of_char c :: nat) \<and> (of_char c :: nat) \<le> 13)"

definition trim_space :: "string \<Rightarrow> string" where
  "trim_space s = rev (dropWhile is_space (rev (dropWhile is_space s)))"

lemma lower_char_ascii: "(of_char (lower_char c) :: nat) < 65 \<or> (of_char (lower_char c) :: nat) > 90"
proof (cases "65 \<le> (of_char c :: nat) \<and> (of_char c :: nat) \<le> 90")
  case True
  then have "(of_char (lower_char c) :: nat) = of_char c + 32"
    by (simp add: lower_char_def)
  with True show ?thesis by simp
next
  case False
  then show ?thesis by (auto simp: lower_char_def)
qed

lemma lower_char_idem [simp]: "lower_char (lower_char c) = lower_char c"
  using lower_char_ascii [of c] by (auto simp: lower_char_def [of "lower_char c"])

lemma to_lower_idem [simp]: "to_lower (to_lower s) = to_lower s"
  by (simp add: to_lower_def)

lemma has_prefix_iff: "has_prefix s p \<longleftrightarrow> (\<exists>q. s = p @ q)"
  by (induction s p rule: has_prefix.induct) auto

lemma str_contains_iff: "str_contains s sub \<longleftrightarrow> (\<exists>p q. s = p @ sub @ q)"
proof (induction s)
  case Nil
  then show ?case by auto
next
  case (Cons c cs)
  have "(\<exists>p q. c # cs = p @ sub @ q) \<longleftrightarrow>
      (\<exists>q. c # cs = sub @ q) \<or> (\<exists>p q. cs = p @ sub @ q)" (is "?l \<longleftrightarrow> ?r")
  proof
    assume ?l
    then obtain p q where pq: "c # cs = p @ sub @ q" by blast
    show ?r
    proof (cases p)
      case Nil
      with pq show ?thesis by auto
    next
      case (Cons d ds)
      with pq have "cs = ds @ sub @ q" by simp
      then show ?thesis by blast
    qed
  next
    assume ?r
    then show ?l
      by (metis append_Cons append_Nil)
  qed
  with Cons show ?case by (simp add: has_prefix_iff)
qed

lemma split_on_nonempty [simp]: "split_on c s \<noteq> []"
  by (induction s) (auto split: list.splits)

lemma split_on_parts: "p \<in> set (split_on c s) \<Longrightarrow> c \<notin> set p"
  by (induction s arbitrary: p) (auto split: list.splits if_splits)

lemma join_split_on: "join [c] (split_on c s) = s"
proof (induction s)
  case Nil
  then show ?case by simp
next
  case (Cons d ds)
  show ?case
  proof (cases "split_on c ds")
    case Nil
    then show ?thesis by simp
  next
    case (Cons p ps)
    with Cons.IH show ?thesis by (cases ps) auto
  qed
qed

lemma split2_append: "c \<notin> set s \<Longrightarrow> split2 c (s @ c # t) = [s, t]"
  by (induction s) auto

section \<open>Decimal formatting and parsing\<close>

definition digit_char :: "nat \<Rightarrow> char" where
  "digit_char d = char_of (48 + d)"

fun nat_str :: "nat \<Rightarrow> string" where
  "nat_str n = (if n < 10 then [digit_char n] else nat_str (n div 10) @ [digit_char (n mod 10)])"

declare nat_str.simps [simp del]

text \<open>\<^verbatim>\<open>fmt.Sprintf("%d", i)\<close> and \<^verbatim>\<open>strconv.FormatInt(i, 10)\<close>.\<close>

definition itoa :: "int \<Rightarrow> string" where
  "itoa i = (if i < 0 then CHR ''-'' # nat_str (nat (- i)) else nat_str (nat i))"

definition is_digit :: "char \<Rightarrow> bool" where
  "is_digit c \<longleftrightarrow> 48 \<le> (of_char c :: nat) \<and> (of_char c :: nat) \<le> 57"

definition digits_val :: "string \<Rightarrow> nat" where
  "digits_val s = foldl (\<lambda>a c. 10 * a + (of_char c - 48)) 0 s"

text \<open>
  \<^verbatim>\<open>strconv.ParseInt(s, 10, 64)\<close> and \<^verbatim>\<open>strconv.Atoi\<close>: an optional sign, at least one digit, a value
  of 64 bits; \<^verbatim>\<open>None\<close> is the error.
\<close>

definition parse_nat :: "string \<Rightarrow> nat option" where
  "parse_nat s = (if s \<noteq> [] \<and> list_all is_digit s then Some (digits_val s) else None)"

definition parse_sign :: "string \<Rightarrow> int option" where
  "parse_sign s =
     (case s of
        [] \<Rightarrow> None
      | c # cs \<Rightarrow>
          (if c = CHR ''-'' then map_option (\<lambda>n. - int n) (parse_nat cs)
           else if c = CHR ''+'' then map_option int (parse_nat cs)
           else map_option int (parse_nat s)))"

definition parse_int64 :: "string \<Rightarrow> int option" where
  "parse_int64 s =
     (case parse_sign s of
        None \<Rightarrow> None
      | Some i \<Rightarrow> (if is_int64 i then Some i else None))"

lemma of_char_digit: "d < 10 \<Longrightarrow> (of_char (digit_char d) :: nat) = 48 + d"
  by (simp add: digit_char_def)

lemma is_digit_digit_char [simp]: "d < 10 \<Longrightarrow> is_digit (digit_char d)"
  by (simp add: is_digit_def of_char_digit)

lemma nat_str_nonempty [simp]: "nat_str n \<noteq> []"
  by (subst nat_str.simps) simp

lemma nat_str_digits: "list_all is_digit (nat_str n)"
proof (induction n rule: nat_str.induct)
  case (1 n)
  show ?case
  proof (cases "n < 10")
    case True
    then show ?thesis by (subst nat_str.simps) simp
  next
    case False
    with "1.IH" show ?thesis
      by (subst nat_str.simps) simp
  qed
qed

lemma digits_val_nat_str [simp]: "digits_val (nat_str n) = n"
proof (induction n rule: nat_str.induct)
  case (1 n)
  show ?case
  proof (cases "n < 10")
    case True
    then show ?thesis by (subst nat_str.simps) (simp add: digits_val_def of_char_digit)
  next
    case False
    with "1.IH" have "digits_val (nat_str (n div 10)) = n div 10" by simp
    with False show ?thesis
      by (subst nat_str.simps) (simp add: digits_val_def of_char_digit)
  qed
qed

lemma is_digit_minus [simp]: "\<not> is_digit (CHR ''-'')" "\<not> is_digit (CHR ''+'')"
  by (simp_all add: is_digit_def)

lemma parse_nat_nat_str [simp]: "parse_nat (nat_str n) = Some n"
  by (simp add: parse_nat_def nat_str_digits)

lemma parse_sign_nat_str [simp]: "parse_sign (nat_str n) = Some (int n)"
proof -
  obtain c cs where c: "nat_str n = c # cs" by (cases "nat_str n") auto
  have "is_digit c" using nat_str_digits [of n] c by simp
  then have "c \<noteq> CHR ''-''" "c \<noteq> CHR ''+''" by auto
  with c show ?thesis using parse_nat_nat_str [of n] by (simp add: parse_sign_def)
qed

lemma parse_sign_itoa [simp]: "parse_sign (itoa i) = Some i"
proof (cases "i < 0")
  case True
  then show ?thesis by (simp add: itoa_def) (simp add: parse_sign_def)
next
  case False
  then show ?thesis by (simp add: itoa_def)
qed

lemma parse_int64_itoa: "is_int64 i \<Longrightarrow> parse_int64 (itoa i) = Some i"
  by (simp add: parse_int64_def)

lemma itoa_inject [simp]: "itoa i = itoa j \<longleftrightarrow> i = j"
  by (metis option.inject parse_sign_itoa)

lemma itoa_chars: "c \<in> set (itoa i) \<Longrightarrow> c = CHR ''-'' \<or> is_digit c"
  using nat_str_digits by (auto simp: itoa_def list_all_iff split: if_splits)

text \<open>A separator that is neither a digit nor a minus sign cuts a formatted integer off.\<close>

lemma itoa_sep_inject:
  assumes "\<not> is_digit sep" "sep \<noteq> CHR ''-''"
  shows "itoa i @ sep # s = itoa j @ sep # t \<longleftrightarrow> i = j \<and> s = t"
proof -
  have "sep \<notin> set (itoa i)" "sep \<notin> set (itoa j)" using assms itoa_chars by auto
  then have "[itoa i, s] = split2 sep (itoa i @ sep # s)" "[itoa j, t] = split2 sep (itoa j @ sep # t)"
    by (simp_all add: split2_append)
  then show ?thesis by (metis itoa_inject list.inject)
qed

lemma itoa_no_sep:
  assumes "\<not> is_digit sep" "sep \<noteq> CHR ''-''"
  shows "itoa i \<noteq> itoa j @ sep # t"
proof
  assume eq: "itoa i = itoa j @ sep # t"
  then have "sep \<in> set (itoa i)" by simp
  with assms itoa_chars show False by auto
qed

section \<open>Generic facts\<close>

lemma filter_none: "(\<And>x. x \<in> set xs \<Longrightarrow> \<not> P x) \<Longrightarrow> filter P xs = []"
  by (induction xs) auto

lemma map_upd_other [simp]: "k \<noteq> k' \<Longrightarrow> (m(k \<mapsto> v)) k' = m k'"
  by simp

section \<open>Quoted strings\<close>

definition bslash :: char where "bslash = CHR 0x5C"

text \<open>\<^verbatim>\<open>%q\<close> of a string: double quotes, with the escapes of \<^verbatim>\<open>strconv.Quote\<close> for ASCII.\<close>

definition hex_digit :: "nat \<Rightarrow> char" where
  "hex_digit n = (if n < 10 then char_of (48 + n) else char_of (87 + n))"

definition go_quote_char :: "char \<Rightarrow> string" where
  "go_quote_char c =
     (let n = (of_char c :: nat)
      in if c = CHR 0x22 \<or> c = bslash then [bslash, c]
         else if n = 7 then [bslash, CHR ''a'']
         else if n = 8 then [bslash, CHR ''b'']
         else if n = 12 then [bslash, CHR ''f'']
         else if n = 10 then [bslash, CHR ''n'']
         else if n = 13 then [bslash, CHR ''r'']
         else if n = 9 then [bslash, CHR ''t'']
         else if n = 11 then [bslash, CHR ''v'']
         else if n < 32 \<or> n = 127 then [bslash, CHR ''x'', hex_digit (n div 16), hex_digit (n mod 16)]
         else [c])"

definition go_quote :: "string \<Rightarrow> string" where
  "go_quote s = CHR 0x22 # concat (map go_quote_char s) @ [CHR 0x22]"

end
