(* ===== verification/AlertModel.thy ===== *)
theory AlertModel
  imports Prelude
begin

text \<open>
  The data the alert engine works on: alert rules, field conditions, ingested entries and the
  payload of a notification (\<^verbatim>\<open>model/alert.go\<close>, \<^verbatim>\<open>model/log.go\<close>, \<^verbatim>\<open>notify/notify.go\<close>).
  Timestamps the engine only carries along are not kept.
\<close>

section \<open>Rule types\<close>

definition RuleTypeLogThreshold :: string where "RuleTypeLogThreshold = ''log_threshold''"
definition RuleTypeDeviceSilence :: string where "RuleTypeDeviceSilence = ''device_silence''"
definition RuleTypeAuditLog :: string where "RuleTypeAuditLog = ''audit_log''"
definition RuleTypeRelayCertExpiring :: string where "RuleTypeRelayCertExpiring = ''relay_cert_expiring''"
definition RuleTypeMalformedJSON :: string where "RuleTypeMalformedJSON = ''malformed_json''"

lemmas rule_type_defs [go_defs] = RuleTypeLogThreshold_def RuleTypeDeviceSilence_def RuleTypeAuditLog_def
  RuleTypeRelayCertExpiring_def RuleTypeMalformedJSON_def

definition AdminOnlyRuleTypes :: "string list" where
  "AdminOnlyRuleTypes = [RuleTypeAuditLog, RuleTypeRelayCertExpiring, RuleTypeMalformedJSON]"

fun any_eq :: "string \<Rightarrow> string list \<Rightarrow> bool" where
  "any_eq x [] = False"
| "any_eq x (y # ys) = (if x = y then True else any_eq x ys)"

definition IsAdminOnlyRuleType :: "string \<Rightarrow> bool" where
  "IsAdminOnlyRuleType ruleType = any_eq ruleType AdminOnlyRuleTypes"

lemma any_eq_iff [simp]: "any_eq x ys \<longleftrightarrow> x \<in> set ys"
  by (induction ys) auto

section \<open>Field conditions\<close>

definition FieldOpEquals :: string where "FieldOpEquals = ''equals''"
definition FieldOpContains :: string where "FieldOpContains = ''contains''"
definition FieldOpNotEquals :: string where "FieldOpNotEquals = ''not_equals''"
definition FieldOpRegex :: string where "FieldOpRegex = ''regex''"
definition FieldConditionsLogicAnd :: string where "FieldConditionsLogicAnd = ''and''"
definition FieldConditionsLogicOr :: string where "FieldConditionsLogicOr = ''or''"

lemmas field_op_defs [go_defs] = FieldOpEquals_def FieldOpContains_def FieldOpNotEquals_def FieldOpRegex_def
  FieldConditionsLogicAnd_def FieldConditionsLogicOr_def

record AlertFieldCondition =
  fc_ID :: int
  fc_FieldName :: string
  fc_Operator :: string
  fc_Value :: string

record Alert =
  al_ID :: int
  al_Name :: string
  al_RuleType :: string
  al_Severity :: string
  al_DeviceIPs :: "string list"
  al_ParserNames :: "string list"
  al_FieldConditions :: "AlertFieldCondition list"
  al_FieldConditionsLogic :: string
  al_MessagePattern :: string
  al_Threshold :: int
  al_WindowMinutes :: int
  al_CooldownMinutes :: int
  al_FireOnEveryMatch :: bool
  al_AuditActionFilter :: string
  al_IsActive :: bool
  al_CreatedBy :: "int option"
  al_ChannelIDs :: "int list"
  al_Description :: string
  al_CreatedAt :: time
  al_UpdatedAt :: time
  al_LastFiredAt :: "time option"

section \<open>Ingested entries and payloads\<close>

text \<open>
  \<open>ie_ParsedFields\<close> is the JSON text of the parsed fields, as the code keeps it
  (\<^verbatim>\<open>ParsedFields []byte\<close>).
\<close>

record IngestEntry =
  ie_Timestamp :: string
  ie_Hostname :: string
  ie_FromHostIP :: string
  ie_AppName :: string
  ie_ProcessID :: string
  ie_MsgID :: string
  ie_Severity :: string
  ie_Facility :: string
  ie_Message :: string
  ie_RawMessage :: string
  ie_ViaRelay :: string
  ie_ParsedFields :: string
  ie_MatchedParsers :: "string list"

record TriggerLogSnapshot =
  tl_Timestamp :: string
  tl_Hostname :: string
  tl_FromHostIP :: string
  tl_AppName :: string
  tl_Severity :: string
  tl_Message :: string

record AuditLogRef =
  ar_Action :: string
  ar_Username :: string
  ar_UserIP :: string
  ar_Details :: string
  ar_Timestamp :: string

record Payload =
  pl_Title :: string
  pl_Message :: string
  pl_Severity :: string
  pl_Link :: string
  pl_AlertRuleType :: string
  pl_TriggerLog :: "TriggerLogSnapshot option"
  pl_AuditLogRef :: "AuditLogRef option"
  pl_MatchedConditions :: "string list"

end
