(* ===== verification/Regex.thy ===== *)
theory Regex
  imports Prelude
begin

text \<open>
  Regular expressions. Patterns users write (parser rules, the \<^verbatim>\<open>regex\<close> operator of an alert's
  field condition) are compiled by Go's \<^verbatim>\<open>regexp\<close> package; the definitions that use them take the
  compiler as a parameter of type \<open>regexp\<close>. The globs of the program are translated into pattern
  text first, and for that fragment of the syntax (\<^verbatim>\<open>^\<close>, literals, escaped punctuation, \<^verbatim>\<open>.\<close>,
  \<^verbatim>\<open>.*\<close>, \<^verbatim>\<open>$\<close>, the flags \<^verbatim>\<open>(?is)\<close>) this theory gives compilation and matching, one byte per
  rune.
\<close>

section \<open>Arbitrary patterns: a parameter\<close>

text \<open>
  \<^verbatim>\<open>regexp.Compile\<close>: \<^const>\<open>None\<close> is a pattern that does not compile; otherwise the function is
  \<^verbatim>\<open>FindStringSubmatch\<close>, whose answer, when there is a match, is the whole match followed by the
  groups.
\<close>

type_synonym regexp = "string \<Rightarrow> (string \<Rightarrow> string list option) option"

definition re_match :: "(string \<Rightarrow> string list option) \<Rightarrow> string \<Rightarrow> bool" where
  "re_match re s = (re s \<noteq> None)"

section \<open>The fragment of the glob translations\<close>

datatype re_item = Lit char | Any | AnyStar

definition metas :: string where
  "metas = bslash # ''.+*?()|[]{}^$''"

definition is_alnum :: "char \<Rightarrow> bool" where
  "is_alnum c \<longleftrightarrow> is_digit c \<or> (65 \<le> (of_char c :: nat) \<and> (of_char c :: nat) \<le> 90)
     \<or> (97 \<le> (of_char c :: nat) \<and> (of_char c :: nat) \<le> 122)"

fun re_items :: "string \<Rightarrow> re_item list option" where
  "re_items [] = None"
| "re_items [c] = (if c = CHR ''$'' then Some [] else None)"
| "re_items (c # d # cs) =
     (if c = bslash then
        (if is_alnum d then None else map_option (Cons (Lit d)) (re_items cs))
      else if c = CHR ''.'' then
        (if d = CHR ''*'' then map_option (Cons AnyStar) (re_items cs)
         else map_option (Cons Any) (re_items (d # cs)))
      else if c \<in> set metas then None
      else map_option (Cons (Lit c)) (re_items (d # cs)))"

text \<open>The flags \<^verbatim>\<open>i\<close> (ignore case) and \<^verbatim>\<open>s\<close> (let \<^verbatim>\<open>.\<close> match a newline) come together or not at all.\<close>

definition re_compile :: "string \<Rightarrow> (bool \<times> re_item list) option" where
  "re_compile s =
     (if has_prefix s ''(?is)^'' then map_option (Pair True) (re_items (drop 6 s))
      else if has_prefix s ''^'' then map_option (Pair False) (re_items (drop 1 s))
      else None)"

definition lit_eq :: "bool \<Rightarrow> char \<Rightarrow> char \<Rightarrow> bool" where
  "lit_eq is c d = (if is then lower_char c = lower_char d else c = d)"

definition dot_ok :: "bool \<Rightarrow> char \<Rightarrow> bool" where
  "dot_ok is d \<longleftrightarrow> is \<or> d \<noteq> CHR 0x0A"

fun re_run :: "bool \<Rightarrow> re_item list \<Rightarrow> string \<Rightarrow> bool" where
  "re_run is [] s = (s = [])"
| "re_run is (Lit c # r) [] = False"
| "re_run is (Lit c # r) (d # s) = (lit_eq is c d \<and> re_run is r s)"
| "re_run is (Any # r) [] = False"
| "re_run is (Any # r) (d # s) = (dot_ok is d \<and> re_run is r s)"
| "re_run is (AnyStar # r) [] = re_run is r []"
| "re_run is (AnyStar # r) (d # s) =
     (re_run is r (d # s) \<or> (dot_ok is d \<and> re_run is (AnyStar # r) s))"

section \<open>Matching, declaratively\<close>

text \<open>\<^verbatim>\<open>.*\<close> takes any prefix of bytes a dot may match.\<close>

lemma re_run_AnyStar:
  "re_run is (AnyStar # r) s \<longleftrightarrow> (\<exists>x y. s = x @ y \<and> list_all (dot_ok is) x \<and> re_run is r y)"
proof (induction s)
  case Nil
  then show ?case by auto
next
  case (Cons d s)
  show ?case
  proof
    assume "re_run is (AnyStar # r) (d # s)"
    then consider "re_run is r (d # s)" | "dot_ok is d" "re_run is (AnyStar # r) s" by auto
    then show "\<exists>x y. d # s = x @ y \<and> list_all (dot_ok is) x \<and> re_run is r y"
    proof cases
      case 1
      then show ?thesis by (intro exI [of _ "[]"] exI [of _ "d # s"]) simp
    next
      case 2
      then obtain x y where "s = x @ y" "list_all (dot_ok is) x" "re_run is r y" using Cons by blast
      with 2 show ?thesis by (intro exI [of _ "d # x"] exI [of _ y]) simp
    qed
  next
    assume "\<exists>x y. d # s = x @ y \<and> list_all (dot_ok is) x \<and> re_run is r y"
    then obtain x y where xy: "d # s = x @ y" "list_all (dot_ok is) x" "re_run is r y" by blast
    show "re_run is (AnyStar # r) (d # s)"
    proof (cases x)
      case Nil
      with xy have "y = d # s" by simp
      with xy(3) show ?thesis by simp
    next
      case x: (Cons e z)
      with xy have "s = z @ y" "dot_ok is d" "list_all (dot_ok is) z" by auto
      with xy(3) Cons have "re_run is (AnyStar # r) s" by blast
      with \<open>dot_ok is d\<close> show ?thesis by simp
    qed
  qed
qed

lemma re_run_Lits:
  "re_run is (map Lit p @ r) s \<longleftrightarrow>
    (\<exists>x y. s = x @ y \<and> list_all2 (lit_eq is) p x \<and> re_run is r y)"
proof (induction p arbitrary: s)
  case Nil
  then show ?case by simp
next
  case (Cons c p)
  show ?case
  proof (cases s)
    case Nil
    then show ?thesis by (auto simp: list_all2_Cons1)
  next
    case s: (Cons d s')
    have "re_run is (map Lit (c # p) @ r) s \<longleftrightarrow>
        lit_eq is c d \<and> (\<exists>x y. s' = x @ y \<and> list_all2 (lit_eq is) p x \<and> re_run is r y)"
      using Cons s by simp
    also have "\<dots> \<longleftrightarrow> (\<exists>x y. s = x @ y \<and> list_all2 (lit_eq is) (c # p) x \<and> re_run is r y)"
      by (auto simp: s list_all2_Cons1 Cons_eq_append_conv)
    finally show ?thesis .
  qed
qed

lemma lit_eq_ci: "list_all2 (lit_eq True) p x \<longleftrightarrow> to_lower p = to_lower x"
  by (simp add: lit_eq_def to_lower_def list_all2_conv_all_nth list_eq_iff_nth_eq) auto

lemma lit_eq_cs: "list_all2 (lit_eq False) p x \<longleftrightarrow> p = x"
proof -
  have "lit_eq False = (=)" by (intro ext) (simp add: lit_eq_def)
  then show ?thesis by (simp add: list.rel_eq)
qed

lemma dot_ok_s [simp]: "dot_ok True d"
  by (simp add: dot_ok_def)

lemma list_all_dot_s [simp]: "list_all (dot_ok True) x"
  by (simp add: list_all_iff)

end
