(* ===== verification/AlertMatch.thy ===== *)
theory AlertMatch
  imports AlertModel Regex
begin

text \<open>
  Which entries a rule matches: severities, devices, parsers, message patterns and field conditions
  (\<^verbatim>\<open>alertengine/engine.go\<close> and \<^verbatim>\<open>alertengine/fields.go\<close>). The pattern text
  \<^verbatim>\<open>globToRegex\<close> builds is compiled and run by \<open>Regex\<close>; the regular expressions of field
  conditions go to the parameter \<open>rx\<close>.
\<close>

section \<open>Severities\<close>

definition severityRank :: "string \<rightharpoonup> int" where
  "severityRank = map_of
     [(''emerg'', 0), (''emergency'', 0), (''alert'', 1), (''crit'', 2), (''critical'', 2),
      (''err'', 3), (''error'', 3), (''warning'', 4), (''warn'', 4), (''notice'', 5),
      (''info'', 6), (''debug'', 7)]"

definition meetsSeverity :: "string \<Rightarrow> string \<Rightarrow> bool" where
  "meetsSeverity entrySeverity minSeverity =
     (if minSeverity = [] then True
      else
        (case (severityRank (to_lower entrySeverity), severityRank (to_lower minSeverity)) of
           (Some er, Some mr) \<Rightarrow> er \<le> mr
         | _ \<Rightarrow> True))"

text \<open>A map read without a test gives the zero value for an absent key, here rank 0.\<close>

definition notifySeverity :: "string \<Rightarrow> string" where
  "notifySeverity s =
     (let r = (case severityRank (to_lower s) of None \<Rightarrow> 0 | Some r \<Rightarrow> r)
      in if r = 0 \<or> r = 1 \<or> r = 2 then ''critical''
         else if r = 3 then ''error''
         else if r = 4 then ''warning''
         else ''info'')"

section \<open>Message patterns\<close>

definition quote_char :: "char \<Rightarrow> string" where
  "quote_char c = (if c \<in> set metas then [bslash, c] else [c])"

definition QuoteMeta :: "string \<Rightarrow> string" where
  "QuoteMeta s = concat (map quote_char s)"

definition globToRegex :: "string \<Rightarrow> (bool \<times> re_item list) option" where
  "globToRegex pattern =
     re_compile (''(?is)^'' @ join ''.*'' (map QuoteMeta (split_on (CHR ''*'') pattern)) @ ''$'')"

definition matchPattern :: "string \<Rightarrow> string \<Rightarrow> bool" where
  "matchPattern pattern value =
     (if pattern = [] then True
      else if \<not> str_contains pattern ''*''
      then str_contains (to_lower value) (to_lower pattern)
      else
        (case globToRegex pattern of
           None \<Rightarrow> False
         | Some (is, items) \<Rightarrow> re_run is items value))"

section \<open>Devices, parsers, parsed fields\<close>

definition matchDevice :: "string list \<Rightarrow> string \<Rightarrow> bool" where
  "matchDevice deviceIPs fromHostIP =
     (if deviceIPs = [] then True else any_eq fromHostIP deviceIPs)"

fun matchParsers_loop :: "string list \<Rightarrow> string list \<Rightarrow> bool" where
  "matchParsers_loop [] matched = False"
| "matchParsers_loop (want # ws) matched = (any_eq want matched \<or> matchParsers_loop ws matched)"

definition matchParsers :: "string list \<Rightarrow> string list \<Rightarrow> bool" where
  "matchParsers parserNames matchedParsers =
     (if parserNames = [] then True else matchParsers_loop parserNames matchedParsers)"

text \<open>
  \<open>unmarshal\<close> stands for \<^verbatim>\<open>json.Unmarshal\<close> into a string map: \<^const>\<open>None\<close> is its error. A nil map
  and an empty one read the same.
\<close>

type_synonym json_fields = "string \<Rightarrow> (string \<rightharpoonup> string) option"

definition decodeParsedFields :: "json_fields \<Rightarrow> string \<Rightarrow> string \<rightharpoonup> string" where
  "decodeParsedFields unmarshal raw =
     (if raw = [] then Map.empty
      else (case unmarshal raw of None \<Rightarrow> Map.empty | Some flds \<Rightarrow> flds))"

definition evaluateFieldCondition :: "regexp \<Rightarrow> AlertFieldCondition \<Rightarrow> string \<Rightarrow> bool" where
  "evaluateFieldCondition rx cond value =
     (if fc_Operator cond = FieldOpContains
      then str_contains (to_lower value) (to_lower (fc_Value cond))
      else if fc_Operator cond = FieldOpNotEquals then value \<noteq> fc_Value cond
      else if fc_Operator cond = FieldOpRegex
      then (case rx (fc_Value cond) of None \<Rightarrow> False | Some re \<Rightarrow> re_match re value)
      else value = fc_Value cond)"

fun match_any :: "regexp \<Rightarrow> (string \<rightharpoonup> string) \<Rightarrow> AlertFieldCondition list \<Rightarrow> bool" where
  "match_any rx flds [] = False"
| "match_any rx flds (cond # cs) =
     (case flds (fc_FieldName cond) of
        Some val \<Rightarrow> if evaluateFieldCondition rx cond val then True else match_any rx flds cs
      | None \<Rightarrow> match_any rx flds cs)"

fun match_all :: "regexp \<Rightarrow> (string \<rightharpoonup> string) \<Rightarrow> AlertFieldCondition list \<Rightarrow> bool" where
  "match_all rx flds [] = True"
| "match_all rx flds (cond # cs) =
     (case flds (fc_FieldName cond) of
        None \<Rightarrow> False
      | Some val \<Rightarrow> if \<not> evaluateFieldCondition rx cond val then False else match_all rx flds cs)"

definition matchFieldConditions ::
  "regexp \<Rightarrow> AlertFieldCondition list \<Rightarrow> (string \<rightharpoonup> string) \<Rightarrow> string \<Rightarrow> bool" where
  "matchFieldConditions rx conditions flds logic =
     (if conditions = [] then True
      else if logic = FieldConditionsLogicOr then match_any rx flds conditions
      else match_all rx flds conditions)"

text \<open>The zero value of a string for an absent field.\<close>

definition field_or_empty :: "(string \<rightharpoonup> string) \<Rightarrow> string \<Rightarrow> string" where
  "field_or_empty flds f = (case flds f of None \<Rightarrow> [] | Some v \<Rightarrow> v)"

section \<open>What the operations compute\<close>

text \<open>A condition holds of an entry's fields: the field is present and satisfies it.\<close>

definition cond_holds :: "regexp \<Rightarrow> (string \<rightharpoonup> string) \<Rightarrow> AlertFieldCondition \<Rightarrow> bool" where
  "cond_holds rx flds cond \<longleftrightarrow>
     (\<exists>val. flds (fc_FieldName cond) = Some val \<and> evaluateFieldCondition rx cond val)"

lemma match_any_iff: "match_any rx flds cs \<longleftrightarrow> (\<exists>c \<in> set cs. cond_holds rx flds c)"
  by (induction cs) (auto simp: cond_holds_def split: option.splits)

lemma match_all_iff: "match_all rx flds cs \<longleftrightarrow> (\<forall>c \<in> set cs. cond_holds rx flds c)"
  by (induction cs) (auto simp: cond_holds_def split: option.splits)

lemma matchParsers_loop_iff: "matchParsers_loop ws ms \<longleftrightarrow> set ws \<inter> set ms \<noteq> {}"
  by (induction ws) auto

lemma matchDevice_iff: "matchDevice ips ip \<longleftrightarrow> ips = [] \<or> ip \<in> set ips"
  by (simp add: matchDevice_def)

lemma matchParsers_iff: "matchParsers ws ms \<longleftrightarrow> ws = [] \<or> set ws \<inter> set ms \<noteq> {}"
  by (simp add: matchParsers_def matchParsers_loop_iff)

section \<open>The glob translation is correct\<close>

text \<open>What one byte of a pattern becomes, as text and as an item of the compiled expression.\<close>

definition glob_text :: "char \<Rightarrow> string" where
  "glob_text c = (if c = CHR ''*'' then ''.*'' else quote_char c)"

definition glob_item :: "char \<Rightarrow> re_item" where
  "glob_item c = (if c = CHR ''*'' then AnyStar else Lit c)"

lemma join_quote_split:
  "join ''.*'' (map QuoteMeta (split_on (CHR ''*'') p)) = concat (map glob_text p)"
proof (induction p)
  case Nil
  then show ?case by (simp add: QuoteMeta_def)
next
  case (Cons c p)
  obtain q qs where q: "split_on (CHR ''*'') p = q # qs" by (cases "split_on (CHR ''*'') p") auto
  show ?case
  proof (cases "c = CHR ''*''")
    case True
    with Cons q show ?thesis by (simp add: glob_text_def QuoteMeta_def)
  next
    case False
    with Cons q show ?thesis
      by (cases qs) (simp_all add: glob_text_def QuoteMeta_def)
  qed
qed

lemma metas_not_alnum: "c \<in> set metas \<Longrightarrow> \<not> is_alnum c"
  by (auto simp: metas_def bslash_def is_alnum_def is_digit_def)

lemma re_items_quote:
  assumes "t \<noteq> []"
  shows "re_items (quote_char c @ t) = map_option (Cons (Lit c)) (re_items t)"
proof (cases "c \<in> set metas")
  case True
  then show ?thesis using metas_not_alnum [OF True] by (simp add: quote_char_def)
next
  case False
  then have "c \<noteq> bslash" "c \<noteq> CHR ''.''" by (auto simp: metas_def)
  with False assms show ?thesis by (cases t) (simp_all add: quote_char_def)
qed

lemma re_items_glob: "re_items (concat (map glob_text p) @ ''$'') = Some (map glob_item p)"
proof (induction p)
  case Nil
  then show ?case by simp
next
  case (Cons c p)
  show ?case
  proof (cases "c = CHR ''*''")
    case True
    then show ?thesis using Cons by (simp add: glob_text_def glob_item_def bslash_def)
  next
    case False
    then show ?thesis using Cons by (simp add: glob_text_def glob_item_def re_items_quote)
  qed
qed

lemma globToRegex_eq: "globToRegex p = Some (True, map glob_item p)"
  by (simp add: globToRegex_def join_quote_split re_compile_def re_items_glob)

text \<open>A value filled into the gaps between the parts of a pattern.\<close>

fun fill :: "string list \<Rightarrow> string list \<Rightarrow> string" where
  "fill [] gs = []"
| "fill [p] gs = p"
| "fill (p # q # ps) gs = p @ hd gs @ fill (q # ps) (tl gs)"

lemma glob_items_split:
  "map glob_item p =
    (case split_on (CHR ''*'') p of q # qs \<Rightarrow> map Lit q @ concat (map (\<lambda>r. AnyStar # map Lit r) qs))"
proof (induction p)
  case Nil
  then show ?case by simp
next
  case (Cons c p)
  obtain q qs where "split_on (CHR ''*'') p = q # qs" by (cases "split_on (CHR ''*'') p") auto
  with Cons show ?case by (simp add: glob_item_def)
qed

lemma to_lower_append: "to_lower (s @ t) = to_lower s @ to_lower t"
  by (simp add: to_lower_def)

lemma to_lower_splitD:
  "to_lower v = a @ b \<Longrightarrow> \<exists>x y. v = x @ y \<and> to_lower x = a \<and> to_lower y = b"
  by (auto simp: to_lower_def map_eq_append_conv)

lemma re_run_parts:
  "re_run True (map Lit q @ concat (map (\<lambda>r. AnyStar # map Lit r) qs)) v \<longleftrightarrow>
    (\<exists>gs. length gs = length qs \<and> to_lower v = fill (map to_lower (q # qs)) (map to_lower gs))"
proof (induction qs arbitrary: q v)
  case Nil
  then show ?case
    using re_run_Lits [of True q "[]" v] by (auto simp: lit_eq_ci)
next
  case (Cons r qs)
  let ?rest = "map Lit r @ concat (map (\<lambda>r. AnyStar # map Lit r) qs)"
  have "re_run True (map Lit q @ concat (map (\<lambda>r. AnyStar # map Lit r) (r # qs))) v \<longleftrightarrow>
      (\<exists>x y. v = x @ y \<and> to_lower q = to_lower x \<and> (\<exists>g z. y = g @ z \<and> re_run True ?rest z))"
    using re_run_Lits [of True q "AnyStar # ?rest" v] by (simp add: lit_eq_ci re_run_AnyStar)
  also have "\<dots> \<longleftrightarrow> (\<exists>x g z gs. v = x @ g @ z \<and> to_lower q = to_lower x \<and> length gs = length qs \<and>
        to_lower z = fill (map to_lower (r # qs)) (map to_lower gs))"
    by (simp add: Cons.IH) blast
  also have "\<dots> \<longleftrightarrow> (\<exists>g gs. length gs = length qs \<and>
        to_lower v = to_lower q @ to_lower g @ fill (map to_lower (r # qs)) (map to_lower gs))"
    (is "?l \<longleftrightarrow> ?r")
  proof
    assume ?l
    then obtain x g z gs where *: "v = x @ g @ z" "to_lower q = to_lower x" "length gs = length qs"
        "to_lower z = fill (map to_lower (r # qs)) (map to_lower gs)" by blast
    then have "to_lower v = to_lower q @ to_lower g @ fill (map to_lower (r # qs)) (map to_lower gs)"
      by (simp add: to_lower_append)
    with *(3) show ?r by blast
  next
    assume ?r
    then obtain g gs where *: "length gs = length qs"
        "to_lower v = to_lower q @ to_lower g @ fill (map to_lower (r # qs)) (map to_lower gs)"
      by blast
    then obtain x y' where x: "v = x @ y'" "to_lower x = to_lower q"
        "to_lower y' = to_lower g @ fill (map to_lower (r # qs)) (map to_lower gs)"
      using to_lower_splitD by blast
    then obtain y z where "y' = y @ z" "to_lower z = fill (map to_lower (r # qs)) (map to_lower gs)"
      using to_lower_splitD by blast
    with x(1,2) *(1) show ?l
      by (intro exI [of _ x] exI [of _ y] exI [of _ z] exI [of _ gs]) simp
  qed
  also have "\<dots> \<longleftrightarrow> (\<exists>gs. length gs = length (r # qs) \<and>
        to_lower v = fill (map to_lower (q # r # qs)) (map to_lower gs))"
  proof
    assume "\<exists>g gs. length gs = length qs \<and>
        to_lower v = to_lower q @ to_lower g @ fill (map to_lower (r # qs)) (map to_lower gs)"
    then obtain g gs where "length gs = length qs"
        "to_lower v = to_lower q @ to_lower g @ fill (map to_lower (r # qs)) (map to_lower gs)"
      by blast
    then show "\<exists>gs. length gs = length (r # qs) \<and>
        to_lower v = fill (map to_lower (q # r # qs)) (map to_lower gs)"
      by (intro exI [of _ "g # gs"]) simp
  next
    assume "\<exists>gs. length gs = length (r # qs) \<and>
        to_lower v = fill (map to_lower (q # r # qs)) (map to_lower gs)"
    then obtain g gs where "length gs = length qs"
        "to_lower v = fill (map to_lower (q # r # qs)) (map to_lower (g # gs))"
      by (auto simp: length_Suc_conv)
    then show "\<exists>g gs. length gs = length qs \<and>
        to_lower v = to_lower q @ to_lower g @ fill (map to_lower (r # qs)) (map to_lower gs)"
      by auto
  qed
  finally show ?case .
qed

text \<open>
  A pattern with a star matches exactly the values that are its parts, in order and up to the case
  of letters, with anything in the gaps.
\<close>

lemma matchPattern_glob:
  assumes "CHR ''*'' \<in> set p"
  shows "matchPattern p v \<longleftrightarrow>
    (\<exists>gs. Suc (length gs) = length (split_on (CHR ''*'') p) \<and>
          to_lower v = fill (map to_lower (split_on (CHR ''*'') p)) (map to_lower gs))"
proof -
  obtain q qs where q: "split_on (CHR ''*'') p = q # qs" by (cases "split_on (CHR ''*'') p") auto
  have "p \<noteq> []" "str_contains p ''*''"
    using assms by (auto simp: str_contains_iff dest: split_list)
  then have "matchPattern p v \<longleftrightarrow> re_run True (map glob_item p) v"
    by (simp add: matchPattern_def globToRegex_eq)
  also have "\<dots> \<longleftrightarrow> (\<exists>gs. length gs = length qs \<and>
      to_lower v = fill (map to_lower (q # qs)) (map to_lower gs))"
    by (simp only: glob_items_split q list.case re_run_parts)
  finally show ?thesis by (simp add: q)
qed

lemma matchPattern_plain:
  assumes "CHR ''*'' \<notin> set p"
  shows "matchPattern p v \<longleftrightarrow> (\<exists>a b. to_lower v = a @ to_lower p @ b)"
proof (cases "p = []")
  case True
  then have "to_lower v = [] @ to_lower p @ to_lower v" by (simp add: to_lower_def)
  with True show ?thesis by (auto simp: matchPattern_def)
next
  case False
  with assms show ?thesis by (auto simp: matchPattern_def str_contains_iff)
qed

end
