(* ===== verification/AlertStore.thy ===== *)
theory AlertStore
  imports Prelude
begin

text \<open>
  The counter store of the alert engine (\<^verbatim>\<open>alertengine/store.go\<close>): the interface
  \<^verbatim>\<open>counterStore\<close> as the locales \<open>counter_store\<close> and \<open>cooldown_store\<close>, and its
  in-process implementation \<^verbatim>\<open>localCounterStore\<close>. The Redis implementation is in
  \<open>RedisCounterStore\<close>. The clock a call reads with \<^verbatim>\<open>time.Now()\<close> is part of the state, and
  \<open>adv\<close> lets time pass between calls.
\<close>

section \<open>The in-process store\<close>

record localCounter =
  lc_count :: int
  lc_windowEnds :: time
  lc_cooldownEnds :: time

record localCounterStore =
  ls_now :: time
  ls_counts :: "string \<rightharpoonup> localCounter"

definition newLocalCounterStore :: "time \<Rightarrow> localCounterStore" where
  "newLocalCounterStore now = \<lparr>ls_now = now, ls_counts = Map.empty\<rparr>"

definition shouldFire_local ::
  "string \<Rightarrow> int \<Rightarrow> int \<Rightarrow> duration \<Rightarrow> duration \<Rightarrow> localCounterStore \<Rightarrow> bool \<times> localCounterStore" where
  "shouldFire_local key delta threshold window cooldown s =
     (let now = ls_now s;
          c0 = (case ls_counts s key of
                  None \<Rightarrow> \<lparr>lc_count = 0, lc_windowEnds = now + window, lc_cooldownEnds = zeroTime\<rparr>
                | Some c \<Rightarrow>
                    if lc_windowEnds c < now
                    then \<lparr>lc_count = 0, lc_windowEnds = now + window, lc_cooldownEnds = zeroTime\<rparr>
                    else c);
          c1 = c0\<lparr>lc_count := int64 (lc_count c0 + delta)\<rparr>
      in if lc_count c1 < threshold
         then (False, s\<lparr>ls_counts := (ls_counts s)(key \<mapsto> c1)\<rparr>)
         else if now < lc_cooldownEnds c1
         then (False, s\<lparr>ls_counts := (ls_counts s)(key \<mapsto> c1)\<rparr>)
         else (True, s\<lparr>ls_counts :=
                        (ls_counts s)(key \<mapsto> c1\<lparr>lc_cooldownEnds := now + cooldown, lc_count := 0\<rparr>)\<rparr>))"

definition local_adv :: "duration \<Rightarrow> localCounterStore \<Rightarrow> localCounterStore" where
  "local_adv d s = s\<lparr>ls_now := ls_now s + d\<rparr>"

text \<open>What the store shows of a key: the events counted in its current window and whether its
  cooldown suppresses a firing now. An entry whose window is over counts as absent.\<close>

definition local_acc :: "localCounterStore \<Rightarrow> string \<Rightarrow> int" where
  "local_acc s k =
     (case ls_counts s k of
        None \<Rightarrow> 0
      | Some c \<Rightarrow> if lc_windowEnds c < ls_now s then 0 else lc_count c)"

definition local_cooling :: "localCounterStore \<Rightarrow> string \<Rightarrow> bool" where
  "local_cooling s k =
     (case ls_counts s k of
        None \<Rightarrow> False
      | Some c \<Rightarrow> \<not> lc_windowEnds c < ls_now s \<and> ls_now s < lc_cooldownEnds c)"

text \<open>A clock that reads a date after year 1, as every real one does.\<close>

definition local_ready :: "localCounterStore \<Rightarrow> bool" where
  "local_ready s \<longleftrightarrow> zeroTime \<le> ls_now s"

section \<open>The interface\<close>

text \<open>
  The arguments the engine passes: a positive number of events and a window and a cooldown of a
  whole positive number of seconds.
\<close>

definition store_args :: "int \<Rightarrow> duration \<Rightarrow> duration \<Rightarrow> bool" where
  "store_args delta window cooldown \<longleftrightarrow>
     0 < delta \<and> 0 < window \<and> 0 < cooldown \<and> Second dvd window \<and> Second dvd cooldown"

text \<open>
  A counter store fires exactly when the events of the current window reach the threshold outside
  the cooldown; firing empties the counter and starts the cooldown; keys are independent.
\<close>

locale counter_store =
  fixes shouldFire :: "string \<Rightarrow> int \<Rightarrow> int \<Rightarrow> duration \<Rightarrow> duration \<Rightarrow> 's \<Rightarrow> bool \<times> 's"
    and acc :: "'s \<Rightarrow> string \<Rightarrow> int"
    and cooling :: "'s \<Rightarrow> string \<Rightarrow> bool"
    and ready :: "'s \<Rightarrow> bool"
  assumes fire_iff: "ready s \<Longrightarrow> store_args d w c \<Longrightarrow> is_int64 (acc s k + d) \<Longrightarrow>
      shouldFire k d th w c s = (b, s') \<Longrightarrow> b \<longleftrightarrow> th \<le> acc s k + d \<and> \<not> cooling s k"
    and acc_after: "ready s \<Longrightarrow> store_args d w c \<Longrightarrow> is_int64 (acc s k + d) \<Longrightarrow>
      shouldFire k d th w c s = (b, s') \<Longrightarrow> acc s' k = (if b then 0 else acc s k + d)"
    and cooling_after: "ready s \<Longrightarrow> store_args d w c \<Longrightarrow> is_int64 (acc s k + d) \<Longrightarrow>
      shouldFire k d th w c s = (b, s') \<Longrightarrow> cooling s' k \<longleftrightarrow> b \<or> cooling s k"
    and acc_frame: "ready s \<Longrightarrow> store_args d w c \<Longrightarrow> is_int64 (acc s k + d) \<Longrightarrow>
      shouldFire k d th w c s = (b, s') \<Longrightarrow> k' \<noteq> k \<Longrightarrow> acc s' k' = acc s k'"
    and cooling_frame: "ready s \<Longrightarrow> store_args d w c \<Longrightarrow> is_int64 (acc s k + d) \<Longrightarrow>
      shouldFire k d th w c s = (b, s') \<Longrightarrow> k' \<noteq> k \<Longrightarrow> cooling s' k' = cooling s k'"
    and ready_after: "ready s \<Longrightarrow> store_args d w c \<Longrightarrow> is_int64 (acc s k + d) \<Longrightarrow>
      shouldFire k d th w c s = (b, s') \<Longrightarrow> ready s'"
begin

text \<open>A burst: several calls for one key with no time passing between them.\<close>

fun burst :: "string \<Rightarrow> int \<Rightarrow> duration \<Rightarrow> duration \<Rightarrow> int list \<Rightarrow> 's \<Rightarrow> bool list \<times> 's" where
  "burst k th w c [] s = ([], s)"
| "burst k th w c (d # ds) s =
     (case shouldFire k d th w c s of (b, s1) \<Rightarrow>
        (case burst k th w c ds s1 of (bs, s2) \<Rightarrow> (b # bs, s2)))"

lemma cooling_no_fire:
  assumes "ready s" "store_args d w c" "is_int64 (acc s k + d)" "cooling s k"
  shows "\<not> fst (shouldFire k d th w c s)"
proof -
  obtain b s' where bs: "shouldFire k d th w c s = (b, s')" by fastforce
  from fire_iff [OF assms(1-3) bs] assms(4) bs show ?thesis by simp
qed

lemma below_threshold_accumulates:
  assumes "ready s" "store_args d w c" "is_int64 (acc s k + d)" "acc s k + d < th"
  shows "\<not> fst (shouldFire k d th w c s) \<and> acc (snd (shouldFire k d th w c s)) k = acc s k + d"
proof -
  obtain b s' where bs: "shouldFire k d th w c s = (b, s')" by fastforce
  from fire_iff [OF assms(1-3) bs] acc_after [OF assms(1-3) bs] assms(4) bs show ?thesis by simp
qed

lemma fst_burst_Cons:
  "shouldFire k d th w c s = (b, s1) \<Longrightarrow>
    fst (burst k th w c (d # ds) s) = b # fst (burst k th w c ds s1)"
  by (simp split: prod.split)

text \<open>Bounds that keep every count of a burst a 64-bit integer.\<close>

definition burst_ok :: "string \<Rightarrow> duration \<Rightarrow> duration \<Rightarrow> int list \<Rightarrow> 's \<Rightarrow> bool" where
  "burst_ok k w c ds s \<longleftrightarrow>
     0 \<le> acc s k \<and> acc s k + sum_list ds < 2 ^ 63 \<and> list_all (\<lambda>d. store_args d w c) ds"

lemma burst_ok_ConsD:
  assumes "burst_ok k w c (d # ds) s"
  shows "store_args d w c" "is_int64 (acc s k + d)"
proof -
  have pos: "0 \<le> sum_list ds"
    using assms by (intro sum_list_nonneg) (auto simp: burst_ok_def list_all_iff store_args_def)
  show "store_args d w c" using assms by (simp add: burst_ok_def)
  with assms pos show "is_int64 (acc s k + d)"
    by (simp add: burst_ok_def is_int64_def store_args_def)
qed

lemma burst_ok_step:
  assumes "ready s" "burst_ok k w c (d # ds) s" "shouldFire k d th w c s = (b, s1)"
  shows "burst_ok k w c ds s1"
proof -
  from acc_after [OF assms(1) burst_ok_ConsD [OF assms(2)] assms(3)] assms(2)
  have "0 \<le> acc s1 k" "acc s1 k \<le> acc s k + d" by (auto simp: burst_ok_def store_args_def)
  with assms(2) show ?thesis by (simp add: burst_ok_def)
qed

lemma burst_cooling_silent:
  "ready s \<Longrightarrow> burst_ok k w c ds s \<Longrightarrow> cooling s k \<Longrightarrow> \<not> list_ex (\<lambda>b. b) (fst (burst k th w c ds s))"
proof (induction ds arbitrary: s)
  case Nil
  then show ?case by simp
next
  case (Cons d ds)
  obtain b s1 where bs: "shouldFire k d th w c s = (b, s1)" by fastforce
  note step = burst_ok_ConsD [OF Cons.prems(2)]
  have "\<not> b" using fire_iff [OF Cons.prems(1) step bs] Cons.prems(3) by simp
  moreover have "\<not> list_ex (\<lambda>b. b) (fst (burst k th w c ds s1))"
  proof (rule Cons.IH)
    show "ready s1" using ready_after [OF Cons.prems(1) step bs] .
    show "burst_ok k w c ds s1" by (rule burst_ok_step [OF Cons.prems(1,2) bs])
    show "cooling s1 k" using cooling_after [OF Cons.prems(1) step bs] Cons.prems(3) by simp
  qed
  ultimately show ?case by (simp only: fst_burst_Cons [OF bs]) simp
qed

lemma burst_fires_once:
  "ready s \<Longrightarrow> burst_ok k w c ds s \<Longrightarrow> length (filter (\<lambda>b. b) (fst (burst k th w c ds s))) \<le> 1"
proof (induction ds arbitrary: s)
  case Nil
  then show ?case by simp
next
  case (Cons d ds)
  obtain b s1 where bs: "shouldFire k d th w c s = (b, s1)" by fastforce
  note step = burst_ok_ConsD [OF Cons.prems(2)]
  have rdy: "ready s1" using ready_after [OF Cons.prems(1) step bs] .
  have ok: "burst_ok k w c ds s1" by (rule burst_ok_step [OF Cons.prems bs])
  show ?case
  proof (cases b)
    case True
    then have "cooling s1 k" using cooling_after [OF Cons.prems(1) step bs] by simp
    from burst_cooling_silent [OF rdy ok this]
    have "filter (\<lambda>b. b) (fst (burst k th w c ds s1)) = []"
      by (intro filter_none) (auto simp: list_ex_iff)
    with True show ?thesis by (simp only: fst_burst_Cons [OF bs]) simp
  next
    case False
    with Cons.IH [OF rdy ok] show ?thesis by (simp only: fst_burst_Cons [OF bs]) simp
  qed
qed

end

text \<open>
  A history of calls: how long after the previous call each one comes, the key it is for, and the
  arguments it is made with. \<open>calls_run\<close> gives the answer to every call.
\<close>

record store_call =
  sc_wait :: duration
  sc_key :: string
  sc_delta :: int
  sc_threshold :: int
  sc_window :: duration
  sc_cooldown :: duration

type_synonym 's fire_fn = "string \<Rightarrow> int \<Rightarrow> int \<Rightarrow> duration \<Rightarrow> duration \<Rightarrow> 's \<Rightarrow> bool \<times> 's"

definition call_of :: "'s fire_fn \<Rightarrow> (duration \<Rightarrow> 's \<Rightarrow> 's) \<Rightarrow> store_call \<Rightarrow> 's \<Rightarrow> bool \<times> 's" where
  "call_of sf adv cl s =
     sf (sc_key cl) (sc_delta cl) (sc_threshold cl) (sc_window cl) (sc_cooldown cl) (adv (sc_wait cl) s)"

fun calls_run :: "'s fire_fn \<Rightarrow> (duration \<Rightarrow> 's \<Rightarrow> 's) \<Rightarrow> store_call list \<Rightarrow> 's \<Rightarrow> bool list \<times> 's" where
  "calls_run sf adv [] s = ([], s)"
| "calls_run sf adv (cl # cs) s =
     (case call_of sf adv cl s of (b, s1) \<Rightarrow>
        (case calls_run sf adv cs s1 of (bs, s2) \<Rightarrow> (b # bs, s2)))"

definition elapsed :: "store_call list \<Rightarrow> duration" where
  "elapsed cs = sum_list (map sc_wait cs)"

text \<open>Every call has arguments the engine passes, and no counter overflows.\<close>

fun calls_fit ::
  "'s fire_fn \<Rightarrow> (duration \<Rightarrow> 's \<Rightarrow> 's) \<Rightarrow> ('s \<Rightarrow> string \<Rightarrow> int) \<Rightarrow> store_call list \<Rightarrow> 's \<Rightarrow> bool" where
  "calls_fit sf adv acc [] s = True"
| "calls_fit sf adv acc (cl # cs) s \<longleftrightarrow>
     0 \<le> sc_wait cl \<and> store_args (sc_delta cl) (sc_window cl) (sc_cooldown cl) \<and>
     is_int64 (acc (adv (sc_wait cl) s) (sc_key cl) + sc_delta cl) \<and>
     calls_fit sf adv acc cs (snd (call_of sf adv cl s))"

lemma elapsed_simps [simp]: "elapsed [] = 0" "elapsed (cl # cs) = sc_wait cl + elapsed cs"
  by (simp_all add: elapsed_def)

lemma elapsed_nonneg: "calls_fit sf adv acc cs s \<Longrightarrow> 0 \<le> elapsed cs"
  by (induction cs arbitrary: s) auto

lemma calls_run_Cons:
  "call_of sf adv cl s = (b, s1) \<Longrightarrow>
    calls_run sf adv (cl # cs) s = (b # fst (calls_run sf adv cs s1), snd (calls_run sf adv cs s1))"
  by (simp split: prod.split)

text \<open>
  The stronger contract the comment on \<^verbatim>\<open>counterStore\<close> states, \<^emph>\<open>exactly once per cooldown
  period\<close>: a firing sets the end of the cooldown, no other call moves it, and the key is
  cooling until then and not after.
\<close>

locale cooldown_store = counter_store where shouldFire = shouldFire
  for shouldFire :: "string \<Rightarrow> int \<Rightarrow> int \<Rightarrow> duration \<Rightarrow> duration \<Rightarrow> 's \<Rightarrow> bool \<times> 's" +
  fixes adv :: "duration \<Rightarrow> 's \<Rightarrow> 's"
    and now :: "'s \<Rightarrow> time"
    and ends :: "'s \<Rightarrow> string \<Rightarrow> time option"
  assumes ready_adv: "ready s \<Longrightarrow> 0 \<le> t \<Longrightarrow> ready (adv t s)"
    and now_adv: "0 \<le> t \<Longrightarrow> now (adv t s) = now s + t"
    and now_after: "ready s \<Longrightarrow> store_args d w c \<Longrightarrow> is_int64 (acc s k + d) \<Longrightarrow>
      shouldFire k d th w c s = (b, s') \<Longrightarrow> now s' = now s"
    and ends_fired: "ready s \<Longrightarrow> store_args d w c \<Longrightarrow> is_int64 (acc s k + d) \<Longrightarrow>
      shouldFire k d th w c s = (True, s') \<Longrightarrow> ends s' k = Some (now s + c)"
    and ends_kept: "ready s \<Longrightarrow> store_args d w c \<Longrightarrow> is_int64 (acc s k + d) \<Longrightarrow>
      shouldFire k d th w c s = (b, s') \<Longrightarrow> k' \<noteq> k \<or> \<not> b \<Longrightarrow> ends s' k' = ends s k'"
    and ends_adv: "ends s k = Some e \<Longrightarrow> 0 \<le> t \<Longrightarrow> now s + t \<le> e \<Longrightarrow> ends (adv t s) k = Some e"
    and ends_cooling: "ends s k = Some e \<Longrightarrow> cooling s k"
    and ends_over: "ends s k = Some e \<Longrightarrow> 0 \<le> t \<Longrightarrow> e < now s + t \<Longrightarrow> \<not> cooling (adv t s) k"
begin

text \<open>While the cooldown of a key runs, no history of calls fires it or moves its end.\<close>

lemma calls_suppressed:
  "ready s \<Longrightarrow> ends s k = Some e \<Longrightarrow> calls_fit shouldFire adv acc cs s \<Longrightarrow> now s + elapsed cs \<le> e \<Longrightarrow>
    list_all2 (\<lambda>cl b. sc_key cl = k \<longrightarrow> \<not> b) cs (fst (calls_run shouldFire adv cs s)) \<and>
    ready (snd (calls_run shouldFire adv cs s)) \<and> ends (snd (calls_run shouldFire adv cs s)) k = Some e \<and>
    now (snd (calls_run shouldFire adv cs s)) = now s + elapsed cs"
proof (induction cs arbitrary: s)
  case Nil
  then show ?case by simp
next
  case (Cons cl cs)
  let ?s = "adv (sc_wait cl) s"
  obtain b s1 where bs: "call_of shouldFire adv cl s = (b, s1)" by fastforce
  from Cons.prems(3) bs have w: "0 \<le> sc_wait cl" and
      args: "store_args (sc_delta cl) (sc_window cl) (sc_cooldown cl)"
        "is_int64 (acc ?s (sc_key cl) + sc_delta cl)" and fit: "calls_fit shouldFire adv acc cs s1" by auto
  note call = ready_adv [OF Cons.prems(1) w] args bs [unfolded call_of_def]
  from elapsed_nonneg [OF fit] Cons.prems(4) have le: "now s + sc_wait cl \<le> e" by simp
  note ends = ends_adv [OF Cons.prems(2) w le]
  have quiet: "sc_key cl = k \<longrightarrow> \<not> b" using fire_iff [OF call] ends_cooling [OF ends] by auto
  then have "ends s1 k = Some e" using ends_kept [OF call, of k] ends by auto
  moreover have "now s1 = now s + sc_wait cl" using now_after [OF call] now_adv [OF w] by simp
  ultimately show ?case
    using Cons.IH [of s1] ready_after [OF call] fit Cons.prems(4) quiet
    by (simp only: calls_run_Cons [OF bs]) (simp add: add.assoc)
qed

lemma once_per_cooldown:
  assumes "ready s" "store_args d w c" "is_int64 (acc s k + d)"
    and fire: "shouldFire k d th w c s = (True, s')"
    and cs: "calls_fit shouldFire adv acc cs s'" "elapsed cs \<le> c"
    and next_call: "0 \<le> t" "store_args d' w' c'"
      "is_int64 (acc (adv t (snd (calls_run shouldFire adv cs s'))) k + d')"
  shows "list_all2 (\<lambda>cl b. sc_key cl = k \<longrightarrow> \<not> b) cs (fst (calls_run shouldFire adv cs s'))"
    and "fst (shouldFire k d' th' w' c' (adv t (snd (calls_run shouldFire adv cs s')))) \<longleftrightarrow>
      c < elapsed cs + t \<and> th' \<le> acc (adv t (snd (calls_run shouldFire adv cs s'))) k + d'"
proof -
  note call = assms(1-3) fire
  let ?s = "snd (calls_run shouldFire adv cs s')"
  have sup: "list_all2 (\<lambda>cl b. sc_key cl = k \<longrightarrow> \<not> b) cs (fst (calls_run shouldFire adv cs s'))"
      "ready ?s" "ends ?s k = Some (now s + c)" "now ?s = now s + elapsed cs"
    using calls_suppressed [OF ready_after [OF call] ends_fired [OF call] cs(1)] cs(2) now_after [OF call]
    by simp_all
  show "list_all2 (\<lambda>cl b. sc_key cl = k \<longrightarrow> \<not> b) cs (fst (calls_run shouldFire adv cs s'))" by (rule sup(1))
  have "cooling (adv t ?s) k \<longleftrightarrow> elapsed cs + t \<le> c"
  proof (cases "elapsed cs + t \<le> c")
    case True
    then have "ends (adv t ?s) k = Some (now s + c)" using ends_adv [OF sup(3) next_call(1)] sup(4) by simp
    from ends_cooling [OF this] True show ?thesis by simp
  next
    case False
    then show ?thesis using ends_over [OF sup(3) next_call(1)] sup(4) by simp
  qed
  moreover obtain b s'' where bs: "shouldFire k d' th' w' c' (adv t ?s) = (b, s'')" by fastforce
  ultimately show "fst (shouldFire k d' th' w' c' (adv t ?s)) \<longleftrightarrow>
      c < elapsed cs + t \<and> th' \<le> acc (adv t ?s) k + d'"
    using fire_iff [OF ready_adv [OF sup(2) next_call(1)] next_call(2,3) bs] by auto
qed

end

section \<open>The in-process store meets the interface\<close>

lemmas local_store_defs = shouldFire_local_def local_acc_def local_cooling_def local_ready_def Let_def

lemma local_fire_iff:
  assumes "local_ready s" "store_args d w c" "is_int64 (local_acc s k + d)"
    and "shouldFire_local k d th w c s = (b, s')"
  shows "b \<longleftrightarrow> th \<le> local_acc s k + d \<and> \<not> local_cooling s k"
  using assms by (auto simp: local_store_defs int64_id split: option.splits if_splits)

lemma local_acc_after:
  assumes "local_ready s" "store_args d w c" "is_int64 (local_acc s k + d)"
    and "shouldFire_local k d th w c s = (b, s')"
  shows "local_acc s' k = (if b then 0 else local_acc s k + d)"
  using assms
  by (auto simp: local_store_defs int64_id store_args_def split: option.splits if_splits)

lemma local_cooling_after:
  assumes "local_ready s" "store_args d w c" "is_int64 (local_acc s k + d)"
    and "shouldFire_local k d th w c s = (b, s')"
  shows "local_cooling s' k \<longleftrightarrow> b \<or> local_cooling s k"
  using assms
  by (auto simp: local_store_defs int64_id store_args_def split: option.splits if_splits)

lemma shouldFire_local_now:
  "shouldFire_local k d th w c s = (b, s') \<Longrightarrow> ls_now s' = ls_now s"
  by (auto simp: local_store_defs split: option.splits if_splits)

lemma shouldFire_local_other:
  "shouldFire_local k d th w c s = (b, s') \<Longrightarrow> k' \<noteq> k \<Longrightarrow> ls_counts s' k' = ls_counts s k'"
  by (auto simp: local_store_defs split: option.splits if_splits)

interpretation lcs: counter_store shouldFire_local local_acc local_cooling local_ready
proof (unfold_locales, goal_cases)
  case 1
  then show ?case by (rule local_fire_iff)
next
  case 2
  then show ?case by (rule local_acc_after)
next
  case 3
  then show ?case by (rule local_cooling_after)
next
  case 4
  note frame = shouldFire_local_now [OF 4(4)] shouldFire_local_other [OF 4(4,5)]
  show ?case by (simp add: local_acc_def frame split: option.split)
next
  case 5
  note frame = shouldFire_local_now [OF 5(4)] shouldFire_local_other [OF 5(4,5)]
  show ?case by (simp add: local_cooling_def frame split: option.split)
next
  case 6
  with shouldFire_local_now [OF 6(4)] show ?case by (simp add: local_ready_def)
qed

text \<open>
  The in-process store is not a \<open>cooldown_store\<close>: an expired window replaces the whole entry, its
  cooldown with it.
\<close>

lemma local_window_end_drops_cooldown:
  assumes "shouldFire_local k d th w c s = (b, s')"
    and "ls_counts s' k = Some e" "lc_windowEnds e < ls_now s' + t"
    and "0 < d'" "th' \<le> d'" "is_int64 d'" "zeroTime \<le> ls_now s' + t"
  shows "fst (shouldFire_local k d' th' w' c' (local_adv t s'))"
  using assms by (auto simp: shouldFire_local_def local_adv_def int64_id Let_def)

lemma local_window_bound:
  assumes "shouldFire_local k d th w c s = (b, s')" "0 \<le> w"
    and "\<And>e. ls_counts s k = Some e \<Longrightarrow> lc_windowEnds e \<le> ls_now s + w"
  shows "\<exists>e. ls_counts s' k = Some e \<and> lc_windowEnds e \<le> ls_now s' + w"
  using assms by (auto simp: local_store_defs split: option.splits if_splits)

end
