(* ===== verification/AlertEngine.thy ===== *)
theory AlertEngine
  imports AlertMatch AlertStore
begin

text \<open>
  The alert engine (\<^verbatim>\<open>alertengine/engine.go\<close>, \<^verbatim>\<open>silence.go\<close>, \<^verbatim>\<open>relaycert.go\<close>) and the table
  of silent devices it keeps (\<^verbatim>\<open>db/silence_state.go\<close>). An engine holds its rule cache, the state
  of its counter store and the rows of \<^verbatim>\<open>device_silence_state\<close>; the notifications it dispatches
  and the rules it marks as fired are recorded in the order of the calls. The counter store is an
  argument \<open>sf\<close>, as the code's field of interface type is; so are the answers of the database
  (the \<^verbatim>\<open>notifications_enabled\<close> setting, active rules, device statistics, expiring
  certificates), the JSON decoder, the regular-expression compiler and the formatting of instants.
\<close>

section \<open>State\<close>

datatype effect =
    MarkAlertFired int
  | DispatchAlert Alert Payload

record SilenceState =
  ss_RuleID :: int
  ss_DeviceIP :: string
  ss_SilentSince :: time
  ss_LastSeverity :: string

record 's engine =
  en_rulesByType :: "string \<rightharpoonup> Alert list"
  en_store :: 's
  en_silence :: "SilenceState list"
  en_effects :: "effect list"

type_synonym 's store_fn = "string \<Rightarrow> int \<Rightarrow> int \<Rightarrow> duration \<Rightarrow> duration \<Rightarrow> 's \<Rightarrow> bool \<times> 's"

definition emit :: "effect list \<Rightarrow> 's engine \<Rightarrow> 's engine" where
  "emit fx e = e\<lparr>en_effects := en_effects e @ fx\<rparr>"

text \<open>\<^verbatim>\<open>e.store.shouldFire\<close>, with the store's new state put back.\<close>

definition ask_store ::
  "'s store_fn \<Rightarrow> string \<Rightarrow> int \<Rightarrow> int \<Rightarrow> duration \<Rightarrow> duration \<Rightarrow> 's engine \<Rightarrow> bool \<times> 's engine" where
  "ask_store sf key delta threshold window cooldown e =
     (case sf key delta threshold window cooldown (en_store e) of
        (b, s) \<Rightarrow> (b, e\<lparr>en_store := s\<rparr>))"

section \<open>The rule cache\<close>

fun group_rules :: "Alert list \<Rightarrow> (string \<rightharpoonup> Alert list) \<Rightarrow> string \<rightharpoonup> Alert list" where
  "group_rules [] m = m"
| "group_rules (a # as) m =
     group_rules as (m(al_RuleType a \<mapsto>
       (case m (al_RuleType a) of None \<Rightarrow> [] | Some l \<Rightarrow> l) @ [a]))"

text \<open>\<open>alerts\<close> is the answer of \<^verbatim>\<open>db.GetAllActiveAlerts\<close>; a failed query keeps the old cache.\<close>

definition loadRules :: "Alert list option \<Rightarrow> 's engine \<Rightarrow> 's engine" where
  "loadRules alerts e =
     (case alerts of
        None \<Rightarrow> e
      | Some as \<Rightarrow> e\<lparr>en_rulesByType := group_rules as Map.empty\<rparr>)"

definition rulesOfType :: "string \<Rightarrow> 's engine \<Rightarrow> Alert list" where
  "rulesOfType ruleType e =
     (case en_rulesByType e ruleType of None \<Rightarrow> [] | Some rs \<Rightarrow> rs)"

section \<open>Log-threshold rules\<close>

definition triggerLogSnapshot :: "IngestEntry \<Rightarrow> TriggerLogSnapshot" where
  "triggerLogSnapshot entry =
     \<lparr>tl_Timestamp = ie_Timestamp entry, tl_Hostname = ie_Hostname entry,
      tl_FromHostIP = ie_FromHostIP entry, tl_AppName = ie_AppName entry,
      tl_Severity = ie_Severity entry, tl_Message = ie_Message entry\<rparr>"

fun describe_fields ::
  "regexp \<Rightarrow> Alert \<Rightarrow> (string \<rightharpoonup> string) \<Rightarrow> AlertFieldCondition list \<Rightarrow> string list" where
  "describe_fields rx rule flds [] = []"
| "describe_fields rx rule flds (cond # cs) =
     (let v = field_or_empty flds (fc_FieldName cond)
      in if al_FieldConditionsLogic rule = FieldConditionsLogicOr \<and>
            \<not> evaluateFieldCondition rx cond v
         then describe_fields rx rule flds cs
         else (''Field '' @ go_quote (fc_FieldName cond) @ '' '' @ fc_Operator cond @ '' '' @
               go_quote (fc_Value cond) @ '' (log value: '' @ go_quote v @ '')'')
              # describe_fields rx rule flds cs)"

definition describeMatchedConditions ::
  "regexp \<Rightarrow> json_fields \<Rightarrow> Alert \<Rightarrow> IngestEntry \<Rightarrow> string list" where
  "describeMatchedConditions rx um rule entry =
     (if al_Severity rule \<noteq> []
      then [''Severity '' @ al_Severity rule @ '' or more severe (log severity: '' @ ie_Severity entry @ '')'']
      else []) @
     (if al_DeviceIPs rule \<noteq> []
      then [''Device is one of: '' @ join '', '' (al_DeviceIPs rule) @
            '' (log device: '' @ ie_FromHostIP entry @ '')'']
      else []) @
     (if al_ParserNames rule \<noteq> []
      then [''Parser matches one of: '' @ join '', '' (al_ParserNames rule) @
            '' (log parsers: '' @ join '', '' (ie_MatchedParsers entry) @ '')'']
      else []) @
     (if al_MessagePattern rule \<noteq> []
      then [''Message matches pattern: '' @ go_quote (al_MessagePattern rule)]
      else []) @
     (if al_FieldConditions rule \<noteq> []
      then describe_fields rx rule (decodeParsedFields um (ie_ParsedFields entry)) (al_FieldConditions rule)
      else [])"

text \<open>The filters of the inner loop of \<^verbatim>\<open>EvaluateBatch\<close>, in the order of its \<^verbatim>\<open>continue\<close>s.\<close>

definition entryMatches :: "regexp \<Rightarrow> json_fields \<Rightarrow> Alert \<Rightarrow> IngestEntry \<Rightarrow> bool" where
  "entryMatches rx um rule entry =
     (if \<not> meetsSeverity (ie_Severity entry) (al_Severity rule) then False
      else if \<not> matchDevice (al_DeviceIPs rule) (ie_FromHostIP entry) then False
      else if \<not> matchParsers (al_ParserNames rule) (ie_MatchedParsers entry) then False
      else if \<not> matchPattern (al_MessagePattern rule) (ie_Message entry) then False
      else if al_FieldConditions rule \<noteq> [] \<and>
              \<not> matchFieldConditions rx (al_FieldConditions rule)
                  (decodeParsedFields um (ie_ParsedFields entry)) (al_FieldConditionsLogic rule)
      then False
      else True)"

definition basePayload :: Payload where
  "basePayload =
     \<lparr>pl_Title = [], pl_Message = [], pl_Severity = [], pl_Link = [], pl_AlertRuleType = [],
      pl_TriggerLog = None, pl_AuditLogRef = None, pl_MatchedConditions = []\<rparr>"

definition everyMatchPayload :: "regexp \<Rightarrow> json_fields \<Rightarrow> Alert \<Rightarrow> IngestEntry \<Rightarrow> Payload" where
  "everyMatchPayload rx um rule entry =
     basePayload\<lparr>pl_Title := ''Alert: '' @ al_Name rule,
       pl_Message := ''Matching log entry from '' @ ie_Hostname entry @ '': '' @ ie_Message entry,
       pl_Severity := notifySeverity (ie_Severity entry),
       pl_TriggerLog := Some (triggerLogSnapshot entry),
       pl_MatchedConditions := describeMatchedConditions rx um rule entry\<rparr>"

definition thresholdPayload ::
  "regexp \<Rightarrow> json_fields \<Rightarrow> Alert \<Rightarrow> int \<Rightarrow> int \<Rightarrow> IngestEntry \<Rightarrow> Payload" where
  "thresholdPayload rx um rule matched threshold lastEntry =
     basePayload\<lparr>pl_Title := ''Alert: '' @ al_Name rule,
       pl_Message := itoa matched @ '' matching log entries in the last '' @
         itoa (al_WindowMinutes rule) @ '' minute(s). Latest from '' @
         ie_Hostname lastEntry @ '': '' @ ie_Message lastEntry,
       pl_Severity := notifySeverity (ie_Severity lastEntry),
       pl_TriggerLog := Some (triggerLogSnapshot lastEntry),
       pl_MatchedConditions := describeMatchedConditions rx um rule lastEntry @
         [''Threshold reached: '' @ itoa matched @ '' matching log(s) within '' @
          itoa (al_WindowMinutes rule) @ '' minute(s) (required: '' @ itoa threshold @ '')'']\<rparr>"

fun dispatch_each ::
  "regexp \<Rightarrow> json_fields \<Rightarrow> Alert \<Rightarrow> IngestEntry list \<Rightarrow> 's engine \<Rightarrow> 's engine" where
  "dispatch_each rx um rule [] e = e"
| "dispatch_each rx um rule (entry # es) e =
     dispatch_each rx um rule es
       (emit [MarkAlertFired (al_ID rule), DispatchAlert rule (everyMatchPayload rx um rule entry)] e)"

definition ruleThreshold :: "Alert \<Rightarrow> int" where
  "ruleThreshold rule = (if al_Threshold rule \<le> 0 then 1 else al_Threshold rule)"

text \<open>One turn of the outer loop of \<^verbatim>\<open>EvaluateBatch\<close>.\<close>

definition evalRule ::
  "'s store_fn \<Rightarrow> regexp \<Rightarrow> json_fields \<Rightarrow> IngestEntry list \<Rightarrow> Alert \<Rightarrow> 's engine \<Rightarrow> 's engine" where
  "evalRule sf rx um entries rule e =
     (let matchedEntries = filter (entryMatches rx um rule) entries
      in if matchedEntries = [] then e
         else if al_FireOnEveryMatch rule then dispatch_each rx um rule matchedEntries e
         else
           (let lastEntry = last matchedEntries;
                matched = int (length matchedEntries);
                threshold = ruleThreshold rule
            in case ask_store sf (itoa (al_ID rule)) matched threshold
                      (dur_mul (al_WindowMinutes rule) Minute)
                      (dur_mul (al_CooldownMinutes rule) Minute) e of
                 (fire, e1) \<Rightarrow>
                   if \<not> fire then e1
                   else emit [MarkAlertFired (al_ID rule),
                              DispatchAlert rule (thresholdPayload rx um rule matched threshold lastEntry)] e1))"

fun evalRules ::
  "'s store_fn \<Rightarrow> regexp \<Rightarrow> json_fields \<Rightarrow> IngestEntry list \<Rightarrow> Alert list \<Rightarrow> 's engine \<Rightarrow> 's engine" where
  "evalRules sf rx um entries [] e = e"
| "evalRules sf rx um entries (rule # rules) e =
     evalRules sf rx um entries rules (evalRule sf rx um entries rule e)"

definition EvaluateBatch ::
  "string \<Rightarrow> 's store_fn \<Rightarrow> regexp \<Rightarrow> json_fields \<Rightarrow> IngestEntry list \<Rightarrow> 's engine \<Rightarrow> 's engine" where
  "EvaluateBatch setting sf rx um entries e =
     (if entries = [] then e
      else if setting \<noteq> ''true'' then e
      else if rulesOfType RuleTypeLogThreshold e = [] then e
      else evalRules sf rx um entries (rulesOfType RuleTypeLogThreshold e) e)"

section \<open>Audit-log and malformed-line rules\<close>

text \<open>\<open>ts\<close>: the current time, formatted.\<close>

definition auditPayload :: "string \<Rightarrow> Alert \<Rightarrow> string \<Rightarrow> string \<Rightarrow> string \<Rightarrow> string \<Rightarrow> Payload" where
  "auditPayload ts rule action username ip details =
     basePayload\<lparr>pl_Title := ''Audit log: '' @ action,
       pl_Message := ''Action '' @ [CHR 0x27] @ action @ [CHR 0x27] @ '' was performed. '' @ details,
       pl_Severity := ''warning'',
       pl_AuditLogRef := Some \<lparr>ar_Action = action, ar_Username = username, ar_UserIP = ip, ar_Details = details, ar_Timestamp = ts\<rparr>,
       pl_MatchedConditions :=
         [if al_AuditActionFilter rule \<noteq> [] then ''Audit action matches: '' @ al_AuditActionFilter rule
          else ''Any audit action (no filter set)'',
          ''Action performed: '' @ action]\<rparr>"

fun auditRules ::
  "string \<Rightarrow> 's store_fn \<Rightarrow> string \<Rightarrow> string \<Rightarrow> string \<Rightarrow> string \<Rightarrow> Alert list \<Rightarrow> 's engine \<Rightarrow> 's engine" where
  "auditRules ts sf action username ip details [] e = e"
| "auditRules ts sf action username ip details (rule # rules) e =
     auditRules ts sf action username ip details rules
       (if al_AuditActionFilter rule \<noteq> [] \<and> al_AuditActionFilter rule \<noteq> action then e
        else
          (case ask_store sf (itoa (al_ID rule)) 1 1 Minute (dur_mul (al_CooldownMinutes rule) Minute) e of
             (fire, e1) \<Rightarrow>
               if \<not> fire then e1
               else emit [MarkAlertFired (al_ID rule),
                          DispatchAlert rule (auditPayload ts rule action username ip details)] e1))"

definition EvaluateAuditLog ::
  "string \<Rightarrow> string \<Rightarrow> 's store_fn \<Rightarrow> string \<Rightarrow> string \<Rightarrow> string \<Rightarrow> string \<Rightarrow> 's engine \<Rightarrow> 's engine" where
  "EvaluateAuditLog ts setting sf action username ip details e =
     (if setting \<noteq> ''true'' then e
      else if rulesOfType RuleTypeAuditLog e = [] then e
      else auditRules ts sf action username ip details (rulesOfType RuleTypeAuditLog e) e)"

definition maxMalformedJSONSnippet :: nat where
  "maxMalformedJSONSnippet = 500"

definition malformedSnippet :: "string \<Rightarrow> string" where
  "malformedSnippet rawLine =
     (if length rawLine > maxMalformedJSONSnippet
      then take maxMalformedJSONSnippet rawLine @ ''...'' else rawLine)"

definition malformedPayload :: "Alert \<Rightarrow> string \<Rightarrow> Payload" where
  "malformedPayload rule snippet =
     basePayload\<lparr>pl_Title := ''Alert: '' @ al_Name rule,
       pl_Message := ''A syslog line failed to parse as JSON during ingestion: '' @ snippet,
       pl_Severity := ''warning'',
       pl_MatchedConditions := [''Malformed JSON line encountered during ingestion'']\<rparr>"

fun malformedRules :: "'s store_fn \<Rightarrow> string \<Rightarrow> Alert list \<Rightarrow> 's engine \<Rightarrow> 's engine" where
  "malformedRules sf snippet [] e = e"
| "malformedRules sf snippet (rule # rules) e =
     malformedRules sf snippet rules
       (case (if al_FireOnEveryMatch rule then (True, e)
              else ask_store sf (itoa (al_ID rule)) 1 1 Minute (dur_mul (al_CooldownMinutes rule) Minute) e) of
          (fire, e1) \<Rightarrow>
            if \<not> fire then e1
            else emit [MarkAlertFired (al_ID rule), DispatchAlert rule (malformedPayload rule snippet)] e1)"

definition EvaluateMalformedJSON :: "string \<Rightarrow> 's store_fn \<Rightarrow> string \<Rightarrow> 's engine \<Rightarrow> 's engine" where
  "EvaluateMalformedJSON setting sf rawLine e =
     (if setting \<noteq> ''true'' then e
      else if rulesOfType RuleTypeMalformedJSON e = [] then e
      else malformedRules sf (malformedSnippet rawLine) (rulesOfType RuleTypeMalformedJSON e) e)"

end
