(* ===== verification/AlertSilence.thy ===== *)
theory AlertSilence
  imports AlertEngine
begin

text \<open>
  Device silence and expiring relay certificates (\<^verbatim>\<open>alertengine/silence.go\<close>,
  \<^verbatim>\<open>alertengine/relaycert.go\<close>), with the SQL statements of \<^verbatim>\<open>db/silence_state.go\<close> on the rows
  of \<^verbatim>\<open>device_silence_state\<close>, whose primary key is the pair of rule and device.
\<close>

section \<open>The table of silent devices\<close>

definition stateKey :: "int \<Rightarrow> string \<Rightarrow> string" where
  "stateKey ruleID ip = itoa ruleID @ '':'' @ ip"

fun ListDeviceSilenceStates :: "SilenceState list \<Rightarrow> (string \<rightharpoonup> SilenceState) \<Rightarrow> string \<rightharpoonup> SilenceState" where
  "ListDeviceSilenceStates [] m = m"
| "ListDeviceSilenceStates (s # ss) m =
     ListDeviceSilenceStates ss (m(stateKey (ss_RuleID s) (ss_DeviceIP s) \<mapsto> s))"

definition same_key :: "int \<Rightarrow> string \<Rightarrow> SilenceState \<Rightarrow> bool" where
  "same_key ruleID ip s \<longleftrightarrow> ss_RuleID s = ruleID \<and> ss_DeviceIP s = ip"

text \<open>\<^verbatim>\<open>INSERT \<dots> ON CONFLICT DO UPDATE SET last_severity\<close>: an existing row keeps its instant.\<close>

definition UpsertDeviceSilenceState ::
  "int \<Rightarrow> string \<Rightarrow> time \<Rightarrow> string \<Rightarrow> SilenceState list \<Rightarrow> SilenceState list" where
  "UpsertDeviceSilenceState ruleID ip since severity rows =
     (if list_ex (same_key ruleID ip) rows
      then map (\<lambda>s. if same_key ruleID ip s then s\<lparr>ss_LastSeverity := severity\<rparr> else s) rows
      else rows @ [\<lparr>ss_RuleID = ruleID, ss_DeviceIP = ip, ss_SilentSince = since, ss_LastSeverity = severity\<rparr>])"

definition DeleteDeviceSilenceState :: "int \<Rightarrow> string \<Rightarrow> SilenceState list \<Rightarrow> SilenceState list" where
  "DeleteDeviceSilenceState ruleID ip rows = filter (\<lambda>s. \<not> same_key ruleID ip s) rows"

section \<open>Silence\<close>

record deviceLastSeen =
  dl_Hostname :: string
  dl_FromHostIP :: string
  dl_LastSeen :: time

definition silenceSeverityRank :: "string \<Rightarrow> int" where
  "silenceSeverityRank s =
     (case map_of [(''warning'', 0), (''error'', 1), (''critical'', 2)] s of None \<Rightarrow> 0 | Some r \<Rightarrow> r)"

definition severityForSilence :: "duration \<Rightarrow> duration \<Rightarrow> string" where
  "severityForSilence silentFor threshold =
     (if int64 (4 * threshold) \<le> silentFor then ''critical''
      else if int64 (2 * threshold) \<le> silentFor then ''error''
      else ''warning'')"

definition silentAfterMin :: "Alert \<Rightarrow> int" where
  "silentAfterMin rule = (if al_Threshold rule \<le> 0 then 15 else al_Threshold rule)"

definition backOnlinePayload :: "(time \<Rightarrow> string) \<Rightarrow> deviceLastSeen \<Rightarrow> SilenceState \<Rightarrow> Payload" where
  "backOnlinePayload rfc3339 dev state =
     basePayload\<lparr>pl_Title := ''Device back online: '' @ dl_Hostname dev,
       pl_Message := dl_Hostname dev @ '' ('' @ dl_FromHostIP dev @
         '') has resumed sending logs (was silent since '' @ rfc3339 (ss_SilentSince state) @ '').'',
       pl_Severity := ''info''\<rparr>"

definition silentPayload :: "(time \<Rightarrow> string) \<Rightarrow> Alert \<Rightarrow> deviceLastSeen \<Rightarrow> string \<Rightarrow> Payload" where
  "silentPayload rfc3339 rule dev severity =
     basePayload\<lparr>pl_Title := ''Device silent: '' @ dl_Hostname dev,
       pl_Message := ''No logs received from '' @ dl_Hostname dev @ '' ('' @ dl_FromHostIP dev @
         '') in over '' @ itoa (silentAfterMin rule) @ '' minutes. Last seen: '' @ rfc3339 (dl_LastSeen dev),
       pl_Severity := severity\<rparr>"

text \<open>One turn of the inner loop: one rule, one device. \<open>states\<close> was read before the loops.\<close>

definition checkDevice ::
  "'s store_fn \<Rightarrow> (time \<Rightarrow> string) \<Rightarrow> time \<Rightarrow> (string \<rightharpoonup> SilenceState) \<Rightarrow> Alert \<Rightarrow> deviceLastSeen \<Rightarrow>
   's engine \<Rightarrow> 's engine" where
  "checkDevice sf rfc3339 now states rule dev e =
     (let threshold = dur_mul (silentAfterMin rule) Minute;
          cooldown = dur_mul (al_CooldownMinutes rule) Minute;
          ip = dl_FromHostIP dev;
          key = stateKey (al_ID rule) ip;
          silentFor = time_sub now (dl_LastSeen dev)
      in if \<not> matchDevice (al_DeviceIPs rule) ip then e
         else if silentFor < threshold then
           (case states key of
              None \<Rightarrow> e
            | Some state \<Rightarrow>
                (let e1 = emit [DispatchAlert rule (backOnlinePayload rfc3339 dev state)] e
                 in e1\<lparr>en_silence := DeleteDeviceSilenceState (al_ID rule) ip (en_silence e1)\<rparr>))
         else
           (let since = (case states key of None \<Rightarrow> now - silentFor | Some state \<Rightarrow> ss_SilentSince state);
                severity = severityForSilence (time_sub now since) threshold
            in case ask_store sf key 1 1 Minute cooldown e of
                 (storeFire, e1) \<Rightarrow>
                   (let escalated = (case states key of
                                       None \<Rightarrow> False
                                     | Some state \<Rightarrow>
                                         silenceSeverityRank severity > silenceSeverityRank (ss_LastSeverity state))
                    in if \<not> escalated \<and> \<not> storeFire then e1
                       else
                         (let e2 = emit [MarkAlertFired (al_ID rule)] e1;
                              e3 = e2\<lparr>en_silence :=
                                     UpsertDeviceSilenceState (al_ID rule) ip since severity (en_silence e2)\<rparr>
                          in emit [DispatchAlert rule (silentPayload rfc3339 rule dev severity)] e3))))"

fun checkDevices ::
  "'s store_fn \<Rightarrow> (time \<Rightarrow> string) \<Rightarrow> time \<Rightarrow> (string \<rightharpoonup> SilenceState) \<Rightarrow> Alert \<Rightarrow> deviceLastSeen list \<Rightarrow>
   's engine \<Rightarrow> 's engine" where
  "checkDevices sf rfc3339 now states rule [] e = e"
| "checkDevices sf rfc3339 now states rule (dev # devs) e =
     checkDevices sf rfc3339 now states rule devs (checkDevice sf rfc3339 now states rule dev e)"

fun checkSilenceRules ::
  "'s store_fn \<Rightarrow> (time \<Rightarrow> string) \<Rightarrow> time \<Rightarrow> (string \<rightharpoonup> SilenceState) \<Rightarrow> deviceLastSeen list \<Rightarrow> Alert list \<Rightarrow>
   's engine \<Rightarrow> 's engine" where
  "checkSilenceRules sf rfc3339 now states devs [] e = e"
| "checkSilenceRules sf rfc3339 now states devs (rule # rules) e =
     checkSilenceRules sf rfc3339 now states devs rules (checkDevices sf rfc3339 now states rule devs e)"

text \<open>
  \<open>devices\<close> is the answer of \<^verbatim>\<open>loadDeviceLastSeen\<close>; \<open>listed\<close> tells whether the query of
  \<^verbatim>\<open>ListDeviceSilenceStates\<close> succeeded, an empty map standing in otherwise.
\<close>

definition CheckDeviceSilence ::
  "string \<Rightarrow> 's store_fn \<Rightarrow> (time \<Rightarrow> string) \<Rightarrow> time \<Rightarrow> deviceLastSeen list option \<Rightarrow> bool \<Rightarrow>
   's engine \<Rightarrow> 's engine" where
  "CheckDeviceSilence setting sf rfc3339 now devices listed e =
     (if setting \<noteq> ''true'' then e
      else if rulesOfType RuleTypeDeviceSilence e = [] then e
      else
        (case devices of
           None \<Rightarrow> e
         | Some [] \<Rightarrow> e
         | Some devs \<Rightarrow>
             (let states = (if listed then ListDeviceSilenceStates (en_silence e) Map.empty else Map.empty)
              in checkSilenceRules sf rfc3339 now states devs (rulesOfType RuleTypeDeviceSilence e) e)))"

section \<open>Expiring relay certificates\<close>

record RelayCertificate =
  rc_ID :: int
  rc_Label :: string
  rc_ExpiresAt :: time

definition defaultRelayCertWarningDays :: int where
  "defaultRelayCertWarningDays = 30"

definition certPayload :: "(time \<Rightarrow> string) \<Rightarrow> (time \<Rightarrow> int) \<Rightarrow> RelayCertificate \<Rightarrow> Payload" where
  "certPayload rfc3339 daysLeft cert =
     basePayload\<lparr>pl_Title := ''Relay certificate expiring: '' @ rc_Label cert,
       pl_Message := ''Relay certificate '' @ go_quote (rc_Label cert) @ '' expires '' @
         rfc3339 (rc_ExpiresAt cert) @ '' (in '' @ itoa (daysLeft (rc_ExpiresAt cert)) @
         '' day(s)). Renew it from Admin > Syslog Relay > Certificates before it lapses.'',
       pl_Severity := ''warning''\<rparr>"

fun checkCerts ::
  "'s store_fn \<Rightarrow> (time \<Rightarrow> string) \<Rightarrow> (time \<Rightarrow> int) \<Rightarrow> Alert \<Rightarrow> RelayCertificate list \<Rightarrow> 's engine \<Rightarrow> 's engine" where
  "checkCerts sf rfc3339 daysLeft rule [] e = e"
| "checkCerts sf rfc3339 daysLeft rule (cert # certs) e =
     checkCerts sf rfc3339 daysLeft rule certs
       (case ask_store sf (itoa (al_ID rule) @ '':'' @ itoa (rc_ID cert)) 1 1 Minute
               (dur_mul (al_CooldownMinutes rule) Minute) e of
          (fire, e1) \<Rightarrow>
            if \<not> fire then e1
            else emit [MarkAlertFired (al_ID rule), DispatchAlert rule (certPayload rfc3339 daysLeft cert)] e1)"

definition warnDays :: "Alert \<Rightarrow> int" where
  "warnDays rule = (if al_Threshold rule \<le> 0 then defaultRelayCertWarningDays else al_Threshold rule)"

fun checkCertRules ::
  "'s store_fn \<Rightarrow> (time \<Rightarrow> string) \<Rightarrow> (time \<Rightarrow> int) \<Rightarrow> (duration \<Rightarrow> RelayCertificate list option) \<Rightarrow>
   Alert list \<Rightarrow> 's engine \<Rightarrow> 's engine" where
  "checkCertRules sf rfc3339 daysLeft query [] e = e"
| "checkCertRules sf rfc3339 daysLeft query (rule # rules) e =
     checkCertRules sf rfc3339 daysLeft query rules
       (case query (int64 (int64 (int64 (warnDays rule) * 24) * Hour)) of
          None \<Rightarrow> e
        | Some certs \<Rightarrow> checkCerts sf rfc3339 daysLeft rule certs e)"

text \<open>
  \<open>query\<close> is \<^verbatim>\<open>db.GetExpiringRelayCertificates\<close>; \<open>daysLeft\<close> the floating-point
  \<^verbatim>\<open>int(time.Until(t).Hours() / 24)\<close>.
\<close>

definition CheckRelayCertExpiring ::
  "string \<Rightarrow> 's store_fn \<Rightarrow> (time \<Rightarrow> string) \<Rightarrow> (time \<Rightarrow> int) \<Rightarrow> (duration \<Rightarrow> RelayCertificate list option) \<Rightarrow>
   's engine \<Rightarrow> 's engine" where
  "CheckRelayCertExpiring setting sf rfc3339 daysLeft query e =
     (if setting \<noteq> ''true'' then e
      else if rulesOfType RuleTypeRelayCertExpiring e = [] then e
      else checkCertRules sf rfc3339 daysLeft query (rulesOfType RuleTypeRelayCertExpiring e) e)"

end
