(* ===== verification/Redis.thy ===== *)
theory Redis
  imports Prelude
begin

text \<open>
  The Redis service as a parameter. The program reaches it through go-redis; neither is part of the
  repository, so the model takes the commands it issues as a record of operations
  \<open>'w redis_ops\<close> on an unknown server state \<open>'w\<close>, each of which may fail. The locale
  \<open>redis_server\<close> states the documented behaviour of the commands that succeed, through two
  observations: the live keyspace \<open>ks\<close> (each key with its value and its expiry) and the server
  clock \<open>clk\<close>. \<open>mem_redis\<close> is one server that satisfies it, used to evaluate examples.
\<close>

section \<open>Commands\<close>

datatype redis_err = RedisErr

datatype redis_val =
    RStr string
  | RHash "string \<rightharpoonup> string"
  | RZSet "(string \<times> int) list"
  | RSet "string list"

type_synonym keyspace = "string \<rightharpoonup> redis_val \<times> time option"
type_synonym ('w, 'a) rcmd = "'w \<Rightarrow> (redis_err + 'a) \<times> 'w"

text \<open>A nil reply is \<^const>\<open>None\<close>. An expiry argument of zero means none, as in go-redis.\<close>

record 'w redis_ops =
  GET :: "string \<Rightarrow> ('w, string option) rcmd"
  SET :: "string \<Rightarrow> string \<Rightarrow> duration \<Rightarrow> ('w, unit) rcmd"
  SETNX :: "string \<Rightarrow> string \<Rightarrow> duration \<Rightarrow> ('w, bool) rcmd"
  DEL :: "string \<Rightarrow> ('w, int) rcmd"
  INCRBY :: "string \<Rightarrow> int \<Rightarrow> ('w, int) rcmd"
  EXPIRE :: "string \<Rightarrow> duration \<Rightarrow> ('w, unit) rcmd"
  PEXPIRE :: "string \<Rightarrow> duration \<Rightarrow> ('w, int) rcmd"
  ZREMRANGEBYSCORE :: "string \<Rightarrow> int \<Rightarrow> ('w, int) rcmd"
  ZCARD :: "string \<Rightarrow> ('w, int) rcmd"
  ZADD :: "string \<Rightarrow> int \<Rightarrow> string \<Rightarrow> ('w, int) rcmd"
  HGET :: "string \<Rightarrow> string \<Rightarrow> ('w, string option) rcmd"
  HSETNX :: "string \<Rightarrow> string \<Rightarrow> string \<Rightarrow> ('w, int) rcmd"
  HSET :: "string \<Rightarrow> string \<Rightarrow> string \<Rightarrow> ('w, int) rcmd"
  SADD :: "string \<Rightarrow> string \<Rightarrow> ('w, int) rcmd"
  SCARD :: "string \<Rightarrow> ('w, int) rcmd"

section \<open>What a key holds\<close>

text \<open>The integer a counter key holds, 0 for an absent key; \<^const>\<open>None\<close> when it is not one.\<close>

definition key_num :: "(redis_val \<times> time option) option \<Rightarrow> int option" where
  "key_num e = (case e of
      None \<Rightarrow> Some 0
    | Some (RStr s, _) \<Rightarrow> parse_int64 s
    | Some (_, _) \<Rightarrow> None)"

definition key_zset :: "(redis_val \<times> time option) option \<Rightarrow> (string \<times> int) list" where
  "key_zset e = (case e of Some (RZSet z, _) \<Rightarrow> z | _ \<Rightarrow> [])"

definition key_hash :: "(redis_val \<times> time option) option \<Rightarrow> string \<rightharpoonup> string" where
  "key_hash e = (case e of Some (RHash h, _) \<Rightarrow> h | _ \<Rightarrow> Map.empty)"

definition key_set :: "(redis_val \<times> time option) option \<Rightarrow> string list" where
  "key_set e = (case e of Some (RSet xs, _) \<Rightarrow> xs | _ \<Rightarrow> [])"

definition key_ttl :: "(redis_val \<times> time option) option \<Rightarrow> time option" where
  "key_ttl e = (case e of None \<Rightarrow> None | Some (_, t) \<Rightarrow> t)"

definition put_zset :: "keyspace \<Rightarrow> string \<Rightarrow> (string \<times> int) list \<Rightarrow> keyspace" where
  "put_zset m k z = (if z = [] then m(k := None) else m(k \<mapsto> (RZSet z, key_ttl (m k))))"

definition set_ttl :: "keyspace \<Rightarrow> string \<Rightarrow> time \<Rightarrow> keyspace" where
  "set_ttl m k t = (case m k of None \<Rightarrow> m | Some (v, _) \<Rightarrow> m(k \<mapsto> (v, Some t)))"

text \<open>The keyspace once the clock shows \<open>t\<close>: a key is gone when its expiry has passed.\<close>

definition purge :: "time \<Rightarrow> keyspace \<Rightarrow> keyspace" where
  "purge t m k = (case m k of
      Some (v, Some e) \<Rightarrow> if e < t then None else Some (v, Some e)
    | x \<Rightarrow> x)"

section \<open>The documented behaviour of the commands\<close>

locale redis_server =
  fixes R :: "'w redis_ops"
    and ks :: "'w \<Rightarrow> keyspace"
    and clk :: "'w \<Rightarrow> time"
    and adv :: "duration \<Rightarrow> 'w \<Rightarrow> 'w"
  assumes adv_law: "0 \<le> d \<Longrightarrow> ks (adv d w) = purge (clk w + d) (ks w) \<and> clk (adv d w) = clk w + d"
    and get_law: "GET R k w = (Inr r, w') \<Longrightarrow>
      r = (case ks w k of Some (RStr s, _) \<Rightarrow> Some s | _ \<Rightarrow> None) \<and> ks w' = ks w \<and> clk w' = clk w"
    and set_law: "SET R k v ttl w = (Inr u, w') \<Longrightarrow> 0 \<le> ttl \<Longrightarrow>
      ks w' = (ks w)(k \<mapsto> (RStr v, if ttl = 0 then None else Some (clk w + ttl))) \<and> clk w' = clk w"
    and setnx_law: "SETNX R k v ttl w = (Inr b, w') \<Longrightarrow> 0 \<le> ttl \<Longrightarrow>
      b = (ks w k = None) \<and> clk w' = clk w \<and>
      ks w' = (if b then (ks w)(k \<mapsto> (RStr v, if ttl = 0 then None else Some (clk w + ttl))) else ks w)"
    and del_law: "DEL R k w = (Inr n, w') \<Longrightarrow> ks w' = (ks w)(k := None) \<and> clk w' = clk w"
    and incrby_law: "INCRBY R k d w = (Inr n, w') \<Longrightarrow>
      key_num (ks w k) = Some (n - d) \<and> is_int64 n \<and> clk w' = clk w \<and>
      ks w' = (ks w)(k \<mapsto> (RStr (itoa n), key_ttl (ks w k)))"
    and expire_law: "EXPIRE R k d w = (Inr u, w') \<Longrightarrow> 0 < d \<Longrightarrow> Second dvd d \<Longrightarrow>
      ks w' = set_ttl (ks w) k (clk w + d) \<and> clk w' = clk w"
    and pexpire_law: "PEXPIRE R k d w = (Inr n, w') \<Longrightarrow> 0 < d \<Longrightarrow>
      ks w' = set_ttl (ks w) k (clk w + d) \<and> clk w' = clk w \<and> n = (if ks w k = None then 0 else 1)"
    and zrem_law: "ZREMRANGEBYSCORE R k hi w = (Inr n, w') \<Longrightarrow>
      ks w' = put_zset (ks w) k (filter (\<lambda>(m, s). hi < s) (key_zset (ks w k))) \<and> clk w' = clk w"
    and zcard_law: "ZCARD R k w = (Inr n, w') \<Longrightarrow>
      n = int (length (key_zset (ks w k))) \<and> ks w' = ks w \<and> clk w' = clk w"
    and zadd_law: "ZADD R k s m w = (Inr n, w') \<Longrightarrow>
      ks w' = put_zset (ks w) k (filter (\<lambda>p. fst p \<noteq> m) (key_zset (ks w k)) @ [(m, s)]) \<and> clk w' = clk w"
    and hget_law: "HGET R k f w = (Inr r, w') \<Longrightarrow>
      r = key_hash (ks w k) f \<and> ks w' = ks w \<and> clk w' = clk w"
    and hsetnx_law: "HSETNX R k f v w = (Inr n, w') \<Longrightarrow> clk w' = clk w \<and>
      ks w' = (if key_hash (ks w k) f = None
               then (ks w)(k \<mapsto> (RHash ((key_hash (ks w k))(f \<mapsto> v)), key_ttl (ks w k))) else ks w)"
    and hset_law: "HSET R k f v w = (Inr n, w') \<Longrightarrow> clk w' = clk w \<and>
      ks w' = (ks w)(k \<mapsto> (RHash ((key_hash (ks w k))(f \<mapsto> v)), key_ttl (ks w k)))"
    and sadd_law: "SADD R k m w = (Inr n, w') \<Longrightarrow> clk w' = clk w \<and>
      ks w' = (ks w)(k \<mapsto> (RSet (List.insert m (key_set (ks w k))), key_ttl (ks w k)))"
    and scard_law: "SCARD R k w = (Inr n, w') \<Longrightarrow>
      n = int (length (key_set (ks w k))) \<and> ks w' = ks w \<and> clk w' = clk w"

text \<open>
  A server that answers every command (a counter command on a key that is not a 64-bit integer,
  or that would overflow, still fails).
\<close>

locale redis_up = redis_server where R = R for R :: "'w redis_ops" +
  assumes up_simple: "\<exists>r w'. GET R k w = (Inr r, w')" "\<exists>u w'. SET R k v t w = (Inr u, w')"
      "\<exists>b w'. SETNX R k v t w = (Inr b, w')" "\<exists>n w'. DEL R k w = (Inr n, w')"
      "\<exists>u w'. EXPIRE R k t w = (Inr u, w')" "\<exists>n w'. PEXPIRE R k t w = (Inr n, w')"
    and up_zset: "\<exists>n w'. ZREMRANGEBYSCORE R k hi w = (Inr n, w')" "\<exists>n w'. ZCARD R k w = (Inr n, w')"
      "\<exists>n w'. ZADD R k s m w = (Inr n, w')"
    and up_hash: "\<exists>r w'. HGET R k f w = (Inr r, w')" "\<exists>n w'. HSETNX R k f v w = (Inr n, w')"
      "\<exists>n w'. HSET R k f v w = (Inr n, w')"
    and up_set: "\<exists>n w'. SADD R k m w = (Inr n, w')" "\<exists>n w'. SCARD R k w = (Inr n, w')"
    and up_incr: "key_num (ks w k) = Some n \<Longrightarrow> is_int64 (n + d) \<Longrightarrow>
      \<exists>m w'. INCRBY R k d w = (Inr m, w')"

section \<open>An in-memory server\<close>

record mem_state =
  mem_clk :: time
  mem_ks :: keyspace

definition mem_put :: "keyspace \<Rightarrow> mem_state \<Rightarrow> mem_state" where
  "mem_put m w = w\<lparr>mem_ks := m\<rparr>"

definition mem_adv :: "duration \<Rightarrow> mem_state \<Rightarrow> mem_state" where
  "mem_adv d w = \<lparr>mem_clk = mem_clk w + d, mem_ks = purge (mem_clk w + d) (mem_ks w)\<rparr>"

definition mem_expiry :: "duration \<Rightarrow> mem_state \<Rightarrow> time option" where
  "mem_expiry ttl w = (if ttl = 0 then None else Some (mem_clk w + ttl))"

definition mem_redis :: "mem_state redis_ops" where
  "mem_redis =
     \<lparr>GET = (\<lambda>k w. (Inr (case mem_ks w k of Some (RStr s, _) \<Rightarrow> Some s | _ \<Rightarrow> None), w)),
      SET = (\<lambda>k v ttl w. (Inr (), mem_put ((mem_ks w)(k \<mapsto> (RStr v, mem_expiry ttl w))) w)),
      SETNX = (\<lambda>k v ttl w.
        (case mem_ks w k of
           None \<Rightarrow> (Inr True, mem_put ((mem_ks w)(k \<mapsto> (RStr v, mem_expiry ttl w))) w)
         | Some _ \<Rightarrow> (Inr False, w))),
      DEL = (\<lambda>k w. (Inr (if mem_ks w k = None then 0 else 1), mem_put ((mem_ks w)(k := None)) w)),
      INCRBY = (\<lambda>k d w.
        (case key_num (mem_ks w k) of
           None \<Rightarrow> (Inl RedisErr, w)
         | Some n \<Rightarrow>
             if is_int64 (n + d)
             then (Inr (n + d), mem_put ((mem_ks w)(k \<mapsto> (RStr (itoa (n + d)), key_ttl (mem_ks w k)))) w)
             else (Inl RedisErr, w))),
      EXPIRE = (\<lambda>k d w. (Inr (), mem_put (set_ttl (mem_ks w) k (mem_clk w + d)) w)),
      PEXPIRE = (\<lambda>k d w. (Inr (if mem_ks w k = None then 0 else 1),
                          mem_put (set_ttl (mem_ks w) k (mem_clk w + d)) w)),
      ZREMRANGEBYSCORE = (\<lambda>k hi w.
        (Inr (int (length (filter (\<lambda>(m, s). s \<le> hi) (key_zset (mem_ks w k))))),
         mem_put (put_zset (mem_ks w) k (filter (\<lambda>(m, s). hi < s) (key_zset (mem_ks w k)))) w)),
      ZCARD = (\<lambda>k w. (Inr (int (length (key_zset (mem_ks w k)))), w)),
      ZADD = (\<lambda>k s m w.
        (Inr 1, mem_put (put_zset (mem_ks w) k
                  (filter (\<lambda>p. fst p \<noteq> m) (key_zset (mem_ks w k)) @ [(m, s)])) w)),
      HGET = (\<lambda>k f w. (Inr (key_hash (mem_ks w k) f), w)),
      HSETNX = (\<lambda>k f v w.
        (if key_hash (mem_ks w k) f = None
         then (Inr 1, mem_put ((mem_ks w)(k \<mapsto>
                (RHash ((key_hash (mem_ks w k))(f \<mapsto> v)), key_ttl (mem_ks w k)))) w)
         else (Inr 0, w))),
      HSET = (\<lambda>k f v w. (Inr 1, mem_put ((mem_ks w)(k \<mapsto>
                (RHash ((key_hash (mem_ks w k))(f \<mapsto> v)), key_ttl (mem_ks w k)))) w)),
      SADD = (\<lambda>k m w. (Inr 1, mem_put ((mem_ks w)(k \<mapsto>
                (RSet (List.insert m (key_set (mem_ks w k))), key_ttl (mem_ks w k)))) w)),
      SCARD = (\<lambda>k w. (Inr (int (length (key_set (mem_ks w k)))), w))\<rparr>"

lemmas mem_redis_defs = mem_redis_def mem_put_def mem_adv_def mem_expiry_def

interpretation mem: redis_up mem_ks mem_clk mem_adv mem_redis
proof (unfold_locales, goal_cases)
  case (6 k d w n w')
  then show ?case by (auto simp: mem_redis_defs split: option.splits if_splits)
next
  case (4 k v ttl w b w')
  then show ?case by (auto simp: mem_redis_defs split: option.splits if_splits)
next
  case (31 w k n d)
  then show ?case by (auto simp: mem_redis_defs)
qed (auto simp: mem_redis_defs split: option.splits if_splits)

section \<open>Facts on the keyspace\<close>

lemma key_num_itoa: "is_int64 n \<Longrightarrow> key_num (Some (RStr (itoa n), t)) = Some n"
  by (simp add: key_num_def parse_int64_itoa)

lemma key_num_None [simp]: "key_num None = Some 0"
  by (simp add: key_num_def)

lemma key_ttl_simps [simp]: "key_ttl None = None" "key_ttl (Some (v, t)) = t"
  by (simp_all add: key_ttl_def)

lemma set_ttl_other [simp]: "k' \<noteq> k \<Longrightarrow> set_ttl m k t k' = m k'"
  by (auto simp: set_ttl_def split: option.splits)

lemma set_ttl_same: "set_ttl m k t k = map_option (\<lambda>(v, _). (v, Some t)) (m k)"
  by (auto simp: set_ttl_def split: option.splits)

lemma put_zset_other [simp]: "k' \<noteq> k \<Longrightarrow> put_zset m k z k' = m k'"
  by (simp add: put_zset_def)

lemma key_zset_put [simp]: "key_zset (put_zset m k z k) = z"
  by (simp add: put_zset_def key_zset_def)

lemma key_zset_set_ttl [simp]: "key_zset (set_ttl m k' t k) = key_zset (m k)"
  by (cases "k = k'") (auto simp: set_ttl_def key_zset_def split: option.splits)

lemma key_hash_upd [simp]: "key_hash (Some (RHash h, t)) = h"
  by (simp add: key_hash_def)

lemma key_set_upd [simp]: "key_set (Some (RSet xs, t)) = xs"
  by (simp add: key_set_def)

end
