(* ===== verification/RedisCounterStore.thy ===== *)
theory RedisCounterStore
  imports AlertStore Redis
begin

text \<open>
  The replica-shared implementation of \<^verbatim>\<open>counterStore\<close>, \<^verbatim>\<open>redisCounterStore\<close> of
  \<^verbatim>\<open>alertengine/store.go\<close>, over the Redis parameter of \<open>Redis\<close>. On a server that answers it is a
  \<open>cooldown_store\<close>: the cooldown is a key of its own and outlives the window.
\<close>

definition countKey :: "string \<Rightarrow> string" where
  "countKey key = ''alertcount:'' @ key"

definition cooldownKey :: "string \<Rightarrow> string" where
  "cooldownKey key = ''alertcooldown:'' @ key"

definition shouldFire_redis ::
  "'w redis_ops \<Rightarrow> string \<Rightarrow> int \<Rightarrow> int \<Rightarrow> duration \<Rightarrow> duration \<Rightarrow> 'w \<Rightarrow> bool \<times> 'w" where
  "shouldFire_redis R key delta threshold window cooldown w =
     (case INCRBY R (countKey key) delta w of
        (Inl _, w1) \<Rightarrow> (False, w1)
      | (Inr newCount, w1) \<Rightarrow>
          (let w2 = (if newCount = delta then snd (EXPIRE R (countKey key) window w1) else w1)
           in if newCount < threshold then (False, w2)
              else
                (case SETNX R (cooldownKey key) ''1'' cooldown w2 of
                   (Inl _, w3) \<Rightarrow> (False, w3)
                 | (Inr acquired, w3) \<Rightarrow>
                     if \<not> acquired then (False, w3)
                     else (True, snd (DEL R (countKey key) w3)))))"

section \<open>What the keyspace shows of a counter\<close>

definition counter_of :: "keyspace \<Rightarrow> string \<Rightarrow> int" where
  "counter_of m k = (case key_num (m (countKey k)) of None \<Rightarrow> 0 | Some n \<Rightarrow> n)"

definition cooling_of :: "keyspace \<Rightarrow> string \<Rightarrow> bool" where
  "cooling_of m k \<longleftrightarrow> m (cooldownKey k) \<noteq> None"

definition cooldown_ends :: "keyspace \<Rightarrow> string \<Rightarrow> time option" where
  "cooldown_ends m k = key_ttl (m (cooldownKey k))"

definition counters_ok :: "keyspace \<Rightarrow> bool" where
  "counters_ok m \<longleftrightarrow> (\<forall>k. key_num (m (countKey k)) \<noteq> None)"

lemma keys_distinct [simp]: "countKey k \<noteq> cooldownKey k'" "cooldownKey k' \<noteq> countKey k"
  by (simp_all add: countKey_def cooldownKey_def)

lemma keys_inject [simp]: "countKey k = countKey k' \<longleftrightarrow> k = k'" "cooldownKey k = cooldownKey k' \<longleftrightarrow> k = k'"
  by (simp_all add: countKey_def cooldownKey_def)

lemma counter_of_upd:
  "is_int64 n \<Longrightarrow> counter_of (m(countKey k' \<mapsto> (RStr (itoa n), t))) k = (if k = k' then n else counter_of m k)"
  by (simp add: counter_of_def key_num_itoa)

lemma counter_of_set_ttl [simp]: "counter_of (set_ttl m k' t) k = counter_of m k"
  by (cases "countKey k = k'")
    (auto simp: counter_of_def set_ttl_def key_num_def split: option.splits redis_val.splits)

lemma cooling_of_set_ttl [simp]: "cooling_of (set_ttl m k' t) k = cooling_of m k"
  by (auto simp: cooling_of_def set_ttl_def split: option.splits)

lemma key_num_set_ttl: "key_num (set_ttl m k' t k) = key_num (m k)"
  by (cases "k = k'") (auto simp: set_ttl_def key_num_def split: option.splits redis_val.splits)

lemma counter_of_cooldown [simp]: "counter_of (m(cooldownKey k' := e)) k = counter_of m k"
  by (simp add: counter_of_def)

lemma cooling_of_count [simp]: "cooling_of (m(countKey k' := e)) k = cooling_of m k"
  by (simp add: cooling_of_def)

lemma counter_of_del [simp]: "counter_of (m(countKey k' := None)) k = (if k = k' then 0 else counter_of m k)"
  by (simp add: counter_of_def)

lemma cooling_of_upd [simp]: "cooling_of (m(cooldownKey k' \<mapsto> e)) k = (k = k' \<or> cooling_of m k)"
  by (simp add: cooling_of_def)

lemma counters_ok_simps [simp]:
  "is_int64 n \<Longrightarrow> counters_ok m \<Longrightarrow> counters_ok (m(countKey k \<mapsto> (RStr (itoa n), t)))"
  "counters_ok m \<Longrightarrow> counters_ok (set_ttl m k' t')"
  "counters_ok m \<Longrightarrow> counters_ok (m(cooldownKey k := e))"
  "counters_ok m \<Longrightarrow> counters_ok (m(countKey k := None))"
  by (auto simp: counters_ok_def key_num_itoa key_num_set_ttl)

lemma purge_key: "purge t m k = m k \<or> purge t m k = None"
  by (auto simp: purge_def split: option.splits)

lemma counters_ok_purge: "counters_ok m \<Longrightarrow> counters_ok (purge t m)"
  using purge_key [of t m] by (auto simp: counters_ok_def) (metis key_num_None option.distinct(1))

section \<open>Every call, in terms of the keyspace\<close>

context redis_server
begin

text \<open>
  Whatever the server answers, the call either gives up after a failed command or leaves the
  keyspace as the two keys of this counter demand.
\<close>

lemma shouldFire_redis_fires:
  assumes "shouldFire_redis R k d th w c s = (True, s')"
  shows "\<exists>n s1 s2 s3. INCRBY R (countKey k) d s = (Inr n, s1) \<and> th \<le> n \<and>
      s2 = (if n = d then snd (EXPIRE R (countKey k) w s1) else s1) \<and>
      SETNX R (cooldownKey k) ''1'' c s2 = (Inr True, s3) \<and> s' = snd (DEL R (countKey k) s3)"
proof -
  obtain r1 s1 where 1: "INCRBY R (countKey k) d s = (r1, s1)" by fastforce
  with assms obtain n where n: "r1 = Inr n" by (cases r1) (auto simp: shouldFire_redis_def)
  let ?s2 = "if n = d then snd (EXPIRE R (countKey k) w s1) else s1"
  obtain r3 s3 where 3: "SETNX R (cooldownKey k) ''1'' c ?s2 = (r3, s3)" by fastforce
  from assms 1 n 3 have "th \<le> n" by (auto simp: shouldFire_redis_def Let_def split: if_splits)
  moreover from this assms 1 n 3 obtain a where "r3 = Inr a"
    by (cases r3) (auto simp: shouldFire_redis_def Let_def simp del: if_split)
  ultimately show ?thesis using assms 1 n 3
    by (auto simp: shouldFire_redis_def Let_def split: if_splits simp del: split_paired_Ex)
qed

end

context redis_up
begin

lemma incr_ok:
  assumes "counters_ok (ks s)" "is_int64 (counter_of (ks s) k + d)"
  shows "\<exists>s1. INCRBY R (countKey k) d s = (Inr (counter_of (ks s) k + d), s1) \<and> clk s1 = clk s \<and>
    ks s1 = (ks s)(countKey k \<mapsto> (RStr (itoa (counter_of (ks s) k + d)), key_ttl (ks s (countKey k))))"
proof -
  obtain n where n: "key_num (ks s (countKey k)) = Some n" "counter_of (ks s) k = n"
    using assms(1) by (auto simp: counters_ok_def counter_of_def split: option.splits)
  with assms(2) obtain m s1 where m: "INCRBY R (countKey k) d s = (Inr m, s1)"
    using up_incr by metis
  from incrby_law [OF m] n have "m = n + d" by simp
  with incrby_law [OF m] n m show ?thesis by auto
qed

text \<open>The state after the counter is bumped and, for a new counter, its window started.\<close>

lemma bump_ok:
  assumes "counters_ok (ks s)" "is_int64 (counter_of (ks s) k + d)" "store_args d w c"
  shows "\<exists>s1 s2. INCRBY R (countKey k) d s = (Inr (counter_of (ks s) k + d), s1) \<and>
    s2 = (if counter_of (ks s) k + d = d then snd (EXPIRE R (countKey k) w s1) else s1) \<and>
    clk s2 = clk s \<and> counters_ok (ks s2) \<and>
    (\<forall>j. counter_of (ks s2) j = (if j = k then counter_of (ks s) k + d else counter_of (ks s) j)) \<and>
    (\<forall>j. ks s2 (cooldownKey j) = ks s (cooldownKey j))"
proof -
  let ?n = "counter_of (ks s) k + d"
  obtain s1 where s1: "INCRBY R (countKey k) d s = (Inr ?n, s1)" "clk s1 = clk s"
      "ks s1 = (ks s)(countKey k \<mapsto> (RStr (itoa ?n), key_ttl (ks s (countKey k))))"
    using incr_ok [OF assms(1,2)] by blast
  obtain u s2 where s2: "EXPIRE R (countKey k) w s1 = (Inr u, s2)"
    using up_simple(5) by blast
  have w: "0 < w" "Second dvd w" using assms(3) by (simp_all add: store_args_def)
  note s2' = expire_law [OF s2 w]
  have s1': "counters_ok (ks s1)" "\<forall>j. counter_of (ks s1) j = (if j = k then ?n else counter_of (ks s) j)"
      "\<forall>j. ks s1 (cooldownKey j) = ks s (cooldownKey j)"
    using assms(1,2) by (simp_all add: s1(3) counter_of_upd)
  let ?s2 = "if ?n = d then snd (EXPIRE R (countKey k) w s1) else s1"
  have "clk ?s2 = clk s \<and> counters_ok (ks ?s2) \<and>
      (\<forall>j. counter_of (ks ?s2) j = (if j = k then ?n else counter_of (ks s) j)) \<and>
      (\<forall>j. ks ?s2 (cooldownKey j) = ks s (cooldownKey j))"
  proof (cases "?n = d")
    case True
    then have "?s2 = s2" using s2 by simp
    moreover have "clk s2 = clk s" "counters_ok (ks s2)" using s1(2) s2' s1'(1) by simp_all
    moreover have "\<forall>j. counter_of (ks s2) j = (if j = k then ?n else counter_of (ks s) j)"
      "\<forall>j. ks s2 (cooldownKey j) = ks s (cooldownKey j)"
      using s1' conjunct1 [OF s2'] by (simp_all del: fun_upd_apply)
    ultimately show ?thesis by simp
  next
    case False
    then have "?s2 = s1" by simp
    with s1(2) s1' show ?thesis by simp
  qed
  with s1(1) show ?thesis by blast
qed

lemma fire_ok:
  assumes "counters_ok (ks s)" "is_int64 (counter_of (ks s) k + d)" "store_args d w c"
    and run: "shouldFire_redis R k d th w c s = (b, s')"
  shows "b \<longleftrightarrow> th \<le> counter_of (ks s) k + d \<and> \<not> cooling_of (ks s) k"
    and "counters_ok (ks s')" "clk s' = clk s"
    and "counter_of (ks s') j = (if j = k then (if b then 0 else counter_of (ks s) k + d) else counter_of (ks s) j)"
    and "cooling_of (ks s') j \<longleftrightarrow> (j = k \<and> b) \<or> cooling_of (ks s) j"
    and "b \<Longrightarrow> ks s' (cooldownKey k) = Some (RStr ''1'', Some (clk s + c))"
    and "j \<noteq> k \<or> \<not> b \<Longrightarrow> ks s' (cooldownKey j) = ks s (cooldownKey j)"
proof -
  let ?n = "counter_of (ks s) k + d"
  obtain s1 s2 where s1: "INCRBY R (countKey k) d s = (Inr ?n, s1)"
      and s2: "s2 = (if ?n = d then snd (EXPIRE R (countKey k) w s1) else s1)"
      and s2': "clk s2 = clk s" "counters_ok (ks s2)"
        "\<forall>j. counter_of (ks s2) j = (if j = k then ?n else counter_of (ks s) j)"
        "\<forall>j. ks s2 (cooldownKey j) = ks s (cooldownKey j)"
    using bump_ok [OF assms(1-3)] by metis
  have cool: "\<forall>j. cooling_of (ks s2) j = cooling_of (ks s) j" using s2'(4) by (simp add: cooling_of_def)
  obtain a s3 where s3: "SETNX R (cooldownKey k) ''1'' c s2 = (Inr a, s3)"
    using up_simple(3) by blast
  obtain m s4 where s4: "DEL R (countKey k) s3 = (Inr m, s4)"
    using up_simple(4) by blast
  have c: "0 < c" using assms(3) by (simp add: store_args_def)
  note s3' = setnx_law [OF s3 less_imp_le [OF c]]
  note s4' = del_law [OF s4]
  have "a \<longleftrightarrow> \<not> cooling_of (ks s2) k" using s3' by (simp only: cooling_of_def) blast
  then have a: "a \<longleftrightarrow> \<not> cooling_of (ks s) k" using cool by simp
  have eq: "shouldFire_redis R k d th w c s =
      (if ?n < th then (False, s2)
       else (case SETNX R (cooldownKey k) ''1'' c s2 of
               (Inl _, w3) \<Rightarrow> (False, w3)
             | (Inr acquired, w3) \<Rightarrow>
                 if \<not> acquired then (False, w3) else (True, snd (DEL R (countKey k) w3))))"
    unfolding shouldFire_redis_def s1 Let_def prod.case sum.case s2 ..
  have body: "(b, s') = (if ?n < th then (False, s2) else if \<not> a then (False, s3) else (True, s4))"
    using eq unfolding run s3 s4 prod.case sum.case snd_conv by simp
  show "b \<longleftrightarrow> th \<le> ?n \<and> \<not> cooling_of (ks s) k" using body a by (auto split: if_splits)
  show "counters_ok (ks s')" "clk s' = clk s"
    using body s2' s3' s4' by (auto split: if_splits)
  show "counter_of (ks s') j = (if j = k then (if b then 0 else ?n) else counter_of (ks s) j)"
    using body s2' s3' s4' by (auto split: if_splits)
  show "cooling_of (ks s') j \<longleftrightarrow> (j = k \<and> b) \<or> cooling_of (ks s) j"
    using body cool s3' s4' a by (auto split: if_splits)
  show "b \<Longrightarrow> ks s' (cooldownKey k) = Some (RStr ''1'', Some (clk s + c))"
    using body s2' s3' s4' c by (auto split: if_splits)
  show "j \<noteq> k \<or> \<not> b \<Longrightarrow> ks s' (cooldownKey j) = ks s (cooldownKey j)"
    using body s2' s3' s4' by (auto split: if_splits)
qed

end

text \<open>On a Redis that answers, the shared store meets the whole documented contract.\<close>

sublocale redis_up \<subseteq> rcs: cooldown_store "\<lambda>s. counter_of (ks s)" "\<lambda>s. cooling_of (ks s)"
    "\<lambda>s. counters_ok (ks s)" "shouldFire_redis R" adv clk
    "\<lambda>s k. cooldown_ends (ks s) k"
proof (unfold_locales, goal_cases)
  case (1 s d w c k th b s')
  then show ?case using fire_ok(1) by metis
next
  case (2 s d w c k th b s')
  then show ?case using fire_ok(4) [of s k d w c th b s' k] by simp
next
  case (3 s d w c k th b s')
  then show ?case using fire_ok(5) [of s k d w c th b s' k] by simp
next
  case (4 s d w c k th b s' k')
  then show ?case using fire_ok(4) [of s k d w c th b s' k'] by simp
next
  case (5 s d w c k th b s' k')
  then show ?case using fire_ok(5) [of s k d w c th b s' k'] by simp
next
  case (6 s d w c k th b s')
  then show ?case using fire_ok(2) by metis
next
  case (7 s t)
  then show ?case using adv_law by (simp add: counters_ok_purge)
next
  case (8 t s)
  then show ?case using adv_law by simp
next
  case (9 s d w c k th b s')
  then show ?case using fire_ok(3) by metis
next
  case (10 s d w c k th s')
  then show ?case using fire_ok(6) [of s k d w c th True s'] by (simp add: cooldown_ends_def)
next
  case (11 s d w c k th b s' k')
  then show ?case using fire_ok(7) [of s k d w c th b s' k'] by (simp add: cooldown_ends_def)
next
  case (12 s k e t)
  with adv_law [of t s] show ?case by (auto simp: cooldown_ends_def key_ttl_def purge_def split: option.splits)
next
  case (13 s k e)
  then show ?case by (auto simp: cooldown_ends_def key_ttl_def cooling_of_def split: option.splits)
next
  case (14 s k e t)
  with adv_law [of t s] show ?case
    by (auto simp: cooldown_ends_def key_ttl_def purge_def cooling_of_def split: option.splits)
qed

end
