(* ===== verification/AlertTheorems.thy ===== *)
theory AlertTheorems
  imports AlertSilence RedisCounterStore
begin

text \<open>
  What the alert engine guarantees. The first part is the engine as a client of the counter-store
  interface: one turn of each loop in terms of what the store shows of the rule's key, proved once
  in the locale \<open>counter_store\<close> and used for both implementations. Then the properties of
  batches, patterns, conditions, silence tracking and the stores themselves.
\<close>

section \<open>One rule against a batch\<close>

definition matching :: "regexp \<Rightarrow> json_fields \<Rightarrow> IngestEntry list \<Rightarrow> Alert \<Rightarrow> IngestEntry list" where
  "matching rx um entries rule = filter (entryMatches rx um rule) entries"

definition everyEffects :: "regexp \<Rightarrow> json_fields \<Rightarrow> Alert \<Rightarrow> IngestEntry list \<Rightarrow> effect list" where
  "everyEffects rx um rule ms =
     concat (map (\<lambda>en. [MarkAlertFired (al_ID rule), DispatchAlert rule (everyMatchPayload rx um rule en)]) ms)"

definition thresholdEffects :: "regexp \<Rightarrow> json_fields \<Rightarrow> Alert \<Rightarrow> IngestEntry list \<Rightarrow> effect list" where
  "thresholdEffects rx um rule ms =
     [MarkAlertFired (al_ID rule),
      DispatchAlert rule (thresholdPayload rx um rule (int (length ms)) (ruleThreshold rule) (last ms))]"

lemma emit_simps [simp]:
  "en_effects (emit fx e) = en_effects e @ fx" "en_store (emit fx e) = en_store e"
  "en_silence (emit fx e) = en_silence e" "en_rulesByType (emit fx e) = en_rulesByType e"
  by (simp_all add: emit_def)

lemma dispatch_each_eq: "dispatch_each rx um rule ms e = emit (everyEffects rx um rule ms) e"
  by (induction ms arbitrary: e) (simp_all add: everyEffects_def emit_def)

lemma evalRule_eq:
  "evalRule sf rx um entries rule e =
     (let ms = matching rx um entries rule in
      if ms = [] then e
      else if al_FireOnEveryMatch rule then emit (everyEffects rx um rule ms) e
      else (case sf (itoa (al_ID rule)) (int (length ms)) (ruleThreshold rule)
                  (dur_mul (al_WindowMinutes rule) Minute) (dur_mul (al_CooldownMinutes rule) Minute)
                  (en_store e) of
              (fire, s) \<Rightarrow> emit (if fire then thresholdEffects rx um rule ms else []) (e\<lparr>en_store := s\<rparr>)))"
  by (simp add: evalRule_def matching_def Let_def dispatch_each_eq ask_store_def thresholdEffects_def
      emit_def split: prod.splits)

text \<open>The filters of a rule, each in its own words.\<close>

definition satisfies :: "regexp \<Rightarrow> json_fields \<Rightarrow> Alert \<Rightarrow> IngestEntry \<Rightarrow> bool" where
  "satisfies rx um rule entry \<longleftrightarrow>
     meetsSeverity (ie_Severity entry) (al_Severity rule) \<and>
     (al_DeviceIPs rule = [] \<or> ie_FromHostIP entry \<in> set (al_DeviceIPs rule)) \<and>
     (al_ParserNames rule = [] \<or> set (al_ParserNames rule) \<inter> set (ie_MatchedParsers entry) \<noteq> {}) \<and>
     matchPattern (al_MessagePattern rule) (ie_Message entry) \<and>
     (let flds = decodeParsedFields um (ie_ParsedFields entry);
          holds = cond_holds rx flds;
          conds = set (al_FieldConditions rule)
      in if al_FieldConditionsLogic rule = FieldConditionsLogicOr
         then conds = {} \<or> (\<exists>c \<in> conds. holds c)
         else (\<forall>c \<in> conds. holds c))"

lemma entryMatches_iff: "entryMatches rx um rule entry \<longleftrightarrow> satisfies rx um rule entry"
  by (auto simp: entryMatches_def satisfies_def matchDevice_iff matchParsers_iff matchFieldConditions_def
      match_any_iff match_all_iff Let_def)

section \<open>The engine as a client of the counter store\<close>

text \<open>
  The settings under which no duration of the rule overflows (292 years of minutes and less) and
  the count stays a 64-bit integer.
\<close>

definition rule_ok :: "(string \<Rightarrow> int) \<Rightarrow> IngestEntry list \<Rightarrow> Alert \<Rightarrow> bool" where
  "rule_ok acc entries rule \<longleftrightarrow>
     1 \<le> al_WindowMinutes rule \<and> al_WindowMinutes rule \<le> 153722867 \<and>
     1 \<le> al_CooldownMinutes rule \<and> al_CooldownMinutes rule \<le> 153722867 \<and>
     0 \<le> acc (itoa (al_ID rule)) \<and> acc (itoa (al_ID rule)) + int (length entries) < 2 ^ 63"

text \<open>What a rule does with a batch, given what the store shows of its key.\<close>

definition planned ::
  "regexp \<Rightarrow> json_fields \<Rightarrow> IngestEntry list \<Rightarrow> (string \<Rightarrow> int) \<Rightarrow> (string \<Rightarrow> bool) \<Rightarrow> Alert \<Rightarrow> effect list" where
  "planned rx um entries acc cooling rule =
     (let ms = matching rx um entries rule; k = itoa (al_ID rule) in
      if ms = [] then []
      else if al_FireOnEveryMatch rule then everyEffects rx um rule ms
      else if ruleThreshold rule \<le> acc k + int (length ms) \<and> \<not> cooling k
      then thresholdEffects rx um rule ms
      else [])"

lemma store_args_minutes:
  assumes "0 < d" "1 \<le> w" "w \<le> 153722867" "1 \<le> c" "c \<le> 153722867"
  shows "store_args d (dur_mul w Minute) (dur_mul c Minute)"
proof -
  have "Second dvd w * Minute" "Second dvd c * Minute"
    by (simp_all add: Minute_def Second_def)
  with assms show ?thesis
    by (simp add: store_args_def dur_mul_Minute) (simp add: Minute_def)
qed

lemma length_matching: "length (matching rx um entries rule) \<le> length entries"
  by (simp add: matching_def)

context counter_store
begin

lemma evalRule_step:
  assumes "ready (en_store e)" "rule_ok (acc (en_store e)) entries rule"
  shows "en_effects (evalRule shouldFire rx um entries rule e) =
      en_effects e @ planned rx um entries (acc (en_store e)) (cooling (en_store e)) rule"
    and "ready (en_store (evalRule shouldFire rx um entries rule e))"
    and "k \<noteq> itoa (al_ID rule) \<Longrightarrow>
      acc (en_store (evalRule shouldFire rx um entries rule e)) k = acc (en_store e) k \<and>
      cooling (en_store (evalRule shouldFire rx um entries rule e)) k = cooling (en_store e) k"
proof -
  let ?ms = "matching rx um entries rule"
  let ?k = "itoa (al_ID rule)"
  let ?w = "dur_mul (al_WindowMinutes rule) Minute"
  let ?c = "dur_mul (al_CooldownMinutes rule) Minute"
  obtain b s where bs: "shouldFire ?k (int (length ?ms)) (ruleThreshold rule) ?w ?c (en_store e) = (b, s)"
    by fastforce
  have "en_effects (evalRule shouldFire rx um entries rule e) =
        en_effects e @ planned rx um entries (acc (en_store e)) (cooling (en_store e)) rule \<and>
      ready (en_store (evalRule shouldFire rx um entries rule e)) \<and>
      (k \<noteq> ?k \<longrightarrow>
        acc (en_store (evalRule shouldFire rx um entries rule e)) k = acc (en_store e) k \<and>
        cooling (en_store (evalRule shouldFire rx um entries rule e)) k = cooling (en_store e) k)"
  proof (cases "?ms = [] \<or> al_FireOnEveryMatch rule")
    case True
    with assms(1) show ?thesis by (auto simp: evalRule_eq planned_def Let_def)
  next
    case False
    have args: "store_args (int (length ?ms)) ?w ?c"
      using assms(2) False by (intro store_args_minutes) (auto simp: rule_ok_def)
    have bound: "is_int64 (acc (en_store e) ?k + int (length ?ms))"
      using assms(2) length_matching [of rx um entries rule] by (auto simp: rule_ok_def is_int64_def)
    note law = assms(1) args bound bs
    from False bs fire_iff [OF law] ready_after [OF law] acc_frame [OF law] cooling_frame [OF law]
    show ?thesis by (simp add: evalRule_eq planned_def Let_def)
  qed
  then show "en_effects (evalRule shouldFire rx um entries rule e) =
      en_effects e @ planned rx um entries (acc (en_store e)) (cooling (en_store e)) rule"
    and "ready (en_store (evalRule shouldFire rx um entries rule e))"
    and "k \<noteq> ?k \<Longrightarrow>
      acc (en_store (evalRule shouldFire rx um entries rule e)) k = acc (en_store e) k \<and>
      cooling (en_store (evalRule shouldFire rx um entries rule e)) k = cooling (en_store e) k"
    by blast+
qed

text \<open>
  Rules with different IDs do not influence each other: what each does is decided by the store as
  it was before the batch.
\<close>

lemma evalRules_effects:
  assumes "ready (en_store e)" "distinct (map al_ID rules)"
    and "\<forall>rule \<in> set rules. rule_ok (acc (en_store e)) entries rule"
  shows "en_effects (evalRules shouldFire rx um entries rules e) =
    en_effects e @ concat (map (planned rx um entries (acc (en_store e)) (cooling (en_store e))) rules)"
  using assms
proof (induction rules arbitrary: e)
  case Nil
  then show ?case by simp
next
  case (Cons rule rules)
  let ?e1 = "evalRule shouldFire rx um entries rule e"
  from Cons.prems(1,3) have ok: "rule_ok (acc (en_store e)) entries rule" by simp
  note step = evalRule_step [OF Cons.prems(1) ok]
  have same: "acc (en_store ?e1) (itoa (al_ID r)) = acc (en_store e) (itoa (al_ID r)) \<and>
      cooling (en_store ?e1) (itoa (al_ID r)) = cooling (en_store e) (itoa (al_ID r))" if "r \<in> set rules" for r
    using that Cons.prems(2) by (intro step(3)) (auto simp: image_iff)
  have "en_effects (evalRules shouldFire rx um entries rules ?e1) = en_effects ?e1 @
      concat (map (planned rx um entries (acc (en_store ?e1)) (cooling (en_store ?e1))) rules)"
  proof (rule Cons.IH)
    show "ready (en_store ?e1)" by (rule step(2))
    show "distinct (map al_ID rules)" using Cons.prems(2) by simp
    show "\<forall>rule \<in> set rules. rule_ok (acc (en_store ?e1)) entries rule"
      using Cons.prems(3) same by (auto simp: rule_ok_def)
  qed
  moreover have "map (planned rx um entries (acc (en_store ?e1)) (cooling (en_store ?e1))) rules =
      map (planned rx um entries (acc (en_store e)) (cooling (en_store e))) rules"
    using same by (intro map_cong refl) (simp add: planned_def Let_def)
  ultimately show ?case by (simp add: step(1))
qed

end

section \<open>Silence tracking, row by row\<close>

definition row_of :: "SilenceState list \<Rightarrow> int \<Rightarrow> string \<Rightarrow> SilenceState option" where
  "row_of rows r ip = find (same_key r ip) rows"

text \<open>The primary key of the table: one row for a rule and a device.\<close>

definition keyed :: "SilenceState list \<Rightarrow> bool" where
  "keyed rows \<longleftrightarrow> distinct (map (\<lambda>s. (ss_RuleID s, ss_DeviceIP s)) rows)"

lemma stateKey_inject [simp]: "stateKey r ip = stateKey r' ip' \<longleftrightarrow> r = r' \<and> ip = ip'"
  using itoa_sep_inject [of "CHR '':''" r ip r' ip'] by (simp add: stateKey_def is_digit_def)

lemma list_states_other:
  "\<forall>s \<in> set rows. \<not> same_key r ip s \<Longrightarrow> ListDeviceSilenceStates rows m (stateKey r ip) = m (stateKey r ip)"
  by (induction rows arbitrary: m) (auto simp: same_key_def)

lemma list_states_row_of:
  "keyed rows \<Longrightarrow>
    ListDeviceSilenceStates rows m (stateKey r ip) =
      (case row_of rows r ip of None \<Rightarrow> m (stateKey r ip) | Some s \<Rightarrow> Some s)"
proof (induction rows arbitrary: m)
  case Nil
  then show ?case by (simp add: row_of_def)
next
  case (Cons s rows)
  then have k: "keyed rows" by (simp add: keyed_def)
  show ?case
  proof (cases "same_key r ip s")
    case True
    with Cons.prems have "\<forall>s' \<in> set rows. \<not> same_key r ip s'"
      by (auto simp: keyed_def same_key_def image_iff)
    with True show ?thesis by (simp add: list_states_other row_of_def) (simp add: same_key_def)
  next
    case False
    with Cons.IH [OF k] show ?thesis by (auto simp: row_of_def same_key_def split: option.splits)
  qed
qed

lemma keyed_upsert: "keyed rows \<Longrightarrow> keyed (UpsertDeviceSilenceState r ip since sev rows)"
proof -
  assume "keyed rows"
  moreover have "map (\<lambda>s. (ss_RuleID s, ss_DeviceIP s))
      (map (\<lambda>s. if same_key r ip s then s\<lparr>ss_LastSeverity := sev\<rparr> else s) rows) =
      map (\<lambda>s. (ss_RuleID s, ss_DeviceIP s)) rows" by simp
  ultimately show ?thesis
    by (auto simp: UpsertDeviceSilenceState_def keyed_def same_key_def list_ex_iff simp del: map_map)
qed

lemma keyed_delete: "keyed rows \<Longrightarrow> keyed (DeleteDeviceSilenceState r ip rows)"
  by (simp add: keyed_def DeleteDeviceSilenceState_def distinct_map_filter)

lemma row_of_delete:
  "row_of (DeleteDeviceSilenceState r ip rows) r' ip' = (if (r', ip') = (r, ip) then None else row_of rows r' ip')"
  by (induction rows) (auto simp: row_of_def DeleteDeviceSilenceState_def same_key_def)

lemma row_of_map_severity:
  "row_of (map (\<lambda>s. if same_key r ip s then s\<lparr>ss_LastSeverity := sev\<rparr> else s) rows) r' ip' =
    (if (r', ip') = (r, ip) then map_option (\<lambda>s. s\<lparr>ss_LastSeverity := sev\<rparr>) (row_of rows r' ip')
     else row_of rows r' ip')"
  by (induction rows) (auto simp: row_of_def same_key_def)

lemma same_key_mk [simp]:
  "same_key r ip \<lparr>ss_RuleID = r', ss_DeviceIP = ip', ss_SilentSince = t, ss_LastSeverity = v\<rparr> \<longleftrightarrow>
    r' = r \<and> ip' = ip"
  by (simp add: same_key_def)

lemma row_of_snoc:
  "row_of (rows @ [x]) r ip =
    (case row_of rows r ip of None \<Rightarrow> if same_key r ip x then Some x else None | Some s \<Rightarrow> Some s)"
  by (induction rows) (auto simp: row_of_def)

lemma list_ex_row_of: "list_ex (same_key r ip) rows \<longleftrightarrow> row_of rows r ip \<noteq> None"
  by (induction rows) (auto simp: row_of_def)

lemma row_of_upsert_other:
  "(r', ip') \<noteq> (r, ip) \<Longrightarrow> row_of (UpsertDeviceSilenceState r ip since sev rows) r' ip' = row_of rows r' ip'"
  by (auto simp: UpsertDeviceSilenceState_def row_of_map_severity row_of_snoc split: option.splits)

lemma row_of_upsert:
  "row_of (UpsertDeviceSilenceState r ip since sev rows) r ip =
    Some (case row_of rows r ip of
            None \<Rightarrow> \<lparr>ss_RuleID = r, ss_DeviceIP = ip, ss_SilentSince = since, ss_LastSeverity = sev\<rparr>
          | Some s \<Rightarrow> s\<lparr>ss_LastSeverity := sev\<rparr>)"
  by (auto simp: UpsertDeviceSilenceState_def row_of_map_severity row_of_snoc list_ex_row_of
      split: option.splits)

text \<open>The parts of one device's turn.\<close>

definition sinceOf :: "time \<Rightarrow> (string \<rightharpoonup> SilenceState) \<Rightarrow> Alert \<Rightarrow> deviceLastSeen \<Rightarrow> time" where
  "sinceOf now states rule dev =
     (case states (stateKey (al_ID rule) (dl_FromHostIP dev)) of
        None \<Rightarrow> now - time_sub now (dl_LastSeen dev)
      | Some state \<Rightarrow> ss_SilentSince state)"

definition severityOf :: "time \<Rightarrow> (string \<rightharpoonup> SilenceState) \<Rightarrow> Alert \<Rightarrow> deviceLastSeen \<Rightarrow> string" where
  "severityOf now states rule dev =
     severityForSilence (time_sub now (sinceOf now states rule dev)) (dur_mul (silentAfterMin rule) Minute)"

definition escalates :: "time \<Rightarrow> (string \<rightharpoonup> SilenceState) \<Rightarrow> Alert \<Rightarrow> deviceLastSeen \<Rightarrow> bool" where
  "escalates now states rule dev =
     (case states (stateKey (al_ID rule) (dl_FromHostIP dev)) of
        None \<Rightarrow> False
      | Some state \<Rightarrow>
          silenceSeverityRank (ss_LastSeverity state) < silenceSeverityRank (severityOf now states rule dev))"

definition isSilent :: "time \<Rightarrow> Alert \<Rightarrow> deviceLastSeen \<Rightarrow> bool" where
  "isSilent now rule dev \<longleftrightarrow> dur_mul (silentAfterMin rule) Minute \<le> time_sub now (dl_LastSeen dev)"

definition storeSays :: "'s store_fn \<Rightarrow> Alert \<Rightarrow> deviceLastSeen \<Rightarrow> 's engine \<Rightarrow> bool" where
  "storeSays sf rule dev e \<longleftrightarrow>
     fst (sf (stateKey (al_ID rule) (dl_FromHostIP dev)) 1 1 Minute
            (dur_mul (al_CooldownMinutes rule) Minute) (en_store e))"

lemmas turn_defs = checkDevice_def sinceOf_def severityOf_def escalates_def isSilent_def storeSays_def
  ask_store_def Let_def

lemma checkDevice_cases:
  fixes e :: "'s engine" and sf :: "'s store_fn" and f :: "time \<Rightarrow> string" and now :: time
    and states :: "string \<rightharpoonup> SilenceState"
  assumes "matchDevice (al_DeviceIPs rule) (dl_FromHostIP dev)"
  defines "key \<equiv> stateKey (al_ID rule) (dl_FromHostIP dev)"
    and "e' \<equiv> checkDevice sf f now states rule dev e"
  shows "\<not> isSilent now rule dev \<Longrightarrow> states key = None \<Longrightarrow> e' = e"
    and "\<not> isSilent now rule dev \<Longrightarrow> states key = Some st \<Longrightarrow>
      en_effects e' = en_effects e @ [DispatchAlert rule (backOnlinePayload f dev st)] \<and>
      en_silence e' = DeleteDeviceSilenceState (al_ID rule) (dl_FromHostIP dev) (en_silence e)"
    and "isSilent now rule dev \<Longrightarrow> escalates now states rule dev \<or> storeSays sf rule dev e \<Longrightarrow>
      en_effects e' = en_effects e @ [MarkAlertFired (al_ID rule),
        DispatchAlert rule (silentPayload f rule dev (severityOf now states rule dev))] \<and>
      en_silence e' = UpsertDeviceSilenceState (al_ID rule) (dl_FromHostIP dev)
        (sinceOf now states rule dev) (severityOf now states rule dev) (en_silence e)"
    and "isSilent now rule dev \<Longrightarrow> \<not> escalates now states rule dev \<Longrightarrow> \<not> storeSays sf rule dev e \<Longrightarrow>
      en_effects e' = en_effects e \<and> en_silence e' = en_silence e"
proof -
  obtain b s where bs: "sf key 1 1 Minute (dur_mul (al_CooldownMinutes rule) Minute) (en_store e) = (b, s)"
    by fastforce
  show "\<not> isSilent now rule dev \<Longrightarrow> states key = None \<Longrightarrow> e' = e"
    using assms(1) unfolding key_def e'_def by (simp add: turn_defs)
  show "\<not> isSilent now rule dev \<Longrightarrow> states key = Some st \<Longrightarrow>
      en_effects e' = en_effects e @ [DispatchAlert rule (backOnlinePayload f dev st)] \<and>
      en_silence e' = DeleteDeviceSilenceState (al_ID rule) (dl_FromHostIP dev) (en_silence e)"
    using assms(1) unfolding key_def e'_def by (simp add: turn_defs)
  show "isSilent now rule dev \<Longrightarrow> escalates now states rule dev \<or> storeSays sf rule dev e \<Longrightarrow>
      en_effects e' = en_effects e @ [MarkAlertFired (al_ID rule),
        DispatchAlert rule (silentPayload f rule dev (severityOf now states rule dev))] \<and>
      en_silence e' = UpsertDeviceSilenceState (al_ID rule) (dl_FromHostIP dev)
        (sinceOf now states rule dev) (severityOf now states rule dev) (en_silence e)"
    using assms(1) bs unfolding key_def e'_def by (cases "states key") (auto simp: turn_defs key_def)
  show "isSilent now rule dev \<Longrightarrow> \<not> escalates now states rule dev \<Longrightarrow> \<not> storeSays sf rule dev e \<Longrightarrow>
      en_effects e' = en_effects e \<and> en_silence e' = en_silence e"
    using assms(1) bs unfolding key_def e'_def by (cases "states key") (auto simp: turn_defs key_def)
qed

lemma checkDevice_nomatch:
  "\<not> matchDevice (al_DeviceIPs rule) (dl_FromHostIP dev) \<Longrightarrow> checkDevice sf f now states rule dev e = e"
  by (simp add: checkDevice_def Let_def)

text \<open>What one device's turn does to the table: nothing to other rows.\<close>

lemma checkDevice_other_row:
  "(r, ip) \<noteq> (al_ID rule, dl_FromHostIP dev) \<Longrightarrow>
    row_of (en_silence (checkDevice sf f now states rule dev e)) r ip = row_of (en_silence e) r ip"
proof (cases "matchDevice (al_DeviceIPs rule) (dl_FromHostIP dev)")
  case True
  assume other: "(r, ip) \<noteq> (al_ID rule, dl_FromHostIP dev)"
  note turn = checkDevice_cases [OF True, where sf = sf and f = f and now = now and states = states and e = e]
  consider "\<not> isSilent now rule dev" "states (stateKey (al_ID rule) (dl_FromHostIP dev)) = None"
    | st where "\<not> isSilent now rule dev" "states (stateKey (al_ID rule) (dl_FromHostIP dev)) = Some st"
    | "isSilent now rule dev" "escalates now states rule dev \<or> storeSays sf rule dev e"
    | "isSilent now rule dev" "\<not> escalates now states rule dev" "\<not> storeSays sf rule dev e"
    by fastforce
  then show ?thesis
    using other by cases (auto simp: turn row_of_delete row_of_upsert_other)
qed (simp add: checkDevice_nomatch)

lemma checkDevices_other_row:
  "r \<noteq> al_ID rule \<or> ip \<notin> dl_FromHostIP ` set devs \<Longrightarrow>
    row_of (en_silence (checkDevices sf f now states rule devs e)) r ip = row_of (en_silence e) r ip"
  by (induction devs arbitrary: e) (auto simp: checkDevice_other_row)

lemma checkSilenceRules_other_row:
  "r \<notin> al_ID ` set rules \<Longrightarrow>
    row_of (en_silence (checkSilenceRules sf f now states devs rules e)) r ip = row_of (en_silence e) r ip"
  by (induction rules arbitrary: e) (auto simp: checkDevices_other_row)

text \<open>A condition on a row that its own turn establishes holds after the whole check.\<close>

lemma checkDevices_own_row:
  assumes "dev \<in> set devs" "distinct (map dl_FromHostIP devs)"
    and own: "\<And>e'. row_of (en_silence e') (al_ID rule) (dl_FromHostIP dev) =
                   row_of (en_silence e) (al_ID rule) (dl_FromHostIP dev) \<Longrightarrow>
      P (row_of (en_silence (checkDevice sf f now states rule dev e')) (al_ID rule) (dl_FromHostIP dev))"
  shows "P (row_of (en_silence (checkDevices sf f now states rule devs e)) (al_ID rule) (dl_FromHostIP dev))"
  using assms(1,2) own
proof (induction devs arbitrary: e)
  case Nil
  then show ?case by simp
next
  case (Cons d ds)
  show ?case
  proof (cases "dev = d")
    case True
    with Cons.prems(2) have "dl_FromHostIP dev \<notin> dl_FromHostIP ` set ds" by simp
    with Cons.prems(3) [OF refl] True show ?thesis by (simp add: checkDevices_other_row)
  next
    case False
    with Cons.prems(1,2) have "dev \<in> set ds" "dl_FromHostIP dev \<noteq> dl_FromHostIP d" by (auto simp: image_iff)
    then show ?thesis
      using Cons.prems(2,3) by (simp add: Cons.IH checkDevice_other_row)
  qed
qed

lemma checkSilenceRules_own_row:
  assumes "rule \<in> set rules" "distinct (map al_ID rules)"
    and "dev \<in> set devs" "distinct (map dl_FromHostIP devs)"
    and own: "\<And>e'. row_of (en_silence e') (al_ID rule) (dl_FromHostIP dev) =
                   row_of (en_silence e) (al_ID rule) (dl_FromHostIP dev) \<Longrightarrow>
      P (row_of (en_silence (checkDevice sf f now states rule dev e')) (al_ID rule) (dl_FromHostIP dev))"
  shows "P (row_of (en_silence (checkSilenceRules sf f now states devs rules e)) (al_ID rule) (dl_FromHostIP dev))"
  using assms(1,2) own
proof (induction rules arbitrary: e)
  case Nil
  then show ?case by simp
next
  case (Cons q qs)
  show ?case
  proof (cases "rule = q")
    case True
    with Cons.prems(2) have "al_ID rule \<notin> al_ID ` set qs" by simp
    with checkDevices_own_row [OF assms(3,4), of rule e P, OF Cons.prems(3)] True
    show ?thesis by (simp add: checkSilenceRules_other_row)
  next
    case False
    with Cons.prems(1,2) have "rule \<in> set qs" "al_ID rule \<noteq> al_ID q" by (auto simp: image_iff)
    then show ?thesis
      using Cons.prems(2,3) by (simp add: Cons.IH checkDevices_other_row)
  qed
qed

section \<open>Properties\<close>

subsection \<open>The stores\<close>

context redis_up
begin

lemmas redis_once = rcs.once_per_cooldown
lemmas redis_evalRules = rcs.evalRules_effects

end

text \<open>
  (C1) On any Redis server that behaves as documented and answers, the shared counter store fires
  exactly once per cooldown: after a firing of a key with cooldown \<open>c\<close>, no call for that key in
  any history of calls (for this and other keys, with arguments the engine passes and counters
  within 64 bits) that takes at most \<open>c\<close> fires, and the next call for the key fires exactly when
  more than \<open>c\<close> has passed since the firing and the counter reaches its threshold.
\<close>

theorem redis_store_once_per_cooldown:
  assumes "redis_up ks clk adv R" "counters_ok (ks s)"
    and "store_args d w c" "is_int64 (counter_of (ks s) k + d)"
    and "shouldFire_redis R k d th w c s = (True, s')"
    and "calls_fit (shouldFire_redis R) adv (\<lambda>s. counter_of (ks s)) cs s'" "elapsed cs \<le> c"
    and "s'' = snd (calls_run (shouldFire_redis R) adv cs s')"
    and "0 \<le> t" "store_args d' w' c'" "is_int64 (counter_of (ks (adv t s'')) k + d')"
  shows "list_all2 (\<lambda>cl fired. sc_key cl = k \<longrightarrow> \<not> fired) cs (fst (calls_run (shouldFire_redis R) adv cs s')) \<and>
    (fst (shouldFire_redis R k d' th' w' c' (adv t s'')) \<longleftrightarrow>
      c < elapsed cs + t \<and> th' \<le> counter_of (ks (adv t s'')) k + d')"
  using redis_up.redis_once [OF assms(1), of s d w c k th s' cs t d' w' c'] assms(2-) by blast

definition mem0 :: mem_state where
  "mem0 = \<lparr>mem_clk = 0, mem_ks = Map.empty\<rparr>"

lemma mem0_counters_ok: "counters_ok (mem_ks mem0)"
  by (simp add: counters_ok_def mem0_def)

lemma mem0_fires:
  "fst (shouldFire_redis mem_redis ''7'' 3 2 (5 * Minute) (15 * Minute) mem0)"
  by (simp add: shouldFire_redis_def mem_redis_defs mem0_def countKey_def cooldownKey_def set_ttl_def
      is_int64_def Minute_def Let_def)

text \<open>
  The witness fires rule 7, lets a burst of three more events through in the next fourteen minutes
  (one of them of another rule), and finds the rule firing again two minutes later.
\<close>

definition burst7 :: "store_call list" where
  "burst7 = [\<lparr>sc_wait = 0, sc_key = ''7'', sc_delta = 3, sc_threshold = 2, sc_window = 5 * Minute, sc_cooldown = 15 * Minute\<rparr>,
     \<lparr>sc_wait = 7 * Minute, sc_key = ''8'', sc_delta = 9, sc_threshold = 2, sc_window = 5 * Minute, sc_cooldown = 15 * Minute\<rparr>,
     \<lparr>sc_wait = 7 * Minute, sc_key = ''7'', sc_delta = 4, sc_threshold = 2, sc_window = 5 * Minute, sc_cooldown = 15 * Minute\<rparr>]"

lemmas mem_call_defs = shouldFire_redis_def mem_redis_defs mem0_def countKey_def cooldownKey_def set_ttl_def
  is_int64_def Minute_def Second_def Let_def counter_of_def purge_def burst7_def call_of_def store_args_def
  key_num_def key_ttl_def parse_int64_itoa

theorem redis_store_once_per_cooldown_witness:
  "fst (shouldFire_redis mem_redis ''7'' 3 2 (5 * Minute) (15 * Minute) mem0) \<and>
   (let s' = snd (shouldFire_redis mem_redis ''7'' 3 2 (5 * Minute) (15 * Minute) mem0);
        r = calls_run (shouldFire_redis mem_redis) mem_adv burst7 s'
    in list_all2 (\<lambda>cl fired. sc_key cl = ''7'' \<longrightarrow> \<not> fired) burst7 (fst r) \<and>
      fst (shouldFire_redis mem_redis ''7'' 1 2 (5 * Minute) (15 * Minute) (mem_adv (2 * Minute) (snd r))))"
proof -
  define s' where "s' = snd (shouldFire_redis mem_redis ''7'' 3 2 (5 * Minute) (15 * Minute) mem0)"
  define s'' where "s'' = snd (calls_run (shouldFire_redis mem_redis) mem_adv burst7 s')"
  have args: "store_args 3 (5 * Minute) (15 * Minute)" "store_args 1 (5 * Minute) (15 * Minute)"
    by (simp_all add: store_args_def Minute_def Second_def)
  have fire: "shouldFire_redis mem_redis ''7'' 3 2 (5 * Minute) (15 * Minute) mem0 = (True, s')"
    using mem0_fires by (simp add: s'_def prod_eq_iff)
  have c0: "is_int64 (counter_of (mem_ks mem0) ''7'' + 3)"
    by (simp add: counter_of_def mem0_def is_int64_def)
  have fit: "calls_fit (shouldFire_redis mem_redis) mem_adv (\<lambda>s. counter_of (mem_ks s)) burst7 s'"
    by (simp add: s'_def mem_call_defs)
  have c2: "counter_of (mem_ks (mem_adv (2 * Minute) s'')) ''7'' = 4"
    by (simp add: s'_def s''_def mem_call_defs)
  have el: "elapsed burst7 = 14 * Minute" by (simp add: burst7_def)
  from redis_store_once_per_cooldown [OF mem.redis_up_axioms mem0_counters_ok args(1) c0 fire fit _ s''_def,
      where t = "2 * Minute" and d' = 1 and th' = 2, OF _ _ args(2)] mem0_fires c2 el
  show ?thesis by (simp add: s'_def s''_def Minute_def is_int64_def Let_def)
qed

text \<open>
  The in-process store does not keep the documented contract: once the window of the entry is
  over, an event that reaches the threshold fires again, however long the cooldown still is.
\<close>

theorem local_store_forgets_cooldown:
  assumes "shouldFire_local k d th w c s = (True, s')"
    and "0 < w" "\<And>e. ls_counts s k = Some e \<Longrightarrow> lc_windowEnds e \<le> ls_now s + w"
    and "w < t" "zeroTime \<le> ls_now s" "0 < d'" "th' \<le> d'" "is_int64 d'"
  shows "fst (shouldFire_local k d' th' w' c' (local_adv t s'))"
proof -
  obtain e where "ls_counts s' k = Some e" "lc_windowEnds e \<le> ls_now s' + w"
    using local_window_bound [OF assms(1) less_imp_le [OF assms(2)] assms(3)] by blast
  moreover have "ls_now s' = ls_now s" by (rule shouldFire_local_now [OF assms(1)])
  ultimately show ?thesis
    using assms by (intro local_window_end_drops_cooldown [OF assms(1)]) auto
qed

theorem local_store_forgets_cooldown_witness:
  "fst (shouldFire_local ''7'' 1 1 Minute (60 * Minute) (newLocalCounterStore 0)) \<and>
   fst (shouldFire_local ''7'' 1 1 Minute (60 * Minute)
     (local_adv (2 * Minute) (snd (shouldFire_local ''7'' 1 1 Minute (60 * Minute) (newLocalCounterStore 0)))))"
proof -
  define s' where "s' = snd (shouldFire_local ''7'' 1 1 Minute (60 * Minute) (newLocalCounterStore 0))"
  have fire: "shouldFire_local ''7'' 1 1 Minute (60 * Minute) (newLocalCounterStore 0) = (True, s')"
    by (simp add: s'_def shouldFire_local_def newLocalCounterStore_def int64_def zeroTime_def Let_def)
  have "fst (shouldFire_local ''7'' 1 1 Minute (60 * Minute) (local_adv (2 * Minute) s'))"
    by (rule local_store_forgets_cooldown [OF fire])
      (simp_all add: newLocalCounterStore_def Minute_def zeroTime_def is_int64_def)
  with fire show ?thesis by (metis fst_conv s'_def)
qed

subsection \<open>Batches\<close>

text \<open>
  With the in-process store, evaluating a batch does for every active log-threshold rule
  exactly what the store showed of that rule's own key before the batch: nothing when no entry
  matches, one notification per matching entry for a rule that fires on every match, and otherwise
  one notification, for the last matching entry, exactly when the counted events reach the
  threshold outside the cooldown. Rules with different IDs do not influence each other.
\<close>

theorem EvaluateBatch_local:
  assumes "local_ready (en_store e)" "entries \<noteq> []"
    and "distinct (map al_ID (rulesOfType RuleTypeLogThreshold e))"
    and "\<forall>rule \<in> set (rulesOfType RuleTypeLogThreshold e). rule_ok (local_acc (en_store e)) entries rule"
  shows "en_effects (EvaluateBatch ''true'' shouldFire_local rx um entries e) =
    en_effects e @ concat (map (planned rx um entries (local_acc (en_store e)) (local_cooling (en_store e)))
                               (rulesOfType RuleTypeLogThreshold e))"
  using lcs.evalRules_effects [OF assms(1,3,4), of rx um] assms(2) by (simp add: EvaluateBatch_def)

definition rule0 :: Alert where
  "rule0 = \<lparr>al_ID = 7, al_Name = ''disk'', al_RuleType = RuleTypeLogThreshold, al_Severity = ''warning'',
     al_DeviceIPs = [], al_ParserNames = [], al_FieldConditions = [], al_FieldConditionsLogic = ''and'',
     al_MessagePattern = ''disk * full'', al_Threshold = 2, al_WindowMinutes = 5, al_CooldownMinutes = 15,
     al_FireOnEveryMatch = False, al_AuditActionFilter = [], al_IsActive = True, al_CreatedBy = None,
     al_ChannelIDs = [], al_Description = [], al_CreatedAt = 0, al_UpdatedAt = 0, al_LastFiredAt = None\<rparr>"

definition entry0 :: "string \<Rightarrow> string \<Rightarrow> IngestEntry" where
  "entry0 sev msg = \<lparr>ie_Timestamp = [], ie_Hostname = ''srv1'', ie_FromHostIP = ''10.0.0.1'', ie_AppName = [],
     ie_ProcessID = [], ie_MsgID = [], ie_Severity = sev, ie_Facility = [], ie_Message = msg, ie_RawMessage = msg,
     ie_ViaRelay = [], ie_ParsedFields = [], ie_MatchedParsers = []\<rparr>"

definition engine0 :: "Alert list \<Rightarrow> localCounterStore engine" where
  "engine0 rules = loadRules (Some rules) \<lparr>en_rulesByType = Map.empty, en_store = newLocalCounterStore 0,
     en_silence = [], en_effects = []\<rparr>"

lemma matching0:
  "matching (\<lambda>_. None) (\<lambda>_. None) [entry0 ''err'' ''Disk sda1 full'', entry0 ''info'' ''disk x full'',
      entry0 ''CRIT'' ''disk sdb full''] rule0 =
    [entry0 ''err'' ''Disk sda1 full'', entry0 ''CRIT'' ''disk sdb full'']"
  by code_simp

lemma rules0: "rulesOfType RuleTypeLogThreshold (engine0 [rule0]) = [rule0]"
  by (simp add: rulesOfType_def engine0_def loadRules_def rule0_def)

theorem EvaluateBatch_local_witness:
  "en_effects (EvaluateBatch ''true'' shouldFire_local (\<lambda>_. None) (\<lambda>_. None)
      [entry0 ''err'' ''Disk sda1 full'', entry0 ''info'' ''disk x full'', entry0 ''CRIT'' ''disk sdb full'']
      (engine0 [rule0])) =
    thresholdEffects (\<lambda>_. None) (\<lambda>_. None) rule0
      [entry0 ''err'' ''Disk sda1 full'', entry0 ''CRIT'' ''disk sdb full'']"
proof -
  have acc0: "local_acc (en_store (engine0 [rule0])) k = 0" "local_cooling (en_store (engine0 [rule0])) k = False" for k
    by (simp_all add: local_acc_def local_cooling_def engine0_def loadRules_def newLocalCounterStore_def)
  have "local_ready (en_store (engine0 [rule0]))"
    by (simp add: local_ready_def engine0_def loadRules_def newLocalCounterStore_def zeroTime_def)
  moreover have "\<forall>rule \<in> set (rulesOfType RuleTypeLogThreshold (engine0 [rule0])).
      rule_ok (local_acc (en_store (engine0 [rule0])))
        [entry0 ''err'' ''Disk sda1 full'', entry0 ''info'' ''disk x full'', entry0 ''CRIT'' ''disk sdb full''] rule"
    by (simp add: rules0 rule_ok_def acc0) (simp add: rule0_def)
  ultimately have "en_effects (EvaluateBatch ''true'' shouldFire_local (\<lambda>_. None) (\<lambda>_. None)
      [entry0 ''err'' ''Disk sda1 full'', entry0 ''info'' ''disk x full'', entry0 ''CRIT'' ''disk sdb full'']
      (engine0 [rule0])) = en_effects (engine0 [rule0]) @ concat (map (planned (\<lambda>_. None) (\<lambda>_. None)
        [entry0 ''err'' ''Disk sda1 full'', entry0 ''info'' ''disk x full'', entry0 ''CRIT'' ''disk sdb full'']
        (local_acc (en_store (engine0 [rule0]))) (local_cooling (en_store (engine0 [rule0])))) [rule0])"
    using EvaluateBatch_local [of "engine0 [rule0]"] by (simp add: rules0)
  also have "\<dots> = thresholdEffects (\<lambda>_. None) (\<lambda>_. None) rule0
      [entry0 ''err'' ''Disk sda1 full'', entry0 ''CRIT'' ''disk sdb full'']"
    by (simp add: planned_def matching0 acc0 Let_def)
      (simp add: engine0_def loadRules_def rule0_def ruleThreshold_def)
  finally show ?thesis .
qed

text \<open>
  (C3) The same decision with the replica-shared store, on any Redis server that behaves as
  documented and answers: per rule, from the rule's own counter and cooldown keys before the batch.
\<close>

theorem EvaluateBatch_redis:
  assumes "redis_up ks clk adv R" "counters_ok (ks (en_store e))" "entries \<noteq> []"
    and "distinct (map al_ID (rulesOfType RuleTypeLogThreshold e))"
    and "\<forall>rule \<in> set (rulesOfType RuleTypeLogThreshold e). rule_ok (counter_of (ks (en_store e))) entries rule"
  shows "en_effects (EvaluateBatch ''true'' (shouldFire_redis R) rx um entries e) =
    en_effects e @ concat (map (planned rx um entries (counter_of (ks (en_store e))) (cooling_of (ks (en_store e))))
                               (rulesOfType RuleTypeLogThreshold e))"
  using redis_up.redis_evalRules [OF assms(1), of e "rulesOfType RuleTypeLogThreshold e" entries rx um] assms(2-5)
  by (simp add: EvaluateBatch_def)

theorem EvaluateBatch_redis_witness:
  "en_effects (EvaluateBatch ''true'' (shouldFire_redis mem_redis) (\<lambda>_. None) (\<lambda>_. None)
      [entry0 ''err'' ''Disk sda1 full'', entry0 ''info'' ''disk x full'', entry0 ''CRIT'' ''disk sdb full'']
      \<lparr>en_rulesByType = [RuleTypeLogThreshold \<mapsto> [rule0]], en_store = mem0, en_silence = [], en_effects = []\<rparr>) =
    thresholdEffects (\<lambda>_. None) (\<lambda>_. None) rule0
      [entry0 ''err'' ''Disk sda1 full'', entry0 ''CRIT'' ''disk sdb full'']"
  (is "en_effects (EvaluateBatch _ _ _ _ ?es ?e) = ?fx")
proof -
  have acc0: "counter_of (mem_ks mem0) k = 0" "cooling_of (mem_ks mem0) k = False" for k
    by (simp_all add: counter_of_def cooling_of_def mem0_def)
  have rules: "rulesOfType RuleTypeLogThreshold ?e = [rule0]" by (simp add: rulesOfType_def)
  have "rule_ok (counter_of (mem_ks mem0)) ?es rule0" by (simp add: rule_ok_def acc0) (simp add: rule0_def)
  then have "en_effects (EvaluateBatch ''true'' (shouldFire_redis mem_redis) (\<lambda>_. None) (\<lambda>_. None) ?es ?e) =
      planned (\<lambda>_. None) (\<lambda>_. None) ?es (counter_of (mem_ks mem0)) (cooling_of (mem_ks mem0)) rule0"
    using EvaluateBatch_redis [OF mem.redis_up_axioms, of ?e ?es "\<lambda>_. None" "\<lambda>_. None"] mem0_counters_ok
    by (simp add: rules)
  also have "\<dots> = ?fx"
    by (simp add: planned_def matching0 acc0 Let_def) (simp add: rule0_def ruleThreshold_def)
  finally show ?thesis .
qed

lemma evalRule_new_effects:
  assumes ms_def: "ms = matching rx um entries rule"
  shows "\<exists>fx. en_effects (evalRule sf rx um entries rule e) = en_effects e @ fx \<and>
    (fx = [] \<or> (ms \<noteq> [] \<and> (fx = everyEffects rx um rule ms \<or> fx = thresholdEffects rx um rule ms)))"
proof -
  obtain b s where "sf (itoa (al_ID rule)) (int (length ms)) (ruleThreshold rule)
      (dur_mul (al_WindowMinutes rule) Minute) (dur_mul (al_CooldownMinutes rule) Minute) (en_store e) = (b, s)"
    by fastforce
  then show ?thesis by (cases b) (auto simp: evalRule_eq ms_def Let_def)
qed

lemma evalRule_dispatch:
  assumes "DispatchAlert r pl \<in> set (en_effects (evalRule sf rx um entries rule e))"
    and "DispatchAlert r pl \<notin> set (en_effects e)"
  shows "r = rule \<and> (\<exists>entry \<in> set entries. satisfies rx um rule entry \<and>
      pl_TriggerLog pl = Some (triggerLogSnapshot entry))"
proof -
  let ?ms = "matching rx um entries rule"
  obtain fx where fx: "en_effects (evalRule sf rx um entries rule e) = en_effects e @ fx"
      and cases: "fx = [] \<or> (?ms \<noteq> [] \<and> (fx = everyEffects rx um rule ?ms \<or> fx = thresholdEffects rx um rule ?ms))"
    using evalRule_new_effects [OF refl] by metis
  have ms: "en \<in> set entries \<and> satisfies rx um rule en" if "en \<in> set ?ms" for en
    using that by (simp add: matching_def entryMatches_iff)
  from assms fx have "DispatchAlert r pl \<in> set fx" by simp
  with cases consider en where "en \<in> set ?ms" "r = rule" "pl = everyMatchPayload rx um rule en"
    | "?ms \<noteq> []" "r = rule"
      "pl = thresholdPayload rx um rule (int (length ?ms)) (ruleThreshold rule) (last ?ms)"
    by (auto simp: everyEffects_def thresholdEffects_def)
  then show ?thesis
  proof cases
    case 1
    with ms show ?thesis by (auto simp: everyMatchPayload_def)
  next
    case 2
    with ms [of "last ?ms"] show ?thesis by (auto simp: thresholdPayload_def)
  qed
qed

lemma evalRules_dispatch:
  "DispatchAlert r pl \<in> set (en_effects (evalRules sf rx um entries rules e)) \<Longrightarrow>
    DispatchAlert r pl \<notin> set (en_effects e) \<Longrightarrow>
    r \<in> set rules \<and> (\<exists>entry \<in> set entries. satisfies rx um r entry \<and>
      pl_TriggerLog pl = Some (triggerLogSnapshot entry))"
proof (induction rules arbitrary: e)
  case Nil
  then show ?case by simp
next
  case (Cons rule rules)
  show ?case
  proof (cases "DispatchAlert r pl \<in> set (en_effects (evalRule sf rx um entries rule e))")
    case True
    from evalRule_dispatch [OF True Cons.prems(2)] show ?thesis by auto
  next
    case False
    with Cons.IH [of "evalRule sf rx um entries rule e"] Cons.prems(1) show ?thesis by auto
  qed
qed

text \<open>
  (C6) Whatever the counter store answers, every notification a batch adds belongs to an active
  log-threshold rule and carries the snapshot of an entry of the batch that passes every filter of
  that rule: severity, device, parser, message pattern and field conditions.
\<close>

theorem EvaluateBatch_sound:
  assumes "DispatchAlert rule pl \<in> set (en_effects (EvaluateBatch setting sf rx um entries e))"
    and "DispatchAlert rule pl \<notin> set (en_effects e)"
  shows "setting = ''true'' \<and> rule \<in> set (rulesOfType RuleTypeLogThreshold e) \<and>
    (\<exists>entry \<in> set entries. satisfies rx um rule entry \<and>
      pl_TriggerLog pl = Some (triggerLogSnapshot entry))"
  using assms evalRules_dispatch [of rule pl sf rx um entries "rulesOfType RuleTypeLogThreshold e" e]
  by (auto simp: EvaluateBatch_def split: if_splits)

theorem EvaluateBatch_sound_witness:
  "\<exists>pl. DispatchAlert rule0 pl \<in> set (en_effects (EvaluateBatch ''true'' (\<lambda>k d th w c s. (True, s))
        (\<lambda>_. None) (\<lambda>_. None) [entry0 ''err'' ''Disk sda1 full''] (engine0 [rule0]))) \<and>
     pl_TriggerLog pl = Some (triggerLogSnapshot (entry0 ''err'' ''Disk sda1 full''))"
proof -
  let ?e = "EvaluateBatch ''true'' (\<lambda>k d th w c s. (True, s)) (\<lambda>_. None) (\<lambda>_. None)
      [entry0 ''err'' ''Disk sda1 full''] (engine0 [rule0])"
  let ?pl = "thresholdPayload (\<lambda>_. None) (\<lambda>_. None) rule0 1 2 (entry0 ''err'' ''Disk sda1 full'')"
  have m: "matching (\<lambda>_. None) (\<lambda>_. None) [entry0 ''err'' ''Disk sda1 full''] rule0 =
      [entry0 ''err'' ''Disk sda1 full'']" by code_simp
  have fx: "en_effects ?e = thresholdEffects (\<lambda>_. None) (\<lambda>_. None) rule0 [entry0 ''err'' ''Disk sda1 full'']"
    by (simp add: EvaluateBatch_def rules0 evalRule_eq m Let_def) (simp add: engine0_def loadRules_def rule0_def)
  have "ruleThreshold rule0 = 2" by (simp add: ruleThreshold_def rule0_def)
  then have "DispatchAlert rule0 ?pl \<in> set (en_effects ?e)" by (simp add: fx thresholdEffects_def)
  moreover have "DispatchAlert rule0 ?pl \<notin> set (en_effects (engine0 [rule0]))"
    by (simp add: engine0_def loadRules_def)
  ultimately show ?thesis using EvaluateBatch_sound by fastforce
qed

subsection \<open>Patterns, severities and descriptions\<close>

text \<open>
  A message pattern that contains a star matches exactly the messages that consist, up to the
  case of letters, of the parts between its stars in order with anything in the gaps, whatever
  characters those parts hold: the translation to a regular expression quotes every one of them.
\<close>

theorem matchPattern_star:
  assumes "CHR ''*'' \<in> set p"
  shows "matchPattern p v \<longleftrightarrow>
    (\<exists>gs. Suc (length gs) = length (split_on (CHR ''*'') p) \<and>
          to_lower v = fill (map to_lower (split_on (CHR ''*'') p)) (map to_lower gs))"
  by (rule matchPattern_glob [OF assms])

theorem matchPattern_star_witness:
  "CHR ''*'' \<in> set ''disk *.1 (full)*'' \<and> matchPattern ''disk *.1 (full)*'' ''Disk sda.1 (FULL) now''"
proof -
  have "matchPattern ''disk *.1 (full)*'' ''Disk sda.1 (FULL) now''"
    unfolding matchPattern_star [of "''disk *.1 (full)*''", simplified]
    by (rule exI [of _ "[''sda'', '' now'']"]) code_simp
  then show ?thesis by simp
qed

text \<open>
  The severity of a notification follows the syslog scale for every known severity, most severe
  first, but a severity the table does not know is reported as critical, while a rule's severity
  filter lets it pass.
\<close>

theorem notifySeverity_unknown:
  assumes "severityRank (to_lower s) = None"
  shows "notifySeverity s = ''critical'' \<and> meetsSeverity s m"
  using assms by (simp add: notifySeverity_def meetsSeverity_def)

theorem notifySeverity_unknown_witness:
  "notifySeverity ''verbose'' = ''critical'' \<and> meetsSeverity ''verbose'' ''debug''"
proof -
  have "severityRank (to_lower ''verbose'') = None" by code_simp
  from notifySeverity_unknown [OF this] show ?thesis .
qed

text \<open>
  The history of an OR rule can list a condition that did not hold: a \<^emph>\<open>not equals\<close> condition
  on a field the entry does not have never matches, yet it is described as satisfied.
\<close>

theorem describe_absent_not_equals:
  assumes "al_FieldConditionsLogic rule = FieldConditionsLogicOr"
    and "fc_Operator cond = FieldOpNotEquals" "fc_Value cond \<noteq> []" "flds (fc_FieldName cond) = None"
  shows "\<not> matchFieldConditions rx [cond] flds FieldConditionsLogicOr \<and>
    describe_fields rx rule flds [cond] \<noteq> []"
  using assms
  by (simp add: matchFieldConditions_def evaluateFieldCondition_def field_or_empty_def field_op_defs Let_def)

theorem describe_absent_not_equals_witness:
  "describe_fields (\<lambda>_. None) (rule0\<lparr>al_FieldConditionsLogic := FieldConditionsLogicOr\<rparr>) Map.empty
     [\<lparr>fc_ID = 1, fc_FieldName = ''user'', fc_Operator = FieldOpNotEquals, fc_Value = ''root''\<rparr>] \<noteq> []"
  using describe_absent_not_equals [of "rule0\<lparr>al_FieldConditionsLogic := FieldConditionsLogicOr\<rparr>"
      "\<lparr>fc_ID = 1, fc_FieldName = ''user'', fc_Operator = FieldOpNotEquals, fc_Value = ''root''\<rparr>" Map.empty "\<lambda>_. None"]
  by simp

subsection \<open>Silent devices\<close>

lemma CheckDeviceSilence_eq:
  assumes "dev \<in> set devs" "rule \<in> set (rulesOfType RuleTypeDeviceSilence e)"
  shows "CheckDeviceSilence ''true'' sf f now (Some devs) True e =
    checkSilenceRules sf f now (ListDeviceSilenceStates (en_silence e) Map.empty) devs
      (rulesOfType RuleTypeDeviceSilence e) e"
  using assms by (cases devs) (auto simp: CheckDeviceSilence_def Let_def)

text \<open>
  After a check that finds a watched device logging again, the table holds no row for it and
  its rule, so that the \<^emph>\<open>back online\<close> notice is sent once per outage: the next check sees no
  earlier silence.
\<close>

theorem silence_recovery_clears_row:
  assumes "keyed (en_silence e)" "distinct (map al_ID (rulesOfType RuleTypeDeviceSilence e))"
    and "distinct (map dl_FromHostIP devs)" "rule \<in> set (rulesOfType RuleTypeDeviceSilence e)" "dev \<in> set devs"
    and "matchDevice (al_DeviceIPs rule) (dl_FromHostIP dev)" "\<not> isSilent now rule dev"
  shows "row_of (en_silence (CheckDeviceSilence ''true'' sf f now (Some devs) True e))
    (al_ID rule) (dl_FromHostIP dev) = None"
  unfolding CheckDeviceSilence_eq [OF assms(5,4)]
proof (rule checkSilenceRules_own_row [where P = "\<lambda>r. r = None", OF assms(4,2,5,3)])
  let ?key = "stateKey (al_ID rule) (dl_FromHostIP dev)"
  let ?states = "ListDeviceSilenceStates (en_silence e) Map.empty"
  fix e' :: "'a engine"
  assume row: "row_of (en_silence e') (al_ID rule) (dl_FromHostIP dev) =
      row_of (en_silence e) (al_ID rule) (dl_FromHostIP dev)"
  have st: "?states ?key = row_of (en_silence e) (al_ID rule) (dl_FromHostIP dev)"
    by (simp add: list_states_row_of [OF assms(1)] split: option.split)
  note turn = checkDevice_cases [OF assms(6), where sf = sf and f = f and now = now and states = ?states and e = e']
  show "row_of (en_silence (checkDevice sf f now ?states rule dev e')) (al_ID rule) (dl_FromHostIP dev) = None"
  proof (cases "?states ?key")
    case None
    with turn(1) [OF assms(7)] row st show ?thesis by simp
  next
    case (Some x)
    with turn(2) [OF assms(7)] show ?thesis by (simp add: row_of_delete)
  qed
qed

definition srule0 :: Alert where
  "srule0 = rule0\<lparr>al_RuleType := RuleTypeDeviceSilence, al_Threshold := 15\<rparr>"

definition dev0 :: deviceLastSeen where
  "dev0 = \<lparr>dl_Hostname = ''srv1'', dl_FromHostIP = ''10.0.0.1'', dl_LastSeen = 0\<rparr>"

definition row0 :: "string \<Rightarrow> SilenceState" where
  "row0 sev = \<lparr>ss_RuleID = 7, ss_DeviceIP = ''10.0.0.1'', ss_SilentSince = 0, ss_LastSeverity = sev\<rparr>"

definition sengine0 :: "SilenceState list \<Rightarrow> localCounterStore engine" where
  "sengine0 rows = (engine0 [srule0])\<lparr>en_silence := rows\<rparr>"

lemma srules0: "rulesOfType RuleTypeDeviceSilence (sengine0 rows) = [srule0]"
  by (simp add: rulesOfType_def sengine0_def engine0_def loadRules_def srule0_def)

lemma srule0_match: "matchDevice (al_DeviceIPs srule0) (dl_FromHostIP dev0)"
  by (simp add: matchDevice_def srule0_def rule0_def)

theorem silence_recovery_clears_row_witness:
  "row_of (en_silence (CheckDeviceSilence ''true'' shouldFire_local (\<lambda>_. []) (5 * Minute) (Some [dev0]) True
     (sengine0 [row0 ''warning'']))) (al_ID srule0) (dl_FromHostIP dev0) = None"
proof (rule silence_recovery_clears_row)
  show "\<not> isSilent (5 * Minute) srule0 dev0"
    by (simp add: isSilent_def dur_mul_Minute silentAfterMin_def srule0_def time_sub_def dev0_def)
      (simp add: Minute_def)
  show "keyed (en_silence (sengine0 [row0 ''warning'']))" by (simp add: keyed_def sengine0_def)
qed (simp_all add: srules0 srule0_match)

text \<open>
  While a device stays silent its row keeps the instant the silence began, across every check:
  repeated and escalated notifications are dated from the start of the outage.
\<close>

theorem silence_since_kept:
  assumes "keyed (en_silence e)" "distinct (map al_ID (rulesOfType RuleTypeDeviceSilence e))"
    and "distinct (map dl_FromHostIP devs)" "rule \<in> set (rulesOfType RuleTypeDeviceSilence e)" "dev \<in> set devs"
    and "matchDevice (al_DeviceIPs rule) (dl_FromHostIP dev)" "isSilent now rule dev"
    and "row_of (en_silence e) (al_ID rule) (dl_FromHostIP dev) = Some st"
  shows "map_option ss_SilentSince
      (row_of (en_silence (CheckDeviceSilence ''true'' sf f now (Some devs) True e)) (al_ID rule) (dl_FromHostIP dev)) =
    Some (ss_SilentSince st)"
  unfolding CheckDeviceSilence_eq [OF assms(5,4)]
proof (rule checkSilenceRules_own_row [where P = "\<lambda>r. map_option ss_SilentSince r = Some (ss_SilentSince st)",
      OF assms(4,2,5,3)])
  let ?states = "ListDeviceSilenceStates (en_silence e) Map.empty"
  fix e' :: "'a engine"
  assume row: "row_of (en_silence e') (al_ID rule) (dl_FromHostIP dev) =
      row_of (en_silence e) (al_ID rule) (dl_FromHostIP dev)"
  note turn = checkDevice_cases [OF assms(6), where sf = sf and f = f and now = now and states = ?states and e = e']
  show "map_option ss_SilentSince
      (row_of (en_silence (checkDevice sf f now ?states rule dev e')) (al_ID rule) (dl_FromHostIP dev)) =
    Some (ss_SilentSince st)"
  proof (cases "escalates now ?states rule dev \<or> storeSays sf rule dev e'")
    case True
    with turn(3) [OF assms(7)] row assms(8) show ?thesis by (simp add: row_of_upsert)
  next
    case False
    with turn(4) [OF assms(7)] row assms(8) show ?thesis by simp
  qed
qed

lemma dev0_silent: "isSilent (40 * Minute) srule0 dev0"
  by (simp add: isSilent_def dur_mul_Minute silentAfterMin_def srule0_def time_sub_def dev0_def)
    (simp add: Minute_def)

theorem silence_since_kept_witness:
  "map_option ss_SilentSince
      (row_of (en_silence (CheckDeviceSilence ''true'' shouldFire_local (\<lambda>_. []) (40 * Minute) (Some [dev0]) True
        (sengine0 [row0 ''warning'']))) (al_ID srule0) (dl_FromHostIP dev0)) = Some 0"
proof -
  have row: "row_of (en_silence (sengine0 [row0 ''warning''])) (al_ID srule0) (dl_FromHostIP dev0) =
      Some (row0 ''warning'')"
    by (simp add: row_of_def sengine0_def row0_def same_key_def srule0_def rule0_def dev0_def)
  have keyed: "keyed (en_silence (sengine0 [row0 ''warning'']))" by (simp add: keyed_def sengine0_def)
  show ?thesis
    using silence_since_kept [OF keyed _ _ _ _ srule0_match dev0_silent row, of "[dev0]" shouldFire_local "\<lambda>_. []"]
    by (simp add: srules0) (simp add: row0_def)
qed

text \<open>
  A device whose silence has grown a severity level notifies at once, even while the counter
  store holds the rule back: warning, then error at twice and critical at four times the threshold.
\<close>

theorem silence_escalation_bypasses_store:
  assumes "matchDevice (al_DeviceIPs rule) (dl_FromHostIP dev)" "isSilent now rule dev"
    and "states (stateKey (al_ID rule) (dl_FromHostIP dev)) = Some st"
    and "silenceSeverityRank (ss_LastSeverity st) <
      silenceSeverityRank (severityForSilence (time_sub now (ss_SilentSince st)) (dur_mul (silentAfterMin rule) Minute))"
  shows "en_effects (checkDevice sf f now states rule dev e) = en_effects e @
    [MarkAlertFired (al_ID rule),
     DispatchAlert rule (silentPayload f rule dev
       (severityForSilence (time_sub now (ss_SilentSince st)) (dur_mul (silentAfterMin rule) Minute)))]"
proof -
  have sev: "severityOf now states rule dev =
      severityForSilence (time_sub now (ss_SilentSince st)) (dur_mul (silentAfterMin rule) Minute)"
    by (simp add: severityOf_def sinceOf_def assms(3))
  then have "escalates now states rule dev" using assms(3,4) by (simp add: escalates_def)
  with checkDevice_cases(3) [OF assms(1,2), where sf = sf and f = f and states = states and e = e] sev
  show ?thesis by simp
qed

theorem silence_escalation_bypasses_store_witness:
  "en_effects (checkDevice (\<lambda>k d th w c s. (False, s)) (\<lambda>_. []) (40 * Minute)
      [stateKey 7 ''10.0.0.1'' \<mapsto> row0 ''warning''] srule0 dev0 (sengine0 [row0 ''warning''])) =
    [MarkAlertFired 7, DispatchAlert srule0 (silentPayload (\<lambda>_. []) srule0 dev0 ''error'')]"
proof -
  have sev: "severityForSilence (time_sub (40 * Minute) (ss_SilentSince (row0 ''warning'')))
      (dur_mul (silentAfterMin srule0) Minute) = ''error''"
    by (simp add: severityForSilence_def silentAfterMin_def srule0_def dur_mul_Minute time_sub_def row0_def)
      (simp add: Minute_def int64_def)
  have "silenceSeverityRank (ss_LastSeverity (row0 ''warning'')) < silenceSeverityRank ''error''"
    by (simp add: silenceSeverityRank_def row0_def)
  moreover have id: "al_ID srule0 = 7" "dl_FromHostIP dev0 = ''10.0.0.1''" "en_effects (sengine0 [row0 ''warning'']) = []"
    by (simp_all add: srule0_def rule0_def dev0_def sengine0_def engine0_def loadRules_def)
  ultimately show ?thesis
    using silence_escalation_bypasses_store [OF srule0_match dev0_silent,
        of "[stateKey 7 ''10.0.0.1'' \<mapsto> row0 ''warning'']" "row0 ''warning''"
           "\<lambda>k d th w c s. (False, s)" "\<lambda>_. []" "sengine0 [row0 ''warning'']"]
    by (simp add: sev)
qed

end
