(* ===== verification/Sql.thy ===== *)
theory Sql
  imports Prelude
begin

text \<open>
  Database access. A component's tables are a record of type \<open>'d\<close>; a program that talks to the
  database is a function of type \<open>('d, 'a) sql\<close>. Every statement may fail for reasons the model does
  not show (the connection, a lock, a column too narrow): the list of booleans beside the tables says
  which of the coming statements do, and a run with an empty list has no such failure. Theorems that
  quantify over the list hold whatever the server does. A transaction restores the tables when one
  of its statements, or its commit, fails.
\<close>

datatype sqlerr = SqlErr | NoRows | ScanErr

type_synonym ('d, 'a) sql = "'d \<times> bool list \<Rightarrow> (sqlerr + 'a) \<times> 'd \<times> bool list"

text \<open>What an HTTP handler answers: a status with a body, or a status with the key of an error.\<close>

datatype 'a resp = Answer int 'a | Failure int string

definition parseIDParam :: "string \<Rightarrow> int option" where
  "parseIDParam s = parse_int64 s"

text \<open>The values of an \<^verbatim>\<open>INTEGER\<close> column; the server rejects a parameter outside.\<close>

definition is_int32 :: "int \<Rightarrow> bool" where
  "is_int32 i \<longleftrightarrow> - (2 ^ 31) \<le> i \<and> i < 2 ^ 31"

definition ret :: "'a \<Rightarrow> ('d, 'a) sql" where
  "ret x s = (Inr x, s)"

definition throw :: "sqlerr \<Rightarrow> ('d, 'a) sql" where
  "throw err s = (Inl err, s)"

text \<open>A step on state of the process that sits beside the tables; no statement, no fault.\<close>

definition local :: "('d \<Rightarrow> 'a \<times> 'd) \<Rightarrow> ('d, 'a) sql" where
  "local f s = (case f (fst s) of (x, d') \<Rightarrow> (Inr x, d', snd s))"

text \<open>One statement: a fault leaves the tables alone; so does an error the statement itself reports.\<close>

definition stmt :: "('d \<Rightarrow> sqlerr + 'a \<times> 'd) \<Rightarrow> ('d, 'a) sql" where
  "stmt f s =
     (if snd s \<noteq> [] \<and> hd (snd s) then (Inl SqlErr, fst s, tl (snd s))
      else (case f (fst s) of
              Inl err \<Rightarrow> (Inl err, fst s, tl (snd s))
            | Inr (x, d) \<Rightarrow> (Inr x, d, tl (snd s))))"

definition query :: "('d \<Rightarrow> sqlerr + 'a) \<Rightarrow> ('d, 'a) sql" where
  "query f = stmt (\<lambda>d. map_sum id (\<lambda>x. (x, d)) (f d))"

text \<open>\<^verbatim>\<open>if err != nil\<close> return it.\<close>

definition bind :: "('d, 'a) sql \<Rightarrow> ('a \<Rightarrow> ('d, 'b) sql) \<Rightarrow> ('d, 'b) sql" where
  "bind m k s = (case m s of (Inl err, s') \<Rightarrow> (Inl err, s') | (Inr x, s') \<Rightarrow> k x s')"

text \<open>\<^verbatim>\<open>_ = f()\<close> and \<^verbatim>\<open>if err := f(); err == nil\<close>: the caller looks at the outcome itself.\<close>

definition attempt :: "('d, 'a) sql \<Rightarrow> ((sqlerr + 'a) \<Rightarrow> ('d, 'b) sql) \<Rightarrow> ('d, 'b) sql" where
  "attempt m k s = (let (r, s') = m s in k r s')"

text \<open>\<^verbatim>\<open>db.Begin\<close>, the statements, \<^verbatim>\<open>tx.Commit\<close>, with \<^verbatim>\<open>defer tx.Rollback()\<close>.\<close>

definition transaction :: "('d, unit) sql \<Rightarrow> ('d, unit) sql" where
  "transaction m s =
     (case bind (stmt (\<lambda>d. Inr ((), d))) (\<lambda>_. bind m (\<lambda>_. stmt (\<lambda>d. Inr ((), d)))) s of
        (Inl err, s') \<Rightarrow> (Inl err, fst s, snd s')
      | (Inr x, s') \<Rightarrow> (Inr x, s'))"

text \<open>The same for statements that end in a value, \<^verbatim>\<open>return x, tx.Commit()\<close>.\<close>

definition transaction_value :: "('d, 'a) sql \<Rightarrow> ('d, 'a) sql" where
  "transaction_value m s =
     (case bind (stmt (\<lambda>d. Inr ((), d))) (\<lambda>_. bind m (\<lambda>x. bind (stmt (\<lambda>d. Inr ((), d))) (\<lambda>_. ret x))) s of
        (Inl err, s') \<Rightarrow> (Inl err, fst s, snd s')
      | (Inr x, s') \<Rightarrow> (Inr x, s'))"

text \<open>
  A transaction in a handler: the body gives the answer to an error (then, as when the commit fails, the tables
  are restored) or a value for the rest of the handler.
\<close>

definition handler_tx :: "('d, 'b resp + 'a) sql \<Rightarrow> ('a \<Rightarrow> ('d, 'b resp) sql) \<Rightarrow> ('d, 'b resp) sql" where
  "handler_tx body k s =
     (case stmt (\<lambda>d. Inr ((), d)) s of
        (Inl err, s1) \<Rightarrow> (Inr (Failure 500 ''db.transactionStartFailed''), s1)
      | (Inr _, s1) \<Rightarrow>
          (case body s1 of
             (Inl err, s2) \<Rightarrow> (Inl err, fst s1, snd s2)
           | (Inr (Inl f), s2) \<Rightarrow> (Inr f, fst s1, snd s2)
           | (Inr (Inr x), s2) \<Rightarrow>
               (case stmt (\<lambda>d. Inr ((), d)) s2 of
                  (Inl err, s3) \<Rightarrow> (Inr (Failure 500 ''db.commitFailed''), fst s1, snd s3)
                | (Inr _, s3) \<Rightarrow> k x s3)))"

text \<open>Sequencing over a list, stopping at the first error.\<close>

fun for_each :: "('a \<Rightarrow> ('d, unit) sql) \<Rightarrow> 'a list \<Rightarrow> ('d, unit) sql" where
  "for_each f [] = ret ()"
| "for_each f (x # xs) = bind (f x) (\<lambda>_. for_each f xs)"

lemma bind_bind: "bind (bind m k) l = bind m (\<lambda>x. bind (k x) l)"
  by (rule ext) (simp add: bind_def split: prod.split sum.split)

lemma bind_ret [simp]: "bind m ret = m"
  by (rule ext) (simp add: bind_def ret_def split: prod.split sum.split)

lemma bind_ret_unit [simp]: "bind m (\<lambda>_. ret ()) = m"
  using bind_ret [of m] by simp

lemma ret_bind [simp]: "bind (ret x) k = k x"
  by (rule ext) (simp add: bind_def ret_def)

lemma for_each_append: "for_each g (xs @ ys) = bind (for_each g xs) (\<lambda>_. for_each g ys)"
  by (induction xs) (simp_all add: bind_bind)

section \<open>What holds of every run\<close>

text \<open>\<open>keeps I m\<close>: the program \<open>m\<close> preserves the table invariant \<open>I\<close>, whatever fails.\<close>

definition keeps :: "('d \<Rightarrow> bool) \<Rightarrow> ('d, 'a) sql \<Rightarrow> bool" where
  "keeps I m \<longleftrightarrow> (\<forall>s. I (fst s) \<longrightarrow> I (fst (snd (m s))))"

named_theorems keeps_intros \<open>invariant preservation, by the shape of the program\<close>

lemma keepsI: "(\<And>s. I (fst s) \<Longrightarrow> I (fst (snd (m s)))) \<Longrightarrow> keeps I m"
  by (simp add: keeps_def)

lemma keepsD: "keeps I m \<Longrightarrow> I (fst s) \<Longrightarrow> I (fst (snd (m s)))"
  by (cases s) (simp add: keeps_def)

lemma keeps_ret [keeps_intros]: "keeps I (ret x)"
  by (simp add: keeps_def ret_def)

lemma keeps_throw [keeps_intros]: "keeps I (throw err)"
  by (simp add: keeps_def throw_def)

lemma keeps_stmt:
  assumes "\<And>d x d'. I d \<Longrightarrow> f d = Inr (x, d') \<Longrightarrow> I d'"
  shows "keeps I (stmt f)"
  using assms by (auto simp: keeps_def stmt_def split: sum.splits)

lemma keeps_local:
  assumes "\<And>d x d'. I d \<Longrightarrow> f d = (x, d') \<Longrightarrow> I d'"
  shows "keeps I (local f)"
  using assms by (auto simp: keeps_def local_def split: prod.splits)

lemma keeps_query [keeps_intros]: "keeps I (query f)"
  unfolding query_def
proof (rule keeps_stmt)
  fix d x d'
  assume "I d" "map_sum id (\<lambda>x. (x, d)) (f d) = Inr (x, d')"
  then show "I d'" by (cases "f d") auto
qed

lemma keeps_bind [keeps_intros]:
  fixes m :: "('d, 'a) sql"
  assumes "keeps I m" "\<And>x. keeps I (k x)"
  shows "keeps I (bind m k)"
proof (rule keepsI)
  fix s :: "'d \<times> bool list"
  assume "I (fst s)"
  with assms(1) have "I (fst (snd (m s)))" by (rule keepsD)
  then show "I (fst (snd (bind m k s)))"
    using keepsD [OF assms(2)] by (cases "m s"; cases "fst (m s)") (auto simp: bind_def)
qed

lemma keeps_attempt [keeps_intros]:
  fixes m :: "('d, 'a) sql"
  assumes "keeps I m" "\<And>r. keeps I (k r)"
  shows "keeps I (attempt m k)"
proof (rule keepsI)
  fix s :: "'d \<times> bool list"
  assume "I (fst s)"
  with assms(1) have "I (fst (snd (m s)))" by (rule keepsD)
  then show "I (fst (snd (attempt m k s)))"
    using keepsD [OF assms(2)] by (cases "m s") (auto simp: attempt_def)
qed

lemma keeps_transaction [keeps_intros]:
  assumes "keeps I m"
  shows "keeps I (transaction m)"
proof -
  have "keeps I (bind (stmt (\<lambda>d. Inr ((), d))) (\<lambda>_. bind m (\<lambda>_. stmt (\<lambda>d. Inr ((), d)))))"
    by (intro keeps_intros assms keeps_stmt) auto
  then have "I (fst s) \<Longrightarrow> I (fst (snd (bind (stmt (\<lambda>d. Inr ((), d)))
      (\<lambda>_. bind m (\<lambda>_. stmt (\<lambda>d. Inr ((), d)))) s)))" for s by (rule keepsD)
  then show ?thesis
    by (auto intro!: keepsI simp: transaction_def split: prod.split sum.split) (metis fst_conv snd_conv)
qed

lemma keeps_transaction_value [keeps_intros]:
  assumes "keeps I m"
  shows "keeps I (transaction_value m)"
proof -
  have "keeps I (bind (stmt (\<lambda>d. Inr ((), d))) (\<lambda>_. bind m (\<lambda>x. bind (stmt (\<lambda>d. Inr ((), d))) (\<lambda>_. ret x))))"
    by (intro keeps_intros assms keeps_stmt) auto
  then have "I (fst s) \<Longrightarrow> I (fst (snd (bind (stmt (\<lambda>d. Inr ((), d)))
      (\<lambda>_. bind m (\<lambda>x. bind (stmt (\<lambda>d. Inr ((), d))) (\<lambda>_. ret x))) s)))" for s by (rule keepsD)
  then show ?thesis
    by (auto intro!: keepsI simp: transaction_value_def split: prod.split sum.split) (metis fst_conv snd_conv)
qed

lemma stmt_nop: "fst (snd (stmt (\<lambda>d. Inr ((), d)) s)) = fst s"
  by (simp add: stmt_def)

lemma keeps_handler_tx [keeps_intros]:
  fixes body :: "('d, 'b resp + 'a) sql"
  assumes "keeps I body" "\<And>x. keeps I (k x)"
  shows "keeps I (handler_tx body k)"
proof (rule keepsI)
  fix s :: "'d \<times> bool list"
  assume I: "I (fst s)"
  obtain r1 s1 where 1: "stmt (\<lambda>d. Inr ((), d)) s = (r1, s1)" by (cases "stmt (\<lambda>d. Inr ((), d)) s") auto
  obtain r2 s2 where 2: "body s1 = (r2, s2)" by (cases "body s1") auto
  obtain r3 s3 where 3: "stmt (\<lambda>d. Inr ((), d)) s2 = (r3, s3)" by (cases "stmt (\<lambda>d. Inr ((), d)) s2") auto
  have s1: "fst s1 = fst s" and s3: "fst s3 = fst s2" using stmt_nop [of s] stmt_nop [of s2] 1 3 by simp_all
  then have "I (fst s2)" using keepsD [OF assms(1), of s1] I 2 by simp
  then have "I (fst (snd (k x s3)))" for x using keepsD [OF assms(2), of s3] s3 by simp
  with I s1 show "I (fst (snd (handler_tx body k s)))" by (simp add: handler_tx_def 1 2 3 split: sum.split)
qed

text \<open>When the rest of the handler establishes the invariant, the transaction itself need not keep it: it is rolled back or followed by the rest.\<close>

lemma keeps_handler_tx_then:
  fixes body :: "('d, 'b resp + 'a) sql"
  assumes "\<And>x s. I (fst (snd (k x s)))"
  shows "keeps I (handler_tx body k)"
proof (rule keepsI)
  fix s :: "'d \<times> bool list"
  assume I: "I (fst s)"
  obtain r1 s1 where 1: "stmt (\<lambda>d. Inr ((), d)) s = (r1, s1)" by (cases "stmt (\<lambda>d. Inr ((), d)) s") auto
  obtain r2 s2 where 2: "body s1 = (r2, s2)" by (cases "body s1") auto
  obtain r3 s3 where 3: "stmt (\<lambda>d. Inr ((), d)) s2 = (r3, s3)" by (cases "stmt (\<lambda>d. Inr ((), d)) s2") auto
  have "fst s1 = fst s" using stmt_nop [of s] 1 by simp
  with I assms show "I (fst (snd (handler_tx body k s)))" by (simp add: handler_tx_def 1 2 3 split: sum.split)
qed

lemma keeps_stmt_then:
  fixes f :: "'d \<Rightarrow> sqlerr + 'a \<times> 'd"
  assumes "\<And>x s. I (fst (snd (k (Inr x) s)))" "\<And>err. keeps I (k (Inl err))"
  shows "keeps I (attempt (stmt f) k)"
proof (rule keepsI)
  fix s :: "'d \<times> bool list"
  assume "I (fst s)"
  with keepsD [OF assms(2), of "(fst s, tl (snd s))"] have "I (fst (snd (k (Inl err) (fst s, tl (snd s)))))" for err by simp
  with assms(1) show "I (fst (snd (attempt (stmt f) k s)))"
    by (cases "snd s"; cases "f (fst s)") (auto simp: attempt_def stmt_def)
qed

lemma keeps_for_each [keeps_intros]:
  assumes "\<And>x. x \<in> set xs \<Longrightarrow> keeps I (f x)"
  shows "keeps I (for_each f xs)"
  using assms by (induction xs) (auto intro!: keeps_intros)

lemma keeps_if [keeps_intros]:
  "(b \<Longrightarrow> keeps I m) \<Longrightarrow> (\<not> b \<Longrightarrow> keeps I m') \<Longrightarrow> keeps I (if b then m else m')"
  by simp

lemma keeps_option [keeps_intros]:
  "keeps I m \<Longrightarrow> (\<And>y. keeps I (k y)) \<Longrightarrow> keeps I (case x of None \<Rightarrow> m | Some y \<Rightarrow> k y)"
  by (cases x) auto

lemma keeps_sum [keeps_intros]:
  "(\<And>y. keeps I (k y)) \<Longrightarrow> (\<And>z. keeps I (l z)) \<Longrightarrow> keeps I (case x of Inl y \<Rightarrow> k y | Inr z \<Rightarrow> l z)"
  by (cases x) auto

lemma keeps_case_prod [keeps_intros]: "(\<And>x y. keeps I (k x y)) \<Longrightarrow> keeps I (case p of (x, y) \<Rightarrow> k x y)"
  by (cases p) auto

text \<open>A transaction that reports an error has changed nothing.\<close>

lemma transaction_atomic: "transaction m s = (Inl err, s') \<Longrightarrow> fst s' = fst s"
  by (auto simp: transaction_def split: prod.splits sum.splits)

section \<open>What a run returns\<close>

text \<open>\<open>yields Q m\<close>: what \<open>m\<close> returns, if not an error, satisfies \<open>Q\<close>, in every state and whatever fails.\<close>

definition yields :: "('a \<Rightarrow> bool) \<Rightarrow> ('d, 'a) sql \<Rightarrow> bool" where
  "yields Q m \<longleftrightarrow> (\<forall>s x. fst (m s) = Inr x \<longrightarrow> Q x)"

lemma yieldsD: "yields Q m \<Longrightarrow> m s = (Inr x, s') \<Longrightarrow> Q x"
  unfolding yields_def by (metis fst_conv)

named_theorems yields_intros \<open>outcomes, by the shape of the program\<close>

lemma yields_ret [yields_intros]: "Q x \<Longrightarrow> yields Q (ret x)"
  by (simp add: yields_def ret_def)

lemma yields_bind:
  assumes "yields P m" "\<And>x. P x \<Longrightarrow> yields Q (k x)"
  shows "yields Q (bind m k)"
  using assms unfolding yields_def bind_def by (auto split: prod.splits sum.splits) (metis fst_conv)

lemma yields_then [yields_intros]: "(\<And>x. yields Q (k x)) \<Longrightarrow> yields Q (bind m k)"
  by (rule yields_bind [of "\<lambda>_. True"]) (simp_all add: yields_def)

lemma yields_attempt:
  assumes "yields P m" "\<And>e. yields Q (k (Inl e))" "\<And>x. P x \<Longrightarrow> yields Q (k (Inr x))"
  shows "yields Q (attempt m k)"
proof -
  have "Q x" if run: "fst (attempt m k s) = Inr x" for s x
  proof -
    obtain r s' where m: "m s = (r, s')" by (cases "m s") auto
    then have "yields Q (k r)" using assms by (cases r) (auto dest: yieldsD)
    then show ?thesis using run m by (cases "k r s'") (auto simp: attempt_def dest: yieldsD)
  qed
  then show ?thesis by (simp add: yields_def)
qed

lemma yields_try [yields_intros]: "(\<And>r. yields Q (k r)) \<Longrightarrow> yields Q (attempt m k)"
  by (rule yields_attempt [of "\<lambda>_. True"]) (simp_all add: yields_def)

lemma yields_if [yields_intros]: "(b \<Longrightarrow> yields Q m) \<Longrightarrow> (\<not> b \<Longrightarrow> yields Q m') \<Longrightarrow> yields Q (if b then m else m')"
  by simp

lemma yields_option [yields_intros]: "(x = None \<Longrightarrow> yields Q m) \<Longrightarrow> (\<And>y. x = Some y \<Longrightarrow> yields Q (k y)) \<Longrightarrow> yields Q (case x of None \<Rightarrow> m | Some y \<Rightarrow> k y)"
  by (cases x) auto

lemma yields_sum [yields_intros]: "(\<And>y. x = Inl y \<Longrightarrow> yields Q (k y)) \<Longrightarrow> (\<And>z. x = Inr z \<Longrightarrow> yields Q (l z)) \<Longrightarrow> yields Q (case x of Inl y \<Rightarrow> k y | Inr z \<Rightarrow> l z)"
  by (cases x) auto

lemma yields_prod [yields_intros]: "(\<And>a b. x = (a, b) \<Longrightarrow> yields Q (k a b)) \<Longrightarrow> yields Q (case x of (a, b) \<Rightarrow> k a b)"
  by (cases x) auto

lemma yields_query:
  assumes "\<And>d x. f d = Inr x \<Longrightarrow> Q x"
  shows "yields Q (query f)"
  unfolding yields_def
proof (intro allI impI)
  fix s x
  assume "fst (query f s) = Inr x"
  then show "Q x" using assms by (cases "f (fst s)") (auto simp: query_def stmt_def split: if_splits)
qed

lemma keeps_bind_yields:
  fixes m :: "('d, 'a) sql"
  assumes "keeps I m" "yields P m" "\<And>x. P x \<Longrightarrow> keeps I (k x)"
  shows "keeps I (bind m k)"
proof (rule keepsI)
  fix s :: "'d \<times> bool list"
  assume "I (fst s)"
  with assms(1) have I: "I (fst (snd (m s)))" by (rule keepsD)
  obtain r s' where m: "m s = (r, s')" by (cases "m s") auto
  show "I (fst (snd (bind m k s)))"
  proof (cases r)
    case (Inr x)
    then have "keeps I (k x)" using assms(2,3) m by (blast dest: yieldsD)
    then show ?thesis using keepsD I m Inr by (fastforce simp: bind_def)
  qed (use I m in \<open>simp add: bind_def\<close>)
qed

lemma query_run: "\<exists>r. query f (d, fs) = (r, d, tl fs)"
  by (cases "f d") (auto simp: query_def stmt_def)

lemma query_cases:
  obtains r where "query f (d, fs) = (r, d, tl fs)" "\<And>x. r = Inr x \<Longrightarrow> f d = Inr x"
  by (cases "f d"; cases "fs \<noteq> [] \<and> hd fs") (auto simp: query_def stmt_def)

lemma find_SomeD: "find P xs = Some x \<Longrightarrow> x \<in> set xs \<and> P x"
  by (induction xs) (auto split: if_splits)

section \<open>Runs without faults\<close>

lemma stmt_ok [simp]: "stmt f (d, []) = (case f d of Inl err \<Rightarrow> (Inl err, d, []) | Inr (x, d') \<Rightarrow> (Inr x, d', []))"
  by (simp add: stmt_def split: sum.split)

lemma query_ok [simp]: "query f (d, []) = (f d, d, [])"
  by (cases "f d") (simp_all add: query_def)

lemma local_ok [simp]: "local f (d, fs) = (case f d of (x, d') \<Rightarrow> (Inr x, d', fs))"
  by (simp add: local_def split: prod.split)

lemma ret_ok [simp]: "ret x s = (Inr x, s)"
  by (simp add: ret_def)

lemma throw_ok [simp]: "throw err s = (Inl err, s)"
  by (simp add: throw_def)

lemma bind_Inr: "m s = (Inr x, s') \<Longrightarrow> bind m k s = k x s'"
  by (simp add: bind_def)

lemma bind_Inl: "m s = (Inl err, s') \<Longrightarrow> bind m k s = (Inl err, s')"
  by (simp add: bind_def)

lemma transaction_ok: "m (d, []) = (Inr (), d', []) \<Longrightarrow> transaction m (d, []) = (Inr (), d', [])"
  by (simp add: transaction_def bind_def)

lemma transaction_fails: "m (d, []) = (Inl err, s') \<Longrightarrow> transaction m (d, []) = (Inl err, d, snd s')"
  by (simp add: transaction_def bind_def)

end
