(* ===== verification/Json.thy ===== *)
theory Json
  imports Prelude
begin

text \<open>
  JSON values, and how the program reads them: \<^verbatim>\<open>json.Unmarshal\<close> into the structs the code
  declares (keys compare without regard to case, the last of several wins, an element of the wrong
  type is an error that leaves the zero value behind) and PostgreSQL's operators on \<^verbatim>\<open>jsonb\<close>.
  Numbers that are not integers keep their text.
\<close>

datatype json =
    JNull
  | JBool bool
  | JNum int
  | JFrac string
  | JStr string
  | JArr "json list"
  | JObj "(string \<times> json) list"

section \<open>Decoding into Go values\<close>

fun last_where :: "('a \<Rightarrow> bool) \<Rightarrow> ('a \<times> 'b) list \<Rightarrow> 'b option" where
  "last_where P [] = None"
| "last_where P ((k, v) # ps) =
     (case last_where P ps of Some w \<Rightarrow> Some w | None \<Rightarrow> (if P k then Some v else None))"

text \<open>The value a struct field with the tag \<open>name\<close> is decoded from.\<close>

definition go_field :: "string \<Rightarrow> json \<Rightarrow> json option" where
  "go_field name j =
     (case j of JObj ps \<Rightarrow> last_where (\<lambda>k. to_lower k = to_lower name) ps | _ \<Rightarrow> None)"

definition go_int64 :: "json \<Rightarrow> int" where
  "go_int64 j = (case j of JNum i \<Rightarrow> (if is_int64 i then i else 0) | _ \<Rightarrow> 0)"

text \<open>
  \<^verbatim>\<open>UserIds []int64\<close> with the tag \<^verbatim>\<open>user_ids\<close>, the decoding error ignored; \<^const>\<open>None\<close> is
  a text that is no JSON (the empty one).
\<close>

definition decode_user_ids :: "json option \<Rightarrow> int list" where
  "decode_user_ids config =
     (case config of
        None \<Rightarrow> []
      | Some j \<Rightarrow> (case go_field ''user_ids'' j of Some (JArr xs) \<Rightarrow> map go_int64 xs | _ \<Rightarrow> []))"

section \<open>The operators of jsonb\<close>

definition jsonb_get :: "string \<Rightarrow> json \<Rightarrow> json option" where
  "jsonb_get name j = (case j of JObj ps \<Rightarrow> last_where (\<lambda>k. k = name) ps | _ \<Rightarrow> None)"

text \<open>\<^verbatim>\<open>j @> to_jsonb(i)\<close>; a missing \<open>j\<close> is \<^verbatim>\<open>NULL\<close>, which is not true.\<close>

definition jsonb_contains_int :: "json option \<Rightarrow> int \<Rightarrow> bool" where
  "jsonb_contains_int j i =
     (case j of
        Some (JArr xs) \<Rightarrow> JNum i \<in> set xs
      | Some (JNum k) \<Rightarrow> k = i
      | _ \<Rightarrow> False)"

text \<open>\<^verbatim>\<open>COALESCE(jsonb_array_length(j), 0)\<close>: an error on a value that is no array.\<close>

definition jsonb_array_length :: "json option \<Rightarrow> nat option" where
  "jsonb_array_length j =
     (case j of None \<Rightarrow> Some 0 | Some (JArr xs) \<Rightarrow> Some (length xs) | _ \<Rightarrow> None)"

end
