(* ===== verification/NotifyDB.thy ===== *)
theory NotifyDB
  imports Sql Json AlertModel
begin

text \<open>
  The tables of alert rules, notification channels, the notification history, the in-app
  notifications and the push subscriptions, with the statements of \<^verbatim>\<open>db/alerts.go\<close> and
  \<^verbatim>\<open>db/push.go\<close>. The keys and references of the schema (\<^verbatim>\<open>db/db.go\<close>) are the errors the
  statements report here: a reference to a row that is not there, a number outside 32 bits, a title
  longer than its column. Ties of an \<^verbatim>\<open>ORDER BY\<close> keep the order of the table.
\<close>

section \<open>Tables\<close>

record AlertRequest =
  rq_Name :: string
  rq_Description :: string
  rq_RuleType :: string
  rq_Severity :: string
  rq_DeviceIPs :: "string list option"
  rq_ParserNames :: "string list option"
  rq_FieldConditions :: "AlertFieldCondition list"
  rq_FieldConditionsLogic :: string
  rq_MessagePattern :: string
  rq_Threshold :: int
  rq_WindowMinutes :: int
  rq_CooldownMinutes :: int
  rq_FireOnEveryMatch :: bool
  rq_AuditActionFilter :: string
  rq_IsActive :: "bool option"
  rq_ChannelIDs :: "int list"

text \<open>A row of \<^verbatim>\<open>alerts\<close>: the nullable columns are options.\<close>

record alert_row =
  aw_id :: int
  aw_name :: string
  aw_description :: "string option"
  aw_rule_type :: string
  aw_severity :: "string option"
  aw_device_ips :: "string list option"
  aw_parser_names :: "string list option"
  aw_message_pattern :: "string option"
  aw_threshold :: "int option"
  aw_window_minutes :: int
  aw_cooldown_minutes :: int
  aw_fire_on_every_match :: bool
  aw_field_conditions_logic :: string
  aw_audit_action_filter :: "string option"
  aw_is_active :: bool
  aw_created_by :: "int option"
  aw_created_at :: time
  aw_updated_at :: time
  aw_last_fired_at :: "time option"

record NotificationChannelRequest =
  cq_Name :: string
  cq_Type :: string
  cq_Config :: "json option"
  cq_Secret :: string
  cq_Enabled :: "bool option"

record channel_row =
  cw_id :: int
  cw_name :: string
  cw_type :: string
  cw_config :: json
  cw_secret :: "string option"
  cw_enabled :: bool
  cw_created_by :: "int option"
  cw_created_at :: time
  cw_updated_at :: time

record NotificationChannel =
  nc_ID :: int
  nc_Name :: string
  nc_Type :: string
  nc_Config :: "json option"
  nc_HasSecret :: bool
  nc_Enabled :: bool
  nc_CreatedBy :: "int option"
  nc_CreatedByUsername :: "string option"
  nc_CreatedAt :: time
  nc_UpdatedAt :: time

record NotificationLogEntry =
  nl_ID :: int
  nl_AlertID :: "int option"
  nl_AlertName :: string
  nl_FiringID :: string
  nl_ChannelID :: "int option"
  nl_ChannelName :: string
  nl_ChannelType :: string
  nl_Status :: string
  nl_Detail :: string
  nl_TriggerLog :: "TriggerLogSnapshot option"
  nl_AuditLogRef :: "AuditLogRef option"
  nl_InAppNotificationID :: "int option"
  nl_RuleType :: string
  nl_MatchedConditions :: "string list"
  nl_CreatedAt :: time

record inapp_row =
  iw_id :: int
  iw_alert_id :: "int option"
  iw_title :: string
  iw_message :: string
  iw_severity :: string
  iw_alert_rule_type :: string
  iw_target_user_ids :: "int list option"
  iw_created_at :: time

record InAppNotification =
  ia_ID :: int
  ia_AlertID :: int
  ia_Title :: string
  ia_Message :: string
  ia_Severity :: string
  ia_AlertRuleType :: string
  ia_TargetUserIds :: "int list"
  ia_CreatedAt :: time

record PushSubscription =
  ps_ID :: int
  ps_UserID :: int
  ps_Endpoint :: string
  ps_P256dh :: string
  ps_Auth :: string
  ps_CreatedAt :: time

text \<open>
  What the program hands to the outside: a mail to the relay (address, credentials, envelope,
  text), an HTTP POST (URL, bearer token, body), a message to a browser's push service, and an in-app
  notification to the SSE hub.
\<close>

datatype outgoing =
    Mail string "(string \<times> string) option" bool string "string list" string
  | Post string string json
  | WebPush string json
  | HubPublish InAppNotification

text \<open>
  The tables, and beside them (\<open>db_sent\<close>) what was handed to the outside so far. \<open>db_serial\<close> stands for the sequences that number rows, \<open>db_now\<close> for \<^verbatim>\<open>NOW()\<close>;
  \<open>db_users\<close> maps a user to the name and the \<^verbatim>\<open>is_admin\<close> flag.
\<close>

record notifdb =
  db_alerts :: "alert_row list"
  db_conds :: "(int \<times> AlertFieldCondition) list"
  db_alert_channels :: "(int \<times> int) list"
  db_channels :: "channel_row list"
  db_log :: "NotificationLogEntry list"
  db_inapp :: "inapp_row list"
  db_last_read :: "int \<rightharpoonup> int"
  db_subs :: "PushSubscription list"
  db_users :: "int \<rightharpoonup> string \<times> bool"
  db_settings :: "string \<rightharpoonup> string"
  db_serial :: int
  db_now :: time
  db_sent :: "outgoing list"

definition int4 :: "int \<Rightarrow> bool" where
  "int4 i \<longleftrightarrow> - (2 ^ 31) \<le> i \<and> i < 2 ^ 31"

text \<open>\<^verbatim>\<open>NULLIF(s, '')\<close>, and reading a nullable text column into a string.\<close>

definition nullif_empty :: "string \<Rightarrow> string option" where
  "nullif_empty s = (if s = [] then None else Some s)"

definition null_string :: "string option \<Rightarrow> string" where
  "null_string v = (case v of None \<Rightarrow> [] | Some s \<Rightarrow> s)"

lemma null_string_nullif [simp]: "null_string (nullif_empty s) = s"
  by (simp add: null_string_def nullif_empty_def)

definition alert_ids :: "notifdb \<Rightarrow> int set" where
  "alert_ids d = aw_id ` set (db_alerts d)"

definition channel_ids :: "notifdb \<Rightarrow> int set" where
  "channel_ids d = cw_id ` set (db_channels d)"

text \<open>A foreign key that may be null.\<close>

definition fk_ok :: "int set \<Rightarrow> int option \<Rightarrow> bool" where
  "fk_ok ids r \<longleftrightarrow> (case r of None \<Rightarrow> True | Some i \<Rightarrow> i \<in> ids)"

definition order_desc :: "('a \<Rightarrow> int) \<Rightarrow> 'a list \<Rightarrow> 'a list" where
  "order_desc key xs = sort_key (\<lambda>x. - key x) xs"

section \<open>Settings and users\<close>

definition GetSetting :: "(string \<Rightarrow> string option) \<Rightarrow> string \<Rightarrow> string \<Rightarrow> (notifdb, string) sql" where
  "GetSetting Decrypt key defaultValue =
     attempt (query (\<lambda>d. case db_settings d key of None \<Rightarrow> Inl NoRows | Some v \<Rightarrow> Inr v)) (\<lambda>r.
       case r of
         Inl err \<Rightarrow> ret defaultValue
       | Inr v \<Rightarrow>
           if (key = ''ldap_bind_password'' \<or> key = ''smtp_password'') \<and> v \<noteq> [] then
             (case Decrypt v of Some plain \<Rightarrow> ret plain | None \<Rightarrow> ret v)
           else ret v)"

definition UpdateSetting :: "(string \<Rightarrow> string option) \<Rightarrow> string \<Rightarrow> string \<Rightarrow> (notifdb, unit) sql" where
  "UpdateSetting Encrypt key v =
     (let v' = (if (key = ''ldap_bind_password'' \<or> key = ''smtp_password'') \<and> v \<noteq> [] then
                  (case Encrypt v of Some enc \<Rightarrow> enc | None \<Rightarrow> v)
                else v) in
      stmt (\<lambda>d. Inr ((), d\<lparr>db_settings := (db_settings d)(key \<mapsto> v')\<rparr>)))"

definition getSettingRaw :: "string \<Rightarrow> (notifdb, string) sql" where
  "getSettingRaw key =
     attempt (query (\<lambda>d. case db_settings d key of None \<Rightarrow> Inl NoRows | Some v \<Rightarrow> Inr v))
       (\<lambda>r. case r of Inl err \<Rightarrow> ret [] | Inr v \<Rightarrow> ret v)"

definition IsUserAdmin :: "int \<Rightarrow> (notifdb, bool) sql" where
  "IsUserAdmin userID =
     attempt (query (\<lambda>d. case db_users d userID of None \<Rightarrow> Inl NoRows | Some u \<Rightarrow> Inr (snd u)))
       (\<lambda>r. ret (case r of Inl err \<Rightarrow> False | Inr isAdmin \<Rightarrow> isAdmin))"

section \<open>Alert rules\<close>

text \<open>The defaults \<^verbatim>\<open>CreateAlert\<close> and \<^verbatim>\<open>UpdateAlert\<close> put into a request.\<close>

definition request_defaults :: "AlertRequest \<Rightarrow> AlertRequest" where
  "request_defaults req = req\<lparr>
     rq_WindowMinutes := (if rq_WindowMinutes req \<le> 0 then 5 else rq_WindowMinutes req),
     rq_CooldownMinutes := (if rq_CooldownMinutes req \<le> 0 then 15 else rq_CooldownMinutes req),
     rq_FieldConditionsLogic := (if rq_FieldConditionsLogic req \<noteq> FieldConditionsLogicOr
       then FieldConditionsLogicAnd else rq_FieldConditionsLogic req)\<rparr>"

definition request_active :: "AlertRequest \<Rightarrow> bool" where
  "request_active req = (case rq_IsActive req of None \<Rightarrow> True | Some b \<Rightarrow> b)"

definition request_fits :: "AlertRequest \<Rightarrow> bool" where
  "request_fits req \<longleftrightarrow> int4 (rq_Threshold req) \<and> int4 (rq_WindowMinutes req) \<and> int4 (rq_CooldownMinutes req)"

definition set_columns :: "AlertRequest \<Rightarrow> bool \<Rightarrow> time \<Rightarrow> alert_row \<Rightarrow> alert_row" where
  "set_columns req isActive now r = r\<lparr>
     aw_name := rq_Name req, aw_description := Some (rq_Description req), aw_rule_type := rq_RuleType req,
     aw_severity := nullif_empty (rq_Severity req), aw_device_ips := rq_DeviceIPs req,
     aw_parser_names := rq_ParserNames req, aw_message_pattern := nullif_empty (rq_MessagePattern req),
     aw_threshold := Some (rq_Threshold req), aw_window_minutes := rq_WindowMinutes req,
     aw_cooldown_minutes := rq_CooldownMinutes req, aw_fire_on_every_match := rq_FireOnEveryMatch req,
     aw_field_conditions_logic := rq_FieldConditionsLogic req,
     aw_audit_action_filter := nullif_empty (rq_AuditActionFilter req), aw_is_active := isActive,
     aw_updated_at := now\<rparr>"

definition blank_alert_row :: "int \<Rightarrow> int \<Rightarrow> time \<Rightarrow> alert_row" where
  "blank_alert_row i createdBy now =
     \<lparr>aw_id = i, aw_name = [], aw_description = None, aw_rule_type = RuleTypeLogThreshold, aw_severity = None,
      aw_device_ips = None, aw_parser_names = None, aw_message_pattern = None, aw_threshold = None,
      aw_window_minutes = 5, aw_cooldown_minutes = 15, aw_fire_on_every_match = False,
      aw_field_conditions_logic = FieldConditionsLogicAnd, aw_audit_action_filter = None, aw_is_active = True,
      aw_created_by = Some createdBy, aw_created_at = now, aw_updated_at = now, aw_last_fired_at = None\<rparr>"

definition insert_alert :: "AlertRequest \<Rightarrow> bool \<Rightarrow> int \<Rightarrow> notifdb \<Rightarrow> sqlerr + int \<times> notifdb" where
  "insert_alert req isActive createdBy d =
     (if \<not> request_fits req \<or> db_users d createdBy = None then Inl SqlErr
      else Inr (db_serial d, d\<lparr>
        db_alerts := db_alerts d @ [set_columns req isActive (db_now d) (blank_alert_row (db_serial d) createdBy (db_now d))],
        db_serial := db_serial d + 1\<rparr>))"

definition update_alert :: "int \<Rightarrow> AlertRequest \<Rightarrow> bool \<Rightarrow> notifdb \<Rightarrow> sqlerr + unit \<times> notifdb" where
  "update_alert i req isActive d =
     (if \<not> request_fits req then Inl SqlErr
      else Inr ((), d\<lparr>db_alerts :=
        map (\<lambda>r. if aw_id r = i then set_columns req isActive (db_now d) r else r) (db_alerts d)\<rparr>))"

text \<open>\<^verbatim>\<open>INSERT INTO alert_channels ... ON CONFLICT DO NOTHING\<close>.\<close>

definition insert_alert_channel :: "int \<Rightarrow> int \<Rightarrow> notifdb \<Rightarrow> sqlerr + unit \<times> notifdb" where
  "insert_alert_channel alertID chID d =
     (if alertID \<notin> alert_ids d \<or> chID \<notin> channel_ids d then Inl SqlErr
      else if (alertID, chID) \<in> set (db_alert_channels d) then Inr ((), d)
      else Inr ((), d\<lparr>db_alert_channels := db_alert_channels d @ [(alertID, chID)]\<rparr>))"

definition SetAlertChannels :: "int \<Rightarrow> int list \<Rightarrow> (notifdb, unit) sql" where
  "SetAlertChannels alertID channelIDs =
     transaction
       (bind (stmt (\<lambda>d. Inr ((), d\<lparr>db_alert_channels := filter (\<lambda>p. fst p \<noteq> alertID) (db_alert_channels d)\<rparr>)))
         (\<lambda>_. for_each (\<lambda>chID. stmt (insert_alert_channel alertID chID)) channelIDs))"

definition insert_cond :: "int \<Rightarrow> AlertFieldCondition \<Rightarrow> notifdb \<Rightarrow> sqlerr + unit \<times> notifdb" where
  "insert_cond alertID cond d =
     (if alertID \<notin> alert_ids d then Inl SqlErr
      else Inr ((), d\<lparr>db_conds := db_conds d @ [(alertID, cond\<lparr>fc_ID := db_serial d\<rparr>)], db_serial := db_serial d + 1\<rparr>))"

definition SetAlertFieldConditions :: "int \<Rightarrow> AlertFieldCondition list \<Rightarrow> (notifdb, unit) sql" where
  "SetAlertFieldConditions alertID conditions =
     transaction
       (bind (stmt (\<lambda>d. Inr ((), d\<lparr>db_conds := filter (\<lambda>p. fst p \<noteq> alertID) (db_conds d)\<rparr>)))
         (\<lambda>_. for_each (\<lambda>cond.
             if fc_FieldName cond = [] \<or> fc_Value cond = [] then ret ()
             else stmt (insert_cond alertID
               (if fc_Operator cond = [] then cond\<lparr>fc_Operator := FieldOpEquals\<rparr> else cond))) conditions))"

definition scanAlert :: "alert_row \<Rightarrow> Alert" where
  "scanAlert r = \<lparr>al_ID = aw_id r, al_Name = aw_name r, al_RuleType = aw_rule_type r,
     al_Severity = null_string (aw_severity r),
     al_DeviceIPs = (case aw_device_ips r of None \<Rightarrow> [] | Some xs \<Rightarrow> xs),
     al_ParserNames = (case aw_parser_names r of None \<Rightarrow> [] | Some xs \<Rightarrow> xs),
     al_FieldConditions = [], al_FieldConditionsLogic = aw_field_conditions_logic r,
     al_MessagePattern = null_string (aw_message_pattern r),
     al_Threshold = (case aw_threshold r of None \<Rightarrow> 0 | Some t \<Rightarrow> t),
     al_WindowMinutes = aw_window_minutes r, al_CooldownMinutes = aw_cooldown_minutes r,
     al_FireOnEveryMatch = aw_fire_on_every_match r,
     al_AuditActionFilter = null_string (aw_audit_action_filter r), al_IsActive = aw_is_active r,
     al_CreatedBy = aw_created_by r, al_ChannelIDs = [], al_Description = null_string (aw_description r),
     al_CreatedAt = aw_created_at r, al_UpdatedAt = aw_updated_at r, al_LastFiredAt = aw_last_fired_at r\<rparr>"

definition channels_of :: "notifdb \<Rightarrow> int \<Rightarrow> int list" where
  "channels_of d i = map snd (filter (\<lambda>p. fst p = i) (db_alert_channels d))"

definition conds_of :: "notifdb \<Rightarrow> int \<Rightarrow> AlertFieldCondition list" where
  "conds_of d i = map snd (filter (\<lambda>p. fst p = i) (db_conds d))"

definition attachFieldConditions :: "Alert list \<Rightarrow> (notifdb, Alert list) sql" where
  "attachFieldConditions alerts =
     (if alerts = [] then ret []
      else query (\<lambda>d. Inr (map (\<lambda>a. a\<lparr>al_FieldConditions := conds_of d (al_ID a)\<rparr>) alerts)))"

definition attachChannelIDs :: "Alert list \<Rightarrow> (notifdb, Alert list) sql" where
  "attachChannelIDs alerts =
     (if alerts = [] then ret []
      else query (\<lambda>d. Inr (map (\<lambda>a. a\<lparr>al_ChannelIDs := channels_of d (al_ID a)\<rparr>) alerts)))"

definition GetAlert :: "int \<Rightarrow> (notifdb, Alert) sql" where
  "GetAlert i =
     bind (query (\<lambda>d. case filter (\<lambda>r. aw_id r = i) (db_alerts d) of [] \<Rightarrow> Inl NoRows | r # rs \<Rightarrow> Inr (scanAlert r)))
       (\<lambda>a. bind (attachChannelIDs [a]) (\<lambda>as. bind (attachFieldConditions as) (\<lambda>as. ret (hd as))))"

definition CreateAlert :: "AlertRequest \<Rightarrow> int \<Rightarrow> (notifdb, Alert) sql" where
  "CreateAlert req createdBy =
     (let isActive = request_active req; req = request_defaults req in
      bind (stmt (insert_alert req isActive createdBy)) (\<lambda>i.
      bind (SetAlertChannels i (rq_ChannelIDs req)) (\<lambda>_.
      bind (SetAlertFieldConditions i (rq_FieldConditions req)) (\<lambda>_. GetAlert i))))"

definition UpdateAlert :: "int \<Rightarrow> AlertRequest \<Rightarrow> (notifdb, Alert) sql" where
  "UpdateAlert i req =
     (let isActive = request_active req; req = request_defaults req in
      bind (stmt (update_alert i req isActive)) (\<lambda>_.
      bind (SetAlertChannels i (rq_ChannelIDs req)) (\<lambda>_.
      bind (SetAlertFieldConditions i (rq_FieldConditions req)) (\<lambda>_. GetAlert i))))"

text \<open>\<^verbatim>\<open>ON DELETE CASCADE\<close> and \<^verbatim>\<open>ON DELETE SET NULL\<close> of the references to a rule.\<close>

definition unlink :: "int \<Rightarrow> int option \<Rightarrow> int option" where
  "unlink i r = (if r = Some i then None else r)"

definition DeleteAlert :: "int \<Rightarrow> (notifdb, unit) sql" where
  "DeleteAlert i = stmt (\<lambda>d. Inr ((), d\<lparr>
     db_alerts := filter (\<lambda>r. aw_id r \<noteq> i) (db_alerts d),
     db_conds := filter (\<lambda>p. fst p \<noteq> i) (db_conds d),
     db_alert_channels := filter (\<lambda>p. fst p \<noteq> i) (db_alert_channels d),
     db_log := map (\<lambda>e. e\<lparr>nl_AlertID := unlink i (nl_AlertID e)\<rparr>) (db_log d),
     db_inapp := map (\<lambda>n. n\<lparr>iw_alert_id := unlink i (iw_alert_id n)\<rparr>) (db_inapp d)\<rparr>))"

definition GetAllActiveAlerts :: "(notifdb, Alert list) sql" where
  "GetAllActiveAlerts =
     bind (query (\<lambda>d. Inr (map scanAlert (filter aw_is_active (db_alerts d))))) attachFieldConditions"

definition MarkAlertFired_db :: "int \<Rightarrow> (notifdb, unit) sql" where
  "MarkAlertFired_db i = stmt (\<lambda>d. Inr ((), d\<lparr>db_alerts :=
     map (\<lambda>r. if aw_id r = i then r\<lparr>aw_last_fired_at := Some (db_now d)\<rparr> else r) (db_alerts d)\<rparr>))"

text \<open>
  Whether a channel opens an admin-only row to a user: it names the user, or it is a push channel
  without a target list. \<^const>\<open>None\<close>: the length of a target list that is no array was asked for.
\<close>

definition channel_admits :: "int \<Rightarrow> channel_row \<Rightarrow> bool option" where
  "channel_admits userID c =
     (let ids = jsonb_get ''user_ids'' (cw_config c) in
      if jsonb_contains_int ids userID then Some True
      else if cw_type c = ''push'' then map_option (\<lambda>n. n = 0) (jsonb_array_length ids)
      else Some False)"

fun any_admits :: "int \<Rightarrow> channel_row list \<Rightarrow> bool option" where
  "any_admits userID [] = Some False"
| "any_admits userID (c # cs) =
     (case channel_admits userID c of
        None \<Rightarrow> None
      | Some True \<Rightarrow> Some True
      | Some False \<Rightarrow> any_admits userID cs)"

fun select_where :: "('a \<Rightarrow> bool option) \<Rightarrow> 'a list \<Rightarrow> sqlerr + 'a list" where
  "select_where P [] = Inr []"
| "select_where P (x # xs) =
     (case P x of
        None \<Rightarrow> Inl SqlErr
      | Some b \<Rightarrow> map_sum id (\<lambda>ys. if b then x # ys else ys) (select_where P xs))"

definition alert_visible :: "notifdb \<Rightarrow> bool \<Rightarrow> int \<Rightarrow> alert_row \<Rightarrow> bool option" where
  "alert_visible d isAdmin userID r =
     (if isAdmin \<or> aw_rule_type r \<notin> set AdminOnlyRuleTypes then Some True
      else any_admits userID (filter (\<lambda>c. (aw_id r, cw_id c) \<in> set (db_alert_channels d)) (db_channels d)))"

definition GetAllAlerts :: "bool \<Rightarrow> int \<Rightarrow> (notifdb, Alert list) sql" where
  "GetAllAlerts isAdmin userID =
     bind (query (\<lambda>d. map_sum id (\<lambda>rs. map scanAlert (order_desc aw_created_at rs))
             (select_where (alert_visible d isAdmin userID) (db_alerts d))))
       (\<lambda>as. bind (attachChannelIDs as) attachFieldConditions)"

end
