(* ===== verification/NotifyChannels.thy ===== *)
theory NotifyChannels
  imports NotifyDB
begin

text \<open>
  Notification channels, the notification history, in-app notifications and push subscriptions:
  the second half of \<^verbatim>\<open>db/alerts.go\<close>, and \<^verbatim>\<open>db/push.go\<close>. Encryption of channel secrets
  (\<^verbatim>\<open>util.Encrypt\<close>, \<^verbatim>\<open>util.Decrypt\<close>) and the generation of a VAPID key pair are arguments.
\<close>

section \<open>Channels\<close>

definition request_enabled :: "NotificationChannelRequest \<Rightarrow> bool" where
  "request_enabled req = (case cq_Enabled req of None \<Rightarrow> True | Some b \<Rightarrow> b)"

definition request_config :: "NotificationChannelRequest \<Rightarrow> json" where
  "request_config req = (case cq_Config req of None \<Rightarrow> JObj [] | Some j \<Rightarrow> j)"

definition username_of :: "notifdb \<Rightarrow> int option \<Rightarrow> string option" where
  "username_of d u = (case u of None \<Rightarrow> None | Some i \<Rightarrow> map_option fst (db_users d i))"

definition scanChannel :: "notifdb \<Rightarrow> channel_row \<Rightarrow> NotificationChannel" where
  "scanChannel d c = \<lparr>nc_ID = cw_id c, nc_Name = cw_name c, nc_Type = cw_type c, nc_Config = Some (cw_config c),
     nc_HasSecret = (cw_secret c \<noteq> None \<and> cw_secret c \<noteq> Some []), nc_Enabled = cw_enabled c,
     nc_CreatedBy = cw_created_by c, nc_CreatedByUsername = username_of d (cw_created_by c),
     nc_CreatedAt = cw_created_at c, nc_UpdatedAt = cw_updated_at c\<rparr>"

definition GetNotificationChannel :: "int \<Rightarrow> (notifdb, NotificationChannel) sql" where
  "GetNotificationChannel i =
     query (\<lambda>d. case filter (\<lambda>c. cw_id c = i) (db_channels d) of
                  [] \<Rightarrow> Inl NoRows
                | c # cs \<Rightarrow> Inr (scanChannel d c))"

definition GetAllNotificationChannels :: "(notifdb, NotificationChannel list) sql" where
  "GetAllNotificationChannels =
     query (\<lambda>d. Inr (map (scanChannel d) (order_desc cw_created_at (db_channels d))))"

definition insert_channel ::
  "NotificationChannelRequest \<Rightarrow> string option \<Rightarrow> int option \<Rightarrow> notifdb \<Rightarrow> sqlerr + int \<times> notifdb" where
  "insert_channel req secret createdBy d =
     (if \<not> fk_ok (dom (db_users d)) createdBy then Inl SqlErr
      else Inr (db_serial d, d\<lparr>
        db_channels := db_channels d @ [\<lparr>cw_id = db_serial d, cw_name = cq_Name req, cw_type = cq_Type req,
          cw_config = request_config req, cw_secret = secret, cw_enabled = request_enabled req,
          cw_created_by = createdBy, cw_created_at = db_now d, cw_updated_at = db_now d\<rparr>],
        db_serial := db_serial d + 1\<rparr>))"

definition CreateNotificationChannel ::
  "(string \<Rightarrow> string option) \<Rightarrow> NotificationChannelRequest \<Rightarrow> int \<Rightarrow> (notifdb, NotificationChannel) sql" where
  "CreateNotificationChannel Encrypt req createdBy =
     (case (if cq_Secret req \<noteq> [] then map_option Some (Encrypt (cq_Secret req)) else Some None) of
        None \<Rightarrow> throw SqlErr
      | Some secret \<Rightarrow>
          bind (stmt (insert_channel req secret (if createdBy \<noteq> 0 then Some createdBy else None)))
            GetNotificationChannel)"

definition set_channel_columns ::
  "NotificationChannelRequest \<Rightarrow> time \<Rightarrow> channel_row \<Rightarrow> channel_row" where
  "set_channel_columns req now c = c\<lparr>cw_name := cq_Name req, cw_type := cq_Type req,
     cw_config := request_config req, cw_enabled := request_enabled req, cw_updated_at := now\<rparr>"

definition UpdateNotificationChannel ::
  "(string \<Rightarrow> string option) \<Rightarrow> int \<Rightarrow> NotificationChannelRequest \<Rightarrow> (notifdb, NotificationChannel) sql" where
  "UpdateNotificationChannel Encrypt i req =
     (let upd = (\<lambda>f. bind (stmt (\<lambda>d. Inr ((), d\<lparr>db_channels :=
                   map (\<lambda>c. if cw_id c = i then f (set_channel_columns req (db_now d) c) else c) (db_channels d)\<rparr>)))
                 (\<lambda>_. GetNotificationChannel i)) in
      if cq_Secret req \<noteq> [] then
        (case Encrypt (cq_Secret req) of
           None \<Rightarrow> throw SqlErr
         | Some enc \<Rightarrow> upd (\<lambda>c. c\<lparr>cw_secret := Some enc\<rparr>))
      else upd (\<lambda>c. c))"

definition DeleteNotificationChannel :: "int \<Rightarrow> (notifdb, unit) sql" where
  "DeleteNotificationChannel i = stmt (\<lambda>d. Inr ((), d\<lparr>
     db_channels := filter (\<lambda>c. cw_id c \<noteq> i) (db_channels d),
     db_alert_channels := filter (\<lambda>p. snd p \<noteq> i) (db_alert_channels d),
     db_log := map (\<lambda>e. e\<lparr>nl_ChannelID := unlink i (nl_ChannelID e)\<rparr>) (db_log d)\<rparr>))"

definition GetChannelsForAlert :: "int \<Rightarrow> (notifdb, NotificationChannel list) sql" where
  "GetChannelsForAlert alertID =
     query (\<lambda>d. Inr (map (scanChannel d)
       (filter (\<lambda>c. (alertID, cw_id c) \<in> set (db_alert_channels d) \<and> cw_enabled c) (db_channels d))))"

definition DecryptChannelSecret :: "(string \<Rightarrow> string option) \<Rightarrow> int \<Rightarrow> (notifdb, string) sql" where
  "DecryptChannelSecret Decrypt i =
     bind (query (\<lambda>d. case filter (\<lambda>c. cw_id c = i) (db_channels d) of
                        [] \<Rightarrow> Inl NoRows
                      | c # cs \<Rightarrow> Inr (cw_secret c)))
       (\<lambda>secret. if secret = None \<or> secret = Some [] then ret []
         else (case Decrypt (null_string secret) of None \<Rightarrow> throw ScanErr | Some plain \<Rightarrow> ret plain))"

section \<open>History\<close>

definition insert_log :: "NotificationLogEntry \<Rightarrow> notifdb \<Rightarrow> sqlerr + unit \<times> notifdb" where
  "insert_log entry d =
     (if fk_ok (alert_ids d) (nl_AlertID entry) \<and> fk_ok (channel_ids d) (nl_ChannelID entry)
      then Inr ((), d\<lparr>db_log := db_log d @ [entry\<lparr>nl_ID := db_serial d, nl_CreatedAt := db_now d\<rparr>],
                      db_serial := db_serial d + 1\<rparr>)
      else Inl SqlErr)"

definition LogNotification :: "NotificationLogEntry \<Rightarrow> (notifdb, unit) sql" where
  "LogNotification entry = stmt (insert_log entry)"

text \<open>\<^verbatim>\<open>LEFT JOIN\<close>: the rows of the history carry at most one in-app row and one channel.\<close>

definition history_visible :: "notifdb \<Rightarrow> bool \<Rightarrow> int \<Rightarrow> NotificationLogEntry \<Rightarrow> bool option" where
  "history_visible d isAdmin userID e =
     (if isAdmin \<or> nl_RuleType e \<notin> set AdminOnlyRuleTypes then Some True
      else if \<exists>n \<in> set (db_inapp d). nl_InAppNotificationID e = Some (iw_id n) \<and>
                (case iw_target_user_ids n of None \<Rightarrow> False | Some us \<Rightarrow> userID \<in> set us) then Some True
      else any_admits userID (filter (\<lambda>c. nl_ChannelID e = Some (cw_id c)) (db_channels d)))"

definition GetNotificationHistory :: "int \<Rightarrow> bool \<Rightarrow> int \<Rightarrow> (notifdb, NotificationLogEntry list) sql" where
  "GetNotificationHistory limit isAdmin userID =
     (let limit = (if limit \<le> 0 \<or> limit > 500 then 100 else limit) in
      query (\<lambda>d. map_sum id (\<lambda>es. take (nat limit) (order_desc nl_CreatedAt es))
        (select_where (history_visible d isAdmin userID) (db_log d))))"

definition ClearNotificationHistory :: "(notifdb, unit) sql" where
  "ClearNotificationHistory = stmt (\<lambda>d. Inr ((), d\<lparr>db_log := []\<rparr>))"

section \<open>In-app notifications\<close>

text \<open>The characters of a UTF-8 text: its bytes that do not continue another.\<close>

definition rune_count :: "string \<Rightarrow> nat" where
  "rune_count s = length (filter (\<lambda>c. (of_char c :: nat) < 128 \<or> 192 \<le> (of_char c :: nat)) s)"

definition insert_inapp ::
  "int option \<Rightarrow> string \<Rightarrow> string \<Rightarrow> string \<Rightarrow> string \<Rightarrow> int list \<Rightarrow> notifdb \<Rightarrow> sqlerr + (int \<times> time) \<times> notifdb" where
  "insert_inapp alertID title message severity alertRuleType targetUserIds d =
     (if \<not> fk_ok (alert_ids d) alertID \<or> rune_count title > 255 \<or> \<not> list_all int4 targetUserIds then Inl SqlErr
      else Inr ((db_serial d, db_now d), d\<lparr>
        db_inapp := db_inapp d @ [\<lparr>iw_id = db_serial d, iw_alert_id = alertID, iw_title = title,
          iw_message = message, iw_severity = severity, iw_alert_rule_type = alertRuleType,
          iw_target_user_ids = (if targetUserIds \<noteq> [] then Some targetUserIds else None),
          iw_created_at = db_now d\<rparr>],
        db_serial := db_serial d + 1\<rparr>))"

definition CreateInAppNotification ::
  "int option \<Rightarrow> string \<Rightarrow> string \<Rightarrow> string \<Rightarrow> string \<Rightarrow> int list \<Rightarrow> (notifdb, int \<times> time) sql" where
  "CreateInAppNotification alertID title message severity alertRuleType targetUserIds =
     stmt (insert_inapp alertID title message severity alertRuleType targetUserIds)"

definition inapp_visible :: "bool \<Rightarrow> int \<Rightarrow> inapp_row \<Rightarrow> bool" where
  "inapp_visible isAdmin userID n =
     (case iw_target_user_ids n of
        Some us \<Rightarrow> userID \<in> set us
      | None \<Rightarrow> isAdmin \<or> iw_alert_rule_type n \<notin> set AdminOnlyRuleTypes)"

text \<open>Scanning a row into \<^verbatim>\<open>InAppNotification\<close>: its \<^verbatim>\<open>AlertID\<close> takes no \<^verbatim>\<open>NULL\<close>.\<close>

definition scan_inapp :: "inapp_row \<Rightarrow> InAppNotification option" where
  "scan_inapp n =
     (case iw_alert_id n of
        None \<Rightarrow> None
      | Some a \<Rightarrow> Some \<lparr>ia_ID = iw_id n, ia_AlertID = a, ia_Title = iw_title n, ia_Message = iw_message n,
          ia_Severity = iw_severity n, ia_AlertRuleType = iw_alert_rule_type n,
          ia_TargetUserIds = (case iw_target_user_ids n of None \<Rightarrow> [] | Some us \<Rightarrow> us),
          ia_CreatedAt = iw_created_at n\<rparr>)"

fun scan_all :: "('a \<Rightarrow> 'b option) \<Rightarrow> 'a list \<Rightarrow> sqlerr + 'b list" where
  "scan_all f [] = Inr []"
| "scan_all f (x # xs) = (case f x of None \<Rightarrow> Inl ScanErr | Some y \<Rightarrow> map_sum id (Cons y) (scan_all f xs))"

definition GetInAppNotifications ::
  "int \<Rightarrow> int \<Rightarrow> bool \<Rightarrow> int \<Rightarrow> (notifdb, InAppNotification list) sql" where
  "GetInAppNotifications sinceID limit isAdmin userID =
     (let limit = (if limit \<le> 0 \<or> limit > 200 then 50 else limit) in
      query (\<lambda>d. scan_all scan_inapp (take (nat limit) (order_desc iw_id
        (filter (\<lambda>n. iw_id n > sinceID \<and> inapp_visible isAdmin userID n) (db_inapp d))))))"

definition GetLastReadID :: "int \<Rightarrow> (notifdb, int) sql" where
  "GetLastReadID userID =
     query (\<lambda>d. Inr (case db_last_read d userID of None \<Rightarrow> 0 | Some i \<Rightarrow> i))"

definition GetUnreadNotificationCount :: "int \<Rightarrow> bool \<Rightarrow> (notifdb, int \<times> int) sql" where
  "GetUnreadNotificationCount userID isAdmin =
     bind (GetLastReadID userID) (\<lambda>lastRead.
     bind (query (\<lambda>d.
         let ns = filter (\<lambda>n. iw_id n > lastRead \<and> inapp_visible isAdmin userID n) (db_inapp d) in
         Inr (int (length ns), if ns = [] then 0 else Max (iw_id ` set ns)))) (\<lambda>(count, lastID).
     ret (count, if lastID = 0 then lastRead else lastID)))"

definition MarkNotificationsRead :: "int \<Rightarrow> int \<Rightarrow> (notifdb, unit) sql" where
  "MarkNotificationsRead userID lastReadID = stmt (\<lambda>d.
     if db_users d userID = None then Inl SqlErr
     else Inr ((), d\<lparr>db_last_read := (db_last_read d)(userID \<mapsto>
       (case db_last_read d userID of None \<Rightarrow> lastReadID | Some i \<Rightarrow> max i lastReadID))\<rparr>))"

section \<open>Push subscriptions\<close>

definition insert_setting_once :: "string \<Rightarrow> string \<Rightarrow> (notifdb, unit) sql" where
  "insert_setting_once key v = stmt (\<lambda>d.
     Inr ((), if db_settings d key = None then d\<lparr>db_settings := (db_settings d)(key \<mapsto> v)\<rparr> else d))"

text \<open>\<open>gen\<close> is \<^verbatim>\<open>webpush.GenerateVAPIDKeys\<close>: the private and the public key, or an error.\<close>

definition GetOrCreateVAPIDKeys :: "(string \<times> string) option \<Rightarrow> (notifdb, string \<times> string) sql" where
  "GetOrCreateVAPIDKeys gen =
     bind (getSettingRaw ''vapid_public_key'') (\<lambda>publicKey.
     bind (getSettingRaw ''vapid_private_key'') (\<lambda>privateKey.
       if publicKey \<noteq> [] \<and> privateKey \<noteq> [] then ret (publicKey, privateKey)
       else (case gen of
          None \<Rightarrow> throw ScanErr
        | Some (newPrivate, newPublic) \<Rightarrow>
            bind (insert_setting_once ''vapid_public_key'' newPublic) (\<lambda>_.
            bind (insert_setting_once ''vapid_private_key'' newPrivate) (\<lambda>_.
            bind (getSettingRaw ''vapid_public_key'') (\<lambda>publicKey.
            bind (getSettingRaw ''vapid_private_key'') (\<lambda>privateKey.
              if publicKey = [] \<or> privateKey = [] then throw ScanErr
              else ret (publicKey, privateKey))))))))"

definition save_subscription :: "int \<Rightarrow> string \<Rightarrow> string \<Rightarrow> string \<Rightarrow> notifdb \<Rightarrow> sqlerr + unit \<times> notifdb" where
  "save_subscription userID endpoint p256dh auth d =
     (if db_users d userID = None then Inl SqlErr
      else if endpoint \<in> ps_Endpoint ` set (db_subs d) then
        Inr ((), d\<lparr>db_subs := map (\<lambda>s. if ps_Endpoint s = endpoint
          then s\<lparr>ps_UserID := userID, ps_P256dh := p256dh, ps_Auth := auth\<rparr> else s) (db_subs d)\<rparr>)
      else Inr ((), d\<lparr>db_subs := db_subs d @ [\<lparr>ps_ID = db_serial d, ps_UserID = userID, ps_Endpoint = endpoint,
          ps_P256dh = p256dh, ps_Auth = auth, ps_CreatedAt = db_now d\<rparr>], db_serial := db_serial d + 1\<rparr>))"

definition SavePushSubscription :: "int \<Rightarrow> string \<Rightarrow> string \<Rightarrow> string \<Rightarrow> (notifdb, unit) sql" where
  "SavePushSubscription userID endpoint p256dh auth = stmt (save_subscription userID endpoint p256dh auth)"

definition DeletePushSubscription :: "string \<Rightarrow> (notifdb, unit) sql" where
  "DeletePushSubscription endpoint =
     stmt (\<lambda>d. Inr ((), d\<lparr>db_subs := filter (\<lambda>s. ps_Endpoint s \<noteq> endpoint) (db_subs d)\<rparr>))"

definition GetAllPushSubscriptions :: "(notifdb, PushSubscription list) sql" where
  "GetAllPushSubscriptions = query (\<lambda>d. Inr (sort_key ps_CreatedAt (db_subs d)))"

end
