(* ===== verification/Dispatch.thy ===== *)
theory Dispatch
  imports NotifyChannels
begin

text \<open>
  Delivering a firing: \<^verbatim>\<open>notify/dispatch.go\<close>, \<^verbatim>\<open>notify/push.go\<close> and the senders of
  \<^verbatim>\<open>notify/email.go\<close>, \<^verbatim>\<open>webhook.go\<close>, \<^verbatim>\<open>slack.go\<close>, \<^verbatim>\<open>teams.go\<close>. The other ends are arguments:
  \<open>net\<close> answers a mail or a POST (\<^const>\<open>None\<close>: the transport failed; otherwise a status), \<open>web\<close> a
  message to a push service.
\<close>

definition ChannelTypeEmail :: string where "ChannelTypeEmail = ''email''"
definition ChannelTypeWebhook :: string where "ChannelTypeWebhook = ''webhook''"
definition ChannelTypeSlack :: string where "ChannelTypeSlack = ''slack''"
definition ChannelTypeTeams :: string where "ChannelTypeTeams = ''teams''"
definition ChannelTypeInApp :: string where "ChannelTypeInApp = ''in_app''"
definition ChannelTypePush :: string where "ChannelTypePush = ''push''"

lemmas channel_type_defs [go_defs] = ChannelTypeEmail_def ChannelTypeWebhook_def ChannelTypeSlack_def
  ChannelTypeTeams_def ChannelTypeInApp_def ChannelTypePush_def

record config =
  cf_Decrypt :: "string \<Rightarrow> string option"
  cf_gen :: "(string \<times> string) option"
  cf_net :: "outgoing \<Rightarrow> int option"
  cf_web :: "PushSubscription \<Rightarrow> string + int \<times> string"
  cf_ord :: "int list \<Rightarrow> int list"
  cf_onInApp :: bool

text \<open>
  The parameters: decryption, key generation, the network, the push services (an error of the
  library, or status and body), the order in which Go walks a map's keys, and whether the SSE
  callback is set.
\<close>

definition send_out :: "outgoing \<Rightarrow> (notifdb, unit) sql" where
  "send_out x s = (Inr (), (fst s)\<lparr>db_sent := db_sent (fst s) @ [x]\<rparr>, snd s)"

section \<open>Senders\<close>

record SMTPConfig =
  sm_Host :: string
  sm_Port :: string
  sm_Username :: string
  sm_Password :: string
  sm_From :: string
  sm_UseTLS :: bool

datatype Notifier =
    EmailNotifier SMTPConfig "string list"
  | WebhookNotifier string string
  | SlackNotifier string
  | TeamsNotifier string

definition crlf :: string where "crlf = [CHR 0x0D, CHR 0x0A]"
definition lf :: string where "lf = [CHR 0x0A]"

definition email_text :: "SMTPConfig \<Rightarrow> string list \<Rightarrow> Payload \<Rightarrow> string" where
  "email_text smtp to p =
     (let subject = ''[Logmara] '' @ pl_Title p;
          body = (if pl_Link p \<noteq> [] then pl_Message p @ lf @ lf @ pl_Link p else pl_Message p) in
      ''From: '' @ sm_From smtp @ crlf @ ''To: '' @ join '', '' to @ crlf @ ''Subject: '' @ subject @ crlf @
      ''Content-Type: text/plain; charset=UTF-8'' @ crlf @ crlf @ body)"

definition webhookBody :: "Payload \<Rightarrow> json" where
  "webhookBody p = JObj ([(''title'', JStr (pl_Title p)), (''message'', JStr (pl_Message p)),
     (''severity'', JStr (pl_Severity p))] @ (if pl_Link p \<noteq> [] then [(''link'', JStr (pl_Link p))] else []))"

definition slackBody :: "Payload \<Rightarrow> json" where
  "slackBody p = JObj [(''text'', JStr (''*'' @ pl_Title p @ ''*'' @ lf @ pl_Message p @
     (if pl_Link p \<noteq> [] then lf @ pl_Link p else [])))]"

definition teamsBody :: "Payload \<Rightarrow> json" where
  "teamsBody p = JObj ([(''@type'', JStr ''MessageCard''), (''@context'', JStr ''http://schema.org/extensions''),
     (''summary'', JStr (pl_Title p)), (''title'', JStr (pl_Title p)), (''text'', JStr (pl_Message p))] @
     (if pl_Link p \<noteq> [] then
        [(''potentialAction'', JArr [JObj [(''@type'', JStr ''OpenUri''), (''name'', JStr ''View in Logmara''),
           (''targets'', JArr [JObj [(''os'', JStr ''default''), (''uri'', JStr (pl_Link p))]])]])]
      else []))"

text \<open>What a sender transmits, if it is configured.\<close>

definition post :: "string \<Rightarrow> string \<Rightarrow> json \<Rightarrow> outgoing option" where
  "post url token body = (if url = [] then None else Some (Post url token body))"

definition outgoing_of :: "Notifier \<Rightarrow> Payload \<Rightarrow> outgoing option" where
  "outgoing_of n p =
     (case n of
        EmailNotifier smtp to \<Rightarrow>
          (if to = [] \<or> sm_Host smtp = [] then None
           else Some (Mail (sm_Host smtp @ '':'' @ sm_Port smtp)
             (if sm_Username smtp \<noteq> [] then Some (sm_Username smtp, sm_Password smtp) else None)
             (sm_UseTLS smtp) (sm_From smtp) to (email_text smtp to p)))
      | WebhookNotifier url token \<Rightarrow> post url token (webhookBody p)
      | SlackNotifier url \<Rightarrow> post url [] (slackBody p)
      | TeamsNotifier url \<Rightarrow> post url [] (teamsBody p))"

definition accepted :: "outgoing \<Rightarrow> int option \<Rightarrow> bool" where
  "accepted x answer =
     (case answer of
        None \<Rightarrow> False
      | Some status \<Rightarrow> (case x of Post url token body \<Rightarrow> status < 300 | _ \<Rightarrow> True))"

definition Send :: "config \<Rightarrow> Notifier \<Rightarrow> Payload \<Rightarrow> (notifdb, bool) sql" where
  "Send cf n p =
     (case outgoing_of n p of
        None \<Rightarrow> ret False
      | Some x \<Rightarrow> bind (send_out x) (\<lambda>_. ret (accepted x (cf_net cf x))))"

text \<open>Decoding one string, or one list of strings, of a channel's configuration; \<^const>\<open>None\<close> is the error.\<close>

definition decode_string_field :: "string \<Rightarrow> json option \<Rightarrow> string option" where
  "decode_string_field name config =
     (case config of
        None \<Rightarrow> Some []
      | Some (JObj ps) \<Rightarrow>
          (case go_field name (JObj ps) of
             None \<Rightarrow> Some [] | Some JNull \<Rightarrow> Some [] | Some (JStr s) \<Rightarrow> Some s | Some _ \<Rightarrow> None)
      | Some JNull \<Rightarrow> Some []
      | Some _ \<Rightarrow> None)"

fun json_strings :: "json list \<Rightarrow> string list option" where
  "json_strings [] = Some []"
| "json_strings (JStr s # js) = map_option (Cons s) (json_strings js)"
| "json_strings (JNull # js) = map_option (Cons []) (json_strings js)"
| "json_strings (_ # js) = None"

definition decode_strings_field :: "string \<Rightarrow> json option \<Rightarrow> string list option" where
  "decode_strings_field name config =
     (case config of
        None \<Rightarrow> Some []
      | Some (JObj ps) \<Rightarrow>
          (case go_field name (JObj ps) of
             None \<Rightarrow> Some [] | Some JNull \<Rightarrow> Some [] | Some (JArr js) \<Rightarrow> json_strings js | Some _ \<Rightarrow> None)
      | Some JNull \<Rightarrow> Some []
      | Some _ \<Rightarrow> None)"

definition BuildNotifier :: "config \<Rightarrow> NotificationChannel \<Rightarrow> string \<Rightarrow> (notifdb, Notifier option) sql" where
  "BuildNotifier cf ch secret =
     (let get = GetSetting (cf_Decrypt cf) in
      if nc_Type ch = ChannelTypeEmail then
        bind (get ''smtp_enabled'' ''false'') (\<lambda>enabled.
          if enabled \<noteq> ''true'' then ret None
          else (case decode_strings_field ''to'' (nc_Config ch) of
             None \<Rightarrow> ret None
           | Some to \<Rightarrow>
               bind (get ''smtp_host'' []) (\<lambda>host. bind (get ''smtp_port'' ''587'') (\<lambda>port.
               bind (get ''smtp_username'' []) (\<lambda>username. bind (get ''smtp_password'' []) (\<lambda>password.
               bind (get ''smtp_from'' []) (\<lambda>from. bind (get ''smtp_use_tls'' ''true'') (\<lambda>tls.
                 ret (Some (EmailNotifier \<lparr>sm_Host = host, sm_Port = port, sm_Username = username,
                   sm_Password = password, sm_From = from, sm_UseTLS = (tls = ''true'')\<rparr> to))))))))))
      else if nc_Type ch = ChannelTypeWebhook then
        ret (map_option (\<lambda>url. WebhookNotifier url secret) (decode_string_field ''url'' (nc_Config ch)))
      else if nc_Type ch = ChannelTypeSlack then
        ret (map_option SlackNotifier (decode_string_field ''webhook_url'' (nc_Config ch)))
      else if nc_Type ch = ChannelTypeTeams then
        ret (map_option TeamsNotifier (decode_string_field ''webhook_url'' (nc_Config ch)))
      else ret None)"

section \<open>Push\<close>

definition maxPushErrorBody :: nat where "maxPushErrorBody = 300"
definition maxPushErrorsKept :: nat where "maxPushErrorsKept = 3"

text \<open>The endpoint is gone, and the error if there is one.\<close>

definition push_outcome :: "string + int \<times> string \<Rightarrow> bool \<times> string option" where
  "push_outcome r =
     (case r of
        Inl err \<Rightarrow> (False, Some (''request to push service failed: '' @ err))
      | Inr (status, body) \<Rightarrow>
          if status = 404 \<or> status = 410 then
            (True, Some (''push subscription expired (status '' @ itoa status @ '')''))
          else if status \<ge> 300 then
            (let detail = trim_space (take maxPushErrorBody body) in
             if detail = [] then (False, Some (''push service returned status '' @ itoa status))
             else (False, Some (''push service returned status '' @ itoa status @ '': '' @ detail)))
          else (False, None))"

definition pushBody :: "Payload \<Rightarrow> json" where
  "pushBody p = JObj [(''body'', JStr (pl_Message p)), (''title'', JStr (pl_Title p)), (''url'', JStr (pl_Link p))]"

definition sendWebPush :: "config \<Rightarrow> PushSubscription \<Rightarrow> Payload \<Rightarrow> (notifdb, bool \<times> string option) sql" where
  "sendWebPush cf s p =
     bind (send_out (WebPush (ps_Endpoint s) (pushBody p))) (\<lambda>_. ret (push_outcome (cf_web cf s)))"

record pushResult =
  pr_Delivered :: int
  pr_Failed :: int
  pr_Errors :: "string list"

text \<open>The map \<^verbatim>\<open>seen\<close> of the code holds exactly the messages kept so far.\<close>

definition count_push :: "string option \<Rightarrow> pushResult \<Rightarrow> pushResult" where
  "count_push err res =
     (case err of
        None \<Rightarrow> res\<lparr>pr_Delivered := pr_Delivered res + 1\<rparr>
      | Some msg \<Rightarrow>
          res\<lparr>pr_Failed := pr_Failed res + 1,
              pr_Errors := (if msg \<notin> set (pr_Errors res) \<and> length (pr_Errors res) < maxPushErrorsKept
                            then pr_Errors res @ [msg] else pr_Errors res)\<rparr>)"

fun push_each :: "config \<Rightarrow> Payload \<Rightarrow> PushSubscription list \<Rightarrow> pushResult \<Rightarrow> (notifdb, pushResult) sql" where
  "push_each cf p [] res = ret res"
| "push_each cf p (s # ss) res =
     bind (sendWebPush cf s p) (\<lambda>(gone, err).
       if gone then
         attempt (DeletePushSubscription (ps_Endpoint s)) (\<lambda>_. push_each cf p ss (count_push err res))
       else push_each cf p ss (count_push err res))"

definition push_targets :: "int list \<Rightarrow> PushSubscription list \<Rightarrow> PushSubscription list" where
  "push_targets targetUserIds subs =
     (if targetUserIds = [] then subs else filter (\<lambda>s. ps_UserID s \<in> set targetUserIds) subs)"

definition dispatchPush :: "config \<Rightarrow> Payload \<Rightarrow> int list \<Rightarrow> (notifdb, string + pushResult) sql" where
  "dispatchPush cf p targetUserIds =
     attempt GetAllPushSubscriptions (\<lambda>r. case r of
        Inl err \<Rightarrow> ret (Inl ''load push subscriptions'')
      | Inr subs \<Rightarrow>
          if subs = [] then ret (Inl ''no browsers are subscribed to push notifications'')
          else attempt (GetOrCreateVAPIDKeys (cf_gen cf)) (\<lambda>k. case k of
             Inl err \<Rightarrow> ret (Inl ''VAPID keys'')
           | Inr keys \<Rightarrow>
               bind (push_each cf p (push_targets targetUserIds subs)
                  \<lparr>pr_Delivered = 0, pr_Failed = 0, pr_Errors = []\<rparr>) (\<lambda>res. ret (Inr res))))"

definition sendPushChannel :: "config \<Rightarrow> Payload \<Rightarrow> int list \<Rightarrow> (notifdb, string \<times> string) sql" where
  "sendPushChannel cf p targetUserIds =
     bind (dispatchPush cf p targetUserIds) (\<lambda>r. ret (case r of
        Inl err \<Rightarrow> (''failed'', err)
      | Inr res \<Rightarrow>
          if pr_Delivered res = 0 then
            (''failed'', ''all '' @ itoa (pr_Failed res) @ '' push deliveries failed: '' @ join ''; '' (pr_Errors res))
          else if pr_Failed res > 0 then
            (''partial'', ''delivered to '' @ itoa (pr_Delivered res) @ '' device(s), '' @ itoa (pr_Failed res) @
               '' failed (not delivered to those): '' @ join ''; '' (pr_Errors res))
          else (''sent'', ''delivered to '' @ itoa (pr_Delivered res) @ '' device(s)'')))"

section \<open>Dispatching\<close>

definition dispatch_targets :: "NotificationChannel \<Rightarrow> int list option \<Rightarrow> int list" where
  "dispatch_targets ch override =
     (case override of Some us \<Rightarrow> us | None \<Rightarrow> decode_user_ids (nc_Config ch))"

definition log_entry ::
  "int \<Rightarrow> string \<Rightarrow> string \<Rightarrow> NotificationChannel \<Rightarrow> Payload \<Rightarrow> string \<times> string \<Rightarrow> int option \<Rightarrow> NotificationLogEntry" where
  "log_entry alertID alertName firingID ch p result inAppID =
     \<lparr>nl_ID = 0, nl_AlertID = Some alertID, nl_AlertName = alertName, nl_FiringID = firingID,
      nl_ChannelID = Some (nc_ID ch), nl_ChannelName = nc_Name ch, nl_ChannelType = nc_Type ch,
      nl_Status = fst result, nl_Detail = snd result, nl_TriggerLog = pl_TriggerLog p, nl_AuditLogRef = None,
      nl_InAppNotificationID = inAppID, nl_RuleType = pl_AlertRuleType p,
      nl_MatchedConditions = pl_MatchedConditions p, nl_CreatedAt = 0\<rparr>"

text \<open>The in-app case: create the row, then hand it to the callback.\<close>

definition deliver_inapp :: "config \<Rightarrow> int \<Rightarrow> Payload \<Rightarrow> int list \<Rightarrow> (notifdb, (string \<times> string) \<times> int option) sql" where
  "deliver_inapp cf alertID p targets =
     attempt (CreateInAppNotification (Some alertID) (pl_Title p) (pl_Message p) (pl_Severity p)
                (pl_AlertRuleType p) targets) (\<lambda>r. case r of
        Inl err \<Rightarrow> ret ((''failed'', ''internal app notification failed''), None)
      | Inr (i, createdAt) \<Rightarrow>
          bind (if cf_onInApp cf then
                  send_out (HubPublish \<lparr>ia_ID = i, ia_AlertID = alertID, ia_Title = pl_Title p,
                    ia_Message = pl_Message p, ia_Severity = pl_Severity p, ia_AlertRuleType = pl_AlertRuleType p,
                    ia_TargetUserIds = targets, ia_CreatedAt = createdAt\<rparr>)
                else ret ()) (\<lambda>_. ret ((''sent'', []), Some i)))"

definition deliver_external :: "config \<Rightarrow> NotificationChannel \<Rightarrow> Payload \<Rightarrow> (notifdb, string \<times> string) sql" where
  "deliver_external cf ch p =
     attempt (DecryptChannelSecret (cf_Decrypt cf) (nc_ID ch)) (\<lambda>r. case r of
        Inl err \<Rightarrow> ret (''failed'', ''decrypt channel secret failed'')
      | Inr secret \<Rightarrow>
          bind (BuildNotifier cf ch secret) (\<lambda>n. case n of
             None \<Rightarrow> ret (''failed'', ''build notifier failed'')
           | Some n \<Rightarrow> bind (Send cf n p) (\<lambda>ok.
               ret (if ok then (''sent'', []) else (''failed'', ''send notification failed'')))))"

definition dispatchOne ::
  "config \<Rightarrow> int \<Rightarrow> string \<Rightarrow> string \<Rightarrow> NotificationChannel \<Rightarrow> Payload \<Rightarrow> int list option \<Rightarrow> (notifdb, unit) sql" where
  "dispatchOne cf alertID alertName firingID ch p override =
     (let targets = dispatch_targets ch override in
      bind (if nc_Type ch = ChannelTypeInApp then deliver_inapp cf alertID p targets
            else if nc_Type ch = ChannelTypePush then
              bind (sendPushChannel cf p targets) (\<lambda>r. ret (r, None))
            else bind (deliver_external cf ch p) (\<lambda>r. ret (r, None))) (\<lambda>(result, inAppID).
      attempt (LogNotification (log_entry alertID alertName firingID ch p result inAppID)) (\<lambda>_. ret ())))"

record dedupInfo =
  di_targets :: "int list"
  di_broadcast :: bool

definition is_dedup_type :: "string \<Rightarrow> bool" where
  "is_dedup_type t \<longleftrightarrow> t = ChannelTypePush \<or> t = ChannelTypeInApp"

definition add_target :: "int list \<Rightarrow> int \<Rightarrow> int list" where
  "add_target ts u = (if u \<in> set ts then ts else ts @ [u])"

text \<open>The merge over the channels of one type: the keys of \<^verbatim>\<open>targets\<close> in the order they came.\<close>

fun merge_targets :: "string \<Rightarrow> NotificationChannel list \<Rightarrow> dedupInfo \<Rightarrow> dedupInfo" where
  "merge_targets t [] info = info"
| "merge_targets t (ch # chs) info =
     merge_targets t chs
       (if nc_Type ch \<noteq> t then info
        else if decode_user_ids (nc_Config ch) = [] then info\<lparr>di_broadcast := True\<rparr>
        else info\<lparr>di_targets := foldl add_target (di_targets info) (decode_user_ids (nc_Config ch))\<rparr>)"

definition dedup_of :: "NotificationChannel list \<Rightarrow> string \<Rightarrow> dedupInfo" where
  "dedup_of channels t = merge_targets t channels \<lparr>di_targets = [], di_broadcast = False\<rparr>"

definition first_of_type :: "NotificationChannel list \<Rightarrow> string \<Rightarrow> NotificationChannel" where
  "first_of_type channels t = hd (filter (\<lambda>ch. nc_Type ch = t) channels)"

fun dispatch_channels ::
  "config \<Rightarrow> Alert \<Rightarrow> string \<Rightarrow> Payload \<Rightarrow> NotificationChannel list \<Rightarrow> NotificationChannel list \<Rightarrow> (notifdb, unit) sql" where
  "dispatch_channels cf alert firingID p all [] = ret ()"
| "dispatch_channels cf alert firingID p all (ch # chs) =
     (let info = dedup_of all (nc_Type ch);
          one = dispatchOne cf (al_ID alert) (al_Name alert) firingID ch p;
          rest = dispatch_channels cf alert firingID p all chs in
      if is_dedup_type (nc_Type ch) \<and> (di_broadcast info \<or> di_targets info \<noteq> []) then
        (if nc_ID ch \<noteq> nc_ID (first_of_type all (nc_Type ch)) then rest
         else bind (one (if di_broadcast info then None else Some (cf_ord cf (di_targets info)))) (\<lambda>_. rest))
      else bind (one None) (\<lambda>_. rest))"

definition firing_payload :: "Alert \<Rightarrow> string \<Rightarrow> Payload \<Rightarrow> Payload" where
  "firing_payload alert firingID p =
     p\<lparr>pl_AlertRuleType := al_RuleType alert,
       pl_Link := (if pl_Link p = [] then ''/alerts?tab=history&firing='' @ firingID else pl_Link p)\<rparr>"

definition no_channel_entry :: "Alert \<Rightarrow> string \<Rightarrow> Payload \<Rightarrow> NotificationLogEntry" where
  "no_channel_entry alert firingID p =
     \<lparr>nl_ID = 0, nl_AlertID = Some (al_ID alert), nl_AlertName = al_Name alert, nl_FiringID = firingID,
      nl_ChannelID = None, nl_ChannelName = ''(none)'', nl_ChannelType = [],
      nl_Status = ''no_channel'', nl_Detail = ''Rule fired but has no notification channels attached'',
      nl_TriggerLog = pl_TriggerLog p, nl_AuditLogRef = None, nl_InAppNotificationID = None,
      nl_RuleType = pl_AlertRuleType p, nl_MatchedConditions = pl_MatchedConditions p, nl_CreatedAt = 0\<rparr>"

definition dispatchAlert :: "config \<Rightarrow> string \<Rightarrow> Alert \<Rightarrow> Payload \<Rightarrow> (notifdb, unit) sql" where
  "dispatchAlert cf firingID alert payload =
     attempt (GetChannelsForAlert (al_ID alert)) (\<lambda>r. case r of
        Inl err \<Rightarrow> ret ()
      | Inr channels \<Rightarrow>
          (let p = firing_payload alert firingID payload in
           if channels = [] then attempt (LogNotification (no_channel_entry alert firingID p)) (\<lambda>_. ret ())
           else dispatch_channels cf alert firingID p channels channels))"

section \<open>The test button\<close>

definition testPayload :: Payload where
  "testPayload = \<lparr>pl_Title = ''Test notification'', pl_Message = ''This is a test notification from Logmara.'',
     pl_Severity = ''info'', pl_Link = [], pl_AlertRuleType = [], pl_TriggerLog = None, pl_AuditLogRef = None,
     pl_MatchedConditions = []\<rparr>"

definition TestChannel :: "config \<Rightarrow> NotificationChannel \<Rightarrow> (notifdb, bool) sql" where
  "TestChannel cf ch =
     (let p = testPayload; targets = decode_user_ids (nc_Config ch) in
      if nc_Type ch = ChannelTypeInApp then
        attempt (CreateInAppNotification None (pl_Title p) (pl_Message p) (pl_Severity p) [] targets) (\<lambda>r.
          case r of
            Inl err \<Rightarrow> ret False
          | Inr (i, createdAt) \<Rightarrow>
              bind (if cf_onInApp cf then
                      send_out (HubPublish \<lparr>ia_ID = i, ia_AlertID = 0, ia_Title = pl_Title p,
                        ia_Message = pl_Message p, ia_Severity = pl_Severity p, ia_AlertRuleType = [],
                        ia_TargetUserIds = targets, ia_CreatedAt = createdAt\<rparr>)
                    else ret ()) (\<lambda>_. ret True))
      else if nc_Type ch = ChannelTypePush then
        bind (dispatchPush cf p targets) (\<lambda>r. ret (case r of Inl err \<Rightarrow> False | Inr res \<Rightarrow> pr_Delivered res \<noteq> 0))
      else
        attempt (DecryptChannelSecret (cf_Decrypt cf) (nc_ID ch)) (\<lambda>r. case r of
           Inl err \<Rightarrow> ret False
         | Inr secret \<Rightarrow>
             bind (BuildNotifier cf ch secret) (\<lambda>n. case n of None \<Rightarrow> ret False | Some n \<Rightarrow> Send cf n p)))"

end
