(* ===== verification/NotifyInv.thy ===== *)
theory NotifyInv
  imports Dispatch
begin

text \<open>
  The invariant of the notification tables (keys unique and below the sequence, references to rows
  that exist) and its preservation by every operation, whatever statement fails.
\<close>

definition keys_ok :: "notifdb \<Rightarrow> bool" where
  "keys_ok d \<longleftrightarrow> distinct (map aw_id (db_alerts d)) \<and> distinct (map cw_id (db_channels d)) \<and>
     distinct (map iw_id (db_inapp d)) \<and> distinct (map ps_Endpoint (db_subs d)) \<and> distinct (db_alert_channels d)"

definition serial_ok :: "notifdb \<Rightarrow> bool" where
  "serial_ok d \<longleftrightarrow> 0 < db_serial d \<and> (\<forall>r\<in>set (db_alerts d). aw_id r < db_serial d) \<and>
     (\<forall>c\<in>set (db_channels d). cw_id c < db_serial d) \<and>
     (\<forall>n\<in>set (db_inapp d). 0 < iw_id n \<and> iw_id n < db_serial d)"

definition refs_ok :: "notifdb \<Rightarrow> bool" where
  "refs_ok d \<longleftrightarrow> set (db_alert_channels d) \<subseteq> alert_ids d \<times> channel_ids d \<and>
     (\<forall>(a, c)\<in>set (db_conds d). a \<in> alert_ids d) \<and>
     (\<forall>e\<in>set (db_log d). fk_ok (alert_ids d) (nl_AlertID e) \<and> fk_ok (channel_ids d) (nl_ChannelID e)) \<and>
     (\<forall>n\<in>set (db_inapp d). fk_ok (alert_ids d) (iw_alert_id n))"

definition db_ok :: "notifdb \<Rightarrow> bool" where
  "db_ok d \<longleftrightarrow> keys_ok d \<and> serial_ok d \<and> refs_ok d"

lemmas db_ok_defs = db_ok_def keys_ok_def serial_ok_def refs_ok_def

lemma alert_ids_frame [simp]:
  "alert_ids (d\<lparr>db_conds := x1\<rparr>) = alert_ids d" "alert_ids (d\<lparr>db_alert_channels := x2\<rparr>) = alert_ids d"
  "alert_ids (d\<lparr>db_channels := x3\<rparr>) = alert_ids d" "alert_ids (d\<lparr>db_log := x4\<rparr>) = alert_ids d"
  "alert_ids (d\<lparr>db_inapp := x5\<rparr>) = alert_ids d" "alert_ids (d\<lparr>db_last_read := x6\<rparr>) = alert_ids d"
  "alert_ids (d\<lparr>db_subs := x7\<rparr>) = alert_ids d" "alert_ids (d\<lparr>db_users := x8\<rparr>) = alert_ids d"
  "alert_ids (d\<lparr>db_settings := x9\<rparr>) = alert_ids d" "alert_ids (d\<lparr>db_serial := x10\<rparr>) = alert_ids d"
  "alert_ids (d\<lparr>db_now := x11\<rparr>) = alert_ids d" "alert_ids (d\<lparr>db_sent := x12\<rparr>) = alert_ids d"
  "alert_ids (d\<lparr>db_alerts := x13\<rparr>) = aw_id ` set x13"
  by (simp_all add: alert_ids_def)

lemma channel_ids_frame [simp]:
  "channel_ids (d\<lparr>db_conds := x1\<rparr>) = channel_ids d" "channel_ids (d\<lparr>db_alert_channels := x2\<rparr>) = channel_ids d"
  "channel_ids (d\<lparr>db_alerts := x3\<rparr>) = channel_ids d" "channel_ids (d\<lparr>db_log := x4\<rparr>) = channel_ids d"
  "channel_ids (d\<lparr>db_inapp := x5\<rparr>) = channel_ids d" "channel_ids (d\<lparr>db_last_read := x6\<rparr>) = channel_ids d"
  "channel_ids (d\<lparr>db_subs := x7\<rparr>) = channel_ids d" "channel_ids (d\<lparr>db_users := x8\<rparr>) = channel_ids d"
  "channel_ids (d\<lparr>db_settings := x9\<rparr>) = channel_ids d" "channel_ids (d\<lparr>db_serial := x10\<rparr>) = channel_ids d"
  "channel_ids (d\<lparr>db_now := x11\<rparr>) = channel_ids d" "channel_ids (d\<lparr>db_sent := x12\<rparr>) = channel_ids d"
  "channel_ids (d\<lparr>db_channels := x13\<rparr>) = cw_id ` set x13"
  by (simp_all add: channel_ids_def)

lemma set_columns_id [simp]: "aw_id (set_columns req b now r) = aw_id r"
  by (simp add: set_columns_def)

lemma set_channel_columns_id [simp]: "cw_id (set_channel_columns req now c) = cw_id c"
  by (simp add: set_channel_columns_def)

lemma fk_ok_mono: "fk_ok A r \<Longrightarrow> A \<subseteq> B \<Longrightarrow> fk_ok B r"
  by (auto simp: fk_ok_def split: option.splits)

lemma fk_ok_unlink: "fk_ok A r \<Longrightarrow> fk_ok (A - {i}) (unlink i r)"
  by (auto simp: fk_ok_def unlink_def split: option.splits)

lemma fk_ok_unlink_other: "fk_ok A r \<Longrightarrow> fk_ok A (unlink i r)"
  by (auto simp: fk_ok_def unlink_def split: option.splits)

text \<open>Replacing rows by rows of the same key keeps the keys.\<close>

lemma map_same_key: "(\<And>x. x \<in> set xs \<Longrightarrow> k (f x) = k x) \<Longrightarrow> map k (map f xs) = map k xs"
  by (induction xs) auto

lemma image_same_key: "(\<And>x. x \<in> set xs \<Longrightarrow> k (f x) = k x) \<Longrightarrow> k ` f ` set xs = k ` set xs"
  by (force simp: image_iff)

lemma distinct_map_filter_key: "distinct (map k xs) \<Longrightarrow> distinct (map k (filter P xs))"
  by (induction xs) auto

section \<open>Statements\<close>

lemma insert_alert_ok:
  assumes "db_ok d" "insert_alert req b by d = Inr (i, d')"
  shows "db_ok d'"
proof -
  let ?r = "set_columns req b (db_now d) (blank_alert_row (db_serial d) by (db_now d))"
  have d': "d' = d\<lparr>db_alerts := db_alerts d @ [?r], db_serial := db_serial d + 1\<rparr>"
    using assms(2) by (auto simp: insert_alert_def split: if_splits)
  have id: "aw_id ?r = db_serial d" by (simp add: blank_alert_row_def)
  have "keys_ok d'" using assms(1) id by (auto simp: d' db_ok_defs)
  moreover have "serial_ok d'" using assms(1) id by (fastforce simp: d' db_ok_defs)
  moreover have "refs_ok d'"
    using assms(1) by (auto simp: d' db_ok_defs alert_ids_def [of d] channel_ids_def [of d] intro: fk_ok_mono)
  ultimately show ?thesis by (simp add: db_ok_def)
qed

lemma update_alerts_ok:
  assumes "db_ok d" "\<And>r. aw_id (f r) = aw_id r"
  shows "db_ok (d\<lparr>db_alerts := map f (db_alerts d)\<rparr>)"
proof -
  have "aw_id \<circ> f = aw_id" using assms(2) by auto
  then show ?thesis
    using assms by (auto simp: db_ok_defs alert_ids_def [of d] channel_ids_def [of d] image_image)
qed

lemma update_channels_ok:
  assumes "db_ok d" "\<And>c. cw_id (f c) = cw_id c"
  shows "db_ok (d\<lparr>db_channels := map f (db_channels d)\<rparr>)"
proof -
  have "cw_id \<circ> f = cw_id" using assms(2) by auto
  then show ?thesis
    using assms by (auto simp: db_ok_defs alert_ids_def [of d] channel_ids_def [of d] image_image)
qed

lemma insert_alert_channel_ok:
  "db_ok d \<Longrightarrow> insert_alert_channel a c d = Inr (x, d') \<Longrightarrow> db_ok d'"
  by (auto simp: insert_alert_channel_def db_ok_defs split: if_splits)

lemma insert_cond_ok: "db_ok d \<Longrightarrow> insert_cond a cond d = Inr (x, d') \<Longrightarrow> db_ok d'"
  by (fastforce simp: insert_cond_def db_ok_defs split: if_splits)

lemma delete_alert_ok:
  assumes "db_ok d"
  shows "db_ok (d\<lparr>db_alerts := filter (\<lambda>r. aw_id r \<noteq> i) (db_alerts d),
     db_conds := filter (\<lambda>p. fst p \<noteq> i) (db_conds d),
     db_alert_channels := filter (\<lambda>p. fst p \<noteq> i) (db_alert_channels d),
     db_log := map (\<lambda>e. e\<lparr>nl_AlertID := unlink i (nl_AlertID e)\<rparr>) (db_log d),
     db_inapp := map (\<lambda>n. n\<lparr>iw_alert_id := unlink i (iw_alert_id n)\<rparr>) (db_inapp d)\<rparr>)" (is "db_ok ?d")
proof -
  have ids: "alert_ids ?d = alert_ids d - {i}" "channel_ids ?d = channel_ids d"
    by (auto simp: alert_ids_def channel_ids_def)
  have "keys_ok ?d" using assms by (simp add: db_ok_defs distinct_map_filter_key comp_def)
  moreover have "serial_ok ?d" using assms by (auto simp: db_ok_defs)
  moreover have "refs_ok ?d"
    using assms unfolding refs_ok_def ids by (auto simp: db_ok_defs fk_ok_unlink)
  ultimately show ?thesis by (simp add: db_ok_def)
qed

lemma delete_channel_ok:
  assumes "db_ok d"
  shows "db_ok (d\<lparr>db_channels := filter (\<lambda>c. cw_id c \<noteq> i) (db_channels d),
     db_alert_channels := filter (\<lambda>p. snd p \<noteq> i) (db_alert_channels d),
     db_log := map (\<lambda>e. e\<lparr>nl_ChannelID := unlink i (nl_ChannelID e)\<rparr>) (db_log d)\<rparr>)" (is "db_ok ?d")
proof -
  have ids: "alert_ids ?d = alert_ids d" "channel_ids ?d = channel_ids d - {i}"
    by (auto simp: alert_ids_def channel_ids_def)
  have "keys_ok ?d" using assms by (simp add: db_ok_defs distinct_map_filter_key)
  moreover have "serial_ok ?d" using assms by (auto simp: db_ok_defs)
  moreover have "refs_ok ?d"
    using assms unfolding refs_ok_def ids by (auto simp: db_ok_defs fk_ok_unlink)
  ultimately show ?thesis by (simp add: db_ok_def)
qed

lemma insert_channel_ok:
  assumes "db_ok d" "insert_channel req secret by d = Inr (i, d')"
  shows "db_ok d'"
proof -
  define c where "c = \<lparr>cw_id = db_serial d, cw_name = cq_Name req, cw_type = cq_Type req,
      cw_config = request_config req, cw_secret = secret, cw_enabled = request_enabled req,
      cw_created_by = by, cw_created_at = db_now d, cw_updated_at = db_now d\<rparr>"
  then have c: "cw_id c = db_serial d" by simp
  have d': "d' = d\<lparr>db_channels := db_channels d @ [c], db_serial := db_serial d + 1\<rparr>"
    using assms(2) by (auto simp: insert_channel_def c_def split: if_splits)
  have "keys_ok d'" using assms(1) c by (auto simp: d' db_ok_defs)
  moreover have "serial_ok d'" using assms(1) c by (fastforce simp: d' db_ok_defs)
  moreover have "refs_ok d'"
    using assms(1) by (auto simp: d' db_ok_defs alert_ids_def [of d] channel_ids_def [of d] intro: fk_ok_mono)
  ultimately show ?thesis by (simp add: db_ok_def)
qed

lemma insert_log_ok: "db_ok d \<Longrightarrow> insert_log e d = Inr (x, d') \<Longrightarrow> db_ok d'"
  by (fastforce simp: insert_log_def db_ok_defs split: if_splits)

lemma insert_inapp_ok:
  assumes "db_ok d" "insert_inapp a t m sev ty us d = Inr (x, d')"
  shows "db_ok d'"
proof -
  define n where "n = \<lparr>iw_id = db_serial d, iw_alert_id = a, iw_title = t, iw_message = m, iw_severity = sev,
      iw_alert_rule_type = ty, iw_target_user_ids = (if us \<noteq> [] then Some us else None), iw_created_at = db_now d\<rparr>"
  have n: "iw_id n = db_serial d" "fk_ok (alert_ids d) (iw_alert_id n)"
    using assms(2) by (auto simp: n_def insert_inapp_def split: if_splits)
  have d': "d' = d\<lparr>db_inapp := db_inapp d @ [n], db_serial := db_serial d + 1\<rparr>"
    using assms(2) by (auto simp: insert_inapp_def n_def split: if_splits)
  show ?thesis using assms(1) n by (fastforce simp: d' db_ok_defs)
qed

lemma save_subscription_ok:
  assumes "db_ok d" "save_subscription u ep p a d = Inr (x, d')"
  shows "db_ok d'"
proof (cases "ep \<in> ps_Endpoint ` set (db_subs d)")
  case True
  define f :: "PushSubscription \<Rightarrow> PushSubscription" where "f = (\<lambda>s. if ps_Endpoint s = ep then s\<lparr>ps_UserID := u, ps_P256dh := p, ps_Auth := a\<rparr> else s)"
  have "ps_Endpoint \<circ> f = ps_Endpoint" by (auto simp: f_def)
  moreover have "d' = d\<lparr>db_subs := map f (db_subs d)\<rparr>"
    using assms(2) True by (simp add: save_subscription_def f_def split: if_splits)
  ultimately show ?thesis using assms(1) by (simp add: db_ok_defs alert_ids_def channel_ids_def)
next
  case False
  then show ?thesis using assms
    by (fastforce simp: save_subscription_def db_ok_defs split: if_splits)
qed

lemma unrelated_ok:
  "db_ok d \<Longrightarrow> db_ok (d\<lparr>db_settings := s\<rparr>)" "db_ok d \<Longrightarrow> db_ok (d\<lparr>db_last_read := lr\<rparr>)"
  "db_ok d \<Longrightarrow> db_ok (d\<lparr>db_sent := out\<rparr>)" "db_ok d \<Longrightarrow> db_ok (d\<lparr>db_now := t\<rparr>)"
  "db_ok d \<Longrightarrow> db_ok (d\<lparr>db_users := us\<rparr>)" "db_ok d \<Longrightarrow> db_ok (d\<lparr>db_log := []\<rparr>)"
  by (simp_all add: db_ok_defs)

lemma filtered_ok:
  "db_ok d \<Longrightarrow> db_ok (d\<lparr>db_alert_channels := filter P (db_alert_channels d)\<rparr>)"
  "db_ok d \<Longrightarrow> db_ok (d\<lparr>db_conds := filter Q (db_conds d)\<rparr>)"
  "db_ok d \<Longrightarrow> db_ok (d\<lparr>db_subs := filter R (db_subs d)\<rparr>)"
  by (auto simp: db_ok_defs distinct_map_filter_key)

lemmas statement_ok = update_alerts_ok update_channels_ok delete_alert_ok delete_channel_ok unrelated_ok filtered_ok

section \<open>Operations\<close>

text \<open>A statement whose every outcome satisfies the invariant.\<close>

lemmas statement_cases = insert_alert_ok insert_alert_channel_ok insert_cond_ok insert_channel_ok insert_log_ok
  insert_inapp_ok save_subscription_ok

lemma keeps_send_out [keeps_intros]: "keeps db_ok (send_out x)"
  by (simp add: keeps_def send_out_def unrelated_ok)

lemma keeps_update_alert: "keeps db_ok (stmt (update_alert i req b))"
  by (rule keeps_stmt) (auto simp: update_alert_def intro!: update_alerts_ok split: if_splits)

lemma keeps_write: "(\<And>d. I d \<Longrightarrow> I (f d)) \<Longrightarrow> keeps I (stmt (\<lambda>d. Inr ((), f d)))"
  by (rule keeps_stmt) auto

lemma keeps_GetSetting [keeps_intros]: "keeps db_ok (GetSetting dec key def)"
  unfolding GetSetting_def Let_def by (intro keeps_intros)

lemma keeps_getSettingRaw [keeps_intros]: "keeps db_ok (getSettingRaw key)"
  unfolding getSettingRaw_def Let_def by (intro keeps_intros)

lemma keeps_IsUserAdmin [keeps_intros]: "keeps db_ok (IsUserAdmin u)"
  unfolding IsUserAdmin_def Let_def by (intro keeps_intros)

lemma keeps_attachFieldConditions [keeps_intros]: "keeps db_ok (attachFieldConditions as)"
  unfolding attachFieldConditions_def Let_def by (intro keeps_intros)

lemma keeps_attachChannelIDs [keeps_intros]: "keeps db_ok (attachChannelIDs as)"
  unfolding attachChannelIDs_def Let_def by (intro keeps_intros)

lemma keeps_GetAlert [keeps_intros]: "keeps db_ok (GetAlert i)"
  unfolding GetAlert_def Let_def by (intro keeps_intros)

lemma keeps_GetAllActiveAlerts [keeps_intros]: "keeps db_ok (GetAllActiveAlerts)"
  unfolding GetAllActiveAlerts_def Let_def by (intro keeps_intros)

lemma keeps_GetAllAlerts [keeps_intros]: "keeps db_ok (GetAllAlerts b u)"
  unfolding GetAllAlerts_def Let_def by (intro keeps_intros)

lemma keeps_GetNotificationChannel [keeps_intros]: "keeps db_ok (GetNotificationChannel i)"
  unfolding GetNotificationChannel_def Let_def by (intro keeps_intros)

lemma keeps_GetAllNotificationChannels [keeps_intros]: "keeps db_ok (GetAllNotificationChannels)"
  unfolding GetAllNotificationChannels_def Let_def by (intro keeps_intros)

lemma keeps_GetChannelsForAlert [keeps_intros]: "keeps db_ok (GetChannelsForAlert i)"
  unfolding GetChannelsForAlert_def Let_def by (intro keeps_intros)

lemma keeps_DecryptChannelSecret [keeps_intros]: "keeps db_ok (DecryptChannelSecret dec i)"
  unfolding DecryptChannelSecret_def Let_def by (intro keeps_intros)

lemma keeps_GetNotificationHistory [keeps_intros]: "keeps db_ok (GetNotificationHistory l b u)"
  unfolding GetNotificationHistory_def Let_def by (intro keeps_intros)

lemma keeps_GetInAppNotifications [keeps_intros]: "keeps db_ok (GetInAppNotifications i l b u)"
  unfolding GetInAppNotifications_def Let_def by (intro keeps_intros)

lemma keeps_GetLastReadID [keeps_intros]: "keeps db_ok (GetLastReadID u)"
  unfolding GetLastReadID_def Let_def by (intro keeps_intros)

lemma keeps_GetUnreadNotificationCount [keeps_intros]: "keeps db_ok (GetUnreadNotificationCount u b)"
  unfolding GetUnreadNotificationCount_def Let_def by (intro keeps_intros)

lemma keeps_GetAllPushSubscriptions [keeps_intros]: "keeps db_ok (GetAllPushSubscriptions)"
  unfolding GetAllPushSubscriptions_def Let_def by (intro keeps_intros)

lemma keeps_UpdateSetting [keeps_intros]: "keeps db_ok (UpdateSetting enc key v)"
  unfolding UpdateSetting_def Let_def by (intro keeps_write) (erule unrelated_ok)

lemma keeps_insert_setting_once [keeps_intros]: "keeps db_ok (insert_setting_once k v)"
  unfolding insert_setting_once_def Let_def by (intro keeps_write) (simp add: unrelated_ok)

lemma keeps_GetOrCreateVAPIDKeys [keeps_intros]: "keeps db_ok (GetOrCreateVAPIDKeys gen)"
  unfolding GetOrCreateVAPIDKeys_def Let_def by (intro keeps_intros)

lemma keeps_SetAlertChannels [keeps_intros]: "keeps db_ok (SetAlertChannels a chs)"
  unfolding SetAlertChannels_def Let_def by (intro keeps_intros keeps_write keeps_stmt; (erule filtered_ok | erule (1) insert_alert_channel_ok))

lemma keeps_SetAlertFieldConditions [keeps_intros]: "keeps db_ok (SetAlertFieldConditions a conds)"
  unfolding SetAlertFieldConditions_def Let_def by (intro keeps_intros keeps_write keeps_stmt; (erule filtered_ok | erule (1) insert_cond_ok))

lemma keeps_CreateAlert [keeps_intros]: "keeps db_ok (CreateAlert req u)"
  unfolding CreateAlert_def Let_def by (intro keeps_intros keeps_stmt; erule (1) insert_alert_ok)

lemma keeps_UpdateAlert [keeps_intros]: "keeps db_ok (UpdateAlert i req)"
  unfolding UpdateAlert_def Let_def by (intro keeps_intros keeps_update_alert)

lemma keeps_DeleteAlert [keeps_intros]: "keeps db_ok (DeleteAlert i)"
  unfolding DeleteAlert_def Let_def by (intro keeps_write) (erule delete_alert_ok)

lemma keeps_MarkAlertFired_db [keeps_intros]: "keeps db_ok (MarkAlertFired_db i)"
  unfolding MarkAlertFired_db_def Let_def by (intro keeps_write update_alerts_ok) simp_all

lemma keeps_CreateNotificationChannel [keeps_intros]: "keeps db_ok (CreateNotificationChannel enc cq u)"
  unfolding CreateNotificationChannel_def Let_def by (intro keeps_intros keeps_stmt; erule (1) insert_channel_ok)

lemma keeps_UpdateNotificationChannel [keeps_intros]: "keeps db_ok (UpdateNotificationChannel enc i cq)"
  unfolding UpdateNotificationChannel_def Let_def by (intro keeps_intros keeps_write update_channels_ok; simp)

lemma keeps_DeleteNotificationChannel [keeps_intros]: "keeps db_ok (DeleteNotificationChannel i)"
  unfolding DeleteNotificationChannel_def Let_def by (intro keeps_write) (erule delete_channel_ok)

lemma keeps_LogNotification [keeps_intros]: "keeps db_ok (LogNotification e)"
  unfolding LogNotification_def Let_def by (intro keeps_stmt) (erule (1) insert_log_ok)

lemma keeps_ClearNotificationHistory [keeps_intros]: "keeps db_ok (ClearNotificationHistory)"
  unfolding ClearNotificationHistory_def Let_def by (intro keeps_write) (erule unrelated_ok)

lemma keeps_CreateInAppNotification [keeps_intros]: "keeps db_ok (CreateInAppNotification a t m sev ty us)"
  unfolding CreateInAppNotification_def Let_def by (intro keeps_stmt) (erule (1) insert_inapp_ok)

lemma keeps_MarkNotificationsRead [keeps_intros]: "keeps db_ok (MarkNotificationsRead u i)"
  unfolding MarkNotificationsRead_def Let_def by (intro keeps_stmt) (auto intro: unrelated_ok split: if_splits)

lemma keeps_SavePushSubscription [keeps_intros]: "keeps db_ok (SavePushSubscription u ep pk au)"
  unfolding SavePushSubscription_def Let_def by (intro keeps_stmt) (erule (1) save_subscription_ok)

lemma keeps_DeletePushSubscription [keeps_intros]: "keeps db_ok (DeletePushSubscription ep)"
  unfolding DeletePushSubscription_def Let_def by (intro keeps_write) (erule filtered_ok)

lemma keeps_Send [keeps_intros]: "keeps db_ok (Send cf n p)"
  unfolding Send_def Let_def by (intro keeps_intros)

lemma keeps_BuildNotifier [keeps_intros]: "keeps db_ok (BuildNotifier cf ch secret)"
  unfolding BuildNotifier_def Let_def by (intro keeps_intros)

lemma keeps_sendWebPush [keeps_intros]: "keeps db_ok (sendWebPush cf s p)"
  unfolding sendWebPush_def Let_def by (intro keeps_intros)

lemma keeps_push_each [keeps_intros]: "keeps db_ok (push_each cf p ss res)"
  by (induction cf p ss res rule: push_each.induct) (auto simp del: ret_ok intro!: keeps_intros)

lemma keeps_dispatchPush [keeps_intros]: "keeps db_ok (dispatchPush cf p us)"
  unfolding dispatchPush_def Let_def by (intro keeps_intros)

lemma keeps_sendPushChannel [keeps_intros]: "keeps db_ok (sendPushChannel cf p us)"
  unfolding sendPushChannel_def Let_def by (intro keeps_intros)

lemma keeps_deliver_inapp [keeps_intros]: "keeps db_ok (deliver_inapp cf a p us)"
  unfolding deliver_inapp_def Let_def by (intro keeps_intros)

lemma keeps_deliver_external [keeps_intros]: "keeps db_ok (deliver_external cf ch p)"
  unfolding deliver_external_def Let_def by (intro keeps_intros)

lemma keeps_dispatchOne [keeps_intros]: "keeps db_ok (dispatchOne cf a nm f ch p us)"
  unfolding dispatchOne_def Let_def by (intro keeps_intros)

lemma keeps_dispatch_channels [keeps_intros]: "keeps db_ok (dispatch_channels cf a f p all chs)"
  by (induction cf a f p all chs rule: dispatch_channels.induct) (auto simp: Let_def simp del: ret_ok intro!: keeps_intros)

lemma keeps_dispatchAlert [keeps_intros]: "keeps db_ok (dispatchAlert cf f a p)"
  unfolding dispatchAlert_def Let_def by (intro keeps_intros)

lemma keeps_TestChannel [keeps_intros]: "keeps db_ok (TestChannel cf ch)"
  unfolding TestChannel_def Let_def by (intro keeps_intros)

end
