(* ===== verification/NotifyHandlers.thy ===== *)
theory NotifyHandlers
  imports NotifyInv
begin

text \<open>
  The HTTP handlers of alert rules (\<^verbatim>\<open>handler/alerts.go\<close>) and notifications
  (\<^verbatim>\<open>handler/notifications.go\<close>), and the SSE hub (\<^verbatim>\<open>notifyhub/hub.go\<close>). A handler sees the
  context the authentication middleware left (\<open>ctx\<close>), the path parameter as text, the body as the
  request it binds to (\<^const>\<open>None\<close>: binding failed), and answers with a status and a body, or a status
  and the key of an error. Handlers that change rules also say whether they asked the engine to
  reload.
\<close>

text \<open>\<open>cx_user_id\<close>: the \<^verbatim>\<open>user_id\<close> set by the middleware; \<open>cx_role\<close>: the role claim of the token.\<close>

record ctx =
  cx_user_id :: "int option"
  cx_role :: "string option"

definition GetInt64_user :: "ctx \<Rightarrow> int" where
  "GetInt64_user c = (case cx_user_id c of None \<Rightarrow> 0 | Some i \<Rightarrow> i)"

definition extractUserID :: "ctx \<Rightarrow> int option" where
  "extractUserID c = cx_user_id c"

section \<open>Alert rules\<close>

definition ListAlerts :: "ctx \<Rightarrow> (notifdb, Alert list resp) sql" where
  "ListAlerts c =
     bind (IsUserAdmin (GetInt64_user c)) (\<lambda>isAdmin.
     attempt (GetAllAlerts isAdmin (GetInt64_user c)) (\<lambda>r. case r of
        Inl err \<Rightarrow> ret (Failure 500 ''alerts.listFailed'')
      | Inr alerts \<Rightarrow> ret (Answer 200 alerts)))"

text \<open>\<^verbatim>\<open>IsAdminOnlyRuleType(t) && !IsUserAdmin(...)\<close>: the user is looked up only for such a type.\<close>

definition adminOnlyDenied :: "string \<Rightarrow> ctx \<Rightarrow> (notifdb, bool) sql" where
  "adminOnlyDenied ruleType c =
     (if IsAdminOnlyRuleType ruleType then bind (IsUserAdmin (GetInt64_user c)) (\<lambda>isAdmin. ret (\<not> isAdmin))
      else ret False)"

definition CreateAlert_handler :: "ctx \<Rightarrow> AlertRequest option \<Rightarrow> (notifdb, Alert resp \<times> bool) sql" where
  "CreateAlert_handler c body =
     (case body of
        None \<Rightarrow> ret (Failure 400 ''error.invalidRequestBody'', False)
      | Some req \<Rightarrow>
          bind (adminOnlyDenied (rq_RuleType req) c) (\<lambda>denied.
            if denied then ret (Failure 403 ''alerts.adminOnlyCreate'', False)
            else attempt (CreateAlert req (case extractUserID c of None \<Rightarrow> 0 | Some i \<Rightarrow> i)) (\<lambda>r. case r of
               Inl err \<Rightarrow> ret (Failure 500 ''alerts.createFailed'', False)
             | Inr alert \<Rightarrow> ret (Answer 201 alert, True))))"

definition UpdateAlert_handler :: "ctx \<Rightarrow> string \<Rightarrow> AlertRequest option \<Rightarrow> (notifdb, Alert resp \<times> bool) sql" where
  "UpdateAlert_handler c param body =
     (case parseIDParam param of
        None \<Rightarrow> ret (Failure 400 ''error.invalidID'', False)
      | Some i \<Rightarrow>
          (case body of
             None \<Rightarrow> ret (Failure 400 ''error.invalidRequestBody'', False)
           | Some req \<Rightarrow>
               bind (adminOnlyDenied (rq_RuleType req) c) (\<lambda>denied.
                 if denied then ret (Failure 403 ''alerts.adminOnlyModify'', False)
                 else attempt (UpdateAlert i req) (\<lambda>r. case r of
                    Inl err \<Rightarrow>
                      (if err = NoRows then ret (Failure 404 ''alerts.notFound'', False)
                       else ret (Failure 500 ''alerts.updateFailed'', False))
                  | Inr alert \<Rightarrow> ret (Answer 200 alert, True)))))"

definition DeleteAlert_handler :: "ctx \<Rightarrow> string \<Rightarrow> (notifdb, string resp \<times> bool) sql" where
  "DeleteAlert_handler c param =
     (case parseIDParam param of
        None \<Rightarrow> ret (Failure 400 ''error.invalidID'', False)
      | Some i \<Rightarrow>
          attempt (GetAlert i) (\<lambda>r. case r of
             Inl err \<Rightarrow>
               (if err = NoRows then ret (Failure 404 ''alerts.notFound'', False)
                else ret (Failure 500 ''alerts.deleteFailed'', False))
           | Inr alert \<Rightarrow>
               bind (adminOnlyDenied (al_RuleType alert) c) (\<lambda>denied.
                 if denied then ret (Failure 403 ''alerts.adminOnlyDelete'', False)
                 else attempt (DeleteAlert i) (\<lambda>r. case r of
                    Inl err \<Rightarrow> ret (Failure 500 ''alerts.deleteFailed'', False)
                  | Inr u \<Rightarrow> ret (Answer 200 ''alert deleted'', True)))))"

section \<open>Channels\<close>

definition RequireNotificationsEnabled :: "config \<Rightarrow> (notifdb, bool) sql" where
  "RequireNotificationsEnabled cf =
     bind (GetSetting (cf_Decrypt cf) ''notifications_enabled'' ''true'') (\<lambda>v. ret (v = ''true''))"

definition ListNotificationChannels :: "(notifdb, NotificationChannel list resp) sql" where
  "ListNotificationChannels =
     attempt GetAllNotificationChannels (\<lambda>r. case r of
        Inl err \<Rightarrow> ret (Failure 500 ''notifications.channelsListFailed'')
      | Inr chs \<Rightarrow> ret (Answer 200 chs))"

definition CreateNotificationChannel_handler ::
  "(string \<Rightarrow> string option) \<Rightarrow> ctx \<Rightarrow> NotificationChannelRequest option \<Rightarrow> (notifdb, NotificationChannel resp) sql" where
  "CreateNotificationChannel_handler Encrypt c body =
     (case body of
        None \<Rightarrow> ret (Failure 400 ''error.invalidRequestBody'')
      | Some req \<Rightarrow>
          attempt (CreateNotificationChannel Encrypt req (case extractUserID c of None \<Rightarrow> 0 | Some i \<Rightarrow> i)) (\<lambda>r.
            case r of
              Inl err \<Rightarrow> ret (Failure 500 ''notifications.channelCreateFailed'')
            | Inr ch \<Rightarrow> ret (Answer 201 ch)))"

definition callerCanModifyChannel :: "ctx \<Rightarrow> NotificationChannel \<Rightarrow> bool" where
  "callerCanModifyChannel c ch =
     (case nc_CreatedBy ch of
        Some owner \<Rightarrow> extractUserID c = Some owner
      | None \<Rightarrow> cx_role c = Some ''admin'')"

text \<open>\<^const>\<open>None\<close>: the caller may modify the channel; otherwise the answer already written.\<close>

definition channelOwnedByCaller :: "ctx \<Rightarrow> int \<Rightarrow> (notifdb, (int \<times> string) option) sql" where
  "channelOwnedByCaller c i =
     attempt (GetNotificationChannel i) (\<lambda>r. case r of
        Inl err \<Rightarrow>
          (if err = NoRows then ret (Some (404, ''notifications.channelNotFound''))
           else ret (Some (500, ''notifications.channelLoadFailed'')))
      | Inr ch \<Rightarrow>
          (if callerCanModifyChannel c ch then ret None
           else if nc_CreatedBy ch \<noteq> None then ret (Some (403, ''notifications.modifyOwnOnly''))
           else ret (Some (403, ''notifications.adminOnlyModify''))))"

definition UpdateNotificationChannel_handler ::
  "(string \<Rightarrow> string option) \<Rightarrow> ctx \<Rightarrow> string \<Rightarrow> NotificationChannelRequest option \<Rightarrow> (notifdb, NotificationChannel resp) sql" where
  "UpdateNotificationChannel_handler Encrypt c param body =
     (case parseIDParam param of
        None \<Rightarrow> ret (Failure 400 ''error.invalidId'')
      | Some i \<Rightarrow>
          bind (channelOwnedByCaller c i) (\<lambda>refused. case refused of
             Some (status, key) \<Rightarrow> ret (Failure status key)
           | None \<Rightarrow>
               (case body of
                  None \<Rightarrow> ret (Failure 400 ''error.invalidRequestBody'')
                | Some req \<Rightarrow>
                    attempt (UpdateNotificationChannel Encrypt i req) (\<lambda>r. case r of
                       Inl err \<Rightarrow>
                         (if err = NoRows then ret (Failure 404 ''notifications.channelNotFound'')
                          else ret (Failure 500 ''notifications.channelUpdateFailed''))
                     | Inr ch \<Rightarrow> ret (Answer 200 ch)))))"

definition DeleteNotificationChannel_handler :: "ctx \<Rightarrow> string \<Rightarrow> (notifdb, string resp) sql" where
  "DeleteNotificationChannel_handler c param =
     (case parseIDParam param of
        None \<Rightarrow> ret (Failure 400 ''error.invalidId'')
      | Some i \<Rightarrow>
          bind (channelOwnedByCaller c i) (\<lambda>refused. case refused of
             Some (status, key) \<Rightarrow> ret (Failure status key)
           | None \<Rightarrow>
               attempt (DeleteNotificationChannel i) (\<lambda>r. case r of
                  Inl err \<Rightarrow> ret (Failure 500 ''notifications.channelDeleteFailed'')
                | Inr u \<Rightarrow> ret (Answer 200 ''notification channel deleted''))))"

definition TestNotificationChannel :: "config \<Rightarrow> string \<Rightarrow> (notifdb, string resp) sql" where
  "TestNotificationChannel cf param =
     (case parseIDParam param of
        None \<Rightarrow> ret (Failure 400 ''error.invalidId'')
      | Some i \<Rightarrow>
          attempt (GetNotificationChannel i) (\<lambda>r. case r of
             Inl err \<Rightarrow>
               (if err = NoRows then ret (Failure 404 ''notifications.channelNotFound'')
                else ret (Failure 500 ''notifications.channelLoadFailed''))
           | Inr ch \<Rightarrow>
               bind (TestChannel cf ch) (\<lambda>ok.
                 ret (if ok then Answer 200 ''test notification sent''
                      else Failure 500 ''notifications.testFailed''))))"

section \<open>History and the bell\<close>

definition DefaultAdminLimit :: int where "DefaultAdminLimit = 100"

definition GetNotificationHistory_handler :: "ctx \<Rightarrow> int \<Rightarrow> (notifdb, NotificationLogEntry list resp) sql" where
  "GetNotificationHistory_handler c reqLimit =
     (let limit = (if reqLimit \<le> 0 then DefaultAdminLimit else reqLimit) in
      bind (IsUserAdmin (GetInt64_user c)) (\<lambda>isAdmin.
      attempt (GetNotificationHistory limit isAdmin (GetInt64_user c)) (\<lambda>r. case r of
         Inl err \<Rightarrow> ret (Failure 500 ''notifications.historyLoadFailed'')
       | Inr es \<Rightarrow> ret (Answer 200 es))))"

definition ClearNotificationHistory_handler :: "(notifdb, string resp) sql" where
  "ClearNotificationHistory_handler =
     attempt ClearNotificationHistory (\<lambda>r. case r of
        Inl err \<Rightarrow> ret (Failure 500 ''notifications.historyClearFailed'')
      | Inr u \<Rightarrow> ret (Answer 200 ''notification history cleared''))"

record bell =
  be_enabled :: bool
  be_unread_count :: int
  be_last_id :: int
  be_notifications :: "InAppNotification list"

definition bell_error :: "(notifdb, bell resp) sql" where
  "bell_error = ret (Failure 500 ''notifications.loadFailed'')"

definition GetNotifications :: "config \<Rightarrow> ctx \<Rightarrow> (notifdb, bell resp) sql" where
  "GetNotifications cf c =
     (let userID = GetInt64_user c in
      bind (IsUserAdmin userID) (\<lambda>isAdmin.
      attempt (GetLastReadID userID) (\<lambda>r. case r of
         Inl err \<Rightarrow> bell_error
       | Inr lastRead \<Rightarrow>
      attempt (GetUnreadNotificationCount userID isAdmin) (\<lambda>r. case r of
         Inl err \<Rightarrow> bell_error
       | Inr (count, lastID) \<Rightarrow>
      attempt (GetInAppNotifications lastRead 20 isAdmin userID) (\<lambda>r. case r of
         Inl err \<Rightarrow> bell_error
       | Inr items \<Rightarrow>
      bind (GetSetting (cf_Decrypt cf) ''notifications_enabled'' ''true'') (\<lambda>v.
        ret (Answer 200 \<lparr>be_enabled = (v = ''true''), be_unread_count = count, be_last_id = lastID,
               be_notifications = items\<rparr>)))))))"

text \<open>The binding of \<^verbatim>\<open>last_read_id\<close> is \<^verbatim>\<open>required\<close>: zero is refused.\<close>

definition MarkNotificationsRead_handler :: "ctx \<Rightarrow> int option \<Rightarrow> (notifdb, string resp) sql" where
  "MarkNotificationsRead_handler c body =
     (case body of
        None \<Rightarrow> ret (Failure 400 ''error.invalidRequestBody'')
      | Some lastReadID \<Rightarrow>
          if lastReadID = 0 then ret (Failure 400 ''error.invalidRequestBody'')
          else attempt (MarkNotificationsRead (GetInt64_user c) lastReadID) (\<lambda>r. case r of
            Inl err \<Rightarrow> ret (Failure 500 ''notifications.markReadFailed'')
          | Inr u \<Rightarrow> ret (Answer 200 ''marked read'')))"

text \<open>The filter of the SSE stream: whether a notification from the hub is written to the client.\<close>

definition stream_writes :: "bool \<Rightarrow> int \<Rightarrow> InAppNotification \<Rightarrow> bool" where
  "stream_writes isAdmin userID n =
     (let targeted = (ia_TargetUserIds n \<noteq> [] \<and> userID \<in> set (ia_TargetUserIds n)) in
      if ia_TargetUserIds n \<noteq> [] \<and> \<not> targeted then False
      else \<not> (\<not> targeted \<and> \<not> isAdmin \<and> IsAdminOnlyRuleType (ia_AlertRuleType n)))"

section \<open>The hub\<close>

text \<open>
  The clients of one replica: their channels by number, each with the notifications not yet read, at
  most eight. With Redis, a published notification reaches every replica's subscription; \<open>pub\<close> is
  what \<^verbatim>\<open>Publish\<close> of the broadcaster answers.
\<close>

type_synonym hub = "(nat \<times> InAppNotification list) list"

definition fanOutLocal :: "InAppNotification \<Rightarrow> hub \<Rightarrow> hub" where
  "fanOutLocal n h = map (\<lambda>(ch, buf). (ch, if length buf < 8 then buf @ [n] else buf)) h"

definition hub_Subscribe :: "nat \<Rightarrow> hub \<Rightarrow> hub" where
  "hub_Subscribe ch h = h @ [(ch, [])]"

definition hub_Unsubscribe :: "nat \<Rightarrow> hub \<Rightarrow> hub" where
  "hub_Unsubscribe ch h = filter (\<lambda>p. fst p \<noteq> ch) h"

text \<open>\<open>redis\<close>: \<^const>\<open>None\<close> without Redis, else whether the publication succeeds; the hubs of all replicas, the
  publishing one at the index \<open>me\<close>.\<close>

definition hub_Publish :: "bool option \<Rightarrow> nat \<Rightarrow> InAppNotification \<Rightarrow> hub list \<Rightarrow> hub list" where
  "hub_Publish redis me n hubs =
     (case redis of
        Some True \<Rightarrow> map (fanOutLocal n) hubs
      | _ \<Rightarrow> hubs[me := fanOutLocal n (hubs ! me)])"

end
