(* ===== verification/NotifyDispatchLemmas.thy ===== *)
theory NotifyDispatchLemmas
  imports NotifyHandlers "HOL-Library.Sublist"
begin

text \<open>
  What a firing sends: a small logic of outputs over the programs of \<open>Dispatch\<close>, and what each
  kind of channel emits.
\<close>

section \<open>Outputs of a program\<close>

definition emits :: "(outgoing list \<Rightarrow> bool) \<Rightarrow> (notifdb, 'a) sql \<Rightarrow> bool" where
  "emits P m \<longleftrightarrow> (\<forall>s. db_ok (fst s) \<longrightarrow>
     db_ok (fst (snd (m s))) \<and> (\<exists>out. db_sent (fst (snd (m s))) = db_sent (fst s) @ out \<and> P out))"

lemma emitsI:
  assumes "keeps db_ok m"
    and "\<And>s. db_ok (fst s) \<Longrightarrow> \<exists>out. db_sent (fst (snd (m s))) = db_sent (fst s) @ out \<and> P out"
  shows "emits P m"
  using assms keepsD [OF assms(1)] by (simp add: emits_def)

lemma emitsD:
  assumes "emits P m" "db_ok (fst s)"
  obtains out where "db_ok (fst (snd (m s)))" "db_sent (fst (snd (m s))) = db_sent (fst s) @ out" "P out"
proof -
  obtain d fs where s: "s = (d, fs)" by (cases s)
  with assms show ?thesis using that by (auto simp: emits_def)
qed

lemma emits_mono: "emits P m \<Longrightarrow> (\<And>out. P out \<Longrightarrow> Q out) \<Longrightarrow> emits Q m"
  by (fastforce simp: emits_def)

text \<open>Silent programs leave the outputs alone, for which the preservation calculus is enough.\<close>

definition silent :: "(notifdb, 'a) sql \<Rightarrow> bool" where
  "silent m \<longleftrightarrow> keeps db_ok m \<and> (\<forall>out. keeps (\<lambda>d. db_sent d = out) m)"

lemma silentI: "keeps db_ok m \<Longrightarrow> (\<And>out. keeps (\<lambda>d. db_sent d = out) m) \<Longrightarrow> silent m"
  by (simp add: silent_def)

lemma silentD: "silent m \<Longrightarrow> db_sent (fst (snd (m s))) = db_sent (fst s)"
  using keepsD [of "\<lambda>d. db_sent d = db_sent (fst s)" m s] by (simp add: silent_def)

lemma emits_silent: "silent m \<Longrightarrow> P [] \<Longrightarrow> emits P m"
  by (rule emitsI) (simp_all add: silentD, simp add: silent_def)

lemma emits_ret: "P [] \<Longrightarrow> emits P (ret x)"
  by (simp add: emits_def)

lemma emits_bind:
  fixes m :: "(notifdb, 'a) sql"
  assumes "emits P m" "\<And>x. emits Q (k x)" "\<And>a. P a \<Longrightarrow> R a" "\<And>a b. P a \<Longrightarrow> Q b \<Longrightarrow> R (a @ b)"
  shows "emits R (bind m k)"
proof -
  have "db_ok (fst (snd (bind m k s))) \<and> (\<exists>out. db_sent (fst (snd (bind m k s))) = db_sent (fst s) @ out \<and> R out)"
    if ok: "db_ok (fst s)" for s :: "notifdb \<times> bool list"
  proof -
    obtain r s' where r: "m s = (r, s')" by (cases "m s")
    from emitsD [OF assms(1) ok] obtain out where out: "db_ok (fst s')" "db_sent (fst s') = db_sent (fst s) @ out" "P out"
      by (auto simp: r)
    show ?thesis
    proof (cases r)
      case (Inl err)
      with r out assms(3) show ?thesis by (auto simp: bind_def)
    next
      case (Inr x)
      from emitsD [OF assms(2) [of x] out(1)] obtain out' where
        "db_ok (fst (snd (k x s')))" "db_sent (fst (snd (k x s'))) = db_sent (fst s') @ out'" "Q out'" by blast
      with r Inr out assms(4) show ?thesis by (auto simp: bind_def)
    qed
  qed
  then show ?thesis by (simp add: emits_def)
qed

lemma emits_attempt:
  fixes m :: "(notifdb, 'a) sql"
  assumes "silent m" "\<And>r. emits P (k r)"
  shows "emits P (attempt m k)"
proof -
  have "db_ok (fst (snd (attempt m k s))) \<and> (\<exists>out. db_sent (fst (snd (attempt m k s))) = db_sent (fst s) @ out \<and> P out)"
    if ok: "db_ok (fst s)" for s :: "notifdb \<times> bool list"
  proof -
    obtain r s' where r: "m s = (r, s')" by (cases "m s")
    have "db_ok (fst s')" "db_sent (fst s') = db_sent (fst s)"
      using assms(1) ok silentD [OF assms(1), of s] keepsD [of db_ok m s] by (auto simp: silent_def r)
    with emitsD [OF assms(2) [of r], of s'] r show ?thesis by (auto simp: attempt_def)
  qed
  then show ?thesis by (simp add: emits_def)
qed

lemma emits_bind_silent:
  assumes "silent m" "\<And>x. emits P (k x)" "P []"
  shows "emits P (bind m k)"
  by (rule emits_bind [where P = "\<lambda>out. out = []" and Q = P]) (use assms in \<open>auto intro: emits_silent\<close>)

lemma emits_bind_result:
  fixes m :: "(notifdb, 'a) sql"
  assumes "silent m" "\<And>s x s'. m s = (Inr x, s') \<Longrightarrow> emits P (k x)" "P []"
  shows "emits P (bind m k)"
proof -
  have "db_ok (fst (snd (bind m k s))) \<and> (\<exists>out. db_sent (fst (snd (bind m k s))) = db_sent (fst s) @ out \<and> P out)"
    if ok: "db_ok (fst s)" for s :: "notifdb \<times> bool list"
  proof -
    obtain r s' where r: "m s = (r, s')" by (cases "m s")
    have s': "db_ok (fst s')" "db_sent (fst s') = db_sent (fst s)"
      using assms(1) ok silentD [OF assms(1), of s] keepsD [of db_ok m s] by (auto simp: silent_def r)
    show ?thesis
    proof (cases r)
      case (Inl err)
      with r s' assms(3) show ?thesis by (auto simp: bind_def)
    next
      case (Inr x)
      from emitsD [OF assms(2) [OF r [unfolded Inr]] s'(1)] s'(2) r Inr show ?thesis by (auto simp: bind_def)
    qed
  qed
  then show ?thesis by (simp add: emits_def)
qed

lemma emits_send_out: "P [x] \<Longrightarrow> emits P (send_out x)"
  by (auto intro!: emitsI keeps_intros simp: send_out_def)

lemma emits_prod: "(\<And>x y. emits P (k x y)) \<Longrightarrow> emits P (case p of (x, y) \<Rightarrow> k x y)"
  by (cases p) auto

lemma emits_sum: "(\<And>y. emits P (k y)) \<Longrightarrow> (\<And>z. emits P (l z)) \<Longrightarrow> emits P (case x of Inl y \<Rightarrow> k y | Inr z \<Rightarrow> l z)"
  by (cases x) auto

lemma emits_option: "emits P m \<Longrightarrow> (\<And>y. emits P (k y)) \<Longrightarrow> emits P (case x of None \<Rightarrow> m | Some y \<Rightarrow> k y)"
  by (cases x) auto

section \<open>Programs that send nothing\<close>


lemma silent_stmt_log: "silent (LogNotification e)"
  by (intro silentI keeps_intros) (auto simp: LogNotification_def insert_log_def intro!: keeps_stmt split: if_splits)

lemma silent_inapp: "silent (CreateInAppNotification a t m sev ty us)"
  by (intro silentI keeps_intros)
    (auto simp: CreateInAppNotification_def insert_inapp_def intro!: keeps_stmt split: if_splits)

lemma silent_delete_sub: "silent (DeletePushSubscription ep)"
  by (intro silentI keeps_intros) (auto simp: DeletePushSubscription_def intro!: keeps_write)

lemma silent_channels: "silent (GetChannelsForAlert i)"
  by (intro silentI keeps_intros) (auto simp: GetChannelsForAlert_def intro!: keeps_intros)

lemma silent_subs: "silent GetAllPushSubscriptions"
  by (intro silentI keeps_intros) (auto simp: GetAllPushSubscriptions_def intro!: keeps_intros)

lemma silent_secret: "silent (DecryptChannelSecret dec i)"
  unfolding DecryptChannelSecret_def by (intro silentI keeps_intros)

lemma silent_setting: "silent (GetSetting dec key def)"
  unfolding GetSetting_def by (intro silentI keeps_intros)

lemma silent_vapid: "silent (GetOrCreateVAPIDKeys gen)"
  unfolding GetOrCreateVAPIDKeys_def getSettingRaw_def insert_setting_once_def
  by (intro silentI keeps_intros keeps_write) (auto simp: unrelated_ok)

lemma silent_build: "silent (BuildNotifier cf ch secret)"
  unfolding BuildNotifier_def Let_def
  using silent_setting by (intro silentI keeps_intros) (auto simp: silent_def)

lemmas silent_rules = silent_stmt_log silent_inapp silent_delete_sub silent_channels silent_subs silent_secret
  silent_setting silent_vapid silent_build

section \<open>What the channels emit\<close>

definition endpoints :: "outgoing list \<Rightarrow> string list" where
  "endpoints out = concat (map (\<lambda>x. case x of WebPush ep body \<Rightarrow> [ep] | _ \<Rightarrow> []) out)"

definition published :: "outgoing list \<Rightarrow> InAppNotification list" where
  "published out = concat (map (\<lambda>x. case x of HubPublish n \<Rightarrow> [n] | _ \<Rightarrow> []) out)"

definition external :: "outgoing list \<Rightarrow> outgoing list" where
  "external out = filter (\<lambda>x. case x of WebPush ep body \<Rightarrow> False | HubPublish n \<Rightarrow> False | _ \<Rightarrow> True) out"

lemmas out_defs = endpoints_def published_def external_def

lemma out_append [simp]:
  "endpoints (a @ b) = endpoints a @ endpoints b" "published (a @ b) = published a @ published b"
  "external (a @ b) = external a @ external b"
  by (simp_all add: out_defs)

lemma out_Nil [simp]: "endpoints [] = []" "published [] = []" "external [] = []"
  by (simp_all add: out_defs)

lemma emits_push_each:
  "emits (\<lambda>out. endpoints out = map ps_Endpoint ss \<and> published out = [] \<and> external out = []) (push_each cf p ss res)"
proof (induction ss arbitrary: res)
  case Nil
  show ?case unfolding push_each.simps by (rule emits_ret) simp
next
  case (Cons s ss)
  let ?one = "\<lambda>out. out = [WebPush (ps_Endpoint s) (pushBody p)]"
  let ?P = "\<lambda>out. endpoints out = map ps_Endpoint ss \<and> published out = [] \<and> external out = []"
  have one: "emits ?one (sendWebPush cf s p)"
    by (auto intro!: emitsI keeps_intros simp: sendWebPush_def bind_def send_out_def)
  have rest: "emits ?P (case x of (gone, err) \<Rightarrow>
       if gone then attempt (DeletePushSubscription (ps_Endpoint s)) (\<lambda>_. push_each cf p ss (count_push err res))
       else push_each cf p ss (count_push err res))" for x
    by (cases x) (auto intro!: emits_attempt silent_rules Cons.IH)
  have step: "push_each cf p (s # ss) res st = (case sendWebPush cf s p st of (r, st') \<Rightarrow>
      (case push_outcome (cf_web cf s) of (gone, err) \<Rightarrow>
       if gone then attempt (DeletePushSubscription (ps_Endpoint s)) (\<lambda>_. push_each cf p ss (count_push err res))
       else push_each cf p ss (count_push err res)) st')" for st
    by (simp add: sendWebPush_def bind_def send_out_def)
  show ?case
  proof (rule emitsI)
    show "keeps db_ok (push_each cf p (s # ss) res)" by (rule keeps_intros)
    fix st :: "notifdb \<times> bool list"
    assume ok: "db_ok (fst st)"
    obtain r st' where r: "sendWebPush cf s p st = (r, st')" by (cases "sendWebPush cf s p st")
    with emitsD [OF one ok] have "db_ok (fst st')"
      "db_sent (fst st') = db_sent (fst st) @ [WebPush (ps_Endpoint s) (pushBody p)]" by auto
    moreover from emitsD [OF rest [of "push_outcome (cf_web cf s)"] calculation(1)] obtain out where
      "db_sent (fst (snd (push_each cf p (s # ss) res st))) = db_sent (fst st') @ out"
      "endpoints out = map ps_Endpoint ss" "published out = []" "external out = []"
      unfolding step r by auto
    ultimately have "db_sent (fst (snd (push_each cf p (s # ss) res st))) =
        db_sent (fst st) @ WebPush (ps_Endpoint s) (pushBody p) # out \<and>
      endpoints (WebPush (ps_Endpoint s) (pushBody p) # out) = map ps_Endpoint (s # ss) \<and>
      published (WebPush (ps_Endpoint s) (pushBody p) # out) = [] \<and>
      external (WebPush (ps_Endpoint s) (pushBody p) # out) = []"
      by (simp add: out_defs)
    then show "\<exists>out. db_sent (fst (snd (push_each cf p (s # ss) res st))) = db_sent (fst st) @ out \<and>
         endpoints out = map ps_Endpoint (s # ss) \<and> published out = [] \<and> external out = []" by blast
  qed
qed

text \<open>A push channel writes to each endpoint at most once, and to nobody but the browsers subscribed.\<close>

definition push_out :: "outgoing list \<Rightarrow> bool" where
  "push_out out \<longleftrightarrow> distinct (endpoints out) \<and> published out = [] \<and> external out = []"

definition inapp_out :: "outgoing list \<Rightarrow> bool" where
  "inapp_out out \<longleftrightarrow> endpoints out = [] \<and> length (published out) \<le> 1 \<and> external out = []"

text \<open>
  Whether a message goes where the configuration of a channel of type \<open>t\<close> says, with the body that
  type of channel gets: the recipients of a mail, the URL of a webhook.
\<close>

definition addressed :: "string \<Rightarrow> json option \<Rightarrow> Payload \<Rightarrow> outgoing \<Rightarrow> bool" where
  "addressed t config p x =
     (case x of
        Mail addr auth tls from to text \<Rightarrow> t = ChannelTypeEmail \<and> decode_strings_field ''to'' config = Some to
      | Post url token body \<Rightarrow>
          t = ChannelTypeWebhook \<and> decode_string_field ''url'' config = Some url \<and> body = webhookBody p \<or>
          t = ChannelTypeSlack \<and> decode_string_field ''webhook_url'' config = Some url \<and> body = slackBody p \<or>
          t = ChannelTypeTeams \<and> decode_string_field ''webhook_url'' config = Some url \<and> body = teamsBody p
      | _ \<Rightarrow> False)"

abbreviation addressed_to :: "Payload \<Rightarrow> NotificationChannel \<Rightarrow> outgoing \<Rightarrow> bool" where
  "addressed_to p ch \<equiv> addressed (nc_Type ch) (nc_Config ch) p"

text \<open>Messages that go, in order, to some of the channels, each channel getting at most one.\<close>

definition one_each :: "Payload \<Rightarrow> NotificationChannel list \<Rightarrow> outgoing list \<Rightarrow> bool" where
  "one_each p chs out \<longleftrightarrow> (\<exists>reached. subseq reached chs \<and> list_all2 (addressed_to p) reached out)"

lemma one_each_Nil [simp]: "one_each p chs []"
  by (auto simp: one_each_def intro!: exI [of _ "[]"])

lemma one_each_skip: "one_each p chs out \<Longrightarrow> one_each p (ch # chs) out"
  by (auto simp: one_each_def)

lemma one_each_Cons:
  assumes "one_each p [ch] a" "one_each p chs b"
  shows "one_each p (ch # chs) (a @ b)"
proof -
  from assms(1) have "a = [] \<or> (\<exists>x. a = [x] \<and> addressed_to p ch x)"
    by (auto simp: one_each_def list_all2_Cons1 elim!: list_emb.cases)
  moreover from assms(2) obtain reached where "subseq reached chs" "list_all2 (addressed_to p) reached b"
    by (auto simp: one_each_def)
  then have "one_each p (ch # chs) (x # b)" if "addressed_to p ch x" for x
    using that by (auto simp: one_each_def intro!: exI [of _ "ch # reached"])
  ultimately show ?thesis using assms(2) by (auto simp: one_each_skip)
qed

definition external_out :: "NotificationChannel \<Rightarrow> Payload \<Rightarrow> outgoing list \<Rightarrow> bool" where
  "external_out ch p out \<longleftrightarrow> endpoints out = [] \<and> published out = [] \<and> one_each p [ch] (external out)"

lemmas channel_outs = push_out_def inapp_out_def external_out_def

lemma emits_dispatchPush: "emits push_out (dispatchPush cf p us)"
proof (rule emitsI)
  show "keeps db_ok (dispatchPush cf p us)" by (rule keeps_intros)
  fix s :: "notifdb \<times> bool list"
  assume ok: "db_ok (fst s)"
  obtain r s1 where r: "GetAllPushSubscriptions s = (r, s1)" by (cases "GetAllPushSubscriptions s")
  have s1: "db_ok (fst s1)" "db_sent (fst s1) = db_sent (fst s)"
    using silentD [OF silent_subs, of s] keepsD [OF keeps_GetAllPushSubscriptions, of s] ok r by auto
  have subs: "distinct (map ps_Endpoint ss)" if "r = Inr ss" for ss
  proof -
    have "ss = sort_key ps_CreatedAt (db_subs (fst s))"
      using r that by (auto simp: GetAllPushSubscriptions_def query_def stmt_def split: if_splits)
    moreover have "distinct (map ps_Endpoint (db_subs (fst s)))" using ok by (simp add: db_ok_defs)
    ultimately show ?thesis by (simp add: distinct_map)
  qed
  have cont: "emits push_out (case r of
        Inl err \<Rightarrow> ret (Inl ''load push subscriptions'')
      | Inr subs \<Rightarrow>
          if subs = [] then ret (Inl ''no browsers are subscribed to push notifications'')
          else attempt (GetOrCreateVAPIDKeys (cf_gen cf)) (\<lambda>k. case k of
             Inl err \<Rightarrow> ret (Inl ''VAPID keys'')
           | Inr keys \<Rightarrow>
               bind (push_each cf p (push_targets us subs)
                  \<lparr>pr_Delivered = 0, pr_Failed = 0, pr_Errors = []\<rparr>) (\<lambda>res. ret (Inr res))))"
  proof (cases r)
    case (Inl err)
    then show ?thesis by (simp add: emits_ret push_out_def del: ret_ok)
  next
    case (Inr ss)
    have "distinct (map ps_Endpoint (push_targets us ss))"
      using subs [OF Inr] by (simp add: push_targets_def distinct_map_filter_key)
    then have "emits push_out (bind (push_each cf p (push_targets us ss)
          \<lparr>pr_Delivered = 0, pr_Failed = 0, pr_Errors = []\<rparr>) (\<lambda>res. ret (Inr res)))"
      by (intro emits_bind [OF emits_push_each, where Q = "\<lambda>out. out = []"] emits_ret) (auto simp: push_out_def)
    with Inr show ?thesis
      by (auto simp: push_out_def simp del: ret_ok intro!: emits_ret emits_attempt silent_rules emits_sum)
  qed
  show "\<exists>out. db_sent (fst (snd (dispatchPush cf p us s))) = db_sent (fst s) @ out \<and> push_out out"
    using emitsD [OF cont s1(1)] s1(2) by (auto simp: dispatchPush_def attempt_def [of GetAllPushSubscriptions] r)
qed

lemma emits_deliver_inapp: "emits inapp_out (deliver_inapp cf a p us)"
  unfolding deliver_inapp_def
proof (intro emits_attempt silent_rules emits_sum emits_ret emits_prod)
  fix i createdAt
  show "emits inapp_out
        (bind (if cf_onInApp cf then
                  send_out (HubPublish \<lparr>ia_ID = i, ia_AlertID = a, ia_Title = pl_Title p,
                    ia_Message = pl_Message p, ia_Severity = pl_Severity p, ia_AlertRuleType = pl_AlertRuleType p,
                    ia_TargetUserIds = us, ia_CreatedAt = createdAt\<rparr>)
                else ret ()) (\<lambda>_. ret ((''sent'', []), Some i)))"
    by (intro emits_bind [where P = inapp_out and Q = "\<lambda>out. out = []"])
      (auto simp del: ret_ok simp: out_defs inapp_out_def intro!: emits_ret emits_send_out)
qed (simp add: inapp_out_def)

text \<open>The sender built for a channel transmits to that channel and nowhere else.\<close>

lemma BuildNotifier_addressed:
  "yields (\<lambda>r. \<forall>n x. r = Some n \<longrightarrow> outgoing_of n p = Some x \<longrightarrow> addressed_to p ch x) (BuildNotifier cf ch secret)"
  unfolding BuildNotifier_def Let_def
  by (intro yields_intros) (auto simp: addressed_def outgoing_of_def post_def split: if_splits)

lemma emits_Send:
  assumes "\<And>x. outgoing_of n p = Some x \<Longrightarrow> addressed_to p ch x"
  shows "emits (external_out ch p) (Send cf n p)"
proof (cases "outgoing_of n p")
  case None
  then show ?thesis by (simp add: Send_def emits_ret external_out_def del: ret_ok)
next
  case (Some x)
  from assms [OF Some] have "one_each p [ch] [x]" by (auto simp: one_each_def intro!: exI [of _ "[ch]"])
  with Some have "external_out ch p [x]"
    by (auto simp: outgoing_of_def post_def external_out_def out_defs split: Notifier.splits if_splits)
  then have "emits (external_out ch p) (bind (send_out x) (\<lambda>_. ret (accepted x (cf_net cf x))))"
    by (intro emits_bind [where P = "external_out ch p" and Q = "\<lambda>out. out = []"] emits_ret emits_send_out) auto
  with Some show ?thesis by (simp add: Send_def)
qed

lemma emits_deliver_external: "emits (external_out ch p) (deliver_external cf ch p)"
proof -
  have send: "emits (external_out ch p) (bind (Send cf n p)
      (\<lambda>ok. ret (if ok then (''sent'', []) else (''failed'', ''send notification failed''))))"
    if "\<And>x. outgoing_of n p = Some x \<Longrightarrow> addressed_to p ch x" for n
    by (intro emits_bind [OF emits_Send [OF that], where Q = "\<lambda>out. out = []"] emits_ret) (auto simp: external_out_def)
  have [simp]: "external_out ch p []" by (simp add: external_out_def)
  have "emits (external_out ch p) (case n of None \<Rightarrow> ret (''failed'', ''build notifier failed'')
      | Some n \<Rightarrow> bind (Send cf n p) (\<lambda>ok.
          ret (if ok then (''sent'', []) else (''failed'', ''send notification failed''))))"
    if "BuildNotifier cf ch secret s = (Inr n, s')" for secret s n s'
    using yieldsD [OF BuildNotifier_addressed [of p ch cf secret] that]
    by (cases n) (auto simp del: ret_ok intro!: emits_ret send)
  then show ?thesis
    unfolding deliver_external_def
    by (intro emits_attempt silent_rules emits_sum emits_ret emits_bind_result [OF silent_build]) simp_all
qed

text \<open>One channel: the kind of its output follows its type.\<close>

definition type_out :: "NotificationChannel \<Rightarrow> Payload \<Rightarrow> outgoing list \<Rightarrow> bool" where
  "type_out ch p =
     (if nc_Type ch = ChannelTypeInApp then inapp_out
      else if nc_Type ch = ChannelTypePush then push_out else external_out ch p)"

lemma type_out_Nil: "type_out ch p []"
  by (simp add: type_out_def channel_outs)

lemma emits_dispatchOne: "emits (type_out ch p) (dispatchOne cf a nm f ch p us)"
proof -
  let ?t = "type_out ch p"
  have tail: "emits (\<lambda>out. out = []) (case x of (result, inAppID) \<Rightarrow>
      attempt (LogNotification (log_entry a nm f ch p result inAppID)) (\<lambda>_. ret ()))" for x
    by (cases x) (auto simp del: ret_ok intro!: emits_attempt silent_rules emits_ret)
  have pair: "emits ?t (bind m (\<lambda>r. ret (r, None)))" if "emits ?t m" for m :: "(notifdb, string \<times> string) sql"
    by (rule emits_bind [OF that, where Q = "\<lambda>out. out = []"]) (auto simp del: ret_ok intro: emits_ret)
  have push: "emits push_out (sendPushChannel cf p ts)" for ts
    unfolding sendPushChannel_def
    by (intro emits_bind [OF emits_dispatchPush, where Q = "\<lambda>out. out = []"] emits_ret) auto
  have "emits ?t (if nc_Type ch = ChannelTypeInApp then deliver_inapp cf a p ts
            else if nc_Type ch = ChannelTypePush then
              bind (sendPushChannel cf p ts) (\<lambda>r. ret (r, None))
            else bind (deliver_external cf ch p) (\<lambda>r. ret (r, None)))" for ts
    using pair [of "sendPushChannel cf p ts"] pair [of "deliver_external cf ch p"]
    by (auto simp: type_out_def emits_deliver_inapp push emits_deliver_external)
  then show ?thesis
    unfolding dispatchOne_def Let_def by (rule emits_bind [OF _ tail]) auto
qed

end
