(* ===== verification/NotifyTheorems.thy ===== *)
theory NotifyTheorems
  imports NotifyDispatchLemmas
begin

text \<open>
  The properties of the notification component: the table invariant, delivery of a firing,
  visibility, the bell, and the rights on rules and channels.
\<close>

section \<open>The tables\<close>

text \<open>
  What can happen to the tables, in any order and with any statement failing: the handlers, the
  dispatcher, the statements the alert engine runs, and the environment (time passes, users and
  settings change).
\<close>

inductive db_step :: "notifdb \<Rightarrow> notifdb \<Rightarrow> bool" where
  create_alert: "db_step d (fst (snd (CreateAlert_handler c body (d, fs))))"
| update_alert: "db_step d (fst (snd (UpdateAlert_handler c param body (d, fs))))"
| delete_alert: "db_step d (fst (snd (DeleteAlert_handler c param (d, fs))))"
| mark_fired: "db_step d (fst (snd (MarkAlertFired_db i (d, fs))))"
| create_channel: "db_step d (fst (snd (CreateNotificationChannel_handler enc c creq (d, fs))))"
| update_channel: "db_step d (fst (snd (UpdateNotificationChannel_handler enc c param creq (d, fs))))"
| delete_channel: "db_step d (fst (snd (DeleteNotificationChannel_handler c param (d, fs))))"
| test_channel: "db_step d (fst (snd (TestNotificationChannel cf param (d, fs))))"
| dispatch: "db_step d (fst (snd (dispatchAlert cf f alert p (d, fs))))"
| clear_history: "db_step d (fst (snd (ClearNotificationHistory_handler (d, fs))))"
| mark_read: "db_step d (fst (snd (MarkNotificationsRead_handler c rd (d, fs))))"
| subscribe: "db_step d (fst (snd (SavePushSubscription u ep pk au (d, fs))))"
| unsubscribe: "db_step d (fst (snd (DeletePushSubscription ep (d, fs))))"
| settings: "db_step d (fst (snd (UpdateSetting enc key v (d, fs))))"
| tick: "db_step d (d\<lparr>db_now := t\<rparr>)"
| users: "db_step d (d\<lparr>db_users := us\<rparr>)"

definition empty_db :: "(int \<rightharpoonup> string \<times> bool) \<Rightarrow> notifdb" where
  "empty_db us = \<lparr>db_alerts = [], db_conds = [], db_alert_channels = [], db_channels = [], db_log = [],
     db_inapp = [], db_last_read = Map.empty, db_subs = [], db_users = us, db_settings = Map.empty,
     db_serial = 1, db_now = 0, db_sent = []\<rparr>"

inductive db_reach :: "notifdb \<Rightarrow> bool" where
  start: "db_reach (empty_db us)"
| step: "db_reach d \<Longrightarrow> db_step d d' \<Longrightarrow> db_reach d'"

lemma keeps_handlers:
  "keeps db_ok (CreateAlert_handler c body)" "keeps db_ok (UpdateAlert_handler c param body)"
  "keeps db_ok (DeleteAlert_handler c param)"
  "keeps db_ok (CreateNotificationChannel_handler enc c creq)"
  "keeps db_ok (UpdateNotificationChannel_handler enc c param creq)"
  "keeps db_ok (DeleteNotificationChannel_handler c param)"
  "keeps db_ok (TestNotificationChannel cf param)" "keeps db_ok ClearNotificationHistory_handler"
  "keeps db_ok (MarkNotificationsRead_handler c rd)"
  unfolding CreateAlert_handler_def UpdateAlert_handler_def DeleteAlert_handler_def adminOnlyDenied_def
    CreateNotificationChannel_handler_def UpdateNotificationChannel_handler_def channelOwnedByCaller_def
    DeleteNotificationChannel_handler_def TestNotificationChannel_def ClearNotificationHistory_handler_def
    MarkNotificationsRead_handler_def
  by (intro keeps_intros)+

lemma db_step_ok: "db_step d d' \<Longrightarrow> db_ok d \<Longrightarrow> db_ok d'"
  by (induction rule: db_step.induct)
    (auto intro: keepsD [where s = "(d, fs)" for d fs, simplified] keeps_handlers keeps_intros unrelated_ok)

text \<open>
  In every reachable state the keys are unique and every reference points to a row that exists.
\<close>

lemma db_reach_ok: "db_reach d \<Longrightarrow> db_ok d"
proof (induction rule: db_reach.induct)
  case (start us)
  show ?case by (simp add: empty_db_def db_ok_defs)
next
  case (step d d')
  then show ?case by (simp add: db_step_ok)
qed

section \<open>Delivering a firing\<close>

definition leads :: "NotificationChannel list \<Rightarrow> string \<Rightarrow> NotificationChannel list \<Rightarrow> nat" where
  "leads all t chs = length (filter (\<lambda>ch. nc_Type ch = t \<and> nc_ID ch = nc_ID (first_of_type all t)) chs)"

lemma merge_keeps:
  "di_broadcast info \<or> di_targets info \<noteq> [] \<Longrightarrow>
     di_broadcast (merge_targets t chs info) \<or> di_targets (merge_targets t chs info) \<noteq> []"
proof (induction t chs info rule: merge_targets.induct)
  case (2 t ch chs info)
  have "ts \<noteq> [] \<Longrightarrow> foldl add_target ts us \<noteq> []" for ts us
    by (induction us arbitrary: ts) (auto simp: add_target_def)
  with 2 show ?case by auto
qed simp

lemma foldl_add_target: "set (foldl add_target ts us) = set ts \<union> set us"
  by (induction us arbitrary: ts) (auto simp: add_target_def)

lemma merge_nonempty:
  assumes "ch \<in> set chs"
  shows "di_broadcast (merge_targets (nc_Type ch) chs info) \<or> di_targets (merge_targets (nc_Type ch) chs info) \<noteq> []"
  using assms
proof (induction chs arbitrary: info)
  case (Cons c chs)
  have "foldl add_target ts us \<noteq> []" if "us \<noteq> []" for ts us :: "int list"
    using that foldl_add_target [of ts us] by auto
  with Cons show ?case by (cases "c = ch") (auto intro!: merge_keeps)
qed simp

text \<open>So for push and in-app channels the code always takes the merging branch.\<close>

lemma dedup_of_nonempty:
  "ch \<in> set all \<Longrightarrow> di_broadcast (dedup_of all (nc_Type ch)) \<or> di_targets (dedup_of all (nc_Type ch)) \<noteq> []"
  by (simp add: dedup_of_def merge_nonempty)

definition dispatch_out :: "Payload \<Rightarrow> NotificationChannel list \<Rightarrow> NotificationChannel list \<Rightarrow> outgoing list \<Rightarrow> bool" where
  "dispatch_out p all chs out \<longleftrightarrow>
     (leads all ChannelTypePush chs = 0 \<longrightarrow> endpoints out = []) \<and>
     (leads all ChannelTypePush chs \<le> 1 \<longrightarrow> distinct (endpoints out)) \<and>
     length (published out) \<le> leads all ChannelTypeInApp chs \<and>
     one_each p (filter (\<lambda>ch. \<not> is_dedup_type (nc_Type ch)) chs) (external out)"

lemma dispatch_out_skip: "dispatch_out p all chs out \<Longrightarrow> is_dedup_type (nc_Type ch) \<Longrightarrow>
    nc_ID ch \<noteq> nc_ID (first_of_type all (nc_Type ch)) \<Longrightarrow> dispatch_out p all (ch # chs) out"
  by (auto simp: dispatch_out_def leads_def)

lemma dispatch_out_Cons:
  assumes "type_out ch p a" "dispatch_out p all chs b"
    and "is_dedup_type (nc_Type ch) \<Longrightarrow> nc_ID ch = nc_ID (first_of_type all (nc_Type ch))"
  shows "dispatch_out p all (ch # chs) (a @ b)"
  using assms
  by (auto simp: dispatch_out_def leads_def type_out_def channel_outs is_dedup_type_def channel_type_defs
      intro: one_each_Cons split: if_splits)

lemma emits_dispatch_channels:
  assumes "set chs \<subseteq> set all"
  shows "emits (dispatch_out p all chs) (dispatch_channels cf a f p all chs)"
  using assms
proof (induction chs)
  case Nil
  then show ?case unfolding dispatch_channels.simps by (intro emits_ret) (simp add: dispatch_out_def)
next
  case (Cons ch chs)
  let ?rest = "dispatch_channels cf a f p all chs"
  have IH: "emits (dispatch_out p all chs) ?rest" using Cons by simp
  have one: "emits (dispatch_out p all (ch # chs)) (bind (dispatchOne cf (al_ID a) (al_Name a) f ch p us) (\<lambda>_. ?rest))"
    if lead: "is_dedup_type (nc_Type ch) \<Longrightarrow> nc_ID ch = nc_ID (first_of_type all (nc_Type ch))" for us
  proof (rule emits_bind [OF emits_dispatchOne IH])
    show "dispatch_out p all (ch # chs) (x @ y)" if "type_out ch p x" "dispatch_out p all chs y" for x y
      using that lead by (rule dispatch_out_Cons)
    show "dispatch_out p all (ch # chs) x" if "type_out ch p x" for x
      using dispatch_out_Cons [OF that, of all chs "[]"] lead by (simp add: dispatch_out_def)
  qed
  have skip: "emits (dispatch_out p all (ch # chs)) ?rest"
    if "is_dedup_type (nc_Type ch)" "nc_ID ch \<noteq> nc_ID (first_of_type all (nc_Type ch))"
    by (rule emits_mono [OF IH]) (rule dispatch_out_skip [OF _ that])
  show ?case
    using dedup_of_nonempty [of ch all] Cons.prems one skip by (auto simp: Let_def)
qed

lemma filter_same_key:
  assumes "distinct (map k (filter P xs))" "\<And>x. P x \<Longrightarrow> k x = i"
  shows "length (filter P xs) \<le> 1"
proof -
  have "set (map k (filter P xs)) \<subseteq> {i}" using assms(2) by auto
  with assms(1) have "length (map k (filter P xs)) \<le> card {i}"
    by (metis card_mono distinct_card finite.emptyI finite_insert)
  then show ?thesis by simp
qed

lemma leads_le_1: "distinct (map nc_ID all) \<Longrightarrow> leads all t all \<le> 1"
  unfolding leads_def by (rule filter_same_key [where k = nc_ID]) (auto intro: distinct_map_filter_key)

text \<open>The channels a firing of a rule goes to.\<close>

definition attached :: "notifdb \<Rightarrow> int \<Rightarrow> channel_row list" where
  "attached d i = filter (\<lambda>c. (i, cw_id c) \<in> set (db_alert_channels d) \<and> cw_enabled c) (db_channels d)"

lemma scanChannel_simps [simp]: "nc_ID (scanChannel d c) = cw_id c" "nc_Type (scanChannel d c) = cw_type c"
  "nc_Config (scanChannel d c) = Some (cw_config c)" "nc_Name (scanChannel d c) = cw_name c"
  by (simp_all add: scanChannel_def)

lemma attached_distinct: "db_ok d \<Longrightarrow> distinct (map nc_ID (map (scanChannel d) (attached d i)))"
  by (simp add: attached_def db_ok_defs comp_def distinct_map_filter_key)

text \<open>
  (C8) A firing writes to every subscribed browser at most once, publishes at most one in-app
  notification, and sends at most one message to each attached mail, webhook, Slack or Teams channel:
  the messages go, in order, to some of those channels, one each, and every message is addressed as
  the configuration of its own channel says and has the body for its type. This holds however many
  push and in-app channels the rule has and whatever fails on the way.
\<close>

theorem dispatch_at_most_once:
  assumes "db_ok d"
  shows "\<exists>out reached. db_sent (fst (snd (dispatchAlert cf f a p (d, fs)))) = db_sent d @ out \<and>
    distinct (endpoints out) \<and> length (published out) \<le> 1 \<and>
    subseq reached (filter (\<lambda>c. \<not> is_dedup_type (cw_type c)) (attached d (al_ID a))) \<and>
    distinct (map cw_id reached) \<and>
    list_all2 (\<lambda>c. addressed (cw_type c) (Some (cw_config c)) (firing_payload a f p)) reached (external out)"
proof -
  let ?q = "firing_payload a f p"
  let ?ext = "filter (\<lambda>c. \<not> is_dedup_type (cw_type c)) (attached d (al_ID a))"
  let ?P = "\<lambda>out. distinct (endpoints out) \<and> length (published out) \<le> 1 \<and>
    one_each ?q (map (scanChannel d) ?ext) (external out)"
  obtain r s1 where r: "GetChannelsForAlert (al_ID a) (d, fs) = (r, s1)" by (cases "GetChannelsForAlert (al_ID a) (d, fs)")
  have s1: "db_ok (fst s1)" "db_sent (fst s1) = db_sent d"
    using silentD [OF silent_channels, of "al_ID a" "(d, fs)"] keepsD [OF keeps_GetChannelsForAlert, of "(d, fs)" "al_ID a"] assms r
    by auto
  have chans: "chs = map (scanChannel d) (attached d (al_ID a))" if "r = Inr chs" for chs
    using r that by (auto simp: GetChannelsForAlert_def query_def stmt_def attached_def split: if_splits)
  have cont: "emits ?P (case r of
        Inl err \<Rightarrow> ret ()
      | Inr channels \<Rightarrow>
          (let p = ?q in
           if channels = [] then attempt (LogNotification (no_channel_entry a f p)) (\<lambda>_. ret ())
           else dispatch_channels cf a f p channels channels))"
  proof (cases r)
    case (Inr chs)
    have "filter (\<lambda>ch. \<not> is_dedup_type (nc_Type ch)) chs = map (scanChannel d) ?ext"
      by (simp add: chans [OF Inr] filter_map comp_def)
    moreover have "leads chs t chs \<le> 1" for t
      using leads_le_1 attached_distinct [OF assms] chans [OF Inr] by simp
    ultimately have P: "dispatch_out ?q chs chs out \<Longrightarrow> ?P out" for out
      by (auto simp: dispatch_out_def intro: le_trans)
    have "emits ?P (dispatch_channels cf a f ?q chs chs)"
      by (rule emits_mono [OF emits_dispatch_channels [OF order_refl] P])
    moreover have "emits ?P (attempt (LogNotification e) (\<lambda>_. ret ()))" for e
      by (intro emits_attempt silent_rules emits_ret) simp
    ultimately show ?thesis by (simp add: Inr Let_def del: ret_ok)
  qed (auto simp del: ret_ok intro: emits_ret)
  obtain out where out: "db_sent (fst (snd (dispatchAlert cf f a p (d, fs)))) = db_sent d @ out" "?P out"
    using emitsD [OF cont s1(1)] s1(2) by (auto simp: dispatchAlert_def attempt_def [of "GetChannelsForAlert _"] r)
  from out(2) obtain reached where reached: "subseq reached (map (scanChannel d) ?ext)"
      "list_all2 (addressed_to ?q) reached (external out)"
    by (auto simp: one_each_def)
  then obtain rows where rows: "reached = map (scanChannel d) rows" "subseq rows ?ext"
    by (auto simp: subseq_conv_nths nths_map)
  have "distinct (map cw_id ?ext)"
    using attached_distinct [OF assms, of "al_ID a"] by (simp add: comp_def distinct_map_filter_key)
  with subseq_map [OF rows(2), of cw_id] have "distinct (map cw_id rows)"
    by (auto simp: subseq_conv_nths simp flip: nths_map)
  with out rows reached(2) show ?thesis by (auto simp: list_all2_map1)
qed

text \<open>Concrete tables: an administrator and two users, a rule with in-app, push and webhook channels.\<close>

definition chan0 :: "int \<Rightarrow> string \<Rightarrow> json \<Rightarrow> channel_row" where
  "chan0 i t cfg = \<lparr>cw_id = i, cw_name = t, cw_type = t, cw_config = cfg, cw_secret = None, cw_enabled = True,
     cw_created_by = Some 1, cw_created_at = 0, cw_updated_at = 0\<rparr>"

lemma chan0_type [simp]: "cw_type (chan0 i t cfg) = t"
  by (simp add: chan0_def)

definition users_cfg :: "int list \<Rightarrow> json" where
  "users_cfg us = JObj [(''user_ids'', JArr (map JNum us))]"

definition row1 :: "int \<Rightarrow> string \<Rightarrow> alert_row" where
  "row1 i t = (blank_alert_row i 1 0)\<lparr>aw_name := ''rule'', aw_rule_type := t\<rparr>"

definition db1 :: "channel_row list \<Rightarrow> notifdb" where
  "db1 chs = (empty_db [1 \<mapsto> (''ann'', True), 2 \<mapsto> (''bob'', False), 3 \<mapsto> (''cid'', False)])\<lparr>
     db_alerts := [row1 7 RuleTypeAuditLog], db_channels := chs,
     db_alert_channels := map (\<lambda>c. (7, cw_id c)) chs,
     db_subs := [\<lparr>ps_ID = 20, ps_UserID = 2, ps_Endpoint = ''ep2'', ps_P256dh = [], ps_Auth = [], ps_CreatedAt = 0\<rparr>],
     db_serial := 30\<rparr>"

definition chans1 :: "channel_row list" where
  "chans1 = [chan0 10 ''in_app'' (users_cfg [2]), chan0 11 ''in_app'' (users_cfg [3, 2]),
     chan0 12 ''push'' (users_cfg [2]), chan0 13 ''webhook'' (JObj [(''url'', JStr ''http://h'')])]"

definition cf1 :: config where
  "cf1 = \<lparr>cf_Decrypt = Some, cf_gen = Some (''priv'', ''pub''), cf_net = (\<lambda>_. Some 200),
     cf_web = (\<lambda>_. Inr (201, [])), cf_ord = (\<lambda>us. us), cf_onInApp = True\<rparr>"

lemma db1_ok: "db_ok (db1 chans1)"
  by (simp add: db_ok_defs db1_def chans1_def chan0_def row1_def blank_alert_row_def empty_db_def alert_ids_def channel_ids_def)

definition alert1 :: Alert where "alert1 = scanAlert (row1 7 RuleTypeAuditLog)"

theorem dispatch_at_most_once_witness:
  "\<exists>out reached. db_sent (fst (snd (dispatchAlert cf1 ''f1'' alert1 testPayload (db1 chans1, [False, True])))) =
      db_sent (db1 chans1) @ out \<and> distinct (endpoints out) \<and> length (published out) \<le> 1 \<and>
    subseq reached [chan0 13 ''webhook'' (JObj [(''url'', JStr ''http://h'')])] \<and> distinct (map cw_id reached) \<and>
    list_all2 (\<lambda>c. addressed (cw_type c) (Some (cw_config c)) (firing_payload alert1 ''f1'' testPayload))
      reached (external out)"
proof -
  have "filter (\<lambda>c. \<not> is_dedup_type (cw_type c)) (attached (db1 chans1) (al_ID alert1)) =
      [chan0 13 ''webhook'' (JObj [(''url'', JStr ''http://h'')])]" by code_simp
  with dispatch_at_most_once [OF db1_ok, of cf1 "''f1''" alert1 testPayload "[False, True]"] show ?thesis by simp
qed

section \<open>Which channels a firing goes to, and whom they address\<close>

text \<open>
  The plan of a firing: every attached channel once, except that the push channels and the in-app
  channels are each represented by the first of them, with the merged target list unless one of them
  addresses everybody.
\<close>

definition plan_entry ::
  "(int list \<Rightarrow> int list) \<Rightarrow> NotificationChannel list \<Rightarrow> NotificationChannel \<Rightarrow> (NotificationChannel \<times> int list option) list" where
  "plan_entry ord all ch =
     (let info = dedup_of all (nc_Type ch) in
      if \<not> is_dedup_type (nc_Type ch) then [(ch, None)]
      else if nc_ID ch \<noteq> nc_ID (first_of_type all (nc_Type ch)) then []
      else [(ch, if di_broadcast info then None else Some (ord (di_targets info)))])"

definition plan :: "(int list \<Rightarrow> int list) \<Rightarrow> NotificationChannel list \<Rightarrow> (NotificationChannel \<times> int list option) list" where
  "plan ord all = concat (map (plan_entry ord all) all)"

definition run_plan ::
  "config \<Rightarrow> Alert \<Rightarrow> string \<Rightarrow> Payload \<Rightarrow> (NotificationChannel \<times> int list option) list \<Rightarrow> (notifdb, unit) sql" where
  "run_plan cf a f p = for_each (\<lambda>(ch, us). dispatchOne cf (al_ID a) (al_Name a) f ch p us)"

lemma dispatch_channels_plan:
  assumes "set chs \<subseteq> set all"
  shows "dispatch_channels cf a f p all chs = run_plan cf a f p (concat (map (plan_entry (cf_ord cf) all) chs))"
  using assms
proof (induction chs)
  case Nil
  then show ?case by (simp add: run_plan_def del: ret_ok)
next
  case (Cons ch chs)
  then show ?case
    using dedup_of_nonempty [of ch all]
    by (auto simp: run_plan_def plan_entry_def Let_def for_each_append simp del: ret_ok)
qed

lemma merge_broadcast:
  "di_broadcast (merge_targets t chs info) \<longleftrightarrow>
     di_broadcast info \<or> (\<exists>ch\<in>set chs. nc_Type ch = t \<and> decode_user_ids (nc_Config ch) = [])"
  by (induction t chs info rule: merge_targets.induct) auto

lemma merge_union:
  "set (di_targets (merge_targets t chs info)) =
     set (di_targets info) \<union> (\<Union>ch\<in>{ch \<in> set chs. nc_Type ch = t}. set (decode_user_ids (nc_Config ch)))"
  by (induction t chs info rule: merge_targets.induct) (auto simp: foldl_add_target)

lemma first_of_type_in:
  "ch \<in> set all \<Longrightarrow> first_of_type all (nc_Type ch) \<in> set all \<and> nc_Type (first_of_type all (nc_Type ch)) = nc_Type ch"
proof -
  assume "ch \<in> set all"
  then have "filter (\<lambda>c. nc_Type c = nc_Type ch) all \<noteq> []" by (auto simp: filter_empty_conv)
  then have "first_of_type all (nc_Type ch) \<in> set (filter (\<lambda>c. nc_Type c = nc_Type ch) all)"
    unfolding first_of_type_def by (rule hd_in_set)
  then show ?thesis by simp
qed

text \<open>The plan has exactly one entry for a type that is merged.\<close>

lemma plan_of_type:
  assumes "distinct (map nc_ID all)" "ch \<in> set all" "is_dedup_type (nc_Type ch)"
  shows "filter (\<lambda>e. nc_Type (fst e) = nc_Type ch) (plan ord all) =
    [(first_of_type all (nc_Type ch), if di_broadcast (dedup_of all (nc_Type ch)) then None
       else Some (ord (di_targets (dedup_of all (nc_Type ch)))))]"
proof -
  let ?t = "nc_Type ch" let ?f = "first_of_type all ?t"
  let ?ov = "if di_broadcast (dedup_of all ?t) then None else Some (ord (di_targets (dedup_of all ?t)))"
  let ?lead = "\<lambda>c. nc_Type c = ?t \<and> nc_ID c = nc_ID ?f"
  have "filter (\<lambda>e. nc_Type (fst e) = ?t) (concat (map (plan_entry ord all) chs)) =
      map (\<lambda>c. (c, ?ov)) (filter ?lead chs)" for chs
    using assms(3) by (induction chs) (auto simp: plan_entry_def Let_def)
  then have "filter (\<lambda>e. nc_Type (fst e) = ?t) (plan ord all) = map (\<lambda>c. (c, ?ov)) (filter ?lead all)"
    by (simp add: plan_def)
  moreover have "filter ?lead all = [?f]"
  proof -
    have "?f \<in> set (filter ?lead all)" using first_of_type_in [OF assms(2)] by simp
    moreover have "length (filter ?lead all) \<le> 1" using leads_le_1 [OF assms(1)] by (simp add: leads_def)
    ultimately show ?thesis by (cases "filter ?lead all") auto
  qed
  ultimately show ?thesis by simp
qed

lemma dispatch_is_plan:
  assumes "attached d (al_ID a) \<noteq> []"
  shows "dispatchAlert cf f a p (d, []) = run_plan cf a f (firing_payload a f p)
    (plan (cf_ord cf) (map (scanChannel d) (attached d (al_ID a)))) (d, [])"
  using assms dispatch_channels_plan [OF order_refl]
  by (simp add: dispatchAlert_def attempt_def GetChannelsForAlert_def attached_def Let_def plan_def)

text \<open>
  (C9) A rule with several in-app (or several push) channels that each name their users is delivered
  through one of them, addressed to exactly the users named by any of them.
\<close>

theorem dispatch_reaches_named_users:
  assumes "db_ok d" "is_dedup_type t" "c \<in> set (attached d (al_ID a))" "cw_type c = t"
    and "\<And>c. c \<in> set (attached d (al_ID a)) \<Longrightarrow> cw_type c = t \<Longrightarrow> decode_user_ids (Some (cw_config c)) \<noteq> []"
    and "\<And>ts. set (cf_ord cf ts) = set ts"
  shows "\<exists>entries ch us. dispatchAlert cf f a p (d, []) = run_plan cf a f (firing_payload a f p) entries (d, []) \<and>
    filter (\<lambda>e. nc_Type (fst e) = t) entries = [(ch, Some us)] \<and> nc_ID ch \<in> cw_id ` set (attached d (al_ID a)) \<and>
    set us = (\<Union>c\<in>{c \<in> set (attached d (al_ID a)). cw_type c = t}. set (decode_user_ids (Some (cw_config c))))"
proof -
  let ?chs = "map (scanChannel d) (attached d (al_ID a))"
  let ?info = "dedup_of ?chs t"
  have ch: "scanChannel d c \<in> set ?chs" "nc_Type (scanChannel d c) = t" using assms(3,4) by simp_all
  have nb: "\<not> di_broadcast ?info" using assms(5) by (auto simp: dedup_of_def merge_broadcast)
  have "set (di_targets ?info) = (\<Union>c\<in>{c \<in> set (attached d (al_ID a)). cw_type c = t}. set (decode_user_ids (Some (cw_config c))))"
    by (auto simp: dedup_of_def merge_union)
  moreover have "filter (\<lambda>e. nc_Type (fst e) = t) (plan (cf_ord cf) ?chs) =
      [(first_of_type ?chs t, Some (cf_ord cf (di_targets ?info)))]"
    using plan_of_type [OF attached_distinct [OF assms(1)] ch(1), of "cf_ord cf"] ch(2) assms(2) nb by simp
  moreover have "nc_ID (first_of_type ?chs t) \<in> cw_id ` set (attached d (al_ID a))"
    using first_of_type_in [OF ch(1)] ch(2) by auto
  moreover have "attached d (al_ID a) \<noteq> []" using assms(3) by auto
  ultimately show ?thesis
    using assms(6)
    by (intro exI [of _ "plan (cf_ord cf) ?chs"] exI [of _ "first_of_type ?chs t"]
        exI [of _ "cf_ord cf (di_targets ?info)"] conjI) (erule dispatch_is_plan, simp_all)
qed

theorem dispatch_reaches_named_users_witness:
  "\<exists>entries ch us. dispatchAlert cf1 ''f1'' alert1 testPayload (db1 chans1, []) =
      run_plan cf1 alert1 ''f1'' (firing_payload alert1 ''f1'' testPayload) entries (db1 chans1, []) \<and>
    filter (\<lambda>e. nc_Type (fst e) = ''in_app'') entries = [(ch, Some us)] \<and> set us = {2, 3}"
proof -
  have att: "attached (db1 chans1) (al_ID alert1) = chans1" by code_simp
  have t: "is_dedup_type ''in_app''" by code_simp
  have in_app: "{c \<in> set chans1. cw_type c = ''in_app''} =
      {chan0 10 ''in_app'' (users_cfg [2]), chan0 11 ''in_app'' (users_cfg [3, 2])}"
    by (auto simp: chans1_def)
  have ids: "decode_user_ids (Some (cw_config (chan0 10 ''in_app'' (users_cfg [2])))) = [2]"
    "decode_user_ids (Some (cw_config (chan0 11 ''in_app'' (users_cfg [3, 2])))) = [3, 2]" by code_simp+
  have u: "(\<Union>c\<in>{c \<in> set chans1. cw_type c = ''in_app''}. set (decode_user_ids (Some (cw_config c)))) = {2, 3}"
    unfolding in_app by (auto simp: ids)
  have "\<exists>entries ch us. dispatchAlert cf1 ''f1'' alert1 testPayload (db1 chans1, []) =
      run_plan cf1 alert1 ''f1'' (firing_payload alert1 ''f1'' testPayload) entries (db1 chans1, []) \<and>
    filter (\<lambda>e. nc_Type (fst e) = ''in_app'') entries = [(ch, Some us)] \<and>
    nc_ID ch \<in> cw_id ` set (attached (db1 chans1) (al_ID alert1)) \<and>
    set us = (\<Union>c\<in>{c \<in> set (attached (db1 chans1) (al_ID alert1)). cw_type c = ''in_app''}. set (decode_user_ids (Some (cw_config c))))"
  proof (rule dispatch_reaches_named_users [OF db1_ok t, of "chan0 10 ''in_app'' (users_cfg [2])"])
    show "decode_user_ids (Some (cw_config c)) \<noteq> []"
      if "c \<in> set (attached (db1 chans1) (al_ID alert1))" "cw_type c = ''in_app''" for c
    proof -
      have "c \<in> {c \<in> set chans1. cw_type c = ''in_app''}" using that unfolding att by simp
      then show ?thesis unfolding in_app using ids by auto
    qed
    show "chan0 10 ''in_app'' (users_cfg [2]) \<in> set (attached (db1 chans1) (al_ID alert1))"
      unfolding att by (simp add: chans1_def)
  qed (simp_all add: cf1_def)
  then show ?thesis unfolding att u by blast
qed

text \<open>
  When one in-app (or push) channel of a rule addresses everybody but the first names users, the
  firing goes to the named users only: merging clears the override, and the dispatcher falls back to
  the first channel's own list.
\<close>

theorem dispatch_narrows_broadcast:
  assumes "db_ok d" "is_dedup_type t" "c \<in> set (attached d (al_ID a))" "cw_type c = t"
    and "decode_user_ids (Some (cw_config c)) = []"
    and "filter (\<lambda>c. cw_type c = t) (attached d (al_ID a)) = c1 # cs"
  shows "\<exists>entries ch. dispatchAlert cf f a p (d, []) = run_plan cf a f (firing_payload a f p) entries (d, []) \<and>
    filter (\<lambda>e. nc_Type (fst e) = t) entries = [(ch, None)] \<and> nc_ID ch = cw_id c1 \<and>
    dispatch_targets ch None = decode_user_ids (Some (cw_config c1))"
proof -
  let ?chs = "map (scanChannel d) (attached d (al_ID a))"
  have ch: "scanChannel d c \<in> set ?chs" "nc_Type (scanChannel d c) = t" using assms(3,4) by simp_all
  have b: "di_broadcast (dedup_of ?chs t)" using assms(3,4,5) by (auto simp: dedup_of_def merge_broadcast)
  have first: "first_of_type ?chs t = scanChannel d c1"
    using assms(6) by (simp add: first_of_type_def filter_map comp_def)
  have "filter (\<lambda>e. nc_Type (fst e) = t) (plan (cf_ord cf) ?chs) = [(scanChannel d c1, None)]"
    using plan_of_type [OF attached_distinct [OF assms(1)] ch(1), of "cf_ord cf"] ch(2) assms(2) b first by simp
  moreover have "dispatch_targets (scanChannel d c1) None = decode_user_ids (Some (cw_config c1))"
    by (simp add: dispatch_targets_def)
  moreover have "attached d (al_ID a) \<noteq> []" using assms(3) by auto
  ultimately show ?thesis
    by (intro exI [of _ "plan (cf_ord cf) ?chs"] exI [of _ "scanChannel d c1"] conjI)
      (erule dispatch_is_plan, simp_all)
qed

definition chans2 :: "channel_row list" where
  "chans2 = [chan0 10 ''in_app'' (users_cfg [2]), chan0 11 ''in_app'' (users_cfg [])]"

theorem dispatch_narrows_broadcast_witness:
  "\<exists>entries ch. dispatchAlert cf1 ''f1'' alert1 testPayload (db1 chans2, []) =
      run_plan cf1 alert1 ''f1'' (firing_payload alert1 ''f1'' testPayload) entries (db1 chans2, []) \<and>
    filter (\<lambda>e. nc_Type (fst e) = ''in_app'') entries = [(ch, None)] \<and> dispatch_targets ch None = [2]"
proof -
  have ok: "db_ok (db1 chans2)"
    by (simp add: db_ok_defs db1_def chans2_def chan0_def row1_def blank_alert_row_def empty_db_def alert_ids_def channel_ids_def)
  have att: "attached (db1 chans2) (al_ID alert1) = chans2" by code_simp
  have "filter (\<lambda>c. cw_type c = ''in_app'') (attached (db1 chans2) (al_ID alert1)) =
      chan0 10 ''in_app'' (users_cfg [2]) # [chan0 11 ''in_app'' (users_cfg [])]"
    unfolding att by (simp add: chans2_def chan0_def)
  moreover have "chan0 11 ''in_app'' (users_cfg []) \<in> set (attached (db1 chans2) (al_ID alert1))"
    unfolding att by (simp add: chans2_def)
  moreover have "is_dedup_type ''in_app''" "decode_user_ids (Some (cw_config (chan0 11 ''in_app'' (users_cfg [])))) = []"
    "decode_user_ids (Some (cw_config (chan0 10 ''in_app'' (users_cfg [2])))) = [2]" by code_simp+
  moreover have "cw_type (chan0 11 ''in_app'' (users_cfg [])) = ''in_app''" by (simp add: chan0_def)
  ultimately show ?thesis
    using dispatch_narrows_broadcast [OF ok, of "''in_app''" "chan0 11 ''in_app'' (users_cfg [])" alert1
        "chan0 10 ''in_app'' (users_cfg [2])" "[chan0 11 ''in_app'' (users_cfg [])]" cf1 "''f1''" testPayload]
    by metis
qed

section \<open>The history\<close>

text \<open>A run without faults stays one; what the delivery of a channel leaves alone.\<close>

definition clean :: "('d, 'a) sql \<Rightarrow> bool" where
  "clean m \<longleftrightarrow> (\<forall>d. snd (snd (m (d, []))) = [])"

lemma clean_stmt: "clean (stmt f)"
  by (simp add: clean_def stmt_def split: sum.split)

lemma clean_bind:
  fixes m :: "('d, 'a) sql"
  assumes "clean m" "\<And>x. clean (k x)"
  shows "clean (bind m k)"
  unfolding clean_def
proof
  fix d
  obtain r d' where "m (d, []) = (r, d', [])"
    using assms(1) [unfolded clean_def, rule_format, of d] by (cases "m (d, [])") auto
  with assms(2) show "snd (snd (bind m k (d, []))) = []" by (cases r) (auto simp: bind_def clean_def)
qed

lemma clean_attempt:
  fixes m :: "('d, 'a) sql"
  assumes "clean m" "\<And>r. clean (k r)"
  shows "clean (attempt m k)"
  unfolding clean_def
proof
  fix d
  obtain r d' where "m (d, []) = (r, d', [])"
    using assms(1) [unfolded clean_def, rule_format, of d] by (cases "m (d, [])") auto
  with assms(2) show "snd (snd (attempt m k (d, []))) = []" by (auto simp: attempt_def clean_def)
qed

lemma clean_simple: "clean (ret x)" "clean (throw e)" "clean (query q)" "clean (send_out out)"
  by (simp_all add: clean_def send_out_def)

lemma clean_cases:
  "clean m \<Longrightarrow> clean m' \<Longrightarrow> clean (if b then m else m')"
  "(\<And>x y. clean (k x y)) \<Longrightarrow> clean (case p of (x, y) \<Rightarrow> k x y)"
  "(\<And>y. clean (k1 y)) \<Longrightarrow> (\<And>z. clean (l z)) \<Longrightarrow> clean (case u of Inl y \<Rightarrow> k1 y | Inr z \<Rightarrow> l z)"
  "clean m \<Longrightarrow> (\<And>y. clean (k2 y)) \<Longrightarrow> clean (case v of None \<Rightarrow> m | Some y \<Rightarrow> k2 y)"
  by (simp, (cases p, simp), (cases u, simp_all)[1], (cases v, simp_all)[1])

lemmas clean_intros = clean_stmt clean_bind clean_attempt clean_simple clean_cases

lemma clean_push_each: "clean (push_each cf p ss res)"
  by (induction cf p ss res rule: push_each.induct)
    (auto simp: sendWebPush_def DeletePushSubscription_def simp del: ret_ok intro!: clean_intros)

lemmas delivery_defs = deliver_inapp_def CreateInAppNotification_def sendPushChannel_def dispatchPush_def
  GetAllPushSubscriptions_def GetOrCreateVAPIDKeys_def getSettingRaw_def insert_setting_once_def
  deliver_external_def DecryptChannelSecret_def BuildNotifier_def GetSetting_def Send_def Let_def

definition delivery :: "config \<Rightarrow> int \<Rightarrow> NotificationChannel \<Rightarrow> Payload \<Rightarrow> int list \<Rightarrow> (notifdb, (string \<times> string) \<times> int option) sql" where
  "delivery cf i ch p targets =
     (if nc_Type ch = ChannelTypeInApp then deliver_inapp cf i p targets
      else if nc_Type ch = ChannelTypePush then bind (sendPushChannel cf p targets) (\<lambda>r. ret (r, None))
      else bind (deliver_external cf ch p) (\<lambda>r. ret (r, None)))"

lemma clean_delivery: "clean (delivery cf i ch p ts)"
  unfolding delivery_def delivery_defs by (intro clean_intros clean_push_each)

text \<open>A program that always answers: a delivery ends with a status, never with an error.\<close>

definition total :: "('d, 'a) sql \<Rightarrow> bool" where
  "total m \<longleftrightarrow> (\<forall>s. \<exists>x s'. m s = (Inr x, s'))"

lemma total_bind:
  fixes m :: "('d, 'a) sql"
  assumes "total m" "\<And>x. total (k x)"
  shows "total (bind m k)"
  unfolding total_def
proof
  fix s
  obtain x s' where "m s = (Inr x, s')" using assms(1) unfolding total_def by blast
  moreover obtain y s'' where "k x s' = (Inr y, s'')" using assms(2) [of x] unfolding total_def by blast
  ultimately show "\<exists>x s'. bind m k s = (Inr x, s')" by (simp add: bind_def)
qed

lemma total_attempt: "(\<And>r. total (k r)) \<Longrightarrow> total (attempt m k)"
  by (auto simp: total_def attempt_def split: prod.split)

lemma total_simple: "total (ret x)" "total (send_out out)"
  by (simp_all add: total_def send_out_def)

lemma total_cases:
  "total m \<Longrightarrow> total m' \<Longrightarrow> total (if b then m else m')"
  "(\<And>x y. total (k x y)) \<Longrightarrow> total (case p of (x, y) \<Rightarrow> k x y)"
  "(\<And>y. total (k1 y)) \<Longrightarrow> (\<And>z. total (l z)) \<Longrightarrow> total (case u of Inl y \<Rightarrow> k1 y | Inr z \<Rightarrow> l z)"
  "total m \<Longrightarrow> (\<And>y. total (k2 y)) \<Longrightarrow> total (case v of None \<Rightarrow> m | Some y \<Rightarrow> k2 y)"
  by (simp, (cases p, simp), (cases u, simp_all)[1], (cases v, simp_all)[1])

lemmas total_intros = total_bind total_attempt total_simple total_cases

lemma total_push_each: "total (push_each cf p ss res)"
  by (induction cf p ss res rule: push_each.induct)
    (auto simp: sendWebPush_def simp del: ret_ok intro!: total_intros)

lemma total_delivery: "total (delivery cf i ch p ts)"
  unfolding delivery_def deliver_inapp_def sendPushChannel_def dispatchPush_def deliver_external_def
    BuildNotifier_def GetSetting_def Send_def Let_def
  by (intro total_intros total_push_each)

text \<open>Delivering touches neither the rules, the channels nor the history.\<close>

definition frame :: "notifdb \<Rightarrow> notifdb \<Rightarrow> bool" where
  "frame d0 d \<longleftrightarrow> db_log d = db_log d0 \<and> alert_ids d = alert_ids d0 \<and> channel_ids d = channel_ids d0"

lemma frame_write [simp]:
  "frame d0 (d\<lparr>db_settings := x1\<rparr>) = frame d0 d" "frame d0 (d\<lparr>db_subs := x2\<rparr>) = frame d0 d"
  "frame d0 (d\<lparr>db_sent := x3\<rparr>) = frame d0 d" "frame d0 (d\<lparr>db_inapp := x4\<rparr>) = frame d0 d"
  "frame d0 (d\<lparr>db_serial := x5\<rparr>) = frame d0 d"
  by (simp_all add: frame_def)

lemma frame_send_out: "keeps (frame d0) (send_out x)"
  by (simp add: keeps_def send_out_def)

lemma frame_push_each: "keeps (frame d0) (push_each cf p ss res)"
  by (induction cf p ss res rule: push_each.induct)
    (auto simp: sendWebPush_def DeletePushSubscription_def simp del: ret_ok intro!: keeps_intros keeps_write frame_send_out)

lemma frame_inapp: "keeps (frame d0) (stmt (insert_inapp a t m sev ty us))"
  by (rule keeps_stmt) (auto simp: insert_inapp_def split: if_splits)

lemma frame_delivery: "keeps (frame d0) (delivery cf i ch p ts)"
  unfolding delivery_def delivery_defs
  by (intro keeps_intros keeps_write frame_push_each frame_inapp frame_send_out) simp_all

lemma dispatchOne_delivery:
  "dispatchOne cf i nm f ch p us = bind (delivery cf i ch p (dispatch_targets ch us)) (\<lambda>(result, inAppID).
     attempt (LogNotification (log_entry i nm f ch p result inAppID)) (\<lambda>_. ret ()))"
  by (simp add: dispatchOne_def delivery_def Let_def)

definition row_of_firing :: "Alert \<Rightarrow> string \<Rightarrow> Payload \<Rightarrow> NotificationLogEntry \<Rightarrow> bool" where
  "row_of_firing a f p row \<longleftrightarrow> nl_AlertID row = Some (al_ID a) \<and> nl_AlertName row = al_Name a \<and> nl_FiringID row = f \<and>
     nl_TriggerLog row = pl_TriggerLog p \<and> nl_MatchedConditions row = pl_MatchedConditions p \<and>
     nl_RuleType row = pl_AlertRuleType p \<and> nl_AuditLogRef row = None"

lemma dispatchOne_logs:
  assumes "al_ID a \<in> alert_ids d" "nc_ID ch \<in> channel_ids d"
  shows "\<exists>d' row. dispatchOne cf (al_ID a) (al_Name a) f ch p us (d, []) = (Inr (), d', []) \<and>
    db_log d' = db_log d @ [row] \<and> alert_ids d' = alert_ids d \<and> channel_ids d' = channel_ids d \<and>
    row_of_firing a f p row \<and> nl_ChannelID row = Some (nc_ID ch)"
proof -
  let ?m = "delivery cf (al_ID a) ch p (dispatch_targets ch us)"
  obtain x s1 where x: "?m (d, []) = (Inr x, s1)" using total_delivery unfolding total_def by blast
  then obtain d1 where s1: "s1 = (d1, [])"
    using clean_delivery [unfolded clean_def, rule_format, of cf "al_ID a" ch p "dispatch_targets ch us" d]
    by (cases s1) simp
  have fr: "frame d d1"
    using keepsD [OF frame_delivery, of d "(d, [])" cf "al_ID a" ch p "dispatch_targets ch us"] x s1
    by (simp add: frame_def)
  obtain result inAppID where r: "x = (result, inAppID)" by (cases x)
  let ?e = "log_entry (al_ID a) (al_Name a) f ch p result inAppID"
  let ?row = "?e\<lparr>nl_ID := db_serial d1, nl_CreatedAt := db_now d1\<rparr>"
  have "insert_log ?e d1 = Inr ((), d1\<lparr>db_log := db_log d1 @ [?row], db_serial := db_serial d1 + 1\<rparr>)"
    using fr assms by (simp add: insert_log_def log_entry_def fk_ok_def frame_def)
  then have "dispatchOne cf (al_ID a) (al_Name a) f ch p us (d, []) =
      (Inr (), d1\<lparr>db_log := db_log d1 @ [?row], db_serial := db_serial d1 + 1\<rparr>, [])"
    by (simp add: dispatchOne_delivery bind_def x s1 r attempt_def LogNotification_def)
  then show ?thesis
    using fr by (auto simp: frame_def row_of_firing_def log_entry_def)
qed

lemma run_plan_logs:
  assumes "al_ID a \<in> alert_ids d" "\<And>e. e \<in> set es \<Longrightarrow> nc_ID (fst e) \<in> channel_ids d"
  shows "\<exists>d' rows. run_plan cf a f p es (d, []) = (Inr (), d', []) \<and> db_log d' = db_log d @ rows \<and>
    list_all (row_of_firing a f p) rows \<and> map nl_ChannelID rows = map (\<lambda>e. Some (nc_ID (fst e))) es"
  using assms
proof (induction es arbitrary: d)
  case Nil
  then show ?case by (simp add: run_plan_def)
next
  case (Cons e es)
  obtain ch us where e: "e = (ch, us)" by (cases e)
  from dispatchOne_logs [OF Cons.prems(1), of ch cf f p us] Cons.prems(2) [of e] e obtain d1 row where
    one: "dispatchOne cf (al_ID a) (al_Name a) f ch p us (d, []) = (Inr (), d1, [])"
    "db_log d1 = db_log d @ [row]" "alert_ids d1 = alert_ids d" "channel_ids d1 = channel_ids d"
    "row_of_firing a f p row" "nl_ChannelID row = Some (nc_ID ch)" by auto
  from Cons.IH [of d1] Cons.prems one obtain d' rows where
    rest: "run_plan cf a f p es (d1, []) = (Inr (), d', [])" "db_log d' = db_log d1 @ rows"
    "list_all (row_of_firing a f p) rows" "map nl_ChannelID rows = map (\<lambda>e. Some (nc_ID (fst e))) es" by auto
  have "run_plan cf a f p (e # es) (d, []) = (Inr (), d', [])"
    using rest(1) one(1) by (simp add: run_plan_def e bind_def)
  with rest one e show ?case by (intro exI [of _ d'] exI [of _ "row # rows"]) simp
qed

lemma plan_channels: "e \<in> set (plan ord all) \<Longrightarrow> fst e \<in> set all"
  by (auto simp: plan_def plan_entry_def Let_def split: if_splits)

text \<open>
  When no statement fails, a firing of an existing rule leaves one history row per channel it
  went to, in order, all under the firing's id with the rule's name, the triggering log and the matched
  conditions. None of the rows carries the audit reference of the payload, which the table has a
  column for.
\<close>

theorem dispatch_history:
  assumes "db_ok d" "al_ID a \<in> alert_ids d" "attached d (al_ID a) \<noteq> []"
  shows "\<exists>d' rows. dispatchAlert cf f a p (d, []) = (Inr (), d', []) \<and> db_log d' = db_log d @ rows \<and>
    list_all (row_of_firing a f (firing_payload a f p)) rows \<and>
    map nl_ChannelID rows =
      map (\<lambda>e. Some (nc_ID (fst e))) (plan (cf_ord cf) (map (scanChannel d) (attached d (al_ID a))))"
proof -
  have "nc_ID (fst e) \<in> channel_ids d" if "e \<in> set (plan (cf_ord cf) (map (scanChannel d) (attached d (al_ID a))))" for e
    using plan_channels [OF that] by (auto simp: attached_def channel_ids_def)
  from run_plan_logs [OF assms(2) this] dispatch_is_plan [OF assms(3)] show ?thesis by simp
qed

theorem dispatch_history_witness:
  "\<exists>d' rows. dispatchAlert cf1 ''f1'' alert1 testPayload (db1 chans1, []) = (Inr (), d', []) \<and>
    db_log d' = rows \<and> list_all (\<lambda>row. nl_FiringID row = ''f1'' \<and> nl_AuditLogRef row = None) rows \<and>
    map nl_ChannelID rows = [Some 10, Some 12, Some 13]"
proof -
  have att: "attached (db1 chans1) (al_ID alert1) = chans1" by code_simp
  have ids: "al_ID alert1 \<in> alert_ids (db1 chans1)" by code_simp
  have plan: "map (\<lambda>e. Some (nc_ID (fst e))) (plan (cf_ord cf1) (map (scanChannel (db1 chans1)) chans1)) =
      [Some 10, Some 12, Some 13]" by code_simp
  have "db_log (db1 chans1) = []" by code_simp
  moreover have "attached (db1 chans1) (al_ID alert1) \<noteq> []" unfolding att by (simp add: chans1_def)
  ultimately show ?thesis
    using dispatch_history [OF db1_ok ids, of cf1 "''f1''" testPayload] unfolding att plan
    by (auto simp: row_of_firing_def list_all_iff)
qed

end
