(* ===== verification/BellTheorems.thy ===== *)
theory BellTheorems
  imports NotifyTheorems
begin

text \<open>
  Who sees what: the in-app list, the live stream and the bell; and who may change what: the rights
  the handlers enforce on alert rules and channels.
\<close>

section \<open>List and stream\<close>

lemma IsAdminOnly_iff: "IsAdminOnlyRuleType t \<longleftrightarrow> t \<in> set AdminOnlyRuleTypes"
proof -
  have "any_eq t ts \<longleftrightarrow> t \<in> set ts" for ts by (induction ts) auto
  then show ?thesis by (simp add: IsAdminOnlyRuleType_def)
qed

text \<open>
  (C11) The live stream and the list agree: the notification a delivery publishes is written to a
  connected user's stream exactly when the row it stored is in that user's list, for every user,
  administrator or not.
\<close>

theorem stream_agrees_with_list:
  assumes "deliver_inapp cf a p us (d, fs) = (Inr (res, Some i), d', fs')" "cf_onInApp cf"
  shows "\<exists>row n. db_inapp d' = db_inapp d @ [row] \<and> db_sent d' = db_sent d @ [HubPublish n] \<and>
    scan_inapp row = Some n \<and> (\<forall>isAdmin u. stream_writes isAdmin u n \<longleftrightarrow> inapp_visible isAdmin u row)"
proof -
  let ?row = "\<lparr>iw_id = db_serial d, iw_alert_id = Some a, iw_title = pl_Title p, iw_message = pl_Message p,
    iw_severity = pl_Severity p, iw_alert_rule_type = pl_AlertRuleType p,
    iw_target_user_ids = (if us \<noteq> [] then Some us else None), iw_created_at = db_now d\<rparr>"
  let ?n = "\<lparr>ia_ID = db_serial d, ia_AlertID = a, ia_Title = pl_Title p, ia_Message = pl_Message p,
    ia_Severity = pl_Severity p, ia_AlertRuleType = pl_AlertRuleType p, ia_TargetUserIds = us, ia_CreatedAt = db_now d\<rparr>"
  have "db_inapp d' = db_inapp d @ [?row] \<and> db_sent d' = db_sent d @ [HubPublish ?n]"
    using assms
    by (auto simp: deliver_inapp_def attempt_def CreateInAppNotification_def stmt_def insert_inapp_def bind_def
        send_out_def split: if_splits)
  moreover have "scan_inapp ?row = Some ?n" by (simp add: scan_inapp_def)
  moreover have "\<forall>isAdmin u. stream_writes isAdmin u ?n \<longleftrightarrow> inapp_visible isAdmin u ?row"
    by (auto simp: stream_writes_def inapp_visible_def IsAdminOnly_iff Let_def)
  ultimately show ?thesis by blast
qed

theorem stream_agrees_with_list_witness:
  "\<exists>res i d' row n. deliver_inapp cf1 7 testPayload [2] (db1 chans1, []) = (Inr (res, Some i), d', []) \<and>
    db_inapp d' = db_inapp (db1 chans1) @ [row] \<and> scan_inapp row = Some n \<and> stream_writes False 2 n = inapp_visible False 2 row"
proof -
  obtain res d' where run: "deliver_inapp cf1 7 testPayload [2] (db1 chans1, []) = (Inr (res, Some 30), d', [])"
  proof -
    have *: "fst (deliver_inapp cf1 7 testPayload [2] (db1 chans1, [])) = Inr ((''sent'', []), Some 30)"
      "snd (snd (deliver_inapp cf1 7 testPayload [2] (db1 chans1, []))) = []" by code_simp+
    show ?thesis
      by (rule that [of "(''sent'', [])" "fst (snd (deliver_inapp cf1 7 testPayload [2] (db1 chans1, [])))"])
        (use * in \<open>metis prod.collapse\<close>)
  qed
  moreover have "cf_onInApp cf1" by (simp add: cf1_def)
  ultimately show ?thesis using stream_agrees_with_list [OF run] by blast
qed

section \<open>The bell\<close>

definition last_read :: "notifdb \<Rightarrow> int \<Rightarrow> int" where
  "last_read d u = (case db_last_read d u of None \<Rightarrow> 0 | Some i \<Rightarrow> i)"

definition is_admin :: "notifdb \<Rightarrow> int \<Rightarrow> bool" where
  "is_admin d u = (case db_users d u of None \<Rightarrow> False | Some x \<Rightarrow> snd x)"

definition unread :: "notifdb \<Rightarrow> int \<Rightarrow> inapp_row list" where
  "unread d u = filter (\<lambda>n. iw_id n > last_read d u \<and> inapp_visible (is_admin d u) u n) (db_inapp d)"

definition last_unread :: "notifdb \<Rightarrow> int \<Rightarrow> int" where
  "last_unread d u = (if unread d u = [] then last_read d u else Max (iw_id ` set (unread d u)))"

lemma IsUserAdmin_clean [simp]: "IsUserAdmin u (d, []) = (Inr (is_admin d u), d, [])"
  by (auto simp: IsUserAdmin_def attempt_def is_admin_def split: option.split)

lemma GetLastReadID_clean [simp]: "GetLastReadID u (d, []) = (Inr (last_read d u), d, [])"
  by (simp add: GetLastReadID_def last_read_def)

lemma unread_pos: "db_ok d \<Longrightarrow> unread d u \<noteq> [] \<Longrightarrow> Max (iw_id ` set (unread d u)) > 0"
proof -
  assume ok: "db_ok d" and ne: "unread d u \<noteq> []"
  have "Max (iw_id ` set (unread d u)) \<in> iw_id ` set (unread d u)" using ne by (intro Max_in) auto
  then show ?thesis using ok by (auto simp: unread_def db_ok_defs)
qed

lemma GetUnread_clean:
  "db_ok d \<Longrightarrow> GetUnreadNotificationCount u (is_admin d u) (d, []) = (Inr (int (length (unread d u)), last_unread d u), d, [])"
  using unread_pos [of d u]
  by (cases "unread d u = []") (simp_all add: GetUnreadNotificationCount_def bind_def unread_def [symmetric] last_unread_def Let_def)

definition bell_items :: "notifdb \<Rightarrow> int \<Rightarrow> sqlerr + InAppNotification list" where
  "bell_items d u = scan_all scan_inapp (take 20 (order_desc iw_id (unread d u)))"

definition bell_answer :: "config \<Rightarrow> notifdb \<Rightarrow> int \<Rightarrow> bell resp" where
  "bell_answer cf d u =
     (case bell_items d u of
        Inl err \<Rightarrow> Failure 500 ''notifications.loadFailed''
      | Inr items \<Rightarrow> Answer 200 \<lparr>be_enabled = (case db_settings d ''notifications_enabled'' of None \<Rightarrow> True | Some v \<Rightarrow> v = ''true''),
          be_unread_count = int (length (unread d u)), be_last_id = last_unread d u, be_notifications = items\<rparr>)"

text \<open>The bell, when no statement fails.\<close>

lemma GetNotifications_clean:
  assumes "db_ok d" "cx_user_id c = Some u"
  shows "GetNotifications cf c (d, []) = (Inr (bell_answer cf d u), d, [])"
proof -
  have items: "GetInAppNotifications (last_read d u) 20 (is_admin d u) u (d, []) = (bell_items d u, d, [])"
    by (simp add: GetInAppNotifications_def bell_items_def unread_def)
  have setting: "GetSetting (cf_Decrypt cf) ''notifications_enabled'' ''true'' (d, []) =
      (Inr (case db_settings d ''notifications_enabled'' of None \<Rightarrow> ''true'' | Some v \<Rightarrow> v), d, [])"
    by (simp add: GetSetting_def attempt_def split: option.split)
  have u: "GetInt64_user c = u" using assms(2) by (simp add: GetInt64_user_def)
  show ?thesis
    unfolding GetNotifications_def Let_def u
    by (simp add: bind_def attempt_def GetUnread_clean [OF assms(1)] items bell_error_def
        bell_answer_def setting split: sum.split option.split)
qed

lemma unread_after_read:
  assumes "unread d u \<noteq> []" "db_last_read d' u = Some (max (last_read d u) (last_unread d u))"
    and "db_inapp d' = db_inapp d" "db_users d' = db_users d"
  shows "unread d' u = []"
proof -
  have "iw_id n \<le> last_unread d u" if "n \<in> set (unread d u)" for n
    using that assms(1) by (auto simp: last_unread_def)
  then have "\<not> (iw_id n > last_read d' u \<and> inapp_visible (is_admin d' u) u n)" if "n \<in> set (db_inapp d')" for n
    using that assms by (fastforce simp: unread_def last_read_def [of d'] is_admin_def)
  then show ?thesis unfolding unread_def [of d'] by (rule filter_none)
qed

text \<open>
  Marking everything read with the id the bell reported empties it for good: the next load, with
  nothing new published, shows no unread notification and an empty list.
\<close>

theorem mark_read_empties_bell:
  assumes "db_ok d" "cx_user_id c = Some u" "db_users d u \<noteq> None"
    and "GetNotifications cf c (d, []) = (Inr (Answer 200 b), d, [])" "be_unread_count b > 0"
  shows "\<exists>d'. MarkNotificationsRead_handler c (Some (be_last_id b)) (d, []) = (Inr (Answer 200 ''marked read''), d', []) \<and>
    GetNotifications cf c (d', []) =
      (Inr (Answer 200 (b\<lparr>be_unread_count := 0, be_notifications := []\<rparr>)), d', [])"
proof -
  have b: "be_last_id b = last_unread d u" "unread d u \<noteq> []"
    "be_enabled b = (case db_settings d ''notifications_enabled'' of None \<Rightarrow> True | Some v \<Rightarrow> v = ''true'')"
    using assms(4,5) by (auto simp: GetNotifications_clean [OF assms(1,2)] bell_answer_def split: sum.splits)
  have pos: "last_unread d u > 0" using unread_pos [OF assms(1) b(2)] b(2) by (simp add: last_unread_def)
  have gt: "last_unread d u > last_read d u"
  proof -
    have "Max (iw_id ` set (unread d u)) \<in> iw_id ` set (unread d u)" using b(2) by (intro Max_in) auto
    then obtain n where "n \<in> set (unread d u)" "Max (iw_id ` set (unread d u)) = iw_id n" by auto
    then show ?thesis using b(2) by (simp add: last_unread_def) (simp add: unread_def)
  qed
  let ?d = "d\<lparr>db_last_read := (db_last_read d)(u \<mapsto>
       (case db_last_read d u of None \<Rightarrow> last_unread d u | Some i \<Rightarrow> max i (last_unread d u)))\<rparr>"
  have lr: "db_last_read ?d u = Some (max (last_read d u) (last_unread d u))"
    using pos by (simp add: last_read_def split: option.split)
  have empty: "unread ?d u = []" by (rule unread_after_read [OF b(2) lr]) simp_all
  have last: "last_unread ?d u = last_unread d u"
    unfolding last_unread_def [of ?d] last_read_def [of ?d] empty lr using gt by simp
  have mark: "MarkNotificationsRead_handler c (Some (be_last_id b)) (d, []) = (Inr (Answer 200 ''marked read''), ?d, [])"
    using assms(2,3) pos
    by (simp add: MarkNotificationsRead_handler_def b(1) attempt_def MarkNotificationsRead_def GetInt64_user_def)
  have "bell_answer cf ?d u = Answer 200 (b\<lparr>be_unread_count := 0, be_notifications := []\<rparr>)"
    using b(1,3) last by (simp add: bell_answer_def bell_items_def empty order_desc_def)
  then have "GetNotifications cf c (?d, []) =
      (Inr (Answer 200 (b\<lparr>be_unread_count := 0, be_notifications := []\<rparr>)), ?d, [])"
    using GetNotifications_clean [OF unrelated_ok(2) [OF assms(1)] assms(2)] by simp
  with mark show ?thesis by blast
qed

definition inapp0 :: inapp_row where
  "inapp0 = \<lparr>iw_id = 21, iw_alert_id = Some 7, iw_title = ''t'', iw_message = ''m'', iw_severity = ''info'',
     iw_alert_rule_type = RuleTypeAuditLog, iw_target_user_ids = Some [2], iw_created_at = 0\<rparr>"

definition db2 :: notifdb where
  "db2 = (db1 chans1)\<lparr>db_inapp := [inapp0]\<rparr>"

lemma db2_ok: "db_ok db2"
proof -
  have "7 \<in> alert_ids (db1 chans1)" "db_inapp (db1 chans1) = []" "db_serial (db1 chans1) = 30" by code_simp+
  with db1_ok show ?thesis by (simp add: db_ok_defs db2_def inapp0_def fk_ok_def)
qed

definition ctx2 :: ctx where
  "ctx2 = \<lparr>cx_user_id = Some 2, cx_role = Some ''viewer''\<rparr>"

theorem mark_read_empties_bell_witness:
  "\<exists>b d'. GetNotifications cf1 ctx2 (db2, []) = (Inr (Answer 200 b), db2, []) \<and> be_unread_count b = 1 \<and>
    GetNotifications cf1 ctx2 (d', []) =
      (Inr (Answer 200 (b\<lparr>be_unread_count := 0, be_notifications := []\<rparr>)), d', [])"
proof -
  have c: "cx_user_id ctx2 = Some 2" "db_users db2 2 \<noteq> None" by code_simp+
  obtain b where b: "bell_answer cf1 db2 2 = Answer 200 b" "be_unread_count b = 1"
  proof -
    have "(case bell_answer cf1 db2 2 of Answer st b \<Rightarrow> st = 200 \<and> be_unread_count b = 1 | Failure st k \<Rightarrow> False)"
      by code_simp
    then show ?thesis using that by (auto split: resp.splits)
  qed
  have run: "GetNotifications cf1 ctx2 (db2, []) = (Inr (Answer 200 b), db2, [])"
    using GetNotifications_clean [OF db2_ok c(1), of cf1] b(1) by simp
  from mark_read_empties_bell [OF db2_ok c run] b(2) run show ?thesis by auto
qed

text \<open>
  Deleting a rule empties the rule reference of its in-app notifications, and the bell of every
  user who has one of them unread then answers with an internal error instead of the list.
\<close>

theorem delete_rule_breaks_bell:
  assumes "db_ok d" "cx_user_id c = Some u" "n \<in> set (unread d u)" "iw_alert_id n = Some i" "length (unread d u) \<le> 20"
  shows "\<exists>d'. DeleteAlert i (d, []) = (Inr (), d', []) \<and>
    GetNotifications cf c (d', []) = (Inr (Failure 500 ''notifications.loadFailed''), d', [])"
proof -
  let ?f = "\<lambda>n. n\<lparr>iw_alert_id := unlink i (iw_alert_id n)\<rparr>"
  obtain d' where d': "DeleteAlert i (d, []) = (Inr (), d', [])" "db_inapp d' = map ?f (db_inapp d)"
    "db_last_read d' = db_last_read d" "db_users d' = db_users d" by (simp add: DeleteAlert_def)
  have ok: "db_ok d'" using keepsD [OF keeps_DeleteAlert, of "(d, [])" i] assms(1) d'(1) by simp
  have vis: "inapp_visible b u (?f x) = inapp_visible b u x" for b x by (simp add: inapp_visible_def split: option.split)
  have un: "unread d' u = map ?f (unread d u)"
    by (simp add: unread_def last_read_def is_admin_def d' filter_map comp_def vis)
  have null: "?f n \<in> set (take 20 (order_desc iw_id (unread d' u)))" "scan_inapp (?f n) = None"
    using assms(3-5) by (auto simp: un order_desc_def scan_inapp_def unlink_def)
  have "x \<in> set xs \<Longrightarrow> scan_inapp x = None \<Longrightarrow> scan_all scan_inapp xs = Inl ScanErr" for x xs
    by (induction xs) (auto split: option.split)
  with null have "bell_items d' u = Inl ScanErr" by (simp add: bell_items_def)
  then show ?thesis using GetNotifications_clean [OF ok assms(2)] d'(1) by (simp add: bell_answer_def)
qed

theorem delete_rule_breaks_bell_witness:
  "\<exists>d'. DeleteAlert 7 (db2, []) = (Inr (), d', []) \<and>
    GetNotifications cf1 ctx2 (d', []) = (Inr (Failure 500 ''notifications.loadFailed''), d', [])"
proof (rule delete_rule_breaks_bell [OF db2_ok])
  show "cx_user_id ctx2 = Some 2" by (simp add: ctx2_def)
  have "unread db2 2 = [inapp0]" by code_simp
  then show "inapp0 \<in> set (unread db2 2)" "length (unread db2 2) \<le> 20" by simp_all
  show "iw_alert_id inapp0 = Some 7" by (simp add: inapp0_def)
qed

section \<open>Rights on alert rules\<close>

lemma GetAlert_type:
  assumes "GetAlert i (d, fs) = (Inr a, s')" "r \<in> set (db_alerts d)" "aw_id r = i" "db_ok d"
  shows "al_RuleType a = aw_rule_type r"
proof -
  let ?q = "\<lambda>d. case filter (\<lambda>r. aw_id r = i) (db_alerts d) of [] \<Rightarrow> Inl NoRows | r # rs \<Rightarrow> Inr (scanAlert r)"
  obtain a0 s1 where q: "query ?q (d, fs) = (Inr a0, s1)"
    "bind (attachChannelIDs [a0]) (\<lambda>as. bind (attachFieldConditions as) (\<lambda>as. ret (hd as))) s1 = (Inr a, s')"
    using assms(1) by (auto simp: GetAlert_def bind_def [of "query _"] split: prod.splits sum.splits)
  have "length (filter (\<lambda>r. aw_id r = i) (db_alerts d)) \<le> 1"
    using assms(4) by (intro filter_same_key [where k = aw_id and i = i]) (auto simp: db_ok_defs distinct_map_filter_key)
  moreover have "r \<in> set (filter (\<lambda>r. aw_id r = i) (db_alerts d))" using assms(2,3) by simp
  ultimately have "filter (\<lambda>r. aw_id r = i) (db_alerts d) = [r]" by (cases "filter (\<lambda>r. aw_id r = i) (db_alerts d)") auto
  then have a0: "a0 = scanAlert r"
    using q(1) by (auto simp: query_def stmt_def split: if_splits)
  have "al_RuleType a = al_RuleType a0"
    using q(2) by (auto simp: attachChannelIDs_def attachFieldConditions_def bind_def query_def stmt_def split: if_splits)
  then show ?thesis by (simp add: a0 scanAlert_def)
qed

lemma IsUserAdmin_false:
  assumes "\<not> is_admin d u"
  shows "\<exists>fs'. IsUserAdmin u (d, fs) = (Inr False, d, fs')"
  using assms by (auto simp: IsUserAdmin_def attempt_def query_def stmt_def is_admin_def split: option.splits)

lemma adminOnlyDenied_yes:
  assumes "\<not> is_admin d u" "cx_user_id c = Some u" "IsAdminOnlyRuleType t"
  shows "\<exists>fs'. adminOnlyDenied t c (d, fs) = (Inr True, d, fs')"
proof -
  obtain fs' where "IsUserAdmin u (d, fs) = (Inr False, d, fs')" using IsUserAdmin_false [OF assms(1)] by blast
  with assms(2,3) show ?thesis by (simp add: adminOnlyDenied_def bind_def GetInt64_user_def)
qed

lemma reads_keep: "keeps (\<lambda>d. d = d0) (GetAlert i)" "keeps (\<lambda>d. d = d0) (IsUserAdmin u)"
  "keeps (\<lambda>d. d = d0) (GetNotificationChannel i)" "keeps (\<lambda>d. d = d0) (adminOnlyDenied t c)"
  unfolding GetAlert_def IsUserAdmin_def GetNotificationChannel_def attachChannelIDs_def attachFieldConditions_def
    adminOnlyDenied_def
  by (intro keeps_intros)+

lemma reads_same: "GetAlert i (d, fs) = (r, d', fs') \<Longrightarrow> d' = d"
  "adminOnlyDenied t c (d, fs) = (b, d', fs') \<Longrightarrow> d' = d"
  "GetNotificationChannel i (d, fs) = (x, d', fs') \<Longrightarrow> d' = d"
  using keepsD [OF reads_keep(1) [of d i], of "(d, fs)"] keepsD [OF reads_keep(4) [of d t c], of "(d, fs)"]
    keepsD [OF reads_keep(3) [of d i], of "(d, fs)"] by auto

text \<open>
  (C12) A user who is not an administrator cannot delete a rule of an admin-only type, whatever id the
  request names and whichever statements fail.
\<close>

theorem delete_needs_admin:
  assumes "db_ok d" "cx_user_id c = Some u" "\<not> is_admin d u"
    and "r \<in> set (db_alerts d)" "IsAdminOnlyRuleType (aw_rule_type r)"
  shows "r \<in> set (db_alerts (fst (snd (DeleteAlert_handler c param (d, fs)))))"
proof (cases "parseIDParam param")
  case None
  with assms(4) show ?thesis by (simp add: DeleteAlert_handler_def)
next
  case (Some i)
  obtain g d1 fs1 where g: "GetAlert i (d, fs) = (g, d1, fs1)" by (cases "GetAlert i (d, fs)")
  then have d1: "d1 = d" by (rule reads_same)
  show ?thesis
  proof (cases g)
    case (Inl err)
    with Some g d1 assms(4) show ?thesis by (simp add: DeleteAlert_handler_def attempt_def)
  next
    case (Inr a)
    obtain b d2 fs2 where b: "adminOnlyDenied (al_RuleType a) c (d, fs1) = (b, d2, fs2)"
      by (cases "adminOnlyDenied (al_RuleType a) c (d, fs1)")
    then have d2: "d2 = d" by (rule reads_same)
    have kept: "r \<in> set (db_alerts (fst (snd (DeleteAlert i (d, fs2)))))" if "aw_id r \<noteq> i"
      using assms(4) that by (auto simp: DeleteAlert_def stmt_def)
    have denied: "b = Inr True" if "aw_id r = i"
      using adminOnlyDenied_yes [OF assms(3,2), of "al_RuleType a" fs1] GetAlert_type [OF g [unfolded Inr] assms(4) that assms(1)]
        assms(5) b by auto
    show ?thesis
      using Some g d1 Inr b d2 assms(4) kept denied
      by (cases "aw_id r = i")
        (auto simp: DeleteAlert_handler_def attempt_def bind_def split: prod.splits sum.splits)
  qed
qed

definition ctx_viewer :: ctx where
  "ctx_viewer = \<lparr>cx_user_id = Some 2, cx_role = Some ''editor''\<rparr>"

theorem delete_needs_admin_witness:
  "row1 7 RuleTypeAuditLog \<in> set (db_alerts (fst (snd (DeleteAlert_handler ctx_viewer ''7'' (db1 chans1, [])))))"
proof (rule delete_needs_admin [OF db1_ok])
  show "cx_user_id ctx_viewer = Some 2" "\<not> is_admin (db1 chans1) 2" "row1 7 RuleTypeAuditLog \<in> set (db_alerts (db1 chans1))"
    "IsAdminOnlyRuleType (aw_rule_type (row1 7 RuleTypeAuditLog))" by code_simp+
qed

text \<open>
  Requests on rules in any order, each with the statements that fail in it, and the firings in between.
\<close>

datatype rule_event =
    RCreate ctx "AlertRequest option"
  | RUpdate ctx string "AlertRequest option"
  | RDelete ctx string
  | RFired int

fun rule_step :: "rule_event \<Rightarrow> bool list \<Rightarrow> notifdb \<Rightarrow> notifdb" where
  "rule_step (RCreate c body) fs d = fst (snd (CreateAlert_handler c body (d, fs)))"
| "rule_step (RUpdate c param body) fs d = fst (snd (UpdateAlert_handler c param body (d, fs)))"
| "rule_step (RDelete c param) fs d = fst (snd (DeleteAlert_handler c param (d, fs)))"
| "rule_step (RFired i) fs d = fst (snd (MarkAlertFired_db i (d, fs)))"

fun caller :: "rule_event \<Rightarrow> ctx option" where
  "caller (RCreate c body) = Some c"
| "caller (RUpdate c param body) = Some c"
| "caller (RDelete c param) = Some c"
| "caller (RFired i) = None"

definition admin_rules :: "notifdb \<Rightarrow> int set" where
  "admin_rules d = aw_id ` {r \<in> set (db_alerts d). IsAdminOnlyRuleType (aw_rule_type r)}"

text \<open>No admin-only rules but those of \<open>X\<close>, and the users are those of \<open>us\<close>.\<close>

definition confined :: "int set \<Rightarrow> (int \<rightharpoonup> string \<times> bool) \<Rightarrow> notifdb \<Rightarrow> bool" where
  "confined X us d \<longleftrightarrow> admin_rules d \<subseteq> X \<and> db_users d = us"

lemma not_admin_only_default [simp]: "rq_RuleType (request_defaults req) = rq_RuleType req"
  by (simp add: request_defaults_def)

lemma set_columns_simps [simp]: "aw_id (set_columns req b t r) = aw_id r" "aw_rule_type (set_columns req b t r) = rq_RuleType req"
  by (simp_all add: set_columns_def)

lemma confined_parts:
  "keeps (confined X us) (SetAlertChannels i cs)" "keeps (confined X us) (SetAlertFieldConditions i conds)"
  "keeps (confined X us) (GetAlert i)" "keeps (confined X us) (DeleteAlert i)" "keeps (confined X us) (MarkAlertFired_db i)"
  "keeps (confined X us) (adminOnlyDenied t c)"
  unfolding SetAlertChannels_def SetAlertFieldConditions_def GetAlert_def attachChannelIDs_def attachFieldConditions_def
    DeleteAlert_def MarkAlertFired_db_def adminOnlyDenied_def IsUserAdmin_def
  by (intro keeps_intros keeps_stmt;
      force simp: confined_def admin_rules_def insert_alert_channel_def insert_cond_def split: if_splits)+

lemma confined_write:
  assumes "\<not> IsAdminOnlyRuleType (rq_RuleType req)"
  shows "keeps (confined X us) (CreateAlert req u)" "keeps (confined X us) (UpdateAlert i req)"
proof -
  have ins: "keeps (confined X us) (stmt (insert_alert (request_defaults req) b u))" for b
    using assms by (intro keeps_stmt) (auto simp: confined_def admin_rules_def insert_alert_def split: if_splits)
  have upd: "keeps (confined X us) (stmt (update_alert i (request_defaults req) b))" for b
    using assms by (intro keeps_stmt) (force simp: confined_def admin_rules_def update_alert_def split: if_splits)
  show "keeps (confined X us) (CreateAlert req u)" "keeps (confined X us) (UpdateAlert i req)"
    unfolding CreateAlert_def UpdateAlert_def Let_def
    by (intro keeps_intros confined_parts ins upd)+
qed

text \<open>The check in front of the two writes: a caller who is no administrator gets past it only with an ordinary type.\<close>

lemma guarded_keeps:
  assumes "\<not> is_admin d (GetInt64_user c)" "confined X us d"
    and "\<not> IsAdminOnlyRuleType t \<Longrightarrow> keeps (confined X us) m"
  shows "confined X us (fst (snd (bind (adminOnlyDenied t c) (\<lambda>denied. if denied then ret x else m) (d, fs))))"
proof (cases "IsAdminOnlyRuleType t")
  case True
  obtain fs' where "IsUserAdmin (GetInt64_user c) (d, fs) = (Inr False, d, fs')" using IsUserAdmin_false [OF assms(1)] by blast
  with True assms(2) show ?thesis by (simp add: adminOnlyDenied_def bind_def)
next
  case False
  with keepsD [OF assms(3), of "(d, fs)"] assms(2) show ?thesis by (simp add: adminOnlyDenied_def bind_def)
qed

lemma rule_step_confined:
  assumes "confined X us d" "\<forall>c. caller ev = Some c \<longrightarrow> \<not> is_admin d (GetInt64_user c)"
  shows "confined X us (rule_step ev fs d)"
proof (cases ev)
  case (RCreate c body)
  show ?thesis
  proof (cases body)
    case (Some req)
    have "confined X us (fst (snd (bind (adminOnlyDenied (rq_RuleType req) c) (\<lambda>denied.
        if denied then ret (Failure 403 ''alerts.adminOnlyCreate'', False)
        else attempt (CreateAlert req (case extractUserID c of None \<Rightarrow> 0 | Some i \<Rightarrow> i)) (\<lambda>r. case r of
               Inl err \<Rightarrow> ret (Failure 500 ''alerts.createFailed'', False)
             | Inr alert \<Rightarrow> ret (Answer 201 alert, True))) (d, fs))))"
      by (rule guarded_keeps) (use assms RCreate in \<open>auto intro!: keeps_intros confined_write\<close>)
    with RCreate Some show ?thesis by (simp add: CreateAlert_handler_def)
  qed (use RCreate assms(1) in \<open>simp add: CreateAlert_handler_def\<close>)
next
  case (RUpdate c param body)
  show ?thesis
  proof (cases "parseIDParam param = None \<or> body = None")
    case False
    then obtain i req where i: "parseIDParam param = Some i" "body = Some req" by auto
    have "confined X us (fst (snd (bind (adminOnlyDenied (rq_RuleType req) c) (\<lambda>denied.
        if denied then ret (Failure 403 ''alerts.adminOnlyModify'', False)
        else attempt (UpdateAlert i req) (\<lambda>r. case r of
           Inl err \<Rightarrow>
             (if err = NoRows then ret (Failure 404 ''alerts.notFound'', False)
              else ret (Failure 500 ''alerts.updateFailed'', False))
         | Inr alert \<Rightarrow> ret (Answer 200 alert, True))) (d, fs))))"
      by (rule guarded_keeps) (use assms RUpdate in \<open>auto intro!: keeps_intros confined_write\<close>)
    with RUpdate i show ?thesis by (simp add: UpdateAlert_handler_def)
  qed (use RUpdate assms(1) in \<open>auto simp: UpdateAlert_handler_def split: option.split\<close>)
next
  case (RDelete c param)
  have "keeps (confined X us) (DeleteAlert_handler c param)"
    unfolding DeleteAlert_handler_def by (intro keeps_intros confined_parts)
  from keepsD [OF this, of "(d, fs)"] RDelete assms(1) show ?thesis by simp
next
  case (RFired i)
  with keepsD [OF confined_parts(5), of X us "(d, fs)" i] assms(1) show ?thesis by simp
qed

text \<open>
  (C7) Admin-only rules come from administrators: through any sequence of requests to create, change and delete
  rules, whatever bodies and ids they carry and whichever statements fail (the look-up of the caller among them), and any
  firings in between, callers who are not administrators never bring a rule of an admin-only type into the table, by
  creating it or by turning another rule into one.
\<close>

theorem admin_rules_need_admin:
  assumes "\<forall>(ev, fs) \<in> set evs. \<forall>c. caller ev = Some c \<longrightarrow> \<not> is_admin d (GetInt64_user c)"
  shows "admin_rules (foldl (\<lambda>d (ev, fs). rule_step ev fs d) d evs) \<subseteq> admin_rules d"
proof -
  have "confined (admin_rules d) (db_users d) (foldl (\<lambda>d (ev, fs). rule_step ev fs d) e evs)"
    if "confined (admin_rules d) (db_users d) e" for e
    using assms that
  proof (induction evs arbitrary: e)
    case (Cons ev evs)
    obtain v fs where ev: "ev = (v, fs)" by fastforce
    have "is_admin e u = is_admin d u" for u using Cons.prems(2) by (simp add: confined_def is_admin_def)
    then have "confined (admin_rules d) (db_users d) (rule_step v fs e)"
      using Cons.prems ev by (intro rule_step_confined) auto
    with Cons.IH Cons.prems(1) ev show ?case by simp
  qed simp
  from this [of d] show ?thesis by (simp add: confined_def)
qed

definition audit_request :: AlertRequest where
  "audit_request = \<lparr>rq_Name = ''all logins'', rq_Description = [], rq_RuleType = RuleTypeAuditLog, rq_Severity = [],
     rq_DeviceIPs = None, rq_ParserNames = None, rq_FieldConditions = [], rq_FieldConditionsLogic = [],
     rq_MessagePattern = [], rq_Threshold = 1, rq_WindowMinutes = 0, rq_CooldownMinutes = 0,
     rq_FireOnEveryMatch = True, rq_AuditActionFilter = [], rq_IsActive = None, rq_ChannelIDs = []\<rparr>"

theorem admin_rules_need_admin_witness:
  "admin_rules (foldl (\<lambda>d (ev, fs). rule_step ev fs d) (db1 chans1)
     [(RCreate ctx_viewer (Some audit_request), []), (RCreate ctx_viewer (Some (audit_request\<lparr>rq_RuleType := RuleTypeLogThreshold\<rparr>)), []),
      (RFired 7, []), (RUpdate ctx_viewer ''30'' (Some audit_request), [True])]) \<subseteq> {7}"
proof -
  have "\<not> is_admin (db1 chans1) (GetInt64_user ctx_viewer)" by code_simp
  moreover have "admin_rules (db1 chans1) = {7}" by code_simp
  ultimately show ?thesis
    using admin_rules_need_admin [of "[(RCreate ctx_viewer (Some audit_request), []),
      (RCreate ctx_viewer (Some (audit_request\<lparr>rq_RuleType := RuleTypeLogThreshold\<rparr>)), []),
      (RFired 7, []), (RUpdate ctx_viewer ''30'' (Some audit_request), [True])]" "db1 chans1"] by simp
qed

end
