(* ===== verification/RuleTheorems.thy ===== *)
theory RuleTheorems
  imports BellTheorems
begin

text \<open>
  Creating and changing alert rules: what is stored, what comes back, what a failure leaves behind,
  and the rights on rules and channels.
\<close>

section \<open>Replacing a rule's channels and conditions\<close>

definition put_channels :: "int \<Rightarrow> int list \<Rightarrow> (int \<times> int) list \<Rightarrow> (int \<times> int) list" where
  "put_channels i chs ac = foldl (\<lambda>ac c. if (i, c) \<in> set ac then ac else ac @ [(i, c)]) ac chs"

lemma put_channels_set: "set (put_channels i chs ac) = set ac \<union> Pair i ` set chs"
  by (induction chs arbitrary: ac) (auto simp: put_channels_def)

lemma put_channels_distinct: "distinct ac \<Longrightarrow> distinct (put_channels i chs ac)"
  by (induction chs arbitrary: ac) (auto simp: put_channels_def)

lemma insert_channels_run:
  assumes "i \<in> alert_ids d" "set chs \<subseteq> channel_ids d"
  shows "for_each (\<lambda>c. stmt (insert_alert_channel i c)) chs (d, []) =
    (Inr (), d\<lparr>db_alert_channels := put_channels i chs (db_alert_channels d)\<rparr>, [])"
  using assms
proof (induction chs arbitrary: d)
  case Nil
  then show ?case by (simp add: put_channels_def)
next
  case (Cons c chs)
  let ?d = "d\<lparr>db_alert_channels := if (i, c) \<in> set (db_alert_channels d) then db_alert_channels d
    else db_alert_channels d @ [(i, c)]\<rparr>"
  have "stmt (insert_alert_channel i c) (d, []) = (Inr (), ?d, [])"
    using Cons.prems by (simp add: insert_alert_channel_def)
  then have "for_each (\<lambda>c. stmt (insert_alert_channel i c)) (c # chs) (d, []) =
      for_each (\<lambda>c. stmt (insert_alert_channel i c)) chs (?d, [])" by (simp add: bind_def)
  also have "\<dots> = (Inr (), ?d\<lparr>db_alert_channels := put_channels i chs (db_alert_channels ?d)\<rparr>, [])"
    using Cons.prems by (intro Cons.IH) auto
  finally show ?case by (simp add: put_channels_def)
qed

lemma SetAlertChannels_run:
  assumes "i \<in> alert_ids d" "set chs \<subseteq> channel_ids d"
  shows "SetAlertChannels i chs (d, []) =
    (Inr (), d\<lparr>db_alert_channels := put_channels i chs (filter (\<lambda>p. fst p \<noteq> i) (db_alert_channels d))\<rparr>, [])"
  unfolding SetAlertChannels_def
proof (rule transaction_ok)
  show "bind (stmt (\<lambda>d. Inr ((), d\<lparr>db_alert_channels := filter (\<lambda>p. fst p \<noteq> i) (db_alert_channels d)\<rparr>)))
         (\<lambda>_. for_each (\<lambda>chID. stmt (insert_alert_channel i chID)) chs) (d, []) =
    (Inr (), d\<lparr>db_alert_channels := put_channels i chs (filter (\<lambda>p. fst p \<noteq> i) (db_alert_channels d))\<rparr>, [])"
    using insert_channels_run [of i "d\<lparr>db_alert_channels := filter (\<lambda>p. fst p \<noteq> i) (db_alert_channels d)\<rparr>" chs] assms
    by (simp add: bind_def)
qed

lemma SetAlertChannels_missing:
  assumes "i \<in> alert_ids d" "\<not> set chs \<subseteq> channel_ids d"
  shows "SetAlertChannels i chs (d, []) = (Inl SqlErr, d, [])"
proof -
  have fails: "\<exists>d'. for_each (\<lambda>c. stmt (insert_alert_channel i c)) chs (d, []) = (Inl SqlErr, d', [])"
    if "i \<in> alert_ids d" "\<not> set chs \<subseteq> channel_ids d" for d
    using that
  proof (induction chs arbitrary: d)
    case (Cons c chs)
    show ?case
    proof (cases "c \<in> channel_ids d")
      case True
      let ?d = "d\<lparr>db_alert_channels := if (i, c) \<in> set (db_alert_channels d) then db_alert_channels d
        else db_alert_channels d @ [(i, c)]\<rparr>"
      have "stmt (insert_alert_channel i c) (d, []) = (Inr (), ?d, [])"
        using Cons.prems True by (simp add: insert_alert_channel_def)
      moreover obtain d' where "for_each (\<lambda>c. stmt (insert_alert_channel i c)) chs (?d, []) = (Inl SqlErr, d', [])"
        using Cons.IH [of ?d] Cons.prems True by auto
      ultimately show ?thesis by (simp add: bind_def)
    next
      case False
      then show ?thesis by (simp add: bind_def insert_alert_channel_def)
    qed
  qed simp
  let ?d = "d\<lparr>db_alert_channels := filter (\<lambda>p. fst p \<noteq> i) (db_alert_channels d)\<rparr>"
  obtain d' where "for_each (\<lambda>c. stmt (insert_alert_channel i c)) chs (?d, []) = (Inl SqlErr, d', [])"
    using fails [of ?d] assms by auto
  then show ?thesis by (simp add: SetAlertChannels_def transaction_def bind_def)
qed

text \<open>The conditions a request stores: those with a field and a value, \<^verbatim>\<open>equals\<close> by default.\<close>

definition stored_conds :: "AlertFieldCondition list \<Rightarrow> (string \<times> string \<times> string) list" where
  "stored_conds cs = map (\<lambda>c. (fc_FieldName c, if fc_Operator c = [] then FieldOpEquals else fc_Operator c, fc_Value c))
     (filter (\<lambda>c. fc_FieldName c \<noteq> [] \<and> fc_Value c \<noteq> []) cs)"

definition cond_key :: "AlertFieldCondition \<Rightarrow> string \<times> string \<times> string" where
  "cond_key c = (fc_FieldName c, fc_Operator c, fc_Value c)"

lemma insert_conds_run:
  assumes "i \<in> alert_ids d"
  shows "\<exists>new k. for_each (\<lambda>cond.
             if fc_FieldName cond = [] \<or> fc_Value cond = [] then ret ()
             else stmt (insert_cond i
               (if fc_Operator cond = [] then cond\<lparr>fc_Operator := FieldOpEquals\<rparr> else cond))) cs (d, []) =
      (Inr (), d\<lparr>db_conds := db_conds d @ map (Pair i) new, db_serial := k\<rparr>, []) \<and> map cond_key new = stored_conds cs"
  using assms
proof (induction cs arbitrary: d)
  case Nil
  then show ?case by (intro exI [of _ "[]"] exI [of _ "db_serial d"]) (simp add: stored_conds_def)
next
  case (Cons c cs)
  show ?case
  proof (cases "fc_FieldName c = [] \<or> fc_Value c = []")
    case True
    then show ?thesis using Cons by (auto simp: bind_def stored_conds_def)
  next
    case False
    let ?c = "(if fc_Operator c = [] then c\<lparr>fc_Operator := FieldOpEquals\<rparr> else c)\<lparr>fc_ID := db_serial d\<rparr>"
    let ?d = "d\<lparr>db_conds := db_conds d @ [(i, ?c)], db_serial := db_serial d + 1\<rparr>"
    have one: "stmt (insert_cond i (if fc_Operator c = [] then c\<lparr>fc_Operator := FieldOpEquals\<rparr> else c)) (d, []) = (Inr (), ?d, [])"
      using Cons.prems by (simp add: insert_cond_def)
    have "cond_key ?c # stored_conds cs = stored_conds (c # cs)" using False by (simp add: cond_key_def stored_conds_def)
    moreover obtain new k where "for_each (\<lambda>cond.
             if fc_FieldName cond = [] \<or> fc_Value cond = [] then ret ()
             else stmt (insert_cond i
               (if fc_Operator cond = [] then cond\<lparr>fc_Operator := FieldOpEquals\<rparr> else cond))) cs (?d, []) =
      (Inr (), ?d\<lparr>db_conds := db_conds ?d @ map (Pair i) new, db_serial := k\<rparr>, [])" "map cond_key new = stored_conds cs"
      using Cons.IH [of ?d] Cons.prems by auto
    ultimately show ?thesis
      using False one by (intro exI [of _ "?c # new"] exI [of _ k]) (simp add: bind_def)
  qed
qed

lemma SetAlertFieldConditions_run:
  assumes "i \<in> alert_ids d"
  shows "\<exists>new k. SetAlertFieldConditions i cs (d, []) =
    (Inr (), d\<lparr>db_conds := filter (\<lambda>p. fst p \<noteq> i) (db_conds d) @ map (Pair i) new, db_serial := k\<rparr>, []) \<and>
    map cond_key new = stored_conds cs"
proof -
  let ?d = "d\<lparr>db_conds := filter (\<lambda>p. fst p \<noteq> i) (db_conds d)\<rparr>"
  obtain new k where run: "for_each (\<lambda>cond.
             if fc_FieldName cond = [] \<or> fc_Value cond = [] then ret ()
             else stmt (insert_cond i
               (if fc_Operator cond = [] then cond\<lparr>fc_Operator := FieldOpEquals\<rparr> else cond))) cs (?d, []) =
      (Inr (), ?d\<lparr>db_conds := db_conds ?d @ map (Pair i) new, db_serial := k\<rparr>, [])" "map cond_key new = stored_conds cs"
    using insert_conds_run [of i ?d cs] assms by auto
  have "SetAlertFieldConditions i cs (d, []) =
      (Inr (), ?d\<lparr>db_conds := db_conds ?d @ map (Pair i) new, db_serial := k\<rparr>, [])"
    unfolding SetAlertFieldConditions_def by (rule transaction_ok) (use run(1) in \<open>simp add: bind_def\<close>)
  with run(2) show ?thesis by auto
qed

lemma GetAlert_run:
  assumes "filter (\<lambda>r. aw_id r = i) (db_alerts d) = [r]"
  shows "GetAlert i (d, []) =
    (Inr ((scanAlert r)\<lparr>al_ChannelIDs := channels_of d i, al_FieldConditions := conds_of d i\<rparr>), d, [])"
proof -
  have "r \<in> set (filter (\<lambda>r. aw_id r = i) (db_alerts d))" using assms by simp
  then have "al_ID (scanAlert r) = i" by (simp add: scanAlert_def)
  then show ?thesis using assms
    by (simp add: GetAlert_def bind_def attachChannelIDs_def attachFieldConditions_def)
qed

section \<open>Creating a rule\<close>

lemma fresh_alert: "db_ok d \<Longrightarrow> db_serial d \<notin> alert_ids d"
  by (auto simp: db_ok_defs alert_ids_def)

lemma put_channels_of:
  "filter (\<lambda>p. fst p = i) (put_channels i chs (filter (\<lambda>p. fst p \<noteq> i) ac)) = put_channels i chs []"
proof -
  have "filter (\<lambda>p. fst p = i) (put_channels i chs ac) = put_channels i chs (filter (\<lambda>p. fst p = i) ac)" for ac
    by (induction chs arbitrary: ac) (auto simp: put_channels_def)
  then show ?thesis by (simp add: filter_none comp_def)
qed

text \<open>The rule a request describes, with the defaults filled in.\<close>

definition describes :: "AlertRequest \<Rightarrow> Alert \<Rightarrow> bool" where
  "describes req a \<longleftrightarrow> al_Name a = rq_Name req \<and> al_Description a = rq_Description req \<and> al_RuleType a = rq_RuleType req \<and>
     al_Severity a = rq_Severity req \<and> al_DeviceIPs a = (case rq_DeviceIPs req of None \<Rightarrow> [] | Some xs \<Rightarrow> xs) \<and>
     al_ParserNames a = (case rq_ParserNames req of None \<Rightarrow> [] | Some xs \<Rightarrow> xs) \<and>
     al_MessagePattern a = rq_MessagePattern req \<and> al_Threshold a = rq_Threshold req \<and>
     al_WindowMinutes a = (if rq_WindowMinutes req \<le> 0 then 5 else rq_WindowMinutes req) \<and>
     al_CooldownMinutes a = (if rq_CooldownMinutes req \<le> 0 then 15 else rq_CooldownMinutes req) \<and>
     al_FireOnEveryMatch a = rq_FireOnEveryMatch req \<and>
     al_FieldConditionsLogic a = (if rq_FieldConditionsLogic req = FieldConditionsLogicOr then FieldConditionsLogicOr else FieldConditionsLogicAnd) \<and>
     al_AuditActionFilter a = rq_AuditActionFilter req \<and> al_IsActive a = (rq_IsActive req \<noteq> Some False) \<and>
     set (al_ChannelIDs a) = set (rq_ChannelIDs req) \<and> distinct (al_ChannelIDs a) \<and>
     map cond_key (al_FieldConditions a) = stored_conds (rq_FieldConditions req)"

lemma describes_scan:
  assumes "chs = map snd (put_channels i (rq_ChannelIDs req) [])" "map cond_key conds = stored_conds (rq_FieldConditions req)"
  shows "describes req ((scanAlert (set_columns (request_defaults req) (request_active req) now r))
    \<lparr>al_ChannelIDs := chs, al_FieldConditions := conds\<rparr>)"
proof -
  have "set (put_channels i (rq_ChannelIDs req) []) = Pair i ` set (rq_ChannelIDs req)" by (simp add: put_channels_set)
  then have "set chs = set (rq_ChannelIDs req)" using assms(1) by (simp add: image_image)
  moreover have "distinct chs"
    using put_channels_distinct [of "[]" i "rq_ChannelIDs req"] assms(1) put_channels_set [of i "rq_ChannelIDs req" "[]"]
    by (auto simp: distinct_map inj_on_def)
  ultimately show ?thesis
    using assms(2)
    by (simp add: describes_def scanAlert_def set_columns_def request_defaults_def request_active_def
        null_string_def [of "Some _"] split: option.split)
qed

text \<open>
  (C10) When no statement fails, creating a rule for an existing user on existing channels stores a new
  rule under a fresh id and returns it: every field as requested, the window, the cooldown and the
  condition logic defaulted, the channels without repetition, the conditions that name a field and a
  value. Reading it back gives the same rule.
\<close>

theorem CreateAlert_round_trip:
  assumes "db_ok d" "request_fits (request_defaults req)" "db_users d u \<noteq> None" "set (rq_ChannelIDs req) \<subseteq> channel_ids d"
  shows "\<exists>a d'. CreateAlert req u (d, []) = (Inr a, d', []) \<and> describes req a \<and> al_CreatedBy a = Some u \<and>
    al_ID a \<notin> alert_ids d \<and> GetAlert (al_ID a) (d', []) = (Inr a, d', [])"
proof -
  let ?i = "db_serial d"
  let ?r = "set_columns (request_defaults req) (request_active req) (db_now d) (blank_alert_row ?i u (db_now d))"
  have id: "aw_id ?r = ?i" by (simp add: blank_alert_row_def)
  let ?d1 = "d\<lparr>db_alerts := db_alerts d @ [?r], db_serial := db_serial d + 1\<rparr>"
  have 1: "stmt (insert_alert (request_defaults req) (request_active req) u) (d, []) = (Inr ?i, ?d1, [])"
    using assms(2,3) by (simp add: insert_alert_def)
  have q: "rq_ChannelIDs (request_defaults req) = rq_ChannelIDs req"
    "rq_FieldConditions (request_defaults req) = rq_FieldConditions req" by (simp_all add: request_defaults_def)
  have in1: "?i \<in> alert_ids ?d1" using id by simp
  let ?d2 = "?d1\<lparr>db_alert_channels := put_channels ?i (rq_ChannelIDs req) (filter (\<lambda>p. fst p \<noteq> ?i) (db_alert_channels ?d1))\<rparr>"
  have 2: "SetAlertChannels ?i (rq_ChannelIDs req) (?d1, []) = (Inr (), ?d2, [])"
    by (rule SetAlertChannels_run [OF in1]) (use assms(4) in simp)
  have in2: "?i \<in> alert_ids ?d2" using id by simp
  obtain new k where 3: "SetAlertFieldConditions ?i (rq_FieldConditions req) (?d2, []) =
    (Inr (), ?d2\<lparr>db_conds := filter (\<lambda>p. fst p \<noteq> ?i) (db_conds ?d2) @ map (Pair ?i) new, db_serial := k\<rparr>, [])"
    and new: "map cond_key new = stored_conds (rq_FieldConditions req)"
    using SetAlertFieldConditions_run [OF in2] by blast
  let ?d3 = "?d2\<lparr>db_conds := filter (\<lambda>p. fst p \<noteq> ?i) (db_conds ?d2) @ map (Pair ?i) new, db_serial := k\<rparr>"
  have "filter (\<lambda>r. aw_id r = ?i) (db_alerts d) = []"
    using fresh_alert [OF assms(1)] by (intro filter_none) (metis alert_ids_def imageI)
  then have only: "filter (\<lambda>r. aw_id r = ?i) (db_alerts ?d3) = [?r]" using id by simp
  let ?a = "(scanAlert ?r)\<lparr>al_ChannelIDs := channels_of ?d3 ?i, al_FieldConditions := conds_of ?d3 ?i\<rparr>"
  have get: "GetAlert ?i (?d3, []) = (Inr ?a, ?d3, [])" by (rule GetAlert_run [OF only])
  have run: "CreateAlert req u (d, []) = (Inr ?a, ?d3, [])"
    using 1 2 3 get by (simp add: CreateAlert_def Let_def bind_def q del: stmt_ok)
  have chs: "channels_of ?d3 ?i = map snd (put_channels ?i (rq_ChannelIDs req) [])"
    by (simp add: channels_of_def put_channels_of)
  have conds: "conds_of ?d3 ?i = new" by (simp add: conds_of_def filter_none comp_def)
  have "describes req ?a" by (rule describes_scan [OF chs]) (simp only: conds new)
  moreover have "al_ID ?a = ?i" "al_CreatedBy ?a = Some u"
    by (simp_all add: scanAlert_def set_columns_def blank_alert_row_def)
  ultimately show ?thesis using run get fresh_alert [OF assms(1)] by auto
qed

definition req0 :: AlertRequest where
  "req0 = \<lparr>rq_Name = ''disk'', rq_Description = [], rq_RuleType = RuleTypeLogThreshold, rq_Severity = ''warning'',
     rq_DeviceIPs = None, rq_ParserNames = Some [''p''],
     rq_FieldConditions = [\<lparr>fc_ID = 0, fc_FieldName = ''user'', fc_Operator = [], fc_Value = ''root''\<rparr>],
     rq_FieldConditionsLogic = ''xor'', rq_MessagePattern = ''*full*'', rq_Threshold = 3, rq_WindowMinutes = 0,
     rq_CooldownMinutes = 30, rq_FireOnEveryMatch = False, rq_AuditActionFilter = [], rq_IsActive = None,
     rq_ChannelIDs = [10, 13, 10]\<rparr>"

theorem CreateAlert_round_trip_witness:
  "\<exists>a d'. CreateAlert req0 2 (db1 chans1, []) = (Inr a, d', []) \<and> al_WindowMinutes a = 5 \<and> set (al_ChannelIDs a) = {10, 13} \<and>
    map cond_key (al_FieldConditions a) = [(''user'', ''equals'', ''root'')] \<and> al_ID a \<noteq> 7"
proof -
  have h: "request_fits (request_defaults req0)" "db_users (db1 chans1) 2 \<noteq> None"
    "list_all (\<lambda>c. c \<in> channel_ids (db1 chans1)) (rq_ChannelIDs req0)" "7 \<in> alert_ids (db1 chans1)" by code_simp+
  have "stored_conds (rq_FieldConditions req0) = [(''user'', ''equals'', ''root'')]" by code_simp
  moreover obtain a d' where "CreateAlert req0 2 (db1 chans1, []) = (Inr a, d', [])" "describes req0 a"
      "al_ID a \<notin> alert_ids (db1 chans1)"
    using CreateAlert_round_trip [OF db1_ok h(1,2)] h(3) by (auto simp: list_all_iff)
  ultimately show ?thesis using h(4) by (auto simp: describes_def req0_def)
qed

text \<open>
  Creating a rule is not one transaction: when the request names a channel that does not exist,
  the handler answers with an internal error and asks for no reload, yet the rule is stored and, unless
  the request says otherwise, active.
\<close>

theorem CreateAlert_leaves_rule_behind:
  assumes "db_ok d" "cx_user_id c = Some u" "db_users d u \<noteq> None" "request_fits (request_defaults req)"
    and "\<not> IsAdminOnlyRuleType (rq_RuleType req)" "\<not> set (rq_ChannelIDs req) \<subseteq> channel_ids d"
  shows "\<exists>d' r. CreateAlert_handler c (Some req) (d, []) = (Inr (Failure 500 ''alerts.createFailed'', False), d', []) \<and>
    db_alerts d' = db_alerts d @ [r] \<and> aw_name r = rq_Name req \<and> aw_is_active r = request_active req"
proof -
  let ?i = "db_serial d"
  let ?r = "set_columns (request_defaults req) (request_active req) (db_now d) (blank_alert_row ?i u (db_now d))"
  let ?d1 = "d\<lparr>db_alerts := db_alerts d @ [?r], db_serial := db_serial d + 1\<rparr>"
  have 1: "stmt (insert_alert (request_defaults req) (request_active req) u) (d, []) = (Inr ?i, ?d1, [])"
    using assms(3,4) by (simp add: insert_alert_def)
  have "SetAlertChannels ?i (rq_ChannelIDs req) (?d1, []) = (Inl SqlErr, ?d1, [])"
    by (rule SetAlertChannels_missing) (use assms(6) in \<open>simp_all add: blank_alert_row_def\<close>)
  then have "CreateAlert req u (d, []) = (Inl SqlErr, ?d1, [])"
    using 1 by (simp add: CreateAlert_def Let_def bind_def request_defaults_def del: stmt_ok)
  then have "CreateAlert_handler c (Some req) (d, []) = (Inr (Failure 500 ''alerts.createFailed'', False), ?d1, [])"
    using assms(2,5) by (simp add: CreateAlert_handler_def adminOnlyDenied_def attempt_def extractUserID_def)
  then show ?thesis
    by (intro exI [of _ ?d1] exI [of _ ?r]) (simp add: set_columns_def request_defaults_def)
qed

theorem CreateAlert_leaves_rule_behind_witness:
  "\<exists>d' r. CreateAlert_handler ctx2 (Some (req0\<lparr>rq_ChannelIDs := [99]\<rparr>)) (db1 chans1, []) =
      (Inr (Failure 500 ''alerts.createFailed'', False), d', []) \<and>
    db_alerts d' = db_alerts (db1 chans1) @ [r] \<and> aw_name r = ''disk'' \<and> aw_is_active r"
proof -
  have h: "cx_user_id ctx2 = Some 2" "db_users (db1 chans1) 2 \<noteq> None"
    "request_fits (request_defaults (req0\<lparr>rq_ChannelIDs := [99]\<rparr>))"
    "\<not> IsAdminOnlyRuleType (rq_RuleType (req0\<lparr>rq_ChannelIDs := [99]\<rparr>))" "99 \<notin> channel_ids (db1 chans1)" by code_simp+
  have "\<not> set (rq_ChannelIDs (req0\<lparr>rq_ChannelIDs := [99]\<rparr>)) \<subseteq> channel_ids (db1 chans1)" using h(5) by simp
  from CreateAlert_leaves_rule_behind [OF db1_ok h(1-4) this] show ?thesis
    by (simp add: request_active_def req0_def)
qed

section \<open>Changing a rule\<close>

lemma one_row:
  assumes "db_ok d" "r \<in> set (db_alerts d)"
  shows "filter (\<lambda>x. aw_id x = aw_id r) (db_alerts d) = [r]"
proof -
  have "length (filter (\<lambda>x. aw_id x = aw_id r) (db_alerts d)) \<le> 1"
    using assms(1) by (intro filter_same_key [where k = aw_id and i = "aw_id r"]) (auto simp: db_ok_defs distinct_map_filter_key)
  moreover have "r \<in> set (filter (\<lambda>x. aw_id x = aw_id r) (db_alerts d))" using assms(2) by simp
  ultimately show ?thesis by (cases "filter (\<lambda>x. aw_id x = aw_id r) (db_alerts d)") auto
qed

lemma alert_ids_map: "(\<And>x. aw_id (f x) = aw_id x) \<Longrightarrow> alert_ids (d\<lparr>db_alerts := map f (db_alerts d)\<rparr>) = alert_ids d"
  by (simp add: alert_ids_def image_image)

lemma UpdateAlert_run:
  assumes "db_ok d" "r \<in> set (db_alerts d)" "request_fits (request_defaults req)" "set (rq_ChannelIDs req) \<subseteq> channel_ids d"
  shows "\<exists>a d'. UpdateAlert (aw_id r) req (d, []) = (Inr a, d', []) \<and> describes req a \<and> al_ID a = aw_id r"
proof -
  let ?i = "aw_id r"
  let ?f = "\<lambda>x. if aw_id x = ?i then set_columns (request_defaults req) (request_active req) (db_now d) x else x"
  let ?d1 = "d\<lparr>db_alerts := map ?f (db_alerts d)\<rparr>"
  have 1: "stmt (update_alert ?i (request_defaults req) (request_active req)) (d, []) = (Inr (), ?d1, [])"
    using assms(3) by (simp add: update_alert_def)
  have q: "rq_ChannelIDs (request_defaults req) = rq_ChannelIDs req"
    "rq_FieldConditions (request_defaults req) = rq_FieldConditions req" by (simp_all add: request_defaults_def)
  have in1: "?i \<in> alert_ids ?d1"
    by (subst alert_ids_map) (use assms(2) in \<open>auto simp: alert_ids_def\<close>)
  let ?d2 = "?d1\<lparr>db_alert_channels := put_channels ?i (rq_ChannelIDs req) (filter (\<lambda>p. fst p \<noteq> ?i) (db_alert_channels ?d1))\<rparr>"
  have 2: "SetAlertChannels ?i (rq_ChannelIDs req) (?d1, []) = (Inr (), ?d2, [])"
    by (rule SetAlertChannels_run [OF in1]) (use assms(4) in simp)
  have in2: "?i \<in> alert_ids ?d2" using in1 by simp
  obtain new k where 3: "SetAlertFieldConditions ?i (rq_FieldConditions req) (?d2, []) =
    (Inr (), ?d2\<lparr>db_conds := filter (\<lambda>p. fst p \<noteq> ?i) (db_conds ?d2) @ map (Pair ?i) new, db_serial := k\<rparr>, [])"
    and new: "map cond_key new = stored_conds (rq_FieldConditions req)"
    using SetAlertFieldConditions_run [OF in2] by blast
  let ?d3 = "?d2\<lparr>db_conds := filter (\<lambda>p. fst p \<noteq> ?i) (db_conds ?d2) @ map (Pair ?i) new, db_serial := k\<rparr>"
  have "filter (\<lambda>x. aw_id x = ?i) (map ?f (db_alerts d)) = map ?f (filter (\<lambda>x. aw_id x = ?i) (db_alerts d))"
    by (simp add: filter_map comp_def)
  then have only: "filter (\<lambda>x. aw_id x = ?i) (db_alerts ?d3) = [?f r]"
    using one_row [OF assms(1,2)] by simp
  let ?a = "(scanAlert (?f r))\<lparr>al_ChannelIDs := channels_of ?d3 ?i, al_FieldConditions := conds_of ?d3 ?i\<rparr>"
  have get: "GetAlert ?i (?d3, []) = (Inr ?a, ?d3, [])" by (rule GetAlert_run [OF only])
  have run: "UpdateAlert ?i req (d, []) = (Inr ?a, ?d3, [])"
    using 1 2 3 get by (simp add: UpdateAlert_def Let_def bind_def q del: stmt_ok)
  have chs: "channels_of ?d3 ?i = map snd (put_channels ?i (rq_ChannelIDs req) [])"
    by (simp add: channels_of_def put_channels_of)
  have conds: "conds_of ?d3 ?i = new" by (simp add: conds_of_def filter_none comp_def)
  have "describes req ?a" unfolding if_P [OF refl] by (rule describes_scan [OF chs]) (simp only: conds new)
  moreover have "al_ID ?a = ?i" by (simp add: scanAlert_def)
  ultimately show ?thesis using run by blast
qed

text \<open>
  The update handler looks only at the type the request asks for: a user who is not an
  administrator can turn an existing admin-only rule into an ordinary one, overwriting all of it, and
  the handler answers with success.
\<close>

theorem update_takes_over_admin_rule:
  assumes "db_ok d" "cx_user_id c = Some u" "\<not> is_admin d u"
    and "r \<in> set (db_alerts d)" "IsAdminOnlyRuleType (aw_rule_type r)" "parseIDParam param = Some (aw_id r)"
    and "\<not> IsAdminOnlyRuleType (rq_RuleType req)" "request_fits (request_defaults req)"
    and "set (rq_ChannelIDs req) \<subseteq> channel_ids d"
  shows "\<exists>a d'. UpdateAlert_handler c param (Some req) (d, []) = (Inr (Answer 200 a, True), d', []) \<and>
    al_ID a = aw_id r \<and> describes req a"
proof -
  obtain a d' where "UpdateAlert (aw_id r) req (d, []) = (Inr a, d', [])" "describes req a" "al_ID a = aw_id r"
    using UpdateAlert_run [OF assms(1,4,8,9)] by blast
  with assms(6,7) show ?thesis
    by (simp add: UpdateAlert_handler_def adminOnlyDenied_def attempt_def)
qed

theorem update_takes_over_admin_rule_witness:
  "\<exists>a d'. UpdateAlert_handler ctx_viewer ''7'' (Some req0) (db1 chans1, []) = (Inr (Answer 200 a, True), d', []) \<and>
    al_ID a = 7 \<and> al_RuleType a = RuleTypeLogThreshold"
proof -
  have h: "cx_user_id ctx_viewer = Some 2" "\<not> is_admin (db1 chans1) 2"
    "row1 7 RuleTypeAuditLog \<in> set (db_alerts (db1 chans1))" "IsAdminOnlyRuleType (aw_rule_type (row1 7 RuleTypeAuditLog))"
    "parseIDParam ''7'' = Some (aw_id (row1 7 RuleTypeAuditLog))" "\<not> IsAdminOnlyRuleType (rq_RuleType req0)"
    "request_fits (request_defaults req0)" "list_all (\<lambda>c. c \<in> channel_ids (db1 chans1)) (rq_ChannelIDs req0)"
    by code_simp+
  have "set (rq_ChannelIDs req0) \<subseteq> channel_ids (db1 chans1)" using h(8) by (auto simp: list_all_iff)
  from update_takes_over_admin_rule [OF db1_ok h(1-7) this] show ?thesis
    by (auto simp: describes_def req0_def row1_def blank_alert_row_def)
qed

section \<open>Rights on channels\<close>

text \<open>The caller owns the channel, or nobody does and the caller is an administrator.\<close>

definition may_modify :: "ctx \<Rightarrow> channel_row \<Rightarrow> bool" where
  "may_modify c ch \<longleftrightarrow> (case cw_created_by ch of Some owner \<Rightarrow> cx_user_id c = Some owner | None \<Rightarrow> cx_role c = Some ''admin'')"

lemma one_channel:
  assumes "db_ok d" "ch \<in> set (db_channels d)"
  shows "filter (\<lambda>x. cw_id x = cw_id ch) (db_channels d) = [ch]"
proof -
  have "length (filter (\<lambda>x. cw_id x = cw_id ch) (db_channels d)) \<le> 1"
    using assms(1) by (intro filter_same_key [where k = cw_id and i = "cw_id ch"]) (auto simp: db_ok_defs distinct_map_filter_key)
  moreover have "ch \<in> set (filter (\<lambda>x. cw_id x = cw_id ch) (db_channels d))" using assms(2) by simp
  ultimately show ?thesis by (cases "filter (\<lambda>x. cw_id x = cw_id ch) (db_channels d)") auto
qed

lemma channelOwnedByCaller_run:
  assumes "db_ok d" "ch \<in> set (db_channels d)" "\<not> may_modify c ch"
  shows "\<exists>res fs'. channelOwnedByCaller c i (d, fs) = (Inr res, d, fs') \<and> (i = cw_id ch \<longrightarrow> res \<noteq> None)"
proof -
  obtain g d1 fs1 where g: "GetNotificationChannel i (d, fs) = (g, d1, fs1)" by (cases "GetNotificationChannel i (d, fs)")
  then have d1: "d1 = d" by (rule reads_same)
  have "g = Inr (scanChannel d ch)" if "i = cw_id ch" "\<exists>x. g = Inr x"
    using g that one_channel [OF assms(1,2)]
    by (auto simp: GetNotificationChannel_def query_def stmt_def split: if_splits)
  moreover have "\<not> callerCanModifyChannel c (scanChannel d ch)"
    using assms(3) by (simp add: callerCanModifyChannel_def may_modify_def scanChannel_def extractUserID_def split: option.splits)
  ultimately show ?thesis
    by (cases g) (auto simp: channelOwnedByCaller_def attempt_def g d1)
qed

lemma update_channel_keeps:
  "ch \<in> set (db_channels d) \<Longrightarrow> cw_id ch \<noteq> i \<Longrightarrow>
     ch \<in> set (db_channels (fst (snd (UpdateNotificationChannel enc i req (d, fs)))))"
proof -
  assume *: "ch \<in> set (db_channels d)" "cw_id ch \<noteq> i"
  have get: "keeps (\<lambda>d. ch \<in> set (db_channels d)) (GetNotificationChannel i)"
    unfolding GetNotificationChannel_def by (rule keeps_intros)
  have "keeps (\<lambda>d. ch \<in> set (db_channels d)) (UpdateNotificationChannel enc i req)"
    unfolding UpdateNotificationChannel_def Let_def
    by (intro keeps_intros keeps_write get; use *(2) in \<open>force\<close>)
  from keepsD [OF this, of "(d, fs)"] *(1) show ?thesis by simp
qed

text \<open>
  A channel can be changed or deleted only by the user who created it, or, when no owner is
  recorded, by an administrator: any other caller's update and delete requests leave it as it is,
  whatever id they name and whichever statements fail.
\<close>

theorem channel_owner_only:
  assumes "db_ok d" "ch \<in> set (db_channels d)" "\<not> may_modify c ch"
  shows "ch \<in> set (db_channels (fst (snd (UpdateNotificationChannel_handler enc c param body (d, fs))))) \<and>
    ch \<in> set (db_channels (fst (snd (DeleteNotificationChannel_handler c param (d, fs)))))"
proof (cases "parseIDParam param")
  case None
  with assms(2) show ?thesis
    by (simp add: UpdateNotificationChannel_handler_def DeleteNotificationChannel_handler_def)
next
  case (Some i)
  obtain res fs' where own: "channelOwnedByCaller c i (d, fs) = (Inr res, d, fs')" "i = cw_id ch \<longrightarrow> res \<noteq> None"
    using channelOwnedByCaller_run [OF assms] by blast
  show ?thesis
  proof (cases res)
    case None
    with own(2) have "cw_id ch \<noteq> i" by auto
    then have "ch \<in> set (db_channels (fst (snd (DeleteNotificationChannel i (d, fs')))))"
      "\<And>req. ch \<in> set (db_channels (fst (snd (UpdateNotificationChannel enc i req (d, fs')))))"
      using assms(2) update_channel_keeps by (auto simp: DeleteNotificationChannel_def stmt_def)
    with None Some own(1) assms(2) show ?thesis
      by (auto simp: UpdateNotificationChannel_handler_def DeleteNotificationChannel_handler_def bind_def attempt_def
          split: option.split prod.split sum.split) (metis fst_conv snd_conv)+
  next
    case (Some x)
    with \<open>parseIDParam param = Some i\<close> own(1) assms(2) show ?thesis
      by (cases x) (simp add: UpdateNotificationChannel_handler_def DeleteNotificationChannel_handler_def bind_def)
  qed
qed

theorem channel_owner_only_witness:
  "chan0 13 ''webhook'' (JObj [(''url'', JStr ''http://h'')]) \<in>
     set (db_channels (fst (snd (DeleteNotificationChannel_handler ctx2 ''13'' (db1 chans1, [])))))"
proof -
  have "chan0 13 ''webhook'' (JObj [(''url'', JStr ''http://h'')]) \<in> set (db_channels (db1 chans1))"
    "\<not> may_modify ctx2 (chan0 13 ''webhook'' (JObj [(''url'', JStr ''http://h'')]))" by code_simp+
  from channel_owner_only [OF db1_ok this] show ?thesis by blast
qed

end
