(* ===== verification/FlushTracker.thy ===== *)
theory FlushTracker
  imports Redis
begin

text \<open>
  The shared flush tracker of \<^verbatim>\<open>sharedstate/flushtracker.go\<close>: workers report the lines they have
  stored, in any order, and the leader saves the file position only up to the last line below which
  nothing is missing. The Lua script runs atomically on the server; a command that fails aborts it.
  Lua numbers are the integers they print as. The script's loop has no bound of its own, so it is a
  partial function, with \<^const>\<open>None\<close> for a loop that never ends.
\<close>

definition flushTrackerKey :: string where
  "flushTrackerKey = ''tailer:flush:tracker''"

definition seqField :: string where "seqField = ''_flushed_seq''"
definition posField :: string where "posField = ''_flushed_pos''"

record QueueEntry =
  qe_Seq :: int
  qe_NextPos :: int
  qe_Line :: string

text \<open>\<^verbatim>\<open>tonumber(x) or 0\<close>.\<close>

definition lua_number :: "string option \<Rightarrow> int" where
  "lua_number v = (case v of None \<Rightarrow> 0 | Some s \<Rightarrow> (case parse_int64 s of None \<Rightarrow> 0 | Some i \<Rightarrow> i))"

fun store_reported :: "'w redis_ops \<Rightarrow> (int \<times> int) list \<Rightarrow> ('w, unit) rcmd" where
  "store_reported R [] w = (Inr (), w)"
| "store_reported R ((seq, pos) # args) w =
     (case HSETNX R flushTrackerKey (itoa seq) (itoa pos) w of
        (Inl err, w') \<Rightarrow> (Inl err, w')
      | (Inr n, w') \<Rightarrow> store_reported R args w')"

partial_function (option) advance ::
  "'w redis_ops \<Rightarrow> int \<Rightarrow> string \<Rightarrow> 'w \<Rightarrow> ((redis_err + int \<times> string) \<times> 'w) option" where
  "advance R flushedSeq flushedPos w =
     (case HGET R flushTrackerKey (itoa (flushedSeq + 1)) w of
        (Inl err, w') \<Rightarrow> Some (Inl err, w')
      | (Inr None, w') \<Rightarrow> Some (Inr (flushedSeq, flushedPos), w')
      | (Inr (Some nextPos), w') \<Rightarrow> advance R (flushedSeq + 1) nextPos w')"

definition persist :: "'w redis_ops \<Rightarrow> int \<times> string \<Rightarrow> ('w, int \<times> string) rcmd" where
  "persist R p w =
     (case HSET R flushTrackerKey seqField (itoa (fst p)) w of
        (Inl err, w') \<Rightarrow> (Inl err, w')
      | (Inr n, w') \<Rightarrow>
          (case HSET R flushTrackerKey posField (snd p) w' of
             (Inl err, w'') \<Rightarrow> (Inl err, w'')
           | (Inr n, w'') \<Rightarrow> (Inr p, w'')))"

text \<open>Lua computes with doubles, which are exact up to \<open>2 ^ 53\<close>; numbers and positions are taken to stay below it.\<close>

definition reportFlushedLua ::
  "'w redis_ops \<Rightarrow> (int \<times> int) list \<Rightarrow> 'w \<Rightarrow> ((redis_err + int \<times> string) \<times> 'w) option" where
  "reportFlushedLua R args w =
     (case HGET R flushTrackerKey seqField w of
        (Inl err, w1) \<Rightarrow> Some (Inl err, w1)
      | (Inr s, w1) \<Rightarrow>
     (case HGET R flushTrackerKey posField w1 of
        (Inl err, w2) \<Rightarrow> Some (Inl err, w2)
      | (Inr p, w2) \<Rightarrow>
     (case store_reported R args w2 of
        (Inl err, w3) \<Rightarrow> Some (Inl err, w3)
      | (Inr u, w3) \<Rightarrow>
     (case advance R (lua_number s) (itoa (lua_number p)) w3 of
        None \<Rightarrow> None
      | Some (Inl err, w4) \<Rightarrow> Some (Inl err, w4)
      | Some (Inr r, w4) \<Rightarrow> Some (persist R r w4)))))"

text \<open>
  \<^verbatim>\<open>redisToInt64\<close>: a text that does not parse leaves 0 (of an out-of-range number Go returns the
  nearest bound, which the tracker never writes).
\<close>

definition redisToInt64 :: "string option \<Rightarrow> int" where
  "redisToInt64 v = (case v of None \<Rightarrow> 0 | Some s \<Rightarrow> (case parse_int64 s of None \<Rightarrow> 0 | Some i \<Rightarrow> i))"

text \<open>\<^verbatim>\<open>HMGET\<close> of the two fields, as two reads.\<close>

definition GetFlushedPos :: "'w redis_ops \<Rightarrow> 'w \<Rightarrow> (int \<times> int) \<times> 'w" where
  "GetFlushedPos R w =
     (case HGET R flushTrackerKey seqField w of
        (Inl err, w1) \<Rightarrow> ((0, 0), w1)
      | (Inr s, w1) \<Rightarrow>
          (case HGET R flushTrackerKey posField w1 of
             (Inl err, w2) \<Rightarrow> ((0, 0), w2)
           | (Inr p, w2) \<Rightarrow> ((redisToInt64 s, redisToInt64 p), w2)))"

definition ReportFlushed ::
  "'w redis_ops \<Rightarrow> QueueEntry list \<Rightarrow> 'w \<Rightarrow> ((redis_err + int \<times> int) \<times> 'w) option" where
  "ReportFlushed R entries w =
     (if entries = [] then Some (map_prod Inr id (GetFlushedPos R w))
      else
        (case reportFlushedLua R (map (\<lambda>e. (qe_Seq e, qe_NextPos e)) entries) w of
           None \<Rightarrow> None
         | Some (Inl err, w') \<Rightarrow> Some (Inl err, w')
         | Some (Inr (s, p), w') \<Rightarrow> Some (Inr (s, redisToInt64 (Some p)), w')))"

text \<open>The tracker of one process: the last sequence number it gave out.\<close>

definition NewFlushTracker :: "'w redis_ops option \<Rightarrow> 'w \<Rightarrow> int \<times> 'w" where
  "NewFlushTracker client w =
     (case client of
        None \<Rightarrow> (0, w)
      | Some R \<Rightarrow> (let (p, w') = GetFlushedPos R w in (fst p, w')))"

definition NextSeq :: "int \<Rightarrow> int \<times> int" where
  "NextSeq seq = (int64 (seq + 1), int64 (seq + 1))"

definition Reset :: "'w redis_ops \<Rightarrow> int \<times> 'w \<Rightarrow> int \<times> 'w" where
  "Reset R s = (0, snd (DEL R flushTrackerKey (snd s)))"

section \<open>What the tracker's hash says\<close>

type_synonym hash = "string \<rightharpoonup> string"

definition tracker :: "keyspace \<Rightarrow> hash" where
  "tracker m = key_hash (m flushTrackerKey)"

definition flushed_seq :: "hash \<Rightarrow> int" where
  "flushed_seq h = lua_number (h seqField)"

text \<open>The position reported for a line.\<close>

definition reported :: "hash \<Rightarrow> int \<Rightarrow> string option" where
  "reported h i = h (itoa i)"

text \<open>
  The invariant: the saved frontier is a number from 0 on, every line up to it has been reported, and
  the saved position is that of the last of them. Lines and positions are 64-bit numbers.
\<close>

definition tracker_ok :: "hash \<Rightarrow> bool" where
  "tracker_ok h \<longleftrightarrow> 0 \<le> flushed_seq h \<and> (\<forall>i. 0 < i \<and> i \<le> flushed_seq h \<longrightarrow> reported h i \<noteq> None) \<and>
     lua_number (h posField) = (if flushed_seq h = 0 then 0 else lua_number (reported h (flushed_seq h))) \<and>
     (\<forall>i v. reported h i = Some v \<longrightarrow> is_int64 i \<and> (\<exists>p. is_int64 p \<and> v = itoa p))"

fun put_reports :: "(int \<times> int) list \<Rightarrow> hash \<Rightarrow> hash" where
  "put_reports [] h = h"
| "put_reports ((s, p) # args) h =
     put_reports args (if h (itoa s) = None then h(itoa s \<mapsto> itoa p) else h)"

lemma field_not_number [simp]: "itoa i \<noteq> seqField" "itoa i \<noteq> posField" "seqField \<noteq> itoa i" "posField \<noteq> itoa i"
proof -
  have "CHR ''_'' \<notin> set (itoa i)" using itoa_chars [of "CHR ''_''" i] by (auto simp: is_digit_def)
  moreover have "CHR ''_'' \<in> set seqField" "CHR ''_'' \<in> set posField" by (simp_all add: seqField_def posField_def)
  ultimately show "itoa i \<noteq> seqField" "itoa i \<noteq> posField" "seqField \<noteq> itoa i" "posField \<noteq> itoa i" by metis+
qed

lemma fields_differ [simp]: "seqField \<noteq> posField" "posField \<noteq> seqField"
  by (simp_all add: seqField_def posField_def)

lemma put_reports_fields [simp]: "put_reports args h seqField = h seqField" "put_reports args h posField = h posField"
  by (induction args h rule: put_reports.induct) auto

lemma put_reports_keeps: "h f = Some v \<Longrightarrow> put_reports args h f = Some v"
proof (induction args h rule: put_reports.induct)
  case (2 s p args h)
  then have "(if h (itoa s) = None then h(itoa s \<mapsto> itoa p) else h) f = Some v" by (cases "f = itoa s") auto
  with 2 show ?case by simp
qed simp

lemma put_reports_reported:
  "reported (put_reports args h) i \<noteq> None \<longleftrightarrow> reported h i \<noteq> None \<or> i \<in> fst ` set args"
  by (induction args h rule: put_reports.induct) (auto simp: reported_def)

lemma put_reports_dom: "dom (put_reports args h) = dom h \<union> itoa ` fst ` set args"
  by (induction args h rule: put_reports.induct) auto

lemma put_reports_value:
  assumes "reported (put_reports args h) i = Some v" "reported h i = None"
  shows "\<exists>p. (i, p) \<in> set args \<and> v = itoa p"
  using assms
proof (induction args h rule: put_reports.induct)
  case (2 s p args h)
  show ?case
  proof (cases "i = s")
    case True
    with "2.prems"(2) have "put_reports ((s, p) # args) h (itoa i) = Some (itoa p)"
      by (simp add: reported_def put_reports_keeps)
    with "2.prems"(1) have "v = itoa p" by (simp only: reported_def option.inject)
    with True show ?thesis by auto
  next
    case False
    with 2 show ?thesis by (auto simp: reported_def split: if_splits)
  qed
qed (simp add: reported_def)

lemma lua_number_itoa [simp]: "is_int64 i \<Longrightarrow> lua_number (Some (itoa i)) = i"
  by (simp add: lua_number_def parse_int64_itoa)

section \<open>Running the script\<close>

context redis_up
begin

lemma HGET_run:
  "\<exists>w'. HGET R flushTrackerKey f w = (Inr (tracker (ks w) f), w') \<and> ks w' = ks w \<and> clk w' = clk w"
  using up_hash(1) [of flushTrackerKey f w] hget_law [of flushTrackerKey f w] unfolding tracker_def by blast

lemma HSET_run:
  "\<exists>n w'. HSET R flushTrackerKey f v w = (Inr n, w') \<and> tracker (ks w') = (tracker (ks w))(f \<mapsto> v)"
proof -
  obtain n w' where r: "HSET R flushTrackerKey f v w = (Inr n, w')" using up_hash(3) by blast
  from hset_law [OF r] have "tracker (ks w') = (tracker (ks w))(f \<mapsto> v)" by (simp add: tracker_def)
  with r show ?thesis by blast
qed

lemma HSETNX_run:
  "\<exists>n w'. HSETNX R flushTrackerKey f v w = (Inr n, w') \<and>
     tracker (ks w') = (if tracker (ks w) f = None then (tracker (ks w))(f \<mapsto> v) else tracker (ks w))"
proof -
  obtain n w' where r: "HSETNX R flushTrackerKey f v w = (Inr n, w')" using up_hash(2) by blast
  from hsetnx_law [OF r] have "tracker (ks w') = (if tracker (ks w) f = None then (tracker (ks w))(f \<mapsto> v) else tracker (ks w))"
    by (simp add: tracker_def)
  with r show ?thesis by blast
qed

lemma store_reported_run:
  "\<exists>w'. store_reported R args w = (Inr (), w') \<and> tracker (ks w') = put_reports args (tracker (ks w))"
proof (induction args arbitrary: w)
  case Nil
  then show ?case by simp
next
  case (Cons a args)
  obtain s p where a: "a = (s, p)" by (cases a)
  from HSETNX_run [of "itoa s" "itoa p" w] obtain n w1 where
    "HSETNX R flushTrackerKey (itoa s) (itoa p) w = (Inr n, w1)"
    "tracker (ks w1) = (if tracker (ks w) (itoa s) = None then (tracker (ks w))(itoa s \<mapsto> itoa p) else tracker (ks w))" by blast
  with Cons.IH [of w1] a show ?case by auto
qed

text \<open>The loop stops at the first line not reported, when finitely many are.\<close>

lemma advance_run:
  assumes "finite (dom (tracker (ks w)))"
  shows "\<exists>s' p' w'. advance R s p w = Some (Inr (s', p'), w') \<and> ks w' = ks w \<and> s \<le> s' \<and>
    (\<forall>i. s < i \<and> i \<le> s' \<longrightarrow> reported (tracker (ks w)) i \<noteq> None) \<and> reported (tracker (ks w)) (s' + 1) = None \<and>
    (if s' = s then p' = p else reported (tracker (ks w)) s' = Some p')"
proof -
  define gap where "gap s = card {i. s < i \<and> reported (tracker (ks w)) i \<noteq> None}" for s
  have fin: "finite {i. s < i \<and> reported (tracker (ks w)) i \<noteq> None}" for s
  proof (rule finite_imageD)
    show "finite (itoa ` {i. s < i \<and> reported (tracker (ks w)) i \<noteq> None})"
      by (rule finite_subset [OF _ assms]) (auto simp: reported_def)
  qed (simp add: inj_on_def)
  have "ks v = ks w \<Longrightarrow> \<exists>s' p' w'. advance R s p v = Some (Inr (s', p'), w') \<and> ks w' = ks w \<and> s \<le> s' \<and>
    (\<forall>i. s < i \<and> i \<le> s' \<longrightarrow> reported (tracker (ks w)) i \<noteq> None) \<and> reported (tracker (ks w)) (s' + 1) = None \<and>
    (if s' = s then p' = p else reported (tracker (ks w)) s' = Some p')" for v
  proof (induction "gap s" arbitrary: s p v rule: less_induct)
    case less
    from HGET_run [of "itoa (s + 1)" v] obtain v' where
      get: "HGET R flushTrackerKey (itoa (s + 1)) v = (Inr (reported (tracker (ks w)) (s + 1)), v')" "ks v' = ks w"
      using less.prems by (auto simp: reported_def)
    show ?case
    proof (cases "reported (tracker (ks w)) (s + 1)")
      case None
      then have "advance R s p v = Some (Inr (s, p), v')" using get by (subst advance.simps) simp
      with None get show ?thesis by auto
    next
      case (Some q)
      have "{i. s + 1 < i \<and> reported (tracker (ks w)) i \<noteq> None} \<subset> {i. s < i \<and> reported (tracker (ks w)) i \<noteq> None}"
        using Some by (auto simp: psubset_eq)
      then have "gap (s + 1) < gap s" unfolding gap_def by (rule psubset_card_mono [OF fin])
      from less.hyps [OF this get(2), of q] obtain s' p' w' where
        IH: "advance R (s + 1) q v' = Some (Inr (s', p'), w')" "ks w' = ks w" "s + 1 \<le> s'"
        "\<forall>i. s + 1 < i \<and> i \<le> s' \<longrightarrow> reported (tracker (ks w)) i \<noteq> None" "reported (tracker (ks w)) (s' + 1) = None"
        "if s' = s + 1 then p' = q else reported (tracker (ks w)) s' = Some p'" by blast
      have "advance R s p v = Some (Inr (s', p'), w')" using get Some IH(1) by (subst advance.simps) simp
      moreover have "reported (tracker (ks w)) i \<noteq> None" if "s < i" "i \<le> s'" for i
        using IH(4) Some that by (cases "i = s + 1") auto
      moreover have "if s' = s then p' = p else reported (tracker (ks w)) s' = Some p'"
        using IH(3,6) Some by (auto split: if_splits)
      ultimately show ?thesis using IH by (intro exI [of _ s'] exI [of _ p'] exI [of _ w']) auto
    qed
  qed
  then show ?thesis by blast
qed

lemma persist_run:
  "\<exists>w'. persist R (s, p) w = (Inr (s, p), w') \<and> tracker (ks w') = (tracker (ks w))(seqField \<mapsto> itoa s, posField \<mapsto> p)"
proof -
  from HSET_run [of seqField "itoa s" w] obtain n w1 where
    1: "HSET R flushTrackerKey seqField (itoa s) w = (Inr n, w1)" "tracker (ks w1) = (tracker (ks w))(seqField \<mapsto> itoa s)" by blast
  from HSET_run [of posField p w1] obtain m w2 where
    2: "HSET R flushTrackerKey posField p w1 = (Inr m, w2)" "tracker (ks w2) = (tracker (ks w1))(posField \<mapsto> p)" by blast
  from 1 2 show ?thesis by (auto simp: persist_def)
qed

lemma report_run:
  assumes "tracker_ok (tracker (ks w))" "finite (dom (tracker (ks w)))"
    and "\<And>a. a \<in> set args \<Longrightarrow> is_int64 (fst a) \<and> is_int64 (snd a)"
  defines "h1 \<equiv> put_reports args (tracker (ks w))" and "s0 \<equiv> flushed_seq (tracker (ks w))"
  shows "\<exists>s p w'. reportFlushedLua R args w = Some (Inr (s, itoa p), w') \<and> is_int64 p \<and> is_int64 s \<and> s0 \<le> s \<and>
    tracker (ks w') = h1(seqField \<mapsto> itoa s, posField \<mapsto> itoa p) \<and>
    (\<forall>i. s0 < i \<and> i \<le> s \<longrightarrow> reported h1 i \<noteq> None) \<and> reported h1 (s + 1) = None \<and>
    (if s = 0 then p = 0 else reported h1 s = Some (itoa p))"
proof -
  let ?h = "tracker (ks w)"
  from HGET_run [of seqField w] obtain w1 where 1: "HGET R flushTrackerKey seqField w = (Inr (?h seqField), w1)" "ks w1 = ks w"
    by blast
  from HGET_run [of posField w1] 1 obtain w2 where
    2: "HGET R flushTrackerKey posField w1 = (Inr (?h posField), w2)" "ks w2 = ks w" by auto
  from store_reported_run [of args w2] 2 obtain w3 where
    3: "store_reported R args w2 = (Inr (), w3)" "tracker (ks w3) = h1" by (auto simp: h1_def)
  have fin: "finite (dom (tracker (ks w3)))" using assms(2) by (simp add: 3 h1_def put_reports_dom)
  let ?p0 = "lua_number (?h posField)"
  from advance_run [OF fin, of s0 "itoa ?p0", unfolded 3] obtain s t w4 where
    4: "advance R s0 (itoa ?p0) w3 = Some (Inr (s, t), w4)" "tracker (ks w4) = h1" "s0 \<le> s"
    "\<forall>i. s0 < i \<and> i \<le> s \<longrightarrow> reported h1 i \<noteq> None" "reported h1 (s + 1) = None"
    "if s = s0 then t = itoa ?p0 else reported h1 s = Some t" using 3(2) by metis
  have num: "is_int64 i \<and> (\<exists>p. is_int64 p \<and> v = itoa p)" if "reported h1 i = Some v" for i v
  proof (cases "reported ?h i")
    case None
    with put_reports_value [of args ?h i v] that obtain p where "(i, p) \<in> set args" "v = itoa p" by (auto simp: h1_def)
    with assms(3) [of "(i, p)"] show ?thesis by auto
  next
    case (Some u)
    with that have "u = v" using put_reports_keeps [of ?h "itoa i" u args] by (simp add: reported_def h1_def)
    with Some assms(1) show ?thesis by (auto simp: tracker_ok_def)
  qed
  have old: "\<exists>p. is_int64 p \<and> itoa ?p0 = itoa p \<and> (if s0 = 0 then p = 0 else reported h1 s0 = Some (itoa p)) \<and> is_int64 s0"
  proof (cases "s0 = 0")
    case True
    then show ?thesis using assms(1) by (auto simp: tracker_ok_def s0_def is_int64_def)
  next
    case False
    with assms(1) have "0 < s0" "\<forall>i. 0 < i \<and> i \<le> s0 \<longrightarrow> reported ?h i \<noteq> None" by (simp_all add: tracker_ok_def s0_def)
    then obtain v where v: "reported ?h s0 = Some v" by auto
    moreover have "\<forall>i v. reported ?h i = Some v \<longrightarrow> is_int64 i \<and> (\<exists>p. is_int64 p \<and> v = itoa p)"
      using assms(1) by (simp add: tracker_ok_def)
    ultimately obtain p where "is_int64 p" "v = itoa p" "is_int64 s0" by blast
    moreover have "reported h1 s0 = Some v" using v put_reports_keeps [of ?h "itoa s0" v args] by (simp add: reported_def h1_def)
    ultimately show ?thesis using False assms(1) v by (auto simp: tracker_ok_def s0_def)
  qed
  obtain p where p: "t = itoa p" "is_int64 p" "is_int64 s" "if s = 0 then p = 0 else reported h1 s = Some (itoa p)"
  proof (cases "s = s0")
    case True
    with old 4(6) that show ?thesis by auto
  next
    case False
    with 4(6) num [of s t] 4(3) assms(1) that show ?thesis by (auto simp: tracker_ok_def s0_def)
  qed
  from persist_run [of s t w4] obtain w5 where
    5: "persist R (s, t) w4 = (Inr (s, t), w5)" "tracker (ks w5) = h1(seqField \<mapsto> itoa s, posField \<mapsto> t)" by (auto simp: 4)
  have "reportFlushedLua R args w = Some (Inr (s, itoa p), w5)"
    using 1 2 3 4(1) 5 p(1) by (simp add: reportFlushedLua_def s0_def flushed_seq_def)
  with 4 5 p show ?thesis by (intro exI [of _ s] exI [of _ p] exI [of _ w5]) auto
qed

end

text \<open>What a report does to the frontier and to the reported positions.\<close>

lemma report_frontier:
  assumes "redis_up ks clk adv R" "tracker_ok (tracker (ks w))" "finite (dom (tracker (ks w)))" "entries \<noteq> []"
    and "\<And>e. e \<in> set entries \<Longrightarrow> is_int64 (qe_Seq e) \<and> is_int64 (qe_NextPos e)"
  shows "\<exists>s p w'. ReportFlushed R entries w = Some (Inr (s, p), w') \<and>
    tracker_ok (tracker (ks w')) \<and> finite (dom (tracker (ks w'))) \<and>
    flushed_seq (tracker (ks w)) \<le> s \<and> flushed_seq (tracker (ks w')) = s \<and>
    (\<forall>i. 0 < i \<and> i \<le> s \<longrightarrow> reported (tracker (ks w)) i \<noteq> None \<or> i \<in> qe_Seq ` set entries) \<and>
    reported (tracker (ks w)) (s + 1) = None \<and> s + 1 \<notin> qe_Seq ` set entries \<and>
    (if s = 0 then p = 0 else reported (tracker (ks w')) s = Some (itoa p)) \<and>
    (\<forall>i. reported (tracker (ks w')) i = reported (put_reports (map (\<lambda>e. (qe_Seq e, qe_NextPos e)) entries) (tracker (ks w))) i)"
proof -
  let ?args = "map (\<lambda>e. (qe_Seq e, qe_NextPos e)) entries"
  let ?h = "tracker (ks w)" let ?h1 = "put_reports ?args ?h" let ?s0 = "flushed_seq ?h"
  have args: "is_int64 (fst a) \<and> is_int64 (snd a)" if "a \<in> set ?args" for a using that assms(5) by auto
  from redis_up.report_run [OF assms(1-3) args] obtain s p w' where
    run: "reportFlushedLua R ?args w = Some (Inr (s, itoa p), w')" "is_int64 p" "is_int64 s" "?s0 \<le> s"
    and h': "tracker (ks w') = ?h1(seqField \<mapsto> itoa s, posField \<mapsto> itoa p)"
    and front: "\<forall>i. ?s0 < i \<and> i \<le> s \<longrightarrow> reported ?h1 i \<noteq> None" "reported ?h1 (s + 1) = None"
      "if s = 0 then p = 0 else reported ?h1 s = Some (itoa p)" by blast
  have rep: "reported (tracker (ks w')) i = reported ?h1 i" for i by (simp add: reported_def h')
  have iff: "reported ?h1 i \<noteq> None \<longleftrightarrow> reported ?h i \<noteq> None \<or> i \<in> qe_Seq ` set entries" for i
    using put_reports_reported [of ?args ?h i] by (simp add: image_image)
  have all: "reported ?h1 i \<noteq> None" if "0 < i" "i \<le> s" for i
  proof (cases "i \<le> ?s0")
    case True
    with that assms(2) show ?thesis unfolding iff by (auto simp: tracker_ok_def)
  qed (use that front(1) in auto)
  have num: "is_int64 i \<and> (\<exists>p. is_int64 p \<and> v = itoa p)" if "reported ?h1 i = Some v" for i v
  proof (cases "reported ?h i")
    case None
    with put_reports_value [of ?args ?h i v] that obtain q where "(i, q) \<in> set ?args" "v = itoa q" by auto
    with args [of "(i, q)"] show ?thesis by auto
  next
    case (Some u)
    with that have "u = v" using put_reports_keeps [of ?h "itoa i" u ?args] by (simp add: reported_def)
    with Some assms(2) show ?thesis by (auto simp: tracker_ok_def)
  qed
  have seq: "flushed_seq (tracker (ks w')) = s" "lua_number (tracker (ks w') posField) = p"
    using run(2,3) by (simp_all add: flushed_seq_def h')
  have "0 \<le> s" using run(4) assms(2) by (simp add: tracker_ok_def)
  then have "tracker_ok (tracker (ks w'))"
    using all num front(3) run(2) by (auto simp: tracker_ok_def seq rep)
  moreover have "finite (dom (tracker (ks w')))" using assms(3) by (simp add: h' put_reports_dom)
  moreover have "ReportFlushed R entries w = Some (Inr (s, p), w')"
    using run assms(4) by (simp add: ReportFlushed_def redisToInt64_def parse_int64_itoa)
  ultimately show ?thesis
    using run(4) seq(1) all iff front(2,3) iff [of "s + 1"] by (intro exI [of _ s] exI [of _ p] exI [of _ w']) (auto simp: rep)
qed

section \<open>Properties\<close>

text \<open>
  (C13) Reporting stored lines, in any order and any number of times, always returns, and moves the
  frontier exactly to the last line below which every line has been reported: never past a line that
  is missing, never stopping before one that is there, never backwards. The position it returns is the
  one reported for that line. The invariant that makes the next report correct is kept.
\<close>

theorem ReportFlushed_frontier:
  assumes "redis_up ks clk adv R" "tracker_ok (tracker (ks w))" "finite (dom (tracker (ks w)))" "entries \<noteq> []"
    and "\<And>e. e \<in> set entries \<Longrightarrow> is_int64 (qe_Seq e) \<and> is_int64 (qe_NextPos e)"
  shows "\<exists>s p w'. ReportFlushed R entries w = Some (Inr (s, p), w') \<and>
    tracker_ok (tracker (ks w')) \<and> finite (dom (tracker (ks w'))) \<and>
    flushed_seq (tracker (ks w)) \<le> s \<and> flushed_seq (tracker (ks w')) = s \<and>
    (\<forall>i. 0 < i \<and> i \<le> s \<longrightarrow> reported (tracker (ks w)) i \<noteq> None \<or> i \<in> qe_Seq ` set entries) \<and>
    reported (tracker (ks w)) (s + 1) = None \<and> s + 1 \<notin> qe_Seq ` set entries \<and>
    (if s = 0 then p = 0 else reported (tracker (ks w')) s = Some (itoa p))"
  using report_frontier [OF assms] by blast

definition entry :: "int \<Rightarrow> int \<Rightarrow> QueueEntry" where
  "entry s p = \<lparr>qe_Seq = s, qe_NextPos = p, qe_Line = []\<rparr>"

definition memf :: mem_state where
  "memf = \<lparr>mem_clk = 0, mem_ks = Map.empty\<rparr>"

theorem ReportFlushed_frontier_witness:
  "\<exists>s p w'. ReportFlushed mem_redis [entry 2 70, entry 1 30, entry 4 150] memf = Some (Inr (s, p), w') \<and> s = 2"
proof -
  have h: "tracker (mem_ks memf) = Map.empty" by (simp add: tracker_def memf_def key_hash_def)
  have ok: "tracker_ok (tracker (mem_ks memf))" by (simp add: h tracker_ok_def flushed_seq_def lua_number_def reported_def)
  have fin: "finite (dom (tracker (mem_ks memf)))" by (simp add: h)
  have int: "is_int64 (qe_Seq e) \<and> is_int64 (qe_NextPos e)" if "e \<in> set [entry 2 70, entry 1 30, entry 4 150]" for e
    using that by (auto simp: entry_def is_int64_def)
  have seqs: "qe_Seq ` set [entry 2 70, entry 1 30, entry 4 150] = {2, 1, 4}" by (simp add: entry_def)
  have "\<exists>s p w'. ReportFlushed mem_redis [entry 2 70, entry 1 30, entry 4 150] memf = Some (Inr (s, p), w') \<and>
    flushed_seq (tracker (mem_ks memf)) \<le> s \<and>
    (\<forall>i. 0 < i \<and> i \<le> s \<longrightarrow> reported (tracker (mem_ks memf)) i \<noteq> None \<or> i \<in> {2, 1, 4}) \<and> s + 1 \<notin> {2, 1, 4}"
    (is "\<exists>s p w'. ?Q s p w'")
  proof -
    have "\<exists>s p w'. ReportFlushed mem_redis [entry 2 70, entry 1 30, entry 4 150] memf = Some (Inr (s, p), w') \<and>
      tracker_ok (tracker (mem_ks w')) \<and> finite (dom (tracker (mem_ks w'))) \<and>
      flushed_seq (tracker (mem_ks memf)) \<le> s \<and> flushed_seq (tracker (mem_ks w')) = s \<and>
      (\<forall>i. 0 < i \<and> i \<le> s \<longrightarrow> reported (tracker (mem_ks memf)) i \<noteq> None \<or>
         i \<in> qe_Seq ` set [entry 2 70, entry 1 30, entry 4 150]) \<and>
      reported (tracker (mem_ks memf)) (s + 1) = None \<and> s + 1 \<notin> qe_Seq ` set [entry 2 70, entry 1 30, entry 4 150] \<and>
      (if s = 0 then p = 0 else reported (tracker (mem_ks w')) s = Some (itoa p))"
      by (rule ReportFlushed_frontier [OF mem.redis_up_axioms ok fin]) (simp, rule int)
    then show ?thesis unfolding seqs by blast
  qed
  then obtain s p w' where run: "ReportFlushed mem_redis [entry 2 70, entry 1 30, entry 4 150] memf = Some (Inr (s, p), w')"
    "flushed_seq (tracker (mem_ks memf)) \<le> s"
    "\<forall>i. 0 < i \<and> i \<le> s \<longrightarrow> reported (tracker (mem_ks memf)) i \<noteq> None \<or> i \<in> {2, 1, 4}" "s + 1 \<notin> {2, 1, 4}"
    by (elim exE conjE) blast
  have "0 \<le> s" using run(2) by (simp add: h flushed_seq_def lua_number_def)
  moreover have "\<not> 3 \<le> s" using run(3) [rule_format, of 3] by (auto simp: h reported_def)
  ultimately have "s = 2" using run(4) by auto
  with run(1) show ?thesis by blast
qed

end
