(* ===== verification/Leader.thy ===== *)
theory Leader
  imports Redis
begin

text \<open>
  Leader election, \<^verbatim>\<open>sharedstate/leader.go\<close>: a Redis key with an expiry, taken with \<^verbatim>\<open>SET NX\<close>, renewed
  and released by scripts that first compare the owner. Scripts run atomically on the server; between a
  process and the server a request can be lost before it is executed, or its answer after it, which is
  what the process sees as a transient error. \<^verbatim>\<open>RunLeadership\<close> is a state machine per process: a tick
  of its ticker, one attempt of \<^verbatim>\<open>Acquire\<close> (of at most three), and cancellation of its context.
\<close>

section \<open>Requests that get lost\<close>

datatype rfault = Fine | NotSent | ReplyLost

definition with_fault :: "('w, 'a) rcmd \<Rightarrow> ('w \<times> rfault list, 'a) rcmd" where
  "with_fault c s =
     (case snd s of
        [] \<Rightarrow> (case c (fst s) of (r, w') \<Rightarrow> (r, w', []))
      | Fine # fs \<Rightarrow> (case c (fst s) of (r, w') \<Rightarrow> (r, w', fs))
      | NotSent # fs \<Rightarrow> (Inl RedisErr, fst s, fs)
      | ReplyLost # fs \<Rightarrow> (Inl RedisErr, snd (c (fst s)), fs))"

section \<open>The elector\<close>

record LeaderElector =
  le_key :: string
  le_id :: string
  le_ttl :: duration

definition NewLeaderElector :: "string \<Rightarrow> string \<Rightarrow> duration \<Rightarrow> LeaderElector" where
  "NewLeaderElector uuid key ttl = \<lparr>le_key = ''leader:'' @ key, le_id = uuid, le_ttl = ttl\<rparr>"

text \<open>\<^verbatim>\<open>ttl.Milliseconds()\<close>, as a duration again.\<close>

definition whole_ms :: "duration \<Rightarrow> duration" where
  "whole_ms ttl = (ttl div Millisecond) * Millisecond"

definition renewScript :: "'w redis_ops \<Rightarrow> string \<Rightarrow> string \<Rightarrow> duration \<Rightarrow> ('w, int) rcmd" where
  "renewScript R key i ttl w =
     (case GET R key w of
        (Inl err, w') \<Rightarrow> (Inl err, w')
      | (Inr v, w') \<Rightarrow> (if v = Some i then PEXPIRE R key ttl w' else (Inr 0, w')))"

definition releaseScript :: "'w redis_ops \<Rightarrow> string \<Rightarrow> string \<Rightarrow> ('w, int) rcmd" where
  "releaseScript R key i w =
     (case GET R key w of
        (Inl err, w') \<Rightarrow> (Inl err, w')
      | (Inr v, w') \<Rightarrow> (if v = Some i then DEL R key w' else (Inr 0, w')))"

definition maxAttempts :: nat where "maxAttempts = 3"

definition acquireAttempt :: "'w redis_ops \<Rightarrow> LeaderElector \<Rightarrow> ('w \<times> rfault list, bool) rcmd" where
  "acquireAttempt R le = with_fault (SETNX R (le_key le) (le_id le) (le_ttl le))"

text \<open>\<^verbatim>\<open>Renew\<close>: still leader, definitely not any more.\<close>

definition Renew :: "'w redis_ops \<Rightarrow> LeaderElector \<Rightarrow> 'w \<times> rfault list \<Rightarrow> (bool \<times> bool) \<times> 'w \<times> rfault list" where
  "Renew R le s =
     (case with_fault (renewScript R (le_key le) (le_id le) (whole_ms (le_ttl le))) s of
        (Inl err, s') \<Rightarrow> ((False, False), s')
      | (Inr res, s') \<Rightarrow> (if res = 1 then ((True, False), s') else ((False, True), s')))"

definition Release :: "'w redis_ops \<Rightarrow> LeaderElector \<Rightarrow> 'w \<times> rfault list \<Rightarrow> 'w \<times> rfault list" where
  "Release R le s = snd (with_fault (releaseScript R (le_key le) (le_id le)) s)"

section \<open>The leadership loop\<close>

text \<open>\<open>Acquiring n\<close>: inside \<^verbatim>\<open>Acquire\<close>, after \<open>n\<close> failed attempts.\<close>

datatype phase = Follower | Acquiring nat | Leading | Stopped
datatype callback = OnBecomeLeader | OnStepDown
datatype lead_event = Tick | Attempt | Cancel

record instance_state =
  in_phase :: phase
  in_fails :: nat
  in_calls :: "callback list"

definition start_instance :: instance_state where
  "start_instance = \<lparr>in_phase = Acquiring 0, in_fails = 0, in_calls = []\<rparr>"

definition becomeLeader :: "instance_state \<Rightarrow> instance_state" where
  "becomeLeader ins = ins\<lparr>in_phase := Leading, in_calls := in_calls ins @ [OnBecomeLeader]\<rparr>"

definition stepDown :: "phase \<Rightarrow> instance_state \<Rightarrow> instance_state" where
  "stepDown ph ins = ins\<lparr>in_phase := ph, in_calls := in_calls ins @ [OnStepDown]\<rparr>"

definition maxTransientFails :: "int \<Rightarrow> nat" where
  "maxTransientFails n = (if n \<le> 0 then 2 else nat n)"

definition attemptStep ::
  "'w redis_ops \<Rightarrow> LeaderElector \<Rightarrow> nat \<Rightarrow> instance_state \<times> 'w \<times> rfault list \<Rightarrow> instance_state \<times> 'w \<times> rfault list" where
  "attemptStep R le n c =
     (case acquireAttempt R le (snd c) of
        (Inl err, s') \<Rightarrow>
          ((fst c)\<lparr>in_phase := (if n + 1 < maxAttempts then Acquiring (n + 1) else Follower)\<rparr>, s')
      | (Inr True, s') \<Rightarrow> (becomeLeader (fst c), s')
      | (Inr False, s') \<Rightarrow> ((fst c)\<lparr>in_phase := Follower\<rparr>, s'))"

definition renewStep ::
  "'w redis_ops \<Rightarrow> LeaderElector \<Rightarrow> int \<Rightarrow> instance_state \<times> 'w \<times> rfault list \<Rightarrow> instance_state \<times> 'w \<times> rfault list" where
  "renewStep R le maxFails c =
     (case Renew R le (snd c) of
        ((ok, lost), s') \<Rightarrow>
          if ok then ((fst c)\<lparr>in_fails := 0\<rparr>, s')
          else if lost then (stepDown Follower (fst c), s')
          else
            (let ins = (fst c)\<lparr>in_fails := in_fails (fst c) + 1\<rparr> in
             (if in_fails ins \<ge> maxTransientFails maxFails then stepDown Follower ins else ins, s')))"

fun lead_step ::
  "'w redis_ops \<Rightarrow> LeaderElector \<Rightarrow> int \<Rightarrow> lead_event \<Rightarrow> instance_state \<times> 'w \<times> rfault list \<Rightarrow> instance_state \<times> 'w \<times> rfault list" where
  "lead_step R le maxFails Tick c =
     (case in_phase (fst c) of
        Follower \<Rightarrow> ((fst c)\<lparr>in_phase := Acquiring 0\<rparr>, snd c)
      | Leading \<Rightarrow> renewStep R le maxFails c
      | _ \<Rightarrow> c)"
| "lead_step R le maxFails Attempt c =
     (case in_phase (fst c) of Acquiring n \<Rightarrow> attemptStep R le n c | _ \<Rightarrow> c)"
| "lead_step R le maxFails Cancel c =
     (case in_phase (fst c) of
        Stopped \<Rightarrow> c
      | Leading \<Rightarrow> (stepDown Stopped (fst c), Release R le (snd c))
      | _ \<Rightarrow> (stepDown Stopped (fst c), snd c))"

fun lead_run ::
  "'w redis_ops \<Rightarrow> LeaderElector \<Rightarrow> int \<Rightarrow> lead_event list \<Rightarrow> instance_state \<times> 'w \<times> rfault list \<Rightarrow> instance_state \<times> 'w \<times> rfault list" where
  "lead_run R le maxFails [] c = c"
| "lead_run R le maxFails (ev # evs) c = lead_run R le maxFails evs (lead_step R le maxFails ev c)"

section \<open>The lock, seen from the keyspace\<close>

definition held :: "keyspace \<Rightarrow> string \<Rightarrow> string \<Rightarrow> time \<Rightarrow> bool" where
  "held m key i t \<longleftrightarrow> (\<exists>e. m key = Some (RStr i, Some e) \<and> t \<le> e)"

lemma held_owner: "held m key i t \<Longrightarrow> held m key j u \<Longrightarrow> i = j"
  by (auto simp: held_def)

lemma held_purge: "held m key i t \<Longrightarrow> u \<le> t \<Longrightarrow> held (purge u m) key i t"
  by (auto simp: held_def purge_def)

lemma held_set_ttl: "held m key i u \<Longrightarrow> held (set_ttl m key t) key i t"
  by (auto simp: held_def set_ttl_def)

text \<open>
  A request by the owner \<open>j\<close> leaves the lock of another owner alone; the requests the elector makes on
  a server that answers.
\<close>

definition spares :: "('w \<Rightarrow> keyspace) \<Rightarrow> ('w \<Rightarrow> time) \<Rightarrow> string \<Rightarrow> string \<Rightarrow> ('w, 'a) rcmd \<Rightarrow> bool" where
  "spares ks clk key j c \<longleftrightarrow> (\<forall>w. clk (snd (c w)) = clk w \<and>
     (\<forall>i t. i \<noteq> j \<and> held (ks w) key i t \<longrightarrow> held (ks (snd (c w))) key i t))"

lemma spares_fault:
  assumes "spares ks clk key j c"
  shows "clk (fst (snd (with_fault c s))) = clk (fst s)"
    and "i \<noteq> j \<Longrightarrow> held (ks (fst s)) key i t \<Longrightarrow> held (ks (fst (snd (with_fault c s)))) key i t"
  using assms unfolding spares_def
  by (auto simp: with_fault_def split: list.split rfault.split prod.split) (metis snd_conv)+

lemma with_fault_Inr: "with_fault c s = (Inr x, s') \<Longrightarrow> \<exists>w'. c (fst s) = (Inr x, w') \<and> fst s' = w'"
  by (auto simp: with_fault_def split: list.splits rfault.splits prod.splits)

context redis_up
begin

lemma spares_acquire: "0 \<le> ttl \<Longrightarrow> spares ks clk key j (SETNX R key j ttl)"
  unfolding spares_def
proof (intro allI conjI impI)
  fix w
  assume "0 \<le> ttl"
  obtain b w' where r: "SETNX R key j ttl w = (Inr b, w')" using up_simple(3) by blast
  note law = setnx_law [OF r \<open>0 \<le> ttl\<close>]
  show "clk (snd (SETNX R key j ttl w)) = clk w" using r law by simp
  fix i t
  assume "i \<noteq> j \<and> held (ks w) key i t"
  then show "held (ks (snd (SETNX R key j ttl w))) key i t" using r law by (auto simp: held_def)
qed

lemma renew_run:
  assumes "0 < ttl"
  shows "\<exists>n w'. renewScript R key j ttl w = (Inr n, w') \<and> clk w' = clk w \<and>
    (if (\<exists>e. ks w key = Some (RStr j, e)) then n = 1 \<and> ks w' = set_ttl (ks w) key (clk w + ttl) else n = 0 \<and> ks w' = ks w)"
proof -
  obtain v w1 where g: "GET R key w = (Inr v, w1)" using up_simple(1) by blast
  note get = get_law [OF g]
  obtain n w2 where p: "PEXPIRE R key ttl w1 = (Inr n, w2)" using up_simple(6) by blast
  note pex = pexpire_law [OF p assms]
  have own: "v = Some j \<longleftrightarrow> (\<exists>e. ks w key = Some (RStr j, e))"
    using get by (auto split: option.splits prod.splits redis_val.splits)
  show ?thesis
  proof (cases "v = Some j")
    case True
    then have "renewScript R key j ttl w = (Inr n, w2)" using g p by (simp add: renewScript_def)
    with True own get pex show ?thesis by auto
  next
    case False
    then have "renewScript R key j ttl w = (Inr 0, w1)" using g by (simp add: renewScript_def)
    with False own get show ?thesis by auto
  qed
qed

lemma spares_renew: "0 < ttl \<Longrightarrow> spares ks clk key j (renewScript R key j ttl)"
  unfolding spares_def
proof (intro allI conjI impI)
  fix w
  assume "0 < ttl"
  from renew_run [OF this, of key j w] obtain n w' where r: "renewScript R key j ttl w = (Inr n, w')" "clk w' = clk w"
    "if (\<exists>e. ks w key = Some (RStr j, e)) then n = 1 \<and> ks w' = set_ttl (ks w) key (clk w + ttl) else n = 0 \<and> ks w' = ks w"
    by blast
  then show "clk (snd (renewScript R key j ttl w)) = clk w" by simp
  fix i t
  assume "i \<noteq> j \<and> held (ks w) key i t"
  then show "held (ks (snd (renewScript R key j ttl w))) key i t" using r by (auto simp: held_def split: if_splits)
qed

lemma spares_release: "spares ks clk key j (releaseScript R key j)"
  unfolding spares_def
proof (intro allI conjI impI)
  fix w
  obtain v w1 where g: "GET R key w = (Inr v, w1)" using up_simple(1) by blast
  note get = get_law [OF g]
  obtain n w2 where d: "DEL R key w1 = (Inr n, w2)" using up_simple(4) by blast
  note del = del_law [OF d]
  show "clk (snd (releaseScript R key j w)) = clk w" using g d get del by (simp add: releaseScript_def)
  fix i t
  assume h: "i \<noteq> j \<and> held (ks w) key i t"
  then have "v \<noteq> Some j" using get by (auto simp: held_def)
  then show "held (ks (snd (releaseScript R key j w))) key i t" using g get h by (simp add: releaseScript_def)
qed

text \<open>A step of one process spares the lock of another and does not move the clock.\<close>

lemma lead_step_spares:
  assumes "0 < le_ttl le" "0 < whole_ms (le_ttl le)" "lead_step R le m ev (ins, s) = (ins', s')"
  shows "clk (fst s') = clk (fst s)"
    and "i \<noteq> le_id le \<Longrightarrow> held (ks (fst s)) (le_key le) i t \<Longrightarrow> held (ks (fst s')) (le_key le) i t"
proof -
  let ?acq = "SETNX R (le_key le) (le_id le) (le_ttl le)"
  let ?ren = "renewScript R (le_key le) (le_id le) (whole_ms (le_ttl le))"
  let ?rel = "releaseScript R (le_key le) (le_id le)"
  have "s' = s \<or> s' = snd (with_fault ?acq s) \<or> s' = snd (with_fault ?ren s) \<or> s' = snd (with_fault ?rel s)"
    using assms(3)
    by (cases ev; cases "in_phase ins")
      (auto simp: attemptStep_def acquireAttempt_def renewStep_def Renew_def Release_def Let_def
        split: prod.splits sum.splits bool.splits if_splits)
  moreover note spares_fault [OF spares_acquire [of "le_ttl le" "le_key le" "le_id le"], where s = s]
    spares_fault [OF spares_renew [OF assms(2), of "le_key le" "le_id le"], where s = s]
    spares_fault [OF spares_release [of "le_key le" "le_id le"], where s = s]
  ultimately show "clk (fst s') = clk (fst s)"
    "i \<noteq> le_id le \<Longrightarrow> held (ks (fst s)) (le_key le) i t \<Longrightarrow> held (ks (fst s')) (le_key le) i t"
    using assms(1) by auto
qed

lemma attempt_wins:
  assumes "0 < le_ttl le" "attemptStep R le n (ins, s) = (ins', s')" "in_phase ins \<noteq> Leading" "in_phase ins' = Leading"
  shows "held (ks (fst s')) (le_key le) (le_id le) (clk (fst s') + le_ttl le)"
proof -
  have "acquireAttempt R le s = (Inr True, s')"
    using assms(2-4) by (auto simp: attemptStep_def split: prod.splits sum.splits bool.splits if_splits)
  then obtain w' where "SETNX R (le_key le) (le_id le) (le_ttl le) (fst s) = (Inr True, w')" "fst s' = w'"
    using with_fault_Inr [of "SETNX R (le_key le) (le_id le) (le_ttl le)" s True s'] by (auto simp: acquireAttempt_def)
  then show ?thesis using setnx_law [of "le_key le" "le_id le" "le_ttl le" "fst s" True w'] assms(1) by (simp add: held_def)
qed

text \<open>A renewal that leaves the process leading: confirmed, or with its lock no shorter than before.\<close>

lemma renew_keeps:
  assumes "0 < whole_ms (le_ttl le)" "renewStep R le m (ins, s) = (ins', s')" "in_phase ins = Leading" "in_phase ins' = Leading"
  shows "in_fails ins' = 0 \<Longrightarrow> held (ks (fst s')) (le_key le) (le_id le) (clk (fst s) + whole_ms (le_ttl le))"
    and "held (ks (fst s)) (le_key le) (le_id le) t \<Longrightarrow> t \<le> clk (fst s) + whole_ms (le_ttl le) \<Longrightarrow>
      held (ks (fst s')) (le_key le) (le_id le) t"
proof -
  let ?ren = "renewScript R (le_key le) (le_id le) (whole_ms (le_ttl le))"
  obtain n w' where r: "?ren (fst s) = (Inr n, w')" "clk w' = clk (fst s)"
    "if (\<exists>e. ks (fst s) (le_key le) = Some (RStr (le_id le), e))
     then n = 1 \<and> ks w' = set_ttl (ks (fst s)) (le_key le) (clk (fst s) + whole_ms (le_ttl le))
     else n = 0 \<and> ks w' = ks (fst s)" using renew_run [OF assms(1), of "le_key le" "le_id le" "fst s"] by blast
  have s': "fst s' = fst s \<or> fst s' = w'"
    using assms(2) r(1) by (auto simp: renewStep_def Renew_def with_fault_def Let_def
      split: prod.splits sum.splits if_splits list.splits rfault.splits)
  show "held (ks (fst s')) (le_key le) (le_id le) (clk (fst s) + whole_ms (le_ttl le))" if "in_fails ins' = 0"
  proof -
    have ok: "fst (fst (Renew R le s))" "s' = snd (Renew R le s)"
      using assms(2-4) that by (auto simp: renewStep_def stepDown_def Let_def split: prod.splits if_splits)
    then have "with_fault ?ren s = (Inr 1, s')"
      by (auto simp: Renew_def split: prod.splits sum.splits if_splits)
    with with_fault_Inr [OF this] r show ?thesis by (auto simp: held_def set_ttl_def split: if_splits)
  qed
  show "held (ks (fst s')) (le_key le) (le_id le) t"
    if "held (ks (fst s)) (le_key le) (le_id le) t" "t \<le> clk (fst s) + whole_ms (le_ttl le)"
    using s' r(3) that by (auto simp: held_def set_ttl_def split: if_splits)
qed

end

section \<open>Several processes\<close>

text \<open>
  Processes numbered from 0, each with an id of its own, competing for one key. \<open>sy_lease\<close> is a ghost:
  the instant until which the last confirmed acquisition or renewal of a process entitles it to the
  lock. Between steps of the processes time passes, requests get lost in any pattern, and other clients
  use other keys.
\<close>

record 'w sys =
  sy_inst :: "nat \<Rightarrow> instance_state"
  sy_lease :: "nat \<Rightarrow> time"
  sy_world :: "'w \<times> rfault list"

definition elector :: "(nat \<Rightarrow> string) \<Rightarrow> string \<Rightarrow> duration \<Rightarrow> nat \<Rightarrow> LeaderElector" where
  "elector ids key ttl i = NewLeaderElector (ids i) key ttl"

definition confirmed :: "lead_event \<Rightarrow> instance_state \<Rightarrow> instance_state \<Rightarrow> bool" where
  "confirmed ev ins ins' \<longleftrightarrow>
     ev = Attempt \<and> in_phase ins \<noteq> Leading \<and> in_phase ins' = Leading \<or>
     ev = Tick \<and> in_phase ins = Leading \<and> in_phase ins' = Leading \<and> in_fails ins' = 0"

inductive sys_step ::
  "('w \<Rightarrow> keyspace) \<Rightarrow> ('w \<Rightarrow> time) \<Rightarrow> (duration \<Rightarrow> 'w \<Rightarrow> 'w) \<Rightarrow> 'w redis_ops \<Rightarrow> (nat \<Rightarrow> LeaderElector) \<Rightarrow> int \<Rightarrow>
     'w sys \<Rightarrow> 'w sys \<Rightarrow> bool"
  for ks clk adv R le m where
  act: "lead_step R (le i) m ev (sy_inst c i, sy_world c) = (ins', s') \<Longrightarrow>
    sys_step ks clk adv R le m c (c\<lparr>sy_inst := (sy_inst c)(i := ins'),
      sy_lease := (if confirmed ev (sy_inst c i) ins'
                   then (sy_lease c)(i := clk (fst s') + whole_ms (le_ttl (le i))) else sy_lease c),
      sy_world := s'\<rparr>)"
| time: "0 \<le> d \<Longrightarrow> sys_step ks clk adv R le m c (c\<lparr>sy_world := (adv d (fst (sy_world c)), snd (sy_world c))\<rparr>)"
| net: "sys_step ks clk adv R le m c (c\<lparr>sy_world := (fst (sy_world c), fs)\<rparr>)"
| others: "ks w' (le_key (le 0)) = ks (fst (sy_world c)) (le_key (le 0)) \<Longrightarrow> clk w' = clk (fst (sy_world c)) \<Longrightarrow>
    sys_step ks clk adv R le m c (c\<lparr>sy_world := (w', snd (sy_world c))\<rparr>)"

definition sys_init :: "('w \<Rightarrow> time) \<Rightarrow> 'w \<Rightarrow> 'w sys" where
  "sys_init clk w = \<lparr>sy_inst = (\<lambda>_. start_instance), sy_lease = (\<lambda>_. clk w - 1), sy_world = (w, [])\<rparr>"

inductive sys_reach ::
  "('w \<Rightarrow> keyspace) \<Rightarrow> ('w \<Rightarrow> time) \<Rightarrow> (duration \<Rightarrow> 'w \<Rightarrow> 'w) \<Rightarrow> 'w redis_ops \<Rightarrow> (nat \<Rightarrow> LeaderElector) \<Rightarrow> int \<Rightarrow>
     'w sys \<Rightarrow> bool"
  for ks clk adv R le m where
  init: "sys_reach ks clk adv R le m (sys_init clk w)"
| step: "sys_reach ks clk adv R le m c \<Longrightarrow> sys_step ks clk adv R le m c c' \<Longrightarrow> sys_reach ks clk adv R le m c'"

definition lease_inv :: "('w \<Rightarrow> keyspace) \<Rightarrow> ('w \<Rightarrow> time) \<Rightarrow> (nat \<Rightarrow> LeaderElector) \<Rightarrow> 'w sys \<Rightarrow> bool" where
  "lease_inv ks clk le c \<longleftrightarrow>
     (\<forall>i. sy_lease c i \<le> clk (fst (sy_world c)) + whole_ms (le_ttl (le i))) \<and>
     (\<forall>i. in_phase (sy_inst c i) = Leading \<and> clk (fst (sy_world c)) \<le> sy_lease c i \<longrightarrow>
       held (ks (fst (sy_world c))) (le_key (le i)) (le_id (le i)) (sy_lease c i))"

lemma whole_ms_le: "0 \<le> ttl \<Longrightarrow> whole_ms ttl \<le> ttl"
  by (simp add: whole_ms_def Millisecond_def)

context redis_up
begin

lemma act_keeps_lease:
  assumes "lease_inv ks clk le c" "\<And>i. le_key (le i) = key" "inj (\<lambda>i. le_id (le i))"
    and "\<And>i. 0 < whole_ms (le_ttl (le i))"
    and step: "lead_step R (le i) m ev (sy_inst c i, sy_world c) = (ins', s')"
  shows "lease_inv ks clk le (c\<lparr>sy_inst := (sy_inst c)(i := ins'),
      sy_lease := (if confirmed ev (sy_inst c i) ins'
                   then (sy_lease c)(i := clk (fst s') + whole_ms (le_ttl (le i))) else sy_lease c),
      sy_world := s'\<rparr>)" (is "lease_inv ks clk le ?c")
proof -
  have ttl: "0 < le_ttl (le i)"
    using assms(4) [of i] by (simp add: whole_ms_def Millisecond_def zero_less_mult_iff pos_imp_zdiv_pos_iff)
  note sp = lead_step_spares [OF ttl assms(4) step]
  let ?w = "fst (sy_world c)" let ?ins = "sy_inst c i"
  have "held (ks (fst s')) key (le_id (le j)) (sy_lease ?c j)"
    if "in_phase (sy_inst ?c j) = Leading" "clk (fst s') \<le> sy_lease ?c j" for j
  proof (cases "j = i")
    case False
    then have "sy_lease ?c j = sy_lease c j" "le_id (le j) \<noteq> le_id (le i)" using assms(3) by (auto simp: inj_def)
    moreover have "held (ks ?w) key (le_id (le j)) (sy_lease c j)"
      using assms(1,2) that False sp(1) by (auto simp: lease_inv_def split: if_splits)
    ultimately show ?thesis using sp(2) assms(2) by simp
  next
    case True
    with that have lead: "in_phase ins' = Leading" by simp
    consider (attempt) n where "ev = Attempt" "in_phase ?ins = Acquiring n" "attemptStep R (le i) n (?ins, sy_world c) = (ins', s')"
      | (renew) "ev = Tick" "in_phase ?ins = Leading" "renewStep R (le i) m (?ins, sy_world c) = (ins', s')"
      | (same) "in_phase ?ins = Leading" "ins' = ?ins" "s' = sy_world c" "ev = Attempt"
      using step lead by (cases ev; cases "in_phase ?ins") (auto simp: stepDown_def)
    then show ?thesis
    proof cases
      case attempt
      then have "confirmed ev ?ins ins'" using lead by (simp add: confirmed_def)
      moreover have "held (ks (fst s')) key (le_id (le i)) (clk (fst s') + le_ttl (le i))"
        using attempt_wins [OF ttl attempt(3)] attempt(2) lead assms(2) by simp
      ultimately show ?thesis using True whole_ms_le [of "le_ttl (le i)"] ttl by (auto simp: held_def)
    next
      case renew
      note keep = renew_keeps [OF assms(4) renew(3,2) lead]
      show ?thesis
      proof (cases "in_fails ins' = 0")
        case True
        then have "confirmed ev ?ins ins'" using renew lead by (simp add: confirmed_def)
        then show ?thesis using keep(1) [OF True] \<open>j = i\<close> sp(1) assms(2) by simp
      next
        case False
        then have "\<not> confirmed ev ?ins ins'" using renew by (simp add: confirmed_def)
        moreover have "held (ks ?w) key (le_id (le i)) (sy_lease c i)" "sy_lease c i \<le> clk ?w + whole_ms (le_ttl (le i))"
          using assms(1,2) that True renew(2) sp(1) \<open>\<not> confirmed ev ?ins ins'\<close> by (auto simp: lease_inv_def)
        ultimately show ?thesis using keep(2) True assms(2) by simp
      qed
    next
      case same
      then have "\<not> confirmed ev ?ins ins'" by (simp add: confirmed_def)
      with same that True assms(1,2) show ?thesis by (auto simp: lease_inv_def)
    qed
  qed
  moreover have "sy_lease ?c j \<le> clk (fst s') + whole_ms (le_ttl (le j))" for j
    using assms(1) sp(1) by (auto simp: lease_inv_def)
  ultimately show ?thesis using assms(2) by (simp add: lease_inv_def)
qed

lemma sys_step_keeps_lease:
  assumes "sys_step ks clk adv R le m c c'" "lease_inv ks clk le c" "\<And>i. le_key (le i) = key"
    and "inj (\<lambda>i. le_id (le i))" "\<And>i. 0 < whole_ms (le_ttl (le i))"
  shows "lease_inv ks clk le c'"
  using assms(1)
proof (cases rule: sys_step.cases)
  case (act i ev ins' s')
  then show ?thesis using act_keeps_lease [OF assms(2-5) act(2)] by simp
next
  case (time d)
  have law: "ks (adv d (fst (sy_world c))) = purge (clk (fst (sy_world c)) + d) (ks (fst (sy_world c)))"
    "clk (adv d (fst (sy_world c))) = clk (fst (sy_world c)) + d" using adv_law [OF time(2)] by auto
  have "held (purge (clk (fst (sy_world c)) + d) (ks (fst (sy_world c)))) (le_key (le i)) (le_id (le i)) (sy_lease c i)"
    if "in_phase (sy_inst c i) = Leading" "clk (fst (sy_world c)) + d \<le> sy_lease c i" for i
    using assms(2) that time(2) by (intro held_purge) (auto simp: lease_inv_def)
  moreover have "sy_lease c i \<le> clk (fst (sy_world c)) + d + whole_ms (le_ttl (le i))" for i
    using assms(2) time(2) by (auto simp: lease_inv_def) (metis add_increasing2 add.assoc add.commute)
  ultimately show ?thesis using time(1) by (simp add: lease_inv_def law)
next
  case (net fs)
  with assms(2) show ?thesis by (simp add: lease_inv_def)
next
  case (others w')
  with assms(2,3) show ?thesis by (simp add: lease_inv_def held_def)
qed

lemma sys_reach_lease:
  assumes "sys_reach ks clk adv R le m c" "\<And>i. le_key (le i) = key" "inj (\<lambda>i. le_id (le i))"
    and "\<And>i. 0 < whole_ms (le_ttl (le i))"
  shows "lease_inv ks clk le c"
  using assms(1)
proof (induction rule: sys_reach.induct)
  case (init w)
  have "0 \<le> 1 + whole_ms (le_ttl (le i))" for i using assms(4) [of i] by simp
  then show ?case using assms(4) by (simp add: sys_init_def lease_inv_def start_instance_def algebra_simps)
next
  case (step c c')
  then show ?case using sys_step_keeps_lease assms(2-4) by blast
qed

end

text \<open>
  (C14) At most one process leads under a valid lease: two different processes can never both believe
  they lead while the last confirmed acquisition or renewal of each is younger than the lock's time to
  live, whatever requests or answers get lost and however the steps interleave.
\<close>

theorem leader_mutual_exclusion:
  assumes "redis_up ks clk adv R" "sys_reach ks clk adv R (elector ids key ttl) m c"
    and "inj ids" "Millisecond \<le> ttl" "i \<noteq> j"
    and "in_phase (sy_inst c i) = Leading" "in_phase (sy_inst c j) = Leading"
    and "clk (fst (sy_world c)) \<le> sy_lease c i"
  shows "sy_lease c j < clk (fst (sy_world c))"
proof (rule ccontr)
  assume j: "\<not> sy_lease c j < clk (fst (sy_world c))"
  have "1 \<le> ttl div Millisecond" using zdiv_mono1 [OF assms(4), of Millisecond] by (simp add: Millisecond_def)
  then have "0 < whole_ms ttl" by (simp add: whole_ms_def Millisecond_def)
  then have "lease_inv ks clk (elector ids key ttl) c"
    using redis_up.sys_reach_lease [OF assms(1,2), of "''leader:'' @ key"] assms(3)
    by (simp add: elector_def NewLeaderElector_def)
  then have "held (ks (fst (sy_world c))) (''leader:'' @ key) (ids i) (sy_lease c i)"
    "held (ks (fst (sy_world c))) (''leader:'' @ key) (ids j) (sy_lease c j)"
    using assms(6-8) j by (auto simp: lease_inv_def elector_def NewLeaderElector_def)
  then have "ids i = ids j" by (rule held_owner)
  with assms(3,5) show False by (simp add: inj_eq)
qed

text \<open>
  Two processes: the second leads first, pauses for longer than the lock lives, and the first takes over
  while the second still believes it leads; its lease has run out by then.
\<close>

definition duo_ids :: "nat \<Rightarrow> string" where
  "duo_ids i = replicate i (CHR ''x'')"

definition duo_act :: "nat \<Rightarrow> lead_event \<Rightarrow> mem_state sys \<Rightarrow> mem_state sys" where
  "duo_act i ev c =
     (case lead_step mem_redis (elector duo_ids ''jobs'' (10 * Millisecond) i) 2 ev (sy_inst c i, sy_world c) of
        (ins', s') \<Rightarrow> c\<lparr>sy_inst := (sy_inst c)(i := ins'),
          sy_lease := (if confirmed ev (sy_inst c i) ins'
                       then (sy_lease c)(i := mem_clk (fst s') + whole_ms (le_ttl (elector duo_ids ''jobs'' (10 * Millisecond) i)))
                       else sy_lease c),
          sy_world := s'\<rparr>)"

definition duo_wait :: "duration \<Rightarrow> mem_state sys \<Rightarrow> mem_state sys" where
  "duo_wait d c = c\<lparr>sy_world := (mem_adv d (fst (sy_world c)), snd (sy_world c))\<rparr>"

definition duo_run :: "mem_state sys" where
  "duo_run = duo_act 0 Attempt (duo_wait (20 * Millisecond)
     (duo_act 1 Attempt (sys_init mem_clk \<lparr>mem_clk = 0, mem_ks = Map.empty\<rparr>)))"

lemma duo_reach:
  "sys_reach mem_ks mem_clk mem_adv mem_redis (elector duo_ids ''jobs'' (10 * Millisecond)) 2 duo_run"
proof -
  have act: "sys_step mem_ks mem_clk mem_adv mem_redis (elector duo_ids ''jobs'' (10 * Millisecond)) 2 c (duo_act i ev c)" for i ev c
  proof -
    obtain ins' s' where st: "lead_step mem_redis (elector duo_ids ''jobs'' (10 * Millisecond) i) 2 ev (sy_inst c i, sy_world c) = (ins', s')"
      by (rule prod.exhaust)
    show ?thesis unfolding duo_act_def st prod.case by (rule sys_step.act) (rule st)
  qed
  have wait: "sys_step mem_ks mem_clk mem_adv mem_redis (elector duo_ids ''jobs'' (10 * Millisecond)) 2 c (duo_wait (20 * Millisecond) c)" for c
    unfolding duo_wait_def by (rule sys_step.time) (simp add: Millisecond_def)
  show ?thesis unfolding duo_run_def by (intro sys_reach.step [OF _ act] sys_reach.step [OF _ wait] sys_reach.init)
qed

lemmas duo_eval = duo_run_def duo_act_def duo_wait_def sys_init_def start_instance_def elector_def NewLeaderElector_def
  attemptStep_def acquireAttempt_def with_fault_def becomeLeader_def mem_redis_def mem_put_def mem_adv_def mem_expiry_def
  purge_def whole_ms_def Millisecond_def confirmed_def

theorem leader_mutual_exclusion_witness:
  "in_phase (sy_inst duo_run 0) = Leading \<and> in_phase (sy_inst duo_run 1) = Leading \<and>
   sy_lease duo_run 1 < mem_clk (fst (sy_world duo_run))"
proof -
  have "in_phase (sy_inst duo_run 0) = Leading" "in_phase (sy_inst duo_run 1) = Leading"
    "mem_clk (fst (sy_world duo_run)) \<le> sy_lease duo_run 0" by (simp_all add: duo_eval)
  moreover have "inj duo_ids" by (auto simp: inj_def duo_ids_def)
  ultimately show ?thesis
    using leader_mutual_exclusion [OF mem.redis_up_axioms duo_reach, of 0 1] by (simp add: Millisecond_def)
qed

text \<open>Renewals whose requests do not reach the server.\<close>

lemma renewStep_not_sent:
  "renewStep R le m (ins, w, NotSent # fs) =
     (let ins' = ins\<lparr>in_fails := in_fails ins + 1\<rparr> in
      (if in_fails ins' \<ge> maxTransientFails m then stepDown Follower ins' else ins', w, fs))"
  by (simp add: renewStep_def Renew_def with_fault_def)

lemma lead_run_not_sent:
  assumes "in_phase ins = Leading" "in_fails ins + k < maxTransientFails m"
  shows "lead_run R le m (replicate k Tick) (ins, w, replicate k NotSent @ fs) = (ins\<lparr>in_fails := in_fails ins + k\<rparr>, w, fs)"
  using assms by (induction k arbitrary: ins) (auto simp: renewStep_not_sent)

lemma lead_run_append: "lead_run R le m (evs @ evs') c = lead_run R le m evs' (lead_run R le m evs c)"
  by (induction evs arbitrary: c) auto

lemma lead_run_step_down:
  assumes "in_phase ins = Leading" "in_fails ins + k + 1 = maxTransientFails m"
  shows "lead_run R le m (replicate (Suc k) Tick) (ins, w, replicate (Suc k) NotSent @ fs) =
    (stepDown Follower (ins\<lparr>in_fails := maxTransientFails m\<rparr>), w, fs)"
  using lead_run_not_sent [of ins k m R le w "NotSent # fs"] assms
  by (simp add: replicate_append_same [symmetric] lead_run_append renewStep_not_sent del: replicate_append_same lead_run.simps(2))
    (simp add: renewStep_not_sent flip: assms(2))

text \<open>
  How a process gives up the lead. From a successful renewal on it tolerates one failed renewal less
  than \<^verbatim>\<open>MaxTransientFails\<close> and steps down at the next, calling \<^verbatim>\<open>OnStepDown\<close> once. The count of
  failures survives the step-down: a process that lost the lead this way and won it again steps down at
  its very first failed renewal.
\<close>

theorem transient_failures_step_down:
  assumes "in_phase ins = Leading" "in_fails ins = 0" "SETNX R (le_key le) (le_id le) (le_ttl le) w' = (Inr True, w'')"
  shows "(\<forall>k < maxTransientFails m. in_phase (fst (lead_run R le m (replicate k Tick) (ins, w, replicate k NotSent))) = Leading) \<and>
    (let down = fst (lead_run R le m (replicate (maxTransientFails m) Tick) (ins, w, replicate (maxTransientFails m) NotSent));
         again = fst (lead_run R le m [Tick, Attempt] (down, w', [Fine]));
         after = fst (lead_run R le m [Tick] (again, w'', [NotSent])) in
     in_phase down = Follower \<and> in_calls down = in_calls ins @ [OnStepDown] \<and>
     in_phase again = Leading \<and> in_phase after = Follower \<and>
     in_calls after = in_calls ins @ [OnStepDown, OnBecomeLeader, OnStepDown])"
proof -
  have pos: "0 < maxTransientFails m" by (auto simp: maxTransientFails_def)
  then obtain k where k: "maxTransientFails m = Suc k" by (cases "maxTransientFails m") auto
  have "in_phase (fst (lead_run R le m (replicate k Tick) (ins, w, replicate k NotSent))) = Leading"
    if "k < maxTransientFails m" for k
    using lead_run_not_sent [of ins k m R le w "[]"] assms(1,2) that by simp
  moreover have "lead_run R le m (replicate (maxTransientFails m) Tick) (ins, w, replicate (maxTransientFails m) NotSent) =
      (stepDown Follower (ins\<lparr>in_fails := maxTransientFails m\<rparr>), w, [])"
    using lead_run_step_down [of ins k m R le w "[]"] assms(1,2) k by simp
  ultimately show ?thesis
    using assms(3) by (simp add: Let_def stepDown_def attemptStep_def acquireAttempt_def with_fault_def becomeLeader_def renewStep_not_sent)
qed

theorem transient_failures_step_down_witness:
  "in_phase (fst (lead_run mem_redis (elector duo_ids ''jobs'' (10 * Millisecond) 1) 2 [Tick, Tick]
      (becomeLeader start_instance, \<lparr>mem_clk = 0, mem_ks = Map.empty\<rparr>, [NotSent, NotSent]))) = Follower"
proof -
  let ?w = "\<lparr>mem_clk = 0, mem_ks = Map.empty\<rparr>" and ?le = "elector duo_ids ''jobs'' (10 * Millisecond) 1"
  have "SETNX mem_redis (le_key ?le) (le_id ?le) (le_ttl ?le) ?w =
      (Inr True, snd (SETNX mem_redis (le_key ?le) (le_id ?le) (le_ttl ?le) ?w))" by (simp add: mem_redis_def)
  from transient_failures_step_down [OF _ _ this, of "becomeLeader start_instance" 2 ?w] show ?thesis
    by (simp add: becomeLeader_def start_instance_def Let_def maxTransientFails_def numeral_2_eq_2 del: lead_run.simps)
qed

end
