(* ===== verification/RateLimiter.thy ===== *)
theory RateLimiter
  imports Redis
begin

text \<open>
  The shared rate limiter, \<^verbatim>\<open>sharedstate/ratelimiter.go\<close>: a sorted set of the instants of the requests
  let through, trimmed to the window by a script that runs atomically on the server. A command that
  fails aborts the script, and \<^verbatim>\<open>Allow\<close> lets the request through on any error. Instants are whole
  milliseconds, which Lua prints without loss.
\<close>

section \<open>The limiter\<close>

record RedisRateLimiter =
  rl_bucket :: string
  rl_limit :: int
  rl_window :: duration

definition NewRedisRateLimiter :: "string \<Rightarrow> int \<Rightarrow> duration \<Rightarrow> RedisRateLimiter" where
  "NewRedisRateLimiter bucket limit window = \<lparr>rl_bucket = bucket, rl_limit = limit, rl_window = window\<rparr>"

definition slidingWindowScript :: "'w redis_ops \<Rightarrow> string \<Rightarrow> int \<Rightarrow> int \<Rightarrow> int \<Rightarrow> ('w, int) rcmd" where
  "slidingWindowScript R key now_ms window_ms limit w0 =
     (case ZREMRANGEBYSCORE R key (now_ms - window_ms) w0 of (Inl err, w1) \<Rightarrow> (Inl err, w1) | (Inr _, w1) \<Rightarrow>
     (case ZCARD R key w1 of (Inl err, w2) \<Rightarrow> (Inl err, w2) | (Inr count, w2) \<Rightarrow>
      if count \<ge> limit then
        (case PEXPIRE R key (window_ms * Millisecond) w2 of (Inl err, w3) \<Rightarrow> (Inl err, w3) | (Inr _, w3) \<Rightarrow> (Inr 0, w3))
      else
     (case INCRBY R (key @ '':seq'') 1 w2 of (Inl err, w3) \<Rightarrow> (Inl err, w3) | (Inr seq, w3) \<Rightarrow>
     (case ZADD R key now_ms (itoa now_ms @ ''-'' @ itoa seq) w3 of (Inl err, w4) \<Rightarrow> (Inl err, w4) | (Inr _, w4) \<Rightarrow>
     (case PEXPIRE R key (window_ms * Millisecond) w4 of (Inl err, w5) \<Rightarrow> (Inl err, w5) | (Inr _, w5) \<Rightarrow>
     (case PEXPIRE R (key @ '':seq'') (window_ms * Millisecond) w5 of (Inl err, w6) \<Rightarrow> (Inl err, w6) | (Inr _, w6) \<Rightarrow>
      (Inr 1, w6)))))))"

definition redisKey :: "RedisRateLimiter \<Rightarrow> string \<Rightarrow> string" where
  "redisKey rl key = ''ratelimit:'' @ rl_bucket rl @ '':'' @ key"

text \<open>\<open>now\<close>: the clock of the calling process in milliseconds. In the histories below all processes and the server have one clock.\<close>

definition Allow :: "'w redis_ops \<Rightarrow> RedisRateLimiter \<Rightarrow> string \<Rightarrow> int \<Rightarrow> 'w \<Rightarrow> bool \<times> 'w" where
  "Allow R rl key now w =
     (case slidingWindowScript R (redisKey rl key) now (rl_window rl div Millisecond) (rl_limit rl) w of
        (Inl err, w') \<Rightarrow> (True, w')
      | (Inr res, w') \<Rightarrow> (res = 1, w'))"

section \<open>Histories\<close>

text \<open>
  The requests for one key, over time, with the instants (in milliseconds) of those let through, newest
  first. Every process reads the clock of the server; other clients may use other keys in between.
\<close>

inductive rl_reach ::
  "('w \<Rightarrow> keyspace) \<Rightarrow> ('w \<Rightarrow> time) \<Rightarrow> (duration \<Rightarrow> 'w \<Rightarrow> 'w) \<Rightarrow> 'w redis_ops \<Rightarrow> RedisRateLimiter \<Rightarrow> string \<Rightarrow>
     int list \<Rightarrow> 'w \<Rightarrow> bool"
  for ks clk adv R rl k where
  start: "ks w (redisKey rl k) = None \<Longrightarrow> ks w (redisKey rl k @ '':seq'') = None \<Longrightarrow> rl_reach ks clk adv R rl k [] w"
| wait: "rl_reach ks clk adv R rl k h w \<Longrightarrow> 0 \<le> d \<Longrightarrow> rl_reach ks clk adv R rl k h (adv d w)"
| call: "rl_reach ks clk adv R rl k h w \<Longrightarrow> Allow R rl k (clk w div Millisecond) w = (ok, w') \<Longrightarrow>
    rl_reach ks clk adv R rl k (if ok then clk w div Millisecond # h else h) w'"
| others: "rl_reach ks clk adv R rl k h w \<Longrightarrow> clk w' = clk w \<Longrightarrow> ks w' (redisKey rl k) = ks w (redisKey rl k) \<Longrightarrow>
    ks w' (redisKey rl k @ '':seq'') = ks w (redisKey rl k @ '':seq'') \<Longrightarrow> rl_reach ks clk adv R rl k h w'"

text \<open>The requests let through within the window that ends at \<open>t\<close>.\<close>

definition in_window :: "int \<Rightarrow> int \<Rightarrow> int list \<Rightarrow> int list" where
  "in_window W t h = filter (\<lambda>s. t - W < s \<and> s \<le> t) h"

section \<open>What the server holds for a key\<close>

text \<open>Hits of the set that are still inside the window carry distinct members, numbered up to the counter.\<close>

definition numbered :: "int \<Rightarrow> int \<Rightarrow> int \<Rightarrow> time \<Rightarrow> (string \<times> int) list \<Rightarrow> bool" where
  "numbered W now q x z \<longleftrightarrow>
     (\<forall>m s. (m, s) \<in> set z \<longrightarrow> s \<le> now - W \<or>
        (s + W) * Millisecond \<le> x \<and> (\<exists>p. p \<le> q \<and> 0 \<le> p \<and> m = itoa s @ ''-'' @ itoa p))"

definition seq_ok :: "int \<Rightarrow> int \<Rightarrow> int list \<Rightarrow> (string \<times> int) list \<Rightarrow> (redis_val \<times> time option) option \<Rightarrow> bool" where
  "seq_ok W now h z e \<longleftrightarrow>
     e = None \<and> (\<forall>m s. (m, s) \<in> set z \<longrightarrow> s \<le> now - W) \<or>
     (\<exists>q x. e = Some (RStr (itoa q), Some x) \<and> 0 \<le> q \<and> q \<le> int (length h) \<and> numbered W now q x z)"

definition set_ok :: "int \<Rightarrow> int \<Rightarrow> int list \<Rightarrow> (redis_val \<times> time option) option \<Rightarrow> bool" where
  "set_ok W now h e \<longleftrightarrow>
     (\<forall>c \<ge> now - W. filter (\<lambda>s. c < s) (map snd (key_zset e)) = filter (\<lambda>s. c < s) (rev h)) \<and>
     (case e of None \<Rightarrow> True
      | Some (v, t) \<Rightarrow> (\<exists>z. v = RZSet z) \<and> (\<exists>x. t = Some x \<and> (\<forall>(m, s) \<in> set (key_zset e). (s + W) * Millisecond \<le> x)))"

definition rl_inv :: "int \<Rightarrow> int \<Rightarrow> int list \<Rightarrow> (redis_val \<times> time option) option \<Rightarrow> (redis_val \<times> time option) option \<Rightarrow> bool" where
  "rl_inv W now h e es \<longleftrightarrow> (\<forall>s \<in> set h. s \<le> now) \<and> set_ok W now h e \<and> seq_ok W now h (key_zset e) es"

lemma filter_length_mono: "(\<And>x. x \<in> set xs \<Longrightarrow> P x \<Longrightarrow> Q x) \<Longrightarrow> length (filter P xs) \<le> length (filter Q xs)"
  by (induction xs) auto

lemma member_fresh:
  assumes "0 \<le> p" "0 \<le> q" "itoa s @ ''-'' @ itoa p = itoa t @ ''-'' @ itoa q"
  shows "p = q"
proof -
  have "takeWhile (\<lambda>c. c \<noteq> CHR ''-'') (rev (itoa s @ ''-'' @ itoa p)) = rev (itoa p)" if "0 \<le> p" for s p
  proof -
    have "CHR ''-'' \<notin> set (itoa p)" using that nat_str_digits [of "nat p"] by (auto simp: itoa_def list_all_iff is_digit_def)
    then show ?thesis using takeWhile_append2 [of "rev (itoa p)" "\<lambda>c. c \<noteq> CHR ''-''" "CHR ''-'' # rev (itoa s)"] by auto
  qed
  with assms have "rev (itoa p) = rev (itoa q)" by metis
  then show ?thesis by simp
qed

lemma window_count:
  assumes "set_ok W now h e" "0 \<le> W"
  shows "length (filter (\<lambda>(m, s). now - W < s) (key_zset e)) = length (filter (\<lambda>s. now - W < s) h)"
proof -
  have "filter (\<lambda>s. now - W < s) (map snd (key_zset e)) = filter (\<lambda>s. now - W < s) (rev h)"
    using assms by (simp add: set_ok_def)
  then have "length (filter (\<lambda>s. now - W < s) (map snd (key_zset e))) = length (filter (\<lambda>s. now - W < s) (rev h))" by simp
  then show ?thesis by (simp add: filter_map comp_def case_prod_unfold rev_filter [symmetric])
qed

text \<open>A key that expires holds only hits that have left the window.\<close>

lemma expired_hits: "(s + W) * Millisecond \<le> x \<Longrightarrow> x < t \<Longrightarrow> s \<le> t div Millisecond - W"
  using zdiv_mono1 [of "(s + W) * Millisecond" t Millisecond] by (simp add: Millisecond_def)

lemma purge_cases: "purge t m k = m k \<or> (\<exists>v x. m k = Some (v, Some x) \<and> x < t \<and> purge t m k = None)"
  by (auto simp: purge_def split: option.splits prod.splits)

lemma set_ok_purge:
  assumes "set_ok W now h (m k)" "now \<le> t div Millisecond"
  shows "set_ok W (t div Millisecond) h (purge t m k)"
  using purge_cases [of t m k]
proof (elim disjE exE conjE)
  assume "purge t m k = m k"
  with assms show ?thesis by (simp add: set_ok_def)
next
  fix v x
  assume gone: "m k = Some (v, Some x)" "x < t" "purge t m k = None"
  have "\<forall>(n, s) \<in> set (key_zset (m k)). s \<le> t div Millisecond - W"
    using assms(1) gone expired_hits by (fastforce simp: set_ok_def)
  then have "filter (\<lambda>s. c < s) (map snd (key_zset (m k))) = []" if "t div Millisecond - W \<le> c" for c
    using that by (force simp: filter_empty_conv)
  moreover have "filter (\<lambda>s. c < s) (map snd (key_zset (m k))) = filter (\<lambda>s. c < s) (rev h)" if "t div Millisecond - W \<le> c" for c
    using assms that by (simp add: set_ok_def)
  ultimately show ?thesis using gone(3) by (simp add: set_ok_def key_zset_def)
qed

lemma numbered_mono: "numbered W now q x z \<Longrightarrow> set z' \<subseteq> set z \<Longrightarrow> now \<le> now' \<Longrightarrow> numbered W now' q x z'"
  unfolding numbered_def by (meson diff_right_mono order_trans subsetD)

lemma seq_ok_mono:
  assumes "seq_ok W now h z e" "set z' \<subseteq> set z" "now \<le> now'"
  shows "seq_ok W now' h z' e"
  using assms(1) unfolding seq_ok_def
proof (elim disjE exE conjE)
  assume "e = None" "\<forall>m s. (m, s) \<in> set z \<longrightarrow> s \<le> now - W"
  with assms(2,3) have "s \<le> now' - W" if "(m, s) \<in> set z'" for m s using that by (meson diff_right_mono order_trans subsetD)
  with \<open>e = None\<close> show "e = None \<and> (\<forall>m s. (m, s) \<in> set z' \<longrightarrow> s \<le> now' - W) \<or>
      (\<exists>q x. e = Some (RStr (itoa q), Some x) \<and> 0 \<le> q \<and> q \<le> int (length h) \<and> numbered W now' q x z')" by blast
qed (use numbered_mono [OF _ assms(2,3)] in blast)

lemma seq_ok_purge:
  assumes "seq_ok W now h z (m k)" "now \<le> t div Millisecond" "set z' \<subseteq> set z"
  shows "seq_ok W (t div Millisecond) h z' (purge t m k)"
  using purge_cases [of t m k]
proof (elim disjE exE conjE)
  assume "purge t m k = m k"
  with seq_ok_mono [OF assms(1,3,2)] show ?thesis by simp
next
  fix v x
  assume gone: "m k = Some (v, Some x)" "x < t" "purge t m k = None"
  then obtain q where "numbered W now q x z" using assms(1) by (auto simp: seq_ok_def)
  then have "s \<le> t div Millisecond - W" if "(n, s) \<in> set z'" for n s
    using that assms(2,3) expired_hits [of s W x t] gone(2) unfolding numbered_def by (meson diff_right_mono order_trans subsetD)
  with gone(3) show ?thesis by (simp add: seq_ok_def)
qed

lemma rl_inv_purge:
  assumes "rl_inv W now h (m k) (m k')" "now \<le> t div Millisecond"
  shows "rl_inv W (t div Millisecond) h (purge t m k) (purge t m k')"
proof -
  have "set (key_zset (purge t m k)) \<subseteq> set (key_zset (m k))" using purge_cases [of t m k]
    by (elim disjE exE conjE) (simp_all add: key_zset_def)
  with assms set_ok_purge seq_ok_purge show ?thesis unfolding rl_inv_def by fastforce
qed

text \<open>The two outcomes of the script keep the invariant.\<close>

definition live :: "int \<Rightarrow> int \<Rightarrow> (redis_val \<times> time option) option \<Rightarrow> (string \<times> int) list" where
  "live W now e = filter (\<lambda>(m, s). now - W < s) (key_zset e)"

lemma live_snd:
  assumes "set_ok W now h e" "now - W \<le> c"
  shows "filter (\<lambda>s. c < s) (map snd (live W now e)) = filter (\<lambda>s. c < s) (rev h)"
proof -
  have "filter (\<lambda>s. c < s) (map snd (live W now e)) = filter (\<lambda>s. c < s) (map snd (key_zset e))"
    using assms(2) by (induction "key_zset e") (auto simp: live_def filter_map intro!: arg_cong [of _ _ "map snd"] filter_cong)
  with assms show ?thesis by (simp add: set_ok_def)
qed

lemma live_hit: "set_ok W now h e \<Longrightarrow> (m, s) \<in> set (live W now e) \<Longrightarrow> s \<in> set h \<and> now - W < s"
proof -
  assume ok: "set_ok W now h e" and m: "(m, s) \<in> set (live W now e)"
  then have "now - W < s" by (auto simp: live_def)
  moreover have "s \<in> set (filter (\<lambda>s. now - W < s) (map snd (live W now e)))" using m calculation by force
  ultimately show ?thesis using live_snd [OF ok, of "now - W"] by simp
qed

lemma ms_expiry: "s \<le> t div Millisecond \<Longrightarrow> (s + W) * Millisecond \<le> t + W * Millisecond"
  using mult_right_mono [of s "t div Millisecond" Millisecond] div_mult_mod_eq [of t Millisecond]
    pos_mod_sign [of Millisecond t] by (simp add: Millisecond_def algebra_simps)

lemma deny_inv:
  assumes inv: "rl_inv W now h (m k) e" and now: "now = t div Millisecond"
  shows "rl_inv W now h (set_ttl (put_zset m k (live W now (m k))) k (t + W * Millisecond) k) e"
proof -
  let ?z = "live W now (m k)"
  let ?e = "set_ttl (put_zset m k ?z) k (t + W * Millisecond) k"
  have z: "key_zset ?e = ?z" by simp
  have ok: "set_ok W now h (m k)" "\<forall>s \<in> set h. s \<le> now" using inv by (simp_all add: rl_inv_def)
  have "\<forall>(n, s) \<in> set ?z. (s + W) * Millisecond \<le> t + W * Millisecond"
    using live_hit [OF ok(1)] ok(2) ms_expiry now by blast
  moreover have "?e = (if ?z = [] then None else Some (RZSet ?z, Some (t + W * Millisecond)))"
    by (simp add: set_ttl_same put_zset_def)
  ultimately have set: "set_ok W now h ?e" using live_snd [OF ok(1)] z by (auto simp: set_ok_def split: if_splits)
  have "set ?z \<subseteq> set (key_zset (m k))" by (auto simp: live_def)
  then have "seq_ok W now h ?z e" using inv seq_ok_mono by (auto simp: rl_inv_def)
  then show ?thesis using set ok(2) z by (simp add: rl_inv_def)
qed

lemma seq_value:
  assumes "rl_inv W now h e es" "int (length h) < 2 ^ 63 - 1"
  obtains q where "key_num es = Some q" "0 \<le> q" "q \<le> int (length h)" "is_int64 (q + 1)"
    and "\<And>n s. (n, s) \<in> set (live W now e) \<Longrightarrow> \<exists>p \<le> q. 0 \<le> p \<and> n = itoa s @ ''-'' @ itoa p"
proof (cases es)
  case None
  then have "live W now e = []" using assms(1) by (fastforce simp: rl_inv_def seq_ok_def live_def filter_empty_conv)
  with None that [of 0] show ?thesis by (simp add: is_int64_def)
next
  case (Some p)
  then obtain q x where q: "es = Some (RStr (itoa q), Some x)" "0 \<le> q" "q \<le> int (length h)" "numbered W now q x (key_zset e)"
    using assms(1) by (auto simp: rl_inv_def seq_ok_def)
  have "is_int64 q" "is_int64 (q + 1)" using q assms(2) by (auto simp: is_int64_def)
  moreover have "\<exists>p \<le> q. 0 \<le> p \<and> n = itoa s @ ''-'' @ itoa p" if "(n, s) \<in> set (live W now e)" for n s
    using that q(4) by (fastforce simp: live_def numbered_def)
  ultimately show ?thesis using that [of q] q by (simp add: key_num_itoa)
qed

lemma allow_inv:
  assumes inv: "rl_inv W now h e es" and now: "now = t div Millisecond" and W: "0 < W"
    and q: "0 \<le> q" "q \<le> int (length h)"
    and m: "\<And>n s. (n, s) \<in> set (live W now e) \<Longrightarrow> \<exists>p \<le> q. 0 \<le> p \<and> n = itoa s @ ''-'' @ itoa p"
  shows "rl_inv W now (now # h)
    (Some (RZSet (filter (\<lambda>p. fst p \<noteq> itoa now @ ''-'' @ itoa (q + 1)) (live W now e) @ [(itoa now @ ''-'' @ itoa (q + 1), now)]),
           Some (t + W * Millisecond)))
    (Some (RStr (itoa (q + 1)), Some (t + W * Millisecond)))"
proof -
  let ?n = "itoa now @ ''-'' @ itoa (q + 1)" and ?z = "live W now e"
  have ok: "set_ok W now h e" "\<forall>s \<in> set h. s \<le> now" using inv by (simp_all add: rl_inv_def)
  have "n \<noteq> ?n" if "(n, s) \<in> set ?z" for n s
  proof
    assume "n = ?n"
    with m [OF that] obtain p where "p \<le> q" "0 \<le> p" "itoa s @ ''-'' @ itoa p = ?n" by blast
    with member_fresh [of p "q + 1" s now] q(1) show False by simp
  qed
  then have z: "filter (\<lambda>p. fst p \<noteq> ?n) ?z @ [(?n, now)] = ?z @ [(?n, now)]" by (fastforce simp: filter_id_conv)
  have exp: "(s + W) * Millisecond \<le> t + W * Millisecond" if "(n, s) \<in> set (?z @ [(?n, now)])" for n s
    using that live_hit [OF ok(1)] ok(2) now by (intro ms_expiry) auto
  have "set_ok W now (now # h) (Some (RZSet (?z @ [(?n, now)]), Some (t + W * Millisecond)))"
    using live_snd [OF ok(1)] exp by (auto simp: set_ok_def key_zset_def)
  moreover have "\<exists>p \<le> q + 1. 0 \<le> p \<and> n = itoa s @ ''-'' @ itoa p" if "(n, s) \<in> set (?z @ [(?n, now)])" for n s
  proof (cases "(n, s) \<in> set ?z")
    case True
    with m [OF this] show ?thesis by force
  next
    case False
    with that q(1) show ?thesis by (intro exI [of _ "q + 1"]) auto
  qed
  then have "seq_ok W now (now # h) (?z @ [(?n, now)]) (Some (RStr (itoa (q + 1)), Some (t + W * Millisecond)))"
    using exp q by (auto simp: seq_ok_def numbered_def simp del: append_assoc)
  ultimately show ?thesis using ok(2) z by (simp add: rl_inv_def key_zset_def)
qed

section \<open>The script on a server that answers\<close>

context redis_up
begin

lemma script_denies:
  assumes "0 < W" "limit \<le> int (length z)"
    and z: "z = filter (\<lambda>(m, s). now - W < s) (key_zset (ks w k))"
  shows "\<exists>w'. slidingWindowScript R k now W limit w = (Inr 0, w') \<and> clk w' = clk w \<and>
    ks w' = set_ttl (put_zset (ks w) k z) k (clk w + W * Millisecond)"
proof -
  obtain n1 w1 where r1: "ZREMRANGEBYSCORE R k (now - W) w = (Inr n1, w1)" using up_zset(1) by blast
  obtain n2 w2 where r2: "ZCARD R k w1 = (Inr n2, w2)" using up_zset(2) by blast
  obtain n3 w3 where r3: "PEXPIRE R k (W * Millisecond) w2 = (Inr n3, w3)" using up_simple(6) by blast
  have "0 < W * Millisecond" using assms(1) by (simp add: Millisecond_def)
  note laws = zrem_law [OF r1] zcard_law [OF r2] pexpire_law [OF r3 this]
  show ?thesis using r1 r2 r3 laws assms(2) z by (auto simp: slidingWindowScript_def)
qed

lemma script_allows:
  assumes "0 < W" "int (length z) < limit" "key_num (ks w (k @ '':seq'')) = Some q" "is_int64 (q + 1)"
    and z: "z = filter (\<lambda>(m, s). now - W < s) (key_zset (ks w k))"
  shows "\<exists>w'. slidingWindowScript R k now W limit w = (Inr 1, w') \<and> clk w' = clk w \<and>
    ks w' k = Some (RZSet (filter (\<lambda>p. fst p \<noteq> itoa now @ ''-'' @ itoa (q + 1)) z @ [(itoa now @ ''-'' @ itoa (q + 1), now)]),
                    Some (clk w + W * Millisecond)) \<and>
    ks w' (k @ '':seq'') = Some (RStr (itoa (q + 1)), Some (clk w + W * Millisecond))"
proof -
  have pos: "0 < W * Millisecond" using assms(1) by (simp add: Millisecond_def)
  obtain n1 w1 where r1: "ZREMRANGEBYSCORE R k (now - W) w = (Inr n1, w1)" using up_zset(1) by blast
  obtain n2 w2 where r2: "ZCARD R k w1 = (Inr n2, w2)" using up_zset(2) by blast
  note l12 = zrem_law [OF r1] zcard_law [OF r2]
  have "key_num (ks w2 (k @ '':seq'')) = Some q" using l12 assms(3) by simp
  from up_incr [OF this assms(4)] obtain n3 w3 where r3: "INCRBY R (k @ '':seq'') 1 w2 = (Inr n3, w3)" by blast
  note l3 = incrby_law [OF r3]
  have n3: "n3 = q + 1" using l3 \<open>key_num (ks w2 (k @ '':seq'')) = Some q\<close> by simp
  obtain n4 w4 where r4: "ZADD R k now (itoa now @ ''-'' @ itoa n3) w3 = (Inr n4, w4)" using up_zset(3) by blast
  obtain n5 w5 where r5: "PEXPIRE R k (W * Millisecond) w4 = (Inr n5, w5)" using up_simple(6) by blast
  obtain n6 w6 where r6: "PEXPIRE R (k @ '':seq'') (W * Millisecond) w5 = (Inr n6, w6)" using up_simple(6) by blast
  note l456 = zadd_law [OF r4] pexpire_law [OF r5 pos] pexpire_law [OF r6 pos]
  have "slidingWindowScript R k now W limit w = (Inr 1, w6)"
    using r1 r2 r3 r4 r5 r6 l12 assms(2) z by (simp add: slidingWindowScript_def)
  moreover have "key_zset (ks w3 k) = z" using l3 l12 z by simp
  ultimately show ?thesis using l12 l3 l456 n3 by (simp add: set_ttl_same put_zset_def)
qed

lemma Allow_step:
  fixes rl :: RedisRateLimiter
  defines "W \<equiv> rl_window rl div Millisecond"
  assumes inv: "rl_inv W now h (ks w (redisKey rl k)) (ks w (redisKey rl k @ '':seq''))" and now: "now = clk w div Millisecond"
    and W: "0 < W" and len: "int (length h) < 2 ^ 63 - 1"
  shows "\<exists>ok w'. Allow R rl k now w = (ok, w') \<and> clk w' = clk w \<and>
    (ok \<longleftrightarrow> int (length (in_window W now h)) < rl_limit rl) \<and>
    rl_inv W now (if ok then now # h else h) (ks w' (redisKey rl k)) (ks w' (redisKey rl k @ '':seq''))"
proof -
  let ?key = "redisKey rl k" and ?z = "live W now (ks w (redisKey rl k))"
  have "in_window W now h = filter (\<lambda>s. now - W < s) h"
    unfolding in_window_def using inv by (intro filter_cong) (auto simp: rl_inv_def)
  then have count: "length ?z = length (in_window W now h)"
    using window_count [of W now h "ks w ?key"] inv W by (simp add: live_def rl_inv_def)
  show ?thesis
  proof (cases "int (length ?z) < rl_limit rl")
    case False
    then obtain w' where r: "slidingWindowScript R ?key now W (rl_limit rl) w = (Inr 0, w')" "clk w' = clk w"
      "ks w' = set_ttl (put_zset (ks w) ?key ?z) ?key (clk w + W * Millisecond)"
      using script_denies [OF W, of "rl_limit rl" ?z now w ?key] by (auto simp: live_def)
    moreover have "rl_inv W now h (ks w' ?key) (ks w' (?key @ '':seq''))"
      using deny_inv [where m = "ks w" and k = ?key, OF inv now] r(3) by simp
    ultimately show ?thesis using False count by (intro exI [of _ False]) (simp add: Allow_def W_def)
  next
    case True
    obtain q where q: "key_num (ks w (?key @ '':seq'')) = Some q" "0 \<le> q" "q \<le> int (length h)" "is_int64 (q + 1)"
      "\<And>n s. (n, s) \<in> set ?z \<Longrightarrow> \<exists>p \<le> q. 0 \<le> p \<and> n = itoa s @ ''-'' @ itoa p" using seq_value [OF inv len] by metis
    from script_allows [OF W True q(1,4), of now] obtain w' where
      r: "slidingWindowScript R ?key now W (rl_limit rl) w = (Inr 1, w')" "clk w' = clk w" and
      ks': "ks w' ?key = Some (RZSet (filter (\<lambda>p. fst p \<noteq> itoa now @ ''-'' @ itoa (q + 1)) ?z @
              [(itoa now @ ''-'' @ itoa (q + 1), now)]), Some (clk w + W * Millisecond))"
        "ks w' (?key @ '':seq'') = Some (RStr (itoa (q + 1)), Some (clk w + W * Millisecond))"
      by (auto simp: live_def)
    have "rl_inv W now (now # h) (ks w' ?key) (ks w' (?key @ '':seq''))"
      unfolding ks' by (rule allow_inv [OF inv now W q(2,3,5)])
    with r True count show ?thesis by (intro exI [of _ True]) (simp add: Allow_def W_def)
  qed
qed

lemma rl_reach_inv:
  assumes "rl_reach ks clk adv R rl k h w" "Millisecond \<le> rl_window rl" "int (length h) < 2 ^ 63 - 1"
  defines "W \<equiv> rl_window rl div Millisecond"
  shows "rl_inv W (clk w div Millisecond) h (ks w (redisKey rl k)) (ks w (redisKey rl k @ '':seq'')) \<and>
    (\<forall>t. int (length (in_window W t h)) \<le> max 0 (rl_limit rl))"
proof -
  have W: "0 < W" using zdiv_mono1 [OF assms(2), of Millisecond] by (simp add: W_def Millisecond_def)
  show ?thesis using assms(1,3)
  proof (induction rule: rl_reach.induct)
    case (start w)
    then show ?case by (simp add: rl_inv_def set_ok_def seq_ok_def key_zset_def in_window_def)
  next
    case (wait h w d)
    have "clk w div Millisecond \<le> (clk w + d) div Millisecond" using wait.hyps(2) by (intro zdiv_mono1) (auto simp: Millisecond_def)
    with wait adv_law [OF wait.hyps(2), of w] show ?case
      using rl_inv_purge [of W "clk w div Millisecond" h "ks w" "redisKey rl k" "redisKey rl k @ '':seq''"] by simp
  next
    case (others h w w')
    then show ?case by simp
  next
    case (call h w ok w')
    let ?now = "clk w div Millisecond"
    have IH: "rl_inv W ?now h (ks w (redisKey rl k)) (ks w (redisKey rl k @ '':seq''))"
      "\<forall>t. int (length (in_window W t h)) \<le> max 0 (rl_limit rl)" "int (length h) < 2 ^ 63 - 1"
      using call.IH call.prems by (auto split: if_splits)
    from Allow_step [OF IH(1) [unfolded W_def] refl W [unfolded W_def] IH(3)] call.hyps(2)
    have step: "clk w' = clk w" "ok \<longleftrightarrow> int (length (in_window W ?now h)) < rl_limit rl"
      "rl_inv W ?now (if ok then ?now # h else h) (ks w' (redisKey rl k)) (ks w' (redisKey rl k @ '':seq''))"
      by (auto simp: W_def)
    have "int (length (in_window W t (?now # h))) \<le> max 0 (rl_limit rl)" if "ok" for t
    proof (cases "t - W < ?now \<and> ?now \<le> t")
      case True
      have "length (in_window W t h) \<le> length (in_window W ?now h)"
        unfolding in_window_def using True IH(1) by (intro filter_length_mono) (auto simp: rl_inv_def)
      with True step(2) that show ?thesis by (simp add: in_window_def)
    next
      case False
      then have "in_window W t (?now # h) = in_window W t h" by (auto simp: in_window_def)
      with IH(2) show ?thesis by metis
    qed
    with step IH(2) show ?case by (cases ok) auto
  qed
qed

end

text \<open>
  (C15) The shared rate limiter is exact: whatever the interleaving of requests from all processes, waiting,
  expiry of its keys and traffic on other keys, a request is let through if and only if fewer than
  \<open>limit\<close> requests were let through in the window that ends now, and no window of that length ever
  contains more than \<open>limit\<close> of them.
\<close>

theorem rate_limiter_exact:
  assumes "redis_up ks clk adv R" "rl_reach ks clk adv R rl k h w"
    and "Millisecond \<le> rl_window rl" "int (length h) < 2 ^ 63 - 1"
  shows "fst (Allow R rl k (clk w div Millisecond) w) =
      (int (length (in_window (rl_window rl div Millisecond) (clk w div Millisecond) h)) < rl_limit rl) \<and>
    int (length (in_window (rl_window rl div Millisecond) t h)) \<le> max 0 (rl_limit rl)"
proof -
  have W: "0 < rl_window rl div Millisecond" using zdiv_mono1 [OF assms(3), of Millisecond] by (simp add: Millisecond_def)
  note inv = redis_up.rl_reach_inv [OF assms]
  from redis_up.Allow_step [OF assms(1) conjunct1 [OF inv] refl W assms(4)] inv show ?thesis by auto
qed

theorem rate_limiter_exact_witness:
  "let rl = NewRedisRateLimiter ''login'' 1 Second; w0 = \<lparr>mem_clk = 0, mem_ks = Map.empty\<rparr>;
       w1 = mem_adv (Second - 1) (snd (Allow mem_redis rl ''ip'' 0 w0)) in
   \<not> fst (Allow mem_redis rl ''ip'' 999 w1) \<and> fst (Allow mem_redis rl ''ip'' 1000 (mem_adv 1 w1))"
proof -
  let ?rl = "NewRedisRateLimiter ''login'' 1 Second" and ?w0 = "\<lparr>mem_clk = 0, mem_ks = Map.empty\<rparr>"
  let ?w1 = "mem_adv (Second - 1) (snd (Allow mem_redis ?rl ''ip'' 0 ?w0))"
  have r0: "rl_reach mem_ks mem_clk mem_adv mem_redis ?rl ''ip'' [] ?w0" by (rule rl_reach.start) simp_all
  have ok: "Allow mem_redis ?rl ''ip'' (mem_clk ?w0 div Millisecond) ?w0 = (True, snd (Allow mem_redis ?rl ''ip'' 0 ?w0))"
    by (simp add: Allow_def slidingWindowScript_def NewRedisRateLimiter_def mem_redis_def mem_put_def put_zset_def key_zset_def)
  have clk: "mem_clk (snd (Allow mem_redis ?rl ''ip'' 0 ?w0)) = 0"
    by (simp add: Allow_def slidingWindowScript_def NewRedisRateLimiter_def mem_redis_def mem_put_def put_zset_def key_zset_def)
  have r1: "rl_reach mem_ks mem_clk mem_adv mem_redis ?rl ''ip'' [0] ?w1"
    using rl_reach.wait [OF rl_reach.call [OF r0 ok], of "Second - 1"] by (simp add: Second_def Millisecond_def)
  then have r2: "rl_reach mem_ks mem_clk mem_adv mem_redis ?rl ''ip'' [0] (mem_adv 1 ?w1)" by (rule rl_reach.wait) simp
  have c1: "mem_clk ?w1 = Second - 1" "mem_clk (mem_adv 1 ?w1) = Second" using clk by (simp_all add: mem_adv_def)
  from rate_limiter_exact [OF mem.redis_up_axioms r1, of 0] rate_limiter_exact [OF mem.redis_up_axioms r2, of 0] c1
  show ?thesis by (simp add: NewRedisRateLimiter_def Second_def Millisecond_def in_window_def Let_def)
qed

end
