(* ===== verification/ApiKey.thy ===== *)
theory ApiKey
  imports Sql Json RateLimiter
begin

text \<open>
  API keys: the authentication middleware and its rate limiters (\<^verbatim>\<open>middleware/apikey.go\<close>), the digests
  stored for them (\<^verbatim>\<open>util/tokenhash.go\<close>) and the handlers that manage them (\<^verbatim>\<open>handler/apikeys.go\<close>). The
  two hash functions, the parsers of IP addresses and the generated keys are arguments. The server's
  location is UTC, so a day is 24 hours.
\<close>

section \<open>Digests\<close>

record hashes =
  hmac_sha256 :: "string \<Rightarrow> string \<Rightarrow> string"
  sha256 :: "string \<Rightarrow> string"
  tokenHashKey :: string

definition TokenHashLegacy :: "hashes \<Rightarrow> string \<Rightarrow> string" where
  "TokenHashLegacy H token = sha256 H token"

definition TokenHashWithKey :: "hashes \<Rightarrow> string \<Rightarrow> string \<Rightarrow> string" where
  "TokenHashWithKey H key token = hmac_sha256 H key token"

definition TokenHash :: "hashes \<Rightarrow> string \<Rightarrow> string" where
  "TokenHash H token = (if tokenHashKey H \<noteq> [] then TokenHashWithKey H (tokenHashKey H) token else TokenHashLegacy H token)"

definition hashAPIKey :: "hashes \<Rightarrow> string \<Rightarrow> string" where
  "hashAPIKey H key = TokenHash H key"

section \<open>Permissions and scope\<close>

record APIKeyPermissions =
  ExportJSON :: bool
  ExportParsed :: bool
  ViewStats :: bool

record ScopeFilters =
  sf_Hostnames :: "string list"
  sf_Severities :: "string list"
  sf_MatchMode :: string

text \<open>
  \<^verbatim>\<open>json.Unmarshal\<close> into these structs: members in their order, names without regard to case, \<^verbatim>\<open>null\<close>
  changes nothing, a value of the wrong type changes nothing and makes the whole call fail in the end.
\<close>

definition noPermissions :: APIKeyPermissions where
  "noPermissions = \<lparr>ExportJSON = False, ExportParsed = False, ViewStats = False\<rparr>"

fun set_permission :: "string \<times> json \<Rightarrow> APIKeyPermissions \<times> bool \<Rightarrow> APIKeyPermissions \<times> bool" where
  "set_permission (k, v) (p, ok) =
     (if to_lower k \<notin> {''export_json'', ''export_parsed'', ''view_stats''} then (p, ok)
      else (case v of
          JNull \<Rightarrow> (p, ok)
        | JBool b \<Rightarrow>
            (if to_lower k = ''export_json'' then p\<lparr>ExportJSON := b\<rparr>
             else if to_lower k = ''export_parsed'' then p\<lparr>ExportParsed := b\<rparr>
             else p\<lparr>ViewStats := b\<rparr>, ok)
        | _ \<Rightarrow> (p, False)))"

definition unmarshal_permissions :: "json \<Rightarrow> APIKeyPermissions option" where
  "unmarshal_permissions j =
     (case j of
        JNull \<Rightarrow> Some noPermissions
      | JObj ps \<Rightarrow> (case fold set_permission ps (noPermissions, True) of (p, ok) \<Rightarrow> if ok then Some p else None)
      | _ \<Rightarrow> None)"

definition noFilters :: ScopeFilters where
  "noFilters = \<lparr>sf_Hostnames = [], sf_Severities = [], sf_MatchMode = []\<rparr>"

definition go_string :: "json \<Rightarrow> string" where
  "go_string j = (case j of JStr s \<Rightarrow> s | _ \<Rightarrow> [])"

fun set_filter :: "string \<times> json \<Rightarrow> ScopeFilters \<Rightarrow> ScopeFilters" where
  "set_filter (k, v) f =
     (if to_lower k = ''hostnames'' then
        (case v of JArr xs \<Rightarrow> f\<lparr>sf_Hostnames := map go_string xs\<rparr> | JNull \<Rightarrow> f\<lparr>sf_Hostnames := []\<rparr> | _ \<Rightarrow> f)
      else if to_lower k = ''severities'' then
        (case v of JArr xs \<Rightarrow> f\<lparr>sf_Severities := map go_string xs\<rparr> | JNull \<Rightarrow> f\<lparr>sf_Severities := []\<rparr> | _ \<Rightarrow> f)
      else if to_lower k = ''match_mode'' then (case v of JStr s \<Rightarrow> f\<lparr>sf_MatchMode := s\<rparr> | _ \<Rightarrow> f)
      else f)"

text \<open>The error is only logged: what was decoded before it, and after it, stays.\<close>

definition unmarshal_filters :: "json \<Rightarrow> ScopeFilters" where
  "unmarshal_filters j = (case j of JObj ps \<Rightarrow> fold set_filter ps noFilters | _ \<Rightarrow> noFilters)"

section \<open>State\<close>

record api_key =
  ak_id :: int
  ak_name :: string
  ak_key_hash :: string
  ak_key_prefix :: string
  ak_permissions :: json
  ak_scope_filters :: "json option"
  ak_allowed_ips :: "string list"
  ak_is_active :: bool
  ak_rate_limit_per_min :: int
  ak_expires_at :: "time option"
  ak_last_used_at :: "time option"
  ak_total_requests :: int
  ak_created_at :: time
  ak_created_by :: "int option"

record memRateLimiter =
  tokens :: int
  maxToken :: int

datatype keyRateLimiter =
    memoryKeyLimiter memRateLimiter
  | redisKeyLimiter RedisRateLimiter string

record audit_row =
  au_user_id :: int
  au_username :: string
  au_action :: string
  au_ip :: string
  au_details :: string

text \<open>The tables, the audit entries handed to the alert engine, the limiters of this process and the shared server.\<close>

record 'w apistate =
  api_keys :: "api_key list"
  next_key_id :: int
  audit_log :: "audit_row list"
  audit_events :: "audit_row list"
  rateLimiters :: "int \<rightharpoonup> keyRateLimiter"
  shared_world :: 'w

section \<open>Rate limiters\<close>

definition NewRateLimiter :: "int \<Rightarrow> memRateLimiter" where
  "NewRateLimiter maxTokens = \<lparr>tokens = maxTokens, maxToken = maxTokens\<rparr>"

text \<open>One tick of the refill loop, every second.\<close>

definition refill :: "memRateLimiter \<Rightarrow> memRateLimiter" where
  "refill rl = rl\<lparr>tokens := maxToken rl\<rparr>"

definition mem_Allow :: "memRateLimiter \<Rightarrow> bool \<times> memRateLimiter" where
  "mem_Allow rl = (if tokens rl > 0 then (True, rl\<lparr>tokens := tokens rl - 1\<rparr>) else (False, rl))"

definition getRateLimiter :: "'w redis_ops option \<Rightarrow> int \<Rightarrow> int \<Rightarrow> 'w apistate \<Rightarrow> keyRateLimiter \<times> 'w apistate" where
  "getRateLimiter shared keyID rateLimit d =
     (case rateLimiters d keyID of
        Some rl \<Rightarrow> (rl, d)
      | None \<Rightarrow>
          (let rl = (case shared of
                 Some R \<Rightarrow> redisKeyLimiter (NewRedisRateLimiter ''apikey'' rateLimit Minute) (itoa keyID)
               | None \<Rightarrow> memoryKeyLimiter (NewRateLimiter rateLimit)) in
           (rl, d\<lparr>rateLimiters := (rateLimiters d)(keyID \<mapsto> rl)\<rparr>)))"

text \<open>
  \<^verbatim>\<open>limiter.allow()\<close> on the limiter registered for the key. A limiter over Redis exists only when a
  shared client was set.
\<close>

definition limiter_allow :: "'w redis_ops option \<Rightarrow> time \<Rightarrow> int \<Rightarrow> keyRateLimiter \<Rightarrow> 'w apistate \<Rightarrow> bool \<times> 'w apistate" where
  "limiter_allow shared now keyID rl d =
     (case rl of
        memoryKeyLimiter m \<Rightarrow>
          (case mem_Allow m of (ok, m') \<Rightarrow> (ok, d\<lparr>rateLimiters := (rateLimiters d)(keyID \<mapsto> memoryKeyLimiter m')\<rparr>))
      | redisKeyLimiter r key \<Rightarrow>
          (case shared of
             None \<Rightarrow> (True, d)
           | Some R \<Rightarrow> (case Allow R r key (now div Millisecond) (shared_world d) of (ok, w') \<Rightarrow> (ok, d\<lparr>shared_world := w'\<rparr>))))"

definition RemoveRateLimiter :: "int \<Rightarrow> 'w apistate \<Rightarrow> 'w apistate" where
  "RemoveRateLimiter keyID d = d\<lparr>rateLimiters := (rateLimiters d)(keyID := None)\<rparr>"

section \<open>Addresses\<close>

record 'ip net_ops =
  ParseIP :: "string \<Rightarrow> 'ip option"
  ParseCIDR :: "string \<Rightarrow> ('ip \<Rightarrow> bool) option"
  ip_Equal :: "'ip \<Rightarrow> 'ip \<Rightarrow> bool"

fun entry_matches :: "'ip net_ops \<Rightarrow> 'ip \<Rightarrow> string list \<Rightarrow> bool" where
  "entry_matches N ip [] = False"
| "entry_matches N ip (raw # rest) =
     (let entry = trim_space raw in
      if entry = [] then entry_matches N ip rest
      else if str_contains entry ''/'' then
        (case ParseCIDR N entry of
           Some ipNet \<Rightarrow> (if ipNet ip then True else entry_matches N ip rest)
         | None \<Rightarrow> entry_matches N ip rest)
      else
        (case ParseIP N entry of
           Some entryIP \<Rightarrow> (if ip_Equal N entryIP ip then True else entry_matches N ip rest)
         | None \<Rightarrow> entry_matches N ip rest))"

definition ipAllowed :: "'ip net_ops \<Rightarrow> string \<Rightarrow> string list \<Rightarrow> bool" where
  "ipAllowed N clientIP allowed =
     (case ParseIP N clientIP of None \<Rightarrow> False | Some ip \<Rightarrow> entry_matches N ip allowed)"

section \<open>Authentication\<close>

text \<open>What the middleware leaves in the request context.\<close>

record api_ctx =
  api_key_permissions :: APIKeyPermissions
  scope_filters :: "ScopeFilters option"
  api_key_id :: int
  api_key_prefix :: string

definition touch_key :: "time \<Rightarrow> int \<Rightarrow> api_key \<Rightarrow> api_key" where
  "touch_key now i k =
     (if ak_id k = i then k\<lparr>ak_last_used_at := Some now, ak_total_requests := ak_total_requests k + 1\<rparr> else k)"

definition bearer :: "string \<Rightarrow> string option" where
  "bearer authHeader = (if length authHeader > 7 \<and> take 7 authHeader = ''Bearer '' then Some (drop 7 authHeader) else None)"

definition find_key :: "hashes \<Rightarrow> string \<Rightarrow> ('w apistate, api_key) sql" where
  "find_key H apiKey =
     query (\<lambda>d. case find (\<lambda>k. ak_key_hash k = hashAPIKey H apiKey \<or> ak_key_hash k = TokenHashLegacy H apiKey) (api_keys d) of
       None \<Rightarrow> Inl NoRows | Some k \<Rightarrow> Inr k)"

text \<open>The checks on the row of the key, in order; \<^const>\<open>None\<close>: it passes.\<close>

definition key_refused :: "'ip net_ops \<Rightarrow> time \<Rightarrow> string \<Rightarrow> api_key \<Rightarrow> (int \<times> string) option" where
  "key_refused N now clientIP k =
     (if \<not> ak_is_active k then Some (401, ''unauthorized'')
      else if (case ak_expires_at k of Some t \<Rightarrow> t < now | None \<Rightarrow> False) then Some (401, ''unauthorized'')
      else if ak_allowed_ips k \<noteq> [] \<and> \<not> ipAllowed N clientIP (ak_allowed_ips k) then Some (403, ''ip_not_allowed'')
      else None)"

definition APIKeyAuth ::
  "hashes \<Rightarrow> 'ip net_ops \<Rightarrow> 'w redis_ops option \<Rightarrow> time \<Rightarrow> string \<Rightarrow> string \<Rightarrow> ('w apistate, api_ctx resp) sql" where
  "APIKeyAuth H N shared now clientIP authHeader =
     (case bearer authHeader of
        None \<Rightarrow> ret (Failure 401 ''unauthorized'')
      | Some apiKey \<Rightarrow>
     (if length apiKey < 8 then ret (Failure 401 ''unauthorized'')
      else attempt (find_key H apiKey) (\<lambda>r. case r of
        Inl err \<Rightarrow> ret (Failure 401 ''unauthorized'')
      | Inr k \<Rightarrow>
     (case key_refused N now clientIP k of
        Some (status, key) \<Rightarrow> ret (Failure status key)
      | None \<Rightarrow>
     (case unmarshal_permissions (ak_permissions k) of
        None \<Rightarrow> ret (Failure 401 ''unauthorized'')
      | Some perms \<Rightarrow>
          bind (local (getRateLimiter shared (ak_id k) (ak_rate_limit_per_min k))) (\<lambda>limiter.
          bind (local (limiter_allow shared now (ak_id k) limiter)) (\<lambda>ok.
            if \<not> ok then ret (Failure 429 ''rate_limited'')
            else attempt (stmt (\<lambda>d. Inr ((), d\<lparr>api_keys := map (touch_key now (ak_id k)) (api_keys d)\<rparr>))) (\<lambda>_.
              ret (Answer 200 \<lparr>api_key_permissions = perms,
                 scope_filters = map_option unmarshal_filters (ak_scope_filters k),
                 api_key_id = ak_id k, api_key_prefix = take 8 apiKey\<rparr>))))))))) "

definition CheckPermission :: "api_ctx option \<Rightarrow> string \<Rightarrow> bool" where
  "CheckPermission c perm =
     (case c of
        None \<Rightarrow> False
      | Some x \<Rightarrow>
          (if perm = ''export_json'' then ExportJSON (api_key_permissions x)
           else if perm = ''export_parsed'' then ExportParsed (api_key_permissions x)
           else if perm = ''view_stats'' then ViewStats (api_key_permissions x)
           else False))"

section \<open>Management\<close>

record actor =
  ac_user_id :: int
  ac_username :: string
  ac_ip :: string

text \<open>\<^verbatim>\<open>audit.LogAudit\<close>: a failed insert is only logged; otherwise the alert engine sees the entry.\<close>

definition LogAudit :: "actor \<Rightarrow> string \<Rightarrow> string \<Rightarrow> ('w apistate, unit) sql" where
  "LogAudit a action details =
     (let row = \<lparr>au_user_id = ac_user_id a, au_username = ac_username a, au_action = action, au_ip = ac_ip a, au_details = details\<rparr> in
      attempt (stmt (\<lambda>d. Inr ((), d\<lparr>audit_log := audit_log d @ [row]\<rparr>))) (\<lambda>r. case r of
         Inl err \<Rightarrow> ret ()
       | Inr u \<Rightarrow> local (\<lambda>d. ((), d\<lparr>audit_events := audit_events d @ [row]\<rparr>))))"

fun validateAllowedIPs :: "'ip net_ops \<Rightarrow> string list \<Rightarrow> string list option" where
  "validateAllowedIPs N [] = Some []"
| "validateAllowedIPs N (raw # ips) =
     (let entry = trim_space raw in
      if entry = [] then validateAllowedIPs N ips
      else if str_contains entry ''/'' then
        (case ParseCIDR N entry of None \<Rightarrow> None | Some _ \<Rightarrow> map_option (Cons entry) (validateAllowedIPs N ips))
      else
        (case ParseIP N entry of None \<Rightarrow> None | Some _ \<Rightarrow> map_option (Cons entry) (validateAllowedIPs N ips)))"

text \<open>
  \<^verbatim>\<open>id, _ := strconv.Atoi(s)\<close>: 0 for a text that is no number, the nearest 64-bit integer for one out of
  range. A number that does not fit the column makes the statement fail.
\<close>

definition Atoi_or_limit :: "string \<Rightarrow> int" where
  "Atoi_or_limit s = (case parse_sign s of None \<Rightarrow> 0 | Some i \<Rightarrow> max (- (2 ^ 63)) (min i (2 ^ 63 - 1)))"

text \<open>A request's permissions, in the order \<^verbatim>\<open>jsonb\<close> keeps the members.\<close>

definition marshal_permissions :: "(string \<times> bool) list option \<Rightarrow> json" where
  "marshal_permissions m = (case m of None \<Rightarrow> JNull | Some ps \<Rightarrow> JObj (map (\<lambda>(k, b). (k, JBool b)) ps))"

definition marshal_strings :: "string list option \<Rightarrow> json" where
  "marshal_strings m = (case m of None \<Rightarrow> JNull | Some xs \<Rightarrow> JArr (map JStr xs))"

record scope_request =
  sq_Hostnames :: "string list option"
  sq_Severities :: "string list option"
  sq_MatchMode :: string

definition marshal_scope :: "scope_request \<Rightarrow> json" where
  "marshal_scope q =
     JObj [(''hostnames'', marshal_strings (sq_Hostnames q)), (''match_mode'', JStr (sq_MatchMode q)),
           (''severities'', marshal_strings (sq_Severities q))]"

definition scope_defaults :: "scope_request \<Rightarrow> scope_request" where
  "scope_defaults q = (if sq_MatchMode q \<noteq> ''or'' then q\<lparr>sq_MatchMode := ''and''\<rparr> else q)"

record create_key_request =
  cr_Name :: string
  cr_Permissions :: "(string \<times> bool) list option"
  cr_ScopeFilters :: "scope_request option"
  cr_AllowedIPs :: "string list"
  cr_RateLimitPerMin :: int
  cr_TTLDays :: int

definition ttl_expiry :: "time \<Rightarrow> int \<Rightarrow> time option" where
  "ttl_expiry now days = (if days > 0 then Some (now + days * (24 * Hour)) else None)"

definition insert_key :: "api_key \<Rightarrow> ('w apistate, unit) sql" where
  "insert_key k = stmt (\<lambda>d.
     if \<not> is_int32 (ak_rate_limit_per_min k) \<or> (\<exists>k' \<in> set (api_keys d). ak_key_hash k' = ak_key_hash k) then Inl SqlErr
     else Inr ((), d\<lparr>api_keys := api_keys d @ [k\<lparr>ak_id := next_key_id d\<rparr>], next_key_id := next_key_id d + 1\<rparr>))"

text \<open>\<open>key\<close>: what \<^verbatim>\<open>GenerateAPIKey\<close> returned. The answer carries the key and its prefix.\<close>

definition CreateAPIKey ::
  "hashes \<Rightarrow> 'ip net_ops \<Rightarrow> time \<Rightarrow> actor \<Rightarrow> string \<Rightarrow> create_key_request option \<Rightarrow> ('w apistate, (string \<times> string) resp) sql" where
  "CreateAPIKey H N now a key body =
     (case body of
        None \<Rightarrow> ret (Failure 400 [])
      | Some req \<Rightarrow>
          (case validateAllowedIPs N (cr_AllowedIPs req) of
             None \<Rightarrow> ret (Failure 400 [])
           | Some allowedIPs \<Rightarrow>
               attempt (insert_key \<lparr>ak_id = 0, ak_name = cr_Name req, ak_key_hash = hashAPIKey H key, ak_key_prefix = take 8 key,
                   ak_permissions = marshal_permissions (cr_Permissions req),
                   ak_scope_filters = Some (case cr_ScopeFilters req of None \<Rightarrow> JNull | Some q \<Rightarrow> marshal_scope (scope_defaults q)),
                   ak_allowed_ips = allowedIPs, ak_is_active = True,
                   ak_rate_limit_per_min = (if cr_RateLimitPerMin req \<le> 0 then 60 else cr_RateLimitPerMin req),
                   ak_expires_at = ttl_expiry now (cr_TTLDays req), ak_last_used_at = None, ak_total_requests = 0,
                   ak_created_at = now, ak_created_by = Some (ac_user_id a)\<rparr>) (\<lambda>r. case r of
                  Inl err \<Rightarrow> ret (Failure 500 [])
                | Inr u \<Rightarrow>
                    bind (LogAudit a ''api_key_created'' (''name='' @ cr_Name req @ '', prefix='' @ take 8 key)) (\<lambda>_.
                    ret (Answer 201 (key, take 8 key))))))"

record update_key_request =
  up_Name :: "string option"
  up_Permissions :: "(string \<times> bool) list option option"
  up_ScopeFilters :: "scope_request option"
  up_AllowedIPs :: "string list option"
  up_IsActive :: "bool option"
  up_RateLimitPerMin :: "int option"
  up_TTLDays :: "int option"

text \<open>One setter of the statement: its column and the value bound to its placeholder.\<close>

datatype setter =
    SetName string
  | SetPermissions json
  | SetScopeFilters json
  | SetAllowedIPs "string list"
  | SetActive bool
  | SetRateLimit int
  | SetExpires "time option"

fun setter_column :: "setter \<Rightarrow> string" where
  "setter_column (SetName _) = ''name''"
| "setter_column (SetPermissions _) = ''permissions''"
| "setter_column (SetScopeFilters _) = ''scope_filters''"
| "setter_column (SetAllowedIPs _) = ''allowed_ips''"
| "setter_column (SetActive _) = ''is_active''"
| "setter_column (SetRateLimit _) = ''rate_limit_per_min''"
| "setter_column (SetExpires _) = ''expires_at''"

fun apply_setter :: "setter \<Rightarrow> api_key \<Rightarrow> api_key" where
  "apply_setter (SetName x) k = k\<lparr>ak_name := x\<rparr>"
| "apply_setter (SetPermissions x) k = k\<lparr>ak_permissions := x\<rparr>"
| "apply_setter (SetScopeFilters x) k = k\<lparr>ak_scope_filters := Some x\<rparr>"
| "apply_setter (SetAllowedIPs x) k = k\<lparr>ak_allowed_ips := x\<rparr>"
| "apply_setter (SetActive x) k = k\<lparr>ak_is_active := x\<rparr>"
| "apply_setter (SetRateLimit x) k = k\<lparr>ak_rate_limit_per_min := x\<rparr>"
| "apply_setter (SetExpires x) k = k\<lparr>ak_expires_at := x\<rparr>"

definition update_setters :: "time \<Rightarrow> update_key_request \<Rightarrow> string list \<Rightarrow> setter list" where
  "update_setters now req cleanedAllowedIPs =
     (case up_Name req of None \<Rightarrow> [] | Some x \<Rightarrow> [SetName x]) @
     (case up_Permissions req of None \<Rightarrow> [] | Some x \<Rightarrow> [SetPermissions (marshal_permissions x)]) @
     (case up_ScopeFilters req of None \<Rightarrow> [] | Some q \<Rightarrow> [SetScopeFilters (marshal_scope (scope_defaults q))]) @
     (case up_AllowedIPs req of None \<Rightarrow> [] | Some _ \<Rightarrow> [SetAllowedIPs cleanedAllowedIPs]) @
     (case up_IsActive req of None \<Rightarrow> [] | Some b \<Rightarrow> [SetActive b]) @
     (case up_RateLimitPerMin req of None \<Rightarrow> [] | Some n \<Rightarrow> [SetRateLimit n]) @
     (case up_TTLDays req of None \<Rightarrow> [] | Some n \<Rightarrow> [SetExpires (ttl_expiry now n)])"

fun setter_fits :: "setter \<Rightarrow> bool" where
  "setter_fits (SetRateLimit n) = is_int32 n"
| "setter_fits _ = True"

definition update_key :: "int \<Rightarrow> setter list \<Rightarrow> ('w apistate, unit) sql" where
  "update_key i setters = stmt (\<lambda>d.
     if \<not> is_int32 i \<or> \<not> list_all setter_fits setters then Inl SqlErr
     else Inr ((), d\<lparr>api_keys := map (\<lambda>k. if ak_id k = i then fold apply_setter setters k else k) (api_keys d)\<rparr>))"

definition UpdateAPIKey ::
  "'ip net_ops \<Rightarrow> time \<Rightarrow> actor \<Rightarrow> string \<Rightarrow> update_key_request option \<Rightarrow> ('w apistate, string resp) sql" where
  "UpdateAPIKey N now a idStr body =
     (case body of
        None \<Rightarrow> ret (Failure 400 [])
      | Some req \<Rightarrow>
          (case (case up_AllowedIPs req of None \<Rightarrow> Some [] | Some ips \<Rightarrow> validateAllowedIPs N ips) of
             None \<Rightarrow> ret (Failure 400 [])
           | Some cleaned \<Rightarrow>
               (let setters = update_setters now req cleaned in
                if setters = [] then ret (Failure 400 [])
                else attempt (update_key (Atoi_or_limit idStr) setters) (\<lambda>r. case r of
                   Inl err \<Rightarrow> ret (Failure 500 [])
                 | Inr u \<Rightarrow>
                     bind (LogAudit a ''api_key_updated'' (''id='' @ itoa (Atoi_or_limit idStr) @ '', fields='' @ join '','' (map setter_column setters)))
                       (\<lambda>_. ret (Answer 200 ''API key updated''))))))"

definition delete_key :: "int \<Rightarrow> ('w apistate, unit) sql" where
  "delete_key i = stmt (\<lambda>d.
     if \<not> is_int32 i then Inl SqlErr else Inr ((), d\<lparr>api_keys := filter (\<lambda>k. ak_id k \<noteq> i) (api_keys d)\<rparr>))"

definition DeleteAPIKey :: "actor \<Rightarrow> string \<Rightarrow> ('w apistate, string resp) sql" where
  "DeleteAPIKey a idStr =
     (let i = Atoi_or_limit idStr in
      attempt (delete_key i) (\<lambda>r. case r of
         Inl err \<Rightarrow> ret (Failure 500 [])
       | Inr u \<Rightarrow>
           bind (LogAudit a ''api_key_deleted'' (''id='' @ itoa i)) (\<lambda>_.
           bind (local (\<lambda>d. ((), RemoveRateLimiter i d))) (\<lambda>_.
           ret (Answer 200 ''API key deleted'')))))"

definition reset_key :: "int \<Rightarrow> string \<Rightarrow> string \<Rightarrow> ('w apistate, unit) sql" where
  "reset_key i keyHash keyPrefix = stmt (\<lambda>d.
     if \<not> is_int32 i \<or> (\<exists>k \<in> set (api_keys d). ak_id k \<noteq> i \<and> ak_key_hash k = keyHash \<and> (\<exists>k' \<in> set (api_keys d). ak_id k' = i))
     then Inl SqlErr
     else Inr ((), d\<lparr>api_keys := map (\<lambda>k. if ak_id k = i then k\<lparr>ak_key_hash := keyHash, ak_key_prefix := keyPrefix\<rparr> else k) (api_keys d)\<rparr>))"

definition ResetAPIKey :: "hashes \<Rightarrow> actor \<Rightarrow> string \<Rightarrow> string \<Rightarrow> ('w apistate, (string \<times> string) resp) sql" where
  "ResetAPIKey H a key idStr =
     (let i = Atoi_or_limit idStr in
      attempt (reset_key i (hashAPIKey H key) (take 8 key)) (\<lambda>r. case r of
         Inl err \<Rightarrow> ret (Failure 500 [])
       | Inr u \<Rightarrow>
           bind (LogAudit a ''api_key_reset'' (''id='' @ itoa i @ '', prefix='' @ take 8 key)) (\<lambda>_.
           ret (Answer 200 (key, take 8 key)))))"

section \<open>Listing\<close>

record key_view =
  kv_id :: int
  kv_name :: string
  kv_keyPrefix :: string
  kv_permissions :: "(string \<times> bool) list"
  kv_scope_filters :: "(string \<times> json) list"
  kv_allowed_ips :: "string list"
  kv_is_active :: bool
  kv_rate_limit_per_min :: int
  kv_expires_at :: "time option"
  kv_last_used_at :: "time option"
  kv_total_requests :: int
  kv_created_at :: time
  kv_created_by :: string

text \<open>\<^verbatim>\<open>map[string]bool\<close> and \<^verbatim>\<open>map[string]interface{}\<close>, the decoding errors ignored.\<close>

definition go_bool_map :: "json \<Rightarrow> (string \<times> bool) list" where
  "go_bool_map j = (case j of JObj ps \<Rightarrow> map (\<lambda>(k, v). (k, case v of JBool b \<Rightarrow> b | _ \<Rightarrow> False)) ps | _ \<Rightarrow> [])"

definition go_map :: "json option \<Rightarrow> (string \<times> json) list" where
  "go_map j = (case j of Some (JObj ps) \<Rightarrow> ps | _ \<Rightarrow> [])"

definition key_view_of :: "(int \<rightharpoonup> string) \<Rightarrow> api_key \<Rightarrow> key_view" where
  "key_view_of users k =
     \<lparr>kv_id = ak_id k, kv_name = ak_name k, kv_keyPrefix = ak_key_prefix k, kv_permissions = go_bool_map (ak_permissions k),
      kv_scope_filters = go_map (ak_scope_filters k), kv_allowed_ips = ak_allowed_ips k, kv_is_active = ak_is_active k,
      kv_rate_limit_per_min = ak_rate_limit_per_min k, kv_expires_at = ak_expires_at k, kv_last_used_at = ak_last_used_at k,
      kv_total_requests = ak_total_requests k, kv_created_at = ak_created_at k,
      kv_created_by = (case ak_created_by k of None \<Rightarrow> [] | Some u \<Rightarrow> (case users u of None \<Rightarrow> [] | Some n \<Rightarrow> n))\<rparr>"

definition ListAPIKeys :: "(int \<rightharpoonup> string) \<Rightarrow> ('w apistate, key_view list resp) sql" where
  "ListAPIKeys users =
     attempt (query (\<lambda>d. Inr (sort_key (\<lambda>k. - ak_created_at k) (api_keys d)))) (\<lambda>r. case r of
        Inl err \<Rightarrow> ret (Failure 500 [])
      | Inr rows \<Rightarrow> ret (Answer 200 (map (key_view_of users) rows)))"

end
