(* ===== verification/ApiKeyTheorems.thy ===== *)
theory ApiKeyTheorems
  imports ApiKey
begin

text \<open>
  What the API key middleware and the handlers that manage keys guarantee together: the tables stay
  consistent in every interleaving of requests, a created key opens exactly what was asked for, a key
  that was reset or deleted never opens anything again. And two facts about the limiters: the one in
  the process refills every second, and a changed limit does not reach it.
\<close>

section \<open>Interleavings\<close>

datatype api_event =
    EvAuth time string string
  | EvSecond
  | EvCreate time actor string "create_key_request option"
  | EvUpdate time actor string "update_key_request option"
  | EvDelete actor string
  | EvReset actor string string

text \<open>\<^const>\<open>EvSecond\<close>: the refill loops of all limiters of the process tick.\<close>

definition refill_all :: "'w apistate \<Rightarrow> 'w apistate" where
  "refill_all d = d\<lparr>rateLimiters := (\<lambda>i. map_option (\<lambda>rl. case rl of memoryKeyLimiter m \<Rightarrow> memoryKeyLimiter (refill m) | x \<Rightarrow> x)
     (rateLimiters d i))\<rparr>"

fun api_prog :: "hashes \<Rightarrow> 'ip net_ops \<Rightarrow> 'w redis_ops option \<Rightarrow> api_event \<Rightarrow> ('w apistate, unit) sql" where
  "api_prog H N shared (EvAuth now ip header) = bind (APIKeyAuth H N shared now ip header) (\<lambda>_. ret ())"
| "api_prog H N shared EvSecond = local (\<lambda>d. ((), refill_all d))"
| "api_prog H N shared (EvCreate now a key body) = bind (CreateAPIKey H N now a key body) (\<lambda>_. ret ())"
| "api_prog H N shared (EvUpdate now a i body) = bind (UpdateAPIKey N now a i body) (\<lambda>_. ret ())"
| "api_prog H N shared (EvDelete a i) = bind (DeleteAPIKey a i) (\<lambda>_. ret ())"
| "api_prog H N shared (EvReset a key i) = bind (ResetAPIKey H a key i) (\<lambda>_. ret ())"

fun api_run :: "hashes \<Rightarrow> 'ip net_ops \<Rightarrow> 'w redis_ops option \<Rightarrow> api_event list \<Rightarrow> 'w apistate \<times> bool list \<Rightarrow> 'w apistate \<times> bool list" where
  "api_run H N shared [] s = s"
| "api_run H N shared (ev # evs) s = api_run H N shared evs (snd (api_prog H N shared ev s))"

fun generated :: "api_event \<Rightarrow> string set" where
  "generated (EvCreate now a key body) = {key}"
| "generated (EvReset a key i) = {key}"
| "generated _ = {}"

section \<open>A rule for invariants\<close>

text \<open>
  Every change of the key table goes through five statements; an invariant of table, counter and
  limiters that they and the limiter steps keep holds through every handler.
\<close>

locale key_invariant =
  fixes I :: "'w apistate \<Rightarrow> bool" and H :: hashes and P :: "string \<Rightarrow> bool"
  assumes inv_audit: "I d \<Longrightarrow> I (d\<lparr>audit_log := x\<rparr>)" "I d \<Longrightarrow> I (d\<lparr>audit_events := y\<rparr>)"
    and inv_world: "I d \<Longrightarrow> I (d\<lparr>shared_world := w\<rparr>)"
    and inv_get: "I d \<Longrightarrow> I (snd (getRateLimiter shared i n d))"
    and inv_mem: "I d \<Longrightarrow> rateLimiters d i = Some (memoryKeyLimiter m) \<Longrightarrow>
      I (d\<lparr>rateLimiters := (rateLimiters d)(i \<mapsto> memoryKeyLimiter (snd (mem_Allow m)))\<rparr>)"
    and inv_remove: "I d \<Longrightarrow> I (RemoveRateLimiter i d)"
    and inv_refill: "I d \<Longrightarrow> I (refill_all d)"
    and inv_touch: "I d \<Longrightarrow> I (d\<lparr>api_keys := map (touch_key now i) (api_keys d)\<rparr>)"
    and inv_insert: "P key \<Longrightarrow> ak_key_hash k = hashAPIKey H key \<Longrightarrow> keeps I (insert_key k)"
    and inv_update: "keeps I (update_key i setters)"
    and inv_delete: "keeps I (delete_key i)"
    and inv_reset: "P key \<Longrightarrow> keeps I (reset_key i (hashAPIKey H key) prefix)"
begin

lemma keeps_LogAudit: "keeps I (LogAudit a action details)"
  unfolding LogAudit_def Let_def
  by (intro keeps_intros keeps_stmt keeps_local) (auto intro: inv_audit)

lemma getRateLimiter_registered: "rateLimiters (snd (getRateLimiter shared i n d)) i = Some (fst (getRateLimiter shared i n d))"
  by (simp add: getRateLimiter_def Let_def split: option.split)

lemma keeps_limiter:
  "keeps I (bind (local (getRateLimiter shared i n)) (\<lambda>limiter. bind (local (limiter_allow shared now i limiter)) k))"
  if k: "\<And>ok. keeps I (k ok)"
proof (rule keepsI)
  fix s :: "'w apistate \<times> bool list"
  assume "I (fst s)"
  obtain rl d1 where g: "getRateLimiter shared i n (fst s) = (rl, d1)" by fastforce
  have d1: "I d1" "rateLimiters d1 i = Some rl"
    using inv_get [OF \<open>I (fst s)\<close>, of shared i n] getRateLimiter_registered [of shared i n "fst s"] g by auto
  obtain ok d2 where a: "limiter_allow shared now i rl d1 = (ok, d2)" by fastforce
  have "I d2"
    using a d1 inv_mem [OF d1(1), of i] inv_world
    by (auto simp: limiter_allow_def split: keyRateLimiter.splits option.splits prod.splits)
  then have "I (fst (snd (k ok (d2, snd s))))" using keepsD [OF k] by (metis fst_conv)
  then show "I (fst (snd (bind (local (getRateLimiter shared i n)) (\<lambda>limiter. bind (local (limiter_allow shared now i limiter)) k) s)))"
    using g a by (simp add: bind_def local_def)
qed

lemma keeps_APIKeyAuth: "keeps I (APIKeyAuth H N shared now ip header)"
  unfolding APIKeyAuth_def find_key_def
  by (intro keeps_intros keeps_limiter keeps_stmt) (auto intro: inv_touch keeps_intros split: prod.split)

lemma keeps_api_prog:
  assumes "\<And>key. key \<in> generated ev \<Longrightarrow> P key"
  shows "keeps I (api_prog H N shared ev)"
proof (cases ev)
  case (EvAuth now ip header)
  then show ?thesis by (auto intro!: keeps_intros keeps_APIKeyAuth)
next
  case EvSecond
  then show ?thesis by (auto intro!: keeps_local inv_refill)
next
  case (EvCreate now a key body)
  then show ?thesis using assms
    by (auto intro!: keeps_intros keeps_LogAudit inv_insert simp: CreateAPIKey_def)
next
  case (EvUpdate now a i body)
  then show ?thesis
    by (auto intro!: keeps_intros keeps_LogAudit inv_update simp: UpdateAPIKey_def Let_def)
next
  case (EvDelete a i)
  then show ?thesis
    by (auto intro!: keeps_intros keeps_LogAudit inv_delete keeps_local inv_remove simp: DeleteAPIKey_def Let_def)
next
  case (EvReset a key i)
  then show ?thesis using assms
    by (auto intro!: keeps_intros keeps_LogAudit inv_reset simp: ResetAPIKey_def Let_def)
qed

lemma api_run_keeps:
  assumes "I (fst s)" "\<And>ev key. ev \<in> set evs \<Longrightarrow> key \<in> generated ev \<Longrightarrow> P key"
  shows "I (fst (api_run H N shared evs s))"
  using assms
proof (induction evs arbitrary: s)
  case (Cons ev evs)
  then have "I (fst (snd (api_prog H N shared ev s)))" using keepsD [OF keeps_api_prog] by (metis list.set_intros(1))
  from Cons.IH [OF this] Cons.prems(2) show ?case by auto
qed simp

end

section \<open>Consistent tables\<close>

definition keys_ok :: "'w apistate \<Rightarrow> bool" where
  "keys_ok d \<longleftrightarrow>
     distinct (map ak_id (api_keys d)) \<and> distinct (map ak_key_hash (api_keys d)) \<and>
     (\<forall>k \<in> set (api_keys d). ak_id k < next_key_id d) \<and>
     (\<forall>i m. rateLimiters d i = Some (memoryKeyLimiter m) \<longrightarrow> tokens m \<le> maxToken m)"

lemma fold_setters [simp]:
  "ak_id (fold apply_setter ss k) = ak_id k" "ak_key_hash (fold apply_setter ss k) = ak_key_hash k"
proof (induction ss arbitrary: k)
  case (Cons s ss)
  { case 1 then show ?case using Cons(1) by (cases s) auto }
  { case 2 then show ?case using Cons(2) by (cases s) auto }
qed simp_all

lemma touch_key_simps [simp]: "ak_id (touch_key now i k) = ak_id k" "ak_key_hash (touch_key now i k) = ak_key_hash k"
  by (simp_all add: touch_key_def)

lemma update_key_row [simp]:
  "ak_id (if c then fold apply_setter ss k else k) = ak_id k"
  "ak_key_hash (if c then fold apply_setter ss k else k) = ak_key_hash k"
  by simp_all

lemma keys_ok_upd:
  "keys_ok d \<Longrightarrow> distinct (map ak_id ks) \<Longrightarrow> distinct (map ak_key_hash ks) \<Longrightarrow> \<forall>k \<in> set ks. ak_id k < next_key_id d \<Longrightarrow>
    keys_ok (d\<lparr>api_keys := ks\<rparr>)"
  by (simp add: keys_ok_def)

lemma reset_hashes_distinct:
  assumes "distinct (map ak_id ks)" "distinct (map ak_key_hash ks)" "\<And>k. k \<in> set ks \<Longrightarrow> ak_id k \<noteq> i \<Longrightarrow> ak_key_hash k \<noteq> h"
  shows "distinct (map ak_key_hash (map (\<lambda>k. if ak_id k = i then k\<lparr>ak_key_hash := h, ak_key_prefix := p\<rparr> else k) ks))"
  using assms by (induction ks) (auto simp: image_iff split: if_splits)

interpretation keys: key_invariant keys_ok H "\<lambda>_. True" for H
proof (unfold_locales, goal_cases)
  case (4 d shared i n)
  then show ?case
    by (auto simp: keys_ok_def getRateLimiter_def NewRateLimiter_def Let_def split: option.splits)
next
  case (5 d i m)
  then have "tokens m \<le> maxToken m" by (auto simp: keys_ok_def)
  then have "tokens (snd (mem_Allow m)) \<le> maxToken (snd (mem_Allow m))" by (simp add: mem_Allow_def)
  with 5 show ?case by (auto simp: keys_ok_def)
next
  case (7 d)
  have "tokens m \<le> maxToken m" if "rateLimiters (refill_all d) i = Some (memoryKeyLimiter m)" for i m
    using that by (cases "rateLimiters d i"; cases "the (rateLimiters d i)") (auto simp: refill_all_def refill_def)
  with 7 show ?case by (auto simp: keys_ok_def refill_all_def)
next
  case (8 d now i)
  then show ?case by (auto simp: keys_ok_def comp_def)
next
  case (9 key k)
  then show ?case unfolding insert_key_def
    by (intro keeps_stmt) (fastforce simp: keys_ok_def split: if_splits)
next
  case (10 i setters)
  then show ?case unfolding update_key_def
    by (intro keeps_stmt) (auto simp: keys_ok_def comp_def split: if_splits)
next
  case (11 i)
  then show ?case unfolding delete_key_def
    by (intro keeps_stmt) (auto simp: keys_ok_def distinct_map inj_on_def split: if_splits)
next
  case (12 key i prefix)
  show ?case unfolding reset_key_def
  proof (rule keeps_stmt)
    fix d d' :: "'a apistate" and x :: unit
    let ?f = "\<lambda>k. if ak_id k = i then k\<lparr>ak_key_hash := hashAPIKey H key, ak_key_prefix := prefix\<rparr> else k"
    assume ok: "keys_ok d" and r: "(if \<not> is_int32 i \<or> (\<exists>k \<in> set (api_keys d). ak_id k \<noteq> i \<and> ak_key_hash k = hashAPIKey H key \<and> (\<exists>k' \<in> set (api_keys d). ak_id k' = i))
      then Inl SqlErr else Inr ((), d\<lparr>api_keys := map ?f (api_keys d)\<rparr>)) = Inr (x, d')"
    have ids: "map ak_id (map ?f (api_keys d)) = map ak_id (api_keys d)" by simp
    have "distinct (map ak_key_hash (map ?f (api_keys d)))"
    proof (cases "\<exists>k' \<in> set (api_keys d). ak_id k' = i")
      case True
      with ok r show ?thesis by (intro reset_hashes_distinct) (auto simp: keys_ok_def split: if_splits)
    next
      case False
      then have "map ?f (api_keys d) = api_keys d" by (intro map_idI) auto
      with ok show ?thesis by (simp add: keys_ok_def)
    qed
    moreover have "d' = d\<lparr>api_keys := map ?f (api_keys d)\<rparr>" using r by (simp split: if_splits)
    moreover have "\<forall>k \<in> set (map ?f (api_keys d)). ak_id k < next_key_id d" using ok by (auto simp: keys_ok_def)
    moreover have "distinct (map ak_id (map ?f (api_keys d)))" unfolding ids using ok by (simp add: keys_ok_def)
    ultimately show "keys_ok d'" using keys_ok_upd [OF ok] by blast
  qed
qed (auto simp: keys_ok_def RemoveRateLimiter_def)

interpretation revoked: key_invariant "\<lambda>d. \<forall>k \<in> set (api_keys d). ak_key_hash k \<notin> X" H "\<lambda>g. hashAPIKey H g \<notin> X" for X H
proof (unfold_locales, goal_cases)
  case (9 key k)
  then show ?case unfolding insert_key_def by (intro keeps_stmt) (auto split: if_splits)
next
  case (10 i setters)
  then show ?case unfolding update_key_def by (intro keeps_stmt) (auto split: if_splits)
next
  case (11 i)
  then show ?case unfolding delete_key_def by (intro keeps_stmt) (auto split: if_splits)
next
  case (12 key i prefix)
  then show ?case unfolding reset_key_def by (intro keeps_stmt) (auto split: if_splits)
qed (auto simp: RemoveRateLimiter_def refill_all_def getRateLimiter_def Let_def split: option.splits)

text \<open>A small installation: digests that tag the key, addresses compared as texts.\<close>

definition tag_hashes :: hashes where
  "tag_hashes = \<lparr>hmac_sha256 = (\<lambda>k t. CHR ''h'' # t), sha256 = (\<lambda>t. CHR ''s'' # t), tokenHashKey = ''k''\<rparr>"

definition text_net :: "string net_ops" where
  "text_net = \<lparr>ParseIP = Some, ParseCIDR = (\<lambda>_. None), ip_Equal = (=)\<rparr>"

definition root_actor :: actor where
  "root_actor = \<lparr>ac_user_id = 1, ac_username = ''root'', ac_ip = ''::1''\<rparr>"

definition no_keys :: "unit apistate" where
  "no_keys = \<lparr>api_keys = [], next_key_id = 1, audit_log = [], audit_events = [], rateLimiters = Map.empty, shared_world = ()\<rparr>"

definition export_request :: create_key_request where
  "export_request = \<lparr>cr_Name = ''siem'', cr_Permissions = Some [(''export_json'', True)],
     cr_ScopeFilters = Some \<lparr>sq_Hostnames = Some [''web''], sq_Severities = None, sq_MatchMode = []\<rparr>,
     cr_AllowedIPs = ['' 10.0.0.5 ''], cr_RateLimitPerMin = 0, cr_TTLDays = 1\<rparr>"

section \<open>Authentication\<close>

text \<open>A key with no matching digest in the table is refused.\<close>

definition digests :: "hashes \<Rightarrow> string \<Rightarrow> string set" where
  "digests H key = {hashAPIKey H key, TokenHashLegacy H key}"

lemma unknown_key_refused:
  assumes "\<forall>k \<in> set (api_keys (fst s)). ak_key_hash k \<notin> digests H key"
  shows "fst (APIKeyAuth H N shared now ip (''Bearer '' @ key) s) = Inr (Failure 401 ''unauthorized'')"
proof -
  have none: "find (\<lambda>k. ak_key_hash k = hashAPIKey H key \<or> ak_key_hash k = TokenHashLegacy H key) (api_keys (fst s)) = None"
    using assms by (auto simp: find_None_iff digests_def)
  have "\<exists>err. fst (find_key H key s) = Inl err"
    using none by (auto simp: find_key_def query_def stmt_def)
  then obtain err s' where "find_key H key s = (Inl err, s')" by (cases "find_key H key s") auto
  then show ?thesis by (simp add: APIKeyAuth_def bearer_def attempt_def)
qed

lemma LogAudit_keys: "api_keys (fst (snd (LogAudit a action details s))) = api_keys (fst s)"
  by (auto simp: LogAudit_def Let_def attempt_def stmt_def split: sum.splits)

lemma LogAudit_ok: "\<exists>s'. LogAudit a action details s = (Inr (), s')"
  by (auto simp: LogAudit_def Let_def attempt_def stmt_def split: sum.splits)

lemma Atoi_itoa: "is_int32 (Atoi_or_limit (itoa i)) \<Longrightarrow> Atoi_or_limit (itoa i) = i"
  by (auto simp: Atoi_or_limit_def is_int32_def max_def min_def split: if_splits)

lemma ResetAPIKey_keys:
  assumes "ResetAPIKey H a new (itoa i) (d, faults) = (Inr (Answer 200 x), s)"
  shows "api_keys (fst s) = map (\<lambda>k. if ak_id k = i then k\<lparr>ak_key_hash := hashAPIKey H new, ak_key_prefix := take 8 new\<rparr> else k) (api_keys d)"
proof -
  let ?i = "Atoi_or_limit (itoa i)"
  obtain r s1 where r: "reset_key ?i (hashAPIKey H new) (take 8 new) (d, faults) = (r, s1)" by (rule prod.exhaust)
  with assms obtain u where u: "r = Inr u" by (cases r) (auto simp: ResetAPIKey_def Let_def attempt_def)
  then have s1: "is_int32 ?i" "api_keys (fst s1) = map (\<lambda>k. if ak_id k = ?i then k\<lparr>ak_key_hash := hashAPIKey H new, ak_key_prefix := take 8 new\<rparr> else k) (api_keys d)"
    using r by (auto simp: reset_key_def stmt_def split: if_splits)
  have "api_keys (fst s) = api_keys (fst s1)"
  proof -
    let ?log = "LogAudit a ''api_key_reset'' (''id='' @ itoa ?i @ '', prefix='' @ take 8 new)"
    obtain s' where "?log s1 = (Inr (), s')" using LogAudit_ok by blast
    with assms r u have "s = s'" "api_keys (fst s') = api_keys (fst s1)"
      using LogAudit_keys [of a "''api_key_reset''" "''id='' @ itoa ?i @ '', prefix='' @ take 8 new" s1]
      by (simp_all add: ResetAPIKey_def Let_def attempt_def bind_def)
    then show ?thesis by simp
  qed
  with s1 Atoi_itoa [OF s1(1)] show ?thesis by simp
qed

text \<open>
  (C18) A key that was reset stays revoked: once the handler has answered, the old key is refused with
  401 for ever, through any further requests, creations, updates, resets, deletions and database
  failures, as long as no key generated from then on has the digest of the old one.
\<close>

theorem reset_revokes_for_ever:
  assumes "keys_ok d" "k \<in> set (api_keys d)" "ak_key_hash k = hashAPIKey H old"
    and "\<forall>k' \<in> set (api_keys d). ak_key_hash k' \<noteq> TokenHashLegacy H old \<or> k' = k"
    and "ResetAPIKey H a new (itoa (ak_id k)) (d, faults) = (Inr (Answer 200 (new, take 8 new)), s)"
    and "\<forall>g \<in> {new} \<union> (\<Union>ev \<in> set evs. generated ev). hashAPIKey H g \<notin> digests H old"
  shows "fst (APIKeyAuth H N shared now ip (''Bearer '' @ old) (api_run H N shared evs s)) = Inr (Failure 401 ''unauthorized'')"
proof -
  let ?f = "\<lambda>x. if ak_id x = ak_id k then x\<lparr>ak_key_hash := hashAPIKey H new, ak_key_prefix := take 8 new\<rparr> else x"
  have keys: "api_keys (fst s) = map ?f (api_keys d)" using ResetAPIKey_keys [OF assms(5)] by simp
  have "ak_key_hash x \<notin> digests H old" if "x \<in> set (api_keys (fst s))" for x
  proof -
    from that keys obtain y where y: "y \<in> set (api_keys d)" "x = ?f y" by auto
    show ?thesis
    proof (cases "ak_id y = ak_id k")
      case True
      with y assms(6) show ?thesis by simp
    next
      case False
      then have "y \<noteq> k" by auto
      moreover have "ak_key_hash y \<noteq> ak_key_hash k"
        using assms(1,2) y(1) \<open>y \<noteq> k\<close> by (auto simp: keys_ok_def distinct_map inj_on_def)
      ultimately show ?thesis using False y assms(3,4) by (auto simp: digests_def)
    qed
  qed
  then have "\<forall>x \<in> set (api_keys (fst (api_run H N shared evs s))). ak_key_hash x \<notin> digests H old"
    using revoked.api_run_keeps [of s "digests H old" evs H] assms(6) by blast
  then show ?thesis by (rule unknown_key_refused)
qed

theorem reset_revokes_for_ever_witness:
  "let s0 = snd (CreateAPIKey tag_hashes text_net 0 root_actor ''0123456789'' (Some export_request) (no_keys, []));
       s1 = snd (ResetAPIKey tag_hashes root_actor ''abcdefghij'' (itoa 1) s0) in
   fst (APIKeyAuth tag_hashes text_net None 9 ''10.0.0.5'' (''Bearer '' @ ''0123456789'')
     (api_run tag_hashes text_net None [EvAuth 5 ''10.0.0.5'' ''Bearer abcdefghij'', EvUpdate 6 root_actor ''1'' None] s1)) =
   Inr (Failure 401 ''unauthorized'')"
proof -
  let ?create = "CreateAPIKey tag_hashes text_net 0 root_actor ''0123456789'' (Some export_request)"
  define d where "d = fst (snd (?create (no_keys, [])))"
  note defs = d_def CreateAPIKey_def export_request_def text_net_def trim_space_def is_space_def insert_key_def no_keys_def
    is_int32_def LogAudit_def Let_def attempt_def bind_def tag_hashes_def hashAPIKey_def TokenHash_def TokenHashWithKey_def
    TokenHashLegacy_def
  define k where "k = hd (api_keys d)"
  have keys: "api_keys d = [k]" "ak_key_hash k = ''h0123456789''" "ak_id k = 1" by (simp_all add: k_def defs)
  have s0: "snd (?create (no_keys, [])) = (d, [])" by (simp add: defs)
  have ok: "keys_ok d" unfolding d_def
    using keys.keeps_api_prog [of "EvCreate 0 root_actor ''0123456789'' (Some export_request)" tag_hashes text_net None]
    by (auto dest!: keepsD [where s = "(no_keys, [])"] simp: bind_def no_keys_def keys_ok_def split: sum.splits prod.splits)
  let ?reset = "ResetAPIKey tag_hashes root_actor ''abcdefghij'' (itoa (ak_id k)) (d, [])"
  have reset: "?reset = (Inr (Answer 200 (''abcdefghij'', take 8 ''abcdefghij'')), snd ?reset)"
    by (simp add: keys ResetAPIKey_def reset_key_def Let_def attempt_def bind_def LogAudit_def Atoi_or_limit_def is_int32_def
      tag_hashes_def hashAPIKey_def TokenHash_def TokenHashWithKey_def)
  have "fst (APIKeyAuth tag_hashes text_net None 9 ''10.0.0.5'' (''Bearer '' @ ''0123456789'')
      (api_run tag_hashes text_net None [EvAuth 5 ''10.0.0.5'' ''Bearer abcdefghij'', EvUpdate 6 root_actor ''1'' None] (snd ?reset))) =
    Inr (Failure 401 ''unauthorized'')"
    by (rule reset_revokes_for_ever [OF ok _ _ _ reset])
      (simp_all add: keys digests_def tag_hashes_def hashAPIKey_def TokenHash_def TokenHashWithKey_def TokenHashLegacy_def)
  then show ?thesis by (simp only: Let_def s0 keys)
qed

section \<open>A created key\<close>

definition asked :: "create_key_request \<Rightarrow> string \<Rightarrow> bool" where
  "asked req p =
     (case cr_Permissions req of
        None \<Rightarrow> False
      | Some ps \<Rightarrow> (case last_where (\<lambda>k. to_lower k = p) ps of Some b \<Rightarrow> b | None \<Rightarrow> False))"

definition asked_scope :: "create_key_request \<Rightarrow> ScopeFilters" where
  "asked_scope req =
     (case cr_ScopeFilters req of
        None \<Rightarrow> noFilters
      | Some q \<Rightarrow> \<lparr>sf_Hostnames = (case sq_Hostnames q of None \<Rightarrow> [] | Some xs \<Rightarrow> xs),
          sf_Severities = (case sq_Severities q of None \<Rightarrow> [] | Some xs \<Rightarrow> xs),
          sf_MatchMode = (if sq_MatchMode q = ''or'' then ''or'' else ''and'')\<rparr>)"

text \<open>The addresses a request names: none at all, or one that matches.\<close>

definition asked_ip :: "'ip net_ops \<Rightarrow> string \<Rightarrow> string list \<Rightarrow> bool" where
  "asked_ip N ip ips \<longleftrightarrow> list_all (\<lambda>e. trim_space e = []) ips \<or> ipAllowed N ip ips"

lemma fold_set_permission:
  "fold set_permission (map (\<lambda>(k, b). (k, JBool b)) ps) (p, ok) =
     (\<lparr>ExportJSON = (case last_where (\<lambda>k. to_lower k = ''export_json'') ps of Some b \<Rightarrow> b | None \<Rightarrow> ExportJSON p),
       ExportParsed = (case last_where (\<lambda>k. to_lower k = ''export_parsed'') ps of Some b \<Rightarrow> b | None \<Rightarrow> ExportParsed p),
       ViewStats = (case last_where (\<lambda>k. to_lower k = ''view_stats'') ps of Some b \<Rightarrow> b | None \<Rightarrow> ViewStats p)\<rparr>, ok)"
  by (induction ps arbitrary: p) (auto split: option.splits)

lemma unmarshal_marshal_permissions:
  "unmarshal_permissions (marshal_permissions (cr_Permissions req)) =
     Some \<lparr>ExportJSON = asked req ''export_json'', ExportParsed = asked req ''export_parsed'', ViewStats = asked req ''view_stats''\<rparr>"
  by (cases "cr_Permissions req")
    (simp_all add: unmarshal_permissions_def marshal_permissions_def asked_def noPermissions_def fold_set_permission split: option.split)

lemma unmarshal_marshal_scope:
  "unmarshal_filters (case cr_ScopeFilters req of None \<Rightarrow> JNull | Some q \<Rightarrow> marshal_scope (scope_defaults q)) = asked_scope req"
  by (auto simp: unmarshal_filters_def marshal_scope_def scope_defaults_def asked_scope_def noFilters_def marshal_strings_def
    to_lower_def lower_char_def go_string_def comp_def split: option.splits)

lemma dropWhile_idem: "dropWhile P (dropWhile P xs) = dropWhile P xs"
  by (induction xs) auto

lemma trim_space_idem [simp]: "trim_space (trim_space s) = trim_space s"
proof -
  let ?d = "dropWhile is_space"
  have "?d (rev (?d (rev (?d s)))) = rev (?d (rev (?d s)))"
  proof (cases "rev (?d (rev (?d s)))")
    case (Cons c cs)
    then have "?d (rev (?d s)) = rev cs @ [c]" by (metis rev.simps(2) rev_rev_ident)
    then obtain ys where "rev (?d s) = ys @ rev cs @ [c]" by (metis takeWhile_dropWhile_id)
    then have "?d s = c # cs @ rev ys" by (metis append.assoc append_Cons rev_append rev_rev_ident rev.simps(2) append_self_conv2)
    then have "\<not> is_space c" by (metis dropWhile_eq_Cons_conv)
    with Cons show ?thesis by simp
  next
    case Nil
    then show ?thesis by (simp only: Nil dropWhile.simps)
  qed
  then show ?thesis by (simp add: trim_space_def dropWhile_idem)
qed

lemma validated_matches:
  "validateAllowedIPs N ips = Some c \<Longrightarrow> entry_matches N ip c = entry_matches N ip ips"
  by (induction ips arbitrary: c) (auto simp: Let_def split: if_splits option.splits)

lemma validated_empty:
  "validateAllowedIPs N ips = Some c \<Longrightarrow> c = [] \<longleftrightarrow> list_all (\<lambda>e. trim_space e = []) ips"
  by (induction ips arbitrary: c) (auto simp: Let_def split: if_splits option.splits)

lemma LogAudit_run: "LogAudit a action details (d, []) =
    (let row = \<lparr>au_user_id = ac_user_id a, au_username = ac_username a, au_action = action, au_ip = ac_ip a, au_details = details\<rparr> in
     (Inr (), d\<lparr>audit_log := audit_log d @ [row], audit_events := audit_events d @ [row]\<rparr>, []))"
  by (simp add: LogAudit_def Let_def attempt_def)

text \<open>
  (C17) A created key opens what was asked for and nothing else: the next request that presents it from an
  address the creation request names, before it expires, is let through with exactly the requested
  permissions and scope (the names of permissions compare without regard to case, a match mode other
  than \<^verbatim>\<open>or\<close> counts as \<^verbatim>\<open>and\<close>), and the key is identified by its id and first eight characters.
\<close>

theorem created_key_opens_what_was_asked:
  assumes "CreateAPIKey H N now a key (Some req) (d, []) = (Inr (Answer 201 x), s)"
    and "8 \<le> length key" "\<forall>k \<in> set (api_keys d). ak_key_hash k \<noteq> TokenHashLegacy H key"
    and "rateLimiters d (next_key_id d) = None" "asked_ip N ip (cr_AllowedIPs req)"
    and "0 < cr_TTLDays req \<Longrightarrow> now' \<le> now + cr_TTLDays req * (24 * Hour)"
  shows "fst (APIKeyAuth H N None now' ip (''Bearer '' @ key) s) = Inr (Answer 200
    \<lparr>api_key_permissions = \<lparr>ExportJSON = asked req ''export_json'', ExportParsed = asked req ''export_parsed'',
        ViewStats = asked req ''view_stats''\<rparr>,
      scope_filters = Some (asked_scope req), api_key_id = next_key_id d, api_key_prefix = take 8 key\<rparr>)"
proof -
  obtain ips where ips: "validateAllowedIPs N (cr_AllowedIPs req) = Some ips"
    using assms(1) by (cases "validateAllowedIPs N (cr_AllowedIPs req)") (auto simp: CreateAPIKey_def)
  let ?rate = "if cr_RateLimitPerMin req \<le> 0 then 60 else cr_RateLimitPerMin req"
  define k where "k = \<lparr>ak_id = next_key_id d, ak_name = cr_Name req, ak_key_hash = hashAPIKey H key, ak_key_prefix = take 8 key,
    ak_permissions = marshal_permissions (cr_Permissions req),
    ak_scope_filters = Some (case cr_ScopeFilters req of None \<Rightarrow> JNull | Some q \<Rightarrow> marshal_scope (scope_defaults q)),
    ak_allowed_ips = ips, ak_is_active = True, ak_rate_limit_per_min = ?rate, ak_expires_at = ttl_expiry now (cr_TTLDays req),
    ak_last_used_at = None, ak_total_requests = 0, ak_created_at = now, ak_created_by = Some (ac_user_id a)\<rparr>"
  have new: "\<forall>k' \<in> set (api_keys d). ak_key_hash k' \<noteq> hashAPIKey H key"
    and s: "api_keys (fst s) = api_keys d @ [k]" "rateLimiters (fst s) = rateLimiters d" "snd s = []"
    using assms(1) ips
    by (auto simp: CreateAPIKey_def insert_key_def attempt_def bind_def LogAudit_run Let_def k_def split: if_splits)
  have "find (\<lambda>k. ak_key_hash k = hashAPIKey H key \<or> ak_key_hash k = TokenHashLegacy H key) (api_keys d @ [k]) = Some k"
    using new assms(3) by (induction "api_keys d") (auto simp: k_def find_Some_iff nth_append intro!: exI [of _ "length (api_keys d)"])
  then have "find_key H key s = (Inr k, s)" using s by (cases s) (simp add: find_key_def)
  moreover have "key_refused N now' ip k = None"
  proof -
    have "\<not> (\<exists>t. ttl_expiry now (cr_TTLDays req) = Some t \<and> t < now')" using assms(6) by (auto simp: ttl_expiry_def)
    moreover have "ips = [] \<or> ipAllowed N ip ips"
      using assms(5) validated_empty [OF ips] validated_matches [OF ips] by (auto simp: asked_ip_def ipAllowed_def split: option.splits)
    ultimately show ?thesis by (auto simp: key_refused_def k_def split: option.splits)
  qed
  moreover have "unmarshal_permissions (ak_permissions k) = Some \<lparr>ExportJSON = asked req ''export_json'',
      ExportParsed = asked req ''export_parsed'', ViewStats = asked req ''view_stats''\<rparr>"
    by (simp add: k_def unmarshal_marshal_permissions)
  moreover have "map_option unmarshal_filters (ak_scope_filters k) = Some (asked_scope req)"
    by (simp add: k_def unmarshal_marshal_scope)
  moreover have "key \<noteq> []" using assms(2) by auto
  ultimately show ?thesis
    using assms(2,4) s
    by (cases s) (simp add: APIKeyAuth_def bearer_def attempt_def bind_def getRateLimiter_def limiter_allow_def NewRateLimiter_def
      mem_Allow_def Let_def k_def)
qed

theorem created_key_opens_what_was_asked_witness:
  "fst (APIKeyAuth tag_hashes text_net None 5 ''10.0.0.5'' (''Bearer '' @ ''0123456789'')
     (snd (CreateAPIKey tag_hashes text_net 0 root_actor ''0123456789'' (Some export_request) (no_keys, [])))) =
   Inr (Answer 200 \<lparr>api_key_permissions = \<lparr>ExportJSON = True, ExportParsed = False, ViewStats = False\<rparr>,
     scope_filters = Some \<lparr>sf_Hostnames = [''web''], sf_Severities = [], sf_MatchMode = ''and''\<rparr>,
     api_key_id = 1, api_key_prefix = ''01234567''\<rparr>)"
proof -
  let ?create = "CreateAPIKey tag_hashes text_net 0 root_actor ''0123456789'' (Some export_request) (no_keys, [])"
  have "?create = (Inr (Answer 201 (''0123456789'', ''01234567'')), snd ?create)"
    by (simp add: CreateAPIKey_def export_request_def text_net_def trim_space_def is_space_def insert_key_def no_keys_def
      is_int32_def LogAudit_def Let_def attempt_def bind_def)
  from created_key_opens_what_was_asked [OF this, of "''10.0.0.5''" 5] show ?thesis
    by (simp add: no_keys_def asked_ip_def ipAllowed_def text_net_def export_request_def trim_space_def is_space_def Let_def
      asked_def asked_scope_def to_lower_def lower_char_def Hour_def)
qed

section \<open>Limiters\<close>

text \<open>What a limiter of the process lets through: \<^const>\<open>True\<close> a request, \<^const>\<open>False\<close> a tick of the refill loop.\<close>

fun mem_run :: "bool list \<Rightarrow> memRateLimiter \<Rightarrow> nat" where
  "mem_run [] rl = 0"
| "mem_run (True # evs) rl = (case mem_Allow rl of (ok, rl') \<Rightarrow> (if ok then 1 else 0) + mem_run evs rl')"
| "mem_run (False # evs) rl = mem_run evs (refill rl)"

lemma mem_run_bound: "int (mem_run evs rl) \<le> max 0 (tokens rl) + int (length (filter Not evs)) * max 0 (maxToken rl)"
proof (induction evs arbitrary: rl)
  case (Cons ev evs)
  show ?case
  proof (cases ev)
    case True
    with Cons.IH [of "snd (mem_Allow rl)"] show ?thesis by (auto simp: mem_Allow_def max_def split: if_splits)
  next
    case False
    with Cons.IH [of "refill rl"] show ?thesis by (simp add: refill_def algebra_simps)
  qed
qed simp

lemma no_tokens: "tokens rl = 0 \<Longrightarrow> rl\<lparr>tokens := 0\<rparr> = rl"
  by (cases rl) simp

lemma mem_run_burst: "int n = tokens rl \<Longrightarrow> mem_run (replicate n True @ evs) rl = n + mem_run evs (rl\<lparr>tokens := 0\<rparr>)"
  by (induction n arbitrary: rl) (auto simp: mem_Allow_def no_tokens)

lemma mem_run_seconds:
  "tokens rl = int n \<Longrightarrow> maxToken rl = int n \<Longrightarrow> mem_run (concat (replicate t (replicate n True @ [False]))) rl = t * n"
  by (induction t arbitrary: rl) (simp_all add: mem_run_burst refill_def)

text \<open>
  The limiter of the process limits requests per second, not per minute: whatever the order of
  requests and refills, it lets at most its limit through per refill (plus the initial stock), and a
  client that asks its limit's worth every second gets sixty times the limit of a key through in a
  minute.
\<close>

theorem memory_limiter_is_per_second:
  assumes "0 \<le> rate"
  shows "int (mem_run evs (NewRateLimiter rate)) \<le> rate * (1 + int (length (filter Not evs))) \<and>
    mem_run (concat (replicate 60 (replicate (nat rate) True @ [False]))) (NewRateLimiter rate) = 60 * nat rate"
  using mem_run_bound [of evs "NewRateLimiter rate"] mem_run_seconds [of "NewRateLimiter rate" "nat rate" 60] assms
  by (simp add: NewRateLimiter_def algebra_simps)

theorem memory_limiter_is_per_second_witness:
  "mem_run (concat (replicate 60 (replicate 2 True @ [False]))) (NewRateLimiter 2) = 120"
  using memory_limiter_is_per_second [of 2 "[]"] by simp

subsection \<open>What a key can get through\<close>

text \<open>How many requests of a history were let in under the key with id \<open>i\<close>.\<close>

definition admits :: "int \<Rightarrow> sqlerr + api_ctx resp \<Rightarrow> nat" where
  "admits i r = (case r of Inr (Answer st cx) \<Rightarrow> if api_key_id cx = i then 1 else 0 | _ \<Rightarrow> 0)"

fun admitted :: "hashes \<Rightarrow> 'ip net_ops \<Rightarrow> 'w redis_ops option \<Rightarrow> int \<Rightarrow> api_event list \<Rightarrow> 'w apistate \<times> bool list \<Rightarrow> nat" where
  "admitted H N shared i [] s = 0"
| "admitted H N shared i (ev # evs) s =
     (case ev of EvAuth now ip header \<Rightarrow> admits i (fst (APIKeyAuth H N shared now ip header s)) | _ \<Rightarrow> 0) +
     admitted H N shared i evs (snd (api_prog H N shared ev s))"

definition seconds :: "api_event list \<Rightarrow> int" where
  "seconds evs = int (length (filter (\<lambda>ev. ev = EvSecond) evs))"

fun deletes :: "int \<Rightarrow> api_event \<Rightarrow> bool" where
  "deletes i (EvDelete a idStr) = (Atoi_or_limit idStr = i)"
| "deletes i _ = False"

abbreviation limited :: "int \<Rightarrow> memRateLimiter \<Rightarrow> 'w apistate \<Rightarrow> bool" where
  "limited i m d \<equiv> rateLimiters d i = Some (memoryKeyLimiter m)"

text \<open>One authentication takes a token of the key it lets in, and none of any other.\<close>

lemma APIKeyAuth_limiter:
  assumes "limited i m (fst s)"
  shows "\<exists>m'. limited i m' (fst (snd (APIKeyAuth H N shared now ip header s))) \<and> maxToken m' = maxToken m \<and>
    max 0 (tokens m') + int (admits i (fst (APIKeyAuth H N shared now ip header s))) \<le> max 0 (tokens m)"
proof -
  let ?P = "\<lambda>r. \<exists>m'. limited i m' (fst (snd r)) \<and> maxToken m' = maxToken m \<and>
    max 0 (tokens m') + int (admits i (fst r)) \<le> max 0 (tokens m)"
  obtain d fs where s: "s = (d, fs)" by (cases s)
  have same: "?P (Inr (Failure st e), d, fs')" for st e fs'
    using assms s by (auto simp: admits_def)
  have auth: "?P (bind (local (getRateLimiter shared j n)) (\<lambda>limiter.
      bind (local (limiter_allow shared now j limiter)) (\<lambda>ok.
        if \<not> ok then ret (Failure 429 ''rate_limited'')
        else attempt (stmt (\<lambda>d. Inr ((), d\<lparr>api_keys := map (touch_key now j) (api_keys d)\<rparr>))) (\<lambda>_.
          ret (Answer 200 \<lparr>api_key_permissions = perms, scope_filters = sc, api_key_id = j, api_key_prefix = pre\<rparr>)))) (d, fs'))"
    for j n perms sc pre fs'
    using assms s
    by (cases "j = i")
      (auto simp: bind_def getRateLimiter_def limiter_allow_def mem_Allow_def attempt_def stmt_def admits_def Let_def
        split: option.splits keyRateLimiter.splits prod.splits if_splits)
  show ?thesis
  proof (cases "bearer header")
    case None
    then show ?thesis using same by (simp add: APIKeyAuth_def s)
  next
    case (Some apiKey)
    have "\<exists>r. find_key H apiKey (d, fs) = (r, d, tl fs)" unfolding find_key_def by (rule query_run)
    then obtain r where q: "find_key H apiKey (d, fs) = (r, d, tl fs)" by blast
    show ?thesis
    proof (cases "length apiKey < 8 \<or> (\<exists>e. r = Inl e)")
      case True
      then show ?thesis using same Some q by (auto simp: APIKeyAuth_def s attempt_def)
    next
      case False
      then obtain k where k: "r = Inr k" by (cases r) auto
      show ?thesis
        using same auth False Some q k
        by (auto simp: APIKeyAuth_def s attempt_def [of "find_key _ _"] split: option.split)
    qed
  qed
qed

lemma api_prog_limiter:
  assumes "limited i m (fst s)" "\<not> deletes i ev" "\<And>now ip header. ev \<noteq> EvAuth now ip header"
  shows "limited i (if ev = EvSecond then refill m else m) (fst (snd (api_prog H N shared ev s)))"
proof -
  have log: "keeps (limited i m) (LogAudit a x y)" for a x y
    by (rule keepsI) (auto simp: LogAudit_def Let_def attempt_def stmt_def split: sum.splits)
  have st: "keeps (limited i m) (insert_key k)" "keeps (limited i m) (update_key j ss)"
    "keeps (limited i m) (delete_key j)" "keeps (limited i m) (reset_key j h p)" for k j ss h p
    unfolding insert_key_def update_key_def delete_key_def reset_key_def
    by (intro keeps_stmt; auto split: if_splits)+
  have rm: "keeps (limited i m) (local (\<lambda>d. ((), RemoveRateLimiter j d)))" if "j \<noteq> i" for j
    using that by (intro keeps_local) (auto simp: RemoveRateLimiter_def)
  have "keeps (limited i m) (api_prog H N shared ev)" if "ev \<noteq> EvSecond"
  proof (cases ev)
    case (EvAuth now ip header)
    with assms(3) show ?thesis by blast
  next
    case EvSecond
    with that show ?thesis by blast
  next
    case (EvCreate now a key body)
    then show ?thesis by (auto intro!: keeps_intros log st simp: CreateAPIKey_def)
  next
    case (EvUpdate now a j body)
    then show ?thesis by (auto intro!: keeps_intros log st simp: UpdateAPIKey_def Let_def)
  next
    case (EvDelete a j)
    then show ?thesis using assms(2) by (auto intro!: keeps_intros log st rm simp: DeleteAPIKey_def Let_def)
  next
    case (EvReset a key j)
    then show ?thesis by (auto intro!: keeps_intros log st simp: ResetAPIKey_def Let_def)
  qed
  from keepsD [OF this] assms(1) show ?thesis
    by (cases "ev = EvSecond") (auto simp: local_def refill_all_def)
qed

text \<open>
  (C16) A key gets through at most what its limiter in the process holds: from a state in which the process has a
  limiter for the key, through any interleaving of requests (with this key and others), refills and management
  requests that do not delete the key, whichever statements fail, the number of requests let in under the key is at most the tokens
  left plus the limiter's limit for every second that passes. The limit is the one of the key's first request: a change of the
  key's limit in between does not count.
\<close>

theorem admitted_requests_bounded:
  assumes "rateLimiters (fst s) i = Some (memoryKeyLimiter m)" "\<forall>ev \<in> set evs. \<not> deletes i ev"
  shows "int (admitted H N shared i evs s) \<le> max 0 (tokens m) + seconds evs * max 0 (maxToken m)"
  using assms
proof (induction evs arbitrary: s m)
  case (Cons ev evs)
  show ?case
  proof (cases "\<exists>now ip header. ev = EvAuth now ip header")
    case True
    then obtain now ip header where ev: "ev = EvAuth now ip header" by blast
    obtain m' where m': "limited i m' (fst (snd (APIKeyAuth H N shared now ip header s)))" "maxToken m' = maxToken m"
      "max 0 (tokens m') + int (admits i (fst (APIKeyAuth H N shared now ip header s))) \<le> max 0 (tokens m)"
      using APIKeyAuth_limiter [OF Cons.prems(1)] by blast
    have "snd (api_prog H N shared ev s) = snd (APIKeyAuth H N shared now ip header s)"
      by (simp add: ev bind_def split: prod.split sum.split)
    with Cons.IH [of "snd (api_prog H N shared ev s)" m'] m' Cons.prems(2) show ?thesis
      by (simp add: ev seconds_def)
  next
    case False
    then have "limited i (if ev = EvSecond then refill m else m) (fst (snd (api_prog H N shared ev s)))"
      using Cons.prems by (intro api_prog_limiter) auto
    from Cons.IH [OF this] Cons.prems(2) False show ?thesis
      by (cases ev) (auto simp: seconds_def refill_def algebra_simps)
  qed
qed (simp add: seconds_def)

text \<open>
  The witness: a key with a limit of two, three requests, a new limit of nine, a second, three more requests. Four get in.
\<close>

definition busy_day :: "api_event list" where
  "busy_day =
     (let ask = EvAuth 5 ''10.0.0.5'' ''Bearer 0123456789'' in
      [ask, ask, ask,
       EvUpdate 6 root_actor ''1'' (Some \<lparr>up_Name = None, up_Permissions = None, up_ScopeFilters = None, up_AllowedIPs = None,
         up_IsActive = None, up_RateLimitPerMin = Some 9, up_TTLDays = None\<rparr>),
       EvSecond, ask, ask, ask])"

definition busy_start :: "unit apistate \<times> bool list" where
  "busy_start =
     (let s = snd (CreateAPIKey tag_hashes text_net 0 root_actor ''0123456789'' (Some (export_request\<lparr>cr_RateLimitPerMin := 2\<rparr>)) (no_keys, []))
      in ((fst s)\<lparr>rateLimiters := [1 \<mapsto> memoryKeyLimiter (NewRateLimiter 2)]\<rparr>, snd s))"

theorem admitted_requests_bounded_witness:
  "admitted tag_hashes text_net None 1 busy_day busy_start \<le> 4"
proof -
  have "rateLimiters (fst busy_start) 1 = Some (memoryKeyLimiter (NewRateLimiter 2))" by (simp add: busy_start_def Let_def)
  moreover have "\<forall>ev \<in> set busy_day. \<not> deletes 1 ev" by (simp add: busy_day_def Let_def)
  ultimately have "int (admitted tag_hashes text_net None 1 busy_day busy_start) \<le>
      max 0 (tokens (NewRateLimiter 2)) + seconds busy_day * max 0 (maxToken (NewRateLimiter 2))"
    by (rule admitted_requests_bounded)
  then show ?thesis by (simp add: seconds_def busy_day_def NewRateLimiter_def Let_def)
qed

text \<open>
  A changed rate limit does not reach a running process: no update of a key, whatever it sets and
  whatever fails, touches the limiters, so a key that has been used keeps the limit it had at its first
  request until it is deleted or the process restarts.
\<close>

theorem update_keeps_old_limit:
  assumes "rateLimiters d i = Some rl"
  shows "fst (getRateLimiter shared i newLimit (fst (snd (UpdateAPIKey N now a idStr body (d, faults))))) = rl"
proof -
  let ?I = "\<lambda>d. rateLimiters d i = Some rl"
  have upd: "keeps ?I (update_key j ss)" for j ss
    unfolding update_key_def by (rule keeps_stmt) (auto split: if_splits)
  have log: "keeps ?I (LogAudit a x y)" for x y
    by (rule keepsI) (auto simp: LogAudit_def Let_def attempt_def stmt_def split: sum.splits)
  have "keeps ?I (UpdateAPIKey N now a idStr body)"
    unfolding UpdateAPIKey_def Let_def by (intro keeps_intros upd log)
  then have "rateLimiters (fst (snd (UpdateAPIKey N now a idStr body (d, faults)))) i = Some rl"
    using keepsD [where s = "(d, faults)"] assms by fastforce
  then show ?thesis by (simp add: getRateLimiter_def)
qed

theorem update_keeps_old_limit_witness:
  "fst (getRateLimiter None 1 5 (fst (snd (UpdateAPIKey text_net 0 root_actor ''1''
     (Some \<lparr>up_Name = None, up_Permissions = None, up_ScopeFilters = None, up_AllowedIPs = None, up_IsActive = None,
       up_RateLimitPerMin = Some 5, up_TTLDays = None\<rparr>)
     (no_keys\<lparr>rateLimiters := [1 \<mapsto> memoryKeyLimiter (NewRateLimiter 60)]\<rparr>, []))))) = memoryKeyLimiter (NewRateLimiter 60)"
  by (rule update_keeps_old_limit) simp

end
