(* ===== verification/LogQuery.thy ===== *)
theory LogQuery
  imports Prelude
begin

text \<open>
  The WHERE clauses of log queries, \<^verbatim>\<open>handler/querybuilder.go\<close>. A clause is kept with its shape:
  \<open>clause_text\<close> is the SQL text the code appends, with placeholders by number, and \<open>clause_holds\<close> what
  that text means on a row of \<^verbatim>\<open>syslog_logs\<close> once the placeholders stand for the arguments. What the
  database itself decides (pattern matching, collation, full-text search, the reading of a timestamp)
  is the record \<open>pg_ops\<close>. A comparison with \<^verbatim>\<open>NULL\<close> is not true.
\<close>

section \<open>Rows\<close>

text \<open>The JSON object of the parsed fields, or \<^verbatim>\<open>NULL\<close>; a field as the operator \<^verbatim>\<open>->>\<close> reads it.\<close>

record log_row =
  lr_id :: int
  lr_timestamp :: time
  lr_hostname :: string
  lr_fromhost_ip :: "string option"
  lr_app_name :: "string option"
  lr_process_id :: "string option"
  lr_msg_id :: "string option"
  lr_severity :: string
  lr_facility :: "string option"
  lr_message :: string
  lr_raw_message :: "string option"
  lr_parsed_fields :: "(string \<times> string) list option"
  lr_matched_parsers :: "string list option"

record pg_ops =
  pg_ilike :: "string \<Rightarrow> string \<Rightarrow> bool"
  pg_less :: "string \<Rightarrow> string \<Rightarrow> bool"
  pg_regex :: "string \<Rightarrow> string \<Rightarrow> bool"
  pg_search :: "log_row \<Rightarrow> string \<Rightarrow> bool"
  pg_time :: "string \<Rightarrow> time"

datatype arg = AStr string | AArr "string list" | ATime time | AInt int

section \<open>Columns and clauses\<close>

text \<open>The two quotes of an empty SQL string.\<close>

definition quote :: char where "quote = CHR 0x27"

datatype column = Static string | Parsed string | FromHost | FromHostOrEmpty

definition escape_quotes :: "string \<Rightarrow> string" where
  "escape_quotes s = concat (map (\<lambda>c. if c = quote then [quote, quote] else [c]) s)"

fun column_text :: "column \<Rightarrow> string" where
  "column_text (Static c) = c"
| "column_text (Parsed f) = ''parsed_fields->>'' @ [quote] @ escape_quotes f @ [quote]"
| "column_text FromHost = ''syslog_logs.fromhost_ip''"
| "column_text FromHostOrEmpty = ''COALESCE(syslog_logs.fromhost_ip, '' @ [quote, quote] @ '')''"

definition static_value :: "log_row \<Rightarrow> string \<Rightarrow> string option" where
  "static_value r c =
     (if c = ''hostname'' then Some (lr_hostname r)
      else if c = ''fromhost_ip'' then lr_fromhost_ip r
      else if c = ''severity'' then Some (lr_severity r)
      else if c = ''app_name'' then lr_app_name r
      else if c = ''facility'' then lr_facility r
      else if c = ''process_id'' then lr_process_id r
      else if c = ''msg_id'' then lr_msg_id r
      else if c = ''message'' then Some (lr_message r)
      else if c = ''raw_message'' then lr_raw_message r
      else None)"

definition parsed_field :: "log_row \<Rightarrow> string \<Rightarrow> string option" where
  "parsed_field r f = (case lr_parsed_fields r of None \<Rightarrow> None | Some obj \<Rightarrow> map_of obj f)"

fun column_value :: "log_row \<Rightarrow> column \<Rightarrow> string option" where
  "column_value r (Static c) = static_value r c"
| "column_value r (Parsed f) = parsed_field r f"
| "column_value r FromHost = lr_fromhost_ip r"
| "column_value r FromHostOrEmpty = Some (case lr_fromhost_ip r of None \<Rightarrow> [] | Some ip \<Rightarrow> ip)"

datatype sqlop = OpEq | OpNeq | OpILike | OpNotILike | OpGt | OpGe | OpLt | OpLe | OpRegex

fun op_text :: "sqlop \<Rightarrow> string" where
  "op_text OpEq = '' = ''"
| "op_text OpNeq = '' <> ''"
| "op_text OpILike = '' ILIKE ''"
| "op_text OpNotILike = '' NOT ILIKE ''"
| "op_text OpGt = '' > ''"
| "op_text OpGe = '' >= ''"
| "op_text OpLt = '' < ''"
| "op_text OpLe = '' <= ''"
| "op_text OpRegex = '' ~ ''"

fun op_holds :: "pg_ops \<Rightarrow> sqlop \<Rightarrow> string \<Rightarrow> string \<Rightarrow> bool" where
  "op_holds pg OpEq v a = (v = a)"
| "op_holds pg OpNeq v a = (v \<noteq> a)"
| "op_holds pg OpILike v a = pg_ilike pg v a"
| "op_holds pg OpNotILike v a = (\<not> pg_ilike pg v a)"
| "op_holds pg OpGt v a = pg_less pg a v"
| "op_holds pg OpGe v a = (\<not> pg_less pg v a)"
| "op_holds pg OpLt v a = pg_less pg v a"
| "op_holds pg OpLe v a = (\<not> pg_less pg a v)"
| "op_holds pg OpRegex v a = pg_regex pg v a"

datatype clause =
    Cmp column sqlop nat
  | InList column bool "nat list"
  | IsEmpty column
  | IsNotEmpty column
  | TimeFrom nat
  | TimeTo nat
  | Search nat
  | HasParsers
  | ParsersOverlap nat
  | BeyondCursor bool nat nat

definition dollar :: "nat \<Rightarrow> string" where
  "dollar n = ''$'' @ itoa (int n)"

fun clause_text :: "clause \<Rightarrow> string" where
  "clause_text (Cmp c op n) = column_text c @ op_text op @ dollar n"
| "clause_text (InList c neg ns) =
     column_text c @ (if neg then '' NOT IN ('' else '' IN ('') @ join '', '' (map dollar ns) @ '')''"
| "clause_text (IsEmpty c) =
     ''('' @ column_text c @ '' IS NULL OR '' @ column_text c @ '' = '' @ [quote, quote] @ '')''"
| "clause_text (IsNotEmpty c) =
     ''('' @ column_text c @ '' IS NOT NULL AND '' @ column_text c @ '' != '' @ [quote, quote] @ '')''"
| "clause_text (TimeFrom n) = ''timestamp >= '' @ dollar n"
| "clause_text (TimeTo n) = ''timestamp <= '' @ dollar n"
| "clause_text (Search n) =
     ''search_vector @@ websearch_to_tsquery('' @ [quote] @ ''english'' @ [quote] @ '', '' @ dollar n @ '')''"
| "clause_text HasParsers = ''matched_parsers IS NOT NULL AND array_length(matched_parsers, 1) > 0''"
| "clause_text (ParsersOverlap n) = ''matched_parsers && '' @ dollar n @ ''::text[]''"
| "clause_text (BeyondCursor asc n m) =
     ''(syslog_logs.timestamp, syslog_logs.id) '' @ (if asc then ''>'' else ''<'') @ '' ('' @ dollar n @ '', '' @ dollar m @ '')''"

text \<open>The argument a placeholder stands for; placeholders count from 1.\<close>

definition arg_at :: "arg list \<Rightarrow> nat \<Rightarrow> arg option" where
  "arg_at args n = (if 1 \<le> n \<and> n \<le> length args then Some (args ! (n - 1)) else None)"

definition str_at :: "arg list \<Rightarrow> nat \<Rightarrow> string option" where
  "str_at args n = (case arg_at args n of Some (AStr s) \<Rightarrow> Some s | _ \<Rightarrow> None)"

definition before :: "time \<times> int \<Rightarrow> time \<times> int \<Rightarrow> bool" where
  "before p q \<longleftrightarrow> fst p < fst q \<or> fst p = fst q \<and> snd p < snd q"

fun clause_holds :: "pg_ops \<Rightarrow> arg list \<Rightarrow> log_row \<Rightarrow> clause \<Rightarrow> bool" where
  "clause_holds pg args r (Cmp c op n) =
     (case (column_value r c, str_at args n) of (Some v, Some a) \<Rightarrow> op_holds pg op v a | _ \<Rightarrow> False)"
| "clause_holds pg args r (InList c neg ns) =
     (case column_value r c of
        None \<Rightarrow> False
      | Some v \<Rightarrow> (if neg then Some v \<notin> str_at args ` set ns else Some v \<in> str_at args ` set ns))"
| "clause_holds pg args r (IsEmpty c) = (column_value r c = None \<or> column_value r c = Some [])"
| "clause_holds pg args r (IsNotEmpty c) = (column_value r c \<noteq> None \<and> column_value r c \<noteq> Some [])"
| "clause_holds pg args r (TimeFrom n) = (case str_at args n of Some a \<Rightarrow> pg_time pg a \<le> lr_timestamp r | None \<Rightarrow> False)"
| "clause_holds pg args r (TimeTo n) = (case str_at args n of Some a \<Rightarrow> lr_timestamp r \<le> pg_time pg a | None \<Rightarrow> False)"
| "clause_holds pg args r (Search n) = (case str_at args n of Some a \<Rightarrow> pg_search pg r a | None \<Rightarrow> False)"
| "clause_holds pg args r HasParsers = (case lr_matched_parsers r of Some (p # ps) \<Rightarrow> True | _ \<Rightarrow> False)"
| "clause_holds pg args r (ParsersOverlap n) =
     (case (lr_matched_parsers r, arg_at args n) of (Some ps, Some (AArr qs)) \<Rightarrow> list_ex (\<lambda>p. p \<in> set qs) ps | _ \<Rightarrow> False)"
| "clause_holds pg args r (BeyondCursor asc n m) =
     (case (arg_at args n, arg_at args m) of
        (Some (ATime t), Some (AInt i)) \<Rightarrow>
          (if asc then before (t, i) (lr_timestamp r, lr_id r) else before (lr_timestamp r, lr_id r) (t, i))
      | _ \<Rightarrow> False)"

section \<open>Building the clauses\<close>

record FieldFilter =
  ff_Field :: string
  ff_Operator :: string
  ff_Values :: "string list"

record LogFilterOptions =
  lo_Hostname :: string
  lo_FromHostIP :: string
  lo_Severity :: string
  lo_AppName :: string
  lo_Search :: string
  lo_From :: string
  lo_To :: string
  lo_Devices :: "string list"
  lo_HasFields :: bool
  lo_RequiredParsers :: "string list"
  lo_FieldFilters :: "FieldFilter list"

text \<open>Clauses, arguments and the number of the next placeholder.\<close>

type_synonym where_state = "clause list \<times> arg list \<times> nat"

definition add_clause :: "clause \<Rightarrow> where_state \<Rightarrow> where_state" where
  "add_clause c st = (case st of (cs, args, idx) \<Rightarrow> (cs @ [c], args, idx))"

definition add_arg :: "(nat \<Rightarrow> clause) \<Rightarrow> arg \<Rightarrow> where_state \<Rightarrow> where_state" where
  "add_arg mk a st = (case st of (cs, args, idx) \<Rightarrow> (cs @ [mk idx], args @ [a], idx + 1))"

definition add_in :: "column \<Rightarrow> bool \<Rightarrow> string list \<Rightarrow> where_state \<Rightarrow> where_state" where
  "add_in c neg vals st =
     (case st of (cs, args, idx) \<Rightarrow>
        (cs @ [InList c neg [idx..<idx + length vals]], args @ map AStr vals, idx + length vals))"

definition validJSONBKey :: "string \<Rightarrow> bool" where
  "validJSONBKey s \<longleftrightarrow> s \<noteq> [] \<and>
     list_all (\<lambda>c. let n = of_char c :: nat in 97 \<le> n \<and> n \<le> 122 \<or> 65 \<le> n \<and> n \<le> 90 \<or> 48 \<le> n \<and> n \<le> 57 \<or> n = 95) s"

definition staticFields :: "string list" where
  "staticFields = [''hostname'', ''fromhost_ip'', ''severity'', ''app_name'', ''facility'', ''process_id'', ''msg_id'',
     ''message'', ''raw_message'']"

definition normalizeOperator :: "string \<Rightarrow> string" where
  "normalizeOperator op =
     (if op = [] then ''eq''
      else if op = ''not_in'' then ''notin''
      else if op = ''starts_with'' then ''startswith''
      else if op = ''ends_with'' then ''endswith''
      else if op = ''not_contains'' then ''not_contains''
      else op)"

definition add_op :: "column \<Rightarrow> string \<Rightarrow> string list \<Rightarrow> where_state \<Rightarrow> where_state" where
  "add_op col op vals st =
     (if op = ''is_empty'' then add_clause (IsEmpty col) st
      else if op = ''is_not_empty'' then add_clause (IsNotEmpty col) st
      else if vals = [] then st
      else if op = ''eq'' then add_arg (Cmp col OpEq) (AStr (hd vals)) st
      else if op = ''neq'' then add_arg (Cmp col OpNeq) (AStr (hd vals)) st
      else if op = ''contains'' then add_arg (Cmp col OpILike) (AStr (''%'' @ hd vals @ ''%'')) st
      else if op = ''in'' then add_in col False vals st
      else if op = ''notin'' then add_in col True vals st
      else if op = ''startswith'' then add_arg (Cmp col OpILike) (AStr (hd vals @ ''%'')) st
      else if op = ''endswith'' then add_arg (Cmp col OpILike) (AStr (''%'' @ hd vals)) st
      else if op = ''gt'' then add_arg (Cmp col OpGt) (AStr (hd vals)) st
      else if op = ''gte'' then add_arg (Cmp col OpGe) (AStr (hd vals)) st
      else if op = ''lt'' then add_arg (Cmp col OpLt) (AStr (hd vals)) st
      else if op = ''lte'' then add_arg (Cmp col OpLe) (AStr (hd vals)) st
      else if op = ''not_contains'' then add_arg (Cmp col OpNotILike) (AStr (''%'' @ hd vals @ ''%'')) st
      else if op = ''regex'' then add_arg (Cmp col OpRegex) (AStr (hd vals)) st
      else add_arg (Cmp col OpEq) (AStr (hd vals)) st)"

definition add_filter :: "FieldFilter \<Rightarrow> where_state \<Rightarrow> where_state" where
  "add_filter ff st =
     (if ff_Field ff \<notin> set staticFields \<and> \<not> validJSONBKey (ff_Field ff) then st
      else add_op (if ff_Field ff \<in> set staticFields then Static (ff_Field ff) else Parsed (ff_Field ff))
             (normalizeOperator (ff_Operator ff)) (ff_Values ff) st)"

definition when_given :: "string \<Rightarrow> (where_state \<Rightarrow> where_state) \<Rightarrow> where_state \<Rightarrow> where_state" where
  "when_given s f st = (if s \<noteq> [] then f st else st)"

definition add_fromhost :: "string \<Rightarrow> where_state \<Rightarrow> where_state" where
  "add_fromhost ip st =
     (if ip = ''__unknown__'' then add_clause (IsEmpty FromHost) st
      else when_given ip (add_arg (Cmp FromHostOrEmpty OpEq) (AStr ip)) st)"

text \<open>The filters of a request, in the order the code looks at them.\<close>

definition where_steps :: "LogFilterOptions \<Rightarrow> (where_state \<Rightarrow> where_state) list" where
  "where_steps o1 =
      [when_given (lo_Hostname o1) (add_arg (Cmp (Static ''hostname'') OpEq) (AStr (lo_Hostname o1))),
         add_fromhost (lo_FromHostIP o1),
         when_given (lo_Severity o1) (add_arg (Cmp (Static ''severity'') OpEq) (AStr (lo_Severity o1))),
         when_given (lo_AppName o1) (add_arg (Cmp (Static ''app_name'') OpILike) (AStr (''%'' @ lo_AppName o1 @ ''%''))),
         when_given (lo_From o1) (add_arg TimeFrom (AStr (lo_From o1))),
         when_given (lo_To o1) (add_arg TimeTo (AStr (lo_To o1))),
         when_given (lo_Search o1) (add_arg Search (AStr (lo_Search o1))),
         (\<lambda>st. if lo_Devices o1 \<noteq> [] then add_in FromHostOrEmpty False (lo_Devices o1) st else st),
         (\<lambda>st. if lo_HasFields o1 then add_clause HasParsers st else st),
         (\<lambda>st. if lo_RequiredParsers o1 \<noteq> [] then add_arg ParsersOverlap (AArr (lo_RequiredParsers o1)) st else st)] @
        map add_filter (lo_FieldFilters o1)"

definition buildLogWhereClauses :: "LogFilterOptions \<Rightarrow> where_state" where
  "buildLogWhereClauses o1 = fold (\<lambda>f. f) (where_steps o1) ([], [], 1)"

definition buildWhereSQL :: "clause list \<Rightarrow> string" where
  "buildWhereSQL cs = (if cs = [] then [] else ''WHERE '' @ join '' AND '' (map clause_text cs))"

end
