(* ===== verification/LogQueryTheorems.thy ===== *)
theory LogQueryTheorems
  imports LogQuery
begin

text \<open>
  The WHERE clauses select what the request asks for, number their placeholders without gaps, and take
  nothing from the request into the text of the query but names of letters, digits and underscores.
\<close>

section \<open>Steps of the builder and their meaning\<close>

fun clause_params :: "clause \<Rightarrow> nat list" where
  "clause_params (Cmp c op n) = [n]"
| "clause_params (InList c neg ns) = ns"
| "clause_params (TimeFrom n) = [n]"
| "clause_params (TimeTo n) = [n]"
| "clause_params (Search n) = [n]"
| "clause_params (ParsersOverlap n) = [n]"
| "clause_params (BeyondCursor asc n m) = [n, m]"
| "clause_params _ = []"

definition where_wf :: "where_state \<Rightarrow> bool" where
  "where_wf st \<longleftrightarrow> (case st of (cs, args, idx) \<Rightarrow> idx = length args + 1 \<and> concat (map clause_params cs) = [1..<idx])"

definition selects :: "pg_ops \<Rightarrow> where_state \<Rightarrow> log_row \<Rightarrow> bool" where
  "selects pg st r \<longleftrightarrow> (case st of (cs, args, idx) \<Rightarrow> list_all (clause_holds pg args r) cs)"

text \<open>\<open>f\<close> narrows the selection by the condition \<open>p\<close>.\<close>

definition narrows :: "(where_state \<Rightarrow> where_state) \<Rightarrow> (pg_ops \<Rightarrow> log_row \<Rightarrow> bool) \<Rightarrow> bool" where
  "narrows f p \<longleftrightarrow> (\<forall>st. where_wf st \<longrightarrow> where_wf (f st) \<and> (\<forall>pg r. selects pg (f st) r \<longleftrightarrow> selects pg st r \<and> p pg r))"

lemma arg_at_append: "1 \<le> n \<Longrightarrow> n \<le> length args \<Longrightarrow> arg_at (args @ rest) n = arg_at args n"
  by (cases n) (simp_all add: arg_at_def nth_append)

lemma arg_at_new: "arg_at (args @ a # rest) (Suc (length args)) = Some a"
  by (simp add: arg_at_def)

lemma str_at_append: "1 \<le> n \<Longrightarrow> n \<le> length args \<Longrightarrow> str_at (args @ rest) n = str_at args n"
  by (simp add: str_at_def arg_at_append)

lemma clause_holds_append:
  assumes "\<And>n. n \<in> set (clause_params c) \<Longrightarrow> 1 \<le> n \<and> n \<le> length args"
  shows "clause_holds pg (args @ rest) r c = clause_holds pg args r c"
  using assms
proof (cases c)
  case (InList col neg ns)
  have "str_at (args @ rest) ` set ns = str_at args ` set ns"
    by (rule image_cong [OF refl]) (use assms InList in \<open>auto intro: str_at_append\<close>)
  then show ?thesis by (simp only: InList clause_holds.simps)
qed (simp_all add: arg_at_append str_at_append)

lemma selects_append:
  assumes "where_wf (cs, args, idx)"
  shows "list_all (clause_holds pg (args @ rest) r) cs = list_all (clause_holds pg args r) cs"
proof -
  have "clause_holds pg (args @ rest) r c = clause_holds pg args r c" if "c \<in> set cs" for c
  proof (rule clause_holds_append)
    fix n
    assume "n \<in> set (clause_params c)"
    with that have "n \<in> set (concat (map clause_params cs))" by auto
    with assms show "1 \<le> n \<and> n \<le> length args" by (auto simp: where_wf_def simp del: set_concat)
  qed
  then show ?thesis by (auto simp: list_all_iff)
qed

text \<open>A clause with one placeholder, as a function of its number.\<close>

definition one_param :: "(nat \<Rightarrow> clause) \<Rightarrow> bool" where
  "one_param mk \<longleftrightarrow> (\<forall>n. clause_params (mk n) = [n]) \<and>
     (\<forall>pg r args n args' n'. arg_at args n = arg_at args' n' \<longrightarrow> clause_holds pg args r (mk n) = clause_holds pg args' r (mk n'))"

lemma one_param_clauses [simp]:
  "one_param (Cmp c op)" "one_param TimeFrom" "one_param TimeTo" "one_param Search" "one_param ParsersOverlap"
  by (auto simp: one_param_def str_at_def)

lemma narrows_arg:
  assumes "one_param mk"
  shows "narrows (add_arg mk a) (\<lambda>pg r. clause_holds pg [a] r (mk 1))"
  unfolding narrows_def
proof (intro allI impI)
  fix st :: where_state
  assume wf: "where_wf st"
  obtain cs args idx where st: "st = (cs, args, idx)" by (metis prod.exhaust)
  have idx: "idx = length args + 1" using wf st by (simp add: where_wf_def)
  have "arg_at (args @ [a]) idx = arg_at [a] 1" by (simp add: idx arg_at_def)
  then have "clause_holds pg (args @ [a]) r (mk idx) = clause_holds pg [a] r (mk 1)" for pg r
    using assms unfolding one_param_def by blast
  moreover have "where_wf (add_arg mk a st)"
    using wf assms by (simp add: where_wf_def add_arg_def st one_param_def)
  ultimately show "where_wf (add_arg mk a st) \<and>
      (\<forall>pg r. selects pg (add_arg mk a st) r = (selects pg st r \<and> clause_holds pg [a] r (mk 1)))"
    using selects_append [OF wf [unfolded st]] by (simp add: selects_def add_arg_def st)
qed

lemma narrows_clause:
  assumes "clause_params c = []" "\<And>pg args r. clause_holds pg args r c = clause_holds pg [] r c"
  shows "narrows (add_clause c) (\<lambda>pg r. clause_holds pg [] r c)"
  using assms by (auto simp: narrows_def where_wf_def selects_def add_clause_def)

lemma str_at_block: "str_at (args @ map AStr vals) ` set [length args + 1..<length args + 1 + length vals] = Some ` set vals"
proof -
  have at: "str_at (args @ map AStr vals) (length args + 1 + i) = Some (vals ! i)" if "i < length vals" for i
    using that by (simp add: str_at_def arg_at_def nth_append)
  have "set [length args + 1..<length args + 1 + length vals] = (\<lambda>i. length args + 1 + i) ` {..<length vals}"
  proof (intro equalityI subsetI)
    fix n
    assume "n \<in> set [length args + 1..<length args + 1 + length vals]"
    then show "n \<in> (\<lambda>i. length args + 1 + i) ` {..<length vals}" by (intro image_eqI [of _ _ "n - (length args + 1)"]) auto
  qed auto
  then have "str_at (args @ map AStr vals) ` set [length args + 1..<length args + 1 + length vals] =
      (\<lambda>i. str_at (args @ map AStr vals) (length args + 1 + i)) ` {..<length vals}" by (simp only: image_image)
  also have "\<dots> = (\<lambda>i. Some (vals ! i)) ` {..<length vals}" by (rule image_cong [OF refl]) (use at in simp)
  also have "\<dots> = Some ` set vals" by (auto simp: set_conv_nth)
  finally show ?thesis .
qed

lemma narrows_in:
  "narrows (add_in c neg vals) (\<lambda>pg r. case column_value r c of None \<Rightarrow> False | Some v \<Rightarrow> (if neg then v \<notin> set vals else v \<in> set vals))"
  unfolding narrows_def
proof (intro allI impI)
  fix st :: where_state
  assume wf: "where_wf st"
  obtain cs args idx where st: "st = (cs, args, idx)" by (metis prod.exhaust)
  have idx: "idx = length args + 1" "concat (map clause_params cs) = [1..<idx]" using wf st by (simp_all add: where_wf_def)
  have "[1..<idx] @ [idx..<idx + length vals] = [1..<idx + length vals]" using upt_add_eq_append [of 1 idx "length vals"] idx(1) by simp
  then have "where_wf (add_in c neg vals st)" using idx by (simp add: where_wf_def add_in_def st)
  moreover have "clause_holds pg (args @ map AStr vals) r (InList c neg [idx..<idx + length vals]) =
      (case column_value r c of None \<Rightarrow> False | Some v \<Rightarrow> (if neg then v \<notin> set vals else v \<in> set vals))" for pg r
    unfolding clause_holds.simps idx(1) str_at_block by (auto split: option.split)
  ultimately show "where_wf (add_in c neg vals st) \<and> (\<forall>pg r. selects pg (add_in c neg vals st) r =
      (selects pg st r \<and> (case column_value r c of None \<Rightarrow> False | Some v \<Rightarrow> (if neg then v \<notin> set vals else v \<in> set vals))))"
    using selects_append [OF wf [unfolded st]] by (simp add: selects_def add_in_def st del: clause_holds.simps)
qed

lemma narrows_id: "narrows (\<lambda>st. st) (\<lambda>pg r. True)"
  by (simp add: narrows_def)

lemma narrows_cong: "narrows f p \<Longrightarrow> (\<And>pg r. p pg r = q pg r) \<Longrightarrow> narrows f q"
  by (simp add: narrows_def)

lemma narrows_if: "(b \<Longrightarrow> narrows f p) \<Longrightarrow> (\<not> b \<Longrightarrow> narrows g q) \<Longrightarrow> narrows (\<lambda>st. if b then f st else g st) (\<lambda>pg r. if b then p pg r else q pg r)"
  by (cases b) simp_all

lemma narrows_fold:
  assumes "list_all2 narrows fs ps" "where_wf st"
  shows "where_wf (fold (\<lambda>f. f) fs st) \<and> (selects pg (fold (\<lambda>f. f) fs st) r \<longleftrightarrow> selects pg st r \<and> list_all (\<lambda>p. p pg r) ps)"
  using assms
proof (induction fs ps arbitrary: st rule: list_all2_induct)
  case (Cons f fs p ps)
  then have "where_wf (f st)" "selects pg (f st) r \<longleftrightarrow> selects pg st r \<and> p pg r" unfolding narrows_def by blast+
  with Cons.IH [of "f st"] show ?case by auto
qed simp

section \<open>What a request asks for\<close>

definition col_is :: "log_row \<Rightarrow> column \<Rightarrow> (string \<Rightarrow> bool) \<Rightarrow> bool" where
  "col_is r c P = (case column_value r c of None \<Rightarrow> False | Some v \<Rightarrow> P v)"

definition op_matches :: "pg_ops \<Rightarrow> column \<Rightarrow> string \<Rightarrow> string list \<Rightarrow> log_row \<Rightarrow> bool" where
  "op_matches pg c op vals r =
     (if op = ''is_empty'' then \<not> col_is r c (\<lambda>v. v \<noteq> [])
      else if op = ''is_not_empty'' then col_is r c (\<lambda>v. v \<noteq> [])
      else if vals = [] then True
      else if op = ''eq'' then col_is r c (\<lambda>v. v = hd vals)
      else if op = ''neq'' then col_is r c (\<lambda>v. v \<noteq> hd vals)
      else if op = ''contains'' then col_is r c (\<lambda>v. pg_ilike pg v (''%'' @ hd vals @ ''%''))
      else if op = ''in'' then col_is r c (\<lambda>v. v \<in> set vals)
      else if op = ''notin'' then col_is r c (\<lambda>v. v \<notin> set vals)
      else if op = ''startswith'' then col_is r c (\<lambda>v. pg_ilike pg v (hd vals @ ''%''))
      else if op = ''endswith'' then col_is r c (\<lambda>v. pg_ilike pg v (''%'' @ hd vals))
      else if op = ''gt'' then col_is r c (\<lambda>v. pg_less pg (hd vals) v)
      else if op = ''gte'' then col_is r c (\<lambda>v. \<not> pg_less pg v (hd vals))
      else if op = ''lt'' then col_is r c (\<lambda>v. pg_less pg v (hd vals))
      else if op = ''lte'' then col_is r c (\<lambda>v. \<not> pg_less pg (hd vals) v)
      else if op = ''not_contains'' then col_is r c (\<lambda>v. \<not> pg_ilike pg v (''%'' @ hd vals @ ''%''))
      else if op = ''regex'' then col_is r c (\<lambda>v. pg_regex pg v (hd vals))
      else col_is r c (\<lambda>v. v = hd vals))"

definition field_matches :: "pg_ops \<Rightarrow> FieldFilter \<Rightarrow> log_row \<Rightarrow> bool" where
  "field_matches pg ff r \<longleftrightarrow>
     ff_Field ff \<notin> set staticFields \<and> \<not> validJSONBKey (ff_Field ff) \<or>
     op_matches pg (if ff_Field ff \<in> set staticFields then Static (ff_Field ff) else Parsed (ff_Field ff))
       (normalizeOperator (ff_Operator ff)) (ff_Values ff) r"

definition from_ip :: "log_row \<Rightarrow> string" where
  "from_ip r = (case lr_fromhost_ip r of None \<Rightarrow> [] | Some ip \<Rightarrow> ip)"

definition filter_matches :: "pg_ops \<Rightarrow> LogFilterOptions \<Rightarrow> log_row \<Rightarrow> bool" where
  "filter_matches pg q r \<longleftrightarrow>
     (lo_Hostname q = [] \<or> lr_hostname r = lo_Hostname q) \<and>
     (lo_FromHostIP q = [] \<or> (if lo_FromHostIP q = ''__unknown__'' then from_ip r = [] else from_ip r = lo_FromHostIP q)) \<and>
     (lo_Severity q = [] \<or> lr_severity r = lo_Severity q) \<and>
     (lo_AppName q = [] \<or> (\<exists>a. lr_app_name r = Some a \<and> pg_ilike pg a (''%'' @ lo_AppName q @ ''%''))) \<and>
     (lo_From q = [] \<or> pg_time pg (lo_From q) \<le> lr_timestamp r) \<and>
     (lo_To q = [] \<or> lr_timestamp r \<le> pg_time pg (lo_To q)) \<and>
     (lo_Search q = [] \<or> pg_search pg r (lo_Search q)) \<and>
     (lo_Devices q \<noteq> [] \<longrightarrow> from_ip r \<in> set (lo_Devices q)) \<and>
     (lo_HasFields q \<longrightarrow> (\<exists>p ps. lr_matched_parsers r = Some (p # ps))) \<and>
     (lo_RequiredParsers q \<noteq> [] \<longrightarrow> (\<exists>ps. lr_matched_parsers r = Some ps \<and> set ps \<inter> set (lo_RequiredParsers q) \<noteq> {})) \<and>
     list_all (\<lambda>ff. field_matches pg ff r) (lo_FieldFilters q)"

lemma narrows_cmp: "narrows (add_arg (Cmp c op) (AStr a)) (\<lambda>pg r. col_is r c (\<lambda>v. op_holds pg op v a))"
  by (rule narrows_cong [OF narrows_arg]) (auto simp: col_is_def str_at_def arg_at_def split: option.split)

lemma narrows_op: "narrows (add_op c op vals) (\<lambda>pg r. op_matches pg c op vals r)"
proof -
  have inl: "narrows (add_in c False vals) (\<lambda>pg r. col_is r c (\<lambda>v. v \<in> set vals))"
    "narrows (add_in c True vals) (\<lambda>pg r. col_is r c (\<lambda>v. v \<notin> set vals))"
    by (rule narrows_cong [OF narrows_in]; simp add: col_is_def split: option.split)+
  have emp: "narrows (add_clause (IsEmpty c)) (\<lambda>pg r. \<not> col_is r c (\<lambda>v. v \<noteq> []))"
    "narrows (add_clause (IsNotEmpty c)) (\<lambda>pg r. col_is r c (\<lambda>v. v \<noteq> []))"
    by (rule narrows_cong [OF narrows_clause]; auto simp: col_is_def split: option.splits)+
  note cmp = narrows_cmp [of c OpEq] narrows_cmp [of c OpNeq] narrows_cmp [of c OpILike] narrows_cmp [of c OpNotILike]
    narrows_cmp [of c OpGt] narrows_cmp [of c OpGe] narrows_cmp [of c OpLt] narrows_cmp [of c OpLe] narrows_cmp [of c OpRegex]
  note cmp' = cmp [unfolded op_holds.simps]
  show ?thesis unfolding add_op_def [abs_def] op_matches_def by (intro narrows_if inl emp cmp' narrows_id)
qed

lemma narrows_filter: "narrows (add_filter ff) (\<lambda>pg r. field_matches pg ff r)"
proof (cases "ff_Field ff \<notin> set staticFields \<and> \<not> validJSONBKey (ff_Field ff)")
  case True
  then have "add_filter ff = (\<lambda>st. st)" by (auto simp: add_filter_def)
  with narrows_id True show ?thesis by (simp add: field_matches_def)
next
  case False
  then have "add_filter ff = add_op (if ff_Field ff \<in> set staticFields then Static (ff_Field ff) else Parsed (ff_Field ff))
      (normalizeOperator (ff_Operator ff)) (ff_Values ff)" by (auto simp: add_filter_def)
  moreover have "narrows (add_op (if ff_Field ff \<in> set staticFields then Static (ff_Field ff) else Parsed (ff_Field ff))
      (normalizeOperator (ff_Operator ff)) (ff_Values ff)) (\<lambda>pg r. field_matches pg ff r)"
    by (rule narrows_cong [OF narrows_op]) (use False in \<open>auto simp: field_matches_def\<close>)
  ultimately show ?thesis by simp
qed

lemma narrows_given: "narrows f p \<Longrightarrow> narrows (when_given s f) (\<lambda>pg r. s = [] \<or> p pg r)"
  by (cases "s = []") (auto simp: when_given_def [abs_def] narrows_def)

lemma narrows_unless: "narrows f p \<Longrightarrow> narrows (\<lambda>st. if b then f st else st) (\<lambda>pg r. b \<longrightarrow> p pg r)"
  by (cases b) (auto simp: narrows_def)

lemma narrows_fromhost:
  "narrows (add_fromhost ip) (\<lambda>pg r. ip = [] \<or> (if ip = ''__unknown__'' then from_ip r = [] else from_ip r = ip))"
proof (cases "ip = ''__unknown__''")
  case True
  have "narrows (add_clause (IsEmpty FromHost)) (\<lambda>pg r. from_ip r = [])"
    by (rule narrows_cong [OF narrows_clause]) (auto simp: from_ip_def split: option.splits)
  with True show ?thesis by (simp add: add_fromhost_def [abs_def])
next
  case False
  have "narrows (when_given ip (add_arg (Cmp FromHostOrEmpty OpEq) (AStr ip))) (\<lambda>pg r. ip = [] \<or> from_ip r = ip)"
    by (rule narrows_cong [OF narrows_given [OF narrows_cmp]]) (auto simp: col_is_def from_ip_def)
  with False show ?thesis by (simp add: add_fromhost_def [abs_def])
qed

lemma buildLogWhereClauses_spec:
  "where_wf (buildLogWhereClauses q) \<and> (selects pg (buildLogWhereClauses q) r \<longleftrightarrow> filter_matches pg q r)"
proof -
  let ?ps = "[\<lambda>pg r. lo_Hostname q = [] \<or> lr_hostname r = lo_Hostname q,
    \<lambda>pg r. lo_FromHostIP q = [] \<or> (if lo_FromHostIP q = ''__unknown__'' then from_ip r = [] else from_ip r = lo_FromHostIP q),
    \<lambda>pg r. lo_Severity q = [] \<or> lr_severity r = lo_Severity q,
    \<lambda>pg r. lo_AppName q = [] \<or> (\<exists>a. lr_app_name r = Some a \<and> pg_ilike pg a (''%'' @ lo_AppName q @ ''%'')),
    \<lambda>pg r. lo_From q = [] \<or> pg_time pg (lo_From q) \<le> lr_timestamp r,
    \<lambda>pg r. lo_To q = [] \<or> lr_timestamp r \<le> pg_time pg (lo_To q),
    \<lambda>pg r. lo_Search q = [] \<or> pg_search pg r (lo_Search q),
    \<lambda>pg r. lo_Devices q \<noteq> [] \<longrightarrow> from_ip r \<in> set (lo_Devices q),
    \<lambda>pg r. lo_HasFields q \<longrightarrow> (\<exists>p ps. lr_matched_parsers r = Some (p # ps)),
    \<lambda>pg r. lo_RequiredParsers q \<noteq> [] \<longrightarrow> (\<exists>ps. lr_matched_parsers r = Some ps \<and> set ps \<inter> set (lo_RequiredParsers q) \<noteq> {})] @
    map (\<lambda>ff pg r. field_matches pg ff r) (lo_FieldFilters q)"
  have n1: "narrows (when_given (lo_Hostname q) (add_arg (Cmp (Static ''hostname'') OpEq) (AStr (lo_Hostname q))))
      (\<lambda>pg r. lo_Hostname q = [] \<or> lr_hostname r = lo_Hostname q)"
    "narrows (when_given (lo_Severity q) (add_arg (Cmp (Static ''severity'') OpEq) (AStr (lo_Severity q))))
      (\<lambda>pg r. lo_Severity q = [] \<or> lr_severity r = lo_Severity q)"
    "narrows (when_given (lo_AppName q) (add_arg (Cmp (Static ''app_name'') OpILike) (AStr (''%'' @ lo_AppName q @ ''%''))))
      (\<lambda>pg r. lo_AppName q = [] \<or> (\<exists>a. lr_app_name r = Some a \<and> pg_ilike pg a (''%'' @ lo_AppName q @ ''%'')))"
    by (rule narrows_cong [OF narrows_given [OF narrows_cmp]]; auto simp: col_is_def static_value_def split: option.splits)+
  have n2: "narrows (when_given (lo_From q) (add_arg TimeFrom (AStr (lo_From q)))) (\<lambda>pg r. lo_From q = [] \<or> pg_time pg (lo_From q) \<le> lr_timestamp r)"
    "narrows (when_given (lo_To q) (add_arg TimeTo (AStr (lo_To q)))) (\<lambda>pg r. lo_To q = [] \<or> lr_timestamp r \<le> pg_time pg (lo_To q))"
    "narrows (when_given (lo_Search q) (add_arg Search (AStr (lo_Search q)))) (\<lambda>pg r. lo_Search q = [] \<or> pg_search pg r (lo_Search q))"
    by (rule narrows_cong [OF narrows_given [OF narrows_arg]]; simp add: str_at_def arg_at_def)+
  have n3: "narrows (\<lambda>st. if lo_Devices q \<noteq> [] then add_in FromHostOrEmpty False (lo_Devices q) st else st)
      (\<lambda>pg r. lo_Devices q \<noteq> [] \<longrightarrow> from_ip r \<in> set (lo_Devices q))"
    by (rule narrows_cong [OF narrows_unless [OF narrows_in]]) (simp add: from_ip_def)
  have n4: "narrows (\<lambda>st. if lo_HasFields q then add_clause HasParsers st else st)
      (\<lambda>pg r. lo_HasFields q \<longrightarrow> (\<exists>p ps. lr_matched_parsers r = Some (p # ps)))"
    by (rule narrows_cong [OF narrows_unless [OF narrows_clause]]) (auto split: option.splits list.splits)
  have n5: "narrows (\<lambda>st. if lo_RequiredParsers q \<noteq> [] then add_arg ParsersOverlap (AArr (lo_RequiredParsers q)) st else st)
      (\<lambda>pg r. lo_RequiredParsers q \<noteq> [] \<longrightarrow> (\<exists>ps. lr_matched_parsers r = Some ps \<and> set ps \<inter> set (lo_RequiredParsers q) \<noteq> {}))"
    by (rule narrows_cong [OF narrows_unless [OF narrows_arg]]) (auto simp: arg_at_def list_ex_iff split: option.splits)
  have n6: "list_all2 narrows (map add_filter ffs) (map (\<lambda>ff pg r. field_matches pg ff r) ffs)" for ffs
    by (simp add: list_all2_conv_all_nth narrows_filter)
  have "list_all2 narrows (where_steps q) ?ps"
    unfolding where_steps_def by (intro list_all2_appendI list.rel_intros n1 n2 n3 n4 n5 n6 narrows_fromhost)
  moreover have "where_wf ([], [], 1)" "selects pg ([], [], 1) r" by (simp_all add: where_wf_def selects_def)
  ultimately have "where_wf (buildLogWhereClauses q) \<and> (selects pg (buildLogWhereClauses q) r \<longleftrightarrow> list_all (\<lambda>p. p pg r) ?ps)"
    using narrows_fold [of "where_steps q" ?ps "([], [], 1)" pg r] unfolding buildLogWhereClauses_def by blast
  then show ?thesis by (simp only: filter_matches_def list_all_append list.pred_inject list.pred_map comp_def simp_thms conj_assoc)
qed

text \<open>
  (C20) A log query returns what the request asks for: the clauses built from a request, read with their
  arguments, hold of a row exactly when the row matches every filter of the request, and the
  placeholders are numbered 1, 2, 3 in the order of the arguments, one for each.
\<close>

theorem log_filters_select:
  "case buildLogWhereClauses q of (cs, args, idx) \<Rightarrow>
     (list_all (clause_holds pg args r) cs \<longleftrightarrow> filter_matches pg q r) \<and>
     concat (map clause_params cs) = [1..<length args + 1] \<and> idx = length args + 1"
  using buildLogWhereClauses_spec [of q pg r] by (auto simp: where_wf_def selects_def split: prod.splits)

section \<open>The text of a query\<close>

text \<open>A request of the same shape with every value replaced by a fixed one.\<close>

definition masked :: "string \<Rightarrow> string" where
  "masked s = (if s = [] then [] else ''x'')"

definition mask_filter :: "FieldFilter \<Rightarrow> FieldFilter" where
  "mask_filter ff = ff\<lparr>ff_Values := map (\<lambda>_. ''x'') (ff_Values ff)\<rparr>"

definition mask :: "LogFilterOptions \<Rightarrow> LogFilterOptions" where
  "mask q = q\<lparr>lo_Hostname := masked (lo_Hostname q),
     lo_FromHostIP := (if lo_FromHostIP q = ''__unknown__'' then ''__unknown__'' else masked (lo_FromHostIP q)),
     lo_Severity := masked (lo_Severity q), lo_AppName := masked (lo_AppName q), lo_Search := masked (lo_Search q),
     lo_From := masked (lo_From q), lo_To := masked (lo_To q), lo_Devices := map (\<lambda>_. ''x'') (lo_Devices q),
     lo_RequiredParsers := map (\<lambda>_. ''x'') (lo_RequiredParsers q), lo_FieldFilters := map mask_filter (lo_FieldFilters q)\<rparr>"

definition agree :: "where_state \<Rightarrow> where_state \<Rightarrow> bool" where
  "agree st st' \<longleftrightarrow> fst st = fst st' \<and> snd (snd st) = snd (snd st')"

definition same_clauses :: "(where_state \<Rightarrow> where_state) \<Rightarrow> (where_state \<Rightarrow> where_state) \<Rightarrow> bool" where
  "same_clauses f g \<longleftrightarrow> (\<forall>st st'. agree st st' \<longrightarrow> agree (f st) (g st'))"

lemma same_add:
  "same_clauses (add_arg mk a) (add_arg mk b)" "same_clauses (add_clause c) (add_clause c)"
  "length vals = length vals' \<Longrightarrow> same_clauses (add_in col neg vals) (add_in col neg vals')"
  "same_clauses (\<lambda>st. st) (\<lambda>st. st)"
  by (auto simp: same_clauses_def agree_def add_arg_def add_clause_def add_in_def split: prod.splits)

lemma same_if: "(b \<Longrightarrow> same_clauses f f') \<Longrightarrow> (\<not> b \<Longrightarrow> same_clauses g g') \<Longrightarrow>
    same_clauses (\<lambda>st. if b then f st else g st) (\<lambda>st. if b then f' st else g' st)"
  by (cases b) simp_all

lemma same_given: "same_clauses f g \<Longrightarrow> same_clauses (when_given s f) (when_given (masked s) g)"
  by (cases "s = []") (auto simp: when_given_def [abs_def] masked_def same_clauses_def)

lemma same_fromhost:
  "same_clauses (add_fromhost ip) (add_fromhost (if ip = ''__unknown__'' then ''__unknown__'' else masked ip))"
proof (cases "ip = ''__unknown__''")
  case True
  then show ?thesis by (simp add: add_fromhost_def [abs_def] same_add)
next
  case False
  then have "masked ip \<noteq> ''__unknown__''" by (simp add: masked_def)
  with False same_given [OF same_add(1)] show ?thesis by (simp add: add_fromhost_def [abs_def])
qed

lemma same_op: "length vals = length vals' \<Longrightarrow> same_clauses (add_op c op vals) (add_op c op vals')"
proof -
  assume len: "length vals = length vals'"
  then have "vals = [] \<longleftrightarrow> vals' = []" by (metis length_0_conv)
  then show ?thesis unfolding add_op_def [abs_def] by (simp only:) (intro same_if same_add len)
qed

lemma same_filter: "same_clauses (add_filter ff) (add_filter (mask_filter ff))"
proof -
  have sel: "ff_Field (mask_filter ff) = ff_Field ff" "ff_Operator (mask_filter ff) = ff_Operator ff"
    "length (ff_Values (mask_filter ff)) = length (ff_Values ff)" by (simp_all add: mask_filter_def)
  show ?thesis unfolding add_filter_def [abs_def] sel(1,2) by (intro same_if same_add same_op) (simp add: sel)
qed

lemma same_fold:
  "list_all2 same_clauses fs gs \<Longrightarrow> agree st st' \<Longrightarrow> agree (fold (\<lambda>f. f) fs st) (fold (\<lambda>f. f) gs st')"
proof (induction fs gs arbitrary: st st' rule: list_all2_induct)
  case (Cons f fs g gs)
  then have "agree (f st) (g st')" unfolding same_clauses_def by blast
  with Cons.IH show ?case by simp
qed simp

lemma build_mask: "fst (buildLogWhereClauses q) = fst (buildLogWhereClauses (mask q))"
proof -
  have "list_all2 same_clauses (map add_filter ffs) (map add_filter (map mask_filter ffs))" for ffs
    by (simp add: list_all2_conv_all_nth same_filter)
  then have "list_all2 same_clauses (where_steps q) (where_steps (mask q))"
    unfolding where_steps_def mask_def
    by (simp add: same_given same_add same_fromhost) (simp add: same_if same_add)
  from same_fold [OF this, of "([], [], 1)" "([], [], 1)"] show ?thesis by (simp add: agree_def buildLogWhereClauses_def)
qed

fun clause_column :: "clause \<Rightarrow> column option" where
  "clause_column (Cmp c op n) = Some c"
| "clause_column (InList c neg ns) = Some c"
| "clause_column (IsEmpty c) = Some c"
| "clause_column (IsNotEmpty c) = Some c"
| "clause_column _ = None"

text \<open>A column the code names itself, or a field of letters, digits and underscores.\<close>

definition safe_column :: "clause \<Rightarrow> bool" where
  "safe_column c =
     (case clause_column c of
        Some (Static n) \<Rightarrow> n \<in> set staticFields
      | Some (Parsed f) \<Rightarrow> validJSONBKey f
      | _ \<Rightarrow> True)"

definition keeps_safe :: "(where_state \<Rightarrow> where_state) \<Rightarrow> bool" where
  "keeps_safe f \<longleftrightarrow> (\<forall>st. list_all safe_column (fst st) \<longrightarrow> list_all safe_column (fst (f st)))"

lemma keeps_safe_add:
  "(\<And>n. safe_column (mk n)) \<Longrightarrow> keeps_safe (add_arg mk a)" "safe_column c \<Longrightarrow> keeps_safe (add_clause c)"
  "(\<And>ns. safe_column (InList col neg ns)) \<Longrightarrow> keeps_safe (add_in col neg vals)" "keeps_safe (\<lambda>st. st)"
  "keeps_safe f \<Longrightarrow> keeps_safe (when_given s f)"
  by (auto simp: keeps_safe_def add_arg_def add_clause_def add_in_def when_given_def split: prod.splits)

lemma keeps_safe_if: "(b \<Longrightarrow> keeps_safe f) \<Longrightarrow> (\<not> b \<Longrightarrow> keeps_safe g) \<Longrightarrow> keeps_safe (\<lambda>st. if b then f st else g st)"
  by (cases b) simp_all

lemma keeps_safe_fold: "list_all keeps_safe fs \<Longrightarrow> list_all safe_column (fst st) \<Longrightarrow> list_all safe_column (fst (fold (\<lambda>f. f) fs st))"
proof (induction fs arbitrary: st)
  case (Cons f fs)
  then have "keeps_safe f" by simp
  with Cons.prems(2) have "list_all safe_column (fst (f st))" unfolding keeps_safe_def by blast
  with Cons show ?case by simp
qed simp

lemma keeps_safe_filter: "keeps_safe (add_filter ff)"
proof (cases "ff_Field ff \<in> set staticFields \<or> validJSONBKey (ff_Field ff)")
  case True
  then have "safe_column c" if "clause_column c = Some (if ff_Field ff \<in> set staticFields then Static (ff_Field ff) else Parsed (ff_Field ff))" for c
    using that by (auto simp: safe_column_def)
  then show ?thesis
    unfolding add_filter_def [abs_def] add_op_def [abs_def] by (intro keeps_safe_if keeps_safe_add) simp_all
qed (simp add: add_filter_def [abs_def] keeps_safe_add)

text \<open>
  (C21) No value of a request reaches the text of a query: the WHERE text of a request is the text of the
  same request with every value replaced by a fixed one, and the only names in it are columns the code
  lists and parsed fields made of letters, digits and underscores.
\<close>

theorem log_query_text_takes_no_values:
  "buildWhereSQL (fst (buildLogWhereClauses q)) = buildWhereSQL (fst (buildLogWhereClauses (mask q))) \<and>
   list_all safe_column (fst (buildLogWhereClauses q))"
proof -
  have stat: "safe_column (Cmp (Static ''hostname'') op n)" "safe_column (Cmp (Static ''severity'') op n)"
    "safe_column (Cmp (Static ''app_name'') op n)" "safe_column (Cmp FromHostOrEmpty op n)" "safe_column (IsEmpty FromHost)"
    "safe_column (InList FromHostOrEmpty neg ns)" "safe_column (TimeFrom n)" "safe_column (TimeTo n)" "safe_column (Search n)"
    "safe_column (ParsersOverlap n)" "safe_column HasParsers" for op n neg ns
    by (simp_all add: safe_column_def staticFields_def)
  have "list_all keeps_safe (map add_filter ffs)" for ffs by (simp add: list_all_iff keeps_safe_filter)
  moreover have "keeps_safe (add_fromhost ip)" for ip
    unfolding add_fromhost_def [abs_def] by (intro keeps_safe_if keeps_safe_add stat)
  ultimately have "list_all keeps_safe (where_steps q)"
    unfolding where_steps_def by (simp add: keeps_safe_add keeps_safe_if stat)
  from keeps_safe_fold [OF this, of "([], [], 1)"] build_mask [of q] show ?thesis by (simp add: buildLogWhereClauses_def)
qed

end
