(* ===== verification/Cursor.thy ===== *)
theory Cursor
  imports Prelude
begin

text \<open>
  The texts that carry a position between pages, \<^verbatim>\<open>encodeLogCursor\<close> and \<^verbatim>\<open>decodeLogCursor\<close> of
  \<^verbatim>\<open>handler/querybuilder.go\<close>, with what they use of the standard library: base64 for URLs without
  padding, and instants in UTC in the format RFC 3339 with nanoseconds. Go parses the exact format with
  a routine of its own and hands other texts to its general parser, which is the argument \<open>lenient\<close>.
\<close>

section \<open>Base64\<close>

definition b64_char :: "nat \<Rightarrow> char" where
  "b64_char n =
     (if n < 26 then char_of (65 + n) else if n < 52 then char_of (71 + n) else if n < 62 then char_of (n - 4)
      else if n = 62 then CHR ''-'' else CHR ''_'')"

definition b64_val :: "char \<Rightarrow> nat option" where
  "b64_val c =
     (let n = of_char c in
      if 65 \<le> n \<and> n \<le> 90 then Some (n - 65) else if 97 \<le> n \<and> n \<le> 122 then Some (n - 71)
      else if 48 \<le> n \<and> n \<le> 57 then Some (n + 4) else if n = 45 then Some 62 else if n = 95 then Some 63 else None)"

fun sextets :: "nat list \<Rightarrow> nat list" where
  "sextets [] = []"
| "sextets [a] = [a div 4, a mod 4 * 16]"
| "sextets [a, b] = [a div 4, a mod 4 * 16 + b div 16, b mod 16 * 4]"
| "sextets (a # b # c # r) = a div 4 # (a mod 4 * 16 + b div 16) # (b mod 16 * 4 + c div 64) # c mod 64 # sextets r"

fun octets :: "nat list \<Rightarrow> nat list option" where
  "octets [] = Some []"
| "octets [x] = None"
| "octets [x, y] = Some [x * 4 + y div 16]"
| "octets [x, y, z] = Some [x * 4 + y div 16, y mod 16 * 16 + z div 4]"
| "octets (x # y # z # u # r) =
     map_option (\<lambda>bs. (x * 4 + y div 16) # (y mod 16 * 16 + z div 4) # (z mod 4 * 64 + u) # bs) (octets r)"

definition b64_encode :: "string \<Rightarrow> string" where
  "b64_encode s = map b64_char (sextets (map of_char s))"

text \<open>Line ends are skipped; bits left over in the last character are ignored.\<close>

definition b64_decode :: "string \<Rightarrow> string option" where
  "b64_decode s =
     (let vs = map b64_val (filter (\<lambda>c. c \<noteq> CHR 0x0A \<and> c \<noteq> CHR 0x0D) s) in
      if None \<in> set vs then None else map_option (map char_of) (octets (map the vs)))"

lemma b64_val_char [simp]: "n < 64 \<Longrightarrow> b64_val (b64_char n) = Some n"
  by (auto simp: b64_val_def b64_char_def Let_def)

lemma b64_char_visible: "n < 64 \<Longrightarrow> b64_char n \<noteq> CHR 0x0A \<and> b64_char n \<noteq> CHR 0x0D"
  using b64_val_char [of n] by (auto simp: b64_val_def Let_def)

lemma sextets_range: "\<forall>b \<in> set bs. b < 256 \<Longrightarrow> \<forall>x \<in> set (sextets bs). x < 64"
  by (induction bs rule: sextets.induct) (auto simp: less_mult_imp_div_less)

lemma octets_sextets: "\<forall>b \<in> set bs. b < 256 \<Longrightarrow> octets (sextets bs) = Some bs"
proof (induction bs rule: sextets.induct)
  case (4 a b c r)
  have "(a mod 4 * 16 + b div 16) div 16 = a mod 4" "(a mod 4 * 16 + b div 16) mod 16 = b div 16"
    "(b mod 16 * 4 + c div 64) div 4 = b mod 16" "(b mod 16 * 4 + c div 64) mod 4 = c div 64"
    using "4.prems" by (auto simp: less_mult_imp_div_less)
  with 4 show ?case by auto
next
  case (3 a b)
  have "(a mod 4 * 16 + b div 16) div 16 = a mod 4" "(a mod 4 * 16 + b div 16) mod 16 = b div 16"
    using "3.prems" by (auto simp: less_mult_imp_div_less)
  then show ?case by auto
qed auto

lemma b64_round_trip: "b64_decode (b64_encode s) = Some s"
proof -
  let ?bs = "map of_char s :: nat list"
  let ?xs = "sextets ?bs"
  have bytes: "\<forall>b \<in> set ?bs. b < 256" by (auto simp: nat_of_char_less_256)
  have range: "\<forall>x \<in> set ?xs. x < 64" by (rule sextets_range [OF bytes])
  then have "filter (\<lambda>c. c \<noteq> CHR 0x0A \<and> c \<noteq> CHR 0x0D) (map b64_char ?xs) = map b64_char ?xs"
    using b64_char_visible by (auto simp: filter_id_conv)
  moreover have vals: "map b64_val (map b64_char ?xs) = map Some ?xs" using range by simp
  moreover have "map the (map Some ?xs) = ?xs" by (simp add: comp_def)
  moreover have "None \<notin> set (map Some ?xs)" by auto
  ultimately have "b64_decode (b64_encode s) = map_option (map char_of) (octets ?xs)"
    by (simp only: b64_decode_def b64_encode_def Let_def if_False)
  then show ?thesis by (simp add: octets_sextets [OF bytes] comp_def)
qed

section \<open>The calendar\<close>

definition leap :: "nat \<Rightarrow> bool" where
  "leap y \<longleftrightarrow> y mod 4 = 0 \<and> (y mod 100 \<noteq> 0 \<or> y mod 400 = 0)"

definition year_len :: "nat \<Rightarrow> nat" where
  "year_len y = (if leap y then 366 else 365)"

definition months :: "nat \<Rightarrow> nat list" where
  "months y = [31, if leap y then 29 else 28, 31, 30, 31, 30, 31, 31, 30, 31, 30, 31]"

fun days_before :: "nat \<Rightarrow> nat" where
  "days_before 0 = 0"
| "days_before (Suc y) = days_before y + year_len y"

text \<open>The year a day falls in, counting from the year \<open>y\<close>, and the day of that year; then the same for months.\<close>

function year_loop :: "nat \<Rightarrow> nat \<Rightarrow> nat \<times> nat" where
  "year_loop y n = (if n < year_len y then (y, n) else year_loop (Suc y) (n - year_len y))"
  by auto
termination by (relation "measure snd") (auto simp: year_len_def)

declare year_loop.simps [simp del]

fun month_loop :: "nat list \<Rightarrow> nat \<Rightarrow> nat \<times> nat" where
  "month_loop [] n = (0, n)"
| "month_loop (l # ls) n = (if n < l then (0, n) else (case month_loop ls (n - l) of (m, d) \<Rightarrow> (Suc m, d)))"

text \<open>Days are counted from January 1 of the year 0; the calendar repeats after 400 years.\<close>

definition date_of :: "int \<Rightarrow> int \<times> nat \<times> nat" where
  "date_of n =
     (let (y, doy) = year_loop 0 (nat (n mod 146097)); (m, d) = month_loop (months y) doy in
      (400 * (n div 146097) + int y, m + 1, d + 1))"

definition days_of :: "int \<Rightarrow> nat \<Rightarrow> nat \<Rightarrow> int" where
  "days_of y m d =
     (let c = nat (y mod 400) in
      146097 * (y div 400) + int (days_before c + sum_list (take (m - 1) (months c)) + (d - 1)))"

lemma year_loop_spec:
  "year_loop y n = (y', n') \<Longrightarrow> days_before y + n = days_before y' + n' \<and> n' < year_len y' \<and> y \<le> y'"
proof (induction y n arbitrary: y' n' rule: year_loop.induct)
  case (1 y n)
  show ?case
  proof (cases "n < year_len y")
    case True
    with "1.prems" show ?thesis by (simp add: year_loop.simps [of y n])
  next
    case False
    with "1.prems" have "year_loop (Suc y) (n - year_len y) = (y', n')" by (simp add: year_loop.simps [of y n])
    with "1.IH" [OF False] False show ?thesis by fastforce
  qed
qed

lemma days_before_mono: "y \<le> z \<Longrightarrow> days_before y \<le> days_before z"
  by (induction z) (auto simp: le_Suc_eq)

lemma ceil_div:
  assumes "0 < (k :: nat)"
  shows "(y + (k - 1)) div k = y div k + (if y mod k = 0 then 0 else 1)"
proof -
  have "(y + (k - 1)) div k = (y mod k + (k - 1) + k * (y div k)) div k"
    by (metis add.assoc add.commute mod_mult_div_eq)
  also have "\<dots> = y div k + (y mod k + (k - 1)) div k" using assms by (simp only: div_mult_self2)
  also have "(y mod k + (k - 1)) div k = (if y mod k = 0 then 0 else 1)"
  proof (cases "y mod k")
    case (Suc r)
    with assms have "y mod k + (k - 1) = r + k" "r < k" using mod_less_divisor [OF assms, of y] by simp_all
    with Suc assms div_add_self2 [of k r] show ?thesis by simp
  qed (use assms in simp)
  finally show ?thesis .
qed

lemma ceil_div_Suc: "0 < (k :: nat) \<Longrightarrow> (Suc y + (k - 1)) div k = (y + (k - 1)) div k + (if y mod k = 0 then 1 else 0)"
  using ceil_div [of k y] div_add_self2 [of k y] by simp

lemma days_before_formula: "days_before y + (y + 99) div 100 = 365 * y + (y + 3) div 4 + (y + 399) div 400"
proof (induction y)
  case (Suc y)
  have "(Suc y + 3) div 4 = (y + 3) div 4 + (if y mod 4 = 0 then 1 else 0)"
    "(Suc y + 99) div 100 = (y + 99) div 100 + (if y mod 100 = 0 then 1 else 0)"
    "(Suc y + 399) div 400 = (y + 399) div 400 + (if y mod 400 = 0 then 1 else 0)"
    using ceil_div_Suc [of 4 y] ceil_div_Suc [of 100 y] ceil_div_Suc [of 400 y] by simp_all
  moreover have "y mod 400 = 0 \<Longrightarrow> y mod 100 = 0" "y mod 100 = 0 \<Longrightarrow> y mod 4 = 0"
    using mod_mod_cancel [of 100 400 y] mod_mod_cancel [of 4 100 y] by auto
  ultimately show ?case using Suc by (auto simp: year_len_def leap_def)
qed simp

lemma days_before_400: "days_before 400 = 146097"
  using days_before_formula [of 400] by simp

lemma year_in_cycle:
  assumes "year_loop 0 n = (y, n')" "n < 146097"
  shows "y < 400"
proof (rule ccontr)
  assume "\<not> y < 400"
  then have "146097 \<le> days_before y" using days_before_mono [of 400 y] by (simp add: days_before_400)
  with year_loop_spec [OF assms(1)] assms(2) show False by simp
qed

lemma month_loop_spec:
  "month_loop ls n = (m, d) \<Longrightarrow> n < sum_list ls \<Longrightarrow> m < length ls \<and> d < ls ! m \<and> n = sum_list (take m ls) + d"
proof (induction ls arbitrary: n m d)
  case (Cons l ls)
  show ?case
  proof (cases "n < l")
    case False
    obtain m' d' where r: "month_loop ls (n - l) = (m', d')" by fastforce
    moreover have "n - l < sum_list ls" using False Cons.prems(2) by simp
    moreover note Cons.IH [OF r this]
    ultimately show ?thesis using False Cons.prems by auto
  qed (use Cons.prems in auto)
qed simp

lemma months_sum: "sum_list (months y) = year_len y"
  by (simp add: months_def year_len_def)

lemma length_months: "length (months y) = 12"
  by (simp add: months_def)

lemma months_le: "x \<in> set (months y) \<Longrightarrow> x \<le> 31"
  by (auto simp: months_def split: if_splits)

lemma date_of_spec:
  assumes "date_of n = (y, m, d)"
  shows "days_of y m d = n" "1 \<le> m" "m \<le> 12" "1 \<le> d" "d \<le> months (nat (y mod 400)) ! (m - 1)"
proof -
  obtain c doy where yl: "year_loop 0 (nat (n mod 146097)) = (c, doy)" by fastforce
  obtain m' d' where ml: "month_loop (months c) doy = (m', d')" by fastforce
  have n: "nat (n mod 146097) < 146097" by (simp add: nat_less_iff)
  note ys = year_loop_spec [OF yl] and c = year_in_cycle [OF yl n]
  have ms: "m' < 12" "d' < months c ! m'" "doy = sum_list (take m' (months c)) + d'"
  proof -
    have "doy < sum_list (months c)" using ys by (simp add: months_sum)
    moreover have "length (months c) = 12" by (simp add: months_def)
    ultimately show "m' < 12" "d' < months c ! m'" "doy = sum_list (take m' (months c)) + d'"
      using month_loop_spec [OF ml] by auto
  qed
  have eqs: "y = 400 * (n div 146097) + int c" "m = m' + 1" "d = d' + 1"
    using assms yl ml by (auto simp: date_of_def)
  then have cyc: "y div 400 = n div 146097" "nat (y mod 400) = c" using c by auto
  have "int (days_before c + doy) = n mod 146097" using ys by (simp add: nat_eq_iff)
  moreover have "days_of y m d = 146097 * (n div 146097) + int (days_before c + doy)"
    using cyc eqs(2,3) ms(3) by (simp add: days_of_def Let_def)
  ultimately show "days_of y m d = n" using mult_div_mod_eq [of 146097 n] by simp
  show "1 \<le> m" "m \<le> 12" "1 \<le> d" "d \<le> months (nat (y mod 400)) ! (m - 1)" using cyc eqs ms by auto
qed

section \<open>RFC 3339\<close>

fun pad_digits :: "nat \<Rightarrow> nat \<Rightarrow> string" where
  "pad_digits 0 n = []"
| "pad_digits (Suc k) n = pad_digits k (n div 10) @ [digit_char (n mod 10)]"

definition year_str :: "int \<Rightarrow> string" where
  "year_str y =
     (let n = nat \<bar>y\<bar> in (if y < 0 then ''-'' else []) @ (if n < 10000 then pad_digits 4 n else nat_str n))"

definition frac_str :: "nat \<Rightarrow> string" where
  "frac_str ns = (if ns = 0 then [] else CHR ''.'' # rev (dropWhile (\<lambda>c. c = CHR ''0'') (rev (pad_digits 9 ns))))"

definition epoch_day :: int where "epoch_day = 719528"

text \<open>\<^verbatim>\<open>ts.UTC().Format(time.RFC3339Nano)\<close>.\<close>

definition format_rfc3339 :: "time \<Rightarrow> string" where
  "format_rfc3339 t =
     (let secs = t div Second; (y, m, d) = date_of (secs div 86400 + epoch_day); sod = nat (secs mod 86400) in
      year_str y @ ''-'' @ pad_digits 2 m @ ''-'' @ pad_digits 2 d @ ''T'' @ pad_digits 2 (sod div 3600) @ '':'' @
      pad_digits 2 (sod div 60 mod 60) @ '':'' @ pad_digits 2 (sod mod 60) @ frac_str (nat (t mod Second)) @ ''Z'')"

definition parse_uint :: "string \<Rightarrow> nat \<Rightarrow> nat \<Rightarrow> nat option" where
  "parse_uint s lo hi = (if list_all is_digit s \<and> lo \<le> digits_val s \<and> digits_val s \<le> hi then Some (digits_val s) else None)"

definition slice :: "nat \<Rightarrow> nat \<Rightarrow> string \<Rightarrow> string" where
  "slice i j s = take (j - i) (drop i s)"

text \<open>The digits after the point, to nine places, and the rest of the text.\<close>

definition parse_frac :: "string \<Rightarrow> nat \<times> string" where
  "parse_frac s =
     (case s of
        c # e # r \<Rightarrow>
          (if c = CHR ''.'' \<and> is_digit e
           then (let ds = take 9 (takeWhile is_digit (e # r)) in (digits_val ds * 10 ^ (9 - length ds), dropWhile is_digit (e # r)))
           else (0, s))
      | _ \<Rightarrow> (0, s))"

definition parse_zone :: "string \<Rightarrow> int option" where
  "parse_zone s =
     (if s = ''Z'' then Some 0
      else if length s \<noteq> 6 then None
      else (case (parse_uint (slice 1 3 s) 0 23, parse_uint (slice 4 6 s) 0 59) of
          (Some hr, Some mm) \<Rightarrow>
            (if s ! 3 \<noteq> CHR '':'' then None
             else if s ! 0 = CHR ''-'' then Some (- int ((hr * 60 + mm) * 60))
             else if s ! 0 = CHR ''+'' then Some (int ((hr * 60 + mm) * 60))
             else None)
        | _ \<Rightarrow> None))"

definition parse_rfc3339 :: "string \<Rightarrow> time option" where
  "parse_rfc3339 s =
     (if length s < 19 \<or> \<not> (s ! 4 = CHR ''-'' \<and> s ! 7 = CHR ''-'' \<and> s ! 10 = CHR ''T'' \<and> s ! 13 = CHR '':'' \<and> s ! 16 = CHR '':'') then None
      else (case (parse_uint (slice 0 4 s) 0 9999, parse_uint (slice 5 7 s) 1 12) of
          (Some y, Some m) \<Rightarrow>
            (case (parse_uint (slice 8 10 s) 1 (months (y mod 400) ! (m - 1)), parse_uint (slice 11 13 s) 0 23,
                   parse_uint (slice 14 16 s) 0 59, parse_uint (slice 17 19 s) 0 59) of
               (Some d, Some h, Some mi, Some sec) \<Rightarrow>
                 (case parse_frac (drop 19 s) of (ns, r) \<Rightarrow>
                    map_option (\<lambda>off. ((days_of (int y) m d - epoch_day) * 86400 + int (h * 3600 + mi * 60 + sec) - off) * Second + int ns)
                      (parse_zone r))
             | _ \<Rightarrow> None)
        | _ \<Rightarrow> None))"

lemma length_pad [simp]: "length (pad_digits k n) = k"
  by (induction k arbitrary: n) auto

lemma pad_digits_digits [simp]: "list_all is_digit (pad_digits k n)"
  by (induction k arbitrary: n) auto

lemma digits_val_append: "digits_val (xs @ ys) = digits_val xs * 10 ^ length ys + digits_val ys"
proof (induction ys rule: rev_induct)
  case (snoc y ys)
  then show ?case by (simp add: digits_val_def algebra_simps flip: append_assoc)
qed (simp add: digits_val_def)

lemma digits_val_pad: "digits_val (pad_digits k n) = n mod 10 ^ k"
proof (induction k arbitrary: n)
  case (Suc k)
  have "n mod 10 ^ Suc k = n div 10 mod 10 ^ k * 10 + n mod 10"
    using mod_mult2_eq [of n 10 "10 ^ k"] by (simp add: algebra_simps)
  with Suc show ?case by (simp add: digits_val_append) (simp add: digits_val_def of_char_digit)
qed (simp add: digits_val_def)

lemma parse_uint_pad: "n < 10 ^ k \<Longrightarrow> lo \<le> n \<Longrightarrow> n \<le> hi \<Longrightarrow> parse_uint (pad_digits k n) lo hi = Some n"
  by (simp add: parse_uint_def digits_val_pad)

lemma digits_val_zeros: "list_all (\<lambda>c. c = CHR ''0'') zs \<Longrightarrow> digits_val zs = 0"
  by (induction zs rule: rev_induct) (auto simp: digits_val_def)

lemma parse_frac_str:
  assumes "ns < 10 ^ 9"
  shows "parse_frac (frac_str ns @ ''Z'') = (ns, ''Z'')"
proof (cases "ns = 0")
  case True
  then show ?thesis by (simp add: frac_str_def parse_frac_def)
next
  case False
  let ?p = "pad_digits 9 ns"
  define ds where "ds = rev (dropWhile (\<lambda>c. c = CHR ''0'') (rev ?p))"
  define zs where "zs = rev (takeWhile (\<lambda>c. c = CHR ''0'') (rev ?p))"
  have split: "?p = ds @ zs" unfolding ds_def zs_def by (metis rev_append rev_rev_ident takeWhile_dropWhile_id)
  have zeros: "list_all (\<lambda>c. c = CHR ''0'') zs" by (auto simp: zs_def list_all_iff dest: set_takeWhileD)
  have val: "digits_val ds * 10 ^ length zs = ns"
    using digits_val_append [of ds zs] digits_val_zeros [OF zeros] assms by (simp add: digits_val_pad flip: split)
  have len: "length ds + length zs = 9" using arg_cong [OF split, of length] by simp
  have dig: "list_all is_digit ds" using pad_digits_digits [of 9 ns] by (simp add: split)
  obtain e r where er: "ds = e # r" using val False by (cases ds) (auto simp: digits_val_def)
  have "takeWhile is_digit (ds @ ''Z'') = ds" "dropWhile is_digit (ds @ ''Z'') = ''Z''"
    using dig by (auto simp: list_all_iff is_digit_def)
  moreover have "frac_str ns @ ''Z'' = CHR ''.'' # ds @ ''Z''" using False by (simp add: frac_str_def ds_def)
  moreover have "10 ^ (9 - length ds) = (10 :: nat) ^ length zs" using len by simp
  ultimately show ?thesis using dig er val len by (simp add: parse_frac_def)
qed

lemma rfc_shape:
  assumes "length a = 4" "length b = 2" "length c = 2" "length h = 2" "length i = 2" "length j = 2"
    and "s = a @ ''-'' @ b @ ''-'' @ c @ ''T'' @ h @ '':'' @ i @ '':'' @ j @ r"
  shows "\<not> length s < 19" "s ! 4 = CHR ''-'' \<and> s ! 7 = CHR ''-'' \<and> s ! 10 = CHR ''T'' \<and> s ! 13 = CHR '':'' \<and> s ! 16 = CHR '':''"
    "slice 0 4 s = a" "slice 5 7 s = b" "slice 8 10 s = c" "slice 11 13 s = h" "slice 14 16 s = i" "slice 17 19 s = j" "drop 19 s = r"
proof -
  obtain a1 a2 a3 a4 where a: "a = [a1, a2, a3, a4]" using assms(1) by (auto simp: numeral_eq_Suc length_Suc_conv)
  obtain b1 b2 where b: "b = [b1, b2]" using assms(2) by (auto simp: numeral_eq_Suc length_Suc_conv)
  obtain c1 c2 where c: "c = [c1, c2]" using assms(3) by (auto simp: numeral_eq_Suc length_Suc_conv)
  obtain h1 h2 where h: "h = [h1, h2]" using assms(4) by (auto simp: numeral_eq_Suc length_Suc_conv)
  obtain i1 i2 where i: "i = [i1, i2]" using assms(5) by (auto simp: numeral_eq_Suc length_Suc_conv)
  obtain j1 j2 where j: "j = [j1, j2]" using assms(6) by (auto simp: numeral_eq_Suc length_Suc_conv)
  show "\<not> length s < 19" "s ! 4 = CHR ''-'' \<and> s ! 7 = CHR ''-'' \<and> s ! 10 = CHR ''T'' \<and> s ! 13 = CHR '':'' \<and> s ! 16 = CHR '':''"
    "slice 0 4 s = a" "slice 5 7 s = b" "slice 8 10 s = c" "slice 11 13 s = h" "slice 14 16 s = i" "slice 17 19 s = j" "drop 19 s = r"
    unfolding assms(7) a b c h i j by (simp_all add: slice_def)
qed

text \<open>The years whose texts have four digits.\<close>

definition year_of :: "time \<Rightarrow> int" where
  "year_of t = fst (date_of (t div Second div 86400 + epoch_day))"

lemma parse_format_rfc3339:
  assumes "0 \<le> year_of t" "year_of t \<le> 9999"
  shows "parse_rfc3339 (format_rfc3339 t) = Some t"
proof -
  let ?secs = "t div Second"
  obtain y m d where date: "date_of (?secs div 86400 + epoch_day) = (y, m, d)" by (metis prod.exhaust)
  note ds = date_of_spec [OF date]
  define sod where "sod = nat (?secs mod 86400)"
  define s where "s = format_rfc3339 t"
  have y: "0 \<le> y" "nat y < 10000" using assms date by (auto simp: year_of_def)
  have sod: "sod < 86400" by (simp add: sod_def nat_less_iff)
  have hms: "sod div 3600 \<le> 23" "sod div 60 mod 60 \<le> 59" "sod mod 60 \<le> 59"
    "sod div 3600 * 3600 + sod div 60 mod 60 * 60 + sod mod 60 = sod"
  proof -
    have "sod div 60 < 1440" using sod by (simp add: less_mult_imp_div_less)
    then have "sod div 60 div 60 < 24" by (simp add: less_mult_imp_div_less)
    moreover have "sod div 3600 = sod div 60 div 60" by (simp add: div_mult2_eq [symmetric])
    moreover have "sod div 60 = 60 * (sod div 60 div 60) + sod div 60 mod 60" "sod = 60 * (sod div 60) + sod mod 60" by simp_all
    moreover have "sod div 60 mod 60 < 60" "sod mod 60 < 60" by simp_all
    ultimately show "sod div 3600 \<le> 23" "sod div 60 mod 60 \<le> 59" "sod mod 60 \<le> 59"
      "sod div 3600 * 3600 + sod div 60 mod 60 * 60 + sod mod 60 = sod" by linarith+
  qed
  have s: "s = pad_digits 4 (nat y) @ ''-'' @ pad_digits 2 m @ ''-'' @ pad_digits 2 d @ ''T'' @ pad_digits 2 (sod div 3600) @ '':'' @
      pad_digits 2 (sod div 60 mod 60) @ '':'' @ pad_digits 2 (sod mod 60) @ (frac_str (nat (t mod Second)) @ ''Z'')"
    using y by (simp add: s_def format_rfc3339_def date sod_def year_str_def Let_def)
  note sh = rfc_shape [OF _ _ _ _ _ _ s, simplified]
  have ns: "nat (t mod Second) < 10 ^ 9" by (simp add: Second_def nat_less_iff)
  have yc: "nat y mod 400 = nat (y mod 400)" using y(1) by (simp add: nat_mod_distrib)
  have "months (nat (y mod 400)) ! (m - 1) \<le> 31"
    using ds(2,3) by (intro months_le [of _ "nat (y mod 400)"] nth_mem) (simp add: length_months)
  then have d: "d \<le> 31" "d \<le> months (nat y mod 400) ! (m - Suc 0)" using ds(5) yc by simp_all
  have nums: "parse_uint (pad_digits 4 (nat y)) 0 9999 = Some (nat y)" "parse_uint (pad_digits 2 m) (Suc 0) 12 = Some m"
    "parse_uint (pad_digits 2 d) (Suc 0) (months (nat y mod 400) ! (m - Suc 0)) = Some d"
    "parse_uint (pad_digits 2 (sod div 3600)) 0 23 = Some (sod div 3600)"
    "parse_uint (pad_digits 2 (sod div 60 mod 60)) 0 59 = Some (sod div 60 mod 60)"
    "parse_uint (pad_digits 2 (sod mod 60)) 0 59 = Some (sod mod 60)"
    by (rule parse_uint_pad; use ds(2-4) y(2) hms(1-3) d in simp)+
  have "parse_rfc3339 s = Some (((days_of y m d - epoch_day) * 86400 + int sod) * Second + t mod Second)"
    using sh nums parse_frac_str [OF ns] y(1) hms(4) by (simp add: parse_rfc3339_def parse_zone_def Second_def flip: of_nat_mult of_nat_add)
  also have "((days_of y m d - epoch_day) * 86400 + int sod) * Second + t mod Second = t"
    using ds(1) by (simp add: sod_def)
  finally show ?thesis by (simp add: s_def)
qed

section \<open>Cursors\<close>

definition parse_time :: "(string \<Rightarrow> time option) \<Rightarrow> string \<Rightarrow> time option" where
  "parse_time lenient s = (case parse_rfc3339 s of Some t \<Rightarrow> Some t | None \<Rightarrow> lenient s)"

definition encodeLogCursor :: "time \<Rightarrow> int \<Rightarrow> string" where
  "encodeLogCursor ts i = b64_encode (format_rfc3339 ts @ ''|'' @ itoa i)"

definition decodeLogCursor :: "(string \<Rightarrow> time option) \<Rightarrow> string \<Rightarrow> (time \<times> int) option" where
  "decodeLogCursor lenient cursor =
     (case b64_decode cursor of
        None \<Rightarrow> None
      | Some raw \<Rightarrow>
          (case split2 (CHR ''|'') raw of
             [a, b] \<Rightarrow>
               (case parse_time lenient a of
                  None \<Rightarrow> None
                | Some ts \<Rightarrow> (case parse_int64 b of None \<Rightarrow> None | Some i \<Rightarrow> Some (ts, i)))
           | _ \<Rightarrow> None))"

lemma digits_no_bar: "list_all is_digit ds \<Longrightarrow> CHR ''|'' \<notin> set ds"
  by (auto simp: list_all_iff is_digit_def)

lemma no_bar_pad [simp]: "CHR ''|'' \<notin> set (pad_digits k n)" "CHR ''|'' \<notin> set (nat_str n)"
  by (simp_all add: digits_no_bar nat_str_digits)

lemma no_bar_frac [simp]: "CHR ''|'' \<notin> set (frac_str ns)"
  using no_bar_pad(1) [of 9 ns] by (auto simp: frac_str_def dest: set_dropWhileD)

lemma no_bar_format: "CHR ''|'' \<notin> set (format_rfc3339 t)"
  by (auto simp: format_rfc3339_def year_str_def Let_def split: prod.split)

lemma cursor_round_trip:
  assumes "0 \<le> year_of ts" "year_of ts \<le> 9999" "is_int64 i"
  shows "decodeLogCursor lenient (encodeLogCursor ts i) = Some (ts, i)"
  using assms parse_format_rfc3339 [OF assms(1,2)]
  by (simp add: decodeLogCursor_def encodeLogCursor_def b64_round_trip split2_append no_bar_format parse_time_def parse_int64_itoa)

lemma encode_nonempty: "encodeLogCursor ts i \<noteq> []"
proof
  assume e: "encodeLogCursor ts i = []"
  have "b64_decode [] = Some []" by (simp add: b64_decode_def)
  then have "format_rfc3339 ts @ ''|'' @ itoa i = []" using b64_round_trip e unfolding encodeLogCursor_def by (metis option.inject)
  then show False by simp
qed

end
