(* ===== verification/LogHandlers.thy ===== *)
theory LogHandlers
  imports Cursor LogQuery Sql "HOL-Library.AList"
begin

text \<open>
  The log handlers: pages (\<^verbatim>\<open>GetLogs\<close>) and counts (\<^verbatim>\<open>GetLogsCount\<close>) of \<^verbatim>\<open>handler/logs.go\<close>, the count cache of
  \<^verbatim>\<open>handler/querybuilder.go\<close> and the CSV export of \<^verbatim>\<open>handler/export.go\<close>. A SELECT is its meaning on the
  table: the rows whose clauses hold, ordered, cut to the limit.
\<close>

section \<open>Selecting rows\<close>

fun insert_by :: "('a \<Rightarrow> 'a \<Rightarrow> bool) \<Rightarrow> 'a \<Rightarrow> 'a list \<Rightarrow> 'a list" where
  "insert_by le x [] = [x]"
| "insert_by le x (y # ys) = (if le x y then x # y # ys else y # insert_by le x ys)"

definition sort_by :: "('a \<Rightarrow> 'a \<Rightarrow> bool) \<Rightarrow> 'a list \<Rightarrow> 'a list" where
  "sort_by le xs = foldr (insert_by le) xs []"

definition row_key :: "log_row \<Rightarrow> time \<times> int" where
  "row_key r = (lr_timestamp r, lr_id r)"

definition newest_first :: "log_row \<Rightarrow> log_row \<Rightarrow> bool" where
  "newest_first r s \<longleftrightarrow> \<not> before (row_key r) (row_key s)"

definition oldest_first :: "log_row \<Rightarrow> log_row \<Rightarrow> bool" where
  "oldest_first r s \<longleftrightarrow> \<not> before (row_key s) (row_key r)"

definition by_text :: "pg_ops \<Rightarrow> (log_row \<Rightarrow> string) \<Rightarrow> log_row \<Rightarrow> log_row \<Rightarrow> bool" where
  "by_text pg f r s \<longleftrightarrow> pg_less pg (f r) (f s) \<or> \<not> pg_less pg (f s) (f r) \<and> newest_first r s"

definition row_order :: "pg_ops \<Rightarrow> string \<Rightarrow> log_row \<Rightarrow> log_row \<Rightarrow> bool" where
  "row_order pg srt =
     (if srt = ''timestamp_asc'' then oldest_first
      else if srt = ''severity'' then by_text pg lr_severity
      else if srt = ''hostname'' then by_text pg lr_hostname
      else newest_first)"

record count_entry =
  ce_total :: int
  ce_at :: time

text \<open>The tables, the planner's estimate of the number of rows, and the count cache of the process.\<close>

record logstate =
  syslog_logs :: "log_row list"
  device_aliases :: "string \<rightharpoonup> string"
  estimated_rows :: int
  filteredCountCache :: "(string \<times> count_entry) list"

definition where_rows :: "pg_ops \<Rightarrow> clause list \<Rightarrow> arg list \<Rightarrow> log_row list \<Rightarrow> log_row list" where
  "where_rows pg cs args rows = filter (\<lambda>r. list_all (clause_holds pg args r) cs) rows"

section \<open>Pages\<close>

record LogQueryRequest =
  lq_Limit :: int
  lq_Offset :: int
  lq_Cursor :: string
  lq_Hostname :: string
  lq_FromHostIP :: string
  lq_Severity :: string
  lq_AppName :: string
  lq_Search :: string
  lq_From :: string
  lq_To :: string
  lq_Sort :: string

record log_page =
  pg_logs :: "(log_row \<times> string) list"
  pg_has_more :: bool
  pg_next_cursor :: string
  pg_limit :: int

definition MaxLogLimit :: int where "MaxLogLimit = 1000"

definition cursorSupported :: "string \<Rightarrow> bool" where
  "cursorSupported srt \<longleftrightarrow> srt = [] \<or> srt = ''timestamp_desc'' \<or> srt = ''timestamp_asc''"

definition request_filters :: "LogQueryRequest \<Rightarrow> LogFilterOptions" where
  "request_filters req =
     \<lparr>lo_Hostname = lq_Hostname req, lo_FromHostIP = lq_FromHostIP req, lo_Severity = lq_Severity req,
      lo_AppName = lq_AppName req, lo_Search = lq_Search req, lo_From = lq_From req, lo_To = lq_To req,
      lo_Devices = [], lo_HasFields = False, lo_RequiredParsers = [], lo_FieldFilters = []\<rparr>"

text \<open>\<open>bound\<close>: the body was bound without an error (after one, the fields read so far stay).\<close>

definition query_defaults :: "bool \<Rightarrow> LogQueryRequest \<Rightarrow> LogQueryRequest" where
  "query_defaults bound req =
     (let r1 = (if bound then req else req\<lparr>lq_Limit := 50, lq_Sort := ''timestamp_desc''\<rparr>);
          r2 = (if lq_Limit r1 = 0 then r1\<lparr>lq_Limit := 50\<rparr> else r1)
      in if lq_Sort r2 = [] then r2\<lparr>lq_Sort := ''timestamp_desc''\<rparr> else r2)"

definition display_name :: "logstate \<Rightarrow> log_row \<Rightarrow> string" where
  "display_name d r =
     (case device_aliases d (case lr_fromhost_ip r of None \<Rightarrow> [] | Some ip \<Rightarrow> ip) of None \<Rightarrow> [] | Some n \<Rightarrow> n)"

text \<open>The page query; the database rejects a negative limit or offset.\<close>

definition select_logs ::
  "pg_ops \<Rightarrow> clause list \<Rightarrow> arg list \<Rightarrow> string \<Rightarrow> int \<Rightarrow> int \<Rightarrow> (logstate, (log_row \<times> string) list) sql" where
  "select_logs pg cs args srt limit offset = query (\<lambda>d.
     if limit < 0 \<or> offset < 0 then Inl SqlErr
     else Inr (map (\<lambda>r. (r, display_name d r))
       (take (nat limit) (drop (nat offset) (sort_by (row_order pg srt) (where_rows pg cs args (syslog_logs d)))))))"

definition cut_page :: "string \<Rightarrow> int \<Rightarrow> (log_row \<times> string) list \<Rightarrow> log_page resp" where
  "cut_page srt limitInt rows =
     (if int (length rows) > limitInt then
        (if limitInt < 0 then Failure 500 ''panic''
         else (let logs = take (nat limitInt) rows in
           Answer 200 \<lparr>pg_logs = logs, pg_has_more = True,
             pg_next_cursor = (if cursorSupported srt \<and> logs \<noteq> []
                then encodeLogCursor (lr_timestamp (fst (last logs))) (lr_id (fst (last logs))) else []),
             pg_limit = limitInt\<rparr>))
      else Answer 200 \<lparr>pg_logs = rows, pg_has_more = False, pg_next_cursor = [], pg_limit = limitInt\<rparr>)"

definition GetLogs :: "pg_ops \<Rightarrow> (string \<Rightarrow> time option) \<Rightarrow> bool \<Rightarrow> LogQueryRequest \<Rightarrow> (logstate, log_page resp) sql" where
  "GetLogs pg lenient bound req0 =
     (let req = query_defaults bound req0;
          limitInt = (if lq_Limit req > MaxLogLimit then MaxLogLimit else lq_Limit req);
          (cs, args, idx) = buildLogWhereClauses (request_filters req);
          useCursor = cursorSupported (lq_Sort req);
          run = (\<lambda>cs args offset. attempt (select_logs pg cs args (lq_Sort req) (limitInt + 1) offset) (\<lambda>r. case r of
             Inl err \<Rightarrow> ret (Failure 500 ''error.queryFailed'')
           | Inr rows \<Rightarrow> ret (cut_page (lq_Sort req) limitInt rows)))
      in if useCursor \<and> lq_Cursor req \<noteq> [] then
           (case decodeLogCursor lenient (lq_Cursor req) of
              None \<Rightarrow> ret (Failure 400 ''error.invalidCursor'')
            | Some (ts, i) \<Rightarrow> run (cs @ [BeyondCursor (lq_Sort req = ''timestamp_asc'') idx (idx + 1)]) (args @ [ATime ts, AInt i]) 0)
         else run cs args (if useCursor then 0 else lq_Offset req))"

section \<open>Counts\<close>

definition filteredCountTTL :: duration where "filteredCountTTL = 15 * 1000000000"
definition filteredCountCacheMaxEntries :: nat where "filteredCountCacheMaxEntries = 1000"

definition cache_get :: "string \<Rightarrow> time \<Rightarrow> logstate \<Rightarrow> int option" where
  "cache_get key now d =
     (case map_of (filteredCountCache d) key of
        Some e \<Rightarrow> (if now - ce_at e < filteredCountTTL then Some (ce_total e) else None)
      | None \<Rightarrow> None)"

definition cache_put :: "string \<Rightarrow> int \<Rightarrow> time \<Rightarrow> logstate \<Rightarrow> logstate" where
  "cache_put key cnt now d =
     (let c = (if length (filteredCountCache d) \<ge> filteredCountCacheMaxEntries then [] else filteredCountCache d) in
      d\<lparr>filteredCountCache := AList.update key \<lparr>ce_total = cnt, ce_at = now\<rparr> c\<rparr>)"

definition cachedFilteredCount :: "time \<Rightarrow> string \<Rightarrow> (logstate, int) sql \<Rightarrow> (logstate, int) sql" where
  "cachedFilteredCount now cacheKey fetch =
     bind (local (\<lambda>d. (cache_get cacheKey now d, d))) (\<lambda>hit. case hit of
        Some cnt \<Rightarrow> ret cnt
      | None \<Rightarrow> bind fetch (\<lambda>cnt. bind (local (\<lambda>d. ((), cache_put cacheKey cnt now d))) (\<lambda>_. ret cnt)))"

text \<open>\<^verbatim>\<open>fmt.Sprint(args...)\<close> on texts, the only arguments these filters have: no separator between them.\<close>

definition sprint_args :: "arg list \<Rightarrow> string" where
  "sprint_args args = concat (map (\<lambda>a. case a of AStr s \<Rightarrow> s | _ \<Rightarrow> []) args)"

definition count_logs :: "pg_ops \<Rightarrow> clause list \<Rightarrow> arg list \<Rightarrow> (logstate, int) sql" where
  "count_logs pg cs args = query (\<lambda>d. Inr (int (length (where_rows pg cs args (syslog_logs d)))))"

definition GetLogsCount :: "pg_ops \<Rightarrow> time \<Rightarrow> LogQueryRequest \<Rightarrow> (logstate, int resp) sql" where
  "GetLogsCount pg now req =
     (case buildLogWhereClauses (request_filters req) of (cs, args, idx) \<Rightarrow>
        attempt (if buildWhereSQL cs = [] then query (\<lambda>d. Inr (max 0 (estimated_rows d)))
                 else cachedFilteredCount now (''logs:'' @ buildWhereSQL cs @ sprint_args args) (count_logs pg cs args))
          (\<lambda>r. ret (Answer 200 (case r of Inl err \<Rightarrow> 0 | Inr cnt \<Rightarrow> cnt))))"

section \<open>The CSV export\<close>

record ExportFilterRequest =
  er_Hostname :: string
  er_FromHostIP :: string
  er_Severity :: string
  er_AppName :: string
  er_Search :: string
  er_From :: string
  er_To :: string
  er_Devices :: string
  er_HasFields :: string
  er_TZ :: string
  er_Limit :: string

definition noExportFilter :: ExportFilterRequest where
  "noExportFilter = \<lparr>er_Hostname = [], er_FromHostIP = [], er_Severity = [], er_AppName = [], er_Search = [], er_From = [],
     er_To = [], er_Devices = [], er_HasFields = [], er_TZ = [], er_Limit = []\<rparr>"

text \<open>
  The unread body of a request. \<^verbatim>\<open>c.ShouldBindJSON\<close> reads it to its end, so a later call finds nothing
  and leaves the zero value.
\<close>

type_synonym body = "ExportFilterRequest option"

definition ShouldBindJSON :: "body \<Rightarrow> ExportFilterRequest \<times> body" where
  "ShouldBindJSON b = (case b of Some req \<Rightarrow> (req, None) | None \<Rightarrow> (noExportFilter, None))"

definition exportFilterOptionsFromBody :: "body \<Rightarrow> LogFilterOptions \<times> body" where
  "exportFilterOptionsFromBody b =
     (case ShouldBindJSON b of (req, b') \<Rightarrow>
        (\<lparr>lo_Hostname = er_Hostname req, lo_FromHostIP = er_FromHostIP req, lo_Severity = er_Severity req,
          lo_AppName = er_AppName req, lo_Search = er_Search req, lo_From = er_From req, lo_To = er_To req,
          lo_Devices = (if er_Devices req \<noteq> [] then split_on (CHR '','') (er_Devices req) else []),
          lo_HasFields = (er_HasFields req = ''1''), lo_RequiredParsers = [], lo_FieldFilters = []\<rparr>, b'))"

definition csvSafe :: "string \<Rightarrow> string" where
  "csvSafe s =
     (case s of
        [] \<Rightarrow> s
      | c # cs \<Rightarrow> (if c \<in> {CHR ''='', CHR ''+'', CHR ''-'', CHR ''@'', CHR 0x09, CHR 0x0D} then quote # s else s))"

definition DefaultExportLimit :: int where "DefaultExportLimit = 100000"
definition MaxExportLimit :: int where "MaxExportLimit = 100000"

definition csv_limit :: "string \<Rightarrow> int" where
  "csv_limit s =
     (let limit = (case parse_int64 (if s = [] then ''100000'' else s) of
            None \<Rightarrow> DefaultExportLimit
          | Some n \<Rightarrow> (if n < 0 then DefaultExportLimit else n))
      in if limit > MaxExportLimit \<and> limit \<noteq> 0 then MaxExportLimit else limit)"

text \<open>
  \<^verbatim>\<open>queryExportRows\<close>: \<open>clock tz t\<close> is the wall-clock text of an instant in a zone, \<^const>\<open>None\<close> for a zone
  the database rejects; then UTC is tried. The order leaves rows of equal timestamps as they come.
\<close>

definition queryExportRows ::
  "pg_ops \<Rightarrow> (string \<Rightarrow> time \<Rightarrow> string option) \<Rightarrow> body \<Rightarrow> clause list \<Rightarrow> arg list \<Rightarrow> int \<Rightarrow> (logstate, (string \<times> log_row) list) sql" where
  "queryExportRows pg clock b cs args limit =
     (let req = fst (ShouldBindJSON b);
          tz = (if er_TZ req = [] then ''UTC'' else er_TZ req);
          rows = (\<lambda>d. let rs = sort_by (\<lambda>r s. lr_timestamp s \<le> lr_timestamp r) (where_rows pg cs args (syslog_logs d)) in
                   if limit > 0 then take (nat limit) rs else rs);
          runQuery = (\<lambda>tzVal. query (\<lambda>d.
             if list_all (\<lambda>r. clock tzVal (lr_timestamp r) \<noteq> None) (rows d)
             then Inr (map (\<lambda>r. (the (clock tzVal (lr_timestamp r)), r)) (rows d)) else Inl SqlErr))
      in attempt (runQuery tz) (\<lambda>r. case r of
           Inl err \<Rightarrow> (if tz \<noteq> ''UTC'' then runQuery ''UTC'' else throw err)
         | Inr rs \<Rightarrow> ret rs))"

text \<open>The records given to the CSV writer: a label line, the header, one line per row.\<close>

definition csv_row :: "string list \<Rightarrow> string \<times> log_row \<Rightarrow> string list" where
  "csv_row flds p =
     (case p of (ts, r) \<Rightarrow>
        [ts, csvSafe (lr_hostname r), csvSafe (case lr_app_name r of None \<Rightarrow> [] | Some a \<Rightarrow> a), csvSafe (lr_severity r), csvSafe (lr_message r)] @
        map (\<lambda>f. csvSafe (case parsed_field r f of None \<Rightarrow> [] | Some v \<Rightarrow> v)) flds)"

definition writeCSVExport ::
  "pg_ops \<Rightarrow> (string \<Rightarrow> time \<Rightarrow> string option) \<Rightarrow> body \<Rightarrow> clause list \<Rightarrow> arg list \<Rightarrow> int \<Rightarrow> string list \<Rightarrow> string \<Rightarrow>
     (logstate, string list list resp) sql" where
  "writeCSVExport pg clock b cs args limit flds sourceLabel =
     attempt (queryExportRows pg clock b cs args limit) (\<lambda>r. case r of
        Inl err \<Rightarrow> ret (Failure 500 ''error.queryFailed'')
      | Inr rows \<Rightarrow> ret (Answer 200
          ([''# Export: '' @ sourceLabel] # ([''timestamp'', ''hostname'', ''app_name'', ''severity'', ''message''] @ flds) #
           map (csv_row flds) rows)))"

definition ExportCSV :: "pg_ops \<Rightarrow> (string \<Rightarrow> time \<Rightarrow> string option) \<Rightarrow> body \<Rightarrow> (logstate, string list list resp) sql" where
  "ExportCSV pg clock b =
     (case ShouldBindJSON b of (req, b1) \<Rightarrow>
      case exportFilterOptionsFromBody b1 of (opts, b2) \<Rightarrow>
      case buildLogWhereClauses opts of (cs, args, idx) \<Rightarrow>
        writeCSVExport pg clock b2 cs args (csv_limit (er_Limit req)) [] ''Logs'')"

end
