(* ===== verification/LogPaging.thy ===== *)
theory LogPaging
  imports LogQueryTheorems LogHandlers
begin

text \<open>
  Keyset pagination: following \<^verbatim>\<open>next_cursor\<close> from the first page to the last visits every matching row
  exactly once, in order, and comes to an end. The argument needs a strict order in which the rows of
  the table are pairwise comparable; the two timestamp orders of \<^verbatim>\<open>GetLogs\<close> are its instances.
\<close>

section \<open>Sorting in a strict order\<close>

locale strict_order =
  fixes first :: "'a \<Rightarrow> 'a \<Rightarrow> bool"
  assumes irrefl: "\<not> first x x"
    and trans: "first x y \<Longrightarrow> first y z \<Longrightarrow> first x z"
begin

definition comparable :: "'a set \<Rightarrow> bool" where
  "comparable X \<longleftrightarrow> (\<forall>x \<in> X. \<forall>y \<in> X. x \<noteq> y \<longrightarrow> first x y \<or> first y x)"

lemma comparable_subset: "comparable X \<Longrightarrow> Y \<subseteq> X \<Longrightarrow> comparable Y"
  unfolding comparable_def by (meson subsetD)

lemma set_insert_by [simp]: "set (insert_by le x xs) = insert x (set xs)"
  by (induction xs) auto

lemma set_sort_by [simp]: "set (sort_by le xs) = set xs"
  by (induction xs) (auto simp: sort_by_def)

lemma insert_by_sorted:
  assumes "sorted_wrt first xs" "comparable (insert x (set xs))" "x \<notin> set xs"
  shows "sorted_wrt first (insert_by (\<lambda>r s. \<not> first s r) x xs)"
  using assms
proof (induction xs)
  case (Cons y ys)
  show ?case
  proof (cases "first y x")
    case True
    have "comparable (insert x (set ys))" using Cons.prems(2) by (rule comparable_subset) auto
    then have "sorted_wrt first (insert_by (\<lambda>r s. \<not> first s r) x ys)" using Cons.IH Cons.prems by simp
    with Cons.prems(1) True show ?thesis by simp
  next
    case False
    moreover have "x \<noteq> y" using Cons.prems(3) by auto
    ultimately have xy: "first x y" using Cons.prems(2) unfolding comparable_def by simp
    then have "first x z" if "z \<in> set ys" for z using that Cons.prems(1) trans by fastforce
    with xy False Cons.prems(1) show ?thesis by simp
  qed
qed simp

lemma sort_by_sorted: "comparable (set xs) \<Longrightarrow> distinct xs \<Longrightarrow> sorted_wrt first (sort_by (\<lambda>r s. \<not> first s r) xs)"
proof (induction xs)
  case (Cons x xs)
  have "comparable (set xs)" using Cons.prems(1) unfolding comparable_def by simp
  with Cons have "sorted_wrt first (sort_by (\<lambda>r s. \<not> first s r) xs)" by simp
  with Cons.prems show ?case unfolding sort_by_def
    by simp (rule insert_by_sorted; simp add: sort_by_def [symmetric])
qed (simp add: sort_by_def)

lemma sorted_unique: "sorted_wrt first xs \<Longrightarrow> sorted_wrt first ys \<Longrightarrow> set xs = set ys \<Longrightarrow> xs = ys"
proof (induction xs arbitrary: ys)
  case (Cons x xs)
  then obtain y ys' where ys: "ys = y # ys'" by (cases ys) auto
  have "x = y"
  proof (rule ccontr)
    assume "x \<noteq> y"
    then have "first x y" "first y x" using Cons.prems ys by auto
    with trans irrefl show False by blast
  qed
  moreover have "x \<notin> set xs" "y \<notin> set ys'" using Cons.prems ys irrefl by auto
  ultimately have "set xs = set ys'" using Cons.prems(3) ys by auto
  with Cons ys \<open>x = y\<close> show ?case by simp
qed simp

lemma sorted_distinct: "sorted_wrt first xs \<Longrightarrow> distinct xs"
  using irrefl by (induction xs) auto

lemma sort_filter:
  assumes "comparable (set xs)" "distinct xs"
  shows "sort_by (\<lambda>r s. \<not> first s r) (filter P xs) = filter P (sort_by (\<lambda>r s. \<not> first s r) xs)"
proof (rule sorted_unique)
  have "comparable (set (filter P xs))" using assms(1) unfolding comparable_def by auto
  then show "sorted_wrt first (sort_by (\<lambda>r s. \<not> first s r) (filter P xs))" using assms(2) by (simp add: sort_by_sorted)
  show "sorted_wrt first (filter P (sort_by (\<lambda>r s. \<not> first s r) xs))"
    using sort_by_sorted [OF assms] by (rule sorted_wrt_filter)
qed simp

lemma after_row: "sorted_wrt first (as @ x # bs) \<Longrightarrow> filter (first x) (as @ x # bs) = bs"
proof -
  assume s: "sorted_wrt first (as @ x # bs)"
  then have "\<not> first x a" if "a \<in> set as" for a
    using that trans [of x a x] irrefl [of x] by (auto simp: sorted_wrt_append)
  moreover have "first x b" if "b \<in> set bs" for b using s that by (auto simp: sorted_wrt_append)
  ultimately show ?thesis using irrefl [of x] by (simp add: filter_empty_conv filter_id_conv)
qed

end

text \<open>The two orders of pages that use cursors.\<close>

definition comes_first :: "bool \<Rightarrow> log_row \<Rightarrow> log_row \<Rightarrow> bool" where
  "comes_first asc r s = (if asc then before (row_key r) (row_key s) else before (row_key s) (row_key r))"

interpretation pages: strict_order "comes_first asc" for asc
  by unfold_locales (auto simp: comes_first_def before_def split: if_splits)

lemma row_order_pages:
  assumes "cursorSupported srt"
  shows "row_order pg srt = (\<lambda>r s. \<not> comes_first (srt = ''timestamp_asc'') s r)"
  using assms by (auto simp: row_order_def cursorSupported_def comes_first_def newest_first_def oldest_first_def fun_eq_iff)

section \<open>One page\<close>

text \<open>The rows a request with a cursor still has to return, and a request for the page after a row.\<close>

definition matching :: "pg_ops \<Rightarrow> LogQueryRequest \<Rightarrow> logstate \<Rightarrow> log_row list" where
  "matching pg req d = sort_by (row_order pg (lq_Sort (query_defaults True req)))
     (filter (filter_matches pg (request_filters req)) (syslog_logs d))"

definition page_limit :: "LogQueryRequest \<Rightarrow> int" where
  "page_limit req = (let l = lq_Limit (query_defaults True req) in if l > MaxLogLimit then MaxLogLimit else l)"

lemma query_defaults_simps [simp]:
  "request_filters (query_defaults True req) = request_filters req" "lq_Cursor (query_defaults True req) = lq_Cursor req"
  "cursorSupported (lq_Sort (query_defaults True req)) = cursorSupported (lq_Sort req)"
  by (auto simp: query_defaults_def request_filters_def cursorSupported_def Let_def)

lemma build_obtain:
  obtains cs args where "buildLogWhereClauses q = (cs, args, length args + 1)" "where_wf (cs, args, length args + 1)"
    and "\<And>pg r. list_all (clause_holds pg args r) cs \<longleftrightarrow> filter_matches pg q r"
proof -
  obtain cs args idx where b: "buildLogWhereClauses q = (cs, args, idx)" by (metis prod.exhaust)
  then have "where_wf (cs, args, idx)" "\<And>pg r. list_all (clause_holds pg args r) cs \<longleftrightarrow> filter_matches pg q r"
    using buildLogWhereClauses_spec [of q] by (auto simp: selects_def)
  moreover from this have "idx = length args + 1" by (simp add: where_wf_def)
  ultimately show ?thesis using that b by simp
qed

lemma first_page:
  assumes "cursorSupported (lq_Sort req)" "lq_Cursor req = []" "0 \<le> page_limit req"
  shows "GetLogs pg lenient True req (d, []) = (Inr (cut_page (lq_Sort (query_defaults True req)) (page_limit req)
      (map (\<lambda>r. (r, display_name d r)) (take (nat (page_limit req + 1)) (matching pg req d)))), d, [])"
proof -
  obtain cs args where b: "buildLogWhereClauses (request_filters req) = (cs, args, length args + 1)"
    "\<And>pg r. list_all (clause_holds pg args r) cs \<longleftrightarrow> filter_matches pg (request_filters req) r"
    using build_obtain by metis
  have "where_rows pg cs args = filter (filter_matches pg (request_filters req))"
    using b(2) by (auto simp: where_rows_def fun_eq_iff)
  then show ?thesis
    using assms b(1) by (simp add: GetLogs_def Let_def select_logs_def attempt_def matching_def page_limit_def)
qed

lemma GetLogs_with_cursor:
  assumes "query_defaults True req = r" "buildLogWhereClauses (request_filters r) = (cs, args, idx)" "cursorSupported (lq_Sort r)"
    and "lq_Cursor r \<noteq> []" "decodeLogCursor lenient (lq_Cursor r) = Some (ts, i)" "page_limit req = l" "0 \<le> l"
  shows "GetLogs pg lenient True req (d, []) = (Inr (cut_page (lq_Sort r) l (map (\<lambda>r. (r, display_name d r))
      (take (nat (l + 1)) (sort_by (row_order pg (lq_Sort r))
        (where_rows pg (cs @ [BeyondCursor (lq_Sort r = ''timestamp_asc'') idx (idx + 1)]) (args @ [ATime ts, AInt i]) (syslog_logs d)))))), d, [])"
proof -
  have "l = (if lq_Limit r > MaxLogLimit then MaxLogLimit else lq_Limit r)"
    using assms(1,6) by (simp add: page_limit_def Let_def)
  then show ?thesis
    using assms(2-5,7) by (simp add: GetLogs_def Let_def assms(1) select_logs_def attempt_def)
qed

lemma next_page:
  assumes "cursorSupported (lq_Sort req)" "0 \<le> page_limit req" "is_int64 (lr_id x)" "0 \<le> year_of (lr_timestamp x)" "year_of (lr_timestamp x) \<le> 9999"
    and "pages.comparable asc (set (syslog_logs d))" "distinct (syslog_logs d)" "asc = (lq_Sort req = ''timestamp_asc'')"
  shows "GetLogs pg lenient True (req\<lparr>lq_Cursor := encodeLogCursor (lr_timestamp x) (lr_id x)\<rparr>) (d, []) =
    (Inr (cut_page (lq_Sort (query_defaults True req)) (page_limit req)
      (map (\<lambda>r. (r, display_name d r)) (take (nat (page_limit req + 1)) (filter (comes_first asc x) (matching pg req d))))), d, [])"
proof -
  let ?req = "req\<lparr>lq_Cursor := encodeLogCursor (lr_timestamp x) (lr_id x)\<rparr>"
  obtain cs args where b: "buildLogWhereClauses (request_filters req) = (cs, args, length args + 1)" "where_wf (cs, args, length args + 1)"
    "\<And>pg r. list_all (clause_holds pg args r) cs \<longleftrightarrow> filter_matches pg (request_filters req) r"
    using build_obtain by metis
  have same: "request_filters ?req = request_filters req" "query_defaults True ?req = (query_defaults True req)\<lparr>lq_Cursor := lq_Cursor ?req\<rparr>"
    by (simp_all add: request_filters_def query_defaults_def Let_def)
  have asc: "(lq_Sort (query_defaults True req) = ''timestamp_asc'') = asc"
    using assms(8) by (simp add: query_defaults_def Let_def)
  let ?c = "BeyondCursor asc (length args + 1) (length args + 1 + 1)" and ?args = "args @ [ATime (lr_timestamp x), AInt (lr_id x)]"
  have "clause_holds pg ?args r ?c \<longleftrightarrow> comes_first asc x r" for r
    by (simp add: arg_at_def nth_append comes_first_def row_key_def)
  then have rows: "where_rows pg (cs @ [?c]) ?args rows = filter (comes_first asc x) (filter (filter_matches pg (request_filters req)) rows)" for rows
    using b(3) selects_append [OF b(2)] by (auto simp: where_rows_def conj_commute simp del: clause_holds.simps intro!: filter_cong)
  have order: "sort_by (row_order pg (lq_Sort (query_defaults True req))) (filter (comes_first asc x) (filter P (syslog_logs d))) =
      filter (comes_first asc x) (sort_by (row_order pg (lq_Sort (query_defaults True req))) (filter P (syslog_logs d)))" for P
    using assms(1,6,7) pages.sort_filter [of asc "filter P (syslog_logs d)"] asc
    by (simp add: row_order_pages pages.comparable_def)
  have "page_limit ?req = page_limit req" by (simp add: page_limit_def same(2) Let_def)
  moreover have "request_filters ((query_defaults True req)\<lparr>lq_Cursor := lq_Cursor ?req\<rparr>) = request_filters req"
    by (metis query_defaults_simps(1) same)
  ultimately have "GetLogs pg lenient True ?req (d, []) = (Inr (cut_page (lq_Sort (query_defaults True req)) (page_limit req)
      (map (\<lambda>r. (r, display_name d r)) (take (nat (page_limit req + 1)) (sort_by (row_order pg (lq_Sort (query_defaults True req)))
        (where_rows pg (cs @ [?c]) ?args (syslog_logs d)))))), d, [])"
    using GetLogs_with_cursor [OF same(2), of cs args "length args + 1" lenient "lr_timestamp x" "lr_id x" "page_limit req" pg d]
      assms(1,2) b(1) asc cursor_round_trip [OF assms(4,5,3)] encode_nonempty by simp
  then show ?thesis unfolding rows order matching_def .
qed

section \<open>Following the cursor\<close>

text \<open>A client that asks for the first page and then, while there are more, for the page at the cursor it got.\<close>

fun walk :: "nat \<Rightarrow> pg_ops \<Rightarrow> (string \<Rightarrow> time option) \<Rightarrow> LogQueryRequest \<Rightarrow> logstate \<Rightarrow> log_row list option" where
  "walk 0 pg lenient req d = None"
| "walk (Suc n) pg lenient req d =
     (case GetLogs pg lenient True req (d, []) of
        (Inr (Answer code page), d', fs) \<Rightarrow>
          (if pg_has_more page
           then map_option (append (map fst (pg_logs page))) (walk n pg lenient (req\<lparr>lq_Cursor := pg_next_cursor page\<rparr>) d')
           else Some (map fst (pg_logs page)))
      | _ \<Rightarrow> None)"

lemma cut_page_rows:
  assumes "1 \<le> l" "cursorSupported srt"
  shows "cut_page srt l (map (\<lambda>r. (r, f r)) (take (nat (l + 1)) rs)) =
    Answer 200 (if int (length rs) > l
      then \<lparr>pg_logs = map (\<lambda>r. (r, f r)) (take (nat l) rs), pg_has_more = True,
        pg_next_cursor = encodeLogCursor (lr_timestamp (rs ! (nat l - 1))) (lr_id (rs ! (nat l - 1))), pg_limit = l\<rparr>
      else \<lparr>pg_logs = map (\<lambda>r. (r, f r)) rs, pg_has_more = False, pg_next_cursor = [], pg_limit = l\<rparr>)"
proof -
  have last: "last (map g (take (nat l) rs)) = g (rs ! (nat l - 1))" "take (nat l) rs \<noteq> []" if "l < int (length rs)" for g :: "log_row \<Rightarrow> log_row \<times> string"
  proof -
    show "take (nat l) rs \<noteq> []" using that assms(1) by auto
    then show "last (map g (take (nat l) rs)) = g (rs ! (nat l - 1))"
      using that assms(1) by (simp add: last_map last_conv_nth min_def)
  qed
  have "min (nat l) (nat (l + 1)) = nat l" using assms(1) by simp
  with last assms show ?thesis by (auto simp: cut_page_def Let_def take_map)
qed

lemma split_at_row: "0 < k \<Longrightarrow> k < length rs \<Longrightarrow> rs = take (k - 1) rs @ rs ! (k - 1) # drop k rs"
  using id_take_nth_drop [of "k - 1" rs] by simp

text \<open>A table whose rows have different keys, each of which a cursor can carry.\<close>

definition pageable :: "logstate \<Rightarrow> bool" where
  "pageable d \<longleftrightarrow> distinct (map row_key (syslog_logs d)) \<and>
     list_all (\<lambda>r. is_int64 (lr_id r) \<and> 0 \<le> year_of (lr_timestamp r) \<and> year_of (lr_timestamp r) \<le> 9999) (syslog_logs d)"

lemma pageable_rows:
  assumes "pageable d"
  shows "distinct (syslog_logs d)" "pages.comparable asc (set (syslog_logs d))"
    and "\<And>r. r \<in> set (syslog_logs d) \<Longrightarrow> is_int64 (lr_id r) \<and> 0 \<le> year_of (lr_timestamp r) \<and> year_of (lr_timestamp r) \<le> 9999"
proof -
  show "distinct (syslog_logs d)" using assms by (simp add: pageable_def distinct_map)
  have "inj_on row_key (set (syslog_logs d))" using assms by (simp add: pageable_def distinct_map)
  then show "pages.comparable asc (set (syslog_logs d))"
    unfolding pages.comparable_def comes_first_def before_def inj_on_def by (metis linorder_neqE prod_eqI)
qed (use assms in \<open>auto simp: pageable_def list_all_iff\<close>)

lemma matching_sorted:
  assumes "cursorSupported (lq_Sort req)" "pageable d"
  shows "sorted_wrt (comes_first (lq_Sort req = ''timestamp_asc'')) (matching pg req d)"
proof -
  have srt: "lq_Sort (query_defaults True req) = ''timestamp_asc'' \<longleftrightarrow> lq_Sort req = ''timestamp_asc''"
    by (simp add: query_defaults_def Let_def)
  have sup: "cursorSupported (lq_Sort (query_defaults True req))" using assms(1) by simp
  show ?thesis
    unfolding matching_def row_order_pages [OF sup] srt
    by (rule pages.sort_by_sorted)
      (use pageable_rows [OF assms(2)] in \<open>auto intro: pages.comparable_subset\<close>)
qed

lemma walk_rest:
  assumes "cursorSupported (lq_Sort req)" "1 \<le> page_limit req" "pageable d"
  shows "matching pg req d = as @ x # bs \<Longrightarrow> length bs < n \<Longrightarrow>
    walk n pg lenient (req\<lparr>lq_Cursor := encodeLogCursor (lr_timestamp x) (lr_id x)\<rparr>) d = Some bs"
proof (induction n arbitrary: as x bs)
  case (Suc n)
  define asc where "asc = (lq_Sort req = ''timestamp_asc'')"
  define l where "l = page_limit req"
  note matching_sorted [OF assms(1,3), of pg, folded asc_def]
  with Suc.prems(1) have rest: "filter (comes_first asc x) (matching pg req d) = bs" by (simp only: pages.after_row)
  have "x \<in> set (matching pg req d)" using Suc.prems(1) by simp
  then have "x \<in> set (syslog_logs d)" by (simp add: matching_def)
  with next_page [of req x asc d pg lenient] assms rest pageable_rows [OF assms(3)]
  have page: "GetLogs pg lenient True (req\<lparr>lq_Cursor := encodeLogCursor (lr_timestamp x) (lr_id x)\<rparr>) (d, []) =
      (Inr (cut_page (lq_Sort (query_defaults True req)) l (map (\<lambda>r. (r, display_name d r)) (take (nat (l + 1)) bs))), d, [])"
    by (simp add: asc_def l_def)
  show ?case
  proof (cases "int (length bs) > l")
    case True
    then have split: "bs = take (nat l - 1) bs @ bs ! (nat l - 1) # drop (nat l) bs"
      using assms(2) split_at_row [of "nat l" bs] by (simp add: l_def)
    have "walk n pg lenient (req\<lparr>lq_Cursor := encodeLogCursor (lr_timestamp (bs ! (nat l - 1))) (lr_id (bs ! (nat l - 1)))\<rparr>) d = Some (drop (nat l) bs)"
    proof (rule Suc.IH)
      show "matching pg req d = (as @ x # take (nat l - 1) bs) @ bs ! (nat l - 1) # drop (nat l) bs"
        using Suc.prems(1) split by simp
    qed (use Suc.prems(2) assms(2) True in \<open>simp add: l_def\<close>)
    with True page cut_page_rows [of l "lq_Sort (query_defaults True req)" "display_name d" bs] assms(1,2) show ?thesis
      by (simp add: l_def comp_def)
  next
    case False
    with page cut_page_rows [of l "lq_Sort (query_defaults True req)" "display_name d" bs] assms(1,2) show ?thesis
      by (simp add: l_def comp_def)
  qed
qed simp

lemma walk_all:
  assumes "cursorSupported (lq_Sort req)" "lq_Cursor req = []" "1 \<le> page_limit req" "pageable d" "length (matching pg req d) < n"
  shows "walk n pg lenient req d = Some (matching pg req d)"
proof (cases n)
  case (Suc m)
  define l where "l = page_limit req"
  let ?rs = "matching pg req d"
  have page: "GetLogs pg lenient True req (d, []) =
      (Inr (cut_page (lq_Sort (query_defaults True req)) l (map (\<lambda>r. (r, display_name d r)) (take (nat (l + 1)) ?rs))), d, [])"
    using first_page assms by (simp add: l_def)
  note cut = cut_page_rows [of l "lq_Sort (query_defaults True req)" "display_name d" ?rs]
  show ?thesis
  proof (cases "int (length ?rs) > l")
    case True
    then have "?rs = take (nat l - 1) ?rs @ ?rs ! (nat l - 1) # drop (nat l) ?rs"
      using assms(3) split_at_row [of "nat l" ?rs] by (simp add: l_def)
    then have "walk m pg lenient (req\<lparr>lq_Cursor := encodeLogCursor (lr_timestamp (?rs ! (nat l - 1))) (lr_id (?rs ! (nat l - 1)))\<rparr>) d = Some (drop (nat l) ?rs)"
      using walk_rest [OF assms(1,3,4)] assms(3,5) Suc True by (simp add: l_def)
    with True page cut assms(1,3) show ?thesis by (simp add: Suc l_def comp_def)
  next
    case False
    with page cut assms(1,3) show ?thesis by (simp add: Suc l_def comp_def)
  qed
qed (use assms in simp)

lemma page_limit_bounds: "0 \<le> lq_Limit req \<Longrightarrow> 1 \<le> page_limit req"
  by (simp add: page_limit_def query_defaults_def Let_def MaxLogLimit_def)

lemma matching_le: "length (matching pg req d) \<le> length (syslog_logs d)"
proof -
  have ins: "length (insert_by le x xs) = Suc (length xs)" for le and x :: log_row and xs by (induction xs) auto
  have "length (sort_by le xs) = length xs" for le and xs :: "log_row list"
    unfolding sort_by_def by (induction xs) (simp_all add: ins)
  then show ?thesis by (simp add: matching_def)
qed

text \<open>
  The pages of a query (C19): on a table whose rows have different (timestamp, id) pairs that a cursor can carry, a
  client that starts without a cursor and follows \<^verbatim>\<open>next_cursor\<close>, with any limit that is not negative and
  in either timestamp order, comes to the last page within as many requests as there are rows, plus one. It has
  then received the rows that satisfy its filters and no others, each once, in the order it asked for.
\<close>
theorem paging_visits_every_row:
  assumes "cursorSupported (lq_Sort req)" "lq_Cursor req = []" "0 \<le> lq_Limit req" "pageable d"
  shows "\<exists>rows. walk (Suc (length (syslog_logs d))) pg lenient req d = Some rows \<and> distinct rows \<and>
      set rows = {r \<in> set (syslog_logs d). filter_matches pg (request_filters req) r} \<and>
      sorted_wrt (comes_first (lq_Sort req = ''timestamp_asc'')) rows"
proof (intro exI conjI)
  show "walk (Suc (length (syslog_logs d))) pg lenient req d = Some (matching pg req d)"
    by (rule walk_all) (use assms page_limit_bounds matching_le in \<open>auto simp: less_Suc_eq_le\<close>)
  show "sorted_wrt (comes_first (lq_Sort req = ''timestamp_asc'')) (matching pg req d)"
    using assms by (simp add: matching_sorted)
  then show "distinct (matching pg req d)" by (rule pages.sorted_distinct)
qed (auto simp: matching_def)

definition sample_pg :: pg_ops where
  "sample_pg = \<lparr>pg_ilike = (\<lambda>_ _. False), pg_less = (\<lambda>_ _. False), pg_regex = (\<lambda>_ _. False), pg_search = (\<lambda>_ _. False), pg_time = (\<lambda>_. 0)\<rparr>"

definition sample_row :: "int \<Rightarrow> time \<Rightarrow> string \<Rightarrow> string \<Rightarrow> log_row" where
  "sample_row i t host sev = \<lparr>lr_id = i, lr_timestamp = t, lr_hostname = host, lr_fromhost_ip = None, lr_app_name = None, lr_process_id = None,
     lr_msg_id = None, lr_severity = sev, lr_facility = None, lr_message = [], lr_raw_message = None, lr_parsed_fields = None, lr_matched_parsers = None\<rparr>"

definition sample_logs :: logstate where
  "sample_logs = \<lparr>syslog_logs = [sample_row 1 5 ''a'' ''err'', sample_row 2 5 ''b'' ''err'', sample_row 3 4 ''b'' ''info'', sample_row 4 9 ''b'' ''err''],
     device_aliases = Map.empty, estimated_rows = 4, filteredCountCache = []\<rparr>"

definition sample_query :: LogQueryRequest where
  "sample_query = \<lparr>lq_Limit = 1, lq_Offset = 0, lq_Cursor = [], lq_Hostname = [], lq_FromHostIP = [], lq_Severity = ''err'', lq_AppName = [],
     lq_Search = [], lq_From = [], lq_To = [], lq_Sort = []\<rparr>"

text \<open>The first day of the epoch is in a year that four digits hold.\<close>

lemma year_of_epoch:
  assumes "0 \<le> t" "t < 86400 * Second"
  shows "0 \<le> year_of t \<and> year_of t \<le> 9999"
proof -
  obtain y doy where yl: "year_loop 0 135140 = (y, doy)" by fastforce
  then have "y < 400" by (rule year_in_cycle) simp
  moreover have "t div Second div 86400 = 0" using assms by (simp add: Second_def)
  ultimately show ?thesis using yl by (simp add: year_of_def date_of_def epoch_day_def case_prod_beta)
qed

lemma sample_pageable: "pageable sample_logs"
proof -
  have "0 \<le> year_of t \<and> year_of t \<le> 9999" if "t = 4 \<or> t = 5 \<or> t = 9" for t
    using that by (intro year_of_epoch) (auto simp: Second_def)
  then show ?thesis by (simp add: pageable_def sample_logs_def sample_row_def row_key_def is_int64_def)
qed

theorem paging_visits_every_row_witness:
  "\<exists>rows. walk 5 sample_pg (\<lambda>_. None) sample_query sample_logs = Some rows \<and> distinct rows \<and>
     set rows = {r \<in> set (syslog_logs sample_logs). filter_matches sample_pg (request_filters sample_query) r} \<and>
     sorted_wrt (comes_first False) rows"
proof -
  have len: "Suc (length (syslog_logs sample_logs)) = 5" by (simp add: sample_logs_def)
  show ?thesis
    using paging_visits_every_row [of sample_query sample_logs sample_pg "\<lambda>_. None", OF _ _ _ sample_pageable]
    unfolding len by (simp add: sample_query_def cursorSupported_def del: walk.simps)
qed

end
