(* ===== verification/LogTheorems.thy ===== *)
theory LogTheorems
  imports LogPaging
begin

text \<open>
  The counts and the CSV export: when a count is exact and when it is another request's, what a CSV export
  returns, and that no cell of it starts a spreadsheet formula.
\<close>

section \<open>Counts\<close>

definition count_key :: "LogQueryRequest \<Rightarrow> string" where
  "count_key q = (case buildLogWhereClauses (request_filters q) of (cs, args, idx) \<Rightarrow> ''logs:'' @ buildWhereSQL cs @ sprint_args args)"

definition filtered :: "LogQueryRequest \<Rightarrow> bool" where
  "filtered q \<longleftrightarrow> fst (buildLogWhereClauses (request_filters q)) \<noteq> []"

definition exact_count :: "pg_ops \<Rightarrow> LogQueryRequest \<Rightarrow> logstate \<Rightarrow> int" where
  "exact_count pg q d = int (length (filter (filter_matches pg (request_filters q)) (syslog_logs d)))"

lemma GetLogsCount_hit:
  assumes "filtered q" "cache_get (count_key q) now d = Some n"
  shows "GetLogsCount pg now q (d, []) = (Inr (Answer 200 n), d, [])"
  using assms by (auto simp: GetLogsCount_def filtered_def count_key_def buildWhereSQL_def cachedFilteredCount_def
      bind_def local_def attempt_def ret_def split: prod.splits)

lemma GetLogsCount_miss:
  assumes "filtered q" "cache_get (count_key q) now d = None"
  shows "GetLogsCount pg now q (d, []) = (Inr (Answer 200 (exact_count pg q d)), cache_put (count_key q) (exact_count pg q d) now d, [])"
proof -
  obtain cs args where b: "buildLogWhereClauses (request_filters q) = (cs, args, length args + 1)"
    "\<And>pg r. list_all (clause_holds pg args r) cs \<longleftrightarrow> filter_matches pg (request_filters q) r"
    using build_obtain by metis
  then have "where_rows pg cs args = filter (filter_matches pg (request_filters q))" by (auto simp: where_rows_def fun_eq_iff)
  with b(1) assms show ?thesis
    by (simp add: GetLogsCount_def filtered_def count_key_def buildWhereSQL_def cachedFilteredCount_def count_logs_def
        bind_def local_def attempt_def ret_def query_def exact_count_def)
qed

lemma cache_get_put: "cache_get k t (cache_put k n t0 d) = (if t - t0 < filteredCountTTL then Some n else None)"
  by (simp add: cache_get_def cache_put_def Let_def update_conv)

text \<open>
  A count of the wrong filters: the cache key is the text of the query followed by its arguments with nothing
  between them. So after a count that was not cached, another request whose filters are of the same
  kind and whose values, run together, read the same is answered within fifteen seconds with the first request's count,
  whatever its own filters select.
\<close>
theorem count_served_for_other_filters:
  assumes "filtered q1" "filtered q2" "count_key q1 = count_key q2" "cache_get (count_key q1) t1 d = None" "t2 - t1 < filteredCountTTL"
  shows "fst (GetLogsCount pg t2 q2 (snd (GetLogsCount pg t1 q1 (d, [])))) = Inr (Answer 200 (exact_count pg q1 d))"
  using assms GetLogsCount_miss [of q1 t1 d pg] by (simp add: cache_get_put GetLogsCount_hit)

definition host_query :: "string \<Rightarrow> string \<Rightarrow> LogQueryRequest" where
  "host_query host sev = sample_query\<lparr>lq_Hostname := host, lq_Severity := sev\<rparr>"

theorem count_served_for_other_filters_witness:
  "count_key (host_query ''b'' ''err'') = count_key (host_query ''be'' ''rr'') \<and>
   exact_count sample_pg (host_query ''be'' ''rr'') sample_logs = 0 \<and>
   fst (GetLogsCount sample_pg 1 (host_query ''be'' ''rr'') (snd (GetLogsCount sample_pg 0 (host_query ''b'' ''err'') (sample_logs, [])))) =
     Inr (Answer 200 2)"
proof -
  have key: "count_key (host_query ''b'' ''err'') = count_key (host_query ''be'' ''rr'')" by code_simp
  have f: "filtered (host_query ''b'' ''err'')" "filtered (host_query ''be'' ''rr'')" by code_simp+
  have n: "exact_count sample_pg (host_query ''b'' ''err'') sample_logs = 2" "exact_count sample_pg (host_query ''be'' ''rr'') sample_logs = 0"
    by (simp_all add: exact_count_def sample_logs_def sample_row_def filter_matches_def request_filters_def host_query_def sample_query_def from_ip_def)
  have c: "cache_get (count_key (host_query ''b'' ''err'')) 0 sample_logs = None" by (simp add: cache_get_def sample_logs_def)
  show ?thesis using count_served_for_other_filters [OF f key c, of 1 sample_pg] key n by (simp add: filteredCountTTL_def)
qed

section \<open>CSV\<close>

text \<open>
  The CSV export reads the request's body twice: the first reading, for the limit, empties it, so the filters and the
  time zone of the request are lost. Whatever it asks for, the export has the newest rows of the whole table, in UTC.
\<close>
theorem csv_export_ignores_filters:
  assumes "\<And>t. clock ''UTC'' t = Some (utc t)"
  shows "ExportCSV pg clock (Some req) (d, []) =
    (let newest = sort_by (\<lambda>r s. lr_timestamp s \<le> lr_timestamp r) (syslog_logs d); n = csv_limit (er_Limit req) in
     (Inr (Answer 200 ([''# Export: Logs''] # [''timestamp'', ''hostname'', ''app_name'', ''severity'', ''message''] #
        map (\<lambda>r. csv_row [] (utc (lr_timestamp r), r)) (if n > 0 then take (nat n) newest else newest))), d, []))"
proof -
  obtain opts where opts: "exportFilterOptionsFromBody None = (opts, None)" "buildLogWhereClauses opts = ([], [], 1)"
    by (simp add: exportFilterOptionsFromBody_def ShouldBindJSON_def noExportFilter_def buildLogWhereClauses_def where_steps_def
        when_given_def add_fromhost_def)
  have "queryExportRows pg clock None [] [] n (d, []) = (Inr (map (\<lambda>r. (utc (lr_timestamp r), r))
      (let newest = sort_by (\<lambda>r s. lr_timestamp s \<le> lr_timestamp r) (syslog_logs d) in if n > 0 then take (nat n) newest else newest)), d, [])" for n
    using assms by (simp add: queryExportRows_def ShouldBindJSON_def noExportFilter_def attempt_def query_def ret_def Let_def where_rows_def list_all_iff)
  then show ?thesis
    by (simp add: ExportCSV_def ShouldBindJSON_def opts writeCSVExport_def attempt_def ret_def Let_def comp_def)
qed

theorem csv_export_ignores_filters_witness:
  "ExportCSV sample_pg (\<lambda>_ _. Some ''12:00'') (Some (noExportFilter\<lparr>er_Severity := ''info'', er_Limit := ''2''\<rparr>)) (sample_logs, []) =
    (Inr (Answer 200 [[''# Export: Logs''], [''timestamp'', ''hostname'', ''app_name'', ''severity'', ''message''],
       [''12:00'', ''b'', [], ''err'', []], [''12:00'', ''a'', [], ''err'', []]]), sample_logs, [])"
proof -
  have two: "csv_limit ''2'' = 2" by code_simp
  show ?thesis
    using csv_export_ignores_filters [of "\<lambda>_ _. Some ''12:00''" "\<lambda>_. ''12:00''" sample_pg "noExportFilter\<lparr>er_Severity := ''info'', er_Limit := ''2''\<rparr>" sample_logs]
    by (simp add: two sort_by_def sample_logs_def sample_row_def csv_row_def csvSafe_def numeral_2_eq_2)
qed

definition starts_formula :: "string \<Rightarrow> bool" where
  "starts_formula s \<longleftrightarrow> (case s of [] \<Rightarrow> False | c # cs \<Rightarrow> c \<in> set ''=+-@'' \<or> c = CHR 0x09 \<or> c = CHR 0x0D)"

lemma csvSafe_safe: "\<not> starts_formula (csvSafe s)"
  by (cases s) (auto simp: csvSafe_def starts_formula_def quote_def)

lemma csv_row_safe: "c \<in> set (tl (csv_row flds p)) \<Longrightarrow> \<not> starts_formula c"
  by (cases p) (auto simp: csv_row_def csvSafe_safe)

text \<open>
  No formula in a CSV export (C22): whatever the logs hold, whichever filters, limit and columns are asked for and whether
  or not queries fail, no cell that carries a row's content starts with a character a spreadsheet takes for a formula.
\<close>
theorem csv_cells_are_no_formulas:
  assumes "writeCSVExport pg clock b cs args limit flds label (d, fs) = (Inr (Answer code lines), s')"
    and "line \<in> set (drop 2 lines)" "cell \<in> set (tl line)"
  shows "\<not> starts_formula cell"
proof -
  obtain rows where "lines = [''# Export: '' @ label] # ([''timestamp'', ''hostname'', ''app_name'', ''severity'', ''message''] @ flds) # map (csv_row flds) rows"
    using assms(1) by (auto simp: writeCSVExport_def attempt_def ret_def split: prod.splits sum.splits)
  with assms(2,3) show ?thesis using csv_row_safe by auto
qed

definition formula_logs :: logstate where
  "formula_logs = sample_logs\<lparr>syslog_logs := [sample_row 1 5 ''=A1'' ''err'']\<rparr>"

theorem csv_cells_are_no_formulas_witness:
  "fst (writeCSVExport sample_pg (\<lambda>_ _. Some ''12:00'') None [] [] 1 [] ''Logs'' (formula_logs, [])) =
     Inr (Answer 200 [[''# Export: Logs''], [''timestamp'', ''hostname'', ''app_name'', ''severity'', ''message''],
       [''12:00'', quote # ''=A1'', [], ''err'', []]]) \<and> \<not> starts_formula (quote # ''=A1'')"
proof -
  have out: "writeCSVExport sample_pg (\<lambda>_ _. Some ''12:00'') None [] [] 1 [] ''Logs'' (formula_logs, []) =
     (Inr (Answer 200 [[''# Export: Logs''], [''timestamp'', ''hostname'', ''app_name'', ''severity'', ''message''],
       [''12:00'', quote # ''=A1'', [], ''err'', []]]), formula_logs, [])"
    by (simp add: writeCSVExport_def queryExportRows_def ShouldBindJSON_def noExportFilter_def attempt_def query_def ret_def Let_def
        where_rows_def sort_by_def formula_logs_def sample_logs_def sample_row_def csv_row_def csvSafe_def)
  show ?thesis using csv_cells_are_no_formulas [OF out, of "[''12:00'', quote # ''=A1'', [], ''err'', []]" "quote # ''=A1''"] out by simp
qed

end
