(* ===== verification/ParserEngine.thy ===== *)
theory ParserEngine
  imports Regex Sql LogHandlers
begin

text \<open>
  The parser engine, \<^verbatim>\<open>parser/engine.go\<close>: which parsers match a log line, what they extract, the cache of
  compiled patterns, and the queries on the parser tables. A Go map with string keys is an association
  list with distinct keys.
\<close>

section \<open>Data\<close>

record ParsedField =
  pf_ID :: int
  pf_ParserID :: int
  pf_ParserName :: string
  pf_Name :: string
  pf_Label :: string
  pf_Type :: string

record Parser =
  pa_ID :: int
  pa_Name :: string
  pa_Description :: "string option"
  pa_DeviceType :: string
  pa_MatchType :: string
  pa_MatchValue :: "string option"
  pa_Regex :: string
  pa_Enabled :: bool
  pa_IsBuiltin :: bool
  pa_CreatedAt :: time
  pa_UpdatedAt :: time
  pa_Fields :: "ParsedField list"

type_synonym compiled = "string \<Rightarrow> string list option"
type_synonym re_cache = "string \<rightharpoonup> compiled"

text \<open>
  The tables (a row of \<^verbatim>\<open>parsers\<close> has no fields, a row of \<^verbatim>\<open>parsed_fields_registry\<close> no parser name), the
  log rows, and the engine: its parsers, a pending reload, the cache.
\<close>

record parsedb =
  db_parsers :: "Parser list"
  db_registry :: "ParsedField list"
  db_next :: int
  db_logs :: "log_row list"
  en_parsers :: "Parser list"
  en_reload :: bool
  en_cache :: re_cache

section \<open>Patterns\<close>

text \<open>
  \<^verbatim>\<open>regexp.Compile\<close>: the fragment of \<open>Regex\<close> is compiled there (it has no groups and matches the whole text),
  any other pattern by the parameter.
\<close>

definition Compile :: "regexp \<Rightarrow> string \<Rightarrow> compiled option" where
  "Compile rx s =
     (case re_compile s of
        Some (is, items) \<Rightarrow> Some (\<lambda>v. if re_run is items v then Some [v] else None)
      | None \<Rightarrow> rx s)"

definition compileCached :: "regexp \<Rightarrow> string \<Rightarrow> re_cache \<Rightarrow> compiled option \<times> re_cache" where
  "compileCached rx pattern cache =
     (case cache pattern of
        Some re \<Rightarrow> (Some re, cache)
      | None \<Rightarrow> (case Compile rx pattern of None \<Rightarrow> (None, cache) | Some re \<Rightarrow> (Some re, cache(pattern \<mapsto> re))))"

definition glob_metas :: string where
  "glob_metas = bslash # ''.+()[]{}^$|''"

definition glob_char :: "char \<Rightarrow> string" where
  "glob_char r =
     (if r = CHR ''*'' then ''.*'' else if r = CHR ''?'' then ''.''
      else if r \<in> set glob_metas then [bslash, r] else [r])"

definition parser_globToRegex :: "string \<Rightarrow> string" where
  "parser_globToRegex pattern = ''^'' @ concat (map glob_char pattern) @ ''$''"

definition matchGlob :: "regexp \<Rightarrow> string \<Rightarrow> string \<Rightarrow> re_cache \<Rightarrow> bool \<times> re_cache" where
  "matchGlob rx pattern value cache =
     (case compileCached rx (parser_globToRegex pattern) cache of
        (None, cache') \<Rightarrow> (False, cache')
      | (Some re, cache') \<Rightarrow> (re_match re value, cache'))"

section \<open>Matching and extraction\<close>

definition parserMatches :: "regexp \<Rightarrow> Parser \<Rightarrow> string \<Rightarrow> string \<Rightarrow> string \<Rightarrow> re_cache \<Rightarrow> bool \<times> re_cache" where
  "parserMatches rx p hostname appName message cache =
     (case pa_MatchValue p of
        None \<Rightarrow> (pa_MatchType p = ''all'', cache)
      | Some val \<Rightarrow>
          (if pa_MatchType p = ''hostname'' then
             (if val = [] then (False, cache) else matchGlob rx val hostname cache)
           else if pa_MatchType p = ''app_name'' then
             (if val = [] then (False, cache) else if appName = [] then (False, cache) else matchGlob rx val appName cache)
           else if pa_MatchType p = ''message'' then
             (if val = [] then (False, cache) else (str_contains message val, cache))
           else (pa_MatchType p = ''all'', cache)))"

fun Match :: "regexp \<Rightarrow> Parser list \<Rightarrow> string \<Rightarrow> string \<Rightarrow> string \<Rightarrow> re_cache \<Rightarrow> Parser list \<times> re_cache" where
  "Match rx [] hostname appName message cache = ([], cache)"
| "Match rx (p # ps) hostname appName message cache =
     (case parserMatches rx p hostname appName message cache of
        (False, c1) \<Rightarrow> Match rx ps hostname appName message c1
      | (True, c1) \<Rightarrow>
          (case compileCached rx (pa_Regex p) c1 of
             (None, c2) \<Rightarrow> Match rx ps hostname appName message c2
           | (Some re, c2) \<Rightarrow>
               (case Match rx ps hostname appName message c2 of
                  (ms, c3) \<Rightarrow> (if re_match re message then p # ms else ms, c3))))"

fun put_groups :: "ParsedField list \<Rightarrow> string list \<Rightarrow> (string \<times> string) list \<Rightarrow> (string \<times> string) list" where
  "put_groups (f # fs) (v # vs) res = put_groups fs vs (AList.update (pf_Name f) v res)"
| "put_groups fs vs res = res"

definition Extract :: "regexp \<Rightarrow> Parser \<Rightarrow> string \<Rightarrow> re_cache \<Rightarrow> (string \<times> string) list option \<times> re_cache" where
  "Extract rx p message cache =
     (case compileCached rx (pa_Regex p) cache of
        (None, c1) \<Rightarrow> (None, c1)
      | (Some re, c1) \<Rightarrow>
          (case re message of
             None \<Rightarrow> (None, c1)
           | Some matches \<Rightarrow> (Some (put_groups (pa_Fields p) (tl matches) []), c1)))"

record ParseResult =
  pr_Fields :: "(string \<times> string) list"
  pr_Parsers :: "string list"

text \<open>A field that is there already keeps its value.\<close>

definition merge_fields :: "(string \<times> string) list \<Rightarrow> (string \<times> string) list \<Rightarrow> (string \<times> string) list" where
  "merge_fields merged flds = merged @ filter (\<lambda>(k, v). map_of merged k = None) flds"

fun extract_all ::
  "regexp \<Rightarrow> Parser list \<Rightarrow> string \<Rightarrow> (string \<times> string) list \<Rightarrow> string list \<Rightarrow> re_cache \<Rightarrow> ParseResult \<times> re_cache" where
  "extract_all rx [] message merged names cache = (\<lparr>pr_Fields = merged, pr_Parsers = names\<rparr>, cache)"
| "extract_all rx (p # ps) message merged names cache =
     (case Extract rx p message cache of
        (flds, c1) \<Rightarrow>
          extract_all rx ps message (case flds of None \<Rightarrow> merged | Some fs \<Rightarrow> merge_fields merged fs) (names @ [pa_Name p]) c1)"

definition Parse :: "regexp \<Rightarrow> Parser list \<Rightarrow> string \<Rightarrow> string \<Rightarrow> string \<Rightarrow> re_cache \<Rightarrow> ParseResult option \<times> re_cache" where
  "Parse rx ps hostname appName message cache =
     (case Match rx ps hostname appName message cache of
        (matched, c1) \<Rightarrow>
          (if matched = [] then (None, c1)
           else (case extract_all rx matched message [] [] c1 of (res, c2) \<Rightarrow> (Some res, c2))))"

text \<open>\<^verbatim>\<open>TestParser\<close>: \<^const>\<open>None\<close> is a pattern that does not compile; otherwise whether it matched, and the groups.\<close>

definition TestParser :: "regexp \<Rightarrow> string \<Rightarrow> string \<Rightarrow> (bool \<times> (string \<times> string) list) option" where
  "TestParser rx pattern sampleLog =
     (case Compile rx pattern of
        None \<Rightarrow> None
      | Some re \<Rightarrow>
          (case re sampleLog of
             None \<Rightarrow> Some (False, [])
           | Some matches \<Rightarrow>
               (if length matches \<le> 1 then Some (False, [])
                else Some (True, map (\<lambda>(i, v). (''group_'' @ nat_str i, v)) (enumerate 0 (tl matches))))))"

section \<open>Reading the tables\<close>

text \<open>The rows of one parser's fields; when the query fails the parser stays without fields.\<close>

definition with_fields :: "Parser \<Rightarrow> (parsedb, Parser) sql" where
  "with_fields p =
     attempt (query (\<lambda>d. Inr (sort_key pf_ID (filter (\<lambda>f. pf_ParserID f = pa_ID p) (db_registry d))))) (\<lambda>r. case r of
        Inl err \<Rightarrow> ret p
      | Inr fs \<Rightarrow> ret (p\<lparr>pa_Fields := fs\<rparr>))"

fun all_with_fields :: "Parser list \<Rightarrow> (parsedb, Parser list) sql" where
  "all_with_fields [] = ret []"
| "all_with_fields (p # ps) = bind (with_fields p) (\<lambda>q. bind (all_with_fields ps) (\<lambda>qs. ret (q # qs)))"

definition loadParsers :: "(parsedb, unit) sql" where
  "loadParsers =
     attempt (query (\<lambda>d. Inr (sort_key pa_ID (filter pa_Enabled (db_parsers d))))) (\<lambda>r. case r of
        Inl err \<Rightarrow> ret ()
      | Inr rows \<Rightarrow> bind (all_with_fields rows) (\<lambda>ps. local (\<lambda>d. ((), d\<lparr>en_parsers := ps\<rparr>))))"

text \<open>\<^verbatim>\<open>Reload\<close> leaves a note in a channel that holds one; the loop takes it, or its ticker, and loads.\<close>

definition Reload :: "(parsedb, unit) sql" where
  "Reload = local (\<lambda>d. ((), d\<lparr>en_reload := True\<rparr>))"

definition reload_step :: "bool \<Rightarrow> (parsedb, unit) sql" where
  "reload_step tick =
     bind (local (\<lambda>d. (tick \<or> en_reload d, if tick then d else d\<lparr>en_reload := False\<rparr>))) (\<lambda>go. if go then loadParsers else ret ())"

definition by_device :: "pg_ops \<Rightarrow> Parser \<Rightarrow> Parser \<Rightarrow> bool" where
  "by_device pg p q \<longleftrightarrow> pg_less pg (pa_DeviceType p) (pa_DeviceType q) \<or>
     \<not> pg_less pg (pa_DeviceType q) (pa_DeviceType p) \<and> pa_ID p \<le> pa_ID q"

definition GetAllParsers :: "pg_ops \<Rightarrow> (parsedb, Parser list) sql" where
  "GetAllParsers pg = bind (query (\<lambda>d. Inr (sort_by (by_device pg) (db_parsers d)))) all_with_fields"

text \<open>The join of the registry with the parsers.\<close>

definition registry_join :: "pg_ops \<Rightarrow> (Parser \<Rightarrow> bool) \<Rightarrow> parsedb \<Rightarrow> ParsedField list" where
  "registry_join pg sel d =
     map (\<lambda>(f, p). f\<lparr>pf_ParserName := pa_Name p\<rparr>)
       (sort_by (\<lambda>(f, p) (g, q). pg_less pg (pa_DeviceType p) (pa_DeviceType q) \<or>
            \<not> pg_less pg (pa_DeviceType q) (pa_DeviceType p) \<and> \<not> pg_less pg (pf_Name g) (pf_Name f))
          (concat (map (\<lambda>f. map (Pair f) (filter (\<lambda>p. pf_ParserID f = pa_ID p \<and> sel p) (db_parsers d))) (db_registry d))))"

definition GetParsedFieldRegistry :: "pg_ops \<Rightarrow> (parsedb, ParsedField list) sql" where
  "GetParsedFieldRegistry pg = query (\<lambda>d. Inr (registry_join pg (\<lambda>p. True) d))"

fun first_of_each :: "(string \<times> string) list \<Rightarrow> ParsedField list \<Rightarrow> ParsedField list" where
  "first_of_each seen [] = []"
| "first_of_each seen (f # fs) =
     (let key = (pf_ParserName f, pf_Name f) in
      if key \<in> set seen then first_of_each seen fs else f # first_of_each (key # seen) fs)"

definition GetParsedFieldsForHostnames :: "pg_ops \<Rightarrow> string list \<Rightarrow> (parsedb, ParsedField list) sql" where
  "GetParsedFieldsForHostnames pg hostnames =
     (if hostnames = [] then GetParsedFieldRegistry pg
      else bind (query (\<lambda>d. Inr (remdups (concat (map (\<lambda>r. case lr_matched_parsers r of None \<Rightarrow> [] | Some ps \<Rightarrow> ps)
             (filter (\<lambda>r. (case lr_fromhost_ip r of None \<Rightarrow> [] | Some ip \<Rightarrow> ip) \<in> set hostnames) (db_logs d))))))) (\<lambda>parserNames.
        if parserNames = [] then ret []
        else bind (query (\<lambda>d. Inr (registry_join pg (\<lambda>p. pa_Name p \<in> set parserNames) d))) (\<lambda>fs. ret (first_of_each [] fs))))"

section \<open>Parsing old rows again\<close>

text \<open>
  The condition of the query as the database reads it: \<^verbatim>\<open>AND\<close> binds more strongly than \<^verbatim>\<open>OR\<close>.
\<close>

definition reparse_selects :: "pg_ops \<Rightarrow> string \<Rightarrow> string \<Rightarrow> string \<Rightarrow> log_row \<Rightarrow> bool" where
  "reparse_selects pg hostname from_t to_t r \<longleftrightarrow>
     lr_parsed_fields r = None \<or>
     lr_parsed_fields r = Some [] \<and>
       (hostname \<noteq> [] \<longrightarrow> (case lr_fromhost_ip r of None \<Rightarrow> [] | Some ip \<Rightarrow> ip) = hostname) \<and>
       (from_t \<noteq> [] \<longrightarrow> pg_time pg from_t \<le> lr_timestamp r) \<and>
       (to_t \<noteq> [] \<longrightarrow> lr_timestamp r \<le> pg_time pg to_t)"

definition set_parsed :: "int \<Rightarrow> ParseResult \<Rightarrow> (parsedb, unit) sql" where
  "set_parsed i res = stmt (\<lambda>d. Inr ((), d\<lparr>db_logs := map (\<lambda>r.
     if lr_id r = i then r\<lparr>lr_parsed_fields := Some (pr_Fields res), lr_matched_parsers := Some (pr_Parsers res)\<rparr> else r) (db_logs d)\<rparr>))"

definition parse_row :: "regexp \<Rightarrow> log_row \<Rightarrow> (parsedb, ParseResult option) sql" where
  "parse_row rx r = local (\<lambda>d.
     case Parse rx (en_parsers d) (lr_hostname r) (case lr_app_name r of None \<Rightarrow> [] | Some a \<Rightarrow> a) (lr_message r) (en_cache d) of
       (res, cache) \<Rightarrow> (res, d\<lparr>en_cache := cache\<rparr>))"

fun reparse_rows :: "regexp \<Rightarrow> log_row list \<Rightarrow> nat \<times> nat \<Rightarrow> (parsedb, nat \<times> nat) sql" where
  "reparse_rows rx [] n = ret n"
| "reparse_rows rx (r # rs) n =
     (case n of (processed, updated) \<Rightarrow>
       bind (parse_row rx r) (\<lambda>res. case res of
          None \<Rightarrow> reparse_rows rx rs (processed + 1, updated)
        | Some p \<Rightarrow> attempt (set_parsed (lr_id r) p) (\<lambda>e. case e of
            Inl err \<Rightarrow> reparse_rows rx rs (processed + 1, updated)
          | Inr _ \<Rightarrow> reparse_rows rx rs (processed + 1, updated + 1))))"

text \<open>\<open>ord\<close>: the order in which the database returns rows of a query without \<^verbatim>\<open>ORDER BY\<close>.\<close>

definition ReparseUnparsed ::
  "regexp \<Rightarrow> pg_ops \<Rightarrow> (log_row list \<Rightarrow> log_row list) \<Rightarrow> string \<Rightarrow> string \<Rightarrow> string \<Rightarrow> int \<Rightarrow> (parsedb, nat \<times> nat) sql" where
  "ReparseUnparsed rx pg ord hostname from_t to_t limit =
     bind (query (\<lambda>d. Inr (take (if limit > 0 then nat limit else 10000)
         (ord (filter (reparse_selects pg hostname from_t to_t) (db_logs d)))))) (\<lambda>rows.
       reparse_rows rx rows (0, 0))"

end
