(* ===== verification/ParserTheorems.thy ===== *)
theory ParserTheorems
  imports ParserEngine "HOL-Library.Multiset"
begin

text \<open>
  What the parser engine computes: globs, the transparency of the pattern cache, the fields of a parsed
  line, and the rows a reparse changes.
\<close>

section \<open>Globs\<close>

text \<open>A star stands for any characters of a line, a question mark for one, any other character for itself.\<close>

inductive globs :: "string \<Rightarrow> string \<Rightarrow> bool" where
  globs_Nil: "globs [] []"
| globs_star: "globs p s \<Longrightarrow> globs (CHR ''*'' # p) s"
| globs_more: "globs (CHR ''*'' # p) s \<Longrightarrow> d \<noteq> CHR 0x0A \<Longrightarrow> globs (CHR ''*'' # p) (d # s)"
| globs_any: "globs p s \<Longrightarrow> d \<noteq> CHR 0x0A \<Longrightarrow> globs (CHR ''?'' # p) (d # s)"
| globs_char: "globs p s \<Longrightarrow> c \<noteq> CHR ''*'' \<Longrightarrow> c \<noteq> CHR ''?'' \<Longrightarrow> globs (c # p) (c # s)"

definition glob_item :: "char \<Rightarrow> re_item" where
  "glob_item c = (if c = CHR ''*'' then AnyStar else if c = CHR ''?'' then Any else Lit c)"

lemma re_items_Lit: "c \<notin> set metas \<Longrightarrow> s \<noteq> [] \<Longrightarrow> re_items (c # s) = map_option (Cons (Lit c)) (re_items s)"
  by (cases s) (auto simp: metas_def)

lemma glob_text_nonempty: "concat (map glob_char p) @ ''$'' \<noteq> []"
  by simp

lemma glob_text_head: "\<exists>d s. concat (map glob_char p) @ ''$'' = d # s \<and> d \<noteq> CHR ''*''"
  by (cases p) (auto simp: glob_char_def bslash_def)

lemma re_items_glob_text: "re_items (concat (map glob_char p) @ ''$'') = Some (map glob_item p)"
proof (induction p)
  case (Cons c p)
  obtain d s where rest: "concat (map glob_char p) @ ''$'' = d # s" "d \<noteq> CHR ''*''" using glob_text_head by blast
  consider "c = CHR ''*''" | "c = CHR ''?''" | "c \<noteq> CHR ''*''" "c \<noteq> CHR ''?''" "c \<in> set glob_metas"
    | "c \<noteq> CHR ''*''" "c \<noteq> CHR ''?''" "c \<notin> set glob_metas" by blast
  then show ?case
  proof cases
    case 1
    with Cons show ?thesis by (simp add: glob_char_def [of "CHR ''*''"] glob_char_def [of "CHR ''?''"] glob_item_def [of "CHR ''*''"] glob_item_def [of "CHR ''?''"] bslash_def)
  next
    case 2
    with Cons rest show ?thesis by (simp add: glob_char_def [of "CHR ''*''"] glob_char_def [of "CHR ''?''"] glob_item_def [of "CHR ''*''"] glob_item_def [of "CHR ''?''"] bslash_def)
  next
    case 3
    then have "\<not> is_alnum c" by (auto simp: glob_metas_def bslash_def is_alnum_def is_digit_def)
    with 3 Cons show ?thesis by (simp add: glob_char_def [of c] glob_item_def [of c])
  next
    case 4
    then have "c \<notin> set metas" by (auto simp: glob_metas_def metas_def)
    with 4 Cons show ?thesis using re_items_Lit glob_text_nonempty by (simp add: glob_char_def [of c] glob_item_def [of c])
  qed
qed simp

lemma re_run_globs: "re_run False (map glob_item p) s \<longleftrightarrow> globs p s"
proof
  have "re_run i r s \<Longrightarrow> \<not> i \<Longrightarrow> r = map glob_item p \<Longrightarrow> globs p s" for i r
  proof (induction i r s arbitrary: p rule: re_run.induct)
    case (1 i s)
    then show ?case by (simp add: globs_Nil)
  next
    case (3 i c r d s)
    then obtain p' where "p = c # p'" "r = map glob_item p'" "c \<noteq> CHR ''*''" "c \<noteq> CHR ''?''"
      by (auto simp: glob_item_def split: if_splits)
    with 3 show ?case by (auto simp: lit_eq_def intro: globs_char)
  next
    case (5 i r d s)
    then obtain p' where "p = CHR ''?'' # p'" "r = map glob_item p'" by (auto simp: glob_item_def split: if_splits)
    with 5 show ?case by (auto simp: dot_ok_def intro: globs_any)
  next
    case (6 i r)
    then obtain p' where "p = CHR ''*'' # p'" "r = map glob_item p'" by (auto simp: glob_item_def split: if_splits)
    with 6 show ?case by (auto intro: globs_star)
  next
    case (7 i r d s)
    from 7(5) obtain p' where p: "p = CHR ''*'' # p'" "r = map glob_item p'" by (auto simp: glob_item_def split: if_splits)
    from 7(3) consider "re_run i r (d # s)" | "dot_ok i d" "re_run i (AnyStar # r) s" by auto
    then show ?case
    proof cases
      case 1
      with 7(1) [OF 1 7(4) p(2)] p show ?thesis by (auto intro: globs_star)
    next
      case 2
      then have "globs p s" by (intro 7(2) [OF _ 7(4,5)])
      with 2 7(4) p show ?thesis by (auto simp: dot_ok_def intro: globs_more)
    qed
  next
    case (2 i c r)
    from 2(1) show ?case by simp
  next
    case (4 i r)
    from 4(1) show ?case by simp
  qed
  then show "re_run False (map glob_item p) s \<Longrightarrow> globs p s" by blast
next
  assume "globs p s"
  then show "re_run False (map glob_item p) s"
  proof induction
    case (globs_star p s)
    then show ?case by (cases s) (auto simp: glob_item_def)
  qed (auto simp: glob_item_def dot_ok_def lit_eq_def)
qed

lemma Compile_glob:
  "Compile rx (parser_globToRegex pat) = Some (\<lambda>v. if globs pat v then Some [v] else None)"
proof -
  have "re_compile (parser_globToRegex pat) = Some (False, map glob_item pat)"
    by (simp add: re_compile_def parser_globToRegex_def re_items_glob_text)
  then show ?thesis by (simp add: Compile_def re_run_globs)
qed

section \<open>The cache is transparent\<close>

definition cache_ok :: "regexp \<Rightarrow> re_cache \<Rightarrow> bool" where
  "cache_ok rx cache \<longleftrightarrow> (\<forall>pat re. cache pat = Some re \<longrightarrow> Compile rx pat = Some re)"

text \<open>A cached computation of a value that needs no cache.\<close>

definition computes :: "regexp \<Rightarrow> (re_cache \<Rightarrow> 'a \<times> re_cache) \<Rightarrow> 'a \<Rightarrow> bool" where
  "computes rx f x \<longleftrightarrow> (\<forall>c. cache_ok rx c \<longrightarrow> fst (f c) = x \<and> cache_ok rx (snd (f c)))"

lemma computesD: "computes rx f x \<Longrightarrow> cache_ok rx c \<Longrightarrow> \<exists>c'. f c = (x, c') \<and> cache_ok rx c'"
  by (cases "f c") (auto simp: computes_def)

lemma computesE:
  assumes "computes rx f x" "cache_ok rx c"
  obtains c' where "f c = (x, c')" "cache_ok rx c'"
  using computesD [OF assms] by blast

lemma computesI: "(\<And>c. cache_ok rx c \<Longrightarrow> \<exists>c'. f c = (x, c') \<and> cache_ok rx c') \<Longrightarrow> computes rx f x"
  by (auto simp: computes_def) (metis fst_conv, metis snd_conv)

lemma compileCached_computes: "computes rx (compileCached rx pat) (Compile rx pat)"
proof (rule computesI)
  fix c
  assume "cache_ok rx c"
  then show "\<exists>c'. compileCached rx pat c = (Compile rx pat, c') \<and> cache_ok rx c'"
    by (cases "c pat"; cases "Compile rx pat") (auto simp: compileCached_def cache_ok_def split: if_splits)
qed

lemma matchGlob_computes: "computes rx (matchGlob rx pat v) (globs pat v)"
proof (rule computesI)
  fix c
  assume "cache_ok rx c"
  then obtain c' where "compileCached rx (parser_globToRegex pat) c = (Compile rx (parser_globToRegex pat), c')" "cache_ok rx c'"
    by (rule computesE [OF compileCached_computes])
  then show "\<exists>c'. matchGlob rx pat v c = (globs pat v, c') \<and> cache_ok rx c'"
    by (simp add: matchGlob_def Compile_glob re_match_def)
qed

section \<open>What a line parses to\<close>

definition selected :: "Parser \<Rightarrow> string \<Rightarrow> string \<Rightarrow> string \<Rightarrow> bool" where
  "selected p hostname appName message \<longleftrightarrow> pa_MatchType p = ''all'' \<or>
     (\<exists>v. pa_MatchValue p = Some v \<and> v \<noteq> [] \<and>
       (pa_MatchType p = ''hostname'' \<and> globs v hostname \<or>
        pa_MatchType p = ''app_name'' \<and> appName \<noteq> [] \<and> globs v appName \<or>
        pa_MatchType p = ''message'' \<and> str_contains message v))"

definition groups :: "regexp \<Rightarrow> Parser \<Rightarrow> string \<Rightarrow> string list option" where
  "groups rx p message = Option.bind (Compile rx (pa_Regex p)) (\<lambda>re. re message)"

definition applies :: "regexp \<Rightarrow> string \<Rightarrow> string \<Rightarrow> string \<Rightarrow> Parser \<Rightarrow> bool" where
  "applies rx hostname appName message p \<longleftrightarrow> selected p hostname appName message \<and> groups rx p message \<noteq> None"

definition own_fields :: "regexp \<Rightarrow> string \<Rightarrow> Parser \<Rightarrow> (string \<times> string) list" where
  "own_fields rx message p = (case groups rx p message of None \<Rightarrow> [] | Some m \<Rightarrow> put_groups (pa_Fields p) (tl m) [])"

definition parse_spec :: "regexp \<Rightarrow> Parser list \<Rightarrow> string \<Rightarrow> string \<Rightarrow> string \<Rightarrow> ParseResult option" where
  "parse_spec rx ps hostname appName message =
     (let applied = filter (applies rx hostname appName message) ps in
      if applied = [] then None
      else Some \<lparr>pr_Fields = foldl merge_fields [] (map (own_fields rx message) applied), pr_Parsers = map pa_Name applied\<rparr>)"

lemma parserMatches_computes: "computes rx (parserMatches rx p h a m) (selected p h a m)"
proof (rule computesI)
  fix c
  assume c: "cache_ok rx c"
  show "\<exists>c'. parserMatches rx p h a m c = (selected p h a m, c') \<and> cache_ok rx c'"
  proof (cases "pa_MatchValue p")
    case None
    with c show ?thesis by (simp add: parserMatches_def selected_def)
  next
    case (Some v)
    with c computesD [OF matchGlob_computes c, of v h] computesD [OF matchGlob_computes c, of v a] show ?thesis
      by (auto simp: parserMatches_def selected_def)
  qed
qed

lemma Match_computes: "computes rx (Match rx ps h a m) (filter (applies rx h a m) ps)"
proof (induction ps)
  case Nil
  then show ?case by (simp add: computes_def)
next
  case (Cons p ps)
  show ?case
  proof (rule computesI)
    fix c
    assume "cache_ok rx c"
    then obtain c1 where 1: "parserMatches rx p h a m c = (selected p h a m, c1)" "cache_ok rx c1"
      by (rule computesE [OF parserMatches_computes])
    from 1(2) obtain c2 where 2: "compileCached rx (pa_Regex p) c1 = (Compile rx (pa_Regex p), c2)" "cache_ok rx c2"
      by (rule computesE [OF compileCached_computes])
    obtain d1 where d1: "Match rx ps h a m c1 = (filter (applies rx h a m) ps, d1)" "cache_ok rx d1"
      using computesD [OF Cons 1(2)] by blast
    obtain d2 where d2: "Match rx ps h a m c2 = (filter (applies rx h a m) ps, d2)" "cache_ok rx d2"
      using computesD [OF Cons 2(2)] by blast
    show "\<exists>c'. Match rx (p # ps) h a m c = (filter (applies rx h a m) (p # ps), c') \<and> cache_ok rx c'"
      using 1 2 d1 d2 by (cases "selected p h a m"; cases "Compile rx (pa_Regex p)") (auto simp: applies_def groups_def re_match_def)
  qed
qed

lemma Extract_computes:
  "computes rx (Extract rx p m) (map_option (\<lambda>g. put_groups (pa_Fields p) (tl g) []) (groups rx p m))"
proof (rule computesI)
  fix c
  assume "cache_ok rx c"
  then obtain c1 where "compileCached rx (pa_Regex p) c = (Compile rx (pa_Regex p), c1)" "cache_ok rx c1"
    by (rule computesE [OF compileCached_computes])
  then show "\<exists>c'. Extract rx p m c = (map_option (\<lambda>g. put_groups (pa_Fields p) (tl g) []) (groups rx p m), c') \<and> cache_ok rx c'"
    by (auto simp: Extract_def groups_def split: option.split)
qed

lemma merge_nothing [simp]: "merge_fields fs [] = fs"
  by (simp add: merge_fields_def)

lemma extract_all_computes:
  "computes rx (extract_all rx ps m merged names)
     \<lparr>pr_Fields = foldl merge_fields merged (map (own_fields rx m) ps), pr_Parsers = names @ map pa_Name ps\<rparr>"
proof (induction ps arbitrary: merged names)
  case Nil
  then show ?case by (simp add: computes_def)
next
  case (Cons p ps)
  show ?case
  proof (rule computesI)
    fix c
    assume "cache_ok rx c"
    then obtain c1 where c1: "Extract rx p m c = (map_option (\<lambda>g. put_groups (pa_Fields p) (tl g) []) (groups rx p m), c1)" "cache_ok rx c1"
      by (rule computesE [OF Extract_computes])
    have same: "(case map_option (\<lambda>g. put_groups (pa_Fields p) (tl g) []) (groups rx p m) of None \<Rightarrow> merged | Some fs \<Rightarrow> merge_fields merged fs) =
        merge_fields merged (own_fields rx m p)"
      by (cases "groups rx p m") (simp_all add: own_fields_def)
    show "\<exists>c'. extract_all rx (p # ps) m merged names c =
        (\<lparr>pr_Fields = foldl merge_fields merged (map (own_fields rx m) (p # ps)), pr_Parsers = names @ map pa_Name (p # ps)\<rparr>, c') \<and> cache_ok rx c'"
      using computesD [OF Cons c1(2), of "merge_fields merged (own_fields rx m p)" "names @ [pa_Name p]"] by (simp add: c1(1) same del: case_map_option option.case)
  qed
qed

lemma Parse_computes: "computes rx (Parse rx ps h a m) (parse_spec rx ps h a m)"
proof (rule computesI)
  fix c
  assume "cache_ok rx c"
  then obtain c1 where c1: "Match rx ps h a m c = (filter (applies rx h a m) ps, c1)" "cache_ok rx c1"
    by (rule computesE [OF Match_computes])
  obtain c2 where "extract_all rx (filter (applies rx h a m) ps) m [] [] c1 =
      (\<lparr>pr_Fields = foldl merge_fields [] (map (own_fields rx m) (filter (applies rx h a m) ps)), pr_Parsers = map pa_Name (filter (applies rx h a m) ps)\<rparr>, c2)"
    "cache_ok rx c2"
    using computesD [OF extract_all_computes c1(2), of "filter (applies rx h a m) ps" m "[]" "[]"] by auto
  with c1 show "\<exists>c'. Parse rx ps h a m c = (parse_spec rx ps h a m, c') \<and> cache_ok rx c'"
    by (simp add: Parse_def parse_spec_def Let_def)
qed

text \<open>Group \<open>i\<close> is the value of field \<open>i\<close>, and of the parsers that give a field the first counts.\<close>

lemma put_groups_map:
  "distinct (map pf_Name fs) \<Longrightarrow> (\<forall>f \<in> set fs. map_of res (pf_Name f) = None) \<Longrightarrow>
    map_of (put_groups fs vs res) = map_of res ++ map_of (zip (map pf_Name fs) vs)"
proof (induction fs vs res rule: put_groups.induct)
  case (1 f fs v vs res)
  have "pf_Name g \<noteq> pf_Name f" if "g \<in> set fs" for g using "1.prems"(1) that by (metis distinct.simps(2) imageI list.simps(9) set_map)
  with 1 have "\<forall>g \<in> set fs. map_of (AList.update (pf_Name f) v res) (pf_Name g) = None"
    by (simp add: update_conv')
  with 1 have "map_of (put_groups fs vs (AList.update (pf_Name f) v res)) =
      map_of (AList.update (pf_Name f) v res) ++ map_of (zip (map pf_Name fs) vs)" by simp
  moreover have "map_of (zip (map pf_Name fs) vs) (pf_Name f) = None"
    using "1.prems"(1) by (auto simp: map_of_eq_None_iff dest: set_zip_leftD)
  ultimately show ?case by (auto simp: update_conv' map_add_def fun_eq_iff split: option.split)
qed auto

lemma put_groups_distinct: "distinct (map fst res) \<Longrightarrow> distinct (map fst (put_groups fs vs res))"
  by (induction fs vs res rule: put_groups.induct) (simp_all add: distinct_update)

lemma own_fields_distinct: "distinct (map fst (own_fields rx m p))"
  by (simp add: own_fields_def put_groups_distinct split: option.split)

lemma merge_fields_distinct:
  "distinct (map fst a) \<Longrightarrow> distinct (map fst b) \<Longrightarrow> distinct (map fst (merge_fields a b))"
proof -
  assume "distinct (map fst a)" "distinct (map fst b)"
  moreover have "distinct (map fst (filter P b))" for P using \<open>distinct (map fst b)\<close> by (rule distinct_map_filter)
  moreover have "set (map fst a) \<inter> set (map fst (filter (\<lambda>(k, v). map_of a k = None) b)) = {}"
  proof -
    have "k \<notin> set (map fst a)" if "k \<in> set (map fst (filter (\<lambda>(k, v). map_of a k = None) b))" for k
      using that by (auto simp: map_of_eq_None_iff image_iff)
    then show ?thesis by blast
  qed
  ultimately show ?thesis unfolding merge_fields_def by (simp only: map_append distinct_append)
qed

fun first_some :: "'a option list \<Rightarrow> 'a option" where
  "first_some [] = None"
| "first_some (x # xs) = (case x of Some y \<Rightarrow> Some y | None \<Rightarrow> first_some xs)"

lemma map_of_merge: "map_of (merge_fields a b) k = (case map_of a k of Some v \<Rightarrow> Some v | None \<Rightarrow> map_of b k)"
proof -
  have "map_of (filter (\<lambda>(k, v). map_of a k = None) b) k = (if map_of a k = None then map_of b k else None)"
    by (induction b) auto
  then show ?thesis by (auto simp: merge_fields_def map_add_def split: option.split)
qed

lemma foldl_merge:
  "map_of (foldl merge_fields acc fs) k = (case map_of acc k of Some v \<Rightarrow> Some v | None \<Rightarrow> first_some (map (\<lambda>f. map_of f k) fs))"
  by (induction fs arbitrary: acc) (auto simp: map_of_merge split: option.splits)

lemma foldl_merge_distinct:
  "distinct (map fst acc) \<Longrightarrow> (\<forall>f \<in> set fs. distinct (map fst f)) \<Longrightarrow> distinct (map fst (foldl merge_fields acc fs))"
  by (induction fs arbitrary: acc) (simp_all add: merge_fields_distinct)

text \<open>
  Parsing a line (C23): whatever patterns earlier lines left in the shared cache, a line is parsed by exactly the parsers that
  select it by host, program or text, globs read as globs, and whose pattern compiles and matches it, in
  their order. The line has no result when there are none. A field of the result has the value of the group of its place in the
  first of these parsers that gives it one, and the cache is again one later lines can rely on.
\<close>
theorem parse_result:
  assumes "cache_ok rx cache" "\<And>p. p \<in> set ps \<Longrightarrow> distinct (map pf_Name (pa_Fields p))"
    and "Parse rx ps hostname appName message cache = (res, cache')"
  shows "let applied = filter (applies rx hostname appName message) ps in
    cache_ok rx cache' \<and> (res = None \<longleftrightarrow> applied = []) \<and>
    (\<forall>r. res = Some r \<longrightarrow> pr_Parsers r = map pa_Name applied \<and> distinct (map fst (pr_Fields r)) \<and>
      (\<forall>k. map_of (pr_Fields r) k =
        first_some (map (\<lambda>p. map_of (zip (map pf_Name (pa_Fields p)) (tl (the (groups rx p message)))) k) applied)))"
proof -
  obtain c where "Parse rx ps hostname appName message cache = (parse_spec rx ps hostname appName message, c)" "cache_ok rx c"
    using computesD [OF Parse_computes assms(1)] by blast
  with assms(3) have res: "res = parse_spec rx ps hostname appName message" "cache_ok rx cache'" by auto
  have own: "map_of (own_fields rx message p) = map_of (zip (map pf_Name (pa_Fields p)) (tl (the (groups rx p message))))"
    if p: "p \<in> set (filter (applies rx hostname appName message) ps)" for p
  proof -
    obtain g where "groups rx p message = Some g" using p by (auto simp: applies_def)
    moreover have "distinct (map pf_Name (pa_Fields p))" using assms(2) p by simp
    ultimately show ?thesis by (simp add: own_fields_def put_groups_map)
  qed
  have "map (\<lambda>f. map_of f k) (map (own_fields rx message) (filter (applies rx hostname appName message) ps)) =
      map (\<lambda>p. map_of (zip (map pf_Name (pa_Fields p)) (tl (the (groups rx p message)))) k) (filter (applies rx hostname appName message) ps)" for k
    using own by simp
  then show ?thesis
    using res by (simp add: parse_spec_def Let_def foldl_merge foldl_merge_distinct own_fields_distinct del: map_map)
qed

definition ip_regex :: regexp where
  "ip_regex pat = (if pat = ''ip=(.*)'' then Some (\<lambda>s. if has_prefix s ''ip='' then Some [s, drop 3 s] else None) else None)"

definition ip_parser :: "int \<Rightarrow> string \<Rightarrow> string \<Rightarrow> string option \<Rightarrow> string \<Rightarrow> Parser" where
  "ip_parser i name typ val fld = \<lparr>pa_ID = i, pa_Name = name, pa_Description = None, pa_DeviceType = ''fw'', pa_MatchType = typ, pa_MatchValue = val,
     pa_Regex = ''ip=(.*)'', pa_Enabled = True, pa_IsBuiltin = False, pa_CreatedAt = 0, pa_UpdatedAt = 0,
     pa_Fields = [\<lparr>pf_ID = i, pf_ParserID = i, pf_ParserName = name, pf_Name = fld, pf_Label = [], pf_Type = ''string''\<rparr>]\<rparr>"

lemma ip_parser_simps [simp]:
  "pa_Name (ip_parser i n t v f) = n" "pa_MatchType (ip_parser i n t v f) = t" "pa_MatchValue (ip_parser i n t v f) = v"
  "pa_Regex (ip_parser i n t v f) = ''ip=(.*)''" "map pf_Name (pa_Fields (ip_parser i n t v f)) = [f]"
  by (simp_all add: ip_parser_def)

theorem parse_result_witness:
  "\<exists>r. fst (Parse ip_regex [ip_parser 1 ''a'' ''hostname'' (Some ''fw*'') ''src'', ip_parser 2 ''b'' ''all'' None ''dst''] ''fw1'' [] ''ip=9'' Map.empty) = Some r \<and>
     pr_Parsers r = [''a'', ''b''] \<and> map_of (pr_Fields r) ''src'' = Some ''9''"
proof -
  let ?ps = "[ip_parser 1 ''a'' ''hostname'' (Some ''fw*'') ''src'', ip_parser 2 ''b'' ''all'' None ''dst'']"
  obtain res c where run: "Parse ip_regex ?ps ''fw1'' [] ''ip=9'' Map.empty = (res, c)" by fastforce
  have glob: "globs ''fw*'' ''fw1''" by (intro globs.intros) simp_all
  have g: "groups ip_regex (ip_parser i n t v f) ''ip=9'' = Some [''ip=9'', ''9'']" for i n t v f
  proof -
    have "re_compile ''ip=(.*)'' = None" by (simp add: re_compile_def)
    then show ?thesis by (simp add: groups_def Compile_def ip_regex_def)
  qed
  have applied: "filter (applies ip_regex ''fw1'' [] ''ip=9'') ?ps = ?ps"
    using glob g by (simp add: applies_def selected_def)
  have "distinct (map pf_Name (pa_Fields p))" if "p \<in> set ?ps" for p using that by auto
  from parse_result [OF _ this run] have "res \<noteq> None" "\<forall>r. res = Some r \<longrightarrow> pr_Parsers r = [''a'', ''b''] \<and> map_of (pr_Fields r) ''src'' = Some ''9''"
    unfolding applied Let_def by (simp_all add: cache_ok_def g)
  then show ?thesis using run by auto
qed

section \<open>Parsing old rows again\<close>

definition store_result :: "ParseResult option \<Rightarrow> log_row \<Rightarrow> log_row" where
  "store_result res r =
     (case res of None \<Rightarrow> r | Some p \<Rightarrow> r\<lparr>lr_parsed_fields := Some (pr_Fields p), lr_matched_parsers := Some (pr_Parsers p)\<rparr>)"

definition row_result :: "regexp \<Rightarrow> Parser list \<Rightarrow> log_row \<Rightarrow> ParseResult option" where
  "row_result rx ps r = parse_spec rx ps (lr_hostname r) (case lr_app_name r of None \<Rightarrow> [] | Some a \<Rightarrow> a) (lr_message r)"

lemma parse_row_run:
  assumes "cache_ok rx (en_cache d)"
  obtains c where "parse_row rx r (d, fs) = (Inr (row_result rx (en_parsers d) r), d\<lparr>en_cache := c\<rparr>, fs)" "cache_ok rx c"
proof -
  obtain c where "Parse rx (en_parsers d) (lr_hostname r) (case lr_app_name r of None \<Rightarrow> [] | Some a \<Rightarrow> a) (lr_message r) (en_cache d) =
      (row_result rx (en_parsers d) r, c)" "cache_ok rx c"
    using computesD [OF Parse_computes assms] by (metis row_result_def)
  with that show ?thesis by (simp add: parse_row_def local_def)
qed

definition reparse_one :: "regexp \<Rightarrow> Parser list \<Rightarrow> log_row \<Rightarrow> log_row \<Rightarrow> log_row" where
  "reparse_one rx ps x r0 = (if lr_id x = lr_id r0 then store_result (row_result rx ps r0) x else x)"

lemma reparse_rows_run:
  assumes "cache_ok rx (en_cache d)"
  shows "\<exists>d'. reparse_rows rx rs (n, u) (d, []) =
      (Inr (n + length rs, u + length (filter (\<lambda>r. row_result rx (en_parsers d) r \<noteq> None) rs)), d', []) \<and>
    db_logs d' = map (\<lambda>x. foldl (reparse_one rx (en_parsers d)) x rs) (db_logs d) \<and> en_parsers d' = en_parsers d"
  using assms
proof (induction rs arbitrary: n u d)
  case Nil
  then show ?case by (simp add: ret_def)
next
  case (Cons r rs)
  obtain c where c: "parse_row rx r (d, []) = (Inr (row_result rx (en_parsers d) r), d\<lparr>en_cache := c\<rparr>, [])" "cache_ok rx c"
    using parse_row_run [OF Cons.prems] by blast
  show ?case
  proof (cases "row_result rx (en_parsers d) r")
    case None
    then have "reparse_one rx (en_parsers d) x r = x" for x by (simp add: reparse_one_def store_result_def)
    with None c Cons.IH [of "d\<lparr>en_cache := c\<rparr>" "n + 1" u] show ?thesis by (simp add: bind_def)
  next
    case (Some p)
    let ?d = "d\<lparr>en_cache := c, db_logs := map (\<lambda>x. reparse_one rx (en_parsers d) x r) (db_logs d)\<rparr>"
    have "set_parsed (lr_id r) p (d\<lparr>en_cache := c\<rparr>, []) = (Inr (), ?d, [])"
      by (simp add: set_parsed_def stmt_def reparse_one_def store_result_def Some)
    with Some c Cons.IH [of ?d "n + 1" "u + 1"] show ?thesis by (simp add: bind_def attempt_def comp_def)
  qed
qed

lemma reparse_one_other: "\<forall>r0 \<in> set rs. lr_id r0 \<noteq> lr_id x \<Longrightarrow> foldl (reparse_one rx ps) x rs = x"
  by (induction rs) (auto simp: reparse_one_def)

lemma store_result_id [simp]: "lr_id (store_result res x) = lr_id x"
  by (simp add: store_result_def split: option.split)

lemma reparse_one_all:
  "distinct (map lr_id rs) \<Longrightarrow> (\<And>r0. r0 \<in> set rs \<Longrightarrow> lr_id r0 = lr_id x \<Longrightarrow> r0 = x) \<Longrightarrow>
    foldl (reparse_one rx ps) x rs = (if x \<in> set rs then store_result (row_result rx ps x) x else x)"
proof (induction rs)
  case (Cons r rs)
  show ?case
  proof (cases "lr_id r = lr_id x")
    case True
    then have "r = x" using Cons.prems(2) by simp
    moreover have "\<forall>r0 \<in> set rs. lr_id r0 \<noteq> lr_id x" using Cons.prems(1) True by (metis distinct.simps(2) imageI list.simps(9) set_map)
    ultimately show ?thesis by (simp add: reparse_one_other reparse_one_def [of _ _ x x])
  next
    case False
    with Cons show ?thesis by (auto simp: reparse_one_def [of _ _ x r])
  qed
qed simp

text \<open>
  Parsing old rows again: when the limit allows for all of them, every row without parsed fields gets what the engine's
  parsers make of it, and rows with fields are left alone. The host and the times of the request restrict only the
  rows whose fields are an empty object: a row whose fields are \<^verbatim>\<open>NULL\<close> is parsed whatever its host and time are.
\<close>
theorem reparse_updates:
  assumes "cache_ok rx (en_cache d)" "distinct (map lr_id (db_logs d))" "\<And>rows. mset (ord rows) = mset rows"
    and "length (db_logs d) \<le> (if limit > 0 then nat limit else 10000)"
  shows "\<exists>d'. snd (ReparseUnparsed rx pg ord hostname from_t to_t limit (d, [])) = (d', []) \<and>
    db_logs d' = map (\<lambda>r. if lr_parsed_fields r = None \<or>
        lr_parsed_fields r = Some [] \<and> (hostname = [] \<or> (case lr_fromhost_ip r of None \<Rightarrow> [] | Some ip \<Rightarrow> ip) = hostname) \<and>
          (from_t = [] \<or> pg_time pg from_t \<le> lr_timestamp r) \<and> (to_t = [] \<or> lr_timestamp r \<le> pg_time pg to_t)
      then store_result (row_result rx (en_parsers d) r) r else r) (db_logs d)"
proof -
  let ?sel = "filter (reparse_selects pg hostname from_t to_t) (db_logs d)"
  let ?rows = "ord ?sel"
  have len: "length ?rows \<le> (if limit > 0 then nat limit else 10000)"
    using assms(3) [of ?sel] assms(4) length_filter_le [of _ "db_logs d"] by (metis order_trans size_mset)
  then have all: "take (if limit > 0 then nat limit else 10000) ?rows = ?rows" by simp
  have set: "set ?rows = set ?sel" using assms(3) [of ?sel] by (metis set_mset_mset)
  have "mset (map lr_id ?rows) = mset (map lr_id ?sel)" using assms(3) [of ?sel] by (simp add: mset_map)
  then have "distinct (map lr_id ?rows)"
    using distinct_map_filter [OF assms(2)] mset_eq_imp_distinct_iff by blast
  moreover have "r0 = x" if "r0 \<in> set ?rows" "lr_id r0 = lr_id x" "x \<in> set (db_logs d)" for r0 x
    using that set assms(2) by (metis (no_types, lifting) distinct_map filter_is_subset inj_onD subsetD)
  ultimately have "foldl (reparse_one rx (en_parsers d)) x ?rows =
      (if reparse_selects pg hostname from_t to_t x then store_result (row_result rx (en_parsers d) x) x else x)" if "x \<in> set (db_logs d)" for x
    using that set by (subst reparse_one_all) auto
  then have "map (\<lambda>x. foldl (reparse_one rx (en_parsers d)) x ?rows) (db_logs d) =
      map (\<lambda>x. if reparse_selects pg hostname from_t to_t x then store_result (row_result rx (en_parsers d) x) x else x) (db_logs d)" by simp
  moreover obtain d' m where "reparse_rows rx ?rows (0, 0) (d, []) = (Inr m, d', [])"
    "db_logs d' = map (\<lambda>x. foldl (reparse_one rx (en_parsers d)) x ?rows) (db_logs d)"
    using reparse_rows_run [OF assms(1), of ?rows 0 0] by blast
  ultimately show ?thesis
    using all by (auto simp: ReparseUnparsed_def bind_def query_def stmt_def reparse_selects_def)
qed

definition unparsed_row :: "int \<Rightarrow> string \<Rightarrow> (string \<times> string) list option \<Rightarrow> log_row" where
  "unparsed_row i ip flds = \<lparr>lr_id = i, lr_timestamp = 0, lr_hostname = ''fw1'', lr_fromhost_ip = Some ip, lr_app_name = None, lr_process_id = None,
     lr_msg_id = None, lr_severity = ''info'', lr_facility = None, lr_message = ''ip=9'', lr_raw_message = None,
     lr_parsed_fields = flds, lr_matched_parsers = None\<rparr>"

definition reparse_db :: parsedb where
  "reparse_db = \<lparr>db_parsers = [], db_registry = [], db_next = 1, db_logs = [unparsed_row 1 ''10.0.0.1'' (Some []), unparsed_row 2 ''10.0.0.2'' None],
     en_parsers = [ip_parser 2 ''b'' ''all'' None ''dst''], en_reload = False, en_cache = Map.empty\<rparr>"

definition no_ops :: pg_ops where
  "no_ops = \<lparr>pg_ilike = (\<lambda>_ _. False), pg_less = (\<lambda>_ _. False), pg_regex = (\<lambda>_ _. False), pg_search = (\<lambda>_ _. False), pg_time = (\<lambda>_. 0)\<rparr>"

theorem reparse_updates_witness:
  "\<exists>d'. snd (ReparseUnparsed ip_regex no_ops rev ''10.0.0.9'' [] [] 5 (reparse_db, [])) = (d', []) \<and>
     db_logs d' = [unparsed_row 1 ''10.0.0.1'' (Some []), store_result (row_result ip_regex (en_parsers reparse_db) (unparsed_row 2 ''10.0.0.2'' None)) (unparsed_row 2 ''10.0.0.2'' None)]"
  using reparse_updates [of ip_regex reparse_db rev 5 no_ops "''10.0.0.9''" "[]" "[]"]
  by (simp add: reparse_db_def cache_ok_def unparsed_row_def)

end
