(* ===== verification/ParserHandlers.thy ===== *)
theory ParserHandlers
  imports ParserEngine
begin

text \<open>
  Managing parsers, \<^verbatim>\<open>handler/parser.go\<close>. The ids of both tables come from one counter.
\<close>

record field_request =
  fr_Name :: string
  fr_Label :: string
  fr_Type :: string

record parser_request =
  cp_Name :: string
  cp_Description :: "string option"
  cp_DeviceType :: string
  cp_MatchType :: string
  cp_MatchValue :: "string option"
  cp_Regex :: string
  cp_Enabled :: bool
  cp_Fields :: "field_request list"

record parser_changes =
  up_Name :: "string option"
  up_Description :: "string option"
  up_DeviceType :: "string option"
  up_MatchType :: "string option"
  up_MatchValue :: "string option"
  up_Regex :: "string option"
  up_Enabled :: "bool option"
  up_Fields :: "field_request list option"

section \<open>Statements\<close>

definition insert_parser :: "time \<Rightarrow> parser_request \<Rightarrow> (parsedb, int) sql" where
  "insert_parser now req = stmt (\<lambda>d.
     if \<not> is_int32 (db_next d) then Inl SqlErr
     else Inr (db_next d, d\<lparr>db_parsers := db_parsers d @ [\<lparr>pa_ID = db_next d, pa_Name = cp_Name req, pa_Description = cp_Description req,
         pa_DeviceType = cp_DeviceType req, pa_MatchType = cp_MatchType req, pa_MatchValue = cp_MatchValue req, pa_Regex = cp_Regex req,
         pa_Enabled = cp_Enabled req, pa_IsBuiltin = False, pa_CreatedAt = now, pa_UpdatedAt = now, pa_Fields = []\<rparr>],
       db_next := db_next d + 1\<rparr>))"

definition field_row :: "int \<Rightarrow> int \<Rightarrow> string \<Rightarrow> string \<Rightarrow> string \<Rightarrow> ParsedField" where
  "field_row i pid name label typ = \<lparr>pf_ID = i, pf_ParserID = pid, pf_ParserName = [], pf_Name = name, pf_Label = label, pf_Type = typ\<rparr>"

text \<open>The foreign key and the uniqueness of a name within its parser.\<close>

definition field_fits :: "int \<Rightarrow> string \<Rightarrow> parsedb \<Rightarrow> bool" where
  "field_fits pid name d \<longleftrightarrow>
     list_ex (\<lambda>p. pa_ID p = pid) (db_parsers d) \<and> \<not> list_ex (\<lambda>f. pf_ParserID f = pid \<and> pf_Name f = name) (db_registry d)"

definition insert_field :: "int \<Rightarrow> field_request \<Rightarrow> (parsedb, unit) sql" where
  "insert_field pid f = stmt (\<lambda>d.
     let ftype = (if fr_Type f = [] then ''string'' else fr_Type f) in
     if \<not> is_int32 (db_next d) \<or> \<not> field_fits pid (fr_Name f) d then Inl SqlErr
     else Inr ((), d\<lparr>db_registry := db_registry d @ [field_row (db_next d) pid (fr_Name f) (fr_Label f) ftype], db_next := db_next d + 1\<rparr>))"

definition find_parser :: "int \<Rightarrow> parsedb \<Rightarrow> sqlerr + Parser" where
  "find_parser i d =
     (if \<not> is_int32 i then Inl SqlErr
      else (case find (\<lambda>p. pa_ID p = i) (db_parsers d) of None \<Rightarrow> Inl NoRows | Some p \<Rightarrow> Inr p))"

text \<open>An error of the query leaves the variable false.\<close>

definition check_builtin :: "int \<Rightarrow> (bool \<Rightarrow> (parsedb, 'a) sql) \<Rightarrow> (parsedb, 'a) sql" where
  "check_builtin i k = attempt (query (\<lambda>d. map_sum id pa_IsBuiltin (find_parser i d))) (\<lambda>r. case r of Inl err \<Rightarrow> k False | Inr b \<Rightarrow> k b)"

definition has_changes :: "parser_changes \<Rightarrow> bool" where
  "has_changes req \<longleftrightarrow> up_Name req \<noteq> None \<or> up_Description req \<noteq> None \<or> up_DeviceType req \<noteq> None \<or> up_MatchType req \<noteq> None \<or>
     up_MatchValue req \<noteq> None \<or> up_Regex req \<noteq> None \<or> up_Enabled req \<noteq> None"

definition set_parser :: "time \<Rightarrow> parser_changes \<Rightarrow> Parser \<Rightarrow> Parser" where
  "set_parser now req p =
     p\<lparr>pa_Name := (case up_Name req of None \<Rightarrow> pa_Name p | Some v \<Rightarrow> v),
       pa_Description := (case up_Description req of None \<Rightarrow> pa_Description p | Some v \<Rightarrow> Some v),
       pa_DeviceType := (case up_DeviceType req of None \<Rightarrow> pa_DeviceType p | Some v \<Rightarrow> v),
       pa_MatchType := (case up_MatchType req of None \<Rightarrow> pa_MatchType p | Some v \<Rightarrow> v),
       pa_MatchValue := (case up_MatchValue req of None \<Rightarrow> pa_MatchValue p | Some v \<Rightarrow> Some v),
       pa_Regex := (case up_Regex req of None \<Rightarrow> pa_Regex p | Some v \<Rightarrow> v),
       pa_Enabled := (case up_Enabled req of None \<Rightarrow> pa_Enabled p | Some v \<Rightarrow> v),
       pa_UpdatedAt := now\<rparr>"

definition update_parser :: "time \<Rightarrow> int \<Rightarrow> parser_changes \<Rightarrow> (parsedb, unit) sql" where
  "update_parser now i req = stmt (\<lambda>d.
     if \<not> is_int32 i then Inl SqlErr
     else Inr ((), d\<lparr>db_parsers := map (\<lambda>p. if pa_ID p = i then set_parser now req p else p) (db_parsers d)\<rparr>))"

definition delete_fields :: "int \<Rightarrow> (parsedb, unit) sql" where
  "delete_fields i = stmt (\<lambda>d.
     if \<not> is_int32 i then Inl SqlErr else Inr ((), d\<lparr>db_registry := filter (\<lambda>f. pf_ParserID f \<noteq> i) (db_registry d)\<rparr>))"

definition delete_parser :: "int \<Rightarrow> (parsedb, unit) sql" where
  "delete_parser i = stmt (\<lambda>d.
     if \<not> is_int32 i then Inl SqlErr
     else Inr ((), d\<lparr>db_parsers := filter (\<lambda>p. pa_ID p \<noteq> i) (db_parsers d),
       db_registry := filter (\<lambda>f. pf_ParserID f \<noteq> i) (db_registry d)\<rparr>))"

text \<open>\<^verbatim>\<open>INSERT ... SELECT\<close>: the rows come in the order \<open>ord\<close> the database chooses, and get ids in that order.\<close>

definition copy_fields :: "(ParsedField list \<Rightarrow> ParsedField list) \<Rightarrow> int \<Rightarrow> int \<Rightarrow> (parsedb, unit) sql" where
  "copy_fields ord newID i = stmt (\<lambda>d.
     let rows = ord (filter (\<lambda>f. pf_ParserID f = i) (db_registry d)) in
     if \<not> list_all (\<lambda>f. field_fits newID (pf_Name f) d) rows \<or> \<not> distinct (map pf_Name rows) \<or> \<not> is_int32 (db_next d + int (length rows)) then Inl SqlErr
     else Inr ((), d\<lparr>db_registry := db_registry d @
           map (\<lambda>(n, f). field_row (db_next d + int n) newID (pf_Name f) (pf_Label f) (pf_Type f)) (enumerate 0 rows),
         db_next := db_next d + int (length rows)\<rparr>))"

section \<open>Handlers\<close>

definition ListParsers :: "pg_ops \<Rightarrow> (parsedb, Parser list resp) sql" where
  "ListParsers pg = attempt (GetAllParsers pg) (\<lambda>r. case r of
     Inl err \<Rightarrow> ret (Failure 500 ''parser.listFailed'') | Inr ps \<Rightarrow> ret (Answer 200 ps))"

definition CreateParser :: "time \<Rightarrow> parser_request option \<Rightarrow> (parsedb, int resp) sql" where
  "CreateParser now body =
     (case body of
        None \<Rightarrow> ret (Failure 400 ''error.invalidRequestBody'')
      | Some req \<Rightarrow>
          handler_tx
            (attempt (insert_parser now req) (\<lambda>r. case r of
               Inl err \<Rightarrow> ret (Inl (Failure 500 ''parser.createFailed''))
             | Inr i \<Rightarrow> attempt (for_each (insert_field i) (cp_Fields req)) (\<lambda>r. case r of
                 Inl err \<Rightarrow> ret (Inl (Failure 500 ''parser.fieldInsertFailed''))
               | Inr _ \<Rightarrow> ret (Inr i))))
            (\<lambda>i. bind Reload (\<lambda>_. ret (Answer 201 i))))"

definition UpdateParser :: "time \<Rightarrow> string \<Rightarrow> parser_changes option \<Rightarrow> (parsedb, string resp) sql" where
  "UpdateParser now param body =
     (case parseIDParam param of
        None \<Rightarrow> ret (Failure 400 ''error.invalidID'')
      | Some i \<Rightarrow>
          (case body of
             None \<Rightarrow> ret (Failure 400 ''error.invalidRequestBody'')
           | Some req \<Rightarrow>
               check_builtin i (\<lambda>isBuiltin.
                 if isBuiltin then ret (Failure 403 ''parser.builtInImmutable'')
                 else if \<not> has_changes req \<and> up_Fields req = None then ret (Failure 400 ''parser.noFieldsToUpdate'')
                 else handler_tx
                   (attempt (if has_changes req then update_parser now i req else ret ()) (\<lambda>r. case r of
                      Inl err \<Rightarrow> ret (Inl (Failure 500 ''parser.updateFailed''))
                    | Inr _ \<Rightarrow>
                        (case up_Fields req of
                           None \<Rightarrow> ret (Inr ())
                         | Some flds \<Rightarrow> attempt (delete_fields i) (\<lambda>r. case r of
                             Inl err \<Rightarrow> ret (Inl (Failure 500 ''parser.fieldsUpdateFailed''))
                           | Inr _ \<Rightarrow> attempt (for_each (insert_field i) flds) (\<lambda>r. case r of
                               Inl err \<Rightarrow> ret (Inl (Failure 500 ''parser.fieldInsertFailed''))
                             | Inr _ \<Rightarrow> ret (Inr ()))))))
                   (\<lambda>_. bind Reload (\<lambda>_. ret (Answer 200 ''parser updated''))))))"

definition DeleteParser :: "string \<Rightarrow> (parsedb, string resp) sql" where
  "DeleteParser param =
     (case parseIDParam param of
        None \<Rightarrow> ret (Failure 400 ''error.invalidID'')
      | Some i \<Rightarrow>
          check_builtin i (\<lambda>isBuiltin.
            if isBuiltin then ret (Failure 403 ''parser.builtInImmutable'')
            else attempt (delete_parser i) (\<lambda>r. case r of
              Inl err \<Rightarrow> ret (Failure 500 ''parser.deleteFailed'')
            | Inr _ \<Rightarrow> bind Reload (\<lambda>_. ret (Answer 200 ''parser deleted'')))))"

definition clone_of :: "Parser \<Rightarrow> parser_request" where
  "clone_of p = \<lparr>cp_Name = pa_Name p @ '' (Copy)'', cp_Description = pa_Description p, cp_DeviceType = pa_DeviceType p,
     cp_MatchType = pa_MatchType p, cp_MatchValue = pa_MatchValue p, cp_Regex = pa_Regex p, cp_Enabled = pa_Enabled p, cp_Fields = []\<rparr>"

definition CloneParser :: "(ParsedField list \<Rightarrow> ParsedField list) \<Rightarrow> time \<Rightarrow> string \<Rightarrow> (parsedb, int resp) sql" where
  "CloneParser ord now param =
     (case parseIDParam param of
        None \<Rightarrow> ret (Failure 400 ''error.invalidID'')
      | Some i \<Rightarrow>
          attempt (query (find_parser i)) (\<lambda>r. case r of
            Inl err \<Rightarrow> ret (Failure 404 ''parser.notFound'')
          | Inr p \<Rightarrow>
              handler_tx
                (attempt (insert_parser now (clone_of p)) (\<lambda>r. case r of
                   Inl err \<Rightarrow> ret (Inl (Failure 500 ''parser.cloneFailed''))
                 | Inr newID \<Rightarrow> attempt (copy_fields ord newID i) (\<lambda>r. case r of
                     Inl err \<Rightarrow> ret (Inl (Failure 500 ''parser.fieldsCloneFailed''))
                   | Inr _ \<Rightarrow> ret (Inr newID))))
                (\<lambda>newID. bind Reload (\<lambda>_. ret (Answer 201 newID)))))"

definition TestParser_handler :: "regexp \<Rightarrow> (string \<times> string) option \<Rightarrow> (bool \<times> (string \<times> string) list) resp" where
  "TestParser_handler rx body =
     (case body of
        None \<Rightarrow> Failure 400 ''error.invalidRequestBody''
      | Some (pattern, sampleLog) \<Rightarrow>
          (case TestParser rx pattern sampleLog of None \<Rightarrow> Failure 400 ''parser.testFailed'' | Some resp \<Rightarrow> Answer 200 resp))"

definition DefaultParserLimit :: int where "DefaultParserLimit = 10000"

text \<open>The answer and the arguments of the run it starts; \<open>bound\<close>: the body was bound without an error.\<close>

definition ReparseUnparsed_handler :: "bool \<Rightarrow> string \<times> string \<times> string \<times> int \<Rightarrow> string resp \<times> string \<times> string \<times> string \<times> int" where
  "ReparseUnparsed_handler bound req =
     (case req of (hostname, from_t, to_t, limit) \<Rightarrow>
       (let l1 = (if bound then limit else DefaultParserLimit); l2 = (if l1 \<le> 0 then DefaultParserLimit else l1)
        in (Answer 200 ''reparse started in background'', hostname, from_t, to_t, l2)))"

definition ListParsedFields :: "pg_ops \<Rightarrow> string \<Rightarrow> (parsedb, ParsedField list resp) sql" where
  "ListParsedFields pg hostnames =
     (if hostnames \<noteq> [] then
        attempt (GetParsedFieldsForHostnames pg (map trim_space (split_on (CHR '','') hostnames))) (\<lambda>r. case r of
          Inl err \<Rightarrow> ret (Failure 500 ''parser.fieldsGetFailed'') | Inr fs \<Rightarrow> ret (Answer 200 fs))
      else attempt (GetParsedFieldRegistry pg) (\<lambda>r. case r of
          Inl err \<Rightarrow> ret (Failure 500 ''parser.registryGetFailed'') | Inr fs \<Rightarrow> ret (Answer 200 fs)))"

end
