(* ===== verification/ParserTables.thy ===== *)
theory ParserTables
  imports ParserTheorems ParserHandlers
begin

text \<open>
  The invariant of the parser tables and of the engine that loads them, and what protects built-in parsers.
\<close>

section \<open>The invariant\<close>

definition field_key :: "ParsedField \<Rightarrow> int \<times> string" where
  "field_key f = (pf_ParserID f, pf_Name f)"

definition rows_ok :: "parsedb \<Rightarrow> bool" where
  "rows_ok d \<longleftrightarrow> distinct (map pa_ID (db_parsers d)) \<and> (\<forall>p \<in> set (db_parsers d). pa_ID p < db_next d \<and> pa_Fields p = [])"

definition registry_ok :: "parsedb \<Rightarrow> bool" where
  "registry_ok d \<longleftrightarrow> distinct (map field_key (db_registry d)) \<and> distinct (map pf_ID (db_registry d)) \<and>
     (\<forall>f \<in> set (db_registry d). pf_ID f < db_next d \<and> pf_ParserID f \<in> pa_ID ` set (db_parsers d))"

definition engine_ok :: "regexp \<Rightarrow> parsedb \<Rightarrow> bool" where
  "engine_ok rx d \<longleftrightarrow> (\<forall>p \<in> set (en_parsers d). distinct (map pf_Name (pa_Fields p))) \<and> cache_ok rx (en_cache d)"

definition parsers_ok :: "regexp \<Rightarrow> parsedb \<Rightarrow> bool" where
  "parsers_ok rx d \<longleftrightarrow> rows_ok d \<and> registry_ok d \<and> engine_ok rx d"

section \<open>Statements keep it\<close>

lemma parsers_ok_extend:
  assumes "parsers_ok rx d" "db_next d \<le> n" "distinct (map pf_ID new)" "distinct (map field_key new)"
    and "\<And>f. f \<in> set new \<Longrightarrow> db_next d \<le> pf_ID f \<and> pf_ID f < n"
    and "\<And>f. f \<in> set new \<Longrightarrow> pf_ParserID f \<in> pa_ID ` set (db_parsers d) \<and> field_key f \<notin> field_key ` set (db_registry d)"
  shows "parsers_ok rx (d\<lparr>db_registry := db_registry d @ new, db_next := n\<rparr>)"
proof -
  have old: "\<forall>f \<in> set (db_registry d). pf_ID f < db_next d \<and> pf_ParserID f \<in> pa_ID ` set (db_parsers d)"
    and dist: "distinct (map field_key (db_registry d))" "distinct (map pf_ID (db_registry d))"
    using assms(1) by (simp_all add: parsers_ok_def registry_ok_def)
  have "pf_ID f \<noteq> pf_ID g" if "f \<in> set (db_registry d)" "g \<in> set new" for f g
    using old assms(5) that by (metis linorder_not_le)
  then have "pf_ID ` set (db_registry d) \<inter> pf_ID ` set new = {}" by blast
  moreover have "field_key ` set (db_registry d) \<inter> field_key ` set new = {}"
  proof -
    have "\<forall>f \<in> set new. field_key f \<notin> field_key ` set (db_registry d)" using assms(6) by simp
    then show ?thesis unfolding disjoint_iff by (metis imageE)
  qed
  moreover have "\<forall>f \<in> set (db_registry d). pf_ID f < n" using old assms(2) by (meson less_le_trans)
  ultimately have "registry_ok (d\<lparr>db_registry := db_registry d @ new, db_next := n\<rparr>)"
    using old dist assms(3-6) by (auto simp: registry_ok_def)
  moreover have "rows_ok (d\<lparr>db_registry := db_registry d @ new, db_next := n\<rparr>)"
    using assms(1,2) by (auto simp: parsers_ok_def rows_ok_def)
  ultimately show ?thesis using assms(1) by (simp add: parsers_ok_def engine_ok_def)
qed

lemma insert_parser_keeps: "keeps (parsers_ok rx) (insert_parser now req)"
  unfolding insert_parser_def
proof (rule keeps_stmt)
  fix d x d'
  assume ok: "parsers_ok rx d"
    and d': "(if \<not> is_int32 (db_next d) then Inl SqlErr
     else Inr (db_next d, d\<lparr>db_parsers := db_parsers d @ [\<lparr>pa_ID = db_next d, pa_Name = cp_Name req, pa_Description = cp_Description req,
         pa_DeviceType = cp_DeviceType req, pa_MatchType = cp_MatchType req, pa_MatchValue = cp_MatchValue req, pa_Regex = cp_Regex req,
         pa_Enabled = cp_Enabled req, pa_IsBuiltin = False, pa_CreatedAt = now, pa_UpdatedAt = now, pa_Fields = []\<rparr>],
       db_next := db_next d + 1\<rparr>)) = Inr (x, d')"
  have "rows_ok d'" using ok d' by (force simp: parsers_ok_def rows_ok_def split: if_splits)
  moreover have "registry_ok d'" using ok d' by (force simp: parsers_ok_def registry_ok_def split: if_splits)
  ultimately show "parsers_ok rx d'" using ok d' by (auto simp: parsers_ok_def engine_ok_def split: if_splits)
qed

lemma field_fits_iff: "field_fits pid name d \<longleftrightarrow> pid \<in> pa_ID ` set (db_parsers d) \<and> (pid, name) \<notin> field_key ` set (db_registry d)"
  by (auto simp: field_fits_def list_ex_iff field_key_def image_iff)

lemma field_row_simps [simp]:
  "pf_ID (field_row i pid name label typ) = i" "pf_ParserID (field_row i pid name label typ) = pid"
  "pf_Name (field_row i pid name label typ) = name" "field_key (field_row i pid name label typ) = (pid, name)"
  by (simp_all add: field_row_def field_key_def)

lemma insert_field_keeps: "keeps (parsers_ok rx) (insert_field pid f)"
proof -
  have "parsers_ok rx (d\<lparr>db_registry := db_registry d @ [field_row (db_next d) pid (fr_Name f) l t], db_next := db_next d + 1\<rparr>)"
    if "parsers_ok rx d" "field_fits pid (fr_Name f) d" for d l t
    by (rule parsers_ok_extend) (use that in \<open>auto simp: field_fits_iff\<close>)
  then show ?thesis unfolding insert_field_def by (intro keeps_stmt) (auto simp: Let_def split: if_splits)
qed

lemma set_parser_simps [simp]: "pa_ID (set_parser now req p) = pa_ID p" "pa_Fields (set_parser now req p) = pa_Fields p"
  by (simp_all add: set_parser_def)

lemma update_parser_keeps: "keeps (parsers_ok rx) (update_parser now i req)"
proof -
  have ids: "map pa_ID (map (\<lambda>p. if pa_ID p = i then set_parser now req p else p) ps) = map pa_ID ps" for ps by (induction ps) auto
  have "pa_ID (if pa_ID p = i then set_parser now req p else p) = pa_ID p" for p by simp
  then have "pa_ID ` (\<lambda>p. if pa_ID p = i then set_parser now req p else p) ` A = pa_ID ` A" for A unfolding image_image by simp
  then show ?thesis unfolding update_parser_def
    by (intro keeps_stmt) (auto simp: parsers_ok_def rows_ok_def registry_ok_def engine_ok_def ids simp del: map_map split: if_splits)
qed

lemma registry_filter:
  assumes "registry_ok d" "\<And>f. f \<in> set (db_registry d) \<Longrightarrow> P f \<Longrightarrow> pf_ParserID f \<in> pa_ID ` set ps"
  shows "registry_ok (d\<lparr>db_parsers := ps, db_registry := filter P (db_registry d)\<rparr>)"
  using assms by (auto simp: registry_ok_def distinct_map_filter)

lemma delete_fields_keeps: "keeps (parsers_ok rx) (delete_fields i)"
proof -
  have "parsers_ok rx d \<Longrightarrow> parsers_ok rx (d\<lparr>db_registry := filter (\<lambda>f. pf_ParserID f \<noteq> i) (db_registry d)\<rparr>)" for d
    using registry_filter [of d "\<lambda>f. pf_ParserID f \<noteq> i" "db_parsers d"]
    by (auto simp: parsers_ok_def rows_ok_def engine_ok_def registry_ok_def)
  then show ?thesis unfolding delete_fields_def by (intro keeps_stmt) (auto split: if_splits)
qed

lemma delete_parser_keeps: "keeps (parsers_ok rx) (delete_parser i)"
proof -
  have "parsers_ok rx d \<Longrightarrow> parsers_ok rx (d\<lparr>db_parsers := filter (\<lambda>p. pa_ID p \<noteq> i) (db_parsers d), db_registry := filter (\<lambda>f. pf_ParserID f \<noteq> i) (db_registry d)\<rparr>)" for d
    using registry_filter [of d "\<lambda>f. pf_ParserID f \<noteq> i" "filter (\<lambda>p. pa_ID p \<noteq> i) (db_parsers d)"]
    by (auto simp: parsers_ok_def rows_ok_def engine_ok_def registry_ok_def distinct_map_filter)
  then show ?thesis unfolding delete_parser_def by (intro keeps_stmt) (auto split: if_splits)
qed

definition copied :: "int \<Rightarrow> int \<Rightarrow> ParsedField list \<Rightarrow> ParsedField list" where
  "copied base newID rows = map (\<lambda>(n, f). field_row (base + int n) newID (pf_Name f) (pf_Label f) (pf_Type f)) (enumerate 0 rows)"

lemma copied_keys:
  "map pf_ID (copied base newID rows) = map (\<lambda>n. base + int n) [0..<length rows]"
  "map field_key (copied base newID rows) = map (\<lambda>f. (newID, pf_Name f)) rows"
  by (rule nth_equalityI; simp add: copied_def nth_enumerate_eq)+

lemma copy_fields_keeps: "keeps (parsers_ok rx) (copy_fields ord newID i)"
proof -
  have "parsers_ok rx (d\<lparr>db_registry := db_registry d @ copied (db_next d) newID rows, db_next := db_next d + int (length rows)\<rparr>)"
    if "parsers_ok rx d" "\<forall>f \<in> set rows. field_fits newID (pf_Name f) d" "distinct (map pf_Name rows)" for d rows
  proof (rule parsers_ok_extend)
    let ?new = "copied (db_next d) newID rows"
    show "distinct (map pf_ID ?new)" unfolding copied_keys by (simp add: distinct_map inj_on_def)
    show "distinct (map field_key ?new)" unfolding copied_keys using that(3) by (simp add: distinct_map inj_on_def)
    fix f
    assume f: "f \<in> set ?new"
    then have "pf_ID f \<in> set (map pf_ID ?new)" "field_key f \<in> set (map field_key ?new)" by simp_all
    then show "db_next d \<le> pf_ID f \<and> pf_ID f < db_next d + int (length rows)"
      "pf_ParserID f \<in> pa_ID ` set (db_parsers d) \<and> field_key f \<notin> field_key ` set (db_registry d)"
      unfolding copied_keys using that(2) by (auto simp: field_fits_iff field_key_def [of f])
  qed (use that in auto)
  then show ?thesis unfolding copy_fields_def
    by (intro keeps_stmt) (auto simp: Let_def list_all_iff copied_def [symmetric] split: if_splits)
qed

lemma Reload_keeps: "keeps (parsers_ok rx) Reload"
  unfolding Reload_def by (rule keeps_local) (auto simp: parsers_ok_def rows_ok_def registry_ok_def engine_ok_def)

lemmas statements_keep [keeps_intros] = insert_parser_keeps insert_field_keeps update_parser_keeps delete_fields_keeps delete_parser_keeps
  copy_fields_keeps Reload_keeps

section \<open>Handlers and the engine keep it\<close>

lemma check_builtin_keeps [keeps_intros]: "(\<And>b. keeps I (k b)) \<Longrightarrow> keeps I (check_builtin i k)"
  unfolding check_builtin_def by (intro keeps_intros)

lemma handlers_keep:
  "keeps (parsers_ok rx) (CreateParser now req)" "keeps (parsers_ok rx) (UpdateParser now param chg)"
  "keeps (parsers_ok rx) (DeleteParser param)" "keeps (parsers_ok rx) (CloneParser ordf now param)"
  unfolding CreateParser_def UpdateParser_def DeleteParser_def CloneParser_def by (intro keeps_intros)+

lemma loaded_fields:
  assumes "registry_ok d"
  shows "distinct (map pf_Name (sort_key pf_ID (filter (\<lambda>f. pf_ParserID f = i) (db_registry d))))"
proof -
  let ?fs = "filter (\<lambda>f. pf_ParserID f = i) (db_registry d)"
  have "distinct (map field_key ?fs)" using assms by (simp add: registry_ok_def distinct_map_filter)
  then have "distinct ?fs" "inj_on field_key (set ?fs)" by (simp_all add: distinct_map)
  then have "distinct (sort_key pf_ID ?fs)" "inj_on pf_Name (set (sort_key pf_ID ?fs))" by (auto simp: inj_on_def field_key_def)
  then show ?thesis by (simp add: distinct_map)
qed

lemma with_fields_run:
  assumes "registry_ok d" "pa_Fields p = []"
  shows "\<exists>q fs'. with_fields p (d, fs) = (Inr q, d, fs') \<and> distinct (map pf_Name (pa_Fields q))"
  using assms loaded_fields [of d] by (auto simp: with_fields_def attempt_def query_def stmt_def)

lemma all_with_fields_run:
  assumes "registry_ok d" "\<forall>p \<in> set ps. pa_Fields p = []"
  shows "\<exists>qs fs'. all_with_fields ps (d, fs) = (Inr qs, d, fs') \<and> (\<forall>q \<in> set qs. distinct (map pf_Name (pa_Fields q)))"
  using assms(2)
proof (induction ps arbitrary: fs)
  case (Cons p ps)
  obtain q fs1 where 1: "with_fields p (d, fs) = (Inr q, d, fs1)" "distinct (map pf_Name (pa_Fields q))"
    using with_fields_run [OF assms(1)] Cons.prems by (metis list.set_intros(1))
  obtain qs fs2 where 2: "all_with_fields ps (d, fs1) = (Inr qs, d, fs2)" "\<forall>q \<in> set qs. distinct (map pf_Name (pa_Fields q))"
    using Cons.IH [of fs1] Cons.prems by auto
  show ?case using 1 2 by (simp add: bind_def)
qed simp

lemma loadParsers_keeps: "keeps (parsers_ok rx) loadParsers"
proof (rule keepsI)
  fix s :: "parsedb \<times> bool list"
  assume ok: "parsers_ok rx (fst s)"
  let ?rows = "sort_key pa_ID (filter pa_Enabled (db_parsers (fst s)))"
  have "\<forall>p \<in> set ?rows. pa_Fields p = []" "registry_ok (fst s)" using ok by (auto simp: parsers_ok_def rows_ok_def)
  then obtain qs fs' where "all_with_fields ?rows (fst s, tl (snd s)) = (Inr qs, fst s, fs')" "\<forall>q \<in> set qs. distinct (map pf_Name (pa_Fields q))"
    using all_with_fields_run [of "fst s" ?rows "tl (snd s)"] by blast
  with ok show "parsers_ok rx (fst (snd (loadParsers s)))"
    by (auto simp: loadParsers_def attempt_def query_def stmt_def bind_def local_def parsers_ok_def rows_ok_def registry_ok_def engine_ok_def)
qed

lemma reload_step_keeps: "keeps (parsers_ok rx) (reload_step tick)"
  unfolding reload_step_def
  by (intro keeps_intros loadParsers_keeps keeps_local) (auto simp: parsers_ok_def rows_ok_def registry_ok_def engine_ok_def split: if_splits)

lemma parse_row_keeps: "keeps (parsers_ok rx) (parse_row rx r)"
proof (rule keepsI)
  fix s :: "parsedb \<times> bool list"
  assume ok: "parsers_ok rx (fst s)"
  then have "cache_ok rx (en_cache (fst s))" by (simp add: parsers_ok_def engine_ok_def)
  then obtain c where "parse_row rx r (fst s, snd s) = (Inr (row_result rx (en_parsers (fst s)) r), (fst s)\<lparr>en_cache := c\<rparr>, snd s)" "cache_ok rx c"
    by (rule parse_row_run)
  with ok show "parsers_ok rx (fst (snd (parse_row rx r s)))" by (simp add: parsers_ok_def rows_ok_def registry_ok_def engine_ok_def)
qed

lemma set_parsed_keeps: "keeps (parsers_ok rx) (set_parsed i res)"
  unfolding set_parsed_def by (rule keeps_stmt) (auto simp: parsers_ok_def rows_ok_def registry_ok_def engine_ok_def)

lemma reparse_rows_keeps: "keeps (parsers_ok rx) (reparse_rows rx rs n)"
proof (induction rs arbitrary: n)
  case (Cons r rs)
  obtain a b where n: "n = (a, b)" by fastforce
  show ?case unfolding n reparse_rows.simps prod.case
    by (intro keeps_intros parse_row_keeps set_parsed_keeps Cons.IH)
qed (simp add: keeps_intros)

datatype parser_op =
  Create time "parser_request option" | Update time string "parser_changes option" | Delete string | Clone time string
| Tick bool | Reparse string string string int

fun run_op :: "regexp \<Rightarrow> pg_ops \<Rightarrow> (log_row list \<Rightarrow> log_row list) \<Rightarrow> (ParsedField list \<Rightarrow> ParsedField list) \<Rightarrow> parser_op \<Rightarrow> bool list \<Rightarrow> parsedb \<Rightarrow> parsedb" where
  "run_op rx pg ord ordf (Create now req) fs d = fst (snd (CreateParser now req (d, fs)))"
| "run_op rx pg ord ordf (Update now param chg) fs d = fst (snd (UpdateParser now param chg (d, fs)))"
| "run_op rx pg ord ordf (Delete param) fs d = fst (snd (DeleteParser param (d, fs)))"
| "run_op rx pg ord ordf (Clone now param) fs d = fst (snd (CloneParser ordf now param (d, fs)))"
| "run_op rx pg ord ordf (Tick tick) fs d = fst (snd (reload_step tick (d, fs)))"
| "run_op rx pg ord ordf (Reparse hostname from_t to_t limit) fs d = fst (snd (ReparseUnparsed rx pg ord hostname from_t to_t limit (d, fs)))"

lemma keeps_run: "keeps I m \<Longrightarrow> I d \<Longrightarrow> I (fst (snd (m (d, fs))))"
  by (rule keepsD) simp_all

lemma run_op_keeps: "parsers_ok rx d \<Longrightarrow> parsers_ok rx (run_op rx pg ord ordf op fs d)"
proof (cases op)
  case (Reparse h f t l)
  have "keeps (parsers_ok rx) (ReparseUnparsed rx pg ord h f t l)"
    unfolding ReparseUnparsed_def by (intro keeps_intros reparse_rows_keeps)
  then show "parsers_ok rx d \<Longrightarrow> parsers_ok rx (run_op rx pg ord ordf op fs d)"
    using Reparse by (simp add: keeps_run)
qed (simp_all add: keeps_run [OF handlers_keep(1)] keeps_run [OF handlers_keep(2)] keeps_run [OF handlers_keep(3)]
    keeps_run [OF handlers_keep(4)] keeps_run [OF reload_step_keeps])

section \<open>The engine follows the tables\<close>

text \<open>What the tables say the engine should use: the enabled parsers by id, each with its fields by id.\<close>

definition loaded :: "parsedb \<Rightarrow> Parser list" where
  "loaded d = map (\<lambda>p. p\<lparr>pa_Fields := sort_key pf_ID (filter (\<lambda>f. pf_ParserID f = pa_ID p) (db_registry d))\<rparr>)
     (sort_key pa_ID (filter pa_Enabled (db_parsers d)))"

text \<open>The engine has what the tables say, or a note to load them is waiting.\<close>

definition in_step :: "parsedb \<Rightarrow> bool" where
  "in_step d \<longleftrightarrow> en_reload d \<or> en_parsers d = loaded d"

lemma reloaded_in_step: "in_step (fst (snd (bind Reload (\<lambda>_. ret x) s)))"
  by (simp add: Reload_def bind_def local_def in_step_def)

lemma Reload_in_step [keeps_intros]: "keeps in_step Reload"
  unfolding Reload_def by (rule keeps_local) (auto simp: in_step_def)

lemma all_with_fields_clean:
  "all_with_fields ps (d, []) =
    (Inr (map (\<lambda>p. p\<lparr>pa_Fields := sort_key pf_ID (filter (\<lambda>f. pf_ParserID f = pa_ID p) (db_registry d))\<rparr>) ps), d, [])"
  by (induction ps) (simp_all add: with_fields_def attempt_def bind_def)

lemma loadParsers_clean: "loadParsers (d, []) = (Inr (), d\<lparr>en_parsers := loaded d\<rparr>, [])"
  by (simp add: loadParsers_def attempt_def bind_def all_with_fields_clean loaded_def)

lemma loaded_cong [simp]:
  "loaded (d\<lparr>en_parsers := ps\<rparr>) = loaded d" "loaded (d\<lparr>en_reload := b\<rparr>) = loaded d"
  "loaded (d\<lparr>en_cache := c\<rparr>) = loaded d" "loaded (d\<lparr>db_logs := ls\<rparr>) = loaded d"
  by (simp_all add: loaded_def)

lemma handlers_in_step:
  "keeps in_step (CreateParser now req)" "keeps in_step (UpdateParser now param chg)"
  "keeps in_step (DeleteParser param)" "keeps in_step (CloneParser ordf now param)"
  unfolding CreateParser_def UpdateParser_def DeleteParser_def CloneParser_def delete_parser_def
  by (intro keeps_handler_tx_then keeps_stmt_then keeps_intros; simp add: reloaded_in_step)+

lemma parse_row_in_step: "keeps in_step (parse_row rx r)"
  unfolding parse_row_def by (rule keeps_local) (auto simp: in_step_def split: prod.splits)

lemma set_parsed_in_step: "keeps in_step (set_parsed i res)"
  unfolding set_parsed_def by (rule keeps_stmt) (auto simp: in_step_def)

lemma reparse_in_step: "keeps in_step (reparse_rows rx rs n)"
proof (induction rs arbitrary: n)
  case (Cons r rs)
  obtain a b where n: "n = (a, b)" by fastforce
  show ?case unfolding n reparse_rows.simps prod.case
    by (intro keeps_intros parse_row_in_step set_parsed_in_step Cons.IH)
qed (simp add: keeps_intros)

lemma tick_clean:
  "tick \<or> en_reload d \<Longrightarrow> run_op rx pg ord ordf (Tick tick) [] d =
    d\<lparr>en_reload := (tick \<and> en_reload d), en_parsers := loaded d\<rparr>"
  by (auto simp: reload_step_def bind_def loadParsers_clean)

lemma run_op_in_step:
  assumes "in_step d" "case op of Tick tick \<Rightarrow> fs = [] | _ \<Rightarrow> True"
  shows "in_step (run_op rx pg ord ordf op fs d)"
proof (cases op)
  case (Reparse h f t l)
  have "keeps in_step (ReparseUnparsed rx pg ord h f t l)"
    unfolding ReparseUnparsed_def by (intro keeps_intros reparse_in_step)
  with Reparse assms show ?thesis by (simp add: keeps_run)
next
  case (Tick tick)
  with assms show ?thesis
    using tick_clean [of tick d rx pg ord ordf]
    by (cases "tick \<or> en_reload d") (auto simp: in_step_def reload_step_def bind_def)
qed (use assms in \<open>simp_all add: keeps_run [OF handlers_in_step(1)] keeps_run [OF handlers_in_step(2)]
    keeps_run [OF handlers_in_step(3)] keeps_run [OF handlers_in_step(4)]\<close>)

lemma run_ops_in_step:
  "in_step d \<Longrightarrow> \<forall>(op, fs) \<in> set ops. (case op of Tick tick \<Rightarrow> fs = [] | _ \<Rightarrow> True) \<Longrightarrow>
    in_step (foldl (\<lambda>d (op, fs). run_op rx pg ord ordf op fs d) d ops)"
  by (induction ops arbitrary: d) (auto intro!: run_op_in_step)

lemma run_ops_ok:
  "parsers_ok rx d \<Longrightarrow> parsers_ok rx (foldl (\<lambda>d (op, fs). run_op rx pg ord ordf op fs d) d ops)"
  by (induction ops arbitrary: d) (auto simp: run_op_keeps)

lemma Parse_spec: "parsers_ok rx d \<Longrightarrow> fst (Parse rx ps h a m (en_cache d)) = parse_spec rx ps h a m"
  using computesD [OF Parse_computes] by (metis engine_ok_def fst_conv parsers_ok_def)

text \<open>
  (C24) The engine follows the parser tables. After any sequence of creations, changes, deletions, clones, turns of
  the reload loop and reparses of old rows, one after another: (1) whichever statements of the handlers and reparses
  failed, as long as the loads themselves did not, either a note to reload is waiting or every line parses exactly as the
  enabled parsers in the tables, with their fields, say; (2) whatever failed, loads included, the next load that does
  not fail (the ticker's, or the one a waiting note causes) brings the engine there.
\<close>
theorem engine_follows_tables:
  assumes "parsers_ok rx d" "in_step d" "d' = foldl (\<lambda>d (op, fs). run_op rx pg ord ordf op fs d) d ops"
  shows "((\<forall>(op, fs) \<in> set ops. (case op of Tick tick \<Rightarrow> fs = [] | _ \<Rightarrow> True)) \<longrightarrow> \<not> en_reload d' \<longrightarrow>
      fst (Parse rx (en_parsers d') hostname appName message (en_cache d')) =
        parse_spec rx (loaded d') hostname appName message) \<and>
    (tick \<or> en_reload d' \<longrightarrow>
      (let d'' = run_op rx pg ord ordf (Tick tick) [] d' in
        fst (Parse rx (en_parsers d'') hostname appName message (en_cache d'')) =
          parse_spec rx (loaded d') hostname appName message))"
proof -
  have ok: "parsers_ok rx d'" unfolding assms(3) using assms(1) by (rule run_ops_ok)
  have "in_step d'" if "\<forall>(op, fs) \<in> set ops. (case op of Tick tick \<Rightarrow> fs = [] | _ \<Rightarrow> True)"
    unfolding assms(3) using assms(2) that by (rule run_ops_in_step)
  moreover have "parsers_ok rx (run_op rx pg ord ordf (Tick tick) [] d')" by (rule run_op_keeps [OF ok])
  ultimately show ?thesis
    using tick_clean [of tick d' rx pg ord ordf] ok by (auto simp: Parse_spec in_step_def Let_def simp del: run_op.simps)
qed

definition shop :: parsedb where
  "shop = reparse_db\<lparr>db_parsers := [(ip_parser 1 ''a'' ''all'' None ''src'')\<lparr>pa_IsBuiltin := True, pa_Fields := []\<rparr>],
     db_registry := [field_row 2 1 ''src'' ''Source'' ''string''], db_next := 3\<rparr>"

lemma shop_ok: "parsers_ok ip_regex shop"
  by (simp add: parsers_ok_def rows_ok_def registry_ok_def engine_ok_def shop_def reparse_db_def cache_ok_def) (simp add: ip_parser_def)

text \<open>
  The witness creates a parser, lets a deletion fail, and clones: the note waits until the loop takes it.
\<close>

definition new_request :: parser_request where
  "new_request = \<lparr>cp_Name = ''n'', cp_Description = None, cp_DeviceType = ''fw'', cp_MatchType = ''all'', cp_MatchValue = None,
     cp_Regex = ''ip=(.*)'', cp_Enabled = True, cp_Fields = [\<lparr>fr_Name = ''dst'', fr_Label = ''D'', fr_Type = []\<rparr>]\<rparr>"

definition shop_ops :: "(parser_op \<times> bool list) list" where
  "shop_ops = [(Create 8 (Some new_request), []), (Tick False, []), (Delete ''3'', [False, True]), (Clone 9 ''1'', [False, True])]"

lemma shop_in_step: "in_step (shop\<lparr>en_parsers := loaded shop\<rparr>)"
  by (simp add: in_step_def)

theorem engine_follows_tables_witness:
  "let d' = foldl (\<lambda>d (op, fs). run_op ip_regex no_ops rev id op fs d) (shop\<lparr>en_parsers := loaded shop\<rparr>) shop_ops in
    map pa_ID (loaded d') = [1, 3] \<and> \<not> en_reload d' \<and>
    fst (Parse ip_regex (en_parsers d') ''fw1'' [] ''ip=9'' (en_cache d')) = parse_spec ip_regex (loaded d') ''fw1'' [] ''ip=9''"
proof -
  let ?d = "shop\<lparr>en_parsers := loaded shop\<rparr>"
  define d' where "d' = foldl (\<lambda>d (op, fs). run_op ip_regex no_ops rev id op fs d) ?d shop_ops"
  have ok: "parsers_ok ip_regex ?d"
    using shop_ok loaded_fields [of shop] by (auto simp: parsers_ok_def rows_ok_def registry_ok_def engine_ok_def loaded_def)
  have "\<forall>(op, fs) \<in> set shop_ops. (case op of Tick tick \<Rightarrow> fs = [] | _ \<Rightarrow> True)" by (simp add: shop_ops_def)
  moreover have "map pa_ID (loaded d') = [1, 3]" "\<not> en_reload d'"
    unfolding d'_def by code_simp+
  ultimately show ?thesis
    using engine_follows_tables [OF ok shop_in_step d'_def, where hostname = "''fw1''" and appName = "[]" and message = "''ip=9''"]
    unfolding d'_def [symmetric] Let_def by blast
qed

section \<open>Built-in parsers\<close>

lemma find_parser_row:
  assumes "rows_ok d" "p \<in> set (db_parsers d)" "is_int32 (pa_ID p)"
  shows "find_parser (pa_ID p) d = Inr p"
proof -
  have "find (\<lambda>q. pa_ID q = pa_ID p) ps = Some p" if "distinct (map pa_ID ps)" "p \<in> set ps" for ps
    using that by (induction ps) (auto simp: image_iff)
  with assms show ?thesis by (simp add: find_parser_def rows_ok_def)
qed

lemma parse_id: "is_int32 i \<Longrightarrow> parseIDParam (itoa i) = Some i"
  by (simp add: parseIDParam_def parse_int64_itoa is_int32_def is_int64_def)

text \<open>
  Built-in parsers: a request to change or to delete one is refused and changes nothing. But the answer of the query
  that asks whether a parser is built in is not checked for errors: when that one statement fails, the same request deletes the
  built-in parser and its fields.
\<close>
theorem builtin_parsers_guarded:
  assumes "parsers_ok rx d" "p \<in> set (db_parsers d)" "pa_IsBuiltin p" "is_int32 (pa_ID p)"
  shows "DeleteParser (itoa (pa_ID p)) (d, []) = (Inr (Failure 403 ''parser.builtInImmutable''), d, []) \<and>
    UpdateParser now (itoa (pa_ID p)) (Some chg) (d, []) = (Inr (Failure 403 ''parser.builtInImmutable''), d, []) \<and>
    (\<exists>d'. DeleteParser (itoa (pa_ID p)) (d, [True]) = (Inr (Answer 200 ''parser deleted''), d', []) \<and>
      p \<notin> set (db_parsers d') \<and> (\<forall>f \<in> set (db_registry d'). pf_ParserID f \<noteq> pa_ID p))"
proof -
  have "find_parser (pa_ID p) d = Inr p" using assms find_parser_row by (simp add: parsers_ok_def)
  with assms(3,4) show ?thesis
    by (simp add: DeleteParser_def UpdateParser_def parse_id check_builtin_def attempt_def Reload_def delete_parser_def bind_def)
      (simp add: query_def stmt_def attempt_def bind_def)
qed

theorem builtin_parsers_guarded_witness:
  "DeleteParser (itoa 1) (shop, []) = (Inr (Failure 403 ''parser.builtInImmutable''), shop, []) \<and>
   (\<exists>d'. DeleteParser (itoa 1) (shop, [True]) = (Inr (Answer 200 ''parser deleted''), d', []) \<and>
     (\<forall>f \<in> set (db_registry d'). pf_ParserID f \<noteq> 1))"
proof -
  obtain p where p: "p \<in> set (db_parsers shop)" "pa_IsBuiltin p" "pa_ID p = 1" by (simp add: shop_def ip_parser_def)
  then have "is_int32 (pa_ID p)" by (simp add: is_int32_def)
  from builtin_parsers_guarded [OF shop_ok p(1,2) this] show ?thesis unfolding p(3) by blast
qed

end
