(* ===== verification/AuthDB.thy ===== *)
theory AuthDB
  imports Sql
begin

text \<open>
  Users, sessions and revoked tokens: the tables behind the login and their statements, \<^verbatim>\<open>db/db.go\<close> and
  \<^verbatim>\<open>db/sessions.go\<close>. \<^verbatim>\<open>NOW()\<close> and \<^verbatim>\<open>time.Now()\<close> are one argument.
\<close>

section \<open>Tables\<close>

record User =
  us_ID :: int
  us_Username :: string
  us_Email :: string
  us_PasswordHash :: string
  us_Role :: string
  us_AuthType :: string
  us_IsAdmin :: bool
  us_IsActive :: bool
  us_CreatedAt :: time
  us_LastLoginAt :: "time option"
  us_FailedLoginAttempts :: int
  us_LockedUntil :: "time option"
  us_PasswordChangedAt :: "time option"

record refresh_row =
  rt_ID :: int
  rt_UserID :: int
  rt_TokenHash :: string
  rt_ExpiresAt :: time
  rt_Used :: bool
  rt_UsedAt :: "time option"
  rt_ReplacedBy :: "string option"
  rt_DeviceID :: string
  rt_UserAgent :: string
  rt_IP :: string
  rt_Remember :: bool
  rt_JTI :: string
  rt_CreatedAt :: time
  rt_LastUsedAt :: time
  rt_ScreenResolution :: string
  rt_Timezone :: string

record audit_row =
  au_UserID :: int
  au_Username :: string
  au_Action :: string
  au_IP :: string
  au_Details :: string

record authdb =
  db_users :: "User list"
  db_refresh :: "refresh_row list"
  db_blacklist :: "(string \<times> time) list"
  db_history :: "(int \<times> string \<times> time) list"
  db_app_settings :: "(string \<times> string) list"
  db_audit :: "audit_row list"
  db_seq :: int

section \<open>Settings\<close>

text \<open>
  \<^verbatim>\<open>GetSetting\<close>. The passwords among the settings are stored encrypted; none of them is read here but the one for LDAP, and
  the parameter that stands for LDAP takes it as it is stored.
\<close>

definition auth_setting :: "string \<Rightarrow> string \<Rightarrow> (authdb, string) sql" where
  "auth_setting key def =
     attempt (query (\<lambda>d. case map_of (db_app_settings d) key of None \<Rightarrow> Inl NoRows | Some v \<Rightarrow> Inr v)) (\<lambda>r. case r of
       Inl err \<Rightarrow> ret def | Inr v \<Rightarrow> ret v)"

text \<open>\<open>env\<close>: the environment; an unset variable is empty.\<close>

definition setting_or_env :: "(string \<Rightarrow> string) \<Rightarrow> string \<Rightarrow> string \<Rightarrow> int \<Rightarrow> (authdb, int) sql" where
  "setting_or_env env key var def =
     bind (auth_setting key []) (\<lambda>s0. let s = (if s0 = [] then env var else s0) in
       ret (if s = [] then def else (case parse_int64 s of None \<Rightarrow> def | Some n \<Rightarrow> n)))"

definition maxFailedAttempts :: "(string \<Rightarrow> string) \<Rightarrow> (authdb, int) sql" where
  "maxFailedAttempts env = setting_or_env env ''security_max_failed_attempts'' ''MAX_FAILED_ATTEMPTS'' 5"

definition failedLockoutDuration :: "(string \<Rightarrow> string) \<Rightarrow> (authdb, duration) sql" where
  "failedLockoutDuration env =
     bind (setting_or_env env ''security_lockout_duration_min'' ''LOCKOUT_DURATION_MIN'' 15) (\<lambda>n. ret (int64 (n * Minute)))"

section \<open>Users\<close>

text \<open>The columns the two lookups select; the others keep their zero values.\<close>

definition scan_user :: "User \<Rightarrow> User" where
  "scan_user u = u\<lparr>us_AuthType := [], us_FailedLoginAttempts := 0, us_LockedUntil := None\<rparr>"

definition find_user :: "(User \<Rightarrow> bool) \<Rightarrow> authdb \<Rightarrow> sqlerr + User" where
  "find_user P d = (case find P (db_users d) of None \<Rightarrow> Inl NoRows | Some u \<Rightarrow> Inr u)"

definition GetUserByUsername :: "string \<Rightarrow> (authdb, User) sql" where
  "GetUserByUsername name = query (\<lambda>d. map_sum id scan_user (find_user (\<lambda>u. us_Username u = name) d))"

definition getUserByID :: "int \<Rightarrow> (authdb, User) sql" where
  "getUserByID i =
     query (\<lambda>d. map_sum id (\<lambda>u. (scan_user u)\<lparr>us_PasswordChangedAt := None\<rparr>) (find_user (\<lambda>u. us_ID u = i) d))"

definition GetUserByID :: "int \<Rightarrow> (authdb, User) sql" where
  "GetUserByID i = query (\<lambda>d. map_sum id scan_user (find_user (\<lambda>u. us_ID u = i) d))"

definition IsUserAdmin :: "int \<Rightarrow> (authdb, bool) sql" where
  "IsUserAdmin i = attempt (query (\<lambda>d. map_sum id us_IsAdmin (find_user (\<lambda>u. us_ID u = i) d))) (\<lambda>r. ret (r = Inr True))"

definition upd_user :: "(User \<Rightarrow> bool) \<Rightarrow> (User \<Rightarrow> User) \<Rightarrow> (authdb, unit) sql" where
  "upd_user P f = stmt (\<lambda>d. Inr ((), d\<lparr>db_users := map (\<lambda>u. if P u then f u else u) (db_users d)\<rparr>))"

definition CheckUserLockout :: "time \<Rightarrow> int \<Rightarrow> (authdb, bool) sql" where
  "CheckUserLockout now i =
     attempt (query (\<lambda>d. map_sum id (\<lambda>u. case us_LockedUntil u of None \<Rightarrow> False | Some t \<Rightarrow> t > now) (find_user (\<lambda>u. us_ID u = i) d))) (\<lambda>r. case r of
       Inl err \<Rightarrow> (if err = NoRows then ret False else throw err)
     | Inr locked \<Rightarrow> ret locked)"

text \<open>\<^verbatim>\<open>int(d.Minutes())\<close> rounds towards zero.\<close>

definition whole_minutes :: "duration \<Rightarrow> int" where
  "whole_minutes t = (if t < 0 then - (- t div Minute) else t div Minute)"

text \<open>The count, whether the account is locked now, and the error: a failed update still reports the other two.\<close>

definition IncrementFailedLogins :: "(string \<Rightarrow> string) \<Rightarrow> time \<Rightarrow> int \<Rightarrow> (authdb, (int \<times> bool) \<times> sqlerr option) sql" where
  "IncrementFailedLogins env now i =
     bind (maxFailedAttempts env) (\<lambda>maxFail.
     bind (failedLockoutDuration env) (\<lambda>lockoutDur.
     attempt (query (find_user (\<lambda>u. us_ID u = i))) (\<lambda>r. case r of
       Inl err \<Rightarrow> ret ((0, False), Some err)
     | Inr u \<Rightarrow>
         (if (case us_LockedUntil u of None \<Rightarrow> False | Some t \<Rightarrow> t > now) then ret ((us_FailedLoginAttempts u, True), None)
          else
            (let newFailed = us_FailedLoginAttempts u + 1; locked = (newFailed \<ge> maxFail) in
             attempt (upd_user (\<lambda>u. us_ID u = i) (\<lambda>u. u\<lparr>us_FailedLoginAttempts := newFailed,
                 us_LockedUntil := (if locked then Some (now + whole_minutes lockoutDur * Minute) else None)\<rparr>)) (\<lambda>r. case r of
               Inl err \<Rightarrow> ret ((newFailed, locked), Some err)
             | Inr _ \<Rightarrow> ret ((newFailed, locked), None)))))))"

definition ResetFailedLogins :: "int \<Rightarrow> (authdb, unit) sql" where
  "ResetFailedLogins i = upd_user (\<lambda>u. us_ID u = i) (\<lambda>u. u\<lparr>us_FailedLoginAttempts := 0, us_LockedUntil := None\<rparr>)"

definition UnlockUser :: "int \<Rightarrow> (authdb, unit) sql" where
  "UnlockUser i = ResetFailedLogins i"

definition UpdateLastLogin :: "time \<Rightarrow> string \<Rightarrow> (authdb, unit) sql" where
  "UpdateLastLogin now name = upd_user (\<lambda>u. us_Username u = name) (\<lambda>u. u\<lparr>us_LastLoginAt := Some now\<rparr>)"

definition CreateLDAPUser :: "time \<Rightarrow> string \<Rightarrow> string \<Rightarrow> string \<Rightarrow> bool \<Rightarrow> (authdb, User) sql" where
  "CreateLDAPUser now name email role isAdmin = stmt (\<lambda>d.
     if list_ex (\<lambda>u. us_Username u = name) (db_users d) then Inl SqlErr
     else (let u = \<lparr>us_ID = db_seq d, us_Username = name, us_Email = email, us_PasswordHash = [], us_Role = role, us_AuthType = ''ldap'',
             us_IsAdmin = isAdmin, us_IsActive = True, us_CreatedAt = now, us_LastLoginAt = None, us_FailedLoginAttempts = 0,
             us_LockedUntil = None, us_PasswordChangedAt = None\<rparr>
           in Inr (u, d\<lparr>db_users := db_users d @ [u], db_seq := db_seq d + 1\<rparr>)))"

section \<open>Passwords\<close>

definition GetPasswordExpiryDays :: "(authdb, int) sql" where
  "GetPasswordExpiryDays =
     bind (auth_setting ''security_password_expiry_days'' ''90'') (\<lambda>v.
       ret (case parse_int64 v of None \<Rightarrow> 0 | Some n \<Rightarrow> (if n > 0 then n else 0)))"

definition GetPasswordExpiryDate :: "int \<Rightarrow> (authdb, time option) sql" where
  "GetPasswordExpiryDate i =
     bind GetPasswordExpiryDays (\<lambda>days.
       if days = 0 then ret None
       else bind (query (\<lambda>d. map_sum id us_PasswordChangedAt (find_user (\<lambda>u. us_ID u = i) d))) (\<lambda>changedAt.
         ret (map_option (\<lambda>t. t + days * 24 * Hour) changedAt)))"

definition IsPasswordExpired :: "time \<Rightarrow> int \<Rightarrow> (authdb, bool) sql" where
  "IsPasswordExpired now i =
     bind GetPasswordExpiryDays (\<lambda>days.
       if days = 0 then ret False
       else bind (query (\<lambda>d. map_sum id us_PasswordChangedAt (find_user (\<lambda>u. us_ID u = i) d))) (\<lambda>changedAt.
         ret (case changedAt of None \<Rightarrow> False | Some t \<Rightarrow> now > t + days * 24 * Hour)))"

definition ResetUserPassword :: "time \<Rightarrow> int \<Rightarrow> string \<Rightarrow> (authdb, unit) sql" where
  "ResetUserPassword now i hash = upd_user (\<lambda>u. us_ID u = i) (\<lambda>u. u\<lparr>us_PasswordHash := hash, us_PasswordChangedAt := Some now\<rparr>)"

definition historyCount :: "(authdb, int) sql" where
  "historyCount =
     bind (auth_setting ''security_password_history_count'' ''12'') (\<lambda>v.
       ret (case parse_int64 v of None \<Rightarrow> 12 | Some n \<Rightarrow> (if n > 0 then n else 12)))"

definition AddPasswordHistory :: "time \<Rightarrow> int \<Rightarrow> string \<Rightarrow> (authdb, unit) sql" where
  "AddPasswordHistory now i hash = stmt (\<lambda>d. Inr ((), d\<lparr>db_history := db_history d @ [(i, hash, now)]\<rparr>))"

text \<open>The newest \<open>n\<close> entries of a user; rows are in the order of insertion.\<close>

definition newest_entries :: "int \<Rightarrow> int \<Rightarrow> authdb \<Rightarrow> (int \<times> string \<times> time) list" where
  "newest_entries i n d = take (nat n) (rev (sort_key (\<lambda>(u, h, t). t) (filter (\<lambda>(u, h, t). u = i) (db_history d))))"

definition CheckPasswordHistory :: "int \<Rightarrow> string \<Rightarrow> (authdb, bool) sql" where
  "CheckPasswordHistory i hash =
     bind historyCount (\<lambda>n. query (\<lambda>d. Inr (list_ex (\<lambda>(u, h, t). h = hash) (newest_entries i n d))))"

definition TrimPasswordHistory :: "int \<Rightarrow> (authdb, unit) sql" where
  "TrimPasswordHistory i =
     bind historyCount (\<lambda>n. stmt (\<lambda>d.
       if int64 (n * 2) < 0 then Inl SqlErr
       else Inr ((), d\<lparr>db_history := rev (newest_entries i (int64 (n * 2)) d)\<rparr>)))"

section \<open>Revoked access tokens\<close>

text \<open>\<open>ttl\<close>: the interval of \<^verbatim>\<open>JWT_BLACKLIST_TTL\<close>.\<close>

definition CleanupExpiredBlacklist :: "time \<Rightarrow> duration \<Rightarrow> (authdb, unit) sql" where
  "CleanupExpiredBlacklist now ttl = stmt (\<lambda>d. Inr ((), d\<lparr>db_blacklist := filter (\<lambda>(j, t). \<not> t < now - ttl) (db_blacklist d)\<rparr>))"

definition BlacklistJTI :: "time \<Rightarrow> string \<Rightarrow> (authdb, unit) sql" where
  "BlacklistJTI now jti = stmt (\<lambda>d. Inr ((), if jti \<in> fst ` set (db_blacklist d) then d else d\<lparr>db_blacklist := db_blacklist d @ [(jti, now)]\<rparr>))"

definition IsJTIBlacklisted :: "string \<Rightarrow> (authdb, bool) sql" where
  "IsJTIBlacklisted jti = query (\<lambda>d. Inr (jti \<in> fst ` set (db_blacklist d)))"

section \<open>Sessions\<close>

definition upd_refresh :: "(refresh_row \<Rightarrow> bool) \<Rightarrow> (refresh_row \<Rightarrow> refresh_row) \<Rightarrow> authdb \<Rightarrow> authdb" where
  "upd_refresh P f d = d\<lparr>db_refresh := map (\<lambda>r. if P r then f r else r) (db_refresh d)\<rparr>"

definition mark_used :: "time \<Rightarrow> refresh_row \<Rightarrow> refresh_row" where
  "mark_used now r = r\<lparr>rt_Used := True, rt_UsedAt := Some now\<rparr>"

record refreshTokenParams =
  rp_userID :: int
  rp_token :: string
  rp_expiresAt :: time
  rp_deviceID :: string
  rp_userAgent :: string
  rp_ip :: string
  rp_remember :: bool
  rp_jti :: string
  rp_screenResolution :: string
  rp_timezone :: string

text \<open>\<open>digest\<close> is \<^verbatim>\<open>HashRefreshToken\<close>; the columns have lengths.\<close>

definition insertRefreshToken :: "(string \<Rightarrow> string) \<Rightarrow> time \<Rightarrow> refreshTokenParams \<Rightarrow> (authdb, unit) sql" where
  "insertRefreshToken digest now p = stmt (\<lambda>d.
     if length (rp_deviceID p) > 64 \<or> length (rp_userAgent p) > 500 \<or> length (rp_ip p) > 100 \<or> length (rp_jti p) > 64 \<or>
        length (rp_screenResolution p) > 20 \<or> length (rp_timezone p) > 50 \<or> \<not> list_ex (\<lambda>u. us_ID u = rp_userID p) (db_users d)
     then Inl SqlErr
     else Inr ((), d\<lparr>db_refresh := db_refresh d @ [\<lparr>rt_ID = db_seq d, rt_UserID = rp_userID p, rt_TokenHash = digest (rp_token p),
         rt_ExpiresAt = rp_expiresAt p, rt_Used = False, rt_UsedAt = None, rt_ReplacedBy = None, rt_DeviceID = rp_deviceID p,
         rt_UserAgent = rp_userAgent p, rt_IP = rp_ip p, rt_Remember = rp_remember p, rt_JTI = rp_jti p, rt_CreatedAt = now,
         rt_LastUsedAt = now, rt_ScreenResolution = rp_screenResolution p, rt_Timezone = rp_timezone p\<rparr>],
       db_seq := db_seq d + 1\<rparr>))"

definition session_live :: "time \<Rightarrow> int \<Rightarrow> refresh_row \<Rightarrow> bool" where
  "session_live now timeoutMin r \<longleftrightarrow> \<not> rt_Used r \<and> rt_ExpiresAt r > now \<and> (rt_ReplacedBy r = None \<or> rt_ReplacedBy r = Some []) \<and>
     (rt_Remember r \<or> rt_LastUsedAt r > now - timeoutMin * Minute)"

text \<open>The setting is cast to an integer by the database: a text that is none makes the query fail.\<close>

definition ListUserSessions :: "time \<Rightarrow> int \<Rightarrow> (authdb, refresh_row list) sql" where
  "ListUserSessions now i = query (\<lambda>d.
     case parse_int64 (case map_of (db_app_settings d) ''session_timeout_min'' of None \<Rightarrow> ''15'' | Some v \<Rightarrow> v) of
       None \<Rightarrow> Inl SqlErr
     | Some m \<Rightarrow> if \<not> is_int32 m then Inl SqlErr else Inr (rev (sort_key rt_LastUsedAt (filter (\<lambda>r. rt_UserID r = i \<and> session_live now m r) (db_refresh d)))))"

definition RevokeSession :: "time \<Rightarrow> int \<Rightarrow> int \<Rightarrow> (authdb, unit) sql" where
  "RevokeSession now userID sessionID =
     bind (stmt (\<lambda>d.
       let P = (\<lambda>r. rt_ID r = sessionID \<and> rt_UserID r = userID \<and> \<not> rt_Used r) in
       case find P (db_refresh d) of None \<Rightarrow> Inl NoRows | Some r \<Rightarrow> Inr (rt_JTI r, upd_refresh P (mark_used now) d))) (\<lambda>jti.
     if jti \<noteq> [] then BlacklistJTI now jti else ret ())"

definition InvalidateDeviceSessions :: "time \<Rightarrow> int \<Rightarrow> string \<Rightarrow> (authdb, unit) sql" where
  "InvalidateDeviceSessions now userID devID =
     (if devID = [] then ret ()
      else bind (stmt (\<lambda>d.
             let P = (\<lambda>r. rt_UserID r = userID \<and> rt_DeviceID r = devID \<and> \<not> rt_Used r) in
             Inr (filter (\<lambda>j. j \<noteq> []) (map rt_JTI (filter P (db_refresh d))), upd_refresh P (mark_used now) d))) (\<lambda>jtis.
           for_each (BlacklistJTI now) jtis))"

definition auth_audit :: "int \<Rightarrow> string \<Rightarrow> string \<Rightarrow> string \<Rightarrow> string \<Rightarrow> (authdb, unit) sql" where
  "auth_audit i name action ip details =
     attempt (stmt (\<lambda>d. Inr ((), d\<lparr>db_audit := db_audit d @ [\<lparr>au_UserID = i, au_Username = name, au_Action = action, au_IP = ip, au_Details = details\<rparr>]\<rparr>)))
       (\<lambda>_. ret ())"

end
