(* ===== verification/AuthTokens.thy ===== *)
theory AuthTokens
  imports AuthDB
begin

text \<open>
  Access tokens, \<^verbatim>\<open>auth/auth.go\<close>: signing, validation with the current and the previous keys, rotation. The JWT
  library is a parameter; what is used of it is stated by \<open>jwt_laws\<close>.
\<close>

section \<open>The JWT library\<close>

record claims =
  cl_user_id :: int
  cl_username :: string
  cl_role :: string
  cl_jti :: string
  cl_exp :: int
  cl_iat :: int
  cl_remember :: bool

datatype signing_method = HS256 | RS256 | OtherMethod
datatype 'p vkey = Secret string | PublicKey 'p

text \<open>\<open>jw_parse now\<close> asks the given function for the key of the method in the header; a token that expired is invalid.\<close>

record ('k, 'p) jwt_ops =
  jw_hs256 :: "string \<Rightarrow> claims \<Rightarrow> string option"
  jw_rs256 :: "'k \<Rightarrow> claims \<Rightarrow> string option"
  jw_public :: "'k \<Rightarrow> 'p"
  jw_parse :: "time \<Rightarrow> string \<Rightarrow> (signing_method \<Rightarrow> 'p vkey option) \<Rightarrow> claims option"

text \<open>
  HMAC takes a key of up to 64 bytes padded with zero bytes (a longer one is hashed), so keys that differ only in
  trailing zero bytes are one key.
\<close>

definition hmac_key :: "string \<Rightarrow> string" where
  "hmac_key s = (if length s > 64 then s else rev (dropWhile (\<lambda>c. c = CHR 0x00) (rev s)))"

definition hmac_accepts :: "string \<Rightarrow> 'p vkey option \<Rightarrow> bool" where
  "hmac_accepts secret key \<longleftrightarrow> (case key of Some (Secret s) \<Rightarrow> hmac_key s = hmac_key secret | _ \<Rightarrow> False)"

text \<open>
  A token that was signed is accepted exactly with its own key and before it expires: signatures made with another
  key are taken not to collide.
\<close>

definition jwt_laws :: "('k, 'p) jwt_ops \<Rightarrow> bool" where
  "jwt_laws J \<longleftrightarrow>
     (\<forall>secret c t now key. jw_hs256 J secret c = Some t \<longrightarrow>
        jw_parse J now t key = (if hmac_accepts secret (key HS256) \<and> now < cl_exp c * Second then Some c else None)) \<and>
     (\<forall>k c t now key. jw_rs256 J k c = Some t \<longrightarrow>
        jw_parse J now t key = (if key RS256 = Some (PublicKey (jw_public J k)) \<and> now < cl_exp c * Second then Some c else None))"

section \<open>Keys\<close>

record ('k, 'p) auth_config =
  ac_primary :: string
  ac_secondary :: "string option"
  ac_rsaPriv :: "'k option"
  ac_rsaPub :: "'p option"
  ac_rsaPubSecondary :: "'p option"

definition weakDefaultJWTSecret :: string where
  "weakDefaultJWTSecret = ''change-this-to-a-random-secret-key''"

text \<open>\<open>secretFromEnv\<close> is \<^verbatim>\<open>util.SecretFromEnv\<close>.\<close>

definition ResolveJWTSecret :: "(string \<Rightarrow> string) \<Rightarrow> string option" where
  "ResolveJWTSecret secretFromEnv =
     (let secret = secretFromEnv ''JWT_SECRET'' in
      if secret = [] \<or> secret = weakDefaultJWTSecret then None
      else if length secret < 32 then None else Some secret)"

text \<open>\<open>parse\<close>: the RSA key in a PEM text. The first \<^const>\<open>None\<close> is an error.\<close>

definition auth_Init :: "('k, 'p) jwt_ops \<Rightarrow> (string \<Rightarrow> 'k option) \<Rightarrow> (string \<Rightarrow> string) \<Rightarrow> ('k, 'p) auth_config option" where
  "auth_Init J parse secretFromEnv =
     (case ResolveJWTSecret secretFromEnv of
        None \<Rightarrow> None
      | Some secret \<Rightarrow>
          (let cfg = \<lparr>ac_primary = secret, ac_secondary = None, ac_rsaPriv = None, ac_rsaPub = None, ac_rsaPubSecondary = None\<rparr>;
               pemKey = secretFromEnv ''JWT_PRIVATE_KEY'' in
           if pemKey = [] then Some cfg
           else (case parse pemKey of
                   None \<Rightarrow> None
                 | Some priv \<Rightarrow> Some (cfg\<lparr>ac_rsaPriv := Some priv, ac_rsaPub := Some (jw_public J priv)\<rparr>))))"

definition RotateSecret :: "string \<Rightarrow> ('k, 'p) auth_config \<Rightarrow> ('k, 'p) auth_config" where
  "RotateSecret newSecret cfg = cfg\<lparr>ac_secondary := Some (ac_primary cfg), ac_primary := newSecret\<rparr>"

definition ClearSecondarySecret :: "('k, 'p) auth_config \<Rightarrow> ('k, 'p) auth_config" where
  "ClearSecondarySecret cfg = cfg\<lparr>ac_secondary := None\<rparr>"

definition RotateRSAKey :: "('k, 'p) jwt_ops \<Rightarrow> 'k \<Rightarrow> ('k, 'p) auth_config \<Rightarrow> ('k, 'p) auth_config" where
  "RotateRSAKey J priv cfg =
     cfg\<lparr>ac_rsaPubSecondary := (case ac_rsaPub cfg of None \<Rightarrow> ac_rsaPubSecondary cfg | Some p \<Rightarrow> Some p),
         ac_rsaPriv := Some priv, ac_rsaPub := Some (jw_public J priv)\<rparr>"

definition ClearSecondaryRSAKey :: "('k, 'p) auth_config \<Rightarrow> ('k, 'p) auth_config" where
  "ClearSecondaryRSAKey cfg = cfg\<lparr>ac_rsaPubSecondary := None\<rparr>"

definition HasSecondarySecret :: "('k, 'p) auth_config \<Rightarrow> bool" where
  "HasSecondarySecret cfg \<longleftrightarrow> (case ac_secondary cfg of None \<Rightarrow> False | Some s \<Rightarrow> s \<noteq> [])"

definition HasRSASigning :: "('k, 'p) auth_config \<Rightarrow> bool" where
  "HasRSASigning cfg \<longleftrightarrow> ac_rsaPriv cfg \<noteq> None"

section \<open>Tokens\<close>

definition getJWTExpiryMin :: "(string \<Rightarrow> string) \<Rightarrow> (authdb, int) sql" where
  "getJWTExpiryMin env =
     (let positive = (\<lambda>s. case parse_int64 s of None \<Rightarrow> None | Some t \<Rightarrow> if t > 0 then Some t else None) in
      case positive (env ''SESSION_TIMEOUT_MIN'') of
        Some t \<Rightarrow> ret t
      | None \<Rightarrow> bind (auth_setting ''session_timeout_min'' ''15'') (\<lambda>s. ret (case positive s of Some t \<Rightarrow> t | None \<Rightarrow> 15)))"

text \<open>\<^verbatim>\<open>GenerateToken\<close>: the token and its expiry; \<open>jti\<close> is drawn at random.\<close>

definition sign_claims :: "('k, 'p) jwt_ops \<Rightarrow> ('k, 'p) auth_config \<Rightarrow> claims \<Rightarrow> string option" where
  "sign_claims J cfg c = (case ac_rsaPriv cfg of Some priv \<Rightarrow> jw_rs256 J priv c | None \<Rightarrow> jw_hs256 J (ac_primary cfg) c)"

definition GenerateToken ::
  "('k, 'p) jwt_ops \<Rightarrow> ('k, 'p) auth_config \<Rightarrow> (string \<Rightarrow> string) \<Rightarrow> time \<Rightarrow> string \<Rightarrow> int \<Rightarrow> string \<Rightarrow> string \<Rightarrow> bool \<Rightarrow>
     (authdb, (string \<times> time) option) sql" where
  "GenerateToken J cfg env now jti userID username role remember =
     bind (getJWTExpiryMin env) (\<lambda>expiryMin.
       let exp = now + int64 (expiryMin * Minute);
           c = \<lparr>cl_user_id = userID, cl_username = username, cl_role = role, cl_jti = jti, cl_exp = exp div Second,
             cl_iat = now div Second, cl_remember = remember\<rparr>
       in ret (map_option (\<lambda>t. (t, exp)) (sign_claims J cfg c)))"

definition validateJWT :: "('k, 'p) jwt_ops \<Rightarrow> time \<Rightarrow> string \<Rightarrow> 'p option \<Rightarrow> string option \<Rightarrow> claims option" where
  "validateJWT J now tok pub secret =
     jw_parse J now tok (\<lambda>m. case m of RS256 \<Rightarrow> map_option PublicKey pub | HS256 \<Rightarrow> map_option Secret secret | OtherMethod \<Rightarrow> None)"

definition ValidateToken :: "('k, 'p) jwt_ops \<Rightarrow> ('k, 'p) auth_config \<Rightarrow> time \<Rightarrow> string \<Rightarrow> claims option" where
  "ValidateToken J cfg now tok =
     (case validateJWT J now tok (ac_rsaPub cfg) (Some (ac_primary cfg)) of
        Some c \<Rightarrow> Some c
      | None \<Rightarrow>
          (if ac_rsaPubSecondary cfg \<noteq> None \<or> ac_secondary cfg \<noteq> None
           then validateJWT J now tok (ac_rsaPubSecondary cfg) (ac_secondary cfg) else None))"

section \<open>Passwords\<close>

record PasswordPolicy =
  pp_MinLength :: int
  pp_MaxLength :: int
  pp_RequireUpper :: bool
  pp_RequireLower :: bool
  pp_RequireDigit :: bool
  pp_RequireSpecial :: bool
  pp_HistoryCount :: int

definition MinPasswordLength :: int where "MinPasswordLength = 12"

definition envOrInt :: "string \<Rightarrow> int \<Rightarrow> int" where
  "envOrInt val def = (case parse_int64 val of None \<Rightarrow> def | Some v \<Rightarrow> (if v > 0 then v else def))"

definition LoadPasswordPolicy :: "(authdb, PasswordPolicy) sql" where
  "LoadPasswordPolicy =
     bind (auth_setting ''security_password_min_length'' ''12'') (\<lambda>minl.
     bind (auth_setting ''security_password_max_length'' ''128'') (\<lambda>maxl.
     bind (auth_setting ''security_password_require_upper'' ''true'') (\<lambda>up.
     bind (auth_setting ''security_password_require_lower'' ''true'') (\<lambda>lo.
     bind (auth_setting ''security_password_require_digit'' ''true'') (\<lambda>di.
     bind (auth_setting ''security_password_require_special'' ''true'') (\<lambda>sp.
     bind (auth_setting ''security_password_history_count'' ''12'') (\<lambda>hc.
       ret \<lparr>pp_MinLength = envOrInt minl MinPasswordLength, pp_MaxLength = envOrInt maxl 128, pp_RequireUpper = (up = ''true''),
         pp_RequireLower = (lo = ''true''), pp_RequireDigit = (di = ''true''), pp_RequireSpecial = (sp = ''true''),
         pp_HistoryCount = envOrInt hc 12\<rparr>)))))))"

definition is_upper :: "char \<Rightarrow> bool" where "is_upper c \<longleftrightarrow> 65 \<le> (of_char c :: nat) \<and> (of_char c :: nat) \<le> 90"
definition is_lower :: "char \<Rightarrow> bool" where "is_lower c \<longleftrightarrow> 97 \<le> (of_char c :: nat) \<and> (of_char c :: nat) \<le> 122"

text \<open>\<^const>\<open>True\<close>: the password is accepted.\<close>

definition ValidatePasswordWithPolicy :: "PasswordPolicy \<Rightarrow> string \<Rightarrow> bool" where
  "ValidatePasswordWithPolicy p password \<longleftrightarrow>
     (let minLen = (if pp_MinLength p < MinPasswordLength then MinPasswordLength else pp_MinLength p) in
      \<not> int (length password) < minLen \<and> \<not> int (length password) > pp_MaxLength p \<and>
      (pp_RequireUpper p \<longrightarrow> list_ex is_upper password) \<and> (pp_RequireLower p \<longrightarrow> list_ex is_lower password) \<and>
      (pp_RequireDigit p \<longrightarrow> list_ex is_digit password) \<and>
      (pp_RequireSpecial p \<longrightarrow> list_ex (\<lambda>c. \<not> is_upper c \<and> \<not> is_lower c \<and> \<not> is_digit c) password))"

definition ValidatePassword :: "string \<Rightarrow> bool" where
  "ValidatePassword password \<longleftrightarrow> ValidatePasswordWithPolicy \<lparr>pp_MinLength = MinPasswordLength, pp_MaxLength = 128, pp_RequireUpper = True,
     pp_RequireLower = True, pp_RequireDigit = True, pp_RequireSpecial = True, pp_HistoryCount = 0\<rparr> password"

section \<open>An instance\<close>

definition demo_claims :: claims where
  "demo_claims = \<lparr>cl_user_id = 1, cl_username = ''ann'', cl_role = ''viewer'', cl_jti = ''j'', cl_exp = 100, cl_iat = 0, cl_remember = False\<rparr>"

text \<open>An instance that signs one document, with one secret and with one RSA key.\<close>

definition one_jwt :: "(bool, bool) jwt_ops" where
  "one_jwt = \<lparr>jw_hs256 = (\<lambda>s c. if s = ''key'' \<and> c = demo_claims then Some ''h'' else None), jw_rs256 = (\<lambda>k c. if k \<and> c = demo_claims then Some ''r'' else None),
     jw_public = id,
     jw_parse = (\<lambda>now t key. if now < cl_exp demo_claims * Second \<and> (t = ''h'' \<and> hmac_accepts ''key'' (key HS256) \<or> t = ''r'' \<and> key RS256 = Some (PublicKey True))
       then Some demo_claims else None)\<rparr>"

lemma one_jwt_laws: "jwt_laws one_jwt"
  by (auto simp: jwt_laws_def one_jwt_def)

end
