(* ===== verification/AuthHandlers.thy ===== *)
theory AuthHandlers
  imports AuthTokens
begin

text \<open>
  Login, refresh, logout and the sessions of a user, \<^verbatim>\<open>handler/auth.go\<close>, \<^verbatim>\<open>handler/sessions.go\<close>, \<^verbatim>\<open>ldap/ldap.go\<close> (its
  configuration) and the middleware of \<^verbatim>\<open>auth/auth.go\<close>. Values drawn at random are arguments. Not shown are cookies other than
  their values, the refresh of the dashboards a login starts, and the settings an answer repeats.
\<close>

section \<open>Surroundings\<close>

datatype ldap_outcome = LdapError | LdapRejected | LdapUser string string

text \<open>
  The libraries and the environment: bcrypt, the digest of refresh tokens, LDAP (given the settings of the configuration)
  and JWT.
\<close>

record ('k, 'p) auth_env =
  ae_jwt :: "('k, 'p) jwt_ops"
  ae_cfg :: "('k, 'p) auth_config"
  ae_env :: "string \<Rightarrow> string"
  ae_digest :: "string \<Rightarrow> string"
  ae_bcrypt_ok :: "string \<Rightarrow> string \<Rightarrow> bool"
  ae_bcrypt_gen :: "string \<Rightarrow> string \<Rightarrow> string option"
  ae_ldap :: "(string \<times> string) list \<Rightarrow> string \<Rightarrow> string \<Rightarrow> ldap_outcome"

record client =
  ct_ip :: string
  ct_user_agent :: string
  ct_device_cookie :: string
  ct_refresh_cookie :: string
  ct_silent :: bool
  ct_screen :: string
  ct_timezone :: string

record fresh =
  fr_jti :: string
  fr_refresh :: string
  fr_device :: string

definition deviceID :: "client \<Rightarrow> fresh \<Rightarrow> string" where
  "deviceID c x = (if ct_device_cookie c \<noteq> [] then ct_device_cookie c else fr_device x)"

fun resolution_ok :: "bool \<Rightarrow> string \<Rightarrow> bool" where
  "resolution_ok sawX [] = True"
| "resolution_ok sawX (c # cs) =
     (if is_digit c then resolution_ok sawX cs
      else if c = CHR ''x'' \<and> \<not> sawX then resolution_ok True cs else False)"

definition sanitizeScreenResolution :: "string \<Rightarrow> string" where
  "sanitizeScreenResolution v = (if v = [] \<or> length v > 16 then [] else if resolution_ok False v then v else [])"

definition sanitizeTimezone :: "string \<Rightarrow> string" where
  "sanitizeTimezone v =
     (if v = [] \<or> length v > 64 then []
      else if list_all (\<lambda>c. is_lower c \<or> is_upper c \<or> is_digit c \<or> c \<in> set ''/+-_.'') v then v else [])"

definition RememberedRefreshTokenTTL :: duration where "RememberedRefreshTokenTTL = 60 * 24 * Hour"
definition DefaultRefreshTokenTTL :: duration where "DefaultRefreshTokenTTL = 7 * 24 * Hour"

definition getRememberedTTL :: "(authdb, duration) sql" where
  "getRememberedTTL =
     bind (auth_setting ''session_remembered_max_days'' ''60'') (\<lambda>val.
       ret (case parse_int64 val of
              None \<Rightarrow> RememberedRefreshTokenTTL
            | Some days \<Rightarrow> (if days \<le> 0 \<or> days > 365 then RememberedRefreshTokenTTL else days * 24 * Hour)))"

definition refresh_expiry :: "time \<Rightarrow> bool \<Rightarrow> duration \<Rightarrow> time" where
  "refresh_expiry now remember rememberedTTL = now + (if remember then rememberedTTL else DefaultRefreshTokenTTL)"

definition session_params :: "client \<Rightarrow> int \<Rightarrow> string \<Rightarrow> time \<Rightarrow> string \<Rightarrow> bool \<Rightarrow> string \<Rightarrow> refreshTokenParams" where
  "session_params c userID tok exp devID remember jti =
     \<lparr>rp_userID = userID, rp_token = tok, rp_expiresAt = exp, rp_deviceID = devID, rp_userAgent = ct_user_agent c, rp_ip = ct_ip c,
      rp_remember = remember, rp_jti = jti, rp_screenResolution = sanitizeScreenResolution (ct_screen c), rp_timezone = sanitizeTimezone (ct_timezone c)\<rparr>"

section \<open>Login\<close>

record LoginRequest =
  lg_Username :: string
  lg_Password :: string
  lg_Remember :: bool

record session_grant =
  sg_userID :: int
  sg_access :: string
  sg_refresh :: string
  sg_access_exp :: time
  sg_refresh_exp :: time
  sg_remember :: bool

datatype login_answer = Granted session_grant | PasswordExpired int string

definition login_bound :: "LoginRequest \<Rightarrow> bool" where
  "login_bound req \<longleftrightarrow> lg_Username req \<noteq> [] \<and> length (lg_Username req) \<le> 100 \<and> lg_Password req \<noteq> [] \<and> length (lg_Password req) \<le> 128"

definition local_login :: "('k, 'p) auth_env \<Rightarrow> time \<Rightarrow> client \<Rightarrow> LoginRequest \<Rightarrow> (authdb, User option) sql" where
  "local_login E now c req =
     attempt (GetUserByUsername (lg_Username req)) (\<lambda>r. case r of
       Inl err \<Rightarrow> ret None
     | Inr existing \<Rightarrow>
         (if ae_bcrypt_ok E (us_PasswordHash existing) (lg_Password req) then
            attempt (CheckUserLockout now (us_ID existing)) (\<lambda>l.
              if l = Inr True then
                bind (auth_audit (us_ID existing) (lg_Username req) ''login_failed_lockout'' (ct_ip c) ''account locked due to too many failed attempts'') (\<lambda>_. ret None)
              else if \<not> us_IsActive existing then
                bind (auth_audit (us_ID existing) (lg_Username req) ''login_failed_inactive'' (ct_ip c) ''account deactivated by admin'') (\<lambda>_. ret None)
              else ret (Some existing))
          else
            bind (IncrementFailedLogins (ae_env E) now (us_ID existing)) (\<lambda>((newFailed, locked), err).
              if locked then
                bind (auth_audit (us_ID existing) (lg_Username req) ''user_locked'' (ct_ip c)
                    (''account locked after '' @ itoa newFailed @ '' failed attempts'')) (\<lambda>_. ret None)
              else ret None)))"

definition ldap_rest :: "(string \<times> string) list" where
  "ldap_rest = [(''ldap_port'', ''389''), (''ldap_use_tls'', ''false''), (''ldap_verify_cert'', ''true''), (''ldap_ca_cert'', []),
     (''ldap_bind_password'', []), (''ldap_user_filter'', ''(uid=%s)''), (''ldap_username_attr'', ''uid''), (''ldap_email_attr'', ''mail''),
     (''ldap_default_role'', ''viewer''), (''ldap_auto_provision'', ''true''), (''ldap_base_dn'', []), (''ldap_bind_dn'', [])]"

fun read_settings :: "(string \<times> string) list \<Rightarrow> (authdb, (string \<times> string) list) sql" where
  "read_settings [] = ret []"
| "read_settings ((k, def) # ks) = bind (auth_setting k def) (\<lambda>v. bind (read_settings ks) (\<lambda>vs. ret ((k, v) # vs)))"

text \<open>\<^verbatim>\<open>ldap.LoadConfig\<close>: \<^const>\<open>None\<close> is a configuration that is not enabled.\<close>

definition ldap_LoadConfig :: "(authdb, (string \<times> string) list option) sql" where
  "ldap_LoadConfig =
     bind (auth_setting ''ldap_enabled'' ''false'') (\<lambda>en.
     bind (auth_setting ''ldap_server'' []) (\<lambda>server.
       if en \<noteq> ''true'' \<or> server = [] then ret None
       else bind (read_settings ldap_rest) (\<lambda>vs. ret (Some ((''ldap_server'', server) # vs)))))"

definition ldap_value :: "(string \<times> string) list \<Rightarrow> string \<Rightarrow> string" where
  "ldap_value cfg k = (case map_of cfg k of None \<Rightarrow> [] | Some v \<Rightarrow> v)"

definition ldap_login :: "('k, 'p) auth_env \<Rightarrow> time \<Rightarrow> client \<Rightarrow> LoginRequest \<Rightarrow> (authdb, User option) sql" where
  "ldap_login E now c req =
     bind ldap_LoadConfig (\<lambda>ldapCfg. case ldapCfg of
       None \<Rightarrow> ret None
     | Some cfg \<Rightarrow>
         (case ae_ldap E cfg (lg_Username req) (lg_Password req) of
            LdapUser email name0 \<Rightarrow>
              (let username = (if name0 = [] then lg_Username req else name0); role = ldap_value cfg ''ldap_default_role'' in
               attempt (GetUserByUsername username) (\<lambda>r. case r of
                 Inl err \<Rightarrow>
                   (if ldap_value cfg ''ldap_auto_provision'' = ''true'' then
                      attempt (CreateLDAPUser now username email role (role = ''admin'')) (\<lambda>r. case r of
                        Inl err \<Rightarrow> bind (auth_audit 0 (lg_Username req) ''login_failed'' (ct_ip c) ''auto-provision failed'') (\<lambda>_. ret None)
                      | Inr u \<Rightarrow> ret (Some u))
                    else bind (auth_audit 0 (lg_Username req) ''login_failed'' (ct_ip c) ''user not found locally'') (\<lambda>_. ret None))
               | Inr existing \<Rightarrow> ret (Some existing)))
          | _ \<Rightarrow> ret None))"

definition open_session :: "('k, 'p) auth_env \<Rightarrow> time \<Rightarrow> client \<Rightarrow> fresh \<Rightarrow> User \<Rightarrow> bool \<Rightarrow> (authdb, login_answer resp) sql" where
  "open_session E now c x user remember =
     bind (GenerateToken (ae_jwt E) (ae_cfg E) (ae_env E) now (fr_jti x) (us_ID user) (us_Username user) (us_Role user) remember) (\<lambda>t. case t of
       None \<Rightarrow> ret (Failure 500 ''auth.tokenGenerationFailed'')
     | Some (access, accessExp) \<Rightarrow>
         bind getRememberedTTL (\<lambda>rememberedTTL.
         let refreshExp = refresh_expiry now remember rememberedTTL; devID = deviceID c x in
         attempt (InvalidateDeviceSessions now (us_ID user) devID) (\<lambda>_.
         attempt (insertRefreshToken (ae_digest E) now (session_params c (us_ID user) (fr_refresh x) refreshExp devID remember (fr_jti x))) (\<lambda>_.
         bind (auth_audit (us_ID user) (us_Username user) ''login_success'' (ct_ip c) []) (\<lambda>_.
           ret (Answer 200 (Granted \<lparr>sg_userID = us_ID user, sg_access = access, sg_refresh = fr_refresh x, sg_access_exp = accessExp,
             sg_refresh_exp = refreshExp, sg_remember = remember\<rparr>)))))))"

definition Login :: "('k, 'p) auth_env \<Rightarrow> time \<Rightarrow> client \<Rightarrow> fresh \<Rightarrow> LoginRequest option \<Rightarrow> (authdb, login_answer resp) sql" where
  "Login E now c x body =
     (case body of
        None \<Rightarrow> ret (Failure 400 ''error.invalidRequest'')
      | Some req \<Rightarrow>
          (if \<not> login_bound req then ret (Failure 400 ''error.invalidRequest'')
           else
             bind (local_login E now c req) (\<lambda>u0.
             bind (case u0 of Some u \<Rightarrow> ret (Some u) | None \<Rightarrow> ldap_login E now c req) (\<lambda>u1. case u1 of
               None \<Rightarrow> bind (auth_audit 0 (lg_Username req) ''login_failed'' (ct_ip c) ''invalid credentials'') (\<lambda>_. ret (Failure 401 ''auth.invalidCredentials''))
             | Some user \<Rightarrow>
                 attempt (ResetFailedLogins (us_ID user)) (\<lambda>_.
                 attempt (UpdateLastLogin now (us_Username user)) (\<lambda>_.
                 attempt (if us_AuthType user = ''local'' then IsPasswordExpired now (us_ID user) else ret False) (\<lambda>expired.
                   if expired = Inr True then
                     bind (auth_audit (us_ID user) (us_Username user) ''login_password_expired'' (ct_ip c) ''password expired, user must change'') (\<lambda>_.
                       ret (Answer 200 (PasswordExpired (us_ID user) (us_Username user))))
                   else open_session E now c x user (lg_Remember req))))))))"

section \<open>Refresh\<close>

definition refreshReuseGraceWindow :: duration where "refreshReuseGraceWindow = 30 * Second"

definition claimable :: "time \<Rightarrow> string \<Rightarrow> refresh_row \<Rightarrow> bool" where
  "claimable now rh r \<longleftrightarrow> rt_TokenHash r = rh \<and> \<not> rt_Used r \<and> rt_ExpiresAt r > now"

definition claim_token :: "time \<Rightarrow> string \<Rightarrow> (authdb, int \<times> string \<times> bool) sql" where
  "claim_token now rh = stmt (\<lambda>d.
     case find (claimable now rh) (db_refresh d) of
       None \<Rightarrow> Inl NoRows
     | Some r \<Rightarrow> Inr ((rt_UserID r, rt_DeviceID r, rt_Remember r), upd_refresh (claimable now rh) (mark_used now) d))"

definition recoverRacedRefresh ::
  "('k, 'p) auth_env \<Rightarrow> time \<Rightarrow> fresh \<Rightarrow> string \<Rightarrow> (authdb, (int \<times> string \<times> time \<times> bool \<times> string) option) sql" where
  "recoverRacedRefresh E now x tok =
     attempt (query (\<lambda>d. case find (\<lambda>r. rt_TokenHash r = ae_digest E tok \<and> rt_Used r) (db_refresh d) of None \<Rightarrow> Inl NoRows | Some r \<Rightarrow> Inr r)) (\<lambda>res. case res of
       Inl err \<Rightarrow> ret None
     | Inr r \<Rightarrow>
         (case (rt_ReplacedBy r, rt_UsedAt r) of
            (Some repl, Some usedAt) \<Rightarrow>
              (if repl = [] \<or> now - usedAt > refreshReuseGraceWindow then ret None
               else
                 bind getRememberedTTL (\<lambda>rememberedTTL.
                 let exp = refresh_expiry now (rt_Remember r) rememberedTTL in
                 attempt (insertRefreshToken (ae_digest E) now \<lparr>rp_userID = rt_UserID r, rp_token = fr_refresh x, rp_expiresAt = exp,
                     rp_deviceID = rt_DeviceID r, rp_userAgent = [], rp_ip = [], rp_remember = rt_Remember r, rp_jti = [],
                     rp_screenResolution = [], rp_timezone = []\<rparr>) (\<lambda>e. case e of
                   Inl err \<Rightarrow> ret None
                 | Inr _ \<Rightarrow> ret (Some (rt_UserID r, fr_refresh x, exp, rt_Remember r, rt_DeviceID r)))))
          | _ \<Rightarrow> ret None))"

definition link_rotated :: "time \<Rightarrow> string \<Rightarrow> string \<Rightarrow> (authdb, unit) sql" where
  "link_rotated now newHash rh = stmt (\<lambda>d. Inr ((), upd_refresh (\<lambda>r. rt_TokenHash r = rh) (\<lambda>r. (mark_used now r)\<lparr>rt_ReplacedBy := Some newHash\<rparr>) d))"

text \<open>After the claim or the recovery: the user, a new access token, and either the recovered or a new refresh token.\<close>

definition finish_refresh ::
  "('k, 'p) auth_env \<Rightarrow> time \<Rightarrow> client \<Rightarrow> fresh \<Rightarrow> string \<Rightarrow> int \<Rightarrow> bool \<Rightarrow> string \<Rightarrow> (string \<times> time) option \<Rightarrow> (authdb, session_grant resp) sql" where
  "finish_refresh E now c x rh userID remember devID replacement =
     attempt (getUserByID userID) (\<lambda>r. case r of
       Inl err \<Rightarrow> ret (Failure 401 ''auth.userNotFound'')
     | Inr user \<Rightarrow>
         bind (GenerateToken (ae_jwt E) (ae_cfg E) (ae_env E) now (fr_jti x) (us_ID user) (us_Username user) (us_Role user) remember) (\<lambda>t. case t of
           None \<Rightarrow> ret (Failure 500 ''auth.tokenGenerationFailed'')
         | Some (access, accessExp) \<Rightarrow>
             (case replacement of
                Some (tok, exp) \<Rightarrow>
                  bind (auth_audit (us_ID user) (us_Username user) ''refresh_race_recovered'' (ct_ip c) []) (\<lambda>_.
                    ret (Answer 200 \<lparr>sg_userID = us_ID user, sg_access = access, sg_refresh = tok, sg_access_exp = accessExp, sg_refresh_exp = exp, sg_remember = remember\<rparr>))
              | None \<Rightarrow>
                  bind getRememberedTTL (\<lambda>rememberedTTL.
                  let exp = refresh_expiry now remember rememberedTTL in
                  attempt (insertRefreshToken (ae_digest E) now (session_params c userID (fr_refresh x) exp devID remember (fr_jti x))) (\<lambda>_.
                  attempt (link_rotated now (ae_digest E (fr_refresh x)) rh) (\<lambda>_.
                  bind (auth_audit (us_ID user) (us_Username user) ''refresh_success'' (ct_ip c) []) (\<lambda>_.
                    ret (Answer 200 \<lparr>sg_userID = us_ID user, sg_access = access, sg_refresh = fr_refresh x, sg_access_exp = accessExp,
                      sg_refresh_exp = exp, sg_remember = remember\<rparr>))))))))"

definition silent_allowed :: "('k, 'p) auth_env \<Rightarrow> time \<Rightarrow> string \<Rightarrow> (authdb, bool) sql" where
  "silent_allowed E now tok =
     attempt (query (\<lambda>d. case find (claimable now (ae_digest E tok)) (db_refresh d) of None \<Rightarrow> Inl NoRows | Some r \<Rightarrow> Inr (rt_Remember r))) (\<lambda>r.
       ret (r = Inr True))"

text \<open>The claim of the token, or its recovery.\<close>

definition redeem :: "('k, 'p) auth_env \<Rightarrow> time \<Rightarrow> client \<Rightarrow> fresh \<Rightarrow> string \<Rightarrow> (authdb, session_grant resp) sql" where
  "redeem E now c x tok =
     (let rh = ae_digest E tok; device = (\<lambda>d. if d \<noteq> [] then d else deviceID c x) in
      attempt (claim_token now rh) (\<lambda>claim. case claim of
        Inr (userID, devID, remember) \<Rightarrow> finish_refresh E now c x rh userID remember (device devID) None
      | Inl err \<Rightarrow>
          bind (recoverRacedRefresh E now x tok) (\<lambda>rec. case rec of
            None \<Rightarrow>
              bind (auth_audit 0 [] ''refresh_failed'' (ct_ip c) ''invalid, expired, or reused refresh token'') (\<lambda>_.
                ret (Failure 401 ''auth.invalidRefreshToken''))
          | Some (userID, newTok, exp, remember, devID) \<Rightarrow>
              finish_refresh E now c x rh userID remember (device devID) (Some (newTok, exp)))))"

text \<open>\<open>body\<close>: the token of the request's body, when it could be bound.\<close>

definition Refresh :: "('k, 'p) auth_env \<Rightarrow> time \<Rightarrow> client \<Rightarrow> fresh \<Rightarrow> string option \<Rightarrow> (authdb, session_grant resp) sql" where
  "Refresh E now c x body =
     (case (if ct_refresh_cookie c \<noteq> [] then Some (ct_refresh_cookie c) else body) of
        None \<Rightarrow> ret (Failure 400 ''error.invalidRequest'')
      | Some tok \<Rightarrow>
          bind (if ct_silent c then silent_allowed E now tok else ret True) (\<lambda>allowed.
            if \<not> allowed then ret (Failure 401 ''auth.silentRefreshNotAllowed'') else redeem E now c x tok))"

section \<open>Logout and sessions\<close>

definition Logout :: "('k, 'p) auth_env \<Rightarrow> time \<Rightarrow> string \<Rightarrow> client \<Rightarrow> string option \<Rightarrow> (authdb, string resp) sql" where
  "Logout E now jti c body =
     attempt (if jti \<noteq> [] then BlacklistJTI now jti else ret ()) (\<lambda>_.
       let tok = (if ct_refresh_cookie c \<noteq> [] then ct_refresh_cookie c else (case body of None \<Rightarrow> [] | Some t \<Rightarrow> t)) in
       attempt (if tok \<noteq> [] then stmt (\<lambda>d. Inr ((), upd_refresh (\<lambda>r. rt_TokenHash r = ae_digest E tok \<and> \<not> rt_Used r) (mark_used now) d)) else ret ()) (\<lambda>_.
         ret (Answer 200 ''Logged out'')))"

definition CheckSession :: "time \<Rightarrow> string \<Rightarrow> (authdb, bool resp) sql" where
  "CheckSession now jti =
     attempt (if jti \<noteq> [] then stmt (\<lambda>d. Inr ((), upd_refresh (\<lambda>r. rt_JTI r = jti \<and> \<not> rt_Used r) (\<lambda>r. r\<lparr>rt_LastUsedAt := now\<rparr>) d)) else ret ()) (\<lambda>_.
       ret (Answer 200 True))"

definition ListSessions :: "time \<Rightarrow> int option \<Rightarrow> string \<Rightarrow> (authdb, (refresh_row \<times> bool) list resp) sql" where
  "ListSessions now uid currentJTI =
     (case uid of
        None \<Rightarrow> ret (Failure 401 ''auth.required'')
      | Some i \<Rightarrow> attempt (ListUserSessions now i) (\<lambda>r. case r of
          Inl err \<Rightarrow> ret (Failure 500 ''sessions.listFailed'')
        | Inr ss \<Rightarrow> ret (Answer 200 (map (\<lambda>s. (s, currentJTI \<noteq> [] \<and> rt_JTI s = currentJTI)) ss))))"

definition RevokeSession_handler :: "time \<Rightarrow> int option \<Rightarrow> string \<Rightarrow> (authdb, string resp) sql" where
  "RevokeSession_handler now uid param =
     (case uid of
        None \<Rightarrow> ret (Failure 401 ''auth.required'')
      | Some i \<Rightarrow>
          (case parseIDParam param of
             None \<Rightarrow> ret (Failure 400 ''sessions.invalidId'')
           | Some s \<Rightarrow> attempt (RevokeSession now i s) (\<lambda>r. case r of
               Inl err \<Rightarrow> ret (if err = NoRows then Failure 404 ''sessions.notFound'' else Failure 500 ''sessions.revokeFailed'')
             | Inr _ \<Rightarrow> ret (Answer 200 ''session revoked''))))"

text \<open>\<^verbatim>\<open>UpdateSessionActivity\<close>, the middleware, in a goroutine of its own.\<close>

definition UpdateSessionActivity :: "time \<Rightarrow> string option \<Rightarrow> (authdb, unit) sql" where
  "UpdateSessionActivity now jti =
     (case jti of
        None \<Rightarrow> ret ()
      | Some j \<Rightarrow>
          (if j = [] then ret ()
           else attempt (stmt (\<lambda>d. Inr ((), upd_refresh (\<lambda>r. rt_JTI r = j \<and> \<not> rt_Used r) (\<lambda>r. r\<lparr>rt_LastUsedAt := now\<rparr>) d))) (\<lambda>_. ret ())))"

section \<open>The user's own account\<close>

record me_answer =
  me_id :: int
  me_username :: string
  me_role :: string
  me_is_admin :: bool
  me_notifications :: bool
  me_relay_ingestion :: bool
  me_cloud_bridge :: bool
  me_exp :: int
  me_remembered :: bool
  me_password_expired :: bool
  me_password_expires_at :: "int option"

definition GetMe :: "bool \<Rightarrow> time \<Rightarrow> claims option \<Rightarrow> (authdb, me_answer resp) sql" where
  "GetMe cloud now cl =
     (case cl of
        None \<Rightarrow> ret (Failure 401 ''auth.required'')
      | Some cl \<Rightarrow>
          attempt (query (\<lambda>d. map_sum id (\<lambda>u. (us_IsAdmin u, us_AuthType u)) (find_user (\<lambda>u. us_ID u = cl_user_id cl) d))) (\<lambda>r.
          let (isAdmin, authType) = (case r of Inl err \<Rightarrow> (False, ''local'') | Inr p \<Rightarrow> p) in
          bind (auth_setting ''notifications_enabled'' ''true'') (\<lambda>notif.
          bind (auth_setting ''relay_ingestion_enabled'' ''false'') (\<lambda>relay.
          attempt (if authType = ''local'' then IsPasswordExpired now (cl_user_id cl) else ret False) (\<lambda>expired.
          attempt (if authType = ''local'' then GetPasswordExpiryDate (cl_user_id cl) else ret None) (\<lambda>expDate.
            ret (Answer 200 \<lparr>me_id = cl_user_id cl, me_username = cl_username cl, me_role = cl_role cl, me_is_admin = isAdmin,
              me_notifications = (notif = ''true''), me_relay_ingestion = (relay = ''true''), me_cloud_bridge = cloud, me_exp = cl_exp cl,
              me_remembered = cl_remember cl, me_password_expired = (expired = Inr True),
              me_password_expires_at = (case expDate of Inr (Some t) \<Rightarrow> Some (t div Second) | _ \<Rightarrow> None)\<rparr>)))))))"

section \<open>Changing a password\<close>

text \<open>\<open>salt\<close>: the random salt of bcrypt.\<close>

definition ChangePassword ::
  "('k, 'p) auth_env \<Rightarrow> time \<Rightarrow> client \<Rightarrow> string \<Rightarrow> string \<Rightarrow> (string \<times> string) option \<Rightarrow> (authdb, string resp) sql" where
  "ChangePassword E now c salt username body =
     (case body of
        None \<Rightarrow> ret (Failure 400 ''error.invalidRequest'')
      | Some (current, new) \<Rightarrow>
          (if current = [] \<or> length current > 128 \<or> length new < 8 \<or> length new > 128 then ret (Failure 400 ''error.invalidRequest'')
           else
             bind LoadPasswordPolicy (\<lambda>policy.
             if \<not> ValidatePasswordWithPolicy policy new then ret (Failure 400 ''auth.passwordRequirements'')
             else
               attempt (query (\<lambda>d. map_sum id us_PasswordHash (find_user (\<lambda>u. us_Username u = username) d))) (\<lambda>r. case r of
                 Inl err \<Rightarrow> ret (Failure 401 ''auth.userNotFound'')
               | Inr storedHash \<Rightarrow>
                   (if \<not> ae_bcrypt_ok E storedHash current then ret (Failure 401 ''auth.currentPasswordIncorrect'')
                    else
                      (case ae_bcrypt_gen E salt new of
                         None \<Rightarrow> ret (Failure 500 ''auth.hashFailed'')
                       | Some newHash \<Rightarrow>
                           attempt (query (\<lambda>d. map_sum id us_ID (find_user (\<lambda>u. us_Username u = username) d))) (\<lambda>r. case r of
                             Inl err \<Rightarrow> ret (Failure 500 ''auth.userLookupFailed'')
                           | Inr uid \<Rightarrow>
                               attempt (CheckPasswordHistory uid newHash) (\<lambda>exists.
                               if exists = Inr True then ret (Failure 400 ''auth.passwordAlreadyUsed'')
                               else
                                 attempt (ResetUserPassword now uid newHash) (\<lambda>r. case r of
                                   Inl err \<Rightarrow> ret (Failure 500 ''auth.passwordUpdateFailed'')
                                 | Inr _ \<Rightarrow>
                                     attempt (AddPasswordHistory now uid newHash) (\<lambda>r. case r of
                                       Inl err \<Rightarrow> ret (Failure 500 ''auth.passwordHistoryFailed'')
                                     | Inr _ \<Rightarrow>
                                         attempt (TrimPasswordHistory uid) (\<lambda>r. case r of
                                           Inl err \<Rightarrow> ret (Failure 500 ''auth.passwordHistoryFailed'')
                                         | Inr _ \<Rightarrow>
                                             bind (auth_audit uid username ''password_changed'' (ct_ip c) []) (\<lambda>_.
                                               ret (Answer 200 ''Password updated'')))))))))))))"

section \<open>Requests with an access token\<close>

definition bearer_token :: "string \<Rightarrow> string \<Rightarrow> string resp" where
  "bearer_token cookie header =
     (if cookie \<noteq> [] then Answer 200 cookie
      else if header = [] then Failure 401 ''auth.missingAuthorization''
      else if \<not> has_prefix header ''Bearer '' then Failure 400 ''auth.invalidAuthFormat''
      else if drop 7 header = [] then Failure 401 ''auth.missingAuthorization''
      else Answer 200 (drop 7 header))"

definition JWTRequired :: "('k, 'p) auth_env \<Rightarrow> time \<Rightarrow> string \<Rightarrow> string \<Rightarrow> (authdb, claims resp) sql" where
  "JWTRequired E now cookie header =
     (case bearer_token cookie header of
        Failure code key \<Rightarrow> ret (Failure code key)
      | Answer _ tok \<Rightarrow>
          (case ValidateToken (ae_jwt E) (ae_cfg E) now tok of
             None \<Rightarrow> ret (Failure 401 ''auth.invalidToken'')
           | Some cl \<Rightarrow>
               attempt (if cl_jti cl \<noteq> [] then IsJTIBlacklisted (cl_jti cl) else ret False) (\<lambda>r.
                 if r = Inr True then ret (Failure 401 ''auth.tokenRevoked'') else ret (Answer 200 cl))))"

definition RoleRequired :: "string list \<Rightarrow> client \<Rightarrow> claims option \<Rightarrow> (authdb, unit resp) sql" where
  "RoleRequired roles c cl =
     (case cl of
        None \<Rightarrow> ret (Failure 401 ''auth.required'')
      | Some cl \<Rightarrow>
          (if cl_role cl \<in> set roles then ret (Answer 200 ())
           else bind (auth_audit (cl_user_id cl) (cl_username cl) ''access_denied'' (ct_ip c)
                  (''insufficient permissions; required=['' @ join '' '' roles @ ''], user_role='' @ cl_role cl)) (\<lambda>_.
                ret (Failure 403 ''auth.insufficientPermissions''))))"

definition AdminRequired :: "client \<Rightarrow> claims option \<Rightarrow> (authdb, unit resp) sql" where
  "AdminRequired c cl =
     (case cl of
        None \<Rightarrow> ret (Failure 401 ''auth.required'')
      | Some cl \<Rightarrow>
          (if cl_role cl \<noteq> ''admin'' then
             bind (auth_audit (cl_user_id cl) (cl_username cl) ''access_denied'' (ct_ip c) (''admin access required; user_role='' @ cl_role cl)) (\<lambda>_.
               ret (Failure 403 ''auth.adminRequired''))
           else ret (Answer 200 ())))"

section \<open>Cross-site requests\<close>

text \<open>
  \<^verbatim>\<open>CSRFRequired\<close>: the value of a new cookie, if one is set, or the refusal. \<open>cookie\<close> is \<^const>\<open>None\<close> when the request has none.
\<close>

definition CSRFRequired :: "string \<Rightarrow> string \<Rightarrow> string option \<Rightarrow> string \<Rightarrow> string option resp" where
  "CSRFRequired token method cookie header =
     (if method \<in> {''GET'', ''HEAD'', ''OPTIONS''} then Answer 200 (if cookie = None then Some token else None)
      else (case cookie of
              None \<Rightarrow> Failure 403 ''auth.csrfMismatch''
            | Some v \<Rightarrow> (if v = [] \<or> header = [] \<or> header \<noteq> v then Failure 403 ''auth.csrfMismatch'' else Answer 200 None)))"

end
