(* ===== verification/AuthTheorems.thy ===== *)
theory AuthTheorems
  imports AuthHandlers
begin

text \<open>
  What the login promises: who is let in, how long an account stays locked, how often a refresh token works, which
  access tokens survive a rotation of the keys; and where the code falls short of its own rules.
\<close>

section \<open>Password expiry\<close>

definition not_local :: "User option \<Rightarrow> bool" where
  "not_local u \<longleftrightarrow> (\<forall>x. u = Some x \<longrightarrow> us_AuthType x \<noteq> ''local'')"

lemma lookup_not_local: "yields (\<lambda>u. us_AuthType u \<noteq> ''local'') (GetUserByUsername name)"
  unfolding GetUserByUsername_def by (rule yields_query) (auto simp: map_sum_def scan_user_def split: sum.splits)

lemma local_login_not_local: "yields not_local (local_login E now c req)"
  unfolding local_login_def
  by (rule yields_attempt [OF lookup_not_local]) (auto intro!: yields_intros simp: not_local_def)

lemma created_not_local: "yields (\<lambda>u. us_AuthType u \<noteq> ''local'') (CreateLDAPUser now name email role adm)"
  unfolding yields_def CreateLDAPUser_def stmt_def by (auto simp: Let_def split: sum.splits if_splits)

lemma ldap_login_not_local: "yields not_local (ldap_login E now c req)"
  unfolding ldap_login_def
proof (intro yields_then yields_option)
  fix cfg
  have "yields not_local (attempt (GetUserByUsername n) (\<lambda>r. case r of
      Inl err \<Rightarrow> (if b then attempt (CreateLDAPUser now n email role adm) (\<lambda>r. case r of Inl err \<Rightarrow> bind a1 (\<lambda>_. ret None) | Inr u \<Rightarrow> ret (Some u))
                 else bind a2 (\<lambda>_. ret None))
    | Inr existing \<Rightarrow> ret (Some existing)))" for n b email role adm and a1 a2 :: "(authdb, unit) sql"
  proof (rule yields_attempt [OF lookup_not_local])
    fix e
    have "yields not_local (attempt (CreateLDAPUser now n email role adm) (\<lambda>r. case r of Inl err \<Rightarrow> bind a1 (\<lambda>_. ret None) | Inr u \<Rightarrow> ret (Some u)))"
      by (rule yields_attempt [OF created_not_local]) (auto intro!: yields_intros simp: not_local_def)
    then show "yields not_local (case Inl e of
      Inl err \<Rightarrow> (if b then attempt (CreateLDAPUser now n email role adm) (\<lambda>r. case r of Inl err \<Rightarrow> bind a1 (\<lambda>_. ret None) | Inr u \<Rightarrow> ret (Some u))
                 else bind a2 (\<lambda>_. ret None))
    | Inr existing \<Rightarrow> ret (Some existing))" by (auto intro!: yields_intros simp: not_local_def)
  qed (auto intro!: yields_intros simp: not_local_def)
  then show "yields not_local (case ae_ldap E cfg (lg_Username req) (lg_Password req) of
            LdapUser email name0 \<Rightarrow>
              (let username = (if name0 = [] then lg_Username req else name0); role = ldap_value cfg ''ldap_default_role'' in
               attempt (GetUserByUsername username) (\<lambda>r. case r of
                 Inl err \<Rightarrow>
                   (if ldap_value cfg ''ldap_auto_provision'' = ''true'' then
                      attempt (CreateLDAPUser now username email role (role = ''admin'')) (\<lambda>r. case r of
                        Inl err \<Rightarrow> bind (auth_audit 0 (lg_Username req) ''login_failed'' (ct_ip c) ''auto-provision failed'') (\<lambda>_. ret None)
                      | Inr u \<Rightarrow> ret (Some u))
                    else bind (auth_audit 0 (lg_Username req) ''login_failed'' (ct_ip c) ''user not found locally'') (\<lambda>_. ret None))
               | Inr existing \<Rightarrow> ret (Some existing)))
          | _ \<Rightarrow> ret None)"
    by (cases "ae_ldap E cfg (lg_Username req) (lg_Password req)") (auto simp: Let_def not_local_def intro!: yields_ret)
qed (auto intro!: yields_ret simp: not_local_def)

definition no_expiry :: "login_answer resp \<Rightarrow> bool" where
  "no_expiry a \<longleftrightarrow> (\<forall>code i name. a \<noteq> Answer code (PasswordExpired i name))"

lemma open_session_no_expiry: "yields no_expiry (open_session E now c x user remember)"
  unfolding open_session_def Let_def by (intro yields_intros) (simp_all add: no_expiry_def)

lemma Login_no_expiry: "yields no_expiry (Login E now c x body)"
proof -
  have inner: "yields no_expiry (attempt (if us_AuthType user = ''local'' then IsPasswordExpired now (us_ID user) else ret False) (\<lambda>expired.
          if expired = Inr True then
            bind (auth_audit (us_ID user) (us_Username user) ''login_password_expired'' (ct_ip c) ''password expired, user must change'') (\<lambda>_.
              ret (Answer 200 (PasswordExpired (us_ID user) (us_Username user))))
          else open_session E now c x user rem))" if "us_AuthType user \<noteq> ''local''" for user rem
    by (rule yields_attempt [where P = "\<lambda>b. \<not> b"]) (use that in \<open>auto intro!: yields_ret open_session_no_expiry\<close>)
  have rest: "yields no_expiry (case u of
        None \<Rightarrow> bind (auth_audit 0 n ''login_failed'' (ct_ip c) ''invalid credentials'') (\<lambda>_. ret (Failure 401 ''auth.invalidCredentials''))
      | Some user \<Rightarrow>
          attempt (ResetFailedLogins (us_ID user)) (\<lambda>_.
          attempt (UpdateLastLogin now (us_Username user)) (\<lambda>_.
          attempt (if us_AuthType user = ''local'' then IsPasswordExpired now (us_ID user) else ret False) (\<lambda>expired.
            if expired = Inr True then
              bind (auth_audit (us_ID user) (us_Username user) ''login_password_expired'' (ct_ip c) ''password expired, user must change'') (\<lambda>_.
                ret (Answer 200 (PasswordExpired (us_ID user) (us_Username user))))
            else open_session E now c x user rem))))" if "not_local u" for u n rem
  proof (cases u)
    case None
    then show ?thesis by (simp add: yields_then yields_ret no_expiry_def)
  next
    case (Some user)
    with that have "us_AuthType user \<noteq> ''local''" by (simp add: not_local_def)
    show ?thesis unfolding Some option.case
      by (rule yields_try, rule yields_try, rule inner [OF \<open>us_AuthType user \<noteq> ''local''\<close>])
  qed
  have user: "yields not_local (case u0 of Some u \<Rightarrow> ret (Some u) | None \<Rightarrow> ldap_login E now c req)" if "not_local u0" for u0 req
    using that by (cases u0) (auto intro: ldap_login_not_local yields_ret)
  show ?thesis unfolding Login_def
    by (intro yields_option yields_if yields_bind [OF local_login_not_local] yields_bind [OF user] rest yields_ret)
      (simp_all add: no_expiry_def)
qed

text \<open>
  Expired passwords: the login never asks for an expired password to be changed, however old it is and whatever the
  settings say. The lookup of the user does not read the column that says how the user signs in, so the condition on it is never true.
\<close>
theorem password_expiry_not_enforced:
  "fst (Login E now c x body (d, fs)) \<noteq> Inr (Answer code (PasswordExpired i name))"
  using Login_no_expiry [of E now c x body] yieldsD [of no_expiry "Login E now c x body" "(d, fs)"]
  by (cases "Login E now c x body (d, fs)") (auto simp: no_expiry_def)

section \<open>Who is let in\<close>

lemma auth_setting_run: "\<exists>v. auth_setting k def (d, fs) = (Inr v, d, tl fs)"
  by (auto simp: auth_setting_def attempt_def query_def stmt_def split: option.split sum.split)

lemma auth_setting_ok [simp]:
  "auth_setting k def (d, []) = (Inr (case map_of (db_app_settings d) k of None \<Rightarrow> def | Some v \<Rightarrow> v), d, [])"
  by (simp add: auth_setting_def attempt_def split: option.split)

definition ldap_off :: "authdb \<Rightarrow> bool" where
  "ldap_off d \<longleftrightarrow> map_of (db_app_settings d) ''ldap_enabled'' \<noteq> Some ''true''"

lemma auth_setting_enabled:
  assumes "ldap_off d"
  shows "\<exists>v. auth_setting ''ldap_enabled'' ''false'' (d, fs) = (Inr v, d, tl fs) \<and> v \<noteq> ''true''"
  using assms by (cases "map_of (db_app_settings d) ''ldap_enabled''")
    (auto simp: ldap_off_def auth_setting_def attempt_def query_def stmt_def)

lemma ldap_login_off:
  assumes "ldap_off d"
  shows "\<exists>fs'. ldap_login E now c req (d, fs) = (Inr None, d, fs')"
proof -
  obtain v where v: "auth_setting ''ldap_enabled'' ''false'' (d, fs) = (Inr v, d, tl fs)" "v \<noteq> ''true''"
    using auth_setting_enabled [OF assms] by blast
  obtain w where "auth_setting ''ldap_server'' [] (d, tl fs) = (Inr w, d, tl (tl fs))" using auth_setting_run by blast
  with v show ?thesis by (simp add: ldap_login_def ldap_LoadConfig_def bind_def)
qed

lemma auth_audit_run: "\<exists>a. auth_audit i n act ip det (d, fs) = (Inr (), d\<lparr>db_audit := a\<rparr>, tl fs)"
proof (cases "fs \<noteq> [] \<and> hd fs")
  case True
  then have "auth_audit i n act ip det (d, fs) = (Inr (), d\<lparr>db_audit := db_audit d\<rparr>, tl fs)"
    by (simp add: auth_audit_def attempt_def stmt_def)
  then show ?thesis by blast
qed (auto simp: auth_audit_def attempt_def stmt_def)

lemma auth_audit_ok: "\<exists>a. auth_audit i n act ip det (d, []) = (Inr (), d\<lparr>db_audit := a\<rparr>, [])"
  using auth_audit_run [of i n act ip det d "[]"] by simp

definition locked_at :: "time \<Rightarrow> User \<Rightarrow> bool" where
  "locked_at now u \<longleftrightarrow> (case us_LockedUntil u of None \<Rightarrow> False | Some t \<Rightarrow> t > now)"

definition may_enter :: "('k, 'p) auth_env \<Rightarrow> authdb \<Rightarrow> LoginRequest \<Rightarrow> User \<Rightarrow> bool" where
  "may_enter E d req u \<longleftrightarrow> u \<in> set (db_users d) \<and> us_Username u = lg_Username req \<and> ae_bcrypt_ok E (us_PasswordHash u) (lg_Password req) \<and> us_IsActive u"

lemma find_user_in: "find_user P d = Inr u \<Longrightarrow> u \<in> set (db_users d) \<and> P u"
  by (auto simp: find_user_def find_Some_iff split: option.splits)

lemma setting_or_env_run: "\<exists>v. setting_or_env env k var def (d, fs) = (Inr v, d, tl fs)"
proof -
  obtain v where "auth_setting k [] (d, fs) = (Inr v, d, tl fs)" using auth_setting_run by blast
  then show ?thesis by (simp add: setting_or_env_def bind_def Let_def)
qed

lemma upd_user_run: "\<exists>r us. upd_user P f (d, fs) = (r, d\<lparr>db_users := us\<rparr>, tl fs)"
proof (cases "fs \<noteq> [] \<and> hd fs")
  case True
  then have "upd_user P f (d, fs) = (Inl SqlErr, d\<lparr>db_users := db_users d\<rparr>, tl fs)" by (simp add: upd_user_def stmt_def)
  then show ?thesis by blast
qed (auto simp: upd_user_def stmt_def)

lemma IncrementFailedLogins_run: "\<exists>r us fs'. IncrementFailedLogins env now i (d, fs) = (Inr r, d\<lparr>db_users := us\<rparr>, fs')"
proof -
  obtain m where m: "maxFailedAttempts env (d, fs) = (Inr m, d, tl fs)" unfolding maxFailedAttempts_def using setting_or_env_run by blast
  obtain l where "setting_or_env env ''security_lockout_duration_min'' ''LOCKOUT_DURATION_MIN'' 15 (d, tl fs) = (Inr l, d, tl (tl fs))"
    using setting_or_env_run by blast
  then have l: "failedLockoutDuration env (d, tl fs) = (Inr (int64 (l * Minute)), d, tl (tl fs))" by (simp add: failedLockoutDuration_def bind_def)
  obtain r where r: "query (find_user (\<lambda>u. us_ID u = i)) (d, tl (tl fs)) = (r, d, tl (tl (tl fs)))" by (metis query_run)
  have same: "d = d\<lparr>db_users := db_users d\<rparr>" by simp
  show ?thesis
  proof (cases r)
    case (Inl e)
    with m l r have "IncrementFailedLogins env now i (d, fs) = (Inr ((0, False), Some e), d\<lparr>db_users := db_users d\<rparr>, tl (tl (tl fs)))"
      by (simp add: IncrementFailedLogins_def bind_def attempt_def)
    then show ?thesis by blast
  next
    case (Inr u)
    show ?thesis
    proof (cases "locked_at now u")
      case True
      with m l r Inr have "IncrementFailedLogins env now i (d, fs) =
          (Inr ((us_FailedLoginAttempts u, True), None), d\<lparr>db_users := db_users d\<rparr>, tl (tl (tl fs)))"
        by (simp add: IncrementFailedLogins_def bind_def attempt_def locked_at_def)
      then show ?thesis by blast
    next
      case False
      let ?f = "\<lambda>u'. u'\<lparr>us_FailedLoginAttempts := us_FailedLoginAttempts u + 1, us_LockedUntil := (if us_FailedLoginAttempts u + 1 \<ge> m then Some (now + whole_minutes (int64 (l * Minute)) * Minute) else None)\<rparr>"
      obtain q us where "upd_user (\<lambda>u. us_ID u = i) ?f (d, tl (tl (tl fs))) = (q, d\<lparr>db_users := us\<rparr>, tl (tl (tl (tl fs))))"
        using upd_user_run by blast
      with m l r Inr False show ?thesis
        by (cases q) (auto simp: IncrementFailedLogins_def bind_def attempt_def locked_at_def Let_def)
    qed
  qed
qed

lemma CheckUserLockout_run: "\<exists>l. CheckUserLockout now i (d, fs) = (l, d, tl fs)"
proof -
  obtain r where "query (\<lambda>d. map_sum id (\<lambda>u. case us_LockedUntil u of None \<Rightarrow> False | Some t \<Rightarrow> t > now) (find_user (\<lambda>u. us_ID u = i) d)) (d, fs) = (r, d, tl fs)"
    by (metis query_run)
  then show ?thesis by (cases r) (auto simp: CheckUserLockout_def attempt_def)
qed

definition users_ok :: "authdb \<Rightarrow> bool" where
  "users_ok d \<longleftrightarrow> distinct (map us_ID (db_users d)) \<and> distinct (map us_Username (db_users d))"

lemma find_user_key:
  assumes "distinct (map f (db_users d))" "u \<in> set (db_users d)"
  shows "find_user (\<lambda>v. f v = f u) d = Inr u"
proof -
  have "find (\<lambda>v. f v = f u) us = Some u" if "distinct (map f us)" "u \<in> set us" for us
    using that by (induction us) (auto simp: image_iff)
  with assms show ?thesis by (simp add: find_user_def)
qed

lemma local_login_run:
  "\<exists>r a us fs'. local_login E now c req (d, fs) = (Inr r, d\<lparr>db_users := us, db_audit := a\<rparr>, fs') \<and>
     (\<forall>v. r = Some v \<longrightarrow> us = db_users d \<and> (\<exists>u. may_enter E d req u \<and> us_ID v = us_ID u \<and> (users_ok d \<and> fs = [] \<longrightarrow> \<not> locked_at now u)))"
proof -
  obtain g where g: "GetUserByUsername (lg_Username req) (d, fs) = (g, d, tl fs)"
    unfolding GetUserByUsername_def by (metis query_run)
  have same: "d = d\<lparr>db_users := db_users d, db_audit := db_audit d\<rparr>" by simp
  show ?thesis
  proof (cases g)
    case (Inl e)
    with g have "local_login E now c req (d, fs) = (Inr None, d\<lparr>db_users := db_users d, db_audit := db_audit d\<rparr>, tl fs)"
      by (simp add: local_login_def attempt_def)
    then show ?thesis by blast
  next
    case (Inr v)
    with g obtain u where u: "find_user (\<lambda>u. us_Username u = lg_Username req) d = Inr u" "v = scan_user u"
      by (cases "find_user (\<lambda>u. us_Username u = lg_Username req) d") (auto simp: GetUserByUsername_def query_def stmt_def split: if_splits)
    have vs: "us_ID v = us_ID u" "us_PasswordHash v = us_PasswordHash u" "us_IsActive v = us_IsActive u" by (simp_all add: u(2) scan_user_def)
    show ?thesis
    proof (cases "ae_bcrypt_ok E (us_PasswordHash u) (lg_Password req)")
      case False
      obtain n lk e us fs1 where inc: "IncrementFailedLogins (ae_env E) now (us_ID u) (d, tl fs) = (Inr ((n, lk), e), d\<lparr>db_users := us\<rparr>, fs1)"
        using IncrementFailedLogins_run [of "ae_env E" now "us_ID u" d "tl fs"] by (metis prod.exhaust)
      obtain a where a: "auth_audit (us_ID u) (lg_Username req) ''user_locked'' (ct_ip c) (''account locked after '' @ itoa n @ '' failed attempts'') (d\<lparr>db_users := us\<rparr>, fs1) =
          (Inr (), d\<lparr>db_users := us, db_audit := a\<rparr>, tl fs1)" using auth_audit_run by blast
      have "local_login E now c req (d, fs) =
          (Inr None, d\<lparr>db_users := us, db_audit := (if lk then a else db_audit d)\<rparr>, if lk then tl fs1 else fs1)"
        using g Inr False vs inc a by (simp add: local_login_def attempt_def bind_def)
      then show ?thesis by blast
    next
      case True
      obtain l where l: "CheckUserLockout now (us_ID u) (d, tl fs) = (l, d, tl (tl fs))" using CheckUserLockout_run by blast
      have enter: "may_enter E d req u" if "us_IsActive u" using that True find_user_in [OF u(1)] by (simp add: may_enter_def)
      have free: "\<not> locked_at now u" if "users_ok d" "fs = []" "l \<noteq> Inr True"
      proof -
        have "find_user (\<lambda>v. us_ID v = us_ID u) d = Inr u" using that find_user_in [OF u(1)] find_user_key [of us_ID] by (simp add: users_ok_def)
        with that l show ?thesis by (auto simp: CheckUserLockout_def attempt_def locked_at_def)
      qed
      have audit: "\<exists>a. auth_audit (us_ID u) (lg_Username req) act (ct_ip c) det (d, tl (tl fs)) = (Inr (), d\<lparr>db_users := db_users d, db_audit := a\<rparr>, tl (tl (tl fs)))" for act det
        using auth_audit_run [of "us_ID u" "lg_Username req" act "ct_ip c" det d "tl (tl fs)"] by simp
      consider (locked) "l = Inr True" | (inactive) "l \<noteq> Inr True" "\<not> us_IsActive u" | (ok) "l \<noteq> Inr True" "us_IsActive u" by blast
      then show ?thesis
      proof cases
        case locked
        obtain a where "auth_audit (us_ID u) (lg_Username req) ''login_failed_lockout'' (ct_ip c) ''account locked due to too many failed attempts'' (d, tl (tl fs)) =
            (Inr (), d\<lparr>db_users := db_users d, db_audit := a\<rparr>, tl (tl (tl fs)))" using audit by blast
        then have "local_login E now c req (d, fs) = (Inr None, d\<lparr>db_users := db_users d, db_audit := a\<rparr>, tl (tl (tl fs)))"
          using locked g Inr True vs l by (simp add: local_login_def attempt_def bind_def)
        then show ?thesis by blast
      next
        case inactive
        obtain a where "auth_audit (us_ID u) (lg_Username req) ''login_failed_inactive'' (ct_ip c) ''account deactivated by admin'' (d, tl (tl fs)) =
            (Inr (), d\<lparr>db_users := db_users d, db_audit := a\<rparr>, tl (tl (tl fs)))" using audit by blast
        then have "local_login E now c req (d, fs) = (Inr None, d\<lparr>db_users := db_users d, db_audit := a\<rparr>, tl (tl (tl fs)))"
          using inactive g Inr True vs l by (simp add: local_login_def attempt_def bind_def)
        then show ?thesis by blast
      next
        case ok
        then have "local_login E now c req (d, fs) = (Inr (Some v), d\<lparr>db_users := db_users d, db_audit := db_audit d\<rparr>, tl (tl fs))"
          using g Inr True vs l by (simp add: local_login_def attempt_def)
        with ok enter free vs show ?thesis by blast
      qed
    qed
  qed
qed

lemma open_session_user: "yields (\<lambda>a. \<forall>code g. a = Answer code (Granted g) \<longrightarrow> sg_userID g = us_ID user) (open_session E now c x user remember)"
  unfolding open_session_def Let_def by (intro yields_intros) auto

text \<open>
  Who is let in (C25): with LDAP switched off, a login opens a session only for an active user of the given name whose
  password it has, whatever statements fail; and when none fails, only for one whose account is not locked.
\<close>
theorem login_lets_in:
  assumes "ldap_off d" "Login E now c x (Some req) (d, fs) = (Inr (Answer code (Granted g)), s')"
  shows "\<exists>u. may_enter E d req u \<and> sg_userID g = us_ID u \<and> (users_ok d \<and> fs = [] \<longrightarrow> \<not> locked_at now u)"
proof -
  obtain r a us fs1 where l: "local_login E now c req (d, fs) = (Inr r, d\<lparr>db_users := us, db_audit := a\<rparr>, fs1)"
    and r: "\<And>v. r = Some v \<Longrightarrow> \<exists>u. may_enter E d req u \<and> us_ID v = us_ID u \<and> (users_ok d \<and> fs = [] \<longrightarrow> \<not> locked_at now u)"
    using local_login_run [of E now c req d fs] by blast
  let ?d = "d\<lparr>db_users := us, db_audit := a\<rparr>"
  have "ldap_off ?d" using assms(1) by (simp add: ldap_off_def)
  then obtain fs2 where ldap: "ldap_login E now c req (?d, fs1) = (Inr None, ?d, fs2)" using ldap_login_off by blast
  have bound: "login_bound req" using assms(2) by (simp add: Login_def split: if_splits)
  show ?thesis
  proof (cases r)
    case None
    obtain b where "auth_audit 0 (lg_Username req) ''login_failed'' (ct_ip c) ''invalid credentials'' (?d, fs2) = (Inr (), ?d\<lparr>db_audit := b\<rparr>, tl fs2)"
      using auth_audit_run by blast
    with None l ldap bound assms(2) show ?thesis by (simp add: Login_def bind_def)
  next
    case (Some v)
    let ?rest = "attempt (ResetFailedLogins (us_ID v)) (\<lambda>_.
        attempt (UpdateLastLogin now (us_Username v)) (\<lambda>_.
        attempt (if us_AuthType v = ''local'' then IsPasswordExpired now (us_ID v) else ret False) (\<lambda>expired.
          if expired = Inr True then
            bind (auth_audit (us_ID v) (us_Username v) ''login_password_expired'' (ct_ip c) ''password expired, user must change'') (\<lambda>_.
              ret (Answer 200 (PasswordExpired (us_ID v) (us_Username v))))
          else open_session E now c x v (lg_Remember req))))"
    have "yields (\<lambda>a. \<forall>code g. a = Answer code (Granted g) \<longrightarrow> sg_userID g = us_ID v) ?rest"
      by (intro yields_try yields_if yields_then yields_ret open_session_user) simp
    moreover have "?rest (?d, fs1) = (Inr (Answer code (Granted g)), s')"
      using assms(2) bound l Some by (simp add: Login_def bind_def)
    ultimately have "sg_userID g = us_ID v" by (auto dest: yieldsD)
    with r [OF Some] show ?thesis by auto
  qed
qed

definition demo_jwt :: "(unit, unit) jwt_ops" where
  "demo_jwt = \<lparr>jw_hs256 = (\<lambda>_ _. Some ''token''), jw_rs256 = (\<lambda>_ _. None), jw_public = id, jw_parse = (\<lambda>_ _ _. None)\<rparr>"

definition demo_env :: "(unit, unit) auth_env" where
  "demo_env = \<lparr>ae_jwt = demo_jwt, ae_cfg = \<lparr>ac_primary = ''key'', ac_secondary = None, ac_rsaPriv = None, ac_rsaPub = None, ac_rsaPubSecondary = None\<rparr>,
     ae_env = (\<lambda>_. []), ae_digest = (\<lambda>t. ''digest of '' @ t), ae_bcrypt_ok = (\<lambda>h p. h = ''hash of '' @ p),
     ae_bcrypt_gen = (\<lambda>salt p. Some (salt @ p)), ae_ldap = (\<lambda>_ _ _. LdapError)\<rparr>"

definition demo_user :: User where
  "demo_user = \<lparr>us_ID = 1, us_Username = ''ann'', us_Email = [], us_PasswordHash = ''hash of secret'', us_Role = ''viewer'', us_AuthType = ''local'',
     us_IsAdmin = False, us_IsActive = True, us_CreatedAt = 0, us_LastLoginAt = None, us_FailedLoginAttempts = 0, us_LockedUntil = None,
     us_PasswordChangedAt = None\<rparr>"

definition demo_db :: authdb where
  "demo_db = \<lparr>db_users = [demo_user], db_refresh = [], db_blacklist = [], db_history = [], db_app_settings = [(''security_max_failed_attempts'', ''1'')],
     db_audit = [], db_seq = 1\<rparr>"

definition demo_client :: client where
  "demo_client = \<lparr>ct_ip = [], ct_user_agent = [], ct_device_cookie = [], ct_refresh_cookie = [], ct_silent = False, ct_screen = [], ct_timezone = []\<rparr>"

definition demo_fresh :: fresh where "demo_fresh = \<lparr>fr_jti = ''j'', fr_refresh = ''r'', fr_device = ''d''\<rparr>"

lemma demo_login:
  "\<exists>code g s'. Login demo_env 0 demo_client demo_fresh (Some \<lparr>lg_Username = ''ann'', lg_Password = ''secret'', lg_Remember = False\<rparr>) (demo_db, []) =
     (Inr (Answer code (Granted g)), s')"
  by (simp add: Login_def login_bound_def local_login_def GetUserByUsername_def find_user_def demo_db_def demo_user_def demo_env_def demo_jwt_def scan_user_def
      attempt_def bind_def CheckUserLockout_def ResetFailedLogins_def UpdateLastLogin_def upd_user_def open_session_def GenerateToken_def
      getJWTExpiryMin_def getRememberedTTL_def sign_claims_def InvalidateDeviceSessions_def insertRefreshToken_def session_params_def
      deviceID_def demo_client_def demo_fresh_def auth_audit_def sanitizeScreenResolution_def sanitizeTimezone_def Let_def upd_refresh_def
      split: option.split sum.split)

theorem login_lets_in_witness:
  "\<exists>u. may_enter demo_env demo_db \<lparr>lg_Username = ''ann'', lg_Password = ''secret'', lg_Remember = False\<rparr> u"
proof -
  have off: "ldap_off demo_db" by (simp add: ldap_off_def demo_db_def)
  show ?thesis using demo_login login_lets_in [OF off] by blast
qed

section \<open>Lockout\<close>

definition int_setting :: "(string \<Rightarrow> string) \<Rightarrow> authdb \<Rightarrow> string \<Rightarrow> string \<Rightarrow> int \<Rightarrow> int" where
  "int_setting env d key var def =
     (let s0 = (case map_of (db_app_settings d) key of None \<Rightarrow> [] | Some v \<Rightarrow> v); s = (if s0 = [] then env var else s0)
      in if s = [] then def else (case parse_int64 s of None \<Rightarrow> def | Some n \<Rightarrow> n))"

definition max_failed :: "(string \<Rightarrow> string) \<Rightarrow> authdb \<Rightarrow> int" where
  "max_failed env d = int_setting env d ''security_max_failed_attempts'' ''MAX_FAILED_ATTEMPTS'' 5"

definition lockout_time :: "(string \<Rightarrow> string) \<Rightarrow> authdb \<Rightarrow> duration" where
  "lockout_time env d = whole_minutes (int64 (int_setting env d ''security_lockout_duration_min'' ''LOCKOUT_DURATION_MIN'' 15 * Minute)) * Minute"

lemma settings_ok [simp]:
  "maxFailedAttempts env (d, []) = (Inr (max_failed env d), d, [])"
  "failedLockoutDuration env (d, []) = (Inr (int64 (int_setting env d ''security_lockout_duration_min'' ''LOCKOUT_DURATION_MIN'' 15 * Minute)), d, [])"
  by (simp_all add: maxFailedAttempts_def failedLockoutDuration_def max_failed_def setting_or_env_def int_setting_def bind_def Let_def)

definition count_failure :: "int \<Rightarrow> duration \<Rightarrow> time \<Rightarrow> User \<Rightarrow> User" where
  "count_failure m l now u =
     u\<lparr>us_FailedLoginAttempts := us_FailedLoginAttempts u + 1, us_LockedUntil := (if us_FailedLoginAttempts u + 1 \<ge> m then Some (now + l) else None)\<rparr>"

lemma refused_login:
  assumes "local_login E now c req (d, []) = (Inr None, d', [])" "ldap_off d'" "login_bound req"
  shows "\<exists>a. Login E now c x (Some req) (d, []) = (Inr (Failure 401 ''auth.invalidCredentials''), d'\<lparr>db_audit := a\<rparr>, [])"
proof -
  have "map_of (db_app_settings d') ''ldap_enabled'' \<noteq> Some ''true''" using assms(2) by (simp add: ldap_off_def)
  then have "ldap_login E now c req (d', []) = (Inr None, d', [])" by (auto simp: ldap_login_def ldap_LoadConfig_def bind_def split: option.split)
  with assms(1,3) show ?thesis
    using auth_audit_run [of 0 "lg_Username req" "''login_failed''" "ct_ip c" "''invalid credentials''" d' "[]"] by (auto simp: Login_def bind_def)
qed

lemma lookup_ok:
  assumes "users_ok d" "u \<in> set (db_users d)"
  shows "find_user (\<lambda>v. us_Username v = us_Username u) d = Inr u" "find_user (\<lambda>v. us_ID v = us_ID u) d = Inr u"
  using assms find_user_key [of us_Username d u] find_user_key [of us_ID d u] by (simp_all add: users_ok_def)

lemma wrong_login:
  assumes "users_ok d" "u \<in> set (db_users d)" "\<not> locked_at now u" "ldap_off d"
    and "lg_Username req = us_Username u" "\<not> ae_bcrypt_ok E (us_PasswordHash u) (lg_Password req)" "login_bound req"
  shows "\<exists>a. Login E now c x (Some req) (d, []) = (Inr (Failure 401 ''auth.invalidCredentials''),
    d\<lparr>db_users := map (\<lambda>v. if us_ID v = us_ID u then count_failure (max_failed (ae_env E) d) (lockout_time (ae_env E) d) now v else v) (db_users d),
      db_audit := a\<rparr>, [])"
proof -
  let ?m = "max_failed (ae_env E) d" and ?l = "lockout_time (ae_env E) d"
  let ?us = "map (\<lambda>v. if us_ID v = us_ID u then count_failure ?m ?l now v else v) (db_users d)"
  have same: "v = u" if "v \<in> set (db_users d)" "us_ID v = us_ID u" for v
    using that assms(1,2) by (auto simp: users_ok_def distinct_map inj_on_def)
  let ?f = "\<lambda>v. v\<lparr>us_FailedLoginAttempts := us_FailedLoginAttempts u + 1, us_LockedUntil := (if us_FailedLoginAttempts u + 1 \<ge> ?m then Some (now + ?l) else None)\<rparr>"
  have "IncrementFailedLogins (ae_env E) now (us_ID u) (d, []) =
      (Inr ((us_FailedLoginAttempts u + 1, us_FailedLoginAttempts u + 1 \<ge> ?m), None), d\<lparr>db_users := map (\<lambda>v. if us_ID v = us_ID u then ?f v else v) (db_users d)\<rparr>, [])"
    using assms(3) by (simp add: IncrementFailedLogins_def bind_def attempt_def lookup_ok [OF assms(1,2)] locked_at_def upd_user_def
        lockout_time_def Let_def)
  also have "map (\<lambda>v. if us_ID v = us_ID u then ?f v else v) (db_users d) = ?us"
    by (rule map_cong) (use same in \<open>auto simp: count_failure_def\<close>)
  finally have inc: "IncrementFailedLogins (ae_env E) now (us_ID u) (d, []) =
      (Inr ((us_FailedLoginAttempts u + 1, us_FailedLoginAttempts u + 1 \<ge> ?m), None), d\<lparr>db_users := ?us\<rparr>, [])" .
  obtain b where "auth_audit (us_ID u) (lg_Username req) ''user_locked'' (ct_ip c) (''account locked after '' @ itoa (us_FailedLoginAttempts u + 1) @ '' failed attempts'') (d\<lparr>db_users := ?us\<rparr>, []) =
      (Inr (), d\<lparr>db_users := ?us, db_audit := b\<rparr>, [])" using auth_audit_ok by blast
  then have "\<exists>a. local_login E now c req (d, []) = (Inr None, d\<lparr>db_users := ?us, db_audit := a\<rparr>, [])"
    using assms(6) inc by (cases "us_FailedLoginAttempts u + 1 \<ge> ?m")
      (auto simp: local_login_def GetUserByUsername_def assms(5) lookup_ok [OF assms(1,2)] attempt_def bind_def scan_user_def intro: exI [of _ "db_audit d"])
  then obtain a where "local_login E now c req (d, []) = (Inr None, d\<lparr>db_users := ?us, db_audit := a\<rparr>, [])" by blast
  from refused_login [OF this] assms(4,7) show ?thesis by (simp add: ldap_off_def)
qed

lemma locked_login:
  assumes "users_ok d" "u \<in> set (db_users d)" "locked_at now u" "ldap_off d" "lg_Username req = us_Username u" "login_bound req"
  shows "\<exists>a. Login E now c x (Some req) (d, []) = (Inr (Failure 401 ''auth.invalidCredentials''), d\<lparr>db_audit := a\<rparr>, [])"
proof -
  note find = lookup_ok [OF assms(1,2)]
  have "\<exists>a. local_login E now c req (d, []) = (Inr None, d\<lparr>db_audit := a\<rparr>, [])"
  proof (cases "ae_bcrypt_ok E (us_PasswordHash u) (lg_Password req)")
    case True
    have "CheckUserLockout now (us_ID u) (d, []) = (Inr True, d, [])"
      using assms(3) by (simp add: CheckUserLockout_def attempt_def find locked_at_def)
    with True show ?thesis
      using auth_audit_run [of "us_ID u" "us_Username u" "''login_failed_lockout''" "ct_ip c" "''account locked due to too many failed attempts''" d "[]"]
      by (auto simp: local_login_def GetUserByUsername_def assms(5) find attempt_def bind_def scan_user_def)
  next
    case False
    have "IncrementFailedLogins (ae_env E) now (us_ID u) (d, []) = (Inr ((us_FailedLoginAttempts u, True), None), d, [])"
      using assms(3) by (simp add: IncrementFailedLogins_def bind_def attempt_def find locked_at_def)
    with False show ?thesis
      using auth_audit_run [of "us_ID u" "us_Username u" "''user_locked''" "ct_ip c" "''account locked after '' @ itoa (us_FailedLoginAttempts u) @ '' failed attempts''" d "[]"]
      by (auto simp: local_login_def GetUserByUsername_def assms(5) find attempt_def bind_def scan_user_def)
  qed
  then obtain a where "local_login E now c req (d, []) = (Inr None, d\<lparr>db_audit := a\<rparr>, [])" by blast
  from refused_login [OF this, of x] assms(4,6) show ?thesis by (auto simp: ldap_off_def)
qed

text \<open>A series of logins, each with its time, client and random values.\<close>

fun logins :: "('k, 'p) auth_env \<Rightarrow> (time \<times> client \<times> fresh \<times> LoginRequest) list \<Rightarrow> authdb \<Rightarrow> authdb" where
  "logins E [] d = d"
| "logins E ((now, c, x, req) # as) d = logins E as (fst (snd (Login E now c x (Some req) (d, []))))"

definition wrong_password :: "('k, 'p) auth_env \<Rightarrow> User \<Rightarrow> LoginRequest \<Rightarrow> bool" where
  "wrong_password E u req \<longleftrightarrow> lg_Username req = us_Username u \<and> login_bound req \<and> \<not> ae_bcrypt_ok E (us_PasswordHash u) (lg_Password req)"

lemma count_failure_simps [simp]:
  "us_ID (count_failure m l now u) = us_ID u" "us_Username (count_failure m l now u) = us_Username u"
  "us_PasswordHash (count_failure m l now u) = us_PasswordHash u"
  "us_FailedLoginAttempts (count_failure m l now u) = us_FailedLoginAttempts u + 1"
  by (simp_all add: count_failure_def)

lemma users_ok_upd:
  assumes "users_ok d" "\<And>v. us_ID (f v) = us_ID v" "\<And>v. us_Username (f v) = us_Username v"
  shows "users_ok (d\<lparr>db_users := map f (db_users d), db_audit := a\<rparr>)"
  using assms by (simp add: users_ok_def o_def)

lemma setting_cong:
  assumes "db_app_settings d' = db_app_settings d"
  shows "max_failed env d' = max_failed env d" "lockout_time env d' = lockout_time env d" "ldap_off d' \<longleftrightarrow> ldap_off d"
  using assms by (simp_all add: max_failed_def lockout_time_def int_setting_def ldap_off_def)

lemma wrong_step:
  fixes now c x
  assumes "users_ok d" "u \<in> set (db_users d)" "us_LockedUntil u = None" "ldap_off d" "wrong_password E u req"
  defines "d' \<equiv> fst (snd (Login E now c x (Some req) (d, [])))"
  shows "users_ok d'" "ldap_off d'" "db_app_settings d' = db_app_settings d"
    "count_failure (max_failed (ae_env E) d) (lockout_time (ae_env E) d) now u \<in> set (db_users d')"
proof -
  let ?f = "\<lambda>v. if us_ID v = us_ID u then count_failure (max_failed (ae_env E) d) (lockout_time (ae_env E) d) now v else v"
  have free: "\<not> locked_at now u" using assms(3) by (simp add: locked_at_def)
  obtain a where d': "d' = d\<lparr>db_users := map ?f (db_users d), db_audit := a\<rparr>"
    using wrong_login [OF assms(1,2) free assms(4), of req E c x] assms(5) by (auto simp: d'_def wrong_password_def)
  show "users_ok d'" unfolding d' by (rule users_ok_upd [OF assms(1)]) simp_all
  show set: "db_app_settings d' = db_app_settings d" by (simp add: d')
  show "ldap_off d'" using setting_cong(3) [OF set] assms(4) by blast
  have "?f u \<in> ?f ` set (db_users d)" using assms(2) by (rule imageI)
  then show "count_failure (max_failed (ae_env E) d) (lockout_time (ae_env E) d) now u \<in> set (db_users d')" by (simp add: d')
qed

definition lock_after :: "('k, 'p) auth_env \<Rightarrow> authdb \<Rightarrow> User \<Rightarrow> (time \<times> client \<times> fresh \<times> LoginRequest) list \<Rightarrow> time option" where
  "lock_after E d u as =
     (if as \<noteq> [] \<and> us_FailedLoginAttempts u + int (length as) = max_failed (ae_env E) d then Some (fst (last as) + lockout_time (ae_env E) d) else None)"

lemma wrong_logins:
  assumes "users_ok d" "u \<in> set (db_users d)" "us_LockedUntil u = None" "ldap_off d"
    and "\<forall>(now, c, x, req) \<in> set as. wrong_password E u req" "us_FailedLoginAttempts u + int (length as) \<le> max_failed (ae_env E) d"
  shows "users_ok (logins E as d) \<and> ldap_off (logins E as d) \<and>
    (\<exists>v \<in> set (db_users (logins E as d)). us_Username v = us_Username u \<and> us_LockedUntil v = lock_after E d u as)"
  using assms
proof (induction as arbitrary: d u)
  case Nil
  then show ?case by (auto simp: lock_after_def)
next
  case (Cons a as)
  obtain now c x req where a: "a = (now, c, x, req)" by (metis prod.exhaust)
  let ?d = "fst (snd (Login E now c x (Some req) (d, [])))"
  let ?u = "count_failure (max_failed (ae_env E) d) (lockout_time (ae_env E) d) now u"
  have wrong: "wrong_password E u req" using Cons.prems(5) by (simp add: a)
  note step = wrong_step [OF Cons.prems(1-4) wrong, of now c x]
  note same = setting_cong [OF step(3)]
  show ?case
  proof (cases "as = []")
    case True
    then have "us_LockedUntil ?u = lock_after E d u (a # as)"
      using Cons.prems(6) by (simp add: count_failure_def lock_after_def a)
    then show ?thesis using step(1,2,4) True by (auto simp: a intro!: bexI [of _ ?u])
  next
    case False
    then have free: "us_LockedUntil ?u = None" using Cons.prems(6) by (auto simp: count_failure_def neq_Nil_conv)
    have eq: "lock_after E ?d ?u as = lock_after E d u (a # as)" using False by (simp add: lock_after_def same add.assoc cong: if_cong)
    have "users_ok (logins E as ?d) \<and> ldap_off (logins E as ?d) \<and>
        (\<exists>v \<in> set (db_users (logins E as ?d)). us_Username v = us_Username ?u \<and> us_LockedUntil v = lock_after E ?d ?u as)"
      using Cons.prems free by (intro Cons.IH step(1,2,4)) (auto simp: same wrong_password_def)
    then show ?thesis unfolding eq by (simp add: a)
  qed
qed

text \<open>The account \<open>i\<close> with name \<open>n\<close> is locked until \<open>t\<close>.\<close>

definition held :: "int \<Rightarrow> string \<Rightarrow> time \<Rightarrow> authdb \<Rightarrow> bool" where
  "held i n t d \<longleftrightarrow> users_ok d \<and> ldap_off d \<and>
     (\<exists>v \<in> set (db_users d). us_ID v = i \<and> us_Username v = n \<and> us_LockedUntil v = Some t)"

named_theorems held_intros \<open>what leaves an account locked\<close>

lemma held_frame [simp]:
  "held i n t (d\<lparr>db_audit := a\<rparr>) = held i n t d" "held i n t (d\<lparr>db_blacklist := b\<rparr>) = held i n t d"
  "held i n t (d\<lparr>db_refresh := r\<rparr>) = held i n t d" "held i n t (d\<lparr>db_seq := k\<rparr>) = held i n t d"
  by (simp_all add: held_def users_ok_def ldap_off_def)

lemma held_upd_user [held_intros]:
  assumes "\<And>v. us_ID (f v) = us_ID v" "\<And>v. us_Username (f v) = us_Username v"
    and "\<And>v. P v \<Longrightarrow> us_ID v = i \<Longrightarrow> us_LockedUntil (f v) = us_LockedUntil v"
  shows "keeps (held i n t) (upd_user P f)"
  unfolding upd_user_def
proof (rule keeps_stmt)
  fix d x d'
  assume h: "held i n t d" and d': "Inr ((), d\<lparr>db_users := map (\<lambda>u. if P u then f u else u) (db_users d)\<rparr>) = Inr (x, d')"
  let ?g = "\<lambda>u. if P u then f u else u"
  have "us_ID (?g v) = us_ID v" "us_Username (?g v) = us_Username v" for v using assms(1,2) by simp_all
  then have "users_ok (d\<lparr>db_users := map ?g (db_users d)\<rparr>)"
    using h users_ok_upd [of d ?g "db_audit d"] by (simp add: held_def)
  moreover obtain v where "v \<in> set (db_users d)" "us_ID v = i" "us_Username v = n" "us_LockedUntil v = Some t"
    using h by (auto simp: held_def)
  then have "?g v \<in> ?g ` set (db_users d) \<and> us_ID (?g v) = i \<and> us_Username (?g v) = n \<and> us_LockedUntil (?g v) = Some t"
    using assms by auto
  ultimately show "held i n t d'" using h d' by (auto simp: held_def ldap_off_def)
qed

lemma held_leaves [held_intros]:
  "keeps (held i n t) (auth_setting k v)" "keeps (held i n t) (auth_audit j m act ip det)" "keeps (held i n t) (BlacklistJTI now jti)"
  "keeps (held i n t) (insertRefreshToken digest now p)"
  unfolding auth_setting_def auth_audit_def BlacklistJTI_def insertRefreshToken_def
  by (intro keeps_intros keeps_stmt; auto split: if_splits)+

lemma held_programs [held_intros]:
  "keeps (held i n t) (setting_or_env env k var v)" "keeps (held i n t) getRememberedTTL"
  "keeps (held i n t) (GenerateToken J cfg env now jti j m r b)" "keeps (held i n t) (InvalidateDeviceSessions now j dev)"
  "keeps (held i n t) (IsPasswordExpired now j)" "keeps (held i n t) (CheckUserLockout now j)"
  "keeps (held i n t) (UpdateLastLogin now m)" "keeps (held i n t) (GetUserByUsername m)"
  unfolding setting_or_env_def getRememberedTTL_def GenerateToken_def getJWTExpiryMin_def InvalidateDeviceSessions_def
    IsPasswordExpired_def GetPasswordExpiryDays_def CheckUserLockout_def UpdateLastLogin_def GetUserByUsername_def Let_def
  by (intro keeps_intros held_intros keeps_stmt; auto simp: upd_refresh_def)+

lemma held_others [held_intros]:
  assumes "j \<noteq> i"
  shows "keeps (held i n t) (IncrementFailedLogins env now j)" "keeps (held i n t) (ResetFailedLogins j)"
  unfolding IncrementFailedLogins_def maxFailedAttempts_def failedLockoutDuration_def ResetFailedLogins_def Let_def
  by (intro keeps_intros held_intros; use assms in auto)+

lemma held_session [held_intros]: "keeps (held i n t) (open_session E now c x user remember)"
  unfolding open_session_def Let_def by (intro keeps_intros held_intros)

text \<open>A login in another name never touches the lock.\<close>

lemma held_other_login:
  assumes "held i n t d" "lg_Username req \<noteq> n" "login_bound req"
  shows "held i n t (fst (snd (Login E now c x (Some req) (d, []))))"
proof (cases "find_user (\<lambda>u. us_Username u = lg_Username req) d")
  case (Inl err)
  then have "local_login E now c req (d, []) = (Inr None, d, [])" by (simp add: local_login_def GetUserByUsername_def attempt_def)
  from refused_login [OF this, of x] assms show ?thesis by (auto simp: held_def ldap_off_def users_ok_def)
next
  case (Inr e)
  then have e: "e \<in> set (db_users d)" "us_Username e = lg_Username req"
    by (auto simp: find_user_def dest!: find_SomeD split: option.splits)
  with assms(1,2) have j: "us_ID e \<noteq> i" by (auto simp: held_def users_ok_def distinct_map inj_on_def)
  let ?e = "scan_user e"
  have e': "us_ID ?e = us_ID e" "us_Username ?e = us_Username e" by (simp_all add: scan_user_def)
  let ?rest = "if ae_bcrypt_ok E (us_PasswordHash ?e) (lg_Password req) then
            attempt (CheckUserLockout now (us_ID ?e)) (\<lambda>l.
              if l = Inr True then
                bind (auth_audit (us_ID ?e) (lg_Username req) ''login_failed_lockout'' (ct_ip c) ''account locked due to too many failed attempts'') (\<lambda>_. ret None)
              else if \<not> us_IsActive ?e then
                bind (auth_audit (us_ID ?e) (lg_Username req) ''login_failed_inactive'' (ct_ip c) ''account deactivated by admin'') (\<lambda>_. ret None)
              else ret (Some ?e))
          else
            bind (IncrementFailedLogins (ae_env E) now (us_ID ?e)) (\<lambda>((newFailed, locked), err).
              if locked then
                bind (auth_audit (us_ID ?e) (lg_Username req) ''user_locked'' (ct_ip c)
                    (''account locked after '' @ itoa newFailed @ '' failed attempts'')) (\<lambda>_. ret None)
              else ret None)"
  have local: "local_login E now c req (d, []) = ?rest (d, [])"
    using Inr by (simp add: local_login_def GetUserByUsername_def attempt_def [of "query _"])
  have "keeps (held i n t) ?rest" by (use j e' in \<open>auto intro!: keeps_intros held_intros\<close>)
  moreover have "yields (\<lambda>u. u = None \<or> u = Some ?e) ?rest" by (auto intro!: yields_intros)
  moreover obtain r d1 fs1 where r: "?rest (d, []) = (r, d1, fs1)" by (metis prod.exhaust)
  ultimately have d1: "held i n t d1" and u: "r = Inr u \<Longrightarrow> u = None \<or> u = Some ?e" for u
    using keepsD [of "held i n t" ?rest "(d, [])"] yieldsD [of _ ?rest "(d, [])"] assms(1) by (auto simp: r)
  have tail: "keeps (held i n t) (attempt (ResetFailedLogins (us_ID ?e)) (\<lambda>_.
                 attempt (UpdateLastLogin now (us_Username ?e)) (\<lambda>_.
                 attempt (if us_AuthType ?e = ''local'' then IsPasswordExpired now (us_ID ?e) else ret False) (\<lambda>expired.
                   if expired = Inr True then
                     bind (auth_audit (us_ID ?e) (us_Username ?e) ''login_password_expired'' (ct_ip c) ''password expired, user must change'') (\<lambda>_.
                       ret (Answer 200 (PasswordExpired (us_ID ?e) (us_Username ?e))))
                   else open_session E now c x ?e (lg_Remember req)))))" (is "keeps _ ?tail")
    by (use j e' in \<open>auto intro!: keeps_intros held_intros\<close>)
  show ?thesis
  proof (cases r)
    case (Inl err)
    with d1 r local assms(3) show ?thesis by (simp add: Login_def bind_def)
  next
    case (Inr u)
    with u consider "u = None" | "u = Some ?e" by blast
    then show ?thesis
    proof cases
      case 1
      have "held i n t (fst (snd (bind (ldap_login E now c req) (\<lambda>u1. case u1 of
               None \<Rightarrow> bind (auth_audit 0 (lg_Username req) ''login_failed'' (ct_ip c) ''invalid credentials'') (\<lambda>_. ret (Failure 401 ''auth.invalidCredentials''))
             | Some user \<Rightarrow> m user) (d1, fs1))))" for m :: "User \<Rightarrow> (authdb, login_answer resp) sql"
      proof -
        have off: "ldap_off d1" using d1 by (simp add: held_def)
        obtain fs2 where "ldap_login E now c req (d1, fs1) = (Inr None, d1, fs2)" using ldap_login_off [OF off] by blast
        then show ?thesis using keepsD [OF held_leaves(2)] d1 by (auto simp: bind_def auth_audit_def attempt_def stmt_def)
      qed
      then show ?thesis using Inr 1 r local assms(3) by (simp add: Login_def bind_def [of "local_login _ _ _ _"])
    next
      case 2
      with Inr r local assms(3) have "Login E now c x (Some req) (d, []) = ?tail (d1, fs1)"
        by (simp add: Login_def bind_def)
      with keepsD [OF tail, of "(d1, fs1)"] d1 show ?thesis by simp
    qed
  qed
qed

lemma held_login:
  assumes "held i n t d" "now < t"
  shows "held i n t (fst (snd (Login E now c x (Some req) (d, []))))"
    and "lg_Username req = n \<Longrightarrow> login_bound req \<Longrightarrow>
      fst (Login E now c x (Some req) (d, [])) = Inr (Failure 401 ''auth.invalidCredentials'')"
proof -
  obtain v where v: "v \<in> set (db_users d)" "us_Username v = n" "locked_at now v"
    using assms by (auto simp: held_def locked_at_def)
  have own: "\<exists>a. Login E now c x (Some req) (d, []) = (Inr (Failure 401 ''auth.invalidCredentials''), d\<lparr>db_audit := a\<rparr>, [])"
    if "lg_Username req = n" "login_bound req"
    using locked_login [of d v now req E c x] assms(1) v that by (simp add: held_def)
  then show "held i n t (fst (snd (Login E now c x (Some req) (d, []))))"
    using held_other_login [OF assms(1)] assms(1)
    by (cases "login_bound req"; cases "lg_Username req = n") (auto simp: Login_def)
  show "lg_Username req = n \<Longrightarrow> login_bound req \<Longrightarrow>
      fst (Login E now c x (Some req) (d, [])) = Inr (Failure 401 ''auth.invalidCredentials'')"
    using own by auto
qed

lemma held_logins:
  "held i n t d \<Longrightarrow> \<forall>b \<in> set bs. fst b < t \<Longrightarrow> held i n t (logins E bs d)"
  by (induction E bs d rule: logins.induct) (auto simp: held_login(1))

lemma logins_append: "logins E (as @ bs) d = logins E bs (logins E as d)"
  by (induction E as d rule: logins.induct) simp_all

text \<open>
  Lockout (C26): with LDAP switched off and no statement failing, when the failures of a user reach the configured maximum in a
  series of wrong logins (from whatever clients), every login in that name before the configured time has passed since the last
  of them is refused, with the right password too, and whatever other logins come in between: further wrong or right ones in
  that name, and those of other users, successful or not.
\<close>
theorem failures_lock_account:
  assumes "users_ok d" "u \<in> set (db_users d)" "us_LockedUntil u = None" "ldap_off d"
    and "as \<noteq> []" "\<forall>(now, c, x, req) \<in> set as. wrong_password E u req"
    and "us_FailedLoginAttempts u + int (length as) = max_failed (ae_env E) d"
    and "\<forall>b \<in> set between. fst b < fst (last as) + lockout_time (ae_env E) d"
    and "lg_Username req = us_Username u" "login_bound req" "now < fst (last as) + lockout_time (ae_env E) d"
  shows "fst (Login E now c x (Some req) (logins E (as @ between) d, [])) = Inr (Failure 401 ''auth.invalidCredentials'')"
proof -
  obtain v where "users_ok (logins E as d)" "ldap_off (logins E as d)" "v \<in> set (db_users (logins E as d))" "us_Username v = us_Username u"
      "us_LockedUntil v = Some (fst (last as) + lockout_time (ae_env E) d)"
    using wrong_logins [OF assms(1-4,6)] assms(5,7) by (auto simp: lock_after_def)
  then have "held (us_ID v) (us_Username u) (fst (last as) + lockout_time (ae_env E) d) (logins E as d)"
    by (auto simp: held_def)
  from held_logins [OF this assms(8)] show ?thesis
    using assms(9-11) by (intro held_login(2)) (auto simp: logins_append)
qed

lemma parse_one: "parse_int64 ''1'' = Some 1"
  by code_simp

text \<open>In the witness one wrong guess locks the account for a minute; a wrong and a right login follow before the last one.\<close>

theorem failures_lock_account_witness:
  "fst (Login demo_env 59 demo_client demo_fresh (Some \<lparr>lg_Username = ''ann'', lg_Password = ''secret'', lg_Remember = False\<rparr>)
     (logins demo_env ([(0, demo_client, demo_fresh, \<lparr>lg_Username = ''ann'', lg_Password = ''guess'', lg_Remember = False\<rparr>)] @
        [(10, demo_client, demo_fresh, \<lparr>lg_Username = ''ann'', lg_Password = ''other'', lg_Remember = False\<rparr>),
         (20, demo_client, demo_fresh, \<lparr>lg_Username = ''ann'', lg_Password = ''secret'', lg_Remember = False\<rparr>)]) demo_db, [])) =
   Inr (Failure 401 ''auth.invalidCredentials'')"
  by (rule failures_lock_account [where u = demo_user])
    (simp_all add: users_ok_def ldap_off_def wrong_password_def login_bound_def max_failed_def lockout_time_def int_setting_def
      demo_db_def demo_user_def demo_env_def parse_one int64_def Minute_def whole_minutes_def)

end
