(* ===== verification/AuthSessions.thy ===== *)
theory AuthSessions
  imports AuthTheorems
begin

text \<open>
  Sessions over time: how often a refresh token works, what a logout leaves behind, which access tokens survive a rotation of
  the keys, and what a change of password does to the histories of the others.
\<close>

section \<open>Refresh tokens\<close>

definition spent :: "string \<Rightarrow> time \<Rightarrow> authdb \<Rightarrow> bool" where
  "spent h t d \<longleftrightarrow> (\<forall>r \<in> set (db_refresh d). rt_TokenHash r = h \<longrightarrow> rt_Used r \<and> (case rt_UsedAt r of None \<Rightarrow> False | Some u \<Rightarrow> u \<le> t))"

text \<open>Statements on other tables, and statements that touch unused rows only, keep a token spent.\<close>

lemma spent_cong: "db_refresh d' = db_refresh d \<Longrightarrow> spent h t d' \<longleftrightarrow> spent h t d"
  by (simp add: spent_def)

lemma spent_upd:
  assumes "spent h t d" "\<And>r. P r \<Longrightarrow> rt_TokenHash r = h \<Longrightarrow> \<not> rt_Used r" "\<And>r. rt_TokenHash (f r) = rt_TokenHash r"
  shows "spent h t (upd_refresh P f d)"
proof -
  have "rt_Used r' \<and> (case rt_UsedAt r' of None \<Rightarrow> False | Some u \<Rightarrow> u \<le> t)" if "r' \<in> set (db_refresh (upd_refresh P f d))" "rt_TokenHash r' = h" for r'
  proof -
    obtain r where r: "r \<in> set (db_refresh d)" "r' = (if P r then f r else r)" using \<open>r' \<in> _\<close> by (auto simp: upd_refresh_def)
    with that(2) assms(3) have h: "rt_TokenHash r = h" by (simp split: if_splits)
    with assms(1) r(1) have "rt_Used r \<and> (case rt_UsedAt r of None \<Rightarrow> False | Some u \<Rightarrow> u \<le> t)" by (auto simp: spent_def)
    with assms(2) [of r] h r(2) show ?thesis by auto
  qed
  then show ?thesis by (simp add: spent_def)
qed

lemma mark_used_hash [simp]: "rt_TokenHash (mark_used now r) = rt_TokenHash r"
  by (simp add: mark_used_def)

lemma upd_refresh_hashes:
  assumes "\<And>r. rt_TokenHash (f r) = rt_TokenHash r"
  shows "map rt_TokenHash (db_refresh (upd_refresh P f d)) = map rt_TokenHash (db_refresh d)"
  using assms by (simp add: upd_refresh_def)

named_theorems spent_intros \<open>what keeps a token spent\<close>

lemma spent_setting [spent_intros]: "keeps (spent h t) (auth_setting k v)"
  unfolding auth_setting_def by (intro keeps_intros)

lemma spent_upd_user [spent_intros]: "keeps (spent h t) (upd_user P f)"
  unfolding upd_user_def by (rule keeps_stmt) (auto simp: spent_def)

lemma spent_audit [spent_intros]: "keeps (spent h t) (auth_audit i n act ip det)"
  unfolding auth_audit_def by (intro keeps_intros keeps_stmt) (auto simp: spent_def)

lemma spent_blacklist [spent_intros]: "keeps (spent h t) (BlacklistJTI now jti)"
  unfolding BlacklistJTI_def by (rule keeps_stmt) (auto simp: spent_def split: if_splits)

lemma spent_create [spent_intros]: "keeps (spent h t) (CreateLDAPUser now n e r a)"
  unfolding CreateLDAPUser_def by (rule keeps_stmt) (auto simp: spent_def Let_def split: if_splits)

lemma spent_insert [spent_intros]: "digest (rp_token p) \<noteq> h \<Longrightarrow> keeps (spent h t) (insertRefreshToken digest now p)"
  unfolding insertRefreshToken_def by (rule keeps_stmt) (auto simp: spent_def split: if_splits)

lemma spent_device [spent_intros]: "keeps (spent h t) (InvalidateDeviceSessions now i dev)"
  unfolding InvalidateDeviceSessions_def
  by (intro keeps_intros spent_intros keeps_stmt) (auto simp: Let_def intro!: spent_upd)

lemma spent_revoke [spent_intros]: "keeps (spent h t) (RevokeSession now i s)"
  unfolding RevokeSession_def
  by (intro keeps_intros spent_intros keeps_stmt) (auto simp: Let_def intro!: spent_upd split: option.splits)

lemma spent_token [spent_intros]: "keeps (spent h t) (GenerateToken J cfg env now jti i n r b)"
  unfolding GenerateToken_def getJWTExpiryMin_def Let_def by (intro keeps_intros spent_intros)

lemma spent_ttl [spent_intros]: "keeps (spent h t) getRememberedTTL"
  unfolding getRememberedTTL_def by (intro keeps_intros spent_intros)

lemma spent_setting_or_env [spent_intros]: "keeps (spent h t) (setting_or_env env k var v)"
  unfolding setting_or_env_def Let_def by (intro keeps_intros spent_intros)

lemma spent_increment [spent_intros]: "keeps (spent h t) (IncrementFailedLogins env now i)"
  unfolding IncrementFailedLogins_def maxFailedAttempts_def failedLockoutDuration_def Let_def by (intro keeps_intros spent_intros)

lemma spent_lookups [spent_intros]: "keeps (spent h t) (GetUserByUsername n)" "keeps (spent h t) (getUserByID i)"
    "keeps (spent h t) (CheckUserLockout now i)" "keeps (spent h t) (ResetFailedLogins i)" "keeps (spent h t) (UpdateLastLogin now n)"
    "keeps (spent h t) (IsPasswordExpired now i)"
  unfolding GetUserByUsername_def getUserByID_def CheckUserLockout_def ResetFailedLogins_def UpdateLastLogin_def
    IsPasswordExpired_def GetPasswordExpiryDays_def
  by (intro keeps_intros spent_intros)+

lemma spent_open_session [spent_intros]: "ae_digest E (fr_refresh x) \<noteq> h \<Longrightarrow> keeps (spent h t) (open_session E now c x user remember)"
  unfolding open_session_def Let_def by (intro keeps_intros spent_intros) (auto simp: session_params_def)

lemma spent_local_login [spent_intros]: "keeps (spent h t) (local_login E now c req)"
  unfolding local_login_def case_prod_unfold by (intro keeps_intros spent_intros)

lemma spent_read_settings [spent_intros]: "keeps (spent h t) (read_settings ks)"
proof (induction ks rule: read_settings.induct)
  case (2 k v ks)
  then show ?case unfolding read_settings.simps by (intro keeps_intros spent_intros)
qed (unfold read_settings.simps, rule keeps_ret)

lemma spent_ldap_login [spent_intros]: "keeps (spent h t) (ldap_login E now c req)"
proof -
  have "keeps (spent h t) ldap_LoadConfig" unfolding ldap_LoadConfig_def by (intro keeps_intros spent_intros)
  then show ?thesis unfolding ldap_login_def Let_def
    by (intro keeps_intros) (auto split: ldap_outcome.split intro!: keeps_intros spent_intros)
qed

lemma spent_Login: "ae_digest E (fr_refresh x) \<noteq> h \<Longrightarrow> keeps (spent h t) (Login E now c x body)"
  unfolding Login_def by (intro keeps_intros spent_intros)

text \<open>A spent token cannot be claimed; past the grace window it is not recovered either.\<close>

lemma claim_spent:
  assumes "spent h t d" "claim_token now h (d, fs) = (r, s')"
  shows "\<exists>err. r = Inl err" "fst s' = d"
proof -
  have "find (claimable now h) (db_refresh d) = None" using assms(1) by (auto simp: find_None_iff claimable_def spent_def)
  then show "\<exists>err. r = Inl err" "fst s' = d" using assms(2) by (auto simp: claim_token_def stmt_def split: if_splits)
qed

lemma keeps_claim: "keeps (spent h t) (claim_token now rh)"
  unfolding claim_token_def by (rule keeps_stmt) (auto split: option.splits intro!: spent_upd simp: claimable_def)

lemma spent_finish:
  assumes "ae_digest E (fr_refresh x) \<noteq> h" "rh = h \<Longrightarrow> replacement \<noteq> None \<or> now \<le> t"
  shows "keeps (spent h t) (finish_refresh E now c x rh i remember dev replacement)"
proof -
  have "keeps (spent h t) (link_rotated now new rh)" if "rh \<noteq> h" for new
    using that unfolding link_rotated_def by (intro keeps_stmt) (auto intro!: spent_upd)
  moreover have "keeps (spent h t) (link_rotated now new rh)" if "now \<le> t" for new
    using that unfolding link_rotated_def by (intro keeps_stmt) (auto simp: spent_def upd_refresh_def mark_used_def split: if_splits)
  ultimately show ?thesis using assms unfolding finish_refresh_def Let_def
    by (cases replacement) (auto simp: session_params_def intro!: keeps_intros spent_intros)
qed

lemma spent_recover: "ae_digest E (fr_refresh x) \<noteq> h \<Longrightarrow> keeps (spent h t) (recoverRacedRefresh E now x tok)"
  unfolding recoverRacedRefresh_def Let_def by (intro keeps_intros spent_intros) auto

definition presented :: "client \<Rightarrow> string option \<Rightarrow> string option" where
  "presented c body = (if ct_refresh_cookie c \<noteq> [] then Some (ct_refresh_cookie c) else body)"

lemma spent_silent [spent_intros]: "keeps I (silent_allowed E now tok)"
  unfolding silent_allowed_def by (intro keeps_intros)

lemma spent_claim_rest:
  fixes k :: "int \<times> string \<times> bool \<Rightarrow> (authdb, 'a) sql"
  assumes "\<And>y. rh \<noteq> h \<Longrightarrow> keeps (spent h t) (k y)" "\<And>err. keeps (spent h t) (l err)"
  shows "keeps (spent h t) (attempt (claim_token now rh) (\<lambda>claim. case claim of Inr y \<Rightarrow> k y | Inl err \<Rightarrow> l err))"
proof (cases "rh = h")
  case False
  then show ?thesis using assms by (intro keeps_intros keeps_claim) auto
next
  case True
  show ?thesis
  proof (rule keepsI)
    fix s :: "authdb \<times> bool list"
    assume I: "spent h t (fst s)"
    obtain d fs where s: "s = (d, fs)" by (cases s)
    obtain r s' where run: "claim_token now h (d, fs) = (r, s')" by (cases "claim_token now h (d, fs)") auto
    from I have I: "spent h t d" by (simp add: s)
    obtain err where "r = Inl err" "fst s' = d" using claim_spent [OF I run] by blast
    with run have "attempt (claim_token now rh) (\<lambda>claim. case claim of Inr y \<Rightarrow> k y | Inl err \<Rightarrow> l err) s = l err s'" by (simp add: attempt_def s True)
    moreover have "spent h t (fst (snd (l err s')))" using I \<open>fst s' = d\<close> by (intro keepsD [OF assms(2)]) simp
    ultimately show "spent h t (fst (snd (attempt (claim_token now rh) (\<lambda>claim. case claim of Inr y \<Rightarrow> k y | Inl err \<Rightarrow> l err) s)))" by simp
  qed
qed

lemma spent_Refresh: "ae_digest E (fr_refresh x) \<noteq> h \<Longrightarrow> keeps (spent h t) (Refresh E now c x body)"
  unfolding Refresh_def redeem_def Let_def case_prod_unfold
proof (rule keeps_option, rule keeps_ret, rule keeps_bind)
  show "keeps (spent h t) (if ct_silent c then silent_allowed E now y else ret True)" for y by (intro keeps_if spent_silent keeps_ret)
qed (assumption | rule keeps_if keeps_ret spent_claim_rest spent_finish keeps_bind spent_recover keeps_option spent_audit | simp)+

text \<open>The operations of a session, with the values they draw at random.\<close>

datatype auth_op =
    OpLogin time client fresh "LoginRequest option"
  | OpRefresh time client fresh "string option"
  | OpLogout time string client "string option"
  | OpCheck time string
  | OpRevoke time "int option" string
  | OpChange time client string string "(string \<times> string) option"

fun run_op :: "('k, 'p) auth_env \<Rightarrow> auth_op \<Rightarrow> authdb \<times> bool list \<Rightarrow> authdb" where
  "run_op E (OpLogin now c x body) s = fst (snd (Login E now c x body s))"
| "run_op E (OpRefresh now c x body) s = fst (snd (Refresh E now c x body s))"
| "run_op E (OpLogout now jti c body) s = fst (snd (Logout E now jti c body s))"
| "run_op E (OpCheck now jti) s = fst (snd (CheckSession now jti s))"
| "run_op E (OpRevoke now uid param) s = fst (snd (RevokeSession_handler now uid param s))"
| "run_op E (OpChange now c salt name body) s = fst (snd (ChangePassword E now c salt name body s))"

fun drawn :: "auth_op \<Rightarrow> string option" where
  "drawn (OpLogin now c x body) = Some (fr_refresh x)"
| "drawn (OpRefresh now c x body) = Some (fr_refresh x)"
| "drawn _ = None"

fun run_ops :: "('k, 'p) auth_env \<Rightarrow> (auth_op \<times> bool list) list \<Rightarrow> authdb \<Rightarrow> authdb" where
  "run_ops E [] d = d"
| "run_ops E ((op, fs) # ops) d = run_ops E ops (run_op E op (d, fs))"

lemma spent_Logout: "keeps (spent h t) (Logout E now jti c body)"
  unfolding Logout_def Let_def by (intro keeps_intros spent_intros keeps_stmt) (auto intro!: spent_upd)

lemma spent_Check: "keeps (spent h t) (CheckSession now jti)"
  unfolding CheckSession_def by (intro keeps_intros keeps_stmt) (auto intro!: spent_upd)

lemma spent_Revoke: "keeps (spent h t) (RevokeSession_handler now uid param)"
  unfolding RevokeSession_handler_def by (intro keeps_intros spent_intros)

lemma spent_history [spent_intros]: "keeps (spent h t) (CheckPasswordHistory i p)" "keeps (spent h t) (AddPasswordHistory now i p)"
    "keeps (spent h t) (TrimPasswordHistory i)" "keeps (spent h t) (ResetUserPassword now i p)" "keeps (spent h t) LoadPasswordPolicy"
  unfolding CheckPasswordHistory_def AddPasswordHistory_def TrimPasswordHistory_def ResetUserPassword_def LoadPasswordPolicy_def historyCount_def
  by (intro keeps_intros spent_intros keeps_stmt; auto simp: spent_def split: if_splits)+

lemma spent_Change: "keeps (spent h t) (ChangePassword E now c salt name body)"
  unfolding ChangePassword_def case_prod_unfold by (intro keeps_intros spent_intros)

lemma spent_run_op:
  assumes "spent h t d" "\<And>tok. drawn op = Some tok \<Longrightarrow> ae_digest E tok \<noteq> h"
  shows "spent h t (run_op E op (d, fs))"
  using assms
  by (cases op) (simp_all add: keepsD [OF spent_Login] keepsD [OF spent_Refresh] keepsD [OF spent_Logout] keepsD [OF spent_Check]
      keepsD [OF spent_Revoke] keepsD [OF spent_Change])

lemma spent_run_ops:
  assumes "spent h t d" "\<forall>(op, fs) \<in> set ops. \<forall>tok. drawn op = Some tok \<longrightarrow> ae_digest E tok \<noteq> h"
  shows "spent h t (run_ops E ops d)"
  using assms by (induction E ops d rule: run_ops.induct) (auto intro: spent_run_op)

lemma silent_run: "\<exists>b. silent_allowed E now tok (d, fs) = (Inr b, d, tl fs)"
  unfolding silent_allowed_def attempt_def
  by (rule query_cases [of "\<lambda>d. case find (claimable now (ae_digest E tok)) (db_refresh d) of None \<Rightarrow> Inl NoRows | Some r \<Rightarrow> Inr (rt_Remember r)" d fs]) simp

lemma recover_spent:
  assumes "spent h t d" "ae_digest E tok = h" "now - t > refreshReuseGraceWindow"
  shows "recoverRacedRefresh E now x tok (d, fs) = (Inr None, d, tl fs)"
proof -
  let ?q = "\<lambda>d. case find (\<lambda>r. rt_TokenHash r = ae_digest E tok \<and> rt_Used r) (db_refresh d) of None \<Rightarrow> Inl NoRows | Some r \<Rightarrow> Inr r"
  obtain res where res: "query ?q (d, fs) = (res, d, tl fs)" "\<And>r. res = Inr r \<Longrightarrow> ?q d = Inr r" by (rule query_cases [of ?q d fs]) blast
  show ?thesis
  proof (cases res)
    case (Inl err)
    with res show ?thesis by (simp add: recoverRacedRefresh_def attempt_def)
  next
    case (Inr r)
    from res(2) [OF this] have "r \<in> set (db_refresh d) \<and> rt_TokenHash r = h" using assms(2) by (auto split: option.splits dest: find_SomeD)
    then have "case rt_UsedAt r of None \<Rightarrow> False | Some u \<Rightarrow> u \<le> t" using assms(1) by (auto simp: spent_def)
    then have "case rt_UsedAt r of None \<Rightarrow> False | Some u \<Rightarrow> now - u > refreshReuseGraceWindow" using assms(3) by (auto split: option.splits)
    with res Inr show ?thesis by (auto simp: recoverRacedRefresh_def attempt_def split: option.split)
  qed
qed

text \<open>How a refresh runs: the check of a silent one, the claim, and what follows.\<close>

lemma Refresh_run:
  assumes "presented c body = Some tok"
  obtains "fst (Refresh E now c x body (d, fs)) = Inr (Failure 401 ''auth.silentRefreshNotAllowed'')"
  | fs' where "Refresh E now c x body (d, fs) = redeem E now c x tok (d, fs')"
proof -
  obtain b fs' where b: "(if ct_silent c then silent_allowed E now tok else ret True) (d, fs) = (Inr b, d, fs')"
    using silent_run [of E now tok d fs] by (cases "ct_silent c") auto
  from assms have tok: "(if ct_refresh_cookie c \<noteq> [] then Some (ct_refresh_cookie c) else body) = Some tok" by (simp add: presented_def)
  have "Refresh E now c x body (d, fs) = (if \<not> b then ret (Failure 401 ''auth.silentRefreshNotAllowed'') else redeem E now c x tok) (d, fs')"
    unfolding Refresh_def tok option.case by (simp only: bind_Inr [where m = "if ct_silent c then silent_allowed E now tok else ret True" and s = "(d, fs)", OF b])
  with that show thesis by (cases b) auto
qed

lemma refresh_refused:
  assumes "spent h t d" "presented c body = Some tok" "ae_digest E tok = h" "now - t > refreshReuseGraceWindow"
  shows "\<exists>key. fst (Refresh E now c x body (d, fs)) = Inr (Failure 401 key)"
proof (rule Refresh_run [OF assms(2), of E now x d fs])
  fix fs'
  obtain r s' where run: "claim_token now (ae_digest E tok) (d, fs') = (r, s')" by (cases "claim_token now (ae_digest E tok) (d, fs')") auto
  obtain err where r: "r = Inl err" "fst s' = d" using claim_spent [of h t d now fs'] assms(1,3) run by blast
  obtain fs1 where s': "s' = (d, fs1)" using r(2) by (cases s') auto
  obtain a where "auth_audit 0 [] ''refresh_failed'' (ct_ip c) ''invalid, expired, or reused refresh token'' (d, tl fs1) = (Inr (), d\<lparr>db_audit := a\<rparr>, tl (tl fs1))"
    using auth_audit_run by blast
  moreover assume "Refresh E now c x body (d, fs) = redeem E now c x tok (d, fs')"
  ultimately show ?thesis using run r s' recover_spent [OF assms(1,3,4), of x fs1] by (simp add: redeem_def attempt_def bind_def Let_def)
qed auto

text \<open>A refresh that succeeds leaves its token spent.\<close>

definition used_by :: "time \<Rightarrow> authdb \<Rightarrow> bool" where
  "used_by t d \<longleftrightarrow> (\<forall>r \<in> set (db_refresh d). rt_Used r \<longrightarrow> (case rt_UsedAt r of None \<Rightarrow> False | Some u \<Rightarrow> u \<le> t))"

lemma spent_if_used:
  assumes "distinct (map rt_TokenHash (db_refresh d))" "used_by t d" "r \<in> set (db_refresh d)" "rt_Used r" "rt_TokenHash r = h"
  shows "spent h t d"
  unfolding spent_def
proof (intro ballI impI)
  fix q
  assume "q \<in> set (db_refresh d)" "rt_TokenHash q = h"
  with assms(1,3,5) have "q = r" by (auto simp: distinct_map dest: inj_onD)
  with assms show "rt_Used q \<and> (case rt_UsedAt q of None \<Rightarrow> False | Some u \<Rightarrow> u \<le> t)" by (auto simp: used_by_def)
qed

lemma claim_spends:
  assumes "distinct (map rt_TokenHash (db_refresh d))" "used_by t d" "claim_token t h (d, fs) = (Inr y, s')"
  shows "spent h t (fst s')"
proof -
  obtain r where r: "r \<in> set (db_refresh d)" "claimable t h r" and s': "fst s' = upd_refresh (claimable t h) (mark_used t) d"
    using assms(3) by (auto simp: claim_token_def stmt_def split: if_splits option.splits dest!: find_SomeD)
  let ?d = "upd_refresh (claimable t h) (mark_used t) d"
  have "distinct (map rt_TokenHash (db_refresh ?d))" using assms(1) by (simp only: upd_refresh_hashes [OF mark_used_hash])
  moreover have "used_by t ?d" using assms(2) by (auto simp: used_by_def upd_refresh_def mark_used_def)
  moreover have "mark_used t r \<in> set (db_refresh ?d)" using r by (auto simp: upd_refresh_def image_iff intro!: bexI [of _ r])
  ultimately have "spent h t ?d" by (rule spent_if_used) (use r in \<open>auto simp: mark_used_def claimable_def\<close>)
  with s' show ?thesis by simp
qed

lemma recover_found:
  assumes "recoverRacedRefresh E now x tok (d, fs) = (Inr (Some y), s')"
  shows "\<exists>r \<in> set (db_refresh d). rt_Used r \<and> rt_TokenHash r = ae_digest E tok"
proof -
  let ?q = "\<lambda>d. case find (\<lambda>r. rt_TokenHash r = ae_digest E tok \<and> rt_Used r) (db_refresh d) of None \<Rightarrow> Inl NoRows | Some r \<Rightarrow> Inr r"
  obtain res where res: "query ?q (d, fs) = (res, d, tl fs)" "\<And>r. res = Inr r \<Longrightarrow> ?q d = Inr r" by (rule query_cases [of ?q d fs]) blast
  then obtain r where "res = Inr r" using assms by (cases res) (auto simp: recoverRacedRefresh_def attempt_def)
  from res(2) [OF this] show ?thesis by (auto split: option.splits dest: find_SomeD)
qed

lemma refresh_spends:
  assumes "distinct (map rt_TokenHash (db_refresh d))" "used_by t d" "presented c body = Some tok" "ae_digest E (fr_refresh x) \<noteq> ae_digest E tok"
    and "Refresh E t c x body (d, fs) = (Inr (Answer code g), s')"
  shows "spent (ae_digest E tok) t (fst s')"
proof (rule Refresh_run [OF assms(3), of E t x d fs])
  fix fs'
  assume "Refresh E t c x body (d, fs) = redeem E t c x tok (d, fs')"
  with assms(5) have red: "redeem E t c x tok (d, fs') = (Inr (Answer code g), s')" by simp
  let ?h = "ae_digest E tok"
  obtain r s1 where run: "claim_token t ?h (d, fs') = (r, s1)" by (cases "claim_token t ?h (d, fs')") auto
  have finish: "spent ?h t (fst (snd (finish_refresh E t c x ?h i rem dev rep s)))" if "spent ?h t (fst s)" for i rem dev rep s
    by (rule keepsD [OF spent_finish]) (use that assms(4) in auto)
  show ?thesis
  proof (cases r)
    case (Inr y)
    obtain i dev rem where y: "y = (i, dev, rem)" by (cases y) auto
    have "spent ?h t (fst s1)" using claim_spends [OF assms(1,2)] run Inr by blast
    moreover have "finish_refresh E t c x ?h i rem (if dev \<noteq> [] then dev else deviceID c x) None s1 = (Inr (Answer code g), s')"
      using red run Inr y by (simp add: redeem_def attempt_def Let_def)
    ultimately show ?thesis using finish by (metis snd_conv)
  next
    case (Inl err)
    have d1: "fst s1 = d" using run Inl by (auto simp: claim_token_def stmt_def split: if_splits option.splits)
    obtain q s2 where q: "recoverRacedRefresh E t x tok s1 = (q, s2)" by (cases "recoverRacedRefresh E t x tok s1") auto
    obtain y where y: "q = Inr (Some y)"
    proof (cases q)
      case (Inl e)
      then show ?thesis using red run q \<open>r = Inl err\<close> by (simp add: redeem_def attempt_def bind_def Let_def)
    next
      case (Inr o')
      obtain a where "auth_audit 0 [] ''refresh_failed'' (ct_ip c) ''invalid, expired, or reused refresh token'' (fst s2, snd s2) = (Inr (), a)"
        using auth_audit_run by blast
      then show ?thesis using red run q \<open>r = Inl err\<close> Inr that by (cases o') (simp_all add: redeem_def attempt_def bind_def Let_def)
    qed
    obtain i tk ex rem dev where y': "y = (i, tk, ex, rem, dev)" by (cases y) auto
    have s1: "s1 = (d, snd s1)" using d1 by (cases s1) auto
    from q y have "recoverRacedRefresh E t x tok (d, snd s1) = (Inr (Some y), s2)" using s1 by simp
    then obtain row where "row \<in> set (db_refresh d)" "rt_Used row" "rt_TokenHash row = ?h" using recover_found by blast
    then have "spent ?h t d" by (rule spent_if_used [OF assms(1,2)])
    then have "spent ?h t (fst s2)" using keepsD [OF spent_recover [of E x ?h t t tok], of s1] assms(4) d1 q by simp
    moreover have "finish_refresh E t c x ?h i rem (if dev \<noteq> [] then dev else deviceID c x) (Some (tk, ex)) s2 = (Inr (Answer code g), s')"
      using red run q y y' Inl by (simp add: redeem_def attempt_def bind_def Let_def)
    ultimately show ?thesis using finish by (metis snd_conv)
  qed
qed (use assms(5) in auto)

text \<open>
  Rotation (C27): once a refresh token has been exchanged, whatever logins, refreshes, logouts and changes follow, and
  whatever statements fail, presenting it more than thirty seconds later is refused.
\<close>
theorem refresh_token_works_once:
  assumes "distinct (map rt_TokenHash (db_refresh d))" "used_by t d" "presented c body = Some tok" "ae_digest E (fr_refresh x) \<noteq> ae_digest E tok"
    and "Refresh E t c x body (d, fs) = (Inr (Answer code g), s')"
    and "\<forall>(op, fs) \<in> set ops. \<forall>new. drawn op = Some new \<longrightarrow> ae_digest E new \<noteq> ae_digest E tok"
    and "presented c' body' = Some tok" "now > t + refreshReuseGraceWindow"
  shows "\<exists>key. fst (Refresh E now c' x' body' (run_ops E ops (fst s'), fs')) = Inr (Failure 401 key)"
proof (rule refresh_refused)
  show "spent (ae_digest E tok) t (run_ops E ops (fst s'))"
    by (rule spent_run_ops [OF refresh_spends [OF assms(1-5)] assms(6)])
qed (use assms(7,8) in auto)

definition demo_row :: refresh_row where
  "demo_row = \<lparr>rt_ID = 1, rt_UserID = 1, rt_TokenHash = ''digest of old'', rt_ExpiresAt = 1000, rt_Used = False, rt_UsedAt = None, rt_ReplacedBy = None,
     rt_DeviceID = [], rt_UserAgent = [], rt_IP = [], rt_Remember = False, rt_JTI = [], rt_CreatedAt = 0, rt_LastUsedAt = 0, rt_ScreenResolution = [], rt_Timezone = []\<rparr>"

lemma demo_refresh:
  "\<exists>code g s'. Refresh demo_env 0 demo_client demo_fresh (Some ''old'') (demo_db\<lparr>db_refresh := [demo_row]\<rparr>, []) = (Inr (Answer code g), s')"
  by (simp add: Refresh_def redeem_def claim_token_def claimable_def finish_refresh_def link_rotated_def getUserByID_def find_user_def demo_db_def demo_user_def
      demo_env_def demo_jwt_def demo_row_def demo_client_def demo_fresh_def scan_user_def attempt_def bind_def GenerateToken_def getJWTExpiryMin_def
      getRememberedTTL_def sign_claims_def insertRefreshToken_def session_params_def deviceID_def auth_audit_def sanitizeScreenResolution_def
      sanitizeTimezone_def Let_def upd_refresh_def mark_used_def split: option.split sum.split)

theorem refresh_token_works_once_witness:
  "\<exists>s' key. fst (Refresh demo_env (31 * Second) demo_client demo_fresh (Some ''old'') (s', [])) = Inr (Failure 401 key)"
proof -
  obtain code g s' where run: "Refresh demo_env 0 demo_client demo_fresh (Some ''old'') (demo_db\<lparr>db_refresh := [demo_row]\<rparr>, []) = (Inr (Answer code g), s')"
    using demo_refresh by blast
  have "\<exists>key. fst (Refresh demo_env (31 * Second) demo_client demo_fresh (Some ''old'') (run_ops demo_env [] (fst s'), [])) = Inr (Failure 401 key)"
    by (rule refresh_token_works_once [OF _ _ _ _ run])
      (simp_all add: demo_row_def used_by_def presented_def demo_client_def demo_env_def demo_fresh_def refreshReuseGraceWindow_def Second_def)
  then show ?thesis by blast
qed

section \<open>Logout\<close>

lemma Logout_run:
  assumes "Logout E now jti c body (d, fs) = (res, d', fs')"
  shows "db_users d' = db_users d" "map rt_TokenHash (db_refresh d') = map rt_TokenHash (db_refresh d)"
    "r \<in> set (db_refresh d) \<Longrightarrow> rt_Used r \<Longrightarrow> r \<in> set (db_refresh d')"
proof -
  let ?I = "\<lambda>e. db_users e = db_users d \<and> map rt_TokenHash (db_refresh e) = map rt_TokenHash (db_refresh d) \<and>
    (\<forall>r \<in> set (db_refresh d). rt_Used r \<longrightarrow> r \<in> set (db_refresh e))"
  have "keeps ?I (BlacklistJTI now jti)" unfolding BlacklistJTI_def by (rule keeps_stmt) (auto split: if_splits)
  moreover have "keeps ?I (stmt (\<lambda>d. Inr ((), upd_refresh (\<lambda>r. rt_TokenHash r = h \<and> \<not> rt_Used r) (mark_used now) d)))" for h
  proof (rule keeps_stmt)
    fix e u e'
    assume I: "?I e" and e': "Inr ((), upd_refresh (\<lambda>r. rt_TokenHash r = h \<and> \<not> rt_Used r) (mark_used now) e) = (Inr (u, e') :: sqlerr + unit \<times> authdb)"
    then have "map rt_TokenHash (db_refresh e') = map rt_TokenHash (db_refresh d)" using upd_refresh_hashes [OF mark_used_hash] by fastforce
    then show "?I e'" using I e' by (auto simp: upd_refresh_def image_iff)
  qed
  ultimately have "keeps ?I (Logout E now jti c body)" unfolding Logout_def Let_def by (intro keeps_intros)
  then have "?I d'" using keepsD [of ?I "Logout E now jti c body" "(d, fs)"] assms by simp
  then show "db_users d' = db_users d" "map rt_TokenHash (db_refresh d') = map rt_TokenHash (db_refresh d)"
    "r \<in> set (db_refresh d) \<Longrightarrow> rt_Used r \<Longrightarrow> r \<in> set (db_refresh d')" by blast+
qed

lemma find_only:
  assumes "distinct (map rt_TokenHash rs)" "r \<in> set rs" "rt_TokenHash r = h"
  shows "find (\<lambda>q. rt_TokenHash q = h \<and> P q) rs = (if P r then Some r else None)"
  using assms by (induction rs) (auto simp: find_None_iff image_iff)

lemma recover_live:
  assumes "distinct (map rt_TokenHash (db_refresh d))" "r \<in> set (db_refresh d)" "rt_TokenHash r = ae_digest E tok" "rt_Used r"
    and "rt_ReplacedBy r = Some repl" "repl \<noteq> []" "rt_UsedAt r = Some t0" "now - t0 \<le> refreshReuseGraceWindow"
    and "u \<in> set (db_users d)" "us_ID u = rt_UserID r" "length (rt_DeviceID r) \<le> 64"
  shows "\<exists>exp rs n. recoverRacedRefresh E now x tok (d, []) =
    (Inr (Some (rt_UserID r, fr_refresh x, exp, rt_Remember r, rt_DeviceID r)), d\<lparr>db_refresh := rs, db_seq := n\<rparr>, [])"
proof -
  have find: "find (\<lambda>q. rt_TokenHash q = ae_digest E tok \<and> rt_Used q) (db_refresh d) = Some r"
    using find_only [OF assms(1-3), of rt_Used] assms(4) by simp
  obtain ttl where ttl: "getRememberedTTL (d, []) = (Inr ttl, d, [])" by (simp add: getRememberedTTL_def bind_def)
  have "list_ex (\<lambda>u. us_ID u = rt_UserID r) (db_users d)" using assms(9,10) by (auto simp: list_ex_iff)
  then show ?thesis using assms(5-8,11) ttl
    by (auto simp: recoverRacedRefresh_def attempt_def find bind_def Let_def insertRefreshToken_def)
qed

lemma finish_recovered:
  assumes "u \<in> set (db_users d)" "us_ID u = i" "users_ok d" "\<And>cl. sign_claims (ae_jwt E) (ae_cfg E) cl \<noteq> None"
  shows "\<exists>g s'. finish_refresh E now c x rh i remember dev (Some (tok, exp)) (d, []) = (Inr (Answer 200 g), s') \<and> sg_userID g = i"
proof -
  have user: "find_user (\<lambda>v. us_ID v = i) d = Inr u" using lookup_ok(2) [OF assms(3,1)] assms(2) by simp
  have "\<exists>m. getJWTExpiryMin (ae_env E) (d, []) = (Inr m, d, [])" unfolding getJWTExpiryMin_def Let_def by (simp add: bind_def split: option.split)
  then obtain m where m: "getJWTExpiryMin (ae_env E) (d, []) = (Inr m, d, [])" by blast
  define v where "v = (scan_user u)\<lparr>us_PasswordChangedAt := None\<rparr>"
  define cl where "cl = \<lparr>cl_user_id = us_ID v, cl_username = us_Username v, cl_role = us_Role v, cl_jti = fr_jti x,
    cl_exp = (now + int64 (m * Minute)) div Second, cl_iat = now div Second, cl_remember = remember\<rparr>"
  obtain acc where acc: "sign_claims (ae_jwt E) (ae_cfg E) cl = Some acc" using assms(4) by blast
  have tok: "GenerateToken (ae_jwt E) (ae_cfg E) (ae_env E) now (fr_jti x) (us_ID v) (us_Username v) (us_Role v) remember (d, []) =
      (Inr (Some (acc, now + int64 (m * Minute))), d, [])"
    using acc by (simp add: GenerateToken_def bind_def m Let_def cl_def)
  have "us_ID v = i" using assms(2) by (simp add: v_def scan_user_def)
  moreover have "getUserByID i (d, []) = (Inr v, d, [])" by (simp add: getUserByID_def user v_def)
  moreover obtain a where "auth_audit (us_ID v) (us_Username v) ''refresh_race_recovered'' (ct_ip c) [] (d, []) = (Inr (), a)"
    using auth_audit_ok by blast
  ultimately show ?thesis using tok by (simp add: finish_refresh_def attempt_def bind_def)
qed

text \<open>
  Logout: the session a user logs out of can be taken up again: the refresh token that was exchanged last, less than
  thirty seconds ago, is not revoked, and presenting it opens a new session, for a deactivated user too.
\<close>
theorem logged_out_session_revived:
  assumes "users_ok d" "distinct (map rt_TokenHash (db_refresh d))" "r \<in> set (db_refresh d)" "rt_Used r"
    and "rt_TokenHash r = ae_digest E old" "rt_ReplacedBy r = Some (ae_digest E new)" "ae_digest E new \<noteq> []" "rt_UsedAt r = Some t0"
    and "u \<in> set (db_users d)" "us_ID u = rt_UserID r" "length (rt_DeviceID r) \<le> 64"
    and "\<And>cl. sign_claims (ae_jwt E) (ae_cfg E) cl \<noteq> None"
    and "Logout E t1 jti c0 (Some new) (d, fs) = (Inr out, d', fs')"
    and "\<not> ct_silent c" "presented c body = Some old" "now - t0 \<le> refreshReuseGraceWindow"
  shows "\<exists>g. fst (Refresh E now c x body (d', [])) = Inr (Answer 200 g) \<and> sg_userID g = us_ID u"
proof -
  note out = Logout_run [OF assms(13)]
  have d': "distinct (map rt_TokenHash (db_refresh d'))" "r \<in> set (db_refresh d')" "u \<in> set (db_users d')" "users_ok d'"
    using out assms(1-4,9) by (simp_all add: users_ok_def)
  have "find (claimable now (ae_digest E old)) (db_refresh d') = None"
    using find_only [OF d'(1,2) assms(5), of "\<lambda>q. \<not> rt_Used q \<and> rt_ExpiresAt q > now"] assms(4) by (simp add: claimable_def [abs_def])
  then have claim: "claim_token now (ae_digest E old) (d', []) = (Inl NoRows, d', [])" by (simp add: claim_token_def)
  obtain exp rs n where rec: "recoverRacedRefresh E now x old (d', []) =
      (Inr (Some (rt_UserID r, fr_refresh x, exp, rt_Remember r, rt_DeviceID r)), d'\<lparr>db_refresh := rs, db_seq := n\<rparr>, [])"
    using recover_live [OF d'(1,2) assms(5,4,6,7,8,16) d'(3) assms(10,11)] by blast
  have "\<exists>g s'. finish_refresh E now c x (ae_digest E old) (rt_UserID r) (rt_Remember r) (if rt_DeviceID r \<noteq> [] then rt_DeviceID r else deviceID c x)
      (Some (fr_refresh x, exp)) (d'\<lparr>db_refresh := rs, db_seq := n\<rparr>, []) = (Inr (Answer 200 g), s') \<and> sg_userID g = rt_UserID r"
    by (rule finish_recovered [where u = u]) (use d'(3,4) assms(10,12) in \<open>auto simp: users_ok_def\<close>)
  then obtain g s' where "finish_refresh E now c x (ae_digest E old) (rt_UserID r) (rt_Remember r) (if rt_DeviceID r \<noteq> [] then rt_DeviceID r else deviceID c x)
      (Some (fr_refresh x, exp)) (d'\<lparr>db_refresh := rs, db_seq := n\<rparr>, []) = (Inr (Answer 200 g), s')" "sg_userID g = rt_UserID r" by blast
  then have "redeem E now c x old (d', []) = (Inr (Answer 200 g), s')" using claim rec by (simp add: redeem_def attempt_def bind_def Let_def)
  moreover have "Refresh E now c x body (d', []) = redeem E now c x old (d', [])"
    using assms(14,15) by (simp add: Refresh_def presented_def split: if_splits)
  ultimately show ?thesis using \<open>sg_userID g = rt_UserID r\<close> assms(10) by simp
qed

theorem logged_out_session_revived_witness:
  "\<exists>d' g. fst (Refresh demo_env 2 demo_client demo_fresh (Some ''old'') (d', [])) = Inr (Answer 200 g) \<and> sg_userID g = us_ID demo_user"
proof -
  let ?row = "demo_row\<lparr>rt_Used := True, rt_UsedAt := Some 0, rt_ReplacedBy := Some ''digest of new''\<rparr>"
  let ?db = "demo_db\<lparr>db_refresh := [?row]\<rparr>"
  obtain d' fs' where out: "Logout demo_env 1 ''j'' demo_client (Some ''new'') (?db, []) = (Inr (Answer 200 ''Logged out''), d', fs')"
    by (simp add: Logout_def BlacklistJTI_def demo_client_def attempt_def Let_def)
  have "\<exists>g. fst (Refresh demo_env 2 demo_client demo_fresh (Some ''old'') (d', [])) = Inr (Answer 200 g) \<and> sg_userID g = us_ID demo_user"
    by (rule logged_out_session_revived [OF _ _ _ _ _ _ _ _ _ _ _ _ out, where r = ?row and old = "''old''" and ?t0.0 = 0])
      (simp_all add: users_ok_def demo_db_def demo_user_def demo_env_def demo_jwt_def demo_row_def demo_client_def presented_def sign_claims_def
        refreshReuseGraceWindow_def Second_def)
  then show ?thesis by blast
qed

section \<open>Keys\<close>

text \<open>
  RSA keys: a token signed before a rotation is accepted, until it expires, as long as the previous public key is kept; it is
  rejected once that key is cleared or a second rotation has replaced it.
\<close>
lemma rsa_token_until_cleared:
  assumes "jwt_laws J" "sign_claims J cfg cl = Some tok" "ac_rsaPriv cfg = Some k" "ac_rsaPub cfg = Some (jw_public J k)"
    and "jw_public J k1 \<noteq> jw_public J k" "jw_public J k2 \<noteq> jw_public J k"
  shows "ValidateToken J (RotateRSAKey J k1 cfg) now tok = (if now < cl_exp cl * Second then Some cl else None)"
    and "ValidateToken J (ClearSecondaryRSAKey (RotateRSAKey J k1 cfg)) now tok = None"
    and "ValidateToken J (RotateRSAKey J k2 (RotateRSAKey J k1 cfg)) now tok = None"
  using assms
  by (auto simp: jwt_laws_def sign_claims_def ValidateToken_def validateJWT_def RotateRSAKey_def ClearSecondaryRSAKey_def)

section \<open>Password histories\<close>

lemma newest_own: "e \<in> set (newest_entries i n d) \<Longrightarrow> fst e = i"
  unfolding newest_entries_def by (auto dest!: in_set_takeD)

text \<open>\<open>ends Q m\<close>: whenever \<open>m\<close> returns a value, it and the tables satisfy \<open>Q\<close>.\<close>

definition ends :: "('a \<Rightarrow> 'd \<Rightarrow> bool) \<Rightarrow> ('d, 'a) sql \<Rightarrow> bool" where
  "ends Q m \<longleftrightarrow> (\<forall>s x s'. m s = (Inr x, s') \<longrightarrow> Q x (fst s'))"

named_theorems ends_intros \<open>outcomes with the tables, by the shape of the program\<close>

lemma ends_ret [ends_intros]: "(\<And>d. Q x d) \<Longrightarrow> ends Q (ret x)"
  by (auto simp: ends_def)

lemma ends_bind [ends_intros]: "(\<And>x. ends Q (k x)) \<Longrightarrow> ends Q (bind m k)"
  unfolding ends_def bind_def by (auto split: prod.splits sum.splits)

lemma ends_attempt [ends_intros]: "(\<And>r. ends Q (k r)) \<Longrightarrow> ends Q (attempt m k)"
  unfolding ends_def attempt_def by (auto split: prod.splits)

lemma ends_cases [ends_intros]:
  "(b \<Longrightarrow> ends Q m) \<Longrightarrow> (\<not> b \<Longrightarrow> ends Q m') \<Longrightarrow> ends Q (if b then m else m')"
  "ends Q m \<Longrightarrow> (\<And>y. ends Q (f y)) \<Longrightarrow> ends Q (case z of None \<Rightarrow> m | Some y \<Rightarrow> f y)"
  "(\<And>e. ends Q (g e)) \<Longrightarrow> (\<And>y. ends Q (h y)) \<Longrightarrow> ends Q (case w of Inl e \<Rightarrow> g e | Inr y \<Rightarrow> h y)"
  by (auto split: option.split sum.split)

definition history_of_one :: "string resp \<Rightarrow> authdb \<Rightarrow> bool" where
  "history_of_one a d \<longleftrightarrow> (\<exists>code msg. a = Answer code msg) \<longrightarrow> (\<exists>i. \<forall>e \<in> set (db_history d). fst e = i)"

lemma trim_run:
  "TrimPasswordHistory i (d, fs) = (Inr x, d', fs') \<Longrightarrow> \<forall>e \<in> set (db_history d'). fst e = i"
  by (auto simp: TrimPasswordHistory_def historyCount_def bind_def stmt_def split: if_splits prod.splits sum.splits dest!: newest_own)

lemma trim_ends:
  "ends history_of_one (attempt (TrimPasswordHistory i) (\<lambda>r. case r of
     Inl err \<Rightarrow> ret (Failure 500 key) | Inr _ \<Rightarrow> bind (auth_audit j n act ip det) (\<lambda>_. ret (Answer 200 msg))))"
  unfolding ends_def
proof (intro allI impI)
  fix s x s'
  assume run: "attempt (TrimPasswordHistory i) (\<lambda>r. case r of
     Inl err \<Rightarrow> ret (Failure 500 key) | Inr _ \<Rightarrow> bind (auth_audit j n act ip det) (\<lambda>_. ret (Answer 200 msg))) s = (Inr x, s')"
  obtain r d1 fs1 where t: "TrimPasswordHistory i s = (r, d1, fs1)" by (cases "TrimPasswordHistory i s") auto
  show "history_of_one x (fst s')"
  proof (cases r)
    case (Inl e)
    with run t show ?thesis by (auto simp: attempt_def history_of_one_def)
  next
    case (Inr u)
    obtain a where "auth_audit j n act ip det (d1, fs1) = (Inr (), d1\<lparr>db_audit := a\<rparr>, tl fs1)" using auth_audit_run by blast
    with run t Inr have "fst s' = d1\<lparr>db_audit := a\<rparr>" by (auto simp: attempt_def bind_def)
    moreover have "\<forall>e \<in> set (db_history d1). fst e = i" using t Inr by (cases s) (auto dest: trim_run)
    ultimately show ?thesis by (auto simp: history_of_one_def)
  qed
qed

lemma ChangePassword_ends: "ends history_of_one (ChangePassword E now c salt name body)"
  unfolding ChangePassword_def case_prod_unfold
  by (intro ends_cases(2) ends_cases(1) trim_ends ends_intros) (simp_all add: history_of_one_def)

text \<open>
  Histories: a change of password that succeeds leaves the history of one user only: the rows of all others are deleted.
\<close>
theorem change_password_clears_other_histories:
  assumes "ChangePassword E now c salt name body (d, fs) = (Inr (Answer code msg), d', fs')"
  shows "\<exists>i. \<forall>e \<in> set (db_history d'). fst e = i"
  using ChangePassword_ends assms unfolding ends_def history_of_one_def by (metis fst_conv)

lemma demo_policy: "ValidatePasswordWithPolicy \<lparr>pp_MinLength = 12, pp_MaxLength = 128, pp_RequireUpper = True, pp_RequireLower = True, pp_RequireDigit = True,
     pp_RequireSpecial = True, pp_HistoryCount = 12\<rparr> ''Tr0ub4dor&3x''"
  by code_simp

lemma demo_numbers: "parse_int64 ''12'' = Some 12" "parse_int64 ''128'' = Some 128"
  by code_simp+

lemma demo_change:
  "\<exists>d'. ChangePassword demo_env 5 demo_client ''salt'' ''ann'' (Some (''secret'', ''Tr0ub4dor&3x'')) (demo_db\<lparr>db_history := [(2, ''h'', 1)]\<rparr>, []) =
     (Inr (Answer 200 ''Password updated''), d', [])"
  using demo_policy
  by (simp add: ChangePassword_def LoadPasswordPolicy_def demo_db_def demo_user_def demo_env_def demo_client_def bind_def attempt_def envOrInt_def demo_numbers
      MinPasswordLength_def find_user_def CheckPasswordHistory_def historyCount_def newest_entries_def ResetUserPassword_def upd_user_def
      AddPasswordHistory_def TrimPasswordHistory_def int64_def auth_audit_def)

theorem change_password_clears_other_histories_witness:
  "\<exists>d' i. (\<forall>e \<in> set (db_history d'). fst e = (i :: int)) \<and>
     ChangePassword demo_env 5 demo_client ''salt'' ''ann'' (Some (''secret'', ''Tr0ub4dor&3x'')) (demo_db\<lparr>db_history := [(2, ''h'', 1)]\<rparr>, []) =
     (Inr (Answer 200 ''Password updated''), d', [])"
  using demo_change change_password_clears_other_histories by blast

end
