(* ===== verification/Partitions.thy ===== *)
theory Partitions
  imports Sql Cursor LogQuery
begin

text \<open>
  Partitions of \<^verbatim>\<open>syslog_logs\<close> and retention, \<^verbatim>\<open>db/db.go\<close> and \<^verbatim>\<open>db/maintenance.go\<close>. A partition holds the rows of a range of
  timestamps; rows outside every range sit in the default partition. The server refuses a partition whose range
  overlaps another one or holds rows that already sit in the default partition. Times are in UTC, and the sessions of the
  database are taken to run in UTC (the migration computes its bounds from dates of the session).
\<close>

section \<open>Dates\<close>

definition Day :: duration where "Day = 24 * Hour"

definition day_of :: "time \<Rightarrow> int" where "day_of t = t div Day + epoch_day"

definition midnight :: "int \<Rightarrow> time" where "midnight n = (n - epoch_day) * Day"

text \<open>\<^verbatim>\<open>t.AddDate(0, months, days)\<close>: the month is normalised first, then the days are counted from its first.\<close>

definition add_date :: "int \<Rightarrow> int \<Rightarrow> time \<Rightarrow> time" where
  "add_date dm dd t =
     (let (y, m, d) = date_of (day_of t); k = 12 * y + int (m - 1) + dm
      in midnight (days_of (k div 12) (nat (k mod 12) + 1) 1 + int (d - 1) + dd) + t mod Day)"

section \<open>Granularity\<close>

record partitionGranularity =
  pg_name :: string
  pg_daily :: bool
  pg_ahead :: nat

definition dayPartitionGranularity :: partitionGranularity where
  "dayPartitionGranularity = \<lparr>pg_name = ''day'', pg_daily = True, pg_ahead = 7\<rparr>"

definition monthPartitionGranularity :: partitionGranularity where
  "monthPartitionGranularity = \<lparr>pg_name = ''month'', pg_daily = False, pg_ahead = 3\<rparr>"

text \<open>\<open>env\<close>: the value of \<^verbatim>\<open>PARTITION_INTERVAL\<close>. \<open>pg_daily\<close> stands for the layout of the name, with a day or without.\<close>

definition configuredPartitionGranularity :: "string \<Rightarrow> partitionGranularity" where
  "configuredPartitionGranularity env =
     (if to_lower (trim_space env) = ''month'' then monthPartitionGranularity else dayPartitionGranularity)"

definition gran_truncate :: "partitionGranularity \<Rightarrow> time \<Rightarrow> time" where
  "gran_truncate g t =
     (let (y, m, d) = date_of (day_of t) in
      if pg_name g = ''month'' then midnight (days_of y m 1) else midnight (days_of y m d))"

definition gran_next :: "partitionGranularity \<Rightarrow> time \<Rightarrow> time" where
  "gran_next g t = (if pg_name g = ''month'' then add_date 1 0 t else add_date 0 1 t)"

definition gran_previous :: "partitionGranularity \<Rightarrow> time \<Rightarrow> time" where
  "gran_previous g t = (if pg_name g = ''month'' then add_date (- 1) 0 t else add_date 0 (- 1) t)"

definition partition_prefix :: string where "partition_prefix = ''syslog_logs_''"

definition partitionName :: "partitionGranularity \<Rightarrow> time \<Rightarrow> string" where
  "partitionName g t =
     (let (y, m, d) = date_of (day_of t) in
      partition_prefix @ year_str y @ ''_'' @ pad_digits 2 m @ (if pg_daily g then ''_'' @ pad_digits 2 d else []))"

definition partitionNameRe :: "string \<Rightarrow> bool" where
  "partitionNameRe name \<longleftrightarrow>
     (let s = drop (length partition_prefix) name in
      has_prefix name partition_prefix \<and> (length s = 7 \<or> length s = 10) \<and> s ! 4 = CHR ''_'' \<and> list_all is_digit (slice 0 4 s) \<and>
      list_all is_digit (slice 5 7 s) \<and> (length s = 10 \<longrightarrow> s ! 7 = CHR ''_'' \<and> list_all is_digit (slice 8 10 s)))"

text \<open>\<^verbatim>\<open>time.Parse\<close> rejects dates that do not exist.\<close>

definition parsePartitionBounds :: "string \<Rightarrow> (time \<times> time) option" where
  "parsePartitionBounds name =
     (if \<not> partitionNameRe name then None
      else
        (let s = drop (length partition_prefix) name in
         case (parse_uint (slice 0 4 s) 0 9999, parse_uint (slice 5 7 s) 1 12) of
           (Some y, Some m) \<Rightarrow>
             (if length s = 10 then
                (case parse_uint (slice 8 10 s) 1 (months (y mod 400) ! (m - 1)) of
                   None \<Rightarrow> None
                 | Some d \<Rightarrow> (let start = midnight (days_of (int y) m d) in Some (start, add_date 0 1 start)))
              else (let start = midnight (days_of (int y) m 1) in Some (start, add_date 1 0 start)))
         | _ \<Rightarrow> None))"

section \<open>The table\<close>

record partition =
  pt_name :: string
  pt_from :: time
  pt_to :: time

text \<open>
  A stored row has a position, its \<^verbatim>\<open>ctid\<close> (block and offset). Each partition is a table of its own, so a position is
  unique within a partition only.
\<close>

type_synonym ctid = "nat \<times> nat"

record stored_row = log_row +
  st_ctid :: ctid

record partdb =
  pd_partitioned :: bool
  pd_parts :: "partition list"
  pd_rows :: "stored_row list"

definition in_part :: "time \<Rightarrow> partition \<Rightarrow> bool" where
  "in_part t p \<longleftrightarrow> pt_from p \<le> t \<and> t < pt_to p"

definition create_partition :: "string \<Rightarrow> time \<Rightarrow> time \<Rightarrow> (partdb, unit) sql" where
  "create_partition name lo hi = stmt (\<lambda>d.
     if list_ex (\<lambda>p. pt_name p = name) (pd_parts d) then Inr ((), d)
     else if list_ex (\<lambda>p. lo < pt_to p \<and> pt_from p < hi) (pd_parts d) \<or> list_ex (\<lambda>r. lo \<le> lr_timestamp r \<and> lr_timestamp r < hi) (pd_rows d)
     then Inl SqlErr
     else Inr ((), d\<lparr>pd_parts := pd_parts d @ [\<lparr>pt_name = name, pt_from = lo, pt_to = hi\<rparr>]\<rparr>))"

text \<open>\<^verbatim>\<open>DROP TABLE IF EXISTS\<close>.\<close>

definition drop_partition :: "string \<Rightarrow> (partdb, unit) sql" where
  "drop_partition name = stmt (\<lambda>d. Inr ((),
     d\<lparr>pd_rows := filter (\<lambda>r. \<not> list_ex (\<lambda>p. pt_name p = name \<and> in_part (lr_timestamp r) p) (pd_parts d)) (pd_rows d),
       pd_parts := filter (\<lambda>p. pt_name p \<noteq> name) (pd_parts d)\<rparr>))"

definition is_partitioned :: "(partdb, bool) sql" where
  "is_partitioned = query (\<lambda>d. Inr (pd_partitioned d))"

definition list_partitions :: "(partdb, string list) sql" where
  "list_partitions = query (\<lambda>d. Inr (filter partitionNameRe (map pt_name (pd_parts d))))"

section \<open>Creation ahead of time\<close>

fun covering_granularity :: "string \<Rightarrow> time \<Rightarrow> string list \<Rightarrow> partitionGranularity" where
  "covering_granularity env now [] = configuredPartitionGranularity env"
| "covering_granularity env now (name # names) =
     (case parsePartitionBounds name of
        None \<Rightarrow> covering_granularity env now names
      | Some (start, end0) \<Rightarrow>
          (if now < start \<or> \<not> now < end0 then covering_granularity env now names
           else if length (drop (length partition_prefix) name) = 10 then dayPartitionGranularity else monthPartitionGranularity))"

definition activePartitionGranularity :: "string \<Rightarrow> time \<Rightarrow> (partdb, partitionGranularity) sql" where
  "activePartitionGranularity env now =
     attempt list_partitions (\<lambda>r. case r of
       Inl err \<Rightarrow> ret (configuredPartitionGranularity env)
     | Inr names \<Rightarrow> ret (covering_granularity env now names))"

fun create_ahead :: "partitionGranularity \<Rightarrow> nat \<Rightarrow> time \<Rightarrow> (partdb, unit) sql" where
  "create_ahead g 0 partStart = ret ()"
| "create_ahead g (Suc n) partStart =
     attempt (create_partition (partitionName g partStart) partStart (gran_next g partStart)) (\<lambda>_. create_ahead g n (gran_next g partStart))"

text \<open>\<open>acquired\<close>: whether the advisory lock was free. Taking the connection and the lock are statements that can fail.\<close>

definition createPartitions :: "string \<Rightarrow> bool \<Rightarrow> time \<Rightarrow> (partdb, unit) sql" where
  "createPartitions env acquired now =
     attempt is_partitioned (\<lambda>p.
       if p \<noteq> Inr True then ret ()
       else
         attempt (stmt (\<lambda>d. Inr ((), d))) (\<lambda>conn.
         if conn \<noteq> Inr () then ret ()
         else
           attempt (stmt (\<lambda>d. Inr (acquired, d))) (\<lambda>l.
           if l \<noteq> Inr True then ret ()
           else
             bind (activePartitionGranularity env now) (\<lambda>g.
             bind (create_ahead g (Suc (pg_ahead g)) (gran_truncate g now)) (\<lambda>_.
             attempt (stmt (\<lambda>d. Inr ((), d))) (\<lambda>_. ret ()))))))"

text \<open>The partitions that still receive rows.\<close>

fun existing_names :: "string list \<Rightarrow> (partdb, string list) sql" where
  "existing_names [] = ret []"
| "existing_names (n # ns) =
     attempt (query (\<lambda>d. Inr (list_ex (\<lambda>p. pt_name p = n) (pd_parts d)))) (\<lambda>r.
     bind (existing_names ns) (\<lambda>rest. ret (if r = Inr True then n # rest else rest)))"

definition activePartitionNames :: "string \<Rightarrow> time \<Rightarrow> (partdb, string list) sql" where
  "activePartitionNames env now =
     attempt is_partitioned (\<lambda>p.
       if p \<noteq> Inr True then ret []
       else bind (activePartitionGranularity env now) (\<lambda>g.
         let current = gran_truncate g now in existing_names [partitionName g (gran_previous g current), partitionName g current]))"

section \<open>Retention\<close>

definition batchSize :: nat where "batchSize = 10000"

definition too_old :: "time \<Rightarrow> int \<Rightarrow> 'a log_row_scheme \<Rightarrow> bool" where
  "too_old now retentionDays r \<longleftrightarrow> lr_timestamp r < now - retentionDays * Day"

text \<open>
  \<^verbatim>\<open>DELETE FROM syslog_logs WHERE ctid IN (SELECT ctid FROM syslog_logs WHERE timestamp < ... LIMIT 10000)\<close>. The subquery picks
  old rows, in an order the server chooses (\<open>pick\<close>), and keeps their positions; the outer statement deletes the rows at
  these positions, of every partition.
\<close>

type_synonym picks = "stored_row list \<Rightarrow> stored_row list"

definition picked :: "picks \<Rightarrow> time \<Rightarrow> int \<Rightarrow> partdb \<Rightarrow> ctid set" where
  "picked pick now retentionDays d = st_ctid ` set (take batchSize (pick (filter (too_old now retentionDays) (pd_rows d))))"

definition delete_batch :: "picks \<Rightarrow> time \<Rightarrow> int \<Rightarrow> (partdb, int) sql" where
  "delete_batch pick now retentionDays = stmt (\<lambda>d.
     let at = picked pick now retentionDays d in
     Inr (int (length (filter (\<lambda>r. st_ctid r \<in> at) (pd_rows d))),
          d\<lparr>pd_rows := filter (\<lambda>r. st_ctid r \<notin> at) (pd_rows d)\<rparr>))"

text \<open>The loop; \<^const>\<open>None\<close> would be one that never ends. The count and the error are returned side by side.\<close>

partial_function (option) deleteOldLogsBatched ::
  "picks \<Rightarrow> time \<Rightarrow> int \<Rightarrow> int \<Rightarrow> partdb \<times> bool list \<Rightarrow> ((int \<times> sqlerr option) \<times> partdb \<times> bool list) option" where
  "deleteOldLogsBatched pick now retentionDays totalDeleted s =
     (case delete_batch pick now retentionDays s of
        (Inl err, s') \<Rightarrow> Some ((totalDeleted, Some err), s')
      | (Inr affected, s') \<Rightarrow>
          (if affected = 0 then Some ((totalDeleted + affected, None), s')
           else deleteOldLogsBatched pick now retentionDays (totalDeleted + affected) s'))"

text \<open>\<open>est\<close>: the server's estimate of the rows of a table.\<close>

fun drop_expired :: "(string \<Rightarrow> int) \<Rightarrow> time \<Rightarrow> string list \<Rightarrow> int \<Rightarrow> (partdb, int) sql" where
  "drop_expired est cutoff [] totalDeleted = ret totalDeleted"
| "drop_expired est cutoff (name # names) totalDeleted =
     (case parsePartitionBounds name of
        None \<Rightarrow> drop_expired est cutoff names totalDeleted
      | Some (_, partEnd) \<Rightarrow>
          (if partEnd > cutoff then drop_expired est cutoff names totalDeleted
           else
             attempt (query (\<lambda>d. Inr (est name))) (\<lambda>e.
             attempt (drop_partition name) (\<lambda>r. case r of
               Inl err \<Rightarrow> drop_expired est cutoff names totalDeleted
             | Inr _ \<Rightarrow> drop_expired est cutoff names (totalDeleted + (case e of Inl _ \<Rightarrow> 0 | Inr n \<Rightarrow> if n > 0 then n else 0))))))"

definition CleanupOldLogs ::
  "picks \<Rightarrow> (string \<Rightarrow> int) \<Rightarrow> time \<Rightarrow> int \<Rightarrow> partdb \<times> bool list \<Rightarrow> ((int \<times> sqlerr option) \<times> partdb \<times> bool list) option" where
  "CleanupOldLogs pick est now retentionDays s =
     (case is_partitioned s of
        (Inl err, s1) \<Rightarrow> Some ((0, Some err), s1)
      | (Inr False, s1) \<Rightarrow> deleteOldLogsBatched pick now retentionDays 0 s1
      | (Inr True, s1) \<Rightarrow>
          (let cutoff = add_date 0 (- retentionDays) now in
           case list_partitions s1 of
             (Inl err, s2) \<Rightarrow> Some ((0, Some err), s2)
           | (Inr names, s2) \<Rightarrow>
               (case drop_expired est cutoff names 0 s2 of
                  (Inl err, s3) \<Rightarrow> Some ((0, Some err), s3)
                | (Inr totalDeleted, s3) \<Rightarrow>
                    map_option (\<lambda>((deleted, err), s4). ((totalDeleted + deleted, err), s4)) (deleteOldLogsBatched pick now retentionDays 0 s3))))"

section \<open>The purge\<close>

text \<open>
  The tables' part of \<^verbatim>\<open>PurgeAllLogs\<close>: all rows go, then the partitions with a date. The result says whether
  \<^verbatim>\<open>EnsurePartitions\<close> is started.
\<close>

fun drop_all :: "string list \<Rightarrow> (partdb, unit) sql" where
  "drop_all [] = ret ()"
| "drop_all (name # names) = attempt (drop_partition name) (\<lambda>_. drop_all names)"

definition purge_logs :: "(partdb, bool) sql" where
  "purge_logs =
     bind (stmt (\<lambda>d. Inr ((), d\<lparr>pd_rows := []\<rparr>))) (\<lambda>_.
     attempt list_partitions (\<lambda>r. case r of
       Inl err \<Rightarrow> ret False
     | Inr names \<Rightarrow> bind (drop_all names) (\<lambda>_. ret (names \<noteq> []))))"

section \<open>The migration to partitions\<close>

text \<open>
  The loop of the block that creates the first partitions; \<^const>\<open>None\<close> would be one that never ends.
\<close>

partial_function (option) initial_partitions :: "partitionGranularity \<Rightarrow> time \<Rightarrow> time \<Rightarrow> partition list option" where
  "initial_partitions g v_curr v_end =
     (if v_curr < v_end then
        Option.bind (initial_partitions g (gran_next g v_curr) v_end) (\<lambda>ps.
          Some (\<lparr>pt_name = partitionName g v_curr, pt_from = v_curr, pt_to = gran_next g v_curr\<rparr> # ps))
      else Some [])"

definition v_min_max :: "time \<Rightarrow> partdb \<Rightarrow> time \<times> time" where
  "v_min_max now d =
     (if pd_rows d = [] then (now, now)
      else (Min (set (map lr_timestamp (pd_rows d))), Max (set (map lr_timestamp (pd_rows d)))))"

text \<open>
  The migration of a table that is not partitioned, when all its statements succeed. The rows are copied, so they get new
  positions (\<open>place\<close>).
\<close>

definition migrate_partitions :: "string \<Rightarrow> (stored_row \<Rightarrow> ctid) \<Rightarrow> time \<Rightarrow> partdb \<Rightarrow> partdb option" where
  "migrate_partitions env place now d =
     (if pd_partitioned d then Some d
      else
        (let g = configuredPartitionGranularity env; (lo, hi) = v_min_max now d in
         map_option (\<lambda>ps. d\<lparr>pd_partitioned := True, pd_parts := ps,
             pd_rows := map (\<lambda>r. r\<lparr>st_ctid := place r\<rparr>) (pd_rows d)\<rparr>)
           (initial_partitions g (gran_truncate g lo) (gran_next g (gran_truncate g hi)))))"

end
