(* ===== verification/PartitionCalendar.thy ===== *)
theory PartitionCalendar
  imports Partitions
begin

text \<open>
  The calendar behind the partitions: days and months are blocks of time, and the name of a block reads back as its bounds.
  The laws of such blocks are the locale \<open>blocks\<close>, which days and months interpret.
\<close>

section \<open>Dates from day numbers and back\<close>

lemma year_loop_unique:
  "days_before y0 + n = days_before y + n' \<Longrightarrow> n' < year_len y \<Longrightarrow> y0 \<le> y \<Longrightarrow> year_loop y0 n = (y, n')"
proof (induction y0 n rule: year_loop.induct)
  case (1 y0 n)
  show ?case
  proof (cases "n < year_len y0")
    case True
    have "y0 = y"
    proof (rule ccontr)
      assume "y0 \<noteq> y"
      with "1.prems"(3) have "days_before (Suc y0) \<le> days_before y" by (intro days_before_mono) simp
      with True "1.prems"(1) show False by simp
    qed
    with True "1.prems"(1) show ?thesis by (subst year_loop.simps) auto
  next
    case False
    then have "y0 \<noteq> y" using "1.prems"(1,2) by auto
    with False "1.prems" have "year_loop (Suc y0) (n - year_len y0) = (y, n')" by (intro "1.IH") auto
    with False show ?thesis by (simp add: year_loop.simps [of y0 n])
  qed
qed

lemma month_loop_unique: "m < length ls \<Longrightarrow> d < ls ! m \<Longrightarrow> month_loop ls (sum_list (take m ls) + d) = (m, d)"
proof (induction ls arbitrary: m)
  case (Cons l ls)
  then show ?case by (cases m) auto
qed simp

definition valid_date :: "int \<Rightarrow> nat \<Rightarrow> nat \<Rightarrow> bool" where
  "valid_date y m d \<longleftrightarrow> 1 \<le> m \<and> m \<le> 12 \<and> 1 \<le> d \<and> d \<le> months (nat (y mod 400)) ! (m - 1)"

lemma sum_take_drop: "sum_list (take m ls) + sum_list (drop m ls) = (sum_list ls :: nat)"
  by (metis append_take_drop_id sum_list_append)

lemma take_months_le: "sum_list (take m (months c)) + (if m < 12 then months c ! m else 0) \<le> year_len c"
proof -
  have "m < 12 \<Longrightarrow> months c ! m \<le> sum_list (drop m (months c))"
    using length_months [of c] by (simp flip: Cons_nth_drop_Suc)
  with sum_take_drop [of m "months c"] show ?thesis by (auto simp: months_sum)
qed

lemma date_of_days:
  assumes "valid_date y m d"
  shows "date_of (days_of y m d) = (y, m, d)"
proof -
  define c where "c = nat (y mod 400)"
  define doy where "doy = sum_list (take (m - 1) (months c)) + (d - 1)"
  have v: "1 \<le> m" "m \<le> 12" "1 \<le> d" "d \<le> months c ! (m - 1)" using assms by (auto simp: valid_date_def c_def)
  have doy: "doy < year_len c" using take_months_le [of "m - 1" c] v by (cases m) (auto simp: doy_def)
  have c: "c < 400" by (simp add: c_def nat_less_iff)
  have "days_before c + doy < days_before (Suc c)" using doy by simp
  also have "\<dots> \<le> 146097" using days_before_mono [of "Suc c" 400] c by (simp add: days_before_400)
  finally have small: "int (days_before c + doy) < 146097" by linarith
  have n: "days_of y m d = 146097 * (y div 400) + int (days_before c + doy)" by (simp add: days_of_def c_def doy_def Let_def)
  have md: "days_of y m d mod 146097 = int (days_before c + doy)" "days_of y m d div 146097 = y div 400"
    unfolding n using small by simp_all
  have "year_loop 0 (days_before c + doy) = (c, doy)" using doy by (intro year_loop_unique) auto
  moreover have "month_loop (months c) doy = (m - 1, d - 1)"
    unfolding doy_def using v length_months [of c] by (intro month_loop_unique) auto
  ultimately have "date_of (days_of y m d) = (400 * (y div 400) + int c, m - 1 + 1, d - 1 + 1)"
    by (simp add: date_of_def md flip: of_nat_add)
  moreover have "400 * (y div 400) + int c = y" by (simp add: c_def)
  ultimately show ?thesis using v by simp
qed

lemma date_of_valid: "date_of n = (y, m, d) \<Longrightarrow> valid_date y m d \<and> days_of y m d = n"
  using date_of_spec [of n y m d] by (simp add: valid_date_def)

lemma days_of_shift: "1 \<le> d \<Longrightarrow> days_of y m d = days_of y m 1 + int (d - 1)"
  by (simp add: days_of_def Let_def)

lemma month_len_pos:
  assumes "1 \<le> m" "m \<le> 12"
  shows "28 \<le> months c ! (m - 1)"
proof -
  have "months c ! (m - 1) \<in> set (months c)" using assms length_months [of c] by (intro nth_mem) simp
  moreover have "\<forall>l \<in> set (months c). 28 \<le> l" by (simp add: months_def)
  ultimately show ?thesis by blast
qed

lemma div_split: "x = r + 400 * q \<Longrightarrow> 0 \<le> r \<Longrightarrow> r < 400 \<Longrightarrow> x div 400 = q \<and> x mod 400 = (r :: int)"
  by simp

text \<open>The first of the next month.\<close>

lemma next_month:
  assumes "1 \<le> m" "m \<le> 12"
  shows "days_of ((12 * y + int m) div 12) (nat ((12 * y + int m) mod 12) + 1) 1 = days_of y m 1 + int (months (nat (y mod 400)) ! (m - 1))"
proof (cases "m = 12")
  case False
  define c where "c = nat (y mod 400)"
  have "(12 * y + int m) div 12 = y" "(12 * y + int m) mod 12 = int m" using assms False by (simp_all add: div_pos_pos_trivial)
  moreover have "sum_list (take m (months c)) = sum_list (take (m - 1) (months c)) + months c ! (m - 1)"
    using take_Suc_conv_app_nth [of "m - 1" "months c"] assms length_months [of c] by simp
  ultimately show ?thesis by (simp add: days_of_def Let_def c_def)
next
  case True
  define c where "c = nat (y mod 400)"
  have k: "(12 * y + int m) div 12 = y + 1" "(12 * y + int m) mod 12 = 0" using True by simp_all
  have whole: "sum_list (take 11 (months c)) + months c ! 11 = year_len c"
  proof -
    have "drop 11 (months c) = [months c ! 11]" using Cons_nth_drop_Suc [of 11 "months c"] length_months [of c] by simp
    with sum_take_drop [of 11 "months c"] show ?thesis by (simp add: months_sum)
  qed
  have "days_of y m 1 = 146097 * (y div 400) + int (days_before c + sum_list (take 11 (months c)))"
    by (simp add: days_of_def Let_def c_def True)
  then have rhs: "days_of y m 1 + int (months c ! (m - 1)) = 146097 * (y div 400) + int (days_before (Suc c))"
    using whole True by simp
  show ?thesis
  proof (cases "c = 399")
    case True
    then have "y mod 400 = 399" by (simp add: c_def nat_eq_iff)
    then have "y + 1 = 400 * (y div 400 + 1)" using mult_div_mod_eq [of 400 y] by (simp add: algebra_simps)
    then have "(y + 1) div 400 = y div 400 + 1" "(y + 1) mod 400 = 0" using div_split [of "y + 1" 0 "y div 400 + 1"] by simp_all
    moreover have "days_before (Suc c) = 146097" using days_before_400 True by (simp only: Suc_numeral) simp
    ultimately show ?thesis unfolding k c_def [symmetric] rhs by (simp add: days_of_def Let_def)
  next
    case False
    have "0 \<le> y mod 400" "y mod 400 < 400" by simp_all
    moreover from False have "y mod 400 \<noteq> 399" by (auto simp: c_def)
    ultimately have small: "0 \<le> y mod 400 + 1" "y mod 400 + 1 < 400" by linarith+
    have "y + 1 = y mod 400 + 1 + 400 * (y div 400)" using mult_div_mod_eq [of 400 y] by simp
    then have "(y + 1) div 400 = y div 400" "(y + 1) mod 400 = y mod 400 + 1"
      using small div_split [of "y + 1" "y mod 400 + 1" "y div 400"] by simp_all
    then have "nat ((y + 1) mod 400) = Suc c" by (simp add: c_def nat_add_distrib)
    then show ?thesis unfolding k rhs [unfolded c_def] using \<open>(y + 1) div 400 = y div 400\<close> by (simp add: days_of_def Let_def c_def)
  qed
qed

section \<open>Instants and days\<close>

lemma Day_pos [simp]: "0 < Day" "0 \<le> Day" "Day \<noteq> 0" "\<not> Day \<le> 0" "\<not> Day < 0"
  by (simp_all add: Day_def Hour_def)

lemma day_of_midnight [simp]: "day_of (midnight n) = n"
  by (simp add: day_of_def midnight_def)

lemma midnight_mod [simp]: "midnight n mod Day = 0"
  by (simp add: midnight_def)

lemma midnight_day: "midnight (day_of t) = t - t mod Day"
  by (simp add: midnight_def day_of_def minus_mod_eq_div_mult)

lemma midnight_less [simp]: "midnight a < midnight b \<longleftrightarrow> a < b" "midnight a \<le> midnight b \<longleftrightarrow> a \<le> b"
  by (simp_all add: midnight_def mult_less_cancel_right mult_le_cancel_right)

lemma day_bounds: "midnight (day_of t) \<le> t" "t < midnight (day_of t + 1)"
proof -
  have "0 \<le> t mod Day" "t mod Day < Day" using pos_mod_sign [of Day t] pos_mod_bound [of Day t] by simp_all
  moreover have "midnight (day_of t + 1) = midnight (day_of t) + Day" by (simp add: midnight_def algebra_simps)
  ultimately show "midnight (day_of t) \<le> t" "t < midnight (day_of t + 1)" using midnight_day [of t] by linarith+
qed

lemma day_between:
  assumes "midnight a \<le> t" "t < midnight b"
  shows "a \<le> day_of t" "day_of t < b"
proof -
  have "midnight a < midnight (day_of t + 1)" "midnight (day_of t) < midnight b" using assms day_bounds [of t] by linarith+
  then show "a \<le> day_of t" "day_of t < b" by simp_all
qed

lemma add_days: "add_date 0 k t = t + k * Day"
proof -
  obtain y m d where date: "date_of (day_of t) = (y, m, d)" by (metis prod.exhaust)
  then have v: "valid_date y m d" "days_of y m d = day_of t" using date_of_valid by blast+
  then have m: "1 \<le> m" "m \<le> 12" "1 \<le> d" by (auto simp: valid_date_def)
  have "(12 * y + int (m - 1)) div 12 = y" "(12 * y + int (m - 1)) mod 12 = int (m - 1)" using m by (simp_all add: div_pos_pos_trivial)
  moreover have "nat (int (m - 1)) + 1 = m" using m by simp
  ultimately have "add_date 0 k t = midnight (days_of y m 1 + int (d - 1) + k) + t mod Day" unfolding add_date_def date Let_def case_prod_conv add_0_right by simp
  also have "days_of y m 1 + int (d - 1) = day_of t" using days_of_shift [OF m(3), of y m] v(2) by simp
  also have "midnight (day_of t + k) + t mod Day = t + k * Day" using midnight_day [of t] by (simp add: midnight_def algebra_simps)
  finally show ?thesis .
qed

lemma add_month:
  assumes "1 \<le> m" "m \<le> 12"
  shows "add_date 1 0 (midnight (days_of y m 1)) = midnight (days_of y m 1 + int (months (nat (y mod 400)) ! (m - 1)))"
proof -
  have "valid_date y m 1" using assms month_len_pos [OF assms, of "nat (y mod 400)"] by (simp add: valid_date_def)
  then have date: "date_of (days_of y m 1) = (y, m, 1)" by (rule date_of_days)
  have k: "12 * y + int (m - 1) + 1 = 12 * y + int m" using assms by simp
  show ?thesis unfolding add_date_def day_of_midnight date Let_def case_prod_conv k next_month [OF assms] by simp
qed

section \<open>Blocks of time\<close>

text \<open>The start of the block an instant lies in, the start of the next one, and the name of a block.\<close>

locale blocks =
  fixes trunc nxt :: "time \<Rightarrow> time" and name :: "time \<Rightarrow> string"
  assumes trunc_le: "trunc t \<le> t"
    and less_nxt: "t < nxt (trunc t)"
    and trunc_unique: "trunc t \<le> u \<Longrightarrow> u < nxt (trunc t) \<Longrightarrow> trunc u = trunc t"
    and nxt_aligned: "trunc (nxt (trunc t)) = nxt (trunc t)"
    and name_bounds: "0 \<le> year_of (trunc t) \<Longrightarrow> year_of (trunc t) \<le> 9999 \<Longrightarrow> parsePartitionBounds (name (trunc t)) = Some (trunc t, nxt (trunc t))"
    and year_nxt: "year_of (trunc t) \<le> year_of (nxt (trunc t)) \<and> year_of (nxt (trunc t)) \<le> year_of (trunc t) + 1"
begin

lemma trunc_trunc [simp]: "trunc (trunc t) = trunc t"
  using trunc_unique [of t "trunc t"] trunc_le [of t] less_nxt [of t] by simp

lemma overlap_eq:
  assumes "trunc a = a" "trunc b = b" "a < nxt b" "b < nxt a"
  shows "a = b"
  using assms trunc_unique [of a b] trunc_unique [of b a] by (cases "a \<le> b") auto

end

lemma year_of_day: "year_of t = fst (date_of (day_of t))"
proof -
  have "t div Second div 86400 = t div Day" by (simp add: Second_def Day_def Hour_def flip: zdiv_zmult2_eq)
  then show ?thesis by (simp add: year_of_def day_of_def)
qed

text \<open>Names.\<close>

lemma has_prefix_append [simp]: "has_prefix (p @ s) p"
  by (induction p) auto

lemma suffix_day:
  assumes "length a = 4" "length b = 2" "length c = 2" and "s = a @ ''_'' @ b @ ''_'' @ c"
  shows "length s = 10" "s ! 4 = CHR ''_''" "s ! 7 = CHR ''_''" "slice 0 4 s = a" "slice 5 7 s = b" "slice 8 10 s = c"
proof -
  obtain a1 a2 a3 a4 where a: "a = [a1, a2, a3, a4]" using assms(1) by (auto simp: numeral_eq_Suc length_Suc_conv)
  obtain b1 b2 where b: "b = [b1, b2]" using assms(2) by (auto simp: numeral_eq_Suc length_Suc_conv)
  obtain c1 c2 where c: "c = [c1, c2]" using assms(3) by (auto simp: numeral_eq_Suc length_Suc_conv)
  show "length s = 10" "s ! 4 = CHR ''_''" "s ! 7 = CHR ''_''" "slice 0 4 s = a" "slice 5 7 s = b" "slice 8 10 s = c"
    unfolding assms(4) a b c by (simp_all add: slice_def)
qed

lemma suffix_month:
  assumes "length a = 4" "length b = 2" and "s = a @ ''_'' @ b"
  shows "length s = 7" "s ! 4 = CHR ''_''" "slice 0 4 s = a" "slice 5 7 s = b"
proof -
  obtain a1 a2 a3 a4 where a: "a = [a1, a2, a3, a4]" using assms(1) by (auto simp: numeral_eq_Suc length_Suc_conv)
  obtain b1 b2 where b: "b = [b1, b2]" using assms(2) by (auto simp: numeral_eq_Suc length_Suc_conv)
  show "length s = 7" "s ! 4 = CHR ''_''" "slice 0 4 s = a" "slice 5 7 s = b"
    unfolding assms(3) a b by (simp_all add: slice_def)
qed

lemma name_day:
  assumes "valid_date (int y) m d" "y \<le> 9999"
  shows "parsePartitionBounds (partition_prefix @ pad_digits 4 y @ ''_'' @ pad_digits 2 m @ ''_'' @ pad_digits 2 d) =
    Some (midnight (days_of (int y) m d), add_date 0 1 (midnight (days_of (int y) m d)))"
proof -
  define s where "s = pad_digits 4 y @ ''_'' @ pad_digits 2 m @ ''_'' @ pad_digits 2 d"
  note sh = suffix_day [OF length_pad length_pad length_pad s_def]
  have v: "1 \<le> m" "m \<le> 12" "1 \<le> d" "d \<le> months (y mod 400) ! (m - 1)"
    using assms(1) by (auto simp: valid_date_def nat_mod_distrib)
  moreover have "months (y mod 400) ! (m - 1) \<le> 31" using v length_months by (intro months_le [of _ "y mod 400"] nth_mem) simp
  ultimately have nums: "parse_uint (pad_digits 4 y) 0 9999 = Some y" "parse_uint (pad_digits 2 m) 1 12 = Some m"
    "parse_uint (pad_digits 2 d) 1 (months (y mod 400) ! (m - 1)) = Some d"
    using assms(2) by (simp_all add: parse_uint_pad)
  have "partitionNameRe (partition_prefix @ s)" by (simp add: partitionNameRe_def sh)
  then show ?thesis using nums unfolding s_def [symmetric] by (simp add: parsePartitionBounds_def sh Let_def)
qed

lemma name_month:
  assumes "1 \<le> m" "m \<le> 12" "y \<le> 9999"
  shows "parsePartitionBounds (partition_prefix @ pad_digits 4 y @ ''_'' @ pad_digits 2 m) =
    Some (midnight (days_of (int y) m 1), add_date 1 0 (midnight (days_of (int y) m 1)))"
proof -
  define s where "s = pad_digits 4 y @ ''_'' @ pad_digits 2 m"
  note sh = suffix_month [OF length_pad length_pad s_def]
  have nums: "parse_uint (pad_digits 4 y) 0 9999 = Some y" "parse_uint (pad_digits 2 m) 1 12 = Some m"
    using assms by (simp_all add: parse_uint_pad)
  have "partitionNameRe (partition_prefix @ s)" by (simp add: partitionNameRe_def sh)
  then show ?thesis using nums unfolding s_def [symmetric] by (simp add: parsePartitionBounds_def sh Let_def)
qed

lemma year_str_pad: "0 \<le> y \<Longrightarrow> y \<le> 9999 \<Longrightarrow> year_str y = pad_digits 4 (nat y)"
proof -
  assume "0 \<le> y" "y \<le> 9999"
  then have "nat \<bar>y\<bar> < 10000" "\<not> y < 0" "\<bar>y\<bar> = y" by linarith+
  then show ?thesis by (simp add: year_str_def Let_def)
qed

text \<open>Days.\<close>

lemma day_trunc: "gran_truncate dayPartitionGranularity t = midnight (day_of t)"
proof -
  obtain y m d where date: "date_of (day_of t) = (y, m, d)" by (metis prod.exhaust)
  with date_of_valid [OF date] show ?thesis by (simp add: gran_truncate_def dayPartitionGranularity_def)
qed

lemma day_next: "gran_next dayPartitionGranularity t = t + Day"
  by (simp add: gran_next_def dayPartitionGranularity_def add_days)

lemma month_step: "1 \<le> m \<Longrightarrow> m \<le> 12 \<Longrightarrow> (12 * y + int m) div 12 = y \<or> (12 * y + int m) div 12 = y + 1"
  by (cases "m = 12") (simp_all add: div_pos_pos_trivial)

lemma first_valid:
  assumes "1 \<le> m" "m \<le> 12"
  shows "valid_date y m 1"
  using assms month_len_pos [OF assms, of "nat (y mod 400)"] by (simp add: valid_date_def)

lemma first_of_next:
  assumes "1 \<le> m" "m \<le> 12"
  shows "\<exists>y' m'. date_of (days_of y m 1 + int (months (nat (y mod 400)) ! (m - 1))) = (y', m', 1) \<and> (y' = y \<or> y' = y + 1)"
proof -
  let ?y = "(12 * y + int m) div 12" and ?m = "nat ((12 * y + int m) mod 12) + 1"
  have "(12 * y + int m) mod 12 < 12" by simp
  then have "1 \<le> ?m" "?m \<le> 12" by linarith+
  then have "date_of (days_of ?y ?m 1) = (?y, ?m, 1)" by (intro date_of_days first_valid)
  then show ?thesis using next_month [OF assms, of y] month_step [OF assms, of y] by metis
qed

lemma year_next_day: "fst (date_of n) \<le> fst (date_of (n + 1)) \<and> fst (date_of (n + 1)) \<le> fst (date_of n) + 1"
proof -
  obtain y m d where date: "date_of n = (y, m, d)" by (metis prod.exhaust)
  then have v: "valid_date y m d" "days_of y m d = n" using date_of_valid by blast+
  then have m: "1 \<le> m" "m \<le> 12" "1 \<le> d" by (auto simp: valid_date_def)
  show ?thesis
  proof (cases "valid_date y m (d + 1)")
    case True
    have "days_of y m (d + 1) = n + 1" using days_of_shift [OF m(3), of y m] days_of_shift [of "d + 1" y m] v(2) m(3) by simp
    with date_of_days [OF True] date show ?thesis by simp
  next
    case False
    with v(1) have "d = months (nat (y mod 400)) ! (m - 1)" by (auto simp: valid_date_def)
    then have "n + 1 = days_of y m 1 + int (months (nat (y mod 400)) ! (m - 1))" using days_of_shift [OF m(3), of y m] v(2) m(3) by simp
    with first_of_next [OF m(1,2), of y] date show ?thesis by auto
  qed
qed

interpretation day_blocks: blocks "gran_truncate dayPartitionGranularity" "gran_next dayPartitionGranularity" "partitionName dayPartitionGranularity"
proof
  fix t u :: time
  have nxt: "gran_next dayPartitionGranularity (midnight n) = midnight (n + 1)" for n by (simp add: day_next midnight_def algebra_simps)
  show "gran_truncate dayPartitionGranularity t \<le> t" by (simp add: day_trunc day_bounds)
  show "t < gran_next dayPartitionGranularity (gran_truncate dayPartitionGranularity t)" by (simp add: day_trunc nxt day_bounds)
  show "gran_truncate dayPartitionGranularity u = gran_truncate dayPartitionGranularity t"
    if "gran_truncate dayPartitionGranularity t \<le> u" "u < gran_next dayPartitionGranularity (gran_truncate dayPartitionGranularity t)"
    using that day_between [of "day_of t" u "day_of t + 1"] by (simp add: day_trunc nxt)
  show "gran_truncate dayPartitionGranularity (gran_next dayPartitionGranularity (gran_truncate dayPartitionGranularity t)) =
      gran_next dayPartitionGranularity (gran_truncate dayPartitionGranularity t)" by (simp add: day_trunc nxt)
  show "year_of (gran_truncate dayPartitionGranularity t) \<le> year_of (gran_next dayPartitionGranularity (gran_truncate dayPartitionGranularity t)) \<and>
      year_of (gran_next dayPartitionGranularity (gran_truncate dayPartitionGranularity t)) \<le> year_of (gran_truncate dayPartitionGranularity t) + 1"
    using year_next_day [of "day_of t"] by (simp add: day_trunc nxt year_of_day)
  assume "0 \<le> year_of (gran_truncate dayPartitionGranularity t)" "year_of (gran_truncate dayPartitionGranularity t) \<le> 9999"
  then have y: "0 \<le> fst (date_of (day_of t))" "fst (date_of (day_of t)) \<le> 9999" by (simp_all add: day_trunc year_of_day)
  obtain y m d where date: "date_of (day_of t) = (y, m, d)" by (metis prod.exhaust)
  then have v: "valid_date y m d" "days_of y m d = day_of t" using date_of_valid by blast+
  show "parsePartitionBounds (partitionName dayPartitionGranularity (gran_truncate dayPartitionGranularity t)) =
      Some (gran_truncate dayPartitionGranularity t, gran_next dayPartitionGranularity (gran_truncate dayPartitionGranularity t))"
    using name_day [of "nat y" m d] v y
    by (simp add: partitionName_def day_trunc date year_str_pad day_next add_days, simp add: dayPartitionGranularity_def)
qed

text \<open>Months.\<close>

lemma month_trunc: "date_of (day_of t) = (y, m, d) \<Longrightarrow> gran_truncate monthPartitionGranularity t = midnight (days_of y m 1)"
  by (simp add: gran_truncate_def monthPartitionGranularity_def)

lemma month_next:
  "1 \<le> m \<Longrightarrow> m \<le> 12 \<Longrightarrow> gran_next monthPartitionGranularity (midnight (days_of y m 1)) = midnight (days_of y m 1 + int (months (nat (y mod 400)) ! (m - 1)))"
  using add_month [of m y] by (simp add: gran_next_def monthPartitionGranularity_def)

lemma same_month:
  assumes "1 \<le> m" "m \<le> 12" "days_of y m 1 \<le> n" "n < days_of y m 1 + int (months (nat (y mod 400)) ! (m - 1))"
  shows "\<exists>d. date_of n = (y, m, d)"
proof -
  define d where "d = nat (n - days_of y m 1) + 1"
  have "valid_date y m d" using assms by (auto simp: valid_date_def d_def nat_less_iff Suc_le_eq)
  moreover have "days_of y m d = n" using days_of_shift [of d y m] assms(3) by (simp add: d_def)
  ultimately show ?thesis using date_of_days by blast
qed

interpretation month_blocks: blocks "gran_truncate monthPartitionGranularity" "gran_next monthPartitionGranularity" "partitionName monthPartitionGranularity"
proof
  fix t u :: time
  let ?T = "gran_truncate monthPartitionGranularity" and ?N = "gran_next monthPartitionGranularity"
  obtain y m d where date: "date_of (day_of t) = (y, m, d)" by (metis prod.exhaust)
  then have v: "valid_date y m d" "days_of y m d = day_of t" using date_of_valid by blast+
  then have m: "1 \<le> m" "m \<le> 12" "1 \<le> d" "d \<le> months (nat (y mod 400)) ! (m - 1)" by (auto simp: valid_date_def)
  let ?len = "int (months (nat (y mod 400)) ! (m - 1))"
  note T = month_trunc [OF date] and N = month_next [OF m(1,2), of y]
  have day: "days_of y m 1 \<le> day_of t" "day_of t + 1 \<le> days_of y m 1 + ?len" using days_of_shift [OF m(3), of y m] v(2) m(3,4) by linarith+
  then have "midnight (days_of y m 1) \<le> midnight (day_of t)" "midnight (day_of t + 1) \<le> midnight (days_of y m 1 + ?len)" by simp_all
  then show "?T t \<le> t" "t < ?N (?T t)" unfolding T N using day_bounds [of t] by linarith+
  show "?T u = ?T t" if "?T t \<le> u" "u < ?N (?T t)"
  proof -
    have "days_of y m 1 \<le> day_of u" "day_of u < days_of y m 1 + ?len" using that day_between unfolding T N by blast+
    then obtain d' where "date_of (day_of u) = (y, m, d')" using same_month [OF m(1,2)] by blast
    then show ?thesis using month_trunc T by simp
  qed
  obtain y' m' where nxt: "date_of (days_of y m 1 + ?len) = (y', m', 1)" "y' = y \<or> y' = y + 1" using first_of_next [OF m(1,2)] by blast
  then have "days_of y' m' 1 = days_of y m 1 + ?len" using date_of_valid by blast
  then show "?T (?N (?T t)) = ?N (?T t)" unfolding T N using month_trunc [of "midnight (days_of y m 1 + ?len)"] nxt(1) by simp
  have first: "date_of (days_of y m 1) = (y, m, 1)" using m by (intro date_of_days first_valid)
  then show "year_of (?T t) \<le> year_of (?N (?T t)) \<and> year_of (?N (?T t)) \<le> year_of (?T t) + 1"
    unfolding T N year_of_day day_of_midnight using nxt by auto
  assume "0 \<le> year_of (?T t)" "year_of (?T t) \<le> 9999"
  then have y: "0 \<le> y" "y \<le> 9999" unfolding T year_of_day day_of_midnight first by simp_all
  show "parsePartitionBounds (partitionName monthPartitionGranularity (?T t)) = Some (?T t, ?N (?T t))"
  proof -
    have "partitionName monthPartitionGranularity (?T t) = partition_prefix @ pad_digits 4 (nat y) @ ''_'' @ pad_digits 2 m"
      unfolding partitionName_def T day_of_midnight first using y by (simp add: year_str_pad monthPartitionGranularity_def)
    with name_month [of m "nat y"] m(1,2) y add_month [OF m(1,2), of y] N T show ?thesis by simp
  qed
qed

end
