(* ===== verification/PartitionTheorems.thy ===== *)
theory PartitionTheorems
  imports PartitionCalendar "HOL-Library.Multiset"
begin

text \<open>
  What partitions and retention promise: partitions stay disjoint and named after their bounds, the window ahead is
  covered, the deletion in batches ends, and the clean-up removes the rows that are too old. It removes them by position (\<^verbatim>\<open>ctid\<close>), which
  only a partition makes unique, so it can remove younger rows of other partitions: which ones is stated exactly.
\<close>

section \<open>Well-formed partitions\<close>

definition part_ok :: "partdb \<Rightarrow> bool" where
  "part_ok d \<longleftrightarrow> distinct (map pt_name (pd_parts d)) \<and>
     (\<forall>p \<in> set (pd_parts d). parsePartitionBounds (pt_name p) = Some (pt_from p, pt_to p)) \<and>
     (\<forall>p \<in> set (pd_parts d). \<forall>q \<in> set (pd_parts d). p = q \<or> pt_to p \<le> pt_from q \<or> pt_to q \<le> pt_from p)"

lemma part_ok_rows [simp]: "part_ok (d\<lparr>pd_rows := rs\<rparr>) = part_ok d"
  by (simp add: part_ok_def)

lemma part_ok_create:
  assumes "parsePartitionBounds name = Some (lo, hi)"
  shows "keeps part_ok (create_partition name lo hi)"
  unfolding create_partition_def
proof (rule keeps_stmt)
  fix d x d'
  assume ok: "part_ok d" and run: "(if list_ex (\<lambda>p. pt_name p = name) (pd_parts d) then Inr ((), d)
      else if list_ex (\<lambda>p. lo < pt_to p \<and> pt_from p < hi) (pd_parts d) \<or> list_ex (\<lambda>r. lo \<le> lr_timestamp r \<and> lr_timestamp r < hi) (pd_rows d)
      then Inl SqlErr
      else Inr ((), d\<lparr>pd_parts := pd_parts d @ [\<lparr>pt_name = name, pt_from = lo, pt_to = hi\<rparr>]\<rparr>)) = Inr (x, d')"
  show "part_ok d'"
  proof (cases "list_ex (\<lambda>p. pt_name p = name) (pd_parts d)")
    case False
    with run have d': "d' = d\<lparr>pd_parts := pd_parts d @ [\<lparr>pt_name = name, pt_from = lo, pt_to = hi\<rparr>]\<rparr>"
      and apart: "\<forall>p \<in> set (pd_parts d). \<not> (lo < pt_to p \<and> pt_from p < hi)" by (auto simp: list_ex_iff split: if_splits)
    then have "\<forall>p \<in> set (pd_parts d). pt_to p \<le> lo \<or> hi \<le> pt_from p" by auto
    with ok False assms show ?thesis unfolding part_ok_def d' by (auto simp: list_ex_iff)
  qed (use ok run in auto)
qed

lemma part_ok_drop: "keeps part_ok (drop_partition name)"
  unfolding drop_partition_def by (rule keeps_stmt) (auto simp: part_ok_def distinct_map intro: inj_on_subset, blast)

text \<open>The two granularities are blocks of time.\<close>

definition known_gran :: "partitionGranularity \<Rightarrow> bool" where
  "known_gran g \<longleftrightarrow> g = dayPartitionGranularity \<or> g = monthPartitionGranularity"

lemma gran_blocks: "known_gran g \<Longrightarrow> blocks (gran_truncate g) (gran_next g) (partitionName g)"
  unfolding known_gran_def using day_blocks.blocks_axioms month_blocks.blocks_axioms by blast

lemma covering_known: "known_gran (covering_granularity env now names)"
  by (induction names) (auto simp: known_gran_def configuredPartitionGranularity_def split: option.splits prod.splits)

lemma configured_known: "known_gran (configuredPartitionGranularity env)"
  by (simp add: known_gran_def configuredPartitionGranularity_def)

lemma active_known: "yields known_gran (activePartitionGranularity env now)"
  unfolding activePartitionGranularity_def by (intro yields_intros) (auto simp: covering_known configured_known intro!: yields_ret split: sum.split)

lemma keeps_active: "keeps I (activePartitionGranularity env now)"
  unfolding activePartitionGranularity_def list_partitions_def by (intro keeps_intros)

lemmas gran_facts = blocks.trunc_le [OF gran_blocks] blocks.less_nxt [OF gran_blocks] blocks.overlap_eq [OF gran_blocks] blocks.trunc_trunc [OF gran_blocks]

lemma gran_aligned:
  assumes "known_gran g" "gran_truncate g s = s"
  shows "gran_truncate g (gran_next g s) = gran_next g s" "year_of s \<le> year_of (gran_next g s)" "year_of (gran_next g s) \<le> year_of s + 1" "s < gran_next g s"
    and "0 \<le> year_of s \<Longrightarrow> year_of s \<le> 9999 \<Longrightarrow> parsePartitionBounds (partitionName g s) = Some (s, gran_next g s)"
  using blocks.nxt_aligned [OF gran_blocks [OF assms(1)], of s] blocks.year_nxt [OF gran_blocks [OF assms(1)], of s]
    blocks.less_nxt [OF gran_blocks [OF assms(1)], of s] blocks.name_bounds [OF gran_blocks [OF assms(1)], of s] assms(2) by simp_all

lemma create_ahead_ok:
  assumes "known_gran g" "gran_truncate g s = s" "0 \<le> year_of s" "year_of s + int n \<le> 10000"
  shows "keeps part_ok (create_ahead g n s)"
  using assms(2-)
proof (induction n arbitrary: s)
  case (Suc n)
  note al = gran_aligned [OF assms(1) Suc.prems(1)]
  have "keeps part_ok (create_partition (partitionName g s) s (gran_next g s))" using al(5) Suc.prems by (intro part_ok_create) simp
  moreover have "keeps part_ok (create_ahead g n (gran_next g s))" using al(1,2,3) Suc.prems by (intro Suc.IH) simp_all
  ultimately show ?case by (simp add: keeps_attempt)
qed (simp add: keeps_ret del: ret_ok)

lemma year_trunc: "known_gran g \<Longrightarrow> year_of (gran_truncate g now) = year_of now"
proof -
  obtain y m d where date: "date_of (day_of now) = (y, m, d)" by (metis prod.exhaust)
  then have "valid_date y m d" using date_of_valid by blast
  then have "1 \<le> m" "m \<le> 12" by (simp_all add: valid_date_def)
  then have "date_of (days_of y m 1) = (y, m, 1)" by (intro date_of_days first_valid)
  moreover assume "known_gran g"
  ultimately show ?thesis using month_trunc [OF date] date by (auto simp: known_gran_def day_trunc year_of_day)
qed

lemma createPartitions_ok:
  assumes "0 \<le> year_of now" "year_of now \<le> 9990"
  shows "keeps part_ok (createPartitions env acquired now)"
proof -
  have "keeps part_ok (create_ahead g (Suc (pg_ahead g)) (gran_truncate g now))" if "known_gran g" for g
  proof (rule create_ahead_ok [OF that])
    have "pg_ahead g \<le> 7" using that by (auto simp: known_gran_def dayPartitionGranularity_def monthPartitionGranularity_def)
    then show "year_of (gran_truncate g now) + int (Suc (pg_ahead g)) \<le> 10000" using assms year_trunc [OF that, of now] by simp
  qed (use gran_facts(4) [OF that, of now] year_trunc [OF that, of now] assms in simp_all)
  moreover have nop: "keeps part_ok (stmt (\<lambda>d. Inr (x, d)))" for x :: 'b by (rule keeps_stmt) simp
  ultimately have "keeps part_ok (bind (activePartitionGranularity env now) (\<lambda>g. bind (create_ahead g (Suc (pg_ahead g)) (gran_truncate g now)) (\<lambda>_.
      attempt (stmt (\<lambda>d. Inr ((), d))) (\<lambda>_. ret ()))))"
    by (intro keeps_bind_yields [OF keeps_active active_known] keeps_bind keeps_attempt keeps_ret) (auto intro: keeps_stmt)
  then show ?thesis unfolding createPartitions_def is_partitioned_def
    by (intro keeps_attempt keeps_query keeps_if keeps_ret) (auto intro: keeps_stmt)
qed

section \<open>The deletion in batches\<close>

abbreviation old_rows :: "time \<Rightarrow> int \<Rightarrow> partdb \<Rightarrow> stored_row list" where
  "old_rows now days d \<equiv> filter (too_old now days) (pd_rows d)"

abbreviation young_rows :: "time \<Rightarrow> int \<Rightarrow> partdb \<Rightarrow> stored_row list" where
  "young_rows now days d \<equiv> filter (\<lambda>r. \<not> too_old now days r) (pd_rows d)"

definition old_ctids :: "time \<Rightarrow> int \<Rightarrow> partdb \<Rightarrow> ctid set" where
  "old_ctids now days d = st_ctid ` set (old_rows now days d)"

text \<open>The server may return the rows of a query in any order.\<close>

definition chooses :: "picks \<Rightarrow> bool" where
  "chooses pick \<longleftrightarrow> (\<forall>rs. mset (pick rs) = mset rs)"

lemma batch_progress:
  assumes "chooses pick"
  shows "picked pick now days d \<subseteq> old_ctids now days d"
    and "length (filter (\<lambda>r. st_ctid r \<notin> picked pick now days d) (old_rows now days d)) \<le> length (old_rows now days d) - batchSize"
proof -
  let ?old = "old_rows now days d"
  let ?take = "take batchSize (pick ?old)" and ?at = "\<lambda>r. st_ctid r \<in> picked pick now days d"
  have m: "mset (pick ?old) = mset ?old" using assms by (simp add: chooses_def)
  then have "set (pick ?old) = set ?old" by (rule mset_eq_setD)
  then show "picked pick now days d \<subseteq> old_ctids now days d" unfolding picked_def old_ctids_def by (metis image_mono set_take_subset)
  have "filter ?at ?take = ?take" by (auto simp: filter_id_conv picked_def)
  then have "length ?take \<le> length (filter ?at (pick ?old))"
    by (metis append_take_drop_id filter_append le_add1 length_append)
  also have "\<dots> = length (filter ?at ?old)" using m by (metis mset_filter size_mset)
  finally have "min (length ?old) batchSize \<le> length (filter ?at ?old)" using m by (metis length_take size_mset)
  with sum_length_filter_compl [of ?at ?old] show "length (filter (\<lambda>r. \<not> ?at r) ?old) \<le> length ?old - batchSize" by linarith
qed

lemma batches_ceiling:
  assumes "0 < n"
  shows "(n + 9999) div 10000 = Suc ((n - 10000 + 9999) div (10000 :: nat))"
proof -
  have "n + 9999 = (n - 1) + 10000" using assms by simp
  then have "(n + 9999) div 10000 = Suc ((n - 1) div 10000)" by simp
  moreover have "(n - 1) div 10000 = (n - 10000 + 9999) div 10000"
  proof (cases "10000 \<le> n")
    case True
    then have "n - 1 = n - 10000 + 9999" by simp
    then show ?thesis by (rule arg_cong [where f = "\<lambda>k. k div 10000"])
  next
    case False
    then have "n - 1 < 10000" "n - 10000 = 0" by simp_all
    then show ?thesis by (simp only: div_less)
  qed
  ultimately show ?thesis by simp
qed

lemma batched_stops: "fs \<noteq> [] \<and> hd fs \<Longrightarrow> deleteOldLogsBatched pick now days n0 (d, fs) = Some ((n0, Some SqlErr), d, drop 1 fs)"
  by (subst deleteOldLogsBatched.simps) (simp add: delete_batch_def stmt_def drop_Suc)

abbreviation without :: "ctid set \<Rightarrow> partdb \<Rightarrow> partdb" where
  "without C d \<equiv> d\<lparr>pd_rows := filter (\<lambda>r. st_ctid r \<notin> C) (pd_rows d)\<rparr>"

abbreviation rows_at :: "ctid set \<Rightarrow> partdb \<Rightarrow> int" where
  "rows_at C d \<equiv> int (length (filter (\<lambda>r. st_ctid r \<in> C) (pd_rows d)))"

lemma batched_steps:
  assumes "\<not> (fs \<noteq> [] \<and> hd fs)"
  shows "deleteOldLogsBatched pick now days n0 (d, fs) =
    (let C = picked pick now days d in
     if rows_at C d = 0 then Some ((n0, None), d, drop 1 fs)
     else deleteOldLogsBatched pick now days (n0 + rows_at C d) (without C d, drop 1 fs))"
proof -
  have "delete_batch pick now days (d, fs) = (Inr (rows_at (picked pick now days d) d), without (picked pick now days d) d, drop 1 fs)"
    using assms by (simp add: delete_batch_def stmt_def Let_def drop_Suc)
  moreover have "without C d = d" if "rows_at C d = 0" for C
    using that by (auto simp: filter_empty_conv filter_id_conv [THEN iffD2])
  ultimately show ?thesis by (subst deleteOldLogsBatched.simps) (simp add: Let_def)
qed

lemma length_filter_union:
  "length (filter (\<lambda>r. f r \<in> C) xs) + length (filter (\<lambda>r. f r \<notin> C \<and> f r \<in> D) xs) = length (filter (\<lambda>r. f r \<in> C \<or> f r \<in> D) xs)"
  by (induction xs) auto

lemma batched_delete:
  assumes "chooses pick"
  shows "\<exists>C err k. deleteOldLogsBatched pick now days n0 (d, fs) = Some ((n0 + rows_at C d, err), without C d, drop k fs) \<and>
    C \<subseteq> old_ctids now days d \<and> (err = None \<longrightarrow> C = old_ctids now days d) \<and>
    k \<le> Suc ((length (old_rows now days d) + 9999) div 10000) \<and> (True \<notin> set fs \<longrightarrow> err = None)"
proof (induction "length (old_rows now days d)" arbitrary: d n0 fs rule: less_induct)
  case less
  let ?C = "picked pick now days d" and ?n = "length (old_rows now days d)"
  note progress = batch_progress [OF assms, of now days d]
  show ?case
  proof (cases "fs \<noteq> [] \<and> hd fs")
    case True
    then have "True \<in> set fs" by (cases fs) auto
    moreover have "without {} d = d" by simp
    ultimately show ?thesis using batched_stops [OF True, of pick now days n0 d]
      by (intro exI [of _ "{}"] exI [of _ "Some SqlErr"] exI [of _ 1]) simp
  next
    case False
    note step = batched_steps [OF False, of pick now days n0 d]
    show ?thesis
    proof (cases "rows_at ?C d = 0")
      case True
      have "?n = 0"
      proof (rule ccontr)
        assume "?n \<noteq> 0"
        then have "length (filter (\<lambda>r. st_ctid r \<notin> ?C) (old_rows now days d)) < ?n" using progress(2) unfolding batchSize_def by linarith
        moreover have "filter (\<lambda>r. st_ctid r \<notin> ?C) (old_rows now days d) = old_rows now days d"
          using True by (auto simp: filter_empty_conv filter_id_conv simp del: filter_filter)
        ultimately show False by simp
      qed
      then have "old_ctids now days d = {}" by (simp add: old_ctids_def)
      then show ?thesis using step True by (intro exI [of _ "{}"] exI [of _ None] exI [of _ 1]) simp
    next
      case some: False
      have left: "length (old_rows now days (without ?C d)) \<le> ?n - 10000" using progress(2) by (simp add: batchSize_def conj_commute)
      have "?n \<noteq> 0"
      proof
        assume "?n = 0"
        then have "?C = {}" using progress(1) by (simp add: old_ctids_def)
        with some show False by simp
      qed
      then have "length (old_rows now days (without ?C d)) < ?n" using left by linarith
      from less [OF this, of "n0 + rows_at ?C d" "drop 1 fs"] obtain D err k where
        rec: "deleteOldLogsBatched pick now days (n0 + rows_at ?C d) (without ?C d, drop 1 fs) =
          Some ((n0 + rows_at ?C d + rows_at D (without ?C d), err), without D (without ?C d), drop k (drop 1 fs))"
        and D: "D \<subseteq> old_ctids now days (without ?C d)" "err = None \<longrightarrow> D = old_ctids now days (without ?C d)"
        and k: "k \<le> Suc ((length (old_rows now days (without ?C d)) + 9999) div 10000)"
        and err: "True \<notin> set (drop 1 fs) \<longrightarrow> err = None" by blast
      have sum: "n0 + rows_at ?C d + rows_at D (without ?C d) = n0 + rows_at (?C \<union> D) d"
        using length_filter_union [of st_ctid ?C "pd_rows d" D] by (simp add: conj_commute)
      have rest: "old_ctids now days (without ?C d) = old_ctids now days d - ?C" by (auto simp: old_ctids_def)
      have "without D (without ?C d) = without (?C \<union> D) d" by (simp add: conj_commute)
      moreover have "(length (old_rows now days (without ?C d)) + 9999) div 10000 \<le> (?n - 10000 + 9999) div 10000"
        using left by (intro div_le_mono) simp
      then have "Suc k \<le> Suc ((?n + 9999) div 10000)" using k batches_ceiling [of ?n] \<open>?n \<noteq> 0\<close> by simp
      moreover have "?C \<union> D \<subseteq> old_ctids now days d" "err = None \<longrightarrow> ?C \<union> D = old_ctids now days d" using D progress(1) rest by auto
      moreover have "True \<notin> set fs \<longrightarrow> err = None" using err by (auto dest: in_set_dropD)
      ultimately show ?thesis using step some rec sum by (intro exI [of _ "?C \<union> D"] exI [of _ err] exI [of _ "Suc k"]) (simp add: Let_def)
    qed
  qed
qed


lemma chooses_rev: "chooses rev"
  by (simp add: chooses_def)

text \<open>Two daily partitions with one row each, at the same position: at hour 36, with a retention of a day, the first is too old.\<close>

definition demo_row :: "time \<Rightarrow> stored_row" where
  "demo_row t = \<lparr>lr_id = 1, lr_timestamp = t, lr_hostname = ''fw1'', lr_fromhost_ip = None, lr_app_name = None, lr_process_id = None, lr_msg_id = None,
     lr_severity = ''err'', lr_facility = None, lr_message = ''m'', lr_raw_message = None, lr_parsed_fields = None, lr_matched_parsers = None, st_ctid = (0, 1)\<rparr>"

definition demo_days :: partdb where
  "demo_days = \<lparr>pd_partitioned = True,
     pd_parts = [\<lparr>pt_name = partitionName dayPartitionGranularity 0, pt_from = 0, pt_to = Day\<rparr>,
       \<lparr>pt_name = partitionName dayPartitionGranularity Day, pt_from = Day, pt_to = 2 * Day\<rparr>],
     pd_rows = [demo_row Hour, demo_row (30 * Hour)]\<rparr>"

lemma demo_old [simp]: "too_old (36 * Hour) 1 (demo_row Hour)" "\<not> too_old (36 * Hour) 1 (demo_row (30 * Hour))" "st_ctid (demo_row t) = (0, 1)"
  by (simp_all add: too_old_def demo_row_def Day_def Hour_def Minute_def Second_def)



section \<open>Retention\<close>

text \<open>Dropping the expired partitions touches no young row, whatever fails.\<close>

definition young_kept :: "time \<Rightarrow> int \<Rightarrow> partdb \<Rightarrow> partdb \<Rightarrow> bool" where
  "young_kept now days d0 d \<longleftrightarrow> part_ok d \<and> young_rows now days d = young_rows now days d0 \<and> set (pd_rows d) \<subseteq> set (pd_rows d0)"

lemma drop_young:
  assumes "parsePartitionBounds name = Some (b, e)" "e \<le> now - days * Day"
  shows "keeps (young_kept now days d0) (drop_partition name)"
  unfolding drop_partition_def
proof (rule keeps_stmt)
  fix d d' :: partdb and x
  let ?gone = "\<lambda>r. list_ex (\<lambda>p. pt_name p = name \<and> in_part (lr_timestamp r) p) (pd_parts d)"
  assume I: "young_kept now days d0 d" and "Inr ((), d\<lparr>pd_rows := filter (\<lambda>r. \<not> ?gone r) (pd_rows d), pd_parts := filter (\<lambda>p. pt_name p \<noteq> name) (pd_parts d)\<rparr>) =
    (Inr (x, d') :: sqlerr + unit \<times> partdb)"
  then have d': "d' = d\<lparr>pd_rows := filter (\<lambda>r. \<not> ?gone r) (pd_rows d), pd_parts := filter (\<lambda>p. pt_name p \<noteq> name) (pd_parts d)\<rparr>" by simp
  have ok: "part_ok d" using I by (simp add: young_kept_def)
  have "too_old now days r" if gone: "?gone r" for r
  proof -
    obtain p where p: "p \<in> set (pd_parts d)" "pt_name p = name" "in_part (lr_timestamp r) p" using gone by (auto simp: list_ex_iff)
    then have "pt_to p = e" using ok assms(1) by (auto simp: part_ok_def)
    with p(3) assms(2) show ?thesis by (simp add: in_part_def too_old_def)
  qed
  then have "young_rows now days d' = young_rows now days d" unfolding d' by (auto intro!: filter_cong)
  moreover have "part_ok d'" using ok unfolding d' part_ok_def by (auto simp: distinct_map intro: inj_on_subset)
  ultimately show "young_kept now days d0 d'" using I by (auto simp: young_kept_def d')
qed

lemma drop_expired_young: "keeps (young_kept now days d0) (drop_expired est (now - days * Day) names n0)"
proof (induction names arbitrary: n0)
  case (Cons name names)
  show ?case
  proof (cases "parsePartitionBounds name")
    case None
    then show ?thesis using Cons.IH by simp
  next
    case (Some be)
    obtain b e where be: "be = (b, e)" by (cases be)
    show ?thesis
    proof (cases "e > now - days * Day")
      case False
      then have "e \<le> now - days * Day" by linarith
      then have "keeps (young_kept now days d0) (drop_partition name)" using Some be by (intro drop_young) simp_all
      with False Some be Cons.IH show ?thesis by (auto intro!: keeps_intros split: sum.split)
    qed (use Some be Cons.IH in simp)
  qed
qed (simp add: keeps_ret del: ret_ok)

lemma set_tl: "set (tl xs) \<subseteq> set xs"
  by (cases xs) auto

lemma drop_expired_runs: "\<exists>n d' fs'. drop_expired est cutoff names n0 (d, fs) = (Inr n, d', fs') \<and> set fs' \<subseteq> set fs"
proof (induction names arbitrary: n0 d fs)
  case (Cons name names)
  consider (skip) "\<And>n0 s. drop_expired est cutoff (name # names) n0 s = drop_expired est cutoff names n0 s"
    | (old) b e where "parsePartitionBounds name = Some (b, e)" "\<not> e > cutoff"
  proof (cases "parsePartitionBounds name")
    case (Some be)
    with that show ?thesis by (cases be; cases "snd be > cutoff") simp_all
  qed (use that in simp)
  then show ?case
  proof cases
    case old
    obtain x where x: "query (\<lambda>d. Inr (est name)) (d, fs) = (x, d, tl fs)" by (metis query_run)
    have "\<exists>r d1. drop_partition name (d, tl fs) = (r, d1, tl (tl fs))" by (auto simp: drop_partition_def stmt_def)
    then obtain r d1 where d1: "drop_partition name (d, tl fs) = (r, d1, tl (tl fs))" by blast
    obtain n1 where "drop_expired est cutoff (name # names) n0 (d, fs) = drop_expired est cutoff names n1 (d1, tl (tl fs))"
      using old by (cases r) (auto simp: attempt_def x d1)
    then show ?thesis using Cons.IH [of n1 d1 "tl (tl fs)"] set_tl [of fs] set_tl [of "tl fs"] by (metis subset_trans)
  qed (use Cons.IH in simp)
qed simp

text \<open>The rows that go with a partition when no statement fails.\<close>

definition expired :: "time \<Rightarrow> partdb \<Rightarrow> stored_row \<Rightarrow> bool" where
  "expired cutoff d r \<longleftrightarrow> (\<exists>p \<in> set (pd_parts d). pt_to p \<le> cutoff \<and> in_part (lr_timestamp r) p)"

lemma drop_expired_exact:
  assumes "\<And>p. p \<in> set (pd_parts d) \<Longrightarrow> parsePartitionBounds (pt_name p) = Some (pt_from p, pt_to p)"
  shows "\<exists>n d'. drop_expired est cutoff names n0 (d, []) = (Inr n, d', []) \<and>
    pd_rows d' = filter (\<lambda>r. \<not> (\<exists>p \<in> set (pd_parts d). pt_name p \<in> set names \<and> pt_to p \<le> cutoff \<and> in_part (lr_timestamp r) p)) (pd_rows d)"
  using assms
proof (induction names arbitrary: n0 d)
  case (Cons name names)
  let ?drop = "d\<lparr>pd_rows := filter (\<lambda>r. \<not> list_ex (\<lambda>p. pt_name p = name \<and> in_part (lr_timestamp r) p) (pd_parts d)) (pd_rows d),
       pd_parts := filter (\<lambda>p. pt_name p \<noteq> name) (pd_parts d)\<rparr>"
  show ?case
  proof (cases "\<exists>b e. parsePartitionBounds name = Some (b, e) \<and> e \<le> cutoff")
    case True
    then obtain b e where be: "parsePartitionBounds name = Some (b, e)" "e \<le> cutoff" by blast
    then have hit: "pt_to p \<le> cutoff" if "p \<in> set (pd_parts d)" "pt_name p = name" for p using Cons.prems [OF that(1)] that(2) by simp
    have "\<exists>n1. drop_expired est cutoff (name # names) n0 (d, []) = drop_expired est cutoff names n1 (?drop, [])"
      using be by (auto simp: attempt_def drop_partition_def)
    then obtain n1 where run: "drop_expired est cutoff (name # names) n0 (d, []) = drop_expired est cutoff names n1 (?drop, [])" by blast
    have "(\<exists>p \<in> set (pd_parts d). (pt_name p = name \<or> pt_name p \<in> set names) \<and> pt_to p \<le> cutoff \<and> in_part t p) \<longleftrightarrow>
        (\<exists>p \<in> set (pd_parts d). pt_name p = name \<and> in_part t p) \<or>
        (\<exists>p \<in> set (pd_parts ?drop). pt_name p \<in> set names \<and> pt_to p \<le> cutoff \<and> in_part t p)" for t using hit by auto
    note split = this
    from Cons.IH [of ?drop n1] Cons.prems obtain n d' where d': "drop_expired est cutoff names n1 (?drop, []) = (Inr n, d', [])"
      "pd_rows d' = filter (\<lambda>r. \<not> (\<exists>p \<in> set (pd_parts ?drop). pt_name p \<in> set names \<and> pt_to p \<le> cutoff \<and> in_part (lr_timestamp r) p)) (pd_rows ?drop)" by auto
    have "pd_rows d' = filter (\<lambda>r. \<not> (\<exists>p \<in> set (pd_parts d). (pt_name p = name \<or> pt_name p \<in> set names) \<and> pt_to p \<le> cutoff \<and> in_part (lr_timestamp r) p)) (pd_rows d)"
      unfolding d'(2) split by (simp add: list_ex_iff conj_commute)
    with run d'(1) show ?thesis by simp
  next
    case False
    then have "drop_expired est cutoff (name # names) n0 (d, []) = drop_expired est cutoff names n0 (d, [])" by (auto split: option.split prod.split)
    moreover have "\<not> pt_to p \<le> cutoff" if "p \<in> set (pd_parts d)" "pt_name p = name" for p using False Cons.prems [OF that(1)] that(2) by auto
    then have "(\<exists>p \<in> set (pd_parts d). (pt_name p = name \<or> pt_name p \<in> set names) \<and> pt_to p \<le> cutoff \<and> in_part t p) \<longleftrightarrow>
        (\<exists>p \<in> set (pd_parts d). pt_name p \<in> set names \<and> pt_to p \<le> cutoff \<and> in_part t p)" for t by auto
    ultimately show ?thesis using Cons.IH [of d n0] Cons.prems by simp
  qed
qed auto

lemma bounds_name: "parsePartitionBounds name = Some be \<Longrightarrow> partitionNameRe name"
  by (simp add: parsePartitionBounds_def split: if_splits)

text \<open>The two stages of the clean-up of a partitioned table.\<close>

lemma cleanup_stages:
  assumes "part_ok d" "pd_partitioned d"
  obtains (fail) err fs' where "CleanupOldLogs pick est now days (d, fs) = Some ((0, Some err), d, fs')" "True \<in> set fs"
  | (run) n d1 fs1 where "CleanupOldLogs pick est now days (d, fs) =
        map_option (\<lambda>((deleted, err), s). ((n + deleted, err), s)) (deleteOldLogsBatched pick now days 0 (d1, fs1))"
      "young_kept now days d d1" "set fs1 \<subseteq> set fs" "fs = [] \<Longrightarrow> pd_rows d1 = filter (\<lambda>r. \<not> expired (now - days * Day) d r) (pd_rows d)"
proof -
  let ?cut = "now - days * Day" and ?names = "filter partitionNameRe (map pt_name (pd_parts d))"
  consider "fs \<noteq> [] \<and> hd fs" | "\<not> (fs \<noteq> [] \<and> hd fs)" "tl fs \<noteq> [] \<and> hd (tl fs)" | "\<not> (fs \<noteq> [] \<and> hd fs)" "\<not> (tl fs \<noteq> [] \<and> hd (tl fs))" by blast
  then show thesis
  proof cases
    case 1
    then show thesis using fail [of SqlErr "tl fs"] by (cases fs) (auto simp: CleanupOldLogs_def is_partitioned_def query_def stmt_def)
  next
    case 2
    have "True \<in> set (tl fs)" using 2(2) by (cases "tl fs") auto
    then have "True \<in> set fs" by (cases fs) auto
    then show thesis using fail [of SqlErr "tl (tl fs)"] 2 assms(2)
      by (auto simp: CleanupOldLogs_def is_partitioned_def list_partitions_def query_def stmt_def)
  next
    case 3
    have l: "is_partitioned (d, fs) = (Inr True, d, tl fs)" "list_partitions (d, tl fs) = (Inr ?names, d, tl (tl fs))"
      using 3 assms(2) by (auto simp: is_partitioned_def list_partitions_def query_def stmt_def)
    obtain n d1 fs1 where dr: "drop_expired est ?cut ?names 0 (d, tl (tl fs)) = (Inr n, d1, fs1)" "set fs1 \<subseteq> set (tl (tl fs))"
      using drop_expired_runs by blast
    have "young_kept now days d d" using assms(1) by (simp add: young_kept_def)
    then have k: "young_kept now days d d1" using keepsD [OF drop_expired_young [of now days d est ?names 0], of "(d, tl (tl fs))"] dr(1) by simp
    have bnd: "\<And>p. p \<in> set (pd_parts d) \<Longrightarrow> parsePartitionBounds (pt_name p) = Some (pt_from p, pt_to p)" using assms(1) by (simp add: part_ok_def)
    then have "pt_name p \<in> set ?names" if "p \<in> set (pd_parts d)" for p using that bounds_name by fastforce
    then have all: "(\<exists>p \<in> set (pd_parts d). pt_name p \<in> set ?names \<and> pt_to p \<le> ?cut \<and> in_part t p) \<longleftrightarrow> (\<exists>p \<in> set (pd_parts d). pt_to p \<le> ?cut \<and> in_part t p)" for t by blast
    have exact: "pd_rows d1 = filter (\<lambda>r. \<not> expired ?cut d r) (pd_rows d)" if "fs = []"
    proof -
      have "drop_expired est ?cut ?names 0 (d, []) = (Inr n, d1, fs1)" using dr(1) that by simp
      then show ?thesis using drop_expired_exact [of d est ?cut ?names 0, OF bnd] unfolding all expired_def by auto
    qed
    have "set fs1 \<subseteq> set fs" using dr(2) set_tl [of fs] set_tl [of "tl fs"] by (meson subset_trans)
    then show thesis using l dr(1) k exact by (intro run [of n d1 fs1]) (simp_all add: CleanupOldLogs_def add_days)
  qed
qed

definition safe_rows :: "time \<Rightarrow> int \<Rightarrow> partdb \<Rightarrow> stored_row list \<Rightarrow> stored_row list" where
  "safe_rows now days d rs = filter (\<lambda>r. \<not> too_old now days r \<and> st_ctid r \<notin> old_ctids now days d) rs"

text \<open>The rows that a clean-up without failing statements deletes.\<close>

definition goes :: "time \<Rightarrow> int \<Rightarrow> partdb \<Rightarrow> stored_row \<Rightarrow> bool" where
  "goes now days d r \<longleftrightarrow>
     (let dropped = (\<lambda>o'. pd_partitioned d \<and> expired (now - days * Day) d o')
      in dropped r \<or> (\<exists>o' \<in> set (pd_rows d). too_old now days o' \<and> \<not> dropped o' \<and> st_ctid o' = st_ctid r))"

lemma old_ctids_mono: "set (pd_rows d1) \<subseteq> set (pd_rows d) \<Longrightarrow> old_ctids now days d1 \<subseteq> old_ctids now days d"
  by (auto simp: old_ctids_def)

lemma safe_without:
  assumes "young_kept now days d d1" "C \<subseteq> old_ctids now days d1"
  shows "safe_rows now days d (pd_rows (without C d1)) = safe_rows now days d (pd_rows d)"
proof -
  have "C \<subseteq> old_ctids now days d" using assms old_ctids_mono [of d1 d] by (auto simp: young_kept_def)
  then have "safe_rows now days d (pd_rows (without C d1)) = filter (\<lambda>r. st_ctid r \<notin> old_ctids now days d) (young_rows now days d1)"
    by (auto simp: safe_rows_def intro!: filter_cong)
  also have "\<dots> = filter (\<lambda>r. st_ctid r \<notin> old_ctids now days d) (young_rows now days d)"
    using assms(1) unfolding young_kept_def by (elim conjE) (erule arg_cong)
  also have "\<dots> = safe_rows now days d (pd_rows d)" by (simp add: safe_rows_def)
  finally show ?thesis .
qed

lemma no_old_without: "r \<in> set (pd_rows (without (old_ctids now days d) d)) \<Longrightarrow> \<not> too_old now days r"
  by (auto simp: old_ctids_def)

lemma cleanup_core:
  assumes "part_ok d" "chooses pick"
  obtains n err d1 C fs' where "CleanupOldLogs pick est now days (d, fs) = Some ((n, err), without C d1, fs')" "young_kept now days d d1"
    "C \<subseteq> old_ctids now days d1" "err = None \<Longrightarrow> C = old_ctids now days d1" "True \<notin> set fs \<Longrightarrow> err = None"
    "fs = [] \<Longrightarrow> pd_rows d1 = filter (\<lambda>r. \<not> (pd_partitioned d \<and> expired (now - days * Day) d r)) (pd_rows d)"
proof -
  have refl: "young_kept now days d d" using assms(1) by (simp add: young_kept_def)
  consider (fail) err fs' where "CleanupOldLogs pick est now days (d, fs) = Some ((0, Some err), d, fs')" "True \<in> set fs"
    | (run) n d1 fs1 where "CleanupOldLogs pick est now days (d, fs) =
        map_option (\<lambda>((deleted, err), s). ((n + deleted, err), s)) (deleteOldLogsBatched pick now days 0 (d1, fs1))"
      "young_kept now days d d1" "set fs1 \<subseteq> set fs"
      "fs = [] \<Longrightarrow> pd_rows d1 = filter (\<lambda>r. \<not> (pd_partitioned d \<and> expired (now - days * Day) d r)) (pd_rows d)"
  proof (cases "pd_partitioned d")
    case True
    show ?thesis by (rule cleanup_stages [OF assms(1) True, of pick est now days fs]) (use True in \<open>auto intro: that\<close>)
  next
    case False
    show ?thesis
    proof (cases "fs \<noteq> [] \<and> hd fs")
      case True
      then show ?thesis using fail [of SqlErr "tl fs"] by (cases fs) (auto simp: CleanupOldLogs_def is_partitioned_def query_def stmt_def)
    next
      case ok: False
      then have "is_partitioned (d, fs) = (Inr False, d, tl fs)" using False by (auto simp: is_partitioned_def query_def stmt_def)
      moreover have "map_option (\<lambda>((deleted, err), s). ((0 + deleted, err), s)) x = x" for x :: "((int \<times> sqlerr option) \<times> partdb \<times> bool list) option" by (cases x) auto
      ultimately show ?thesis using refl set_tl [of fs] False by (intro run [of 0 d "tl fs"]) (simp_all add: CleanupOldLogs_def)
    qed
  qed
  then show thesis
  proof cases
    case fail
    then show thesis using refl by (intro that [of 0 "Some err" "{}" d fs']) auto
  next
    case run
    from batched_delete [OF assms(2), of now days 0 d1 fs1] obtain C err k where
      "deleteOldLogsBatched pick now days 0 (d1, fs1) = Some ((0 + rows_at C d1, err), without C d1, drop k fs1)"
      "C \<subseteq> old_ctids now days d1" "err = None \<longrightarrow> C = old_ctids now days d1" "True \<notin> set fs1 \<longrightarrow> err = None" by blast
    with run show thesis by (intro that [of "n + rows_at C d1" err C d1 "drop k fs1"]) auto
  qed
qed

text \<open>
  Retention (C29): the clean-up returns whatever fails and keeps the partitions well-formed. When it reports no error no row older
  than the retention is left. It may delete younger rows too: exactly those at the position of an old row that did not go with its
  partition, in whatever partition they are. A younger row whose position no old row has is kept whatever fails; so when
  positions are unique (in a table that is not partitioned) exactly the old rows go.
\<close>
theorem cleanup_deletes_by_position:
  assumes "part_ok d" "chooses pick"
  shows "\<exists>n err d' fs'. CleanupOldLogs pick est now days (d, fs) = Some ((n, err), d', fs') \<and> part_ok d' \<and> set (pd_rows d') \<subseteq> set (pd_rows d) \<and>
    safe_rows now days d (pd_rows d') = safe_rows now days d (pd_rows d) \<and>
    (err = None \<longrightarrow> (\<forall>r \<in> set (pd_rows d'). \<not> too_old now days r)) \<and>
    (err = None \<and> inj_on st_ctid (set (pd_rows d)) \<longrightarrow> pd_rows d' = young_rows now days d) \<and>
    (fs = [] \<longrightarrow> err = None \<and> pd_rows d' = filter (\<lambda>r. \<not> goes now days d r) (pd_rows d))"
proof -
  obtain n err d1 C fs' where run: "CleanupOldLogs pick est now days (d, fs) = Some ((n, err), without C d1, fs')" and k: "young_kept now days d d1"
    and C: "C \<subseteq> old_ctids now days d1" "err = None \<Longrightarrow> C = old_ctids now days d1" and err: "True \<notin> set fs \<Longrightarrow> err = None"
    and rows: "fs = [] \<Longrightarrow> pd_rows d1 = filter (\<lambda>r. \<not> (pd_partitioned d \<and> expired (now - days * Day) d r)) (pd_rows d)"
    by (rule cleanup_core [OF assms, of est now days fs]) blast
  let ?d = "without C d1"
  have ok: "part_ok ?d" "set (pd_rows ?d) \<subseteq> set (pd_rows d)" using k by (auto simp: young_kept_def)
  have safe: "safe_rows now days d (pd_rows ?d) = safe_rows now days d (pd_rows d)" by (rule safe_without [OF k C(1)])
  have gone: "\<forall>r \<in> set (pd_rows ?d). \<not> too_old now days r" if "err = None"
    unfolding C(2) [OF that] using no_old_without [of _ now days d1] by blast
  have young: "pd_rows ?d = young_rows now days d" if "err = None" "inj_on st_ctid (set (pd_rows d))"
  proof -
    have *: "safe_rows now days d rs = filter (\<lambda>r. \<not> too_old now days r) rs" if "set rs \<subseteq> set (pd_rows d)" for rs
      using that \<open>inj_on st_ctid (set (pd_rows d))\<close> by (auto simp: safe_rows_def old_ctids_def inj_on_def intro!: filter_cong)
    have "filter (\<lambda>r. \<not> too_old now days r) (pd_rows ?d) = pd_rows ?d" using gone [OF that(1)] by (intro filter_True) blast
    with * [OF ok(2)] * [OF order.refl] safe show ?thesis by simp
  qed
  have exact: "pd_rows ?d = filter (\<lambda>r. \<not> goes now days d r) (pd_rows d)" if "fs = []"
  proof -
    have "err = None" using err that by simp
    then have "pd_rows ?d = filter (\<lambda>r. st_ctid r \<notin> old_ctids now days d1) (pd_rows d1)" using C(2) by simp
    moreover have "c \<in> old_ctids now days d1 \<longleftrightarrow>
        (\<exists>o' \<in> set (pd_rows d). too_old now days o' \<and> \<not> (pd_partitioned d \<and> expired (now - days * Day) d o') \<and> st_ctid o' = c)" for c
      by (auto simp: old_ctids_def rows [OF that])
    ultimately show ?thesis unfolding rows [OF that] goes_def Let_def by simp
  qed
  have none: "err = None" if "fs = []" using err that by simp
  show ?thesis
    by (intro exI conjI impI, rule run, rule ok(1), rule ok(2), rule safe, erule gone, (elim conjE, rule young; assumption), erule none, erule exact)
qed
lemma year_1970: "year_of 0 = 1970"
proof -
  have "days_before 370 = 135140" using days_before_formula [of 370] by simp
  then have "days_of 1970 1 1 = epoch_day" by (simp add: days_of_def Let_def epoch_day_def)
  moreover have "date_of (days_of 1970 1 1) = (1970, 1, 1)" by (intro date_of_days first_valid) simp_all
  ultimately show ?thesis by (simp add: year_of_day day_of_def)
qed


lemma demo_days_ok: "part_ok demo_days"
proof -
  have known: "known_gran dayPartitionGranularity" by (simp add: known_gran_def)
  have al: "gran_truncate dayPartitionGranularity 0 = 0" by (simp add: day_trunc midnight_day)
  have n: "gran_next dayPartitionGranularity 0 = Day" "gran_next dayPartitionGranularity Day = 2 * Day" by (simp_all add: day_next)
  note zero = gran_aligned [OF known al, unfolded n]
  note one = gran_aligned [OF known zero(1), unfolded n]
  have "parsePartitionBounds (partitionName dayPartitionGranularity 0) = Some (0, Day)" by (intro zero(5)) (simp_all add: year_1970)
  moreover have "parsePartitionBounds (partitionName dayPartitionGranularity Day) = Some (Day, 2 * Day)" using zero(2,3) by (intro one(5)) (simp_all add: year_1970)
  ultimately show ?thesis by (auto simp: part_ok_def demo_days_def)
qed

theorem cleanup_deletes_by_position_witness:
  "\<exists>n d' fs'. CleanupOldLogs rev (\<lambda>_. 0) (36 * Hour) 1 (demo_days, []) = Some ((n, None), d', fs') \<and> pd_rows d' = [] \<and>
     \<not> too_old (36 * Hour) 1 (demo_row (30 * Hour)) \<and> demo_row (30 * Hour) \<in> set (pd_rows demo_days)"
proof -
  have "\<not> expired (36 * Hour - 1 * Day) demo_days (demo_row t)" for t
    by (simp add: expired_def demo_days_def Day_def Hour_def Minute_def Second_def)
  then have "goes (36 * Hour) 1 demo_days r" if "r \<in> set (pd_rows demo_days)" for r
    using that by (auto simp: goes_def Let_def demo_days_def)
  then have "filter (\<lambda>r. \<not> goes (36 * Hour) 1 demo_days r) (pd_rows demo_days) = []" by (simp add: filter_empty_conv)
  then show ?thesis using cleanup_deletes_by_position [OF demo_days_ok chooses_rev, of "\<lambda>_. 0" "36 * Hour" 1 "[]"] by (auto simp: demo_days_def)
qed

section \<open>The first partitions\<close>

lemma year_mono: "s \<le> t \<Longrightarrow> year_of s \<le> year_of t"
proof -
  have "fst (date_of a) \<le> fst (date_of b)" if "a \<le> b" for a b
    using that by (induction b rule: int_ge_induct) (auto intro: order_trans year_next_day [THEN conjunct1])
  moreover assume "s \<le> t"
  then have "day_of s \<le> day_of t" by (simp add: day_of_def zdiv_mono1)
  ultimately show ?thesis by (simp add: year_of_day)
qed

lemma initial_steps:
  assumes "known_gran g" "gran_truncate g s = s"
  shows "\<exists>ps. initial_partitions g s e = Some ps \<and> sorted_wrt (\<lambda>p q. pt_to p \<le> pt_from q) ps \<and>
    (\<forall>p \<in> set ps. s \<le> pt_from p \<and> pt_from p < e \<and> gran_truncate g (pt_from p) = pt_from p \<and> pt_name p = partitionName g (pt_from p) \<and> pt_to p = gran_next g (pt_from p))"
  using assms(2)
proof (induction "nat (e - s)" arbitrary: s rule: less_induct)
  case less
  note al = gran_aligned [OF assms(1) less.prems]
  show ?case
  proof (cases "s < e")
    case True
    then have "nat (e - gran_next g s) < nat (e - s)" using al(4) by simp
    from less.hyps [OF this al(1)] obtain ps where ps: "initial_partitions g (gran_next g s) e = Some ps" "sorted_wrt (\<lambda>p q. pt_to p \<le> pt_from q) ps"
      "\<forall>p \<in> set ps. gran_next g s \<le> pt_from p \<and> pt_from p < e \<and> gran_truncate g (pt_from p) = pt_from p \<and> pt_name p = partitionName g (pt_from p) \<and> pt_to p = gran_next g (pt_from p)" by blast
    show ?thesis using True ps al(4) less.prems by (subst initial_partitions.simps) auto
  qed (subst initial_partitions.simps, simp)
qed

lemma sorted_parts_ok:
  assumes "sorted_wrt (\<lambda>p q. pt_to p \<le> pt_from q) ps" "\<forall>p \<in> set ps. parsePartitionBounds (pt_name p) = Some (pt_from p, pt_to p) \<and> pt_from p < pt_to p"
  shows "part_ok (d\<lparr>pd_parts := ps\<rparr>)"
  using assms
proof (induction ps)
  case (Cons p ps)
  have "pt_name p \<noteq> pt_name q" if "q \<in> set ps" for q
  proof
    assume "pt_name p = pt_name q"
    with Cons.prems(2) that have "pt_from p = pt_from q" "pt_from p < pt_to p" by force+
    with Cons.prems(1) that show False by auto
  qed
  with Cons show ?case by (auto simp: part_ok_def)
qed (simp add: part_ok_def)

lemma migrate_ok:
  assumes "part_ok d" "0 \<le> year_of (fst (v_min_max now d))" "year_of (snd (v_min_max now d)) \<le> 9990"
  shows "\<exists>d'. migrate_partitions env place now d = Some d' \<and> part_ok d'"
proof (cases "pd_partitioned d")
  case False
  let ?g = "configuredPartitionGranularity env"
  obtain lo hi where v: "v_min_max now d = (lo, hi)" by (cases "v_min_max now d")
  let ?s = "gran_truncate ?g lo" and ?e = "gran_next ?g (gran_truncate ?g hi)"
  note g = configured_known [of env]
  have al: "gran_truncate ?g ?s = ?s" "gran_truncate ?g (gran_truncate ?g hi) = gran_truncate ?g hi" by (simp_all add: gran_facts(4) [OF g])
  obtain ps where ps: "initial_partitions ?g ?s ?e = Some ps" "sorted_wrt (\<lambda>p q. pt_to p \<le> pt_from q) ps"
    "\<And>p. p \<in> set ps \<Longrightarrow> ?s \<le> pt_from p \<and> pt_from p < ?e \<and> gran_truncate ?g (pt_from p) = pt_from p \<and> pt_name p = partitionName ?g (pt_from p) \<and> pt_to p = gran_next ?g (pt_from p)"
    using initial_steps [OF g al(1), of ?e] by blast
  have "year_of ?e \<le> 9999" using gran_aligned(3) [OF g al(2)] year_trunc [OF g, of hi] assms(3) v by simp
  then have "parsePartitionBounds (pt_name p) = Some (pt_from p, pt_to p) \<and> pt_from p < pt_to p" if "p \<in> set ps" for p
    using ps(3) [OF that] year_mono [of ?s "pt_from p"] year_mono [of "pt_from p" ?e] year_trunc [OF g, of lo] assms(2) v gran_aligned(4,5) [OF g, of "pt_from p"] by simp
  with ps(2) have "part_ok (d\<lparr>pd_parts := ps\<rparr>)" by (intro sorted_parts_ok) auto
  then have "part_ok (d\<lparr>pd_partitioned := True, pd_parts := ps, pd_rows := rs\<rparr>)" for rs by (simp add: part_ok_def)
  then show ?thesis using False ps(1) v by (simp add: migrate_partitions_def Let_def)
qed (use assms(1) in \<open>simp add: migrate_partitions_def\<close>)

lemma purge_ok: "keeps part_ok purge_logs"
proof -
  have "keeps part_ok (drop_all names)" for names by (induction names) (simp_all add: keeps_ret keeps_attempt part_ok_drop del: ret_ok)
  moreover have "keeps part_ok (stmt (\<lambda>d. Inr ((), d\<lparr>pd_rows := []\<rparr>)))" by (rule keeps_stmt) auto
  ultimately show ?thesis unfolding purge_logs_def list_partitions_def by (intro keeps_intros)
qed

section \<open>Reachable tables\<close>

text \<open>From a new, not partitioned table: the migration, the maintenance, clean-ups, purges, and rows stored by the ingestion.\<close>

inductive part_reach :: "partdb \<Rightarrow> bool" where
  start: "part_reach \<lparr>pd_partitioned = b, pd_parts = [], pd_rows = rows\<rparr>"
| migrate: "part_reach d \<Longrightarrow> 0 \<le> year_of (fst (v_min_max now d)) \<Longrightarrow> year_of (snd (v_min_max now d)) \<le> 9990 \<Longrightarrow>
    migrate_partitions env place now d = Some d' \<Longrightarrow> part_reach d'"
| create: "part_reach d \<Longrightarrow> 0 \<le> year_of now \<Longrightarrow> year_of now \<le> 9990 \<Longrightarrow> part_reach (fst (snd (createPartitions env acquired now (d, fs))))"
| clean: "part_reach d \<Longrightarrow> chooses pick \<Longrightarrow> CleanupOldLogs pick est now days (d, fs) = Some (r, d', fs') \<Longrightarrow> part_reach d'"
| purge: "part_reach d \<Longrightarrow> part_reach (fst (snd (purge_logs (d, fs))))"
| log: "part_reach d \<Longrightarrow> part_reach (d\<lparr>pd_rows := pd_rows d @ [row]\<rparr>)"

text \<open>
  Partitions (C30): after any sequence of migrations, creations, clean-ups, purges and inserted rows, whatever fails and whoever holds the lock,
  partitions have different names and disjoint ranges, and every name reads as the range of its partition.
\<close>
theorem partitions_invariant:
  assumes "part_reach d"
  shows "part_ok d"
  using assms
proof induction
  case (migrate d now env place d')
  then show ?case using migrate_ok [of d now env place] by auto
next
  case (create d now env acquired fs)
  then show ?case using keepsD [OF createPartitions_ok, of now "(d, fs)"] by simp
next
  case (clean d pick est now days fs r d' fs')
  obtain n err d1 C fs1 where "CleanupOldLogs pick est now days (d, fs) = Some ((n, err), without C d1, fs1)" "young_kept now days d d1"
    by (rule cleanup_core [OF clean.IH clean.hyps(2), of est now days fs]) blast
  with clean.hyps(3) show ?case by (auto simp: young_kept_def)
next
  case (purge d fs)
  then show ?case using keepsD [OF purge_ok, of "(d, fs)"] by simp
qed (auto simp: part_ok_def)

definition demo_parts :: partdb where
  "demo_parts = \<lparr>pd_partitioned = True, pd_parts = [], pd_rows = []\<rparr>"

theorem partitions_invariant_witness:
  "\<exists>d. migrate_partitions [] st_ctid 0 \<lparr>pd_partitioned = False, pd_parts = [], pd_rows = [demo_row Hour]\<rparr> = Some d \<and>
     part_ok (fst (snd (createPartitions [] True 0 (d, []))))"
proof -
  let ?d = "\<lparr>pd_partitioned = False, pd_parts = [], pd_rows = [demo_row Hour]\<rparr>"
  have y: "year_of Hour = 1970" using year_1970 by (simp add: year_of_day day_of_def Hour_def Minute_def Second_def Day_def)
  have v: "v_min_max 0 ?d = (Hour, Hour)" by (simp add: v_min_max_def demo_row_def)
  have "part_ok ?d" by (simp add: part_ok_def)
  with migrate_ok [of ?d 0 "[]" st_ctid] obtain d where d: "migrate_partitions [] st_ctid 0 ?d = Some d" by (auto simp: v y)
  have "part_reach d" by (rule part_reach.migrate [OF part_reach.start _ _ d]) (simp_all add: v y)
  then have "part_reach (fst (snd (createPartitions [] True 0 (d, []))))" by (intro part_reach.create) (simp_all add: year_1970)
  with d show ?thesis using partitions_invariant by blast
qed

section \<open>The window ahead\<close>

definition same_gran :: "partitionGranularity \<Rightarrow> partition \<Rightarrow> bool" where
  "same_gran g p \<longleftrightarrow> gran_truncate g (pt_from p) = pt_from p \<and> pt_to p = gran_next g (pt_from p)"

definition ready :: "partitionGranularity \<Rightarrow> time \<Rightarrow> time \<Rightarrow> partdb \<Rightarrow> bool" where
  "ready g lo hi d \<longleftrightarrow> part_ok d \<and> (\<forall>p \<in> set (pd_parts d). same_gran g p) \<and>
     (\<forall>r \<in> set (pd_rows d). lo \<le> lr_timestamp r \<and> lr_timestamp r < hi \<longrightarrow> (\<exists>p \<in> set (pd_parts d). in_part (lr_timestamp r) p))"

lemma create_one:
  assumes "known_gran g" "gran_truncate g s = s" "0 \<le> year_of s" "year_of s \<le> 9999" "ready g lo hi d" "lo \<le> s" "gran_next g s \<le> hi"
  obtains r d' where "create_partition (partitionName g s) s (gran_next g s) (d, []) = (r, d', [])" "ready g lo hi d'" "set (pd_parts d) \<subseteq> set (pd_parts d')"
    "\<exists>p \<in> set (pd_parts d'). pt_from p = s \<and> pt_to p = gran_next g s"
proof -
  note al = gran_aligned [OF assms(1,2)]
  let ?n = "partitionName g s" and ?e = "gran_next g s"
  have bounds: "parsePartitionBounds ?n = Some (s, ?e)" using al(5) assms(3,4) by simp
  have ok: "part_ok d" and gran: "\<And>p. p \<in> set (pd_parts d) \<Longrightarrow> same_gran g p"
    and rows: "\<And>r. r \<in> set (pd_rows d) \<Longrightarrow> lo \<le> lr_timestamp r \<Longrightarrow> lr_timestamp r < hi \<Longrightarrow> \<exists>p \<in> set (pd_parts d). in_part (lr_timestamp r) p"
    using assms(5) by (auto simp: ready_def)
  have hit: "pt_from p = s \<and> pt_to p = ?e" if "p \<in> set (pd_parts d)" "s < pt_to p" "pt_from p < ?e" for p
  proof -
    have "gran_truncate g (pt_from p) = pt_from p" "pt_to p = gran_next g (pt_from p)" using gran [OF that(1)] by (auto simp: same_gran_def)
    then show ?thesis using blocks.overlap_eq [OF gran_blocks [OF assms(1)], of "pt_from p" s] assms(2) that(2,3) by auto
  qed
  consider (exists) p where "p \<in> set (pd_parts d)" "pt_name p = ?n" | (overlap) p where "p \<in> set (pd_parts d)" "s < pt_to p" "pt_from p < ?e" "\<not> list_ex (\<lambda>p. pt_name p = ?n) (pd_parts d)"
    | (free) "\<not> list_ex (\<lambda>p. pt_name p = ?n) (pd_parts d)" "\<not> list_ex (\<lambda>p. s < pt_to p \<and> pt_from p < ?e) (pd_parts d)" by (auto simp: list_ex_iff)
  then show thesis
  proof cases
    case exists
    then have "Some (pt_from p, pt_to p) = Some (s, ?e)" using ok bounds unfolding part_ok_def by metis
    then have "pt_from p = s \<and> pt_to p = ?e" by simp
    moreover have "list_ex (\<lambda>p. pt_name p = ?n) (pd_parts d)" using exists by (auto simp: list_ex_iff)
    ultimately show thesis using that [of "Inr ()" d] assms(5) exists(1) by (auto simp: create_partition_def)
  next
    case overlap
    then have "list_ex (\<lambda>p. s < pt_to p \<and> pt_from p < ?e) (pd_parts d)" by (auto simp: list_ex_iff)
    with overlap show thesis using that [of "Inl SqlErr" d] assms(5) hit [OF overlap(1-3)] by (auto simp: create_partition_def)
  next
    case free
    let ?p = "\<lparr>pt_name = ?n, pt_from = s, pt_to = ?e\<rparr>"
    have "\<not> list_ex (\<lambda>r. s \<le> lr_timestamp r \<and> lr_timestamp r < ?e) (pd_rows d)"
    proof
      assume "list_ex (\<lambda>r. s \<le> lr_timestamp r \<and> lr_timestamp r < ?e) (pd_rows d)"
      then obtain r where r: "r \<in> set (pd_rows d)" "s \<le> lr_timestamp r" "lr_timestamp r < ?e" by (auto simp: list_ex_iff)
      then obtain p where "p \<in> set (pd_parts d)" "in_part (lr_timestamp r) p" using rows [of r] assms(6,7) by auto
      with r free(2) show False by (auto simp: list_ex_iff in_part_def)
    qed
    then have run: "create_partition ?n s ?e (d, []) = (Inr (), d\<lparr>pd_parts := pd_parts d @ [?p]\<rparr>, [])" using free by (simp add: create_partition_def)
    have "part_ok (d\<lparr>pd_parts := pd_parts d @ [?p]\<rparr>)" using keepsD [OF part_ok_create [OF bounds], of "(d, [])"] run ok by simp
    moreover have "same_gran g ?p" using assms(2) by (simp add: same_gran_def)
    ultimately have "ready g lo hi (d\<lparr>pd_parts := pd_parts d @ [?p]\<rparr>)" using gran rows by (auto simp: ready_def)
    with run show thesis by (intro that) auto
  qed
qed

lemma ahead_covers:
  assumes "known_gran g" "gran_truncate g s = s" "0 \<le> year_of s" "year_of s + int n \<le> 10000" "ready g lo hi d" "lo \<le> s" "(gran_next g ^^ n) s \<le> hi"
  shows "\<exists>d'. create_ahead g n s (d, []) = (Inr (), d', []) \<and> set (pd_parts d) \<subseteq> set (pd_parts d') \<and>
    (\<forall>t. s \<le> t \<and> t < (gran_next g ^^ n) s \<longrightarrow> (\<exists>p \<in> set (pd_parts d'). in_part t p))"
  using assms(2-)
proof (induction n arbitrary: s d)
  case (Suc n)
  note al = gran_aligned [OF assms(1) Suc.prems(1)]
  have mono: "u \<le> (gran_next g ^^ k) u" if "gran_truncate g u = u" for u k
    using that
  proof (induction k arbitrary: u)
    case (Suc k)
    from Suc.IH [OF gran_aligned(1) [OF assms(1) Suc.prems]] gran_aligned(4) [OF assms(1) Suc.prems] show ?case
      by (simp add: funpow_swap1)
  qed simp
  have shift: "(gran_next g ^^ Suc n) s = (gran_next g ^^ n) (gran_next g s)" by (simp add: funpow_swap1)
  have "gran_next g s \<le> hi" using mono [OF al(1), of n] Suc.prems(6) shift by simp
  with Suc.prems obtain r d1 where c: "create_partition (partitionName g s) s (gran_next g s) (d, []) = (r, d1, [])" "ready g lo hi d1"
    "set (pd_parts d) \<subseteq> set (pd_parts d1)" "\<exists>p \<in> set (pd_parts d1). pt_from p = s \<and> pt_to p = gran_next g s"
    by (elim create_one [OF assms(1), of s lo hi d]) auto
  have "\<exists>d'. create_ahead g n (gran_next g s) (d1, []) = (Inr (), d', []) \<and> set (pd_parts d1) \<subseteq> set (pd_parts d') \<and>
      (\<forall>t. gran_next g s \<le> t \<and> t < (gran_next g ^^ n) (gran_next g s) \<longrightarrow> (\<exists>p \<in> set (pd_parts d'). in_part t p))"
    using al c(2) Suc.prems shift by (intro Suc.IH) simp_all
  then obtain d' where d': "create_ahead g n (gran_next g s) (d1, []) = (Inr (), d', [])" "set (pd_parts d1) \<subseteq> set (pd_parts d')"
    "\<And>t. gran_next g s \<le> t \<Longrightarrow> t < (gran_next g ^^ n) (gran_next g s) \<Longrightarrow> \<exists>p \<in> set (pd_parts d'). in_part t p" by blast
  have "\<exists>p \<in> set (pd_parts d'). in_part t p" if "s \<le> t" "t < (gran_next g ^^ Suc n) s" for t
  proof (cases "t < gran_next g s")
    case True
    with that c(4) d'(2) show ?thesis by (auto simp: in_part_def)
  next
    case False
    with that shift show ?thesis by (intro d'(3)) simp_all
  qed
  then show ?case using c(1,3) d'(1,2) by (auto simp: attempt_def)
qed auto

definition gran_in_use :: "string \<Rightarrow> time \<Rightarrow> partdb \<Rightarrow> partitionGranularity" where
  "gran_in_use env now d = covering_granularity env now (filter partitionNameRe (map pt_name (pd_parts d)))"

text \<open>
  The window ahead: when the maintenance got the lock and no statement failed, every instant from the beginning of the
  current day (month) to the end of the seventh (third) after it lies in a partition, provided the existing partitions
  are of the granularity in use and no row of that time sits in the default partition.
\<close>
theorem window_ahead_is_covered:
  assumes "pd_partitioned d" "0 \<le> year_of now" "year_of now \<le> 9990"
    and "ready (gran_in_use env now d) (gran_truncate (gran_in_use env now d) now)
      ((gran_next (gran_in_use env now d) ^^ Suc (pg_ahead (gran_in_use env now d))) (gran_truncate (gran_in_use env now d) now)) d"
    and "gran_truncate (gran_in_use env now d) now \<le> t"
    and "t < (gran_next (gran_in_use env now d) ^^ Suc (pg_ahead (gran_in_use env now d))) (gran_truncate (gran_in_use env now d) now)"
  shows "\<exists>p \<in> set (pd_parts (fst (snd (createPartitions env True now (d, []))))). in_part t p"
proof -
  define g where "g = gran_in_use env now d"
  have g: "known_gran g" using covering_known by (simp add: g_def gran_in_use_def)
  have "pg_ahead g \<le> 7" using g by (auto simp: known_gran_def dayPartitionGranularity_def monthPartitionGranularity_def)
  then have years: "0 \<le> year_of (gran_truncate g now)" "year_of (gran_truncate g now) + int (Suc (pg_ahead g)) \<le> 10000"
    using year_trunc [OF g, of now] assms(2,3) by simp_all
  from ahead_covers [OF g gran_facts(4) [OF g] years assms(4) [folded g_def] order.refl order.refl]
  obtain d' where d': "create_ahead g (Suc (pg_ahead g)) (gran_truncate g now) (d, []) = (Inr (), d', [])"
    and cov: "\<And>t. gran_truncate g now \<le> t \<Longrightarrow> t < (gran_next g ^^ Suc (pg_ahead g)) (gran_truncate g now) \<Longrightarrow> \<exists>p \<in> set (pd_parts d'). in_part t p" by blast
  have "activePartitionGranularity env now (d, []) = (Inr g, d, [])"
    by (simp add: activePartitionGranularity_def list_partitions_def attempt_def g_def gran_in_use_def)
  then have "createPartitions env True now (d, []) = (Inr (), d', [])"
    using d' assms(1) by (simp add: createPartitions_def is_partitioned_def attempt_def bind_def del: create_ahead.simps)
  with cov [of t] assms(5,6) show ?thesis by (simp add: g_def)
qed

theorem window_ahead_is_covered_witness:
  "\<exists>p \<in> set (pd_parts (fst (snd (createPartitions [] True 0 (demo_parts, []))))). in_part (6 * Day) p"
proof (rule window_ahead_is_covered)
  have g: "gran_in_use [] 0 demo_parts = dayPartitionGranularity"
    by (simp add: gran_in_use_def demo_parts_def configuredPartitionGranularity_def trim_space_def to_lower_def)
  have t: "gran_truncate dayPartitionGranularity 0 = 0" by (simp add: day_trunc midnight_day)
  have n: "(gran_next dayPartitionGranularity ^^ Suc (pg_ahead dayPartitionGranularity)) 0 = 8 * Day"
    by (simp add: dayPartitionGranularity_def [THEN arg_cong [where f = pg_ahead]] day_next numeral_eq_Suc algebra_simps)
  note y = year_1970
  show "pd_partitioned demo_parts" by (simp add: demo_parts_def)
  show "0 \<le> year_of 0" "year_of 0 \<le> 9990" by (simp_all add: y)
  show "ready (gran_in_use [] 0 demo_parts) (gran_truncate (gran_in_use [] 0 demo_parts) 0)
      ((gran_next (gran_in_use [] 0 demo_parts) ^^ Suc (pg_ahead (gran_in_use [] 0 demo_parts))) (gran_truncate (gran_in_use [] 0 demo_parts) 0)) demo_parts"
    by (simp add: ready_def part_ok_def demo_parts_def)
  show "gran_truncate (gran_in_use [] 0 demo_parts) 0 \<le> 6 * Day" unfolding g t by simp
  show "6 * Day < (gran_next (gran_in_use [] 0 demo_parts) ^^ Suc (pg_ahead (gran_in_use [] 0 demo_parts))) (gran_truncate (gran_in_use [] 0 demo_parts) 0)"
    unfolding g t n using Day_pos(1) by linarith
qed

end
