(* ===== verification/Secrets.thy ===== *)
theory Secrets
  imports AuthDB
begin

text \<open>
  Secrets at rest, \<^verbatim>\<open>util/crypt.go\<close>, the settings of \<^verbatim>\<open>db/db.go\<close> that hold some, and where the process takes its own
  secrets from (\<^verbatim>\<open>util/secret.go\<close>). AES-GCM and SHA-256 are arguments with their documented laws. Random nonces are arguments too;
  \<^const>\<open>None\<close> is a random source that fails.
\<close>

section \<open>Hexadecimal texts\<close>

fun hex_encode :: "string \<Rightarrow> string" where
  "hex_encode [] = []"
| "hex_encode (c # cs) = hex_digit (of_char c div 16) # hex_digit (of_char c mod 16) # hex_encode cs"

definition hex_val :: "char \<Rightarrow> nat option" where
  "hex_val c =
     (let n = (of_char c :: nat) in
      if 48 \<le> n \<and> n \<le> 57 then Some (n - 48)
      else if 97 \<le> n \<and> n \<le> 102 then Some (n - 87)
      else if 65 \<le> n \<and> n \<le> 70 then Some (n - 55) else None)"

fun hex_decode :: "string \<Rightarrow> string option" where
  "hex_decode [] = Some []"
| "hex_decode [a] = None"
| "hex_decode (a # b # cs) =
     (case (hex_val a, hex_val b, hex_decode cs) of
        (Some x, Some y, Some r) \<Rightarrow> Some (char_of (16 * x + y) # r)
      | _ \<Rightarrow> None)"

lemma hex_val_digit [simp]: "n < 16 \<Longrightarrow> hex_val (hex_digit n) = Some n"
  by (auto simp: hex_val_def hex_digit_def Let_def)

lemma byte_lt [simp]: "of_char c div (16 :: nat) < 16"
  using nat_of_char_less_256 [of c] by linarith

lemma hex_round_trip [simp]: "hex_decode (hex_encode s) = Some s"
  by (induction s) simp_all

section \<open>Encryption\<close>

record aead =
  gcm_seal :: "string \<Rightarrow> string \<Rightarrow> string \<Rightarrow> string"
  gcm_open :: "string \<Rightarrow> string \<Rightarrow> string \<Rightarrow> string option"
  sha256_sum :: "string \<Rightarrow> string"

definition nonceSize :: nat where "nonceSize = 12"

text \<open>What AES-GCM promises: the key and the nonce that sealed a text open it again.\<close>

definition aead_laws :: "aead \<Rightarrow> bool" where
  "aead_laws A \<longleftrightarrow> (\<forall>k n p. length n = nonceSize \<longrightarrow> gcm_open A k n (gcm_seal A k n p) = Some p)"

record keyring =
  encryptKeyPrimary :: string
  encryptKeySecondary :: string

definition SetEncryptionKey :: "string \<Rightarrow> keyring \<Rightarrow> keyring" where
  "SetEncryptionKey key K = K\<lparr>encryptKeyPrimary := key\<rparr>"

definition RotateEncryptionKey :: "string \<Rightarrow> keyring \<Rightarrow> keyring" where
  "RotateEncryptionKey newKey K = K\<lparr>encryptKeySecondary := encryptKeyPrimary K, encryptKeyPrimary := newKey\<rparr>"

definition ClearSecondaryEncryptionKey :: "keyring \<Rightarrow> keyring" where
  "ClearSecondaryEncryptionKey K = K\<lparr>encryptKeySecondary := []\<rparr>"

definition HasSecondaryKey :: "keyring \<Rightarrow> bool" where
  "HasSecondaryKey K \<longleftrightarrow> encryptKeySecondary K \<noteq> []"

definition deriveKey :: "aead \<Rightarrow> string \<Rightarrow> string" where
  "deriveKey A key = sha256_sum A key"

definition Encrypt :: "aead \<Rightarrow> keyring \<Rightarrow> string option \<Rightarrow> string \<Rightarrow> string option" where
  "Encrypt A K nonce plaintext =
     map_option (\<lambda>n. hex_encode (n @ gcm_seal A (deriveKey A (encryptKeyPrimary K)) n plaintext)) nonce"

definition decryptWithKey :: "aead \<Rightarrow> string \<Rightarrow> string \<Rightarrow> string option" where
  "decryptWithKey A key ciphertext =
     (case hex_decode ciphertext of
        None \<Rightarrow> None
      | Some cipherBytes \<Rightarrow>
          (if length cipherBytes < nonceSize then None
           else gcm_open A (deriveKey A key) (take nonceSize cipherBytes) (drop nonceSize cipherBytes)))"

definition Decrypt :: "aead \<Rightarrow> keyring \<Rightarrow> string \<Rightarrow> string option" where
  "Decrypt A K ciphertext =
     (case decryptWithKey A (encryptKeyPrimary K) ciphertext of
        Some result \<Rightarrow> Some result
      | None \<Rightarrow> (if encryptKeySecondary K \<noteq> [] then decryptWithKey A (encryptKeySecondary K) ciphertext else None))"

definition DecryptWithPrimaryOnly :: "aead \<Rightarrow> keyring \<Rightarrow> string \<Rightarrow> string option" where
  "DecryptWithPrimaryOnly A K ciphertext = decryptWithKey A (encryptKeyPrimary K) ciphertext"

section \<open>The tables that hold secrets\<close>

text \<open>\<open>sd_channels\<close>: identifier and secret of each row of \<^verbatim>\<open>notification_channels\<close>.\<close>

record secretdb =
  sd_channels :: "(int \<times> string option) list"
  sd_settings :: "(string \<times> string) list"
  sd_audit :: "audit_row list"

definition secret_setting :: "string \<Rightarrow> bool" where
  "secret_setting key \<longleftrightarrow> key = ''ldap_bind_password'' \<or> key = ''smtp_password''"

definition GetSetting :: "aead \<Rightarrow> keyring \<Rightarrow> string \<Rightarrow> string \<Rightarrow> ('a secretdb_scheme, string) sql" where
  "GetSetting A K key defaultValue =
     attempt (query (\<lambda>d. case map_of (sd_settings d) key of None \<Rightarrow> Inl NoRows | Some v \<Rightarrow> Inr v)) (\<lambda>r. case r of
       Inl err \<Rightarrow> ret defaultValue
     | Inr val \<Rightarrow>
         (if secret_setting key \<and> val \<noteq> [] then
            (case Decrypt A K val of Some decrypted \<Rightarrow> ret decrypted | None \<Rightarrow> ret val)
          else ret val))"

text \<open>The upsert; the key column holds up to 100 characters.\<close>

definition put_setting :: "string \<Rightarrow> string \<Rightarrow> (string \<times> string) list \<Rightarrow> (string \<times> string) list" where
  "put_setting key value kvs =
     (if key \<in> fst ` set kvs then map (\<lambda>(k, v). if k = key then (k, value) else (k, v)) kvs else kvs @ [(key, value)])"

definition UpdateSetting :: "aead \<Rightarrow> keyring \<Rightarrow> string option \<Rightarrow> string \<Rightarrow> string \<Rightarrow> ('a secretdb_scheme, unit) sql" where
  "UpdateSetting A K nonce key value =
     (let stored = (if secret_setting key \<and> value \<noteq> [] then
                      (case Encrypt A K nonce value of Some encrypted \<Rightarrow> encrypted | None \<Rightarrow> value)
                    else value) in
      stmt (\<lambda>d. if length key > 100 then Inl SqlErr else Inr ((), d\<lparr>sd_settings := put_setting key stored (sd_settings d)\<rparr>)))"

definition getSettingRaw :: "string \<Rightarrow> ('a secretdb_scheme, string) sql" where
  "getSettingRaw key =
     attempt (query (\<lambda>d. case map_of (sd_settings d) key of None \<Rightarrow> Inl NoRows | Some v \<Rightarrow> Inr v)) (\<lambda>r. case r of
       Inl err \<Rightarrow> ret [] | Inr v \<Rightarrow> ret v)"

definition secret_audit :: "int \<Rightarrow> string \<Rightarrow> string \<Rightarrow> string \<Rightarrow> string \<Rightarrow> ('a secretdb_scheme, unit) sql" where
  "secret_audit i name action ip details =
     attempt (stmt (\<lambda>d. Inr ((), d\<lparr>sd_audit := sd_audit d @ [\<lparr>au_UserID = i, au_Username = name, au_Action = action, au_IP = ip, au_Details = details\<rparr>]\<rparr>)))
       (\<lambda>_. ret ())"

section \<open>Encrypting everything anew\<close>

text \<open>One loop over rows: how many were sealed with the primary key, and how many failed. \<open>rnd\<close> gives a nonce per row.\<close>

fun reencrypt_rows ::
  "aead \<Rightarrow> keyring \<Rightarrow> ('k \<Rightarrow> string \<Rightarrow> ('d, unit) sql) \<Rightarrow> (nat \<Rightarrow> string option) \<Rightarrow> ('k \<times> string) list \<Rightarrow> nat \<times> nat \<Rightarrow> ('d, nat \<times> nat) sql" where
  "reencrypt_rows A K upd rnd [] (good, bad) = ret (good, bad)"
| "reencrypt_rows A K upd rnd ((i, secret) # rows) (good, bad) =
     (case Decrypt A K secret of
        None \<Rightarrow> reencrypt_rows A K upd rnd rows (good, bad + 1)
      | Some decrypted \<Rightarrow>
          (case Encrypt A K (rnd (length rows)) decrypted of
             None \<Rightarrow> reencrypt_rows A K upd rnd rows (good, bad + 1)
           | Some encrypted \<Rightarrow>
               attempt (upd i encrypted) (\<lambda>r. case r of
                 Inl err \<Rightarrow> reencrypt_rows A K upd rnd rows (good, bad + 1)
               | Inr _ \<Rightarrow>
                   (if DecryptWithPrimaryOnly A K encrypted = None then reencrypt_rows A K upd rnd rows (good, bad + 1)
                    else reencrypt_rows A K upd rnd rows (good + 1, bad)))))"

definition set_channel_secret :: "int \<Rightarrow> string \<Rightarrow> ('a secretdb_scheme, unit) sql" where
  "set_channel_secret i secret =
     stmt (\<lambda>d. Inr ((), d\<lparr>sd_channels := map (\<lambda>(j, s). if j = i then (j, Some secret) else (j, s)) (sd_channels d)\<rparr>))"

definition set_setting_value :: "string \<Rightarrow> string \<Rightarrow> ('a secretdb_scheme, unit) sql" where
  "set_setting_value key value =
     stmt (\<lambda>d. Inr ((), d\<lparr>sd_settings := map (\<lambda>(k, v). if k = key then (k, value) else (k, v)) (sd_settings d)\<rparr>))"

definition channel_secrets :: "('a secretdb_scheme, (int \<times> string) list) sql" where
  "channel_secrets = query (\<lambda>d. Inr (List.map_filter (\<lambda>(i, s). case s of None \<Rightarrow> None | Some v \<Rightarrow> if v = [] then None else Some (i, v)) (sd_channels d)))"

definition setting_secrets :: "('a secretdb_scheme, (string \<times> string) list) sql" where
  "setting_secrets = query (\<lambda>d. Inr (filter (\<lambda>(k, v). secret_setting k \<and> v \<noteq> []) (sd_settings d)))"

text \<open>The counts, and the error beside them.\<close>

definition ReencryptAllSecrets ::
  "aead \<Rightarrow> keyring \<Rightarrow> (nat \<Rightarrow> string option) \<Rightarrow> (nat \<Rightarrow> string option) \<Rightarrow> ('a secretdb_scheme, (nat \<times> nat) \<times> string option) sql" where
  "ReencryptAllSecrets A K rndC rndS =
     attempt channel_secrets (\<lambda>r. case r of
       Inl err \<Rightarrow> ret ((0, 0), Some ''query'')
     | Inr rows \<Rightarrow>
         bind (reencrypt_rows A K set_channel_secret rndC rows (0, 0)) (\<lambda>(good, channelErrs).
         attempt setting_secrets (\<lambda>r. case r of
           Inl err \<Rightarrow> ret ((good, channelErrs), Some ''query'')
         | Inr settings \<Rightarrow>
             bind (reencrypt_rows A K set_setting_value rndS settings (good, channelErrs)) (\<lambda>(good, totalFailed).
               ret ((good, totalFailed), if totalFailed > 0 then Some ''some secrets failed re-encryption'' else None)))))"

section \<open>The secrets of the process\<close>

definition vaultSecretNames :: "(string \<times> string) list" where
  "vaultSecretNames =
     [(''JWT_SECRET'', ''jwt_secret''), (''ENCRYPTION_KEY'', ''encryption_key''), (''TOKEN_HASH_KEY'', ''token_hash_key''),
      (''MAINTENANCE_TOKEN'', ''maintenance_token''), (''JWT_PRIVATE_KEY'', ''jwt_private_key''), (''REDIS_PASSWORD'', ''redis_password'')]"

text \<open>\<open>vault\<close>: what \<^verbatim>\<open>GetSecret\<close> of the vault client gives; \<open>file\<close>: the contents of a file that can be read.\<close>

record sources =
  so_vault :: "string \<Rightarrow> string option"
  so_env :: "string \<Rightarrow> string"
  so_file :: "string \<Rightarrow> string option"

definition SecretFromEnv :: "sources \<Rightarrow> string \<Rightarrow> string" where
  "SecretFromEnv S name =
     (let v = (case map_of vaultSecretNames name of None \<Rightarrow> [] | Some vaultName \<Rightarrow> (case so_vault S vaultName of None \<Rightarrow> [] | Some v \<Rightarrow> v)) in
      if v \<noteq> [] then v
      else (let e = trim_space (so_env S name) in
        if e \<noteq> [] then e
        else (let p = trim_space (so_env S (name @ ''_FILE'')) in
          if p = [] then [] else (case so_file S p of None \<Rightarrow> [] | Some b \<Rightarrow> trim_space b))))"

text \<open>Percent-encoding of \<^verbatim>\<open>net/url\<close>; \<open>keep\<close>: the reserved characters its mode leaves alone.\<close>

definition url_plain :: "string \<Rightarrow> char \<Rightarrow> bool" where
  "url_plain keep c \<longleftrightarrow>
     (let n = (of_char c :: nat) in 48 \<le> n \<and> n \<le> 57 \<or> 65 \<le> n \<and> n \<le> 90 \<or> 97 \<le> n \<and> n \<le> 122) \<or> c \<in> set ''-_.~'' \<or> c \<in> set keep"

definition upper_hex :: "nat \<Rightarrow> char" where
  "upper_hex n = (if n < 10 then char_of (48 + n) else char_of (55 + n))"

definition url_escape :: "string \<Rightarrow> string \<Rightarrow> string" where
  "url_escape keep s = concat (map (\<lambda>c. if url_plain keep c then [c] else [CHR ''%'', upper_hex (of_char c div 16), upper_hex (of_char c mod 16)]) s)"

definition host_keep :: string where
  "host_keep = ''!$&()*+,;=:[]<>'' @ [CHR 0x27, CHR 0x22]"

definition env_or :: "sources \<Rightarrow> string \<Rightarrow> string \<Rightarrow> string" where
  "env_or S name def = (let v = trim_space (so_env S name) in if v = [] then def else v)"

definition ResolveDatabaseURL :: "sources \<Rightarrow> string" where
  "ResolveDatabaseURL S =
     (let dsn = SecretFromEnv S ''DATABASE_URL''; host = trim_space (so_env S ''POSTGRES_HOST'') in
      if dsn \<noteq> [] then dsn
      else if host = [] then []
      else ''postgres://'' @ url_escape ''$&+,;='' (env_or S ''POSTGRES_USER'' ''syslog'') @ '':'' @
           url_escape ''$&+,;='' (SecretFromEnv S ''POSTGRES_PASSWORD'') @ ''@'' @
           url_escape host_keep (host @ '':'' @ env_or S ''POSTGRES_PORT'' ''5432'') @
           url_escape ''$&+,/:;=@'' (''/'' @ env_or S ''POSTGRES_DB'' ''syslog_db'') @ ''?sslmode='' @ env_or S ''POSTGRES_SSLMODE'' ''disable'')"

definition ResolveRabbitMQURL :: "sources \<Rightarrow> string" where
  "ResolveRabbitMQURL S =
     (let dsn = SecretFromEnv S ''RABBITMQ_URL''; host = trim_space (so_env S ''RABBITMQ_HOST'') in
      if dsn \<noteq> [] then dsn
      else if host = [] then []
      else ''amqp://'' @ url_escape ''$&+=:@'' (env_or S ''RABBITMQ_USER'' ''logmara'') @ '':'' @
           url_escape ''$&+=:@'' (SecretFromEnv S ''RABBITMQ_PASS'') @ ''@'' @ host @ '':'' @ env_or S ''RABBITMQ_PORT'' ''5672'')"

end
