(* ===== verification/Rotation.thy ===== *)
theory Rotation
  imports Secrets AuthTokens Cursor
begin

text \<open>
  Rotation of the secrets of the process: the Vault client (\<^verbatim>\<open>vaultclient/vaultclient.go\<close>), the callbacks and the ticker of
  \<^verbatim>\<open>main.go\<close>, the status of \<^verbatim>\<open>handler/rotation.go\<close>, the pool of \<^verbatim>\<open>db/dynamicpool.go\<close> and the connection of
  \<^verbatim>\<open>sharedstate/queue.go\<close>. The state is that of one replica with the database and the key-value store of Vault; requests to Vault
  can fail like statements. Instants are written in UTC.
\<close>

section \<open>State\<close>

record rotation_state =
  rs_lastRotationAt :: "time option"
  rs_nextRotationAt :: "time option"
  rs_manualTriggered :: bool
  rs_secretResults :: "(string \<times> time) option list"
  rs_secretLastRotatedAt :: "time option list"
  rs_secondaryKeyActive :: "bool list"
  rs_rotationLeader :: bool

definition rotation_init :: rotation_state where
  "rotation_init = \<lparr>rs_lastRotationAt = None, rs_nextRotationAt = None, rs_manualTriggered = False, rs_secretResults = replicate 4 None,
     rs_secretLastRotatedAt = replicate 4 None, rs_secondaryKeyActive = replicate 4 False, rs_rotationLeader = False\<rparr>"

record DynamicPool =
  dp_dsn :: string
  dp_lastRotatedAt :: "time option"
  dp_lastResult :: string
  dp_lastError :: string

record queue_conn =
  qc_url :: string
  qc_connected :: bool
  qc_lastRotatedAt :: "time option"
  qc_lastResult :: string
  qc_lastError :: string

record cacheEntry =
  ce_value :: string
  ce_ok :: bool
  ce_fetched :: time

record ('k, 'p) replica = secretdb +
  rw_kv :: "(string \<times> string) list"
  rw_cache :: "(string \<times> cacheEntry) list"
  rw_rotateNow :: bool
  rw_keys :: keyring
  rw_auth :: "('k, 'p) auth_config"
  rw_state :: rotation_state
  rw_pool :: DynamicPool
  rw_queue :: "queue_conn option"
  rw_timers :: "(time \<times> nat) list"
  rw_sent :: "string list"

text \<open>
  What the process finds around it. \<open>re_connect\<close> and \<open>re_dial\<close> give the error of opening a database pool or a broker connection;
  \<open>re_vault\<close>: whether Vault is configured; \<open>re_pool\<close> and \<open>re_broadcast\<close>: whether the references of the status page are set.
\<close>

record rotation_env =
  re_aead :: aead
  re_env :: "string \<Rightarrow> string"
  re_connect :: "string \<Rightarrow> string option"
  re_dial :: "string \<Rightarrow> string option"
  re_vault :: bool
  re_pool :: bool
  re_broadcast :: bool

section \<open>Keys and connections in use\<close>

definition DynamicPool_Rotate :: "rotation_env \<Rightarrow> time \<Rightarrow> string \<Rightarrow> DynamicPool \<Rightarrow> string option \<times> DynamicPool" where
  "DynamicPool_Rotate E now dsn dp =
     (case re_connect E dsn of
        Some err \<Rightarrow> (Some err, dp\<lparr>dp_lastRotatedAt := Some now, dp_lastResult := ''failed'', dp_lastError := err\<rparr>)
      | None \<Rightarrow> (None, dp\<lparr>dp_dsn := dsn, dp_lastRotatedAt := Some now, dp_lastResult := ''success'', dp_lastError := []\<rparr>))"

definition RotateURL :: "rotation_env \<Rightarrow> time \<Rightarrow> string \<Rightarrow> queue_conn \<Rightarrow> string option \<times> queue_conn" where
  "RotateURL E now newURL q =
     (case re_dial E newURL of
        None \<Rightarrow> (None, q\<lparr>qc_url := newURL, qc_connected := True, qc_lastRotatedAt := Some now, qc_lastResult := ''success'', qc_lastError := []\<rparr>)
      | Some err \<Rightarrow>
          (case re_dial E (qc_url q) of
             Some fallbackErr \<Rightarrow>
               (Some (''rotate failed: '' @ err @ '' (fallback also failed: '' @ fallbackErr @ '')''),
                q\<lparr>qc_connected := False, qc_lastRotatedAt := Some now, qc_lastResult := ''failed'', qc_lastError := err\<rparr>)
           | None \<Rightarrow>
               (Some (''rotate failed, fell back to previous URL: '' @ err),
                q\<lparr>qc_connected := True, qc_lastRotatedAt := Some now, qc_lastResult := ''failed'',
                  qc_lastError := ''new URL failed, fell back to previous: '' @ err\<rparr>)))"

definition RotateRabbitMQURL :: "rotation_env \<Rightarrow> time \<Rightarrow> string \<Rightarrow> (('k, 'p) replica, string option) sql" where
  "RotateRabbitMQURL E now newURL = local (\<lambda>w.
     case rw_queue w of None \<Rightarrow> (None, w) | Some q \<Rightarrow> (let (err, q') = RotateURL E now newURL q in (err, w\<lparr>rw_queue := Some q'\<rparr>)))"

definition pool_Rotate :: "rotation_env \<Rightarrow> time \<Rightarrow> string \<Rightarrow> (('k, 'p) replica, string option) sql" where
  "pool_Rotate E now dsn = local (\<lambda>w. let (err, dp) = DynamicPool_Rotate E now dsn (rw_pool w) in (err, w\<lparr>rw_pool := dp\<rparr>))"

definition GetQueueConnected :: "('k, 'p) replica \<Rightarrow> bool" where
  "GetQueueConnected w = (case rw_queue w of None \<Rightarrow> False | Some q \<Rightarrow> qc_connected q)"

section \<open>The status\<close>

definition rotation_keys :: "string list" where
  "rotation_keys = [''secret_rotation_jwt'', ''secret_rotation_encryption'', ''secret_rotation_pg'', ''secret_rotation_rabbitmq'']"

text \<open>\<^verbatim>\<open>t.Format(time.RFC3339)\<close>: whole seconds.\<close>

definition fmt_seconds :: "time \<Rightarrow> string" where
  "fmt_seconds t = format_rfc3339 (t - t mod Second)"

definition upd_state :: "(rotation_state \<Rightarrow> rotation_state) \<Rightarrow> (('k, 'p) replica, unit) sql" where
  "upd_state f = local (\<lambda>w. ((), w\<lparr>rw_state := f (rw_state w)\<rparr>))"

text \<open>A setting written when the pool is there; an error is only logged. None of these keys is encrypted.\<close>

definition persist :: "rotation_env \<Rightarrow> string \<Rightarrow> string \<Rightarrow> (('k, 'p) replica, unit) sql" where
  "persist E key value =
     (if re_pool E then
        bind (local (\<lambda>w. (rw_keys w, w))) (\<lambda>K. attempt (UpdateSetting (re_aead E) K None key value) (\<lambda>_. ret ()))
      else ret ())"

definition read_setting :: "rotation_env \<Rightarrow> string \<Rightarrow> (('k, 'p) replica, string) sql" where
  "read_setting E key = bind (local (\<lambda>w. (rw_keys w, w))) (\<lambda>K. GetSetting (re_aead E) K key [])"

definition publish :: "rotation_env \<Rightarrow> string \<Rightarrow> (('k, 'p) replica, unit) sql" where
  "publish E channel =
     (if re_broadcast E then attempt (stmt (\<lambda>w. Inr ((), w\<lparr>rw_sent := rw_sent w @ [channel]\<rparr>))) (\<lambda>_. ret ()) else ret ())"

definition SetRotationLeader :: "bool \<Rightarrow> rotation_state \<Rightarrow> rotation_state" where
  "SetRotationLeader leader s = s\<lparr>rs_rotationLeader := leader\<rparr>"

definition SetRotationTimestamps :: "rotation_env \<Rightarrow> time \<Rightarrow> time \<Rightarrow> (('k, 'p) replica, unit) sql" where
  "SetRotationTimestamps E last0 next0 =
     bind (if last0 = zeroTime then ret ()
           else bind (upd_state (\<lambda>s. s\<lparr>rs_lastRotationAt := Some last0\<rparr>)) (\<lambda>_. persist E ''secret_rotation_last_at'' (fmt_seconds last0))) (\<lambda>_.
     if next0 = zeroTime then ret ()
     else bind (upd_state (\<lambda>s. s\<lparr>rs_nextRotationAt := Some next0\<rparr>)) (\<lambda>_. persist E ''secret_rotation_next_at'' (fmt_seconds next0)))"

definition SetSecretRotationResult :: "rotation_env \<Rightarrow> time \<Rightarrow> nat \<Rightarrow> string \<Rightarrow> (('k, 'p) replica, unit) sql" where
  "SetSecretRotationResult E now index result =
     (if index < 4 then
        bind (upd_state (\<lambda>s. s\<lparr>rs_secretResults := (rs_secretResults s)[index := Some (result, now)],
                               rs_secretLastRotatedAt := (rs_secretLastRotatedAt s)[index := Some now]\<rparr>)) (\<lambda>_.
        bind (persist E (rotation_keys ! index @ ''_at'') (fmt_seconds now)) (\<lambda>_.
        bind (persist E (rotation_keys ! index @ ''_result'') result) (\<lambda>_.
        bind (if (index = 0 \<or> index = 1) \<and> result = ''success'' then
                bind (upd_state (\<lambda>s. s\<lparr>rs_secondaryKeyActive := (rs_secondaryKeyActive s)[index := True]\<rparr>)) (\<lambda>_.
                  persist E (rotation_keys ! index @ ''_secondary'') ''true'')
              else ret ()) (\<lambda>_.
        publish E ''rotation:sync''))))
      else ret ())"

text \<open>The list of keys has two elements; a greater index with a pool stops the program, here \<^const>\<open>None\<close>.\<close>

definition ClearSecondaryKeyFlag :: "rotation_env \<Rightarrow> nat \<Rightarrow> (('k, 'p) replica, unit option) sql" where
  "ClearSecondaryKeyFlag E index =
     (if index < 4 then
        bind (upd_state (\<lambda>s. s\<lparr>rs_secondaryKeyActive := (rs_secondaryKeyActive s)[index := False]\<rparr>)) (\<lambda>_.
        if re_pool E \<and> index \<ge> 2 then ret None
        else bind (persist E (rotation_keys ! index @ ''_secondary'') ''false'') (\<lambda>_.
             bind (publish E ''rotation:sync'') (\<lambda>_. ret (Some ()))))
      else ret (Some ()))"

definition SetSecretLastRotatedAt :: "nat \<Rightarrow> time \<Rightarrow> rotation_state \<Rightarrow> rotation_state" where
  "SetSecretLastRotatedAt index t s = (if index < 4 then s\<lparr>rs_secretLastRotatedAt := (rs_secretLastRotatedAt s)[index := Some t]\<rparr> else s)"

definition RestoreSecretResult :: "nat \<Rightarrow> string \<Rightarrow> rotation_state \<Rightarrow> rotation_state" where
  "RestoreSecretResult index result s = (if index < 4 then s\<lparr>rs_secretResults := (rs_secretResults s)[index := Some (result, zeroTime)]\<rparr> else s)"

definition parsed_time :: "string \<Rightarrow> time option" where
  "parsed_time ts = (if ts = [] then None else parse_rfc3339 ts)"

fun load_secrets :: "rotation_env \<Rightarrow> (nat \<times> string) list \<Rightarrow> (('k, 'p) replica, unit) sql" where
  "load_secrets E [] = ret ()"
| "load_secrets E ((i, prefix) # ks) =
     bind (read_setting E (prefix @ ''_at'')) (\<lambda>ts.
     bind (case parsed_time ts of None \<Rightarrow> ret () | Some t \<Rightarrow> upd_state (SetSecretLastRotatedAt i t)) (\<lambda>_.
     bind (read_setting E (prefix @ ''_result'')) (\<lambda>result.
     bind (if result \<noteq> [] then upd_state (RestoreSecretResult i result) else ret ()) (\<lambda>_.
     bind (read_setting E (prefix @ ''_secondary'')) (\<lambda>sec.
     bind (if sec = ''true'' then upd_state (\<lambda>s. s\<lparr>rs_secondaryKeyActive := (rs_secondaryKeyActive s)[i := True]\<rparr>) else ret ()) (\<lambda>_.
       load_secrets E ks))))))"

definition loadRotationStateFromDB :: "rotation_env \<Rightarrow> (('k, 'p) replica, unit) sql" where
  "loadRotationStateFromDB E =
     (if \<not> re_pool E then ret ()
      else
        bind (load_secrets E (enumerate 0 rotation_keys)) (\<lambda>_.
        bind (read_setting E ''secret_rotation_last_at'') (\<lambda>ts.
        bind (case parsed_time ts of None \<Rightarrow> ret () | Some t \<Rightarrow> upd_state (\<lambda>s. s\<lparr>rs_lastRotationAt := Some t\<rparr>)) (\<lambda>_.
        bind (read_setting E ''secret_rotation_next_at'') (\<lambda>ts.
        case parsed_time ts of None \<Rightarrow> ret () | Some t \<Rightarrow> upd_state (\<lambda>s. s\<lparr>rs_nextRotationAt := Some t\<rparr>))))))"

definition getSecretResult :: "rotation_state \<Rightarrow> nat \<Rightarrow> string" where
  "getSecretResult s index =
     (case rs_secretResults s ! index of
        Some (result, _) \<Rightarrow> result
      | None \<Rightarrow> (if rs_secretLastRotatedAt s ! index \<noteq> None then ''success'' else ''none''))"

record SecretRotationStatus =
  ss_Name :: string
  ss_LastRotatedAt :: "string option"
  ss_LastResult :: string
  ss_HasSecondaryKey :: bool
  ss_RabbitMQConnected :: "bool option"

record RotationStatusResponse =
  sr_VaultEnabled :: bool
  sr_RotationInterval :: string
  sr_LastRotationAt :: "string option"
  sr_NextRotationAt :: "string option"
  sr_ManualTriggered :: bool
  sr_Secrets :: "SecretRotationStatus list"

definition secret_status :: "rotation_state \<Rightarrow> nat \<Rightarrow> string \<Rightarrow> bool \<Rightarrow> bool option \<Rightarrow> SecretRotationStatus" where
  "secret_status s i name secondary connected =
     \<lparr>ss_Name = name, ss_LastRotatedAt = map_option fmt_seconds (rs_secretLastRotatedAt s ! i), ss_LastResult = getSecretResult s i,
      ss_HasSecondaryKey = secondary, ss_RabbitMQConnected = connected\<rparr>"

definition buildRotationStatus :: "rotation_env \<Rightarrow> ('k, 'p) replica \<Rightarrow> RotationStatusResponse" where
  "buildRotationStatus E w =
     (let s = rw_state w in
      \<lparr>sr_VaultEnabled = re_vault E, sr_RotationInterval = ''24h'', sr_LastRotationAt = map_option fmt_seconds (rs_lastRotationAt s),
       sr_NextRotationAt = map_option fmt_seconds (rs_nextRotationAt s), sr_ManualTriggered = rs_manualTriggered s,
       sr_Secrets = [secret_status s 0 ''JWT Secret'' (rs_secondaryKeyActive s ! 0) None,
         secret_status s 1 ''Encryption Key'' (rs_secondaryKeyActive s ! 1) None,
         secret_status s 2 ''PostgreSQL Credentials'' False None,
         secret_status s 3 ''RabbitMQ Credentials'' False (Some (GetQueueConnected w))]\<rparr>)"

section \<open>Triggers\<close>

text \<open>The channel holds one signal; a second is dropped.\<close>

definition TriggerRotateNow :: "('k, 'p) replica \<Rightarrow> ('k, 'p) replica" where
  "TriggerRotateNow w = w\<lparr>rw_rotateNow := True\<rparr>"

definition TriggerManualRotation :: "rotation_env \<Rightarrow> (('k, 'p) replica, unit) sql" where
  "TriggerManualRotation E = local (\<lambda>w.
     if re_vault E then ((), (TriggerRotateNow w)\<lparr>rw_state := (rw_state w)\<lparr>rs_manualTriggered := True\<rparr>\<rparr>) else ((), w))"

definition all_newer :: "time list \<Rightarrow> time option list \<Rightarrow> bool" where
  "all_newer before rotated \<longleftrightarrow> (\<forall>i < 4. case rotated ! i of None \<Rightarrow> False | Some t \<Rightarrow> t > before ! i)"

text \<open>The loop looks every half second, for five minutes; \<open>seen\<close>: what it sees. False: timed out.\<close>

fun waitRotationComplete :: "time list \<Rightarrow> time option list list \<Rightarrow> nat \<Rightarrow> bool" where
  "waitRotationComplete before seen 0 = False"
| "waitRotationComplete before [] (Suc n) = False"
| "waitRotationComplete before (rotated # seen) (Suc n) = (all_newer before rotated \<or> waitRotationComplete before seen n)"

definition trigger_route :: "rotation_env \<Rightarrow> (('k, 'p) replica, unit) sql" where
  "trigger_route E =
     bind (local (\<lambda>w. (rs_rotationLeader (rw_state w), w))) (\<lambda>leader.
       if leader then TriggerManualRotation E
       else if re_broadcast E then publish E ''rotation:trigger''
       else TriggerManualRotation E)"

text \<open>\<open>meanwhile\<close>: what the rest of the replica does while the handler waits. The outcome of the wait is only logged.\<close>

definition TriggerRotation :: "rotation_env \<Rightarrow> (('k, 'p) replica, unit) sql \<Rightarrow> (('k, 'p) replica, RotationStatusResponse resp) sql" where
  "TriggerRotation E meanwhile =
     bind (trigger_route E) (\<lambda>_. attempt meanwhile (\<lambda>_. local (\<lambda>w. (Answer 200 (buildRotationStatus E w), w))))"

text \<open>\<^verbatim>\<open>main.go\<close>, at startup.\<close>

fun restore_secrets :: "rotation_env \<Rightarrow> (nat \<times> string) list \<Rightarrow> (('k, 'p) replica, unit) sql" where
  "restore_secrets E [] = ret ()"
| "restore_secrets E ((i, prefix) # ks) =
     bind (read_setting E (prefix @ ''_at'')) (\<lambda>ts.
     bind (case parsed_time ts of None \<Rightarrow> ret () | Some t \<Rightarrow> upd_state (SetSecretLastRotatedAt i t)) (\<lambda>_.
     bind (read_setting E (prefix @ ''_result'')) (\<lambda>result.
     bind (if result \<noteq> [] then upd_state (RestoreSecretResult i result) else ret ()) (\<lambda>_.
       restore_secrets E ks))))"

definition loadRotationTimestamps :: "rotation_env \<Rightarrow> time \<Rightarrow> (('k, 'p) replica, unit) sql" where
  "loadRotationTimestamps E now =
     bind (read_setting E ''secret_rotation_last_at'') (\<lambda>ts.
     let last0 = (case parsed_time ts of None \<Rightarrow> zeroTime | Some t \<Rightarrow> t) in
     bind (read_setting E ''secret_rotation_next_at'') (\<lambda>ts.
     let next0 = (case parsed_time ts of None \<Rightarrow> zeroTime | Some t \<Rightarrow> t) in
     bind (if last0 = zeroTime then ret ()
           else SetRotationTimestamps E last0 (if next0 = zeroTime \<or> next0 < now then last0 + 24 * Hour else next0)) (\<lambda>_.
     restore_secrets E (enumerate 0 rotation_keys))))"

end
