(* ===== verification/VaultRotation.thy ===== *)
theory VaultRotation
  imports Rotation
begin

text \<open>
  The Vault client, the callbacks that apply rotated secrets, and the ticker that picks up what another replica rotated.
  Reading credentials of the dynamic engines is a parameter: the outcomes of the requests, one after the other.
\<close>

section \<open>The key-value store\<close>

definition cacheTTL :: duration where "cacheTTL = 30 * Second"

definition fetch :: "string \<Rightarrow> (('k, 'p) replica, string \<times> bool) sql" where
  "fetch name =
     attempt (query (\<lambda>w. Inr (map_of (rw_kv w) name))) (\<lambda>r. case r of
       Inr (Some value) \<Rightarrow> ret (if value = [] then ([], False) else (value, True))
     | _ \<Rightarrow> ret ([], False))"

definition put_cache :: "string \<Rightarrow> cacheEntry \<Rightarrow> ('k, 'p) replica \<Rightarrow> ('k, 'p) replica" where
  "put_cache name ce w = w\<lparr>rw_cache := (name, ce) # filter (\<lambda>(k, _). k \<noteq> name) (rw_cache w)\<rparr>"

definition GetSecret :: "rotation_env \<Rightarrow> time \<Rightarrow> string \<Rightarrow> (('k, 'p) replica, string \<times> bool) sql" where
  "GetSecret E now name =
     (if \<not> re_vault E then ret ([], False)
      else
        bind (local (\<lambda>w. (map_of (rw_cache w) name, w))) (\<lambda>entry.
          if (case entry of None \<Rightarrow> False | Some ce \<Rightarrow> now - ce_fetched ce < cacheTTL) then ret (ce_value (the entry), ce_ok (the entry))
          else
            bind (fetch name) (\<lambda>(value, ok).
            bind (local (\<lambda>w. ((), put_cache name \<lparr>ce_value = value, ce_ok = ok, ce_fetched = now\<rparr> w))) (\<lambda>_. ret (value, ok)))))"

definition GetSecretNoCache :: "rotation_env \<Rightarrow> string \<Rightarrow> (('k, 'p) replica, string \<times> bool) sql" where
  "GetSecretNoCache E name = (if \<not> re_vault E then ret ([], False) else fetch name)"

definition WriteSecret :: "rotation_env \<Rightarrow> time \<Rightarrow> string \<Rightarrow> string \<Rightarrow> (('k, 'p) replica, unit) sql" where
  "WriteSecret E now name value =
     (if \<not> re_vault E then ret ()
      else stmt (\<lambda>w.
        let w' = w\<lparr>rw_kv := put_setting name value (rw_kv w)\<rparr> in
        Inr ((), if map_of (rw_cache w) name = None then w' else put_cache name \<lparr>ce_value = value, ce_ok = True, ce_fetched = now\<rparr> w')))"

text \<open>\<open>status\<close>: what the checks of the seal see, one every five seconds until the deadline; True: sealed or no answer.\<close>

definition waitReadyChecks :: nat where "waitReadyChecks = 60"

fun WaitUntilReady :: "bool list \<Rightarrow> nat \<Rightarrow> bool" where
  "WaitUntilReady status 0 = False"
| "WaitUntilReady [] (Suc n) = False"
| "WaitUntilReady (sealed # status) (Suc n) = (\<not> sealed \<or> WaitUntilReady status n)"

section \<open>Dynamic credentials\<close>

text \<open>One request: an error, with whether it is worth another try, or what was read (\<^const>\<open>None\<close>: nothing).\<close>

datatype dyn_read = DynErr bool string | DynData "(string \<times> string) list option"

definition dynamicSecretMaxRetries :: nat where "dynamicSecretMaxRetries = 2"
definition dynamicFetchMaxRetries :: nat where "dynamicFetchMaxRetries = 5"

fun dyn_try :: "(nat \<Rightarrow> dyn_read) \<Rightarrow> nat \<Rightarrow> nat \<Rightarrow> string + (string \<times> string) list option" where
  "dyn_try reads attempt0 0 = (case reads attempt0 of DynErr _ msg \<Rightarrow> Inl msg | DynData d \<Rightarrow> Inr d)"
| "dyn_try reads attempt0 (Suc left) =
     (case reads attempt0 of
        DynErr retryable msg \<Rightarrow> (if retryable then dyn_try reads (Suc attempt0) left else Inl msg)
      | DynData d \<Rightarrow> Inr d)"

definition field :: "(string \<times> string) list \<Rightarrow> string \<Rightarrow> string" where
  "field d k = (case map_of d k of None \<Rightarrow> [] | Some v \<Rightarrow> v)"

definition or_default :: "string \<Rightarrow> string \<Rightarrow> string" where
  "or_default v def = (if v = [] then def else v)"

definition pg_dsn :: "string \<Rightarrow> string \<Rightarrow> string \<Rightarrow> string \<Rightarrow> string \<Rightarrow> string \<Rightarrow> string" where
  "pg_dsn username password host port dbname sslmode =
     ''postgres://'' @ username @ '':'' @ password @ ''@'' @ host @ '':'' @ port @ ''/'' @ dbname @ ''?sslmode='' @ sslmode"

definition amqp_url :: "string \<Rightarrow> string \<Rightarrow> string \<Rightarrow> string \<Rightarrow> string" where
  "amqp_url username password host port = ''amqp://'' @ username @ '':'' @ password @ ''@'' @ host @ '':'' @ port"

definition buildDynamicValue :: "rotation_env \<Rightarrow> string \<Rightarrow> (string \<times> string) list option \<Rightarrow> string + string" where
  "buildDynamicValue E engine secret =
     (case secret of
        None \<Rightarrow> Inl ''no secret data returned from Vault''
      | Some d \<Rightarrow>
          (if engine = ''database'' then
             (if field d ''username'' = [] \<or> field d ''password'' = [] then Inl ''missing username or password from Vault''
              else if re_env E ''POSTGRES_HOST'' = [] then Inl ''POSTGRES_HOST not set''
              else Inr (pg_dsn (field d ''username'') (field d ''password'') (re_env E ''POSTGRES_HOST'') (or_default (re_env E ''POSTGRES_PORT'') ''5432'')
                     (or_default (re_env E ''POSTGRES_DB'') ''syslog_db'') (or_default (re_env E ''POSTGRES_SSLMODE'') ''disable'')))
           else if engine = ''rabbitmq'' then
             (if field d ''connection_url'' \<noteq> [] then Inr (field d ''connection_url'')
              else if field d ''username'' = [] \<or> field d ''password'' = [] \<or> re_env E ''RABBITMQ_HOST'' = [] then Inl ''missing RabbitMQ credentials or host''
              else Inr (amqp_url (field d ''username'') (field d ''password'') (re_env E ''RABBITMQ_HOST'') (or_default (re_env E ''RABBITMQ_PORT'') ''5672'')))
           else Inl (''unknown engine: '' @ engine)))"

definition buildDynamicValueWithParts ::
  "rotation_env \<Rightarrow> string \<Rightarrow> (string \<times> string) list option \<Rightarrow> string + string \<times> string \<times> string" where
  "buildDynamicValueWithParts E engine secret =
     (case secret of
        None \<Rightarrow> Inl ''no secret data returned from Vault''
      | Some d \<Rightarrow>
          (if engine = ''database'' then
             (if field d ''username'' = [] \<or> field d ''password'' = [] then Inl ''missing username or password from Vault''
              else if re_env E ''POSTGRES_HOST'' = [] then Inl ''POSTGRES_HOST not set''
              else Inr (pg_dsn (field d ''username'') (field d ''password'') (re_env E ''POSTGRES_HOST'') (or_default (re_env E ''POSTGRES_PORT'') ''5432'')
                     (or_default (re_env E ''POSTGRES_DB'') ''syslog_db'') (or_default (re_env E ''POSTGRES_SSLMODE'') ''disable''),
                   field d ''username'', field d ''password''))
           else Inl ''buildDynamicValueWithParts only supports database engine''))"

definition fetchDynamicCredential :: "rotation_env \<Rightarrow> (nat \<Rightarrow> dyn_read) \<Rightarrow> string \<Rightarrow> string + string" where
  "fetchDynamicCredential E reads engine =
     (case dyn_try reads 0 dynamicFetchMaxRetries of Inl err \<Rightarrow> Inl err | Inr secret \<Rightarrow> buildDynamicValue E engine secret)"

definition fetchDynamicCredentialWithParts :: "rotation_env \<Rightarrow> (nat \<Rightarrow> dyn_read) \<Rightarrow> string \<Rightarrow> string + string \<times> string \<times> string" where
  "fetchDynamicCredentialWithParts E reads engine =
     (case dyn_try reads 0 dynamicFetchMaxRetries of Inl err \<Rightarrow> Inl err | Inr secret \<Rightarrow> buildDynamicValueWithParts E engine secret)"

text \<open>\<^verbatim>\<open>c.WriteSecret(...)\<close> with its error dropped.\<close>

definition write_ignored :: "rotation_env \<Rightarrow> time \<Rightarrow> string \<Rightarrow> string \<Rightarrow> (('k, 'p) replica, unit) sql" where
  "write_ignored E now name value = attempt (WriteSecret E now name value) (\<lambda>_. ret ())"

definition unix_str :: "time \<Rightarrow> string" where
  "unix_str now = itoa (now div Second)"

text \<open>The inner \<^const>\<open>None\<close>: Vault is not configured.\<close>

definition FetchDynamicCredentials ::
  "rotation_env \<Rightarrow> time \<Rightarrow> (nat \<Rightarrow> dyn_read) \<Rightarrow> (nat \<Rightarrow> dyn_read) \<Rightarrow> (('k, 'p) replica, string + (string \<times> string) option) sql" where
  "FetchDynamicCredentials E now pgReads rmqReads =
     (if \<not> re_vault E then ret (Inr None)
      else
        (case fetchDynamicCredentialWithParts E pgReads ''database'' of
           Inl err \<Rightarrow> ret (Inl (''fetch PG dynamic credentials: '' @ err))
         | Inr (pgDSN, pgUser, pgPass) \<Rightarrow>
             bind (write_ignored E now ''pg_dynamic_username'' pgUser) (\<lambda>_.
             bind (write_ignored E now ''pg_dynamic_password'' pgPass) (\<lambda>_.
             bind (write_ignored E now ''pg_dynamic_version'' (unix_str now)) (\<lambda>_.
             case fetchDynamicCredential E rmqReads ''rabbitmq'' of
               Inl err \<Rightarrow> ret (Inl (''fetch RabbitMQ dynamic credentials: '' @ err))
             | Inr rmqURL \<Rightarrow>
                 bind (write_ignored E now ''rabbitmq_dynamic_url'' rmqURL) (\<lambda>_.
                 bind (write_ignored E now ''rabbitmq_dynamic_version'' (unix_str now)) (\<lambda>_.
                   ret (Inr (Some (pgDSN, rmqURL))))))))))"

section \<open>Callbacks\<close>

text \<open>
  \<^verbatim>\<open>rotationGracePeriod\<close>; \<open>var\<close>: the value of \<^verbatim>\<open>SESSION_TIMEOUT_MIN\<close>. Durations wrap at 64 bits.
\<close>

definition rotationGracePeriod :: "string \<Rightarrow> duration" where
  "rotationGracePeriod var =
     (let v = trim_space var;
          minMinutes = (if v \<noteq> [] then (case parse_int64 v of Some t \<Rightarrow> (if t > 0 then t else 15) | None \<Rightarrow> 15) else 15);
          d = dur_mul (int64 (minMinutes * 2)) Minute;
          d1 = (if d < 30 * Minute then 30 * Minute else d)
      in if d1 > 1 * Hour then 1 * Hour else d1)"

definition schedule_clear :: "rotation_env \<Rightarrow> time \<Rightarrow> nat \<Rightarrow> (('k, 'p) replica, unit) sql" where
  "schedule_clear E now i = local (\<lambda>w. ((), w\<lparr>rw_timers := rw_timers w @ [(now + rotationGracePeriod (re_env E ''SESSION_TIMEOUT_MIN''), i)]\<rparr>))"

definition cb_RotateJWTSecret :: "rotation_env \<Rightarrow> time \<Rightarrow> string \<Rightarrow> (('k, 'p) replica, unit) sql" where
  "cb_RotateJWTSecret E now s =
     bind (local (\<lambda>w. ((), w\<lparr>rw_auth := RotateSecret s (rw_auth w)\<rparr>))) (\<lambda>_.
     bind (SetSecretRotationResult E now 0 ''success'') (\<lambda>_.
     bind (SetRotationTimestamps E now (now + 24 * Hour)) (\<lambda>_.
     schedule_clear E now 0)))"

definition cb_RotateEncryptionKey ::
  "rotation_env \<Rightarrow> time \<Rightarrow> (nat \<Rightarrow> string option) \<Rightarrow> (nat \<Rightarrow> string option) \<Rightarrow> string \<Rightarrow> (('k, 'p) replica, unit) sql" where
  "cb_RotateEncryptionKey E now rndC rndS s =
     bind (local (\<lambda>w. let K = RotateEncryptionKey s (rw_keys w) in (K, w\<lparr>rw_keys := K\<rparr>))) (\<lambda>K.
     bind (ReencryptAllSecrets (re_aead E) K rndC rndS) (\<lambda>((good, failed), err).
     if failed > 0 then SetSecretRotationResult E now 1 ''failed''
     else bind (SetSecretRotationResult E now 1 ''success'') (\<lambda>_. schedule_clear E now 1)))"

definition cb_RotateRabbitMQURL :: "rotation_env \<Rightarrow> time \<Rightarrow> string \<Rightarrow> (('k, 'p) replica, unit) sql" where
  "cb_RotateRabbitMQURL E now newURL =
     bind (RotateRabbitMQURL E now newURL) (\<lambda>err.
       SetSecretRotationResult E now 3 (if err = None then ''success'' else ''failed''))"

definition cb_RotatePostgreSQLDSN :: "rotation_env \<Rightarrow> time \<Rightarrow> string \<Rightarrow> (('k, 'p) replica, unit) sql" where
  "cb_RotatePostgreSQLDSN E now newDSN =
     bind (pool_Rotate E now newDSN) (\<lambda>err.
       SetSecretRotationResult E now 2 (if err = None then ''success'' else ''failed''))"

definition cb_OnRotateFailure :: "rotation_env \<Rightarrow> time \<Rightarrow> string \<Rightarrow> (('k, 'p) replica, unit) sql" where
  "cb_OnRotateFailure E now engine =
     (if engine = ''jwt_secret'' then SetSecretRotationResult E now 0 ''failed''
      else if engine = ''encryption_key'' then SetSecretRotationResult E now 1 ''failed''
      else if engine = ''database'' then SetSecretRotationResult E now 2 ''failed''
      else if engine = ''rabbitmq'' then SetSecretRotationResult E now 3 ''failed''
      else ret ())"

text \<open>The goroutine that sleeps through the grace period.\<close>

definition clear_fires :: "rotation_env \<Rightarrow> time \<Rightarrow> (('k, 'p) replica, unit) sql" where
  "clear_fires E now =
     bind (local (\<lambda>w. (filter (\<lambda>(t, i). t \<le> now) (rw_timers w), w\<lparr>rw_timers := filter (\<lambda>(t, i). \<not> t \<le> now) (rw_timers w)\<rparr>))) (\<lambda>due.
     for_each (\<lambda>(t, i).
       bind (local (\<lambda>w. ((), if i = 0 then w\<lparr>rw_auth := ClearSecondarySecret (rw_auth w)\<rparr>
                             else w\<lparr>rw_keys := ClearSecondaryEncryptionKey (rw_keys w)\<rparr>))) (\<lambda>_.
       bind (ClearSecondaryKeyFlag E i) (\<lambda>_. ret ()))) due)"

section \<open>A rotation\<close>

definition rotateDynamicSecret ::
  "rotation_env \<Rightarrow> time \<Rightarrow> (nat \<Rightarrow> dyn_read) \<Rightarrow> string \<Rightarrow> (string \<Rightarrow> (('k, 'p) replica, unit) sql) \<Rightarrow> (('k, 'p) replica, unit) sql" where
  "rotateDynamicSecret E now reads engine callback =
     (case dyn_try reads 0 dynamicSecretMaxRetries of
        Inl err \<Rightarrow> cb_OnRotateFailure E now engine
      | Inr None \<Rightarrow> cb_OnRotateFailure E now engine
      | Inr (Some d) \<Rightarrow>
          bind (if engine = ''database'' then
                  (if field d ''username'' \<noteq> [] \<and> field d ''password'' \<noteq> [] then
                     bind (write_ignored E now ''pg_dynamic_username'' (field d ''username'')) (\<lambda>_.
                     bind (write_ignored E now ''pg_dynamic_password'' (field d ''password'')) (\<lambda>_.
                     bind (write_ignored E now ''pg_dynamic_version'' (unix_str now)) (\<lambda>_.
                     ret (pg_dsn (field d ''username'') (field d ''password'') (re_env E ''POSTGRES_HOST'') (re_env E ''POSTGRES_PORT'')
                       (re_env E ''POSTGRES_DB'') (or_default (re_env E ''POSTGRES_SSLMODE'') ''disable'')))))
                   else ret [])
                else if engine = ''redis'' then ret (field d ''password'')
                else if engine = ''rabbitmq'' then
                  (let v = (if field d ''connection_url'' \<noteq> [] then field d ''connection_url''
                            else if field d ''username'' \<noteq> [] \<and> field d ''password'' \<noteq> []
                            then amqp_url (field d ''username'') (field d ''password'') (re_env E ''RABBITMQ_HOST'') (re_env E ''RABBITMQ_PORT'')
                            else []) in
                   if v \<noteq> [] then
                     bind (write_ignored E now ''rabbitmq_dynamic_url'' v) (\<lambda>_.
                     bind (write_ignored E now ''rabbitmq_dynamic_version'' (unix_str now)) (\<lambda>_. ret v))
                   else ret [])
                else ret []) (\<lambda>newValue.
          if newValue \<noteq> [] then callback newValue else cb_OnRotateFailure E now engine))"

text \<open>The random material of a rotation: a key that cannot be drawn is \<^const>\<open>None\<close>.\<close>

record rotation_draw =
  rd_jwt :: "string option"
  rd_enc :: "string option"
  rd_channels :: "nat \<Rightarrow> string option"
  rd_settings :: "nat \<Rightarrow> string option"
  rd_pg :: "nat \<Rightarrow> dyn_read"
  rd_rmq :: "nat \<Rightarrow> dyn_read"

definition rotate_jwt :: "rotation_env \<Rightarrow> time \<Rightarrow> rotation_draw \<Rightarrow> (('k, 'p) replica, unit) sql" where
  "rotate_jwt E now R =
     (case rd_jwt R of
        None \<Rightarrow> cb_OnRotateFailure E now ''jwt_secret''
      | Some s \<Rightarrow> attempt (WriteSecret E now ''jwt_secret'' s) (\<lambda>r. case r of
          Inl err \<Rightarrow> cb_OnRotateFailure E now ''jwt_secret''
        | Inr _ \<Rightarrow> cb_RotateJWTSecret E now s))"

definition rotate_encryption :: "rotation_env \<Rightarrow> time \<Rightarrow> rotation_draw \<Rightarrow> (('k, 'p) replica, unit) sql" where
  "rotate_encryption E now R =
     (case rd_enc R of
        None \<Rightarrow> cb_OnRotateFailure E now ''encryption_key''
      | Some s \<Rightarrow> attempt (WriteSecret E now ''encryption_key'' s) (\<lambda>r. case r of
          Inl err \<Rightarrow> cb_OnRotateFailure E now ''encryption_key''
        | Inr _ \<Rightarrow> cb_RotateEncryptionKey E now (rd_channels R) (rd_settings R) s))"

definition rotateSecrets :: "rotation_env \<Rightarrow> time \<Rightarrow> rotation_draw \<Rightarrow> (('k, 'p) replica, unit) sql" where
  "rotateSecrets E now R =
     bind (rotate_jwt E now R) (\<lambda>_.
     bind (rotate_encryption E now R) (\<lambda>_.
     bind (rotateDynamicSecret E now (rd_pg R) ''database'' (cb_RotatePostgreSQLDSN E now)) (\<lambda>_.
     rotateDynamicSecret E now (rd_rmq R) ''rabbitmq'' (cb_RotateRabbitMQURL E now))))"

text \<open>One round of \<^verbatim>\<open>StartRotation\<close> that the signal wakes.\<close>

definition rotate_on_signal :: "rotation_env \<Rightarrow> time \<Rightarrow> rotation_draw \<Rightarrow> (('k, 'p) replica, unit) sql" where
  "rotate_on_signal E now R =
     bind (local (\<lambda>w. (rw_rotateNow w, w\<lparr>rw_rotateNow := False\<rparr>))) (\<lambda>sig. if sig then rotateSecrets E now R else ret ())"

section \<open>The ticker that follows Vault\<close>

text \<open>The versions the ticker applied last are its own; it returns the new ones.\<close>

definition sync_keys :: "rotation_env \<Rightarrow> (('k, 'p) replica, unit) sql" where
  "sync_keys E =
     bind (GetSecretNoCache E ''jwt_secret'') (\<lambda>(vaultJWT, jwtOk).
     bind (local (\<lambda>w. ((), if jwtOk \<and> vaultJWT \<noteq> ac_primary (rw_auth w) then w\<lparr>rw_auth := RotateSecret vaultJWT (rw_auth w)\<rparr> else w))) (\<lambda>_.
     bind (GetSecretNoCache E ''encryption_key'') (\<lambda>(vaultEnc, encOk).
     local (\<lambda>w. ((), if encOk \<and> vaultEnc \<noteq> encryptKeyPrimary (rw_keys w) then w\<lparr>rw_keys := RotateEncryptionKey vaultEnc (rw_keys w)\<rparr> else w)))))"

definition sync_postgres :: "rotation_env \<Rightarrow> time \<Rightarrow> string \<Rightarrow> (('k, 'p) replica, string) sql" where
  "sync_postgres E now lastPGVersion =
     bind (GetSecretNoCache E ''pg_dynamic_version'') (\<lambda>(pgVersion, pgVerOk).
     if pgVerOk \<and> pgVersion \<noteq> lastPGVersion then
       bind (GetSecretNoCache E ''pg_dynamic_username'') (\<lambda>(pgUser, pgUserOk).
       bind (GetSecretNoCache E ''pg_dynamic_password'') (\<lambda>(pgPass, pgPassOk).
       if pgUserOk \<and> pgPassOk \<and> pgUser \<noteq> [] \<and> pgPass \<noteq> [] then
         bind (pool_Rotate E now (pg_dsn pgUser pgPass (re_env E ''POSTGRES_HOST'') (or_default (re_env E ''POSTGRES_PORT'') ''5432'')
             (or_default (re_env E ''POSTGRES_DB'') ''syslog_db'') (or_default (re_env E ''POSTGRES_SSLMODE'') ''disable''))) (\<lambda>err.
           ret (if err = None then pgVersion else lastPGVersion))
       else ret lastPGVersion))
     else ret lastPGVersion)"

definition sync_rabbitmq :: "rotation_env \<Rightarrow> time \<Rightarrow> string \<Rightarrow> (('k, 'p) replica, string) sql" where
  "sync_rabbitmq E now lastRMQVersion =
     bind (GetSecretNoCache E ''rabbitmq_dynamic_version'') (\<lambda>(rmqVersion, rmqVerOk).
     if rmqVerOk \<and> rmqVersion \<noteq> lastRMQVersion then
       bind (GetSecretNoCache E ''rabbitmq_dynamic_url'') (\<lambda>(rmqURL, rmqURLOk).
       if rmqURLOk \<and> rmqURL \<noteq> [] then
         bind (RotateRabbitMQURL E now rmqURL) (\<lambda>err. ret (if err = None then rmqVersion else lastRMQVersion))
       else ret lastRMQVersion)
     else ret lastRMQVersion)"

definition sync_tick :: "rotation_env \<Rightarrow> time \<Rightarrow> string \<times> string \<Rightarrow> (('k, 'p) replica, string \<times> string) sql" where
  "sync_tick E now versions =
     bind (sync_keys E) (\<lambda>_.
     bind (sync_postgres E now (fst versions)) (\<lambda>pg.
     bind (sync_rabbitmq E now (snd versions)) (\<lambda>rmq. ret (pg, rmq))))"

end
