(* ===== verification/RotationTheorems.thy ===== *)
theory RotationTheorems
  imports VaultRotation
begin

text \<open>Which secrets survive a rotation, and which ways of failing lose them.\<close>

section \<open>Sealing and opening\<close>

lemma open_sealed:
  assumes "aead_laws A" "length n = nonceSize" "Encrypt A K (Some n) p = Some e"
  shows "decryptWithKey A (encryptKeyPrimary K) e = Some p"
proof -
  have e: "e = hex_encode (n @ gcm_seal A (deriveKey A (encryptKeyPrimary K)) n p)"
    using assms(3) by (simp add: Encrypt_def)
  have "gcm_open A (deriveKey A (encryptKeyPrimary K)) n (gcm_seal A (deriveKey A (encryptKeyPrimary K)) n p) = Some p"
    using assms(1,2) by (simp add: aead_laws_def)
  then show ?thesis using assms(2) by (simp add: e decryptWithKey_def)
qed

lemma sealed_nonempty: "length n = nonceSize \<Longrightarrow> Encrypt A K (Some n) p = Some e \<Longrightarrow> e \<noteq> []"
  by (cases n) (auto simp: Encrypt_def nonceSize_def)

definition good_nonces :: "(nat \<Rightarrow> string option) \<Rightarrow> bool" where
  "good_nonces rnd \<longleftrightarrow> (\<forall>i. \<exists>n. rnd i = Some n \<and> length n = nonceSize)"

section \<open>Rows that hold a secret\<close>

text \<open>
  What the loop over rows needs of a table: the update of a row that exists succeeds, changes that row alone, and leaves the
  rest of the state as \<open>frame\<close> says.
\<close>

locale secret_cells =
  fixes upd :: "'k \<Rightarrow> string \<Rightarrow> ('d, unit) sql"
    and get :: "'d \<Rightarrow> 'k \<Rightarrow> string option"
    and frame :: "'d \<Rightarrow> 'd \<Rightarrow> bool"
  assumes upd_runs: "get d i = Some v \<Longrightarrow> \<exists>d'. upd i e (d, []) = (Inr (), d', []) \<and> get d' = (get d)(i \<mapsto> e) \<and> frame d d'"
    and frame_refl: "frame d d"
    and frame_trans: "frame d d' \<Longrightarrow> frame d' d'' \<Longrightarrow> frame d d''"
begin

definition sealed :: "aead \<Rightarrow> keyring \<Rightarrow> 'd \<Rightarrow> 'k \<times> string \<Rightarrow> bool" where
  "sealed A K d row \<longleftrightarrow> (\<exists>e. get d (fst row) = Some e \<and> e \<noteq> [] \<and> decryptWithKey A (encryptKeyPrimary K) e = Decrypt A K (snd row))"

lemma reencrypt_rows_seals:
  assumes laws: "aead_laws A" and rnd: "good_nonces rnd"
  shows "distinct (map fst rows) \<Longrightarrow> (\<forall>row \<in> set rows. get d (fst row) = Some (snd row) \<and> Decrypt A K (snd row) \<noteq> None) \<Longrightarrow>
    \<exists>d'. reencrypt_rows A K upd rnd rows (good, bad) (d, []) = (Inr (good + length rows, bad), d', []) \<and> frame d d' \<and>
      (\<forall>i. i \<notin> fst ` set rows \<longrightarrow> get d' i = get d i) \<and> (\<forall>row \<in> set rows. sealed A K d' row)"
proof (induction rows arbitrary: d good)
  case Nil
  then show ?case using frame_refl by simp
next
  case (Cons row rows)
  obtain i s where row: "row = (i, s)" by (cases row)
  obtain p where p: "Decrypt A K s = Some p" and at: "get d i = Some s" using Cons.prems(2) row by auto
  obtain n where n: "rnd (length rows) = Some n" "length n = nonceSize" using rnd by (auto simp: good_nonces_def)
  obtain e where e: "Encrypt A K (Some n) p = Some e" by (simp add: Encrypt_def)
  have opens: "decryptWithKey A (encryptKeyPrimary K) e = Some p" and ne: "e \<noteq> []"
    using open_sealed [OF laws n(2) e] sealed_nonempty [OF n(2) e] by auto
  obtain d1 where d1: "upd i e (d, []) = (Inr (), d1, [])" "get d1 = (get d)(i \<mapsto> e)" "frame d d1"
    using upd_runs [OF at] by blast
  have fresh: "i \<notin> fst ` set rows" using Cons.prems(1) row by simp
  have "\<forall>row \<in> set rows. get d1 (fst row) = Some (snd row) \<and> Decrypt A K (snd row) \<noteq> None"
    using Cons.prems(2) d1(2) fresh row by force
  then obtain d' where d': "reencrypt_rows A K upd rnd rows (good + 1, bad) (d1, []) = (Inr (good + 1 + length rows, bad), d', [])"
    "frame d1 d'" "\<forall>j. j \<notin> fst ` set rows \<longrightarrow> get d' j = get d1 j" "\<forall>row \<in> set rows. sealed A K d' row"
    using Cons.IH [of d1 "good + 1"] Cons.prems(1) row by auto
  have "sealed A K d' row" using d'(3) fresh d1(2) opens ne p row by (auto simp: sealed_def)
  moreover have "reencrypt_rows A K upd rnd (row # rows) (good, bad) (d, []) = (Inr (good + length (row # rows), bad), d', [])"
    using p n(1) e d1(1) opens d'(1) row by (simp add: attempt_def DecryptWithPrimaryOnly_def)
  moreover have "\<forall>j. j \<notin> fst ` set (row # rows) \<longrightarrow> get d' j = get d j" using d'(3) d1(2) row by auto
  ultimately show ?case using frame_trans [OF d1(3) d'(2)] d'(4) by auto
qed

end

definition channel_cell :: "'a secretdb_scheme \<Rightarrow> int \<Rightarrow> string option" where
  "channel_cell d i = (case map_of (sd_channels d) i of Some (Some s) \<Rightarrow> Some s | _ \<Rightarrow> None)"

definition setting_cell :: "'a secretdb_scheme \<Rightarrow> string \<Rightarrow> string option" where
  "setting_cell d k = map_of (sd_settings d) k"

lemma map_of_upd_rows: "map_of (map (\<lambda>(j, s). if j = i then (j, v) else (j, s)) xs) j = (if j = i \<and> i \<in> fst ` set xs then Some v else map_of xs j)"
proof (induction xs)
  case (Cons x xs)
  then show ?case by (cases x; cases "j = i") auto
qed simp

interpretation channel_cells: secret_cells set_channel_secret channel_cell
  "\<lambda>d d'. d' = d\<lparr>sd_channels := sd_channels d'\<rparr>"
proof
  fix d :: "'a secretdb_scheme" and i :: int and v e :: string
  assume "channel_cell d i = Some v"
  then have "i \<in> fst ` set (sd_channels d)"
    by (auto simp: channel_cell_def split: option.splits dest: map_of_SomeD intro: rev_image_eqI)
  then have "channel_cell (d\<lparr>sd_channels := map (\<lambda>(j, s). if j = i then (j, Some e) else (j, s)) (sd_channels d)\<rparr>) = (channel_cell d)(i \<mapsto> e)"
    by (simp add: channel_cell_def map_of_upd_rows fun_eq_iff)
  then show "\<exists>d'. set_channel_secret i e (d, []) = (Inr (), d', []) \<and> channel_cell d' = (channel_cell d)(i \<mapsto> e) \<and>
      d' = d\<lparr>sd_channels := sd_channels d'\<rparr>"
    by (simp add: set_channel_secret_def)
next
  fix d d' d'' :: "'a secretdb_scheme"
  assume "d' = d\<lparr>sd_channels := sd_channels d'\<rparr>" "d'' = d'\<lparr>sd_channels := sd_channels d''\<rparr>"
  then show "d'' = d\<lparr>sd_channels := sd_channels d''\<rparr>" by (metis secretdb.fold_congs(1) secretdb.update_convs(1) secretdb.surjective)
qed simp

interpretation setting_cells: secret_cells set_setting_value setting_cell
  "\<lambda>d d'. d' = d\<lparr>sd_settings := sd_settings d'\<rparr>"
proof
  fix d :: "'a secretdb_scheme" and i v e :: string
  assume "setting_cell d i = Some v"
  then have "i \<in> fst ` set (sd_settings d)" by (auto simp: setting_cell_def dest: map_of_SomeD intro: rev_image_eqI)
  then show "\<exists>d'. set_setting_value i e (d, []) = (Inr (), d', []) \<and> setting_cell d' = (setting_cell d)(i \<mapsto> e) \<and>
      d' = d\<lparr>sd_settings := sd_settings d'\<rparr>"
    by (auto simp: set_setting_value_def setting_cell_def map_of_upd_rows fun_eq_iff)
next
  fix d d' d'' :: "'a secretdb_scheme"
  assume "d' = d\<lparr>sd_settings := sd_settings d'\<rparr>" "d'' = d'\<lparr>sd_settings := sd_settings d''\<rparr>"
  then show "d'' = d\<lparr>sd_settings := sd_settings d''\<rparr>" by (metis secretdb.update_convs(2) secretdb.surjective)
qed simp

section \<open>A re-encryption without failures\<close>

definition channel_rows :: "'a secretdb_scheme \<Rightarrow> (int \<times> string) list" where
  "channel_rows d = List.map_filter (\<lambda>(i, s). case s of None \<Rightarrow> None | Some v \<Rightarrow> if v = [] then None else Some (i, v)) (sd_channels d)"

definition setting_rows :: "'a secretdb_scheme \<Rightarrow> (string \<times> string) list" where
  "setting_rows d = filter (\<lambda>(k, v). secret_setting k \<and> v \<noteq> []) (sd_settings d)"

lemma filtered_rows:
  "distinct (map fst xs) \<Longrightarrow> distinct (map fst (List.map_filter (\<lambda>(i, s). case s of None \<Rightarrow> None | Some v \<Rightarrow> if v = [] then None else Some (i, v)) xs)) \<and>
     set (List.map_filter (\<lambda>(i, s). case s of None \<Rightarrow> None | Some v \<Rightarrow> if v = [] then None else Some (i, v)) xs) = {(i, v). (i, Some v) \<in> set xs \<and> v \<noteq> []}"
  by (induction xs) (auto simp: map_filter_simps split: option.splits if_splits intro: rev_image_eqI)

lemma channel_rows_cells:
  assumes "distinct (map fst (sd_channels d))"
  shows "distinct (map fst (channel_rows d))" "(i, v) \<in> set (channel_rows d) \<longleftrightarrow> channel_cell d i = Some v \<and> v \<noteq> []"
proof -
  have "channel_cell d i = Some v \<longleftrightarrow> map_of (sd_channels d) i = Some (Some v)" by (auto simp: channel_cell_def split: option.splits)
  then show "(i, v) \<in> set (channel_rows d) \<longleftrightarrow> channel_cell d i = Some v \<and> v \<noteq> []"
    using filtered_rows [OF assms] by (simp add: channel_rows_def map_of_eq_Some_iff [OF assms])
qed (use filtered_rows [OF assms] in \<open>simp add: channel_rows_def\<close>)

lemma setting_rows_cells:
  assumes "distinct (map fst (sd_settings d))"
  shows "distinct (map fst (setting_rows d))" "(k, v) \<in> set (setting_rows d) \<longleftrightarrow> secret_setting k \<and> setting_cell d k = Some v \<and> v \<noteq> []"
  using assms by (auto simp: setting_rows_def setting_cell_def distinct_map_filter)

definition plain :: "(string \<Rightarrow> string option) \<Rightarrow> string \<Rightarrow> string option" where
  "plain D v = (if v = [] then Some [] else D v)"

text \<open>Every secret of the tables can be read.\<close>

definition readable :: "(string \<Rightarrow> string option) \<Rightarrow> 'a secretdb_scheme \<Rightarrow> bool" where
  "readable D d \<longleftrightarrow> (\<forall>i s. channel_cell d i = Some s \<and> s \<noteq> [] \<longrightarrow> D s \<noteq> None) \<and>
     (\<forall>k v. secret_setting k \<and> setting_cell d k = Some v \<and> v \<noteq> [] \<longrightarrow> D v \<noteq> None)"

definition keys_distinct :: "'a secretdb_scheme \<Rightarrow> bool" where
  "keys_distinct d \<longleftrightarrow> distinct (map fst (sd_channels d)) \<and> distinct (map fst (sd_settings d))"

text \<open>The same secrets, read one way before and another way after.\<close>

definition same_secrets :: "(string \<Rightarrow> string option) \<Rightarrow> 'a secretdb_scheme \<Rightarrow> (string \<Rightarrow> string option) \<Rightarrow> 'b secretdb_scheme \<Rightarrow> bool" where
  "same_secrets D d D' d' \<longleftrightarrow>
     (\<forall>i. map_option (plain D') (channel_cell d' i) = map_option (plain D) (channel_cell d i)) \<and>
     (\<forall>k. secret_setting k \<longrightarrow> map_option (plain D') (setting_cell d' k) = map_option (plain D) (setting_cell d k))"

lemma resealed_plain:
  assumes rows: "\<And>i v. (i, v) \<in> set rows \<longleftrightarrow> P i \<and> c i = Some v \<and> v \<noteq> []"
    and other: "\<forall>i. i \<notin> fst ` set rows \<longrightarrow> c' i = c i"
    and sealed: "\<forall>row \<in> set rows. \<exists>e. c' (fst row) = Some e \<and> e \<noteq> [] \<and> D' e = D (snd row)"
  shows "P i \<Longrightarrow> map_option (plain D') (c' i) = map_option (plain D) (c i)"
proof (cases "i \<in> fst ` set rows")
  case True
  then obtain v where v: "(i, v) \<in> set rows" by force
  then show ?thesis using rows [of i v] sealed by (force simp: plain_def)
next
  case False
  assume "P i"
  then have "c i = None \<or> c i = Some []" using False rows by (cases "c i") (force intro: rev_image_eqI)+
  then show ?thesis using other False by (auto simp: plain_def)
qed

lemma reencrypt_all:
  assumes laws: "aead_laws A" and rnd: "good_nonces rndC" "good_nonces rndS" and keys: "keys_distinct d" and rd: "readable (Decrypt A K) d"
  obtains n d' where "ReencryptAllSecrets A K rndC rndS (d, []) = (Inr ((n, 0), None), d', [])" "d' = d\<lparr>sd_channels := sd_channels d', sd_settings := sd_settings d'\<rparr>"
    "same_secrets (Decrypt A K) d (decryptWithKey A (encryptKeyPrimary K)) d'"
proof -
  have kc: "distinct (map fst (sd_channels d))" and ks: "distinct (map fst (sd_settings d))" using keys by (simp_all add: keys_distinct_def)
  have "\<forall>row \<in> set (channel_rows d). channel_cell d (fst row) = Some (snd row) \<and> Decrypt A K (snd row) \<noteq> None"
    using channel_rows_cells(2) [OF kc] rd by (auto simp: readable_def)
  from channel_cells.reencrypt_rows_seals [OF laws rnd(1) channel_rows_cells(1) [OF kc] this, of 0 0]
  obtain d1 where r1: "reencrypt_rows A K set_channel_secret rndC (channel_rows d) (0, 0) (d, []) = (Inr (length (channel_rows d), 0), d1, [])"
    and s1: "d1 = d\<lparr>sd_channels := sd_channels d1\<rparr>"
    and c1: "\<forall>i. i \<notin> fst ` set (channel_rows d) \<longrightarrow> channel_cell d1 i = channel_cell d i"
      "\<forall>row \<in> set (channel_rows d). channel_cells.sealed A K d1 row" by auto
  have f1: "sd_settings d1 = sd_settings d" using s1 by (metis secretdb.simps(2) secretdb.surjective secretdb.update_convs(1))
  have rows1: "setting_rows d1 = setting_rows d" and cells1: "setting_cell d1 = setting_cell d" using f1 by (simp_all add: setting_rows_def setting_cell_def fun_eq_iff)
  have "\<forall>row \<in> set (setting_rows d). setting_cell d1 (fst row) = Some (snd row) \<and> Decrypt A K (snd row) \<noteq> None"
    using setting_rows_cells(2) [OF ks] rd cells1 by (auto simp: readable_def)
  from setting_cells.reencrypt_rows_seals [OF laws rnd(2) setting_rows_cells(1) [OF ks] this, of "length (channel_rows d)" 0]
  obtain d2 where r2: "reencrypt_rows A K set_setting_value rndS (setting_rows d) (length (channel_rows d), 0) (d1, []) =
      (Inr (length (channel_rows d) + length (setting_rows d), 0), d2, [])"
    and s2: "d2 = d1\<lparr>sd_settings := sd_settings d2\<rparr>"
    and c2: "\<forall>i. i \<notin> fst ` set (setting_rows d) \<longrightarrow> setting_cell d2 i = setting_cell d1 i"
      "\<forall>row \<in> set (setting_rows d). setting_cells.sealed A K d2 row" by auto
  have f2: "sd_channels d2 = sd_channels d1" using s2 by (metis secretdb.simps(1) secretdb.surjective secretdb.update_convs(2))
  have frame: "d2 = d\<lparr>sd_channels := sd_channels d2, sd_settings := sd_settings d2\<rparr>"
    using s1 s2 f2 by (metis secretdb.surjective secretdb.update_convs(1,2))
  have "ReencryptAllSecrets A K rndC rndS (d, []) = (Inr ((length (channel_rows d) + length (setting_rows d), 0), None), d2, [])"
    using r1 r2 rows1
    by (simp add: ReencryptAllSecrets_def attempt_def bind_def channel_secrets_def setting_secrets_def flip: channel_rows_def setting_rows_def)
  moreover have "same_secrets (Decrypt A K) d (decryptWithKey A (encryptKeyPrimary K)) d2"
    unfolding same_secrets_def
  proof (intro conjI allI impI)
    fix i
    have "channel_cell d2 = channel_cell d1" using f2 by (simp add: channel_cell_def fun_eq_iff)
    then show "map_option (plain (decryptWithKey A (encryptKeyPrimary K))) (channel_cell d2 i) = map_option (plain (Decrypt A K)) (channel_cell d i)"
      using resealed_plain [of "channel_rows d" "\<lambda>_. True" "channel_cell d" "channel_cell d1"] channel_rows_cells(2) [OF kc] c1
      by (simp add: channel_cells.sealed_def)
  next
    fix k
    assume "secret_setting k"
    then show "map_option (plain (decryptWithKey A (encryptKeyPrimary K))) (setting_cell d2 k) = map_option (plain (Decrypt A K)) (setting_cell d k)"
      using resealed_plain [of "setting_rows d" secret_setting "setting_cell d" "setting_cell d2"] setting_rows_cells(2) [OF ks] c2 cells1
      by (simp add: setting_cells.sealed_def)
  qed
  ultimately show ?thesis using frame that by blast
qed

section \<open>Bookkeeping\<close>

text \<open>\<open>quiet R m\<close>: without faults \<open>m\<close> returns, and relates the states before and after as \<open>R\<close> says.\<close>

definition quiet :: "('d \<Rightarrow> 'd \<Rightarrow> bool) \<Rightarrow> ('d, unit) sql \<Rightarrow> bool" where
  "quiet R m \<longleftrightarrow> (\<forall>d. \<exists>d'. m (d, []) = (Inr (), d', []) \<and> R d d')"

lemma quietE:
  assumes "quiet R m"
  obtains d' where "m (d, []) = (Inr (), d', [])" "R d d'"
  using assms by (auto simp: quiet_def)

text \<open>What the status page's bookkeeping leaves alone.\<close>

definition calm :: "('k, 'p) replica \<Rightarrow> ('k, 'p) replica \<Rightarrow> bool" where
  "calm w w' \<longleftrightarrow> rw_keys w' = rw_keys w \<and> rw_auth w' = rw_auth w \<and> rw_timers w' = rw_timers w \<and> rw_kv w' = rw_kv w \<and>
     sd_channels w' = sd_channels w \<and> (\<forall>k. secret_setting k \<longrightarrow> setting_cell w' k = setting_cell w k) \<and>
     rs_secretResults (rw_state w') = rs_secretResults (rw_state w)"

named_theorems quiet_intros \<open>runs that only keep the books\<close>

lemma calm_refl [simp]: "calm w w"
  by (simp add: calm_def)

lemma calm_trans: "calm w w' \<Longrightarrow> calm w' w'' \<Longrightarrow> calm w w''"
  by (simp add: calm_def)

lemma quiet_ret [quiet_intros]: "quiet calm (ret ())"
  by (simp add: quiet_def)

lemma quiet_bind [quiet_intros]: "quiet calm m \<Longrightarrow> quiet calm m' \<Longrightarrow> quiet calm (bind m (\<lambda>_. m'))"
proof -
  assume m: "quiet calm m" and m': "quiet calm m'"
  have "\<exists>d'. bind m (\<lambda>_. m') (d, []) = (Inr (), d', []) \<and> calm d d'" for d
  proof -
    obtain d1 where "m (d, []) = (Inr (), d1, [])" "calm d d1" by (rule quietE [OF m])
    moreover obtain d2 where "m' (d1, []) = (Inr (), d2, [])" "calm d1 d2" by (rule quietE [OF m'])
    ultimately show ?thesis by (auto simp: bind_def intro: calm_trans)
  qed
  then show ?thesis by (simp add: quiet_def)
qed

lemma quiet_if [quiet_intros]: "(b \<Longrightarrow> quiet R m) \<Longrightarrow> (\<not> b \<Longrightarrow> quiet R m') \<Longrightarrow> quiet R (if b then m else m')"
  by simp

lemma map_of_put: "map_of (put_setting k v kvs) = (map_of kvs)(k \<mapsto> v)"
  by (cases "k \<in> fst ` set kvs") (auto simp: put_setting_def map_of_upd_rows map_add_def fun_eq_iff dest: map_of_SomeD intro: rev_image_eqI split: option.split)

lemma quiet_persist [quiet_intros]: "\<not> secret_setting key \<Longrightarrow> quiet calm (persist E key v)"
  by (auto simp: quiet_def persist_def attempt_def bind_def UpdateSetting_def Let_def calm_def setting_cell_def map_of_put)

lemma quiet_publish [quiet_intros]: "quiet calm (publish E ch)"
  by (auto simp: quiet_def publish_def attempt_def calm_def setting_cell_def)

lemma quiet_upd_state [quiet_intros]: "(\<And>s. rs_secretResults (f s) = rs_secretResults s) \<Longrightarrow> quiet calm (upd_state f)"
  by (simp add: quiet_def upd_state_def calm_def setting_cell_def)

lemma bookkeeping_keys: "i < 4 \<Longrightarrow> \<not> secret_setting (rotation_keys ! i @ suffix)"
  by (auto simp: secret_setting_def rotation_keys_def less_Suc_eq numeral_eq_Suc)

lemma bind_upd_state: "bind (upd_state f) k (w, fs) = k () (w\<lparr>rw_state := f (rw_state w)\<rparr>, fs)"
  by (simp add: bind_def upd_state_def)

lemma set_result_run:
  assumes "index < 4"
  obtains w' where "SetSecretRotationResult E now index r (w, []) = (Inr (), w', [])"
    "calm (w\<lparr>rw_state := (rw_state w)\<lparr>rs_secretResults := (rs_secretResults (rw_state w))[index := Some (r, now)]\<rparr>\<rparr>) w'"
proof -
  define w1 where "w1 = w\<lparr>rw_state := (rw_state w)\<lparr>rs_secretResults := (rs_secretResults (rw_state w))[index := Some (r, now)],
      rs_secretLastRotatedAt := (rs_secretLastRotatedAt (rw_state w))[index := Some now]\<rparr>\<rparr>"
  define rest :: "(('a, 'b) replica, unit) sql" where
    "rest = bind (persist E (rotation_keys ! index @ ''_at'') (fmt_seconds now)) (\<lambda>_.
        bind (persist E (rotation_keys ! index @ ''_result'') r) (\<lambda>_.
        bind (if (index = 0 \<or> index = 1) \<and> r = ''success'' then
                bind (upd_state (\<lambda>s. s\<lparr>rs_secondaryKeyActive := (rs_secondaryKeyActive s)[index := True]\<rparr>)) (\<lambda>_.
                  persist E (rotation_keys ! index @ ''_secondary'') ''true'')
              else ret ()) (\<lambda>_.
        publish E ''rotation:sync'')))"
  have "quiet calm rest" unfolding rest_def using bookkeeping_keys [OF assms] by (intro quiet_intros) simp_all
  then obtain w' where w': "rest (w1, []) = (Inr (), w', [])" "calm w1 w'" by (rule quietE)
  have "SetSecretRotationResult E now index r (w, []) = rest (w1, [])"
    by (simp only: SetSecretRotationResult_def assms if_True bind_upd_state rest_def w1_def)
  then show ?thesis using that w' by (simp add: calm_def w1_def setting_cell_def)
qed

section \<open>Rotations of the encryption key\<close>

lemma same_secrets_calm: "calm w w' \<Longrightarrow> same_secrets D d D' w \<Longrightarrow> same_secrets D d D' w'"
  by (simp add: same_secrets_def calm_def channel_cell_def)

text \<open>No secret of the tables can be read.\<close>

definition unreadable :: "(string \<Rightarrow> string option) \<Rightarrow> 'a secretdb_scheme \<Rightarrow> bool" where
  "unreadable D d \<longleftrightarrow> (\<forall>i s. channel_cell d i = Some s \<and> s \<noteq> [] \<longrightarrow> D s = None) \<and>
     (\<forall>k v. secret_setting k \<and> setting_cell d k = Some v \<and> v \<noteq> [] \<longrightarrow> D v = None)"

lemma plain_upgrade:
  assumes up: "\<And>s. D s \<noteq> None \<Longrightarrow> D' s = D s" and eq: "map_option (plain D) a = map_option (plain F) b" and some: "\<And>s. b = Some s \<Longrightarrow> plain F s \<noteq> None"
  shows "map_option (plain D') a = map_option (plain F) b"
proof (cases a)
  case (Some x)
  then obtain y where "b = Some y" "plain D x = plain F y" using eq by (cases b) auto
  then have "plain D x \<noteq> None" using some by simp
  then have "plain D' x = plain D x" using up [of x] by (cases "x = []") (auto simp: plain_def)
  then show ?thesis using Some eq by simp
qed (use eq in \<open>cases b; simp\<close>)

lemma rotated_reads:
  assumes "decryptWithKey A key s = None" "decryptWithKey A (encryptKeyPrimary K) s \<noteq> None" "encryptKeyPrimary K \<noteq> []"
  shows "Decrypt A (RotateEncryptionKey key K) s = Decrypt A K s" "Decrypt A K s \<noteq> None"
  using assms by (auto simp: Decrypt_def RotateEncryptionKey_def)

lemma same_secrets_upgrade:
  assumes "\<And>s. D s \<noteq> None \<Longrightarrow> D' s = D s" "readable F d" "same_secrets F d D d'"
  shows "same_secrets F d D' d'"
proof -
  have c: "map_option (plain D') (channel_cell d' i) = map_option (plain F) (channel_cell d i)" for i
  proof (rule plain_upgrade [OF assms(1)])
    show "plain F s \<noteq> None" if "channel_cell d i = Some s" for s using assms(2) that by (simp add: readable_def plain_def)
  qed (use assms(3) in \<open>simp_all add: same_secrets_def\<close>)
  have "map_option (plain D') (setting_cell d' k) = map_option (plain F) (setting_cell d k)" if k: "secret_setting k" for k
  proof (rule plain_upgrade [OF assms(1)])
    show "plain F s \<noteq> None" if "setting_cell d k = Some s" for s using assms(2) that k by (simp add: readable_def plain_def)
  qed (use assms(3) k in \<open>simp_all add: same_secrets_def\<close>)
  with c show ?thesis by (simp add: same_secrets_def)
qed

lemma same_secrets_cong:
  assumes "\<And>i s. channel_cell d i = Some s \<Longrightarrow> s \<noteq> [] \<Longrightarrow> F s = G s" "\<And>k v. secret_setting k \<Longrightarrow> setting_cell d k = Some v \<Longrightarrow> v \<noteq> [] \<Longrightarrow> F v = G v"
  shows "same_secrets F d D d' \<longleftrightarrow> same_secrets G d D d'"
proof -
  have c: "map_option (plain F) (channel_cell d i) = map_option (plain G) (channel_cell d i)" for i
    using assms(1) by (cases "channel_cell d i") (auto simp: plain_def)
  have s: "secret_setting k \<Longrightarrow> map_option (plain F) (setting_cell d k) = map_option (plain G) (setting_cell d k)" for k
    using assms(2) by (cases "setting_cell d k") (auto simp: plain_def)
  show ?thesis by (simp add: same_secrets_def c s)
qed

lemma schedule_ok: "schedule_clear E now i (w, fs) = (Inr (), w\<lparr>rw_timers := rw_timers w @ [(now + rotationGracePeriod (re_env E ''SESSION_TIMEOUT_MIN''), i)]\<rparr>, fs)"
  by (simp add: schedule_clear_def)

text \<open>
  A rotation of the encryption key in which nothing fails keeps every secret: what can be read with the new keys, and with the
  new key alone once the old one is dropped, is what could be read before. (C32)
\<close>

theorem rotation_keeps_secrets:
  assumes laws: "aead_laws (re_aead E)" "good_nonces rndC" "good_nonces rndS"
    and wf: "keys_distinct w" "length (rs_secretResults (rw_state w)) = 4" "encryptKeyPrimary (rw_keys w) \<noteq> []"
    and old: "readable (decryptWithKey (re_aead E) (encryptKeyPrimary (rw_keys w))) w"
    and new: "unreadable (decryptWithKey (re_aead E) key) w"
  shows "\<exists>w'. cb_RotateEncryptionKey E now rndC rndS key (w, []) = (Inr (), w', []) \<and> getSecretResult (rw_state w') 1 = ''success'' \<and>
    same_secrets (Decrypt (re_aead E) (rw_keys w)) w (Decrypt (re_aead E) (rw_keys w')) w' \<and>
    same_secrets (Decrypt (re_aead E) (rw_keys w)) w (Decrypt (re_aead E) (ClearSecondaryEncryptionKey (rw_keys w'))) w'"
proof -
  let ?A = "re_aead E" and ?K = "RotateEncryptionKey key (rw_keys w)"
  define w1 where "w1 = w\<lparr>rw_keys := ?K\<rparr>"
  have K: "encryptKeyPrimary ?K = key" "encryptKeySecondary ?K = encryptKeyPrimary (rw_keys w)" by (simp_all add: RotateEncryptionKey_def)
  have cells: "channel_cell w1 = channel_cell w" "setting_cell w1 = setting_cell w" by (simp_all add: w1_def channel_cell_def setting_cell_def fun_eq_iff)
  have rd: "readable (Decrypt ?A ?K) w1"
    unfolding readable_def cells
  proof (intro conjI allI impI)
    show "Decrypt ?A ?K s \<noteq> None" if "channel_cell w i = Some s \<and> s \<noteq> []" for i s
      using old new that wf(3) rotated_reads [of ?A key s "rw_keys w"] unfolding readable_def unreadable_def by metis
    show "Decrypt ?A ?K v \<noteq> None" if "secret_setting k \<and> setting_cell w k = Some v \<and> v \<noteq> []" for k v
      using old new that wf(3) rotated_reads [of ?A key v "rw_keys w"] unfolding readable_def unreadable_def by metis
  qed
  obtain n w2 where w2: "ReencryptAllSecrets ?A ?K rndC rndS (w1, []) = (Inr ((n, 0), None), w2, [])" "w2 = w1\<lparr>sd_channels := sd_channels w2, sd_settings := sd_settings w2\<rparr>"
    "same_secrets (Decrypt ?A ?K) w1 (decryptWithKey ?A key) w2"
    using reencrypt_all [OF laws, of w1 ?K] rd wf(1) K by (auto simp: keys_distinct_def w1_def)
  obtain w3 where w3: "SetSecretRotationResult E now 1 ''success'' (w2, []) = (Inr (), w3, [])"
    "calm (w2\<lparr>rw_state := (rw_state w2)\<lparr>rs_secretResults := (rs_secretResults (rw_state w2))[1 := Some (''success'', now)]\<rparr>\<rparr>) w3"
    using set_result_run [of 1 E now "''success''" w2] by auto
  define w' where "w' = w3\<lparr>rw_timers := rw_timers w3 @ [(now + rotationGracePeriod (re_env E ''SESSION_TIMEOUT_MIN''), 1)]\<rparr>"
  have run: "cb_RotateEncryptionKey E now rndC rndS key (w, []) = (Inr (), w', [])"
    using w2(1) w3(1) by (simp add: cb_RotateEncryptionKey_def bind_def Let_def w1_def schedule_ok w'_def)
  have f2: "rw_keys w2 = ?K" "rw_state w2 = rw_state w" by (subst w2(2), simp add: w1_def)+
  have keys: "rw_keys w' = ?K" using w3(2) f2 by (simp add: calm_def w'_def)
  have result: "getSecretResult (rw_state w') 1 = ''success''"
    using w3(2) f2 wf(2) by (simp add: calm_def w'_def getSecretResult_def)
  have sealed: "same_secrets (Decrypt ?A ?K) w1 (decryptWithKey ?A key) w'"
    using same_secrets_calm [OF w3(2)] w2(3) by (simp add: w'_def same_secrets_def channel_cell_def setting_cell_def)
  have "same_secrets (Decrypt ?A ?K) w1 D w' \<longleftrightarrow> same_secrets (Decrypt ?A ?K) w D w'" for D by (simp add: same_secrets_def cells)
  also have "same_secrets (Decrypt ?A ?K) w D w' \<longleftrightarrow> same_secrets (Decrypt ?A (rw_keys w)) w D w'" for D
    using old new wf(3) by (intro same_secrets_cong rotated_reads) (auto simp: readable_def unreadable_def)
  finally have first: "same_secrets (Decrypt ?A ?K) w1 D w' \<longleftrightarrow> same_secrets (Decrypt ?A (rw_keys w)) w D w'" for D .
  have "same_secrets (Decrypt ?A ?K) w1 (Decrypt ?A ?K) w'"
    by (rule same_secrets_upgrade [OF _ rd sealed]) (auto simp: Decrypt_def K split: option.splits)
  moreover have "Decrypt ?A (ClearSecondaryEncryptionKey ?K) = decryptWithKey ?A key"
    by (auto simp: fun_eq_iff Decrypt_def ClearSecondaryEncryptionKey_def K split: option.splits)
  ultimately show ?thesis using run result sealed first keys by auto
qed

text \<open>An instance of the laws, and a replica with two secrets.\<close>

definition demo_aead :: aead where
  "demo_aead = \<lparr>gcm_seal = (\<lambda>k n p. k @ p), gcm_open = (\<lambda>k n c. if has_prefix c k then Some (drop (length k) c) else None), sha256_sum = id\<rparr>"

lemma demo_aead_laws: "aead_laws demo_aead"
  by (simp add: aead_laws_def demo_aead_def has_prefix_iff)

definition demo_nonce :: string where "demo_nonce = ''0123456789ab''"

definition demo_sealed :: "string \<Rightarrow> string \<Rightarrow> string" where
  "demo_sealed k p = hex_encode (demo_nonce @ k @ p)"

definition demo_rotation :: rotation_env where
  "demo_rotation = \<lparr>re_aead = demo_aead, re_env = (\<lambda>_. []), re_connect = (\<lambda>_. None), re_dial = (\<lambda>_. None), re_vault = True, re_pool = True, re_broadcast = False\<rparr>"

definition demo_replica :: "(bool, bool) replica" where
  "demo_replica = \<lparr>sd_channels = [(1, Some (demo_sealed ''a'' ''hook'')), (2, None)], sd_settings = [(''smtp_password'', demo_sealed ''a'' ''pw'')], sd_audit = [],
     rw_kv = [], rw_cache = [], rw_rotateNow = False, rw_keys = \<lparr>encryptKeyPrimary = ''a'', encryptKeySecondary = []\<rparr>,
     rw_auth = \<lparr>ac_primary = ''key'', ac_secondary = None, ac_rsaPriv = None, ac_rsaPub = None, ac_rsaPubSecondary = None\<rparr>,
     rw_state = rotation_init, rw_pool = \<lparr>dp_dsn = [], dp_lastRotatedAt = None, dp_lastResult = [], dp_lastError = []\<rparr>, rw_queue = None,
     rw_timers = [], rw_sent = []\<rparr>"

lemma demo_decrypt:
  "decryptWithKey demo_aead k (demo_sealed k' p) = (if has_prefix (k' @ p) k then Some (drop (length k) (k' @ p)) else None)"
  by (simp add: decryptWithKey_def demo_sealed_def demo_nonce_def nonceSize_def deriveKey_def demo_aead_def)

lemma demo_cells:
  "channel_cell demo_replica i = Some s \<Longrightarrow> s = demo_sealed ''a'' ''hook''" "setting_cell demo_replica k = Some v \<Longrightarrow> v = demo_sealed ''a'' ''pw''"
  by (auto simp: channel_cell_def setting_cell_def demo_replica_def split: option.splits if_splits)

lemma demo_secrets: "readable (decryptWithKey demo_aead ''a'') demo_replica" "unreadable (decryptWithKey demo_aead ''b'') demo_replica"
  by (auto simp: readable_def unreadable_def demo_decrypt dest!: demo_cells)

lemma demo_good_nonces: "good_nonces (\<lambda>_. Some demo_nonce)"
  by (simp add: good_nonces_def demo_nonce_def nonceSize_def)

theorem rotation_keeps_secrets_witness:
  "\<exists>w'. cb_RotateEncryptionKey demo_rotation 0 (\<lambda>_. Some demo_nonce) (\<lambda>_. Some demo_nonce) ''b'' (demo_replica, []) = (Inr (), w', []) \<and>
     same_secrets (Decrypt demo_aead (rw_keys demo_replica)) demo_replica (Decrypt demo_aead (rw_keys w')) w'"
proof -
  have "\<exists>w'. cb_RotateEncryptionKey demo_rotation 0 (\<lambda>_. Some demo_nonce) (\<lambda>_. Some demo_nonce) ''b'' (demo_replica, []) = (Inr (), w', []) \<and>
      getSecretResult (rw_state w') 1 = ''success'' \<and>
      same_secrets (Decrypt (re_aead demo_rotation) (rw_keys demo_replica)) demo_replica (Decrypt (re_aead demo_rotation) (rw_keys w')) w' \<and>
      same_secrets (Decrypt (re_aead demo_rotation) (rw_keys demo_replica)) demo_replica (Decrypt (re_aead demo_rotation) (ClearSecondaryEncryptionKey (rw_keys w'))) w'"
    by (rule rotation_keeps_secrets)
      (use demo_aead_laws demo_good_nonces demo_secrets in \<open>simp_all add: demo_rotation_def keys_distinct_def demo_replica_def rotation_init_def\<close>)
  then show ?thesis by (auto simp: demo_rotation_def)
qed

section \<open>Rotations that lose secrets\<close>

lemma fault_first: "query f (d, True # fs) = (Inl SqlErr, d, fs)"
  by (simp add: query_def stmt_def)

lemma clear_flag_run:
  assumes "index < 2"
  obtains w' where "ClearSecondaryKeyFlag E index (w, []) = (Inr (Some ()), w', [])" "calm w w'"
proof -
  define w1 where "w1 = w\<lparr>rw_state := (rw_state w)\<lparr>rs_secondaryKeyActive := (rs_secondaryKeyActive (rw_state w))[index := False]\<rparr>\<rparr>"
  have "quiet calm (bind (persist E (rotation_keys ! index @ ''_secondary'') ''false'') (\<lambda>_. publish E ''rotation:sync''))"
    using assms bookkeeping_keys [of index] by (intro quiet_intros) simp_all
  then obtain w' where w': "bind (persist E (rotation_keys ! index @ ''_secondary'') ''false'') (\<lambda>_. publish E ''rotation:sync'') (w1, []) = (Inr (), w', [])" "calm w1 w'"
    by (rule quietE)
  have "bind (persist E (rotation_keys ! index @ ''_secondary'') ''false'') (\<lambda>_. bind (publish E ''rotation:sync'') (\<lambda>_. ret (Some ()))) (w1, []) =
      bind (bind (persist E (rotation_keys ! index @ ''_secondary'') ''false'') (\<lambda>_. publish E ''rotation:sync'')) (\<lambda>_. ret (Some ())) (w1, [])"
    by (simp only: bind_bind)
  also have "\<dots> = (Inr (Some ()), w', [])" using w'(1) by (simp add: bind_def [of _ "\<lambda>_. ret (Some ())"])
  finally have "ClearSecondaryKeyFlag E index (w, []) = (Inr (Some ()), w', [])"
    using assms by (simp add: ClearSecondaryKeyFlag_def bind_upd_state w1_def)
  then show ?thesis using that w'(2) by (simp add: calm_def w1_def setting_cell_def)
qed

lemma clear_fires_one:
  assumes "rw_timers w = [(t, 1)]" "t \<le> now"
  obtains w' where "clear_fires E now (w, []) = (Inr (), w', [])" "rw_keys w' = ClearSecondaryEncryptionKey (rw_keys w)" "sd_channels w' = sd_channels w"
    "\<forall>k. secret_setting k \<longrightarrow> setting_cell w' k = setting_cell w k"
proof -
  obtain w' where "ClearSecondaryKeyFlag E 1 (w\<lparr>rw_timers := [], rw_keys := ClearSecondaryEncryptionKey (rw_keys w)\<rparr>, []) = (Inr (Some ()), w', [])"
    "calm (w\<lparr>rw_timers := [], rw_keys := ClearSecondaryEncryptionKey (rw_keys w)\<rparr>) w'"
    using clear_flag_run [of 1] by auto
  then show ?thesis using that assms by (auto simp: clear_fires_def bind_def calm_def setting_cell_def)
qed

text \<open>
  When the query for the secrets of the channels fails, the rotation counts no failed row, reports success and drops the old key
  after the grace period: the secrets are still sealed with it, and nothing can read them any more.
\<close>

theorem failed_query_loses_secrets:
  assumes "unreadable (decryptWithKey (re_aead E) key) w" "length (rs_secretResults (rw_state w)) = 4" "rw_timers w = []"
    and "now + rotationGracePeriod (re_env E ''SESSION_TIMEOUT_MIN'') \<le> later"
  shows "\<exists>w1 w2. cb_RotateEncryptionKey E now rndC rndS key (w, [True]) = (Inr (), w1, []) \<and> getSecretResult (rw_state w1) 1 = ''success'' \<and>
    clear_fires E later (w1, []) = (Inr (), w2, []) \<and> sd_channels w2 = sd_channels w \<and> unreadable (Decrypt (re_aead E) (rw_keys w2)) w2"
proof -
  let ?A = "re_aead E" and ?w = "w\<lparr>rw_keys := RotateEncryptionKey key (rw_keys w)\<rparr>"
  obtain w0 where w0: "SetSecretRotationResult E now 1 ''success'' (?w, []) = (Inr (), w0, [])"
    "calm (?w\<lparr>rw_state := (rw_state ?w)\<lparr>rs_secretResults := (rs_secretResults (rw_state ?w))[1 := Some (''success'', now)]\<rparr>\<rparr>) w0"
    using set_result_run [of 1 E now "''success''" ?w] by auto
  define t where "t = now + rotationGracePeriod (re_env E ''SESSION_TIMEOUT_MIN'')"
  define w1 where "w1 = w0\<lparr>rw_timers := rw_timers w0 @ [(t, 1)]\<rparr>"
  have run: "cb_RotateEncryptionKey E now rndC rndS key (w, [True]) = (Inr (), w1, [])"
    using w0(1) by (simp add: cb_RotateEncryptionKey_def bind_def Let_def ReencryptAllSecrets_def attempt_def channel_secrets_def fault_first schedule_ok w1_def t_def)
  have "rw_timers w1 = [(t, 1)]" using w0(2) assms(3) by (simp add: w1_def calm_def)
  then obtain w2 where w2: "clear_fires E later (w1, []) = (Inr (), w2, [])" "rw_keys w2 = ClearSecondaryEncryptionKey (rw_keys w1)"
    "sd_channels w2 = sd_channels w1" "\<forall>k. secret_setting k \<longrightarrow> setting_cell w2 k = setting_cell w1 k"
    using clear_fires_one [of w1 t later E] assms(4) t_def by auto
  have "Decrypt ?A (rw_keys w2) = decryptWithKey ?A key"
    using w2(2) w0(2) by (auto simp: fun_eq_iff w1_def calm_def Decrypt_def ClearSecondaryEncryptionKey_def RotateEncryptionKey_def split: option.splits)
  moreover have "channel_cell w2 = channel_cell w" "\<forall>k. secret_setting k \<longrightarrow> setting_cell w2 k = setting_cell w k" "sd_channels w2 = sd_channels w"
    using w2(3,4) w0(2) by (simp_all add: w1_def calm_def channel_cell_def setting_cell_def fun_eq_iff)
  ultimately have "unreadable (Decrypt ?A (rw_keys w2)) w2" "sd_channels w2 = sd_channels w" using assms(1) by (auto simp: unreadable_def)
  moreover have "getSecretResult (rw_state w1) 1 = ''success''" using w0(2) assms(2) by (simp add: w1_def calm_def getSecretResult_def)
  ultimately show ?thesis using run w2(1) by blast
qed

theorem failed_query_loses_secrets_witness:
  "\<exists>w1 w2. cb_RotateEncryptionKey demo_rotation 0 (\<lambda>_. None) (\<lambda>_. None) ''b'' (demo_replica, [True]) = (Inr (), w1, []) \<and>
     getSecretResult (rw_state w1) 1 = ''success'' \<and> clear_fires demo_rotation Hour (w1, []) = (Inr (), w2, []) \<and>
     sd_channels w2 = sd_channels demo_replica \<and> unreadable (Decrypt (re_aead demo_rotation) (rw_keys w2)) w2"
proof (rule failed_query_loses_secrets)
  show "unreadable (decryptWithKey (re_aead demo_rotation) ''b'') demo_replica" using demo_secrets(2) by (simp add: demo_rotation_def)
  have "trim_space [] = []" by (simp add: trim_space_def)
  then show "0 + rotationGracePeriod (re_env demo_rotation ''SESSION_TIMEOUT_MIN'') \<le> Hour"
    by (simp add: rotationGracePeriod_def demo_rotation_def Let_def dur_mul_def int64_def Minute_def Hour_def)
qed (simp_all add: demo_replica_def rotation_init_def)

lemma reencrypt_rows_fail:
  "(\<forall>row \<in> set rows. Decrypt A K (snd row) = None) \<Longrightarrow> reencrypt_rows A K upd rnd rows (good, bad) (d, fs) = (Inr (good, bad + length rows), d, fs)"
  by (induction rows arbitrary: bad) auto

lemma reencrypt_all_fail:
  assumes "keys_distinct d" "unreadable (Decrypt A K) d"
  shows "\<exists>n err. ReencryptAllSecrets A K rndC rndS (d, []) = (Inr ((0, n), err), d, [])"
proof -
  have "\<forall>row \<in> set (channel_rows d). Decrypt A K (snd row) = None" "\<forall>row \<in> set (setting_rows d). Decrypt A K (snd row) = None"
    using assms channel_rows_cells(2) [of d] setting_rows_cells(2) [of d] by (auto simp: keys_distinct_def unreadable_def)
  then show ?thesis
    by (simp add: ReencryptAllSecrets_def attempt_def bind_def channel_secrets_def setting_secrets_def reencrypt_rows_fail flip: channel_rows_def setting_rows_def)
qed

lemma unreadable_calm: "calm w w' \<Longrightarrow> unreadable D w \<Longrightarrow> unreadable D w'"
  by (auto simp: unreadable_def calm_def channel_cell_def)

lemma cb_encryption_lost:
  assumes "keys_distinct w" "unreadable (Decrypt (re_aead E) (RotateEncryptionKey s (rw_keys w))) w"
  obtains w' where "cb_RotateEncryptionKey E now rndC rndS s (w, []) = (Inr (), w', [])" "rw_keys w' = RotateEncryptionKey s (rw_keys w)"
    "unreadable (Decrypt (re_aead E) (rw_keys w')) w'"
proof -
  let ?K = "RotateEncryptionKey s (rw_keys w)" and ?w = "w\<lparr>rw_keys := RotateEncryptionKey s (rw_keys w)\<rparr>"
  have un: "unreadable (Decrypt (re_aead E) ?K) ?w" "keys_distinct ?w" using assms by (simp_all add: unreadable_def keys_distinct_def channel_cell_def setting_cell_def)
  then obtain n err where r: "ReencryptAllSecrets (re_aead E) ?K rndC rndS (?w, []) = (Inr ((0, n), err), ?w, [])" using reencrypt_all_fail by blast
  define res where "res = (if n > 0 then ''failed'' else ''success'')"
  obtain w0 where w0: "SetSecretRotationResult E now 1 res (?w, []) = (Inr (), w0, [])"
    "calm (?w\<lparr>rw_state := (rw_state ?w)\<lparr>rs_secretResults := (rs_secretResults (rw_state ?w))[1 := Some (res, now)]\<rparr>\<rparr>) w0"
    using set_result_run [of 1 E now res ?w] by auto
  have "unreadable (Decrypt (re_aead E) ?K) (?w\<lparr>rw_state := x\<rparr>)" for x using un(1) by (simp add: unreadable_def channel_cell_def setting_cell_def)
  then have w0u: "rw_keys w0 = ?K" "unreadable (Decrypt (re_aead E) ?K) w0" using unreadable_calm [OF w0(2)] w0(2) by (simp_all add: calm_def)
  define w' where "w' = (if n > 0 then w0 else w0\<lparr>rw_timers := rw_timers w0 @ [(now + rotationGracePeriod (re_env E ''SESSION_TIMEOUT_MIN''), 1)]\<rparr>)"
  have "cb_RotateEncryptionKey E now rndC rndS s (w, []) = (Inr (), w', [])"
    using r w0(1) by (simp add: cb_RotateEncryptionKey_def bind_def Let_def schedule_ok w'_def res_def split: if_splits)
  moreover have "rw_keys w' = ?K" using w0u(1) by (simp add: w'_def)
  moreover have "unreadable (Decrypt (re_aead E) ?K) w'"
    using w0u(2) by (cases "0 < n") (simp_all add: w'_def unreadable_def channel_cell_def setting_cell_def)
  ultimately show ?thesis using that by auto
qed

text \<open>
  The ticker of the leader itself reads the key that the rotation has just written to Vault, before the rotation's callback runs.
  The callback then moves the new key into both places, and no stored secret can be read any more.
\<close>

theorem ticker_overtakes_rotation:
  assumes "re_vault E" "s \<noteq> []" "s \<noteq> encryptKeyPrimary (rw_keys w)" "map_of (rw_kv w) ''jwt_secret'' \<in> {None, Some (ac_primary (rw_auth w))}"
    and "keys_distinct w" "unreadable (decryptWithKey (re_aead E) s) w"
  shows "\<exists>w'. bind (WriteSecret E now ''encryption_key'' s) (\<lambda>_. bind (sync_keys E) (\<lambda>_. cb_RotateEncryptionKey E now rndC rndS s)) (w, []) = (Inr (), w', []) \<and>
    rw_keys w' = \<lparr>encryptKeyPrimary = s, encryptKeySecondary = s\<rparr> \<and> unreadable (Decrypt (re_aead E) (rw_keys w')) w'"
proof -
  define w1 where "w1 = fst (snd (WriteSecret E now ''encryption_key'' s (w, [])))"
  have wr: "WriteSecret E now ''encryption_key'' s (w, []) = (Inr (), w1, [])" using assms(1) by (simp add: WriteSecret_def w1_def Let_def)
  have w1: "rw_kv w1 = put_setting ''encryption_key'' s (rw_kv w)" "rw_keys w1 = rw_keys w" "rw_auth w1 = rw_auth w"
    "sd_channels w1 = sd_channels w" "sd_settings w1 = sd_settings w"
    using assms(1) by (simp_all add: w1_def WriteSecret_def Let_def put_cache_def)
  define w2 where "w2 = w1\<lparr>rw_keys := RotateEncryptionKey s (rw_keys w)\<rparr>"
  have sync: "sync_keys E (w1, []) = (Inr (), w2, [])"
    using assms(1-4) by (auto simp: sync_keys_def GetSecretNoCache_def fetch_def attempt_def bind_def w1 map_of_put w2_def)
  have K: "RotateEncryptionKey s (rw_keys w2) = \<lparr>encryptKeyPrimary = s, encryptKeySecondary = s\<rparr>" by (simp add: w2_def RotateEncryptionKey_def)
  have "keys_distinct w2" "unreadable (Decrypt (re_aead E) (RotateEncryptionKey s (rw_keys w2))) w2"
    using assms(5,6) unfolding K by (auto simp: keys_distinct_def unreadable_def channel_cell_def setting_cell_def w2_def w1 Decrypt_def)
  from cb_encryption_lost [OF this] obtain w' where "cb_RotateEncryptionKey E now rndC rndS s (w2, []) = (Inr (), w', [])"
    "rw_keys w' = RotateEncryptionKey s (rw_keys w2)" "unreadable (Decrypt (re_aead E) (rw_keys w')) w'" by blast
  then show ?thesis using wr sync K by (auto simp: bind_def)
qed

theorem ticker_overtakes_rotation_witness:
  "\<exists>w'. bind (WriteSecret demo_rotation 0 ''encryption_key'' ''b'') (\<lambda>_. bind (sync_keys demo_rotation) (\<lambda>_.
       cb_RotateEncryptionKey demo_rotation 0 (\<lambda>_. Some demo_nonce) (\<lambda>_. Some demo_nonce) ''b'')) (demo_replica, []) = (Inr (), w', []) \<and>
     rw_keys w' = \<lparr>encryptKeyPrimary = ''b'', encryptKeySecondary = ''b''\<rparr> \<and> unreadable (Decrypt (re_aead demo_rotation) (rw_keys w')) w'"
  by (rule ticker_overtakes_rotation) (use demo_secrets(2) in \<open>simp_all add: demo_rotation_def demo_replica_def keys_distinct_def\<close>)

section \<open>Grace periods\<close>

lemma grace_bounds: "30 * Minute \<le> rotationGracePeriod v \<and> rotationGracePeriod v \<le> Hour"
  by (simp add: rotationGracePeriod_def Let_def Minute_def Hour_def)

lemma timestamps_quiet: "quiet calm (SetRotationTimestamps E a b)"
  unfolding SetRotationTimestamps_def by (intro quiet_intros) (simp_all add: secret_setting_def)

lemma jwt_callback_run:
  obtains w' where "cb_RotateJWTSecret E now s (w, []) = (Inr (), w', [])" "rw_auth w' = RotateSecret s (rw_auth w)"
    "rw_timers w' = rw_timers w @ [(now + rotationGracePeriod (re_env E ''SESSION_TIMEOUT_MIN''), 0)]"
proof -
  let ?w = "w\<lparr>rw_auth := RotateSecret s (rw_auth w)\<rparr>"
  obtain w1 where w1: "SetSecretRotationResult E now 0 ''success'' (?w, []) = (Inr (), w1, [])" "rw_auth w1 = RotateSecret s (rw_auth w)" "rw_timers w1 = rw_timers w"
    using set_result_run [of 0 E now "''success''" ?w] by (auto simp: calm_def)
  obtain w2 where w2: "SetRotationTimestamps E now (now + 24 * Hour) (w1, []) = (Inr (), w2, [])" "calm w1 w2" by (rule quietE [OF timestamps_quiet])
  then show ?thesis using that w1 by (simp add: cb_RotateJWTSecret_def bind_def schedule_ok calm_def)
qed

text \<open>
  Rotation of the signing secret (C31): after the rotation's callback has run, with no other grace period pending and no statement
  failing, a token signed before it is accepted as long as neither its own expiry nor the grace period (between thirty minutes and an
  hour) has passed, and rejected from then on, the timer having dropped the old secret; tokens signed with the
  new secret are accepted until they expire, before and after.
\<close>

theorem rotation_honours_grace_period:
  assumes "jwt_laws J" "ac_rsaPriv (rw_auth w) = None" "sign_claims J (rw_auth w) cl = Some tok"
    and "hmac_key s \<noteq> hmac_key (ac_primary (rw_auth w))" "rw_timers w = []"
    and "g = rotationGracePeriod (re_env E ''SESSION_TIMEOUT_MIN'')"
  shows "30 * Minute \<le> g \<and> g \<le> Hour \<and>
    (\<exists>w1. cb_RotateJWTSecret E t0 s (w, []) = (Inr (), w1, []) \<and>
      (\<forall>now. \<exists>w2. clear_fires E now (w1, []) = (Inr (), w2, []) \<and>
        ValidateToken J (rw_auth w2) now tok = (if now < t0 + g \<and> now < cl_exp cl * Second then Some cl else None) \<and>
        (\<forall>cl' tok'. sign_claims J (rw_auth w1) cl' = Some tok' \<longrightarrow>
          ValidateToken J (rw_auth w2) now tok' = (if now < cl_exp cl' * Second then Some cl' else None))))"
proof -
  obtain w1 where w1: "cb_RotateJWTSecret E t0 s (w, []) = (Inr (), w1, [])" "rw_auth w1 = RotateSecret s (rw_auth w)" "rw_timers w1 = [(t0 + g, 0)]"
    using jwt_callback_run [of E t0 s w] assms(5,6) by auto
  have fires: "\<exists>w2. clear_fires E now (w1, []) = (Inr (), w2, []) \<and>
      rw_auth w2 = (if now < t0 + g then rw_auth w1 else ClearSecondarySecret (rw_auth w1))" for now
  proof (cases "now < t0 + g")
    case True
    with w1(3) show ?thesis by (simp add: clear_fires_def bind_def)
  next
    case False
    let ?w = "w1\<lparr>rw_timers := [], rw_auth := ClearSecondarySecret (rw_auth w1)\<rparr>"
    obtain w2 where "ClearSecondaryKeyFlag E 0 (?w, []) = (Inr (Some ()), w2, [])" "calm ?w w2" using clear_flag_run [of 0 E ?w] by auto
    with False w1(3) show ?thesis by (auto simp: clear_fires_def bind_def calm_def)
  qed
  have old: "ValidateToken J (rw_auth w1) now tok = (if now < cl_exp cl * Second then Some cl else None)"
    "ValidateToken J (ClearSecondarySecret (rw_auth w1)) now tok = None" for now
    using assms(1-4)
    by (auto simp: w1(2) jwt_laws_def hmac_accepts_def sign_claims_def ValidateToken_def validateJWT_def RotateSecret_def ClearSecondarySecret_def)
  have new: "ValidateToken J (rw_auth w1) now tok' = (if now < cl_exp cl' * Second then Some cl' else None)"
    "ValidateToken J (ClearSecondarySecret (rw_auth w1)) now tok' = (if now < cl_exp cl' * Second then Some cl' else None)"
    if "sign_claims J (rw_auth w1) cl' = Some tok'" for now cl' tok'
    using assms(1,2) that
    by (auto simp: w1(2) jwt_laws_def hmac_accepts_def sign_claims_def ValidateToken_def validateJWT_def RotateSecret_def ClearSecondarySecret_def)
  have "\<exists>w2. clear_fires E now (w1, []) = (Inr (), w2, []) \<and>
        ValidateToken J (rw_auth w2) now tok = (if now < t0 + g \<and> now < cl_exp cl * Second then Some cl else None) \<and>
        (\<forall>cl' tok'. sign_claims J (rw_auth w1) cl' = Some tok' \<longrightarrow>
          ValidateToken J (rw_auth w2) now tok' = (if now < cl_exp cl' * Second then Some cl' else None))" for now
  proof -
    obtain w2 where "clear_fires E now (w1, []) = (Inr (), w2, [])"
      "rw_auth w2 = (if now < t0 + g then rw_auth w1 else ClearSecondarySecret (rw_auth w1))" using fires by blast
    then show ?thesis using old new by (cases "now < t0 + g") auto
  qed
  then show ?thesis using w1(1) grace_bounds assms(6) by blast
qed

theorem rotation_honours_grace_period_witness:
  "\<exists>w1 w2 w3. cb_RotateJWTSecret demo_rotation 0 ''b'' (demo_replica, []) = (Inr (), w1, []) \<and>
     clear_fires demo_rotation (50 * Second) (w1, []) = (Inr (), w2, []) \<and>
     ValidateToken one_jwt (rw_auth w2) (50 * Second) ''h'' = Some demo_claims \<and>
     clear_fires demo_rotation (2 * Hour) (w1, []) = (Inr (), w3, []) \<and> ValidateToken one_jwt (rw_auth w3) (2 * Hour) ''h'' = None"
proof -
  have "sign_claims one_jwt (rw_auth demo_replica) demo_claims = Some ''h''" "ac_rsaPriv (rw_auth demo_replica) = None" "rw_timers demo_replica = []"
    "hmac_key ''b'' \<noteq> hmac_key (ac_primary (rw_auth demo_replica))"
    by (simp_all add: sign_claims_def one_jwt_def demo_replica_def hmac_key_def)
  from rotation_honours_grace_period [OF one_jwt_laws this(2,1,4,3) refl, where E = demo_rotation and ?t0.0 = 0]
  obtain w1 where g: "30 * Minute \<le> rotationGracePeriod (re_env demo_rotation ''SESSION_TIMEOUT_MIN'')"
      "rotationGracePeriod (re_env demo_rotation ''SESSION_TIMEOUT_MIN'') \<le> Hour"
    and run: "cb_RotateJWTSecret demo_rotation 0 ''b'' (demo_replica, []) = (Inr (), w1, [])"
    and fires: "\<forall>now. \<exists>w2. clear_fires demo_rotation now (w1, []) = (Inr (), w2, []) \<and>
        ValidateToken one_jwt (rw_auth w2) now ''h'' =
          (if now < 0 + rotationGracePeriod (re_env demo_rotation ''SESSION_TIMEOUT_MIN'') \<and> now < cl_exp demo_claims * Second then Some demo_claims else None)"
    by blast
  obtain w2 where w2: "clear_fires demo_rotation (50 * Second) (w1, []) = (Inr (), w2, [])"
      "ValidateToken one_jwt (rw_auth w2) (50 * Second) ''h'' = Some demo_claims"
    using fires [rule_format, of "50 * Second"] g by (auto simp: Second_def Minute_def demo_claims_def)
  obtain w3 where w3: "clear_fires demo_rotation (2 * Hour) (w1, []) = (Inr (), w3, [])"
      "ValidateToken one_jwt (rw_auth w3) (2 * Hour) ''h'' = None"
    using fires [rule_format, of "2 * Hour"] g by (auto simp: Hour_def)
  show ?thesis using run w2 w3 by blast
qed

text \<open>
  Two rotations of the signing key within a grace period: the timer of the first drops the key the second has just put aside, so
  tokens signed between the two are rejected before their own grace period is over.
\<close>

theorem first_timer_cuts_second_grace:
  assumes "jwt_laws J" "ac_rsaPriv (rw_auth w) = None" "sign_claims J (RotateSecret s1 (rw_auth w)) cl = Some tok" "hmac_key s1 \<noteq> hmac_key s2"
    and "rw_timers w = []" "t1 < t2"
    and "g = rotationGracePeriod (re_env E ''SESSION_TIMEOUT_MIN'')"
  shows "\<exists>w1 w2. bind (cb_RotateJWTSecret E t1 s1) (\<lambda>_. cb_RotateJWTSecret E t2 s2) (w, []) = (Inr (), w1, []) \<and>
    ValidateToken J (rw_auth w1) now tok = (if now < cl_exp cl * Second then Some cl else None) \<and>
    clear_fires E (t1 + g) (w1, []) = (Inr (), w2, []) \<and> (t2 + g, 0) \<in> set (rw_timers w2) \<and> ValidateToken J (rw_auth w2) now tok = None"
proof -
  obtain wa where wa: "cb_RotateJWTSecret E t1 s1 (w, []) = (Inr (), wa, [])" "rw_auth wa = RotateSecret s1 (rw_auth w)" "rw_timers wa = [(t1 + g, 0)]"
    using jwt_callback_run [of E t1 s1 w] assms(5,7) by auto
  obtain w1 where w1: "cb_RotateJWTSecret E t2 s2 (wa, []) = (Inr (), w1, [])" "rw_auth w1 = RotateSecret s2 (rw_auth wa)" "rw_timers w1 = [(t1 + g, 0), (t2 + g, 0)]"
    using jwt_callback_run [of E t2 s2 wa] wa(3) assms(7) by auto
  let ?w = "w1\<lparr>rw_timers := [(t2 + g, 0)], rw_auth := ClearSecondarySecret (rw_auth w1)\<rparr>"
  obtain w2 where w2: "ClearSecondaryKeyFlag E 0 (?w, []) = (Inr (Some ()), w2, [])" "calm ?w w2" using clear_flag_run [of 0 E ?w] by auto
  have clear: "clear_fires E (t1 + g) (w1, []) = (Inr (), w2, [])" using w1(3) assms(6) w2(1) by (simp add: clear_fires_def bind_def)
  have "rw_auth w2 = ClearSecondarySecret (rw_auth w1)" "rw_timers w2 = [(t2 + g, 0)]" using w2(2) by (simp_all add: calm_def)
  moreover have "ValidateToken J (rw_auth w1) now tok = (if now < cl_exp cl * Second then Some cl else None)"
    "ValidateToken J (ClearSecondarySecret (rw_auth w1)) now tok = None"
    using assms(1-4) by (auto simp: w1(2) wa(2) jwt_laws_def hmac_accepts_def sign_claims_def ValidateToken_def validateJWT_def RotateSecret_def ClearSecondarySecret_def)
  ultimately show ?thesis using wa(1) w1(1) clear by (auto simp: bind_def)
qed

theorem first_timer_cuts_second_grace_witness:
  "\<exists>w1 w2. bind (cb_RotateJWTSecret demo_rotation 0 ''key'') (\<lambda>_. cb_RotateJWTSecret demo_rotation Minute ''b'') (demo_replica\<lparr>rw_auth := (rw_auth demo_replica)\<lparr>ac_primary := ''a''\<rparr>\<rparr>, []) = (Inr (), w1, []) \<and>
     ValidateToken one_jwt (rw_auth w1) 0 ''h'' = Some demo_claims \<and>
     clear_fires demo_rotation (0 + rotationGracePeriod []) (w1, []) = (Inr (), w2, []) \<and> ValidateToken one_jwt (rw_auth w2) 0 ''h'' = None"
proof -
  let ?w = "demo_replica\<lparr>rw_auth := (rw_auth demo_replica)\<lparr>ac_primary := ''a''\<rparr>\<rparr>"
  have "sign_claims one_jwt (RotateSecret ''key'' (rw_auth ?w)) demo_claims = Some ''h''" "ac_rsaPriv (rw_auth ?w) = None" "rw_timers ?w = []"
    by (simp_all add: sign_claims_def one_jwt_def RotateSecret_def demo_replica_def)
  from first_timer_cuts_second_grace [OF one_jwt_laws this(2) this(1) _ this(3), of "''b''" 0 Minute "rotationGracePeriod []" demo_rotation 0]
  show ?thesis by (auto simp: demo_rotation_def Minute_def Second_def demo_claims_def hmac_key_def)
qed

end
