(* ===== verification/AdminUsers.thy ===== *)
theory AdminUsers
  imports AuthHandlers
begin

text \<open>
  The users as administrators see them: \<^verbatim>\<open>handler/admin.go\<close> and the statements of \<^verbatim>\<open>db/db.go\<close> behind it, and the record of what
  everyone did, \<^verbatim>\<open>GetAuditLogs\<close>. \<open>actor\<close> is the user of the request with the address it came from.
\<close>

section \<open>Statements\<close>

record UserSummary =
  um_ID :: int
  um_Username :: string

text \<open>\<open>ord\<close>: the order of names in the database's collation.\<close>

definition GetUserDirectory :: "(User list \<Rightarrow> User list) \<Rightarrow> (authdb, UserSummary list) sql" where
  "GetUserDirectory ord =
     query (\<lambda>d. Inr (map (\<lambda>u. \<lparr>um_ID = us_ID u, um_Username = us_Username u\<rparr>) (ord (filter us_IsActive (db_users d)))))"

definition GetAllUsers :: "(authdb, User list) sql" where
  "GetAllUsers = query (\<lambda>d. Inr (map (\<lambda>u. u\<lparr>us_PasswordHash := []\<rparr>) (sort_key (\<lambda>u. - us_CreatedAt u) (db_users d))))"

definition CreateUser :: "time \<Rightarrow> string \<Rightarrow> string \<Rightarrow> string \<Rightarrow> bool \<Rightarrow> string \<Rightarrow> (authdb, User) sql" where
  "CreateUser now username passwordHash email isAdmin role = stmt (\<lambda>d.
     if list_ex (\<lambda>u. us_Username u = username) (db_users d) \<or> length username > 100 \<or> length passwordHash > 255 \<or> length email > 255 \<or> length role > 50
     then Inl SqlErr
     else (let u = \<lparr>us_ID = db_seq d, us_Username = username, us_Email = email, us_PasswordHash = passwordHash, us_Role = role, us_AuthType = ''local'',
             us_IsAdmin = isAdmin, us_IsActive = True, us_CreatedAt = now, us_LastLoginAt = None, us_FailedLoginAttempts = 0,
             us_LockedUntil = None, us_PasswordChangedAt = Some now\<rparr>
           in Inr (u\<lparr>us_PasswordHash := [], us_AuthType := [], us_PasswordChangedAt := None\<rparr>, d\<lparr>db_users := db_users d @ [u], db_seq := db_seq d + 1\<rparr>)))"

text \<open>The columns the update reads back.\<close>

definition scan_updated :: "User \<Rightarrow> User" where
  "scan_updated u = u\<lparr>us_PasswordHash := [], us_AuthType := [], us_FailedLoginAttempts := 0, us_LockedUntil := None, us_PasswordChangedAt := None\<rparr>"

definition UpdateUser :: "int \<Rightarrow> string option \<Rightarrow> bool option \<Rightarrow> (authdb, User) sql" where
  "UpdateUser i role isActive =
     transaction_value
       (bind (case role of None \<Rightarrow> ret () | Some r \<Rightarrow> upd_user (\<lambda>u. us_ID u = i) (\<lambda>u. u\<lparr>us_Role := r, us_IsAdmin := (r = ''admin'')\<rparr>)) (\<lambda>_.
        bind (case isActive of None \<Rightarrow> ret () | Some a \<Rightarrow> upd_user (\<lambda>u. us_ID u = i) (\<lambda>u. u\<lparr>us_IsActive := a\<rparr>)) (\<lambda>_.
        query (\<lambda>d. map_sum id scan_updated (find_user (\<lambda>u. us_ID u = i) d)))))"

text \<open>
  The user that is never deleted is the first administrator the database happens to return (\<open>pick\<close>); with none the condition is
  unknown and nothing is deleted. \<open>referenced\<close>: whether a row of another table, such as a dashboard the user edited last,
  refers to the user without a rule for its deletion.
\<close>

definition DeleteUser :: "(User list \<Rightarrow> User) \<Rightarrow> (int \<Rightarrow> bool) \<Rightarrow> int \<Rightarrow> (authdb, unit) sql" where
  "DeleteUser pick referenced i = stmt (\<lambda>d.
     let admins = filter (\<lambda>u. us_Role u = ''admin'') (db_users d) in
     if \<not> is_int32 i then Inl SqlErr
     else if admins = [] \<or> us_ID (pick admins) = i then Inr ((), d)
     else if referenced i \<and> list_ex (\<lambda>u. us_ID u = i) (db_users d) then Inl SqlErr
     else Inr ((), d\<lparr>db_users := filter (\<lambda>u. us_ID u \<noteq> i) (db_users d), db_refresh := filter (\<lambda>r. rt_UserID r \<noteq> i) (db_refresh d),
                     db_history := filter (\<lambda>(u, h, t). u \<noteq> i) (db_history d)\<rparr>))"

section \<open>Handlers\<close>

record actor =
  act_id :: int
  act_name :: string
  act_ip :: string

definition admin_audit :: "actor \<Rightarrow> string \<Rightarrow> string \<Rightarrow> (authdb, unit) sql" where
  "admin_audit a action details = auth_audit (act_id a) (act_name a) action (act_ip a) details"

definition validRoles :: "string list" where
  "validRoles = [''admin'', ''editor'', ''viewer'']"

definition isValidRole :: "string \<Rightarrow> bool" where
  "isValidRole role \<longleftrightarrow> role \<in> set validRoles"

definition ListUsers :: "(authdb, User list resp) sql" where
  "ListUsers = attempt GetAllUsers (\<lambda>r. case r of Inl err \<Rightarrow> ret (Failure 500 ''admin.usersListFailed'') | Inr us \<Rightarrow> ret (Answer 200 us))"

definition ListUserDirectory :: "(User list \<Rightarrow> User list) \<Rightarrow> (authdb, UserSummary list resp) sql" where
  "ListUserDirectory ord =
     attempt (GetUserDirectory ord) (\<lambda>r. case r of Inl err \<Rightarrow> ret (Failure 500 ''admin.usersListFailed'') | Inr us \<Rightarrow> ret (Answer 200 us))"

record CreateUserRequest =
  cu_Username :: string
  cu_Email :: string
  cu_Password :: string
  cu_Role :: string
  cu_AuthType :: string

text \<open>The binding of the request; \<open>email_ok\<close> is the validator's test of addresses.\<close>

definition create_bound :: "(string \<Rightarrow> bool) \<Rightarrow> CreateUserRequest \<Rightarrow> bool" where
  "create_bound email_ok req \<longleftrightarrow> cu_Username req \<noteq> [] \<and> length (cu_Username req) \<le> 100 \<and> cu_Email req \<noteq> [] \<and> email_ok (cu_Email req) \<and>
     length (cu_Email req) \<le> 256 \<and> length (cu_Password req) \<le> 128 \<and> cu_Role req \<noteq> []"

definition CreateUser_handler ::
  "('k, 'p) auth_env \<Rightarrow> (string \<Rightarrow> bool) \<Rightarrow> time \<Rightarrow> string \<Rightarrow> actor \<Rightarrow> CreateUserRequest option \<Rightarrow> (authdb, User resp) sql" where
  "CreateUser_handler E email_ok now salt a body =
     (case body of
        None \<Rightarrow> ret (Failure 400 ''error.invalidRequestBody'')
      | Some req \<Rightarrow>
          (if \<not> create_bound email_ok req then ret (Failure 400 ''error.invalidRequestBody'')
           else if \<not> isValidRole (cu_Role req) then ret (Failure 400 ''admin.invalidRole'')
           else
             (let authType = (if cu_AuthType req = [] then ''local'' else cu_AuthType req); isAdmin = (cu_Role req = ''admin'') in
              if authType = ''ldap'' then
                attempt (CreateLDAPUser now (cu_Username req) (cu_Email req) (cu_Role req) isAdmin) (\<lambda>r. case r of
                  Inl err \<Rightarrow> ret (Failure 400 ''admin.ldapUserCreationFailed'')
                | Inr user \<Rightarrow>
                    bind (admin_audit a ''user_created'' (''created '' @ authType @ '' user '' @ cu_Username req)) (\<lambda>_. ret (Answer 201 user)))
              else if cu_Password req = [] \<or> length (cu_Password req) < 8 then ret (Failure 400 ''admin.passwordRequired'')
              else
                bind LoadPasswordPolicy (\<lambda>policy.
                if \<not> ValidatePasswordWithPolicy policy (cu_Password req) then ret (Failure 400 ''admin.passwordRequirements'')
                else
                  (case ae_bcrypt_gen E salt (cu_Password req) of
                     None \<Rightarrow> ret (Failure 500 ''admin.hashFailed'')
                   | Some hash \<Rightarrow>
                       attempt (CreateUser now (cu_Username req) hash (cu_Email req) isAdmin (cu_Role req)) (\<lambda>r. case r of
                         Inl err \<Rightarrow> ret (Failure 400 ''admin.userCreationFailed'')
                       | Inr user \<Rightarrow>
                           attempt (AddPasswordHistory now (us_ID user) hash) (\<lambda>_.
                           bind (admin_audit a ''user_created'' (''created local user '' @ cu_Username req)) (\<lambda>_. ret (Answer 201 user)))))))))"

definition bool_str :: "bool \<Rightarrow> string" where
  "bool_str b = (if b then ''true'' else ''false'')"

definition user_changes :: "User \<Rightarrow> string option \<Rightarrow> bool option \<Rightarrow> string list" where
  "user_changes old role isActive =
     (case role of None \<Rightarrow> [] | Some r \<Rightarrow> (if us_Role old \<noteq> r then [''role: '' @ us_Role old @ '' -> '' @ r] else [])) @
     (case isActive of None \<Rightarrow> [] | Some b \<Rightarrow> (if us_IsActive old \<noteq> b then [''is_active: '' @ bool_str (us_IsActive old) @ '' -> '' @ bool_str b] else []))"

text \<open>\<open>param\<close>: the identifier in the path; \<open>body\<close>: the role and the activity asked for.\<close>

definition UpdateUser_handler :: "actor \<Rightarrow> string \<Rightarrow> (string option \<times> bool option) option \<Rightarrow> (authdb, User resp) sql" where
  "UpdateUser_handler a param body =
     (case parseIDParam param of
        None \<Rightarrow> ret (Failure 400 ''error.invalidUserID'')
      | Some i \<Rightarrow>
          (case body of
             None \<Rightarrow> ret (Failure 400 ''error.invalidRequestBody'')
           | Some (role, isActive) \<Rightarrow>
               (if (case role of None \<Rightarrow> False | Some r \<Rightarrow> \<not> isValidRole r) then ret (Failure 400 ''admin.invalidRole'')
                else
                  attempt (GetUserByID i) (\<lambda>r. case r of
                    Inl err \<Rightarrow> ret (Failure 404 ''admin.userNotFound'')
                  | Inr oldUser \<Rightarrow>
                      attempt (UpdateUser i role isActive) (\<lambda>r. case r of
                        Inl err \<Rightarrow> ret (Failure 400 ''admin.userUpdateFailed'')
                      | Inr user \<Rightarrow>
                          (let changes = user_changes oldUser role isActive in
                           bind (admin_audit a ''user_updated'' (''updated user '' @ us_Username user @
                             (if changes \<noteq> [] then '' | changes: '' @ join '', '' changes else []))) (\<lambda>_. ret (Answer 200 user))))))))"

definition DeleteUser_handler :: "(User list \<Rightarrow> User) \<Rightarrow> (int \<Rightarrow> bool) \<Rightarrow> actor \<Rightarrow> string \<Rightarrow> (authdb, string resp) sql" where
  "DeleteUser_handler pick referenced a param =
     (case parseIDParam param of
        None \<Rightarrow> ret (Failure 400 ''error.invalidUserID'')
      | Some i \<Rightarrow>
          attempt (DeleteUser pick referenced i) (\<lambda>r. case r of
            Inl err \<Rightarrow> ret (Failure 400 ''admin.userDeleteFailed'')
          | Inr _ \<Rightarrow> bind (admin_audit a ''user_deleted'' (''deleted user id '' @ itoa i)) (\<lambda>_. ret (Answer 200 ''User deleted''))))"

definition ResetPassword :: "('k, 'p) auth_env \<Rightarrow> time \<Rightarrow> string \<Rightarrow> actor \<Rightarrow> string \<Rightarrow> string option \<Rightarrow> (authdb, string resp) sql" where
  "ResetPassword E now salt a param body =
     (case parseIDParam param of
        None \<Rightarrow> ret (Failure 400 ''error.invalidUserID'')
      | Some i \<Rightarrow>
          (case body of
             None \<Rightarrow> ret (Failure 400 ''error.invalidRequestBody'')
           | Some password \<Rightarrow>
               (if length password < 8 \<or> length password > 128 then ret (Failure 400 ''error.invalidRequestBody'')
                else
                  bind LoadPasswordPolicy (\<lambda>policy.
                  if \<not> ValidatePasswordWithPolicy policy password then ret (Failure 400 ''admin.passwordRequirements'')
                  else
                    attempt (query (\<lambda>d. map_sum id us_AuthType (find_user (\<lambda>u. us_ID u = i) d))) (\<lambda>r. case r of
                      Inl err \<Rightarrow> ret (Failure 404 ''admin.userNotFound'')
                    | Inr authType \<Rightarrow>
                        (if authType = ''ldap'' then ret (Failure 400 ''admin.ldapPasswordResetNotAllowed'')
                         else
                           (case ae_bcrypt_gen E salt password of
                              None \<Rightarrow> ret (Failure 500 ''admin.hashFailed'')
                            | Some hash \<Rightarrow>
                                attempt (ResetUserPassword now i hash) (\<lambda>r. case r of
                                  Inl err \<Rightarrow> ret (Failure 400 ''admin.passwordResetFailed'')
                                | Inr _ \<Rightarrow>
                                    attempt (AddPasswordHistory now i hash) (\<lambda>_.
                                    attempt (TrimPasswordHistory i) (\<lambda>_.
                                    bind (admin_audit a ''password_reset_by_admin'' (''reset password for user id '' @ itoa i)) (\<lambda>_.
                                      ret (Answer 200 ''Password reset successful''))))))))))))"

definition UnlockUserHandler :: "actor \<Rightarrow> string \<Rightarrow> (authdb, string resp) sql" where
  "UnlockUserHandler a param =
     (case parseIDParam param of
        None \<Rightarrow> ret (Failure 400 ''error.invalidUserID'')
      | Some i \<Rightarrow>
          attempt (UnlockUser i) (\<lambda>r. case r of
            Inl err \<Rightarrow> ret (Failure 400 ''admin.unlockFailed'')
          | Inr _ \<Rightarrow> bind (admin_audit a ''user_unlocked'' (''unlocked user id '' @ itoa i)) (\<lambda>_. ret (Answer 200 ''User unlocked''))))"

section \<open>Sessions in the background\<close>

text \<open>\<^verbatim>\<open>db/maintenance.go\<close>. The intervals are built by the database from the text of a setting; \<open>interval\<close>: how it reads them.\<close>

definition setting_text :: "string \<Rightarrow> string \<Rightarrow> (authdb, string) sql" where
  "setting_text key def = attempt (query (\<lambda>d. case map_of (db_app_settings d) key of None \<Rightarrow> Inl NoRows | Some v \<Rightarrow> Inr v)) (\<lambda>r.
     case r of Inl err \<Rightarrow> ret def | Inr v \<Rightarrow> ret v)"

definition getInactivityTimeoutMin :: "(authdb, string) sql" where
  "getInactivityTimeoutMin = setting_text ''session_timeout_min'' ''15''"

definition getRememberedMaxDays :: "(authdb, string) sql" where
  "getRememberedMaxDays = setting_text ''session_remembered_max_days'' ''60''"

definition expire_sessions ::
  "(string \<Rightarrow> duration option) \<Rightarrow> time \<Rightarrow> string \<Rightarrow> (duration \<Rightarrow> refresh_row \<Rightarrow> bool) \<Rightarrow> (authdb, unit) sql" where
  "expire_sessions interval now txt stale = stmt (\<lambda>d.
     case interval txt of None \<Rightarrow> Inl SqlErr | Some limit \<Rightarrow> Inr ((), upd_refresh (\<lambda>r. \<not> rt_Used r \<and> stale limit r) (mark_used now) d))"

definition cleanupExpiredRefreshTokens :: "(string \<Rightarrow> duration option) \<Rightarrow> time \<Rightarrow> (authdb, unit) sql" where
  "cleanupExpiredRefreshTokens interval now =
     attempt (stmt (\<lambda>d. Inr ((), d\<lparr>db_refresh := filter (\<lambda>r. \<not> (rt_ExpiresAt r < now \<or>
         rt_Used r \<and> (case rt_UsedAt r of None \<Rightarrow> False | Some t \<Rightarrow> t < now - 24 * Hour))) (db_refresh d)\<rparr>))) (\<lambda>r. case r of
       Inl err \<Rightarrow> ret ()
     | Inr _ \<Rightarrow>
         bind getInactivityTimeoutMin (\<lambda>timeoutMin.
         attempt (expire_sessions interval now (timeoutMin @ '' minutes'') (\<lambda>limit r. \<not> rt_Remember r \<and> rt_LastUsedAt r < now - limit)) (\<lambda>r. case r of
           Inl err \<Rightarrow> ret ()
         | Inr _ \<Rightarrow>
             bind getRememberedMaxDays (\<lambda>maxDays.
             attempt (expire_sessions interval now (maxDays @ '' days'') (\<lambda>limit r. rt_Remember r \<and> rt_CreatedAt r < now - limit)) (\<lambda>_. ret ())))))"

definition HasActiveSession :: "time \<Rightarrow> (authdb, bool) sql" where
  "HasActiveSession now =
     attempt (query (\<lambda>d.
       case parse_int64 (case map_of (db_app_settings d) ''session_timeout_min'' of None \<Rightarrow> ''15'' | Some v \<Rightarrow> v) of
         None \<Rightarrow> Inl SqlErr
       | Some m \<Rightarrow>
           if \<not> is_int32 m then Inl SqlErr
           else Inr (list_ex (\<lambda>r. \<not> rt_Used r \<and> rt_ExpiresAt r > now \<and> rt_LastUsedAt r > now - m * Minute) (db_refresh d)))) (\<lambda>r.
       ret (r = Inr True))"

end
