(* ===== verification/AdminTheorems.thy ===== *)
theory AdminTheorems
  imports AdminUsers AuthSessions
begin

text \<open>
  What the administration of users keeps and what it does not: the shape of the accounts, an administrator that is never
  deleted, and what deactivation leaves open.
\<close>

section \<open>The shape of the accounts\<close>

definition accounts_ok :: "authdb \<Rightarrow> bool" where
  "accounts_ok d \<longleftrightarrow> distinct (map us_ID (db_users d)) \<and> distinct (map us_Username (db_users d)) \<and>
     (\<forall>u \<in> set (db_users d). us_ID u < db_seq d \<and> (us_IsAdmin u \<longleftrightarrow> us_Role u = ''admin'')) \<and>
     (\<forall>r \<in> set (db_refresh d). rt_UserID r \<in> us_ID ` set (db_users d))"

named_theorems account_intros \<open>what keeps the accounts in shape\<close>

lemma accounts_same: "accounts_ok d \<Longrightarrow> db_users d' = db_users d \<Longrightarrow> db_refresh d' = db_refresh d \<Longrightarrow> db_seq d' = db_seq d \<Longrightarrow> accounts_ok d'"
  by (simp add: accounts_ok_def)

lemma accounts_upd_refresh:
  assumes "accounts_ok d" "\<And>r. rt_UserID (f r) = rt_UserID r"
  shows "accounts_ok (upd_refresh P f d)"
  using assms by (auto simp: accounts_ok_def upd_refresh_def)

lemma mark_used_user [simp]: "rt_UserID (mark_used now r) = rt_UserID r"
  by (simp add: mark_used_def)

lemma accounts_upd_user [account_intros]:
  assumes "\<And>u. us_ID (f u) = us_ID u" "\<And>u. us_Username (f u) = us_Username u"
    and "\<And>u. (us_IsAdmin u \<longleftrightarrow> us_Role u = ''admin'') \<Longrightarrow> (us_IsAdmin (f u) \<longleftrightarrow> us_Role (f u) = ''admin'')"
  shows "keeps accounts_ok (upd_user P f)"
  unfolding upd_user_def
proof (rule keeps_stmt)
  fix d d' x
  assume ok: "accounts_ok d" and "Inr ((), d\<lparr>db_users := map (\<lambda>u. if P u then f u else u) (db_users d)\<rparr>) = (Inr (x, d') :: sqlerr + _)"
  then have d': "d' = d\<lparr>db_users := map (\<lambda>u. if P u then f u else u) (db_users d)\<rparr>" by simp
  have ids: "map us_ID (db_users d') = map us_ID (db_users d)" "map us_Username (db_users d') = map us_Username (db_users d)"
    using assms(1,2) by (simp_all add: d')
  from arg_cong [OF ids(1), of set] have "us_ID ` set (db_users d') = us_ID ` set (db_users d)" by simp
  moreover have "\<forall>u \<in> set (db_users d'). us_ID u < db_seq d' \<and> (us_IsAdmin u \<longleftrightarrow> us_Role u = ''admin'')"
    using ok assms(1,3) by (auto simp: d' accounts_ok_def)
  moreover have "db_refresh d' = db_refresh d" by (simp add: d')
  ultimately show "accounts_ok d'" using ok ids by (simp add: accounts_ok_def)
qed

lemma accounts_append:
  assumes "accounts_ok d" "us_ID u = db_seq d" "\<not> list_ex (\<lambda>v. us_Username v = us_Username u) (db_users d)" "us_IsAdmin u \<longleftrightarrow> us_Role u = ''admin''"
  shows "accounts_ok (d\<lparr>db_users := db_users d @ [u], db_seq := db_seq d + 1\<rparr>)"
proof -
  have "us_ID u \<notin> us_ID ` set (db_users d)" using assms(1,2) by (auto simp: accounts_ok_def)
  moreover have "us_Username u \<notin> us_Username ` set (db_users d)" using assms(3) by (auto simp: list_ex_iff)
  ultimately show ?thesis using assms by (auto simp: accounts_ok_def)
qed

lemma accounts_create [account_intros]: "adm = (role = ''admin'') \<Longrightarrow> keeps accounts_ok (CreateLDAPUser now name email role adm)"
    "adm = (role = ''admin'') \<Longrightarrow> keeps accounts_ok (CreateUser now name hash email adm role)"
  unfolding CreateLDAPUser_def CreateUser_def
  by (rule keeps_stmt; auto simp: Let_def split: if_splits intro!: accounts_append)+

lemma accounts_row:
  assumes "accounts_ok d" "list_ex (\<lambda>u. us_ID u = rt_UserID r) (db_users d)"
  shows "accounts_ok (d\<lparr>db_refresh := db_refresh d @ [r], db_seq := db_seq d + 1\<rparr>)"
proof -
  have "rt_UserID r \<in> us_ID ` set (db_users d)" using assms(2) by (force simp: list_ex_iff)
  moreover have "us_ID u < db_seq d + 1" if "u \<in> set (db_users d)" for u using assms(1) that by (force simp: accounts_ok_def)
  ultimately show ?thesis using assms(1) by (simp add: accounts_ok_def)
qed

lemma accounts_insert [account_intros]: "keeps accounts_ok (insertRefreshToken digest now p)"
  unfolding insertRefreshToken_def by (rule keeps_stmt) (auto intro!: accounts_row split: if_splits)

lemma accounts_blacklist [account_intros]: "keeps accounts_ok (BlacklistJTI now jti)"
  unfolding BlacklistJTI_def by (rule keeps_stmt) (auto simp: accounts_ok_def split: if_splits)

lemma accounts_audit [account_intros]: "keeps accounts_ok (auth_audit i n act ip det)" "keeps accounts_ok (admin_audit a action details)"
  unfolding auth_audit_def admin_audit_def by (intro keeps_attempt keeps_ret keeps_stmt; auto simp: accounts_ok_def)+

lemma accounts_history [account_intros]: "keeps accounts_ok (AddPasswordHistory now i h)" "keeps accounts_ok (TrimPasswordHistory i)"
  unfolding AddPasswordHistory_def TrimPasswordHistory_def historyCount_def auth_setting_def
  by (intro keeps_intros keeps_stmt; auto simp: accounts_ok_def split: if_splits)+

lemma image_spared: "v \<in> f ` S \<Longrightarrow> v \<noteq> i \<Longrightarrow> v \<in> f ` {x \<in> S. f x \<noteq> i}"
  by auto

lemma accounts_delete [account_intros]: "keeps accounts_ok (DeleteUser pick referenced i)"
  unfolding DeleteUser_def
  by (rule keeps_stmt) (auto simp: accounts_ok_def Let_def distinct_map_filter intro!: image_spared split: if_splits)

lemma accounts_reads [account_intros]: "keeps accounts_ok (auth_setting k v)" "keeps accounts_ok (setting_or_env env k var n)" "keeps accounts_ok (GetUserByUsername n')"
    "keeps accounts_ok (getUserByID i)" "keeps accounts_ok (GetUserByID i)" "keeps accounts_ok (CheckUserLockout now i)" "keeps accounts_ok (IsPasswordExpired now i)"
    "keeps accounts_ok LoadPasswordPolicy" "keeps accounts_ok (CheckPasswordHistory i h)" "keeps accounts_ok (GenerateToken J cfg env now jti i n' r b)"
    "keeps accounts_ok getRememberedTTL" "keeps accounts_ok (silent_allowed E now tok)"
  unfolding auth_setting_def setting_or_env_def GetUserByUsername_def getUserByID_def GetUserByID_def CheckUserLockout_def IsPasswordExpired_def
    GetPasswordExpiryDays_def LoadPasswordPolicy_def CheckPasswordHistory_def historyCount_def GenerateToken_def getJWTExpiryMin_def getRememberedTTL_def
    silent_allowed_def Let_def
  by (intro keeps_intros)+

lemma accounts_users [account_intros]: "keeps accounts_ok (ResetFailedLogins i)" "keeps accounts_ok (UnlockUser i)" "keeps accounts_ok (UpdateLastLogin now n)"
    "keeps accounts_ok (ResetUserPassword now i h)" "keeps accounts_ok (IncrementFailedLogins env now i)" "keeps accounts_ok (UpdateUser i role act)"
  unfolding ResetFailedLogins_def UnlockUser_def UpdateLastLogin_def ResetUserPassword_def IncrementFailedLogins_def maxFailedAttempts_def failedLockoutDuration_def
    UpdateUser_def Let_def
  by (intro keeps_intros account_intros; simp)+

lemma accounts_sessions [account_intros]: "keeps accounts_ok (InvalidateDeviceSessions now i dev)" "keeps accounts_ok (RevokeSession now i s)"
    "keeps accounts_ok (claim_token now h)" "keeps accounts_ok (link_rotated now h h')"
  unfolding InvalidateDeviceSessions_def RevokeSession_def claim_token_def link_rotated_def
  by (intro keeps_intros account_intros keeps_stmt; auto simp: Let_def intro!: accounts_upd_refresh split: option.splits)+

lemma accounts_open [account_intros]: "keeps accounts_ok (open_session E now c x user remember)" "keeps accounts_ok (local_login E now c req)"
    "keeps accounts_ok (recoverRacedRefresh E now x tok)" "keeps accounts_ok (finish_refresh E now c x rh i rem dev repl)"
  unfolding open_session_def local_login_def recoverRacedRefresh_def finish_refresh_def case_prod_unfold Let_def
  by (intro keeps_intros account_intros)+

lemma accounts_ldap [account_intros]: "keeps accounts_ok (ldap_login E now c req)"
proof -
  have "keeps accounts_ok (read_settings ks)" for ks
  proof (induction ks rule: read_settings.induct)
    case (2 k v ks)
    then show ?case unfolding read_settings.simps by (intro keeps_intros account_intros)
  qed (unfold read_settings.simps, rule keeps_ret)
  then have "keeps accounts_ok ldap_LoadConfig" unfolding ldap_LoadConfig_def by (intro keeps_intros account_intros)
  then show ?thesis unfolding ldap_login_def Let_def
    by (intro keeps_intros) (auto split: ldap_outcome.split intro!: keeps_intros account_intros)
qed

lemma accounts_redeem [account_intros]: "keeps accounts_ok (redeem E now c x tok)"
  unfolding redeem_def Let_def by (intro keeps_intros account_intros)

text \<open>The requests and the background tasks that change the tables of users and sessions.\<close>

inductive account_step :: "('k, 'p) auth_env \<Rightarrow> authdb \<Rightarrow> authdb \<Rightarrow> bool" for E where
  login: "account_step E d (fst (snd (Login E now c x body (d, fs))))"
| refresh: "account_step E d (fst (snd (Refresh E now c x tok (d, fs))))"
| logout: "account_step E d (fst (snd (Logout E now jti c tok (d, fs))))"
| revoke: "account_step E d (fst (snd (RevokeSession_handler now uid param (d, fs))))"
| change_password: "account_step E d (fst (snd (ChangePassword E now c salt name pw (d, fs))))"
| create_user: "account_step E d (fst (snd (CreateUser_handler E email_ok now salt a req (d, fs))))"
| update_user: "account_step E d (fst (snd (UpdateUser_handler a param upd (d, fs))))"
| delete_user: "account_step E d (fst (snd (DeleteUser_handler pick referenced a param (d, fs))))"
| reset_password: "account_step E d (fst (snd (ResetPassword E now salt a param pw' (d, fs))))"
| unlock: "account_step E d (fst (snd (UnlockUserHandler a param (d, fs))))"
| clean_up: "account_step E d (fst (snd (cleanupExpiredRefreshTokens interval now (d, fs))))"

inductive account_reach :: "('k, 'p) auth_env \<Rightarrow> authdb \<Rightarrow> authdb \<Rightarrow> bool" for E d where
  start: "account_reach E d d"
| step: "account_reach E d d' \<Longrightarrow> account_step E d' d'' \<Longrightarrow> account_reach E d d''"

inductive_cases account_stepE: "account_step E d d'"

lemma accounts_handlers:
  "keeps accounts_ok (Login E now c x body)" "keeps accounts_ok (Refresh E now c x tok)" "keeps accounts_ok (Logout E now jti c tok)"
  "keeps accounts_ok (RevokeSession_handler now uid param)" "keeps accounts_ok (ChangePassword E now c salt name pw)"
  unfolding Login_def Refresh_def Logout_def RevokeSession_handler_def ChangePassword_def case_prod_unfold Let_def
  by (intro keeps_intros account_intros keeps_stmt; auto intro!: accounts_upd_refresh)+

lemma accounts_admin:
  "keeps accounts_ok (CreateUser_handler E email_ok now salt a req)" "keeps accounts_ok (UpdateUser_handler a param upd)"
  "keeps accounts_ok (DeleteUser_handler pick referenced a param)" "keeps accounts_ok (ResetPassword E now salt a param pw')"
  "keeps accounts_ok (UnlockUserHandler a param)"
  unfolding CreateUser_handler_def UpdateUser_handler_def DeleteUser_handler_def ResetPassword_def UnlockUserHandler_def Let_def
  by (intro keeps_intros account_intros; simp)+

lemma accounts_expire: "keeps accounts_ok (expire_sessions interval now txt stale)"
  unfolding expire_sessions_def by (rule keeps_stmt) (auto intro!: accounts_upd_refresh split: option.splits)

lemma accounts_clean_up: "keeps accounts_ok (cleanupExpiredRefreshTokens interval now)"
  unfolding cleanupExpiredRefreshTokens_def getInactivityTimeoutMin_def getRememberedMaxDays_def setting_text_def
  by (intro keeps_intros accounts_expire keeps_stmt) (auto simp: accounts_ok_def)

lemma account_step_ok: "account_step E d d' \<Longrightarrow> accounts_ok d \<Longrightarrow> accounts_ok d'"
  by (induction rule: account_step.induct)
    (simp_all add: accounts_handlers [THEN keepsD] accounts_admin [THEN keepsD] accounts_clean_up [THEN keepsD])

text \<open>
  The accounts stay well formed whatever requests come and whatever statements fail: identifiers and names are unique, every
  session belongs to a user, and the two columns that say who is an administrator agree. (C33)
\<close>
theorem accounts_stay_well_formed:
  assumes "accounts_ok d" "account_reach E d d'"
  shows "accounts_ok d'"
  using assms(2,1)
  by (induction rule: account_reach.induct) (auto intro: account_step_ok)

definition demo_admin :: User where
  "demo_admin = demo_user\<lparr>us_ID := 2, us_Username := ''root'', us_Role := ''admin'', us_IsAdmin := True\<rparr>"

definition demo_accounts :: authdb where
  "demo_accounts = demo_db\<lparr>db_users := [demo_user, demo_admin], db_seq := 3\<rparr>"

lemma demo_accounts_ok: "accounts_ok demo_accounts"
  by (simp add: accounts_ok_def demo_accounts_def demo_db_def demo_user_def demo_admin_def)

definition demo_actor :: actor where "demo_actor = \<lparr>act_id = 2, act_name = ''root'', act_ip = []\<rparr>"

theorem accounts_stay_well_formed_witness:
  "accounts_ok (fst (snd (UpdateUser_handler demo_actor ''1'' (Some (Some ''admin'', Some False)) (demo_accounts, [False, True]))))"
proof (rule accounts_stay_well_formed [OF demo_accounts_ok])
  show "account_reach demo_env demo_accounts (fst (snd (UpdateUser_handler demo_actor ''1'' (Some (Some ''admin'', Some False)) (demo_accounts, [False, True]))))"
    by (rule account_reach.step [OF account_reach.start account_step.update_user])
qed

section \<open>Administrators\<close>

definition has_admin :: "authdb \<Rightarrow> bool" where
  "has_admin d \<longleftrightarrow> (\<exists>u \<in> set (db_users d). us_Role u = ''admin'')"

lemma delete_spares:
  assumes "\<And>us. us \<noteq> [] \<Longrightarrow> pick us \<in> set us"
  shows "keeps has_admin (DeleteUser pick referenced i)"
  unfolding DeleteUser_def
proof (rule keeps_stmt)
  fix d d' :: authdb and x
  let ?admins = "filter (\<lambda>u. us_Role u = ''admin'') (db_users d)"
  assume run: "(let admins = ?admins in
     if \<not> is_int32 i then Inl SqlErr
     else if admins = [] \<or> us_ID (pick admins) = i then Inr ((), d)
     else if referenced i \<and> list_ex (\<lambda>u. us_ID u = i) (db_users d) then Inl SqlErr
     else Inr ((), d\<lparr>db_users := filter (\<lambda>u. us_ID u \<noteq> i) (db_users d), db_refresh := filter (\<lambda>r. rt_UserID r \<noteq> i) (db_refresh d),
                     db_history := filter (\<lambda>(u, h, t). u \<noteq> i) (db_history d)\<rparr>)) = Inr (x, d')" and adm: "has_admin d"
  have ne: "?admins \<noteq> []" using adm by (auto simp: has_admin_def filter_empty_conv)
  from assms [OF ne] have pick: "pick ?admins \<in> set (db_users d)" "us_Role (pick ?admins) = ''admin''" by auto
  show "has_admin d'" using run adm pick ne by (auto simp: has_admin_def Let_def split: if_splits)
qed

text \<open>
  A deletion never removes the last administrator, whatever it is asked to delete, whichever administrator the database
  returns first and whatever statements fail. (C34)
\<close>
theorem deletion_spares_an_admin:
  assumes "\<And>us. us \<noteq> [] \<Longrightarrow> pick us \<in> set us" "has_admin d"
  shows "has_admin (fst (snd (DeleteUser_handler pick referenced a param (d, fs))))"
proof -
  have "keeps has_admin (DeleteUser_handler pick referenced a param)"
    unfolding DeleteUser_handler_def admin_audit_def auth_audit_def
    by (intro keeps_intros delete_spares assms(1) keeps_stmt) (auto simp: has_admin_def)
  then show ?thesis using assms(2) by (rule keepsD [where s = "(d, fs)", simplified])
qed

theorem deletion_spares_an_admin_witness:
  "has_admin (fst (snd (DeleteUser_handler hd (\<lambda>_. False) demo_actor ''2'' (demo_accounts, []))))"
  by (rule deletion_spares_an_admin) (auto simp: has_admin_def demo_accounts_def demo_admin_def)

definition edited :: "string option \<Rightarrow> bool option \<Rightarrow> User \<Rightarrow> User" where
  "edited role act v =
     (let w = (case role of None \<Rightarrow> v | Some r \<Rightarrow> v\<lparr>us_Role := r, us_IsAdmin := (r = ''admin'')\<rparr>) in case act of None \<Rightarrow> w | Some b \<Rightarrow> w\<lparr>us_IsActive := b\<rparr>)"

definition edit_users :: "int \<Rightarrow> string option \<Rightarrow> bool option \<Rightarrow> User list \<Rightarrow> User list" where
  "edit_users i role act us = map (\<lambda>v. if us_ID v = i then edited role act v else v) us"

lemma edited_id [simp]: "us_ID (edited role act v) = us_ID v" "us_Username (edited role act v) = us_Username v"
  by (simp_all add: edited_def Let_def split: option.split)

lemma edited_none [simp]: "edited None None v = v"
  by (simp add: edited_def)

lemma edited_active [simp]: "us_IsActive (edited role (Some b) v) = b"
  by (simp add: edited_def)

lemma edited_users: "v \<in> set (edit_users i role act us) \<Longrightarrow> us_ID v = i \<Longrightarrow> \<exists>u. v = edited role act u"
  by (auto simp: edit_users_def split: if_splits)

lemma find_edited: "find (\<lambda>u. us_ID u = i) (edit_users i role act us) = map_option (edited role act) (find (\<lambda>u. us_ID u = i) us)"
  by (induction us) (simp_all add: edit_users_def)

lemma update_run:
  assumes "find_user (\<lambda>u. us_ID u = i) d = Inr u"
  shows "UpdateUser i role act (d, []) = (Inr (scan_updated (edited role act u)), d\<lparr>db_users := edit_users i role act (db_users d)\<rparr>, [])"
proof -
  let ?d = "d\<lparr>db_users := edit_users i role act (db_users d)\<rparr>"
  have found: "find_user (\<lambda>u. us_ID u = i) ?d = Inr (edited role act u)" using assms by (auto simp: find_user_def find_edited split: option.splits)
  have "bind (case role of None \<Rightarrow> ret () | Some r \<Rightarrow> upd_user (\<lambda>u. us_ID u = i) (\<lambda>u. u\<lparr>us_Role := r, us_IsAdmin := (r = ''admin'')\<rparr>)) (\<lambda>_.
      case act of None \<Rightarrow> ret () | Some a \<Rightarrow> upd_user (\<lambda>u. us_ID u = i) (\<lambda>u. u\<lparr>us_IsActive := a\<rparr>)) (d, []) = (Inr (), ?d, [])"
  proof (cases "role = None \<and> act = None")
    case True
    then have none: "role = None" "act = None" by auto
    have "edit_users i None None (db_users d) = db_users d" unfolding edit_users_def by (rule map_idI) simp
    then show ?thesis by (simp add: none bind_def)
  next
    case False
    then show ?thesis by (cases role; cases act) (auto simp: bind_def upd_user_def edit_users_def edited_def Let_def)
  qed
  then show ?thesis
    using found by (simp add: UpdateUser_def transaction_value_def bind_bind [symmetric]) (simp add: bind_def)
qed

lemma update_handler_run:
  assumes "parseIDParam param = Some i" "find_user (\<lambda>u. us_ID u = i) d = Inr u" "\<And>r. role = Some r \<Longrightarrow> isValidRole r"
  shows "\<exists>u' log. UpdateUser_handler a param (Some (role, act)) (d, []) =
    (Inr (Answer 200 u'), d\<lparr>db_users := edit_users i role act (db_users d), db_audit := log\<rparr>, [])"
proof -
  have role: "\<not> (case role of None \<Rightarrow> False | Some r \<Rightarrow> \<not> isValidRole r)" using assms(3) by (cases role) auto
  show ?thesis
    using assms(1,2) role
    by (auto simp: UpdateUser_handler_def attempt_def bind_def GetUserByID_def update_run admin_audit_def auth_audit_def Let_def)
qed

text \<open>
  Changing a role is not guarded that way: the only administrator can be made a viewer. Then there is none, and no user can be
  deleted any more, although every attempt is answered with success.
\<close>
theorem last_admin_can_be_demoted:
  assumes "find_user (\<lambda>u. us_ID u = i) d = Inr u" "\<forall>v \<in> set (db_users d). us_Role v = ''admin'' \<longrightarrow> us_ID v = i" "parseIDParam param = Some i"
    and "isValidRole r" "r \<noteq> ''admin''"
  shows "\<exists>u' d'. UpdateUser_handler a param (Some (Some r, None)) (d, []) = (Inr (Answer 200 u'), d', []) \<and> \<not> has_admin d' \<and>
    (\<forall>j pick referenced b p2. parseIDParam p2 = Some j \<and> is_int32 j \<longrightarrow>
      (\<exists>d''. DeleteUser_handler pick referenced b p2 (d', []) = (Inr (Answer 200 ''User deleted''), d'', []) \<and> db_users d'' = db_users d'))"
proof -
  obtain u' log where run: "UpdateUser_handler a param (Some (Some r, None)) (d, []) =
      (Inr (Answer 200 u'), d\<lparr>db_users := edit_users i (Some r) None (db_users d), db_audit := log\<rparr>, [])"
    using update_handler_run [OF assms(3,1), of "Some r" a None] assms(4) by auto
  let ?d = "d\<lparr>db_users := edit_users i (Some r) None (db_users d), db_audit := log\<rparr>"
  have none: "\<not> has_admin ?d" using assms(2,5) by (auto simp: has_admin_def edit_users_def edited_def)
  then have "filter (\<lambda>u. us_Role u = ''admin'') (db_users ?d) = []" by (auto simp: has_admin_def filter_empty_conv)
  then have "\<exists>d''. DeleteUser_handler pick referenced b p2 (?d, []) = (Inr (Answer 200 ''User deleted''), d'', []) \<and> db_users d'' = db_users ?d"
    if "parseIDParam p2 = Some j" "is_int32 j" for pick referenced b p2 j
    using that by (simp add: DeleteUser_handler_def attempt_def bind_def DeleteUser_def Let_def admin_audit_def auth_audit_def)
  with run none show ?thesis by blast
qed

theorem last_admin_can_be_demoted_witness:
  "\<exists>u' d'. UpdateUser_handler demo_actor ''2'' (Some (Some ''viewer'', None)) (demo_accounts, []) = (Inr (Answer 200 u'), d', []) \<and> \<not> has_admin d'"
proof -
  have "parseIDParam ''2'' = Some 2"
    by (simp add: parseIDParam_def parse_int64_def parse_sign_def parse_nat_def digits_val_def is_digit_def is_int64_def)
  moreover have "find_user (\<lambda>u. us_ID u = 2) demo_accounts = Inr demo_admin"
    by (simp add: demo_accounts_def demo_admin_def demo_user_def find_user_def)
  moreover have "\<forall>v \<in> set (db_users demo_accounts). us_Role v = ''admin'' \<longrightarrow> us_ID v = 2"
    by (simp add: demo_accounts_def demo_admin_def demo_user_def)
  moreover have "isValidRole ''viewer''" by (simp add: isValidRole_def validRoles_def)
  ultimately show ?thesis
    using last_admin_can_be_demoted [of 2 demo_accounts demo_admin "''2''" "''viewer''" demo_actor] by fastforce
qed

section \<open>Deactivation\<close>

lemma expiry_run: "\<exists>m. getJWTExpiryMin env (d, []) = (Inr m, d, [])"
  by (cases "parse_int64 (env ''SESSION_TIMEOUT_MIN'')") (auto simp: getJWTExpiryMin_def bind_def Let_def)

lemma token_drawn:
  assumes "\<And>cl. sign_claims J cfg cl \<noteq> None"
  shows "\<exists>t e. GenerateToken J cfg env now jti i n r b (d, []) = (Inr (Some (t, e)), d, [])"
proof -
  obtain m where "getJWTExpiryMin env (d, []) = (Inr m, d, [])" using expiry_run by blast
  then show ?thesis using assms by (auto simp: GenerateToken_def bind_def Let_def)
qed

lemma ttl_run: "\<exists>t. getRememberedTTL (d, []) = (Inr t, d, [])"
  by (simp add: getRememberedTTL_def bind_def)

lemma refresh_succeeds:
  assumes "presented c body = Some tok" "\<not> ct_silent c" "find (claimable now (ae_digest E tok)) (db_refresh d) = Some r"
    and "find_user (\<lambda>u. us_ID u = rt_UserID r) d = Inr u" "\<And>cl. sign_claims (ae_jwt E) (ae_cfg E) cl \<noteq> None"
  shows "\<exists>g s'. Refresh E now c x body (d, []) = (Inr (Answer 200 g), s') \<and> sg_userID g = us_ID u"
proof -
  let ?h = "ae_digest E tok" and ?d = "upd_refresh (claimable now (ae_digest E tok)) (mark_used now) d" and ?dev = "if rt_DeviceID r \<noteq> [] then rt_DeviceID r else deviceID c x"
  have claim: "claim_token now ?h (d, []) = (Inr (rt_UserID r, rt_DeviceID r, rt_Remember r), ?d, [])" using assms(3) by (simp add: claim_token_def)
  have user: "getUserByID (rt_UserID r) (?d, []) = (Inr ((scan_user u)\<lparr>us_PasswordChangedAt := None\<rparr>), ?d, [])"
    using assms(4) by (simp add: getUserByID_def find_user_def upd_refresh_def split: option.splits)
  obtain t e where tok: "GenerateToken (ae_jwt E) (ae_cfg E) (ae_env E) now (fr_jti x) (us_ID u) (us_Username u) (us_Role u) (rt_Remember r) (?d, []) = (Inr (Some (t, e)), ?d, [])"
    using token_drawn [OF assms(5)] by blast
  obtain ttl where ttl: "getRememberedTTL (?d, []) = (Inr ttl, ?d, [])" using ttl_run by blast
  have "\<exists>g s'. finish_refresh E now c x ?h (rt_UserID r) (rt_Remember r) ?dev None (?d, []) = (Inr (Answer 200 g), s') \<and> sg_userID g = us_ID u"
  proof -
    obtain e1 s1 where s1: "insertRefreshToken (ae_digest E) now (session_params c (rt_UserID r) (fr_refresh x) (refresh_expiry now (rt_Remember r) ttl) ?dev (rt_Remember r) (fr_jti x)) (?d, []) = (e1, s1)"
      by (cases "insertRefreshToken (ae_digest E) now (session_params c (rt_UserID r) (fr_refresh x) (refresh_expiry now (rt_Remember r) ttl) ?dev (rt_Remember r) (fr_jti x)) (?d, [])") auto
    obtain e2 s2 where s2: "link_rotated now (ae_digest E (fr_refresh x)) ?h s1 = (e2, s2)" by (cases "link_rotated now (ae_digest E (fr_refresh x)) ?h s1") auto
    obtain a s3 where "auth_audit (us_ID u) (us_Username u) ''refresh_success'' (ct_ip c) [] s2 = (Inr (), s3)"
      using auth_audit_run [of "us_ID u" "us_Username u" "''refresh_success''" "ct_ip c" "[]" "fst s2" "snd s2"] by auto
    then show ?thesis using user tok ttl s1 s2 by (simp add: finish_refresh_def attempt_def bind_def scan_user_def Let_def)
  qed
  then show ?thesis using assms(1,2) claim by (auto simp: Refresh_def presented_def redeem_def attempt_def bind_def Let_def split: if_splits)
qed

text \<open>
  Deactivating a user does not end the sessions of the user: the next refresh is granted new tokens as before.
\<close>
theorem deactivated_user_keeps_session:
  assumes "parseIDParam param = Some i" "find_user (\<lambda>u. us_ID u = i) d = Inr u"
    and "presented c body = Some tok" "\<not> ct_silent c" "find (claimable now (ae_digest E tok)) (db_refresh d) = Some r" "rt_UserID r = i"
    and "\<And>cl. sign_claims (ae_jwt E) (ae_cfg E) cl \<noteq> None"
  shows "\<exists>u' d' g s'. UpdateUser_handler a param (Some (None, Some False)) (d, []) = (Inr (Answer 200 u'), d', []) \<and>
    (\<forall>v \<in> set (db_users d'). us_ID v = i \<longrightarrow> \<not> us_IsActive v) \<and> Refresh E now c x body (d', []) = (Inr (Answer 200 g), s') \<and> sg_userID g = i"
proof -
  obtain u' log where run: "UpdateUser_handler a param (Some (None, Some False)) (d, []) =
      (Inr (Answer 200 u'), d\<lparr>db_users := edit_users i None (Some False) (db_users d), db_audit := log\<rparr>, [])"
    using update_handler_run [OF assms(1,2), of None a "Some False"] by auto
  let ?d = "d\<lparr>db_users := edit_users i None (Some False) (db_users d), db_audit := log\<rparr>"
  have user: "find_user (\<lambda>u. us_ID u = rt_UserID r) ?d = Inr (edited None (Some False) u)"
    using assms(2,6) by (auto simp: find_user_def find_edited split: option.splits)
  have "us_ID u = i" using assms(2) by (auto simp: find_user_def split: option.splits dest: find_SomeD)
  then have id: "us_ID (edited None (Some False) u) = i" by simp
  have row: "find (claimable now (ae_digest E tok)) (db_refresh ?d) = Some r" using assms(5) by simp
  obtain g s' where "Refresh E now c x body (?d, []) = (Inr (Answer 200 g), s')" "sg_userID g = i"
    using refresh_succeeds [OF assms(3,4) row user assms(7), of x] unfolding id by blast
  moreover have "\<forall>v \<in> set (db_users ?d). us_ID v = i \<longrightarrow> \<not> us_IsActive v" by (auto dest!: edited_users)
  ultimately show ?thesis using run by blast
qed

theorem deactivated_user_keeps_session_witness:
  "\<exists>u' d' g s'. UpdateUser_handler demo_actor ''1'' (Some (None, Some False)) (demo_accounts\<lparr>db_refresh := [demo_row]\<rparr>, []) = (Inr (Answer 200 u'), d', []) \<and>
    (\<forall>v \<in> set (db_users d'). us_ID v = 1 \<longrightarrow> \<not> us_IsActive v) \<and> Refresh demo_env 0 demo_client demo_fresh (Some ''old'') (d', []) = (Inr (Answer 200 g), s') \<and> sg_userID g = 1"
proof (rule deactivated_user_keeps_session [where r = demo_row and u = demo_user and tok = "''old''"])
  show "parseIDParam ''1'' = Some 1" using parse_one by (simp add: parseIDParam_def)
qed (simp_all add: demo_accounts_def demo_db_def demo_user_def demo_admin_def find_user_def presented_def demo_client_def demo_row_def demo_env_def demo_jwt_def
    claimable_def sign_claims_def)

end
