(* ===== verification/JsonText.thy ===== *)
theory JsonText
  imports Json
begin

text \<open>
  UTF-8 and the text of JSON, as Go's \<^verbatim>\<open>unicode/utf8\<close>, \<^verbatim>\<open>strings.ToValidUTF8\<close> and \<^verbatim>\<open>encoding/json\<close> read and write them:
  the check of a text, the unquoting of strings with their escapes, and the writing of strings and numbers. The parser takes
  fuel; twice the length of the text is always enough (\<open>parse_fuel\<close>).
\<close>

section \<open>UTF-8\<close>

abbreviation byte :: "char \<Rightarrow> nat" where "byte c \<equiv> of_char c"

definition trail :: "char \<Rightarrow> bool" where
  "trail c \<longleftrightarrow> 128 \<le> byte c \<and> byte c \<le> 191"

text \<open>The number of bytes that a first byte announces, and the range of the second byte.\<close>

definition utf8_first :: "char \<Rightarrow> (nat \<times> nat \<times> nat) option" where
  "utf8_first c =
     (let b = byte c in
      if b < 128 then Some (1, 0, 0)
      else if b < 194 then None
      else if b < 224 then Some (2, 128, 191)
      else if b = 224 then Some (3, 160, 191)
      else if b = 237 then Some (3, 128, 159)
      else if b < 240 then Some (3, 128, 191)
      else if b = 240 then Some (4, 144, 191)
      else if b < 244 then Some (4, 128, 191)
      else if b = 244 then Some (4, 128, 143)
      else None)"

text \<open>\<^verbatim>\<open>utf8.DecodeRune\<close>: the number of bytes of the rune at the start, \<^const>\<open>None\<close> for an invalid one (of width 1).\<close>

definition rune_len :: "string \<Rightarrow> nat option" where
  "rune_len s =
     (case s of
        [] \<Rightarrow> None
      | c # cs \<Rightarrow>
          (case utf8_first c of
             None \<Rightarrow> None
           | Some (n, lo, hi) \<Rightarrow>
               (if n = 1 then Some 1
                else if n \<le> length s \<and> lo \<le> byte (hd cs) \<and> byte (hd cs) \<le> hi \<and> list_all trail (take (n - 2) (tl cs)) then Some n
                else None)))"

lemma rune_len_bounds: "rune_len s = Some n \<Longrightarrow> 1 \<le> n \<and> n \<le> length s"
  by (auto simp: rune_len_def utf8_first_def Let_def split: list.splits if_splits option.splits)

function valid_utf8 :: "string \<Rightarrow> bool" where
  "valid_utf8 s = (s = [] \<or> (case rune_len s of None \<Rightarrow> False | Some n \<Rightarrow> valid_utf8 (drop n s)))"
  by pat_completeness auto
termination
  by (relation "measure length") (auto dest: rune_len_bounds)

declare valid_utf8.simps [simp del]

text \<open>\<^verbatim>\<open>strings.ToValidUTF8\<close>: every run of invalid bytes becomes one replacement; \<open>bad\<close>: the byte before was invalid.\<close>

function to_valid :: "string \<Rightarrow> bool \<Rightarrow> string \<Rightarrow> string" where
  "to_valid rep bad s =
     (if s = [] then []
      else
        (case rune_len s of
           Some n \<Rightarrow> take n s @ to_valid rep False (drop n s)
         | None \<Rightarrow> (if bad then [] else rep) @ to_valid rep True (tl s)))"
  by pat_completeness auto
termination
  by (relation "measure (\<lambda>(rep, bad, s). length s)") (auto dest: rune_len_bounds)

declare to_valid.simps [simp del]

definition ToValidUTF8 :: "string \<Rightarrow> string \<Rightarrow> string" where
  "ToValidUTF8 s rep = to_valid rep False s"

text \<open>\<^verbatim>\<open>U+FFFD\<close>.\<close>

definition RuneError :: string where
  "RuneError = [char_of (239 :: nat), char_of (191 :: nat), char_of (189 :: nat)]"

definition encode_rune :: "nat \<Rightarrow> string" where
  "encode_rune r =
     (if r < 128 then [char_of r]
      else if r < 2048 then [char_of (192 + r div 64), char_of (128 + r mod 64)]
      else if r > 1114111 \<or> 55296 \<le> r \<and> r \<le> 57343 then RuneError
      else if r < 65536 then [char_of (224 + r div 4096), char_of (128 + r div 64 mod 64), char_of (128 + r mod 64)]
      else [char_of (240 + r div 262144), char_of (128 + r div 4096 mod 64), char_of (128 + r div 64 mod 64), char_of (128 + r mod 64)])"

section \<open>Reading\<close>

text \<open>\<open>JEnd\<close>: \<^verbatim>\<open>unexpected end of JSON input\<close>. An end inside a number's sign, a literal or an escape is reported as an invalid character.\<close>

datatype json_err = JEnd | JInvalid

definition json_space :: "char \<Rightarrow> bool" where
  "json_space c \<longleftrightarrow> c = CHR '' '' \<or> byte c = 9 \<or> byte c = 10 \<or> byte c = 13"

definition skip_ws :: "string \<Rightarrow> string" where
  "skip_ws s = dropWhile json_space s"

definition hex_val :: "char \<Rightarrow> nat option" where
  "hex_val c =
     (if is_digit c then Some (byte c - 48)
      else if 97 \<le> byte c \<and> byte c \<le> 102 then Some (byte c - 87)
      else if 65 \<le> byte c \<and> byte c \<le> 70 then Some (byte c - 55)
      else None)"

text \<open>\<^verbatim>\<open>getu4\<close>: the value of a backslash, \<^verbatim>\<open>u\<close> and four hexadecimal digits at the start of a text.\<close>

fun hex4 :: "string \<Rightarrow> nat option" where
  "hex4 (h1 # h2 # h3 # h4 # rest) =
     (case (hex_val h1, hex_val h2, hex_val h3, hex_val h4) of
        (Some a, Some b, Some c, Some d) \<Rightarrow> Some (((a * 16 + b) * 16 + c) * 16 + d)
      | _ \<Rightarrow> None)"
| "hex4 _ = None"

fun getu4 :: "string \<Rightarrow> nat option" where
  "getu4 (b # u # hs) = (if b = bslash \<and> u = CHR ''u'' then hex4 hs else None)"
| "getu4 _ = None"

definition simple_escape :: "char \<Rightarrow> char option" where
  "simple_escape c =
     (if c = CHR ''b'' then Some (char_of (8 :: nat))
      else if c = CHR ''f'' then Some (char_of (12 :: nat))
      else if c = CHR ''n'' then Some (char_of (10 :: nat))
      else if c = CHR ''r'' then Some (char_of (13 :: nat))
      else if c = CHR ''t'' then Some (char_of (9 :: nat))
      else if c = bslash \<or> c = CHR ''/'' \<or> c = CHR 0x22 then Some c
      else None)"

text \<open>What was read so far is changed, the rest of the text stays.\<close>

definition on_text :: "('a \<Rightarrow> 'b) \<Rightarrow> json_err + 'a \<times> string \<Rightarrow> json_err + 'b \<times> string" where
  "on_text f r = (case r of Inl e \<Rightarrow> Inl e | Inr (x, t) \<Rightarrow> Inr (f x, t))"

lemma on_text_simps [simp]: "on_text f (Inl e) = Inl e" "on_text f (Inr (x, t)) = Inr (f x, t)"
  by (simp_all add: on_text_def)

lemma on_text_Inr: "on_text f x = Inr (a, r) \<longleftrightarrow> (\<exists>b. x = Inr (b, r) \<and> a = f b)"
  by (auto simp: on_text_def split: sum.splits)

lemma on_text_on_text: "on_text f (on_text g x) = on_text (\<lambda>y. f (g y)) x"
  by (auto simp: on_text_def split: sum.splits)

text \<open>The body of a string up to its closing quote, still quoted, and what follows.\<close>

fun scan_string :: "string \<Rightarrow> json_err + string \<times> string" where
  "scan_string [] = Inl JEnd"
| "scan_string (c # cs) =
     (if c = CHR 0x22 then Inr ([], cs)
      else if byte c < 32 then Inl JInvalid
      else if c = bslash then
        (case cs of
           [] \<Rightarrow> Inl JInvalid
         | e # es \<Rightarrow>
             (if simple_escape e \<noteq> None \<or> e = CHR ''u'' \<and> hex4 es \<noteq> None then on_text (\<lambda>b. c # e # b) (scan_string es)
              else Inl JInvalid))
      else on_text (\<lambda>b. c # b) (scan_string cs))"

text \<open>\<^verbatim>\<open>unquote\<close>: surrogate pairs make one rune; a lone surrogate and an invalid byte become \<^verbatim>\<open>U+FFFD\<close>.\<close>

function unquote :: "string \<Rightarrow> string" where
  "unquote s =
     (case s of
        [] \<Rightarrow> []
      | c # cs \<Rightarrow>
          (if c = bslash then
             (case getu4 s of
                Some r \<Rightarrow>
                  (if 55296 \<le> r \<and> r \<le> 57343 then
                     (case getu4 (drop 6 s) of
                        Some r2 \<Rightarrow>
                          (if r < 56320 \<and> 56320 \<le> r2 \<and> r2 \<le> 57343
                           then encode_rune (65536 + (r - 55296) * 1024 + (r2 - 56320)) @ unquote (drop 12 s)
                           else RuneError @ unquote (drop 6 s))
                      | None \<Rightarrow> RuneError @ unquote (drop 6 s))
                   else encode_rune r @ unquote (drop 6 s))
              | None \<Rightarrow>
                  (case cs of
                     [] \<Rightarrow> []
                   | e # es \<Rightarrow> (case simple_escape e of Some x \<Rightarrow> x # unquote es | None \<Rightarrow> unquote es)))
           else
             (case rune_len s of
                Some n \<Rightarrow> take n s @ unquote (drop n s)
              | None \<Rightarrow> RuneError @ unquote cs)))"
  by pat_completeness auto
termination
  by (relation "measure length") (auto dest: rune_len_bounds)

declare unquote.simps [simp del]

text \<open>A number: an optional sign, digits without a leading zero, optionally a fraction and an exponent.\<close>

definition digits1 :: "string \<Rightarrow> json_err + string \<times> string" where
  "digits1 s = (if takeWhile is_digit s = [] then Inl JInvalid else Inr (takeWhile is_digit s, dropWhile is_digit s))"

definition num_int :: "string \<Rightarrow> json_err + string \<times> string" where
  "num_int s =
     (let (sign, t) = (case s of c # cs \<Rightarrow> (if c = CHR ''-'' then ([c], cs) else ([], s)) | [] \<Rightarrow> ([], [])) in
      case t of
        [] \<Rightarrow> Inl JInvalid
      | d # ds \<Rightarrow> (if d = CHR ''0'' then Inr (sign @ [d], ds) else on_text ((@) sign) (digits1 t)))"

definition num_frac :: "string \<Rightarrow> json_err + string \<times> string" where
  "num_frac s = (case s of c # cs \<Rightarrow> (if c = CHR ''.'' then on_text ((#) c) (digits1 cs) else Inr ([], s)) | [] \<Rightarrow> Inr ([], s))"

definition num_exp :: "string \<Rightarrow> json_err + string \<times> string" where
  "num_exp s =
     (case s of
        [] \<Rightarrow> Inr ([], s)
      | c # cs \<Rightarrow>
          (if c = CHR ''e'' \<or> c = CHR ''E'' then
             (case cs of
                [] \<Rightarrow> Inl JInvalid
              | d # ds \<Rightarrow>
                  (if d = CHR ''+'' \<or> d = CHR ''-'' then on_text (\<lambda>x. c # d # x) (digits1 ds)
                   else on_text ((#) c) (digits1 cs)))
           else Inr ([], s)))"

definition int_text :: "string \<Rightarrow> int" where
  "int_text s = (case parse_sign s of Some i \<Rightarrow> i | None \<Rightarrow> 0)"

definition parse_number :: "string \<Rightarrow> json_err + json \<times> string" where
  "parse_number s =
     (case num_int s of
        Inl e \<Rightarrow> Inl e
      | Inr (i, s1) \<Rightarrow>
          (case num_frac s1 of
             Inl e \<Rightarrow> Inl e
           | Inr (f, s2) \<Rightarrow>
               (case num_exp s2 of
                  Inl e \<Rightarrow> Inl e
                | Inr (x, s3) \<Rightarrow> Inr (if f = [] \<and> x = [] then JNum (int_text i) else JFrac (i @ f @ x), s3))))"

definition parse_literal :: "string \<Rightarrow> json \<Rightarrow> string \<Rightarrow> json_err + json \<times> string" where
  "parse_literal lit v s = (if has_prefix s lit then Inr (v, drop (length lit) s) else Inl JInvalid)"

definition maxNestingDepth :: nat where
  "maxNestingDepth = 10000"

text \<open>\<open>depth\<close>: how many arrays and objects may still be opened.\<close>

fun parse_value :: "nat \<Rightarrow> nat \<Rightarrow> string \<Rightarrow> json_err + json \<times> string"
and parse_elems :: "nat \<Rightarrow> nat \<Rightarrow> string \<Rightarrow> json_err + json list \<times> string"
and parse_members :: "nat \<Rightarrow> nat \<Rightarrow> string \<Rightarrow> json_err + (string \<times> json) list \<times> string" where
  "parse_value 0 depth s = Inl JInvalid"
| "parse_value (Suc n) depth s =
     (case skip_ws s of
        [] \<Rightarrow> Inl JEnd
      | c # cs \<Rightarrow>
          (if c = CHR 0x22 then on_text (\<lambda>b. JStr (unquote b)) (scan_string cs)
           else if c = CHR ''{'' then
             (if depth = 0 then Inl JInvalid
              else
                (case skip_ws cs of
                   [] \<Rightarrow> Inl JEnd
                 | d # ds \<Rightarrow>
                     (if d = CHR ''}'' then Inr (JObj [], ds)
                      else on_text JObj (parse_members n (depth - 1) (d # ds)))))
           else if c = CHR ''['' then
             (if depth = 0 then Inl JInvalid
              else
                (case skip_ws cs of
                   [] \<Rightarrow> Inl JEnd
                 | d # ds \<Rightarrow>
                     (if d = CHR '']'' then Inr (JArr [], ds)
                      else on_text JArr (parse_elems n (depth - 1) (d # ds)))))
           else if c = CHR ''t'' then parse_literal ''true'' (JBool True) (c # cs)
           else if c = CHR ''f'' then parse_literal ''false'' (JBool False) (c # cs)
           else if c = CHR ''n'' then parse_literal ''null'' JNull (c # cs)
           else if c = CHR ''-'' \<or> is_digit c then parse_number (c # cs)
           else Inl JInvalid))"
| "parse_elems 0 depth s = Inl JInvalid"
| "parse_elems (Suc n) depth s =
     (case parse_value n depth s of
        Inl e \<Rightarrow> Inl e
      | Inr (v, s1) \<Rightarrow>
          (case skip_ws s1 of
             [] \<Rightarrow> Inl JEnd
           | c # cs \<Rightarrow>
               (if c = CHR '','' then on_text ((#) v) (parse_elems n depth cs)
                else if c = CHR '']'' then Inr ([v], cs)
                else Inl JInvalid)))"
| "parse_members 0 depth s = Inl JInvalid"
| "parse_members (Suc n) depth s =
     (case skip_ws s of
        [] \<Rightarrow> Inl JEnd
      | q # qs \<Rightarrow>
          (if q \<noteq> CHR 0x22 then Inl JInvalid
           else
             (case scan_string qs of
                Inl e \<Rightarrow> Inl e
              | Inr (k, s1) \<Rightarrow>
                  (case skip_ws s1 of
                     [] \<Rightarrow> Inl JEnd
                   | col # s2 \<Rightarrow>
                       (if col \<noteq> CHR '':'' then Inl JInvalid
                        else
                          (case parse_value n depth s2 of
                             Inl e \<Rightarrow> Inl e
                           | Inr (v, s3) \<Rightarrow>
                               (case skip_ws s3 of
                                  [] \<Rightarrow> Inl JEnd
                                | c # cs \<Rightarrow>
                                    (if c = CHR '','' then on_text ((#) (unquote k, v)) (parse_members n depth cs)
                                     else if c = CHR ''}'' then Inr ([(unquote k, v)], cs)
                                     else Inl JInvalid))))))))"

text \<open>\<^verbatim>\<open>json.Unmarshal\<close> up to the value: one value and nothing but white space after it.\<close>

definition json_parse :: "string \<Rightarrow> json_err + json" where
  "json_parse s =
     (case parse_value (2 * length s + 1) maxNestingDepth s of
        Inl e \<Rightarrow> Inl e
      | Inr (v, rest) \<Rightarrow> (if skip_ws rest = [] then Inr v else Inl JInvalid))"

section \<open>Writing\<close>

text \<open>
  How \<^verbatim>\<open>json.Marshal\<close> writes a string: quotes, backslashes and control characters escaped, \<^verbatim>\<open><\<close>, \<^verbatim>\<open>>\<close>, \<^verbatim>\<open>&\<close> and the line separators
  of Unicode by their numbers, an invalid byte as the escape of \<^verbatim>\<open>U+FFFD\<close>.
\<close>

definition u00 :: "char \<Rightarrow> string" where
  "u00 c = [bslash, CHR ''u'', CHR ''0'', CHR ''0'', hex_digit (byte c div 16), hex_digit (byte c mod 16)]"

definition json_escape :: "char \<Rightarrow> string" where
  "json_escape c =
     (let n = byte c in
      if c = CHR 0x22 \<or> c = bslash then [bslash, c]
      else if n = 8 then [bslash, CHR ''b'']
      else if n = 12 then [bslash, CHR ''f'']
      else if n = 10 then [bslash, CHR ''n'']
      else if n = 13 then [bslash, CHR ''r'']
      else if n = 9 then [bslash, CHR ''t'']
      else if n < 32 \<or> c = CHR ''<'' \<or> c = CHR ''>'' \<or> c = CHR ''&'' then u00 c
      else [c])"

definition line_separator :: "string \<Rightarrow> string option" where
  "line_separator r =
     (if r = encode_rune 8232 then Some (bslash # ''u2028'') else if r = encode_rune 8233 then Some (bslash # ''u2029'') else None)"

function json_body :: "string \<Rightarrow> string" where
  "json_body s =
     (case s of
        [] \<Rightarrow> []
      | c # cs \<Rightarrow>
          (if byte c < 128 then json_escape c @ json_body cs
           else
             (case rune_len s of
                None \<Rightarrow> (bslash # ''ufffd'') @ json_body cs
              | Some n \<Rightarrow> (case line_separator (take n s) of Some e \<Rightarrow> e | None \<Rightarrow> take n s) @ json_body (drop n s))))"
  by pat_completeness auto
termination
  by (relation "measure length") (auto dest: rune_len_bounds)

declare json_body.simps [simp del]

definition json_string :: "string \<Rightarrow> string" where
  "json_string s = CHR 0x22 # json_body s @ [CHR 0x22]"

text \<open>An object with the texts of its values.\<close>

definition json_object :: "(string \<times> string) list \<Rightarrow> string" where
  "json_object kvs = ''{'' @ join '','' (map (\<lambda>(k, t). json_string k @ '':'' @ t) kvs) @ ''}''"

section \<open>Fields of a struct\<close>

text \<open>
  The last value for a key that is not \<^verbatim>\<open>null\<close>; \<^const>\<open>None\<close> when one has another type, which is an error of the whole decoding. Keys
  compare without regard to case.
\<close>

fun str_field :: "string \<Rightarrow> (string \<times> json) list \<Rightarrow> string \<Rightarrow> string option" where
  "str_field name [] acc = Some acc"
| "str_field name ((k, v) # ms) acc =
     (if to_lower k = name then
        (case v of JStr s \<Rightarrow> str_field name ms s | JNull \<Rightarrow> str_field name ms acc | _ \<Rightarrow> None)
      else str_field name ms acc)"

fun int_field :: "string \<Rightarrow> (string \<times> json) list \<Rightarrow> int \<Rightarrow> int option" where
  "int_field name [] acc = Some acc"
| "int_field name ((k, v) # ms) acc =
     (if to_lower k = name then
        (case v of JNum i \<Rightarrow> (if is_int64 i then int_field name ms i else None) | JNull \<Rightarrow> int_field name ms acc | _ \<Rightarrow> None)
      else int_field name ms acc)"

text \<open>The members a struct is decoded from: none for \<^verbatim>\<open>null\<close>, an error for a value of another kind.\<close>

definition members_of :: "json_err + json \<Rightarrow> (string \<times> json) list option" where
  "members_of r = (case r of Inr (JObj ms) \<Rightarrow> Some ms | Inr JNull \<Rightarrow> Some [] | _ \<Rightarrow> None)"

section \<open>The parser takes something off its text, and has fuel enough\<close>

lemma skip_ws_length: "length (skip_ws s) \<le> length s"
  by (simp add: skip_ws_def length_dropWhile_le)

lemma scan_string_length: "scan_string s = Inr (b, r) \<Longrightarrow> length r < length s"
proof (induction s arbitrary: b rule: scan_string.induct)
  case (2 c cs)
  then show ?case
    by (cases "scan_string cs"; cases "scan_string (tl cs)") (force split: if_splits list.splits)+
qed simp

lemma number_length: "parse_number s = Inr (v, r) \<Longrightarrow> length r < length s"
proof -
  have d: "digits1 t = Inr (x, y) \<Longrightarrow> length y < length t" for t x y
  proof -
    assume "digits1 t = Inr (x, y)"
    then have "y = dropWhile is_digit t" "takeWhile is_digit t \<noteq> []" by (auto simp: digits1_def split: if_splits)
    moreover have "length t = length (takeWhile is_digit t) + length (dropWhile is_digit t)"
      by (metis length_append takeWhile_dropWhile_id)
    ultimately show ?thesis by simp
  qed
  have m: "on_text f (digits1 t) = Inr (x, y) \<Longrightarrow> length y < length t" for f t x y
    by (auto simp: on_text_Inr dest: d)
  have i: "num_int t = Inr (x, y) \<Longrightarrow> length y < length t" for t x y
    by (fastforce simp: num_int_def Let_def dest!: m split: list.splits if_splits prod.splits)
  have f: "num_frac t = Inr (x, y) \<Longrightarrow> length y \<le> length t" for t x y
    by (fastforce simp: num_frac_def dest!: m split: list.splits if_splits)
  have e: "num_exp t = Inr (x, y) \<Longrightarrow> length y \<le> length t" for t x y
    by (fastforce simp: num_exp_def dest!: m split: list.splits if_splits)
  assume "parse_number s = Inr (v, r)"
  then show ?thesis by (auto simp: parse_number_def split: sum.splits prod.splits dest!: i f e)
qed

lemma literal_length: "parse_literal lit v s = Inr (w, r) \<Longrightarrow> lit \<noteq> [] \<Longrightarrow> length r < length s"
  by (auto simp: parse_literal_def has_prefix_iff split: if_splits)

lemma skip_ws_Cons: "skip_ws s = c # cs \<Longrightarrow> length cs < length s"
  using skip_ws_length [of s] by simp

lemma value_length_step:
  assumes ih: "\<And>d s vs r. parse_elems n d s = Inr (vs, r) \<Longrightarrow> length r < length s"
      "\<And>d s ms r. parse_members n d s = Inr (ms, r) \<Longrightarrow> length r < length s"
    and run: "parse_value (Suc n) d s = Inr (v, r)"
  shows "length r < length s"
proof -
  obtain c cs where c: "skip_ws s = c # cs" using run by (auto split: list.splits)
  note cs = skip_ws_Cons [OF c]
  have nested: "length r < length s" if "skip_ws cs = x # xs" "length r < length (x # xs) \<or> r = xs" for x xs
    using cs skip_ws_Cons [OF that(1)] that(2) by auto
  show ?thesis
  proof (cases "c = CHR ''{'' \<or> c = CHR ''[''")
    case True
    then show ?thesis using run c nested ih by (fastforce simp: on_text_Inr split: if_splits list.splits)
  next
    case False
    then have "(\<exists>b. scan_string cs = Inr (b, r)) \<or> (\<exists>lit w. lit \<noteq> [] \<and> parse_literal lit w (c # cs) = Inr (v, r)) \<or> parse_number (c # cs) = Inr (v, r)"
      using run c by (auto simp: on_text_Inr split: if_splits)
    then have "length r < length (c # cs)"
      using scan_string_length [of cs _ r] literal_length [of _ _ "c # cs" v r] number_length [of "c # cs" v r] by fastforce
    then show ?thesis using cs by simp
  qed
qed

lemma parse_length:
  "(\<forall>d s v r. parse_value n d s = Inr (v, r) \<longrightarrow> length r < length s) \<and> (\<forall>d s vs r. parse_elems n d s = Inr (vs, r) \<longrightarrow> length r < length s) \<and>
   (\<forall>d s ms r. parse_members n d s = Inr (ms, r) \<longrightarrow> length r < length s)"
proof (induction n)
  case (Suc n)
  then have ih: "\<And>d s v r. parse_value n d s = Inr (v, r) \<Longrightarrow> length r < length s" "\<And>d s vs r. parse_elems n d s = Inr (vs, r) \<Longrightarrow> length r < length s"
      "\<And>d s ms r. parse_members n d s = Inr (ms, r) \<Longrightarrow> length r < length s" by blast+
  have elems: "length r < length s" if run: "parse_elems (Suc n) d s = Inr (vs, r)" for d s vs r
  proof -
    obtain v s1 c cs where v: "parse_value n d s = Inr (v, s1)" and c: "skip_ws s1 = c # cs" using run by (auto split: sum.splits prod.splits list.splits)
    have "length r \<le> length cs" using run v c by (auto simp: on_text_Inr split: if_splits dest!: ih(2))
    then show ?thesis using ih(1) [OF v] skip_ws_Cons [OF c] by simp
  qed
  have members: "length r < length s" if run: "parse_members (Suc n) d s = Inr (ms, r)" for d s ms r
  proof -
    obtain qs k s1 s2 v s3 c cs where st: "skip_ws s = CHR 0x22 # qs" "scan_string qs = Inr (k, s1)" "skip_ws s1 = CHR '':'' # s2"
        "parse_value n d s2 = Inr (v, s3)" "skip_ws s3 = c # cs"
      using run by (auto split: sum.splits prod.splits list.splits if_splits)
    have "length r \<le> length cs" using run st by (auto simp: on_text_Inr split: if_splits dest!: ih(3))
    then show ?thesis using ih(1) [OF st(4)] scan_string_length [OF st(2)] st(1,3,5) [THEN skip_ws_Cons] by simp
  qed
  have vals: "length r < length s" if "parse_value (Suc n) d s = Inr (v, r)" for d s v r
    by (rule value_length_step [OF _ _ that]) (fact ih)+
  show ?case using vals elems members by blast
qed simp

lemma value_fuel_step:
  assumes "\<And>d t. length t < length s \<Longrightarrow> parse_elems m d t = parse_elems n d t" "\<And>d t. length t < length s \<Longrightarrow> parse_members m d t = parse_members n d t"
  shows "parse_value (Suc m) d s = parse_value (Suc n) d s"
proof (cases "skip_ws s")
  case (Cons c cs)
  have "length (skip_ws cs) < length s" using skip_ws_Cons [OF Cons] skip_ws_length [of cs] by simp
  then have "parse_elems m d' (skip_ws cs) = parse_elems n d' (skip_ws cs)" "parse_members m d' (skip_ws cs) = parse_members n d' (skip_ws cs)" for d'
    using assms by blast+
  then show ?thesis using Cons by (cases "skip_ws cs") simp_all
qed simp

lemma parse_fuel:
  "(\<forall>d s m. 2 * length s + 1 \<le> n \<longrightarrow> n \<le> m \<longrightarrow> parse_value m d s = parse_value n d s) \<and>
   (\<forall>d s m. 2 * length s + 2 \<le> n \<longrightarrow> n \<le> m \<longrightarrow> parse_elems m d s = parse_elems n d s) \<and>
   (\<forall>d s m. 2 * length s + 2 \<le> n \<longrightarrow> n \<le> m \<longrightarrow> parse_members m d s = parse_members n d s)"
proof (induction n)
  case (Suc n)
  then have ih: "\<And>d s m. 2 * length s + 1 \<le> n \<Longrightarrow> n \<le> m \<Longrightarrow> parse_value m d s = parse_value n d s"
      "\<And>d s m. 2 * length s + 2 \<le> n \<Longrightarrow> n \<le> m \<Longrightarrow> parse_elems m d s = parse_elems n d s"
      "\<And>d s m. 2 * length s + 2 \<le> n \<Longrightarrow> n \<le> m \<Longrightarrow> parse_members m d s = parse_members n d s" by blast+
  have vals: "parse_value m d s = parse_value (Suc n) d s" if len: "2 * length s + 1 \<le> Suc n" and m: "Suc n \<le> m" for d s m
  proof -
    obtain k where k: "m = Suc k" "n \<le> k" using m by (cases m) auto
    have t: "2 * length t + 2 \<le> n" if "length t < length s" for t :: string using len that by simp
    show ?thesis unfolding k(1) by (rule value_fuel_step) (use ih(2,3) [OF t k(2)] in blast)+
  qed
  have shorter: "2 * length cs + 2 \<le> n" if "2 * length s + 2 \<le> Suc n" "length cs < length s" for s cs :: string using that by simp
  have elems: "parse_elems m d s = parse_elems (Suc n) d s" if len: "2 * length s + 2 \<le> Suc n" and m: "Suc n \<le> m" for d s m
  proof -
    obtain k where k: "m = Suc k" "n \<le> k" using m by (cases m) auto
    have "2 * length s + 1 \<le> n" using len by simp
    then have v: "parse_value k d s = parse_value n d s" by (rule ih(1) [OF _ k(2)])
    have rest: "parse_elems k d cs = parse_elems n d cs" if "parse_value n d s = Inr (w, s1)" "skip_ws s1 = c # cs" for w s1 c cs
    proof -
      have "length s1 < length s" using parse_length [of n] that(1) by blast
      then have "length cs < length s" using skip_ws_Cons [OF that(2)] by simp
      then show ?thesis by (rule ih(2) [OF shorter [OF len] k(2)])
    qed
    show ?thesis
    proof (cases "parse_value n d s")
      case (Inr p)
      then obtain w s1 where p: "parse_value n d s = Inr (w, s1)" by (cases p) simp
      then show ?thesis using rest [OF p] by (cases "skip_ws s1") (simp_all add: k(1) v)
    qed (simp add: k(1) v)
  qed
  have members: "parse_members m d s = parse_members (Suc n) d s" if len: "2 * length s + 2 \<le> Suc n" and m: "Suc n \<le> m" for d s m
  proof -
    obtain k where k: "m = Suc k" "n \<le> k" using m by (cases m) auto
    have st: "length s2 < length s" if "skip_ws s = q # qs" "scan_string qs = Inr (x, s1)" "skip_ws s1 = c # s2" for q qs x s1 c s2
      using skip_ws_Cons [OF that(1)] scan_string_length [OF that(2)] skip_ws_Cons [OF that(3)] by simp
    have v: "parse_value k d s2 = parse_value n d s2" if "length s2 < length s" for s2
      by (rule ih(1) [OF _ k(2)]) (use len that in simp)
    have rest: "parse_members k d cs = parse_members n d cs" if "length s2 < length s" "parse_value n d s2 = Inr (w, s3)" "skip_ws s3 = c # cs" for s2 w s3 c cs
    proof -
      have "length s3 < length s2" using parse_length [of n] that(2) by blast
      then have "length cs < length s" using skip_ws_Cons [OF that(3)] that(1) by simp
      then show ?thesis by (rule ih(3) [OF shorter [OF len] k(2)])
    qed
    show ?thesis
    proof (cases "\<exists>q qs x s1 s2. skip_ws s = q # qs \<and> scan_string qs = Inr (x, s1) \<and> skip_ws s1 = CHR '':'' # s2")
      case True
      then obtain q qs x s1 s2 where at: "skip_ws s = q # qs" "scan_string qs = Inr (x, s1)" "skip_ws s1 = CHR '':'' # s2" by blast
      note s2 = st [OF at]
      show ?thesis
      proof (cases "parse_value n d s2")
        case (Inr p)
        then obtain w s3 where p: "parse_value n d s2 = Inr (w, s3)" by (cases p) simp
        then show ?thesis using at rest [OF s2 p] by (cases "skip_ws s3") (simp_all add: k(1) v [OF s2])
      qed (simp add: k(1) v [OF s2] at)
    next
      case False
      then show ?thesis by (auto simp: k(1) split: sum.split prod.split list.split)
    qed
  qed
  show ?case using vals elems members by blast
qed simp

text \<open>More fuel changes nothing: the parser never runs out of it.\<close>

lemma json_parse_fuel: "2 * length s + 1 \<le> n \<Longrightarrow> parse_value n d s = parse_value (2 * length s + 1) d s"
  using parse_fuel [of "2 * length s + 1"] by blast

section \<open>Runes and repaired texts\<close>

lemma rune_len_take: "rune_len s = Some n \<Longrightarrow> rune_len (take n s @ t) = Some n"
  apply (cases s)
   apply (simp add: rune_len_def)
  apply (cases "tl s")
   apply (auto simp: rune_len_def utf8_first_def Let_def split: if_splits option.splits)
  done

lemma valid_utf8_Nil [simp]: "valid_utf8 []"
  by (simp add: valid_utf8.simps)

lemma valid_utf8_rune: "rune_len s = Some n \<Longrightarrow> valid_utf8 (take n s @ t) = valid_utf8 t"
  using rune_len_take [of s n t] rune_len_bounds [of s n] by (subst valid_utf8.simps) (auto simp: min_def)

lemma valid_utf8_append: "valid_utf8 s \<Longrightarrow> valid_utf8 t \<Longrightarrow> valid_utf8 (s @ t)"
proof (induction s rule: valid_utf8.induct)
  case (1 s)
  show ?case
  proof (cases "s = []")
    case False
    then obtain n where n: "rune_len s = Some n" "valid_utf8 (drop n s)" using 1 by (auto simp: valid_utf8.simps [of s] split: option.splits)
    then have "valid_utf8 (drop n s @ t)" using 1 False by auto
    then have "valid_utf8 (take n s @ (drop n s @ t))" using valid_utf8_rune [OF n(1)] by blast
    then show ?thesis by (metis append.assoc append_take_drop_id)
  qed (use 1 in simp)
qed

lemma to_valid_valid: "valid_utf8 rep \<Longrightarrow> valid_utf8 (to_valid rep bad s)"
proof (induction rep bad s rule: to_valid.induct)
  case (1 rep bad s)
  then show ?case
    by (subst to_valid.simps) (auto simp: valid_utf8_rune intro!: valid_utf8_append split: option.split)
qed

lemma to_valid_id: "valid_utf8 s \<Longrightarrow> to_valid rep bad s = s"
proof (induction rep bad s rule: to_valid.induct)
  case (1 rep bad s)
  then show ?case
    by (subst to_valid.simps) (auto simp: valid_utf8.simps [of s] split: option.splits)
qed

lemma rune_trail: "rune_len s = Some n \<Longrightarrow> n > 1 \<Longrightarrow> c \<in> set (take n s) \<Longrightarrow> byte c \<ge> 128"
  apply (cases s)
   apply (simp add: rune_len_def)
  apply (cases "tl s")
   apply (auto simp: rune_len_def utf8_first_def Let_def list_all_iff trail_def split: if_splits option.splits)
  done

definition NUL :: char where "NUL = char_of (0 :: nat)"

lemma valid_without_NUL: "valid_utf8 s \<Longrightarrow> valid_utf8 (filter (\<lambda>c. c \<noteq> NUL) s)"
proof (induction s rule: valid_utf8.induct)
  case (1 s)
  show ?case
  proof (cases "s = []")
    case False
    then obtain n where n: "rune_len s = Some n" "valid_utf8 (drop n s)" using 1 by (auto simp: valid_utf8.simps [of s] split: option.splits)
    then have ih: "valid_utf8 (filter (\<lambda>c. c \<noteq> NUL) (drop n s))" using 1 False by auto
    have "valid_utf8 (filter (\<lambda>c. c \<noteq> NUL) (take n s))"
    proof (cases "n > 1")
      case True
      then have "filter (\<lambda>c. c \<noteq> NUL) (take n s) = take n s" using rune_trail [OF n(1)] by (force simp: filter_id_conv NUL_def)
      then show ?thesis using valid_utf8_rune [OF n(1), of "[]"] by simp
    next
      case False
      with rune_len_bounds [OF n(1)] have one: "n = 1" "s \<noteq> []" by auto
      then show ?thesis using valid_utf8_rune [OF n(1), of "[]"] by (cases s) auto
    qed
    with ih have "valid_utf8 (filter (\<lambda>c. c \<noteq> NUL) (take n s @ drop n s))" by (simp only: filter_append valid_utf8_append)
    then show ?thesis by simp
  qed simp
qed

lemma valid_RuneError [simp]: "valid_utf8 RuneError"
  by (simp add: valid_utf8.simps rune_len_def utf8_first_def RuneError_def trail_def)

section \<open>Written texts are read back\<close>

lemma hex_val_of_digit: "n < 16 \<Longrightarrow> hex_val (hex_digit n) = Some n"
  by (auto simp: hex_val_def hex_digit_def is_digit_def)

definition plain :: "char \<Rightarrow> bool" where
  "plain c \<longleftrightarrow> 32 \<le> byte c \<and> c \<noteq> CHR 0x22 \<and> c \<noteq> bslash"

lemma scan_plain: "list_all plain xs \<Longrightarrow> scan_string (xs @ t) = on_text ((@) xs) (scan_string t)"
proof (induction xs)
  case Nil
  then show ?case by (auto simp: on_text_def split: sum.split)
next
  case (Cons x xs)
  then show ?case by (simp add: plain_def on_text_on_text)
qed

lemma hex_digit_byte: "n < 16 \<Longrightarrow> byte (hex_digit n) = (if n < 10 then 48 + n else 87 + n)"
  by (auto simp: hex_digit_def)

lemma hex_digit_plain: "n < 16 \<Longrightarrow> plain (hex_digit n)"
  using hex_digit_byte [of n] by (auto simp: plain_def bslash_def split: if_splits)

text \<open>What a piece of a written string stands for.\<close>

definition reads :: "string \<Rightarrow> string \<Rightarrow> bool" where
  "reads piece bytes \<longleftrightarrow>
     (\<forall>t. scan_string (piece @ t) = on_text ((@) piece) (scan_string t) \<and> unquote (piece @ t) = bytes @ unquote t)"

lemma append_fun: "(@) (x # xs) = (\<lambda>y. x # xs @ y)" "(@) [] = (\<lambda>y. y)" "(@) (xs @ ys) = (\<lambda>y. xs @ ys @ y)"
  by auto

lemma on_text_id: "on_text (\<lambda>y. y) x = x"
  by (auto simp: on_text_def split: sum.split)

lemma scan_escape:
  "simple_escape e \<noteq> None \<or> e = CHR ''u'' \<and> hex4 t \<noteq> None \<Longrightarrow> scan_string (bslash # e # t) = on_text (\<lambda>b. bslash # e # b) (scan_string t)"
  by (simp add: bslash_def)

lemma reads_u4:
  assumes "n < 16" "k < 16" "a < 16" "b < 16" and r: "r = ((a * 16 + b) * 16 + n) * 16 + k" "r < 55296"
  shows "reads [bslash, CHR ''u'', hex_digit a, hex_digit b, hex_digit n, hex_digit k] (encode_rune r)"
proof -
  have h: "hex4 (hex_digit a # hex_digit b # hex_digit n # hex_digit k # t) = Some r" for t using assms by (simp add: hex_val_of_digit)
  have digits: "scan_string ([hex_digit a, hex_digit b, hex_digit n, hex_digit k] @ t) = on_text ((@) [hex_digit a, hex_digit b, hex_digit n, hex_digit k]) (scan_string t)" for t
    using assms(1-4) by (intro scan_plain) (simp add: hex_digit_plain)
  have "unquote (bslash # CHR ''u'' # hex_digit a # hex_digit b # hex_digit n # hex_digit k # t) = encode_rune r @ unquote t" for t
    using h r(2) by (subst unquote.simps) (simp del: hex4.simps)
  moreover have "scan_string (bslash # CHR ''u'' # hex_digit a # hex_digit b # hex_digit n # hex_digit k # t) =
      on_text (\<lambda>y. bslash # CHR ''u'' # hex_digit a # hex_digit b # hex_digit n # hex_digit k # y) (scan_string t)" for t
    using scan_escape [of "CHR ''u''" "hex_digit a # hex_digit b # hex_digit n # hex_digit k # t"] h digits [of t]
    by (simp add: on_text_on_text append_fun del: hex4.simps scan_string.simps)
  ultimately show ?thesis by (simp add: reads_def append_fun del: scan_string.simps)
qed

lemma reads_escape: "simple_escape e = Some x \<Longrightarrow> e \<noteq> CHR ''u'' \<Longrightarrow> reads [bslash, e] [x]"
  by (auto simp: reads_def scan_escape append_fun unquote.simps [of "bslash # e # t" for t] simp del: scan_string.simps)

lemma reads_rune:
  assumes n: "rune_len s = Some n" and first: "plain (hd s)"
  shows "reads (take n s) (take n s)"
proof -
  obtain c cs where s: "s = c # cs" using n by (cases s) (auto simp: rune_len_def)
  have "list_all plain (take n s)"
  proof (cases "n > 1")
    case True
    have "plain c" if "byte c \<ge> 128" for c using that by (auto simp: plain_def bslash_def)
    then show ?thesis using rune_trail [OF n True] by (auto simp: list_all_iff)
  next
    case False
    then show ?thesis using rune_len_bounds [OF n] first s by (cases n) auto
  qed
  then have scan: "scan_string (take n s @ t) = on_text ((@) (take n s)) (scan_string t)" for t by (rule scan_plain)
  have "unquote (take n s @ t) = take n s @ unquote t" for t
  proof -
    have "rune_len (take n s @ t) = Some n" by (rule rune_len_take [OF n])
    moreover have "hd (take n s @ t) \<noteq> bslash" "take n s @ t \<noteq> []" using first rune_len_bounds [OF n] by (auto simp: s plain_def hd_append take_Cons split: nat.splits)
    moreover have "take n (take n s @ t) = take n s" "drop n (take n s @ t) = t" using rune_len_bounds [OF n] by (auto simp: min_def)
    moreover obtain x xs where "take n s @ t = x # xs" using calculation(3) by (cases "take n s @ t") auto
    ultimately show ?thesis by (subst unquote.simps) (auto simp del: take_append drop_append)
  qed
  with scan show ?thesis by (simp add: reads_def)
qed

lemma hex_digit_simps: "hex_digit 0 = CHR ''0''" "hex_digit 2 = CHR ''2''" "hex_digit 8 = CHR ''8''" "hex_digit 9 = CHR ''9''"
  by (simp_all add: hex_digit_def of_char_eq_iff [symmetric, where 'a = nat])

lemma encode_byte: "byte c < 128 \<Longrightarrow> encode_rune (byte c) = [c]"
  by (simp add: encode_rune_def)

lemma reads_ascii: "byte c < 128 \<Longrightarrow> reads (json_escape c) [c]"
proof -
  assume c: "byte c < 128"
  have u: "reads (u00 c) [c]" using reads_u4 [of "byte c div 16" "byte c mod 16" 0 0 "byte c"] c encode_byte [OF c]
    by (simp add: u00_def hex_digit_simps)
  have p: "reads [c] [c]" if "plain c" using reads_rune [of "[c]" 1] that c by (simp add: rune_len_def utf8_first_def)
  have q: "reads [bslash, e] [c]" if "simple_escape e = Some c" "e \<noteq> CHR ''u''" for e using reads_escape that by blast
  show ?thesis
  proof (cases "c = CHR 0x22 \<or> c = bslash \<or> byte c \<in> {8, 9, 10, 12, 13}")
    case True
    have plainly: "\<exists>e. json_escape c = [bslash, e] \<and> simple_escape e = Some c \<and> e \<noteq> CHR ''u''" if "c = CHR 0x22 \<or> c = bslash"
      using that by (auto simp: json_escape_def simple_escape_def bslash_def)
    have "\<exists>e. json_escape c = [bslash, e] \<and> simple_escape e = Some c \<and> e \<noteq> CHR ''u''" if b: "byte c \<in> {8, 9, 10, 12, 13}"
    proof -
      have ne: "c \<noteq> CHR 0x22" "c \<noteq> bslash" using b by (auto simp: bslash_def)
      have step: "\<exists>e. json_escape c = [bslash, e] \<and> simple_escape e = Some c \<and> e \<noteq> CHR ''u''"
        if "byte c = k" "json_escape c = [bslash, e]" "simple_escape e = Some (char_of k)" "e \<noteq> CHR ''u''" for k e
        using that by force
      show ?thesis using b ne step [of 8 "CHR ''b''"] step [of 9 "CHR ''t''"] step [of 10 "CHR ''n''"] step [of 12 "CHR ''f''"] step [of 13 "CHR ''r''"]
        by (elim insertE emptyE) (simp_all add: json_escape_def simple_escape_def)
    qed
    then show ?thesis using True plainly q by auto
  next
    case False
    then show ?thesis using u p by (auto simp: json_escape_def Let_def plain_def)
  qed
qed

lemma reads_append: "reads p b \<Longrightarrow> reads q d \<Longrightarrow> reads (p @ q) (b @ d)"
  by (auto simp: reads_def on_text_on_text append_fun)

lemma reads_Nil: "reads [] []"
proof -
  show ?thesis by (simp add: reads_def append_fun on_text_id)
qed

lemma reads_body: "valid_utf8 s \<Longrightarrow> reads (json_body s) s"
proof (induction s rule: json_body.induct)
  case (1 s)
  show ?case
  proof (cases s)
    case Nil
    then show ?thesis by (simp add: json_body.simps reads_Nil)
  next
    case (Cons c cs)
    then obtain n where n: "rune_len s = Some n" "valid_utf8 (drop n s)"
      using "1.prems" valid_utf8.simps [of s] by (cases "rune_len s") auto
    show ?thesis
    proof (cases "byte c < 128")
      case True
      then have "n = 1" using n(1) Cons by (simp add: rune_len_def utf8_first_def)
      then have "reads (json_body cs) cs" using "1.IH"(1) [OF Cons True] n(2) Cons by simp
      from reads_append [OF reads_ascii [OF True] this] show ?thesis by (subst json_body.simps) (simp add: Cons True)
    next
      case False
      have ih: "reads (json_body (drop n s)) (drop n s)" using "1.IH"(3) [OF Cons False n(1)] n(2) by simp
      have "plain c" using False by (auto simp: plain_def bslash_def)
      then have "reads (take n s) (take n s)" using reads_rune [OF n(1)] by (simp add: Cons)
      moreover have "reads e (take n s)" if "line_separator (take n s) = Some e" for e
        using that reads_u4 [of 2 8 2 0 8232] reads_u4 [of 2 9 2 0 8233] by (auto simp: line_separator_def hex_digit_simps split: if_splits)
      ultimately have "reads (case line_separator (take n s) of Some e \<Rightarrow> e | None \<Rightarrow> take n s) (take n s)" by (auto split: option.split)
      from reads_append [OF this ih] show ?thesis using False n(1) by (subst json_body.simps) (simp add: Cons)
    qed
  qed
qed

lemma scan_body: "valid_utf8 s \<Longrightarrow> scan_string (json_body s @ CHR 0x22 # t) = Inr (json_body s, t)"
  using reads_body [of s] by (simp add: reads_def)

lemma unquote_body: "valid_utf8 s \<Longrightarrow> unquote (json_body s) = s"
proof -
  assume "valid_utf8 s"
  then have "unquote (json_body s @ []) = s @ unquote []" using reads_body [of s] unfolding reads_def by blast
  moreover have "unquote [] = []" by (simp add: unquote.simps)
  ultimately show ?thesis by simp
qed

text \<open>A text that stands for a value wherever a comma or a brace follows.\<close>

definition writes :: "string \<Rightarrow> json \<Rightarrow> bool" where
  "writes t v \<longleftrightarrow> (\<forall>n d c rest. c \<in> {CHR '','', CHR ''}''} \<longrightarrow> parse_value (Suc n) d (t @ c # rest) = Inr (v, c # rest))"

lemma skip_ws_quote [simp]: "skip_ws (CHR 0x22 # t) = CHR 0x22 # t"
  by (simp add: skip_ws_def json_space_def)

lemma writes_string: "valid_utf8 s \<Longrightarrow> writes (json_string s) (JStr s)"
  by (simp add: writes_def json_string_def scan_body unquote_body)

lemma nat_str_first: "0 < n \<Longrightarrow> hd (nat_str n) \<noteq> CHR ''0''"
proof (induction n rule: nat_str.induct)
  case (1 n)
  show ?case
  proof (cases "n < 10")
    case True
    have "byte (digit_char n) = 48 + n" using True by (rule of_char_digit)
    then have "digit_char n \<noteq> CHR ''0''" using 1 by auto
    then show ?thesis using True by (subst nat_str.simps) simp
  next
    case False
    then have "hd (nat_str (n div 10)) \<noteq> CHR ''0''" using 1 by auto
    then show ?thesis using False by (subst nat_str.simps) simp
  qed
qed

lemma digits_cut: "list_all is_digit xs \<Longrightarrow> \<not> is_digit c \<Longrightarrow> takeWhile is_digit (xs @ c # t) = xs \<and> dropWhile is_digit (xs @ c # t) = c # t"
  by (induction xs) auto

lemma number_nat: "c \<in> {CHR '','', CHR ''}''} \<Longrightarrow> num_int (nat_str n @ c # t) = Inr (nat_str n, c # t)"
proof -
  assume c: "c \<in> {CHR '','', CHR ''}''}"
  have nd: "\<not> is_digit c" using c by (auto simp: is_digit_def)
  show ?thesis
  proof (cases "n = 0")
    case True
    have "nat_str 0 = ''0''" by (simp add: nat_str.simps digit_char_def of_char_eq_iff [symmetric, where 'a = nat])
    then show ?thesis using True by (simp add: num_int_def)
  next
    case False
    obtain d ds where d: "nat_str n = d # ds" by (cases "nat_str n") auto
    have "d \<noteq> CHR ''0''" using nat_str_first [of n] False d by simp
    moreover have "is_digit d" using nat_str_digits [of n] d by simp
    moreover have "d \<noteq> CHR ''-''" using calculation(2) by auto
    ultimately show ?thesis using digits_cut [OF nat_str_digits [of n] nd, of t] by (simp add: num_int_def d digits1_def)
  qed
qed

lemma number_itoa: "c \<in> {CHR '','', CHR ''}''} \<Longrightarrow> parse_number (itoa i @ c # t) = Inr (JNum i, c # t)"
proof -
  assume c: "c \<in> {CHR '','', CHR ''}''}"
  have "num_int (itoa i @ c # t) = Inr (itoa i, c # t)"
  proof (cases "i < 0")
    case True
    obtain d ds where d: "nat_str (nat (- i)) = d # ds" by (cases "nat_str (nat (- i))") auto
    have "hd (nat_str (nat (- i))) \<noteq> CHR ''0''" using nat_str_first True by simp
    moreover have "digits1 (nat_str (nat (- i)) @ c # t) = Inr (nat_str (nat (- i)), c # t)"
      using digits_cut [OF nat_str_digits, of c "nat (- i)" t] c nat_str_nonempty [of "nat (- i)"]
      by (auto simp: digits1_def is_digit_def simp del: nat_str_nonempty)
    ultimately show ?thesis using True d by (simp add: num_int_def itoa_def)
  next
    case False
    then show ?thesis using number_nat [OF c] by (simp add: itoa_def)
  qed
  then show ?thesis using c by (auto simp: parse_number_def num_frac_def num_exp_def int_text_def)
qed

lemma writes_int: "writes (itoa i) (JNum i)"
proof -
  obtain x xs where x: "itoa i = x # xs" by (cases "itoa i") (auto simp: itoa_def split: if_splits)
  have "x = CHR ''-'' \<or> is_digit x" using itoa_chars [of x i] x by simp
  then have "\<not> json_space x" "x \<noteq> CHR 0x22" "x \<noteq> CHR ''{''" "x \<noteq> CHR ''[''" "x \<noteq> CHR ''t''" "x \<noteq> CHR ''f''" "x \<noteq> CHR ''n''"
    by (auto simp: json_space_def is_digit_def)
  then show ?thesis using number_itoa [of _ i] x \<open>x = CHR ''-'' \<or> is_digit x\<close> by (auto simp: writes_def skip_ws_def)
qed

lemma skip_ws_simps [simp]: "skip_ws (CHR '','' # t) = CHR '','' # t" "skip_ws (CHR ''}'' # t) = CHR ''}'' # t" "skip_ws (CHR '':'' # t) = CHR '':'' # t"
    "skip_ws (CHR ''{'' # t) = CHR ''{'' # t" "skip_ws [] = []"
  by (simp_all add: skip_ws_def json_space_def)

lemma members_written:
  assumes "kvs \<noteq> []" "\<And>k t v. ((k, t), v) \<in> set (zip kvs vs) \<Longrightarrow> valid_utf8 k \<and> writes t v" "length vs = length kvs" "length kvs < n"
  shows "parse_members n d (join '','' (map (\<lambda>(k, t). json_string k @ '':'' @ t) kvs) @ ''}'' @ rest) = Inr (zip (map fst kvs) vs, rest)"
  using assms
proof (induction kvs arbitrary: vs n)
  case (Cons kv kvs)
  obtain k t where kv: "kv = (k, t)" by (cases kv)
  obtain v vs' where vs: "vs = v # vs'" using Cons.prems(3) by (cases vs) auto
  obtain m where m: "n = Suc (Suc m)" using Cons.prems(4) by (cases n; cases "n - 1") auto
  have w: "valid_utf8 k" "writes t v" using Cons.prems(2) [of k t v] by (simp_all add: kv vs)
  have val: "parse_value (Suc m) d (t @ c # r) = Inr (v, c # r)" if "c \<in> {CHR '','', CHR ''}''}" for c r
    using w(2) that unfolding writes_def by blast
  show ?case
  proof (cases kvs)
    case Nil
    then show ?thesis using w val by (simp add: kv vs m json_string_def scan_body unquote_body del: parse_value.simps)
  next
    case (Cons kv' kvs')
    have ih: "parse_members (Suc m) d (join '','' (map (\<lambda>(k, t). json_string k @ '':'' @ t) kvs) @ ''}'' @ rest) = Inr (zip (map fst kvs) vs', rest)"
      by (rule Cons.IH) (use Cons.prems vs m Cons in auto)
    have j: "join '','' (map (\<lambda>(k, t). json_string k @ '':'' @ t) (kv # kvs)) =
        json_string k @ '':'' @ t @ '','' @ join '','' (map (\<lambda>(k, t). json_string k @ '':'' @ t) kvs)" by (simp add: kv Cons)
    show ?thesis unfolding j using w val ih by (simp add: vs m json_string_def scan_body unquote_body kv del: parse_value.simps)
  qed
qed simp

lemma object_read:
  assumes "kvs \<noteq> []" "\<And>k t v. ((k, t), v) \<in> set (zip kvs vs) \<Longrightarrow> valid_utf8 k \<and> writes t v" "length vs = length kvs"
  shows "json_parse (json_object kvs) = Inr (JObj (zip (map fst kvs) vs))"
proof -
  let ?body = "join '','' (map (\<lambda>(k, t). json_string k @ '':'' @ t) kvs) @ ''}''"
  have len: "length kvs < 2 * length (json_object kvs)"
  proof -
    have "length xs \<le> length (join '','' xs)" if "\<And>x. x \<in> set xs \<Longrightarrow> x \<noteq> []" for xs :: "string list"
      using that by (induction "'',''" xs rule: join.induct) (auto simp: Suc_le_eq neq_Nil_conv)
    moreover have "x \<noteq> []" if "x \<in> set (map (\<lambda>(k, t). json_string k @ '':'' @ t) kvs)" for x using that by (auto simp: json_string_def)
    ultimately have "length (map (\<lambda>(k, t). json_string k @ '':'' @ t) kvs) \<le> length (join '','' (map (\<lambda>(k, t). json_string k @ '':'' @ t) kvs))" by blast
    then have "length kvs \<le> length ?body" by simp
    then show ?thesis by (simp add: json_object_def)
  qed
  have members: "parse_members (2 * length (json_object kvs)) 9999 (?body @ []) = Inr (zip (map fst kvs) vs, [])"
    using members_written [OF assms(1,2,3) len, of 9999 "[]"] by simp
  obtain k t kvs' where k: "kvs = (k, t) # kvs'" using assms(1) by (cases kvs) auto
  have "\<exists>r. ?body = CHR 0x22 # r" by (cases kvs') (auto simp: k json_string_def)
  then obtain r where r: "?body = CHR 0x22 # r" by blast
  show ?thesis
    using members unfolding json_parse_def json_object_def
    by (simp add: r [simplified] maxNestingDepth_def)
qed

end
