(* ===== verification/Ingest.thy ===== *)
theory Ingest
  imports JsonText AlertEngine ParserEngine "HOL-Library.List_Lexorder" "HOL-Library.Char_ord"
begin

text \<open>
  What becomes of a line of the spool file: decoding (\<^verbatim>\<open>model/log.go\<close>), repair, the parsers, and the insertion of batches
  (\<^verbatim>\<open>tailer/tailer.go\<close>). The single-server loop and the workers of the queue share it. Calls of the alert engine are recorded
  in order; \<open>run_alerts\<close> is what the engine makes of them.
\<close>

section \<open>Repair\<close>

definition sanitizeForPostgres :: "string \<Rightarrow> string" where
  "sanitizeForPostgres s =
     (if s = [] then s
      else if NUL \<notin> set s \<and> valid_utf8 s then s
      else filter (\<lambda>c. c \<noteq> NUL) (ToValidUTF8 s RuneError))"

text \<open>\<^verbatim>\<open>^\d{4}-\d{2}-\d{2}T\d{2}$\<close>.\<close>

definition truncatedISORe :: "string \<Rightarrow> bool" where
  "truncatedISORe s \<longleftrightarrow> length s = 13 \<and>
     list_all (\<lambda>(i, c). if i = 4 \<or> i = 7 then c = CHR ''-'' else if i = 10 then c = CHR ''T'' else is_digit c) (enumerate 0 s)"

section \<open>Decoding\<close>

definition raw_names :: "string list" where
  "raw_names = [''timestamp'', ''timereported'', ''hostname'', ''fromhost-ip'', ''fromhost_ip'', ''app_name'', ''programname'', ''process_id'', ''procid'',
     ''pid'', ''msg_id'', ''severity'', ''severity_text'', ''syslogseverity-text'', ''facility'', ''facility_text'', ''syslogfacility-text'', ''message'', ''msg'',
     ''raw_message'', ''@timestamp'', ''program'', ''syslog_tag'', ''via_relay'']"

fun first_set :: "string list \<Rightarrow> string" where
  "first_set [] = []"
| "first_set (x # xs) = (if x \<noteq> [] then x else first_set xs)"

text \<open>\<open>raw\<close>: the decoded fields by name. The identifier of the message is taken from the tag alone.\<close>

definition entry_of :: "(string \<Rightarrow> string) \<Rightarrow> IngestEntry" where
  "entry_of raw =
     (let message = first_set [raw ''message'', raw ''msg''] in
      \<lparr>ie_Timestamp = first_set [raw ''timestamp'', raw ''@timestamp'', raw ''timereported''],
       ie_Hostname = first_set [raw ''hostname'', raw ''fromhost-ip''],
       ie_FromHostIP = first_set [raw ''fromhost-ip'', raw ''fromhost_ip''],
       ie_AppName = first_set [raw ''app_name'', raw ''program'', raw ''programname''],
       ie_ProcessID = first_set [raw ''process_id'', raw ''pid'', raw ''procid''],
       ie_MsgID = raw ''syslog_tag'',
       ie_Severity = first_set [raw ''severity'', raw ''severity_text'', raw ''syslogseverity-text''],
       ie_Facility = first_set [raw ''facility'', raw ''facility_text'', raw ''syslogfacility-text''],
       ie_Message = message,
       ie_RawMessage = first_set [raw ''raw_message'', message],
       ie_ViaRelay = raw ''via_relay'',
       ie_ParsedFields = [], ie_MatchedParsers = []\<rparr>)"

definition UnmarshalJSON :: "json \<Rightarrow> json_err + IngestEntry" where
  "UnmarshalJSON j =
     (case members_of (Inr j) of
        None \<Rightarrow> Inl JInvalid
      | Some ms \<Rightarrow>
          (if list_all (\<lambda>n. str_field n ms [] \<noteq> None) raw_names then Inr (entry_of (\<lambda>n. the (str_field n ms []))) else Inl JInvalid))"

definition unmarshal_entry :: "string \<Rightarrow> json_err + IngestEntry" where
  "unmarshal_entry line = (case json_parse line of Inl err \<Rightarrow> Inl err | Inr j \<Rightarrow> UnmarshalJSON j)"

definition looksTruncatedAtSource :: "string \<Rightarrow> json_err \<Rightarrow> bool" where
  "looksTruncatedAtSource line err \<longleftrightarrow>
     has_prefix line ([CHR ''{'', CHR 0x22] @ ''timestamp'' @ [CHR 0x22, CHR '':'', CHR 0x22]) \<and> err = JEnd"

text \<open>
  The entry of a line, and the text of a malformed line the alert engine is told of; \<^const>\<open>None\<close>: a line that does not start with a
  brace, a partial write. \<open>ts\<close>: the current time, formatted.
\<close>

definition decode_line :: "string \<Rightarrow> string \<Rightarrow> (IngestEntry \<times> string option) option" where
  "decode_line ts line =
     (case unmarshal_entry line of
        Inr entry \<Rightarrow> Some (entry, None)
      | Inl err \<Rightarrow>
          (if \<not> has_prefix line ''{'' then None
           else
             (let sanitizedLine = sanitizeForPostgres line;
                  tag = (if looksTruncatedAtSource line err then ''[TRUNCATED AT SOURCE]'' else ''[MALFORMED JSON]'')
              in Some ((entry_of (\<lambda>_. []))\<lparr>ie_Timestamp := ts, ie_Hostname := ''unknown'', ie_Severity := ''error'', ie_Message := tag @ '' '' @ sanitizedLine\<rparr>,
                       Some sanitizedLine))))"

section \<open>The fields of an entry\<close>

definition sanitize_entry :: "IngestEntry \<Rightarrow> IngestEntry" where
  "sanitize_entry e = e\<lparr>ie_Hostname := sanitizeForPostgres (ie_Hostname e), ie_FromHostIP := sanitizeForPostgres (ie_FromHostIP e),
     ie_AppName := sanitizeForPostgres (ie_AppName e), ie_ProcessID := sanitizeForPostgres (ie_ProcessID e), ie_MsgID := sanitizeForPostgres (ie_MsgID e),
     ie_Severity := sanitizeForPostgres (ie_Severity e), ie_Facility := sanitizeForPostgres (ie_Facility e), ie_Message := sanitizeForPostgres (ie_Message e),
     ie_RawMessage := sanitizeForPostgres (ie_RawMessage e), ie_ViaRelay := sanitizeForPostgres (ie_ViaRelay e)\<rparr>"

definition fix_truncated :: "IngestEntry \<Rightarrow> IngestEntry" where
  "fix_truncated e =
     (if truncatedISORe (ie_AppName e) then
        (let fullMsg = ie_AppName e @ '':'' @ ie_Message e in
         e\<lparr>ie_Message := fullMsg, ie_RawMessage := fullMsg, ie_AppName := (if str_contains fullMsg ''CEF:'' then ''CEF'' else [])\<rparr>)
      else e)"

text \<open>\<^verbatim>\<open>json.Marshal\<close> of a map of strings: the keys in order.\<close>

definition marshal_fields :: "(string \<times> string) list \<Rightarrow> string" where
  "marshal_fields fs = json_object (map (\<lambda>(k, v). (k, json_string v)) (sort_key fst fs))"

definition add_parsed :: "ParseResult option \<Rightarrow> IngestEntry \<Rightarrow> IngestEntry" where
  "add_parsed result e =
     (case result of
        None \<Rightarrow> e
      | Some res \<Rightarrow>
          e\<lparr>ie_ParsedFields := marshal_fields (map (\<lambda>(k, v). (k, sanitizeForPostgres v)) (pr_Fields res)), ie_MatchedParsers := pr_Parsers res\<rparr>)"

section \<open>State and surroundings\<close>

text \<open>
  \<open>te_now\<close> and \<open>te_paused\<close>: what the clock and the ingestion controller say when they are asked the \<open>n\<close>-th time. \<open>te_parse_time\<close> is
  \<^verbatim>\<open>time.Parse\<close> with a layout, \<open>te_format\<close> the format of RFC 3339, \<open>te_hash\<close> SHA-256 in hexadecimal, \<open>te_shared\<close> whether there is a Redis.
\<close>

record tail_env =
  te_rx :: regexp
  te_parsers :: "Parser list"
  te_now :: "nat \<Rightarrow> time"
  te_paused :: "nat \<Rightarrow> bool"
  te_parse_time :: "string \<Rightarrow> string \<Rightarrow> time option"
  te_format :: "time \<Rightarrow> string"
  te_hash :: "string \<Rightarrow> string"
  te_shared :: bool

datatype alert_call = Batch "IngestEntry list" | Malformed string

record ingest_row =
  ir_timestamp :: time
  ir_hostname :: string
  ir_fromhost_ip :: "string option"
  ir_app_name :: "string option"
  ir_process_id :: "string option"
  ir_msg_id :: "string option"
  ir_severity :: string
  ir_facility :: "string option"
  ir_message :: string
  ir_raw_message :: "string option"
  ir_parsed_fields :: string
  ir_matched_parsers :: "string list option"
  ir_via_relay :: "string option"

record ingest =
  in_rows :: "ingest_row list"
  in_rate :: int
  in_alerts :: "alert_call list"
  in_cache :: re_cache
  in_tick :: nat

definition Now :: "tail_env \<Rightarrow> ('a ingest_scheme, time) sql" where
  "Now E = local (\<lambda>s. (te_now E (in_tick s), s\<lparr>in_tick := Suc (in_tick s)\<rparr>))"

definition IsPaused :: "tail_env \<Rightarrow> ('a ingest_scheme, bool) sql" where
  "IsPaused E = local (\<lambda>s. (te_paused E (in_tick s), s\<lparr>in_tick := Suc (in_tick s)\<rparr>))"

definition call_alerts :: "alert_call \<Rightarrow> ('a ingest_scheme, unit) sql" where
  "call_alerts c = local (\<lambda>s. ((), s\<lparr>in_alerts := in_alerts s @ [c]\<rparr>))"

definition engine_Parse :: "tail_env \<Rightarrow> IngestEntry \<Rightarrow> ('a ingest_scheme, ParseResult option) sql" where
  "engine_Parse E e = local (\<lambda>s.
     case Parse (te_rx E) (te_parsers E) (ie_Hostname e) (ie_AppName e) (ie_Message e) (in_cache s) of (res, cache) \<Rightarrow> (res, s\<lparr>in_cache := cache\<rparr>))"

text \<open>What both loops do with a line that is not empty.\<close>

datatype prepared = PartialWrite | NoHost | Ready IngestEntry

definition prepare_line :: "tail_env \<Rightarrow> string \<Rightarrow> ('a ingest_scheme, prepared) sql" where
  "prepare_line E line =
     bind (case unmarshal_entry line of Inr _ \<Rightarrow> ret 0 | Inl _ \<Rightarrow> if has_prefix line ''{'' then Now E else ret 0) (\<lambda>now.
     case decode_line (te_format E now) line of
       None \<Rightarrow> ret PartialWrite
     | Some (entry, malformed) \<Rightarrow>
         bind (case malformed of None \<Rightarrow> ret () | Some l \<Rightarrow> call_alerts (Malformed l)) (\<lambda>_.
         let e = sanitize_entry entry in
         if ie_Hostname e = [] then ret NoHost
         else
           (let e = fix_truncated e in
            bind (engine_Parse E e) (\<lambda>result. ret (Ready (add_parsed result e))))))"

section \<open>Rows\<close>

definition layouts :: "string list" where
  "layouts = [''2006-01-02T15:04:05Z07:00'', ''2006-01-02T15:04:05.999999999Z07:00'', ''2006-01-02T15:04:05'', ''2006-01-02 15:04:05'',
     ''Jan  2 15:04:05'', ''Jan  2 03:04:05'', ''Mon Jan _2 15:04:05 MST 2006'']"

fun first_parse :: "(string \<Rightarrow> string \<Rightarrow> time option) \<Rightarrow> string list \<Rightarrow> string \<Rightarrow> time option" where
  "first_parse tp [] s = None"
| "first_parse tp (l # ls) s = (case tp l s of Some t \<Rightarrow> Some t | None \<Rightarrow> first_parse tp ls s)"

definition parseTimestamp :: "tail_env \<Rightarrow> string \<Rightarrow> time option" where
  "parseTimestamp E s = first_parse (te_parse_time E) layouts s"

definition nullStr :: "string \<Rightarrow> string option" where
  "nullStr s = (if s = [] then None else Some s)"

text \<open>
  The names of the parsers are a nil slice (stored as NULL) for a line that no parser matches, and never an empty one that is not nil: \<open>Parse\<close> names
  the parsers only when there are some.
\<close>

definition rowArgs :: "tail_env \<Rightarrow> time \<Rightarrow> IngestEntry \<Rightarrow> ingest_row" where
  "rowArgs E now e =
     \<lparr>ir_timestamp = (case parseTimestamp E (ie_Timestamp e) of Some t \<Rightarrow> t | None \<Rightarrow> now),
      ir_hostname = ie_Hostname e, ir_fromhost_ip = nullStr (ie_FromHostIP e), ir_app_name = nullStr (ie_AppName e),
      ir_process_id = nullStr (ie_ProcessID e), ir_msg_id = nullStr (ie_MsgID e), ir_severity = ie_Severity e, ir_facility = nullStr (ie_Facility e),
      ir_message = ie_Message e, ir_raw_message = nullStr (ie_RawMessage e),
      ir_parsed_fields = (if ie_ParsedFields e \<noteq> [] then ie_ParsedFields e else ''{}''), ir_matched_parsers = (if ie_MatchedParsers e = [] then None else Some (ie_MatchedParsers e)),
      ir_via_relay = nullStr (ie_ViaRelay e)\<rparr>"

definition insertColumns :: nat where "insertColumns = 13"
definition maxInsertRows :: nat where "maxInsertRows = 5000"

text \<open>The protocol's limit on the parameters of one statement.\<close>

definition max_params :: nat where "max_params = 65535"

fun row_times :: "tail_env \<Rightarrow> IngestEntry list \<Rightarrow> ('a ingest_scheme, ingest_row list) sql" where
  "row_times E [] = ret []"
| "row_times E (e # es) =
     bind (if parseTimestamp E (ie_Timestamp e) = None then Now E else ret 0) (\<lambda>now. bind (row_times E es) (\<lambda>rs. ret (rowArgs E now e # rs)))"

definition insert_rows :: "ingest_row list \<Rightarrow> ('a ingest_scheme, nat) sql" where
  "insert_rows rs = stmt (\<lambda>s.
     if length rs * insertColumns > max_params then Inl SqlErr else Inr (length rs, s\<lparr>in_rows := in_rows s @ rs\<rparr>))"

definition insertChunk :: "tail_env \<Rightarrow> IngestEntry list \<Rightarrow> ('a ingest_scheme, nat) sql" where
  "insertChunk E chunk = bind (row_times E chunk) insert_rows"

fun insert_each :: "tail_env \<Rightarrow> IngestEntry list \<Rightarrow> nat \<Rightarrow> ('a ingest_scheme, nat) sql" where
  "insert_each E [] ingested = ret ingested"
| "insert_each E (e # es) ingested =
     attempt (insertChunk E [e]) (\<lambda>r. case r of Inl err \<Rightarrow> insert_each E es ingested | Inr _ \<Rightarrow> insert_each E es (ingested + 1))"

definition insertRowsIndividually :: "tail_env \<Rightarrow> IngestEntry list \<Rightarrow> ('a ingest_scheme, nat) sql" where
  "insertRowsIndividually E chunk =
     attempt (query (\<lambda>_. Inr ())) (\<lambda>r. case r of Inl err \<Rightarrow> ret 0 | Inr _ \<Rightarrow> insert_each E chunk 0)"

lemma maxInsertRows_pos: "0 < maxInsertRows"
  by (simp add: maxInsertRows_def)

function flush_chunks :: "tail_env \<Rightarrow> IngestEntry list \<Rightarrow> nat \<Rightarrow> ('a ingest_scheme, nat) sql" where
  "flush_chunks E entries ingested =
     (if entries = [] then ret ingested
      else
        attempt (insertChunk E (take maxInsertRows entries)) (\<lambda>r.
          bind (case r of Inr n \<Rightarrow> ret n | Inl err \<Rightarrow> insertRowsIndividually E (take maxInsertRows entries)) (\<lambda>n.
          flush_chunks E (drop maxInsertRows entries) (ingested + n))))"
  by pat_completeness auto
termination
  by (relation "measure (\<lambda>(E, es, n). length es)") (auto simp: maxInsertRows_pos)

declare flush_chunks.simps [simp del]

text \<open>Always \<^verbatim>\<open>nil\<close>: whatever could not be inserted is only logged.\<close>

definition flushBatch :: "tail_env \<Rightarrow> IngestEntry list \<Rightarrow> ('a ingest_scheme, unit) sql" where
  "flushBatch E entries =
     (if entries = [] then ret ()
      else
        bind (flush_chunks E entries 0) (\<lambda>ingested.
        if ingested > 0 then local (\<lambda>s. ((), s\<lparr>in_rate := in_rate s + int ingested\<rparr>)) else ret ()))"

text \<open>A flush followed by the evaluation of the rules.\<close>

definition flush_and_evaluate :: "tail_env \<Rightarrow> IngestEntry list \<Rightarrow> ('a ingest_scheme, unit) sql" where
  "flush_and_evaluate E entries =
     attempt (flushBatch E entries) (\<lambda>r. case r of Inl err \<Rightarrow> ret () | Inr _ \<Rightarrow> call_alerts (Batch entries))"

text \<open>The engine on the calls, with the settings and the store as it finds them.\<close>

fun run_alerts :: "string \<Rightarrow> 's store_fn \<Rightarrow> regexp \<Rightarrow> json_fields \<Rightarrow> alert_call list \<Rightarrow> 's engine \<Rightarrow> 's engine" where
  "run_alerts setting sf rx um [] e = e"
| "run_alerts setting sf rx um (Batch es # cs) e = run_alerts setting sf rx um cs (EvaluateBatch setting sf rx um es e)"
| "run_alerts setting sf rx um (Malformed l # cs) e = run_alerts setting sf rx um cs (EvaluateMalformedJSON setting sf l e)"

end
