(* ===== verification/Tailer.thy ===== *)
theory Tailer
  imports Ingest
begin

text \<open>
  The single-server tailer, \<^verbatim>\<open>tailer/tailer.go\<close> and \<^verbatim>\<open>tailer/reader.go\<close>: splitting the spool file into lines, the saved position
  with its fingerprint, compaction, and the loop that reads, batches and flushes. The file is a byte string that others
  append to; operations on files may fail like statements.
\<close>

section \<open>Lines\<close>

definition newline :: char where "newline = char_of (10 :: nat)"

definition maxLineSize :: nat where "maxLineSize = 10 * 1024 * 1024"

text \<open>How far to advance, and the token; \<^const>\<open>None\<close>: more data is needed, also at the end of the file.\<close>

definition lineSplitter_split :: "nat \<Rightarrow> string \<Rightarrow> (nat \<times> string) option" where
  "lineSplitter_split limit data =
     (if newline \<in> set data then (let l = takeWhile (\<lambda>c. c \<noteq> newline) data in Some (length l + 1, l))
      else if length data \<ge> limit then Some (limit, take limit data)
      else None)"

text \<open>
  \<^verbatim>\<open>bufio.Scanner\<close> with a buffer of \<open>limit\<close> bytes: it asks for a token whenever it has read more, so the first one depends on no more
  than a full buffer. The pairs are the advance and the token.
\<close>

lemma takeWhile_shorter: "x \<in> set xs \<Longrightarrow> \<not> P x \<Longrightarrow> length (takeWhile P xs) < length xs"
  by (induction xs) auto

lemma split_advance: "lineSplitter_split limit data = Some (n, l) \<Longrightarrow> 0 < limit \<Longrightarrow> 0 < n \<and> n \<le> length data"
  using takeWhile_shorter [of newline data "\<lambda>c. c \<noteq> newline"] by (auto simp: lineSplitter_split_def Let_def split: if_splits)

function scan_tokens :: "nat \<Rightarrow> string \<Rightarrow> (nat \<times> string) list" where
  "scan_tokens limit data =
     (if limit = 0 then []
      else (case lineSplitter_split limit (take limit data) of None \<Rightarrow> [] | Some (n, l) \<Rightarrow> (n, l) # scan_tokens limit (drop n data)))"
  by pat_completeness auto
termination
  by (relation "measure (\<lambda>(limit, data). length data)") (auto dest!: split_advance)

declare scan_tokens.simps [simp del]

definition backseekLimit :: nat where "backseekLimit = 1024 * 1024"

text \<open>The byte before a position; \<^const>\<open>None\<close>: the read fails.\<close>

definition byte_before :: "string \<Rightarrow> nat \<Rightarrow> char option" where
  "byte_before file cur = (if 0 < cur \<and> cur \<le> length file then Some (file ! (cur - 1)) else None)"

text \<open>The loop of \<^verbatim>\<open>safeBackseek\<close>: \<open>left\<close> bytes may still be looked at.\<close>

fun backseek_loop :: "string \<Rightarrow> nat \<Rightarrow> nat \<Rightarrow> nat \<times> bool" where
  "backseek_loop file left 0 = (0, False)"
| "backseek_loop file left (Suc k) =
     (if left = 0 then (0, True)
      else
        (case byte_before file (Suc k) of
           None \<Rightarrow> (0, False)
         | Some c \<Rightarrow> (if c = newline then (Suc k, False) else backseek_loop file (left - 1) k)))"

definition safeBackseek :: "string \<Rightarrow> nat \<Rightarrow> nat \<times> bool" where
  "safeBackseek file pos = backseek_loop file backseekLimit pos"

definition dropTrailingIncompleteLine :: "string \<Rightarrow> string" where
  "dropTrailingIncompleteLine data = rev (dropWhile (\<lambda>c. c \<noteq> newline) (rev data))"

section \<open>State\<close>

record tail = ingest +
  ta_file :: "string option"
  ta_posfile :: "string option"
  ta_redis :: "string option"
  ta_filePos :: nat
  ta_flushedPos :: nat
  ta_entries :: "IngestEntry list"
  ta_lastFlush :: time
  ta_lastCompaction :: time

section \<open>The saved position\<close>

definition posFingerprintWindow :: nat where "posFingerprintWindow = 256"

definition fingerprint_bytes :: "string \<Rightarrow> nat \<Rightarrow> string" where
  "fingerprint_bytes file pos = drop (pos - posFingerprintWindow) (take pos file)"

text \<open>\<^const>\<open>None\<close>: not \<^verbatim>\<open>ok\<close>.\<close>

definition positionFingerprint :: "tail_env \<Rightarrow> int \<Rightarrow> (tail, string option) sql" where
  "positionFingerprint E pos =
     (if pos \<le> 0 then ret (Some [])
      else attempt (query (\<lambda>s. case ta_file s of
          None \<Rightarrow> Inl SqlErr
        | Some file \<Rightarrow> if nat pos \<le> length file then Inr (te_hash E (fingerprint_bytes file (nat pos))) else Inl SqlErr)) (\<lambda>r.
        case r of Inl err \<Rightarrow> ret None | Inr fp \<Rightarrow> ret (Some fp)))"

text \<open>\<^verbatim>\<open>sharedstate/position.go\<close>: the record in Redis, with its version. The key may also have expired, like a read that fails.\<close>

definition tailerPosVersion :: int where "tailerPosVersion = 1"

definition marshal_position :: "int \<Rightarrow> string \<Rightarrow> string" where
  "marshal_position pos fp = json_object [(''v'', itoa tailerPosVersion), (''pos'', itoa pos), (''fp'', json_string fp)]"

definition unmarshal_position :: "string \<Rightarrow> (int \<times> int \<times> string) option" where
  "unmarshal_position raw =
     (case members_of (json_parse raw) of
        None \<Rightarrow> None
      | Some ms \<Rightarrow>
          (case (int_field ''v'' ms 0, int_field ''pos'' ms 0, str_field ''fp'' ms []) of
             (Some v, Some pos, Some fp) \<Rightarrow> Some (v, pos, fp)
           | _ \<Rightarrow> None))"

definition SaveTailerPosition :: "int \<Rightarrow> string \<Rightarrow> (tail, unit) sql" where
  "SaveTailerPosition pos fp = attempt (stmt (\<lambda>s. Inr ((), s\<lparr>ta_redis := Some (marshal_position pos fp)\<rparr>))) (\<lambda>_. ret ())"

definition ResetTailerPosition :: "(tail, unit) sql" where
  "ResetTailerPosition = attempt (stmt (\<lambda>s. Inr ((), s\<lparr>ta_redis := None\<rparr>))) (\<lambda>_. ret ())"

definition LoadTailerPosition :: "(tail, (int \<times> string) option) sql" where
  "LoadTailerPosition = attempt (query (\<lambda>s. case ta_redis s of None \<Rightarrow> Inl NoRows | Some raw \<Rightarrow> Inr raw)) (\<lambda>r. case r of
     Inl err \<Rightarrow> ret None
   | Inr raw \<Rightarrow>
       ret (case unmarshal_position raw of
              None \<Rightarrow> None
            | Some (v, pos, fp) \<Rightarrow> (if v \<noteq> tailerPosVersion then None else if pos < 0 then None else Some (pos, fp))))"

text \<open>Write, synchronise and rename; the position in Redis is written only after that, without looking at the result.\<close>

definition savePosition :: "tail_env \<Rightarrow> int \<Rightarrow> (tail, unit) sql" where
  "savePosition E pos =
     bind (positionFingerprint E pos) (\<lambda>r.
     let fp = (case r of None \<Rightarrow> [] | Some fp \<Rightarrow> fp) in
     attempt (query (\<lambda>_. Inr ())) (\<lambda>w. case w of
       Inl err \<Rightarrow> ret ()
     | Inr _ \<Rightarrow>
         attempt (stmt (\<lambda>s. Inr ((), s\<lparr>ta_posfile := Some (itoa pos @ '':'' @ fp)\<rparr>))) (\<lambda>w. case w of
           Inl err \<Rightarrow> ret ()
         | Inr _ \<Rightarrow>
             (if te_shared E then SaveTailerPosition pos fp else ret ()))))"

definition loadPosition :: "string \<Rightarrow> (int \<times> string) option" where
  "loadPosition content =
     (let raw = trim_space content in
      case split2 (CHR '':'') raw of
        [p, fp] \<Rightarrow> map_option (\<lambda>i. (i, fp)) (parse_int64 p)
      | _ \<Rightarrow> None)"

text \<open>A position is taken when it lies in the file and the bytes before it still have the fingerprint.\<close>

definition accept_position :: "tail_env \<Rightarrow> int \<times> string \<Rightarrow> (tail, int option) sql" where
  "accept_position E p =
     attempt (query (\<lambda>s. case ta_file s of None \<Rightarrow> Inl SqlErr | Some file \<Rightarrow> Inr (int (length file)))) (\<lambda>r. case r of
       Inl err \<Rightarrow> ret None
     | Inr fileSize \<Rightarrow>
         (if fst p \<le> fileSize then
            bind (positionFingerprint E (fst p)) (\<lambda>fp. ret (if fp = Some (snd p) then Some (fst p) else None))
          else ret None))"

text \<open>The first line newer than everything stored: \<open>lastTs\<close> is the greatest timestamp in the table.\<close>

fun skip_stored :: "tail_env \<Rightarrow> time \<Rightarrow> (nat \<times> string) list \<Rightarrow> nat \<Rightarrow> nat" where
  "skip_stored E lastTs [] pos = pos"
| "skip_stored E lastTs ((n, line) # ls) pos =
     (case unmarshal_entry line of
        Inl err \<Rightarrow> skip_stored E lastTs ls (pos + length line + 1)
      | Inr entry \<Rightarrow>
          (case parseTimestamp E (ie_Timestamp entry) of
             None \<Rightarrow> skip_stored E lastTs ls (pos + length line + 1)
           | Some ts \<Rightarrow> (if ts > lastTs then pos else skip_stored E lastTs ls (pos + length line + 1))))"

text \<open>
  \<^verbatim>\<open>bufio.ScanLines\<close> with a buffer of one megabyte: a final line without newline is a token, a carriage return before the newline is
  dropped, and a line that does not fit ends the scan.
\<close>

definition drop_cr :: "string \<Rightarrow> string" where
  "drop_cr l = (if l \<noteq> [] \<and> byte (last l) = 13 then butlast l else l)"

function scan_plain_lines :: "nat \<Rightarrow> string \<Rightarrow> (nat \<times> string) list" where
  "scan_plain_lines limit data =
     (let l = takeWhile (\<lambda>c. c \<noteq> newline) data in
      if data = [] then []
      else if length l \<ge> limit then []
      else (length l + 1, drop_cr l) # scan_plain_lines limit (drop (length l + 1) data))"
  by pat_completeness auto
termination
  by (relation "measure (\<lambda>(limit, data). length data)") auto

declare scan_plain_lines.simps [simp del]

definition dbFallbackPosition :: "tail_env \<Rightarrow> (tail, int) sql" where
  "dbFallbackPosition E =
     attempt (query (\<lambda>s. Inr (if in_rows s = [] then None else Some (Max (set (map ir_timestamp (in_rows s))))))) (\<lambda>r. case r of
       Inl err \<Rightarrow> ret 0
     | Inr None \<Rightarrow> ret 0
     | Inr (Some lastTs) \<Rightarrow>
         attempt (query (\<lambda>s. case ta_file s of None \<Rightarrow> Inl SqlErr | Some file \<Rightarrow> Inr file)) (\<lambda>r. case r of
           Inl err \<Rightarrow> ret 0
         | Inr file \<Rightarrow> ret (int (skip_stored E lastTs (scan_plain_lines (1024 * 1024) file) 0))))"

definition read_posfile :: "(tail, (int \<times> string) option) sql" where
  "read_posfile = attempt (query (\<lambda>s. case ta_posfile s of None \<Rightarrow> Inl NoRows | Some c \<Rightarrow> Inr c)) (\<lambda>r. case r of
     Inl err \<Rightarrow> ret None
   | Inr c \<Rightarrow> ret (loadPosition c))"

definition try_position :: "tail_env \<Rightarrow> (tail, (int \<times> string) option) sql \<Rightarrow> (tail, int) sql \<Rightarrow> (tail, int) sql" where
  "try_position E source otherwise =
     bind source (\<lambda>p. case p of
       None \<Rightarrow> otherwise
     | Some q \<Rightarrow> bind (accept_position E q) (\<lambda>r. case r of Some pos \<Rightarrow> ret pos | None \<Rightarrow> otherwise))"

definition loadStartPositionFromReader :: "tail_env \<Rightarrow> (tail, int) sql" where
  "loadStartPositionFromReader E =
     try_position E (if te_shared E then LoadTailerPosition else ret None)
       (try_position E read_posfile
         (bind (dbFallbackPosition E) (\<lambda>pos. ret (if pos > 0 then pos else 0))))"

section \<open>Compaction\<close>

text \<open>
  The file is replaced by what follows the flushed position, without an incomplete last line; when there is nothing
  after the position the file stays as it is. The last step opens the new file.
\<close>

definition compactFile :: "nat \<Rightarrow> (tail, unit) sql" where
  "compactFile flushedPos =
     bind (query (\<lambda>s. case ta_file s of None \<Rightarrow> Inl SqlErr | Some file \<Rightarrow> Inr file)) (\<lambda>file.
     if flushedPos \<ge> length file then ret ()
     else
       bind (query (\<lambda>_. Inr ())) (\<lambda>_.
       bind (stmt (\<lambda>s. Inr ((), s\<lparr>ta_file := Some (dropTrailingIncompleteLine (drop flushedPos file))\<rparr>))) (\<lambda>_.
       query (\<lambda>_. Inr ()))))"

definition compactionInterval :: duration where "compactionInterval = 30 * Minute"
definition maxFileSize :: nat where "maxFileSize = 100 * 1024 * 1024"

definition shouldCompact :: "time \<Rightarrow> time \<Rightarrow> nat \<Rightarrow> bool" where
  "shouldCompact now lastCompaction fileSize \<longleftrightarrow> time_sub now lastCompaction > compactionInterval \<or> fileSize > maxFileSize"

definition enoughFlushed :: "nat \<Rightarrow> nat \<Rightarrow> bool" where
  "enoughFlushed fileSize flushedPos \<longleftrightarrow> fileSize > 0 \<and> flushedPos > 0 \<and> int fileSize - int flushedPos < int (fileSize div 4)"

section \<open>The loop\<close>

definition batchSize :: nat where "batchSize = 5000"
definition batchInterval :: duration where "batchInterval = 500 * Millisecond"

definition flush_entries :: "tail_env \<Rightarrow> nat \<Rightarrow> (tail, unit) sql" where
  "flush_entries E cur =
     bind (local (\<lambda>s. ((), s\<lparr>ta_flushedPos := cur\<rparr>))) (\<lambda>_.
     bind (savePosition E (int cur)) (\<lambda>_. local (\<lambda>s. ((), s\<lparr>ta_entries := []\<rparr>))))"

text \<open>The lines of one pass; the result is the position reached and whether a line was looked at.\<close>

fun scan_loop :: "tail_env \<Rightarrow> (nat \<times> string) list \<Rightarrow> nat \<Rightarrow> bool \<Rightarrow> (tail, nat \<times> bool) sql" where
  "scan_loop E [] cur scanned = ret (cur, scanned)"
| "scan_loop E ((n, line) # ls) cur scanned =
     bind (IsPaused E) (\<lambda>paused.
     if paused then ret (cur + n, scanned)
     else if line = [] then scan_loop E ls (cur + n) scanned
     else
       bind (prepare_line E line) (\<lambda>p. case p of
         PartialWrite \<Rightarrow> ret (cur + n, True)
       | NoHost \<Rightarrow> scan_loop E ls (cur + n) True
       | Ready entry \<Rightarrow>
           bind (local (\<lambda>s. (ta_entries s @ [entry], s\<lparr>ta_entries := ta_entries s @ [entry]\<rparr>))) (\<lambda>entries.
           bind (Now E) (\<lambda>now.
           bind (local (\<lambda>s. (ta_lastFlush s, s))) (\<lambda>lastFlush.
           if length entries \<ge> batchSize \<or> time_sub now lastFlush \<ge> batchInterval then
             bind (IsPaused E) (\<lambda>paused.
             bind (if paused then ret () else flush_and_evaluate E entries) (\<lambda>_.
             bind (flush_entries E (cur + n)) (\<lambda>_.
             bind (local (\<lambda>s. ((), s\<lparr>ta_lastFlush := now\<rparr>))) (\<lambda>_.
             scan_loop E ls (cur + n) True))))
           else scan_loop E ls (cur + n) True)))))"

definition set_pos :: "nat \<Rightarrow> nat \<Rightarrow> (tail, unit) sql" where
  "set_pos filePos flushedPos = local (\<lambda>s. ((), s\<lparr>ta_filePos := filePos, ta_flushedPos := flushedPos\<rparr>))"

text \<open>A position in the middle of a line moves back to its start. \<open>file\<close>: the bytes of the file.\<close>

definition backseek :: "string \<Rightarrow> (tail, unit) sql" where
  "backseek file =
     bind (local (\<lambda>s. (ta_filePos s, s))) (\<lambda>filePos.
     if filePos = 0 then ret ()
     else
       attempt (query (\<lambda>_. case byte_before file filePos of None \<Rightarrow> Inl SqlErr | Some c \<Rightarrow> Inr c)) (\<lambda>r.
       case r of
         Inl err \<Rightarrow> ret ()
       | Inr c \<Rightarrow>
           (if c = newline then ret ()
            else
              attempt (query (\<lambda>_. Inr ())) (\<lambda>opened. case opened of
                Inl err \<Rightarrow> set_pos 0 0
              | Inr _ \<Rightarrow>
                  (let (seekPos, hitLimit) = safeBackseek file (filePos - 1) in if hitLimit then set_pos 0 0 else set_pos seekPos seekPos)))))"

definition compaction :: "tail_env \<Rightarrow> nat \<Rightarrow> (tail, unit) sql" where
  "compaction E fileSize =
     bind (Now E) (\<lambda>now.
     bind (local (\<lambda>s. ((ta_lastCompaction s, ta_flushedPos s), s))) (\<lambda>(lastCompaction, flushedPos).
     if shouldCompact now lastCompaction fileSize \<and> enoughFlushed fileSize flushedPos then
       bind (compactFile flushedPos) (\<lambda>_.
       bind (set_pos 0 0) (\<lambda>_.
       bind (savePosition E 0) (\<lambda>_.
       bind (Now E) (\<lambda>now. local (\<lambda>s. ((), s\<lparr>ta_lastCompaction := now\<rparr>))))))
     else ret ()))"

text \<open>
  Reading from the position on and flushing what is left in the batch. \<open>appended\<close>: what is added to the file between its size is taken
  and the scanner meets its end.
\<close>

definition read_pass :: "tail_env \<Rightarrow> string \<Rightarrow> (tail, unit) sql" where
  "read_pass E appended =
     bind (local (\<lambda>s. ((), s\<lparr>ta_file := map_option (\<lambda>file. file @ appended) (ta_file s)\<rparr>))) (\<lambda>_.
     bind (query (\<lambda>s. case ta_file s of None \<Rightarrow> Inl NoRows | Some file \<Rightarrow> Inr file)) (\<lambda>file.
     bind (backseek file) (\<lambda>_.
     bind (local (\<lambda>s. (ta_filePos s, s))) (\<lambda>filePos.
     bind (scan_loop E (scan_tokens maxLineSize (drop filePos file)) filePos False) (\<lambda>(cur, scanned).
     bind (if scanned then local (\<lambda>s. ((), s\<lparr>ta_filePos := cur\<rparr>)) else ret ()) (\<lambda>_.
     bind (local (\<lambda>s. (ta_entries s, s))) (\<lambda>entries.
     if entries = [] then ret ()
     else
       bind (IsPaused E) (\<lambda>paused.
       if paused then ret () else bind (flush_and_evaluate E entries) (\<lambda>_. flush_entries E cur)))))))))"

text \<open>One pass of the loop of \<^verbatim>\<open>runIngestionLoop\<close>; an error is a pass that ends early and is repeated after a pause.\<close>

definition ingestion_pass :: "tail_env \<Rightarrow> string \<Rightarrow> (tail, unit) sql" where
  "ingestion_pass E appended =
     bind (query (\<lambda>s. case ta_file s of None \<Rightarrow> Inl NoRows | Some file \<Rightarrow> Inr (length file))) (\<lambda>fileSize.
     bind (local (\<lambda>s. ((), if ta_filePos s > fileSize then s\<lparr>ta_filePos := 0\<rparr> else s))) (\<lambda>_.
     bind (compaction E fileSize) (\<lambda>_. read_pass E appended)))"

text \<open>What the deferred function does when the loop is left.\<close>

definition stop_tailer :: "tail_env \<Rightarrow> (tail, unit) sql" where
  "stop_tailer E =
     bind (local (\<lambda>s. ((ta_entries s, ta_filePos s), s))) (\<lambda>(entries, filePos).
     bind (if entries = [] then ret () else flush_and_evaluate E entries) (\<lambda>_. savePosition E (int filePos)))"

text \<open>
  The result says whether the passes can read: the position file may hold a negative number (the program writes none), which is kept as it is, and then
  \<^verbatim>\<open>Seek\<close> fails in every pass, for ever. The passes above are those that start from a position in the file.
\<close>

definition start_tailer :: "tail_env \<Rightarrow> (tail, bool) sql" where
  "start_tailer E =
     bind (loadStartPositionFromReader E) (\<lambda>pos.
     bind (Now E) (\<lambda>now.
     bind (Now E) (\<lambda>now2.
     local (\<lambda>s. (0 \<le> pos, s\<lparr>ta_filePos := nat pos, ta_flushedPos := nat pos, ta_entries := [], ta_lastFlush := now, ta_lastCompaction := now2\<rparr>)))))"

end
