(* ===== verification/TailerText.thy ===== *)
theory TailerText
  imports Tailer ParserTheorems
begin

text \<open>
  The texts the tailer handles: repaired strings are what PostgreSQL accepts, the scanner cuts the file into its lines and
  nothing else, moving back finds the start of the line, and saved positions are found again.
\<close>

section \<open>Repaired entries\<close>

definition storable :: "string \<Rightarrow> bool" where
  "storable s \<longleftrightarrow> valid_utf8 s \<and> NUL \<notin> set s"

lemma sanitize_storable: "storable (sanitizeForPostgres s)"
  by (auto simp: storable_def sanitizeForPostgres_def ToValidUTF8_def to_valid_valid valid_without_NUL)

lemma sanitize_id: "storable s \<Longrightarrow> sanitizeForPostgres s = s"
  by (simp add: storable_def sanitizeForPostgres_def)

lemma storable_append: "storable s \<Longrightarrow> storable t \<Longrightarrow> storable (s @ t)"
  by (simp add: storable_def valid_utf8_append)

lemma storable_ascii: "list_all (\<lambda>c. byte c < 128 \<and> c \<noteq> NUL) s \<Longrightarrow> storable s"
proof (induction s)
  case (Cons c s)
  have "rune_len (c # s) = Some 1" using Cons.prems by (simp add: rune_len_def utf8_first_def)
  then show ?case using Cons by (auto simp: storable_def valid_utf8.simps [of "c # s"])
qed (simp add: storable_def)

lemma storable_Nil [simp]: "storable []"
  by (simp add: storable_def)

text \<open>The fields that become columns.\<close>

definition texts_of :: "IngestEntry \<Rightarrow> string list" where
  "texts_of e = [ie_Hostname e, ie_FromHostIP e, ie_AppName e, ie_ProcessID e, ie_MsgID e, ie_Severity e, ie_Facility e, ie_Message e, ie_RawMessage e, ie_ViaRelay e]"

lemma texts_sanitize: "list_all storable (texts_of (sanitize_entry e))"
  by (simp add: texts_of_def sanitize_entry_def sanitize_storable)

lemma texts_fix: "list_all storable (texts_of e) \<Longrightarrow> list_all storable (texts_of (fix_truncated e))"
proof -
  assume *: "list_all storable (texts_of e)"
  have ascii: "storable '':''" "storable ''CEF''"
    by (simp_all add: storable_def NUL_def valid_utf8.simps rune_len_def utf8_first_def of_char_eq_iff [symmetric, where 'a = nat])
  have "storable (ie_AppName e @ '':'' @ ie_Message e)" using * ascii by (auto simp: texts_of_def simp del: append_Cons append_Nil intro!: storable_append)
  then show ?thesis using * ascii by (simp add: texts_of_def fix_truncated_def Let_def)
qed

lemma texts_parsed: "texts_of (add_parsed r e) = texts_of e"
  by (simp add: texts_of_def add_parsed_def split: option.split)

text \<open>
  The parsed fields are stored as \<^verbatim>\<open>jsonb\<close>, which is refused unless the text is JSON and no string of it, escapes read, holds the character zero.
  The names of parsers and of their fields come out of text columns of the database.
\<close>

definition storable_fields :: "string \<Rightarrow> bool" where
  "storable_fields txt \<longleftrightarrow> (\<exists>kvs. json_parse txt = Inr (JObj (map (\<lambda>(k, v). (k, JStr v)) kvs)) \<and> list_all (\<lambda>(k, v). storable k \<and> storable v) kvs)"

definition names_storable :: "Parser list \<Rightarrow> bool" where
  "names_storable ps \<longleftrightarrow> list_all (\<lambda>p. storable (pa_Name p) \<and> list_all (\<lambda>f. storable (pf_Name f)) (pa_Fields p)) ps"

lemma marshal_storable:
  assumes "list_all (\<lambda>(k, v). storable k) fs"
  shows "storable_fields (marshal_fields (map (\<lambda>(k, v). (k, sanitizeForPostgres v)) fs))"
proof (cases "fs = []")
  case True
  have "json_parse ''{}'' = Inr (JObj [])" by (simp add: json_parse_def skip_ws_def json_space_def numeral_eq_Suc maxNestingDepth_def)
  with True show ?thesis by (auto simp: storable_fields_def marshal_fields_def json_object_def)
next
  case False
  let ?kvs = "sort_key fst (map (\<lambda>(k, v). (k, sanitizeForPostgres v)) fs)"
  have ok: "list_all (\<lambda>(k, v). storable k \<and> storable v) ?kvs" using assms sanitize_storable by (auto simp: list_all_iff)
  have "json_parse (json_object (map (\<lambda>(k, v). (k, json_string v)) ?kvs)) =
      Inr (JObj (zip (map fst (map (\<lambda>(k, v). (k, json_string v)) ?kvs)) (map (\<lambda>(k, v). JStr v) ?kvs)))"
  proof (rule object_read)
    have "length ?kvs = length fs" by simp
    with False have "?kvs \<noteq> []" by (metis length_0_conv)
    then show "map (\<lambda>(k, v). (k, json_string v)) ?kvs \<noteq> []" by simp
    fix k t v
    assume "((k, t), v) \<in> set (zip (map (\<lambda>(k, v). (k, json_string v)) ?kvs) (map (\<lambda>(k, v). JStr v) ?kvs))"
    then obtain w where "(k, w) \<in> set ?kvs" "t = json_string w" "v = JStr w" by (force simp: zip_map1 zip_map2 zip_same_conv_map)
    with ok show "valid_utf8 k \<and> writes t v" by (auto simp: list_all_iff storable_def intro: writes_string)
  qed simp
  then show ?thesis using ok unfolding storable_fields_def marshal_fields_def
    by (intro exI [of _ ?kvs]) (simp add: zip_map1 zip_map2 zip_same_conv_map case_prod_unfold comp_def)
qed

lemma put_groups_keys: "fst ` set (put_groups fs vs res) \<subseteq> fst ` set res \<union> pf_Name ` set fs"
  by (induction fs vs res rule: put_groups.induct) (auto simp: dom_update)

lemma merge_keys: "fst ` set (foldl merge_fields acc fss) \<subseteq> fst ` set acc \<union> (\<Union>f \<in> set fss. fst ` set f)"
proof (induction fss arbitrary: acc)
  case (Cons f fss)
  have "fst ` set (merge_fields acc f) \<subseteq> fst ` set acc \<union> fst ` set f" by (auto simp: merge_fields_def)
  with Cons.IH [of "merge_fields acc f"] show ?case by simp blast
qed simp

lemma parsed_names_storable:
  assumes "names_storable ps" "parse_spec rx ps h a m = Some r"
  shows "list_all (\<lambda>(k, v). storable k) (pr_Fields r)" "list_all storable (pr_Parsers r)"
proof -
  have r: "r = \<lparr>pr_Fields = foldl merge_fields [] (map (own_fields rx m) (filter (applies rx h a m) ps)), pr_Parsers = map pa_Name (filter (applies rx h a m) ps)\<rparr>"
    using assms(2) by (simp add: parse_spec_def Let_def split: if_splits)
  have own: "fst ` set (own_fields rx m p) \<subseteq> pf_Name ` set (pa_Fields p)" for p
    using put_groups_keys [of "pa_Fields p" _ "[]"] by (auto simp: own_fields_def split: option.split)
  have "fst ` set (pr_Fields r) \<subseteq> (\<Union>p \<in> set ps. pf_Name ` set (pa_Fields p))"
  proof -
    have "fst ` set (pr_Fields r) \<subseteq> (\<Union>p \<in> set (filter (applies rx h a m) ps). fst ` set (own_fields rx m p))"
      using merge_keys [of "[]" "map (own_fields rx m) (filter (applies rx h a m) ps)"] unfolding r by simp
    also have "\<dots> \<subseteq> (\<Union>p \<in> set ps. pf_Name ` set (pa_Fields p))" by (rule UN_mono) (use own in auto)
    finally show ?thesis .
  qed
  then show "list_all (\<lambda>(k, v). storable k) (pr_Fields r)" using assms(1) by (fastforce simp: names_storable_def list_all_iff)
  show "list_all storable (pr_Parsers r)" using assms(1) unfolding r by (auto simp: names_storable_def list_all_iff)
qed

text \<open>What a line becomes, without the cache; \<open>ts\<close> is the time at which a malformed line is met.\<close>

definition prepared_of :: "tail_env \<Rightarrow> string \<Rightarrow> string \<Rightarrow> prepared" where
  "prepared_of E ts line =
     (case decode_line ts line of
        None \<Rightarrow> PartialWrite
      | Some (entry, malformed) \<Rightarrow>
          (let e = sanitize_entry entry in
           if ie_Hostname e = [] then NoHost
           else (let e = fix_truncated e in Ready (add_parsed (parse_spec (te_rx E) (te_parsers E) (ie_Hostname e) (ie_AppName e) (ie_Message e)) e))))"

definition batches :: "alert_call list \<Rightarrow> IngestEntry list" where
  "batches cs = concat (map (\<lambda>c. case c of Batch es \<Rightarrow> es | Malformed l \<Rightarrow> []) cs)"

lemma batches_simps [simp]: "batches [] = []" "batches (Batch es # cs) = es @ batches cs" "batches (Malformed l # cs) = batches cs"
    "batches (cs @ ds) = batches cs @ batches ds"
  by (simp_all add: batches_def)

lemma prepare_run:
  assumes "cache_ok (te_rx E) (in_cache s)"
  obtains ts ms cache n where "prepare_line E line (s, fs) = (Inr (prepared_of E ts line), s\<lparr>in_alerts := in_alerts s @ ms, in_cache := cache, in_tick := n\<rparr>, fs)"
    "batches ms = []" "cache_ok (te_rx E) cache"
proof -
  let ?now = "case unmarshal_entry line of Inr _ \<Rightarrow> 0 | Inl _ \<Rightarrow> if has_prefix line ''{'' then te_now E (in_tick s) else 0"
  let ?tick = "case unmarshal_entry line of Inr _ \<Rightarrow> in_tick s | Inl _ \<Rightarrow> if has_prefix line ''{'' then Suc (in_tick s) else in_tick s"
  have clock: "(case unmarshal_entry line of Inr _ \<Rightarrow> ret 0 | Inl _ \<Rightarrow> if has_prefix line ''{'' then Now E else ret 0) (s, fs) = (Inr ?now, s\<lparr>in_tick := ?tick\<rparr>, fs)"
    by (simp add: Now_def split: sum.split)
  show thesis
  proof (cases "decode_line (te_format E ?now) line")
    case None
    then show ?thesis using that [where ts = "te_format E ?now" and ms = "[]" and cache = "in_cache s" and n = ?tick] clock assms
      by (simp add: prepare_line_def bind_def prepared_of_def)
  next
    case (Some p)
    then obtain entry malformed where d: "decode_line (te_format E ?now) line = Some (entry, malformed)" by (cases p) auto
    let ?ms = "case malformed of None \<Rightarrow> [] | Some l \<Rightarrow> [Malformed l]" and ?e = "fix_truncated (sanitize_entry entry)"
    have call: "(case malformed of None \<Rightarrow> ret () | Some l \<Rightarrow> call_alerts (Malformed l)) (s\<lparr>in_tick := ?tick\<rparr>, fs) =
        (Inr (), s\<lparr>in_tick := ?tick, in_alerts := in_alerts s @ ?ms\<rparr>, fs)" by (simp add: call_alerts_def split: option.split)
    obtain cache where p: "Parse (te_rx E) (te_parsers E) (ie_Hostname ?e) (ie_AppName ?e) (ie_Message ?e) (in_cache s) =
        (parse_spec (te_rx E) (te_parsers E) (ie_Hostname ?e) (ie_AppName ?e) (ie_Message ?e), cache)" "cache_ok (te_rx E) cache"
      using computesD [OF Parse_computes assms] by blast
    show ?thesis
    proof (cases "ie_Hostname (sanitize_entry entry) = []")
      case True
      then show ?thesis using that [where ts = "te_format E ?now" and ms = ?ms and cache = "in_cache s" and n = ?tick] clock call d assms
        by (simp add: prepare_line_def bind_def prepared_of_def Let_def split: option.split)
    next
      case False
      then show ?thesis using that [where ts = "te_format E ?now" and ms = ?ms and cache = cache and n = ?tick] clock call d p
        by (simp add: prepare_line_def bind_def prepared_of_def engine_Parse_def Let_def split: option.split)
    qed
  qed
qed

lemma prepared_storable: "prepared_of E ts line = Ready e \<Longrightarrow> list_all storable (texts_of e)"
  by (auto simp: prepared_of_def Let_def texts_parsed texts_sanitize texts_fix split: option.splits if_splits)

lemma decoded_plain: "decode_line ts line = Some (entry, malformed) \<Longrightarrow> ie_ParsedFields entry = [] \<and> ie_MatchedParsers entry = []"
proof -
  have plain: "ie_ParsedFields (entry_of raw) = [] \<and> ie_MatchedParsers (entry_of raw) = []" for raw by (simp add: entry_of_def Let_def)
  have "\<exists>raw. e = entry_of raw" if "unmarshal_entry line = Inr e" for e
    using that unfolding unmarshal_entry_def UnmarshalJSON_def by (auto split: sum.splits option.splits if_splits)
  moreover assume "decode_line ts line = Some (entry, malformed)"
  ultimately show ?thesis using plain unfolding decode_line_def by (auto simp: Let_def split: sum.splits if_splits)
qed

lemma prepared_parsed:
  assumes "names_storable (te_parsers E)" "prepared_of E ts line = Ready e"
  shows "list_all storable (ie_MatchedParsers e) \<and> (ie_ParsedFields e = [] \<or> storable_fields (ie_ParsedFields e))"
proof -
  obtain entry malformed where d: "decode_line ts line = Some (entry, malformed)"
    using assms(2) by (auto simp: prepared_of_def split: option.splits)
  let ?e = "fix_truncated (sanitize_entry entry)"
  let ?r = "parse_spec (te_rx E) (te_parsers E) (ie_Hostname ?e) (ie_AppName ?e) (ie_Message ?e)"
  have e: "e = add_parsed ?r ?e" using assms(2) d by (simp add: prepared_of_def Let_def split: if_splits)
  have plain: "ie_ParsedFields ?e = []" "ie_MatchedParsers ?e = []"
    using decoded_plain [OF d] by (simp_all add: fix_truncated_def sanitize_entry_def Let_def)
  show ?thesis
  proof (cases ?r)
    case None
    with plain show ?thesis unfolding e by (simp add: add_parsed_def)
  next
    case (Some r)
    with parsed_names_storable [OF assms(1) Some] marshal_storable [of "pr_Fields r"] show ?thesis unfolding e by (simp add: add_parsed_def)
  qed
qed

text \<open>
  Every text of an entry that is ready to be stored is one PostgreSQL accepts: valid UTF-8 without the byte zero, in the columns as well as in the names and
  the values of the parsed fields, provided the names of the parsers and of their fields are (they are read from the database). Texts that are
  so already are stored as they came. (C36)
\<close>
theorem ready_entries_are_storable:
  assumes "cache_ok (te_rx E) (in_cache s)" "names_storable (te_parsers E)" "prepare_line E line (s, fs) = (Inr (Ready e), s', fs')"
  shows "list_all storable (texts_of e @ ie_MatchedParsers e) \<and> (ie_ParsedFields e = [] \<or> storable_fields (ie_ParsedFields e)) \<and>
    (\<forall>t. storable t \<longrightarrow> sanitizeForPostgres t = t)"
proof -
  obtain ts where "prepared_of E ts line = Ready e"
    by (rule prepare_run [OF assms(1), of line fs]) (use assms(3) in auto)
  then show ?thesis using prepared_storable prepared_parsed [OF assms(2)] sanitize_id by simp
qed

section \<open>Lines of the file\<close>

definition chunk :: "nat \<times> string \<Rightarrow> string" where
  "chunk t = (if fst t = length (snd t) then snd t else snd t @ [newline])"

lemma takeWhile_newline: "newline \<in> set data \<Longrightarrow> data = takeWhile (\<lambda>c. c \<noteq> newline) data @ newline # drop (length (takeWhile (\<lambda>c. c \<noteq> newline) data) + 1) data"
  by (induction data) auto

lemma split_cases:
  assumes "lineSplitter_split limit data = Some (n, l)"
  shows "newline \<notin> set l \<and> (n = length l + 1 \<and> data = l @ newline # drop n data \<or> n = limit \<and> length l = limit \<and> data = l @ drop n data)"
proof (cases "newline \<in> set data")
  case True
  then show ?thesis using assms takeWhile_newline [OF True] by (auto simp: lineSplitter_split_def Let_def dest: set_takeWhileD)
next
  case False
  then show ?thesis using assms by (auto simp: lineSplitter_split_def dest: in_set_takeD split: if_splits)
qed

lemma split_None: "lineSplitter_split limit data = None \<longleftrightarrow> newline \<notin> set data \<and> length data < limit"
  by (auto simp: lineSplitter_split_def Let_def)

lemma take_extends: "take m xs = l @ t \<Longrightarrow> xs = l @ drop (length l) xs"
  by (metis append_eq_conv_conj append_take_drop_id append.assoc)

text \<open>
  The scanner cuts the file into its lines and loses nothing: the tokens with their newlines are the beginning of the file,
  no token holds a newline or is longer than the limit, and what is left over is an unfinished line shorter than the limit.
\<close>
theorem scanner_cuts_lines:
  assumes "0 < limit"
  shows "\<exists>rest. data = concat (map chunk (scan_tokens limit data)) @ rest \<and> newline \<notin> set rest \<and> length rest < limit \<and>
    list_all (\<lambda>(n, l). newline \<notin> set l \<and> (n = length l + 1 \<and> length l < limit \<or> n = limit \<and> length l = limit)) (scan_tokens limit data)"
  using assms
proof (induction limit data rule: scan_tokens.induct)
  case (1 limit data)
  show ?case
  proof (cases "lineSplitter_split limit (take limit data)")
    case None
    then have "newline \<notin> set (take limit data)" "length (take limit data) < limit" by (simp_all add: split_None)
    then have "newline \<notin> set data" "length data < limit" by auto
    moreover have "scan_tokens limit data = []" using None by (simp add: scan_tokens.simps)
    ultimately show ?thesis by simp
  next
    case (Some p)
    then obtain n l where p: "lineSplitter_split limit (take limit data) = Some (n, l)" by (cases p) auto
    have tokens: "scan_tokens limit data = (n, l) # scan_tokens limit (drop n data)" using "1.prems" p by (subst scan_tokens.simps) simp
    have ih: "\<exists>rest. drop n data = concat (map chunk (scan_tokens limit (drop n data))) @ rest \<and> newline \<notin> set rest \<and> length rest < limit \<and>
        list_all (\<lambda>(n, l). newline \<notin> set l \<and> (n = length l + 1 \<and> length l < limit \<or> n = limit \<and> length l = limit)) (scan_tokens limit (drop n data))"
      using 1 p by simp
    have cut: "newline \<notin> set l \<and> (n = length l + 1 \<and> length l < limit \<and> data = l @ newline # drop n data \<or> n = limit \<and> length l = limit \<and> data = l @ drop n data)"
      using split_cases [OF p]
    proof (elim conjE disjE)
      assume l: "newline \<notin> set l" "n = length l + 1" "take limit data = l @ newline # drop n (take limit data)"
      have "length l < limit" using arg_cong [OF l(3), of length] by simp
      moreover have "data = (l @ [newline]) @ drop (length (l @ [newline])) data" by (rule take_extends [where m = limit and t = "drop n (take limit data)"]) (use l(3) in simp)
      ultimately show ?thesis using l(1,2) by simp
    next
      assume l: "newline \<notin> set l" "n = limit" "length l = limit" "take limit data = l @ drop n (take limit data)"
      have "data = l @ drop (length l) data" by (rule take_extends [OF l(4)])
      then show ?thesis using l by simp
    qed
    then have "data = chunk (n, l) @ drop n data" by (auto simp: chunk_def)
    moreover obtain rest where "drop n data = concat (map chunk (scan_tokens limit (drop n data))) @ rest" "newline \<notin> set rest" "length rest < limit"
        "list_all (\<lambda>(n, l). newline \<notin> set l \<and> (n = length l + 1 \<and> length l < limit \<or> n = limit \<and> length l = limit)) (scan_tokens limit (drop n data))"
      using ih by blast
    ultimately have "data = concat (map chunk (scan_tokens limit data)) @ rest" unfolding tokens by simp
    then show ?thesis using \<open>newline \<notin> set rest\<close> \<open>length rest < limit\<close> \<open>list_all _ _\<close> cut unfolding tokens by (intro exI [of _ rest]) auto
  qed
qed

theorem scanner_cuts_lines_witness:
  "\<exists>rest. ''ab'' @ newline # ''cdefgh'' = concat (map chunk (scan_tokens 4 (''ab'' @ newline # ''cdefgh''))) @ rest \<and> newline \<notin> set rest \<and> length rest < 4"
  using scanner_cuts_lines [of 4 "''ab'' @ newline # ''cdefgh''"] by auto

text \<open>When every line fits, the tokens are the complete lines.\<close>

definition complete_lines :: "string \<Rightarrow> string list" where
  "complete_lines file = butlast (split_on newline file)"

definition lines_fit :: "nat \<Rightarrow> string \<Rightarrow> bool" where
  "lines_fit limit file \<longleftrightarrow> list_all (\<lambda>l. length l < limit) (split_on newline file)"

lemma split_on_none: "c \<notin> set l \<Longrightarrow> split_on c l = [l]"
  by (induction l) auto

lemma split_on_cut: "c \<notin> set l \<Longrightarrow> split_on c (l @ c # t) = l # split_on c t"
  by (induction l) auto

lemma complete_Nil: "newline \<notin> set rest \<Longrightarrow> complete_lines rest = []"
  by (simp add: complete_lines_def split_on_none)

lemma complete_cut: "newline \<notin> set l \<Longrightarrow> complete_lines (l @ newline # t) = l # complete_lines t"
  by (simp add: complete_lines_def split_on_cut)

lemma lines_fit_cut: "newline \<notin> set l \<Longrightarrow> lines_fit limit (l @ newline # t) \<longleftrightarrow> length l < limit \<and> lines_fit limit t"
  by (simp add: lines_fit_def split_on_cut)

lemma lines_fit_none: "newline \<notin> set l \<Longrightarrow> lines_fit limit l \<longleftrightarrow> length l < limit"
  by (simp add: lines_fit_def split_on_none)

text \<open>A file is an unfinished line or a line and another file.\<close>

lemma file_induct [case_names rest line]:
  assumes "\<And>rest. newline \<notin> set rest \<Longrightarrow> P rest" "\<And>l t. newline \<notin> set l \<Longrightarrow> P t \<Longrightarrow> P (l @ newline # t)"
  shows "P file"
proof (induction "length file" arbitrary: "file" rule: less_induct)
  case less
  show ?case
  proof (cases "newline \<in> set file")
    case True
    then obtain l t where "file = l @ newline # t" "newline \<notin> set l" by (meson split_list_first)
    then show ?thesis using less assms(2) by simp
  qed (rule assms(1))
qed

lemma scan_tokens_lines: "lines_fit limit file \<Longrightarrow> scan_tokens limit file = map (\<lambda>l. (length l + 1, l)) (complete_lines file)"
proof (induction "file" rule: file_induct)
  case (rest rest)
  then have "lineSplitter_split limit (take limit rest) = None" by (simp add: split_None lines_fit_none)
  then show ?case using rest by (simp add: scan_tokens.simps complete_Nil)
next
  case (line l t)
  then have fit: "length l < limit" "lines_fit limit t" by (simp_all add: lines_fit_cut)
  let ?data = "take limit (l @ newline # t)"
  have d: "?data = l @ newline # take (limit - length l - 1) t" using fit(1) by (simp add: take_Cons')
  have "takeWhile (\<lambda>c. c \<noteq> newline) ?data = l" using line(1) unfolding d by (subst takeWhile_append2) auto
  then have "lineSplitter_split limit ?data = Some (length l + 1, l)" using d by (simp add: lineSplitter_split_def Let_def)
  then show ?case using line fit by (subst scan_tokens.simps) (auto simp: complete_cut)
qed

lemma complete_append: "file = [] \<or> last file = newline \<Longrightarrow> complete_lines (file @ t) = complete_lines file @ complete_lines t"
proof (induction "file" rule: file_induct)
  case (rest rest)
  then show ?case using last_in_set [of rest] by (cases "rest = []") (auto simp: complete_Nil)
next
  case (line l f)
  then show ?case by (cases "f = []") (auto simp: complete_cut complete_Nil)
qed

lemma lines_of_complete: "\<exists>rest. file = concat (map (\<lambda>l. l @ [newline]) (complete_lines file)) @ rest \<and> newline \<notin> set rest"
proof (induction "file" rule: file_induct)
  case (line l t)
  then show ?case by (auto simp: complete_cut)
qed (simp add: complete_Nil)

section \<open>Moving back to the start of a line\<close>

lemma backseek_loop_spec:
  assumes "backseek_loop file left pos = (r, hit)" "pos \<le> length file"
  shows "if hit then r = 0 \<and> left < pos \<and> newline \<notin> set (drop (pos - left) (take pos file))
    else r \<le> pos \<and> (r = 0 \<or> file ! (r - 1) = newline) \<and> newline \<notin> set (drop r (take pos file))"
  using assms
proof (induction "file" left pos rule: backseek_loop.induct)
  case (2 f left k)
  have b: "byte_before f (Suc k) = Some (f ! k)" using "2.prems"(2) by (simp add: byte_before_def)
  have t: "take (Suc k) f = take k f @ [f ! k]" using "2.prems"(2) by (simp add: take_Suc_conv_app_nth)
  show ?case
  proof (cases "left = 0 \<or> f ! k = newline")
    case True
    then show ?thesis using 2 b by (auto split: if_splits)
  next
    case False
    then have loop: "backseek_loop f (left - 1) k = (r, hit)" using 2 b by simp
    have "if hit then r = 0 \<and> left - 1 < k \<and> newline \<notin> set (drop (k - (left - 1)) (take k f))
      else r \<le> k \<and> (r = 0 \<or> f ! (r - 1) = newline) \<and> newline \<notin> set (drop r (take k f))"
      using 2 False b loop by simp
    then show ?thesis using False t 2 by (auto split: if_splits)
  qed
qed simp

text \<open>
  Moving back ends at the start of the line the position lies in; only when that start is further away than the limit does it
  give up, and then the position is the beginning of the file.
\<close>
theorem safeBackseek_finds_line:
  assumes "safeBackseek file pos = (r, hit)" "pos \<le> length file"
  shows "if hit then r = 0 \<and> backseekLimit < pos \<and> newline \<notin> set (drop (pos - backseekLimit) (take pos file))
    else r \<le> pos \<and> (r = 0 \<or> file ! (r - 1) = newline) \<and> newline \<notin> set (drop r (take pos file))"
  using backseek_loop_spec [of "file" backseekLimit pos r hit] assms by (simp add: safeBackseek_def)

theorem safeBackseek_finds_line_witness: "newline \<notin> set (drop 1 (take 1 (newline # ''cd'')))"
proof -
  have "safeBackseek (newline # ''cd'') 1 = (1, False)" by (simp add: safeBackseek_def backseekLimit_def byte_before_def)
  from safeBackseek_finds_line [OF this] show ?thesis by simp
qed

section \<open>The saved position is found again\<close>

definition hex_chars :: string where "hex_chars = ''0123456789abcdef''"

text \<open>A digest in hexadecimal.\<close>

definition hex_hash :: "(string \<Rightarrow> string) \<Rightarrow> bool" where
  "hex_hash h \<longleftrightarrow> (\<forall>x. set (h x) \<subseteq> set hex_chars)"

lemma hex_storable: "set x \<subseteq> set hex_chars \<Longrightarrow> storable x"
proof (rule storable_ascii)
  assume "set x \<subseteq> set hex_chars"
  moreover have "\<forall>c \<in> set hex_chars. byte c < 128 \<and> c \<noteq> NUL" by (simp add: hex_chars_def NUL_def of_char_eq_iff [symmetric, where 'a = nat])
  ultimately show "list_all (\<lambda>c. byte c < 128 \<and> c \<noteq> NUL) x" by (auto simp: list_all_iff)
qed

lemma position_json:
  assumes "is_int64 pos" "valid_utf8 fp"
  shows "unmarshal_position (marshal_position pos fp) = Some (tailerPosVersion, pos, fp)"
proof -
  have keys: "valid_utf8 ''v''" "valid_utf8 ''pos''" "valid_utf8 ''fp''" by (simp_all add: valid_utf8.simps rune_len_def utf8_first_def)
  have "json_parse (marshal_position pos fp) = Inr (JObj (zip (map fst [(''v'', itoa tailerPosVersion), (''pos'', itoa pos), (''fp'', json_string fp)]) [JNum tailerPosVersion, JNum pos, JStr fp]))"
    unfolding marshal_position_def by (rule object_read) (use keys assms(2) in \<open>auto simp: writes_int writes_string\<close>)
  then show ?thesis using assms(1)
    by (simp add: unmarshal_position_def members_of_def to_lower_def lower_char_def tailerPosVersion_def is_int64_def)
qed

lemma position_text:
  assumes "is_int64 pos" "set fp \<subseteq> set hex_chars"
  shows "loadPosition (itoa pos @ '':'' @ fp) = Some (pos, fp)"
proof -
  have sp: "\<not> is_space c" if "c \<in> set (itoa pos @ '':'' @ fp)" for c
    using that assms(2) itoa_chars [of c pos] by (auto simp: is_space_def hex_chars_def is_digit_def)
  obtain x xs where x: "itoa pos @ '':'' @ fp = x # xs" by (cases "itoa pos @ '':'' @ fp") auto
  have "x \<in> set (itoa pos @ '':'' @ fp)" unfolding x by simp
  then have "\<not> is_space x" by (rule sp)
  then have "dropWhile is_space (itoa pos @ '':'' @ fp) = itoa pos @ '':'' @ fp" unfolding x by simp
  moreover have "dropWhile is_space (rev (itoa pos @ '':'' @ fp)) = rev (itoa pos @ '':'' @ fp)"
  proof -
    obtain y ys where y: "rev (itoa pos @ '':'' @ fp) = y # ys" by (cases "rev (itoa pos @ '':'' @ fp)") auto
    then have "y \<in> set (itoa pos @ '':'' @ fp)" by (metis list.set_intros(1) set_rev)
    then have "\<not> is_space y" by (rule sp)
    then show ?thesis unfolding y by simp
  qed
  ultimately have "trim_space (itoa pos @ '':'' @ fp) = itoa pos @ '':'' @ fp" by (simp only: trim_space_def rev_rev_ident)
  moreover have "CHR '':'' \<notin> set (itoa pos)" using itoa_chars [of "CHR '':''" pos] by (auto simp: is_digit_def)
  ultimately show ?thesis using assms(1) by (simp add: loadPosition_def split2_append parse_int64_itoa)
qed

lemma fingerprint_append: "pos \<le> length file \<Longrightarrow> fingerprint_bytes (file @ added) pos = fingerprint_bytes file pos"
  by (simp add: fingerprint_bytes_def)

lemma fingerprint_run:
  assumes "ta_file s = Some file" "pos \<le> length file"
  shows "positionFingerprint E (int pos) (s, []) = (Inr (Some (if pos = 0 then [] else te_hash E (fingerprint_bytes file pos))), s, [])"
  using assms by (simp add: positionFingerprint_def attempt_def)

lemma accept_run:
  assumes "ta_file s = Some file" "pos \<le> length file" "fp = (if pos = 0 then [] else te_hash E (fingerprint_bytes file pos))"
  shows "accept_position E (int pos, fp) (s, []) = (Inr (Some (int pos)), s, [])"
  using assms fingerprint_run [OF assms(1,2), of E] by (simp add: accept_position_def attempt_def bind_def)

lemma save_run:
  assumes "ta_file s = Some file" "pos \<le> length file"
  shows "savePosition E (int pos) (s, []) =
    (Inr (), (let fp = (if pos = 0 then [] else te_hash E (fingerprint_bytes file pos)); s1 = s\<lparr>ta_posfile := Some (itoa (int pos) @ '':'' @ fp)\<rparr>
       in if te_shared E then s1\<lparr>ta_redis := Some (marshal_position (int pos) fp)\<rparr> else s1), [])"
  using fingerprint_run [OF assms, of E] by (simp add: savePosition_def bind_def attempt_def SaveTailerPosition_def Let_def)

text \<open>
  A saved position is the one the tailer starts from after a restart, whatever was added to the file since. (C35)
\<close>
theorem saved_position_is_found:
  assumes "ta_file s = Some file" "pos \<le> length file" "is_int64 (int pos)" "hex_hash (te_hash E)"
  shows "\<exists>s'. savePosition E (int pos) (s, []) = (Inr (), s', []) \<and>
    (\<forall>added. fst (loadStartPositionFromReader E (s'\<lparr>ta_file := Some (file @ added)\<rparr>, [])) = Inr (int pos))"
proof -
  let ?fp = "if pos = 0 then [] else te_hash E (fingerprint_bytes file pos)"
  have hex: "set ?fp \<subseteq> set hex_chars" using assms(4) by (simp add: hex_hash_def)
  note written = position_text [OF assms(3) hex]
  have json: "unmarshal_position (marshal_position (int pos) ?fp) = Some (tailerPosVersion, int pos, ?fp)"
    by (rule position_json [OF assms(3)]) (use hex_storable [OF hex] in \<open>simp add: storable_def\<close>)
  have accept: "accept_position E (int pos, ?fp) (t, []) = (Inr (Some (int pos)), t, [])" if "ta_file t = Some (file @ added)" for t added
    by (rule accept_run [OF that]) (use assms(2) fingerprint_append [OF assms(2)] in auto)
  show ?thesis
  proof (cases "te_shared E")
    case True
    then show ?thesis unfolding save_run [OF assms(1,2)] using json accept
      by (simp add: Let_def loadStartPositionFromReader_def try_position_def LoadTailerPosition_def attempt_def bind_def del: fun_upd_apply)
  next
    case False
    then show ?thesis unfolding save_run [OF assms(1,2)] using written accept
      by (simp add: Let_def loadStartPositionFromReader_def try_position_def read_posfile_def attempt_def bind_def)
  qed
qed

definition demo_tail_env :: tail_env where
  "demo_tail_env = \<lparr>te_rx = (\<lambda>_. None), te_parsers = [], te_now = (\<lambda>_. 0), te_paused = (\<lambda>_. False), te_parse_time = (\<lambda>l s. None), te_format = (\<lambda>t. itoa t),
     te_hash = (\<lambda>s. itoa (int (length s))), te_shared = True\<rparr>"

definition demo_tail :: tail where
  "demo_tail = \<lparr>in_rows = [], in_rate = 0, in_alerts = [], in_cache = Map.empty, in_tick = 0, ta_file = Some (''ab'' @ [newline]), ta_posfile = None, ta_redis = None,
     ta_filePos = 0, ta_flushedPos = 0, ta_entries = [], ta_lastFlush = 0, ta_lastCompaction = 0\<rparr>"

lemma demo_hash: "hex_hash (te_hash demo_tail_env)"
proof -
  have "c \<in> set hex_chars" if "c \<in> set (nat_str n)" for c n
  proof -
    have "is_digit c" using that nat_str_digits [of n] by (simp add: list_all_iff)
    then have "byte c \<in> {48..57}" by (simp add: is_digit_def)
    then have "byte c = 48 \<or> byte c = 49 \<or> byte c = 50 \<or> byte c = 51 \<or> byte c = 52 \<or> byte c = 53 \<or> byte c = 54 \<or> byte c = 55 \<or> byte c = 56 \<or> byte c = 57"
      by (simp, presburger)
    then show ?thesis by (simp add: hex_chars_def of_char_eq_iff [symmetric, where 'a = nat]) blast
  qed
  then show ?thesis by (auto simp: hex_hash_def demo_tail_env_def itoa_def)
qed

theorem saved_position_is_found_witness:
  "\<exists>s'. savePosition demo_tail_env (int 3) (demo_tail, []) = (Inr (), s', []) \<and>
    (\<forall>added. fst (loadStartPositionFromReader demo_tail_env (s'\<lparr>ta_file := Some ((''ab'' @ [newline]) @ added)\<rparr>, [])) = Inr (int 3))"
  by (rule saved_position_is_found [OF _ _ _ demo_hash]) (simp_all add: demo_tail_def is_int64_def)

lemma demo_line: "json_parse (json_object [(''hostname'', json_string ''h'')]) = Inr (JObj [(''hostname'', JStr ''h'')])"
proof -
  have "valid_utf8 ''hostname''" "valid_utf8 ''h''" by (simp_all add: valid_utf8.simps rune_len_def utf8_first_def)
  then show ?thesis using object_read [of "[(''hostname'', json_string ''h'')]" "[JStr ''h'']"] by (simp add: writes_string)
qed

definition parsing_env :: tail_env where
  "parsing_env = demo_tail_env\<lparr>te_rx := ip_regex, te_parsers := [ip_parser 1 ''a'' ''all'' None ''src'']\<rparr>"

lemma parsing_env_simps [simp]: "te_rx parsing_env = ip_regex" "te_parsers parsing_env = [ip_parser 1 ''a'' ''all'' None ''src'']"
  by (simp_all add: parsing_env_def)

lemma ascii_storable: "storable ''a''" "storable ''src''" "storable ''h''" "storable ''ip=9''" "storable ''hostname''" "storable ''message''"
  by (simp_all add: storable_def NUL_def valid_utf8.simps rune_len_def utf8_first_def of_char_eq_iff [symmetric, where 'a = nat])

definition parsed_line :: string where
  "parsed_line = json_object [(''hostname'', json_string ''h''), (''message'', json_string ''ip=9'')]"

lemma parsed_line_entry: "decode_line ts parsed_line = Some (entry_of (\<lambda>n. if n = ''hostname'' then ''h'' else if n = ''message'' then ''ip=9'' else []), None)"
proof -
  have "json_parse parsed_line = Inr (JObj [(''hostname'', JStr ''h''), (''message'', JStr ''ip=9'')])"
    using object_read [of "[(''hostname'', json_string ''h''), (''message'', json_string ''ip=9'')]" "[JStr ''h'', JStr ''ip=9'']"] ascii_storable
    by (auto simp: parsed_line_def storable_def intro: writes_string)
  then show ?thesis
    by (simp add: decode_line_def unmarshal_entry_def UnmarshalJSON_def members_of_def raw_names_def to_lower_def lower_char_def entry_of_def)
qed

lemma parsed_line_ready: "\<exists>e. prepared_of parsing_env ts parsed_line = Ready e \<and> ie_MatchedParsers e = [''a'']"
proof -
  have "re_compile ''ip=(.*)'' = None" by (simp add: re_compile_def)
  then have "applies ip_regex h a ''ip=9'' (ip_parser 1 ''a'' ''all'' None ''src'')" for h a
    by (simp add: applies_def selected_def groups_def Compile_def ip_regex_def)
  then show ?thesis using ascii_storable
    by (simp add: prepared_of_def parsed_line_entry sanitize_entry_def entry_of_def sanitize_id fix_truncated_def truncatedISORe_def add_parsed_def parse_spec_def Let_def)
qed

theorem ready_entries_are_storable_witness:
  "\<exists>e s'. prepare_line parsing_env parsed_line (demo_tail, []) = (Inr (Ready e), s', []) \<and> ie_MatchedParsers e = [''a''] \<and>
     list_all storable (texts_of e) \<and> (ie_ParsedFields e = [] \<or> storable_fields (ie_ParsedFields e))"
proof -
  have c: "cache_ok (te_rx parsing_env) (in_cache demo_tail)" by (simp add: cache_ok_def demo_tail_def)
  obtain e s' where run: "prepare_line parsing_env parsed_line (demo_tail, []) = (Inr (Ready e), s', [])" "ie_MatchedParsers e = [''a'']"
    by (rule prepare_run [OF c, of parsed_line "[]"]) (metis parsed_line_ready)
  have "names_storable (te_parsers parsing_env)" using ascii_storable by (simp add: names_storable_def ip_parser_def)
  from ready_entries_are_storable [OF c this run(1)] run show ?thesis by auto
qed

end
