(* ===== verification/TailerTheorems.thy ===== *)
theory TailerTheorems
  imports TailerText
begin

text \<open>
  The tailer as a whole: without failures, pauses and compaction every line of the file is stored once and evaluated once, in
  order; and what happens when the database is away, when a pause is noticed in the middle of a pass, and when a compaction finds
  nothing to compact.
\<close>

section \<open>Flushing\<close>

definition row_for :: "tail_env \<Rightarrow> IngestEntry \<Rightarrow> ingest_row \<Rightarrow> bool" where
  "row_for E e r \<longleftrightarrow> (\<exists>now. r = rowArgs E now e)"

lemma row_times_run: "\<exists>rs n. row_times E es (s, fs) = (Inr rs, s\<lparr>in_tick := n\<rparr>, fs) \<and> list_all2 (row_for E) es rs"
proof (induction es arbitrary: s)
  case Nil
  have "row_times E [] (s, fs) = (Inr [], s\<lparr>in_tick := in_tick s\<rparr>, fs) \<and> list_all2 (row_for E) [] []" by simp
  then show ?case by blast
next
  case (Cons e es)
  obtain now n where now: "(if parseTimestamp E (ie_Timestamp e) = None then Now E else ret 0) (s, fs) = (Inr now, s\<lparr>in_tick := n\<rparr>, fs)"
    using that [of "te_now E (in_tick s)" "Suc (in_tick s)"] that [of 0 "in_tick s"] by (cases "parseTimestamp E (ie_Timestamp e)") (simp_all add: Now_def)
  obtain rs m where "row_times E es (s\<lparr>in_tick := n\<rparr>, fs) = (Inr rs, s\<lparr>in_tick := m\<rparr>, fs)" "list_all2 (row_for E) es rs"
    using Cons [of "s\<lparr>in_tick := n\<rparr>"] by auto
  then have "row_times E (e # es) (s, fs) = (Inr (rowArgs E now e # rs), s\<lparr>in_tick := m\<rparr>, fs) \<and> list_all2 (row_for E) (e # es) (rowArgs E now e # rs)"
    using now by (simp add: bind_def row_for_def) blast
  then show ?case by blast
qed

lemma chunk_fits: "n \<le> maxInsertRows \<Longrightarrow> n * insertColumns \<le> max_params"
  by (simp add: maxInsertRows_def insertColumns_def max_params_def)

lemma insertChunk_run:
  assumes "length es \<le> maxInsertRows"
  shows "\<exists>rs n. insertChunk E es (s, []) = (Inr (length es), s\<lparr>in_rows := in_rows s @ rs, in_tick := n\<rparr>, []) \<and> list_all2 (row_for E) es rs"
proof -
  obtain rs n where rs: "row_times E es (s, []) = (Inr rs, s\<lparr>in_tick := n\<rparr>, [])" "list_all2 (row_for E) es rs" using row_times_run by blast
  have len: "length rs = length es" using list_all2_lengthD [OF rs(2)] by simp
  have "\<not> length es * insertColumns > max_params" using chunk_fits [OF assms] by simp
  then have "insertChunk E es (s, []) = (Inr (length es), s\<lparr>in_rows := in_rows s @ rs, in_tick := n\<rparr>, [])"
    using rs(1) len by (simp add: insertChunk_def bind_def insert_rows_def)
  then show ?thesis using rs(2) by blast
qed

lemma flush_chunks_run:
  "\<exists>rs n. flush_chunks E es k (s, []) = (Inr (k + length es), s\<lparr>in_rows := in_rows s @ rs, in_tick := n\<rparr>, []) \<and> list_all2 (row_for E) es rs"
proof (induction E es k arbitrary: s rule: flush_chunks.induct)
  case (1 E es k)
  show ?case
  proof (cases "es = []")
    case True
    have "flush_chunks E [] k (s, []) = (Inr (k + length []), s\<lparr>in_rows := in_rows s @ [], in_tick := in_tick s\<rparr>, [])" by (simp add: flush_chunks.simps)
    then show ?thesis using True by blast
  next
    case False
    obtain rs n where a: "insertChunk E (take maxInsertRows es) (s, []) =
        (Inr (length (take maxInsertRows es)), s\<lparr>in_rows := in_rows s @ rs, in_tick := n\<rparr>, [])" "list_all2 (row_for E) (take maxInsertRows es) rs"
      using insertChunk_run [of "take maxInsertRows es" E s] by auto
    let ?s = "s\<lparr>in_rows := in_rows s @ rs, in_tick := n\<rparr>" and ?k = "k + length (take maxInsertRows es)"
    obtain rs' m where b: "flush_chunks E (drop maxInsertRows es) ?k (?s, []) =
        (Inr (?k + length (drop maxInsertRows es)), ?s\<lparr>in_rows := in_rows ?s @ rs', in_tick := m\<rparr>, [])" "list_all2 (row_for E) (drop maxInsertRows es) rs'"
      using 1 [OF False] by blast
    have "flush_chunks E es k (s, []) = (Inr (k + length es), s\<lparr>in_rows := in_rows s @ rs @ rs', in_tick := m\<rparr>, [])"
      using False a(1) b(1) by (subst flush_chunks.simps) (simp add: attempt_def bind_def min_def)
    moreover have "list_all2 (row_for E) es (rs @ rs')"
      using list_all2_appendI [OF a(2) b(2)] by simp
    ultimately show ?thesis by blast
  qed
qed

lemma flush_run:
  assumes "es \<noteq> []"
  shows "\<exists>rs n r. flush_and_evaluate E es (s, []) =
      (Inr (), s\<lparr>in_rows := in_rows s @ rs, in_rate := r, in_alerts := in_alerts s @ [Batch es], in_tick := n\<rparr>, []) \<and> list_all2 (row_for E) es rs"
proof -
  obtain rs n where rs: "flush_chunks E es 0 (s, []) = (Inr (length es), s\<lparr>in_rows := in_rows s @ rs, in_tick := n\<rparr>, [])" "list_all2 (row_for E) es rs"
    using flush_chunks_run [of E es 0 s] by auto
  then have "flush_and_evaluate E es (s, []) =
      (Inr (), s\<lparr>in_rows := in_rows s @ rs, in_rate := in_rate s + int (length es), in_alerts := in_alerts s @ [Batch es], in_tick := n\<rparr>, [])"
    using assms by (simp add: flush_and_evaluate_def flushBatch_def attempt_def bind_def call_alerts_def)
  with rs(2) show ?thesis by blast
qed

lemma save_total: "\<exists>p r. savePosition E pos (s, []) = (Inr (), s\<lparr>ta_posfile := p, ta_redis := r\<rparr>, [])"
proof -
  have "\<exists>fp. positionFingerprint E pos (s, []) = (Inr fp, s, [])"
    by (cases "pos \<le> 0"; cases "ta_file s"; cases "nat pos \<le> length (the (ta_file s))") (simp_all add: positionFingerprint_def attempt_def)
  then obtain fp where fp: "positionFingerprint E pos (s, []) = (Inr fp, s, [])" by blast
  show ?thesis
  proof (cases "te_shared E")
    case True
    then have "savePosition E pos (s, []) = (Inr (), s\<lparr>ta_posfile := Some (itoa pos @ '':'' @ (case fp of None \<Rightarrow> [] | Some fp \<Rightarrow> fp)),
        ta_redis := Some (marshal_position pos (case fp of None \<Rightarrow> [] | Some fp \<Rightarrow> fp))\<rparr>, [])"
      using fp by (simp add: savePosition_def bind_def attempt_def SaveTailerPosition_def Let_def)
    then show ?thesis by blast
  next
    case False
    then have "savePosition E pos (s, []) = (Inr (), s\<lparr>ta_posfile := Some (itoa pos @ '':'' @ (case fp of None \<Rightarrow> [] | Some fp \<Rightarrow> fp)), ta_redis := ta_redis s\<rparr>, [])"
      using fp by (simp add: savePosition_def bind_def attempt_def Let_def)
    then show ?thesis by blast
  qed
qed

lemma flush_entries_run:
  "\<exists>p r. flush_entries E cur (s, []) = (Inr (), s\<lparr>ta_flushedPos := cur, ta_posfile := p, ta_redis := r, ta_entries := []\<rparr>, [])"
proof -
  obtain p r where "savePosition E (int cur) (s\<lparr>ta_flushedPos := cur\<rparr>, []) = (Inr (), s\<lparr>ta_flushedPos := cur, ta_posfile := p, ta_redis := r\<rparr>, [])"
    using save_total [of E "int cur" "s\<lparr>ta_flushedPos := cur\<rparr>"] by auto
  then have "flush_entries E cur (s, []) = (Inr (), s\<lparr>ta_flushedPos := cur, ta_posfile := p, ta_redis := r, ta_entries := []\<rparr>, [])"
    by (simp add: flush_entries_def bind_def)
  then show ?thesis by blast
qed

section \<open>One pass over the lines\<close>

text \<open>Lines that become an entry.\<close>

definition accepted :: "tail_env \<Rightarrow> string \<Rightarrow> bool" where
  "accepted E line \<longleftrightarrow> line \<noteq> [] \<and> (case prepared_of E [] line of Ready e \<Rightarrow> True | _ \<Rightarrow> False)"

definition partial_write :: "string \<Rightarrow> bool" where
  "partial_write line \<longleftrightarrow> line \<noteq> [] \<and> decode_line [] line = None"

definition entry_for :: "tail_env \<Rightarrow> string \<Rightarrow> IngestEntry \<Rightarrow> bool" where
  "entry_for E line e \<longleftrightarrow> (\<exists>ts. prepared_of E ts line = Ready e)"

lemma decode_any: "decode_line ts line = None \<longleftrightarrow> decode_line [] line = None"
  by (simp add: decode_line_def Let_def split: sum.split)

lemma decode_host: "decode_line ts line = Some (e, m) \<Longrightarrow> \<exists>e' m'. decode_line ts' line = Some (e', m') \<and> ie_Hostname e' = ie_Hostname e"
  by (auto simp: decode_line_def Let_def split: sum.splits if_splits)

lemma prepared_partial: "prepared_of E ts line = PartialWrite \<longleftrightarrow> decode_line [] line = None"
  using decode_any [of ts line] by (auto simp: prepared_of_def Let_def split: option.split)

lemma prepared_ready: "prepared_of E ts line = Ready e \<Longrightarrow> \<exists>e'. prepared_of E ts' line = Ready e'"
proof -
  assume r: "prepared_of E ts line = Ready e"
  then obtain x m where x: "decode_line ts line = Some (x, m)" "ie_Hostname (sanitize_entry x) \<noteq> []"
    by (auto simp: prepared_of_def Let_def split: option.splits if_splits)
  obtain y m' where "decode_line ts' line = Some (y, m')" "ie_Hostname y = ie_Hostname x" using decode_host [OF x(1)] by blast
  then show ?thesis using x(2) by (simp add: prepared_of_def Let_def sanitize_entry_def)
qed

lemma accepted_cases:
  assumes "line \<noteq> []"
  shows "prepared_of E ts line = Ready e \<Longrightarrow> accepted E line \<and> entry_for E line e" "prepared_of E ts line = NoHost \<Longrightarrow> \<not> accepted E line"
    "prepared_of E ts line = PartialWrite \<Longrightarrow> \<not> accepted E line \<and> partial_write line"
proof -
  show "prepared_of E ts line = Ready e \<Longrightarrow> accepted E line \<and> entry_for E line e"
    using prepared_ready [of E ts line e "[]"] assms by (auto simp: accepted_def entry_for_def)
  show "prepared_of E ts line = NoHost \<Longrightarrow> \<not> accepted E line"
    using prepared_ready [of E "[]" line _ ts] by (auto simp: accepted_def split: prepared.splits)
  show "prepared_of E ts line = PartialWrite \<Longrightarrow> \<not> accepted E line \<and> partial_write line"
    using prepared_partial [of E ts line] prepared_partial [of E "[]" line] assms by (auto simp: accepted_def partial_write_def split: prepared.splits)
qed

text \<open>
  The lines read so far are stored and evaluated, in order and each once, except for those still in the batch. \<open>r0\<close>, \<open>b0\<close>: the rows and
  the evaluated entries from before.
\<close>

definition ingested :: "tail_env \<Rightarrow> ingest_row list \<Rightarrow> IngestEntry list \<Rightarrow> string list \<Rightarrow> tail \<Rightarrow> bool" where
  "ingested E r0 b0 lines s \<longleftrightarrow> cache_ok (te_rx E) (in_cache s) \<and>
     (\<exists>flushed rows. list_all2 (entry_for E) (filter (accepted E) lines) (flushed @ ta_entries s) \<and> in_rows s = r0 @ rows \<and>
        list_all2 (row_for E) flushed rows \<and> batches (in_alerts s) = b0 @ flushed)"

lemma ingested_more: "ingested E r0 b0 lines s \<Longrightarrow> \<not> accepted E line \<Longrightarrow> ingested E r0 b0 (lines @ [line]) s"
  by (simp add: ingested_def)

lemma ingested_frame:
  "ingested E r0 b0 lines s \<Longrightarrow> in_rows s' = in_rows s \<Longrightarrow> batches (in_alerts s') = batches (in_alerts s) \<Longrightarrow> cache_ok (te_rx E) (in_cache s') \<Longrightarrow>
   ta_entries s' = ta_entries s \<Longrightarrow> ingested E r0 b0 lines s'"
  by (auto simp: ingested_def)

lemma ingested_entry:
  assumes "ingested E r0 b0 lines s" "accepted E line" "entry_for E line e" "s' = s\<lparr>ta_entries := ta_entries s @ [e]\<rparr>"
  shows "ingested E r0 b0 (lines @ [line]) s'"
  using assms by (auto simp: ingested_def list_all2_appendI simp flip: append_assoc)

lemma ingested_flush:
  assumes "ingested E r0 b0 lines s" "list_all2 (row_for E) (ta_entries s) rs" "in_rows s' = in_rows s @ rs" "in_alerts s' = in_alerts s @ [Batch (ta_entries s)]"
    "in_cache s' = in_cache s" "ta_entries s' = []"
  shows "ingested E r0 b0 lines s'"
proof -
  obtain flushed rows where f: "list_all2 (entry_for E) (filter (accepted E) lines) (flushed @ ta_entries s)" "in_rows s = r0 @ rows" "list_all2 (row_for E) flushed rows"
      "batches (in_alerts s) = b0 @ flushed" using assms(1) by (auto simp: ingested_def)
  have "list_all2 (row_for E) (flushed @ ta_entries s) (rows @ rs)" by (rule list_all2_appendI [OF f(3) assms(2)])
  then show ?thesis using assms f
    by (auto simp: ingested_def intro!: exI [of _ "flushed @ ta_entries s"] exI [of _ "rows @ rs"])
qed

definition same_place :: "tail \<Rightarrow> tail \<Rightarrow> bool" where
  "same_place s s' \<longleftrightarrow> ta_file s' = ta_file s \<and> ta_filePos s' = ta_filePos s \<and> ta_lastCompaction s' = ta_lastCompaction s"

definition quiet :: "tail_env \<Rightarrow> bool" where
  "quiet E \<longleftrightarrow> (\<forall>n. \<not> te_paused E n)"

lemma IsPaused_quiet: "quiet E \<Longrightarrow> IsPaused E (s, fs) = (Inr False, s\<lparr>in_tick := Suc (in_tick s)\<rparr>, fs)"
  by (simp add: IsPaused_def quiet_def)

lemma entry_step_run:
  assumes "quiet E" "ingested E r0 b0 (lines @ [line]) s" "ta_entries s \<noteq> []" "es = ta_entries s"
  shows "\<exists>s'. (\<forall>k :: (tail, nat \<times> bool) sql. bind (Now E) (\<lambda>now. bind (local (\<lambda>s. (ta_lastFlush s, s))) (\<lambda>lastFlush.
      if length es \<ge> batchSize \<or> time_sub now lastFlush \<ge> batchInterval then
        bind (IsPaused E) (\<lambda>paused.
        bind (if paused then ret () else flush_and_evaluate E es) (\<lambda>_.
        bind (flush_entries E cur) (\<lambda>_. bind (local (\<lambda>s. ((), s\<lparr>ta_lastFlush := now\<rparr>))) (\<lambda>_. k))))
      else k)) (s, []) = k (s', [])) \<and> ingested E r0 b0 (lines @ [line]) s' \<and> same_place s s'"
proof -
  let ?s = "s\<lparr>in_tick := Suc (in_tick s)\<rparr>" and ?now = "te_now E (in_tick s)"
  have s: "ingested E r0 b0 (lines @ [line]) ?s" using assms(2) by (auto simp: ingested_def)
  show ?thesis
  proof (cases "length (ta_entries s) \<ge> batchSize \<or> time_sub ?now (ta_lastFlush s) \<ge> batchInterval")
    case True
    let ?s1 = "?s\<lparr>in_tick := Suc (in_tick ?s)\<rparr>"
    obtain rs n r where f: "flush_and_evaluate E (ta_entries s) (?s1, []) =
        (Inr (), ?s1\<lparr>in_rows := in_rows ?s1 @ rs, in_rate := r, in_alerts := in_alerts ?s1 @ [Batch (ta_entries s)], in_tick := n\<rparr>, [])" "list_all2 (row_for E) (ta_entries s) rs"
      using flush_run [OF assms(3), of E ?s1] by blast
    let ?s2 = "?s1\<lparr>in_rows := in_rows ?s1 @ rs, in_rate := r, in_alerts := in_alerts ?s1 @ [Batch (ta_entries s)], in_tick := n\<rparr>"
    obtain p q where g: "flush_entries E cur (?s2, []) = (Inr (), ?s2\<lparr>ta_flushedPos := cur, ta_posfile := p, ta_redis := q, ta_entries := []\<rparr>, [])"
      using flush_entries_run by blast
    let ?s3 = "?s2\<lparr>ta_flushedPos := cur, ta_posfile := p, ta_redis := q, ta_entries := [], ta_lastFlush := ?now\<rparr>"
    have "ingested E r0 b0 (lines @ [line]) ?s3" by (rule ingested_flush [OF assms(2) f(2)]) simp_all
    moreover have "same_place s ?s3" by (simp add: same_place_def)
    ultimately show ?thesis using True f(1) g
      by (intro exI [of _ ?s3]) (simp add: bind_def Now_def IsPaused_quiet [OF assms(1)] assms(4))
  next
    case False
    then show ?thesis using s by (intro exI [of _ ?s]) (simp add: bind_def Now_def same_place_def assms(4))
  qed
qed

lemma scan_run:
  assumes "quiet E" "ingested E r0 b0 lines s"
  shows "\<exists>k sc s'. scan_loop E ts cur scanned (s, []) = (Inr (cur + sum_list (map fst (take k ts)), sc), s', []) \<and> k \<le> length ts \<and>
    ingested E r0 b0 (lines @ map snd (take k ts)) s' \<and> (sc \<longleftrightarrow> scanned \<or> (\<exists>t \<in> set (take k ts). snd t \<noteq> [])) \<and>
    (k < length ts \<longrightarrow> (\<exists>t \<in> set (take k ts). partial_write (snd t))) \<and> same_place s s'"
  using assms(2)
proof (induction ts arbitrary: lines s cur scanned)
  case Nil
  then show ?case by (intro exI [of _ 0] exI [of _ scanned] exI [of _ s]) (simp add: same_place_def)
next
  case (Cons t ts)
  obtain n line where t: "t = (n, line)" by (cases t)
  let ?s = "s\<lparr>in_tick := Suc (in_tick s)\<rparr>"
  have s: "ingested E r0 b0 lines ?s" using Cons.prems by (auto simp: ingested_def)
  have rest: ?case if run: "scan_loop E (t # ts) cur scanned (s, []) = scan_loop E ts (cur + n) sc1 (s1, [])"
    and inv: "ingested E r0 b0 (lines @ [line]) s1" and place: "same_place s s1" and sc1: "sc1 \<longleftrightarrow> scanned \<or> line \<noteq> []" for s1 sc1
  proof -
    obtain k sc s' where ih: "scan_loop E ts (cur + n) sc1 (s1, []) = (Inr (cur + n + sum_list (map fst (take k ts)), sc), s', [])" "k \<le> length ts"
        "ingested E r0 b0 ((lines @ [line]) @ map snd (take k ts)) s'" "sc \<longleftrightarrow> sc1 \<or> (\<exists>t \<in> set (take k ts). snd t \<noteq> [])"
        "k < length ts \<longrightarrow> (\<exists>t \<in> set (take k ts). partial_write (snd t))" "same_place s1 s'"
      using Cons.IH [OF inv] by blast
    show ?thesis
      by (intro exI [of _ "Suc k"] exI [of _ sc] exI [of _ s']) (use ih run place sc1 in \<open>auto simp: t same_place_def add.assoc\<close>)
  qed
  show ?case
  proof (cases "line = []")
    case True
    have "ingested E r0 b0 (lines @ [line]) ?s" using ingested_more [OF s, of line] True by (simp add: accepted_def)
    then show ?thesis using True
      by (intro rest [of scanned ?s]) (simp_all add: t bind_def IsPaused_quiet [OF assms(1)] same_place_def)
  next
    case False
    obtain ts' ms cache m where p: "prepare_line E line (?s, []) = (Inr (prepared_of E ts' line), ?s\<lparr>in_alerts := in_alerts ?s @ ms, in_cache := cache, in_tick := m\<rparr>, [])"
        "batches ms = []" "cache_ok (te_rx E) cache"
      by (rule prepare_run [of E ?s line "[]"]) (use s in \<open>auto simp: ingested_def\<close>)
    let ?s2 = "?s\<lparr>in_alerts := in_alerts ?s @ ms, in_cache := cache, in_tick := m\<rparr>"
    have s2: "ingested E r0 b0 lines ?s2" by (rule ingested_frame [OF s]) (use p in simp_all)
    show ?thesis
    proof (cases "prepared_of E ts' line")
      case PartialWrite
      have "\<not> accepted E line" "partial_write line" using accepted_cases(3) [OF False PartialWrite] by simp_all
      then show ?thesis using False p PartialWrite ingested_more [OF s2]
        by (intro exI [of _ 1] exI [of _ True] exI [of _ ?s2]) (simp add: t bind_def IsPaused_quiet [OF assms(1)] same_place_def)
    next
      case NoHost
      have "\<not> accepted E line" using accepted_cases(2) [OF False NoHost] .
      then show ?thesis using False p NoHost ingested_more [OF s2]
        by (intro rest [of True ?s2]) (simp_all add: t bind_def IsPaused_quiet [OF assms(1)] same_place_def)
    next
      case (Ready e)
      let ?s3 = "s\<lparr>in_alerts := in_alerts s @ ms, in_cache := cache, in_tick := m, ta_entries := ta_entries s @ [e]\<rparr>"
      have s3: "ingested E r0 b0 (lines @ [line]) ?s3" by (rule ingested_entry [OF s2]) (use accepted_cases(1) [OF False Ready] in auto)
      obtain s4 where s4: "\<And>k :: (tail, nat \<times> bool) sql. bind (Now E) (\<lambda>now. bind (local (\<lambda>s. (ta_lastFlush s, s))) (\<lambda>lastFlush.
          if length (ta_entries s @ [e]) \<ge> batchSize \<or> time_sub now lastFlush \<ge> batchInterval then
            bind (IsPaused E) (\<lambda>paused.
            bind (if paused then ret () else flush_and_evaluate E (ta_entries s @ [e])) (\<lambda>_.
            bind (flush_entries E (cur + n)) (\<lambda>_. bind (local (\<lambda>s. ((), s\<lparr>ta_lastFlush := now\<rparr>))) (\<lambda>_. k))))
          else k)) (?s3, []) = k (s4, [])" "ingested E r0 b0 (lines @ [line]) s4" "same_place ?s3 s4"
        using entry_step_run [OF assms(1) s3, of "ta_entries s @ [e]" "cur + n"] by auto
      have "scan_loop E (t # ts) cur scanned (s, []) = scan_loop E ts (cur + n) True (s4, [])"
        using False p(1) Ready s4(1) [of "scan_loop E ts (cur + n) True"] by (simp add: t bind_def [of "IsPaused E"] IsPaused_quiet [OF assms(1)] bind_def [of "prepare_line E line"] bind_def [of "local f" for f])
      then show ?thesis by (rule rest [OF _ s4(2)]) (use s4(3) False in \<open>simp_all add: same_place_def\<close>)
    qed
  qed
qed

section \<open>Passes\<close>

definition at_line_start :: "string \<Rightarrow> nat \<Rightarrow> bool" where
  "at_line_start file pos \<longleftrightarrow> pos \<le> length file \<and> (pos = 0 \<or> file ! (pos - 1) = newline)"

lemma backseek_nop:
  assumes "at_line_start file (ta_filePos s)"
  shows "backseek file (s, []) = (Inr (), s, [])"
  using assms by (auto simp: backseek_def bind_def attempt_def byte_before_def at_line_start_def)

lemma final_flush_run:
  assumes "quiet E" "ingested E r0 b0 lines s"
  shows "\<exists>s'. (if ta_entries s = [] then ret () else bind (IsPaused E) (\<lambda>paused. if paused then ret ()
      else bind (flush_and_evaluate E (ta_entries s)) (\<lambda>_. flush_entries E cur))) (s, []) = (Inr (), s', []) \<and>
    ingested E r0 b0 lines s' \<and> ta_entries s' = [] \<and> same_place s s'"
proof (cases "ta_entries s = []")
  case True
  then show ?thesis using assms(2) by (simp add: same_place_def)
next
  case False
  let ?s = "s\<lparr>in_tick := Suc (in_tick s)\<rparr>"
  obtain rs n r where f: "flush_and_evaluate E (ta_entries s) (?s, []) =
      (Inr (), ?s\<lparr>in_rows := in_rows ?s @ rs, in_rate := r, in_alerts := in_alerts ?s @ [Batch (ta_entries s)], in_tick := n\<rparr>, [])" "list_all2 (row_for E) (ta_entries s) rs"
    using flush_run [OF False, of E ?s] by blast
  let ?s2 = "?s\<lparr>in_rows := in_rows ?s @ rs, in_rate := r, in_alerts := in_alerts ?s @ [Batch (ta_entries s)], in_tick := n\<rparr>"
  obtain p q where g: "flush_entries E cur (?s2, []) = (Inr (), ?s2\<lparr>ta_flushedPos := cur, ta_posfile := p, ta_redis := q, ta_entries := []\<rparr>, [])"
    using flush_entries_run by blast
  let ?s3 = "?s2\<lparr>ta_flushedPos := cur, ta_posfile := p, ta_redis := q, ta_entries := []\<rparr>"
  have "ingested E r0 b0 lines ?s3" by (rule ingested_flush [OF assms(2) f(2)]) simp_all
  then show ?thesis using False f(1) g by (intro exI [of _ ?s3]) (simp add: bind_def IsPaused_quiet [OF assms(1)] same_place_def)
qed

definition spans :: "string list \<Rightarrow> nat" where
  "spans ls = sum_list (map (\<lambda>l. length l + 1) ls)"

lemma read_pass_run:
  assumes "quiet E" "ta_file s = Some file" "at_line_start (file @ added) (ta_filePos s)" "ingested E r0 b0 lines s"
    and "lines_fit maxLineSize (drop (ta_filePos s) (file @ added))"
  defines "ls \<equiv> complete_lines (drop (ta_filePos s) (file @ added))"
  shows "\<exists>k s'. read_pass E added (s, []) = (Inr (), s', []) \<and> k \<le> length ls \<and> ta_file s' = Some (file @ added) \<and> ingested E r0 b0 (lines @ take k ls) s' \<and>
    ta_entries s' = [] \<and> ta_filePos s' = (if \<exists>l \<in> set (take k ls). l \<noteq> [] then ta_filePos s + spans (take k ls) else ta_filePos s) \<and>
    (k < length ls \<longrightarrow> (\<exists>l \<in> set (take k ls). partial_write l)) \<and> ta_lastCompaction s' = ta_lastCompaction s"
proof -
  let ?s = "s\<lparr>ta_file := Some (file @ added)\<rparr>" and ?ts = "map (\<lambda>l. (length l + 1, l)) ls"
  have s: "ingested E r0 b0 lines ?s" using assms(4) by (auto simp: ingested_def)
  have ts: "scan_tokens maxLineSize (drop (ta_filePos s) (file @ added)) = ?ts" unfolding ls_def by (rule scan_tokens_lines [OF assms(5)])
  obtain k sc s1 where k: "scan_loop E ?ts (ta_filePos s) False (?s, []) = (Inr (ta_filePos s + sum_list (map fst (take k ?ts)), sc), s1, [])" "k \<le> length ?ts"
      "ingested E r0 b0 (lines @ map snd (take k ?ts)) s1" "sc \<longleftrightarrow> False \<or> (\<exists>t \<in> set (take k ?ts). snd t \<noteq> [])"
      "k < length ?ts \<longrightarrow> (\<exists>t \<in> set (take k ?ts). partial_write (snd t))" "same_place ?s s1"
    using scan_run [OF assms(1) s] by blast
  have fsts: "sum_list (map fst (take k ?ts)) = spans (take k ls)" "map snd (take k ?ts) = take k ls" by (simp_all add: spans_def take_map comp_def)
  let ?cur = "ta_filePos s + spans (take k ls)"
  let ?s2 = "if sc then s1\<lparr>ta_filePos := ?cur\<rparr> else s1"
  have s2: "ingested E r0 b0 (lines @ take k ls) ?s2" using k(3) fsts by (auto simp: ingested_def)
  have upd: "(if sc then local (\<lambda>s. ((), s\<lparr>ta_filePos := ?cur\<rparr>)) else ret ()) (s1, []) = (Inr (), ?s2, [])" by simp
  obtain s3 where s3: "(if ta_entries ?s2 = [] then ret () else bind (IsPaused E) (\<lambda>paused. if paused then ret ()
      else bind (flush_and_evaluate E (ta_entries ?s2)) (\<lambda>_. flush_entries E ?cur))) (?s2, []) = (Inr (), s3, [])"
      "ingested E r0 b0 (lines @ take k ls) s3" "ta_entries s3 = []" "same_place ?s2 s3"
    using final_flush_run [OF assms(1) s2, of ?cur] by blast
  have "read_pass E added (s, []) = (Inr (), s3, [])"
    using assms(2) backseek_nop [of "file @ added" ?s] assms(3) ts k(1) fsts(1) upd s3(1) by (simp add: read_pass_def bind_def)
  moreover have "ta_filePos s3 = (if \<exists>l \<in> set (take k ls). l \<noteq> [] then ?cur else ta_filePos s)" "ta_file s3 = Some (file @ added)" "ta_lastCompaction s3 = ta_lastCompaction s"
    using s3(4) k(4,6) fsts(2) by (auto simp: same_place_def take_map split: if_splits)
  ultimately show ?thesis using k(2,5) s3(2,3) by (intro exI [of _ k] exI [of _ s3]) (auto simp: take_map)
qed

section \<open>Runs\<close>

lemma lines_fit_prefix: "lines_fit limit (a @ b) \<Longrightarrow> lines_fit limit a"
proof (induction a rule: file_induct)
  case (rest a)
  have "\<exists>b'. hd (split_on newline (a @ b)) = a @ b'"
    using rest(1) by (induction a) (auto split: list.split)
  moreover have "hd (split_on newline (a @ b)) \<in> set (split_on newline (a @ b))" by simp
  ultimately have "length a < limit" using rest(2) by (force simp: lines_fit_def list_all_iff)
  then show ?case using rest(1) by (simp add: lines_fit_none)
next
  case (line l t)
  then show ?case by (simp add: lines_fit_cut)
qed

lemma lines_fit_suffix: "lines_fit limit (a @ b) \<Longrightarrow> a = [] \<or> last a = newline \<Longrightarrow> lines_fit limit b"
proof (induction a rule: file_induct)
  case (rest a)
  then show ?case using last_in_set [of a] by (cases "a = []") auto
next
  case (line l t)
  then show ?case by (cases "t = []") (auto simp: lines_fit_cut)
qed

lemma start_take: "at_line_start file pos \<Longrightarrow> take pos file = [] \<or> last (take pos file) = newline"
  by (cases "pos = 0 \<or> file = []") (auto simp: at_line_start_def last_conv_nth)

lemma start_append: "at_line_start file pos \<Longrightarrow> at_line_start (file @ added) pos"
  by (auto simp: at_line_start_def nth_append)

lemma fit_drop: "lines_fit limit file \<Longrightarrow> at_line_start file pos \<Longrightarrow> lines_fit limit (drop pos file)"
  using lines_fit_suffix [of limit "take pos file" "drop pos file"] start_take by simp

lemma spans_append: "spans (xs @ ys) = spans xs + spans ys"
  by (simp add: spans_def)

lemma taken_lines:
  "take (spans (take k (complete_lines d))) d = concat (map (\<lambda>l. l @ [newline]) (take k (complete_lines d))) \<and> spans (take k (complete_lines d)) \<le> length d"
proof (induction d arbitrary: k rule: file_induct)
  case (rest d)
  then show ?case by (simp add: complete_Nil spans_def)
next
  case (line l t)
  show ?case
  proof (cases k)
    case (Suc j)
    then show ?thesis using line(1) line(2) [of j] by (simp add: complete_cut spans_def)
  qed (simp add: spans_def)
qed

lemma last_lines: "ls \<noteq> [] \<Longrightarrow> last (concat (map (\<lambda>l. l @ [newline]) ls)) = newline"
  by (induction ls) auto

lemma complete_concat: "\<forall>l \<in> set ls. newline \<notin> set l \<Longrightarrow> complete_lines (concat (map (\<lambda>l. l @ [newline]) ls)) = ls"
  by (induction ls) (simp_all add: complete_Nil complete_cut)

lemma complete_no_newline: "l \<in> set (complete_lines d) \<Longrightarrow> newline \<notin> set l"
  using split_on_parts [of l newline d] by (auto simp: complete_lines_def dest: in_set_butlastD)

lemma read_on:
  fixes k :: nat
  assumes "at_line_start file pos" "p0 \<le> pos" "at_line_start file p0"
  defines "ls \<equiv> take k (complete_lines (drop pos file))"
  shows "at_line_start file (pos + spans ls) \<and> complete_lines (drop p0 (take (pos + spans ls) file)) = complete_lines (drop p0 (take pos file)) @ ls"
proof -
  let ?new = "take (spans ls) (drop pos file)"
  have new: "?new = concat (map (\<lambda>l. l @ [newline]) ls)" "spans ls \<le> length (drop pos file)" using taken_lines [of k "drop pos file"] by (simp_all add: ls_def)
  have nl: "\<forall>l \<in> set ls. newline \<notin> set l" using complete_no_newline by (auto simp: ls_def dest: in_set_takeD)
  have split: "drop p0 (take (pos + spans ls) file) = drop p0 (take pos file) @ ?new" using assms(1,2) by (simp add: take_add at_line_start_def)
  have old: "drop p0 (take pos file) = [] \<or> last (drop p0 (take pos file)) = newline" 
    using start_take [OF assms(1)] by (cases "p0 < length (take pos file)") (auto simp: last_drop)
  have lines: "complete_lines (drop p0 (take (pos + spans ls) file)) = complete_lines (drop p0 (take pos file)) @ ls"
    unfolding split complete_append [OF old] using new(1) complete_concat [OF nl] by simp
  have "at_line_start file (pos + spans ls)"
  proof (cases "ls = []")
    case True
    then show ?thesis using assms(1) by (simp add: spans_def)
  next
    case False
    then have "last ?new = newline" "?new \<noteq> []" unfolding new(1) by (simp_all add: last_lines)
    moreover have "take (pos + spans ls) file = take pos file @ ?new" by (simp add: take_add)
    ultimately have "take (pos + spans ls) file \<noteq> []" "last (take (pos + spans ls) file) = newline" by simp_all
    moreover have "pos + spans ls \<le> length file" using new(2) assms(1) by (auto simp: at_line_start_def)
    ultimately show ?thesis by (auto simp: at_line_start_def last_conv_nth)
  qed
  with lines show ?thesis by blast
qed

lemma read_to_end:
  assumes "at_line_start file pos"
  shows "complete_lines (drop (pos + spans (complete_lines (drop pos file))) file) = []"
proof -
  let ?ls = "complete_lines (drop pos file)" and ?n = "spans (complete_lines (drop pos file))"
  have new: "take ?n (drop pos file) = concat (map (\<lambda>l. l @ [newline]) ?ls)" using taken_lines [of "length ?ls" "drop pos file"] by simp
  have "take ?n (drop pos file) = [] \<or> last (take ?n (drop pos file)) = newline" unfolding new by (cases "?ls = []") (simp_all add: last_lines)
  from complete_append [OF this, of "drop ?n (drop pos file)"]
  have "?ls = complete_lines (take ?n (drop pos file)) @ complete_lines (drop ?n (drop pos file))" unfolding append_take_drop_id .
  moreover have "complete_lines (take ?n (drop pos file)) = ?ls" unfolding new using complete_no_newline by (intro complete_concat) blast
  ultimately show ?thesis by (simp add: add.commute)
qed

definition compacts :: "tail_env \<Rightarrow> tail \<Rightarrow> bool" where
  "compacts E s \<longleftrightarrow> (case ta_file s of
     None \<Rightarrow> False
   | Some file \<Rightarrow> shouldCompact (te_now E (in_tick s)) (ta_lastCompaction s) (length file) \<and> enoughFlushed (length file) (ta_flushedPos s))"

text \<open>A run: others add to the file, and passes that do not compact it and meet no line over the limit.\<close>

inductive tail_run :: "tail_env \<Rightarrow> tail \<Rightarrow> tail \<Rightarrow> bool" for E s0 where
  start: "tail_run E s0 s0"
| append: "tail_run E s0 s \<Longrightarrow> ta_file s = Some file \<Longrightarrow> tail_run E s0 (s\<lparr>ta_file := Some (file @ added)\<rparr>)"
| pass: "tail_run E s0 s \<Longrightarrow> ta_file s = Some file \<Longrightarrow> lines_fit maxLineSize (file @ added) \<Longrightarrow> \<not> compacts E s \<Longrightarrow>
    ingestion_pass E added (s, []) = (Inr (), s', []) \<Longrightarrow> tail_run E s0 s'"

definition tail_inv :: "tail_env \<Rightarrow> tail \<Rightarrow> tail \<Rightarrow> bool" where
  "tail_inv E s0 s \<longleftrightarrow> (\<exists>file. ta_file s = Some file \<and> ta_filePos s0 \<le> ta_filePos s \<and> at_line_start file (ta_filePos s0) \<and> at_line_start file (ta_filePos s) \<and>
     ingested E (in_rows s0) (batches (in_alerts s0)) (complete_lines (drop (ta_filePos s0) (take (ta_filePos s) file))) s \<and> ta_entries s = [])"

lemma tail_invE:
  assumes "tail_inv E s0 s" "ta_file s = Some file"
  shows "ta_filePos s0 \<le> ta_filePos s" and "at_line_start file (ta_filePos s0)" and "at_line_start file (ta_filePos s)" and "ta_entries s = []"
    and "ingested E (in_rows s0) (batches (in_alerts s0)) (complete_lines (drop (ta_filePos s0) (take (ta_filePos s) file))) s"
proof -
  obtain f where f: "ta_file s = Some f \<and> ta_filePos s0 \<le> ta_filePos s \<and> at_line_start f (ta_filePos s0) \<and> at_line_start f (ta_filePos s) \<and>
     ingested E (in_rows s0) (batches (in_alerts s0)) (complete_lines (drop (ta_filePos s0) (take (ta_filePos s) f))) s \<and> ta_entries s = []"
    using assms(1) [unfolded tail_inv_def] by (elim exE)
  have "f = file" using conjunct1 [OF f] assms(2) by simp
  note g = f [unfolded this]
  show "ta_filePos s0 \<le> ta_filePos s" "at_line_start file (ta_filePos s0)" "at_line_start file (ta_filePos s)" "ta_entries s = []"
    "ingested E (in_rows s0) (batches (in_alerts s0)) (complete_lines (drop (ta_filePos s0) (take (ta_filePos s) file))) s"
    by (insert g) (elim conjE, assumption)+
qed

lemma tail_invI:
  assumes "ta_file s = Some file" "ta_filePos s0 \<le> ta_filePos s" "at_line_start file (ta_filePos s0)" "at_line_start file (ta_filePos s)" "ta_entries s = []"
    and "ingested E (in_rows s0) (batches (in_alerts s0)) (complete_lines (drop (ta_filePos s0) (take (ta_filePos s) file))) s"
  shows "tail_inv E s0 s"
  unfolding tail_inv_def using assms by (intro exI [where x = "file"] conjI)

lemma ingested_blank:
  assumes "ingested E r0 b0 (lines @ ls) s" "\<not> (\<exists>l \<in> set ls. l \<noteq> [])"
  shows "ingested E r0 b0 lines s"
proof -
  have "filter (accepted E) ls = []" using assms(2) by (auto simp: filter_empty_conv accepted_def)
  then have "filter (accepted E) (lines @ ls) = filter (accepted E) lines" by simp
  then show ?thesis using assms(1) unfolding ingested_def by metis
qed

lemma pass_reads:
  assumes "quiet E" "tail_inv E s0 s" "\<not> compacts E s" "ta_file s = Some file" "lines_fit maxLineSize (file @ added)"
  defines "ls \<equiv> complete_lines (drop (ta_filePos s) (file @ added))"
  shows "\<exists>k s'. ingestion_pass E added (s, []) = (Inr (), s', []) \<and> k \<le> length ls \<and> ta_file s' = Some (file @ added) \<and>
    ingested E (in_rows s0) (batches (in_alerts s0)) (complete_lines (drop (ta_filePos s0) (take (ta_filePos s) file)) @ take k ls) s' \<and>
    ta_entries s' = [] \<and> ta_filePos s' = (if \<exists>l \<in> set (take k ls). l \<noteq> [] then ta_filePos s + spans (take k ls) else ta_filePos s) \<and>
    (k < length ls \<longrightarrow> (\<exists>l \<in> set (take k ls). partial_write l))"
proof -
  let ?s = "s\<lparr>in_tick := Suc (in_tick s)\<rparr>"
  note inv = tail_invE [OF assms(2,4)]
  note at = start_append [OF inv(3), of added]
  have comp: "compaction E (length file) (s, []) = (Inr (), ?s, [])"
    using assms(3) unfolding compacts_def assms(4) option.case compaction_def by (auto simp: bind_def Now_def)
  have pos: "\<not> ta_filePos s > length file" using inv(3) by (simp add: at_line_start_def)
  have s: "ingested E (in_rows s0) (batches (in_alerts s0)) (complete_lines (drop (ta_filePos s0) (take (ta_filePos s) file))) ?s" using inv(5) unfolding ingested_def by simp
  have st: "ta_filePos ?s = ta_filePos s" "ta_file ?s = Some file" using assms(4) by simp_all
  have pass: "ingestion_pass E added (s, []) = read_pass E added (?s, [])" using assms(4) pos comp by (simp add: ingestion_pass_def bind_def)
  show ?thesis using read_pass_run [OF assms(1) st(2) _ s, of added] at fit_drop [OF assms(5) at] unfolding pass ls_def st(1) by blast
qed

lemma pass_run:
  assumes "quiet E" "tail_inv E s0 s" "\<not> compacts E s" "ta_file s = Some file" "lines_fit maxLineSize (file @ added)"
  shows "\<exists>s'. ingestion_pass E added (s, []) = (Inr (), s', []) \<and> ta_file s' = Some (file @ added) \<and> tail_inv E s0 s' \<and>
    ((\<forall>l \<in> set (complete_lines (drop (ta_filePos s) (file @ added))). \<not> partial_write l) \<longrightarrow>
      filter (accepted E) (complete_lines (drop (ta_filePos s') (file @ added))) = [])"
proof -
  let ?f = "file @ added" and ?p = "ta_filePos s" and ?start = "ta_filePos s0" and ?ls = "complete_lines (drop (ta_filePos s) (file @ added))"
  note inv = tail_invE [OF assms(2,4)]
  note at = start_append [OF inv(3), of added] start_append [OF inv(2), of added]
  obtain k s' where k: "ingestion_pass E added (s, []) = (Inr (), s', [])" "k \<le> length ?ls" "ta_file s' = Some ?f"
      "ingested E (in_rows s0) (batches (in_alerts s0)) (complete_lines (drop ?start (take ?p file)) @ take k ?ls) s'" "ta_entries s' = []"
      "ta_filePos s' = (if \<exists>l \<in> set (take k ?ls). l \<noteq> [] then ?p + spans (take k ?ls) else ?p)"
      "k < length ?ls \<longrightarrow> (\<exists>l \<in> set (take k ?ls). partial_write l)"
    using pass_reads [OF assms] by (elim exE conjE) (rule that)
  have old: "take ?p file = take ?p ?f" using inv(3) by (simp add: at_line_start_def)
  note on = read_on [OF at(1) inv(1) at(2), of k]
  have "tail_inv E s0 s'"
  proof (cases "\<exists>l \<in> set (take k ?ls). l \<noteq> []")
    case True
    then have p: "ta_filePos s' = ?p + spans (take k ?ls)" using k(6) by argo
    show ?thesis
    proof (rule tail_invI [OF k(3) _ at(2)])
      show "ingested E (in_rows s0) (batches (in_alerts s0)) (complete_lines (drop ?start (take (ta_filePos s') ?f))) s'"
        using k(4) unfolding p conjunct2 [OF on] old .
    qed (use p inv(1) on k(5) in simp_all)
  next
    case False
    then have p: "ta_filePos s' = ?p" using k(6) by argo
    show ?thesis
    proof (rule tail_invI [OF k(3) _ at(2)])
      show "ingested E (in_rows s0) (batches (in_alerts s0)) (complete_lines (drop ?start (take (ta_filePos s') ?f))) s'"
        using ingested_blank [OF k(4) False] unfolding p old .
    qed (use p inv(1) at(1) k(5) in simp_all)
  qed
  moreover have "filter (accepted E) (complete_lines (drop (ta_filePos s') ?f)) = []" if "\<forall>l \<in> set ?ls. \<not> partial_write l"
  proof -
    have all: "take k ?ls = ?ls" using k(2,7) that by (metis in_set_takeD le_neq_implies_less take_all order_refl)
    show ?thesis
    proof (cases "\<exists>l \<in> set ?ls. l \<noteq> []")
      case True
      have "ta_filePos s' = ?p + spans ?ls" using k(6) True unfolding all by argo
      then show ?thesis using read_to_end [OF at(1)] by simp
    next
      case False
      have "ta_filePos s' = ?p" using k(6) False unfolding all by argo
      moreover have "filter (accepted E) ?ls = []" using False by (auto simp: filter_empty_conv accepted_def)
      ultimately show ?thesis by simp
    qed
  qed
  ultimately show ?thesis using k(1,3) by blast
qed

lemma run_inv:
  assumes "tail_run E s0 s" "quiet E" "ta_file s0 = Some f0" "at_line_start f0 (ta_filePos s0)" "ta_entries s0 = []" "cache_ok (te_rx E) (in_cache s0)"
  shows "tail_inv E s0 s"
  using assms(1)
proof (induction rule: tail_run.induct)
  case start
  have "complete_lines (drop (ta_filePos s0) (take (ta_filePos s0) f0)) = []" by (simp add: complete_Nil)
  then show ?case by (intro tail_invI [OF assms(3)]) (use assms(4-6) in \<open>simp_all add: ingested_def\<close>)
next
  case (append s f added)
  note inv = tail_invE [OF append.IH append.hyps(2)]
  have old: "take (ta_filePos s) (f @ added) = take (ta_filePos s) f" using inv(3) by (simp add: at_line_start_def)
  have "ingested E (in_rows s0) (batches (in_alerts s0)) (complete_lines (drop (ta_filePos s0) (take (ta_filePos s) (f @ added)))) (s\<lparr>ta_file := Some (f @ added)\<rparr>)"
    using inv(5) unfolding old ingested_def by simp
  then show ?case by (intro tail_invI [of _ "f @ added"]) (use inv start_append [OF inv(2)] start_append [OF inv(3)] in simp_all)
next
  case (pass s f added s')
  then show ?case using pass_run [OF assms(2) pass.IH pass.hyps(4,2,3)] by auto
qed

text \<open>
  Without failures, pauses and compaction, and with lines within the limit of 10 MiB: whatever is appended and however it is cut into passes, the rows added and the entries given to
  the alert engine are those of the lines between the first and the current position that have a host, in order and each once. (C2)
\<close>
theorem tailer_ingests_each_line_once:
  assumes "tail_run E s0 s" "quiet E" "ta_file s0 = Some f0" "at_line_start f0 (ta_filePos s0)" "ta_entries s0 = []" "cache_ok (te_rx E) (in_cache s0)"
    and "ta_file s = Some file"
  shows "\<exists>entries rows. list_all2 (entry_for E) (filter (accepted E) (complete_lines (drop (ta_filePos s0) (take (ta_filePos s) file)))) entries \<and>
    in_rows s = in_rows s0 @ rows \<and> list_all2 (row_for E) entries rows \<and> batches (in_alerts s) = batches (in_alerts s0) @ entries"
proof -
  note inv = tail_invE [OF run_inv [OF assms(1-6)] assms(7)]
  show ?thesis using inv(4,5) unfolding ingested_def by auto
qed

lemma rest_read:
  assumes "tail_inv E s0 s" "ta_file s = Some file" "filter (accepted E) (complete_lines (drop (ta_filePos s) file)) = []"
  shows "filter (accepted E) (complete_lines (drop (ta_filePos s0) (take (ta_filePos s) file))) = filter (accepted E) (complete_lines (drop (ta_filePos s0) file))"
proof -
  let ?p = "ta_filePos s" and ?start = "ta_filePos s0"
  note inv = tail_invE [OF assms(1,2)]
  have "?start \<le> length (take ?p file)" using inv(1,3) by (simp add: at_line_start_def)
  then have split: "drop ?start file = drop ?start (take ?p file) @ drop ?p file" by (metis append_take_drop_id drop_append diff_is_0_eq drop_0)
  have "drop ?start (take ?p file) = [] \<or> last (drop ?start (take ?p file)) = newline"
    using start_take [OF inv(3)] by (cases "?start < length (take ?p file)") (auto simp: last_drop)
  from complete_append [OF this, of "drop ?p file"] show ?thesis using assms(3) unfolding split by simp
qed

text \<open>
  After such a run, one more pass in which no statement fails, ingestion is not paused and no compaction is due, over lines within the limit of which none that is still
  unread is a partial write, ends and leaves no complete line of the file behind: each one that has a host is stored and evaluated. (C5)
\<close>
theorem tailer_catches_up:
  assumes "tail_run E s0 s" "quiet E" "ta_file s0 = Some f0" "at_line_start f0 (ta_filePos s0)" "ta_entries s0 = []" "cache_ok (te_rx E) (in_cache s0)"
    and "ta_file s = Some file" "lines_fit maxLineSize (file @ added)" "\<not> compacts E s"
    and "\<forall>l \<in> set (complete_lines (drop (ta_filePos s) (file @ added))). \<not> partial_write l"
  shows "\<exists>s' entries rows. ingestion_pass E added (s, []) = (Inr (), s', []) \<and> ta_file s' = Some (file @ added) \<and>
    list_all2 (entry_for E) (filter (accepted E) (complete_lines (drop (ta_filePos s0) (file @ added)))) entries \<and>
    in_rows s' = in_rows s0 @ rows \<and> list_all2 (row_for E) entries rows \<and> batches (in_alerts s') = batches (in_alerts s0) @ entries"
proof -
  obtain s' where s': "ingestion_pass E added (s, []) = (Inr (), s', [])" "ta_file s' = Some (file @ added)" "tail_inv E s0 s'"
      "filter (accepted E) (complete_lines (drop (ta_filePos s') (file @ added))) = []"
    using pass_run [OF assms(2) run_inv [OF assms(1-6)] assms(9,7,8)] assms(10) by blast
  note inv = tail_invE [OF s'(3,2)]
  show ?thesis using s'(1,2) inv(4,5) unfolding ingested_def rest_read [OF s'(3,2,4)] by auto
qed

definition demo_text :: string where
  "demo_text = json_object [(''hostname'', json_string ''h'')]"

definition demo_start :: tail where
  "demo_start = demo_tail\<lparr>ta_file := Some []\<rparr>"

lemma demo_text_chars: "demo_text = CHR ''{'' # tl demo_text" "newline \<notin> set demo_text" "length demo_text < maxLineSize" "length demo_text = 16"
proof -
  have "json_body ''hostname'' = ''hostname''" "json_body ''h'' = ''h''" by (simp_all add: json_body.simps json_escape_def bslash_def Let_def)
  then have t: "demo_text = ''{'' @ [CHR 0x22] @ ''hostname'' @ [CHR 0x22] @ '':'' @ [CHR 0x22] @ ''h'' @ [CHR 0x22] @ ''}''"
    by (simp add: demo_text_def json_object_def json_string_def)
  show "demo_text = CHR ''{'' # tl demo_text" "newline \<notin> set demo_text" "length demo_text < maxLineSize" "length demo_text = 16"
    unfolding t by (simp_all add: newline_def maxLineSize_def of_char_eq_iff [symmetric, where 'a = nat])
qed

lemma demo_text_ready: "accepted demo_tail_env demo_text" "\<not> partial_write demo_text"
proof -
  have d: "decode_line [] demo_text \<noteq> None \<and> (\<forall>e m. decode_line [] demo_text = Some (e, m) \<longrightarrow> ie_Hostname e = ''h'')"
    by (simp add: demo_text_def decode_line_def unmarshal_entry_def demo_line UnmarshalJSON_def members_of_def raw_names_def to_lower_def lower_char_def entry_of_def Let_def)
  then obtain e m where "decode_line [] demo_text = Some (e, m)" "ie_Hostname e = ''h''" by auto
  moreover have "sanitizeForPostgres ''h'' = ''h''"
    by (rule sanitize_id) (simp add: storable_def NUL_def valid_utf8.simps rune_len_def utf8_first_def of_char_eq_iff [symmetric, where 'a = nat])
  ultimately show "accepted demo_tail_env demo_text" using demo_text_chars(1) by (cases demo_text) (auto simp: accepted_def prepared_of_def sanitize_entry_def Let_def)
  show "\<not> partial_write demo_text" using d by (simp add: partial_write_def)
qed

lemma demo_lines: "complete_lines (demo_text @ [newline]) = [demo_text]" "lines_fit maxLineSize (demo_text @ [newline])"
  using demo_text_chars(2,3) by (simp_all add: complete_cut complete_Nil lines_fit_cut lines_fit_none)

lemma demo_start_ok:
  "quiet demo_tail_env" "ta_file demo_start = Some []" "at_line_start [] (ta_filePos demo_start)" "ta_entries demo_start = []" "cache_ok (te_rx demo_tail_env) (in_cache demo_start)"
  "\<not> compacts demo_tail_env demo_start" "ta_filePos demo_start = 0" "in_rows demo_start = []"
  by (simp_all add: quiet_def demo_tail_env_def demo_start_def demo_tail_def at_line_start_def cache_ok_def compacts_def shouldCompact_def time_sub_def compactionInterval_def maxFileSize_def enoughFlushed_def)

theorem tailer_catches_up_witness:
  "\<exists>s' row. ingestion_pass demo_tail_env (demo_text @ [newline]) (demo_start, []) = (Inr (), s', []) \<and> in_rows s' = [row]"
proof -
  have "\<exists>s' entries rows. ingestion_pass demo_tail_env (demo_text @ [newline]) (demo_start, []) = (Inr (), s', []) \<and> ta_file s' = Some ([] @ demo_text @ [newline]) \<and>
    list_all2 (entry_for demo_tail_env) (filter (accepted demo_tail_env) (complete_lines (drop (ta_filePos demo_start) ([] @ demo_text @ [newline])))) entries \<and>
    in_rows s' = in_rows demo_start @ rows \<and> list_all2 (row_for demo_tail_env) entries rows \<and> batches (in_alerts s') = batches (in_alerts demo_start) @ entries"
    by (rule tailer_catches_up [OF start demo_start_ok(1-5)]) (use demo_start_ok demo_lines demo_text_ready in simp_all)
  then show ?thesis using demo_lines(1) demo_text_ready(1) demo_start_ok(7,8) by (auto simp: list_all2_Cons1)
qed

theorem tailer_ingests_each_line_once_witness:
  "\<exists>s row. tail_run demo_tail_env demo_start s \<and> ta_filePos s > 0 \<and> in_rows s = [row]"
proof -
  note ok = demo_start_ok
  have inv: "tail_inv demo_tail_env demo_start demo_start" by (rule run_inv [OF start ok(1-5)])
  obtain s' where s': "ingestion_pass demo_tail_env (demo_text @ [newline]) (demo_start, []) = (Inr (), s', [])" "ta_file s' = Some (demo_text @ [newline])"
      "tail_inv demo_tail_env demo_start s'" "filter (accepted demo_tail_env) (complete_lines (drop (ta_filePos s') (demo_text @ [newline]))) = []"
    using pass_run [OF ok(1) inv ok(6,2), of "demo_text @ [newline]"] demo_lines demo_text_ready(2) ok(7) by auto
  have run: "tail_run demo_tail_env demo_start s'" by (rule pass [OF start ok(2) _ ok(6) s'(1)]) (use demo_lines in simp)
  have "ta_filePos s' > 0" using s'(4) demo_lines(1) demo_text_ready(1) by (cases "ta_filePos s' = 0") auto
  moreover have "\<exists>row. in_rows s' = [row]"
    using tailer_ingests_each_line_once [OF run ok(1-5) s'(2)] unfolding rest_read [OF s'(3,2,4)] using demo_lines(1) demo_text_ready(1) ok(7,8) by (auto simp: list_all2_Cons1)
  ultimately show ?thesis using run by blast
qed

section \<open>Where lines are lost or stored twice\<close>

lemma row_times_any: "\<exists>rs n. row_times E es (s, fs) = (Inr rs, s\<lparr>in_tick := n\<rparr>, fs)"
  using row_times_run by blast

text \<open>
  The answers to the statements of a flush during an outage: of each chunk the insertion of all rows fails, and then either the preparation of the
  statement for single rows, or every execution of it.
\<close>

inductive refused :: "nat \<Rightarrow> bool list \<Rightarrow> bool" where
  none: "refused 0 []"
| prepare: "0 < n \<Longrightarrow> refused (n - maxInsertRows) fs \<Longrightarrow> refused n (True # True # fs)"
| rows: "0 < n \<Longrightarrow> refused (n - maxInsertRows) fs \<Longrightarrow> refused n (True # False # replicate (min n maxInsertRows) True @ fs)"

lemma chunk_refused: "\<exists>n. insertChunk E es (s, True # fs) = (Inl SqlErr, s\<lparr>in_tick := n\<rparr>, fs)"
proof -
  obtain rs n where "row_times E es (s, True # fs) = (Inr rs, s\<lparr>in_tick := n\<rparr>, True # fs)" using row_times_any by blast
  then show ?thesis by (intro exI [of _ n]) (simp add: insertChunk_def bind_def insert_rows_def stmt_def)
qed

lemma each_refused: "\<exists>n. insert_each E es k (s, replicate (length es) True @ fs) = (Inr k, s\<lparr>in_tick := n\<rparr>, fs)"
proof (induction es arbitrary: s)
  case Nil
  show ?case by (intro exI [of _ "in_tick s"]) simp
next
  case (Cons e es)
  obtain n where "insertChunk E [e] (s, True # replicate (length es) True @ fs) = (Inl SqlErr, s\<lparr>in_tick := n\<rparr>, replicate (length es) True @ fs)"
    using chunk_refused by blast
  with Cons [of "s\<lparr>in_tick := n\<rparr>"] show ?case by (simp add: attempt_def)
qed

lemma chunks_refused:
  assumes "refused (length es) fs"
  shows "\<exists>n. flush_chunks E es k (s, fs) = (Inr k, s\<lparr>in_tick := n\<rparr>, [])"
  using assms
proof (induction "length es" fs arbitrary: es s rule: refused.induct)
  case none
  then show ?case by (intro exI [of _ "in_tick s"]) (simp add: flush_chunks.simps)
next
  case (prepare fs)
  let ?c = "take maxInsertRows es"
  obtain n where "insertChunk E ?c (s, True # True # fs) = (Inl SqlErr, s\<lparr>in_tick := n\<rparr>, True # fs)" using chunk_refused by blast
  moreover have "es \<noteq> []" using prepare.hyps(1) by auto
  ultimately have "flush_chunks E es k (s, True # True # fs) = flush_chunks E (drop maxInsertRows es) k (s\<lparr>in_tick := n\<rparr>, fs)"
    by (subst flush_chunks.simps) (simp add: attempt_def bind_def insertRowsIndividually_def query_def stmt_def)
  then show ?case using prepare.hyps(3) [of "drop maxInsertRows es" "s\<lparr>in_tick := n\<rparr>"] by simp
next
  case (rows fs)
  let ?c = "take maxInsertRows es"
  let ?fs = "replicate (length ?c) True @ fs"
  obtain n where "insertChunk E ?c (s, True # False # ?fs) = (Inl SqlErr, s\<lparr>in_tick := n\<rparr>, False # ?fs)" using chunk_refused by blast
  moreover obtain m where "insert_each E ?c 0 (s\<lparr>in_tick := n\<rparr>, ?fs) = (Inr 0, s\<lparr>in_tick := m\<rparr>, fs)"
    using each_refused [of E ?c 0 "s\<lparr>in_tick := n\<rparr>" fs] by auto
  moreover have "es \<noteq> []" using rows.hyps(1) by auto
  ultimately have "flush_chunks E es k (s, True # False # ?fs) = flush_chunks E (drop maxInsertRows es) k (s\<lparr>in_tick := m\<rparr>, fs)"
    by (subst flush_chunks.simps) (simp add: attempt_def bind_def insertRowsIndividually_def query_def stmt_def del: length_take)
  moreover have "length ?c = min (length es) maxInsertRows" by simp
  ultimately show ?case using rows.hyps(3) [of "drop maxInsertRows es" "s\<lparr>in_tick := m\<rparr>"] by (simp del: length_take)
qed

lemma flush_outage:
  assumes "es \<noteq> []" "refused (length es) fs"
  shows "\<exists>n. flush_and_evaluate E es (s, fs) = (Inr (), s\<lparr>in_alerts := in_alerts s @ [Batch es], in_tick := n\<rparr>, [])"
proof -
  obtain n where "flush_chunks E es 0 (s, fs) = (Inr 0, s\<lparr>in_tick := n\<rparr>, [])" using chunks_refused [OF assms(2)] by blast
  then show ?thesis using assms(1) by (intro exI [of _ n]) (simp add: flush_and_evaluate_def flushBatch_def attempt_def bind_def call_alerts_def)
qed

text \<open>
  A batch of any size the database takes neither as a whole nor row by row (the statement for single rows cannot be prepared, or every one of its executions
  fails) is not stored; yet the position after it is saved, in the position file and with Redis there too, the batch is emptied
  and the alert rules are evaluated for it: the lines are lost. (C37)
\<close>
theorem outage_loses_batch:
  assumes "ta_entries s \<noteq> []" "refused (length (ta_entries s)) fs" "ta_file s = Some file" "cur \<le> length file"
  shows "\<exists>s' fp. bind (flush_and_evaluate E (ta_entries s)) (\<lambda>_. flush_entries E cur) (s, fs) = (Inr (), s', []) \<and>
    in_rows s' = in_rows s \<and> ta_entries s' = [] \<and> ta_flushedPos s' = cur \<and> in_alerts s' = in_alerts s @ [Batch (ta_entries s)] \<and>
    fp = (if cur = 0 then [] else te_hash E (fingerprint_bytes file cur)) \<and>
    ta_posfile s' = Some (itoa (int cur) @ '':'' @ fp) \<and> (te_shared E \<longrightarrow> ta_redis s' = Some (marshal_position (int cur) fp))"
proof -
  obtain n where n: "flush_and_evaluate E (ta_entries s) (s, fs) = (Inr (), s\<lparr>in_alerts := in_alerts s @ [Batch (ta_entries s)], in_tick := n\<rparr>, [])"
    using flush_outage [OF assms(1,2)] by blast
  let ?s = "s\<lparr>in_alerts := in_alerts s @ [Batch (ta_entries s)], in_tick := n, ta_flushedPos := cur\<rparr>"
  have "ta_file ?s = Some file" using assms(3) by simp
  from save_run [OF this assms(4), of E] show ?thesis
    by (simp add: bind_def n flush_entries_def Let_def)
qed

definition demo_entry :: IngestEntry where
  "demo_entry = \<lparr>ie_Timestamp = [], ie_Hostname = ''h'', ie_FromHostIP = [], ie_AppName = [], ie_ProcessID = [], ie_MsgID = [], ie_Severity = [], ie_Facility = [],
     ie_Message = [], ie_RawMessage = [], ie_ViaRelay = [], ie_ParsedFields = [], ie_MatchedParsers = []\<rparr>"

theorem outage_loses_batch_witness:
  "\<exists>s'. bind (flush_and_evaluate demo_tail_env [demo_entry, demo_entry]) (\<lambda>_. flush_entries demo_tail_env 3)
     (demo_tail\<lparr>ta_entries := [demo_entry, demo_entry]\<rparr>, [True, False, True, True]) = (Inr (), s', []) \<and> in_rows s' = [] \<and> ta_flushedPos s' = 3"
proof -
  have "refused 2 (True # False # replicate (min 2 maxInsertRows) True @ [])" by (rule refused.rows) (simp_all add: maxInsertRows_def refused.none)
  then have "refused 2 [True, False, True, True]" by (simp add: maxInsertRows_def numeral_2_eq_2)
  then show ?thesis using outage_loses_batch [of "demo_tail\<lparr>ta_entries := [demo_entry, demo_entry]\<rparr>" "[True, False, True, True]" "''ab'' @ [newline]" 3 demo_tail_env]
    by (auto simp: demo_tail_def numeral_2_eq_2)
qed

lemma compaction_at_end:
  assumes "ta_file s = Some file" "compacts E s" "ta_flushedPos s = length file"
  shows "\<exists>p r n now. compaction E (length file) (s, []) =
    (Inr (), s\<lparr>ta_filePos := 0, ta_flushedPos := 0, ta_posfile := p, ta_redis := r, in_tick := n, ta_lastCompaction := now\<rparr>, [])"
proof -
  let ?s = "s\<lparr>in_tick := Suc (in_tick s), ta_filePos := 0, ta_flushedPos := 0\<rparr>"
  obtain p r where "savePosition E 0 (?s, []) = (Inr (), ?s\<lparr>ta_posfile := p, ta_redis := r\<rparr>, [])" using save_total by blast
  then show ?thesis using assms
    by (intro exI [of _ p] exI [of _ r] exI [of _ "Suc (Suc (in_tick s))"] exI [of _ "te_now E (Suc (in_tick s))"])
      (simp add: compaction_def compacts_def compactFile_def set_pos_def Now_def bind_def)
qed

text \<open>
  When the tailer has stored everything and a compaction is due, the file stays as it is, but reading starts over at its beginning: every
  line is stored and evaluated once more. (C38)
\<close>
theorem caught_up_compaction_repeats_file:
  assumes "quiet E" "ta_file s = Some file" "ta_filePos s = length file" "ta_flushedPos s = length file" "compacts E s" "ta_entries s = []"
    and "cache_ok (te_rx E) (in_cache s)" "lines_fit maxLineSize file" "\<forall>l \<in> set (complete_lines file). \<not> partial_write l"
  shows "\<exists>s' entries rows. ingestion_pass E [] (s, []) = (Inr (), s', []) \<and> ta_file s' = Some file \<and>
    list_all2 (entry_for E) (filter (accepted E) (complete_lines file)) entries \<and>
    in_rows s' = in_rows s @ rows \<and> list_all2 (row_for E) entries rows \<and> batches (in_alerts s') = batches (in_alerts s) @ entries"
proof -
  obtain p r n now where c: "compaction E (length file) (s, []) =
    (Inr (), s\<lparr>ta_filePos := 0, ta_flushedPos := 0, ta_posfile := p, ta_redis := r, in_tick := n, ta_lastCompaction := now\<rparr>, [])"
    using compaction_at_end [OF assms(2,5,4)] by blast
  let ?s = "s\<lparr>ta_filePos := 0, ta_flushedPos := 0, ta_posfile := p, ta_redis := r, in_tick := n, ta_lastCompaction := now\<rparr>"
  have pass: "ingestion_pass E [] (s, []) = read_pass E [] (?s, [])" using assms(2,3) c by (simp add: ingestion_pass_def bind_def)
  have s: "ingested E (in_rows s) (batches (in_alerts s)) [] ?s" using assms(6,7) by (simp add: ingested_def)
  have st: "ta_file ?s = Some file" "ta_filePos ?s = 0" using assms(2) by simp_all
  obtain k s' where k: "read_pass E [] (?s, []) = (Inr (), s', [])" "k \<le> length (complete_lines file)" "ta_file s' = Some file" "ta_entries s' = []"
      "ingested E (in_rows s) (batches (in_alerts s)) (take k (complete_lines file)) s'"
      "k < length (complete_lines file) \<longrightarrow> (\<exists>l \<in> set (take k (complete_lines file)). partial_write l)"
    using read_pass_run [OF assms(1) st(1) _ s, of "[]"] assms(8) unfolding st(2) by (auto simp: at_line_start_def)
  have "take k (complete_lines file) = complete_lines file" using k(2,6) assms(9) by (metis in_set_takeD le_neq_implies_less take_all order_refl)
  then show ?thesis using k(1,3-5) unfolding pass ingested_def by auto
qed

theorem caught_up_compaction_repeats_file_witness:
  "\<exists>s s'. in_rows s = [] \<and> ta_filePos s = length demo_text + 1 \<and> ta_file s = Some (demo_text @ [newline]) \<and>
     ingestion_pass demo_tail_env [] (s, []) = (Inr (), s', []) \<and> length (in_rows s') = 1"
proof -
  let ?f = "demo_text @ [newline]"
  let ?s = "demo_start\<lparr>ta_file := Some ?f, ta_filePos := length ?f, ta_flushedPos := length ?f, ta_lastCompaction := - 2 * compactionInterval\<rparr>"
  note ok = demo_start_ok
  have c: "compacts demo_tail_env ?s"
    by (simp add: compacts_def shouldCompact_def enoughFlushed_def demo_tail_env_def time_sub_def compactionInterval_def demo_text_chars(4) Minute_def Second_def)
  have "\<exists>s' entries rows. ingestion_pass demo_tail_env [] (?s, []) = (Inr (), s', []) \<and> ta_file s' = Some ?f \<and>
    list_all2 (entry_for demo_tail_env) (filter (accepted demo_tail_env) (complete_lines ?f)) entries \<and>
    in_rows s' = in_rows ?s @ rows \<and> list_all2 (row_for demo_tail_env) entries rows \<and> batches (in_alerts s') = batches (in_alerts ?s) @ entries"
    by (rule caught_up_compaction_repeats_file [OF ok(1) _ _ _ c]) (use ok demo_lines demo_text_ready in simp_all)
  then obtain s' where "ingestion_pass demo_tail_env [] (?s, []) = (Inr (), s', [])" "length (in_rows s') = 1"
    using demo_lines(1) demo_text_ready(1) ok(8) by (auto simp: list_all2_Cons1)
  then show ?thesis by (intro exI [of _ ?s] exI [of _ s']) (simp add: ok(8))
qed

end
