(* ===== verification/Pipeline.thy ===== *)
theory Pipeline
  imports Tailer FlushTracker
begin

text \<open>
  The tailer of several replicas: the leader's \<^verbatim>\<open>FileReader\<close> (\<^verbatim>\<open>tailer/reader.go\<close>) numbers the lines and publishes them, the workers of
  all replicas (\<^verbatim>\<open>tailer/worker.go\<close>) store them and report the numbers to the flush tracker, and the leader saves the position
  the tracker has reached. Also the purge of the queue and the preparation of an update (\<^verbatim>\<open>tailer/maintenance.go\<close>,
  \<^verbatim>\<open>sharedstate/maintenance.go\<close>). The broker is not part of the repository: \<open>rd_sent\<close> are the messages it took, and a worker may be
  given any of them, in any order and more than once.
\<close>

section \<open>Messages\<close>

definition marshal_queue_entry :: "QueueEntry \<Rightarrow> string" where
  "marshal_queue_entry qe =
     json_object [(''seq'', itoa (qe_Seq qe)), (''next_pos'', itoa (qe_NextPos qe)), (''line'', json_string (qe_Line qe))]"

definition unmarshal_queue_entry :: "string \<Rightarrow> QueueEntry option" where
  "unmarshal_queue_entry body =
     (case members_of (json_parse body) of
        None \<Rightarrow> None
      | Some ms \<Rightarrow>
          (case (int_field ''seq'' ms 0, int_field ''next_pos'' ms 0, str_field ''line'' ms []) of
             (Some seq, Some pos, Some line) \<Rightarrow> Some \<lparr>qe_Seq = seq, qe_NextPos = pos, qe_Line = line\<rparr>
           | _ \<Rightarrow> None))"

text \<open>The lenient decoding that needs the two numbers only.\<close>

definition unmarshal_partial :: "string \<Rightarrow> (int \<times> int) option" where
  "unmarshal_partial body =
     (case members_of (json_parse body) of
        None \<Rightarrow> None
      | Some ms \<Rightarrow>
          (case (int_field ''seq'' ms 0, int_field ''next_pos'' ms 0) of (Some seq, Some pos) \<Rightarrow> Some (seq, pos) | _ \<Rightarrow> None))"

section \<open>The reader\<close>

text \<open>
  \<open>rd_tail\<close>: the file, the saved position and the reader's own variables. \<open>rd_seq\<close>: the last number of the process's flush tracker.
  \<open>rd_control\<close>: the calls of the ingestion controller, \<^const>\<open>True\<close> for \<^verbatim>\<open>Pause\<close>.
\<close>

datatype maintenance_status = MaintenanceIdle | MaintenancePreparing | MaintenanceCompleted

record 'w reader =
  rd_tail :: tail
  rd_world :: 'w
  rd_seq :: int
  rd_sent :: "string list"
  rd_control :: "bool list"
  rd_status :: maintenance_status

definition on_tail :: "(tail, 'a) sql \<Rightarrow> ('w reader, 'a) sql" where
  "on_tail m s = (case m (rd_tail (fst s), snd s) of (r, t, fs) \<Rightarrow> (r, (fst s)\<lparr>rd_tail := t\<rparr>, fs))"

text \<open>
  The call of \<^verbatim>\<open>Pause\<close> or \<^verbatim>\<open>Resume\<close>. What the controller makes of it is \<open>setPaused\<close> of \<open>Control\<close>, whose write to Redis can fail.
\<close>

definition tell :: "bool \<Rightarrow> ('w reader, unit) sql" where
  "tell pause = local (\<lambda>s. ((), s\<lparr>rd_control := rd_control s @ [pause]\<rparr>))"

definition next_seq :: "('w reader, int) sql" where
  "next_seq = local (\<lambda>s. case NextSeq (rd_seq s) of (n, seq) \<Rightarrow> (n, s\<lparr>rd_seq := seq\<rparr>))"

text \<open>A publish fails before the broker has taken the message, or after: the message may be delivered although the reader is told of an error.\<close>

definition Publish :: "string \<Rightarrow> ('w reader, unit) sql" where
  "Publish data = bind (stmt (\<lambda>s. Inr ((), s\<lparr>rd_sent := rd_sent s @ [data]\<rparr>))) (\<lambda>_. query (\<lambda>_. Inr ()))"

definition Purge :: "('w reader, unit) sql" where
  "Purge = stmt (\<lambda>s. Inr ((), s\<lparr>rd_sent := []\<rparr>))"

definition reset_tracker :: "'w redis_ops \<Rightarrow> ('w reader, unit) sql" where
  "reset_tracker R = local (\<lambda>s. case Reset R (rd_seq s, rd_world s) of (seq, w) \<Rightarrow> ((), s\<lparr>rd_seq := seq, rd_world := w\<rparr>))"

definition flushed_pos :: "'w redis_ops \<Rightarrow> ('w reader, int) sql" where
  "flushed_pos R = local (\<lambda>s. case GetFlushedPos R (rd_world s) of ((seq, pos), w) \<Rightarrow> (pos, s\<lparr>rd_world := w\<rparr>))"

text \<open>Where the pipeline is; the result is whether it succeeded.\<close>

definition PurgeTailerQueue :: "'w redis_ops \<Rightarrow> ('w reader, bool) sql" where
  "PurgeTailerQueue R = attempt Purge (\<lambda>r. case r of Inl err \<Rightarrow> ret False | Inr _ \<Rightarrow> bind (reset_tracker R) (\<lambda>_. ret True))"

text \<open>
  \<open>drained\<close>: what \<^verbatim>\<open>waitForDrain\<close> returns. A pass that is given up is an error. The reader does not keep a flushed position of its own.
\<close>

definition reader_compaction :: "tail_env \<Rightarrow> 'w redis_ops \<Rightarrow> bool \<Rightarrow> nat \<Rightarrow> ('w reader, unit) sql" where
  "reader_compaction E R drained fileSize =
     bind (flushed_pos R) (\<lambda>flushedPos.
     bind (on_tail (Now E)) (\<lambda>now.
     bind (local (\<lambda>s. (ta_lastCompaction (rd_tail s), s))) (\<lambda>lastCompaction.
     if shouldCompact now lastCompaction fileSize \<and> enoughFlushed fileSize (nat flushedPos) then
       bind (tell True) (\<lambda>_.
       if \<not> drained then bind (tell False) (\<lambda>_. throw SqlErr)
       else
         bind (PurgeTailerQueue R) (\<lambda>_.
         attempt (on_tail (compactFile (nat flushedPos))) (\<lambda>r. case r of
           Inl err \<Rightarrow> bind (tell False) (\<lambda>_. throw SqlErr)
         | Inr _ \<Rightarrow>
             bind (on_tail (local (\<lambda>s. ((), s\<lparr>ta_filePos := 0\<rparr>)))) (\<lambda>_.
             bind (on_tail (savePosition E 0)) (\<lambda>_.
             bind (on_tail (Now E)) (\<lambda>now.
             bind (on_tail (local (\<lambda>s. ((), s\<lparr>ta_lastCompaction := now\<rparr>)))) (\<lambda>_.
             tell False)))))))
     else ret ())))"

text \<open>
  \<open>published\<close>: how many lines this pass has tried to publish. A full queue only delays the reader. The position moves when a publish
  has succeeded; a number given out for a publish that fails is not used again.
\<close>

fun publish_loop :: "tail_env \<Rightarrow> (nat \<times> string) list \<Rightarrow> nat \<Rightarrow> nat \<Rightarrow> ('w reader, unit) sql" where
  "publish_loop E [] cur published = ret ()"
| "publish_loop E ((n, line) # ls) cur published =
     bind (on_tail (IsPaused E)) (\<lambda>paused.
     if paused then ret ()
     else if line = [] then publish_loop E ls (cur + n) published
     else
       bind (if published mod 100 = 0 then on_tail (IsPaused E) else ret False) (\<lambda>paused.
       if paused then ret ()
       else
         bind next_seq (\<lambda>seq.
         attempt (Publish (marshal_queue_entry \<lparr>qe_Seq = seq, qe_NextPos = int (cur + n), qe_Line = line\<rparr>)) (\<lambda>r. case r of
           Inl err \<Rightarrow> ret ()
         | Inr _ \<Rightarrow>
             bind (on_tail (local (\<lambda>s. ((), s\<lparr>ta_filePos := cur + n\<rparr>)))) (\<lambda>_.
             publish_loop E ls (cur + n) (published + 1))))))"

definition publish_pass :: "tail_env \<Rightarrow> string \<Rightarrow> ('w reader, unit) sql" where
  "publish_pass E appended =
     bind (on_tail (local (\<lambda>s. ((), s\<lparr>ta_file := map_option (\<lambda>file. file @ appended) (ta_file s)\<rparr>)))) (\<lambda>_.
     bind (on_tail (query (\<lambda>s. case ta_file s of None \<Rightarrow> Inl NoRows | Some file \<Rightarrow> Inr file))) (\<lambda>file.
     bind (on_tail (backseek file)) (\<lambda>_.
     bind (local (\<lambda>s. (ta_filePos (rd_tail s), s))) (\<lambda>filePos.
     publish_loop E (scan_tokens maxLineSize (drop filePos file)) filePos 0))))"

text \<open>One pass of the loop of \<^verbatim>\<open>FileReader\<close>.\<close>

definition FileReader_pass :: "tail_env \<Rightarrow> 'w redis_ops \<Rightarrow> bool \<Rightarrow> string \<Rightarrow> ('w reader, unit) sql" where
  "FileReader_pass E R drained appended =
     bind (on_tail (query (\<lambda>s. case ta_file s of None \<Rightarrow> Inl NoRows | Some file \<Rightarrow> Inr (length file)))) (\<lambda>fileSize.
     bind (on_tail (local (\<lambda>s. ((), if ta_filePos s > fileSize then s\<lparr>ta_filePos := 0\<rparr> else s)))) (\<lambda>_.
     bind (reader_compaction E R drained fileSize) (\<lambda>_.
     publish_pass E appended)))"

text \<open>As in the single-server loop, a negative position is kept and no pass can seek to it; then the result is \<^const>\<open>False\<close>.\<close>

definition start_reader :: "tail_env \<Rightarrow> ('w reader, bool) sql" where
  "start_reader E =
     bind (on_tail (loadStartPositionFromReader E)) (\<lambda>pos.
     bind (on_tail (Now E)) (\<lambda>now. on_tail (local (\<lambda>s. (0 \<le> pos, s\<lparr>ta_filePos := nat pos, ta_lastCompaction := now\<rparr>)))))"

text \<open>Every two seconds, on the leader.\<close>

definition save_flushed :: "tail_env \<Rightarrow> 'w redis_ops \<Rightarrow> ('w reader, unit) sql" where
  "save_flushed E R = bind (flushed_pos R) (\<lambda>pos. on_tail (savePosition E pos))"

section \<open>Workers\<close>

text \<open>\<open>wk_answers\<close>: acknowledged (\<^const>\<open>True\<close>) and returned deliveries. The tables and Redis are shared with the others.\<close>

record 'w work = ingest +
  wk_world :: 'w
  wk_entries :: "IngestEntry list"
  wk_queueEntries :: "QueueEntry list"
  wk_deliveries :: "nat list"
  wk_pending :: nat
  wk_lastFlush :: time
  wk_answers :: "(nat \<times> bool) list"

definition workerBatchSize :: nat where "workerBatchSize = 5000"
definition workerBatchInterval :: duration where "workerBatchInterval = 500 * Millisecond"

definition answer :: "bool \<Rightarrow> nat list \<Rightarrow> ('w work, unit) sql" where
  "answer ack ds = local (\<lambda>s. ((), s\<lparr>wk_answers := wk_answers s @ map (\<lambda>d. (d, ack)) ds\<rparr>))"

definition clear_batch :: "('w work, unit) sql" where
  "clear_batch = local (\<lambda>s. ((), s\<lparr>wk_entries := [], wk_queueEntries := [], wk_deliveries := [], wk_pending := 0\<rparr>))"

text \<open>The outcome of the report is not looked at; a script that never returns would stop the worker, an error here.\<close>

definition report_flushed :: "'w redis_ops \<Rightarrow> QueueEntry list \<Rightarrow> ('w work, unit) sql" where
  "report_flushed R qes s =
     (case ReportFlushed R qes (wk_world (fst s)) of
        None \<Rightarrow> (Inl SqlErr, s)
      | Some (r, w) \<Rightarrow> (Inr (), (fst s)\<lparr>wk_world := w\<rparr>, snd s))"

definition settle :: "'w redis_ops \<Rightarrow> QueueEntry list \<Rightarrow> nat \<Rightarrow> ('w work, unit) sql" where
  "settle R qes d = bind (report_flushed R qes) (\<lambda>_. answer True [d])"

definition return_batch :: "('w work, unit) sql" where
  "return_batch = bind (local (\<lambda>s. (wk_deliveries s, s))) (\<lambda>ds. bind (answer False ds) (\<lambda>_. clear_batch))"

definition flush_worker :: "tail_env \<Rightarrow> 'w redis_ops \<Rightarrow> time \<Rightarrow> ('w work, unit) sql" where
  "flush_worker E R now =
     bind (local (\<lambda>s. ((wk_entries s, wk_queueEntries s, wk_deliveries s), s))) (\<lambda>(entries, queueEntries, ds).
     attempt (flushBatch E entries) (\<lambda>r.
       bind (case r of
               Inl err \<Rightarrow> answer False ds
             | Inr _ \<Rightarrow> bind (call_alerts (Batch entries)) (\<lambda>_. bind (report_flushed R queueEntries) (\<lambda>_. answer True ds))) (\<lambda>_.
       bind clear_batch (\<lambda>_. local (\<lambda>s. ((), s\<lparr>wk_lastFlush := now\<rparr>))))))"

definition keep_entry :: "IngestEntry \<Rightarrow> QueueEntry \<Rightarrow> nat \<Rightarrow> ('w work, unit) sql" where
  "keep_entry e qe d = local (\<lambda>s. ((), s\<lparr>wk_entries := wk_entries s @ [e], wk_queueEntries := wk_queueEntries s @ [qe],
     wk_deliveries := wk_deliveries s @ [d], wk_pending := length (wk_entries s) + 1\<rparr>))"

definition worker_delivery :: "tail_env \<Rightarrow> 'w redis_ops \<Rightarrow> nat \<Rightarrow> string \<Rightarrow> ('w work, unit) sql" where
  "worker_delivery E R d body =
     bind (IsPaused E) (\<lambda>paused.
     if paused then answer False [d]
     else (case unmarshal_queue_entry body of
       None \<Rightarrow>
         bind (case unmarshal_partial body of
                 Some (seq, pos) \<Rightarrow> (if seq > 0 then report_flushed R [\<lparr>qe_Seq = seq, qe_NextPos = pos, qe_Line = []\<rparr>] else ret ())
               | None \<Rightarrow> ret ()) (\<lambda>_. answer True [d])
     | Some qe \<Rightarrow>
         (if qe_Line qe = [] then settle R [qe] d
          else
            bind (prepare_line E (qe_Line qe)) (\<lambda>p. case p of
              PartialWrite \<Rightarrow> settle R [qe] d
            | NoHost \<Rightarrow> settle R [qe] d
            | Ready e \<Rightarrow>
                bind (keep_entry e qe d) (\<lambda>_.
                bind (Now E) (\<lambda>now.
                bind (local (\<lambda>s. ((length (wk_entries s), wk_lastFlush s), s))) (\<lambda>(len, lastFlush).
                if len \<ge> workerBatchSize \<or> time_sub now lastFlush \<ge> workerBatchInterval then
                  bind (IsPaused E) (\<lambda>paused. if paused then return_batch else flush_worker E R now)
                else ret ())))))))"

text \<open>The ticker that lets an idle worker notice a pause.\<close>

definition worker_tick :: "tail_env \<Rightarrow> ('w work, unit) sql" where
  "worker_tick E =
     bind (IsPaused E) (\<lambda>paused.
     bind (local (\<lambda>s. (wk_deliveries s, s))) (\<lambda>ds. if paused \<and> ds \<noteq> [] then return_batch else ret ()))"

text \<open>The channel of deliveries is closed: the worker starts again with an empty batch.\<close>

definition worker_closed :: "tail_env \<Rightarrow> ('w work, unit) sql" where
  "worker_closed E = bind return_batch (\<lambda>_. bind (Now E) (\<lambda>now. local (\<lambda>s. ((), s\<lparr>wk_lastFlush := now\<rparr>))))"

section \<open>Preparing an update\<close>

definition maintenanceStatusKey :: string where "maintenanceStatusKey = ''maintenance:status''"

definition status_text :: "maintenance_status \<Rightarrow> string" where
  "status_text st = (case st of MaintenanceIdle \<Rightarrow> ''idle'' | MaintenancePreparing \<Rightarrow> ''preparing'' | MaintenanceCompleted \<Rightarrow> ''completed'')"

definition writeStatus :: "'w redis_ops option \<Rightarrow> maintenance_status \<Rightarrow> 'w \<Rightarrow> 'w" where
  "writeStatus client st w = (case client of None \<Rightarrow> w | Some R \<Rightarrow> snd (SET R maintenanceStatusKey (status_text st) (24 * Hour) w))"

text \<open>The state a process starts with.\<close>

definition NewMaintenanceState :: "'w redis_ops option \<Rightarrow> 'w \<Rightarrow> maintenance_status \<times> 'w" where
  "NewMaintenanceState client w =
     (case client of
        None \<Rightarrow> (MaintenanceIdle, w)
      | Some R \<Rightarrow>
          (case GET R maintenanceStatusKey w of
             (Inr (Some raw), w') \<Rightarrow>
               (if raw = ''preparing'' then MaintenancePreparing else if raw = ''completed'' then MaintenanceCompleted else MaintenanceIdle, w')
           | (_, w') \<Rightarrow> (MaintenanceIdle, w')))"

definition set_status :: "'w redis_ops option \<Rightarrow> maintenance_status \<Rightarrow> ('w reader, unit) sql" where
  "set_status client st = local (\<lambda>s. ((), s\<lparr>rd_status := st, rd_world := writeStatus client st (rd_world s)\<rparr>))"

definition truncateLogFile :: "(tail, unit) sql" where
  "truncateLogFile = bind (query (\<lambda>_. Inr ())) (\<lambda>_. stmt (\<lambda>s. Inr ((), s\<lparr>ta_file := Some []\<rparr>)))"

text \<open>\<open>ha\<close>: whether there is a pipeline.\<close>

definition resetPosition :: "tail_env \<Rightarrow> 'w redis_ops \<Rightarrow> bool \<Rightarrow> ('w reader, unit) sql" where
  "resetPosition E R ha =
     attempt (on_tail (stmt (\<lambda>s. Inr ((), s\<lparr>ta_posfile := Some ''0:''\<rparr>)))) (\<lambda>_.
     bind (if te_shared E then on_tail ResetTailerPosition else ret ()) (\<lambda>_.
     if ha then reset_tracker R else ret ()))"

text \<open>\<open>slept\<close>: the two seconds pass before the context ends.\<close>

definition prepareHA :: "tail_env \<Rightarrow> 'w redis_ops \<Rightarrow> bool \<Rightarrow> ('w reader, unit) sql" where
  "prepareHA E R slept =
     (if \<not> slept then throw SqlErr
      else bind (PurgeTailerQueue R) (\<lambda>_. bind (on_tail truncateLogFile) (\<lambda>_. resetPosition E R True)))"

definition prepareSingleServer :: "tail_env \<Rightarrow> 'w redis_ops \<Rightarrow> bool \<Rightarrow> ('w reader, unit) sql" where
  "prepareSingleServer E R slept =
     (if \<not> slept then throw SqlErr
      else bind (on_tail truncateLogFile) (\<lambda>_. resetPosition E R False))"

definition PrepareForUpdate :: "tail_env \<Rightarrow> 'w redis_ops \<Rightarrow> bool \<Rightarrow> bool \<Rightarrow> ('w reader, unit) sql" where
  "PrepareForUpdate E R ha slept =
     (let client = (if te_shared E then Some R else None) in
      bind (set_status client MaintenancePreparing) (\<lambda>_.
      bind (tell True) (\<lambda>_.
      attempt (if ha then prepareHA E R slept else prepareSingleServer E R slept) (\<lambda>r.
      bind (set_status client MaintenanceCompleted) (\<lambda>_. case r of Inl err \<Rightarrow> throw err | Inr _ \<Rightarrow> ret ())))))"

text \<open>What the server does before it starts the tailer; \<open>paused\<close>: what the controller says then.\<close>

definition resume_after_update :: "tail_env \<Rightarrow> 'w redis_ops \<Rightarrow> bool \<Rightarrow> ('w reader, unit) sql" where
  "resume_after_update E R paused =
     bind (local (\<lambda>s. (rd_status s, s))) (\<lambda>st.
     bind (if st = MaintenanceCompleted then
             bind (set_status (if te_shared E then Some R else None) MaintenanceIdle) (\<lambda>_. tell False)
           else ret ()) (\<lambda>_.
     if paused \<and> st \<noteq> MaintenanceCompleted then tell False else ret ()))"

end
