(* ===== verification/PipelineInv.thy ===== *)
theory PipelineInv
  imports Pipeline TailerTheorems "HOL-Library.Sublist"
begin

text \<open>
  The reader, the queue, the workers and the flush tracker together: the system as a step relation, and its invariant. The messages
  sent are the lines of the file in order, some of them more than once, with growing numbers; whatever is reported to the tracker is a message whose line is
  stored; what the workers hold are messages.
\<close>

section \<open>Messages\<close>

lemma queue_entry_read:
  assumes "is_int64 (qe_Seq qe)" "is_int64 (qe_NextPos qe)" "valid_utf8 (qe_Line qe)"
  shows "unmarshal_queue_entry (marshal_queue_entry qe) = Some qe"
proof -
  have keys: "valid_utf8 ''seq''" "valid_utf8 ''next_pos''" "valid_utf8 ''line''" by (simp_all add: valid_utf8.simps rune_len_def utf8_first_def)
  have "json_parse (marshal_queue_entry qe) = Inr (JObj (zip (map fst [(''seq'', itoa (qe_Seq qe)), (''next_pos'', itoa (qe_NextPos qe)), (''line'', json_string (qe_Line qe))])
      [JNum (qe_Seq qe), JNum (qe_NextPos qe), JStr (qe_Line qe)]))"
    unfolding marshal_queue_entry_def by (rule object_read) (use keys assms(3) in \<open>auto simp: writes_int writes_string\<close>)
  then show ?thesis using assms(1,2)
    by (cases qe) (simp add: unmarshal_queue_entry_def members_of_def to_lower_def lower_char_def)
qed

section \<open>The reader\<close>

definition non_blank :: "string \<Rightarrow> bool" where
  "non_blank l \<longleftrightarrow> l \<noteq> []"

definition lines_to :: "nat \<Rightarrow> string \<Rightarrow> nat \<Rightarrow> string list" where
  "lines_to start file pos = filter non_blank (complete_lines (drop start (take pos file)))"

text \<open>
  The messages sent, from number \<open>base\<close> and position \<open>start\<close> on: the numbers grow, the lines of the file are among them in order (a line whose publish
  failed after the broker took it is sent again), and the position of each message is behind no line that is not sent with or before it.
\<close>

definition message_ok :: "int \<Rightarrow> nat \<Rightarrow> string \<Rightarrow> QueueEntry list \<Rightarrow> QueueEntry \<Rightarrow> bool" where
  "message_ok base start file qs q \<longleftrightarrow> base < qe_Seq q \<and> is_int64 (qe_Seq q) \<and> is_int64 (qe_NextPos q) \<and> valid_utf8 (qe_Line q) \<and> 0 \<le> qe_NextPos q \<and>
     nat (qe_NextPos q) \<le> length file \<and> subseq (lines_to start file (nat (qe_NextPos q))) (map qe_Line (filter (\<lambda>q'. qe_Seq q' \<le> qe_Seq q) qs))"

definition sent_ok :: "int \<Rightarrow> nat \<Rightarrow> string \<Rightarrow> QueueEntry list \<Rightarrow> nat \<Rightarrow> 'w reader \<Rightarrow> bool" where
  "sent_ok base start file qs pos r \<longleftrightarrow> rd_sent r = map marshal_queue_entry qs \<and> sorted_wrt (<) (map qe_Seq qs) \<and>
     (\<forall>q \<in> set qs. message_ok base start file qs q \<and> qe_Seq q \<le> rd_seq r) \<and> base \<le> rd_seq r \<and> subseq (lines_to start file pos) (map qe_Line qs) \<and>
     start \<le> pos \<and> at_line_start file start \<and> at_line_start file pos"

lemma first_line:
  assumes "complete_lines d = l # ls"
  shows "\<exists>t. d = l @ newline # t \<and> newline \<notin> set l \<and> complete_lines t = ls"
proof (cases "newline \<in> set d")
  case True
  then obtain a t where d: "d = a @ newline # t" "newline \<notin> set a" by (meson split_list_first)
  then show ?thesis using assms by (auto simp: complete_cut)
next
  case False
  then show ?thesis using assms by (simp add: complete_Nil)
qed

lemma next_line:
  assumes "complete_lines (drop cur file) = l # ls" "at_line_start file cur" "start \<le> cur" "at_line_start file start"
  shows "complete_lines (drop (cur + (length l + 1)) file) = ls" "at_line_start file (cur + (length l + 1))"
    "lines_to start file (cur + (length l + 1)) = lines_to start file cur @ filter non_blank [l]" "cur + (length l + 1) \<le> length file"
proof -
  obtain t where t: "drop cur file = l @ newline # t" "newline \<notin> set l" "complete_lines t = ls" using first_line [OF assms(1)] by blast
  have "drop (length l + 1) (drop cur file) = t" unfolding t(1) by simp
  then show "complete_lines (drop (cur + (length l + 1)) file) = ls" using t(3) by (simp add: add.commute)
  have sp: "spans (take 1 (complete_lines (drop cur file))) = length l + 1" unfolding assms(1) by (simp add: spans_def)
  note on = read_on [OF assms(2,3,4), of 1, unfolded sp]
  show at: "at_line_start file (cur + (length l + 1))" using on by blast
  then show "cur + (length l + 1) \<le> length file" by (simp add: at_line_start_def)
  have "complete_lines (drop start (take (cur + (length l + 1)) file)) = complete_lines (drop start (take cur file)) @ [l]"
    using conjunct2 [OF on] unfolding assms(1) by simp
  then show "lines_to start file (cur + (length l + 1)) = lines_to start file cur @ filter non_blank [l]" by (simp add: lines_to_def)
qed

lemma subseq_appended: "subseq xs ys \<Longrightarrow> subseq xs (ys @ zs)"
  by (induction rule: list_emb.induct) auto

lemma message_ok_more:
  assumes "message_ok base start file qs q" "\<forall>q' \<in> set qs'. qe_Seq q < qe_Seq q'"
  shows "message_ok base start file (qs @ qs') q"
  using assms by (auto simp: message_ok_def filter_empty_conv)

lemma sent_more:
  assumes "sent_ok base start file qs cur r" "rd_seq r < n" "is_int64 n" "complete_lines (drop cur file) = l # ls" "l \<noteq> []" "valid_utf8 l"
    and "is_int64 (int (length file))" "q = \<lparr>qe_Seq = n, qe_NextPos = int (cur + (length l + 1)), qe_Line = l\<rparr>"
    and "rd_sent r' = rd_sent r @ [marshal_queue_entry q]" "rd_seq r' = n"
  shows "sent_ok base start file (qs @ [q]) (cur + (length l + 1)) r'" "sent_ok base start file qs pos r \<Longrightarrow> sent_ok base start file (qs @ [q]) pos r'"
proof -
  have inv: "rd_sent r = map marshal_queue_entry qs" "sorted_wrt (<) (map qe_Seq qs)" "\<forall>q \<in> set qs. message_ok base start file qs q \<and> qe_Seq q \<le> rd_seq r"
    "base \<le> rd_seq r" "subseq (lines_to start file cur) (map qe_Line qs)" "start \<le> cur" "at_line_start file start" "at_line_start file cur"
    using assms(1) by (simp_all add: sent_ok_def)
  note nx = next_line [OF assms(4) inv(8,6,7)]
  have all: "filter (\<lambda>q'. qe_Seq q' \<le> n) qs = qs" using inv(3) assms(2) by (fastforce simp: filter_id_conv)
  have lines: "subseq (lines_to start file (cur + (length l + 1))) (map qe_Line (qs @ [q]))"
    using nx(3) list_emb_append_mono [OF inv(5) subseq_order.order_refl [of "[l]"]] assms(5,8) by (simp add: non_blank_def)
  have q: "message_ok base start file (qs @ [q]) q"
  proof -
    have "is_int64 (int (cur + (length l + 1)))" using assms(7) nx(4) by (simp add: is_int64_def)
    moreover have "nat (1 + (int cur + int (length l))) = Suc (cur + length l)" by simp
    ultimately show ?thesis using assms(2,3,6,8) inv(4) nx(4) lines all by (simp add: message_ok_def)
  qed
  have old: "message_ok base start file (qs @ [q]) q' \<and> qe_Seq q' \<le> n" if "q' \<in> set qs" for q'
    using message_ok_more [of base start "file" qs q' "[q]"] inv(3) that assms(2,8) by fastforce
  have "sorted_wrt (<) (map qe_Seq (qs @ [q]))" using inv(2,3) assms(2,8) by (fastforce simp: sorted_wrt_append)
  then have "sent_ok base start file (qs @ [q]) pos r'" if "subseq (lines_to start file pos) (map qe_Line (qs @ [q]))" "start \<le> pos" "at_line_start file pos" for pos
    using that inv(1,4,7) assms(2,8,9,10) q old by (auto simp: sent_ok_def)
  then show "sent_ok base start file (qs @ [q]) (cur + (length l + 1)) r'" "sent_ok base start file qs pos r \<Longrightarrow> sent_ok base start file (qs @ [q]) pos r'"
    using lines inv(6) nx(2) by (auto simp: sent_ok_def intro: subseq_appended)
qed

lemma sent_frame: "sent_ok base start file qs pos r \<Longrightarrow> rd_sent r' = rd_sent r \<Longrightarrow> rd_seq r \<le> rd_seq r' \<Longrightarrow> sent_ok base start file qs pos r'"
  by (fastforce simp: sent_ok_def)

lemma sent_pos:
  "sent_ok base start file qs pos r \<Longrightarrow> start \<le> pos' \<Longrightarrow> at_line_start file pos' \<Longrightarrow> lines_to start file pos' = lines_to start file pos \<Longrightarrow> sent_ok base start file qs pos' r"
  by (simp add: sent_ok_def)

definition same_shared :: "'w reader \<Rightarrow> 'w reader \<Rightarrow> bool" where
  "same_shared r r' \<longleftrightarrow> rd_world r' = rd_world r \<and> in_rows (rd_tail r') = in_rows (rd_tail r) \<and> ta_file (rd_tail r') = ta_file (rd_tail r)"

lemma on_tail_paused: "on_tail (IsPaused E) (r, fs) = (Inr (te_paused E (in_tick (rd_tail r))), r\<lparr>rd_tail := (rd_tail r)\<lparr>in_tick := Suc (in_tick (rd_tail r))\<rparr>\<rparr>, fs)"
  by (simp add: on_tail_def IsPaused_def)

lemma publish_cases:
  assumes "publish_loop E ((k, l) # ls) cur pub (r, fs) = (res, r', fs')"
  obtains (paused) t where "r' = r\<lparr>rd_tail := (rd_tail r)\<lparr>in_tick := t\<rparr>\<rparr>"
  | (blank) t where "l = []" "publish_loop E ls (cur + k) pub (r\<lparr>rd_tail := (rd_tail r)\<lparr>in_tick := t\<rparr>\<rparr>, fs) = (res, r', fs')"
  | (failed) t where "l \<noteq> []" "r' = r\<lparr>rd_tail := (rd_tail r)\<lparr>in_tick := t\<rparr>, rd_seq := int64 (rd_seq r + 1)\<rparr>"
  | (unanswered) t where "l \<noteq> []" "r' = r\<lparr>rd_tail := (rd_tail r)\<lparr>in_tick := t\<rparr>, rd_seq := int64 (rd_seq r + 1),
      rd_sent := rd_sent r @ [marshal_queue_entry \<lparr>qe_Seq = int64 (rd_seq r + 1), qe_NextPos = int (cur + k), qe_Line = l\<rparr>]\<rparr>"
  | (sent) t fs1 where "l \<noteq> []" "publish_loop E ls (cur + k) (pub + 1) (r\<lparr>rd_seq := int64 (rd_seq r + 1),
      rd_sent := rd_sent r @ [marshal_queue_entry \<lparr>qe_Seq = int64 (rd_seq r + 1), qe_NextPos = int (cur + k), qe_Line = l\<rparr>],
      rd_tail := (rd_tail r)\<lparr>in_tick := t, ta_filePos := cur + k\<rparr>\<rparr>, fs1) = (res, r', fs')"
proof -
  let ?n = "in_tick (rd_tail r)"
  obtain u where two: "(if pub mod 100 = 0 then on_tail (IsPaused E) else ret False) (r\<lparr>rd_tail := (rd_tail r)\<lparr>in_tick := Suc ?n\<rparr>\<rparr>, fs) =
      (Inr (pub mod 100 = 0 \<and> te_paused E (Suc ?n)), r\<lparr>rd_tail := (rd_tail r)\<lparr>in_tick := u\<rparr>\<rparr>, fs)"
    using that [of "Suc (Suc ?n)"] that [of "Suc ?n"] by (cases "pub mod 100 = 0") (simp_all add: on_tail_paused)
  note one = bind_Inr [of "on_tail (IsPaused E)" "(r, fs)", OF on_tail_paused]
  consider "te_paused E ?n" | "\<not> te_paused E ?n" "l = []" | "\<not> te_paused E ?n" "l \<noteq> []" "pub mod 100 = 0 \<and> te_paused E (Suc ?n)"
    | "\<not> te_paused E ?n" "l \<noteq> []" "\<not> (pub mod 100 = 0 \<and> te_paused E (Suc ?n))" by blast
  then show thesis
  proof cases
    case 1
    then show ?thesis using assms by (intro paused [of "Suc ?n"]) (simp add: bind_def on_tail_paused)
  next
    case 2
    then show ?thesis using assms by (intro blank [of "Suc ?n"]) (simp_all add: bind_def on_tail_paused)
  next
    case 3
    then show ?thesis using assms by (intro paused [of "Suc (Suc ?n)"]) (simp add: bind_def on_tail_paused)
  next
    case 4
    let ?q = "\<lparr>qe_Seq = int64 (rd_seq r + 1), qe_NextPos = int (cur + k), qe_Line = l\<rparr>"
    let ?r = "r\<lparr>rd_tail := (rd_tail r)\<lparr>in_tick := u\<rparr>, rd_seq := int64 (rd_seq r + 1)\<rparr>"
    have run: "attempt (Publish (marshal_queue_entry ?q)) (case_sum (\<lambda>err. ret ())
        (\<lambda>x. bind (on_tail (local (\<lambda>s. ((), s\<lparr>ta_filePos := cur + k\<rparr>)))) (\<lambda>_. publish_loop E ls (cur + k) (pub + 1)))) (?r, fs) = (res, r', fs')"
      using assms 4 unfolding publish_loop.simps one by (simp add: bind_Inr [of "if pub mod 100 = 0 then on_tail (IsPaused E) else ret False", OF two] bind_def [of "local f" for f] next_seq_def NextSeq_def)
    show ?thesis
    proof (cases "fs \<noteq> [] \<and> hd fs")
      case True
      then show ?thesis using run 4 by (intro failed [of u]) (simp_all add: attempt_def Publish_def bind_def stmt_def)
    next
      case took: False
      show ?thesis
      proof (cases "tl fs \<noteq> [] \<and> hd (tl fs)")
        case True
        then show ?thesis using took run 4 by (intro unanswered [of u]) (auto simp: attempt_def Publish_def query_def stmt_def bind_def)
      next
        case False
        then show ?thesis using took run 4 by (intro sent [of u "tl (tl fs)"]) (auto simp: attempt_def Publish_def query_def stmt_def bind_def on_tail_def)
      qed
    qed
  qed
qed

lemma publish_run:
  assumes "sent_ok base start file qs cur r" "sent_ok base start file qs (ta_filePos (rd_tail r)) r" "lines = complete_lines (drop cur file)" "\<forall>l \<in> set lines. valid_utf8 l"
    and "0 \<le> rd_seq r" "is_int64 (rd_seq r + int (length lines))" "is_int64 (int (length file))"
    and "publish_loop E (map (\<lambda>l. (length l + 1, l)) lines) cur pub (r, fs) = (res, r', fs')"
  shows "\<exists>qs'. sent_ok base start file (qs @ qs') (ta_filePos (rd_tail r')) r' \<and> same_shared r r' \<and> rd_seq r \<le> rd_seq r' \<and> (\<forall>q \<in> set qs'. rd_seq r < qe_Seq q)"
  using assms
proof (induction lines arbitrary: qs cur r pub fs)
  case Nil
  then show ?case by (intro exI [of _ "[]"]) (simp add: same_shared_def)
next
  case (Cons l ls)
  have inv: "start \<le> cur" "at_line_start file start" "at_line_start file cur" using Cons.prems(1) by (simp_all add: sent_ok_def)
  note nx = next_line [OF Cons.prems(3) [symmetric] inv(3,1,2)]
  have n: "int64 (rd_seq r + 1) = rd_seq r + 1" "is_int64 (rd_seq r + 1)" using Cons.prems(5,6) by (simp_all add: int64_id is_int64_def)
  have "publish_loop E ((length l + 1, l) # map (\<lambda>l. (length l + 1, l)) ls) cur pub (r, fs) = (res, r', fs')" using Cons.prems(8) by simp
  then show ?case
  proof (cases rule: publish_cases)
    case (paused t)
    then show ?thesis using sent_frame [OF Cons.prems(2), of r'] by (intro exI [of _ "[]"]) (simp add: same_shared_def)
  next
    case (failed t)
    then show ?thesis using sent_frame [OF Cons.prems(2), of r'] n by (intro exI [of _ "[]"]) (simp add: same_shared_def)
  next
    case (unanswered t)
    let ?q = "\<lparr>qe_Seq = int64 (rd_seq r + 1), qe_NextPos = int (cur + (length l + 1)), qe_Line = l\<rparr>"
    have "sent_ok base start file (qs @ [?q]) (ta_filePos (rd_tail r)) r'"
      by (rule sent_more(2) [OF Cons.prems(1) _ _ Cons.prems(3) [symmetric] unanswered(1) _ Cons.prems(7) refl _ _ Cons.prems(2)])
        (use n Cons.prems(4) unanswered(2) in simp_all)
    then show ?thesis using n unanswered(2) by (intro exI [of _ "[?q]"]) (simp add: same_shared_def)
  next
    case (blank t)
    let ?r = "r\<lparr>rd_tail := (rd_tail r)\<lparr>in_tick := t\<rparr>\<rparr>"
    have "lines_to start file (cur + (length l + 1)) = lines_to start file cur" using nx(3) blank(1) by (simp add: non_blank_def)
    then have "sent_ok base start file qs (cur + (length l + 1)) ?r"
      using sent_frame [OF sent_pos [OF Cons.prems(1) _ nx(2)], of ?r] inv(1) by simp
    from Cons.IH [OF this _ nx(1) [symmetric] _ _ _ Cons.prems(7) blank(2)] show ?thesis
      using Cons.prems(2,4-6) sent_frame [OF Cons.prems(2), of ?r] by (simp add: same_shared_def is_int64_def)
  next
    case (sent t fs1)
    let ?q = "\<lparr>qe_Seq = int64 (rd_seq r + 1), qe_NextPos = int (cur + (length l + 1)), qe_Line = l\<rparr>"
    let ?r = "r\<lparr>rd_seq := int64 (rd_seq r + 1), rd_sent := rd_sent r @ [marshal_queue_entry ?q], rd_tail := (rd_tail r)\<lparr>in_tick := t, ta_filePos := cur + (length l + 1)\<rparr>\<rparr>"
    have ok: "sent_ok base start file (qs @ [?q]) (cur + (length l + 1)) ?r"
      by (rule sent_more(1) [OF Cons.prems(1) _ _ Cons.prems(3) [symmetric] sent(1) _ Cons.prems(7)]) (use n Cons.prems(4) in simp_all)
    have "\<exists>qs'. sent_ok base start file ((qs @ [?q]) @ qs') (ta_filePos (rd_tail r')) r' \<and> same_shared ?r r' \<and> rd_seq ?r \<le> rd_seq r' \<and> (\<forall>q \<in> set qs'. rd_seq ?r < qe_Seq q)"
      by (rule Cons.IH [OF ok _ nx(1) [symmetric] _ _ _ Cons.prems(7) sent(2)]) (use Cons.prems(4-6) n ok in \<open>simp_all add: is_int64_def\<close>)
    then obtain qs' where qs': "sent_ok base start file ((qs @ [?q]) @ qs') (ta_filePos (rd_tail r')) r'" "same_shared ?r r'" "rd_seq ?r \<le> rd_seq r'" "\<forall>q \<in> set qs'. rd_seq ?r < qe_Seq q"
      by blast
    then show ?thesis using n by (intro exI [of _ "?q # qs'"]) (auto simp: same_shared_def)
  qed
qed

lemma lines_to_append: "pos \<le> length file \<Longrightarrow> lines_to start (file @ added) pos = lines_to start file pos"
  by (simp add: lines_to_def)

lemma sent_append:
  assumes "sent_ok base start file qs pos r"
  shows "sent_ok base start (file @ added) qs pos r"
proof -
  have "pos \<le> length file" using assms by (simp add: sent_ok_def at_line_start_def)
  moreover have "message_ok base start (file @ added) qs q" if "q \<in> set qs" for q
  proof -
    have "message_ok base start file qs q" using assms that by (simp add: sent_ok_def)
    then show ?thesis by (simp add: message_ok_def lines_to_append)
  qed
  ultimately show ?thesis using assms by (auto simp: sent_ok_def lines_to_append start_append)
qed

lemma backseek_any:
  assumes "at_line_start file (ta_filePos t)"
  shows "\<exists>fs'. backseek file (t, fs) = (Inr (), t, fs')"
  using assms by (cases "ta_filePos t = 0"; cases "fs \<noteq> [] \<and> hd fs") (auto simp: backseek_def bind_def attempt_def query_def stmt_def byte_before_def at_line_start_def)

definition reader_compacts :: "tail_env \<Rightarrow> 'w redis_ops \<Rightarrow> 'w reader \<Rightarrow> bool" where
  "reader_compacts E R r \<longleftrightarrow> (case ta_file (rd_tail r) of
     None \<Rightarrow> False
   | Some file \<Rightarrow> shouldCompact (te_now E (in_tick (rd_tail r))) (ta_lastCompaction (rd_tail r)) (length file) \<and>
       enoughFlushed (length file) (nat (snd (fst (GetFlushedPos R (rd_world r))))))"

text \<open>What the reader can take: lines within the limit that are text, and numbers and positions of 64 bits.\<close>

definition readable :: "string \<Rightarrow> int \<Rightarrow> bool" where
  "readable file seq \<longleftrightarrow> lines_fit maxLineSize file \<and> (\<forall>l \<in> set (complete_lines file). valid_utf8 l) \<and> is_int64 (int (length file)) \<and>
     is_int64 (seq + int (length (complete_lines file)))"

lemma complete_drop: "at_line_start file pos \<Longrightarrow> complete_lines file = complete_lines (take pos file) @ complete_lines (drop pos file)"
  using complete_append [OF start_take [of "file" pos], of "drop pos file"] by simp

lemma publish_pass_run:
  assumes "sent_ok base start file qs (ta_filePos (rd_tail r)) r" "ta_file (rd_tail r) = Some file" "readable (file @ added) (rd_seq r)" "0 \<le> rd_seq r"
    and "publish_pass E added (r, fs) = (res, r', fs')"
  shows "\<exists>qs'. ta_file (rd_tail r') = Some (file @ added) \<and> sent_ok base start (file @ added) (qs @ qs') (ta_filePos (rd_tail r')) r' \<and> rd_world r' = rd_world r \<and>
    in_rows (rd_tail r') = in_rows (rd_tail r) \<and> rd_seq r \<le> rd_seq r' \<and> (\<forall>q \<in> set qs'. rd_seq r < qe_Seq q)"
proof -
  let ?f = "file @ added" and ?p = "ta_filePos (rd_tail r)"
  let ?r = "r\<lparr>rd_tail := (rd_tail r)\<lparr>ta_file := Some (file @ added)\<rparr>\<rparr>"
  have ok: "sent_ok base start ?f qs ?p ?r" using sent_frame [OF sent_append [OF assms(1)], of ?r] by simp
  have at: "at_line_start ?f ?p" using ok by (simp add: sent_ok_def)
  have first: "on_tail (local (\<lambda>s. ((), s\<lparr>ta_file := map_option (\<lambda>file. file @ added) (ta_file s)\<rparr>))) (r, fs) = (Inr (), ?r, fs)"
    using assms(2) by (simp add: on_tail_def)
  show ?thesis
  proof (cases "fs \<noteq> [] \<and> hd fs")
    case True
    then have "r' = ?r" using assms(5) first by (simp add: publish_pass_def bind_def on_tail_def query_def stmt_def)
    then show ?thesis using ok by (intro exI [of _ "[]"]) simp
  next
    case False
    have q: "on_tail (query (\<lambda>s. case ta_file s of None \<Rightarrow> Inl NoRows | Some file \<Rightarrow> Inr file)) (?r, fs) = (Inr ?f, ?r, tl fs)"
      using False by (auto simp: on_tail_def query_def stmt_def)
    obtain fs1 where b: "on_tail (backseek ?f) (?r, tl fs) = (Inr (), ?r, fs1)"
      using backseek_any [of ?f "rd_tail ?r" "tl fs"] at by (auto simp: on_tail_def)
    have fit: "lines_fit maxLineSize (drop ?p ?f)" using fit_drop [OF _ at] assms(3) by (simp add: readable_def)
    let ?ls = "complete_lines (drop ?p ?f)"
    have "publish_loop E (map (\<lambda>l. (length l + 1, l)) ?ls) ?p 0 (?r, fs1) = (res, r', fs')"
      using assms(5) first q b scan_tokens_lines [OF fit] by (simp add: publish_pass_def bind_def)
    moreover have "\<forall>l \<in> set ?ls. valid_utf8 l" "is_int64 (rd_seq ?r + int (length ?ls))" "is_int64 (int (length ?f))"
      using assms(3,4) unfolding readable_def complete_drop [OF at] by (simp_all add: is_int64_def)
    ultimately have "\<exists>qs'. sent_ok base start ?f (qs @ qs') (ta_filePos (rd_tail r')) r' \<and> same_shared ?r r' \<and> rd_seq ?r \<le> rd_seq r' \<and> (\<forall>q \<in> set qs'. rd_seq ?r < qe_Seq q)"
      using publish_run [OF ok _ refl, of E 0 fs1 res r' fs'] ok assms(4) by simp
    then show ?thesis by (auto simp: same_shared_def)
  qed
qed

context redis_up
begin

lemma flushed_pos_run: "\<exists>w'. flushed_pos R (r, fs) = (Inr (snd (fst (GetFlushedPos R (rd_world r)))), r\<lparr>rd_world := w'\<rparr>, fs) \<and> ks w' = ks (rd_world r)"
proof -
  let ?w = "rd_world r"
  obtain w1 where 1: "HGET R flushTrackerKey seqField ?w = (Inr (tracker (ks ?w) seqField), w1)" "ks w1 = ks ?w" using HGET_run by blast
  obtain w2 where 2: "HGET R flushTrackerKey posField w1 = (Inr (tracker (ks w1) posField), w2)" "ks w2 = ks w1" using HGET_run by blast
  show ?thesis using 1 2 by (intro exI [of _ w2]) (simp add: flushed_pos_def GetFlushedPos_def)
qed

lemma reader_pass_run:
  assumes "sent_ok base start file qs (ta_filePos (rd_tail r)) r" "ta_file (rd_tail r) = Some file" "readable (file @ added) (rd_seq r)" "0 \<le> rd_seq r" "\<not> reader_compacts E R r"
    and "FileReader_pass E R drained added (r, fs) = (res, r', fs')"
  shows "\<exists>qs' file'. ta_file (rd_tail r') = Some file' \<and> sent_ok base start file' (qs @ qs') (ta_filePos (rd_tail r')) r' \<and> ks (rd_world r') = ks (rd_world r) \<and>
    in_rows (rd_tail r') = in_rows (rd_tail r) \<and> rd_seq r \<le> rd_seq r' \<and> (\<forall>q \<in> set qs'. rd_seq r < qe_Seq q)"
proof (cases "fs \<noteq> [] \<and> hd fs")
  case True
  then have "r' = r" using assms(6) by (simp add: FileReader_pass_def bind_def on_tail_def query_def stmt_def)
  then show ?thesis using assms(1,2) by (intro exI [of _ "[]"] exI [of _ "file"]) simp
next
  case False
  have q: "on_tail (query (\<lambda>s. case ta_file s of None \<Rightarrow> Inl NoRows | Some file \<Rightarrow> Inr (length file))) (r, fs) = (Inr (length file), r, tl fs)"
    using False assms(2) by (auto simp: on_tail_def query_def stmt_def)
  have pos: "\<not> ta_filePos (rd_tail r) > length file" using assms(1) by (simp add: sent_ok_def at_line_start_def)
  obtain w' where w': "flushed_pos R (r, tl fs) = (Inr (snd (fst (GetFlushedPos R (rd_world r)))), r\<lparr>rd_world := w'\<rparr>, tl fs)" "ks w' = ks (rd_world r)" using flushed_pos_run by blast
  let ?r = "r\<lparr>rd_world := w', rd_tail := (rd_tail r)\<lparr>in_tick := Suc (in_tick (rd_tail r))\<rparr>\<rparr>"
  have comp: "reader_compaction E R drained (length file) (r, tl fs) = (Inr (), ?r, tl fs)"
    using assms(2,5) w'(1) by (auto simp: reader_compaction_def bind_def on_tail_def Now_def reader_compacts_def)
  have "publish_pass E added (?r, tl fs) = (res, r', fs')"
    using assms(6) q pos comp by (simp add: FileReader_pass_def bind_def on_tail_def)
  moreover have "sent_ok base start file qs (ta_filePos (rd_tail ?r)) ?r" using sent_frame [OF assms(1), of ?r] by simp
  ultimately show ?thesis using publish_pass_run [of base start "file" qs ?r added E "tl fs" res r' fs'] assms(2-4) w'(2) by simp blast
qed

end

section \<open>The tracker and the table\<close>

text \<open>A row that is that of the line.\<close>

definition fits :: "tail_env \<Rightarrow> string \<Rightarrow> ingest_row \<Rightarrow> bool" where
  "fits E l row \<longleftrightarrow> (\<exists>e. entry_for E l e \<and> row_for E e row)"

text \<open>
  Every number reported since the start is that of a message with its position, and its line has a row of its own among the new ones
  (from \<open>n\<close> on), unless it has none. \<open>row_of\<close>: the row of a number.
\<close>

definition stored_for :: "tail_env \<Rightarrow> int \<Rightarrow> QueueEntry list \<Rightarrow> nat \<Rightarrow> ingest_row list \<Rightarrow> (int \<Rightarrow> nat) \<Rightarrow> hash \<Rightarrow> bool" where
  "stored_for E base qs n rows row_of h \<longleftrightarrow>
     (\<forall>i. base < i \<and> reported h i \<noteq> None \<longrightarrow> (\<exists>q \<in> set qs. qe_Seq q = i \<and> reported h i = Some (itoa (qe_NextPos q)) \<and>
        (accepted E (qe_Line q) \<longrightarrow> n \<le> row_of i \<and> row_of i < length rows \<and> fits E (qe_Line q) (rows ! row_of i)))) \<and>
     inj_on row_of {i. base < i \<and> reported h i \<noteq> None \<and> (\<exists>q \<in> set qs. qe_Seq q = i \<and> accepted E (qe_Line q))}"

definition tracked :: "tail_env \<Rightarrow> int \<Rightarrow> QueueEntry list \<Rightarrow> nat \<Rightarrow> ingest_row list \<Rightarrow> hash \<Rightarrow> bool" where
  "tracked E base qs n rows h \<longleftrightarrow> tracker_ok h \<and> finite (dom h) \<and> base \<le> flushed_seq h \<and> (\<exists>row_of. stored_for E base qs n rows row_of h)"

definition numbered :: "QueueEntry list \<Rightarrow> bool" where
  "numbered qs \<longleftrightarrow> (\<forall>q \<in> set qs. \<forall>q' \<in> set qs. qe_Seq q = qe_Seq q' \<longrightarrow> q = q')"

lemma storedE:
  assumes "stored_for E base qs n rows row_of h" "base < i" "reported h i \<noteq> None"
  obtains q where "q \<in> set qs" "qe_Seq q = i" "reported h i = Some (itoa (qe_NextPos q))"
    "accepted E (qe_Line q) \<longrightarrow> n \<le> row_of i \<and> row_of i < length rows \<and> fits E (qe_Line q) (rows ! row_of i)"
  using assms unfolding stored_for_def by blast

lemma tracked_more:
  assumes "tracked E base qs n rows h" "set qs \<subseteq> set qs'" "numbered qs'"
  shows "tracked E base qs' n rows h"
proof -
  obtain row_of where s: "stored_for E base qs n rows row_of h" using assms(1) by (auto simp: tracked_def)
  have same: "(\<exists>q \<in> set qs'. qe_Seq q = i \<and> accepted E (qe_Line q)) \<longleftrightarrow> (\<exists>q \<in> set qs. qe_Seq q = i \<and> accepted E (qe_Line q))"
    if "base < i" "reported h i \<noteq> None" for i
  proof -
    note i = that
    obtain q where q: "q \<in> set qs" "qe_Seq q = i" using storedE [OF s i] by blast
    then show ?thesis using assms(2,3) by (metis numbered_def subsetD)
  qed
  have "{i. base < i \<and> reported h i \<noteq> None \<and> (\<exists>q \<in> set qs'. qe_Seq q = i \<and> accepted E (qe_Line q))} =
      {i. base < i \<and> reported h i \<noteq> None \<and> (\<exists>q \<in> set qs. qe_Seq q = i \<and> accepted E (qe_Line q))}" using same by blast
  then have "stored_for E base qs' n rows row_of h" using s assms(2) unfolding stored_for_def by (metis (no_types, lifting) subsetD)
  then show ?thesis using assms(1) by (auto simp: tracked_def)
qed

text \<open>What a report adds: rows for the entries it names, at their place among the rows just stored.\<close>

lemma stored_report:
  assumes "stored_for E base qs n rows row_of h" "set qes \<subseteq> set qs" "numbered qs" "n \<le> length rows"
    and "\<And>j. j < length qes \<Longrightarrow> accepted E (qe_Line (qes ! j)) \<Longrightarrow> j < length rs \<and> fits E (qe_Line (qes ! j)) (rs ! j)"
    and "\<And>i. reported h' i = reported (put_reports (map (\<lambda>e. (qe_Seq e, qe_NextPos e)) qes) h) i"
  shows "\<exists>row_of'. stored_for E base qs n (rows @ rs) row_of' h'"
proof -
  let ?args = "map (\<lambda>e. (qe_Seq e, qe_NextPos e)) qes"
  let ?P = "\<lambda>i j. j < length qes \<and> qe_Seq (qes ! j) = i"
  define row_of' where "row_of' i = (if reported h i \<noteq> None then row_of i else length rows + (LEAST j. ?P i j))" for i
  have old: "reported h' i = reported h i" if "reported h i \<noteq> None" for i
    using that put_reports_keeps [of h "itoa i" _ ?args] assms(6) [of i] by (auto simp: reported_def)
  have new: "?P i (LEAST j. ?P i j) \<and> reported h' i = Some (itoa (qe_NextPos (qes ! (LEAST j. ?P i j))))" if "reported h i = None" "reported h' i \<noteq> None" for i
  proof -
    note i = that
    obtain v where v: "reported h' i = Some v" using i(2) by blast
    then obtain p where p: "(i, p) \<in> set ?args" "reported h' i = Some (itoa p)" using put_reports_value [of ?args h i v] i(1) unfolding assms(6) [of i] by blast
    then obtain q where q: "q \<in> set qes" "qe_Seq q = i" "qe_NextPos q = p" by auto
    then have "\<exists>j. ?P i j" by (metis in_set_conv_nth)
    then have l: "?P i (LEAST j. ?P i j)" by (rule LeastI_ex)
    then have "qes ! (LEAST j. ?P i j) = q" using q assms(2,3) by (metis nth_mem numbered_def subsetD)
    then show ?thesis using l p(2) q(3) by simp
  qed
  have one: "\<exists>q \<in> set qs. qe_Seq q = i \<and> reported h' i = Some (itoa (qe_NextPos q)) \<and>
      (accepted E (qe_Line q) \<longrightarrow> n \<le> row_of' i \<and> row_of' i < length (rows @ rs) \<and> fits E (qe_Line q) ((rows @ rs) ! row_of' i))" if "base < i" "reported h' i \<noteq> None" for i
  proof (cases "reported h i = None")
    case True
    let ?q = "qes ! (LEAST j. ?P i j)"
    have q: "(LEAST j. ?P i j) < length qes" "qe_Seq ?q = i" "reported h' i = Some (itoa (qe_NextPos ?q))" using new [OF True that(2)] by simp_all
    moreover have "?q \<in> set qs" using q(1) assms(2) by auto
    ultimately show ?thesis using True assms(4) assms(5) [OF q(1)] by (intro bexI [of _ ?q]) (auto simp: row_of'_def nth_append)
  next
    case False
    note i = that
    from False obtain q where "q \<in> set qs" "qe_Seq q = i" "reported h i = Some (itoa (qe_NextPos q))"
        "accepted E (qe_Line q) \<longrightarrow> n \<le> row_of i \<and> row_of i < length rows \<and> fits E (qe_Line q) (rows ! row_of i)"
      using storedE [OF assms(1) i(1)] by blast
    then show ?thesis using False old [OF False] by (intro bexI [of _ q]) (auto simp: row_of'_def nth_append)
  qed
  have small: "row_of i < length rows" if "base < i" "reported h i \<noteq> None" "q \<in> set qs" "qe_Seq q = i" "accepted E (qe_Line q)" for i q
    using storedE [OF assms(1) that(1,2)] assms(3) that(3-5) unfolding numbered_def by metis
  have "inj_on row_of' {i. base < i \<and> reported h' i \<noteq> None \<and> (\<exists>q \<in> set qs. qe_Seq q = i \<and> accepted E (qe_Line q))}"
  proof (rule inj_onI)
    fix i j assume ij: "i \<in> {i. base < i \<and> reported h' i \<noteq> None \<and> (\<exists>q \<in> set qs. qe_Seq q = i \<and> accepted E (qe_Line q))}"
      "j \<in> {i. base < i \<and> reported h' i \<noteq> None \<and> (\<exists>q \<in> set qs. qe_Seq q = i \<and> accepted E (qe_Line q))}" and eq: "row_of' i = row_of' j"
    from ij obtain p q where i: "base < i" "reported h' i \<noteq> None" "p \<in> set qs" "qe_Seq p = i" "accepted E (qe_Line p)"
      and j: "base < j" "reported h' j \<noteq> None" "q \<in> set qs" "qe_Seq q = j" "accepted E (qe_Line q)" by blast
    show "i = j"
    proof (cases "reported h i = None"; cases "reported h j = None")
      assume n: "reported h i = None" "reported h j = None"
      have same: "(LEAST k. ?P i k) = (LEAST k. ?P j k)" using eq n by (simp add: row_of'_def)
      have "qe_Seq (qes ! (LEAST k. ?P i k)) = i" "qe_Seq (qes ! (LEAST k. ?P j k)) = j" using new [OF n(1) i(2)] new [OF n(2) j(2)] by blast+
      then show ?thesis unfolding same by blast
    next
      assume "reported h i = None" "reported h j \<noteq> None"
      then show ?thesis using eq small [OF j(1) _ j(3-5)] by (auto simp: row_of'_def)
    next
      assume "reported h i \<noteq> None" "reported h j = None"
      then show ?thesis using eq small [OF i(1) _ i(3-5)] by (auto simp: row_of'_def)
    next
      assume n: "reported h i \<noteq> None" "reported h j \<noteq> None"
      have "inj_on row_of {i. base < i \<and> reported h i \<noteq> None \<and> (\<exists>q \<in> set qs. qe_Seq q = i \<and> accepted E (qe_Line q))}" using assms(1) by (simp add: stored_for_def)
      then show ?thesis using eq n i j by (auto simp: row_of'_def dest: inj_onD)
    qed
  qed
  then show ?thesis using one unfolding stored_for_def by blast
qed

section \<open>Workers\<close>

definition worker_ok :: "tail_env \<Rightarrow> QueueEntry list \<Rightarrow> 'w work \<Rightarrow> bool" where
  "worker_ok E qs w \<longleftrightarrow> cache_ok (te_rx E) (in_cache w) \<and>
     list_all2 (\<lambda>e q. q \<in> set qs \<and> entry_for E (qe_Line q) e) (wk_entries w) (wk_queueEntries w)"

definition messages_ok :: "QueueEntry list \<Rightarrow> bool" where
  "messages_ok qs \<longleftrightarrow> numbered qs \<and> (\<forall>q \<in> set qs. is_int64 (qe_Seq q) \<and> is_int64 (qe_NextPos q) \<and> valid_utf8 (qe_Line q))"

lemma flushBatch_run:
  "\<exists>rs n r. flushBatch E es (s, []) = (Inr (), s\<lparr>in_rows := in_rows s @ rs, in_rate := r, in_tick := n\<rparr>, []) \<and> list_all2 (row_for E) es rs"
proof (cases "es = []")
  case True
  then have "flushBatch E es (s, []) = (Inr (), s\<lparr>in_rows := in_rows s @ [], in_rate := in_rate s, in_tick := in_tick s\<rparr>, [])" by (simp add: flushBatch_def)
  then show ?thesis using True by blast
next
  case False
  obtain rs n where rs: "flush_chunks E es 0 (s, []) = (Inr (length es), s\<lparr>in_rows := in_rows s @ rs, in_tick := n\<rparr>, [])" "list_all2 (row_for E) es rs"
    using flush_chunks_run [of E es 0 s] by auto
  have "flushBatch E es (s, []) = (Inr (), s\<lparr>in_rows := in_rows s @ rs, in_rate := in_rate s + int (length es), in_tick := n\<rparr>, [])"
    using False rs(1) by (simp add: flushBatch_def bind_def)
  then show ?thesis using rs(2) by blast
qed

text \<open>The tracker and the rows agree, and the worker's batch is made of messages.\<close>

definition at_work :: "('w \<Rightarrow> keyspace) \<Rightarrow> tail_env \<Rightarrow> int \<Rightarrow> nat \<Rightarrow> QueueEntry list \<Rightarrow> 'w work \<Rightarrow> bool" where
  "at_work ks E base n qs w \<longleftrightarrow> messages_ok qs \<and> worker_ok E qs w \<and> n \<le> length (in_rows w) \<and> tracked E base qs n (in_rows w) (tracker (ks (wk_world w)))"

lemma at_work_frame:
  "at_work ks E base n qs w \<Longrightarrow> in_rows w' = in_rows w \<Longrightarrow> cache_ok (te_rx E) (in_cache w') \<Longrightarrow> wk_entries w' = wk_entries w \<Longrightarrow> wk_queueEntries w' = wk_queueEntries w \<Longrightarrow>
   wk_world w' = wk_world w \<Longrightarrow> at_work ks E base n qs w'"
  by (simp add: at_work_def worker_ok_def)

lemma at_work_clear:
  "at_work ks E base n qs w \<Longrightarrow> in_rows w' = in_rows w \<Longrightarrow> in_cache w' = in_cache w \<Longrightarrow> wk_entries w' = [] \<Longrightarrow> wk_queueEntries w' = [] \<Longrightarrow> wk_world w' = wk_world w \<Longrightarrow>
   at_work ks E base n qs w'"
  by (simp add: at_work_def worker_ok_def)

lemma at_work_cache: "at_work ks E base n qs w \<Longrightarrow> cache_ok (te_rx E) (in_cache w)"
  by (simp add: at_work_def worker_ok_def)

lemma at_work_keep:
  "at_work ks E base n qs w \<Longrightarrow> q \<in> set qs \<Longrightarrow> entry_for E (qe_Line q) e \<Longrightarrow> in_rows w' = in_rows w \<Longrightarrow> in_cache w' = in_cache w \<Longrightarrow> wk_entries w' = wk_entries w @ [e] \<Longrightarrow>
   wk_queueEntries w' = wk_queueEntries w @ [q] \<Longrightarrow> wk_world w' = wk_world w \<Longrightarrow> at_work ks E base n qs w'"
  by (simp add: at_work_def worker_ok_def list_all2_appendI)

context redis_up
begin

lemma report_tracked:
  assumes "messages_ok qs" "n \<le> length rows" "tracked E base qs n rows (tracker (ks (wk_world w)))" "set qes \<subseteq> set qs"
    and "\<And>j. j < length qes \<Longrightarrow> accepted E (qe_Line (qes ! j)) \<Longrightarrow> j < length rs \<and> fits E (qe_Line (qes ! j)) (rs ! j)"
  shows "\<exists>w'. report_flushed R qes (w, fs) = (Inr (), w\<lparr>wk_world := w'\<rparr>, fs) \<and> tracked E base qs n (rows @ rs) (tracker (ks w'))"
proof -
  let ?h = "tracker (ks (wk_world w))"
  obtain row_of where st: "stored_for E base qs n rows row_of ?h" "tracker_ok ?h" "finite (dom ?h)" "base \<le> flushed_seq ?h" using assms(3) by (auto simp: tracked_def)
  have num: "numbered qs" using assms(1) by (simp add: messages_ok_def)
  show ?thesis
  proof (cases "qes = []")
    case True
    obtain w1 where 1: "HGET R flushTrackerKey seqField (wk_world w) = (Inr (?h seqField), w1)" "ks w1 = ks (wk_world w)" using HGET_run by blast
    obtain w2 where 2: "HGET R flushTrackerKey posField w1 = (Inr (tracker (ks w1) posField), w2)" "ks w2 = ks w1" using HGET_run by blast
    have "\<exists>row_of'. stored_for E base qs n (rows @ rs) row_of' ?h" by (rule stored_report [OF st(1) assms(4) num assms(2,5)]) (simp_all add: True)
    then have "tracked E base qs n (rows @ rs) (tracker (ks w2))" using st(2-4) 1(2) 2(2) by (simp add: tracked_def)
    then show ?thesis using 1 2 True by (intro exI [of _ w2]) (simp add: report_flushed_def ReportFlushed_def GetFlushedPos_def)
  next
    case False
    have "is_int64 (qe_Seq e) \<and> is_int64 (qe_NextPos e)" if "e \<in> set qes" for e using assms(1,4) that by (auto simp: messages_ok_def)
    from report_frontier [OF redis_up_axioms st(2,3) False this] obtain s p w' where
      r: "ReportFlushed R qes (wk_world w) = Some (Inr (s, p), w')" "tracker_ok (tracker (ks w'))" "finite (dom (tracker (ks w')))" "flushed_seq ?h \<le> s" "flushed_seq (tracker (ks w')) = s"
        "\<forall>i. reported (tracker (ks w')) i = reported (put_reports (map (\<lambda>e. (qe_Seq e, qe_NextPos e)) qes) ?h) i" by blast
    have "\<exists>row_of'. stored_for E base qs n (rows @ rs) row_of' (tracker (ks w'))" by (rule stored_report [OF st(1) assms(4) num assms(2,5)]) (use r(6) in simp_all)
    then have "tracked E base qs n (rows @ rs) (tracker (ks w'))" using r(2-5) st(4) by (simp add: tracked_def)
    then show ?thesis using r(1) by (intro exI [of _ w']) (simp add: report_flushed_def)
  qed
qed

lemma settle_run:
  assumes "at_work ks E base n qs w" "q \<in> set qs" "\<not> accepted E (qe_Line q)"
  shows "\<exists>w'. settle R [q] d (w, []) = (Inr (), w', []) \<and> at_work ks E base n qs w'"
proof -
  have "\<exists>w'. report_flushed R [q] (w, []) = (Inr (), w\<lparr>wk_world := w'\<rparr>, []) \<and> tracked E base qs n (in_rows w @ []) (tracker (ks w'))"
    by (rule report_tracked) (use assms in \<open>auto simp: at_work_def\<close>)
  then obtain w' where "report_flushed R [q] (w, []) = (Inr (), w\<lparr>wk_world := w'\<rparr>, [])" "tracked E base qs n (in_rows w) (tracker (ks w'))" by auto
  then show ?thesis using assms(1) by (simp add: settle_def bind_def answer_def at_work_def worker_ok_def)
qed

lemma flush_worker_run:
  assumes "at_work ks E base n qs w"
  shows "\<exists>w'. flush_worker E R now (w, []) = (Inr (), w', []) \<and> at_work ks E base n qs w'"
proof -
  obtain rs t r where f: "flushBatch E (wk_entries w) (w, []) = (Inr (), w\<lparr>in_rows := in_rows w @ rs, in_rate := r, in_tick := t\<rparr>, [])" "list_all2 (row_for E) (wk_entries w) rs"
    using flushBatch_run by blast
  let ?w = "w\<lparr>in_rows := in_rows w @ rs, in_rate := r, in_tick := t, in_alerts := in_alerts w @ [Batch (wk_entries w)]\<rparr>"
  have b: "list_all2 (\<lambda>e q. q \<in> set qs \<and> entry_for E (qe_Line q) e) (wk_entries w) (wk_queueEntries w)" using assms by (simp add: at_work_def worker_ok_def)
  have fit: "j < length rs \<and> fits E (qe_Line (wk_queueEntries w ! j)) (rs ! j)" if "j < length (wk_queueEntries w)" for j
    using that list_all2_lengthD [OF b] list_all2_lengthD [OF f(2)] list_all2_nthD2 [OF b, of j] list_all2_nthD [OF f(2), of j] by (auto simp: fits_def)
  have sub: "set (wk_queueEntries w) \<subseteq> set qs" using b by (auto simp: list_all2_conv_all_nth in_set_conv_nth)
  have "\<exists>w'. report_flushed R (wk_queueEntries w) (?w, []) = (Inr (), ?w\<lparr>wk_world := w'\<rparr>, []) \<and> tracked E base qs n (in_rows w @ rs) (tracker (ks w'))"
    by (rule report_tracked) (use assms sub fit in \<open>simp_all add: at_work_def\<close>)
  then obtain w' where w': "report_flushed R (wk_queueEntries w) (?w, []) = (Inr (), ?w\<lparr>wk_world := w'\<rparr>, [])" "tracked E base qs n (in_rows w @ rs) (tracker (ks w'))" by blast
  then show ?thesis using assms f(1)
    by (simp add: flush_worker_def attempt_def bind_def call_alerts_def answer_def clear_batch_def at_work_def worker_ok_def)
qed

lemma return_run:
  assumes "at_work ks E base n qs w"
  shows "\<exists>w'. return_batch (w, []) = (Inr (), w', []) \<and> at_work ks E base n qs w'"
  using assms by (simp add: return_batch_def bind_def answer_def clear_batch_def at_work_def worker_ok_def)

lemma delivery_run:
  assumes "at_work ks E base n qs w" "body \<in> marshal_queue_entry ` set qs"
  shows "\<exists>w'. worker_delivery E R d body (w, []) = (Inr (), w', []) \<and> at_work ks E base n qs w'"
proof -
  obtain q where q: "q \<in> set qs" "body = marshal_queue_entry q" using assms(2) by blast
  have body: "unmarshal_queue_entry body = Some q" using queue_entry_read [of q] q assms(1) by (simp add: at_work_def messages_ok_def)
  let ?w = "w\<lparr>in_tick := Suc (in_tick w)\<rparr>"
  have w: "at_work ks E base n qs ?w" by (rule at_work_frame [OF assms(1)]) (use at_work_cache [OF assms(1)] in simp_all)
  have paused: "IsPaused E (s, []) = (Inr (te_paused E (in_tick s)), s\<lparr>in_tick := Suc (in_tick s)\<rparr>, [])" for s :: "'w work" by (simp add: IsPaused_def)
  show ?thesis
  proof (cases "te_paused E (in_tick w)")
    case True
    let ?v = "?w\<lparr>wk_answers := wk_answers w @ [(d, False)]\<rparr>"
    have "at_work ks E base n qs ?v" by (rule at_work_frame [OF w]) (use at_work_cache [OF w] in simp_all)
    then show ?thesis using True by (intro exI [of _ ?v]) (simp add: worker_delivery_def bind_def paused answer_def)
  next
    case False
    note step = this
    have settled: ?thesis if "\<not> accepted E (qe_Line q)" "at_work ks E base n qs v" "worker_delivery E R d body (w, []) = settle R [q] d (v, [])" for v
      using settle_run [OF that(2) q(1) that(1), of d] that(3) by simp
    show ?thesis
    proof (cases "qe_Line q = []")
      case True
      then show ?thesis using step body by (intro settled [OF _ w]) (simp_all add: accepted_def worker_delivery_def bind_def paused)
    next
      case line: False
      obtain ts ms cache m where p: "prepare_line E (qe_Line q) (?w, []) = (Inr (prepared_of E ts (qe_Line q)), ?w\<lparr>in_alerts := in_alerts ?w @ ms, in_cache := cache, in_tick := m\<rparr>, [])"
          "cache_ok (te_rx E) cache"
        by (rule prepare_run [of E ?w "qe_Line q" "[]"]) (use at_work_cache [OF w] in auto)
      let ?v = "?w\<lparr>in_alerts := in_alerts ?w @ ms, in_cache := cache, in_tick := m\<rparr>"
      have v: "at_work ks E base n qs ?v" by (rule at_work_frame [OF w]) (use p(2) in simp_all)
      show ?thesis
      proof (cases "prepared_of E ts (qe_Line q)")
        case PartialWrite
        then show ?thesis using step body line p(1) accepted_cases(3) [OF line PartialWrite] by (intro settled [OF _ v]) (simp_all add: worker_delivery_def bind_def paused)
      next
        case NoHost
        then show ?thesis using step body line p(1) accepted_cases(2) [OF line NoHost] by (intro settled [OF _ v]) (simp_all add: worker_delivery_def bind_def paused)
      next
        case (Ready e)
        let ?u = "?v\<lparr>wk_entries := wk_entries w @ [e], wk_queueEntries := wk_queueEntries w @ [q], wk_deliveries := wk_deliveries w @ [d], wk_pending := length (wk_entries w) + 1, in_tick := Suc m\<rparr>"
        have u: "at_work ks E base n qs ?u" by (rule at_work_keep [OF v q(1)]) (use accepted_cases(1) [OF line Ready] in simp_all)
        let ?now = "te_now E m" and ?x = "?u\<lparr>in_tick := Suc (Suc m)\<rparr>"
        have x: "at_work ks E base n qs ?x" by (rule at_work_frame [OF u]) (use at_work_cache [OF u] in simp_all)
        let ?full = "Suc (length (wk_entries w)) \<ge> workerBatchSize \<or> time_sub ?now (wk_lastFlush w) \<ge> workerBatchInterval"
        have run: "worker_delivery E R d body (w, []) = (if ?full then (if te_paused E (Suc m) then return_batch (?x, []) else flush_worker E R ?now (?x, [])) else (Inr (), ?u, []))"
          using step body line p(1) Ready by (simp add: worker_delivery_def bind_def paused keep_entry_def Now_def)
        show ?thesis using u return_run [OF x] flush_worker_run [OF x, of ?now] unfolding run by (cases ?full; cases "te_paused E (Suc m)") simp_all
      qed
    qed
  qed
qed

lemma tick_run:
  assumes "at_work ks E base n qs w"
  shows "\<exists>w'. worker_tick E (w, []) = (Inr (), w', []) \<and> at_work ks E base n qs w'"
proof -
  let ?w = "w\<lparr>in_tick := Suc (in_tick w)\<rparr>"
  have w: "at_work ks E base n qs ?w" by (rule at_work_frame [OF assms]) (use at_work_cache [OF assms] in simp_all)
  show ?thesis using w return_run [OF w] by (cases "te_paused E (in_tick w) \<and> wk_deliveries w \<noteq> []") (auto simp: worker_tick_def bind_def IsPaused_def)
qed

lemma closed_run:
  assumes "at_work ks E base n qs w"
  shows "\<exists>w'. worker_closed E (w, []) = (Inr (), w', []) \<and> at_work ks E base n qs w'"
proof -
  obtain v where v: "return_batch (w, []) = (Inr (), v, [])" "at_work ks E base n qs v" using return_run [OF assms] by blast
  let ?v = "v\<lparr>in_tick := Suc (in_tick v), wk_lastFlush := te_now E (in_tick v)\<rparr>"
  have "at_work ks E base n qs ?v" by (rule at_work_frame [OF v(2)]) (use at_work_cache [OF v(2)] in simp_all)
  then show ?thesis using v(1) by (intro exI [of _ ?v]) (simp add: worker_closed_def bind_def Now_def)
qed

end

section \<open>The system\<close>

datatype worker_op = Deliver nat string | Tick | Closed

definition run_worker :: "tail_env \<Rightarrow> 'w redis_ops \<Rightarrow> worker_op \<Rightarrow> ('w work, unit) sql" where
  "run_worker E R op = (case op of Deliver d body \<Rightarrow> worker_delivery E R d body | Tick \<Rightarrow> worker_tick E | Closed \<Rightarrow> worker_closed E)"

record 'w sys =
  sy_reader :: "'w reader"
  sy_workers :: "nat \<Rightarrow> 'w work"

text \<open>The tables, the clock and Redis are the same for all.\<close>

definition share_to :: "'w reader \<Rightarrow> 'w work \<Rightarrow> 'w work" where
  "share_to r w = w\<lparr>in_rows := in_rows (rd_tail r), in_rate := in_rate (rd_tail r), in_alerts := in_alerts (rd_tail r), in_tick := in_tick (rd_tail r), wk_world := rd_world r\<rparr>"

definition share_back :: "'w work \<Rightarrow> 'w reader \<Rightarrow> 'w reader" where
  "share_back w r = r\<lparr>rd_tail := (rd_tail r)\<lparr>in_rows := in_rows w, in_rate := in_rate w, in_alerts := in_alerts w, in_tick := in_tick w\<rparr>, rd_world := wk_world w\<rparr>"

text \<open>
  One leader's reader, its timer and any number of workers, one step at a time: statements of the reader may fail (\<open>fs\<close>), those of the
  workers do not, and a worker is given messages the broker took, in any order and any number of times. The runs are those between two
  compactions, purges, restarts or changes of the leader, with lines that are text and within the limit.
\<close>

inductive pipe_run :: "tail_env \<Rightarrow> 'w redis_ops \<Rightarrow> 'w sys \<Rightarrow> 'w sys \<Rightarrow> bool" for E R s0 where
  start: "pipe_run E R s0 s0"
| append: "pipe_run E R s0 s \<Longrightarrow> ta_file (rd_tail (sy_reader s)) = Some file \<Longrightarrow>
    pipe_run E R s0 (s\<lparr>sy_reader := (sy_reader s)\<lparr>rd_tail := (rd_tail (sy_reader s))\<lparr>ta_file := Some (file @ added)\<rparr>\<rparr>\<rparr>)"
| read: "pipe_run E R s0 s \<Longrightarrow> ta_file (rd_tail (sy_reader s)) = Some file \<Longrightarrow> readable (file @ added) (rd_seq (sy_reader s)) \<Longrightarrow> \<not> reader_compacts E R (sy_reader s) \<Longrightarrow>
    FileReader_pass E R drained added (sy_reader s, fs) = (res, r', fs') \<Longrightarrow> pipe_run E R s0 (s\<lparr>sy_reader := r'\<rparr>)"
| save: "pipe_run E R s0 s \<Longrightarrow> save_flushed E R (sy_reader s, fs) = (res, r', fs') \<Longrightarrow> pipe_run E R s0 (s\<lparr>sy_reader := r'\<rparr>)"
| work: "pipe_run E R s0 s \<Longrightarrow> (\<forall>d body. op = Deliver d body \<longrightarrow> body \<in> set (rd_sent (sy_reader s))) \<Longrightarrow>
    run_worker E R op (share_to (sy_reader s) (sy_workers s i), []) = (res, w', fs') \<Longrightarrow>
    pipe_run E R s0 (s\<lparr>sy_reader := share_back w' (sy_reader s), sy_workers := (sy_workers s)(i := w')\<rparr>)"

text \<open>
  A start: the reader at the beginning of a line, nothing sent, the numbers where the tracker is, nothing reported beyond, and workers
  without a batch.
\<close>

definition fresh :: "('w \<Rightarrow> keyspace) \<Rightarrow> tail_env \<Rightarrow> 'w sys \<Rightarrow> bool" where
  "fresh ks E s \<longleftrightarrow> (let r = sy_reader s; h = tracker (ks (rd_world r)) in
     (\<exists>file. ta_file (rd_tail r) = Some file \<and> at_line_start file (ta_filePos (rd_tail r))) \<and> rd_sent r = [] \<and> tracker_ok h \<and> finite (dom h) \<and>
     rd_seq r = flushed_seq h \<and> (\<forall>i > rd_seq r. reported h i = None) \<and>
     (\<forall>i. wk_entries (sy_workers s i) = [] \<and> wk_queueEntries (sy_workers s i) = [] \<and> cache_ok (te_rx E) (in_cache (sy_workers s i))))"

definition pipe_inv :: "('w \<Rightarrow> keyspace) \<Rightarrow> tail_env \<Rightarrow> int \<Rightarrow> nat \<Rightarrow> nat \<Rightarrow> QueueEntry list \<Rightarrow> 'w sys \<Rightarrow> bool" where
  "pipe_inv ks E base start n qs s \<longleftrightarrow> (let r = sy_reader s in
     (\<exists>file. ta_file (rd_tail r) = Some file \<and> sent_ok base start file qs (ta_filePos (rd_tail r)) r) \<and> 0 \<le> base \<and>
     n \<le> length (in_rows (rd_tail r)) \<and> tracked E base qs n (in_rows (rd_tail r)) (tracker (ks (rd_world r))) \<and>
     (\<forall>i. worker_ok E qs (sy_workers s i)))"

lemma sorted_numbered: "sorted_wrt (<) (map qe_Seq qs) \<Longrightarrow> numbered qs"
proof -
  assume "sorted_wrt (<) (map qe_Seq qs)"
  then have "distinct (map qe_Seq qs)" by (simp add: strict_sorted_iff)
  then show ?thesis by (simp add: distinct_map numbered_def inj_on_def)
qed

lemma sent_messages: "sent_ok base start file qs pos r \<Longrightarrow> messages_ok qs"
  using sorted_numbered [of qs] by (auto simp: sent_ok_def messages_ok_def message_ok_def)

lemma worker_more: "worker_ok E qs w \<Longrightarrow> worker_ok E (qs @ qs') w"
  by (auto simp: worker_ok_def elim: list_all2_mono)

lemma fresh_inv:
  assumes "fresh ks E s"
  shows "pipe_inv ks E (rd_seq (sy_reader s)) (ta_filePos (rd_tail (sy_reader s))) (length (in_rows (rd_tail (sy_reader s)))) [] s"
proof -
  let ?r = "sy_reader s" and ?h = "tracker (ks (rd_world (sy_reader s)))"
  have f: "rd_sent ?r = []" "tracker_ok ?h" "finite (dom ?h)" "rd_seq ?r = flushed_seq ?h" "\<forall>i > rd_seq ?r. reported ?h i = None"
    "\<forall>i. wk_entries (sy_workers s i) = [] \<and> wk_queueEntries (sy_workers s i) = [] \<and> cache_ok (te_rx E) (in_cache (sy_workers s i))"
    using assms by (simp_all add: fresh_def Let_def)
  obtain "file" where ff: "ta_file (rd_tail ?r) = Some file" "at_line_start file (ta_filePos (rd_tail ?r))" using assms by (auto simp: fresh_def Let_def)
  have "lines_to p file p = []" for p by (simp add: lines_to_def complete_Nil)
  moreover have "0 \<le> rd_seq ?r" using f(2,4) by (simp add: tracker_ok_def)
  ultimately show ?thesis using f ff by (auto simp: pipe_inv_def Let_def sent_ok_def tracked_def stored_for_def worker_ok_def)
qed

lemma save_keeps: "keeps (\<lambda>t. ta_file t = f \<and> ta_filePos t = p \<and> in_rows t = rows) (savePosition E pos)"
proof -
  have fp: "keeps (\<lambda>t. ta_file t = f \<and> ta_filePos t = p \<and> in_rows t = rows) (positionFingerprint E pos)"
    unfolding positionFingerprint_def by (intro keeps_intros)
  have red: "keeps (\<lambda>t. ta_file t = f \<and> ta_filePos t = p \<and> in_rows t = rows) (SaveTailerPosition pos fp)" for fp
    unfolding SaveTailerPosition_def by (intro keeps_intros keeps_stmt) auto
  show ?thesis unfolding savePosition_def Let_def by (intro keeps_intros keeps_stmt fp red) auto
qed

lemma on_tail_keeps:
  assumes "keeps I m" "I (rd_tail r)" "on_tail m (r, fs) = (res, r', fs')"
  shows "I (rd_tail r') \<and> r' = r\<lparr>rd_tail := rd_tail r'\<rparr>"
  using keepsD [OF assms(1), of "(rd_tail r, fs)"] assms(2,3) by (cases "m (rd_tail r, fs)") (auto simp: on_tail_def)

lemma inv_reader:
  assumes "pipe_inv ks E base start n qs s" "ta_file (rd_tail r') = Some file" "sent_ok base start file (qs @ qs') (ta_filePos (rd_tail r')) r'" "ks (rd_world r') = ks (rd_world (sy_reader s))"
    and "in_rows (rd_tail r') = in_rows (rd_tail (sy_reader s))"
  shows "pipe_inv ks E base start n (qs @ qs') (s\<lparr>sy_reader := r'\<rparr>)"
proof -
  have num: "numbered (qs @ qs')" using sent_messages [OF assms(3)] by (simp add: messages_ok_def)
  have "tracked E base qs n (in_rows (rd_tail (sy_reader s))) (tracker (ks (rd_world (sy_reader s))))" using assms(1) by (simp add: pipe_inv_def Let_def)
  from tracked_more [OF this _ num] have "tracked E base (qs @ qs') n (in_rows (rd_tail (sy_reader s))) (tracker (ks (rd_world (sy_reader s))))" by simp
  moreover have "0 \<le> base" "n \<le> length (in_rows (rd_tail (sy_reader s)))" "\<And>i. worker_ok E (qs @ qs') (sy_workers s i)"
    using assms(1) by (simp_all add: pipe_inv_def Let_def worker_more)
  ultimately show ?thesis using assms(2-5) by (simp add: pipe_inv_def)
qed

context redis_up
begin

lemma worker_step:
  assumes "pipe_inv ks E base start n qs s" "\<forall>d body. op = Deliver d body \<longrightarrow> body \<in> set (rd_sent (sy_reader s))"
    and "run_worker E R op (share_to (sy_reader s) (sy_workers s i), []) = (res, w', fs')"
  shows "pipe_inv ks E base start n qs (s\<lparr>sy_reader := share_back w' (sy_reader s), sy_workers := (sy_workers s)(i := w')\<rparr>)"
proof -
  let ?r = "sy_reader s" let ?w = "share_to ?r (sy_workers s i)"
  obtain f where f: "ta_file (rd_tail ?r) = Some f" "sent_ok base start f qs (ta_filePos (rd_tail ?r)) ?r" using assms(1) by (auto simp: pipe_inv_def Let_def)
  have inv: "0 \<le> base" "n \<le> length (in_rows (rd_tail ?r))" "tracked E base qs n (in_rows (rd_tail ?r)) (tracker (ks (rd_world ?r)))" "\<And>j. worker_ok E qs (sy_workers s j)"
    using assms(1) by (simp_all add: pipe_inv_def Let_def)
  have w: "at_work ks E base n qs ?w" using inv inv(4) [of i] sent_messages [OF f(2)] by (simp add: at_work_def share_to_def worker_ok_def)
  have "\<exists>v. run_worker E R op (?w, []) = (Inr (), v, []) \<and> at_work ks E base n qs v"
  proof (cases op)
    case (Deliver d body)
    then have "body \<in> marshal_queue_entry ` set qs" using assms(2) f(2) by (simp add: sent_ok_def)
    then show ?thesis using delivery_run [OF w] by (simp add: run_worker_def Deliver)
  qed (use tick_run [OF w] closed_run [OF w] in \<open>simp_all add: run_worker_def\<close>)
  then have w': "at_work ks E base n qs w'" using assms(3) by auto
  have "sent_ok base start f qs (ta_filePos (rd_tail ?r)) (share_back w' ?r)" by (rule sent_frame [OF f(2)]) (simp_all add: share_back_def)
  then show ?thesis using f(1) inv(1,4) w' by (auto simp: pipe_inv_def Let_def share_back_def at_work_def)
qed

lemma pipe_inv_run:
  assumes "pipe_run E R s1 s" "pipe_inv ks E base start n qs s1"
  shows "\<exists>qs'. pipe_inv ks E base start n (qs @ qs') s \<and> rd_seq (sy_reader s1) \<le> rd_seq (sy_reader s) \<and> (\<forall>q \<in> set qs'. rd_seq (sy_reader s1) < qe_Seq q)"
  using assms(1)
proof (induction rule: pipe_run.induct)
  case start
  then show ?case using assms(2) by (intro exI [of _ "[]"]) simp
next
  case (append s f added)
  then obtain qs' where i: "pipe_inv ks E base start n (qs @ qs') s" "rd_seq (sy_reader s1) \<le> rd_seq (sy_reader s)" "\<forall>q \<in> set qs'. rd_seq (sy_reader s1) < qe_Seq q" by blast
  let ?r = "sy_reader s" let ?r' = "?r\<lparr>rd_tail := (rd_tail ?r)\<lparr>ta_file := Some (f @ added)\<rparr>\<rparr>"
  have "sent_ok base start f (qs @ qs') (ta_filePos (rd_tail ?r)) ?r" using i(1) append.hyps(2) by (simp add: pipe_inv_def Let_def)
  from sent_frame [OF sent_append [OF this], of ?r' added]
  have "pipe_inv ks E base start n ((qs @ qs') @ []) (s\<lparr>sy_reader := ?r'\<rparr>)" by (intro inv_reader [OF i(1), of _ "f @ added"]) simp_all
  then show ?case using i(2,3) by (intro exI [of _ qs']) simp
next
  case (read s f added drained fs res r' fs')
  then obtain qs' where i: "pipe_inv ks E base start n (qs @ qs') s" "rd_seq (sy_reader s1) \<le> rd_seq (sy_reader s)" "\<forall>q \<in> set qs'. rd_seq (sy_reader s1) < qe_Seq q" by blast
  have ok: "sent_ok base start f (qs @ qs') (ta_filePos (rd_tail (sy_reader s))) (sy_reader s)" "0 \<le> base" using i(1) read.hyps(2) by (simp_all add: pipe_inv_def Let_def)
  then have "0 \<le> rd_seq (sy_reader s)" by (simp add: sent_ok_def)
  from reader_pass_run [OF ok(1) read.hyps(2,3) this read.hyps(4,5)] obtain qs'' f' where
    r': "ta_file (rd_tail r') = Some f'" "sent_ok base start f' ((qs @ qs') @ qs'') (ta_filePos (rd_tail r')) r'" "ks (rd_world r') = ks (rd_world (sy_reader s))"
      "in_rows (rd_tail r') = in_rows (rd_tail (sy_reader s))" "rd_seq (sy_reader s) \<le> rd_seq r'" "\<forall>q \<in> set qs''. rd_seq (sy_reader s) < qe_Seq q" by blast
  have "pipe_inv ks E base start n ((qs @ qs') @ qs'') (s\<lparr>sy_reader := r'\<rparr>)" by (rule inv_reader [OF i(1) r'(1-4)])
  then show ?case using i(2,3) r'(5,6) by (intro exI [of _ "qs' @ qs''"]) force
next
  case (save s fs res r' fs')
  then obtain qs' where i: "pipe_inv ks E base start n (qs @ qs') s" "rd_seq (sy_reader s1) \<le> rd_seq (sy_reader s)" "\<forall>q \<in> set qs'. rd_seq (sy_reader s1) < qe_Seq q" by blast
  let ?r = "sy_reader s"
  obtain w where w: "flushed_pos R (?r, fs) = (Inr (snd (fst (GetFlushedPos R (rd_world ?r)))), ?r\<lparr>rd_world := w\<rparr>, fs)" "ks w = ks (rd_world ?r)" using flushed_pos_run by blast
  let ?pos = "snd (fst (GetFlushedPos R (rd_world ?r)))"
  have run: "on_tail (savePosition E ?pos) (?r\<lparr>rd_world := w\<rparr>, fs) = (res, r', fs')" using save.hyps(2) w(1) by (simp add: save_flushed_def bind_def)
  have r': "(ta_file (rd_tail r') = ta_file (rd_tail ?r) \<and> ta_filePos (rd_tail r') = ta_filePos (rd_tail ?r) \<and> in_rows (rd_tail r') = in_rows (rd_tail ?r)) \<and>
      r' = ?r\<lparr>rd_world := w\<rparr>\<lparr>rd_tail := rd_tail r'\<rparr>"
    by (rule on_tail_keeps [OF save_keeps _ run]) simp
  obtain f where f: "ta_file (rd_tail ?r) = Some f" "sent_ok base start f (qs @ qs') (ta_filePos (rd_tail ?r)) ?r" using i(1) by (auto simp: pipe_inv_def Let_def)
  obtain t where t: "r' = ?r\<lparr>rd_world := w, rd_tail := t\<rparr>" using r' by metis
  have "sent_ok base start f ((qs @ qs') @ []) (ta_filePos (rd_tail r')) r'" using sent_frame [OF f(2), of r'] r' t by simp
  then have "pipe_inv ks E base start n ((qs @ qs') @ []) (s\<lparr>sy_reader := r'\<rparr>)" by (intro inv_reader [OF i(1), of r' f]) (use r' f(1) w(2) t in simp_all)
  then show ?case using i(2,3) t by (intro exI [of _ qs']) simp
next
  case (work s op i res w' fs')
  then obtain qs' where i: "pipe_inv ks E base start n (qs @ qs') s" "rd_seq (sy_reader s1) \<le> rd_seq (sy_reader s)" "\<forall>q \<in> set qs'. rd_seq (sy_reader s1) < qe_Seq q" by blast
  from worker_step [OF i(1) work.hyps(2,3)] show ?case using i(2,3) by (intro exI [of _ qs']) (simp add: share_back_def)
qed

end

end
