(* ===== verification/Control.thy ===== *)
theory Control
  imports Redis
begin

text \<open>
  Pausing ingestion, \<^verbatim>\<open>control/ingestion.go\<close>: the interface the tailer and the handlers use, and its two implementations, a flag of the
  process and a flag in Redis of which every replica keeps a copy.
\<close>

section \<open>The interface\<close>

datatype control_call = Pause | Resume

locale ingestion_controller =
  fixes IsPaused :: "'s \<Rightarrow> bool" and apply_call :: "control_call \<Rightarrow> 's \<Rightarrow> 's"
  assumes pauses: "IsPaused (apply_call Pause s)" and resumes: "\<not> IsPaused (apply_call Resume s)"
begin

text \<open>The last call decides.\<close>

lemma last_call: "cs \<noteq> [] \<Longrightarrow> IsPaused (fold apply_call cs s) \<longleftrightarrow> last cs = Pause"
proof (induction cs rule: rev_induct)
  case (snoc c cs)
  then show ?case using pauses resumes by (cases c) auto
qed simp

end

section \<open>In the process\<close>

record localController =
  lc_paused :: bool

definition newLocalController :: localController where
  "newLocalController = \<lparr>lc_paused = False\<rparr>"

definition local_call :: "control_call \<Rightarrow> localController \<Rightarrow> localController" where
  "local_call call c = (case call of Pause \<Rightarrow> c\<lparr>lc_paused := True\<rparr> | Resume \<Rightarrow> c\<lparr>lc_paused := False\<rparr>)"

interpretation local_ic: ingestion_controller lc_paused local_call
  by unfold_locales (simp_all add: local_call_def)

section \<open>In Redis\<close>

definition ingestionPauseKey :: string where "ingestionPauseKey = ''ingestion:paused''"

text \<open>\<open>rc_cached\<close>: the copy of this replica. \<open>rc_out\<close>: what it handed to the channel the others listen to.\<close>

record 'w redisController =
  rc_world :: 'w
  rc_cached :: bool
  rc_out :: "string list"

definition readPaused :: "'w redis_ops \<Rightarrow> 'w redisController \<Rightarrow> bool \<times> 'w redisController" where
  "readPaused R c =
     (case GET R ingestionPauseKey (rc_world c) of
        (Inl err, w) \<Rightarrow> (False, c\<lparr>rc_world := w\<rparr>)
      | (Inr v, w) \<Rightarrow> (v = Some ''1'', c\<lparr>rc_world := w\<rparr>))"

definition newRedisController :: "'w redis_ops \<Rightarrow> 'w \<Rightarrow> 'w redisController" where
  "newRedisController R w = (let (p, c) = readPaused R \<lparr>rc_world = w, rc_cached = False, rc_out = []\<rparr> in c\<lparr>rc_cached := p\<rparr>)"

definition setPaused :: "'w redis_ops \<Rightarrow> bool \<Rightarrow> 'w redisController \<Rightarrow> 'w redisController" where
  "setPaused R paused c =
     (let value = (if paused then ''1'' else ''0'') in
      case SET R ingestionPauseKey value 0 (rc_world c) of
        (Inl err, w) \<Rightarrow> c\<lparr>rc_cached := paused, rc_world := w\<rparr>
      | (Inr _, w) \<Rightarrow> c\<lparr>rc_cached := paused, rc_world := w, rc_out := rc_out c @ [value]\<rparr>)"

definition redis_call :: "'w redis_ops \<Rightarrow> control_call \<Rightarrow> 'w redisController \<Rightarrow> 'w redisController" where
  "redis_call R call c = setPaused R (call = Pause) c"

interpretation redis_ic: ingestion_controller rc_cached "redis_call R" for R
  by unfold_locales (simp_all add: redis_call_def setPaused_def Let_def split: prod.split sum.split)

text \<open>What a replica does with a message, and every ten seconds.\<close>

definition on_message :: "string \<Rightarrow> 'w redisController \<Rightarrow> 'w redisController" where
  "on_message payload c = c\<lparr>rc_cached := (payload = ''1'')\<rparr>"

definition refresh :: "'w redis_ops \<Rightarrow> 'w redisController \<Rightarrow> 'w redisController" where
  "refresh R c = (let (p, c') = readPaused R c in c'\<lparr>rc_cached := p\<rparr>)"

section \<open>Replicas\<close>

context redis_up
begin

text \<open>A call that reached Redis is what every replica says once it has read the message or refreshed its copy.\<close>

lemma call_is_shared:
  assumes "c' = setPaused R paused c" "rc_world d = rc_world c'"
  shows "rc_cached (refresh R d) = paused" "\<exists>v. rc_out c' = rc_out c @ [v] \<and> rc_cached (on_message v d) = paused"
proof -
  let ?v = "if paused then ''1'' else ''0''"
  obtain w where w: "SET R ingestionPauseKey ?v 0 (rc_world c) = (Inr (), w)" using up_simple(2) by (metis (full_types) old.unit.exhaust)
  then have c': "c' = c\<lparr>rc_cached := paused, rc_world := w, rc_out := rc_out c @ [?v]\<rparr>" using assms(1) by (simp add: setPaused_def)
  show "\<exists>v. rc_out c' = rc_out c @ [v] \<and> rc_cached (on_message v d) = paused" by (auto simp: c' on_message_def)
  obtain r w2 where g: "GET R ingestionPauseKey w = (Inr r, w2)" using up_simple(1) by blast
  have "r = Some ?v" using get_law [OF g] set_law [OF w] by simp
  then show "rc_cached (refresh R d) = paused" using g assms(2) by (simp add: refresh_def readPaused_def c')
qed

end

text \<open>
  A pause that does not reach Redis is reported as one, but holds on this replica only, and there only until its copy is refreshed.
\<close>

lemma lost_pause:
  assumes "SET R ingestionPauseKey ''1'' 0 (rc_world c) = (Inl err, w)" "GET R ingestionPauseKey w = (Inr None, w')"
  shows "rc_cached (setPaused R True c) \<and> rc_out (setPaused R True c) = rc_out c \<and> \<not> rc_cached (refresh R (setPaused R True c))"
  using assms by (simp add: setPaused_def refresh_def readPaused_def)

end
