(* ===== verification/PipelineTheorems.thy ===== *)
theory PipelineTheorems
  imports PipelineInv Control
begin

text \<open>
  What the distributed tailer promises between two compactions, purges, restarts or changes of the leader: as long as the workers'
  statements succeed and Redis answers, the position the leader saves never passes a line that is not in the database, whatever is
  delivered in which order and how often, and however the reader fails or pauses; a number whose message the broker never took keeps that position
  where it is; and the reader resumes what it pauses.
\<close>

section \<open>What the pipeline promises\<close>

lemma accepted_non_blank: "filter (accepted E) (filter non_blank ls) = filter (accepted E) ls"
  by (induction ls) (auto simp: accepted_def non_blank_def)

lemma subseq_related: "subseq xs ys \<Longrightarrow> list_all2 P ys zs \<Longrightarrow> \<exists>zs'. list_all2 P xs zs' \<and> set zs' \<subseteq> set zs \<and> (distinct zs \<longrightarrow> distinct zs')"
proof (induction arbitrary: zs rule: list_emb.induct)
  case (list_emb_Cons xs ys y)
  then obtain z zs0 where "zs = z # zs0" "list_all2 P ys zs0" by (auto simp: list_all2_Cons1)
  with list_emb_Cons.IH [of zs0] show ?case by auto
next
  case (list_emb_Cons2 x y xs ys)
  then obtain z zs0 where z: "zs = z # zs0" "P y z" "list_all2 P ys zs0" by (auto simp: list_all2_Cons1)
  with list_emb_Cons2.IH [of zs0] obtain zs' where "list_all2 P xs zs'" "set zs' \<subseteq> set zs0" "distinct zs0 \<longrightarrow> distinct zs'" by blast
  with z list_emb_Cons2.hyps(1) show ?case by (intro exI [of _ "z # zs'"]) auto
qed auto

text \<open>The lines up to a message, each with its row.\<close>

lemma rows_up_to:
  assumes "stored_for E base qs n rows row_of h" "numbered qs" "distinct (map qe_Seq qs)" "\<And>q. q \<in> set qs' \<Longrightarrow> q \<in> set qs \<and> base < qe_Seq q \<and> reported h (qe_Seq q) \<noteq> None" "distinct qs'"
  defines "idx \<equiv> map (\<lambda>q. row_of (qe_Seq q)) (filter (\<lambda>q. accepted E (qe_Line q)) qs')"
  shows "distinct idx \<and> list_all2 (\<lambda>l j. n \<le> j \<and> j < length rows \<and> fits E l (rows ! j)) (filter (accepted E) (map qe_Line qs')) idx"
proof -
  let ?ok = "\<lambda>q. n \<le> row_of (qe_Seq q) \<and> row_of (qe_Seq q) < length rows \<and> fits E (qe_Line q) (rows ! row_of (qe_Seq q))"
  have ok: "?ok q" if "q \<in> set qs'" "accepted E (qe_Line q)" for q
  proof -
    note q = that assms(4) [OF that(1)]
    obtain q' where "q' \<in> set qs" "qe_Seq q' = qe_Seq q" "accepted E (qe_Line q') \<longrightarrow> ?ok q'" using storedE [OF assms(1), of "qe_Seq q"] q by metis
    then show ?thesis using q assms(2) by (metis numbered_def)
  qed
  have "inj_on row_of {i. base < i \<and> reported h i \<noteq> None \<and> (\<exists>q \<in> set qs. qe_Seq q = i \<and> accepted E (qe_Line q))}" using assms(1) by (simp add: stored_for_def)
  then have "inj_on row_of (qe_Seq ` set (filter (\<lambda>q. accepted E (qe_Line q)) qs'))" by (rule inj_on_subset) (use assms(4) in auto)
  moreover have "inj_on qe_Seq (set (filter (\<lambda>q. accepted E (qe_Line q)) qs'))" using assms(2,4) by (auto simp: inj_on_def numbered_def)
  ultimately have "inj_on (row_of \<circ> qe_Seq) (set (filter (\<lambda>q. accepted E (qe_Line q)) qs'))" by (rule comp_inj_on [rotated])
  then have "distinct idx" using assms(5) by (simp add: idx_def distinct_map comp_def)
  moreover have "list_all2 (\<lambda>l j. n \<le> j \<and> j < length rows \<and> fits E l (rows ! j)) (filter (accepted E) (map qe_Line qs')) idx"
    using ok by (auto simp: idx_def filter_map comp_def list_all2_map1 list_all2_map2 intro!: list.rel_refl_strong)
  ultimately show ?thesis ..
qed

context redis_up
begin

lemma flushed_pos_value: "GetFlushedPos R w = (p, w') \<Longrightarrow> p = (flushed_seq (tracker (ks w)), lua_number (tracker (ks w) posField))"
proof -
  obtain w1 where 1: "HGET R flushTrackerKey seqField w = (Inr (tracker (ks w) seqField), w1)" "ks w1 = ks w" using HGET_run by blast
  obtain w2 where 2: "HGET R flushTrackerKey posField w1 = (Inr (tracker (ks w1) posField), w2)" using HGET_run by blast
  assume "GetFlushedPos R w = (p, w')"
  then show ?thesis using 1 2 by (auto simp: GetFlushedPos_def flushed_seq_def redisToInt64_def lua_number_def)
qed

lemma frontier_stored:
  assumes "pipe_inv ks E base start n qs s" "base < flushed_seq (tracker (ks (rd_world (sy_reader s))))" "ta_file (rd_tail (sy_reader s)) = Some file"
  defines "p \<equiv> nat (lua_number (tracker (ks (rd_world (sy_reader s))) posField))" and "rows \<equiv> in_rows (rd_tail (sy_reader s))"
  shows "p \<le> length file \<and> (\<exists>idx. distinct idx \<and>
    list_all2 (\<lambda>l j. n \<le> j \<and> j < length rows \<and> fits E l (rows ! j)) (filter (accepted E) (complete_lines (drop start (take p file)))) idx)"
proof -
  let ?h = "tracker (ks (rd_world (sy_reader s)))" let ?s = "flushed_seq ?h"
  have sent: "sent_ok base start file qs (ta_filePos (rd_tail (sy_reader s))) (sy_reader s)" and tr: "tracked E base qs n rows ?h" "0 \<le> base"
    using assms(1,3) by (simp_all add: pipe_inv_def Let_def rows_def)
  obtain row_of where st: "stored_for E base qs n rows row_of ?h" "tracker_ok ?h" using tr(1) by (auto simp: tracked_def)
  have all: "reported ?h i \<noteq> None" if "base < i" "i \<le> ?s" for i using st(2) that tr(2) by (simp add: tracker_ok_def)
  obtain q where q: "q \<in> set qs" "qe_Seq q = ?s" "reported ?h ?s = Some (itoa (qe_NextPos q))" using storedE [OF st(1) assms(2) all] assms(2) by auto
  have m: "message_ok base start file qs q" using sent q(1) by (simp add: sent_ok_def)
  then have "is_int64 (qe_NextPos q)" by (simp add: message_ok_def)
  then have pos: "p = nat (qe_NextPos q)" using st(2) q(3) assms(2) tr(2) by (simp add: tracker_ok_def p_def)
  let ?qs = "filter (\<lambda>q'. qe_Seq q' \<le> ?s) qs"
  have lines: "subseq (lines_to start file p) (map qe_Line ?qs)" "p \<le> length file" using m q(2) pos by (simp_all add: message_ok_def)
  have num: "numbered qs" "distinct (map qe_Seq qs)" using sent sorted_numbered [of qs] by (simp_all add: sent_ok_def strict_sorted_iff)
  have "q' \<in> set qs \<and> base < qe_Seq q' \<and> reported ?h (qe_Seq q') \<noteq> None" if "q' \<in> set ?qs" for q'
    using that all [of "qe_Seq q'"] sent by (auto simp: sent_ok_def message_ok_def)
  moreover have "distinct ?qs" using num(2) by (simp add: distinct_map)
  ultimately obtain idx where idx: "distinct idx" "list_all2 (\<lambda>l j. n \<le> j \<and> j < length rows \<and> fits E l (rows ! j)) (filter (accepted E) (map qe_Line ?qs)) idx"
    using rows_up_to [OF st(1) num] by blast
  have "subseq (filter (accepted E) (lines_to start file p)) (filter (accepted E) (map qe_Line ?qs))" using lines(1) by (rule subseq_filter)
  from subseq_related [OF this idx(2)] idx(1) show ?thesis using lines(2) unfolding lines_to_def accepted_non_blank by blast
qed

end

text \<open>
  In a run with one leader, without compaction, purge and restart, in which Redis answers and the workers' statements succeed (a worker reports a batch
  whatever became of it), and with lines that are valid UTF-8 and within the limit: whatever the reader's statements do, however often it is paused, and whatever
  the workers are given in which order and how often, once the tracker
  has moved since the start, every line with a host between the start and the position the leader saves has a row of its own among
  those stored since. A leader that starts again there loses nothing. (C4)
\<close>
theorem saved_position_covers_stored_lines:
  assumes "redis_up ks clk adv R" "fresh ks E s0" "pipe_run E R s0 s" "ta_file (rd_tail (sy_reader s)) = Some file"
    and "GetFlushedPos R (rd_world (sy_reader s)) = ((seq, pos), w)" "rd_seq (sy_reader s0) < seq"
  shows "nat pos \<le> length file \<and> (\<exists>idx. distinct idx \<and>
    list_all2 (\<lambda>line j. length (in_rows (rd_tail (sy_reader s0))) \<le> j \<and> j < length (in_rows (rd_tail (sy_reader s))) \<and> fits E line (in_rows (rd_tail (sy_reader s)) ! j))
      (filter (accepted E) (complete_lines (drop (ta_filePos (rd_tail (sy_reader s0))) (take (nat pos) file)))) idx)"
proof -
  obtain qs where inv: "pipe_inv ks E (rd_seq (sy_reader s0)) (ta_filePos (rd_tail (sy_reader s0))) (length (in_rows (rd_tail (sy_reader s0)))) qs s"
    using redis_up.pipe_inv_run [OF assms(1,3) fresh_inv [OF assms(2)]] by auto
  have "(seq, pos) = (flushed_seq (tracker (ks (rd_world (sy_reader s)))), lua_number (tracker (ks (rd_world (sy_reader s))) posField))"
    by (rule redis_up.flushed_pos_value [OF assms(1,5)])
  then show ?thesis using redis_up.frontier_stored [OF assms(1) inv _ assms(4)] assms(6) by simp
qed


definition demo_reader :: "mem_state reader" where
  "demo_reader = \<lparr>rd_tail = demo_start, rd_world = memf, rd_seq = 0, rd_sent = [], rd_control = [], rd_status = MaintenanceIdle\<rparr>"

definition demo_worker :: "mem_state work" where
  "demo_worker = \<lparr>in_rows = [], in_rate = 0, in_alerts = [], in_cache = Map.empty, in_tick = 0, wk_world = memf, wk_entries = [], wk_queueEntries = [], wk_deliveries = [],
     wk_pending = 0, wk_lastFlush = - Second, wk_answers = []\<rparr>"

definition demo_sys :: "mem_state sys" where
  "demo_sys = \<lparr>sy_reader = demo_reader, sy_workers = (\<lambda>i. demo_worker)\<rparr>"

definition demo_message :: "int \<Rightarrow> QueueEntry" where
  "demo_message seq = \<lparr>qe_Seq = seq, qe_NextPos = 17, qe_Line = demo_text\<rparr>"

lemma demo_tracker: "tracker (mem_ks memf) = Map.empty"
  by (simp add: tracker_def memf_def key_hash_def)

lemma demo_fresh: "fresh mem_ks demo_tail_env demo_sys"
  using demo_start_ok by (simp add: fresh_def demo_sys_def demo_reader_def demo_worker_def demo_tracker Let_def tracker_ok_def flushed_seq_def lua_number_def reported_def cache_ok_def)

lemma demo_valid: "valid_utf8 demo_text"
proof -
  have "json_body ''hostname'' = ''hostname''" "json_body ''h'' = ''h''" by (simp_all add: json_body.simps json_escape_def bslash_def Let_def)
  then have t: "demo_text = ''{'' @ [CHR 0x22] @ ''hostname'' @ [CHR 0x22] @ '':'' @ [CHR 0x22] @ ''h'' @ [CHR 0x22] @ ''}''"
    by (simp add: demo_text_def json_object_def json_string_def)
  show ?thesis unfolding t by (simp add: valid_utf8.simps rune_len_def utf8_first_def)
qed

lemma demo_readable: "seq \<in> {0, 1} \<Longrightarrow> readable (demo_text @ [newline]) seq"
  using demo_lines demo_valid by (auto simp: readable_def is_int64_def demo_text_chars(4))

lemma demo_pos: "GetFlushedPos mem_redis memf = ((0, 0), memf)"
  by (simp add: GetFlushedPos_def mem_redis_def memf_def key_hash_def redisToInt64_def)

lemma demo_pass:
  fixes r :: "mem_state reader"
  assumes "rd_tail r = demo_start\<lparr>ta_file := Some f, in_tick := t\<rparr>" "f @ added = demo_text @ [newline]" "rd_world r = memf" "rd_seq r \<in> {0, 1}" "b \<in> {True, False}"
  shows "FileReader_pass demo_tail_env mem_redis False added (r, [False, False, b]) =
    (Inr (), r\<lparr>rd_seq := rd_seq r + 1, rd_sent := (if b then rd_sent r else rd_sent r @ [marshal_queue_entry (demo_message (rd_seq r + 1))]),
       rd_tail := demo_start\<lparr>ta_file := Some (demo_text @ [newline]), in_tick := t + 3, ta_filePos := (if b then 0 else 17)\<rparr>\<rparr>, [])"
proof -
  have len: "length f \<le> 17" using arg_cong [OF assms(2), of length] by (simp add: demo_text_chars(4))
  have small: "\<not> shouldCompact 0 0 (length f)" using len by (simp add: shouldCompact_def time_sub_def compactionInterval_def Minute_def maxFileSize_def)
  have tokens: "scan_tokens maxLineSize (demo_text @ [newline]) = [(17, demo_text)]" using scan_tokens_lines [OF demo_lines(2)] demo_lines(1) demo_text_chars(4) by simp
  have seq: "int64 (rd_seq r + 1) = rd_seq r + 1" using assms(4) by (auto simp: int64_id is_int64_def)
  have "demo_text \<noteq> []" using demo_text_chars(1) by auto
  then show ?thesis using assms small tokens seq demo_start_ok demo_pos
    by (cases r) (auto simp: FileReader_pass_def reader_compaction_def publish_pass_def bind_def on_tail_def query_def stmt_def flushed_pos_def Now_def IsPaused_def demo_tail_env_def demo_start_def demo_tail_def
        backseek_def next_seq_def NextSeq_def attempt_def Publish_def demo_message_def)
qed

lemma demo_start_tail: "rd_tail demo_reader = demo_start\<lparr>ta_file := Some [], in_tick := 0\<rparr>"
  by (simp add: demo_reader_def demo_start_def demo_tail_def)

lemma demo_parts: "rd_world demo_reader = memf" "rd_seq demo_reader = 0" "rd_sent demo_reader = []" "ta_file (rd_tail demo_reader) = Some []"
  by (simp_all add: demo_reader_def demo_start_ok)

lemma demo_calm: "ta_file (rd_tail r) = Some f \<Longrightarrow> length f \<le> 17 \<Longrightarrow> ta_lastCompaction (rd_tail r) = 0 \<Longrightarrow> \<not> reader_compacts demo_tail_env mem_redis r"
  by (simp add: reader_compacts_def shouldCompact_def time_sub_def compactionInterval_def Minute_def maxFileSize_def demo_tail_env_def)

definition demo_sent :: "bool \<Rightarrow> mem_state reader" where
  "demo_sent b = demo_reader\<lparr>rd_seq := 1, rd_sent := (if b then [] else [marshal_queue_entry (demo_message 1)]),
     rd_tail := demo_start\<lparr>ta_file := Some (demo_text @ [newline]), in_tick := 3, ta_filePos := (if b then 0 else 17)\<rparr>\<rparr>"

lemma demo_first_pass: "pipe_run demo_tail_env mem_redis demo_sys (demo_sys\<lparr>sy_reader := demo_sent b\<rparr>)"
proof -
  have "FileReader_pass demo_tail_env mem_redis False (demo_text @ [newline]) (demo_reader, [False, False, b]) = (Inr (), demo_sent b, [])"
    using demo_pass [OF demo_start_tail, of "demo_text @ [newline]" b] by (cases b) (simp_all add: demo_sent_def demo_parts)
  then show ?thesis
    by (intro read [OF start, of _ "[]" "demo_text @ [newline]"]) (simp_all add: demo_sys_def demo_reader_def demo_start_ok demo_readable demo_calm demo_start_def demo_tail_def)
qed


lemma demo_report:
  assumes "wk_world w = memf"
  shows "\<exists>w'. report_flushed mem_redis [demo_message 1] (w, []) = (Inr (), w\<lparr>wk_world := w'\<rparr>, []) \<and> (\<exists>w''. GetFlushedPos mem_redis w' = ((1, 17), w''))"
proof -
  have h: "tracker_ok (tracker (mem_ks memf))" "finite (dom (tracker (mem_ks memf)))" using demo_fresh by (simp_all add: fresh_def Let_def demo_sys_def demo_parts)
  from report_frontier [OF mem.redis_up_axioms h, of "[demo_message 1]"] obtain s p w' where
    r: "ReportFlushed mem_redis [demo_message 1] memf = Some (Inr (s, p), w')" "tracker_ok (tracker (mem_ks w'))" "flushed_seq (tracker (mem_ks w')) = s" "flushed_seq (tracker (mem_ks memf)) \<le> s"
      "\<forall>i. 0 < i \<and> i \<le> s \<longrightarrow> reported (tracker (mem_ks memf)) i \<noteq> None \<or> i \<in> qe_Seq ` set [demo_message 1]" "s + 1 \<notin> qe_Seq ` set [demo_message 1]"
      "\<forall>i. reported (tracker (mem_ks w')) i = reported (put_reports (map (\<lambda>e. (qe_Seq e, qe_NextPos e)) [demo_message 1]) (tracker (mem_ks memf))) i"
    by (auto simp: demo_message_def is_int64_def)
  have one: "s = 1"
  proof -
    have "0 \<le> s" using r(4) by (simp add: demo_tracker flushed_seq_def lua_number_def)
    moreover have "s \<noteq> 0" using r(6) by (auto simp: demo_message_def)
    moreover have "\<not> 2 \<le> s" using r(5) [rule_format, of 2] by (auto simp: demo_tracker reported_def demo_message_def)
    ultimately show ?thesis by simp
  qed
  have "reported (tracker (mem_ks w')) 1 = Some (itoa 17)" using r(7) [rule_format, of 1] by (simp add: demo_tracker reported_def demo_message_def)
  then have pos: "lua_number (tracker (mem_ks w') posField) = 17" using r(2,3) one by (simp add: tracker_ok_def is_int64_def)
  obtain q w'' where g: "GetFlushedPos mem_redis w' = (q, w'')" by (cases "GetFlushedPos mem_redis w'")
  have "q = (1, 17)" using mem.flushed_pos_value [OF g] r(3) one pos by simp
  then show ?thesis using r(1) g assms by (intro exI [of _ w']) (simp add: report_flushed_def)
qed

lemma demo_delivery:
  assumes "in_cache w = Map.empty" "wk_world w = memf" "wk_entries w = []" "wk_queueEntries w = []" "wk_lastFlush w = - Second"
  shows "\<exists>w'. worker_delivery demo_tail_env mem_redis d (marshal_queue_entry (demo_message 1)) (w, []) = (Inr (), w', []) \<and> (\<exists>w''. GetFlushedPos mem_redis (wk_world w') = ((1, 17), w''))"
proof -
  let ?q = "demo_message 1"
  have body: "unmarshal_queue_entry (marshal_queue_entry ?q) = Some ?q" by (rule queue_entry_read) (simp_all add: demo_message_def demo_valid is_int64_def)
  have line: "qe_Line ?q = demo_text" "demo_text \<noteq> []" using demo_text_chars(1) by (auto simp: demo_message_def)
  let ?w = "w\<lparr>in_tick := Suc (in_tick w)\<rparr>"
  obtain ts ms cache m where p: "prepare_line demo_tail_env demo_text (?w, []) = (Inr (prepared_of demo_tail_env ts demo_text), ?w\<lparr>in_alerts := in_alerts ?w @ ms, in_cache := cache, in_tick := m\<rparr>, [])"
    by (rule prepare_run [of demo_tail_env ?w demo_text "[]"]) (use assms(1) in \<open>auto simp: cache_ok_def\<close>)
  obtain e where e: "prepared_of demo_tail_env ts demo_text = Ready e"
    using demo_text_ready(1) prepared_ready [of demo_tail_env "[]" demo_text _ ts] by (auto simp: accepted_def split: prepared.splits)
  let ?x = "?w\<lparr>in_alerts := in_alerts ?w @ ms, in_cache := cache, in_tick := m, wk_entries := [e], wk_queueEntries := [?q], wk_deliveries := wk_deliveries w @ [d], wk_pending := 1, in_tick := Suc (Suc m)\<rparr>"
  have full: "time_sub 0 (- Second) \<ge> workerBatchInterval" by (simp add: time_sub_def Second_def workerBatchInterval_def Millisecond_def)
  have run: "worker_delivery demo_tail_env mem_redis d (marshal_queue_entry ?q) (w, []) = flush_worker demo_tail_env mem_redis 0 (?x, [])"
    using body line p e full assms by (simp add: worker_delivery_def bind_def IsPaused_def Now_def keep_entry_def demo_tail_env_def)
  obtain rs t r where f: "flushBatch demo_tail_env [e] (?x, []) = (Inr (), ?x\<lparr>in_rows := in_rows ?x @ rs, in_rate := r, in_tick := t\<rparr>, [])" using flushBatch_run by blast
  let ?y = "?x\<lparr>in_rows := in_rows ?x @ rs, in_rate := r, in_tick := t, in_alerts := in_alerts ?x @ [Batch [e]]\<rparr>"
  obtain v where v: "report_flushed mem_redis [?q] (?y, []) = (Inr (), ?y\<lparr>wk_world := v\<rparr>, [])" "\<exists>w''. GetFlushedPos mem_redis v = ((1, 17), w'')"
    using demo_report [of ?y] assms(2) by auto
  show ?thesis unfolding run using f v by (simp add: flush_worker_def attempt_def bind_def call_alerts_def answer_def clear_batch_def)
qed

theorem saved_position_covers_stored_lines_witness:
  "\<exists>s w row. pipe_run demo_tail_env mem_redis demo_sys s \<and> GetFlushedPos mem_redis (rd_world (sy_reader s)) = ((1, 17), w) \<and>
     row \<in> set (in_rows (rd_tail (sy_reader s))) \<and> fits demo_tail_env demo_text row"
proof -
  let ?r = "demo_sent False"
  obtain w' w'' where w': "worker_delivery demo_tail_env mem_redis 0 (marshal_queue_entry (demo_message 1)) (share_to ?r demo_worker, []) = (Inr (), w', [])"
      "GetFlushedPos mem_redis (wk_world w') = ((1, 17), w'')"
    using demo_delivery [of "share_to ?r demo_worker" 0] by (auto simp: share_to_def demo_worker_def demo_sent_def demo_parts)
  let ?s = "(demo_sys\<lparr>sy_reader := ?r\<rparr>)\<lparr>sy_reader := share_back w' ?r, sy_workers := (\<lambda>i. demo_worker)(0 := w')\<rparr>"
  have run: "pipe_run demo_tail_env mem_redis demo_sys ?s"
    using work [OF demo_first_pass [of False], of "Deliver 0 (marshal_queue_entry (demo_message 1))" 0] w'(1) by (simp add: demo_sys_def run_worker_def demo_sent_def)
  have "nat 17 \<le> length (demo_text @ [newline]) \<and> (\<exists>idx. distinct idx \<and>
    list_all2 (\<lambda>line j. length (in_rows (rd_tail (sy_reader demo_sys))) \<le> j \<and> j < length (in_rows (rd_tail (sy_reader ?s))) \<and> fits demo_tail_env line (in_rows (rd_tail (sy_reader ?s)) ! j))
      (filter (accepted demo_tail_env) (complete_lines (drop (ta_filePos (rd_tail (sy_reader demo_sys))) (take (nat 17) (demo_text @ [newline]))))) idx)"
    by (rule saved_position_covers_stored_lines [OF mem.redis_up_axioms demo_fresh run, where seq = 1 and w = w'']) (use w'(2) in \<open>simp_all add: share_back_def demo_sent_def demo_sys_def demo_parts\<close>)
  then have "\<exists>row \<in> set (in_rows (rd_tail (sy_reader ?s))). fits demo_tail_env demo_text row"
    using demo_lines(1) demo_text_ready(1) by (auto simp: demo_sys_def demo_reader_def demo_start_ok demo_text_chars(4) list_all2_Cons1)
  then show ?thesis using run w'(2) by (intro exI [of _ ?s]) (auto simp: share_back_def)
qed

section \<open>Pauses\<close>

lemma on_tail_control: "on_tail m (r, fs) = (x, r', fs') \<Longrightarrow> rd_control r' = rd_control r"
  by (cases "m (rd_tail r, fs)") (auto simp: on_tail_def)

lemma purge_control: "\<exists>b r' fs'. PurgeTailerQueue R (r, fs) = (Inr b, r', fs') \<and> rd_control r' = rd_control r"
  by (cases "fs \<noteq> [] \<and> hd fs") (auto simp: PurgeTailerQueue_def attempt_def Purge_def stmt_def bind_def reset_tracker_def split: prod.split)

lemma save_returns: "\<exists>t' fs'. savePosition E pos (t, fs) = (Inr (), t', fs')"
proof -
  have fp: "\<exists>fp fs'. positionFingerprint E pos (t, fs) = (Inr fp, t, fs')"
    by (cases "pos \<le> 0"; cases "query (\<lambda>s. case ta_file s of None \<Rightarrow> Inl SqlErr
        | Some file \<Rightarrow> if nat pos \<le> length file then Inr (te_hash E (fingerprint_bytes file (nat pos))) else Inl SqlErr) (t, fs)")
      (auto simp: positionFingerprint_def attempt_def query_def stmt_def split: if_splits sum.splits option.splits)
  then obtain fp fs1 where fp: "positionFingerprint E pos (t, fs) = (Inr fp, t, fs1)" by blast
  show ?thesis
    by (cases "fs1 \<noteq> [] \<and> hd fs1"; cases "tl fs1 \<noteq> [] \<and> hd (tl fs1)"; cases "te_shared E")
      (auto simp: savePosition_def bind_def fp Let_def attempt_def query_def stmt_def SaveTailerPosition_def)
qed

lemma flushed_pos_control: "\<exists>p w. flushed_pos R (r, fs) = (Inr p, r\<lparr>rd_world := w\<rparr>, fs)"
  by (cases "GetFlushedPos R (rd_world r)") (auto simp: flushed_pos_def split: prod.split)

lemma compaction_control:
  assumes "reader_compaction E R drained fileSize (r, fs) = (x, r', fs')"
  shows "rd_control r' = rd_control r \<or> rd_control r' = rd_control r @ [True, False]"
proof -
  obtain p w where p: "flushed_pos R (r, fs) = (Inr p, r\<lparr>rd_world := w\<rparr>, fs)" using flushed_pos_control [of R r fs] by (elim exE) (rule that)
  let ?now = "te_now E (in_tick (rd_tail r))"
  let ?r1 = "r\<lparr>rd_world := w, rd_tail := (rd_tail r)\<lparr>in_tick := Suc (in_tick (rd_tail r))\<rparr>, rd_control := rd_control r @ [True]\<rparr>"
  obtain b r2 fs2 where g: "PurgeTailerQueue R (?r1, fs) = (Inr b, r2, fs2)" "rd_control r2 = rd_control r @ [True]" using purge_control [of R ?r1 fs] by auto
  obtain y r3 fs3 where c: "on_tail (compactFile (nat p)) (r2, fs2) = (y, r3, fs3)" by (cases "on_tail (compactFile (nat p)) (r2, fs2)")
  let ?r4 = "r3\<lparr>rd_tail := (rd_tail r3)\<lparr>ta_filePos := 0\<rparr>\<rparr>"
  obtain t5 fs5 where s5: "savePosition E 0 (rd_tail ?r4, fs3) = (Inr (), t5, fs5)" using save_returns by blast
  have r3: "rd_control r3 = rd_control r @ [True]" using on_tail_control [OF c] g(2) by simp
  show ?thesis
  proof (cases "shouldCompact ?now (ta_lastCompaction (rd_tail r)) fileSize \<and> enoughFlushed fileSize (nat p)")
    case True
    show ?thesis
    proof (cases drained)
      case True
      then show ?thesis using assms \<open>shouldCompact _ _ _ \<and> _\<close> p g(1) c s5 r3
        by (cases y) (auto simp: reader_compaction_def bind_def on_tail_def [of "Now E"] on_tail_def [of "local f" for f] on_tail_def [of "savePosition E 0"] Now_def tell_def attempt_def)
    next
      case False
      then show ?thesis using assms \<open>shouldCompact _ _ _ \<and> _\<close> p by (auto simp: reader_compaction_def bind_def on_tail_def Now_def tell_def)
    qed
  next
    case False
    then show ?thesis using assms p by (auto simp: reader_compaction_def bind_def on_tail_def Now_def)
  qed
qed

lemma control_tail: "keeps (\<lambda>r. rd_control r = c) (on_tail m)"
  by (auto simp: keeps_def on_tail_def split: prod.split)

lemma control_loop: "keeps (\<lambda>r. rd_control r = c) (publish_loop E ls cur pub)"
proof -
  have run: "rd_control r' = rd_control r" if "publish_loop E ls cur pub (r, fs) = (x, r', fs')" for r r' :: "'w reader" and fs fs' x
    using that
  proof (induction ls arbitrary: cur pub r fs)
    case (Cons a ls)
    obtain k l where a: "a = (k, l)" by (cases a)
    from Cons.prems show ?case unfolding a by (cases rule: publish_cases) (use Cons.IH in force)+
  qed simp
  show ?thesis
  proof (rule keepsI)
    fix s :: "'w reader \<times> bool list" assume "rd_control (fst s) = c"
    then show "rd_control (fst (snd (publish_loop E ls cur pub s))) = c" using run by (cases s; cases "publish_loop E ls cur pub s") force
  qed
qed

lemma control_pass: "keeps (\<lambda>r. rd_control r = c) (publish_pass E added)"
  unfolding publish_pass_def by (intro keeps_intros keeps_local control_tail control_loop) auto

lemma bind_outcome: "bind m k s = (x, s') \<Longrightarrow> (\<exists>err. m s = (Inl err, s')) \<or> (\<exists>y s1. m s = (Inr y, s1) \<and> k y s1 = (x, s'))"
  by (auto simp: bind_def split: prod.splits sum.splits)

text \<open>
  However its statements fail, a pass of the reader that pauses ingestion also resumes it: it calls \<^verbatim>\<open>Pause\<close> and then \<^verbatim>\<open>Resume\<close>, once each,
  or neither. (C40)
\<close>
theorem compaction_always_resumes:
  assumes "FileReader_pass E R drained added (r, fs) = (x, r', fs')"
  shows "rd_control r' = rd_control r \<or> rd_control r' = rd_control r @ [True, False]"
proof -
  have kept: "rd_control (fst (snd (m s))) = rd_control (fst s)" if "\<And>c. keeps (\<lambda>r. rd_control r = c) m" for m :: "('a reader, 'b) sql" and s
    using keepsD [OF that, of s] by simp
  from bind_outcome [OF assms [unfolded FileReader_pass_def]] consider
      (failed) err where "on_tail (query (\<lambda>s. case ta_file s of None \<Rightarrow> Inl NoRows | Some file \<Rightarrow> Inr (length file))) (r, fs) = (Inl err, r', fs')"
    | (sized) y s1 where "on_tail (query (\<lambda>s. case ta_file s of None \<Rightarrow> Inl NoRows | Some file \<Rightarrow> Inr (length file))) (r, fs) = (Inr y, s1)"
        "bind (on_tail (local (\<lambda>s. ((), if ta_filePos s > y then s\<lparr>ta_filePos := 0\<rparr> else s)))) (\<lambda>_. bind (reader_compaction E R drained y) (\<lambda>_. publish_pass E added)) s1 = (x, r', fs')"
    by blast
  then show ?thesis
  proof cases
    case failed
    then show ?thesis using on_tail_control by blast
  next
    case sized
    obtain r1 fs1 where s1: "s1 = (r1, fs1)" by (cases s1)
    have r1: "rd_control r1 = rd_control r" using on_tail_control sized(1) s1 by metis
    obtain r2 fs2 where r2: "on_tail (local (\<lambda>s. ((), if ta_filePos s > y then s\<lparr>ta_filePos := 0\<rparr> else s))) (r1, fs1) = (Inr (), r2, fs2)" "rd_control r2 = rd_control r"
      using r1 by (simp add: on_tail_def)
    obtain z r3 fs3 where c: "reader_compaction E R drained y (r2, fs2) = (z, r3, fs3)" by (cases "reader_compaction E R drained y (r2, fs2)")
    have run: "bind (reader_compaction E R drained y) (\<lambda>_. publish_pass E added) (r2, fs2) = (x, r', fs')" using sized(2) r2(1) by (simp add: s1 bind_def)
    have "rd_control r' = rd_control r3"
    proof (cases z)
      case (Inl err)
      then show ?thesis using run c by (simp add: bind_def)
    next
      case (Inr u)
      then have "publish_pass E added (r3, fs3) = (x, r', fs')" using run c by (simp add: bind_def)
      then show ?thesis using kept [OF control_pass, of E added "(r3, fs3)"] by simp
    qed
    then show ?thesis using compaction_control [OF c] r2(2) by simp
  qed
qed

theorem compaction_always_resumes_witness:
  "\<exists>r x r' fs'. FileReader_pass demo_tail_env mem_redis False [] (r, []) = (x, r', fs') \<and> rd_control r = [] \<and> rd_control r' = [True, False]"
proof -
  obtain w w'' where w: "GetFlushedPos mem_redis w = ((1, 17), w'')" using demo_report [of demo_worker] by (auto simp: demo_worker_def)
  let ?f = "demo_text @ [newline]"
  let ?r = "demo_reader\<lparr>rd_world := w, rd_tail := demo_start\<lparr>ta_file := Some ?f, ta_filePos := 17, ta_lastCompaction := - 2 * compactionInterval\<rparr>\<rparr>"
  have due: "shouldCompact 0 (- (2 * compactionInterval)) 17 \<and> enoughFlushed 17 17" by (simp add: shouldCompact_def enoughFlushed_def time_sub_def compactionInterval_def Minute_def)
  obtain x r' fs' where run: "FileReader_pass demo_tail_env mem_redis False [] (?r, []) = (x, r', fs')" by (cases "FileReader_pass demo_tail_env mem_redis False [] (?r, [])")
  have "rd_control r' \<noteq> rd_control ?r"
    using run w due by (auto simp: FileReader_pass_def reader_compaction_def bind_def on_tail_def flushed_pos_def Now_def tell_def demo_text_chars(4) demo_tail_env_def demo_start_def demo_tail_def)
  then have "rd_control r' = rd_control ?r @ [True, False]" using compaction_always_resumes [OF run] by blast
  then show ?thesis using run by (intro exI [of _ ?r] exI [of _ x] exI [of _ r'] exI [of _ fs']) (simp add: demo_reader_def)
qed

section \<open>Updates\<close>

text \<open>
  A preparation that is given up because the context ends, the file is not replaced or a statement fails is nevertheless recorded as
  completed; one on a single server empties the file whether or not its lines were read.
\<close>

lemma update_reported_completed:
  assumes "PrepareForUpdate E R ha slept (r, fs) = (x, r', fs')"
  shows "rd_status r' = MaintenanceCompleted"
proof -
  let ?client = "if te_shared E then Some R else None"
  let ?m = "if ha then prepareHA E R slept else prepareSingleServer E R slept"
  let ?r = "r\<lparr>rd_status := MaintenancePreparing, rd_world := writeStatus ?client MaintenancePreparing (rd_world r), rd_control := rd_control r @ [True]\<rparr>"
  obtain y r1 fs1 where m: "?m (?r, fs) = (y, r1, fs1)" by (cases "?m (?r, fs)")
  then show ?thesis using assms by (cases y) (auto simp: PrepareForUpdate_def Let_def set_status_def tell_def bind_def attempt_def throw_def)
qed

lemma update_discards_unread_lines:
  "\<exists>r'. PrepareForUpdate E R False True (r, []) = (Inr (), r', []) \<and> ta_file (rd_tail r') = Some [] \<and> in_rows (rd_tail r') = in_rows (rd_tail r)"
  by (simp add: PrepareForUpdate_def prepareSingleServer_def truncateLogFile_def resetPosition_def ResetTailerPosition_def Let_def set_status_def tell_def bind_def attempt_def on_tail_def)

end
