(* ===== verification/Spec2Isabelle.thy ===== *)
theory Spec2Isabelle
  imports AlertTheorems NotifyTheorems BellTheorems RuleTheorems FlushTracker Leader RateLimiter ApiKeyTheorems LogTheorems ParserTables AuthSessions PartitionTheorems RotationTheorems AdminTheorems TailerTheorems PipelineTheorems
begin

text \<open>
  Logmara, a syslog collector: a model of the Go backend under \<^verbatim>\<open>src/backend\<close> and the theorems about it.

  \<^bold>\<open>The program.\<close> rsyslog writes JSON lines to a spool file. The tailer reads them, has the parser engine extract
  fields, stores them in PostgreSQL (directly, or through a queue with several replicas), and hands every batch to the alert
  engine. The alert engine decides which rules fire and gives firings to the dispatcher, which sends them to the
  channels of the rule: the in-app bell, web push, mail, webhooks. HTTP handlers manage rules, channels, parsers and API
  keys, show notifications, and page through or export the stored logs. With several replicas, Redis holds the alert
  counters, the leader lease, the flush position and the rate limits.

  \<^bold>\<open>Shared theories.\<close> \<open>Prelude\<close>: Go's 64-bit integers, durations, strings, decimal numbers, the collections of
  simplification rules. \<open>Redis\<close>: the commands the program uses as a record of operations \<open>redis_ops\<close>, a locale with
  their laws, and the server with expiring keys that interprets it. \<open>Sql\<close>: programs on a record of tables in which every
  statement may fail as a list of booleans says; transactions; the calculus \<open>keeps\<close> for invariants. \<open>Regex\<close>: the
  fragment of regular expressions that globs are translated to; any other pattern goes to a parameter of type
  \<open>regexp\<close>. \<open>Json\<close>: the objects the notification tables store.

  \<^bold>\<open>Alerts\<close> (\<^verbatim>\<open>alertengine/\<close>, \<^verbatim>\<open>model/alert.go\<close>). \<open>AlertModel\<close>: rules, entries. \<open>AlertMatch\<close>: severities, devices, message
  globs, field conditions (\<^verbatim>\<open>engine.go\<close>, \<^verbatim>\<open>fields.go\<close>). \<open>AlertStore\<close> and \<open>RedisCounterStore\<close>: the two counter stores
  (\<^verbatim>\<open>store.go\<close>), both interpretations of one locale. \<open>AlertEngine\<close>: \<^verbatim>\<open>EvaluateBatch\<close> and the rules it evaluates. \<open>AlertSilence\<close>:
  silent devices and expiring certificates (\<^verbatim>\<open>silence.go\<close>). \<open>AlertTheorems\<close>: the Redis store fires at most once per cooldown;
  a batch does for each rule exactly what the rule's own counter asks for, with either store; firings have a matching
  entry behind them; globs match what they say; the state of silent devices follows the devices.

  \<^bold>\<open>Notifications\<close> (\<^verbatim>\<open>notify/\<close>, \<^verbatim>\<open>db/alerts.go\<close>, \<^verbatim>\<open>db/push.go\<close>, \<^verbatim>\<open>handler/alerts.go\<close>, \<^verbatim>\<open>handler/notifications.go\<close>). \<open>NotifyDB\<close>: the tables
  and their statements. \<open>NotifyChannels\<close>: senders. \<open>Dispatch\<close>: which channel gets a firing and who of its users.
  \<open>NotifyHandlers\<close>: the HTTP side. \<open>NotifyInv\<close>: every statement and handler keeps the tables consistent, whatever fails.
  \<open>NotifyDispatchLemmas\<close>, \<open>NotifyTheorems\<close>: a firing reaches a channel type at most once and all users it names, and is in the
  history. \<open>BellTheorems\<close>: the live stream shows what the list shows, marking as read empties the bell, deletion needs the rights.
  \<open>RuleTheorems\<close>: a created rule reads back as it was given; only owners change channels.

  \<^bold>\<open>Shared state\<close> (\<^verbatim>\<open>sharedstate/\<close>). \<open>FlushTracker\<close>: the flushed position is the end of the gap-free prefix; the loop of the
  Lua script is a partial function with a proof that it returns. \<open>Leader\<close>: a step relation of processes, lost requests
  and lost answers; two processes never hold valid leases at once. \<open>RateLimiter\<close>: no window holds more requests than the limit.

  \<^bold>\<open>API keys\<close> (\<^verbatim>\<open>middleware/apikey.go\<close>, \<^verbatim>\<open>handler/apikeys.go\<close>, \<^verbatim>\<open>util/tokenhash.go\<close>). \<open>ApiKey\<close>: authentication, the limiter of the
  process, the handlers. \<open>ApiKeyTheorems\<close>: an invariant through all interleavings, created keys open what was asked, a reset
  key never opens anything again, and two defects of the limiter.

  \<^bold>\<open>Logs\<close> (\<^verbatim>\<open>handler/querybuilder.go\<close>, \<^verbatim>\<open>handler/logs.go\<close>, \<^verbatim>\<open>handler/export.go\<close>). \<open>Cursor\<close>: cursors with base64, the calendar and RFC 3339
  times, decoding after encoding. \<open>LogQuery\<close>: filters become clauses, whose text and meaning are separate functions.
  \<open>LogQueryTheorems\<close>: the clauses select exactly the rows the request asks for, and the text of a query has no value in it.
  \<open>LogHandlers\<close>: pages, counts with their cache, CSV export. \<open>LogPaging\<close>: following the cursor ends and returns every matching
  row once, in order; the fuel of the client's loop is the number of rows plus one, and the theorem is that this is
  enough. \<open>LogTheorems\<close>: a count served for the wrong filters, the export that loses its filters, cells that are no formulas.

  \<^bold>\<open>Parsers\<close> (\<^verbatim>\<open>parser/engine.go\<close>, \<^verbatim>\<open>handler/parser.go\<close>). \<open>ParserEngine\<close>: matching, extraction, the pattern cache, loading,
  reparsing. \<open>ParserHandlers\<close>: management. \<open>ParserTheorems\<close>: the cache is transparent and a line's fields are those of the first
  parser that gives them; what a reparse changes. \<open>ParserTables\<close>: the invariant of tables and engine; built-in parsers.

  \<^bold>\<open>Ingestion on one server\<close> (\<^verbatim>\<open>model/log.go\<close>, \<^verbatim>\<open>tailer/tailer.go\<close>, \<^verbatim>\<open>tailer/reader.go\<close>, \<^verbatim>\<open>sharedstate/position.go\<close>). \<open>JsonText\<close>: UTF-8 and
  the JSON texts that Go reads and writes. \<open>Ingest\<close>: a line becomes an entry, entries become rows, in chunks and one by one. \<open>Tailer\<close>: the
  scanner, the saved position with its fingerprint, compaction and the loop. \<open>TailerText\<close>: entries are storable whatever bytes a line has;
  the scanner cuts lines; a saved position is found again. \<open>TailerTheorems\<close>: without failures every line is stored and evaluated once, in
  order, and a pass leaves none behind; a batch lost in an outage, and a file stored twice by a compaction that had nothing to do.

  \<^bold>\<open>Ingestion with replicas\<close> (\<^verbatim>\<open>tailer/reader.go\<close>, \<^verbatim>\<open>tailer/worker.go\<close>, \<^verbatim>\<open>tailer/maintenance.go\<close>, \<^verbatim>\<open>control/ingestion.go\<close>). \<open>Control\<close>: pausing, an
  interface with two interpretations. \<open>Pipeline\<close>: the leader's reader, the workers, purge and the preparation of updates. \<open>PipelineInv\<close>: the
  system of a reader, any number of workers and the flush tracker as a step relation, and its invariant. \<open>PipelineTheorems\<close>: the saved
  position never passes a line that is not stored; a failed publish freezes it; the reader resumes what it pauses.

  \<^bold>\<open>Authentication\<close> (\<^verbatim>\<open>auth/auth.go\<close>, \<^verbatim>\<open>handler/auth.go\<close>, \<^verbatim>\<open>handler/sessions.go\<close>, \<^verbatim>\<open>db/sessions.go\<close>). \<open>AuthDB\<close>: users, sessions and settings in the tables.
  \<open>AuthTokens\<close>: signed access tokens with two keys. \<open>AuthHandlers\<close>: login against the tables or a directory, refresh, logout, passwords.
  \<open>AuthTheorems\<close>: who is let in, and when failures lock an account. \<open>AuthSessions\<close>: a refresh token works once; tokens survive one
  rotation of the key; how a logged-out session comes back.

  \<^bold>\<open>User administration\<close> (\<^verbatim>\<open>handler/admin.go\<close>, \<^verbatim>\<open>db/maintenance.go\<close>). \<open>AdminUsers\<close>: the handlers and the upkeep of sessions. \<open>AdminTheorems\<close>:
  the accounts stay well formed through every request and failure, and a deletion spares an administrator, which a change of role does not.

  \<^bold>\<open>Partitions and retention\<close> (\<^verbatim>\<open>db/maintenance.go\<close>, \<^verbatim>\<open>db/db.go\<close>). \<open>Partitions\<close>: creating, dropping and cleaning up partitions of the log
  table. \<open>PartitionCalendar\<close>: days, months and years. \<open>PartitionTheorems\<close>: partitions never overlap, the window ahead is covered, a cleanup
  deletes exactly the rows past the retention, and its loop ends.

  \<^bold>\<open>Secrets\<close> (\<^verbatim>\<open>util/crypt.go\<close>, \<^verbatim>\<open>vaultclient/vaultclient.go\<close>, \<^verbatim>\<open>main.go\<close>). \<open>Secrets\<close>: sealing with two keys. \<open>Rotation\<close>, \<open>VaultRotation\<close>: the rotation of keys and
  credentials by request and by timer. \<open>RotationTheorems\<close>: a rotation in which nothing fails keeps every secret readable, and three ways
  in which secrets or tokens are lost otherwise.

  \<^bold>\<open>Parameters.\<close> Code that is not in the repository is an argument: PostgreSQL's text comparison, search and time parsing
  (\<open>pg_ops\<close>), the order of rows of a query without \<^verbatim>\<open>ORDER BY\<close>, hash functions and encryption, address parsing, the parsing of times, regular
  expressions outside the fragment, the clock and what the controller answers when it is asked, the directory service. The broker is
  the list of messages it took. Strings are lists of bytes; the parsers and globs take a rune as one byte.

  \<^bold>\<open>Bounds.\<close> Loops over lists are structural recursions. The scanner, the chunks of an insertion and the calendar's year loop have a
  measure; the batched deletion and the loop of the flush tracker's script are partial functions, proved to return. The JSON parser has fuel,
  twice the length of the text and one, and the theorem is that more changes nothing; the client that follows cursors has as many steps
  as there are rows and one more, which is enough.

  \<^bold>\<open>Not modelled.\<close> Settings, health and metrics endpoints, dashboards and statistics, relays and their certificates, the cloud bridge,
  the election by the address marker and the connections to the broker, migrations and pools, the HTML export and the export endpoints
  for API keys, routing and plain HTTP middleware. Of these the export endpoints, the settings and the relay handlers hold program logic that can
  still be modelled; the others are input and output, SQL aggregates or calls of libraries.
\<close>

end
